(* ===== verification/Prelude.thy ===== *)
theory Prelude
  imports Main "HOL-Library.Word"
begin

unbundle bit_operations_syntax

text \<open>
  Shared vocabulary of the development: machine integers of the C++ sources, unsigned
  64-bit counters kept on \<^typ>\<open>nat\<close> with their wrap-around written out, lookups in the
  vectors and maps the components keep, and the generic lemmas their proofs use.
\<close>

type_synonym u8 = "8 word"
type_synonym u16 = "16 word"
type_synonym u32 = "32 word"
type_synonym u64 = "64 word"

text \<open>
  A byte string (\<^verbatim>\<open>std::string\<close> and \<^verbatim>\<open>std::vector<char>\<close> used as wire data) is a list of
  octets; identifiers and human readable strings are \<^typ>\<open>string\<close>.
\<close>

type_synonym bytes = "u8 list"

named_theorems state_simps \<open>definitions a component unfolds when a single step is analysed\<close>
named_theorems inv_intros \<open>invariant preservation rules, one per operation\<close>

subsection \<open>64-bit counters on the naturals\<close>

text \<open>
  Indices and terms of type \<^verbatim>\<open>std::uint64_t\<close> that are compared with container sizes are
  naturals; every addition that the C++ performs on them is \<open>u64_add\<close>.
\<close>

definition u64_max :: nat where
  "u64_max = 2 ^ 64 - 1"

definition u64_add :: "nat \<Rightarrow> nat \<Rightarrow> nat" where
  "u64_add a b = (a + b) mod 2 ^ 64"

lemma u64_add_exact [simp]: "a + b \<le> u64_max \<Longrightarrow> u64_add a b = a + b"
  by (simp add: u64_add_def u64_max_def)

lemma u64_add_le_max: "u64_add a b \<le> u64_max"
proof -
  have "(a + b) mod 2 ^ 64 < (2 ^ 64 :: nat)" by simp
  then show ?thesis by (simp add: u64_add_def u64_max_def)
qed

lemma u64_add_wraps: "u64_add u64_max 1 = 0"
  by (simp add: u64_add_def u64_max_def)

subsection \<open>Unsigned 32-bit increment with wrap-around\<close>

definition u32_add :: "nat \<Rightarrow> nat \<Rightarrow> nat" where
  "u32_add a b = (a + b) mod 2 ^ 32"

lemma u32_add_exact [simp]: "a + b < 2 ^ 32 \<Longrightarrow> u32_add a b = a + b"
  by (simp add: u32_add_def)

lemma u32_add_bound: "u32_add a b < 2 ^ 32"
  by (simp add: u32_add_def)

definition u32_sub :: "nat \<Rightarrow> nat \<Rightarrow> nat" where
  "u32_sub a b = (a + 2 ^ 32 - b) mod 2 ^ 32"

lemma u32_sub_exact: "b \<le> a \<Longrightarrow> a < 2 ^ 32 \<Longrightarrow> u32_sub a b = a - b"
  by (simp add: u32_sub_def mod_add_self2 flip: add_diff_assoc2)

text \<open>Conversion of a wider integer to \<^verbatim>\<open>std::int32_t\<close> (modular since C++20).\<close>

definition to_int32 :: "int \<Rightarrow> int" where
  "to_int32 v = (v + 2 ^ 31) mod 2 ^ 32 - 2 ^ 31"

lemma to_int32_exact: "- (2 ^ 31) \<le> v \<Longrightarrow> v < 2 ^ 31 \<Longrightarrow> to_int32 v = v"
  by (simp add: to_int32_def)

lemma to_int32_range: "- (2 ^ 31) \<le> to_int32 v \<and> to_int32 v < 2 ^ 31"
  using pos_mod_sign[of "2 ^ 32" "v + 2 ^ 31"] pos_mod_bound[of "2 ^ 32" "v + 2 ^ 31"]
  by (simp add: to_int32_def del: pos_mod_sign pos_mod_bound)

subsection \<open>Decimal numbers (\<^verbatim>\<open>std::to_string\<close>)\<close>

definition digit_char :: "nat \<Rightarrow> char" where
  "digit_char d = char_of (48 + d)"

fun decimal :: "nat \<Rightarrow> string" where
  "decimal n = (if n < 10 then [digit_char n] else decimal (n div 10) @ [digit_char (n mod 10)])"

declare decimal.simps [simp del]

fun undecimal :: "string \<Rightarrow> nat" where
  "undecimal s = foldl (\<lambda>a c. a * 10 + (of_char c - 48)) 0 s"

lemma of_char_digit: "d < 10 \<Longrightarrow> of_char (digit_char d) - (48 :: nat) = d"
  by (simp add: digit_char_def)

lemma undecimal_decimal: "undecimal (decimal n) = n"
proof (induction n rule: decimal.induct)
  case (1 n)
  then show ?case
    by (subst decimal.simps) (auto simp: of_char_digit)
qed

lemma decimal_inj [simp]: "decimal m = decimal n \<longleftrightarrow> m = n"
  by (metis undecimal_decimal)

subsection \<open>Lists\<close>

lemma take_eq_append_drop:
  "take n xs = ys \<Longrightarrow> xs = ys @ drop n xs"
  by (metis append_take_drop_id)

lemma distinct_map_filter [intro]:
  "distinct (map f xs) \<Longrightarrow> distinct (map f (filter P xs))"
  by (induction xs) auto

lemma map_update_same_key:
  "(\<And>x. key (f x) = key x) \<Longrightarrow> map key (map f xs) = map key xs"
  by (induction xs) auto

lemma find_Some_set: "find P xs = Some x \<Longrightarrow> x \<in> set xs \<and> P x"
  by (metis find_Some_iff nth_mem)

lemma find_None_iff_all: "find P xs = None \<longleftrightarrow> (\<forall>x\<in>set xs. \<not> P x)"
  by (auto simp: find_None_iff)

lemma distinct_concat_map:
  assumes "distinct xs" and "\<And>x. x \<in> set xs \<Longrightarrow> distinct (f x)"
    and "\<And>x y. x \<in> set xs \<Longrightarrow> y \<in> set xs \<Longrightarrow> x \<noteq> y \<Longrightarrow> set (f x) \<inter> set (f y) = {}"
  shows "distinct (concat (map f xs))"
  using assms by (induction xs) fastforce+

subsection \<open>Keyed vectors\<close>

text \<open>\<^verbatim>\<open>std::find_if\<close> followed by an update through the iterator changes the first match.\<close>

fun update_first :: "('a \<Rightarrow> bool) \<Rightarrow> ('a \<Rightarrow> 'a) \<Rightarrow> 'a list \<Rightarrow> 'a list" where
  "update_first P f [] = []"
| "update_first P f (x # xs) = (if P x then f x # xs else x # update_first P f xs)"

lemma map_key_update_first [simp]:
  "(\<And>x. key (f x) = key x) \<Longrightarrow> map key (update_first P f xs) = map key xs"
  by (induction xs) auto

lemma find_key_None:
  "find (\<lambda>i. key i = k) xs = None \<longleftrightarrow> k \<notin> key ` set xs"
  by (auto simp: find_None_iff)

lemma find_update_first:
  assumes "\<And>x. key (f x) = key x"
  shows "find (\<lambda>i. key i = k) (update_first (\<lambda>i. key i = k') f xs) =
    (if k = k' then map_option f (find (\<lambda>i. key i = k) xs) else find (\<lambda>i. key i = k) xs)"
  using assms by (induction xs) auto

lemma find_append: "find P (xs @ ys) = (case find P xs of None \<Rightarrow> find P ys | Some x \<Rightarrow> Some x)"
  by (induction xs) auto

lemma find_key_eq:
  "distinct (map key xs) \<Longrightarrow> x \<in> set xs \<Longrightarrow> find (\<lambda>i. key i = key x) xs = Some x"
  by (induction xs) (auto simp: image_iff)

lemma find_key_filter:
  assumes "distinct (map key xs)"
  shows "find (\<lambda>i. key i = k) (filter P xs) =
    (case find (\<lambda>i. key i = k) xs of None \<Rightarrow> None | Some x \<Rightarrow> if P x then Some x else None)"
  using assms
proof (induction xs)
  case Nil
  then show ?case by simp
next
  case (Cons x xs)
  have "find (\<lambda>i. key i = k) (filter P xs) = None \<and> find (\<lambda>i. key i = k) xs = None"
    if "key x = k"
    using Cons.prems that by (simp add: find_None_iff image_iff) metis
  with Cons show ?case by (cases "key x = k") simp_all
qed

lemma length_update_first [simp]: "length (update_first P f xs) = length xs"
  by (induction xs) auto

subsection \<open>Quorums\<close>

text \<open>Two majorities of one finite set share a member.\<close>

lemma majorities_intersect:
  assumes "finite U" and "A \<subseteq> U" and "B \<subseteq> U"
    and "card U div 2 + 1 \<le> card A" and "card U div 2 + 1 \<le> card B"
  shows "A \<inter> B \<noteq> {}"
proof
  assume "A \<inter> B = {}"
  with assms(1-3) have "card (A \<union> B) = card A + card B"
    by (meson card_Un_disjoint finite_subset)
  moreover have "card (A \<union> B) \<le> card U"
    using assms(1-3) by (simp add: card_mono)
  ultimately show False using assms(4,5) by linarith
qed

subsection \<open>Actors\<close>

text \<open>
  An actor handles one message at a time (\<^verbatim>\<open>Actor::on_message\<close>); a run is the sequence of
  messages its mailbox delivers.
\<close>

definition run_messages :: "('m \<Rightarrow> 's \<Rightarrow> 's) \<Rightarrow> 'm list \<Rightarrow> 's \<Rightarrow> 's" where
  "run_messages on_message ms s = fold on_message ms s"

lemma run_messages_simps [simp]:
  "run_messages f [] s = s"
  "run_messages f (m # ms) s = run_messages f ms (f m s)"
  "run_messages f (ms @ ms') s = run_messages f ms' (run_messages f ms s)"
  by (simp_all add: run_messages_def)

text \<open>The contract of an actor: the messages it admits keep its invariant.\<close>

locale guarded_actor =
  fixes on_message :: "'m \<Rightarrow> 's \<Rightarrow> 's" and inv :: "'s \<Rightarrow> bool" and admits :: "'m \<Rightarrow> bool"
  assumes inv_admitted: "inv s \<Longrightarrow> admits m \<Longrightarrow> inv (on_message m s)"
begin

lemma inv_run_admitted: "inv s \<Longrightarrow> list_all admits ms \<Longrightarrow> inv (run_messages on_message ms s)"
  by (induction ms arbitrary: s) (simp_all add: inv_admitted)

end

text \<open>An actor whose invariant every message keeps.\<close>

locale message_actor =
  fixes on_message :: "'m \<Rightarrow> 's \<Rightarrow> 's" and inv :: "'s \<Rightarrow> bool"
  assumes inv_message: "inv s \<Longrightarrow> inv (on_message m s)"
begin

lemma inv_run: "inv s \<Longrightarrow> inv (run_messages on_message ms s)"
  by (induction ms arbitrary: s) (simp_all add: inv_message)

end

sublocale message_actor \<subseteq> guarded_actor on_message inv "\<lambda>_. True"
  by unfold_locales (rule inv_message)

end
