(* ===== verification/Raft_Node.thy ===== *)
theory Raft_Node
  imports Prelude "HOL-Library.AList"
begin

text \<open>
  One Raft participant (\<^verbatim>\<open>include/v3/cluster/raft.h\<close>, \<^verbatim>\<open>src/v3/cluster/raft.cpp\<close>).
  The object \<^verbatim>\<open>RaftNode\<close> is the record \<open>raft_node\<close>; each mutex-protected region of a member
  function is one definition, and the member functions that release the mutex around an RPC
  are composed from those regions, so that other calls can be interleaved between them
  (theory \<open>Raft_Cluster\<close>).  Terms and indices are naturals with \<open>u64_add\<close>.  The two
  \<^verbatim>\<open>unordered_map\<close>s are association lists; the file written by \<^verbatim>\<open>persist_state_locked\<close> is the
  field \<open>rf_disk\<close>, holding the JSON document as a record (file system errors and the JSON
  text are left out).  The numbers drawn by \<^verbatim>\<open>dist(rng_)\<close> are the sequence \<open>rf_rng\<close>, and the
  callbacks invoked by the node are recorded in \<open>rf_events\<close>.  A read of a vector out of its
  range, undefined in C++, is the value \<open>None\<close>.
\<close>

subsection \<open>Data\<close>

datatype raft_state = KFollower | KCandidate | KLeader

record raft_node_id =
  peer_id :: string
  peer_host :: string
  peer_port :: u16

record log_entry =
  le_term :: nat
  le_command :: string

record request_vote_args =
  rv_term :: nat
  rv_candidate_id :: string
  rv_last_log_term :: nat
  rv_last_log_index :: nat

record request_vote_reply =
  rvr_term :: nat
  rvr_vote_granted :: bool

record append_entries_args =
  ae_term :: nat
  ae_leader_id :: string
  ae_prev_log_index :: nat
  ae_prev_log_term :: nat
  ae_entries :: "log_entry list"
  ae_leader_commit :: nat

record append_entries_reply =
  aer_term :: nat
  aer_success :: bool
  aer_match_index :: nat

record raft_config =
  rc_node_id :: string
  rc_storage_dir :: string
  rc_election_timeout_min :: nat
  rc_election_timeout_max :: nat
  rc_heartbeat_interval :: nat
  rc_peers :: "raft_node_id list"

record raft_document =
  rd_current_term :: nat
  rd_voted_for :: "string option"
  rd_leader_id :: string
  rd_commit_index :: nat
  rd_last_applied :: nat
  rd_log :: "log_entry list"

datatype raft_event = LeaderElected | SteppedDown | Applied nat log_entry

record raft_node =
  rf_config :: raft_config
  rf_peers :: "raft_node_id list"
  rf_current_term :: nat
  rf_voted_for :: "string option"
  rf_state :: raft_state
  rf_leader_id :: string
  rf_log :: "log_entry list"
  rf_election_deadline :: int
  rf_rng :: "nat \<Rightarrow> nat"
  rf_rng_pos :: nat
  rf_votes_received :: nat
  rf_commit_index :: nat
  rf_last_applied :: nat
  rf_next_index :: "(string \<times> nat) list"
  rf_match_index :: "(string \<times> nat) list"
  rf_leader_cb :: bool
  rf_step_down_cb :: bool
  rf_apply_cb :: bool
  rf_events :: "raft_event list"
  rf_disk :: "raft_document option"

abbreviation rf_id :: "raft_node \<Rightarrow> string" where
  "rf_id n \<equiv> rc_node_id (rf_config n)"

subsection \<open>Helpers, persistence and construction\<close>

definition last_log_term_of :: "log_entry list \<Rightarrow> nat" where
  "last_log_term_of l = (if l = [] then 0 else le_term (last l))"

definition quorum_size :: "raft_node \<Rightarrow> nat" where
  "quorum_size n = length (rf_peers n) div 2 + 1"

definition emit :: "raft_event \<Rightarrow> raft_node \<Rightarrow> raft_node" where
  "emit e n = n\<lparr>rf_events := rf_events n @ [e]\<rparr>"

definition reset_election_timeout :: "int \<Rightarrow> raft_node \<Rightarrow> raft_node" where
  "reset_election_timeout now n =
     n\<lparr>rf_election_deadline := now + int (rf_rng n (rf_rng_pos n)),
       rf_rng_pos := rf_rng_pos n + 1\<rparr>"

definition persist_state_locked :: "raft_node \<Rightarrow> raft_node" where
  "persist_state_locked n =
     (if rc_storage_dir (rf_config n) = [] then n
      else n\<lparr>rf_disk := Some \<lparr>rd_current_term = rf_current_term n, rd_voted_for = rf_voted_for n,
               rd_leader_id = rf_leader_id n, rd_commit_index = rf_commit_index n,
               rd_last_applied = rf_last_applied n, rd_log = rf_log n\<rparr>\<rparr>)"

definition load_persistent_state :: "raft_node \<Rightarrow> raft_node" where
  "load_persistent_state n =
     (if rc_storage_dir (rf_config n) = [] then n
      else case rf_disk n of
        None \<Rightarrow> n
      | Some d \<Rightarrow>
          (let commit = min (rd_commit_index d) (length (rd_log d)) in
           n\<lparr>rf_current_term := rd_current_term d, rf_voted_for := rd_voted_for d,
             rf_leader_id := rd_leader_id d, rf_log := rd_log d,
             rf_commit_index := commit, rf_last_applied := min (rd_last_applied d) commit,
             rf_state := KFollower\<rparr>))"

definition new_raft_node ::
  "raft_config \<Rightarrow> (nat \<Rightarrow> nat) \<Rightarrow> raft_document option \<Rightarrow> int \<Rightarrow> raft_node" where
  "new_raft_node cfg rng disk now =
     (let peers = (if rc_peers cfg = []
                   then [\<lparr>peer_id = rc_node_id cfg, peer_host = [], peer_port = 0\<rparr>]
                   else rc_peers cfg) in
      reset_election_timeout now (load_persistent_state
        \<lparr>rf_config = cfg, rf_peers = peers, rf_current_term = 0, rf_voted_for = None,
         rf_state = KFollower, rf_leader_id = [], rf_log = [], rf_election_deadline = 0,
         rf_rng = rng, rf_rng_pos = 0, rf_votes_received = 0, rf_commit_index = 0,
         rf_last_applied = 0, rf_next_index = [], rf_match_index = [], rf_leader_cb = False,
         rf_step_down_cb = False, rf_apply_cb = False, rf_events = [], rf_disk = disk\<rparr>))"

text \<open>A crash and restart: a new object over the file the old one left behind.\<close>

definition restart_node :: "(nat \<Rightarrow> nat) \<Rightarrow> int \<Rightarrow> raft_node \<Rightarrow> raft_node" where
  "restart_node rng now n = new_raft_node (rf_config n) rng (rf_disk n) now"

subsection \<open>State transitions\<close>

definition become_follower :: "int \<Rightarrow> nat \<Rightarrow> raft_node \<Rightarrow> raft_node" where
  "become_follower now term n =
     (let was_leader = (rf_state n = KLeader);
          n1 = persist_state_locked
            ((reset_election_timeout now
               (n\<lparr>rf_state := KFollower, rf_current_term := term, rf_voted_for := None,
                  rf_votes_received := 0, rf_next_index := [], rf_match_index := []\<rparr>))
             \<lparr>rf_leader_id := []\<rparr>)
      in if was_leader \<and> rf_step_down_cb n then emit SteppedDown n1 else n1)"

definition become_leader :: "raft_node \<Rightarrow> raft_node" where
  "become_leader n =
     (let nxt = u64_add (length (rf_log n)) 1;
          others = filter (\<lambda>p. peer_id p \<noteq> rf_id n) (rf_peers n);
          n1 = persist_state_locked
            (n\<lparr>rf_state := KLeader, rf_leader_id := rf_id n,
               rf_next_index := fold (\<lambda>p m. AList.update (peer_id p) nxt m) others [],
               rf_match_index := fold (\<lambda>p m. AList.update (peer_id p) 0 m) others []\<rparr>)
      in if rf_leader_cb n then emit LeaderElected n1 else n1)"

definition start_node :: "raft_node \<Rightarrow> raft_node" where
  "start_node n =
     (if length (rf_peers n) = 1 \<and> peer_id (hd (rf_peers n)) = rf_id n
      then become_leader (if rf_current_term n = 0 then n\<lparr>rf_current_term := 1\<rparr> else n)
      else n)"

definition is_log_up_to_date :: "nat \<Rightarrow> nat \<Rightarrow> raft_node \<Rightarrow> bool" where
  "is_log_up_to_date candidate_last_log_term candidate_last_log_index n =
     (let local_last_term = last_log_term_of (rf_log n) in
      if candidate_last_log_term \<noteq> local_last_term
      then candidate_last_log_term > local_last_term
      else candidate_last_log_index \<ge> length (rf_log n))"

subsection \<open>Elections\<close>

definition start_election_begin :: "int \<Rightarrow> raft_node \<Rightarrow> request_vote_args \<times> raft_node" where
  "start_election_begin now n =
     (let n1 = reset_election_timeout now
            (n\<lparr>rf_current_term := u64_add (rf_current_term n) 1, rf_voted_for := Some (rf_id n),
               rf_votes_received := 1, rf_state := KCandidate, rf_leader_id := []\<rparr>)
      in (\<lparr>rv_term = rf_current_term n1, rv_candidate_id = rf_id n1,
            rv_last_log_term = last_log_term_of (rf_log n1),
            rv_last_log_index = length (rf_log n1)\<rparr>,
          persist_state_locked n1))"

text \<open>The flag of the result tells whether the loop over the peers goes on.\<close>

definition start_election_reply ::
  "int \<Rightarrow> request_vote_args \<Rightarrow> request_vote_reply \<Rightarrow> raft_node \<Rightarrow> bool \<times> raft_node" where
  "start_election_reply now args reply n =
     (if rf_state n \<noteq> KCandidate \<or> rf_current_term n \<noteq> rv_term args then (False, n)
      else if rvr_term reply > rf_current_term n
      then (False, become_follower now (rvr_term reply) n)
      else if rvr_vote_granted reply
      then (True, n\<lparr>rf_votes_received := u64_add (rf_votes_received n) 1\<rparr>)
      else (True, n))"

definition start_election_end :: "raft_node \<Rightarrow> raft_node" where
  "start_election_end n =
     (if rf_state n = KCandidate \<and> rf_votes_received n \<ge> quorum_size n
      then become_leader n else n)"

definition handle_request_vote_internal :: "request_vote_args \<Rightarrow> request_vote_reply" where
  "handle_request_vote_internal args = \<lparr>rvr_term = rv_term args, rvr_vote_granted = True\<rparr>"

text \<open>
  The network: \<open>None\<close> when no \<^verbatim>\<open>rpc_sender_\<close> is installed; an installed sender that answers
  with an empty string is the inner \<open>None\<close>.
\<close>

type_synonym ('q, 'r) rpc_sender = "(raft_node_id \<Rightarrow> 'q \<Rightarrow> 'r option) option"

definition request_vote_rpc ::
  "(request_vote_args, request_vote_reply) rpc_sender \<Rightarrow> raft_node_id \<Rightarrow>
    request_vote_args \<Rightarrow> request_vote_reply" where
  "request_vote_rpc rpc p args =
     (case rpc of
        None \<Rightarrow> handle_request_vote_internal args
      | Some send \<Rightarrow>
          (case send p args of
             None \<Rightarrow> \<lparr>rvr_term = 0, rvr_vote_granted = False\<rparr>
           | Some r \<Rightarrow> r))"

fun election_loop ::
  "(request_vote_args, request_vote_reply) rpc_sender \<Rightarrow> int \<Rightarrow> request_vote_args \<Rightarrow>
    raft_node_id list \<Rightarrow> raft_node \<Rightarrow> raft_node" where
  "election_loop rpc now args [] n = start_election_end n"
| "election_loop rpc now args (p # ps) n =
     (if peer_id p = rf_id n then election_loop rpc now args ps n
      else let (go, n1) = start_election_reply now args (request_vote_rpc rpc p args) n in
           if go then election_loop rpc now args ps n1 else n1)"

definition start_election ::
  "(request_vote_args, request_vote_reply) rpc_sender \<Rightarrow> int \<Rightarrow> raft_node \<Rightarrow> raft_node" where
  "start_election rpc now n =
     (let (args, n1) = start_election_begin now n in election_loop rpc now args (rf_peers n1) n1)"

definition handle_request_vote ::
  "int \<Rightarrow> request_vote_args \<Rightarrow> raft_node \<Rightarrow> request_vote_reply \<times> raft_node" where
  "handle_request_vote now args n =
     (if rv_term args < rf_current_term n
      then (\<lparr>rvr_term = rf_current_term n, rvr_vote_granted = False\<rparr>, n)
      else
       (let n1 = (if rv_term args > rf_current_term n
                  then become_follower now (rv_term args) n else n);
            can_vote = (rf_voted_for n1 = None \<or> rf_voted_for n1 = Some (rv_candidate_id args))
        in if can_vote \<and> is_log_up_to_date (rv_last_log_term args) (rv_last_log_index args) n1
           then (\<lparr>rvr_term = rf_current_term n1, rvr_vote_granted = True\<rparr>,
                 persist_state_locked (reset_election_timeout now
                   (n1\<lparr>rf_voted_for := Some (rv_candidate_id args)\<rparr>)))
           else (\<lparr>rvr_term = rf_current_term n1, rvr_vote_granted = False\<rparr>, n1)))"

subsection \<open>Log replication, follower side\<close>

text \<open>The loop over \<^verbatim>\<open>args.entries\<close>; its result also says whether an entry was appended.\<close>

fun append_loop :: "nat \<Rightarrow> log_entry list \<Rightarrow> log_entry list \<Rightarrow> bool \<times> log_entry list" where
  "append_loop i [] l = (False, l)"
| "append_loop i (e # es) l =
     (let l1 = (if i < length l \<and> (le_term (l ! i) \<noteq> le_term e \<or> le_command (l ! i) \<noteq> le_command e)
                then take i l else l)
      in if i \<ge> length l1 then (True, snd (append_loop (i + 1) es (l1 @ [e])))
         else append_loop (i + 1) es l1)"

function drain_loop ::
  "nat \<Rightarrow> log_entry list \<Rightarrow> nat \<Rightarrow> (nat \<times> log_entry) list \<Rightarrow> nat \<times> (nat \<times> log_entry) list" where
  "drain_loop commit l last_applied applied =
     (if last_applied < commit \<and> last_applied < length l
      then drain_loop commit l (last_applied + 1)
             (applied @ [(last_applied + 1, l ! last_applied)])
      else (last_applied, applied))"
  by pat_completeness auto
termination by (relation "measure (\<lambda>(commit, l, la, applied). commit - la)") auto

declare drain_loop.simps [simp del]

definition drain_committed_entries_locked ::
  "raft_node \<Rightarrow> (nat \<times> log_entry) list \<times> raft_node" where
  "drain_committed_entries_locked n =
     (let (la, applied) = drain_loop (rf_commit_index n) (rf_log n) (rf_last_applied n) []
      in (applied, n\<lparr>rf_last_applied := la\<rparr>))"

definition deliver_applied_entries :: "(nat \<times> log_entry) list \<Rightarrow> raft_node \<Rightarrow> raft_node" where
  "deliver_applied_entries applied n =
     (if \<not> rf_apply_cb n then n
      else n\<lparr>rf_events := rf_events n @ map (\<lambda>(i, e). Applied i e) applied\<rparr>)"

definition append_reply :: "raft_node \<Rightarrow> bool \<Rightarrow> append_entries_reply" where
  "append_reply n ok =
     \<lparr>aer_term = rf_current_term n, aer_success = ok, aer_match_index = length (rf_log n)\<rparr>"

text \<open>
  The handler is composed of its prologue (term check and timer), the branch for a conflicting
  previous entry, and the branch that appends and applies.
\<close>

definition append_prologue :: "int \<Rightarrow> append_entries_args \<Rightarrow> raft_node \<Rightarrow> raft_node" where
  "append_prologue now args n =
     (let n1 = (if ae_term args > rf_current_term n then become_follower now (ae_term args) n
                else if rf_state n = KCandidate then become_follower now (ae_term args) n
                else n)
      in reset_election_timeout now (n1\<lparr>rf_leader_id := ae_leader_id args\<rparr>))"

definition append_reject :: "nat \<Rightarrow> raft_node \<Rightarrow> append_entries_reply \<times> raft_node" where
  "append_reject prev n =
     (let n1 = n\<lparr>rf_log := take (prev - 1) (rf_log n)\<rparr>;
          n2 = n1\<lparr>rf_commit_index := min (rf_commit_index n1) (length (rf_log n1))\<rparr>;
          n3 = n2\<lparr>rf_last_applied := min (rf_last_applied n2) (rf_commit_index n2)\<rparr>
      in (append_reply n3 False, persist_state_locked n3))"

definition append_accept ::
  "append_entries_args \<Rightarrow> raft_node \<Rightarrow> append_entries_reply \<times> raft_node" where
  "append_accept args n =
     (let n1 = n\<lparr>rf_log := snd (append_loop (ae_prev_log_index args) (ae_entries args) (rf_log n))\<rparr>;
          n2 = n1\<lparr>rf_commit_index :=
                 (if ae_leader_commit args > rf_commit_index n1
                  then min (ae_leader_commit args) (length (rf_log n1)) else rf_commit_index n1)\<rparr>;
          (applied, n3) = drain_committed_entries_locked n2;
          n4 = persist_state_locked n3
      in (append_reply n4 True, deliver_applied_entries applied n4))"

definition handle_append_entries ::
  "int \<Rightarrow> append_entries_args \<Rightarrow> raft_node \<Rightarrow> append_entries_reply \<times> raft_node" where
  "handle_append_entries now args n =
     (if ae_term args < rf_current_term n then (append_reply n False, n)
      else
       (let n1 = append_prologue now args n; prev = ae_prev_log_index args
        in if prev > length (rf_log n1)
           then (\<lparr>aer_term = rf_current_term n1, aer_success = False,
                   aer_match_index = length (rf_log n)\<rparr>, n1)
           else if prev > 0 \<and> le_term (rf_log n1 ! (prev - 1)) \<noteq> ae_prev_log_term args
           then append_reject prev n1
           else append_accept args n1))"

subsection \<open>Log replication, leader side\<close>

definition make_append_entries_for :: "string \<Rightarrow> raft_node \<Rightarrow> append_entries_args" where
  "make_append_entries_for pid n =
     (let size = length (rf_log n);
          nxt = (case map_of (rf_next_index n) pid of None \<Rightarrow> u64_add size 1 | Some i \<Rightarrow> i);
          has_prev = (nxt > 1 \<and> nxt - 1 \<le> size)
      in \<lparr>ae_term = rf_current_term n, ae_leader_id = rf_id n,
          ae_prev_log_index = (if has_prev then nxt - 1 else 0),
          ae_prev_log_term = (if has_prev then le_term (rf_log n ! (nxt - 2)) else 0),
          ae_entries = (if nxt \<ge> 1 \<and> nxt \<le> size then drop (nxt - 1) (rf_log n) else []),
          ae_leader_commit = rf_commit_index n\<rparr>)"

definition update_commit_index_locked :: "raft_node \<Rightarrow> raft_node option" where
  "update_commit_index_locked n =
     (let replicated = sort (length (rf_log n) # map snd (rf_match_index n)) in
      if length replicated < quorum_size n then None
      else
       (let candidate = replicated ! (length replicated - quorum_size n) in
        if candidate > rf_commit_index n \<and> candidate \<le> length (rf_log n)
           \<and> le_term (rf_log n ! (candidate - 1)) = rf_current_term n
        then Some (n\<lparr>rf_commit_index := candidate\<rparr>) else Some n))"

definition back_off_next_index :: "string \<Rightarrow> raft_node \<Rightarrow> raft_node" where
  "back_off_next_index pid n =
     (let nxt = (case map_of (rf_next_index n) pid of None \<Rightarrow> 0 | Some i \<Rightarrow> i) in
      n\<lparr>rf_next_index := AList.update pid (if nxt > 1 then nxt - 1 else 1) (rf_next_index n)\<rparr>)"

definition record_match :: "string \<Rightarrow> nat \<Rightarrow> raft_node \<Rightarrow> raft_node" where
  "record_match pid m n =
     n\<lparr>rf_match_index := AList.update pid m (rf_match_index n),
       rf_next_index := AList.update pid (u64_add m 1) (rf_next_index n)\<rparr>"

definition heartbeat_reply ::
  "int \<Rightarrow> string \<Rightarrow> append_entries_reply \<Rightarrow> raft_node \<Rightarrow> (bool \<times> raft_node) option" where
  "heartbeat_reply now pid reply n =
     (if aer_term reply > rf_current_term n
      then Some (False, become_follower now (aer_term reply) n)
      else if rf_state n \<noteq> KLeader then Some (False, n)
      else if aer_success reply
      then map_option (\<lambda>n1. (True, persist_state_locked n1))
             (update_commit_index_locked (record_match pid (aer_match_index reply) n))
      else Some (True, back_off_next_index pid n))"

fun heartbeat_loop ::
  "(append_entries_args, append_entries_reply) rpc_sender \<Rightarrow> int \<Rightarrow> raft_node_id list \<Rightarrow>
    raft_node \<Rightarrow> raft_node option" where
  "heartbeat_loop rpc now [] n = Some n"
| "heartbeat_loop rpc now (p # ps) n =
     (if peer_id p = rf_id n then heartbeat_loop rpc now ps n
      else if rf_state n \<noteq> KLeader then Some n
      else case rpc of
        None \<Rightarrow> heartbeat_loop rpc now ps n
      | Some send \<Rightarrow>
          (case send p (make_append_entries_for (peer_id p) n) of
             None \<Rightarrow> heartbeat_loop rpc now ps n
           | Some reply \<Rightarrow>
               (case heartbeat_reply now (peer_id p) reply n of
                  None \<Rightarrow> None
                | Some (go, n1) \<Rightarrow> if go then heartbeat_loop rpc now ps n1 else Some n1)))"

definition send_heartbeat ::
  "(append_entries_args, append_entries_reply) rpc_sender \<Rightarrow> int \<Rightarrow> raft_node \<Rightarrow>
    raft_node option" where
  "send_heartbeat rpc now n = heartbeat_loop rpc now (rf_peers n) n"

definition append_command_begin :: "string \<Rightarrow> raft_node \<Rightarrow> (raft_node_id list \<times> raft_node) option" where
  "append_command_begin command n =
     (if rf_state n \<noteq> KLeader then None
      else
       (let n1 = n\<lparr>rf_log := rf_log n @ [\<lparr>le_term = rf_current_term n, le_command = command\<rparr>]\<rparr>;
            n2 = n1\<lparr>rf_match_index := AList.update (rf_id n1) (length (rf_log n1)) (rf_match_index n1)\<rparr>
        in Some (filter (\<lambda>p. peer_id p \<noteq> rf_id n2) (rf_peers n2), persist_state_locked n2)))"

definition append_entries_rpc ::
  "(append_entries_args, append_entries_reply) rpc_sender \<Rightarrow> raft_node_id \<Rightarrow>
    append_entries_args \<Rightarrow> append_entries_reply" where
  "append_entries_rpc rpc p args =
     (case rpc of
        None \<Rightarrow> \<lparr>aer_term = ae_term args, aer_success = True,
                 aer_match_index = u64_add (ae_prev_log_index args) (length (ae_entries args))\<rparr>
      | Some send \<Rightarrow>
          (case send p args of
             None \<Rightarrow> \<lparr>aer_term = 0, aer_success = False, aer_match_index = 0\<rparr>
           | Some r \<Rightarrow> r))"

text \<open>\<open>None\<close>: the command failed because the node stepped down; otherwise the success flag.\<close>

definition append_command_reply ::
  "int \<Rightarrow> string \<Rightarrow> append_entries_reply \<Rightarrow> raft_node \<Rightarrow> bool option \<times> raft_node" where
  "append_command_reply now pid reply n =
     (if aer_term reply > rf_current_term n
      then (None, become_follower now (aer_term reply) n)
      else if \<not> aer_success reply then (Some False, back_off_next_index pid n)
      else (Some True, record_match pid (aer_match_index reply) n))"

fun append_command_loop ::
  "(append_entries_args, append_entries_reply) rpc_sender \<Rightarrow> int \<Rightarrow> raft_node_id list \<Rightarrow> nat \<Rightarrow>
    raft_node \<Rightarrow> nat option \<times> raft_node" where
  "append_command_loop rpc now [] successes n = (Some successes, n)"
| "append_command_loop rpc now (p # ps) successes n =
     (if rf_state n \<noteq> KLeader then (None, n)
      else
       (case append_command_reply now (peer_id p)
               (append_entries_rpc rpc p (make_append_entries_for (peer_id p) n)) n of
          (None, n1) \<Rightarrow> (None, n1)
        | (Some ok, n1) \<Rightarrow>
            append_command_loop rpc now ps (if ok then successes + 1 else successes) n1))"

definition append_command_finish :: "nat \<Rightarrow> raft_node \<Rightarrow> (bool \<times> raft_node) option" where
  "append_command_finish successes n =
     (if successes < quorum_size n then Some (False, n)
      else
       (case update_commit_index_locked n of
          None \<Rightarrow> None
        | Some n1 \<Rightarrow>
            (let (applied, n2) = drain_committed_entries_locked n1
             in Some (True, deliver_applied_entries applied (persist_state_locked n2)))))"

definition append_command ::
  "(append_entries_args, append_entries_reply) rpc_sender \<Rightarrow> int \<Rightarrow> string \<Rightarrow> raft_node \<Rightarrow>
    (bool \<times> raft_node) option" where
  "append_command rpc now command n =
     (case append_command_begin command n of
        None \<Rightarrow> Some (False, n)
      | Some (targets, n1) \<Rightarrow>
          (case append_command_loop rpc now targets 1 n1 of
             (None, n2) \<Rightarrow> Some (False, n2)
           | (Some successes, n2) \<Rightarrow>
               (case append_command_finish successes n2 of
                  None \<Rightarrow> None
                | Some (False, n3) \<Rightarrow> Some (False, n3)
                | Some (True, n3) \<Rightarrow> map_option (Pair True) (send_heartbeat rpc now n3))))"

subsection \<open>The timer thread, observers and callbacks\<close>

text \<open>One turn of \<^verbatim>\<open>run()\<close>, and the milliseconds it sleeps afterwards.\<close>

definition run_turn ::
  "(request_vote_args, request_vote_reply) rpc_sender \<Rightarrow>
    (append_entries_args, append_entries_reply) rpc_sender \<Rightarrow> int \<Rightarrow> raft_node \<Rightarrow>
    (nat \<times> raft_node) option" where
  "run_turn rv ae now n =
     (if rf_state n = KLeader
      then map_option (Pair (rc_heartbeat_interval (rf_config n))) (send_heartbeat ae now n)
      else if now \<ge> rf_election_deadline n then Some (10, start_election rv now n)
      else Some (10, n))"

definition on_apply :: "bool \<Rightarrow> raft_node \<Rightarrow> raft_node" where
  "on_apply cb n =
     (let n1 = n\<lparr>rf_apply_cb := cb\<rparr> in
      if \<not> cb then n1
      else deliver_applied_entries
             (map (\<lambda>i. (i, rf_log n1 ! (i - 1)))
               [1..<Suc (min (rf_last_applied n1) (length (rf_log n1)))]) n1)"

definition log_command :: "nat \<Rightarrow> raft_node \<Rightarrow> string" where
  "log_command index n =
     (if index = 0 \<or> index > length (rf_log n) then [] else le_command (rf_log n ! (index - 1)))"

subsection \<open>What the operations leave alone\<close>

lemma persist_keeps [simp]:
  "rf_config (persist_state_locked n) = rf_config n"
  "rf_peers (persist_state_locked n) = rf_peers n"
  "rf_current_term (persist_state_locked n) = rf_current_term n"
  "rf_voted_for (persist_state_locked n) = rf_voted_for n"
  "rf_state (persist_state_locked n) = rf_state n"
  "rf_leader_id (persist_state_locked n) = rf_leader_id n"
  "rf_log (persist_state_locked n) = rf_log n"
  "rf_election_deadline (persist_state_locked n) = rf_election_deadline n"
  "rf_rng (persist_state_locked n) = rf_rng n"
  "rf_rng_pos (persist_state_locked n) = rf_rng_pos n"
  "rf_votes_received (persist_state_locked n) = rf_votes_received n"
  "rf_commit_index (persist_state_locked n) = rf_commit_index n"
  "rf_last_applied (persist_state_locked n) = rf_last_applied n"
  "rf_next_index (persist_state_locked n) = rf_next_index n"
  "rf_match_index (persist_state_locked n) = rf_match_index n"
  "rf_leader_cb (persist_state_locked n) = rf_leader_cb n"
  "rf_step_down_cb (persist_state_locked n) = rf_step_down_cb n"
  "rf_apply_cb (persist_state_locked n) = rf_apply_cb n"
  "rf_events (persist_state_locked n) = rf_events n"
  by (simp_all add: persist_state_locked_def)

lemma reset_timeout_keeps [simp]:
  "rf_config (reset_election_timeout now n) = rf_config n"
  "rf_peers (reset_election_timeout now n) = rf_peers n"
  "rf_current_term (reset_election_timeout now n) = rf_current_term n"
  "rf_voted_for (reset_election_timeout now n) = rf_voted_for n"
  "rf_state (reset_election_timeout now n) = rf_state n"
  "rf_leader_id (reset_election_timeout now n) = rf_leader_id n"
  "rf_log (reset_election_timeout now n) = rf_log n"
  "rf_rng (reset_election_timeout now n) = rf_rng n"
  "rf_votes_received (reset_election_timeout now n) = rf_votes_received n"
  "rf_commit_index (reset_election_timeout now n) = rf_commit_index n"
  "rf_last_applied (reset_election_timeout now n) = rf_last_applied n"
  "rf_next_index (reset_election_timeout now n) = rf_next_index n"
  "rf_match_index (reset_election_timeout now n) = rf_match_index n"
  "rf_leader_cb (reset_election_timeout now n) = rf_leader_cb n"
  "rf_step_down_cb (reset_election_timeout now n) = rf_step_down_cb n"
  "rf_apply_cb (reset_election_timeout now n) = rf_apply_cb n"
  "rf_events (reset_election_timeout now n) = rf_events n"
  "rf_disk (reset_election_timeout now n) = rf_disk n"
  by (simp_all add: reset_election_timeout_def)

lemma emit_keeps [simp]:
  "rf_config (emit e n) = rf_config n"
  "rf_peers (emit e n) = rf_peers n"
  "rf_current_term (emit e n) = rf_current_term n"
  "rf_voted_for (emit e n) = rf_voted_for n"
  "rf_state (emit e n) = rf_state n"
  "rf_leader_id (emit e n) = rf_leader_id n"
  "rf_log (emit e n) = rf_log n"
  "rf_election_deadline (emit e n) = rf_election_deadline n"
  "rf_rng (emit e n) = rf_rng n"
  "rf_rng_pos (emit e n) = rf_rng_pos n"
  "rf_votes_received (emit e n) = rf_votes_received n"
  "rf_commit_index (emit e n) = rf_commit_index n"
  "rf_last_applied (emit e n) = rf_last_applied n"
  "rf_next_index (emit e n) = rf_next_index n"
  "rf_match_index (emit e n) = rf_match_index n"
  "rf_leader_cb (emit e n) = rf_leader_cb n"
  "rf_step_down_cb (emit e n) = rf_step_down_cb n"
  "rf_apply_cb (emit e n) = rf_apply_cb n"
  "rf_disk (emit e n) = rf_disk n"
  by (simp_all add: emit_def)

lemma deliver_keeps [simp]:
  "rf_config (deliver_applied_entries as n) = rf_config n"
  "rf_peers (deliver_applied_entries as n) = rf_peers n"
  "rf_current_term (deliver_applied_entries as n) = rf_current_term n"
  "rf_voted_for (deliver_applied_entries as n) = rf_voted_for n"
  "rf_state (deliver_applied_entries as n) = rf_state n"
  "rf_leader_id (deliver_applied_entries as n) = rf_leader_id n"
  "rf_log (deliver_applied_entries as n) = rf_log n"
  "rf_election_deadline (deliver_applied_entries as n) = rf_election_deadline n"
  "rf_rng (deliver_applied_entries as n) = rf_rng n"
  "rf_rng_pos (deliver_applied_entries as n) = rf_rng_pos n"
  "rf_votes_received (deliver_applied_entries as n) = rf_votes_received n"
  "rf_commit_index (deliver_applied_entries as n) = rf_commit_index n"
  "rf_last_applied (deliver_applied_entries as n) = rf_last_applied n"
  "rf_next_index (deliver_applied_entries as n) = rf_next_index n"
  "rf_match_index (deliver_applied_entries as n) = rf_match_index n"
  "rf_leader_cb (deliver_applied_entries as n) = rf_leader_cb n"
  "rf_step_down_cb (deliver_applied_entries as n) = rf_step_down_cb n"
  "rf_apply_cb (deliver_applied_entries as n) = rf_apply_cb n"
  "rf_disk (deliver_applied_entries as n) = rf_disk n"
  by (simp_all add: deliver_applied_entries_def)

lemma deliver_events [simp]:
  "rf_events (deliver_applied_entries as n) =
     rf_events n @ (if rf_apply_cb n then map (\<lambda>(i, e). Applied i e) as else [])"
  by (simp add: deliver_applied_entries_def)

lemma become_follower_effect [simp]:
  "rf_config (become_follower now t n) = rf_config n"
  "rf_peers (become_follower now t n) = rf_peers n"
  "rf_current_term (become_follower now t n) = t"
  "rf_voted_for (become_follower now t n) = None"
  "rf_state (become_follower now t n) = KFollower"
  "rf_leader_id (become_follower now t n) = []"
  "rf_log (become_follower now t n) = rf_log n"
  "rf_votes_received (become_follower now t n) = 0"
  "rf_commit_index (become_follower now t n) = rf_commit_index n"
  "rf_last_applied (become_follower now t n) = rf_last_applied n"
  "rf_next_index (become_follower now t n) = []"
  "rf_match_index (become_follower now t n) = []"
  "rf_apply_cb (become_follower now t n) = rf_apply_cb n"
  by (simp_all add: become_follower_def Let_def)

lemma become_leader_effect [simp]:
  "rf_config (become_leader n) = rf_config n"
  "rf_peers (become_leader n) = rf_peers n"
  "rf_current_term (become_leader n) = rf_current_term n"
  "rf_voted_for (become_leader n) = rf_voted_for n"
  "rf_state (become_leader n) = KLeader"
  "rf_leader_id (become_leader n) = rf_id n"
  "rf_log (become_leader n) = rf_log n"
  "rf_votes_received (become_leader n) = rf_votes_received n"
  "rf_commit_index (become_leader n) = rf_commit_index n"
  "rf_last_applied (become_leader n) = rf_last_applied n"
  "rf_apply_cb (become_leader n) = rf_apply_cb n"
  by (simp_all add: become_leader_def Let_def)

lemma quorum_size_cong: "rf_peers n' = rf_peers n \<Longrightarrow> quorum_size n' = quorum_size n"
  by (simp add: quorum_size_def)

lemma last_log_term_of_append [simp]: "last_log_term_of (l @ [e]) = le_term e"
  by (simp add: last_log_term_of_def)

subsection \<open>The draining loop\<close>

lemma drain_loop_spec:
  "drain_loop commit l la acc =
     (max la (min commit (length l)),
      acc @ map (\<lambda>i. (Suc i, l ! i)) [la..<min commit (length l)])"
proof (induction commit l la acc rule: drain_loop.induct)
  case (1 commit l la acc)
  show ?case
  proof (cases "la < commit \<and> la < length l")
    case True
    then have "[la..<min commit (length l)] = la # [Suc la..<min commit (length l)]"
      by (simp add: upt_conv_Cons)
    with True 1 show ?thesis by (simp add: drain_loop.simps [of commit l la] max_def)
  qed (auto simp: drain_loop.simps max_def min_def)
qed

lemma drain_committed_spec:
  "drain_committed_entries_locked n =
     (map (\<lambda>i. (Suc i, rf_log n ! i))
        [rf_last_applied n..<min (rf_commit_index n) (length (rf_log n))],
      n\<lparr>rf_last_applied := max (rf_last_applied n) (min (rf_commit_index n) (length (rf_log n)))\<rparr>)"
  by (simp add: drain_committed_entries_locked_def drain_loop_spec)

end
