(* ===== verification/Raft_Cluster.thy ===== *)
theory Raft_Cluster
  imports Raft_Node
begin

text \<open>
  Raft nodes working together.  \<open>cluster_step\<close> interleaves the mutex-protected regions of
  \<open>Raft_Node\<close>: elections (one loop over the peers per node, run by the timer thread), votes,
  arbitrary AppendEntries traffic, leader-side replies, commands, and crashes followed by a
  restart from the persisted file.  The main result is election safety: no two nodes are ever
  leaders of the same term.
\<close>

subsection \<open>Durable votes\<close>

text \<open>What the file holds agrees with the term, the vote and the log in memory.\<close>

definition durable :: "raft_node \<Rightarrow> bool" where
  "durable n \<longleftrightarrow>
     (rc_storage_dir (rf_config n) \<noteq> [] \<longrightarrow>
      (case rf_disk n of
         None \<Rightarrow> rf_current_term n = 0 \<and> rf_voted_for n = None \<and> rf_log n = []
       | Some d \<Rightarrow> rd_current_term d = rf_current_term n \<and> rd_voted_for d = rf_voted_for n
           \<and> rd_log d = rf_log n))"

lemma durable_persist [simp, intro]: "durable (persist_state_locked n)"
  by (simp add: durable_def persist_state_locked_def)

lemma durable_updates [simp]:
  "durable (n\<lparr>rf_leader_id := l\<rparr>) = durable n"
  "durable (n\<lparr>rf_commit_index := c\<rparr>) = durable n"
  "durable (n\<lparr>rf_last_applied := c\<rparr>) = durable n"
  "durable (n\<lparr>rf_votes_received := c\<rparr>) = durable n"
  "durable (n\<lparr>rf_next_index := m\<rparr>) = durable n"
  "durable (n\<lparr>rf_match_index := m\<rparr>) = durable n"
  "durable (n\<lparr>rf_apply_cb := b\<rparr>) = durable n"
  by (simp_all add: durable_def split: option.split)

lemma durable_emit [simp]: "durable (emit e n) = durable n"
  by (simp add: durable_def split: option.splits)

lemma durable_deliver [simp]: "durable (deliver_applied_entries as n) = durable n"
  by (simp add: durable_def split: option.splits)

lemma durable_reset_timeout [simp]: "durable (reset_election_timeout now n) = durable n"
  by (simp add: durable_def split: option.splits)

lemma durable_become_follower [simp]: "durable (become_follower now t n)"
  by (simp add: become_follower_def Let_def)

lemma durable_become_leader [simp]: "durable (become_leader n)"
  by (simp add: become_leader_def Let_def)

text \<open>
  \<open>nstep\<close> is what an operation without a new vote or candidacy may do to the voting state: a
  vote is only withdrawn together with a candidacy or by a newer term.
\<close>

definition nstep :: "raft_node \<Rightarrow> raft_node \<Rightarrow> bool" where
  "nstep n n' \<longleftrightarrow>
     rf_config n' = rf_config n \<and> rf_peers n' = rf_peers n \<and> (durable n \<longrightarrow> durable n') \<and>
     rf_current_term n \<le> rf_current_term n' \<and>
     (rf_state n' = KCandidate \<longrightarrow> rf_state n = KCandidate \<and> rf_current_term n' = rf_current_term n
        \<and> rf_voted_for n' = rf_voted_for n \<and> rf_votes_received n' = rf_votes_received n) \<and>
     (rf_state n' = KLeader \<longrightarrow> rf_state n = KLeader \<and> rf_current_term n' = rf_current_term n) \<and>
     (rf_current_term n' = rf_current_term n \<longrightarrow>
        rf_voted_for n' = rf_voted_for n \<or> rf_state n = KCandidate)"

lemma nstep_refl [simp, intro]: "nstep n n"
  by (simp add: nstep_def)

lemma nstep_become_follower:
  "rf_current_term n < t \<or> rf_current_term n = t \<and> rf_state n = KCandidate \<Longrightarrow>
    nstep n (become_follower now t n)"
  by (auto simp: nstep_def)

text \<open>An update that leaves the voting state alone.\<close>

lemma nstep_same:
  assumes "rf_config n' = rf_config n" and "rf_peers n' = rf_peers n"
    and "rf_current_term n' = rf_current_term n" and "rf_voted_for n' = rf_voted_for n"
    and "rf_state n' = rf_state n" and "rf_votes_received n' = rf_votes_received n"
    and "durable n \<longrightarrow> durable n'"
  shows "nstep n n'"
  using assms by (simp add: nstep_def)

lemma nstep_trans_same:
  assumes "nstep n n'" and "rf_config n'' = rf_config n'" and "rf_peers n'' = rf_peers n'"
    and "rf_current_term n'' = rf_current_term n'" and "rf_voted_for n'' = rf_voted_for n'"
    and "rf_state n'' = rf_state n'" and "rf_votes_received n'' = rf_votes_received n'"
    and "durable n' \<longrightarrow> durable n''"
  shows "nstep n n''"
  using assms by (auto simp: nstep_def)

subsection \<open>Calls that take part in no election\<close>

datatype raft_call =
    CallAppendEntries append_entries_args
  | CallHeartbeatReply string append_entries_reply
  | CallAppendBegin string
  | CallAppendReply string append_entries_reply
  | CallAppendFinish nat
  | CallOnApply bool

text \<open>\<open>None\<close> is the undefined vector access of \<^verbatim>\<open>update_commit_index_locked\<close>.\<close>

fun raft_call_step :: "int \<Rightarrow> raft_call \<Rightarrow> raft_node \<Rightarrow> raft_node option" where
  "raft_call_step now (CallAppendEntries args) n = Some (snd (handle_append_entries now args n))"
| "raft_call_step now (CallHeartbeatReply pid reply) n =
     map_option snd (heartbeat_reply now pid reply n)"
| "raft_call_step now (CallAppendBegin command) n =
     (case append_command_begin command n of None \<Rightarrow> Some n | Some (targets, n') \<Rightarrow> Some n')"
| "raft_call_step now (CallAppendReply pid reply) n =
     Some (snd (append_command_reply now pid reply n))"
| "raft_call_step now (CallAppendFinish successes) n =
     map_option snd (append_command_finish successes n)"
| "raft_call_step now (CallOnApply cb) n = Some (on_apply cb n)"

lemma nstep_append_prologue:
  assumes "rf_current_term n \<le> ae_term args"
  shows "nstep n (append_prologue now args n)"
proof -
  consider "rf_current_term n < ae_term args"
    | "rf_current_term n = ae_term args" "rf_state n = KCandidate"
    | "rf_current_term n = ae_term args" "rf_state n \<noteq> KCandidate"
    using assms by linarith
  then show ?thesis by cases (auto simp: append_prologue_def nstep_def)
qed

lemma nstep_append_reject: "nstep n (snd (append_reject prev n))"
  by (rule nstep_same) (simp_all add: append_reject_def Let_def)

lemma nstep_append_accept: "nstep n (snd (append_accept args n))"
  by (rule nstep_same) (simp_all add: append_accept_def Let_def drain_committed_spec)

lemma nstep_trans: "nstep a b \<Longrightarrow> nstep b c \<Longrightarrow> nstep a c"
  by (auto simp: nstep_def)

lemma nstep_handle_append_entries: "nstep n (snd (handle_append_entries now args n))"
  using nstep_append_prologue [of n args now] nstep_trans [OF _ nstep_append_reject]
    nstep_trans [OF _ nstep_append_accept]
  by (simp add: handle_append_entries_def Let_def)

lemma update_commit_index_Some:
  "update_commit_index_locked n = Some n' \<Longrightarrow>
    \<exists>c. n' = n\<lparr>rf_commit_index := c\<rparr> \<and> rf_commit_index n \<le> c"
  by (auto simp: update_commit_index_locked_def Let_def split: if_splits
      intro: exI [of _ "rf_commit_index n"] less_imp_le)

lemma nstep_commit_index:
  "nstep n m \<Longrightarrow> nstep n (m\<lparr>rf_commit_index := c\<rparr>)"
  by (erule nstep_trans_same) auto

lemma nstep_persist: "nstep n m \<Longrightarrow> nstep n (persist_state_locked m)"
  by (erule nstep_trans_same) auto

lemma nstep_back_off: "nstep n (back_off_next_index pid n)"
  by (auto simp: back_off_next_index_def Let_def intro!: nstep_same)

lemma nstep_record_match: "nstep n (record_match pid m n)"
  by (auto simp: record_match_def intro!: nstep_same)

lemma nstep_heartbeat_reply:
  "heartbeat_reply now pid reply n = Some (go, n') \<Longrightarrow> nstep n n'"
  by (auto simp: heartbeat_reply_def nstep_become_follower nstep_back_off nstep_record_match
      nstep_commit_index nstep_persist dest!: update_commit_index_Some split: if_splits)

lemma nstep_append_command_begin:
  "append_command_begin command n = Some (targets, n') \<Longrightarrow> nstep n n'"
  by (auto simp: append_command_begin_def Let_def split: if_splits intro!: nstep_same)

lemma nstep_append_command_reply: "nstep n (snd (append_command_reply now pid reply n))"
  by (simp add: append_command_reply_def nstep_become_follower nstep_back_off nstep_record_match)

lemma nstep_append_command_finish:
  "append_command_finish successes n = Some (ok, n') \<Longrightarrow> nstep n n'"
  by (auto simp: append_command_finish_def drain_committed_spec
      dest!: update_commit_index_Some split: if_splits option.splits intro!: nstep_same)

lemma nstep_on_apply: "nstep n (on_apply cb n)"
  by (auto simp: on_apply_def Let_def intro!: nstep_same)

fun call_seq :: "('c \<Rightarrow> 's \<Rightarrow> 's option) \<Rightarrow> 'c list \<Rightarrow> 's \<Rightarrow> 's option" where
  "call_seq call [] n = Some n"
| "call_seq call (c # cs) n = (case call c n of None \<Rightarrow> None | Some n' \<Rightarrow> call_seq call cs n')"

text \<open>
  The interface an RPC endpoint offers to the election protocol: its calls never add a vote,
  a candidacy or a leadership.
\<close>

locale vote_keeper =
  fixes call :: "'c \<Rightarrow> raft_node \<Rightarrow> raft_node option"
  assumes call_nstep: "call c n = Some n' \<Longrightarrow> nstep n n'"
begin

lemma calls_term_mono: "call_seq call cs n = Some n' \<Longrightarrow> rf_current_term n \<le> rf_current_term n'"
proof (induction cs arbitrary: n)
  case (Cons c cs)
  then obtain m where "call c n = Some m" and "call_seq call cs m = Some n'"
    by (auto split: option.splits)
  with Cons.IH call_nstep show ?case by (fastforce simp: nstep_def)
qed simp

lemma calls_durable: "call_seq call cs n = Some n' \<Longrightarrow> durable n \<Longrightarrow> durable n'"
proof (induction cs arbitrary: n)
  case (Cons c cs)
  then obtain m where "call c n = Some m" and "call_seq call cs m = Some n'"
    by (auto split: option.splits)
  with Cons call_nstep show ?case by (fastforce simp: nstep_def)
qed simp

lemma calls_elect_nobody:
  "call_seq call cs n = Some n' \<Longrightarrow> rf_state n' = KLeader \<Longrightarrow>
    rf_state n = KLeader \<and> rf_current_term n' = rf_current_term n"
proof (induction cs arbitrary: n)
  case (Cons c cs)
  then obtain m where "call c n = Some m" and "call_seq call cs m = Some n'"
    by (auto split: option.splits)
  with Cons call_nstep show ?case by (fastforce simp: nstep_def)
qed simp

end

interpretation rk: vote_keeper "raft_call_step now" for now
proof
  fix c n n'
  assume "raft_call_step now c n = Some n'"
  then show "nstep n n'"
    by (cases c) (auto simp: nstep_handle_append_entries nstep_append_command_reply
        nstep_on_apply nstep_heartbeat_reply nstep_append_command_begin
        nstep_append_command_finish split: option.splits)
qed

subsection \<open>The cluster\<close>

text \<open>
  \<open>er_todo\<close> is what the loop of \<^verbatim>\<open>start_election\<close> still has to visit; \<open>er_granted\<close> records the
  peers whose grant it has counted.  \<open>cl_votes\<close> holds every vote ever granted (voter,
  candidate, term) and \<open>cl_elected\<close> every leadership (node, term); neither is read by the nodes.
\<close>

record election_run =
  er_args :: request_vote_args
  er_todo :: "raft_node_id list"
  er_granted :: "string set"

record raft_cluster =
  cl_nodes :: "string \<Rightarrow> raft_node"
  cl_runs :: "string \<Rightarrow> election_run option"
  cl_requests :: "request_vote_args set"
  cl_votes :: "(string \<times> string \<times> nat) set"
  cl_elected :: "(string \<times> nat) set"

definition set_node :: "string \<Rightarrow> raft_node \<Rightarrow> raft_cluster \<Rightarrow> raft_cluster" where
  "set_node v n cl = cl\<lparr>cl_nodes := (cl_nodes cl)(v := n)\<rparr>"

definition set_run :: "string \<Rightarrow> election_run option \<Rightarrow> raft_cluster \<Rightarrow> raft_cluster" where
  "set_run v r cl = cl\<lparr>cl_runs := (cl_runs cl)(v := r)\<rparr>"

lemma set_node_simps [simp]:
  "cl_nodes (set_node v n cl) = (cl_nodes cl)(v := n)" "cl_runs (set_node v n cl) = cl_runs cl"
  "cl_votes (set_node v n cl) = cl_votes cl" "cl_elected (set_node v n cl) = cl_elected cl"
  by (simp_all add: set_node_def)

lemma set_run_simps [simp]:
  "cl_nodes (set_run v r cl) = cl_nodes cl" "cl_runs (set_run v r cl) = (cl_runs cl)(v := r)"
  "cl_votes (set_run v r cl) = cl_votes cl" "cl_elected (set_run v r cl) = cl_elected cl"
  by (simp_all add: set_run_def)

definition cluster_init :: "string list \<Rightarrow> raft_cluster \<Rightarrow> bool" where
  "cluster_init ids cl \<longleftrightarrow>
     distinct ids \<and> 2 \<le> length ids \<and>
     (\<forall>v\<in>set ids. \<exists>cfg rng now. rc_node_id cfg = v \<and> map peer_id (rc_peers cfg) = ids \<and>
        cl_nodes cl v = new_raft_node cfg rng None now) \<and>
     cl_runs cl = (\<lambda>_. None) \<and> cl_requests cl = {} \<and> cl_votes cl = {} \<and> cl_elected cl = {}"

inductive cluster_step :: "string list \<Rightarrow> raft_cluster \<Rightarrow> raft_cluster \<Rightarrow> bool" for ids where
  elect:
    "\<lbrakk> c \<in> set ids; cl_runs cl c = None; rf_state (cl_nodes cl c) \<noteq> KLeader;
       rf_current_term (cl_nodes cl c) < u64_max;
       start_election_begin now (cl_nodes cl c) = (args, n) \<rbrakk> \<Longrightarrow>
     cluster_step ids cl
       ((set_run c (Some \<lparr>er_args = args, er_todo = rf_peers n, er_granted = {}\<rparr>) (set_node c n cl))
         \<lparr>cl_requests := insert args (cl_requests cl)\<rparr>)"
| skip_self:
    "\<lbrakk> cl_runs cl c = Some r; er_todo r = p # ps; peer_id p = c \<rbrakk> \<Longrightarrow>
     cluster_step ids cl (set_run c (Some (r\<lparr>er_todo := ps\<rparr>)) cl)"
| tally:
    "\<lbrakk> cl_runs cl c = Some r; er_todo r = p # ps; peer_id p \<noteq> c;
       rvr_vote_granted reply \<longrightarrow> (peer_id p, c, rv_term (er_args r)) \<in> cl_votes cl;
       start_election_reply now (er_args r) reply (cl_nodes cl c) = (go, n) \<rbrakk> \<Longrightarrow>
     cluster_step ids cl
       (set_run c
         (if go then Some (r\<lparr>er_todo := ps,
             er_granted := (if rvr_vote_granted reply then insert (peer_id p) (er_granted r)
                            else er_granted r)\<rparr>)
          else None) (set_node c n cl))"
| finish:
    "\<lbrakk> cl_runs cl c = Some r; er_todo r = []; start_election_end (cl_nodes cl c) = n \<rbrakk> \<Longrightarrow>
     cluster_step ids cl
       ((set_run c None (set_node c n cl))
         \<lparr>cl_elected := (if rf_state (cl_nodes cl c) \<noteq> KLeader \<and> rf_state n = KLeader
             then insert (c, rf_current_term n) (cl_elected cl) else cl_elected cl)\<rparr>)"
| vote:
    "\<lbrakk> v \<in> set ids; args \<in> cl_requests cl; rv_candidate_id args \<noteq> v;
       handle_request_vote now args (cl_nodes cl v) = (reply, n) \<rbrakk> \<Longrightarrow>
     cluster_step ids cl
       ((set_node v n cl)
         \<lparr>cl_votes := (if rvr_vote_granted reply
             then insert (v, rv_candidate_id args, rv_term args) (cl_votes cl) else cl_votes cl)\<rparr>)"
| other_call:
    "\<lbrakk> v \<in> set ids; raft_call_step now call (cl_nodes cl v) = Some n \<rbrakk> \<Longrightarrow>
     cluster_step ids cl (set_node v n cl)"
| restart:
    "\<lbrakk> v \<in> set ids; rc_storage_dir (rf_config (cl_nodes cl v)) \<noteq> [] \<rbrakk> \<Longrightarrow>
     cluster_step ids cl (set_run v None (set_node v (restart_node rng now (cl_nodes cl v)) cl))"

inductive reachable :: "string list \<Rightarrow> raft_cluster \<Rightarrow> bool" for ids where
  init: "cluster_init ids cl \<Longrightarrow> reachable ids cl"
| step: "reachable ids cl \<Longrightarrow> cluster_step ids cl cl' \<Longrightarrow> reachable ids cl'"

subsection \<open>Quorums\<close>

locale quorum_system =
  fixes quorum :: "'n set \<Rightarrow> bool"
  assumes quorum_meet: "quorum A \<Longrightarrow> quorum B \<Longrightarrow> A \<inter> B \<noteq> {}"
begin

text \<open>
  A member of an electing quorum is the candidate itself or has voted for it.  If every node
  votes for at most one other candidate, and an elected one for nobody else, then only one
  candidate is elected.
\<close>

lemma unique_winner:
  assumes "quorum A" "quorum B"
    and "\<forall>q\<in>A. q = a \<or> voted q a" and "\<forall>q\<in>B. q = b \<or> voted q b"
    and "\<And>q c d. voted q c \<Longrightarrow> voted q d \<Longrightarrow> c = d"
    and "\<And>c. \<not> voted a c" and "\<And>c. \<not> voted b c"
  shows "a = b"
  using quorum_meet [OF assms(1,2)] assms(3-) by (metis disjoint_iff)

end

definition majority :: "string list \<Rightarrow> string set \<Rightarrow> bool" where
  "majority ids Q \<longleftrightarrow> Q \<subseteq> set ids \<and> card (set ids) div 2 + 1 \<le> card Q"

interpretation maj: quorum_system "majority ids" for ids
  by unfold_locales (metis List.finite_set majorities_intersect majority_def)

subsection \<open>The invariant\<close>

definition node_ok :: "string list \<Rightarrow> string \<Rightarrow> raft_node \<Rightarrow> bool" where
  "node_ok ids v n \<longleftrightarrow> rf_id n = v \<and> map peer_id (rf_peers n) = ids \<and> rc_peers (rf_config n) = rf_peers n \<and>
     durable n \<and> (rf_state n = KCandidate \<longrightarrow> rf_voted_for n = Some v)"

definition vote_ok :: "string list \<Rightarrow> (string \<Rightarrow> raft_node) \<Rightarrow> string \<Rightarrow> string \<Rightarrow> nat \<Rightarrow> bool" where
  "vote_ok ids nodes v c T \<longleftrightarrow> v \<in> set ids \<and> v \<noteq> c \<and> T \<le> rf_current_term (nodes v) \<and>
     (T = rf_current_term (nodes v) \<longrightarrow> rf_voted_for (nodes v) = Some c)"

definition elected_ok :: "(string \<Rightarrow> raft_node) \<Rightarrow> string \<Rightarrow> nat \<Rightarrow> bool" where
  "elected_ok nodes l T \<longleftrightarrow> T \<le> rf_current_term (nodes l) \<and>
     (T = rf_current_term (nodes l) \<longrightarrow>
        rf_voted_for (nodes l) = Some l \<and> rf_state (nodes l) \<noteq> KCandidate)"

definition electing_quorum :: "string list \<Rightarrow> (string \<times> string \<times> nat) set \<Rightarrow> string \<Rightarrow> nat \<Rightarrow> bool" where
  "electing_quorum ids votes l T \<longleftrightarrow>
     (\<exists>Q. majority ids Q \<and> (\<forall>q\<in>Q. q = l \<or> (q, l, T) \<in> votes))"

definition run_ok :: "string list \<Rightarrow> (string \<times> string \<times> nat) set \<Rightarrow> string \<Rightarrow> raft_node \<Rightarrow> election_run \<Rightarrow> bool" where
  "run_ok ids votes c n r \<longleftrightarrow> c \<in> set ids \<and>
     (\<exists>pre. ids = pre @ map peer_id (er_todo r) \<and> er_granted r \<subseteq> set pre - {c}) \<and>
     (\<forall>g\<in>er_granted r. (g, c, rv_term (er_args r)) \<in> votes) \<and>
     (rf_state n = KCandidate \<longrightarrow> rf_current_term n = rv_term (er_args r) \<and>
        rf_votes_received n \<le> 1 + card (er_granted r))"

definition cinv :: "string list \<Rightarrow> raft_cluster \<Rightarrow> bool" where
  "cinv ids cl \<longleftrightarrow> distinct ids \<and>
     (\<forall>v\<in>set ids. node_ok ids v (cl_nodes cl v)) \<and>
     (\<forall>v c T. (v, c, T) \<in> cl_votes cl \<longrightarrow> vote_ok ids (cl_nodes cl) v c T) \<and>
     (\<forall>v c d T. (v, c, T) \<in> cl_votes cl \<longrightarrow> (v, d, T) \<in> cl_votes cl \<longrightarrow> c = d) \<and>
     (\<forall>c r. cl_runs cl c = Some r \<longrightarrow> run_ok ids (cl_votes cl) c (cl_nodes cl c) r) \<and>
     (\<forall>l T. (l, T) \<in> cl_elected cl \<longrightarrow> l \<in> set ids \<and> elected_ok (cl_nodes cl) l T \<and>
        (\<forall>c. (l, c, T) \<notin> cl_votes cl) \<and> electing_quorum ids (cl_votes cl) l T) \<and>
     (\<forall>v\<in>set ids. rf_state (cl_nodes cl v) = KLeader \<longrightarrow>
        (v, rf_current_term (cl_nodes cl v)) \<in> cl_elected cl)"

lemma new_node_ok:
  assumes "rc_node_id cfg = v" and "map peer_id (rc_peers cfg) = ids" and "ids \<noteq> []"
  shows "node_ok ids v (new_raft_node cfg rng None now)"
    and "rf_state (new_raft_node cfg rng None now) = KFollower"
proof -
  have "rc_peers cfg \<noteq> []" using assms by auto
  with assms show "node_ok ids v (new_raft_node cfg rng None now)"
    and "rf_state (new_raft_node cfg rng None now) = KFollower"
    by (simp_all add: node_ok_def new_raft_node_def Let_def load_persistent_state_def durable_def)
qed

lemma cinv_init:
  assumes "cluster_init ids cl"
  shows "cinv ids cl"
proof -
  have "node_ok ids v (cl_nodes cl v) \<and> rf_state (cl_nodes cl v) = KFollower" if "v \<in> set ids" for v
    using assms that unfolding cluster_init_def by (metis new_node_ok empty_iff empty_set)
  with assms show ?thesis by (simp add: cinv_def cluster_init_def)
qed

text \<open>A node that moves by \<open>nstep\<close>, all else unchanged.\<close>

lemma cinv_nstep:
  assumes inv: "cinv ids cl" and v: "v \<in> set ids" and st: "nstep (cl_nodes cl v) n"
  shows "cinv ids (set_node v n cl)"
proof -
  have "node_ok ids v (cl_nodes cl v)" using inv v by (simp add: cinv_def)
  with st have "node_ok ids v n" by (auto simp: nstep_def node_ok_def)
  moreover have "vote_ok ids ((cl_nodes cl)(v := n)) w c T" if "(w, c, T) \<in> cl_votes cl" for w c T
  proof -
    have "vote_ok ids (cl_nodes cl) w c T" using inv that by (simp add: cinv_def)
    with st \<open>node_ok ids v (cl_nodes cl v)\<close> show ?thesis
      by (auto simp: vote_ok_def nstep_def node_ok_def)
  qed
  moreover have "elected_ok ((cl_nodes cl)(v := n)) l T" if "(l, T) \<in> cl_elected cl" for l T
  proof -
    have "elected_ok (cl_nodes cl) l T" using inv that by (simp add: cinv_def)
    with st show ?thesis by (auto simp: elected_ok_def nstep_def)
  qed
  moreover have "run_ok ids (cl_votes cl) c (((cl_nodes cl)(v := n)) c) r"
    if "cl_runs cl c = Some r" for c r
  proof -
    have "run_ok ids (cl_votes cl) c (cl_nodes cl c) r" using inv that by (simp add: cinv_def)
    with st show ?thesis by (auto simp: run_ok_def nstep_def)
  qed
  moreover have "(v, rf_current_term n) \<in> cl_elected cl" if "rf_state n = KLeader"
    using inv v st that by (simp add: cinv_def nstep_def)
  ultimately show ?thesis using inv by (simp add: cinv_def)
qed

lemma cinv_cong:
  "cl_nodes cl' = cl_nodes cl \<Longrightarrow> cl_runs cl' = cl_runs cl \<Longrightarrow> cl_votes cl' = cl_votes cl \<Longrightarrow>
    cl_elected cl' = cl_elected cl \<Longrightarrow> cinv ids cl \<Longrightarrow> cinv ids cl'"
  by (simp add: cinv_def)

lemma cinv_set_run:
  assumes "cinv ids cl"
    and "\<And>r. ro = Some r \<Longrightarrow> run_ok ids (cl_votes cl) c (cl_nodes cl c) r"
  shows "cinv ids (set_run c ro cl)"
  using assms by (simp add: cinv_def)

lemma cinvI:
  assumes "distinct ids"
    and "\<And>v. v \<in> set ids \<Longrightarrow> node_ok ids v (cl_nodes cl v)"
    and "\<And>v c T. (v, c, T) \<in> cl_votes cl \<Longrightarrow> vote_ok ids (cl_nodes cl) v c T"
    and "\<And>v c d T. (v, c, T) \<in> cl_votes cl \<Longrightarrow> (v, d, T) \<in> cl_votes cl \<Longrightarrow> c = d"
    and "\<And>c r. cl_runs cl c = Some r \<Longrightarrow> run_ok ids (cl_votes cl) c (cl_nodes cl c) r"
    and "\<And>l T. (l, T) \<in> cl_elected cl \<Longrightarrow> l \<in> set ids \<and> elected_ok (cl_nodes cl) l T \<and>
      (\<forall>c. (l, c, T) \<notin> cl_votes cl) \<and> electing_quorum ids (cl_votes cl) l T"
    and "\<And>v. v \<in> set ids \<Longrightarrow> rf_state (cl_nodes cl v) = KLeader \<Longrightarrow>
      (v, rf_current_term (cl_nodes cl v)) \<in> cl_elected cl"
  shows "cinv ids cl"
  unfolding cinv_def using assms by (intro conjI allI ballI impI) metis+

text \<open>A node that casts its vote, in its current term, for another candidate.\<close>

lemma cinv_cast:
  assumes inv: "cinv ids cl" and v: "v \<in> set ids" and "c \<noteq> v"
    and free: "rf_voted_for (cl_nodes cl v) = None \<or> rf_voted_for (cl_nodes cl v) = Some c"
    and same: "rf_config n = rf_config (cl_nodes cl v)" "rf_peers n = rf_peers (cl_nodes cl v)"
      "rf_current_term n = rf_current_term (cl_nodes cl v)" "rf_state n = rf_state (cl_nodes cl v)"
    and n: "rf_voted_for n = Some c" "durable n"
  shows "cinv ids ((set_node v n cl)\<lparr>cl_votes := insert (v, c, rf_current_term n) (cl_votes cl)\<rparr>)"
proof -
  let ?nodes = "(cl_nodes cl)(v := n)" and ?votes = "insert (v, c, rf_current_term n) (cl_votes cl)"
  have nv: "node_ok ids v (cl_nodes cl v)" using inv v by (simp add: cinv_def)
  with free \<open>c \<noteq> v\<close> have nocand: "rf_state (cl_nodes cl v) \<noteq> KCandidate"
    by (auto simp: node_ok_def)
  have ok: "node_ok ids v n" using nv nocand same n by (simp add: node_ok_def)
  have votes: "vote_ok ids ?nodes w d T \<and> (w = v \<and> T = rf_current_term n \<longrightarrow> d = c)"
    if "(w, d, T) \<in> ?votes" for w d T
  proof (cases "(w, d, T) \<in> cl_votes cl")
    case True
    then have "vote_ok ids (cl_nodes cl) w d T" using inv by (simp add: cinv_def)
    with free same n show ?thesis by (auto simp: vote_ok_def)
  next
    case False
    with that v \<open>c \<noteq> v\<close> n show ?thesis by (auto simp: vote_ok_def)
  qed
  have uniq: "d = e" if "(w, d, T) \<in> ?votes" "(w, e, T) \<in> ?votes" for w d e T
    using votes [OF that(1)] votes [OF that(2)] that inv unfolding cinv_def by (metis insertE prod.inject)
  have el: "elected_ok ?nodes l T \<and> (\<forall>d. (l, d, T) \<notin> ?votes) \<and> electing_quorum ids ?votes l T \<and> l \<in> set ids"
    if "(l, T) \<in> cl_elected cl" for l T
  proof -
    have old: "elected_ok (cl_nodes cl) l T" "\<forall>d. (l, d, T) \<notin> cl_votes cl"
      "electing_quorum ids (cl_votes cl) l T" "l \<in> set ids"
      using inv that by (simp_all add: cinv_def)
    have "electing_quorum ids ?votes l T" using old(3) unfolding electing_quorum_def by blast
    with old free same n \<open>c \<noteq> v\<close> show ?thesis by (auto simp: elected_ok_def)
  qed
  have run: "run_ok ids ?votes d (?nodes d) r" if "cl_runs cl d = Some r" for d r
  proof -
    have "run_ok ids (cl_votes cl) d (cl_nodes cl d) r" using inv that by (simp add: cinv_def)
    with same nocand show ?thesis by (auto simp: run_ok_def)
  qed
  have leaders: "(w, rf_current_term (?nodes w)) \<in> cl_elected cl"
    if "w \<in> set ids" "rf_state (?nodes w) = KLeader" for w
    using inv that same by (auto simp: cinv_def split: if_splits)
  have nodes: "node_ok ids w (?nodes w)" if "w \<in> set ids" for w
    using inv that ok by (simp add: cinv_def)
  have "distinct ids" using inv by (simp add: cinv_def)
  then show ?thesis
    by (rule cinvI) (use nodes votes uniq run el leaders in \<open>simp_all del: insert_iff\<close>)
qed

lemma nstep_restart:
  assumes "durable n" and "rc_storage_dir (rf_config n) \<noteq> []"
    and "rc_peers (rf_config n) = rf_peers n" and "rf_peers n \<noteq> []"
  shows "nstep n (restart_node rng now n)"
  using assms
  by (cases "rf_disk n")
    (simp_all add: nstep_def restart_node_def new_raft_node_def load_persistent_state_def
      Let_def durable_def)

lemma handle_request_vote_cases:
  assumes "handle_request_vote now args n = (reply, n')"
  obtains (refused) "\<not> rvr_vote_granted reply" "nstep n n'"
  | (granted) m where "rvr_vote_granted reply" "nstep n m" "rf_current_term m = rv_term args"
      "rf_voted_for m = None \<or> rf_voted_for m = Some (rv_candidate_id args)"
      "n' = persist_state_locked (reset_election_timeout now
              (m\<lparr>rf_voted_for := Some (rv_candidate_id args)\<rparr>))"
proof -
  define m where "m = (if rv_term args > rf_current_term n then become_follower now (rv_term args) n else n)"
  have m: "nstep n m" "\<not> rv_term args < rf_current_term n \<Longrightarrow> rf_current_term m = rv_term args"
    using nstep_become_follower [of n "rv_term args" now] by (simp_all add: m_def)
  have eq: "handle_request_vote now args n =
     (if rv_term args < rf_current_term n
      then (\<lparr>rvr_term = rf_current_term n, rvr_vote_granted = False\<rparr>, n)
      else if (rf_voted_for m = None \<or> rf_voted_for m = Some (rv_candidate_id args)) \<and>
        is_log_up_to_date (rv_last_log_term args) (rv_last_log_index args) m
      then (\<lparr>rvr_term = rf_current_term m, rvr_vote_granted = True\<rparr>,
            persist_state_locked (reset_election_timeout now
              (m\<lparr>rf_voted_for := Some (rv_candidate_id args)\<rparr>)))
      else (\<lparr>rvr_term = rf_current_term m, rvr_vote_granted = False\<rparr>, m))"
    unfolding handle_request_vote_def Let_def m_def by (rule refl)
  consider "rv_term args < rf_current_term n"
    | "\<not> rv_term args < rf_current_term n"
      "(rf_voted_for m = None \<or> rf_voted_for m = Some (rv_candidate_id args)) \<and>
        is_log_up_to_date (rv_last_log_term args) (rv_last_log_index args) m"
    | "\<not> rv_term args < rf_current_term n"
      "\<not> ((rf_voted_for m = None \<or> rf_voted_for m = Some (rv_candidate_id args)) \<and>
        is_log_up_to_date (rv_last_log_term args) (rv_last_log_index args) m)" by blast
  then show thesis
  proof cases
    case 1
    show thesis by (rule refused) (use assms 1 in \<open>auto simp: eq\<close>)
  next
    case 2
    show thesis by (rule granted [OF _ m]) (use assms 2 in \<open>auto simp: eq\<close>)
  next
    case 3
    have "(\<lparr>rvr_term = rf_current_term m, rvr_vote_granted = False\<rparr>, m) = (reply, n')"
      using assms 3 unfolding eq by (simp only: if_False)
    then show thesis using refused m(1) by auto
  qed
qed

lemma cinv_vote:
  assumes inv: "cinv ids cl" and v: "v \<in> set ids" and c: "rv_candidate_id args \<noteq> v"
    and h: "handle_request_vote now args (cl_nodes cl v) = (reply, n)"
  shows "cinv ids ((set_node v n cl)
    \<lparr>cl_votes := (if rvr_vote_granted reply
       then insert (v, rv_candidate_id args, rv_term args) (cl_votes cl) else cl_votes cl)\<rparr>)"
  using h
proof (cases rule: handle_request_vote_cases)
  case refused
  then show ?thesis
    using cinv_nstep [OF inv v refused(2)] by (auto elim!: cinv_cong [rotated 4])
next
  case (granted m)
  have m: "cinv ids (set_node v m cl)" by (rule cinv_nstep [OF inv v granted(2)])
  let ?cl = "(set_node v n (set_node v m cl))
      \<lparr>cl_votes := insert (v, rv_candidate_id args, rf_current_term n) (cl_votes (set_node v m cl))\<rparr>"
  have "cinv ids ?cl" by (rule cinv_cast [OF m v c]) (use granted in simp_all)
  then show ?thesis by (rule cinv_cong [rotated 4]) (use granted in simp_all)
qed

lemma cinv_elect:
  assumes inv: "cinv ids cl" and c: "c \<in> set ids" and idle: "cl_runs cl c = None"
    and room: "rf_current_term (cl_nodes cl c) < u64_max"
    and b: "start_election_begin now (cl_nodes cl c) = (args, n)"
  shows "cinv ids (set_run c (Some \<lparr>er_args = args, er_todo = rf_peers n, er_granted = {}\<rparr>)
    (set_node c n cl))"
proof -
  let ?n0 = "cl_nodes cl c" and ?nodes = "(cl_nodes cl)(c := n)"
  have n0: "node_ok ids c ?n0" using inv c by (simp add: cinv_def)
  have n: "rf_config n = rf_config ?n0" "rf_peers n = rf_peers ?n0"
    "rf_current_term n = rf_current_term ?n0 + 1" "rf_voted_for n = Some c" "rf_state n = KCandidate"
    "rf_votes_received n = 1" "durable n" "rv_term args = rf_current_term n"
    using b room n0 by (auto simp: start_election_begin_def Let_def node_ok_def)
  have "distinct ids" using inv by (simp add: cinv_def)
  then have "cinv ids (set_node c n cl)"
  proof (rule cinvI)
    fix v assume "v \<in> set ids"
    then show "node_ok ids v (cl_nodes (set_node c n cl) v)"
      using inv n0 n by (simp add: cinv_def node_ok_def)
  next
    fix v d T assume "(v, d, T) \<in> cl_votes (set_node c n cl)"
    then have "vote_ok ids (cl_nodes cl) v d T" using inv by (simp add: cinv_def)
    then show "vote_ok ids (cl_nodes (set_node c n cl)) v d T" using n by (auto simp: vote_ok_def)
  next
    fix l T assume "(l, T) \<in> cl_elected (set_node c n cl)"
    then have "l \<in> set ids \<and> elected_ok (cl_nodes cl) l T \<and> (\<forall>c. (l, c, T) \<notin> cl_votes cl)
      \<and> electing_quorum ids (cl_votes cl) l T" using inv by (simp add: cinv_def)
    then show "l \<in> set ids \<and> elected_ok (cl_nodes (set_node c n cl)) l T \<and>
      (\<forall>c'. (l, c', T) \<notin> cl_votes (set_node c n cl)) \<and>
      electing_quorum ids (cl_votes (set_node c n cl)) l T"
      using n by (auto simp: elected_ok_def)
  qed (use inv n idle in \<open>auto simp: cinv_def split: if_splits\<close>)
  moreover have "run_ok ids (cl_votes cl) c n
      \<lparr>er_args = args, er_todo = rf_peers n, er_granted = {}\<rparr>"
    using n n0 c by (auto simp: run_ok_def node_ok_def)
  ultimately show ?thesis by (intro cinv_set_run) simp_all
qed

lemma run_ok_advance:
  assumes "run_ok ids votes c n r" and "er_todo r = p # ps"
  shows "run_ok ids votes c n (r\<lparr>er_todo := ps\<rparr>)"
proof -
  obtain pre where "ids = pre @ peer_id p # map peer_id ps" and "er_granted r \<subseteq> set pre - {c}"
    using assms by (auto simp: run_ok_def)
  then have "ids = (pre @ [peer_id p]) @ map peer_id ps \<and> er_granted r \<subseteq> set (pre @ [peer_id p]) - {c}"
    by auto
  with assms(1) show ?thesis by (auto simp: run_ok_def)
qed

lemma run_ok_count:
  assumes ok: "run_ok ids votes c n r" and todo: "er_todo r = p # ps" and "distinct ids"
    and p: "peer_id p \<noteq> c" "(peer_id p, c, rv_term (er_args r)) \<in> votes"
  shows "run_ok ids votes c (n\<lparr>rf_votes_received := u64_add (rf_votes_received n) 1\<rparr>)
    (r\<lparr>er_todo := ps, er_granted := insert (peer_id p) (er_granted r)\<rparr>)"
proof -
  obtain pre where pre: "ids = pre @ peer_id p # map peer_id ps" "er_granted r \<subseteq> set pre - {c}"
    using ok todo by (auto simp: run_ok_def)
  then have fresh: "peer_id p \<notin> er_granted r" and fin: "finite (er_granted r)"
    using \<open>distinct ids\<close> by (auto intro: finite_subset)
  have "ids = (pre @ [peer_id p]) @ map peer_id ps \<and>
      insert (peer_id p) (er_granted r) \<subseteq> set (pre @ [peer_id p]) - {c}"
    using pre p by auto
  moreover have "u64_add (rf_votes_received n) 1 \<le> rf_votes_received n + 1"
    by (simp add: u64_add_def)
  ultimately show ?thesis
    using ok p fresh fin by (fastforce simp: run_ok_def)
qed

lemma cinv_tally:
  assumes inv: "cinv ids cl" and run: "cl_runs cl c = Some r" "er_todo r = p # ps" "peer_id p \<noteq> c"
    and g: "rvr_vote_granted reply \<longrightarrow> (peer_id p, c, rv_term (er_args r)) \<in> cl_votes cl"
    and h: "start_election_reply now (er_args r) reply (cl_nodes cl c) = (go, n)"
  shows "cinv ids (set_run c
    (if go then Some (r\<lparr>er_todo := ps,
        er_granted := (if rvr_vote_granted reply then insert (peer_id p) (er_granted r)
                       else er_granted r)\<rparr>)
     else None) (set_node c n cl))"
proof -
  let ?n0 = "cl_nodes cl c"
  have r: "run_ok ids (cl_votes cl) c ?n0 r" using inv run by (simp add: cinv_def)
  then have c: "c \<in> set ids" by (simp add: run_ok_def)
  have ids: "distinct ids" using inv by (simp add: cinv_def)
  consider (stop) "\<not> go" "nstep ?n0 n"
    | (count) "go" "rvr_vote_granted reply" "n = ?n0\<lparr>rf_votes_received := u64_add (rf_votes_received ?n0) 1\<rparr>"
    | (refusal) "go" "\<not> rvr_vote_granted reply" "n = ?n0"
    using h by (auto simp: start_election_reply_def nstep_become_follower split: if_splits)
  then show ?thesis
  proof cases
    case stop
    then show ?thesis using cinv_set_run [OF cinv_nstep [OF inv c], of n None c] by simp
  next
    case count
    let ?r = "r\<lparr>er_todo := ps, er_granted := insert (peer_id p) (er_granted r)\<rparr>"
    have "run_ok ids (cl_votes cl) c n ?r"
      using run_ok_count [OF r run(2) ids run(3)] g count by simp
    moreover have "node_ok ids c n" using inv c count by (simp add: cinv_def node_ok_def)
    moreover have "rf_current_term n = rf_current_term ?n0" "rf_state n = rf_state ?n0"
      "rf_voted_for n = rf_voted_for ?n0" using count by simp_all
    ultimately show ?thesis
      using inv count
      by (simp add: cinv_def vote_ok_def elected_ok_def)
  next
    case refusal
    have "cl_nodes cl = (cl_nodes cl)(c := n)" using refusal by simp
    then have "set_node c n cl = cl" by (simp add: set_node_def)
    then show ?thesis
      using refusal cinv_set_run [OF inv, of "Some (r\<lparr>er_todo := ps\<rparr>)" c] run_ok_advance [OF r run(2)]
      by simp
  qed
qed

lemma cinv_finish:
  assumes inv: "cinv ids cl" and run: "cl_runs cl c = Some r" "er_todo r = []"
    and e: "start_election_end (cl_nodes cl c) = n"
  shows "cinv ids ((set_run c None (set_node c n cl))
    \<lparr>cl_elected := (if rf_state (cl_nodes cl c) \<noteq> KLeader \<and> rf_state n = KLeader
       then insert (c, rf_current_term n) (cl_elected cl) else cl_elected cl)\<rparr>)"
proof (cases "rf_state (cl_nodes cl c) = KCandidate \<and> quorum_size (cl_nodes cl c) \<le> rf_votes_received (cl_nodes cl c)")
  case False
  then have n: "n = cl_nodes cl c" using e by (auto simp: start_election_end_def)
  then have "set_node c n cl = cl" by (simp add: set_node_def)
  then show ?thesis
    using n cinv_set_run [OF inv, of None c] by (auto elim!: cinv_cong [rotated 4])
next
  case True
  let ?n0 = "cl_nodes cl c" and ?T = "rf_current_term (cl_nodes cl c)"
  have r: "run_ok ids (cl_votes cl) c ?n0 r" using inv run by (simp add: cinv_def)
  then have c: "c \<in> set ids" by (simp add: run_ok_def)
  then have n0: "node_ok ids c ?n0" using inv by (simp add: cinv_def)
  have n: "n = become_leader ?n0" using e True by (simp add: start_election_end_def)
  then have nn: "rf_config n = rf_config ?n0" "rf_peers n = rf_peers ?n0"
    "rf_current_term n = ?T" "rf_voted_for n = rf_voted_for ?n0" "rf_state n = KLeader" "durable n"
    by simp_all
  have self: "rf_voted_for ?n0 = Some c" using n0 True by (simp add: node_ok_def)
  have novote: "(c, d, ?T) \<notin> cl_votes cl" for d
  proof
    assume "(c, d, ?T) \<in> cl_votes cl"
    then have "vote_ok ids (cl_nodes cl) c d ?T" using inv by (simp add: cinv_def)
    with self show False by (simp add: vote_ok_def)
  qed
  have quorum: "electing_quorum ids (cl_votes cl) c ?T"
  proof -
    have T: "?T = rv_term (er_args r)" and votes: "rf_votes_received ?n0 \<le> 1 + card (er_granted r)"
      and sub: "er_granted r \<subseteq> set ids - {c}"
      using r True run(2) by (auto simp: run_ok_def)
    have len: "length (rf_peers ?n0) = card (set ids)"
    proof -
      have "length (map peer_id (rf_peers ?n0)) = length ids" using n0 by (simp add: node_ok_def)
      with inv show ?thesis by (simp add: cinv_def distinct_card)
    qed
    have "finite (er_granted r)" "c \<notin> er_granted r" using sub by (auto intro: finite_subset)
    then have "majority ids (insert c (er_granted r))"
      using votes sub c True len by (auto simp: majority_def quorum_size_def)
    moreover have "\<forall>q\<in>insert c (er_granted r). q = c \<or> (q, c, ?T) \<in> cl_votes cl"
      using r T by (auto simp: run_ok_def)
    ultimately show ?thesis unfolding electing_quorum_def by blast
  qed
  have others: "node_ok ids v (((cl_nodes cl)(c := n)) v)" if "v \<in> set ids" for v
    using inv that n0 nn by (simp add: cinv_def node_ok_def)
  have elected: "l \<in> set ids \<and> elected_ok ((cl_nodes cl)(c := n)) l T \<and>
      (\<forall>d. (l, d, T) \<notin> cl_votes cl) \<and> electing_quorum ids (cl_votes cl) l T"
    if "(l, T) \<in> insert (c, ?T) (cl_elected cl)" for l T
  proof (cases "(l, T) \<in> cl_elected cl")
    case True
    then have "l \<in> set ids \<and> elected_ok (cl_nodes cl) l T \<and>
      (\<forall>d. (l, d, T) \<notin> cl_votes cl) \<and> electing_quorum ids (cl_votes cl) l T"
      using inv by (simp add: cinv_def)
    with nn self show ?thesis by (auto simp: elected_ok_def)
  next
    case False
    with that have "l = c" "T = ?T" by auto
    with c novote quorum self nn show ?thesis by (simp add: elected_ok_def)
  qed
  have votes: "vote_ok ids ((cl_nodes cl)(c := n)) v d T" if "(v, d, T) \<in> cl_votes cl" for v d T
  proof -
    have "vote_ok ids (cl_nodes cl) v d T" using inv that by (simp add: cinv_def)
    with nn show ?thesis by (auto simp: vote_ok_def)
  qed
  have uniq: "d = e" if "(v, d, T) \<in> cl_votes cl" "(v, e, T) \<in> cl_votes cl" for v d e T
    using inv that unfolding cinv_def by blast
  have runs: "run_ok ids (cl_votes cl) d (((cl_nodes cl)(c := n)) d) r'"
    if "((cl_runs cl)(c := None)) d = Some r'" for d r'
    using inv that by (simp add: cinv_def split: if_splits)
  have leaders: "(v, rf_current_term (((cl_nodes cl)(c := n)) v)) \<in> insert (c, ?T) (cl_elected cl)"
    if "v \<in> set ids" "rf_state (((cl_nodes cl)(c := n)) v) = KLeader" for v
    using inv that nn by (simp add: cinv_def split: if_splits)
  have "distinct ids" using inv by (simp add: cinv_def)
  then show ?thesis
    by (rule cinvI)
      (use others elected votes uniq runs leaders True nn in \<open>simp_all del: fun_upd_apply insert_iff\<close>)
qed

lemma cinv_step: "cluster_step ids cl cl' \<Longrightarrow> cinv ids cl \<Longrightarrow> cinv ids cl'"
proof (induction rule: cluster_step.induct)
  case (elect c cl now args n)
  from cinv_elect [OF elect.prems elect.hyps(1,2,4,5)] show ?case
    by (rule cinv_cong [rotated 4]) simp_all
next
  case (skip_self cl c r p ps)
  then have "run_ok ids (cl_votes cl) c (cl_nodes cl c) r" by (simp add: cinv_def)
  with skip_self show ?case by (auto intro!: cinv_set_run run_ok_advance)
next
  case (tally cl c r p ps reply now go n)
  show ?case by (rule cinv_tally [OF tally.prems tally.hyps])
next
  case (finish cl c r n)
  show ?case by (rule cinv_finish [OF finish.prems finish.hyps])
next
  case (vote v args cl now reply n)
  then show ?case by (intro cinv_vote)
next
  case (other_call v now call cl n)
  then show ?case by (intro cinv_nstep rk.call_nstep)
next
  case (restart v cl rng now)
  then have "node_ok ids v (cl_nodes cl v)" by (simp add: cinv_def)
  with restart have "nstep (cl_nodes cl v) (restart_node rng now (cl_nodes cl v))"
    by (intro nstep_restart) (auto simp: node_ok_def)
  with restart show ?case by (intro cinv_set_run cinv_nstep) simp_all
qed

lemma cinv_reachable: "reachable ids cl \<Longrightarrow> cinv ids cl"
  by (induction rule: reachable.induct) (auto intro: cinv_init cinv_step)

subsection \<open>Election safety\<close>

text \<open>C1: Election safety. In every reachable state of a cluster, whatever the interleaving of
  elections, votes, AppendEntries traffic, commands, crashes and restarts from disk, two nodes
  that are both leaders and have the same current term are the same node.\<close>

theorem election_safety:
  assumes "reachable ids cl" and "a \<in> set ids" and "b \<in> set ids"
    and "rf_state (cl_nodes cl a) = KLeader" and "rf_state (cl_nodes cl b) = KLeader"
    and "rf_current_term (cl_nodes cl a) = rf_current_term (cl_nodes cl b)"
  shows "a = b"
proof -
  let ?T = "rf_current_term (cl_nodes cl b)"
  have inv: "cinv ids cl" by (rule cinv_reachable [OF assms(1)])
  then have "(a, ?T) \<in> cl_elected cl" and "(b, ?T) \<in> cl_elected cl"
    using assms by (auto simp: cinv_def)
  with inv have q: "electing_quorum ids (cl_votes cl) a ?T" "electing_quorum ids (cl_votes cl) b ?T"
    and no: "\<And>c. (a, c, ?T) \<notin> cl_votes cl" "\<And>c. (b, c, ?T) \<notin> cl_votes cl"
    and uniq: "\<And>v c d. (v, c, ?T) \<in> cl_votes cl \<Longrightarrow> (v, d, ?T) \<in> cl_votes cl \<Longrightarrow> c = d"
    unfolding cinv_def by blast+
  from q obtain A B where "majority ids A" "\<forall>q\<in>A. q = a \<or> (q, a, ?T) \<in> cl_votes cl"
    and "majority ids B" "\<forall>q\<in>B. q = b \<or> (q, b, ?T) \<in> cl_votes cl"
    unfolding electing_quorum_def by auto
  then show ?thesis
    using maj.unique_winner [of ids A B a "\<lambda>q c. (q, c, ?T) \<in> cl_votes cl" b] no uniq by blast
qed

lemma two_node_election:
  "\<exists>cl. reachable [''a'', ''b''] cl \<and> rf_state (cl_nodes cl ''a'') = KLeader \<and> rf_log (cl_nodes cl ''a'') = [] \<and>
     rf_commit_index (cl_nodes cl ''a'') = 0 \<and> rf_match_index (cl_nodes cl ''a'') = [(''b'', 0)] \<and> rf_current_term (cl_nodes cl ''a'') = 1"
proof -
  let ?ids = "[''a'', ''b'']"
  let ?peer = "\<lambda>v. \<lparr>peer_id = v, peer_host = ''h'', peer_port = 1\<rparr>"
  let ?cfg = "\<lambda>v. \<lparr>rc_node_id = v, rc_storage_dir = ''d'', rc_election_timeout_min = 150,
    rc_election_timeout_max = 300, rc_heartbeat_interval = 50, rc_peers = [?peer ''a'', ?peer ''b'']\<rparr>"
  let ?node = "\<lambda>v. new_raft_node (?cfg v) (\<lambda>_. 200) None 0"
  define cl0 where "cl0 = \<lparr>cl_nodes = ?node, cl_runs = (\<lambda>_. None), cl_requests = {},
    cl_votes = {}, cl_elected = {}\<rparr>"
  have "cluster_init ?ids cl0"
    by (fastforce simp: cluster_init_def cl0_def intro: exI [of _ "?cfg ''a''"] exI [of _ "?cfg ''b''"])
  then have r0: "reachable ?ids cl0" by (rule reachable.init)
  define args where "args = fst (start_election_begin 200 (?node ''a''))"
  define n1 where "n1 = snd (start_election_begin 200 (?node ''a''))"
  note defs = new_raft_node_def load_persistent_state_def start_election_begin_def Let_def
  have args: "rv_term args = 1" "rv_candidate_id args = ''a''" "rv_last_log_term args = 0"
    "rv_last_log_index args = 0"
    by (simp_all add: args_def defs last_log_term_of_def u64_max_def)
  have n1: "rf_state n1 = KCandidate" "rf_current_term n1 = 1" "rf_votes_received n1 = 1"
    "rf_peers n1 = [?peer ''a'', ?peer ''b'']" "rf_config n1 = ?cfg ''a''" "rf_log n1 = []" "rf_commit_index n1 = 0"
    by (simp_all add: n1_def defs u64_max_def)
  have fresh: "rf_state (?node v) = KFollower" "rf_current_term (?node v) = 0"
    "rf_log (?node v) = []" for v by (simp_all add: defs)
  define cl1 where "cl1 = ((set_run ''a'' (Some \<lparr>er_args = args, er_todo = rf_peers n1, er_granted = {}\<rparr>)
      (set_node ''a'' n1 cl0))\<lparr>cl_requests := insert args (cl_requests cl0)\<rparr>)"
  have "cluster_step ?ids cl0 cl1"
    unfolding cl1_def
    by (rule cluster_step.elect [where now = 200]) (simp_all add: cl0_def args_def n1_def fresh u64_max_def)
  with r0 have r1: "reachable ?ids cl1" by (rule reachable.step)
  define cl2 where "cl2 = set_run ''a'' (Some \<lparr>er_args = args, er_todo = [?peer ''b''], er_granted = {}\<rparr>) cl1"
  have "cluster_step ?ids cl1 cl2"
    using cluster_step.skip_self [of cl1 "''a''" "\<lparr>er_args = args, er_todo = rf_peers n1, er_granted = {}\<rparr>"]
    by (simp add: cl1_def cl2_def n1)
  with r1 have r2: "reachable ?ids cl2" by (rule reachable.step)
  define n2 where "n2 = snd (handle_request_vote 210 args (?node ''b''))"
  have h: "handle_request_vote 210 args (?node ''b'') = (\<lparr>rvr_term = 1, rvr_vote_granted = True\<rparr>, n2)"
    by (simp add: n2_def handle_request_vote_def Let_def args fresh is_log_up_to_date_def last_log_term_of_def)
  have n2: "rf_state n2 = KFollower"
    by (simp add: n2_def handle_request_vote_def Let_def args fresh is_log_up_to_date_def last_log_term_of_def)
  define cl3 where "cl3 = (set_node ''b'' n2 cl2)\<lparr>cl_votes := {(''b'', ''a'', 1)}\<rparr>"
  have "cluster_step ?ids cl2 cl3"
    using cluster_step.vote [of "''b''" ?ids args cl2 210 _ n2] h
    by (simp add: cl3_def cl2_def cl1_def cl0_def args set_run_def set_node_def)
  with r2 have r3: "reachable ?ids cl3" by (rule reachable.step)
  define n3 where "n3 = n1\<lparr>rf_votes_received := 2\<rparr>"
  define cl4 where "cl4 = set_run ''a'' (Some \<lparr>er_args = args, er_todo = [], er_granted = {''b''}\<rparr>)
      (set_node ''a'' n3 cl3)"
  have tl: "start_election_reply 220 args \<lparr>rvr_term = 1, rvr_vote_granted = True\<rparr> n1 = (True, n3)"
    by (simp add: start_election_reply_def n1 args n3_def u64_max_def)
  have "cluster_step ?ids cl3 cl4"
    using cluster_step.tally [of cl3 "''a''" "\<lparr>er_args = args, er_todo = [?peer ''b''], er_granted = {}\<rparr>"
        "?peer ''b''" "[]" "\<lparr>rvr_term = 1, rvr_vote_granted = True\<rparr>" 220 True n3 ?ids] tl
    by (simp add: cl4_def cl3_def cl2_def cl1_def args)
  with r3 have r4: "reachable ?ids cl4" by (rule reachable.step)
  define n4 where "n4 = start_election_end n3"
  have n4: "rf_state n4 = KLeader" "rf_current_term n4 = 1" "rf_log n4 = []" "rf_commit_index n4 = 0" "rf_match_index n4 = [(''b'', 0)]"
    by (simp_all add: n4_def n3_def start_election_end_def n1 quorum_size_def become_leader_def Let_def)
  define cl5 where "cl5 = (set_run ''a'' None (set_node ''a'' n4 cl4))\<lparr>cl_elected := {(''a'', 1)}\<rparr>"
  have cl4: "cl_runs cl4 ''a'' = Some \<lparr>er_args = args, er_todo = [], er_granted = {''b''}\<rparr>"
    "cl_nodes cl4 ''a'' = n3" "cl_elected cl4 = {}" "rf_state n3 \<noteq> KLeader"
    by (simp_all add: cl4_def cl3_def cl2_def cl1_def cl0_def n3_def n1)
  have "cluster_step ?ids cl4 cl5"
    using cluster_step.finish [OF cl4(1), of n4 ?ids]
    by (simp add: cl5_def cl4(2-) n4 n4_def [symmetric])
  with r4 have r5: "reachable ?ids cl5" by (rule reachable.step)
  have "cl_nodes cl5 ''a'' = n4" by (simp add: cl5_def)
  with r5 n4 show ?thesis by auto
qed

theorem election_safety_witness:
  "\<exists>cl. reachable [''a'', ''b''] cl \<and> rf_state (cl_nodes cl ''a'') = KLeader \<and>
     {v \<in> {''a'', ''b''}. rf_state (cl_nodes cl v) = KLeader \<and>
        rf_current_term (cl_nodes cl v) = rf_current_term (cl_nodes cl ''a'')} = {''a''}"
proof -
  from two_node_election obtain cl where cl: "reachable [''a'', ''b''] cl"
    "rf_state (cl_nodes cl ''a'') = KLeader" by blast
  have "v = ''a''" if "v \<in> {''a'', ''b''}" "rf_state (cl_nodes cl v) = KLeader"
    "rf_current_term (cl_nodes cl v) = rf_current_term (cl_nodes cl ''a'')" for v
    by (rule election_safety [OF cl(1) _ _ that(2) cl(2) that(3)]) (use that(1) in simp_all)
  with cl show ?thesis by blast
qed

end
