(* ===== verification/Raft_Log.thy ===== *)
theory Raft_Log
  imports Raft_Cluster
begin

text \<open>
  Log replication and commitment: what a vote requires, what an accepted AppendEntries does to
  the follower's log, the order in which entries reach the state machine, when the leader
  advances the commit index, how a leader and a follower converge, and what a restarted node
  remembers.  The last section states where the code departs from Raft's commitment rule.
\<close>

subsection \<open>Votes\<close>

text \<open>The voting rule. A vote is granted exactly when the candidate's term is not older
  than the node's, the node has not voted for somebody else in that term, and the candidate's
  log is at least as up to date; the answer carries the newer of the two terms, and a granted
  vote is on disk (when the node has storage) before the answer is sent.\<close>

theorem request_vote_rule:
  "let (reply, n') = handle_request_vote now args n in
     rvr_vote_granted reply =
       (rf_current_term n \<le> rv_term args \<and>
        (rf_current_term n < rv_term args \<or> rf_voted_for n = None \<or>
         rf_voted_for n = Some (rv_candidate_id args)) \<and>
        (last_log_term_of (rf_log n) < rv_last_log_term args \<or>
         last_log_term_of (rf_log n) = rv_last_log_term args \<and>
         length (rf_log n) \<le> rv_last_log_index args)) \<and>
     rvr_term reply = max (rf_current_term n) (rv_term args) \<and>
     rf_current_term n' = rvr_term reply \<and> rf_log n' = rf_log n \<and>
     rf_voted_for n' =
       (if rvr_vote_granted reply then Some (rv_candidate_id args)
        else if rf_current_term n < rv_term args then None else rf_voted_for n) \<and>
     (if rc_storage_dir (rf_config n) \<noteq> [] \<and> (rvr_vote_granted reply \<or> rf_current_term n < rv_term args)
      then map_option (\<lambda>d. (rd_current_term d, rd_voted_for d, rd_log d)) (rf_disk n') =
             Some (rf_current_term n', rf_voted_for n', rf_log n')
      else rf_disk n' = rf_disk n)"
proof -
  have up: "is_log_up_to_date (rv_last_log_term args) (rv_last_log_index args) m =
      (last_log_term_of (rf_log m) < rv_last_log_term args \<or>
         last_log_term_of (rf_log m) = rv_last_log_term args \<and>
         length (rf_log m) \<le> rv_last_log_index args)" for m
    by (auto simp: is_log_up_to_date_def Let_def)
  have disk: "rf_disk (become_follower now t n) =
      (if rc_storage_dir (rf_config n) = [] then rf_disk n
       else Some \<lparr>rd_current_term = t, rd_voted_for = None, rd_leader_id = [],
         rd_commit_index = rf_commit_index n, rd_last_applied = rf_last_applied n, rd_log = rf_log n\<rparr>)" for t
    by (simp add: become_follower_def Let_def persist_state_locked_def)
  consider "rv_term args < rf_current_term n" | "rv_term args = rf_current_term n"
    | "rf_current_term n < rv_term args" by linarith
  then show ?thesis
  proof cases
    case 1
    then show ?thesis by (simp add: handle_request_vote_def)
  next
    case 2
    then show ?thesis
      by (simp add: handle_request_vote_def Let_def up persist_state_locked_def)
  next
    case 3
    then show ?thesis
      by (simp add: handle_request_vote_def Let_def up disk persist_state_locked_def)
  qed
qed

subsection \<open>The follower's log\<close>

lemma log_entry_eq: "(a :: log_entry) = b \<longleftrightarrow> le_term a = le_term b \<and> le_command a = le_command b"
  by (cases a, cases b) simp

lemma append_loop_beyond:
  "snd (append_loop (length l) es l) = l @ es"
  by (induction "length l" es l rule: append_loop.induct) (auto simp: Let_def)

lemma append_loop_spec:
  "i \<le> length l \<Longrightarrow> snd (append_loop i es l) =
     (if take (length es) (drop i l) = es then l else take i l @ es)"
proof (induction i es l rule: append_loop.induct)
  case (2 i e es l)
  show ?case
  proof (cases "i < length l \<and> l ! i = e")
    case True
    then have "drop i l = e # drop (Suc i) l" by (metis Cons_nth_drop_Suc)
    moreover have "take (Suc i) l = take i l @ [e]" using True by (simp add: take_Suc_conv_app_nth)
    ultimately show ?thesis
      using 2 True by (simp add: Let_def)
  next
    case False
    then have conflict: "append_loop i (e # es) l = (True, snd (append_loop (i + 1) es (take i l @ [e])))"
      using 2(3) by (cases "i < length l") (auto simp: Let_def log_entry_eq)
    have len: "length (take i l @ [e]) = i + 1" using 2(3) by simp
    have "snd (append_loop (i + 1) es (take i l @ [e])) = take i l @ e # es"
      using append_loop_beyond [of "take i l @ [e]" es] unfolding len by simp
    moreover have "take (length (e # es)) (drop i l) \<noteq> e # es"
      using False 2(3) by (cases "drop i l") (auto simp: nth_via_drop dest: arg_cong [of _ _ length])
    ultimately show ?thesis using conflict by simp
  qed
qed simp

lemma append_loop_replicates:
  assumes "i \<le> length l"
  shows "take (i + length es) (snd (append_loop i es l)) = take i l @ es"
    and "take (length es) (drop i (snd (append_loop i es l))) = es"
    and "take i (snd (append_loop i es l)) = take i l"
    and "i + length es \<le> length (snd (append_loop i es l))"
proof -
  have len: "i + length es \<le> length l" if "take (length es) (drop i l) = es"
  proof -
    have "length es \<le> length l - i"
      using arg_cong [OF that, of length] by (simp add: min_def split: if_splits)
    with assms show ?thesis by simp
  qed
  show "take (i + length es) (snd (append_loop i es l)) = take i l @ es"
    and "take (length es) (drop i (snd (append_loop i es l))) = es"
    and "take i (snd (append_loop i es l)) = take i l"
    and "i + length es \<le> length (snd (append_loop i es l))"
    using assms len by (auto simp: append_loop_spec take_add)
qed

definition append_applies :: "append_entries_args \<Rightarrow> raft_node \<Rightarrow> bool" where
  "append_applies args n \<longleftrightarrow>
     rf_current_term n \<le> ae_term args \<and> ae_prev_log_index args \<le> length (rf_log n) \<and>
     (ae_prev_log_index args = 0 \<or>
      le_term (rf_log n ! (ae_prev_log_index args - 1)) = ae_prev_log_term args)"

lemma append_prologue_effect [simp]:
  "rf_log (append_prologue now args n) = rf_log n"
  "rf_commit_index (append_prologue now args n) = rf_commit_index n"
  "rf_last_applied (append_prologue now args n) = rf_last_applied n"
  "rf_apply_cb (append_prologue now args n) = rf_apply_cb n"
  "rf_leader_id (append_prologue now args n) = ae_leader_id args"
  "rf_current_term n \<le> ae_term args \<Longrightarrow> rf_current_term (append_prologue now args n) = ae_term args"
  by (simp_all add: append_prologue_def Let_def)

lemma append_accept_parts:
  shows "aer_success (fst (append_accept args n))" and "aer_term (fst (append_accept args n)) = rf_current_term n"
    and "aer_match_index (fst (append_accept args n)) = length (rf_log (snd (append_accept args n)))"
    and "rf_log (snd (append_accept args n)) = snd (append_loop (ae_prev_log_index args) (ae_entries args) (rf_log n))"
    and "rf_commit_index (snd (append_accept args n)) =
      (if ae_leader_commit args > rf_commit_index n
       then min (ae_leader_commit args) (length (rf_log (snd (append_accept args n)))) else rf_commit_index n)"
    and "rf_last_applied (snd (append_accept args n)) = max (rf_last_applied n) (min (rf_commit_index (snd (append_accept args n))) (length (rf_log (snd (append_accept args n)))))"
    and "rf_events (snd (append_accept args n)) = rf_events n @ (if rf_apply_cb n
      then map (\<lambda>i. Applied (Suc i) (rf_log (snd (append_accept args n)) ! i))
             [rf_last_applied n..<min (rf_commit_index (snd (append_accept args n))) (length (rf_log (snd (append_accept args n))))]
      else [])"
    and "rf_apply_cb (snd (append_accept args n)) = rf_apply_cb n" "rf_current_term (snd (append_accept args n)) = rf_current_term n"
    "rf_state (snd (append_accept args n)) = rf_state n" "rf_leader_id (snd (append_accept args n)) = rf_leader_id n" "rf_id (snd (append_accept args n)) = rf_id n"
  by (simp_all add: append_accept_def Let_def drain_committed_spec append_reply_def)

lemma append_accept_effect:
  assumes "append_accept args n = (reply, n')"
  shows "aer_success reply" and "aer_term reply = rf_current_term n"
    and "aer_match_index reply = length (rf_log n')"
    and "rf_log n' = snd (append_loop (ae_prev_log_index args) (ae_entries args) (rf_log n))"
    and "rf_commit_index n' =
      (if ae_leader_commit args > rf_commit_index n
       then min (ae_leader_commit args) (length (rf_log n')) else rf_commit_index n)"
    and "rf_last_applied n' = max (rf_last_applied n) (min (rf_commit_index n') (length (rf_log n')))"
    and "rf_events n' = rf_events n @ (if rf_apply_cb n
      then map (\<lambda>i. Applied (Suc i) (rf_log n' ! i))
             [rf_last_applied n..<min (rf_commit_index n') (length (rf_log n'))]
      else [])"
    and "rf_apply_cb n' = rf_apply_cb n" "rf_current_term n' = rf_current_term n"
    "rf_state n' = rf_state n" "rf_leader_id n' = rf_leader_id n" "rf_id n' = rf_id n"
  using append_accept_parts [of args n] by (simp_all only: assms fst_conv snd_conv)

lemma handle_append_entries_accepts:
  "append_applies args n \<Longrightarrow>
    handle_append_entries now args n = append_accept args (append_prologue now args n)"
  by (auto simp: append_applies_def handle_append_entries_def Let_def)

lemma append_reject_effect:
  "\<not> aer_success (fst (append_reject prev n))"
  "rf_log (snd (append_reject prev n)) = take (prev - 1) (rf_log n)"
  "rf_current_term (snd (append_reject prev n)) = rf_current_term n"
  by (simp_all add: append_reject_def Let_def append_reply_def)

lemma handle_append_entries_refuses:
  "\<not> append_applies args n \<Longrightarrow> \<not> aer_success (fst (handle_append_entries now args n))"
  by (auto simp: append_applies_def handle_append_entries_def Let_def append_reply_def
      append_reject_effect)

text \<open>The follower's log after AppendEntries, on every branch. The request succeeds exactly
  when its term is current and the previous entry matches; then the log is unchanged if it
  already holds the entries, and otherwise it is cut after the previous entry and extended by
  them. A conflicting previous entry is removed with everything after it; in all other cases the
  log stays as it is.\<close>

theorem append_entries_log:
  "let (reply, n') = handle_append_entries now args n; prev = ae_prev_log_index args;
       es = ae_entries args; l = rf_log n in
     aer_success reply = append_applies args n \<and>
     rf_log n' =
       (if append_applies args n
        then (if take (length es) (drop prev l) = es then l else take prev l @ es)
        else if rf_current_term n \<le> ae_term args \<and> prev \<le> length l then take (prev - 1) l
        else l)"
proof (cases "append_applies args n")
  case True
  obtain reply n' where h: "append_accept args (append_prologue now args n) = (reply, n')" by fastforce
  have "ae_prev_log_index args \<le> length (rf_log n)" using True by (simp add: append_applies_def)
  with append_accept_effect(1,4) [OF h] True show ?thesis
    by (simp add: handle_append_entries_accepts [OF True] h append_loop_spec)
next
  case False
  have "rf_log (snd (handle_append_entries now args n)) =
      (if rf_current_term n \<le> ae_term args \<and> ae_prev_log_index args \<le> length (rf_log n)
       then take (ae_prev_log_index args - 1) (rf_log n) else rf_log n)"
    using False by (auto simp: append_applies_def handle_append_entries_def Let_def append_reject_effect)
  with False handle_append_entries_refuses [OF False, of now] show ?thesis
    by (simp add: case_prod_beta Let_def)
qed

text \<open>AppendEntries is idempotent. Delivering an accepted request a second time is accepted
  again and changes neither the log nor the commit index nor the entries applied.\<close>

theorem append_entries_idempotent:
  assumes "append_applies args n" and "handle_append_entries now args n = (reply, n')"
    and "handle_append_entries later args n' = (reply', n'')"
  shows "aer_success reply' \<and> rf_log n'' = rf_log n' \<and> rf_commit_index n'' = rf_commit_index n' \<and>
    rf_last_applied n'' = rf_last_applied n' \<and> aer_match_index reply' = aer_match_index reply"
proof -
  let ?prev = "ae_prev_log_index args" and ?es = "ae_entries args"
  have h1: "append_accept args (append_prologue now args n) = (reply, n')"
    using assms handle_append_entries_accepts by simp
  note e1 = append_accept_effect [OF h1]
  have prev: "?prev \<le> length (rf_log n)" "rf_current_term n \<le> ae_term args"
    using assms(1) by (auto simp: append_applies_def)
  note rep = append_loop_replicates [OF prev(1), of ?es]
  have log': "rf_log n' = snd (append_loop ?prev ?es (rf_log n))" using e1(4) by simp
  have nth: "?prev = 0 \<or> rf_log n' ! (?prev - 1) = rf_log n ! (?prev - 1)"
    using rep(3) log' by (metis diff_less not_gr_zero nth_take zero_less_one)
  have ap': "append_applies args n'"
    using assms(1) prev e1(9) nth rep(4) log' by (auto simp: append_applies_def)
  have h2: "append_accept args (append_prologue later args n') = (reply', n'')"
    using handle_append_entries_accepts [OF ap'] assms(3) by simp
  note e2 = append_accept_effect [OF h2]
  have l2: "rf_log n'' = rf_log n'"
    using e2(4) rep(2,4) log' append_loop_spec [of ?prev "rf_log n'" ?es] by simp
  moreover have "rf_commit_index n'' = rf_commit_index n'"
    using e2(5) e1(5) l2 by (simp add: min_def split: if_splits)
  moreover from this have "rf_last_applied n'' = rf_last_applied n'"
    using e2(6) e1(6) l2 by simp
  ultimately show ?thesis using e1(3) e2(1,3) by simp
qed

text \<open>The entries handed to the apply callback, in order.\<close>

fun applied_of :: "raft_event list \<Rightarrow> (nat \<times> log_entry) list" where
  "applied_of [] = []"
| "applied_of (Applied i e # evs) = (i, e) # applied_of evs"
| "applied_of (_ # evs) = applied_of evs"

lemma applied_of_append [simp]: "applied_of (xs @ ys) = applied_of xs @ applied_of ys"
  by (induction xs rule: applied_of.induct) auto

lemma applied_of_map [simp]: "applied_of (map (\<lambda>i. Applied (f i) (g i)) is) = map (\<lambda>i. (f i, g i)) is"
  by (induction "is") auto

lemma applied_of_prologue [simp]:
  "applied_of (rf_events (append_prologue now args n)) = applied_of (rf_events n)"
  by (simp add: append_prologue_def Let_def become_follower_def emit_def)

text \<open>A node whose apply callback is installed delivers on an accepted AppendEntries exactly the
  log entries after the last applied one up to the commit index, one by one with consecutive
  indices, and counts them as applied.\<close>

theorem append_entries_applies_in_order:
  assumes "append_applies args n" and "rf_apply_cb n"
    and "handle_append_entries now args n = (reply, n')"
  shows "rf_last_applied n' = max (rf_last_applied n) (min (rf_commit_index n') (length (rf_log n'))) \<and>
    applied_of (rf_events n') = applied_of (rf_events n) @
      map (\<lambda>i. (i, rf_log n' ! (i - 1))) [rf_last_applied n + 1..<rf_last_applied n' + 1]"
proof -
  have h1: "append_accept args (append_prologue now args n) = (reply, n')"
    using assms handle_append_entries_accepts by simp
  note e = append_accept_effect [OF h1]
  have la: "rf_last_applied n' = max (rf_last_applied n) (min (rf_commit_index n') (length (rf_log n')))"
    using e(6) by simp
  have "map (\<lambda>i. (i, rf_log n' ! (i - 1))) [Suc a..<Suc b] = map (\<lambda>i. (Suc i, rf_log n' ! i)) [a..<b]"
    for a b by (simp add: map_Suc_upt [symmetric] del: upt_Suc)
  moreover have "[rf_last_applied n..<rf_last_applied n'] =
      [rf_last_applied n..<min (rf_commit_index n') (length (rf_log n'))]"
    unfolding la by (auto simp: max_def min_def)
  ultimately show ?thesis using la e(7) assms(2) by (simp del: upt_Suc)
qed

text \<open>A follower at term 1 with one uncommitted entry, and a request that replaces it.\<close>

definition sample_entry :: "nat \<Rightarrow> string \<Rightarrow> log_entry" where
  "sample_entry t c = \<lparr>le_term = t, le_command = c\<rparr>"

definition sample_node :: "string \<Rightarrow> nat \<Rightarrow> raft_state \<Rightarrow> log_entry list \<Rightarrow> raft_node" where
  "sample_node v t st l =
     (new_raft_node \<lparr>rc_node_id = v, rc_storage_dir = [], rc_election_timeout_min = 150,
        rc_election_timeout_max = 300, rc_heartbeat_interval = 50,
        rc_peers = map (\<lambda>p. \<lparr>peer_id = p, peer_host = [], peer_port = 0\<rparr>)
          [''a'', ''b'', ''c'', ''d'', ''e'']\<rparr> (\<lambda>_. 200) None 0)
       \<lparr>rf_current_term := t, rf_state := st, rf_log := l, rf_apply_cb := True\<rparr>"

definition sample_args :: append_entries_args where
  "sample_args = \<lparr>ae_term = 2, ae_leader_id = ''a'', ae_prev_log_index = 0, ae_prev_log_term = 0,
     ae_entries = [sample_entry 2 ''x'', sample_entry 2 ''y''], ae_leader_commit = 1\<rparr>"

lemma sample_node_simps [simp]:
  "rf_log (sample_node v t st l) = l" "rf_current_term (sample_node v t st l) = t"
  "rf_state (sample_node v t st l) = st" "rf_apply_cb (sample_node v t st l)"
  "rf_events (sample_node v t st l) = []" "rf_last_applied (sample_node v t st l) = 0"
  "rf_commit_index (sample_node v t st l) = 0" "rf_match_index (sample_node v t st l) = []"
  "rf_next_index (sample_node v t st l) = []" "rf_id (sample_node v t st l) = v"
  "quorum_size (sample_node v t st l) = 3"
  by (simp_all add: sample_node_def new_raft_node_def load_persistent_state_def Let_def
      quorum_size_def)

lemma sample_applies: "append_applies sample_args (sample_node ''b'' 1 KFollower [sample_entry 1 ''w''])"
  by (simp add: append_applies_def sample_args_def)

theorem append_entries_idempotent_witness:
  "let n' = snd (handle_append_entries 5 sample_args (sample_node ''b'' 1 KFollower [sample_entry 1 ''w''])) in
     rf_log (snd (handle_append_entries 6 sample_args n')) = rf_log n' \<and>
     rf_last_applied (snd (handle_append_entries 6 sample_args n')) = rf_last_applied n'"
  using append_entries_idempotent [OF sample_applies prod.collapse [symmetric] prod.collapse [symmetric]]
  by (simp add: Let_def)

theorem append_entries_applies_in_order_witness:
  "applied_of (rf_events (snd (handle_append_entries 5 sample_args
      (sample_node ''b'' 1 KFollower [sample_entry 1 ''w''])))) = [(1, sample_entry 2 ''x'')]"
proof -
  let ?n = "sample_node ''b'' 1 KFollower [sample_entry 1 ''w'']"
  let ?n' = "snd (append_accept sample_args (append_prologue 5 sample_args ?n))"
  have h: "handle_append_entries 5 sample_args ?n = append_accept sample_args (append_prologue 5 sample_args ?n)"
    by (rule handle_append_entries_accepts [OF sample_applies])
  note e = append_accept_effect [OF prod.collapse [symmetric], of sample_args "append_prologue 5 sample_args ?n"]
  have log: "rf_log ?n' = [sample_entry 2 ''x'', sample_entry 2 ''y'']"
    unfolding e(4) by (simp add: sample_args_def sample_entry_def Let_def)
  have "rf_commit_index ?n' = 1" unfolding e(5) log by (simp add: sample_args_def)
  with append_entries_applies_in_order [OF sample_applies _ prod.collapse [symmetric], of 5] log
  show ?thesis unfolding h by simp
qed

subsection \<open>Delivery along a run\<close>

text \<open>The regions of a node: the calls of \<^verbatim>\<open>raft_call\<close>, each with the delivery that follows it, and those of elections.\<close>

datatype node_region =
    Region raft_call
  | RegionElection
  | RegionVoteReply request_vote_args request_vote_reply
  | RegionElectionEnd
  | RegionVote request_vote_args

fun region_step :: "int \<times> node_region \<Rightarrow> raft_node \<Rightarrow> raft_node option" where
  "region_step (now, Region c) n = raft_call_step now c n"
| "region_step (now, RegionElection) n = Some (snd (start_election_begin now n))"
| "region_step (now, RegionVoteReply args reply) n = Some (snd (start_election_reply now args reply n))"
| "region_step (now, RegionElectionEnd) n = Some (start_election_end n)"
| "region_step (now, RegionVote args) n = Some (snd (handle_request_vote now args n))"

text \<open>What makes entries reach the callback again: its installation, and a request whose previous entry conflicts with the log, which may
  lower the number of entries applied.\<close>

fun redelivers :: "node_region \<Rightarrow> raft_node \<Rightarrow> bool" where
  "redelivers (Region (CallOnApply cb)) n = True"
| "redelivers (Region (CallAppendEntries args)) n \<longleftrightarrow>
     rf_current_term n \<le> ae_term args \<and> ae_prev_log_index args \<le> length (rf_log n) \<and> \<not> append_applies args n"
| "redelivers _ n = False"

fun steady :: "(int \<times> node_region) list \<Rightarrow> raft_node \<Rightarrow> bool" where
  "steady [] n = True"
| "steady (r # rs) n \<longleftrightarrow> \<not> redelivers (snd r) n \<and> (case region_step r n of None \<Rightarrow> True | Some n' \<Rightarrow> steady rs n')"

text \<open>What one region delivers: the entries between the old and the new number of entries applied.\<close>

definition delivers :: "raft_node \<Rightarrow> raft_node \<Rightarrow> bool" where
  "delivers n n' \<longleftrightarrow> rf_apply_cb n' = rf_apply_cb n \<and> rf_last_applied n \<le> rf_last_applied n' \<and>
     (rf_last_applied n' = rf_last_applied n \<or> rf_last_applied n' \<le> min (rf_commit_index n') (length (rf_log n'))) \<and>
     applied_of (rf_events n') = applied_of (rf_events n) @
       (if rf_apply_cb n then map (\<lambda>i. (Suc i, rf_log n' ! i)) [rf_last_applied n..<rf_last_applied n'] else [])"

lemma delivers_same:
  "rf_apply_cb n' = rf_apply_cb n \<Longrightarrow> rf_last_applied n' = rf_last_applied n \<Longrightarrow> applied_of (rf_events n') = applied_of (rf_events n) \<Longrightarrow> delivers n n'"
  by (simp add: delivers_def)

lemma applied_of_follower [simp]: "applied_of (rf_events (become_follower now t n)) = applied_of (rf_events n)"
  by (simp add: become_follower_def Let_def emit_def)

lemma applied_of_leader [simp]: "applied_of (rf_events (become_leader n)) = applied_of (rf_events n)"
  by (simp add: become_leader_def Let_def emit_def)

lemma delivers_drain:
  assumes "drain_committed_entries_locked m = (applied, m')" "rf_apply_cb m = rf_apply_cb n" "rf_last_applied m = rf_last_applied n"
    and "applied_of (rf_events m) = applied_of (rf_events n)"
  shows "delivers n (deliver_applied_entries applied (persist_state_locked m'))"
proof -
  let ?hi = "min (rf_commit_index m) (length (rf_log m))"
  have "[rf_last_applied m..<max (rf_last_applied m) ?hi] = [rf_last_applied m..<?hi]" by (auto simp: max_def)
  then show ?thesis using assms by (auto simp: delivers_def drain_committed_spec comp_def max_def)
qed

lemma delivers_append_entries:
  assumes "\<not> redelivers (Region (CallAppendEntries args)) n"
  shows "delivers n (snd (handle_append_entries now args n))"
proof (cases "append_applies args n")
  case True
  obtain applied m where d: "drain_committed_entries_locked
      (let n1 = (append_prologue now args n)\<lparr>rf_log := snd (append_loop (ae_prev_log_index args) (ae_entries args) (rf_log n))\<rparr> in
       n1\<lparr>rf_commit_index := (if ae_leader_commit args > rf_commit_index n1
          then min (ae_leader_commit args) (length (rf_log n1)) else rf_commit_index n1)\<rparr>) = (applied, m)" by fastforce
  have "snd (append_accept args (append_prologue now args n)) = deliver_applied_entries applied (persist_state_locked m)"
    using d by (simp add: append_accept_def Let_def)
  moreover have "delivers n (deliver_applied_entries applied (persist_state_locked m))"
    by (rule delivers_drain [OF d]) (simp_all add: Let_def)
  ultimately show ?thesis by (simp add: handle_append_entries_accepts [OF True])
next
  case False
  then have "ae_term args < rf_current_term n \<or> ae_prev_log_index args > length (rf_log n)" using assms by auto
  then show ?thesis by (auto simp: handle_append_entries_def Let_def intro: delivers_same)
qed

lemma delivers_elections:
  "delivers n (snd (start_election_begin now n))" "delivers n (snd (start_election_reply now args reply n))" "delivers n (start_election_end n)"
  "delivers n (snd (handle_request_vote now vargs n))" "delivers n (snd (append_command_reply now pid areply n))"
  by (simp_all add: delivers_def start_election_begin_def start_election_reply_def start_election_end_def handle_request_vote_def append_command_reply_def
      back_off_next_index_def record_match_def Let_def)

lemma region_delivers:
  assumes "region_step r n = Some n'" "\<not> redelivers (snd r) n"
  shows "delivers n n'"
proof -
  obtain now g where r: "r = (now, g)" by fastforce
  show ?thesis
  proof (cases g)
    case (Region c)
    show ?thesis
    proof (cases c)
      case (CallAppendEntries args)
      then show ?thesis using assms delivers_append_entries [of args n now] by (auto simp: r Region)
    next
      case (CallHeartbeatReply pid reply)
      then show ?thesis
        using assms by (auto simp: r Region heartbeat_reply_def back_off_next_index_def record_match_def Let_def
            dest!: update_commit_index_Some split: if_splits intro!: delivers_same)
    next
      case (CallAppendFinish successes)
      then show ?thesis
        using assms by (auto simp: r Region append_command_finish_def dest!: update_commit_index_Some
            split: if_splits option.splits prod.splits intro: delivers_same delivers_drain)
    next
      case (CallAppendBegin command)
      then show ?thesis
        using assms by (auto simp: r Region append_command_begin_def Let_def split: if_splits option.splits intro!: delivers_same)
    next
      case (CallAppendReply pid reply)
      then show ?thesis
        using assms delivers_elections(5) by (auto simp: r Region)
    qed (use assms in \<open>simp add: r Region\<close>)
  qed (use assms delivers_elections in \<open>auto simp: r\<close>)
qed

text \<open>C3: Entries reach the state machine in log order, without a gap and each once. Along any sequence of calls, none of which overlaps another, between two installations of the apply callback and between two requests that conflict with the node's log, the callback gets every index after the last applied one exactly once, in order, up to the new last applied one, each with the entry the node's log had at that index when it was committed there.\<close>

theorem deliveries_in_order:
  assumes "call_seq region_step rs n = Some n'" and "steady rs n" and "rf_apply_cb n"
  shows "\<exists>ds. applied_of (rf_events n') = applied_of (rf_events n) @ ds \<and> rf_last_applied n \<le> rf_last_applied n' \<and>
    map fst ds = [Suc (rf_last_applied n)..<Suc (rf_last_applied n')] \<and>
    (\<forall>(i, e) \<in> set ds. \<exists>k m. call_seq region_step (take k rs) n = Some m \<and> i \<le> rf_commit_index m \<and> i \<le> length (rf_log m) \<and> e = rf_log m ! (i - 1))"
  using assms
proof (induction rs arbitrary: n)
  case (Cons r rs)
  then obtain m where m: "region_step r n = Some m" "call_seq region_step rs m = Some n'" "steady rs m" "\<not> redelivers (snd r) n"
    by (auto split: option.splits)
  have d: "delivers n m" by (rule region_delivers [OF m(1,4)])
  then have cb: "rf_apply_cb m" using Cons.prems(3) by (simp add: delivers_def)
  from Cons.IH [OF m(2,3) cb] obtain ds where ds: "applied_of (rf_events n') = applied_of (rf_events m) @ ds" "rf_last_applied m \<le> rf_last_applied n'"
    "map fst ds = [Suc (rf_last_applied m)..<Suc (rf_last_applied n')]"
    "\<forall>(i, e) \<in> set ds. \<exists>k m'. call_seq region_step (take k rs) m = Some m' \<and> i \<le> rf_commit_index m' \<and> i \<le> length (rf_log m') \<and> e = rf_log m' ! (i - 1)"
    by auto
  let ?new = "map (\<lambda>i. (Suc i, rf_log m ! i)) [rf_last_applied n..<rf_last_applied m]"
  have idx: "map fst (?new @ ds) = [Suc (rf_last_applied n)..<Suc (rf_last_applied n')]"
  proof -
    have "map fst ?new = [Suc (rf_last_applied n)..<Suc (rf_last_applied m)]" by (simp add: comp_def map_Suc_upt del: upt_Suc)
    moreover have "[Suc (rf_last_applied n)..<Suc (rf_last_applied m)] @ [Suc (rf_last_applied m)..<Suc (rf_last_applied n')] =
        [Suc (rf_last_applied n)..<Suc (rf_last_applied n')]"
      using d ds(2) upt_add_eq_append [of "Suc (rf_last_applied n)" "Suc (rf_last_applied m)" "rf_last_applied n' - rf_last_applied m"]
      by (simp add: delivers_def del: upt_Suc)
    ultimately show ?thesis using ds(3) by (simp del: upt_Suc)
  qed
  have here: "\<exists>k m'. call_seq region_step (take k (r # rs)) n = Some m' \<and> Suc i \<le> rf_commit_index m' \<and> Suc i \<le> length (rf_log m') \<and> rf_log m ! i = rf_log m' ! i"
    if "rf_last_applied n \<le> i" "i < rf_last_applied m" for i
    using that d m(1) by (intro exI [of _ 1] exI [of _ m]) (auto simp: delivers_def)
  have later: "\<exists>k m'. call_seq region_step (take k (r # rs)) n = Some m' \<and> i \<le> rf_commit_index m' \<and> i \<le> length (rf_log m') \<and> e = rf_log m' ! (i - 1)"
    if "(i, e) \<in> set ds" for i e
  proof -
    from ds(4) that obtain k m' where "call_seq region_step (take k rs) m = Some m'" "i \<le> rf_commit_index m'" "i \<le> length (rf_log m')" "e = rf_log m' ! (i - 1)"
      by blast
    then show ?thesis using m(1) by (intro exI [of _ "Suc k"] exI [of _ m']) simp
  qed
  show ?case
    using d ds(1,2) idx here later Cons.prems(3) by (intro exI [of _ "?new @ ds"]) (auto simp: delivers_def)
qed simp

definition delivery_run :: "(int \<times> node_region) list" where
  "delivery_run = [(4, RegionVote \<lparr>rv_term = 2, rv_candidate_id = ''a'', rv_last_log_term = 1, rv_last_log_index = 1\<rparr>),
     (5, Region (CallAppendEntries sample_args))]"

theorem deliveries_in_order_witness:
  "\<exists>n'. call_seq region_step delivery_run (sample_node ''b'' 1 KFollower [sample_entry 1 ''w'']) = Some n' \<and>
     map fst (applied_of (rf_events n')) = [1..<Suc (rf_last_applied n')]"
proof -
  let ?n = "sample_node ''b'' 1 KFollower [sample_entry 1 ''w'']"
  obtain m where m: "region_step (4, RegionVote \<lparr>rv_term = 2, rv_candidate_id = ''a'', rv_last_log_term = 1, rv_last_log_index = 1\<rparr>) ?n = Some m" by simp
  have m1: "rf_log m = [sample_entry 1 ''w'']" "rf_current_term m = 2"
    using m by (auto simp: handle_request_vote_def Let_def is_log_up_to_date_def last_log_term_of_def sample_entry_def split: if_splits)
  then have ap: "append_applies sample_args m" by (simp add: append_applies_def sample_args_def)
  obtain n' where n': "call_seq region_step delivery_run ?n = Some n'"
    using m by (simp add: delivery_run_def)
  have "steady delivery_run ?n" using m ap by (simp add: delivery_run_def)
  from deliveries_in_order [OF n' this] n' show ?thesis by auto
qed

subsection \<open>Commitment\<close>

lemma sorted_rank:
  assumes "1 \<le> k" and "k \<le> length xs"
  shows "k \<le> length (filter (\<lambda>x. sort xs ! (length xs - k) \<le> x) (xs :: nat list))"
proof -
  let ?s = "sort xs" and ?c = "sort xs ! (length xs - k)"
  have "\<forall>x \<in> set (drop (length xs - k) ?s). ?c \<le> x"
  proof
    fix x assume "x \<in> set (drop (length xs - k) ?s)"
    then obtain i where "i < k" "x = ?s ! (length xs - k + i)"
      using assms by (auto simp: in_set_conv_nth)
    with assms show "?c \<le> x" by (simp add: sorted_nth_mono)
  qed
  then have "filter (\<lambda>x. ?c \<le> x) (drop (length xs - k) ?s) = drop (length xs - k) ?s"
    by (simp add: filter_id_conv)
  then have "k = length (filter (\<lambda>x. ?c \<le> x) (drop (length xs - k) ?s))" using assms by simp
  also have "\<dots> \<le> length (filter (\<lambda>x. ?c \<le> x) ?s)"
    by (metis append_take_drop_id filter_append le_add2 length_append)
  also have "\<dots> = length (filter (\<lambda>x. ?c \<le> x) xs)"
    by (simp add: filter_sort)
  finally show ?thesis .
qed

text \<open>The nodes known to hold the first \<open>c\<close> entries: the leader and the peers that reported them.\<close>

definition holders :: "nat \<Rightarrow> raft_node \<Rightarrow> string set" where
  "holders c n = insert (rf_id n) {p. \<exists>m. map_of (rf_match_index n) p = Some m \<and> c \<le> m}"

text \<open>The table of positions has one entry for each node.\<close>

lemma distinct_fold_update: "distinct (map fst m) \<Longrightarrow> distinct (map fst (fold (\<lambda>p m. AList.update (key p) v m) ps m))"
  by (induction ps arbitrary: m) (simp_all add: distinct_update)

abbreviation positions_distinct :: "raft_node \<Rightarrow> bool" where
  "positions_distinct n \<equiv> distinct (map fst (rf_match_index n))"

lemma positions_fields:
  "positions_distinct (become_follower now t n)" "positions_distinct (become_leader n)"
  "positions_distinct n \<Longrightarrow> positions_distinct (record_match pid m n)" "positions_distinct n \<Longrightarrow> positions_distinct (back_off_next_index pid n)"
  by (simp_all add: become_leader_def Let_def distinct_fold_update record_match_def back_off_next_index_def distinct_update)

lemma positions_append_entries: "positions_distinct n \<Longrightarrow> positions_distinct (snd (handle_append_entries now args n))"
  by (simp add: handle_append_entries_def append_prologue_def append_reject_def append_accept_def Let_def drain_committed_spec)

lemma positions_call:
  assumes "raft_call_step now c n = Some n'" "positions_distinct n"
  shows "positions_distinct n'"
proof (cases c)
  case (CallAppendFinish successes)
  then show ?thesis
    using assms by (auto simp: append_command_finish_def drain_committed_spec dest!: update_commit_index_Some split: if_splits option.splits)
next
  case (CallHeartbeatReply pid reply)
  then show ?thesis
    using assms by (auto simp: heartbeat_reply_def positions_fields dest!: update_commit_index_Some split: if_splits)
next
  case (CallAppendReply pid reply)
  then show ?thesis using assms by (auto simp: append_command_reply_def positions_fields)
qed (use assms in \<open>auto simp: positions_append_entries append_command_begin_def on_apply_def Let_def distinct_update split: if_splits option.splits\<close>)

lemma positions_elections:
  "positions_distinct n \<Longrightarrow> positions_distinct (snd (start_election_begin now n))"
  "positions_distinct n \<Longrightarrow> positions_distinct (snd (start_election_reply now args reply n))"
  "positions_distinct n \<Longrightarrow> positions_distinct (start_election_end n)"
  "positions_distinct n \<Longrightarrow> positions_distinct (snd (handle_request_vote now vargs n))"
  by (simp_all add: start_election_begin_def start_election_reply_def start_election_end_def handle_request_vote_def positions_fields Let_def)

lemma positions_new: "positions_distinct (new_raft_node cfg rng disk now)"
  by (simp add: new_raft_node_def load_persistent_state_def Let_def split: option.splits)

lemma positions_reachable: "reachable ids cl \<Longrightarrow> v \<in> set ids \<Longrightarrow> positions_distinct (cl_nodes cl v)"
proof (induction rule: reachable.induct)
  case (init cl)
  then show ?case using positions_new by (fastforce simp: cluster_init_def)
next
  case (step cl cl')
  from step.hyps(2) show ?case
    using step.IH step.prems
  proof (cases rule: cluster_step.cases)
    case (elect c now args n)
    then show ?thesis using step.IH step.prems positions_elections(1) [of "cl_nodes cl c" now] by (cases "v = c") auto
  next
    case (tally c r p ps reply now go n)
    then show ?thesis using step.IH step.prems positions_elections(2) [of "cl_nodes cl c" now "er_args r" reply] by (cases "v = c") auto
  next
    case (finish c r n)
    then show ?thesis using step.IH step.prems positions_elections(3) [of "cl_nodes cl c"] by (cases "v = c") auto
  next
    case (vote u args now reply n)
    then show ?thesis using step.IH step.prems positions_elections(4) [of "cl_nodes cl u" now args] by (cases "v = u") auto
  next
    case (other_call u now call n)
    then show ?thesis using step.IH step.prems positions_call by (cases "v = u") auto
  qed (simp_all add: restart_node_def positions_new)
qed

lemma committed_by:
  assumes "update_commit_index_locked n = Some n'" and "positions_distinct n" and "rf_commit_index n' \<noteq> rf_commit_index n"
  shows "rf_commit_index n < rf_commit_index n' \<and> rf_commit_index n' \<le> length (rf_log n') \<and>
    le_term (rf_log n' ! (rf_commit_index n' - 1)) = rf_current_term n' \<and>
    quorum_size n' \<le> card (holders (rf_commit_index n') n') + (if rf_id n' \<in> fst ` set (rf_match_index n') then 1 else 0)"
proof -
  let ?xs = "length (rf_log n) # map snd (rf_match_index n)"
  let ?c = "sort ?xs ! (length ?xs - quorum_size n)"
  let ?high = "filter (\<lambda>e. ?c \<le> snd e) (rf_match_index n)"
  have q: "quorum_size n \<le> length ?xs" and n': "n' = n\<lparr>rf_commit_index := ?c\<rparr>"
    and c: "?c > rf_commit_index n" "?c \<le> length (rf_log n)" "le_term (rf_log n ! (?c - 1)) = rf_current_term n"
    using assms(1,3) unfolding update_commit_index_locked_def Let_def by (auto split: if_splits)
  have "1 \<le> quorum_size n" by (simp add: quorum_size_def)
  from sorted_rank [OF this q] c(2) have count: "quorum_size n \<le> 1 + length ?high" by (simp add: filter_map comp_def)
  have h: "holders ?c n' = insert (rf_id n) (set (map fst ?high))"
    using assms(2) n' by (force simp: holders_def map_of_eq_Some_iff)
  have "distinct (map fst ?high)" using assms(2) by auto
  then have "card (set (map fst ?high)) = length ?high" by (simp add: distinct_card del: set_map)
  moreover have "rf_id n \<in> set (map fst ?high) \<Longrightarrow> rf_id n \<in> fst ` set (rf_match_index n)" by auto
  ultimately have "1 + length ?high \<le> card (holders ?c n') + (if rf_id n \<in> fst ` set (rf_match_index n) then 1 else 0)"
    unfolding h by (auto simp: card_insert_if simp del: set_map)
  moreover have "quorum_size n' = quorum_size n" unfolding n' by (rule quorum_size_cong) simp
  ultimately show ?thesis using n' c count by simp
qed

text \<open>C4: The commitment rule. In every reachable cluster, a call other than AppendEntries that changes the commit index of a node moves it forward, not beyond the log, to an entry of the current term that a quorum of the cluster is known to hold; or all but one of a quorum, when the node has entered its own position in the table and is counted twice.\<close>

theorem commit_needs_quorum:
  assumes "reachable ids cl" and "v \<in> set ids" and "raft_call_step now call (cl_nodes cl v) = Some n'"
    and "\<And>args. call \<noteq> CallAppendEntries args" and "rf_commit_index n' \<noteq> rf_commit_index (cl_nodes cl v)"
  shows "rf_commit_index (cl_nodes cl v) < rf_commit_index n' \<and> rf_commit_index n' \<le> length (rf_log n') \<and>
    le_term (rf_log n' ! (rf_commit_index n' - 1)) = rf_current_term n' \<and>
    length ids div 2 + 1 \<le> card (holders (rf_commit_index n') n') + (if v \<in> fst ` set (rf_match_index n') then 1 else 0)"
proof -
  let ?n = "cl_nodes cl v"
  have ok: "rf_id ?n = v" "length (rf_peers ?n) = length ids"
    using cinv_reachable [OF assms(1)] assms(2) by (auto simp: cinv_def node_ok_def dest: arg_cong [where f = length])
  have kept: "rf_id n' = v" "quorum_size n' = length ids div 2 + 1"
    using rk.call_nstep [OF assms(3)] ok by (simp_all add: nstep_def quorum_size_def)
  have d: "positions_distinct ?n" by (rule positions_reachable [OF assms(1,2)])
  have "\<exists>m m'. update_commit_index_locked m = Some m' \<and> positions_distinct m \<and> rf_commit_index m = rf_commit_index ?n \<and>
      rf_commit_index n' = rf_commit_index m' \<and> rf_log n' = rf_log m' \<and> rf_current_term n' = rf_current_term m' \<and>
      rf_match_index n' = rf_match_index m' \<and> rf_config n' = rf_config m' \<and> rf_peers n' = rf_peers m'"
  proof (cases call)
    case (CallHeartbeatReply pid reply)
    then obtain m' where "update_commit_index_locked (record_match pid (aer_match_index reply) ?n) = Some m'" "n' = persist_state_locked m'"
      using assms(3,5) by (auto simp: heartbeat_reply_def back_off_next_index_def Let_def split: if_splits)
    then show ?thesis using positions_fields(3) [OF d]
      by (intro exI [of _ "record_match pid (aer_match_index reply) ?n"] exI [of _ m']) (simp add: record_match_def)
  next
    case (CallAppendFinish successes)
    then obtain m' where "update_commit_index_locked ?n = Some m'"
      "n' = deliver_applied_entries (fst (drain_committed_entries_locked m')) (persist_state_locked (snd (drain_committed_entries_locked m')))"
      using assms(3,5) by (auto simp: append_command_finish_def case_prod_beta split: if_splits option.splits)
    then show ?thesis using d by (intro exI [of _ ?n] exI [of _ m']) (simp add: drain_committed_spec)
  qed (use assms(3-5) in \<open>auto simp: append_command_begin_def append_command_reply_def on_apply_def back_off_next_index_def record_match_def Let_def split: if_splits option.splits\<close>)
  then obtain m m' where m: "update_commit_index_locked m = Some m'" "positions_distinct m" "rf_commit_index m = rf_commit_index ?n"
    "rf_commit_index n' = rf_commit_index m'" "rf_log n' = rf_log m'" "rf_current_term n' = rf_current_term m'"
    "rf_match_index n' = rf_match_index m'" "rf_config n' = rf_config m'" "rf_peers n' = rf_peers m'" by blast
  have "quorum_size m' = quorum_size n'" "holders c m' = holders c n'" for c using m by (simp_all add: quorum_size_def holders_def)
  then show ?thesis using committed_by [OF m(1,2)] assms(5) m kept by simp
qed

lemma two_node_append:
  "\<exists>cl. reachable [''a'', ''b''] cl \<and> rf_state (cl_nodes cl ''a'') = KLeader \<and> rf_log (cl_nodes cl ''a'') = [\<lparr>le_term = 1, le_command = ''x''\<rparr>] \<and>
     rf_commit_index (cl_nodes cl ''a'') = 0 \<and> rf_match_index (cl_nodes cl ''a'') = [(''b'', 0), (''a'', 1)] \<and> rf_current_term (cl_nodes cl ''a'') = 1"
proof -
  obtain cl where cl: "reachable [''a'', ''b''] cl" "rf_state (cl_nodes cl ''a'') = KLeader" "rf_log (cl_nodes cl ''a'') = []"
    "rf_commit_index (cl_nodes cl ''a'') = 0" "rf_match_index (cl_nodes cl ''a'') = [(''b'', 0)]" "rf_current_term (cl_nodes cl ''a'') = 1"
    using two_node_election by blast
  have id: "rf_id (cl_nodes cl ''a'') = ''a''" using cinv_reachable [OF cl(1)] by (auto simp: cinv_def node_ok_def)
  define n where "n = persist_state_locked ((cl_nodes cl ''a'')\<lparr>rf_log := [\<lparr>le_term = 1, le_command = ''x''\<rparr>], rf_match_index := [(''b'', 0), (''a'', 1)]\<rparr>)"
  have "raft_call_step 300 (CallAppendBegin ''x'') (cl_nodes cl ''a'') = Some n"
    using cl id by (simp add: append_command_begin_def Let_def n_def)
  then have "cluster_step [''a'', ''b''] cl (set_node ''a'' n cl)" by (rule cluster_step.other_call [rotated]) simp
  with cl have "reachable [''a'', ''b''] (set_node ''a'' n cl)" by (blast intro: reachable.step)
  then show ?thesis using cl by (intro exI [of _ "set_node ''a'' n cl"]) (simp add: n_def)
qed

theorem commit_needs_quorum_witness:
  "\<exists>cl n'. reachable [''a'', ''b''] cl \<and>
     raft_call_step 310 (CallHeartbeatReply ''b'' \<lparr>aer_term = 1, aer_success = True, aer_match_index = 1\<rparr>) (cl_nodes cl ''a'') = Some n' \<and>
     rf_commit_index (cl_nodes cl ''a'') < rf_commit_index n' \<and>
     length [''a'', ''b''] div 2 + 1 \<le> card (holders (rf_commit_index n') n') + (if ''a'' \<in> fst ` set (rf_match_index n') then 1 else 0)"
proof -
  let ?call = "CallHeartbeatReply ''b'' \<lparr>aer_term = 1, aer_success = True, aer_match_index = 1\<rparr>"
  obtain cl where cl: "reachable [''a'', ''b''] cl" "rf_state (cl_nodes cl ''a'') = KLeader" "rf_log (cl_nodes cl ''a'') = [\<lparr>le_term = 1, le_command = ''x''\<rparr>]"
    "rf_commit_index (cl_nodes cl ''a'') = 0" "rf_match_index (cl_nodes cl ''a'') = [(''b'', 0), (''a'', 1)]" "rf_current_term (cl_nodes cl ''a'') = 1"
    using two_node_append by blast
  have "length (rf_peers (cl_nodes cl ''a'')) = 2"
    using cinv_reachable [OF cl(1)] by (auto simp: cinv_def node_ok_def dest: arg_cong [where f = length])
  then have q: "quorum_size (record_match ''b'' 1 (cl_nodes cl ''a'')) = 2" by (simp add: quorum_size_def record_match_def)
  let ?m = "(record_match ''b'' 1 (cl_nodes cl ''a''))\<lparr>rf_commit_index := 1\<rparr>"
  have "update_commit_index_locked (record_match ''b'' 1 (cl_nodes cl ''a'')) = Some ?m"
    unfolding update_commit_index_locked_def q using cl by (simp add: record_match_def Let_def)
  then have step: "raft_call_step 310 ?call (cl_nodes cl ''a'') = Some (persist_state_locked ?m)" using cl by (simp add: heartbeat_reply_def)
  have "rf_commit_index (persist_state_locked ?m) \<noteq> rf_commit_index (cl_nodes cl ''a'')" using cl by simp
  from commit_needs_quorum [OF cl(1) _ step _ this] step cl(1) show ?thesis by (intro exI [of _ cl] exI [of _ "persist_state_locked ?m"]) simp
qed

lemma length_fold_update:
  assumes "distinct (map key ps)" and "\<And>p. p \<in> set ps \<Longrightarrow> key p \<notin> fst ` set m"
  shows "length (fold (\<lambda>p m. AList.update (key p) v m) ps m) = length m + length ps"
  using assms
proof (induction ps arbitrary: m)
  case (Cons p ps)
  have fresh: "AList.update (key p) v m = m @ [(key p, v)]" using Cons.prems(2) [of p]
    by (induction m) (auto simp: image_iff)
  have "key q \<notin> fst ` set (m @ [(key p, v)])" if "q \<in> set ps" for q
    using Cons.prems that by (auto simp: image_iff)
  with Cons.IH [of "m @ [(key p, v)]"] Cons.prems(1) fresh show ?case by simp
qed simp

text \<open>A new leader can always compute its commit index: right after an election, and while
  no other call intervenes, the vector that is sorted has at least as many elements as a quorum,
  so its element is read within bounds.\<close>

theorem new_leader_commit_defined:
  assumes "distinct (map peer_id (rf_peers n))"
  shows "update_commit_index_locked (become_leader n) \<noteq> None"
proof -
  let ?others = "filter (\<lambda>p. peer_id p \<noteq> rf_id n) (rf_peers n)"
  have d: "distinct (map peer_id ?others)" using assms by auto
  have "rf_match_index (become_leader n) = fold (\<lambda>p m. AList.update (peer_id p) 0 m) ?others []"
    by (simp add: become_leader_def Let_def)
  then have len: "length (rf_match_index (become_leader n)) = length ?others"
    using length_fold_update [OF d, of "[]" 0] by simp
  have "length (rf_peers n) \<le> length ?others + 1"
  proof -
    have "card (set (map peer_id (rf_peers n)) - {rf_id n}) \<le> card (set (map peer_id ?others))"
      by (rule card_mono) auto
    moreover have "card (set (map peer_id (rf_peers n))) \<le> card (set (map peer_id (rf_peers n)) - {rf_id n}) + 1"
      by (auto simp: card_Diff_singleton_if)
    moreover have "card (set (map peer_id (rf_peers n))) = length (rf_peers n)"
      and "card (set (map peer_id ?others)) = length ?others"
      using distinct_card [OF assms] distinct_card [OF d] by simp_all
    ultimately show ?thesis by linarith
  qed
  then show ?thesis
    using len by (auto simp: update_commit_index_locked_def Let_def quorum_size_def)
qed

definition sample_leader :: raft_node where
  "sample_leader = become_leader (sample_node ''a'' 1 KCandidate [sample_entry 1 ''x''])"

lemma sample_leader_simps [simp]:
  "rf_match_index sample_leader = [(''b'', 0), (''c'', 0), (''d'', 0), (''e'', 0)]"
  "rf_next_index sample_leader = [(''b'', 2), (''c'', 2), (''d'', 2), (''e'', 2)]"
  "rf_log sample_leader = [sample_entry 1 ''x'']" "rf_current_term sample_leader = 1"
  "rf_state sample_leader = KLeader" "rf_commit_index sample_leader = 0"
  "rf_id sample_leader = ''a''" "quorum_size sample_leader = 3"
  by (simp_all add: sample_leader_def sample_node_def become_leader_def Let_def new_raft_node_def
      load_persistent_state_def u64_max_def quorum_size_def)

theorem new_leader_commit_defined_witness:
  "update_commit_index_locked (become_leader (sample_node ''a'' 1 KCandidate [])) \<noteq> None"
  by (rule new_leader_commit_defined)
    (simp add: sample_node_def new_raft_node_def load_persistent_state_def Let_def)

subsection \<open>Catching up\<close>

text \<open>Heartbeats to one peer until it accepts; the first argument bounds their number.\<close>

fun catch_up ::
  "nat \<Rightarrow> int \<Rightarrow> string \<Rightarrow> raft_node \<Rightarrow> raft_node \<Rightarrow> (raft_node \<times> raft_node) option" where
  "catch_up 0 now pid L F = None"
| "catch_up (Suc k) now pid L F =
     (let (reply, F1) = handle_append_entries now (make_append_entries_for pid L) F in
      if aer_success reply then Some (L, F1)
      else case heartbeat_reply now pid reply L of
             Some (True, L1) \<Rightarrow> catch_up k now pid L1 F1
           | _ \<Rightarrow> None)"

lemma handle_append_entries_term:
  assumes "rf_current_term n \<le> ae_term args"
  shows "rf_current_term (snd (handle_append_entries now args n)) = ae_term args"
    and "aer_term (fst (handle_append_entries now args n)) = ae_term args"
proof -
  let ?n1 = "append_prologue now args n"
  have n1: "rf_current_term ?n1 = ae_term args" using assms by simp
  have "aer_term (fst (append_reject p m)) = rf_current_term m" for p m
    by (simp add: append_reject_def Let_def append_reply_def)
  with assms n1 append_reject_effect(3) append_accept_parts(2,9)
  show "rf_current_term (snd (handle_append_entries now args n)) = ae_term args"
    and "aer_term (fst (handle_append_entries now args n)) = ae_term args"
    by (simp_all add: handle_append_entries_def Let_def)
qed

lemma make_append_entries_for_simps:
  assumes "map_of (rf_next_index L) pid = Some nxt" and "1 \<le> nxt" and "nxt \<le> length (rf_log L) + 1"
  shows "ae_term (make_append_entries_for pid L) = rf_current_term L"
    and "ae_prev_log_index (make_append_entries_for pid L) = nxt - 1"
    and "ae_entries (make_append_entries_for pid L) = drop (nxt - 1) (rf_log L)"
  using assms by (auto simp: make_append_entries_for_def Let_def)

text \<open>C2: A lagging or diverged follower catches up. If the leader's next index for it lies
  within the log and the follower's term is not newer, then after at most that many heartbeats
  the follower accepts, and from some position on its log then continues with exactly the rest
  of the leader's log.\<close>

theorem follower_catches_up:
  assumes "rf_state L = KLeader" and "rf_current_term F \<le> rf_current_term L"
    and "map_of (rf_next_index L) pid = Some nxt" and "1 \<le> nxt" and "nxt \<le> length (rf_log L) + 1"
  shows "\<exists>L' F' prev. catch_up nxt now pid L F = Some (L', F') \<and> rf_log L' = rf_log L \<and> prev < nxt \<and>
    take (length (rf_log L) - prev) (drop prev (rf_log F')) = drop prev (rf_log L)"
  using assms
proof (induction nxt arbitrary: L F)
  case (Suc k)
  let ?args = "make_append_entries_for pid L"
  obtain reply F1 where h: "handle_append_entries now ?args F = (reply, F1)" by fastforce
  note mk = make_append_entries_for_simps [OF Suc.prems(3-5)]
  have t: "rf_current_term F \<le> ae_term ?args" using Suc.prems(2) mk by simp
  note tm = handle_append_entries_term [OF t, of now, unfolded h, simplified]
  show ?case
  proof (cases "append_applies ?args F")
    case True
    with h have acc: "append_accept ?args (append_prologue now ?args F) = (reply, F1)"
      by (simp add: handle_append_entries_accepts)
    have "k \<le> length (rf_log F)" using True mk by (simp add: append_applies_def)
    from append_loop_replicates(2) [OF this, of "drop k (rf_log L)"] append_accept_effect(1,4) [OF acc] mk h
    show ?thesis by (auto simp: intro!: exI [of _ k])
  next
    case False
    then have refused: "\<not> aer_success reply" using handle_append_entries_refuses [of ?args F now] h by simp
    have "k \<noteq> 0"
      using False Suc.prems(2) mk by (auto simp: append_applies_def)
    let ?L1 = "back_off_next_index pid L"
    have hb: "heartbeat_reply now pid reply L = Some (True, ?L1)"
      using refused tm mk Suc.prems(1) by (simp add: heartbeat_reply_def)
    have L1: "rf_state ?L1 = KLeader" "rf_current_term ?L1 = rf_current_term L"
      "rf_log ?L1 = rf_log L" "map_of (rf_next_index ?L1) pid = Some k"
      using Suc.prems \<open>k \<noteq> 0\<close> by (simp_all add: back_off_next_index_def Let_def update_Some_unfold)
    from Suc.IH [of ?L1 F1] L1 tm mk Suc.prems(5) \<open>k \<noteq> 0\<close>
    obtain L' F' prev where "catch_up k now pid ?L1 F1 = Some (L', F')" "rf_log L' = rf_log L" "prev < k"
      "take (length (rf_log L) - prev) (drop prev (rf_log F')) = drop prev (rf_log L)" by auto
    with h refused hb show ?thesis by (auto intro!: exI [of _ prev])
  qed
qed simp

theorem follower_catches_up_witness:
  "\<exists>L' F' prev. catch_up 2 7 ''b'' sample_leader (sample_node ''b'' 0 KFollower []) = Some (L', F') \<and>
     rf_log L' = rf_log sample_leader \<and> prev < 2 \<and>
     take (length (rf_log sample_leader) - prev) (drop prev (rf_log F')) = drop prev (rf_log sample_leader)"
  by (rule follower_catches_up) (simp_all del: One_nat_def)

subsection \<open>Restarts\<close>

text \<open>C5: A restart forgets neither term, vote nor log. In every reachable state of a cluster, a
  node with a storage directory that crashes and is constructed again from its file has the
  same current term, the same vote and the same log as before the crash, and applies and commits
  no more than its log holds.\<close>

theorem restart_keeps_vote_and_log:
  assumes "reachable ids cl" and "v \<in> set ids"
    and "rc_storage_dir (rf_config (cl_nodes cl v)) \<noteq> []"
    and "n = restart_node rng now (cl_nodes cl v)"
  shows "rf_current_term n = rf_current_term (cl_nodes cl v) \<and>
    rf_voted_for n = rf_voted_for (cl_nodes cl v) \<and> rf_log n = rf_log (cl_nodes cl v) \<and>
    rf_state n = KFollower \<and>
    rf_last_applied n \<le> rf_commit_index n \<and> rf_commit_index n \<le> length (rf_log n)"
proof -
  have "durable (cl_nodes cl v)"
    using cinv_reachable [OF assms(1)] assms(2) by (simp add: cinv_def node_ok_def)
  with assms(3,4) show ?thesis
    by (cases "rf_disk (cl_nodes cl v)")
      (simp_all add: durable_def restart_node_def new_raft_node_def load_persistent_state_def Let_def
        min_le_iff_disj)
qed

definition stored_config :: "string \<Rightarrow> raft_config" where
  "stored_config v = \<lparr>rc_node_id = v, rc_storage_dir = ''d'', rc_election_timeout_min = 150,
     rc_election_timeout_max = 300, rc_heartbeat_interval = 50,
     rc_peers = [\<lparr>peer_id = ''a'', peer_host = [], peer_port = 0\<rparr>, \<lparr>peer_id = ''b'', peer_host = [], peer_port = 0\<rparr>]\<rparr>"

definition voted_cluster :: raft_cluster where
  "voted_cluster =
     (let n = snd (start_election_begin 200 (new_raft_node (stored_config ''a'') (\<lambda>_. 200) None 0));
          args = fst (start_election_begin 200 (new_raft_node (stored_config ''a'') (\<lambda>_. 200) None 0))
      in \<lparr>cl_nodes = (\<lambda>v. new_raft_node (stored_config v) (\<lambda>_. 200) None 0)(''a'' := n),
          cl_runs = [''a'' \<mapsto> \<lparr>er_args = args, er_todo = rf_peers n, er_granted = {}\<rparr>],
          cl_requests = {args}, cl_votes = {}, cl_elected = {}\<rparr>)"

lemma voted_cluster_reachable: "reachable [''a'', ''b''] voted_cluster"
proof -
  let ?node = "\<lambda>v. new_raft_node (stored_config v) (\<lambda>_. 200) None 0"
  let ?cl0 = "\<lparr>cl_nodes = ?node, cl_runs = (\<lambda>_. None), cl_requests = {}, cl_votes = {}, cl_elected = {}\<rparr>"
  have cfg: "rc_node_id (stored_config v) = v" "map peer_id (rc_peers (stored_config v)) = [''a'', ''b'']" for v
    by (simp_all add: stored_config_def)
  have "cluster_init [''a'', ''b''] ?cl0"
    unfolding cluster_init_def using cfg by auto
  then have r0: "reachable [''a'', ''b''] ?cl0" by (rule reachable.init)
  have fresh: "rf_state (?node v) = KFollower" "rf_current_term (?node v) = 0" for v
    by (simp_all add: new_raft_node_def load_persistent_state_def Let_def)
  have "cluster_step [''a'', ''b''] ?cl0 voted_cluster"
    using cluster_step.elect [of "''a''" "[''a'', ''b'']" ?cl0 200, OF _ _ _ _ prod.collapse [symmetric]] fresh
    by (simp add: voted_cluster_def Let_def set_run_def set_node_def u64_max_def)
  with r0 show ?thesis by (rule reachable.step)
qed

theorem restart_keeps_vote_and_log_witness:
  "rf_voted_for (restart_node (\<lambda>_. 160) 500 (cl_nodes voted_cluster ''a'')) = Some ''a'' \<and>
   rf_current_term (restart_node (\<lambda>_. 160) 500 (cl_nodes voted_cluster ''a'')) = 1"
proof -
  have n: "rf_voted_for (cl_nodes voted_cluster ''a'') = Some ''a''"
    "rf_current_term (cl_nodes voted_cluster ''a'') = 1"
    "rc_storage_dir (rf_config (cl_nodes voted_cluster ''a'')) \<noteq> []"
    by (simp_all add: voted_cluster_def Let_def start_election_begin_def new_raft_node_def
        load_persistent_state_def stored_config_def u64_max_def)
  from restart_keeps_vote_and_log [OF voted_cluster_reachable _ n(3) refl, of "\<lambda>_. 160" 500] n(1,2)
  show ?thesis by simp
qed

subsection \<open>Departures from the commitment rule\<close>

text \<open>
  \<^verbatim>\<open>append_command\<close> stores the leader's own position in \<^verbatim>\<open>match_index_\<close>, and
  \<^verbatim>\<open>update_commit_index_locked\<close> adds the length of the leader's log to those positions, so the
  leader is counted twice.
\<close>

text \<open>C40: A defect. In a cluster of five, a leader that has appended a command commits it on
  the heartbeat answer of a single peer, although only two of the five nodes hold it.\<close>

theorem leader_counted_twice:
  "\<exists>targets n1 n2. append_command_begin ''y'' sample_leader = Some (targets, n1) \<and>
     heartbeat_reply 9 ''b'' \<lparr>aer_term = 1, aer_success = True, aer_match_index = 2\<rparr> n1 = Some (True, n2) \<and>
     rf_commit_index n2 = 2 \<and> card (holders 2 n2) = 2 \<and> quorum_size n2 = 3"
proof -
  let ?n1 = "persist_state_locked (sample_leader
    \<lparr>rf_log := [sample_entry 1 ''x'', sample_entry 1 ''y''],
      rf_match_index := [(''b'', 0), (''c'', 0), (''d'', 0), (''e'', 0), (''a'', 2)]\<rparr>)"
  let ?m = "record_match ''b'' 2 ?n1"
  have b: "append_command_begin ''y'' sample_leader =
      Some (filter (\<lambda>p. peer_id p \<noteq> ''a'') (rf_peers sample_leader), ?n1)"
    by (simp add: append_command_begin_def Let_def sample_entry_def numeral_2_eq_2)
  have m: "rf_match_index ?m = [(''b'', 2), (''c'', 0), (''d'', 0), (''e'', 0), (''a'', 2)]"
    "rf_log ?m = [sample_entry 1 ''x'', sample_entry 1 ''y'']" "rf_commit_index ?m = 0"
    "rf_current_term ?m = 1" "rf_id ?m = ''a''" "rf_peers ?m = rf_peers sample_leader"
    by (simp_all add: record_match_def)
  have q: "quorum_size ?m = 3" using sample_leader_simps(8) m(6) by (simp only: quorum_size_def)
  have u: "update_commit_index_locked ?m = Some (?m\<lparr>rf_commit_index := 2\<rparr>)"
    unfolding update_commit_index_locked_def m q Let_def by (simp add: sample_entry_def)
  let ?n2 = "persist_state_locked (?m\<lparr>rf_commit_index := 2\<rparr>)"
  have hb: "heartbeat_reply 9 ''b'' \<lparr>aer_term = 1, aer_success = True, aer_match_index = 2\<rparr> ?n1
      = Some (True, ?n2)"
    using u by (simp add: heartbeat_reply_def)
  have "holders 2 ?n2 = {''a'', ''b''}"
    using m(1,5) by (auto simp: holders_def split: if_splits)
  then have "card (holders 2 ?n2) = 2" by simp
  moreover have "quorum_size ?n2 = 3" using q by (simp add: quorum_size_def)
  ultimately show ?thesis using b hb by auto
qed

text \<open>A defect. \<^verbatim>\<open>append_command\<close> does not check again that the node is still leader before
  it computes the commit index: after a step-down between the last answer and that point, in any
  cluster with more than one node, the vector of positions is shorter than a quorum and its
  element is read out of bounds.\<close>

theorem append_command_after_step_down:
  assumes "2 \<le> length (rf_peers n)" and "quorum_size n \<le> successes"
  shows "append_command_finish successes (become_follower now t n) = None"
proof -
  have "quorum_size (become_follower now t n) = quorum_size n" by (rule quorum_size_cong) simp
  with assms show ?thesis
    by (auto simp: append_command_finish_def update_commit_index_locked_def quorum_size_def)
qed

theorem append_command_after_step_down_witness:
  "append_command_finish 3 (become_follower 5 2 sample_leader) = None"
  by (rule append_command_after_step_down)
    (use sample_leader_simps(8) in \<open>simp_all add: quorum_size_def\<close>)

text \<open>A defect. The answer to an accepted AppendEntries reports the length of the whole
  local log: an empty heartbeat from term 2 that verifies nothing makes a follower with two
  unreplicated entries of term 1 report that it matches the leader up to index 2.\<close>

theorem match_index_overreported:
  "let F = sample_node ''b'' 1 KFollower [sample_entry 1 ''p'', sample_entry 1 ''q''];
       args = \<lparr>ae_term = 2, ae_leader_id = ''a'', ae_prev_log_index = 0, ae_prev_log_term = 0,
               ae_entries = [], ae_leader_commit = 0\<rparr>;
       (reply, F') = handle_append_entries 5 args F
   in aer_success reply \<and> aer_match_index reply = 2 \<and> rf_log F' = rf_log F"
proof -
  let ?F = "sample_node ''b'' 1 KFollower [sample_entry 1 ''p'', sample_entry 1 ''q'']"
  let ?args = "\<lparr>ae_term = 2, ae_leader_id = ''a'', ae_prev_log_index = 0, ae_prev_log_term = 0,
    ae_entries = [], ae_leader_commit = 0\<rparr> :: append_entries_args"
  have ap: "append_applies ?args ?F" by (simp add: append_applies_def)
  note e = append_accept_parts(1,3,4) [of ?args "append_prologue 5 ?args ?F"]
  show ?thesis
    unfolding Let_def handle_append_entries_accepts [OF ap] using e by (simp add: case_prod_beta)
qed

text \<open>A defect. When the entries of a request conflict with the log, the tail is removed
  without adjusting the commit index, which then lies beyond the end of the log.\<close>

theorem commit_index_beyond_log:
  "let F = (sample_node ''b'' 1 KFollower [sample_entry 1 ''p'', sample_entry 1 ''q''])
             \<lparr>rf_commit_index := 2, rf_last_applied := 2\<rparr>;
       args = \<lparr>ae_term = 2, ae_leader_id = ''a'', ae_prev_log_index = 0, ae_prev_log_term = 0,
               ae_entries = [sample_entry 2 ''r''], ae_leader_commit = 0\<rparr>;
       F' = snd (handle_append_entries 5 args F)
   in rf_commit_index F' = 2 \<and> length (rf_log F') = 1"
proof -
  let ?F = "(sample_node ''b'' 1 KFollower [sample_entry 1 ''p'', sample_entry 1 ''q''])
    \<lparr>rf_commit_index := 2, rf_last_applied := 2\<rparr>"
  let ?args = "\<lparr>ae_term = 2, ae_leader_id = ''a'', ae_prev_log_index = 0, ae_prev_log_term = 0,
    ae_entries = [sample_entry 2 ''r''], ae_leader_commit = 0\<rparr> :: append_entries_args"
  have ap: "append_applies ?args ?F" by (simp add: append_applies_def)
  note e = append_accept_parts(4,5) [of ?args "append_prologue 5 ?args ?F"]
  show ?thesis
    unfolding Let_def handle_append_entries_accepts [OF ap] using e
    by (simp add: Let_def sample_entry_def)
qed

end
