(* ===== verification/Consistent_Hash.thy ===== *)
theory Consistent_Hash
  imports Prelude "HOL-Library.Word"
begin

text \<open>
  \<^verbatim>\<open>ConsistentHashRing\<close> and \<^verbatim>\<open>ShardRouter\<close> (\<^verbatim>\<open>include/v3/cluster/consistent_hash.h\<close>): the FNV-1a hash
  on 32-bit words, the ring as the ordered table from positions to node names, and the routing of
  rooms and battles to backends.  The theory shows that a new node takes keys only for itself, that a
  removed node loses only its own keys as long as no two nodes share a position, what happens when
  they do, and that replicas are distinct nodes starting with the owner.
\<close>

unbundle bit_operations_syntax

subsection \<open>Hash\<close>

definition kFnvPrime :: "32 word" where "kFnvPrime = 16777619"
definition kFnvOffset :: "32 word" where "kFnvOffset = 2166136261"

definition fnv1a_hash :: "string \<Rightarrow> 32 word" where
  "fnv1a_hash key = foldl (\<lambda>hash c. (hash XOR of_nat (of_char c)) * kFnvPrime) kFnvOffset key"

subsection \<open>Ring\<close>

text \<open>An ordered map from positions to node names.\<close>

type_synonym ring_table = "(32 word \<times> string) list"

record hash_ring =
  hr_virtual_nodes :: nat
  hr_ring :: ring_table
  hr_physical_nodes :: "string list"

definition new_hash_ring :: "nat \<Rightarrow> hash_ring" where
  "new_hash_ring virtual_nodes = \<lparr>hr_virtual_nodes = virtual_nodes, hr_ring = [], hr_physical_nodes = []\<rparr>"

fun ring_put :: "32 word \<Rightarrow> string \<Rightarrow> ring_table \<Rightarrow> ring_table" where
  "ring_put hash node [] = [(hash, node)]"
| "ring_put hash node (e # es) =
     (if hash < fst e then (hash, node) # e # es
      else if hash = fst e then (hash, node) # es
      else e # ring_put hash node es)"

definition ring_erase :: "32 word \<Rightarrow> ring_table \<Rightarrow> ring_table" where
  "ring_erase hash r = filter (\<lambda>e. fst e \<noteq> hash) r"

definition vnode_hash :: "string \<Rightarrow> nat \<Rightarrow> 32 word" where
  "vnode_hash node i = fnv1a_hash (node @ ''#'' @ decimal i)"

definition add_node :: "string \<Rightarrow> hash_ring \<Rightarrow> hash_ring" where
  "add_node node r =
     r\<lparr>hr_ring := fold (\<lambda>i. ring_put (vnode_hash node i) node) [0..<hr_virtual_nodes r] (hr_ring r),
       hr_physical_nodes := hr_physical_nodes r @ [node]\<rparr>"

definition remove_node :: "string \<Rightarrow> hash_ring \<Rightarrow> hash_ring" where
  "remove_node node r =
     r\<lparr>hr_ring := fold (\<lambda>i. ring_erase (vnode_hash node i)) [0..<hr_virtual_nodes r] (hr_ring r),
       hr_physical_nodes := removeAll node (hr_physical_nodes r)\<rparr>"

definition lower_bound :: "32 word \<Rightarrow> ring_table \<Rightarrow> ring_table" where
  "lower_bound hash r = dropWhile (\<lambda>e. fst e < hash) r"

definition ring_lookup :: "string \<Rightarrow> hash_ring \<Rightarrow> string" where
  "ring_lookup key r =
     (if hr_ring r = [] then []
      else case lower_bound (fnv1a_hash key) (hr_ring r) of
        [] \<Rightarrow> snd (hd (hr_ring r))
      | e # _ \<Rightarrow> snd e)"

text \<open>The loop of \<^verbatim>\<open>lookup_n\<close>, with the number of rounds that are left.\<close>

fun lookup_n_loop :: "ring_table \<Rightarrow> nat \<Rightarrow> nat \<Rightarrow> ring_table \<Rightarrow> string list \<Rightarrow> string list \<Rightarrow> string list" where
  "lookup_n_loop ring n 0 it seen result = result"
| "lookup_n_loop ring n (Suc rounds) it seen result =
     (if length result < n then
       (let it1 = (if it = [] then ring else it); node = snd (hd it1) in
        if node \<in> set seen then lookup_n_loop ring n rounds (tl it1) seen result
        else lookup_n_loop ring n rounds (tl it1) (seen @ [node]) (result @ [node]))
      else result)"

definition lookup_n :: "string \<Rightarrow> nat \<Rightarrow> hash_ring \<Rightarrow> string list" where
  "lookup_n key n r =
     (if hr_ring r = [] \<or> n = 0 then []
      else lookup_n_loop (hr_ring r) n (length (hr_ring r)) (lower_bound (fnv1a_hash key) (hr_ring r)) [] [])"

definition ring_size :: "hash_ring \<Rightarrow> nat" where
  "ring_size r = length (hr_ring r)"

subsection \<open>Shard router\<close>

record shard_router =
  sh_room_ring :: hash_ring
  sh_battle_ring :: hash_ring

definition new_shard_router :: shard_router where
  "new_shard_router = \<lparr>sh_room_ring = new_hash_ring 150, sh_battle_ring = new_hash_ring 100\<rparr>"

definition add_backend :: "string \<Rightarrow> shard_router \<Rightarrow> shard_router" where
  "add_backend node s = s\<lparr>sh_room_ring := add_node node (sh_room_ring s), sh_battle_ring := add_node node (sh_battle_ring s)\<rparr>"

definition remove_backend :: "string \<Rightarrow> shard_router \<Rightarrow> shard_router" where
  "remove_backend node s = s\<lparr>sh_room_ring := remove_node node (sh_room_ring s), sh_battle_ring := remove_node node (sh_battle_ring s)\<rparr>"

definition route_room :: "string \<Rightarrow> shard_router \<Rightarrow> string" where
  "route_room room_id s = ring_lookup room_id (sh_room_ring s)"

definition route_battle :: "string \<Rightarrow> shard_router \<Rightarrow> string" where
  "route_battle battle_id s = ring_lookup battle_id (sh_battle_ring s)"

subsection \<open>The ordered table\<close>

definition ring_sorted :: "ring_table \<Rightarrow> bool" where
  "ring_sorted r \<longleftrightarrow> sorted_wrt (<) (map fst r)"

lemma ring_sorted_simps [simp]:
  "ring_sorted []" "ring_sorted (e # r) \<longleftrightarrow> (\<forall>e' \<in> set r. fst e < fst e') \<and> ring_sorted r"
  by (simp_all add: ring_sorted_def)

lemma set_ring_put: "ring_sorted r \<Longrightarrow> set (ring_put h n r) = insert (h, n) {e \<in> set r. fst e \<noteq> h}"
  by (induction r) (auto simp: less_le)

lemma ring_sorted_put [simp]: "ring_sorted r \<Longrightarrow> ring_sorted (ring_put h n r)"
proof (induction r)
  case (Cons e r)
  then show ?case by (auto simp: set_ring_put intro: less_trans)
qed simp

lemma ring_sorted_filter [simp]: "ring_sorted r \<Longrightarrow> ring_sorted (filter P r)"
  by (simp add: ring_sorted_def sorted_wrt_filter sorted_wrt_map)

lemma ring_put_hd: "hd (ring_put h n r) = (h, n) \<or> (r \<noteq> [] \<and> hd (ring_put h n r) = hd r)"
  by (cases r) auto

lemma ring_put_not_Nil [simp]: "ring_put h n r \<noteq> []"
  by (cases r) auto

lemma lower_bound_simps [simp]:
  "lower_bound h [] = []" "lower_bound h (e # r) = (if fst e < h then lower_bound h r else e # r)"
  by (simp_all add: lower_bound_def)

lemma lower_bound_put:
  "ring_sorted r \<Longrightarrow> lower_bound h (ring_put k n r) = (if k < h then lower_bound h r else ring_put k n (lower_bound h r))"
proof (induction r)
  case (Cons e r)
  have "k < h" if "k < fst e" "fst e < h" using that by (rule less_trans)
  moreover have "\<not> k < h" if "fst e < k" "\<not> fst e < h" using that by (simp add: not_less)
  ultimately show ?case using Cons by (cases "fst e < h"; cases k "fst e" rule: linorder_cases) (auto dest: less_asym)
qed simp

lemma lower_bound_all: "ring_sorted (e # r) \<Longrightarrow> \<not> fst e < h \<Longrightarrow> lower_bound h r = r"
  using less_trans[of "fst e" "fst (hd r)" h] by (cases r) auto

lemma lower_bound_filter: "ring_sorted r \<Longrightarrow> lower_bound h (filter P r) = filter P (lower_bound h r)"
proof (induction r)
  case (Cons e r)
  then show ?case using lower_bound_all[of e r h] by auto
qed simp

text \<open>The owner of a position: the first entry from there on, around the ring.\<close>

definition owner :: "32 word \<Rightarrow> ring_table \<Rightarrow> string" where
  "owner h r = (if lower_bound h r = [] then snd (hd r) else snd (hd (lower_bound h r)))"

lemma ring_lookup_owner: "hr_ring r \<noteq> [] \<Longrightarrow> ring_lookup key r = owner (fnv1a_hash key) (hr_ring r)"
  by (auto simp: ring_lookup_def owner_def split: list.split)

lemma owner_put: "ring_sorted r \<Longrightarrow> owner h (ring_put k n r) = n \<or> (r \<noteq> [] \<and> owner h (ring_put k n r) = owner h r)"
  using ring_put_hd[of k n r] ring_put_hd[of k n "lower_bound h r"]
  by (auto simp: owner_def lower_bound_put)

lemma owner_filter:
  assumes "ring_sorted r" "r \<noteq> []" "\<And>e. e \<in> set r \<Longrightarrow> \<not> P e \<Longrightarrow> snd e = n" "owner h r \<noteq> n"
  shows "filter P r \<noteq> [] \<and> owner h (filter P r) = owner h r"
proof (cases "lower_bound h r")
  case Nil
  with assms(2,4) obtain e r' where r: "r = e # r'" "snd e \<noteq> n" by (cases r) (auto simp: owner_def)
  with assms(3)[of e] have "P e" by auto
  with Nil r lower_bound_filter[OF assms(1), of h P] show ?thesis by (simp add: owner_def)
next
  case (Cons e es)
  then have "e \<in> set r" using set_dropWhileD[of e "\<lambda>e. fst e < h" r] by (simp add: lower_bound_def)
  moreover have "snd e \<noteq> n" using assms(4) Cons by (simp add: owner_def)
  ultimately have "P e" using assms(3) by blast
  with Cons lower_bound_filter[OF assms(1), of h P] show ?thesis by (auto simp: owner_def lower_bound_def)
qed

subsection \<open>Adding and removing nodes\<close>

lemma fold_put:
  assumes "ring_sorted r"
  shows "ring_sorted (fold (\<lambda>i. ring_put (f i) n) is r)"
    and "set (fold (\<lambda>i. ring_put (f i) n) is r) = {(f i, n) |i. i \<in> set is} \<union> {e \<in> set r. fst e \<notin> f ` set is}"
    and "is \<noteq> [] \<or> r \<noteq> [] \<Longrightarrow> fold (\<lambda>i. ring_put (f i) n) is r \<noteq> []"
    and "owner h (fold (\<lambda>i. ring_put (f i) n) is r) = n \<or> owner h (fold (\<lambda>i. ring_put (f i) n) is r) = owner h r"
  using assms
proof (induction "is" arbitrary: r)
  case (Cons i "is")
  { case 1 with Cons.IH(1)[of "ring_put (f i) n r"] show ?case by simp
  next case 2 with Cons.IH(2)[of "ring_put (f i) n r"] show ?case by (auto simp: set_ring_put)
  next case 3 with Cons.IH(3)[of "ring_put (f i) n r"] show ?case by simp
  next case 4 with Cons.IH(4)[of "ring_put (f i) n r"] owner_put[of r h "f i" n] show ?case by auto }
qed simp_all

lemma fold_erase: "fold (\<lambda>i. ring_erase (f i)) is r = filter (\<lambda>e. fst e \<notin> f ` set is) r"
  by (induction "is" arbitrary: r) (auto simp: ring_erase_def filter_filter intro!: filter_cong)

datatype ring_op = AddNode string | RemoveNode string

fun ring_step :: "ring_op \<Rightarrow> hash_ring \<Rightarrow> hash_ring" where
  "ring_step (AddNode n) r = add_node n r"
| "ring_step (RemoveNode n) r = remove_node n r"

text \<open>The table is ordered, and every entry is a virtual position of one of the nodes.\<close>

definition ring_inv :: "hash_ring \<Rightarrow> bool" where
  "ring_inv r \<longleftrightarrow> ring_sorted (hr_ring r) \<and>
     (\<forall>(h, n) \<in> set (hr_ring r). n \<in> set (hr_physical_nodes r) \<and> h \<in> vnode_hash n ` {..<hr_virtual_nodes r})"

lemma set_upt_image [simp]: "f ` set [0..<v] = f ` {..<v}"
  by (simp add: atLeast0LessThan)

lemma ring_inv_step: "ring_inv r \<Longrightarrow> ring_inv (ring_step op r)"
  by (cases op) (auto simp: ring_inv_def add_node_def remove_node_def fold_put fold_erase)

interpretation ring: message_actor ring_step ring_inv
  by unfold_locales (rule ring_inv_step)


subsection \<open>Routing\<close>

fun shard_step :: "ring_op \<Rightarrow> shard_router \<Rightarrow> shard_router" where
  "shard_step (AddNode n) s = add_backend n s"
| "shard_step (RemoveNode n) s = remove_backend n s"

definition shard_inv :: "shard_router \<Rightarrow> bool" where
  "shard_inv s \<longleftrightarrow> ring_inv (sh_room_ring s) \<and> ring_inv (sh_battle_ring s) \<and>
     hr_virtual_nodes (sh_room_ring s) = 150 \<and> hr_virtual_nodes (sh_battle_ring s) = 100"

lemma virtual_nodes_step [simp]: "hr_virtual_nodes (add_node n r) = hr_virtual_nodes r" "hr_virtual_nodes (remove_node n r) = hr_virtual_nodes r"
  by (simp_all add: add_node_def remove_node_def)

interpretation shard: message_actor shard_step shard_inv
proof
  show "shard_inv s \<Longrightarrow> shard_inv (shard_step op s)" for s op
    using ring_inv_step[of "sh_room_ring s" op] ring_inv_step[of "sh_battle_ring s" op]
    by (cases op) (auto simp: shard_inv_def add_backend_def remove_backend_def)
qed

lemma shard_inv_run: "shard_inv (run_messages shard_step ops new_shard_router)"
  by (rule shard.inv_run) (simp add: shard_inv_def new_shard_router_def new_hash_ring_def ring_inv_def)

lemma owner_in_ring: "r \<noteq> [] \<Longrightarrow> owner h r \<in> snd ` set r"
proof (cases "lower_bound h r")
  case (Cons e es)
  then have "e \<in> set r" using set_dropWhileD[of e "\<lambda>e. fst e < h" r] by (simp add: lower_bound_def)
  with Cons show ?thesis by (simp add: owner_def)
qed (simp add: owner_def)

lemma add_node_lookup:
  assumes "ring_inv r" and "0 < hr_virtual_nodes r"
  shows "ring_lookup key (add_node n r) = n \<or> (hr_ring r \<noteq> [] \<and> ring_lookup key (add_node n r) = ring_lookup key r)"
proof -
  let ?new = "fold (\<lambda>i. ring_put (vnode_hash n i) n) [0..<hr_virtual_nodes r] (hr_ring r)"
  have s: "ring_sorted (hr_ring r)" using assms(1) by (simp add: ring_inv_def)
  have ne: "?new \<noteq> []" using fold_put(3)[OF s, of "[0..<hr_virtual_nodes r]"] assms(2) by simp
  then have l: "ring_lookup key (add_node n r) = owner (fnv1a_hash key) ?new"
    using ring_lookup_owner[of "add_node n r" key] by (simp add: add_node_def)
  show ?thesis
  proof (cases "hr_ring r = []")
    case True
    then have "snd ` set ?new \<subseteq> {n}" using fold_put(2)[OF s, of "vnode_hash n" n] by auto
    moreover have "owner (fnv1a_hash key) ?new \<in> snd ` set ?new" using ne by (rule owner_in_ring)
    ultimately show ?thesis using l by auto
  next
    case False
    with l fold_put(4)[OF s, of "fnv1a_hash key" "vnode_hash n" n "[0..<hr_virtual_nodes r]"] ring_lookup_owner[of r key] show ?thesis by auto
  qed
qed

text \<open>C29: Adding a backend moves work only to the new backend.  After any history of added and removed backends, adding one leaves every room and
  every battle with the backend it had or gives it to the new one.\<close>

theorem added_backend_takes_only_for_itself:
  assumes "s = run_messages shard_step ops new_shard_router"
  shows "route_room room (add_backend n s) \<in> {n, route_room room s} \<and> route_battle battle (add_backend n s) \<in> {n, route_battle battle s}"
  using shard_inv_run[of ops] add_node_lookup[of "sh_room_ring s" room n] add_node_lookup[of "sh_battle_ring s" battle n] assms
  by (auto simp: route_room_def route_battle_def add_backend_def shard_inv_def)

text \<open>No other node has a virtual position of the node.\<close>

definition no_collision :: "string \<Rightarrow> hash_ring \<Rightarrow> bool" where
  "no_collision n r \<longleftrightarrow> (\<forall>m \<in> set (hr_physical_nodes r). m \<noteq> n \<longrightarrow>
     vnode_hash m ` {..<hr_virtual_nodes r} \<inter> vnode_hash n ` {..<hr_virtual_nodes r} = {})"

lemma remove_node_lookup:
  assumes "ring_inv r" "no_collision n r" "ring_lookup key r \<noteq> n"
  shows "ring_lookup key (remove_node n r) = ring_lookup key r"
proof (cases "hr_ring r = []")
  case True
  then show ?thesis by (simp add: ring_lookup_def remove_node_def fold_erase)
next
  case False
  let ?P = "\<lambda>e. fst e \<notin> vnode_hash n ` {..<hr_virtual_nodes r}"
  have "snd e = n" if e: "e \<in> set (hr_ring r)" "\<not> ?P e" for e
  proof -
    from e(1) assms(1) have "snd e \<in> set (hr_physical_nodes r)" "fst e \<in> vnode_hash (snd e) ` {..<hr_virtual_nodes r}"
      by (auto simp: ring_inv_def)
    with e(2) assms(2) show ?thesis unfolding no_collision_def by blast
  qed
  with False assms(1,3) owner_filter[of "hr_ring r" ?P n "fnv1a_hash key"]
  have "filter ?P (hr_ring r) \<noteq> [] \<and> owner (fnv1a_hash key) (filter ?P (hr_ring r)) = owner (fnv1a_hash key) (hr_ring r)"
    by (simp add: ring_inv_def ring_lookup_owner)
  moreover have "hr_ring (remove_node n r) = filter ?P (hr_ring r)" by (simp add: remove_node_def fold_erase atLeast0LessThan)
  ultimately show ?thesis using False by (simp add: ring_lookup_owner)
qed

lemma ring_inv_run: "ring_inv (run_messages ring_step ops (new_hash_ring v))"
  by (rule ring.inv_run) (simp add: ring_inv_def new_hash_ring_def)

text \<open>Removing a node moves only its own keys.  After any history of added and removed nodes, when no other node shares a position with
  the removed one, every key of another node stays where it is.\<close>

theorem removed_node_frees_only_its_own:
  assumes "r = run_messages ring_step ops (new_hash_ring v)" and "no_collision n r" and "ring_lookup key r \<noteq> n"
  shows "ring_lookup key (remove_node n r) = ring_lookup key r"
  using ring_inv_run[of ops v] assms by (intro remove_node_lookup) simp_all

lemma removed_backend_frees_only_its_own:
  assumes "s = run_messages shard_step ops new_shard_router" and "no_collision n (sh_room_ring s)" "no_collision n (sh_battle_ring s)"
  shows "(route_room room s \<noteq> n \<longrightarrow> route_room room (remove_backend n s) = route_room room s) \<and>
    (route_battle battle s \<noteq> n \<longrightarrow> route_battle battle (remove_backend n s) = route_battle battle s)"
  using shard_inv_run[of ops] assms remove_node_lookup[of "sh_room_ring s" n room] remove_node_lookup[of "sh_battle_ring s" n battle]
  by (simp add: route_room_def route_battle_def remove_backend_def shard_inv_def)

subsection \<open>Colliding positions\<close>

text \<open>A defect.  When two nodes share a position, adding and removing the second deletes the position of the first: the node is
  still listed, but the entry it had there is gone.\<close>

theorem colliding_removal_loses_position:
  assumes "i < v" "j < v" "vnode_hash a i = vnode_hash b j" "a \<noteq> b"
    and "r = remove_node b (add_node b (add_node a (new_hash_ring v)))"
  shows "hr_physical_nodes r = [a] \<and> (vnode_hash a i, a) \<in> set (hr_ring (add_node a (new_hash_ring v))) \<and>
    (\<forall>n. (vnode_hash a i, n) \<notin> set (hr_ring r))"
  using assms by (auto simp: remove_node_def add_node_def new_hash_ring_def fold_erase fold_put intro: sym exI[of _ i])

text \<open>Two addresses that share a position; with 150 virtual nodes they share 28.\<close>

theorem colliding_removal_loses_position_witness:
  "vnode_hash ''10.0.17.91:9100'' 26 = vnode_hash ''10.0.18.31:9100'' 58 \<and>
   (\<forall>n. (vnode_hash ''10.0.17.91:9100'' 26, n) \<notin>
     set (hr_ring (remove_node ''10.0.18.31:9100'' (add_node ''10.0.18.31:9100'' (add_node ''10.0.17.91:9100'' (new_hash_ring 150))))))"
proof -
  have "vnode_hash ''10.0.17.91:9100'' 26 = vnode_hash ''10.0.18.31:9100'' 58"
    by (simp add: vnode_hash_def fnv1a_hash_def kFnvOffset_def kFnvPrime_def decimal.simps digit_char_def)
  with colliding_removal_loses_position[of 26 150 58 "''10.0.17.91:9100''" "''10.0.18.31:9100''", OF _ _ _ _ refl] show ?thesis by simp
qed

subsection \<open>Replicas\<close>

fun fresh :: "string set \<Rightarrow> string list \<Rightarrow> string list" where
  "fresh seen [] = []"
| "fresh seen (x # xs) = (if x \<in> seen then fresh seen xs else x # fresh (insert x seen) xs)"

lemma set_fresh [simp]: "set (fresh seen xs) = set xs - seen"
  by (induction seen xs rule: fresh.induct) auto

lemma distinct_fresh [simp]: "distinct (fresh seen xs)"
  by (induction seen xs rule: fresh.induct) auto

lemma lookup_n_loop_fresh:
  "ring \<noteq> [] \<Longrightarrow> rounds \<le> length it + length ring \<Longrightarrow> length res \<le> n \<Longrightarrow>
   lookup_n_loop ring n rounds it res res = take n (res @ fresh (set res) (map snd (take rounds (it @ ring))))"
proof (induction rounds arbitrary: it res)
  case (Suc rounds)
  define it1 where "it1 = (if it = [] then ring else it)"
  have it1: "it1 \<noteq> []" "take (Suc rounds) (it @ ring) = hd it1 # take rounds (tl it1 @ ring)" "rounds \<le> length (tl it1) + length ring"
    using Suc.prems by (cases it; cases ring; force simp: it1_def)+
  show ?case
  proof (cases "length res < n")
    case True
    with Suc.IH[of "tl it1" res] Suc.IH[of "tl it1" "res @ [snd (hd it1)]"] Suc.prems it1(3) show ?thesis
      by (simp add: it1(2) it1_def[symmetric] Let_def del: take_append)
  qed (use Suc.prems in simp)
qed simp

text \<open>Replicas.  The nodes a key is replicated to are different nodes of the ring, the first of them is the owner of the key, and there are as many
  as were asked for unless the ring has fewer nodes.\<close>

theorem replicas_are_distinct_nodes:
  assumes "r = run_messages ring_step ops (new_hash_ring v)" and "0 < n" and "hr_ring r \<noteq> []"
  shows "distinct (lookup_n key n r) \<and> set (lookup_n key n r) \<subseteq> set (hr_physical_nodes r) \<and> hd (lookup_n key n r) = ring_lookup key r \<and>
    length (lookup_n key n r) = min n (card (snd ` set (hr_ring r)))"
proof -
  let ?it = "lower_bound (fnv1a_hash key) (hr_ring r)" and ?tw = "takeWhile (\<lambda>e. fst e < fnv1a_hash key) (hr_ring r)"
  have split: "hr_ring r = ?tw @ ?it" by (simp add: lower_bound_def)
  have "take (length (a @ b)) (b @ a @ b) = b @ a" for a b :: ring_table by simp
  from this[of ?tw ?it] have tk: "take (length (hr_ring r)) (?it @ hr_ring r) = ?it @ ?tw" unfolding split[symmetric] .
  have l: "lookup_n key n r = take n (fresh {} (map snd (?it @ ?tw)))"
    using assms(2,3) lookup_n_loop_fresh[of "hr_ring r" "length (hr_ring r)" ?it "[]" n] by (simp add: lookup_n_def tk del: take_append)
  have set: "set (?it @ ?tw) = set (hr_ring r)" using split by (metis set_append Un_commute)
  have "ring_inv r" unfolding assms(1) by (rule ring_inv_run)
  then have "snd ` set (hr_ring r) \<subseteq> set (hr_physical_nodes r)" by (auto simp: ring_inv_def)
  moreover have "hd (lookup_n key n r) = snd (hd (?it @ ?tw))"
    using assms(2,3) split unfolding l by (cases "?it @ ?tw"; cases n) auto
  moreover have "snd (hd (?it @ ?tw)) = ring_lookup key r"
    using assms(3) split by (cases ?it; cases "hr_ring r") (auto simp: ring_lookup_def)
  moreover have "length (fresh {} (map snd (?it @ ?tw))) = card (snd ` set (hr_ring r))"
    unfolding distinct_card[OF distinct_fresh, symmetric] by (simp only: set_fresh set set_map Diff_empty)
  moreover have "set (fresh {} (map snd (?it @ ?tw))) = snd ` set (hr_ring r)" by (simp only: set_fresh set set_map Diff_empty)
  ultimately show ?thesis unfolding l by (auto simp: min.commute dest!: in_set_takeD)
qed

text \<open>Two backends with one virtual node each.\<close>

definition sample_ring :: hash_ring where
  "sample_ring = run_messages ring_step [AddNode ''a'', AddNode ''b''] (new_hash_ring 1)"

lemma sample_ring_table: "hr_ring sample_ring = [(vnode_hash ''b'' 0, ''b''), (vnode_hash ''a'' 0, ''a'')] \<or>
    hr_ring sample_ring = [(vnode_hash ''a'' 0, ''a''), (vnode_hash ''b'' 0, ''b'')]"
  by (simp add: sample_ring_def new_hash_ring_def add_node_def)
     (simp add: vnode_hash_def fnv1a_hash_def kFnvOffset_def kFnvPrime_def decimal.simps digit_char_def)

theorem replicas_are_distinct_nodes_witness:
  "distinct (lookup_n ''room'' 2 sample_ring) \<and> length (lookup_n ''room'' 2 sample_ring) = 2"
proof -
  have "hr_ring sample_ring \<noteq> []" "card (snd ` set (hr_ring sample_ring)) = 2" using sample_ring_table by auto
  with replicas_are_distinct_nodes[of sample_ring "[AddNode ''a'', AddNode ''b'']" 1 2 "''room''"] show ?thesis by (simp add: sample_ring_def)
qed

definition sample_shards :: shard_router where
  "sample_shards = run_messages shard_step [AddNode ''a''] new_shard_router"

theorem added_backend_takes_only_for_itself_witness:
  "route_room ''r'' (add_backend ''b'' sample_shards) \<in> {''b'', route_room ''r'' sample_shards}"
  using added_backend_takes_only_for_itself[of sample_shards "[AddNode ''a'']" "''r''" "''b''"] by (simp add: sample_shards_def)

theorem removed_node_frees_only_its_own_witness:
  "ring_lookup ''room'' sample_ring = ''a'' \<and> no_collision ''b'' sample_ring \<and> ring_lookup ''room'' (remove_node ''b'' sample_ring) = ''a''"
proof -
  have "ring_lookup ''room'' sample_ring = ''a''" "no_collision ''b'' sample_ring"
    by (simp_all add: sample_ring_def new_hash_ring_def add_node_def ring_lookup_def no_collision_def lessThan_Suc)
       (simp_all add: vnode_hash_def fnv1a_hash_def kFnvOffset_def kFnvPrime_def decimal.simps digit_char_def)
  with removed_node_frees_only_its_own[of sample_ring "[AddNode ''a'', AddNode ''b'']" 1 "''b''" "''room''"] show ?thesis by (simp add: sample_ring_def)
qed

end
