(* ===== verification/Packet_Codec.thy ===== *)
theory Packet_Codec
  imports Prelude
begin

text \<open>
  The client wire format (\<^verbatim>\<open>include/net/packet_codec.h\<close>, constants of
  \<^verbatim>\<open>include/net/protocol.h\<close>) and the frames exchanged with the backend services
  (\<^verbatim>\<open>src/v2/service/backend_frame_codec.cpp\<close>).  Bytes are \<open>u8\<close>, the header fields words of
  their width; \<^verbatim>\<open>std::int32_t\<close> is the 32-bit word read with \<^const>\<open>sint\<close>.  Exceptions, and the
  write beyond the buffer that a body of almost four gigabytes causes, are \<open>None\<close>.  The locale
  \<open>length_header\<close> is what both formats ask of their four-byte length header; a byte stream is
  the list of bytes still to be read.  The JSON text of an envelope is produced and read by
  code over a third-party library and is a parameter.
\<close>

subsection \<open>Words as bytes\<close>

definition be32 :: "u32 \<Rightarrow> bytes" where
  "be32 w = [ucast (drop_bit 24 w AND 0xFF), ucast (drop_bit 16 w AND 0xFF),
             ucast (drop_bit 8 w AND 0xFF), ucast (w AND 0xFF)]"

definition be16 :: "u16 \<Rightarrow> bytes" where
  "be16 w = [ucast (drop_bit 8 w AND 0xFF), ucast (w AND 0xFF)]"

definition un_be32 :: "bytes \<Rightarrow> u32" where
  "un_be32 bs = push_bit 24 (ucast (bs ! 0)) OR push_bit 16 (ucast (bs ! 1)) OR
     push_bit 8 (ucast (bs ! 2)) OR ucast (bs ! 3)"

definition un_be16 :: "bytes \<Rightarrow> u16" where
  "un_be16 bs = push_bit 8 (ucast (bs ! 0)) OR ucast (bs ! 1)"

lemma byte_mask: "(0xFF :: 'a::len word) = mask 8"
  by (simp add: mask_eq_exp_minus_1)

lemma length_be [simp]: "length (be32 w) = 4" "length (be16 h) = 2"
  by (simp_all add: be32_def be16_def)

lemma un_be32_be32 [simp]: "un_be32 (be32 w) = w"
proof (rule bit_word_eqI)
  fix n assume "n < LENGTH(32)"
  then show "bit (un_be32 (be32 w)) n = bit w n"
    unfolding un_be32_def be32_def byte_mask
    by (cases "n < 8"; cases "n < 16"; cases "n < 24") (auto simp: bit_simps)
qed

lemma un_be16_be16 [simp]: "un_be16 (be16 w) = w"
proof (rule bit_word_eqI)
  fix n assume "n < LENGTH(16)"
  then show "bit (un_be16 (be16 w)) n = bit w n"
    unfolding un_be16_def be16_def byte_mask
    by (cases "n < 8") (auto simp: bit_simps)
qed

subsection \<open>The packet format\<close>

definition kLengthHeaderSize :: nat where "kLengthHeaderSize = 4"
definition kFixedMetadataSize :: nat where "kFixedMetadataSize = 1 + 2 + 4 + 4 + 4 + 1"
definition kProtocolVersion :: u8 where "kProtocolVersion = 1"
definition kProtocolMinVersion :: u8 where "kProtocolMinVersion = 1"
definition kProtocolMaxVersion :: u8 where "kProtocolMaxVersion = 1"

record packet_view =
  pv_version :: u8
  pv_message_id :: u16
  pv_request_id :: u32
  pv_sequence_number :: u32
  pv_error_code :: u32
  pv_flags :: u8

record decoded_packet = packet_view +
  dp_body :: bytes

definition encode ::
  "u16 \<Rightarrow> u32 \<Rightarrow> u32 \<Rightarrow> bytes \<Rightarrow> u8 \<Rightarrow> u32 \<Rightarrow> u8 \<Rightarrow> bytes option" where
  "encode message_id request_id error_code body flags sequence_number version =
     (let body_length = (word_of_nat (kFixedMetadataSize + length body) :: u32) in
      if kFixedMetadataSize + length body > unat body_length then None
      else Some (be32 body_length @ [version] @ be16 message_id @ be32 request_id @
             be32 sequence_number @ be32 error_code @ [flags] @ body))"

definition encode_with_compress ::
  "u16 \<Rightarrow> u32 \<Rightarrow> u32 \<Rightarrow> bytes \<Rightarrow> u8 \<Rightarrow> u32 \<Rightarrow> u8 \<Rightarrow> bytes option" where
  "encode_with_compress message_id request_id error_code body flags sequence_number version =
     encode message_id request_id error_code body flags sequence_number version"

definition decode_length :: "bytes \<Rightarrow> u32" where
  "decode_length header = un_be32 header"

definition parse_packet_view :: "bytes \<Rightarrow> packet_view option" where
  "parse_packet_view payload =
     (if length payload < kFixedMetadataSize then None
      else Some \<lparr>pv_version = payload ! 0, pv_message_id = un_be16 (drop 1 payload),
        pv_request_id = un_be32 (drop 3 payload), pv_sequence_number = un_be32 (drop 7 payload),
        pv_error_code = un_be32 (drop 11 payload), pv_flags = payload ! 15\<rparr>)"

definition check_version :: "packet_view \<Rightarrow> int" where
  "check_version view =
     (if pv_version view < kProtocolMinVersion \<or> pv_version view > kProtocolMaxVersion then -1 else 0)"

definition decode_payload :: "bytes \<Rightarrow> decoded_packet option" where
  "decode_payload payload =
     (case parse_packet_view payload of
        None \<Rightarrow> None
      | Some view \<Rightarrow> Some \<lparr>pv_version = pv_version view, pv_message_id = pv_message_id view,
          pv_request_id = pv_request_id view, pv_sequence_number = pv_sequence_number view,
          pv_error_code = pv_error_code view, pv_flags = pv_flags view,
          dp_body = drop kFixedMetadataSize payload\<rparr>)"

lemmas packet_sizes = kLengthHeaderSize_def kFixedMetadataSize_def

lemma un_be_append [simp]:
  "un_be32 (be32 w @ rest) = w" "un_be16 (be16 h @ rest) = h"
proof -
  have "un_be32 (be32 w @ rest) = un_be32 (be32 w)" by (simp add: un_be32_def be32_def)
  then show "un_be32 (be32 w @ rest) = w" by simp
  have "un_be16 (be16 h @ rest) = un_be16 (be16 h)" by (simp add: un_be16_def be16_def)
  then show "un_be16 (be16 h @ rest) = h" by simp
qed

lemma unat_u32: "n < 2 ^ 32 \<Longrightarrow> unat (word_of_nat n :: u32) = n"
  by (simp add: unat_of_nat)

lemma encode_Some:
  assumes "length body + 16 < 2 ^ 32"
  shows "encode m r e body f s v =
    Some (be32 (word_of_nat (16 + length body)) @ [v] @ be16 m @ be32 r @ be32 s @ be32 e @ [f] @ body)"
  using assms unat_u32 [of "16 + length body"]
  by (simp add: encode_def packet_sizes Let_def del: of_nat_add of_nat_Suc)

lemma encode_payload_view:
  "parse_packet_view ([v] @ be16 m @ be32 r @ be32 s @ be32 e @ [f] @ body) =
     Some \<lparr>pv_version = v, pv_message_id = m, pv_request_id = r, pv_sequence_number = s,
       pv_error_code = e, pv_flags = f\<rparr>"
  by (simp add: parse_packet_view_def packet_sizes nth_append drop_Cons' nth_Cons')

lemma encode_decodes:
  assumes "length body + 16 < 2 ^ 32"
  shows "\<exists>packet. encode m r e body f s v = Some packet \<and>
    unat (decode_length (take 4 packet)) = length (drop 4 packet) \<and>
    decode_payload (drop 4 packet) =
      Some \<lparr>pv_version = v, pv_message_id = m, pv_request_id = r, pv_sequence_number = s,
        pv_error_code = e, pv_flags = f, dp_body = body\<rparr>"
proof -
  let ?payload = "[v] @ be16 m @ be32 r @ be32 s @ be32 e @ [f] @ body"
  have "decode_payload ?payload =
      Some \<lparr>pv_version = v, pv_message_id = m, pv_request_id = r, pv_sequence_number = s,
        pv_error_code = e, pv_flags = f, dp_body = body\<rparr>"
    unfolding decode_payload_def encode_payload_view by (simp add: packet_sizes drop_Cons')
  moreover have "unat (word_of_nat (16 + length body) :: u32) = length ?payload"
    using assms unat_u32 [of "16 + length body"] by simp
  ultimately show ?thesis
    unfolding encode_Some [OF assms] by (simp add: decode_length_def del: of_nat_add)
qed

text \<open>A packet survives the wire. Every packet whose body is shorter than four gigabytes minus
  the header is encoded; the length header announces exactly the bytes that follow it, and
  decoding those bytes returns the version, identifiers, sequence number, signed error code,
  flags and body that were sent.\<close>

theorem packet_round_trip:
  assumes "length body + 16 < 2 ^ 32"
  shows "\<exists>packet. encode m r e body f s v = Some packet \<and>
    unat (decode_length (take 4 packet)) = length (drop 4 packet) \<and>
    decode_payload (drop 4 packet) =
      Some \<lparr>pv_version = v, pv_message_id = m, pv_request_id = r, pv_sequence_number = s,
        pv_error_code = e, pv_flags = f, dp_body = body\<rparr>"
  by (rule encode_decodes [OF assms])

theorem packet_round_trip_witness:
  "\<exists>packet. encode 2001 7 0 [104, 105] 0 3 1 = Some packet \<and>
    unat (decode_length (take 4 packet)) = length (drop 4 packet) \<and>
    decode_payload (drop 4 packet) =
      Some \<lparr>pv_version = 1, pv_message_id = 2001, pv_request_id = 7, pv_sequence_number = 3,
        pv_error_code = 0, pv_flags = 0, dp_body = [104, 105]\<rparr>"
  by (rule packet_round_trip) simp

subsection \<open>Length-prefixed streams\<close>

definition read_exactly :: "nat \<Rightarrow> bytes \<Rightarrow> (bytes \<times> bytes) option" where
  "read_exactly n stream = (if length stream < n then None else Some (take n stream, drop n stream))"

text \<open>One unit of a stream: a header read by \<open>dec\<close>, then as many bytes as it says, if \<open>ok\<close>.\<close>

definition read_prefixed :: "(bytes \<Rightarrow> u32) \<Rightarrow> (nat \<Rightarrow> bool) \<Rightarrow> bytes \<Rightarrow> (bytes \<times> bytes) option" where
  "read_prefixed dec ok stream =
     (case read_exactly 4 stream of
        None \<Rightarrow> None
      | Some (header, rest) \<Rightarrow>
          if \<not> ok (unat (dec header)) then None else read_exactly (unat (dec header)) rest)"

fun read_units :: "(bytes \<Rightarrow> (bytes \<times> bytes) option) \<Rightarrow> nat \<Rightarrow> bytes \<Rightarrow> (bytes list \<times> bytes) option" where
  "read_units rd 0 stream = Some ([], stream)"
| "read_units rd (Suc k) stream =
     (case rd stream of
        None \<Rightarrow> None
      | Some (u, rest) \<Rightarrow>
          (case read_units rd k rest of None \<Rightarrow> None | Some (us, rest') \<Rightarrow> Some (u # us, rest')))"

definition put_unit :: "(u32 \<Rightarrow> bytes) \<Rightarrow> bytes \<Rightarrow> bytes" where
  "put_unit enc u = enc (word_of_nat (length u)) @ u"

locale length_header =
  fixes enc :: "u32 \<Rightarrow> bytes" and dec :: "bytes \<Rightarrow> u32"
  assumes enc_size: "length (enc w) = 4"
    and dec_enc: "dec (enc w) = w"
begin

lemma read_prefixed_put:
  assumes "length u < 2 ^ 32" and "ok (length u)"
  shows "read_prefixed dec ok (put_unit enc u @ rest) = Some (u, rest)"
proof -
  have "unat (dec (enc (word_of_nat (length u)))) = length u"
    using unat_u32 [OF assms(1)] by (simp add: dec_enc)
  with assms(2) show ?thesis by (simp add: read_prefixed_def read_exactly_def put_unit_def enc_size)
qed

text \<open>No boundary is lost when several units arrive glued together.\<close>

lemma read_units_put:
  assumes "\<And>u. u \<in> set us \<Longrightarrow> length u < 2 ^ 32 \<and> ok (length u)"
  shows "read_units (read_prefixed dec ok) (length us) (concat (map (put_unit enc) us) @ rest) = Some (us, rest)"
  using assms
proof (induction us)
  case (Cons u us)
  then have "read_prefixed dec ok (put_unit enc u @ concat (map (put_unit enc) us) @ rest) =
      Some (u, concat (map (put_unit enc) us) @ rest)"
    using read_prefixed_put [of u ok] by simp
  with Cons show ?case by simp
qed simp

text \<open>A unit that has not arrived completely is never delivered.\<close>

lemma read_prefixed_partial:
  assumes "length u < 2 ^ 32" and "k < length (put_unit enc u)"
  shows "read_prefixed dec ok (take k (put_unit enc u)) = None"
proof (cases "k < 4")
  case False
  then have "take k (put_unit enc u) = enc (word_of_nat (length u)) @ take (k - 4) u"
    by (simp add: put_unit_def enc_size)
  moreover have "k - 4 < length u" using assms(2) False by (simp add: put_unit_def enc_size)
  ultimately show ?thesis
    using unat_u32 [OF assms(1)] by (simp add: read_prefixed_def read_exactly_def enc_size dec_enc)
qed (use assms(2) in \<open>simp add: read_prefixed_def read_exactly_def\<close>)

end

interpretation packet_header: length_header be32 decode_length
  by unfold_locales (simp_all add: decode_length_def)

subsection \<open>The session's read loop\<close>

datatype session_error = EndOfStream | InvalidArgument | MessageSize

definition kCompressed :: u8 where "kCompressed = 1"

text \<open>
  \<^verbatim>\<open>do_read_header\<close> and \<^verbatim>\<open>do_read_body\<close>: \<open>zlib\<close> is the decompressor when the build has one.
\<close>

definition session_read ::
  "(bytes \<Rightarrow> bytes) option \<Rightarrow> nat \<Rightarrow> bytes \<Rightarrow> session_error + decoded_packet \<times> bytes" where
  "session_read zlib max_packet_size stream =
     (case read_exactly 4 stream of
        None \<Rightarrow> Inl EndOfStream
      | Some (header, rest) \<Rightarrow>
          (let n = unat (decode_length header) in
           if n < kFixedMetadataSize then Inl InvalidArgument
           else if n > max_packet_size then Inl MessageSize
           else case read_exactly n rest of
             None \<Rightarrow> Inl EndOfStream
           | Some (payload, rest') \<Rightarrow>
               (case decode_payload payload of
                  None \<Rightarrow> Inl InvalidArgument
                | Some p \<Rightarrow>
                    if pv_flags p AND kCompressed \<noteq> 0
                    then (case zlib of
                            None \<Rightarrow> Inl InvalidArgument
                          | Some inflate \<Rightarrow>
                              Inr (p\<lparr>dp_body := inflate (dp_body p),
                                     pv_flags := pv_flags p AND NOT kCompressed\<rparr>, rest'))
                    else Inr (p, rest'))))"

fun session_read_many ::
  "(bytes \<Rightarrow> bytes) option \<Rightarrow> nat \<Rightarrow> nat \<Rightarrow> bytes \<Rightarrow> session_error + decoded_packet list \<times> bytes" where
  "session_read_many zlib max_packet_size 0 stream = Inr ([], stream)"
| "session_read_many zlib max_packet_size (Suc k) stream =
     (case session_read zlib max_packet_size stream of
        Inl e \<Rightarrow> Inl e
      | Inr (p, rest) \<Rightarrow>
          (case session_read_many zlib max_packet_size k rest of
             Inl e \<Rightarrow> Inl e
           | Inr (ps, rest') \<Rightarrow> Inr (p # ps, rest')))"

definition encode_packet :: "decoded_packet \<Rightarrow> bytes" where
  "encode_packet p = the (encode (pv_message_id p) (pv_request_id p) (pv_error_code p) (dp_body p)
     (pv_flags p) (pv_sequence_number p) (pv_version p))"

definition sendable :: "nat \<Rightarrow> decoded_packet \<Rightarrow> bool" where
  "sendable max_packet_size p \<longleftrightarrow>
     length (dp_body p) + 16 \<le> max_packet_size \<and> pv_flags p AND kCompressed = 0"

lemma session_read_encoded:
  assumes "sendable max_packet_size p" and "max_packet_size < 2 ^ 32"
  shows "session_read zlib max_packet_size (encode_packet p @ rest) = Inr (p, rest)"
proof -
  have len: "length (dp_body p) + 16 < 2 ^ 32" using assms by (simp add: sendable_def)
  from encode_decodes [OF len] obtain packet where
    enc: "encode (pv_message_id p) (pv_request_id p) (pv_error_code p) (dp_body p)
      (pv_flags p) (pv_sequence_number p) (pv_version p) = Some packet"
    and n: "unat (decode_length (take 4 packet)) = length (drop 4 packet)"
    and dec: "decode_payload (drop 4 packet) = Some p" by fastforce
  have "4 + 16 + length (dp_body p) = length packet"
    using enc unfolding encode_Some [OF len] by (auto simp del: of_nat_add)
  then have "length packet - 4 = 16 + length (dp_body p)" "4 \<le> length packet" by simp_all
  with enc n dec assms(1) show ?thesis
    by (simp add: encode_packet_def session_read_def read_exactly_def packet_sizes sendable_def Let_def)
qed

text \<open>C11: The read loop splits a byte stream back into its packets. If packets within the size limit
  (and not marked compressed) are sent one after another, then however they are glued together
  the session reads exactly these packets, in order, and leaves what follows unread.\<close>

theorem session_reads_back_packets:
  assumes "\<forall>p\<in>set ps. sendable max_packet_size p" and "max_packet_size < 2 ^ 32"
  shows "session_read_many zlib max_packet_size (length ps) (concat (map encode_packet ps) @ rest) = Inr (ps, rest)"
  using assms(1) by (induction ps) (simp_all add: session_read_encoded [OF _ assms(2)])

theorem session_reads_back_packets_witness:
  "let p = \<lparr>pv_version = 1, pv_message_id = 1001, pv_request_id = 5, pv_sequence_number = 0,
        pv_error_code = 0, pv_flags = 0, dp_body = [1, 2, 3]\<rparr>
   in session_read_many None 1024 2 (encode_packet p @ encode_packet p) = Inr ([p, p], [])"
proof -
  let ?p = "\<lparr>pv_version = 1, pv_message_id = 1001, pv_request_id = 5, pv_sequence_number = 0,
        pv_error_code = 0, pv_flags = 0, dp_body = [1, 2, 3]\<rparr> :: decoded_packet"
  have "\<forall>p\<in>set [?p, ?p]. sendable 1024 p" by (simp add: sendable_def)
  moreover have "(1024 :: nat) < 2 ^ 32" by simp
  ultimately have "session_read_many None 1024 (length [?p, ?p]) (concat (map encode_packet [?p, ?p]) @ []) = Inr ([?p, ?p], [])"
    by (rule session_reads_back_packets)
  then
  show ?thesis by (simp add: Let_def numeral_2_eq_2 del: session_read_many.simps)
qed

subsection \<open>Backend frames\<close>

definition frame_encode_length :: "u32 \<Rightarrow> bytes" where
  "frame_encode_length w = [ucast (w AND 0xFF), ucast (drop_bit 8 w AND 0xFF),
     ucast (drop_bit 16 w AND 0xFF), ucast (drop_bit 24 w AND 0xFF)]"

definition frame_decode_length :: "bytes \<Rightarrow> u32" where
  "frame_decode_length h = ucast (h ! 0) OR push_bit 8 (ucast (h ! 1)) OR
     push_bit 16 (ucast (h ! 2)) OR push_bit 24 (ucast (h ! 3))"

text \<open>\<open>to_json\<close> and \<open>from_json\<close> stand for the JSON text of an envelope of type \<open>'e\<close>.\<close>

definition encode_frame :: "('e \<Rightarrow> bytes) \<Rightarrow> 'e \<Rightarrow> bytes" where
  "encode_frame to_json envelope =
     (let json = to_json envelope in frame_encode_length (word_of_nat (length json)) @ json)"

definition decode_frame :: "(bytes \<Rightarrow> 'e option) \<Rightarrow> bytes \<Rightarrow> 'e option" where
  "decode_frame from_json json_bytes = from_json json_bytes"

definition frame_size_ok :: "nat \<Rightarrow> bool" where
  "frame_size_ok n \<longleftrightarrow> \<not> (n = 0 \<or> n > 1024 * 1024)"

definition read_frame :: "(bytes \<Rightarrow> 'e option) \<Rightarrow> bytes \<Rightarrow> ('e \<times> bytes) option" where
  "read_frame from_json stream =
     (case read_prefixed frame_decode_length frame_size_ok stream of
        None \<Rightarrow> None
      | Some (json_bytes, rest) \<Rightarrow> map_option (\<lambda>e. (e, rest)) (from_json json_bytes))"

definition write_frame :: "('e \<Rightarrow> bytes) \<Rightarrow> 'e \<Rightarrow> bytes \<Rightarrow> bytes" where
  "write_frame to_json envelope stream = stream @ encode_frame to_json envelope"

lemma frame_length_round_trip: "frame_decode_length (frame_encode_length w) = w"
proof (rule bit_word_eqI)
  fix n assume "n < LENGTH(32)"
  then show "bit (frame_decode_length (frame_encode_length w)) n = bit w n"
    unfolding frame_decode_length_def frame_encode_length_def byte_mask
    by (cases "n < 8"; cases "n < 16"; cases "n < 24") (auto simp: bit_simps)
qed

interpretation frame_header: length_header frame_encode_length frame_decode_length
  by unfold_locales (simp add: frame_encode_length_def, rule frame_length_round_trip)

lemma encode_frame_unit: "encode_frame to_json e = put_unit frame_encode_length (to_json e)"
  by (simp add: encode_frame_def put_unit_def Let_def)

fun read_frames :: "(bytes \<Rightarrow> 'e option) \<Rightarrow> nat \<Rightarrow> bytes \<Rightarrow> ('e list \<times> bytes) option" where
  "read_frames from_json 0 stream = Some ([], stream)"
| "read_frames from_json (Suc k) stream =
     (case read_frame from_json stream of
        None \<Rightarrow> None
      | Some (e, rest) \<Rightarrow> map_option (\<lambda>(es, rest'). (e # es, rest')) (read_frames from_json k rest))"

text \<open>Backend frames are delivered whole and in order. When the JSON texts of the envelopes are
  readable and between one byte and one megabyte long, reading a stream to which they were written
  returns the envelopes in the order of writing; and a frame of which bytes are still missing
  is never delivered.\<close>

theorem backend_frames_round_trip:
  assumes "\<forall>e\<in>set es. from_json (to_json e) = Some e \<and> frame_size_ok (length (to_json e))"
  shows "read_frames from_json (length es) (fold (write_frame to_json) es [] @ rest) = Some (es, rest) \<and>
    (\<forall>e\<in>set es. \<forall>k<length (encode_frame to_json e). read_frame from_json (take k (encode_frame to_json e)) = None)"
proof -
  have "fold (write_frame to_json) es s = s @ concat (map (encode_frame to_json) es)" for s
    by (induction es arbitrary: s) (simp_all add: write_frame_def)
  moreover have "read_frames from_json (length es) (concat (map (encode_frame to_json) es) @ rest) = Some (es, rest)"
    using assms
  proof (induction es)
    case (Cons e es)
    then have "read_frame from_json (encode_frame to_json e @ s) = Some (e, s)" for s
      using frame_header.read_prefixed_put [of "to_json e" frame_size_ok s]
      by (simp add: read_frame_def encode_frame_unit frame_size_ok_def)
    with Cons show ?case by simp
  qed simp
  moreover have "read_frame from_json (take k (encode_frame to_json e)) = None"
    if "e \<in> set es" "k < length (encode_frame to_json e)" for e k
  proof -
    have "frame_size_ok (length (to_json e))" using assms that(1) by blast
    then have "length (to_json e) < 2 ^ 32" by (simp add: frame_size_ok_def)
    from frame_header.read_prefixed_partial [OF this, of k frame_size_ok] that(2)
    show ?thesis by (simp add: read_frame_def encode_frame_unit)
  qed
  ultimately show ?thesis by simp
qed

theorem backend_frames_round_trip_witness:
  "read_frames (\<lambda>b. Some (hd b)) 2 (fold (write_frame (\<lambda>c. [c])) [7, 9] [] @ [1]) = Some ([7, 9], [1])"
  using backend_frames_round_trip [of "[7, 9]" "\<lambda>b. Some (hd b)" "\<lambda>c. [c]" "[1]"]
  by (simp add: frame_size_ok_def numeral_2_eq_2 del: read_frames.simps fold.simps fold_simps)

end
