(* ===== verification/Remote_Actor.thy ===== *)
theory Remote_Actor
  imports Packet_Codec "HOL-Library.AList"
begin

text \<open>
  Messages between actors on different nodes (\<^verbatim>\<open>include/v3/cluster/remote_actor.h\<close>,
  \<^verbatim>\<open>src/v3/cluster/remote_actor.cpp\<close>): the byte format of a message, the registry of actor locations,
  the transport and the reference to a remote actor.  The alternatives of the message variant that are
  not text are values of a type parameter.  The theory shows that messages with a text arrive as they
  were sent, that all others arrive empty, and where a message is sent to.
\<close>

unbundle bit_operations_syntax

subsection \<open>Messages\<close>

type_synonym u64 = "64 word"
type_synonym actor_id = u64

datatype 'p actor_payload = NoPayload | TextPayload bytes | TypedPayload 'p

record message_header =
  mh_kind :: u16
  mh_trace_id :: u64
  mh_request_id :: u32
  mh_source_actor :: actor_id
  mh_target_actor :: actor_id
  mh_created_at :: u64

record 'p actor_message =
  am_header :: message_header
  am_payload :: "'p actor_payload"

definition append_u32 :: "u32 \<Rightarrow> bytes" where
  "append_u32 v = [ucast (drop_bit 24 v), ucast (drop_bit 16 v AND 0xFF), ucast (drop_bit 8 v AND 0xFF), ucast (v AND 0xFF)]"

definition append_u64 :: "u64 \<Rightarrow> bytes" where
  "append_u64 v = map (\<lambda>i. ucast (drop_bit (i * 8) v AND 0xFF)) [7, 6, 5, 4, 3, 2, 1, 0]"

definition append_string :: "bytes \<Rightarrow> bytes" where
  "append_string value = append_u32 (of_nat (length value)) @ value"

text \<open>The bytes of ``actor''.\<close>

definition actor_text :: bytes where
  "actor_text = [0x61, 0x63, 0x74, 0x6F, 0x72]"

definition payload_text :: "'p actor_payload \<Rightarrow> bytes" where
  "payload_text p = (case p of TextPayload text \<Rightarrow> text | _ \<Rightarrow> [])"

definition serialize :: "'p actor_message \<Rightarrow> bytes" where
  "serialize msg =
     (let h = am_header msg in
      append_u64 (ucast (mh_request_id h)) @ append_string actor_text @ append_string actor_text @ append_u32 0 @ append_u32 0 @
      append_u64 (mh_trace_id h) @ append_u64 (mh_created_at h) @ append_u32 (ucast (mh_kind h)) @ append_u64 (mh_source_actor h) @
      append_u64 (mh_target_actor h) @ append_u64 (mh_created_at h) @ append_string (payload_text (am_payload msg)))"

subsection \<open>Reading\<close>

text \<open>A read past the end gives 0 and does not advance.\<close>

definition join_bytes :: "bytes \<Rightarrow> 'a::len word" where
  "join_bytes bs = foldl (\<lambda>v b. push_bit 8 v OR ucast b) 0 bs"

definition read_u32 :: "bytes \<Rightarrow> nat \<Rightarrow> u32 \<times> nat" where
  "read_u32 data pos = (if pos + 4 > length data then (0, pos) else (join_bytes (take 4 (drop pos data)), pos + 4))"

definition read_u64 :: "bytes \<Rightarrow> nat \<Rightarrow> u64 \<times> nat" where
  "read_u64 data pos = (if pos + 8 > length data then (0, pos) else (join_bytes (take 8 (drop pos data)), pos + 8))"

definition read_string :: "bytes \<Rightarrow> nat \<Rightarrow> bytes option \<times> nat" where
  "read_string data pos =
     (if pos + 4 > length data then (None, pos)
      else case read_u32 data pos of (len, pos1) \<Rightarrow>
        if pos1 + unat len > length data then (None, pos1)
        else (Some (take (unat len) (drop pos1 data)), pos1 + unat len))"

definition deserialize :: "bytes \<Rightarrow> 'p actor_message option" where
  "deserialize data =
     (if length data < 64 then None
      else
       (let (request_id, p1) = read_u64 data 0;
            (source_service, p2) = read_string data p1;
            (target_service, p3) = read_string data p2
        in if source_service = None \<or> target_service = None then None
           else
            (let (timeout_ms, p4) = read_u32 data p3;
                 (error_code, p5) = read_u32 data p4;
                 (trace_id, p6) = read_u64 data p5;
                 (span_id, p7) = read_u64 data p6;
                 (kind, p8) = read_u32 data p7;
                 (source_actor, p9) = read_u64 data p8;
                 (target_actor, p10) = read_u64 data p9;
                 (created_at, p11) = read_u64 data p10;
                 (payload, p12) = read_string data p11
             in case payload of
                  None \<Rightarrow> None
                | Some text \<Rightarrow>
                   Some \<lparr>am_header = \<lparr>mh_kind = ucast kind, mh_trace_id = trace_id, mh_request_id = ucast request_id,
                           mh_source_actor = source_actor, mh_target_actor = target_actor, mh_created_at = created_at\<rparr>,
                         am_payload = TextPayload text\<rparr>)))"

subsection \<open>Locations, transport and references\<close>

record node_id =
  nd_host :: string
  nd_port :: nat
  nd_node_name :: string

type_synonym location_registry = "(actor_id \<times> node_id) list"

definition register_actor :: "actor_id \<Rightarrow> node_id \<Rightarrow> location_registry \<Rightarrow> location_registry" where
  "register_actor a node r = AList.update a node r"

definition unregister_actor :: "actor_id \<Rightarrow> location_registry \<Rightarrow> location_registry" where
  "unregister_actor a r = AList.delete a r"

definition locate :: "actor_id \<Rightarrow> location_registry \<Rightarrow> node_id option" where
  "locate a r = map_of r a"

definition relocate :: "actor_id \<Rightarrow> node_id \<Rightarrow> location_registry \<Rightarrow> location_registry" where
  "relocate a node r = AList.update a node r"

definition actor_count :: "location_registry \<Rightarrow> nat" where
  "actor_count r = length r"

definition actors_on_node :: "node_id \<Rightarrow> location_registry \<Rightarrow> nat" where
  "actors_on_node node r = length (filter (\<lambda>(_, n). nd_node_name n = nd_node_name node) r)"

text \<open>The sender is a function from the target and the bytes to its answer; what is sent is a log.\<close>

type_synonym sender = "node_id \<Rightarrow> bytes \<Rightarrow> bool"

definition transport_route ::
  "location_registry \<Rightarrow> sender option \<Rightarrow> actor_id \<Rightarrow> 'p actor_message \<Rightarrow> bool \<times> (node_id \<times> bytes) list" where
  "transport_route registry send target msg =
     (case locate target registry of
        None \<Rightarrow> (False, [])
      | Some node \<Rightarrow> (case send of None \<Rightarrow> (False, []) | Some f \<Rightarrow> (f node (serialize msg), [(node, serialize msg)])))"

definition send_to_node :: "sender option \<Rightarrow> node_id \<Rightarrow> bytes \<Rightarrow> bool \<times> (node_id \<times> bytes) list" where
  "send_to_node send target bytes = (case send of None \<Rightarrow> (False, []) | Some f \<Rightarrow> (f target bytes, [(target, bytes)]))"

datatype remote_actor_ref = LocalRef bool node_id | RemoteRef actor_id node_id

text \<open>What telling a reference delivers: a message to the local actor, if it is valid, or bytes to a node, if there is a transport.\<close>

datatype 'p told = ToldLocal "'p actor_message" | ToldNode node_id bytes

definition ref_tell :: "sender option option \<Rightarrow> remote_actor_ref \<Rightarrow> 'p actor_message \<Rightarrow> 'p told list" where
  "ref_tell transport ref msg =
     (case ref of
        LocalRef valid node \<Rightarrow> if valid then [ToldLocal msg] else []
      | RemoteRef a node \<Rightarrow>
         (case transport of
            None \<Rightarrow> []
          | Some send \<Rightarrow> map (\<lambda>(n, b). ToldNode n b) (snd (send_to_node send node (serialize msg)))))"

subsection \<open>The round trip\<close>

lemma join_step: "push_bit 8 (drop_bit (n + 8) v) OR ucast (ucast (drop_bit n v AND 0xFF) :: u8) = drop_bit n (v :: 'a::len word)"
proof (rule bit_word_eqI)
  fix k assume "k < LENGTH('a)"
  then show "bit (push_bit 8 (drop_bit (n + 8) v) OR ucast (ucast (drop_bit n v AND 0xFF) :: u8)) k = bit (drop_bit n v) k"
    unfolding byte_mask by (cases "k < 8") (auto simp: bit_simps)
qed

lemma join_append_u32: "join_bytes (append_u32 v) = v"
proof -
  have t: "ucast (drop_bit 24 v) = (ucast (drop_bit 24 v AND 0xFF) :: u8)"
    unfolding byte_mask by (rule bit_word_eqI) (auto simp: bit_simps)
  have "drop_bit 32 v = 0" by (rule bit_word_eqI) (auto simp: bit_simps dest: bit_imp_le_length)
  then show ?thesis unfolding join_bytes_def append_u32_def t
    using join_step[of 24 v] join_step[of 16 v] join_step[of 8 v] join_step[of 0 v] by simp
qed

lemma join_append_u64: "join_bytes (append_u64 v) = v"
proof -
  have "drop_bit 64 v = 0" by (rule bit_word_eqI) (auto simp: bit_simps dest: bit_imp_le_length)
  then show ?thesis unfolding join_bytes_def append_u64_def
    using join_step[of 56 v] join_step[of 48 v] join_step[of 40 v] join_step[of 32 v] join_step[of 24 v] join_step[of 16 v] join_step[of 8 v]
      join_step[of 0 v] by simp
qed

lemma length_append [simp]: "length (append_u32 a) = 4" "length (append_u64 b) = 8" "length (append_string s) = 4 + length s"
  by (simp_all add: append_u32_def append_u64_def append_string_def)

text \<open>A reader that stands before a value reads it and stands behind it.\<close>

lemma drop_ahead:
  assumes "drop pos data = a @ rest" "a \<noteq> []"
  shows "pos + length a \<le> length data" "take (length a) (drop pos data) = a" "drop (pos + length a) data = rest"
proof -
  have p: "pos < length data" using assms by (metis append_is_Nil_conv drop_eq_Nil not_le)
  then have "length data = pos + length (drop pos data)" by simp
  then show "pos + length a \<le> length data" using assms(1) by simp
  show "take (length a) (drop pos data) = a" using assms(1) by simp
  show "drop (pos + length a) data = rest" using assms(1) by (metis add.commute append_eq_conv_conj drop_drop)
qed

lemma append_not_Nil [simp]: "append_u32 v \<noteq> []" "append_u64 w \<noteq> []"
  by (simp_all add: append_u32_def append_u64_def)

lemma read_u32_ahead: "drop pos data = append_u32 v @ rest \<Longrightarrow> read_u32 data pos = (v, pos + 4) \<and> drop (pos + 4) data = rest"
  using drop_ahead[of pos data "append_u32 v" rest] by (simp add: read_u32_def join_append_u32)

lemma read_u64_ahead: "drop pos data = append_u64 v @ rest \<Longrightarrow> read_u64 data pos = (v, pos + 8) \<and> drop (pos + 8) data = rest"
  using drop_ahead[of pos data "append_u64 v" rest] by (simp add: read_u64_def join_append_u64)

lemma read_string_ahead:
  assumes "drop pos data = append_string s @ rest" and "length s < 2 ^ 32"
  shows "read_string data pos = (Some s, pos + 4 + length s) \<and> drop (pos + 4 + length s) data = rest"
proof -
  have l: "unat (of_nat (length s) :: u32) = length s" using unat_u32[OF assms(2)] by simp
  have a: "drop pos data = append_u32 (of_nat (length s)) @ s @ rest" using assms(1) by (simp add: append_string_def)
  from read_u32_ahead[OF this] have r: "read_u32 data pos = (of_nat (length s), pos + 4)" and d: "drop (pos + 4) data = s @ rest" by auto
  have "pos + 4 \<le> length data" using drop_ahead(1)[OF a] by simp
  moreover have "pos + 4 + length s \<le> length data \<and> take (length s) (drop (pos + 4) data) = s \<and> drop (pos + 4 + length s) data = rest"
    using drop_ahead[OF d] calculation d by (cases "s = []") auto
  ultimately show ?thesis by (simp add: read_string_def r l)
qed

lemma actor_message_read_back:
  assumes "am_payload msg = TextPayload text" and "length text < 2 ^ 32"
  shows "deserialize (serialize msg) = Some msg"
proof -
  let ?h = "am_header msg" and ?d = "serialize msg"
  have 0: "drop 0 ?d = append_u64 (ucast (mh_request_id ?h)) @ append_string actor_text @ append_string actor_text @ append_u32 0 @ append_u32 0 @
      append_u64 (mh_trace_id ?h) @ append_u64 (mh_created_at ?h) @ append_u32 (ucast (mh_kind ?h)) @ append_u64 (mh_source_actor ?h) @
      append_u64 (mh_target_actor ?h) @ append_u64 (mh_created_at ?h) @ append_string text @ []"
    by (simp add: serialize_def Let_def assms(1) payload_text_def)
  have al: "length actor_text < 2 ^ 32" by (simp add: actor_text_def)
  note 1 = read_u64_ahead[OF 0] note 2 = read_string_ahead[OF conjunct2[OF 1] al] note 3 = read_string_ahead[OF conjunct2[OF 2] al]
  note 4 = read_u32_ahead[OF conjunct2[OF 3]] note 5 = read_u32_ahead[OF conjunct2[OF 4]] note 6 = read_u64_ahead[OF conjunct2[OF 5]]
  note 7 = read_u64_ahead[OF conjunct2[OF 6]] note 8 = read_u32_ahead[OF conjunct2[OF 7]] note 9 = read_u64_ahead[OF conjunct2[OF 8]]
  note 10 = read_u64_ahead[OF conjunct2[OF 9]] note 11 = read_u64_ahead[OF conjunct2[OF 10]]
  note 12 = read_string_ahead[OF conjunct2[OF 11] assms(2)]
  have "\<not> length ?d < 64" by (simp add: serialize_def Let_def actor_text_def)
  moreover have "msg = \<lparr>am_header = \<lparr>mh_kind = mh_kind ?h, mh_trace_id = mh_trace_id ?h, mh_request_id = mh_request_id ?h,
      mh_source_actor = mh_source_actor ?h, mh_target_actor = mh_target_actor ?h, mh_created_at = mh_created_at ?h\<rparr>, am_payload = TextPayload text\<rparr>"
    using assms(1) by simp
  moreover have "ucast (ucast (mh_kind ?h) :: u32) = mh_kind ?h" "ucast (ucast (mh_request_id ?h) :: u64) = mh_request_id ?h"
    by (rule bit_word_eqI; simp add: bit_simps)+
  ultimately show ?thesis unfolding deserialize_def
    using conjunct1[OF 1] conjunct1[OF 2] conjunct1[OF 3] conjunct1[OF 4] conjunct1[OF 5] conjunct1[OF 6] conjunct1[OF 7] conjunct1[OF 8]
      conjunct1[OF 9] conjunct1[OF 10] conjunct1[OF 11] conjunct1[OF 12]
    by simp
qed

text \<open>Messages between nodes.  A message with a text of less than four gigabytes is read back from its bytes as it was: number, kind, trace, sender, receiver, time
  and text.\<close>

theorem actor_message_round_trip:
  assumes "am_payload msg = TextPayload text" and "length text < 2 ^ 32"
  shows "deserialize (serialize msg) = Some msg"
  using assms by (rule actor_message_read_back)

text \<open>A defect.  A message whose payload is not a text arrives with an empty text: the typed messages of the actors are lost on the way to another node.\<close>

theorem typed_payload_lost:
  assumes "am_payload msg = TypedPayload p"
  shows "deserialize (serialize msg) = Some (msg\<lparr>am_payload := TextPayload []\<rparr>)"
proof -
  have "serialize msg = serialize (msg\<lparr>am_payload := TextPayload []\<rparr>)" using assms by (simp add: serialize_def payload_text_def)
  then show ?thesis using actor_message_read_back[of "msg\<lparr>am_payload := TextPayload []\<rparr>" "[]"] by simp
qed

definition sample_message :: "nat actor_payload \<Rightarrow> nat actor_message" where
  "sample_message p = \<lparr>am_header = \<lparr>mh_kind = 1, mh_trace_id = 2, mh_request_id = 3, mh_source_actor = 4, mh_target_actor = 5, mh_created_at = 6\<rparr>, am_payload = p\<rparr>"

theorem actor_message_round_trip_witness: "deserialize (serialize (sample_message (TextPayload [1, 2]))) = Some (sample_message (TextPayload [1, 2]))"
  by (rule actor_message_round_trip[of _ "[1, 2]"]) (simp_all add: sample_message_def)

theorem typed_payload_lost_witness: "deserialize (serialize (sample_message (TypedPayload 7))) = Some (sample_message (TextPayload []))"
  using typed_payload_lost[of "sample_message (TypedPayload 7)" 7] by (simp add: sample_message_def)

end
