(* ===== verification/Input_Validator.thy ===== *)
theory Input_Validator
  imports Prelude
begin

text \<open>
  Server-side validation of battle inputs (\<^verbatim>\<open>include/v2/battle/input_validator.h\<close>), with the C
  library's \<^verbatim>\<open>strtol\<close> on base ten.  \<^verbatim>\<open>long\<close> has 64 bits.
\<close>

subsection \<open>\<^verbatim>\<open>strtol\<close>\<close>

definition is_space :: "char \<Rightarrow> bool" where
  "is_space c = (let n = of_char c :: nat in n = 32 \<or> (9 \<le> n \<and> n \<le> 13))"

definition is_digit :: "char \<Rightarrow> bool" where
  "is_digit c = (let n = of_char c :: nat in 48 \<le> n \<and> n \<le> 57)"

definition long_clamp :: "int \<Rightarrow> int" where
  "long_clamp v = (if v < - (2 ^ 63) then - (2 ^ 63) else if 2 ^ 63 \<le> v then 2 ^ 63 - 1 else v)"

text \<open>The value and the unread rest of the string (what \<^verbatim>\<open>end\<close> points to).\<close>

definition strtol :: "string \<Rightarrow> int \<times> string" where
  "strtol s =
     (let t = dropWhile is_space s;
          neg = (t \<noteq> [] \<and> hd t = CHR ''-'');
          u = (if t \<noteq> [] \<and> (hd t = CHR ''-'' \<or> hd t = CHR ''+'') then tl t else t);
          ds = takeWhile is_digit u;
          v = int (undecimal ds)
      in if ds = [] then (0, s)
         else (long_clamp (if neg then - v else v), dropWhile is_digit u))"

text \<open>\<^verbatim>\<open>find\<close> of a character: its first position.\<close>

fun find_char :: "char \<Rightarrow> string \<Rightarrow> nat option" where
  "find_char c [] = None"
| "find_char c (x # xs) = (if x = c then Some 0 else map_option Suc (find_char c xs))"

definition starts_with :: "string \<Rightarrow> string \<Rightarrow> bool" where
  "starts_with p s = (take (length p) s = p)"

subsection \<open>The validator\<close>

record input_validation_result =
  iv_valid :: bool
  iv_error :: string
  iv_target_x :: int
  iv_target_y :: int
  iv_attack_target :: string
  iv_finish_reason :: string

record input_validator_config =
  ic_min_pos :: int
  ic_max_pos :: int
  ic_max_move_delta :: int
  ic_max_damage :: int
  ic_min_damage :: int
  ic_attack_cooldown_frames :: nat

definition default_validator_config :: input_validator_config where
  "default_validator_config = \<lparr>ic_min_pos = 0, ic_max_pos = 1000, ic_max_move_delta = 200,
     ic_max_damage = 50, ic_min_damage = 1, ic_attack_cooldown_frames = 3\<rparr>"

definition empty_validation :: input_validation_result where
  "empty_validation = \<lparr>iv_valid = False, iv_error = [], iv_target_x = 0, iv_target_y = 0,
     iv_attack_target = [], iv_finish_reason = []\<rparr>"

definition validation_error :: "string \<Rightarrow> input_validation_result" where
  "validation_error e = empty_validation\<lparr>iv_error := e\<rparr>"

definition is_move_within_bounds :: "input_validator_config \<Rightarrow> int \<Rightarrow> int \<Rightarrow> int \<Rightarrow> int \<Rightarrow> bool" where
  "is_move_within_bounds cfg from_x from_y to_x to_y =
     (let dx = (if to_x > from_x then to_x - from_x else from_x - to_x);
          dy = (if to_y > from_y then to_y - from_y else from_y - to_y)
      in dx + dy \<le> ic_max_move_delta cfg)"

definition is_damage_valid :: "input_validator_config \<Rightarrow> int \<Rightarrow> bool" where
  "is_damage_valid cfg damage = (ic_min_damage cfg \<le> damage \<and> damage \<le> ic_max_damage cfg)"

definition is_attack_allowed :: "input_validator_config \<Rightarrow> nat \<Rightarrow> nat \<Rightarrow> bool" where
  "is_attack_allowed cfg current_frame last_attack_frame =
     (ic_attack_cooldown_frames cfg \<le> u32_sub current_frame last_attack_frame)"

definition validate_move ::
  "input_validator_config \<Rightarrow> string \<Rightarrow> int \<Rightarrow> int \<Rightarrow> input_validation_result" where
  "validate_move cfg coords current_x current_y =
     (case find_char CHR '','' coords of
        None \<Rightarrow> validation_error ''invalid_move_format''
      | Some comma \<Rightarrow>
          if comma = 0 \<or> comma = length coords - 1 then validation_error ''invalid_move_format''
          else let (x, x_end) = strtol (take comma coords);
                   (y, y_end) = strtol (drop (comma + 1) coords)
               in if x_end \<noteq> [] then validation_error ''invalid_move_coord_x''
                  else if y_end \<noteq> [] then validation_error ''invalid_move_coord_y''
                  else if x < ic_min_pos cfg \<or> x > ic_max_pos cfg \<or> y < ic_min_pos cfg \<or> y > ic_max_pos cfg
                    then validation_error ''move_out_of_bounds''
                  else if \<not> is_move_within_bounds cfg current_x current_y (to_int32 x) (to_int32 y)
                    then validation_error ''move_too_fast''
                  else empty_validation\<lparr>iv_valid := True, iv_target_x := to_int32 x, iv_target_y := to_int32 y\<rparr>)"

definition validate ::
  "input_validator_config \<Rightarrow> string \<Rightarrow> int \<Rightarrow> int \<Rightarrow> input_validation_result" where
  "validate cfg input_data current_x current_y =
     (if input_data = [] then validation_error ''empty_input''
      else if starts_with ''move:'' input_data
        then validate_move cfg (drop 5 input_data) current_x current_y
      else if starts_with ''attack:'' input_data
        then (if drop 7 input_data = [] then validation_error ''invalid_attack_target''
              else empty_validation\<lparr>iv_valid := True, iv_attack_target := drop 7 input_data\<rparr>)
      else if starts_with ''finish:'' input_data
        then (if drop 7 input_data = [] then validation_error ''invalid_finish_reason''
              else empty_validation\<lparr>iv_valid := True, iv_finish_reason := drop 7 input_data\<rparr>)
      else validation_error ''unknown_input_type'')"

subsection \<open>Reading decimal numbers back\<close>

lemma is_digit_digit_char: "d < 10 \<Longrightarrow> is_digit (digit_char d)"
  by (simp add: is_digit_def digit_char_def)

lemma decimal_digits: "c \<in> set (decimal n) \<Longrightarrow> is_digit c"
  by (induction n rule: decimal.induct)
    (subst (asm) (2) decimal.simps, auto simp: is_digit_digit_char split: if_splits)

lemma decimal_not_empty [simp]: "decimal n \<noteq> []"
  by (subst decimal.simps) simp

lemma digit_not_other: "is_digit c \<Longrightarrow> \<not> is_space c \<and> c \<noteq> CHR ''-'' \<and> c \<noteq> CHR ''+'' \<and> c \<noteq> CHR '',''"
  by (auto simp: is_digit_def is_space_def Let_def)

lemma strtol_decimal:
  assumes "int n < 2 ^ 63"
  shows "strtol (decimal n) = (int n, [])"
proof -
  obtain c cs where d: "decimal n = c # cs" by (cases "decimal n") auto
  have digits: "\<forall>x\<in>set (decimal n). is_digit x" using decimal_digits by blast
  then have "is_digit c" using d by simp
  then have start: "dropWhile is_space (decimal n) = decimal n" "hd (decimal n) \<noteq> CHR ''-''" "hd (decimal n) \<noteq> CHR ''+''"
    using d digit_not_other[of c] by auto
  have read: "takeWhile is_digit (decimal n) = decimal n" "dropWhile is_digit (decimal n) = []"
    using digits by (simp_all add: takeWhile_eq_all_conv dropWhile_eq_Nil_conv)
  show ?thesis
    using assms by (simp add: strtol_def Let_def start read undecimal_decimal long_clamp_def del: undecimal.simps)
qed

lemma find_char_append: "c \<notin> set xs \<Longrightarrow> find_char c (xs @ c # ys) = Some (length xs)"
  by (induction xs) auto

lemma find_char_decimal: "find_char CHR '','' (decimal n @ CHR '','' # ys) = Some (length (decimal n))"
  using decimal_digits digit_not_other by (blast intro: find_char_append)

text \<open>What a client sends to move to a position.\<close>

definition move_input :: "nat \<Rightarrow> nat \<Rightarrow> string" where
  "move_input x y = ''move:'' @ decimal x @ '','' @ decimal y"

lemma validate_move_input:
  assumes "x \<le> 1000" and "y \<le> 1000"
  shows "validate default_validator_config (move_input x y) cx cy =
    (if \<bar>int x - cx\<bar> + \<bar>int y - cy\<bar> \<le> 200
     then empty_validation\<lparr>iv_valid := True, iv_target_x := int x, iv_target_y := int y\<rparr>
     else validation_error ''move_too_fast'')"
proof -
  have nums: "strtol (decimal x) = (int x, [])" "strtol (decimal y) = (int y, [])"
    using assms by (simp_all add: strtol_decimal)
  have i32: "to_int32 (int x) = int x" "to_int32 (int y) = int y"
    using assms by (simp_all add: to_int32_exact)
  have "validate_move default_validator_config (decimal x @ CHR '','' # decimal y) cx cy =
    (if is_move_within_bounds default_validator_config cx cy (int x) (int y)
     then empty_validation\<lparr>iv_valid := True, iv_target_x := int x, iv_target_y := int y\<rparr>
     else validation_error ''move_too_fast'')"
    using assms by (simp add: validate_move_def find_char_decimal nums i32 Let_def)
      (simp add: default_validator_config_def)
  moreover have "is_move_within_bounds default_validator_config cx cy (int x) (int y) \<longleftrightarrow>
      \<bar>int x - cx\<bar> + \<bar>int y - cy\<bar> \<le> 200"
    by (auto simp: is_move_within_bounds_def default_validator_config_def Let_def)
  ultimately show ?thesis
    by (simp add: validate_def starts_with_def move_input_def)
qed

lemma validate_move_cases:
  assumes "iv_valid (validate_move cfg s cx cy)"
  obtains x y where "is_move_within_bounds cfg cx cy (to_int32 x) (to_int32 y)"
    "ic_min_pos cfg \<le> x" "x \<le> ic_max_pos cfg" "ic_min_pos cfg \<le> y" "y \<le> ic_max_pos cfg"
    "validate_move cfg s cx cy =
       empty_validation\<lparr>iv_valid := True, iv_target_x := to_int32 x, iv_target_y := to_int32 y\<rparr>"
proof -
  have "\<not> iv_valid (validation_error e)" for e
    by (simp add: validation_error_def empty_validation_def)
  with assms show ?thesis
    by (auto simp: validate_move_def Let_def not_less intro!: that split: option.splits prod.splits if_splits)
qed

lemma validate_move_sound:
  assumes "iv_valid (validate cfg s cx cy)" and "starts_with ''move:'' s"
    and "- (2 ^ 31) \<le> ic_min_pos cfg" and "ic_max_pos cfg < 2 ^ 31"
    and r: "r = validate cfg s cx cy"
  shows "ic_min_pos cfg \<le> iv_target_x r \<and> iv_target_x r \<le> ic_max_pos cfg \<and>
    ic_min_pos cfg \<le> iv_target_y r \<and> iv_target_y r \<le> ic_max_pos cfg \<and>
    \<bar>iv_target_x r - cx\<bar> + \<bar>iv_target_y r - cy\<bar> \<le> ic_max_move_delta cfg"
proof -
  have "s \<noteq> []" using assms(2) by (auto simp: starts_with_def)
  then have v: "r = validate_move cfg (drop 5 s) cx cy" using assms(2) r by (simp add: validate_def)
  with assms(1) r obtain x y where b: "ic_min_pos cfg \<le> x" "x \<le> ic_max_pos cfg" "ic_min_pos cfg \<le> y" "y \<le> ic_max_pos cfg"
    and w: "is_move_within_bounds cfg cx cy (to_int32 x) (to_int32 y)"
    and e: "r = empty_validation\<lparr>iv_valid := True, iv_target_x := to_int32 x, iv_target_y := to_int32 y\<rparr>"
    by (metis validate_move_cases)
  have "to_int32 x = x" "to_int32 y = y" using b assms(3,4) by (simp_all add: to_int32_exact)
  with b w e show ?thesis by (auto simp: is_move_within_bounds_def Let_def split: if_splits)
qed

text \<open>Firing is not among the accepted kinds of input.\<close>

lemma fire_never_valid: "\<not> iv_valid (validate cfg (''fire:'' @ s) cx cy)"
  by (simp add: validate_def starts_with_def validation_error_def empty_validation_def)

end
