(* ===== verification/Cluster_Router.thy ===== *)
theory Cluster_Router
  imports Remote_Actor Input_Validator
begin

text \<open>
  \<^verbatim>\<open>ClusterRouter\<close> (\<^verbatim>\<open>src/v3/cluster/cluster_router.cpp\<close>, \<^verbatim>\<open>include/v3/cluster/cluster_router.h\<close>): the route
  table with its health checks, draining, round-robin discovery, and the sending of messages to other
  nodes.  The health check of a node is a function argument, the time an argument in milliseconds.
  The table of routes is the list of its entries in the order in which it is walked.  The theory shows
  that discovery serves the healthy instances in turn, that nodes are listed once per service, when a
  failing node leaves, how a node marked unhealthy or drained returns, and that messages go to the
  first address a node had.
\<close>

subsection \<open>State\<close>

datatype service_state = StUnknown | StHealthy | StUnhealthy | StDraining

text \<open>\<^verbatim>\<open>NodeId::operator==\<close> compares the names.\<close>

definition same_node :: "node_id \<Rightarrow> node_id \<Rightarrow> bool" where
  "same_node a b \<longleftrightarrow> nd_node_name a = nd_node_name b"

record routed_instance =
  ri_node :: node_id
  ri_service_name :: string
  ri_state :: service_state
  ri_last_heartbeat :: int
  ri_registered_at :: int
  ri_weight :: nat

record route_entry =
  re_instances :: "routed_instance list"
  re_round_robin :: nat

record health_check_config =
  hc_failure_threshold :: nat
  hc_recovery_threshold :: nat
  hc_drain_timeout :: int

definition default_health_check_config :: health_check_config where
  "default_health_check_config = \<lparr>hc_failure_threshold = 3, hc_recovery_threshold = 2, hc_drain_timeout = 30000\<rparr>"

record cluster_router =
  cr_config :: health_check_config
  cr_routes :: "(string \<times> route_entry) list"
  cr_failure_counts :: "string \<Rightarrow> nat"
  cr_success_counts :: "string \<Rightarrow> nat"
  cr_refs :: "string \<rightharpoonup> remote_actor_ref"
  cr_local_node_id :: "node_id option"

definition new_cluster_router :: "health_check_config \<Rightarrow> cluster_router" where
  "new_cluster_router config = \<lparr>cr_config = config, cr_routes = [], cr_failure_counts = (\<lambda>_. 0), cr_success_counts = (\<lambda>_. 0),
     cr_refs = Map.empty, cr_local_node_id = None\<rparr>"

definition route_of :: "string \<Rightarrow> cluster_router \<Rightarrow> route_entry option" where
  "route_of name r = map_of (cr_routes r) name"

definition put_route :: "string \<Rightarrow> route_entry \<Rightarrow> cluster_router \<Rightarrow> cluster_router" where
  "put_route name e r = r\<lparr>cr_routes := AList.update name e (cr_routes r)\<rparr>"

subsection \<open>Registration\<close>

fun put_instance_of :: "routed_instance \<Rightarrow> routed_instance list \<Rightarrow> routed_instance list" where
  "put_instance_of new [] = [new]"
| "put_instance_of new (i # is) = (if same_node (ri_node i) (ri_node new) then new # is else i # put_instance_of new is)"

definition register_service :: "int \<Rightarrow> routed_instance \<Rightarrow> cluster_router \<Rightarrow> cluster_router" where
  "register_service now inst r =
     (let inst1 = inst\<lparr>ri_registered_at := now, ri_last_heartbeat := now,
                       ri_state := (if ri_state inst = StUnknown then StHealthy else ri_state inst)\<rparr>;
          node = ri_node inst;
          remote = (case cr_local_node_id r of None \<Rightarrow> False | Some l \<Rightarrow> nd_node_name node \<noteq> nd_node_name l);
          route = (case route_of (ri_service_name inst) r of None \<Rightarrow> \<lparr>re_instances = [], re_round_robin = 0\<rparr> | Some e \<Rightarrow> e);
          r1 = put_route (ri_service_name inst) (route\<lparr>re_instances := put_instance_of inst1 (re_instances route)\<rparr>) r
      in if remote \<and> cr_refs r (nd_node_name node) = None
         then r1\<lparr>cr_refs := (cr_refs r)(nd_node_name node \<mapsto> RemoteRef 0 node)\<rparr> else r1)"

definition deregister_service :: "string \<Rightarrow> node_id \<Rightarrow> cluster_router \<Rightarrow> cluster_router" where
  "deregister_service name node r =
     (case route_of name r of
        None \<Rightarrow> r
      | Some e \<Rightarrow> put_route name (e\<lparr>re_instances := filter (\<lambda>i. \<not> same_node (ri_node i) node) (re_instances e)\<rparr>) r)"

subsection \<open>Discovery\<close>

definition serving_instances :: "route_entry \<Rightarrow> routed_instance list" where
  "serving_instances e = filter (\<lambda>i. ri_state i = StHealthy) (re_instances e)"

definition discover_service :: "string \<Rightarrow> cluster_router \<Rightarrow> routed_instance option \<times> cluster_router" where
  "discover_service name r =
     (case route_of name r of
        None \<Rightarrow> (None, r)
      | Some e \<Rightarrow>
         (let healthy = serving_instances e in
          if healthy = [] then (None, r)
          else (Some (healthy ! (re_round_robin e mod length healthy)), put_route name (e\<lparr>re_round_robin := u32_add (re_round_robin e) 1\<rparr>) r)))"

definition discover_all :: "string \<Rightarrow> cluster_router \<Rightarrow> routed_instance list" where
  "discover_all name r = (case route_of name r of None \<Rightarrow> [] | Some e \<Rightarrow> serving_instances e)"

definition total_services :: "cluster_router \<Rightarrow> nat" where
  "total_services r = length (cr_routes r)"

definition healthy_count :: "string \<Rightarrow> cluster_router \<Rightarrow> nat" where
  "healthy_count name r = (case route_of name r of None \<Rightarrow> 0 | Some e \<Rightarrow> length (filter (\<lambda>i. ri_state i = StHealthy) (re_instances e)))"

definition unhealthy_count :: "string \<Rightarrow> cluster_router \<Rightarrow> nat" where
  "unhealthy_count name r = (case route_of name r of None \<Rightarrow> 0 | Some e \<Rightarrow> length (filter (\<lambda>i. ri_state i = StUnhealthy) (re_instances e)))"

subsection \<open>Health\<close>

type_synonym health_counts = "(string \<Rightarrow> nat) \<times> (string \<Rightarrow> nat)"

definition count_key :: "string \<Rightarrow> routed_instance \<Rightarrow> string" where
  "count_key name i = name @ '':'' @ nd_node_name (ri_node i)"

text \<open>One instance, with the counters of failures and successes.\<close>

definition check_instance ::
  "health_check_config \<Rightarrow> (node_id \<Rightarrow> bool) \<Rightarrow> int \<Rightarrow> string \<Rightarrow> routed_instance \<Rightarrow> health_counts \<Rightarrow> routed_instance \<times> health_counts" where
  "check_instance cfg alive now name i c =
     (case c of (failures, successes) \<Rightarrow>
      if ri_state i = StDraining then
        (if now - ri_last_heartbeat i > hc_drain_timeout cfg then i\<lparr>ri_state := StUnhealthy\<rparr> else i, c)
      else
       (let key = count_key name i in
        if alive (ri_node i) then
         (let sc = u32_add (successes key) 1;
              back = (ri_state i = StUnhealthy \<and> sc \<ge> hc_recovery_threshold cfg)
          in (i\<lparr>ri_state := (if back then StHealthy else ri_state i), ri_last_heartbeat := now\<rparr>,
              failures(key := 0), successes(key := (if back then 0 else sc))))
        else
         (let fc = u32_add (failures key) 1
          in (if fc \<ge> hc_failure_threshold cfg then i\<lparr>ri_state := StUnhealthy\<rparr> else i, failures(key := fc), successes(key := 0)))))"

fun check_instances ::
  "health_check_config \<Rightarrow> (node_id \<Rightarrow> bool) \<Rightarrow> int \<Rightarrow> string \<Rightarrow> routed_instance list \<Rightarrow> health_counts \<Rightarrow> routed_instance list \<times> health_counts" where
  "check_instances cfg alive now name [] c = ([], c)"
| "check_instances cfg alive now name (i # is) c =
     (case check_instance cfg alive now name i c of (i', c1) \<Rightarrow>
      case check_instances cfg alive now name is c1 of (is', c2) \<Rightarrow> (i' # is', c2))"

fun check_routes ::
  "health_check_config \<Rightarrow> (node_id \<Rightarrow> bool) \<Rightarrow> int \<Rightarrow> (string \<times> route_entry) list \<Rightarrow> health_counts \<Rightarrow> (string \<times> route_entry) list \<times> health_counts" where
  "check_routes cfg alive now [] c = ([], c)"
| "check_routes cfg alive now ((name, e) # rs) c =
     (case check_instances cfg alive now name (re_instances e) c of (is, c1) \<Rightarrow>
      case check_routes cfg alive now rs c1 of (rs', c2) \<Rightarrow> ((name, e\<lparr>re_instances := is\<rparr>) # rs', c2))"

definition run_health_checks :: "(node_id \<Rightarrow> bool) option \<Rightarrow> int \<Rightarrow> cluster_router \<Rightarrow> cluster_router" where
  "run_health_checks health_check now r =
     (case health_check of
        None \<Rightarrow> r
      | Some alive \<Rightarrow>
         (case check_routes (cr_config r) alive now (cr_routes r) (cr_failure_counts r, cr_success_counts r) of
            (rs, (failures, successes)) \<Rightarrow> r\<lparr>cr_routes := rs, cr_failure_counts := failures, cr_success_counts := successes\<rparr>))"

text \<open>A change of the first instance of a service that is on the node.\<close>

fun update_instance :: "(routed_instance \<Rightarrow> routed_instance) \<Rightarrow> node_id \<Rightarrow> routed_instance list \<Rightarrow> routed_instance list" where
  "update_instance f node [] = []"
| "update_instance f node (i # is) = (if same_node (ri_node i) node then f i # is else i # update_instance f node is)"

definition with_instance :: "string \<Rightarrow> node_id \<Rightarrow> (routed_instance \<Rightarrow> routed_instance) \<Rightarrow> cluster_router \<Rightarrow> cluster_router" where
  "with_instance name node f r =
     (case route_of name r of None \<Rightarrow> r | Some e \<Rightarrow> put_route name (e\<lparr>re_instances := update_instance f node (re_instances e)\<rparr>) r)"

definition mark_node_healthy :: "string \<Rightarrow> node_id \<Rightarrow> cluster_router \<Rightarrow> cluster_router" where
  "mark_node_healthy name node = with_instance name node (\<lambda>i. i\<lparr>ri_state := StHealthy\<rparr>)"

definition mark_node_unhealthy :: "string \<Rightarrow> node_id \<Rightarrow> cluster_router \<Rightarrow> cluster_router" where
  "mark_node_unhealthy name node = with_instance name node (\<lambda>i. i\<lparr>ri_state := StUnhealthy\<rparr>)"

definition start_drain :: "int \<Rightarrow> string \<Rightarrow> node_id \<Rightarrow> cluster_router \<Rightarrow> cluster_router" where
  "start_drain now name node = with_instance name node (\<lambda>i. i\<lparr>ri_state := StDraining, ri_last_heartbeat := now\<rparr>)"

definition set_local_node_id :: "node_id \<Rightarrow> cluster_router \<Rightarrow> cluster_router" where
  "set_local_node_id node r = r\<lparr>cr_local_node_id := Some node\<rparr>"

subsection \<open>Sending\<close>

text \<open>\<^verbatim>\<open>std::stoull\<close> on base ten: blanks, a sign, digits; what follows is ignored, a minus wraps around, and a number that does not fit throws.\<close>

definition stoull :: "string \<Rightarrow> nat option" where
  "stoull s =
     (let t = dropWhile is_space s;
          neg = (t \<noteq> [] \<and> hd t = CHR ''-'');
          u = (if t \<noteq> [] \<and> (hd t = CHR ''-'' \<or> hd t = CHR ''+'') then tl t else t);
          ds = takeWhile is_digit u;
          v = undecimal ds
      in if ds = [] \<or> v \<ge> 2 ^ 64 then None else Some (if neg then nat ((- int v) mod 2 ^ 64) else v))"

text \<open>The node of the first instance with the name.\<close>

definition find_node :: "string \<Rightarrow> cluster_router \<Rightarrow> node_id option" where
  "find_node node_name r =
     map_option ri_node (find (\<lambda>i. nd_node_name (ri_node i) = node_name) (concat (map (re_instances \<circ> snd) (cr_routes r))))"

definition user_message :: "nat \<Rightarrow> u64 \<Rightarrow> bytes \<Rightarrow> 'p actor_message" where
  "user_message target created_at payload =
     \<lparr>am_header = \<lparr>mh_kind = 1, mh_trace_id = 0, mh_request_id = 0, mh_source_actor = 0, mh_target_actor = of_nat target, mh_created_at = created_at\<rparr>,
      am_payload = TextPayload payload\<rparr>"

definition send_to ::
  "sender option option \<Rightarrow> u64 \<Rightarrow> string \<Rightarrow> string \<Rightarrow> bytes \<Rightarrow> cluster_router \<Rightarrow> bool \<times> 'p told list \<times> cluster_router" where
  "send_to transport now_us node_name actor payload r =
     (case stoull actor of
        None \<Rightarrow> (False, [], r)
      | Some target \<Rightarrow>
         if (case cr_local_node_id r of None \<Rightarrow> False | Some l \<Rightarrow> nd_node_name l = node_name) then (False, [], r)
         else
          (case cr_refs r node_name of
             Some ref \<Rightarrow> (True, ref_tell transport ref (user_message target now_us payload), r)
           | None \<Rightarrow>
              (case find_node node_name r of
                 None \<Rightarrow> (False, [], r)
               | Some node \<Rightarrow>
                  (let ref = RemoteRef (of_nat target) node
                   in (True, ref_tell transport ref (user_message target now_us payload), r\<lparr>cr_refs := (cr_refs r)(node_name \<mapsto> ref)\<rparr>)))))"

subsection \<open>Discovery in turn\<close>

lemma route_of_put [simp]: "route_of n (put_route name e r) = (if n = name then Some e else route_of n r)"
  by (simp add: route_of_def put_route_def update_conv')

fun discover_times :: "nat \<Rightarrow> string \<Rightarrow> cluster_router \<Rightarrow> routed_instance option list" where
  "discover_times 0 name r = []"
| "discover_times (Suc k) name r = (case discover_service name r of (x, r1) \<Rightarrow> x # discover_times k name r1)"

lemma discover_times_nth:
  assumes "route_of name r = Some e" and "serving_instances e = hs" "hs \<noteq> []" and "re_round_robin e + k \<le> 2 ^ 32"
  shows "discover_times k name r = map (\<lambda>j. Some (hs ! ((re_round_robin e + j) mod length hs))) [0..<k]"
  using assms
proof (induction k arbitrary: r e)
  case (Suc k)
  let ?e = "e\<lparr>re_round_robin := u32_add (re_round_robin e) 1\<rparr>"
  have d: "discover_service name r = (Some (hs ! (re_round_robin e mod length hs)), put_route name ?e r)"
    using Suc.prems by (simp add: discover_service_def Let_def)
  show ?case
  proof (cases k)
    case (Suc k')
    then have rr: "re_round_robin ?e = re_round_robin e + 1" using Suc.prems(4) by (simp add: u32_add_def)
    have "discover_times k name (put_route name ?e r) = map (\<lambda>j. Some (hs ! ((re_round_robin ?e + j) mod length hs))) [0..<k]"
      by (rule Suc.IH) (use Suc.prems rr in \<open>auto simp: serving_instances_def\<close>)
    with rr show ?thesis by (simp add: d map_upt_Suc del: upt_Suc)
  qed (simp add: d)
qed simp

text \<open>Discovery is a rotation.  As many consecutive requests for a service as it has healthy instances are answered by all of them, in turn, starting where the last
  request left off; only healthy instances are returned.  The counter must not wrap around in between.\<close>

theorem discovery_rotates:
  assumes "route_of name r = Some e" and "serving_instances e \<noteq> []" and "re_round_robin e + length (serving_instances e) \<le> 2 ^ 32"
  shows "discover_times (length (serving_instances e)) name r = map Some (rotate (re_round_robin e) (serving_instances e))"
  unfolding discover_times_nth[OF assms(1) refl assms(2,3)] by (rule nth_equalityI) (simp_all add: nth_rotate)

subsection \<open>The route table\<close>

datatype router_op =
  RegisterService int routed_instance | DeregisterService string node_id | Discover string | HealthChecks "(node_id \<Rightarrow> bool) option" int
| MarkHealthy string node_id | MarkUnhealthy string node_id | StartDrain int string node_id | SetLocalNode node_id
| SendTo "sender option option" u64 string string bytes

fun router_step :: "router_op \<Rightarrow> cluster_router \<Rightarrow> cluster_router" where
  "router_step (RegisterService now i) r = register_service now i r"
| "router_step (DeregisterService name node) r = deregister_service name node r"
| "router_step (Discover name) r = snd (discover_service name r)"
| "router_step (HealthChecks f now) r = run_health_checks f now r"
| "router_step (MarkHealthy name node) r = mark_node_healthy name node r"
| "router_step (MarkUnhealthy name node) r = mark_node_unhealthy name node r"
| "router_step (StartDrain now name node) r = start_drain now name node r"
| "router_step (SetLocalNode node) r = set_local_node_id node r"
| "router_step (SendTo t now n a p) r = snd (snd (send_to t now n a p r :: bool \<times> unit told list \<times> cluster_router))"

definition node_names :: "routed_instance list \<Rightarrow> string list" where
  "node_names is = map (\<lambda>i. nd_node_name (ri_node i)) is"

definition routes_inv :: "cluster_router \<Rightarrow> bool" where
  "routes_inv r \<longleftrightarrow> distinct (map fst (cr_routes r)) \<and> (\<forall>name e. route_of name r = Some e \<longrightarrow> distinct (node_names (re_instances e)))"

lemma routes_inv_put: "routes_inv r \<Longrightarrow> distinct (node_names (re_instances e)) \<Longrightarrow> routes_inv (put_route name e r)"
  unfolding routes_inv_def by (simp add: put_route_def[of name e r] distinct_update) (simp add: put_route_def[symmetric])

lemma routes_inv_of: "routes_inv r \<Longrightarrow> route_of name r = Some e \<Longrightarrow> distinct (node_names (re_instances e))"
  by (simp add: routes_inv_def)

lemma node_names_put: "set (node_names (put_instance_of new is)) = insert (nd_node_name (ri_node new)) (set (node_names is))"
  by (induction new "is" rule: put_instance_of.induct) (auto simp: node_names_def same_node_def)

lemma distinct_put_instance: "distinct (node_names is) \<Longrightarrow> distinct (node_names (put_instance_of new is))"
proof (induction new "is" rule: put_instance_of.induct)
  case (2 new i "is")
  then show ?case using node_names_put[of new "is"] by (auto simp: node_names_def same_node_def)
qed (simp add: node_names_def)

lemma node_names_update: "(\<And>i. ri_node (f i) = ri_node i) \<Longrightarrow> node_names (update_instance f node is) = node_names is"
  by (induction f node "is" rule: update_instance.induct) (auto simp: node_names_def)

lemma node_check_instance [simp]: "ri_node (fst (check_instance cfg alive now name i c)) = ri_node i"
  by (simp add: check_instance_def Let_def split: prod.split)

lemma node_names_check [simp]: "node_names (fst (check_instances cfg alive now name is c)) = node_names is"
proof (induction "is" arbitrary: c)
  case (Cons i "is")
  obtain i' c1 where a: "check_instance cfg alive now name i c = (i', c1)" by (rule prod.exhaust)
  obtain is' c2 where b: "check_instances cfg alive now name is c1 = (is', c2)" by (rule prod.exhaust)
  show ?case using Cons[of c1] node_check_instance[of cfg alive now name i c] by (simp add: a b node_names_def)
qed simp

lemma check_routes_names:
  "map (\<lambda>(name, e). (name, node_names (re_instances e))) (fst (check_routes cfg alive now rs c)) = map (\<lambda>(name, e). (name, node_names (re_instances e))) rs"
proof (induction rs arbitrary: c)
  case (Cons x rs)
  obtain name e where x: "x = (name, e)" by (rule prod.exhaust)
  obtain "is" c1 where a: "check_instances cfg alive now name (re_instances e) c = (is, c1)" by (rule prod.exhaust)
  obtain rs' c2 where b: "check_routes cfg alive now rs c1 = (rs', c2)" by (rule prod.exhaust)
  show ?case using Cons[of c1] node_names_check[of cfg alive now name "re_instances e" c] by (simp add: x a b)
qed simp

lemma routes_inv_checks: "routes_inv r \<Longrightarrow> routes_inv (run_health_checks f now r)"
proof (cases f)
  case (Some alive)
  assume inv: "routes_inv r"
  obtain rs fc sc where c: "check_routes (cr_config r) alive now (cr_routes r) (cr_failure_counts r, cr_success_counts r) = (rs, (fc, sc))"
    by (metis prod.exhaust)
  let ?g = "\<lambda>(name :: string, e). (name, node_names (re_instances e))"
  have m: "map ?g rs = map ?g (cr_routes r)"
    using check_routes_names[of "cr_config r" alive now "cr_routes r" "(cr_failure_counts r, cr_success_counts r)"] by (simp add: c)
  have "map fst rs = map fst (cr_routes r)" using arg_cong[OF m, of "map fst"] by (simp add: comp_def case_prod_beta)
  moreover have "map_option (node_names \<circ> re_instances) (map_of rs name) = map_option (node_names \<circ> re_instances) (map_of (cr_routes r) name)" for name
    using fun_cong[OF arg_cong[OF m, of map_of], of name] by (simp add: map_of_map comp_def)
  moreover have "distinct (node_names (re_instances e'))" if e': "map_of rs name = Some e'" for name e'
  proof -
    from calculation(2)[of name] e' obtain e where "map_of (cr_routes r) name = Some e" "node_names (re_instances e) = node_names (re_instances e')"
      by (cases "map_of (cr_routes r) name") auto
    with routes_inv_of[OF inv, of name e] show ?thesis by (simp add: route_of_def)
  qed
  ultimately show ?thesis using inv by (simp add: routes_inv_def route_of_def run_health_checks_def Some c)
qed (simp add: run_health_checks_def)

lemma routes_inv_with_instance: "(\<And>i. ri_node (f i) = ri_node i) \<Longrightarrow> routes_inv r \<Longrightarrow> routes_inv (with_instance name node f r)"
  by (auto simp: with_instance_def node_names_update intro!: routes_inv_put dest: routes_inv_of split: option.split)

lemma routes_inv_refs [simp]: "routes_inv (r\<lparr>cr_refs := m\<rparr>) = routes_inv r" "routes_inv (r\<lparr>cr_local_node_id := l\<rparr>) = routes_inv r"
  by (simp_all add: routes_inv_def route_of_def)

lemma routes_inv_step: "routes_inv r \<Longrightarrow> routes_inv (router_step op r)"
proof (cases op)
  case (RegisterService now i)
  moreover assume "routes_inv r"
  ultimately show ?thesis
    by (auto simp: register_service_def Let_def intro!: routes_inv_put distinct_put_instance dest: routes_inv_of split: option.split)
       (simp_all add: node_names_def)
next
  case (DeregisterService name node)
  moreover assume "routes_inv r"
  moreover have "distinct (node_names (filter P is))" if "distinct (node_names is)" for P "is"
    using that by (simp add: node_names_def distinct_map_filter)
  ultimately show ?thesis
    by (auto simp: deregister_service_def intro!: routes_inv_put dest: routes_inv_of split: option.split)
next
  case (Discover name)
  moreover assume "routes_inv r"
  ultimately show ?thesis by (auto simp: discover_service_def Let_def intro!: routes_inv_put dest: routes_inv_of split: option.split)
qed (auto simp: mark_node_healthy_def mark_node_unhealthy_def start_drain_def set_local_node_id_def send_to_def Let_def
      intro!: routes_inv_with_instance routes_inv_checks split: option.split)

interpretation router: message_actor router_step routes_inv
  by unfold_locales (rule routes_inv_step)

text \<open>The route table.  After any operations every service is listed once and a node is listed at most once per service.\<close>

theorem routes_list_nodes_once:
  assumes "r = run_messages router_step ops (new_cluster_router config)"
  shows "distinct (map fst (cr_routes r)) \<and> (\<forall>name e. route_of name r = Some e \<longrightarrow> distinct (node_names (re_instances e)))"
  using router.inv_run[of "new_cluster_router config" ops] assms by (simp add: routes_inv_def new_cluster_router_def route_of_def)

subsection \<open>Addresses of other nodes\<close>

lemma refs_kept_step:
  assumes "cr_refs r n = Some ref"
  shows "cr_refs (router_step op r) n = Some ref"
proof (cases op)
  case (HealthChecks f now)
  with assms show ?thesis by (simp add: run_health_checks_def split: option.split prod.split)
qed (use assms in \<open>auto simp: register_service_def deregister_service_def discover_service_def mark_node_healthy_def mark_node_unhealthy_def start_drain_def
      with_instance_def put_route_def set_local_node_id_def send_to_def Let_def split: option.split\<close>)

interpretation address: message_actor router_step "\<lambda>r. cr_refs r n = Some ref" for n ref
  by unfold_locales (rule refs_kept_step)

text \<open>A defect.  The address of a node is taken when it is first seen and never changed: whatever is registered afterwards, also the same node at a new address,
  messages for it are sent to the first one.\<close>

theorem messages_go_to_first_address:
  assumes "cr_refs r n = Some (RemoteRef a old)" and "r' = run_messages router_step ops r"
    and "stoull actor = Some target" and "\<forall>l. cr_local_node_id r' = Some l \<longrightarrow> nd_node_name l \<noteq> n"
  shows "send_to (Some (Some f)) now n actor payload r' =
    (True, [ToldNode old (serialize (user_message target now payload :: unit actor_message)) :: unit told], r')"
proof -
  have "cr_refs r' n = Some (RemoteRef a old)" using address.inv_run[of r n "RemoteRef a old" ops] assms(1,2) by simp
  with assms(3,4) show ?thesis by (auto simp: send_to_def ref_tell_def send_to_node_def split: option.split)
qed

definition moved_node :: "string \<Rightarrow> routed_instance" where
  "moved_node host = \<lparr>ri_node = \<lparr>nd_host = host, nd_port = 9000, nd_node_name = ''n1''\<rparr>, ri_service_name = ''room'', ri_state = StUnknown,
     ri_last_heartbeat = 0, ri_registered_at = 0, ri_weight = 1\<rparr>"

definition moved_router :: cluster_router where
  "moved_router = run_messages router_step [SetLocalNode \<lparr>nd_host = ''h0'', nd_port = 1, nd_node_name = ''n0''\<rparr>, RegisterService 0 (moved_node ''old'')]
     (new_cluster_router default_health_check_config)"

lemmas moved_defs = moved_router_def moved_node_def new_cluster_router_def set_local_node_id_def register_service_def route_of_def put_route_def

theorem messages_go_to_first_address_witness:
  "\<exists>r'. r' = run_messages router_step [RegisterService 5 (moved_node ''new'')] moved_router \<and>
    (\<exists>bytes. fst (snd (send_to (Some (Some (\<lambda>n b. True))) 0 ''n1'' ''7'' [] r' :: bool \<times> unit told list \<times> cluster_router)) =
       [ToldNode \<lparr>nd_host = ''old'', nd_port = 9000, nd_node_name = ''n1''\<rparr> bytes])"
proof -
  let ?old = "\<lparr>nd_host = ''old'', nd_port = 9000, nd_node_name = ''n1''\<rparr>"
  let ?r' = "run_messages router_step [RegisterService 5 (moved_node ''new'')] moved_router"
  have "cr_refs moved_router ''n1'' = Some (RemoteRef 0 ?old)" by (simp add: moved_defs Let_def)
  moreover have "stoull ''7'' = Some 7" by (simp add: stoull_def is_space_def is_digit_def)
  moreover have "\<forall>l. cr_local_node_id ?r' = Some l \<longrightarrow> nd_node_name l \<noteq> ''n1''" by (simp add: moved_defs Let_def)
  ultimately show ?thesis using messages_go_to_first_address[of moved_router "''n1''" 0 ?old ?r' "[RegisterService 5 (moved_node ''new'')]" "''7''" 7 "\<lambda>n b. True" 0 "[]"] by auto
qed

subsection \<open>Health checks, one instance at a time\<close>

definition flat :: "(string \<times> route_entry) list \<Rightarrow> (string \<times> routed_instance) list" where
  "flat rs = concat (map (\<lambda>(n, e). map (Pair n) (re_instances e)) rs)"

fun check_flat where
  "check_flat cfg alive now [] c = ([], c)"
| "check_flat cfg alive now ((n, i) # xs) c =
     (case check_instance cfg alive now n i c of (i', c1) \<Rightarrow> case check_flat cfg alive now xs c1 of (xs', c2) \<Rightarrow> ((n, i') # xs', c2))"

lemma check_flat_append:
  "check_flat cfg alive now (xs @ ys) c =
    (fst (check_flat cfg alive now xs c) @ fst (check_flat cfg alive now ys (snd (check_flat cfg alive now xs c))),
     snd (check_flat cfg alive now ys (snd (check_flat cfg alive now xs c))))"
  by (induction xs arbitrary: c) (auto split: prod.split)

lemma check_instances_flat:
  "check_flat cfg alive now (map (Pair n) is) c =
    (map (Pair n) (fst (check_instances cfg alive now n is c)), snd (check_instances cfg alive now n is c))"
  by (induction "is" arbitrary: c) (auto split: prod.split)

lemma check_routes_flat:
  "check_flat cfg alive now (flat rs) c = (flat (fst (check_routes cfg alive now rs c)), snd (check_routes cfg alive now rs c))"
proof (induction rs arbitrary: c)
  case (Cons x rs)
  then show ?case by (cases x) (simp add: flat_def check_flat_append check_instances_flat split: prod.split)
qed (simp add: flat_def)

definition agree :: "string \<Rightarrow> health_counts \<Rightarrow> health_counts \<Rightarrow> bool" where
  "agree k c d \<longleftrightarrow> fst c k = fst d k \<and> snd c k = snd d k"

lemma check_instance_agree:
  "k \<noteq> count_key n i \<Longrightarrow> agree k (snd (check_instance cfg alive now n i c)) c"
  "agree (count_key n i) c d \<Longrightarrow> fst (check_instance cfg alive now n i c) = fst (check_instance cfg alive now n i d) \<and>
     agree (count_key n i) (snd (check_instance cfg alive now n i c)) (snd (check_instance cfg alive now n i d))"
  by (cases c; cases d; simp add: check_instance_def agree_def Let_def)+

lemma count_key_check [simp]: "count_key n (fst (check_instance cfg alive now m i c)) = count_key n i"
  by (simp add: count_key_def)

lemma check_flat_other: "k \<notin> (\<lambda>(n, i). count_key n i) ` set xs \<Longrightarrow> agree k (snd (check_flat cfg alive now xs c)) c"
proof (induction xs arbitrary: c)
  case (Cons x xs)
  obtain n i where x: "x = (n, i)" by (rule prod.exhaust)
  obtain i' c1 where a: "check_instance cfg alive now n i c = (i', c1)" by (rule prod.exhaust)
  have "agree k c1 c" using check_instance_agree(1)[of k n i cfg alive now c] Cons.prems by (simp add: x a)
  with Cons.IH[of c1] Cons.prems show ?case by (cases "check_flat cfg alive now xs c1") (simp add: x a agree_def)
qed (simp add: agree_def)

text \<open>With different keys every instance is checked as if it were alone.\<close>

lemma check_flat_alone:
  assumes "distinct (map (\<lambda>(n, i). count_key n i) xs)" and "(n, i) \<in> set xs"
  shows "(n, fst (check_instance cfg alive now n i c)) \<in> set (fst (check_flat cfg alive now xs c)) \<and>
    agree (count_key n i) (snd (check_flat cfg alive now xs c)) (snd (check_instance cfg alive now n i c))"
  using assms
proof (induction xs arbitrary: c)
  case (Cons x xs)
  obtain m j where x: "x = (m, j)" by (rule prod.exhaust)
  obtain j' c1 where a: "check_instance cfg alive now m j c = (j', c1)" by (rule prod.exhaust)
  obtain xs' c2 where b: "check_flat cfg alive now xs c1 = (xs', c2)" by (rule prod.exhaust)
  show ?case
  proof (cases "(n, i) = (m, j)")
    case True
    with Cons.prems check_flat_other[of "count_key m j" xs cfg alive now c1] show ?thesis by (auto simp: x a b)
  next
    case False
    then have i: "(n, i) \<in> set xs" using Cons.prems(2) x by auto
    then have "count_key n i \<noteq> count_key m j" using Cons.prems(1) by (auto simp: x image_iff)
    then have "agree (count_key n i) c1 c" using check_instance_agree(1)[of "count_key n i" m j cfg alive now c] by (simp add: a)
    with check_instance_agree(2)[of n i c1 c cfg alive now] Cons.IH[of c1] Cons.prems(1) i show ?thesis
      by (auto simp: x a b agree_def)
  qed
qed simp

lemma check_flat_keys: "map (\<lambda>(n, i). count_key n i) (fst (check_flat cfg alive now xs c)) = map (\<lambda>(n, i). count_key n i) xs"
proof (induction xs arbitrary: c)
  case (Cons x xs)
  obtain n i where x: "x = (n, i)" by (rule prod.exhaust)
  obtain i' c1 where a: "check_instance cfg alive now n i c = (i', c1)" by (rule prod.exhaust)
  have "count_key n i' = count_key n i" using count_key_check[of n cfg alive now n i c] by (simp add: a)
  with Cons[of c1] show ?case by (simp add: x a split: prod.split) (metis fst_conv)
qed simp

subsection \<open>A node that does not answer\<close>

definition check_keys :: "cluster_router \<Rightarrow> string list" where
  "check_keys r = map (\<lambda>(n, i). count_key n i) (flat (cr_routes r))"

lemma run_health_checks_flat:
  fixes alive :: "node_id \<Rightarrow> bool" and now :: int
  assumes "distinct (check_keys r)" and "(n, i) \<in> set (flat (cr_routes r))"
  defines "r' \<equiv> run_health_checks (Some alive) now r" and "res \<equiv> check_instance (cr_config r) alive now n i (cr_failure_counts r, cr_success_counts r)"
  shows "(n, fst res) \<in> set (flat (cr_routes r'))" "agree (count_key n i) (cr_failure_counts r', cr_success_counts r') (snd res)"
    "check_keys r' = check_keys r" "cr_config r' = cr_config r"
proof -
  let ?c = "(cr_failure_counts r, cr_success_counts r)"
  obtain rs fc sc where c: "check_routes (cr_config r) alive now (cr_routes r) ?c = (rs, fc, sc)" by (metis prod.exhaust)
  then have r': "r' = r\<lparr>cr_routes := rs, cr_failure_counts := fc, cr_success_counts := sc\<rparr>" by (simp add: r'_def run_health_checks_def)
  have f: "check_flat (cr_config r) alive now (flat (cr_routes r)) ?c = (flat rs, fc, sc)" by (simp add: check_routes_flat c)
  show "(n, fst res) \<in> set (flat (cr_routes r'))" "agree (count_key n i) (cr_failure_counts r', cr_success_counts r') (snd res)"
    using check_flat_alone[OF assms(1)[unfolded check_keys_def] assms(2), of "cr_config r" alive now ?c] by (simp_all add: f r' res_def)
  show "check_keys r' = check_keys r" using check_flat_keys[of "cr_config r" alive now "flat (cr_routes r)" ?c] by (simp add: check_keys_def f r')
  show "cr_config r' = cr_config r" by (simp add: r')
qed

definition health_rounds :: "((node_id \<Rightarrow> bool) \<times> int) list \<Rightarrow> cluster_router \<Rightarrow> cluster_router" where
  "health_rounds rounds = run_messages (\<lambda>(alive, now). run_health_checks (Some alive) now) rounds"

lemma failing_rounds:
  assumes "distinct (check_keys r)" and "(n, i) \<in> set (flat (cr_routes r))" and "ri_state i \<noteq> StDraining"
    and "list_all (\<lambda>(alive, now). \<not> alive (ri_node i)) rounds" and "cr_failure_counts r (count_key n i) + length rounds < 2 ^ 32"
  shows "\<exists>i'. (n, i') \<in> set (flat (cr_routes (health_rounds rounds r))) \<and> ri_node i' = ri_node i \<and>
      (rounds \<noteq> [] \<and> hc_failure_threshold (cr_config r) \<le> cr_failure_counts r (count_key n i) + length rounds \<longrightarrow> ri_state i' = StUnhealthy) \<and>
      distinct (check_keys (health_rounds rounds r))"
  using assms
proof (induction rounds arbitrary: r i)
  case (Cons x rounds)
  obtain alive now where x: "x = (alive, now)" by (rule prod.exhaust)
  let ?r1 = "run_health_checks (Some alive) now r"
  let ?res = "check_instance (cr_config r) alive now n i (cr_failure_counts r, cr_success_counts r)"
  define i1 where "i1 = fst ?res"
  note f = run_health_checks_flat[OF Cons.prems(1,2), of alive now]
  have dead: "\<not> alive (ri_node i)" using Cons.prems(4) by (simp add: x)
  have i1: "ri_node i1 = ri_node i" "ri_state i1 \<noteq> StDraining"
    "hc_failure_threshold (cr_config r) \<le> cr_failure_counts r (count_key n i) + 1 \<longrightarrow> ri_state i1 = StUnhealthy"
    and fc: "fst (snd ?res) (count_key n i) = cr_failure_counts r (count_key n i) + 1"
    using Cons.prems(3,5) dead by (simp_all add: i1_def check_instance_def Let_def u32_add_def)
  have key: "count_key n i1 = count_key n i" by (simp add: i1_def)
  then have c1: "cr_failure_counts ?r1 (count_key n i1) = cr_failure_counts r (count_key n i) + 1" using f(2) fc by (simp add: agree_def)
  obtain i' where i': "(n, i') \<in> set (flat (cr_routes (health_rounds rounds ?r1)))" "ri_node i' = ri_node i1" "distinct (check_keys (health_rounds rounds ?r1))"
    "rounds \<noteq> [] \<and> hc_failure_threshold (cr_config ?r1) \<le> cr_failure_counts ?r1 (count_key n i1) + length rounds \<longrightarrow> ri_state i' = StUnhealthy"
    using Cons.IH[of ?r1 i1] f(1,3) i1 Cons.prems c1 by (auto simp: i1_def[symmetric])
  show ?case
  proof (cases "rounds = []")
    case True
    with f(1,3) i1 Cons.prems(1) show ?thesis by (intro exI[of _ i1]) (simp add: health_rounds_def x i1_def)
  next
    case False
    with i' i1 c1 f(4) show ?thesis by (intro exI[of _ i']) (simp add: health_rounds_def x)
  qed
qed (auto simp: health_rounds_def)

text \<open>C30: A node that does not answer leaves the service.  When a node that is not being drained fails as many consecutive checks as the threshold asks for, no instance on it
  is discovered any more.  The keys of the failure counters, service and node name around a colon, must be different for all instances.\<close>

theorem dead_node_leaves:
  assumes "distinct (check_keys r)" and "(n, i) \<in> set (flat (cr_routes r))" and "ri_state i \<noteq> StDraining"
    and "list_all (\<lambda>(alive, now). \<not> alive (ri_node i)) rounds" and "length rounds = hc_failure_threshold (cr_config r)" "rounds \<noteq> []"
    and "cr_failure_counts r (count_key n i) + length rounds < 2 ^ 32"
    and "j \<in> set (discover_all n (health_rounds rounds r))"
  shows "nd_node_name (ri_node j) \<noteq> nd_node_name (ri_node i)"
proof
  assume same: "nd_node_name (ri_node j) = nd_node_name (ri_node i)"
  let ?r = "health_rounds rounds r"
  obtain i' where i': "(n, i') \<in> set (flat (cr_routes ?r))" "ri_node i' = ri_node i" "ri_state i' = StUnhealthy" "distinct (check_keys ?r)"
    using failing_rounds[OF assms(1-4,7)] assms(5,6) by auto
  from assms(8) obtain e where e: "(n, e) \<in> set (cr_routes ?r)" "j \<in> set (re_instances e)" "ri_state j = StHealthy"
    by (auto simp: discover_all_def route_of_def serving_instances_def split: option.splits dest!: map_of_SomeD sym[of "Some _"])
  then have "(n, j) \<in> set (flat (cr_routes ?r))" by (force simp: flat_def)
  moreover have "count_key n j = count_key n i'" using same i'(2) by (simp add: count_key_def)
  ultimately have "(n, j) = (n, i')" using i'(1,4) unfolding check_keys_def distinct_map inj_on_def by (metis (mono_tags, lifting) case_prod_conv)
  with e(3) i'(3) show False by simp
qed

subsection \<open>A node that was taken out\<close>

definition lone_router :: "routed_instance \<Rightarrow> health_check_config \<Rightarrow> cluster_router" where
  "lone_router i cfg = router_step (RegisterService 0 i) (new_cluster_router cfg)"

definition answering :: "int \<Rightarrow> (node_id \<Rightarrow> bool) \<times> int" where
  "answering now = (\<lambda>n. True, now)"

lemma answering_rounds:
  assumes "cr_routes r = [(n, \<lparr>re_instances = [i], re_round_robin = k\<rparr>)]" "ri_state i = StHealthy" and "cr_success_counts r (count_key n i) + length ts < 2 ^ 32"
  shows "\<exists>i'. cr_routes (health_rounds (map answering ts) r) = [(n, \<lparr>re_instances = [i'], re_round_robin = k\<rparr>)] \<and> ri_state i' = StHealthy \<and> ri_node i' = ri_node i \<and>
    cr_success_counts (health_rounds (map answering ts) r) (count_key n i') = cr_success_counts r (count_key n i) + length ts \<and>
    cr_config (health_rounds (map answering ts) r) = cr_config r"
  using assms
proof (induction ts arbitrary: r i)
  case (Cons t ts)
  let ?r1 = "run_health_checks (Some (\<lambda>n. True)) t r" and ?i1 = "i\<lparr>ri_last_heartbeat := t\<rparr>"
  have "cr_routes ?r1 = [(n, \<lparr>re_instances = [?i1], re_round_robin = k\<rparr>)]" "cr_config ?r1 = cr_config r"
    "cr_success_counts ?r1 (count_key n ?i1) = cr_success_counts r (count_key n i) + 1"
    using Cons.prems by (simp_all add: run_health_checks_def check_instance_def Let_def u32_add_def count_key_def)
  with Cons.IH[of ?r1 ?i1] Cons.prems show ?case by (simp add: health_rounds_def answering_def)
qed (auto simp: health_rounds_def)

text \<open>A defect.  Successful checks of a healthy instance are counted and the count is not reset when it is marked unhealthy: after at least as many checks as
  the recovery needs, less one, a single further check makes the instance healthy again, although the threshold asks for consecutive successes.\<close>

theorem one_check_undoes_mark:
  assumes "ri_state i = StHealthy" and "hc_recovery_threshold cfg \<le> length ts + 1" and "length ts + 1 < 2 ^ 32"
    and "r = mark_node_unhealthy (ri_service_name i) (ri_node i) (health_rounds (map answering ts) (lone_router i cfg))"
  shows "discover_all (ri_service_name i) r = [] \<and>
    (\<exists>i'. discover_all (ri_service_name i) (health_rounds [answering t] r) = [i'] \<and> ri_node i' = ri_node i)"
proof -
  let ?n = "ri_service_name i" and ?i = "i\<lparr>ri_registered_at := 0, ri_last_heartbeat := 0\<rparr>"
  have l: "cr_routes (lone_router i cfg) = [(?n, \<lparr>re_instances = [?i], re_round_robin = 0\<rparr>)]" "cr_success_counts (lone_router i cfg) k = 0"
    "cr_config (lone_router i cfg) = cfg" for k
    using assms(1) by (simp_all add: lone_router_def register_service_def new_cluster_router_def Let_def route_of_def put_route_def)
  obtain i' where i': "cr_routes (health_rounds (map answering ts) (lone_router i cfg)) = [(?n, \<lparr>re_instances = [i'], re_round_robin = 0\<rparr>)]" "ri_node i' = ri_node i"
    "cr_success_counts (health_rounds (map answering ts) (lone_router i cfg)) (count_key ?n i') = length ts"
    "cr_config (health_rounds (map answering ts) (lone_router i cfg)) = cfg"
    using answering_rounds[OF l(1), of ts] assms(1,3) l(2,3) by auto
  then have r: "cr_routes r = [(?n, \<lparr>re_instances = [i'\<lparr>ri_state := StUnhealthy\<rparr>], re_round_robin = 0\<rparr>)]" "cr_config r = cfg"
    "cr_success_counts r (count_key ?n i') = length ts"
    by (simp_all add: assms(4) mark_node_unhealthy_def with_instance_def route_of_def put_route_def same_node_def)
  then show ?thesis using assms(2,3) i'(2)
    by (simp add: discover_all_def route_of_def serving_instances_def health_rounds_def answering_def run_health_checks_def check_instance_def Let_def
        u32_add_def count_key_def)
qed

text \<open>An instance that was drained and still answers is routed to again after the drain timeout and the recovery checks.\<close>

lemma drained_node_returns:
  "map (\<lambda>r. length (discover_all ''room'' r)) [lone_router (moved_node ''h'') default_health_check_config,
     start_drain 1 ''room'' (ri_node (moved_node ''h'')) (lone_router (moved_node ''h'') default_health_check_config),
     health_rounds [answering 40000, answering 45000, answering 50000]
       (start_drain 1 ''room'' (ri_node (moved_node ''h'')) (lone_router (moved_node ''h'') default_health_check_config))] = [1, 0, 1]"
  by (simp add: lone_router_def moved_defs default_health_check_config_def discover_all_def serving_instances_def start_drain_def with_instance_def same_node_def
      health_rounds_def answering_def run_health_checks_def check_instance_def u32_add_def count_key_def Let_def)

definition lone_sample :: cluster_router where
  "lone_sample = lone_router (moved_node ''h'') default_health_check_config"

lemma lone_sample_routes: "cr_routes lone_sample = [(''room'', \<lparr>re_instances = [(moved_node ''h'')\<lparr>ri_state := StHealthy\<rparr>], re_round_robin = 0\<rparr>)]"
  "cr_failure_counts lone_sample = (\<lambda>_. 0)" "cr_config lone_sample = default_health_check_config"
  by (simp_all add: lone_sample_def lone_router_def moved_defs Let_def)

theorem discovery_rotates_witness: "discover_times 1 ''room'' lone_sample = [Some ((moved_node ''h'')\<lparr>ri_state := StHealthy\<rparr>)]"
  using discovery_rotates[of "''room''" lone_sample "\<lparr>re_instances = [(moved_node ''h'')\<lparr>ri_state := StHealthy\<rparr>], re_round_robin = 0\<rparr>"]
  by (simp add: lone_sample_routes route_of_def serving_instances_def)

theorem routes_list_nodes_once_witness:
  "distinct (map fst (cr_routes (run_messages router_step [RegisterService 0 (moved_node ''a''), RegisterService 1 (moved_node ''b'')]
     (new_cluster_router default_health_check_config))))"
  using routes_list_nodes_once[of _ "[RegisterService 0 (moved_node ''a''), RegisterService 1 (moved_node ''b'')]" default_health_check_config, OF refl] by blast

theorem dead_node_leaves_witness:
  "''n1'' \<notin> (\<lambda>j. nd_node_name (ri_node j)) `
     set (discover_all ''room'' (health_rounds [(\<lambda>n. False, 1), (\<lambda>n. False, 2), (\<lambda>n. False, 3)] lone_sample))"
proof
  assume "''n1'' \<in> (\<lambda>j. nd_node_name (ri_node j)) `
     set (discover_all ''room'' (health_rounds [(\<lambda>n. False, 1), (\<lambda>n. False, 2), (\<lambda>n. False, 3)] lone_sample))"
  then obtain j where j: "j \<in> set (discover_all ''room'' (health_rounds [(\<lambda>n. False, 1), (\<lambda>n. False, 2), (\<lambda>n. False, 3)] lone_sample))"
    and name: "''n1'' = nd_node_name (ri_node j)" by (rule imageE)
  have k: "check_keys lone_sample = [count_key ''room'' ((moved_node ''h'')\<lparr>ri_state := StHealthy\<rparr>)]"
    by (simp add: check_keys_def lone_sample_routes flat_def)
  have "nd_node_name (ri_node j) \<noteq> nd_node_name (ri_node ((moved_node ''h'')\<lparr>ri_state := StHealthy\<rparr>))"
    by (rule dead_node_leaves[OF _ _ _ _ _ _ _ j]) (simp_all add: k lone_sample_routes flat_def default_health_check_config_def moved_node_def)
  with name show False by (simp add: moved_node_def)
qed

theorem one_check_undoes_mark_witness:
  "discover_all ''room'' (mark_node_unhealthy ''room'' (ri_node (moved_node ''h''))
     (health_rounds (map answering [1, 2, 3]) (lone_router ((moved_node ''h'')\<lparr>ri_state := StHealthy\<rparr>) default_health_check_config))) = []"
  using one_check_undoes_mark[of "(moved_node ''h'')\<lparr>ri_state := StHealthy\<rparr>" default_health_check_config "[1, 2, 3]" _ 4, OF _ _ _ refl]
  by (simp add: default_health_check_config_def moved_node_def)

end
