(* ===== verification/Circuit_Breaker.thy ===== *)
theory Circuit_Breaker
  imports Prelude
begin

text \<open>
  The circuit breaker of the gateway-to-backend path
  (\<^verbatim>\<open>include/v2/service/circuit_breaker.h\<close>, \<^verbatim>\<open>src/v2/service/circuit_breaker.cpp\<close>).
  The object is the record \<open>circuit_breaker\<close>; every member function is a definition that
  takes the object and, where the code reads \<^verbatim>\<open>steady_clock::now()\<close>, the instant \<open>now\<close>.
  Time is an \<^typ>\<open>int\<close> in clock ticks of the unit of \<open>cb_timeout\<close>; the 32-bit counters are
  naturals incremented by \<open>u32_add\<close>.  The mutex makes each member function atomic, so an
  execution is a sequence of calls.
\<close>

subsection \<open>State and operations\<close>

record cb_options =
  cb_failure_threshold :: nat
  cb_timeout :: int
  cb_half_open_max_requests :: nat

definition default_cb_options :: cb_options where
  "default_cb_options =
     \<lparr>cb_failure_threshold = 3, cb_timeout = 30000, cb_half_open_max_requests = 1\<rparr>"

datatype cb_state = CbClosed | CbOpen | CbHalfOpen

record circuit_breaker =
  cb_opts :: cb_options
  cb_st :: cb_state
  cb_failure_count :: nat
  cb_half_open_requests :: nat
  cb_opened_at :: int

definition new_circuit_breaker :: "cb_options \<Rightarrow> circuit_breaker" where
  "new_circuit_breaker o1 =
     \<lparr>cb_opts = o1, cb_st = CbClosed, cb_failure_count = 0,
      cb_half_open_requests = 0, cb_opened_at = 0\<rparr>"

definition transition_to :: "int \<Rightarrow> cb_state \<Rightarrow> circuit_breaker \<Rightarrow> circuit_breaker" where
  "transition_to now new_state cb =
     (let cb1 = cb\<lparr>cb_st := new_state\<rparr> in
      case new_state of
        CbOpen \<Rightarrow> cb1\<lparr>cb_opened_at := now\<rparr>
      | CbClosed \<Rightarrow> cb1\<lparr>cb_failure_count := 0, cb_half_open_requests := 0\<rparr>
      | CbHalfOpen \<Rightarrow> cb1\<lparr>cb_half_open_requests := 0\<rparr>)"

definition is_timeout_expired :: "int \<Rightarrow> circuit_breaker \<Rightarrow> bool" where
  "is_timeout_expired now cb \<longleftrightarrow> now - cb_opened_at cb \<ge> cb_timeout (cb_opts cb)"

definition on_success :: "int \<Rightarrow> circuit_breaker \<Rightarrow> circuit_breaker" where
  "on_success now cb =
     (case cb_st cb of
        CbClosed \<Rightarrow> cb\<lparr>cb_failure_count := 0\<rparr>
      | CbHalfOpen \<Rightarrow>
          (let cb1 = cb\<lparr>cb_half_open_requests := u32_add (cb_half_open_requests cb) 1\<rparr> in
           if cb_half_open_requests cb1 \<ge> cb_half_open_max_requests (cb_opts cb1)
           then transition_to now CbClosed cb1 else cb1)
      | CbOpen \<Rightarrow> cb)"

definition on_failure :: "int \<Rightarrow> circuit_breaker \<Rightarrow> circuit_breaker" where
  "on_failure now cb =
     (case cb_st cb of
        CbClosed \<Rightarrow>
          (let cb1 = cb\<lparr>cb_failure_count := u32_add (cb_failure_count cb) 1\<rparr> in
           if cb_failure_count cb1 \<ge> cb_failure_threshold (cb_opts cb1)
           then transition_to now CbOpen cb1 else cb1)
      | CbHalfOpen \<Rightarrow> transition_to now CbOpen cb
      | CbOpen \<Rightarrow> cb)"

definition allow_request :: "int \<Rightarrow> circuit_breaker \<Rightarrow> bool \<times> circuit_breaker" where
  "allow_request now cb =
     (if cb_st cb = CbOpen
      then (if is_timeout_expired now cb then (True, transition_to now CbHalfOpen cb)
            else (False, cb))
      else (True, cb))"

definition reset_breaker :: "circuit_breaker \<Rightarrow> circuit_breaker" where
  "reset_breaker cb = cb\<lparr>cb_st := CbClosed, cb_failure_count := 0, cb_half_open_requests := 0\<rparr>"

definition configure_breaker :: "cb_options \<Rightarrow> circuit_breaker \<Rightarrow> circuit_breaker" where
  "configure_breaker o1 cb = reset_breaker (cb\<lparr>cb_opts := o1\<rparr>)"

lemmas breaker_ops [state_simps] =
  transition_to_def is_timeout_expired_def on_success_def on_failure_def allow_request_def
  reset_breaker_def configure_breaker_def Let_def

subsection \<open>Well-formedness\<close>

text \<open>
  With a positive threshold that fits in 32 bits, a closed breaker is strictly below its
  failure threshold and a half-open one strictly below its success quota: the two counters
  never reach a value at which a transition was due, so no increment wraps.
\<close>

definition cb_options_ok :: "cb_options \<Rightarrow> bool" where
  "cb_options_ok o1 \<longleftrightarrow>
     0 < cb_failure_threshold o1 \<and> cb_failure_threshold o1 < 2 ^ 32 \<and>
     0 < cb_half_open_max_requests o1 \<and> cb_half_open_max_requests o1 < 2 ^ 32 \<and>
     0 \<le> cb_timeout o1"

definition cb_inv :: "circuit_breaker \<Rightarrow> bool" where
  "cb_inv cb \<longleftrightarrow> cb_options_ok (cb_opts cb) \<and>
     (cb_st cb = CbClosed \<longrightarrow> cb_failure_count cb < cb_failure_threshold (cb_opts cb)) \<and>
     (cb_st cb = CbHalfOpen \<longrightarrow>
        cb_half_open_requests cb < cb_half_open_max_requests (cb_opts cb))"

lemma new_circuit_breaker_inv [inv_intros]:
  "cb_options_ok o1 \<Longrightarrow> cb_inv (new_circuit_breaker o1)"
  by (simp add: cb_inv_def new_circuit_breaker_def cb_options_ok_def)

lemma on_success_inv [inv_intros]: "cb_inv cb \<Longrightarrow> cb_inv (on_success now cb)"
  by (auto simp: cb_inv_def cb_options_ok_def state_simps split: cb_state.splits)

lemma on_failure_inv [inv_intros]: "cb_inv cb \<Longrightarrow> cb_inv (on_failure now cb)"
  by (auto simp: cb_inv_def cb_options_ok_def state_simps split: cb_state.splits)

lemma allow_request_inv [inv_intros]: "cb_inv cb \<Longrightarrow> cb_inv (snd (allow_request now cb))"
  by (auto simp: cb_inv_def cb_options_ok_def state_simps split: cb_state.splits)

lemma configure_breaker_inv [inv_intros]: "cb_options_ok o1 \<Longrightarrow> cb_inv (configure_breaker o1 cb)"
  by (auto simp: cb_inv_def cb_options_ok_def state_simps)

subsection \<open>The breaker's contract\<close>

text \<open>
  What a client of a breaker relies on: a breaker that is \<open>tripped\<close> until an instant refuses
  every request made before that instant, and none of its operations un-trips it earlier.
  Client lemmas are proved once, for any sequence of timed calls.
\<close>

datatype breaker_call = Allow | Success | Failure

fun timed_call ::
  "(int \<Rightarrow> 's \<Rightarrow> bool \<times> 's) \<Rightarrow> (int \<Rightarrow> 's \<Rightarrow> 's) \<Rightarrow> (int \<Rightarrow> 's \<Rightarrow> 's) \<Rightarrow>
   int \<times> breaker_call \<Rightarrow> 's \<Rightarrow> 's" where
  "timed_call allow success failure (now, Allow) s = snd (allow now s)"
| "timed_call allow success failure (now, Success) s = success now s"
| "timed_call allow success failure (now, Failure) s = failure now s"

locale breaker =
  fixes allow :: "int \<Rightarrow> 's \<Rightarrow> bool \<times> 's"
    and success :: "int \<Rightarrow> 's \<Rightarrow> 's"
    and failure :: "int \<Rightarrow> 's \<Rightarrow> 's"
    and tripped :: "int \<Rightarrow> 's \<Rightarrow> bool"
  assumes allow_refuses: "tripped u s \<Longrightarrow> now < u \<Longrightarrow> \<not> fst (allow now s)"
    and allow_tripped: "tripped u s \<Longrightarrow> now < u \<Longrightarrow> tripped u (snd (allow now s))"
    and success_tripped: "tripped u s \<Longrightarrow> tripped u (success now s)"
    and failure_tripped: "tripped u s \<Longrightarrow> tripped u (failure now s)"
begin

lemma call_tripped:
  "tripped u s \<Longrightarrow> fst c < u \<Longrightarrow> tripped u (timed_call allow success failure c s)"
  by (cases c; cases "snd c") (auto intro: allow_tripped success_tripped failure_tripped)

lemma calls_tripped:
  "tripped u s \<Longrightarrow> \<forall>c\<in>set cs. fst c < u \<Longrightarrow>
   tripped u (fold (timed_call allow success failure) cs s)"
  by (induction cs arbitrary: s) (auto intro: call_tripped)

lemma refuses_until:
  assumes "tripped u s" and "\<forall>c\<in>set cs. fst c < u" and "now < u"
  shows "\<not> fst (allow now (fold (timed_call allow success failure) cs s))"
  by (rule allow_refuses [OF calls_tripped [OF assms(1,2)] assms(3)])

end

definition breaker_tripped :: "int \<Rightarrow> circuit_breaker \<Rightarrow> bool" where
  "breaker_tripped u cb \<longleftrightarrow>
     cb_st cb = CbOpen \<and> u \<le> cb_opened_at cb + cb_timeout (cb_opts cb)"

interpretation cbk: breaker allow_request on_success on_failure breaker_tripped
  by unfold_locales (auto simp: breaker_tripped_def state_simps)

subsection \<open>Sequences of calls\<close>

fun failures :: "int list \<Rightarrow> circuit_breaker \<Rightarrow> circuit_breaker" where
  "failures [] cb = cb"
| "failures (t # ts) cb = failures ts (on_failure t cb)"

fun successes :: "int list \<Rightarrow> circuit_breaker \<Rightarrow> circuit_breaker" where
  "successes [] cb = cb"
| "successes (t # ts) cb = successes ts (on_success t cb)"

lemma failures_open [simp]: "cb_st cb = CbOpen \<Longrightarrow> failures ts cb = cb"
  by (induction ts) (simp_all add: on_failure_def)

lemma failures_closed:
  assumes "cb_inv cb" and "cb_st cb = CbClosed"
    and "cb_failure_count cb + length ts < cb_failure_threshold (cb_opts cb)"
  shows "failures ts cb = cb\<lparr>cb_failure_count := cb_failure_count cb + length ts\<rparr>"
  using assms
proof (induction ts arbitrary: cb)
  case Nil
  then show ?case by simp
next
  case (Cons t ts)
  let ?cb = "cb\<lparr>cb_failure_count := cb_failure_count cb + 1\<rparr>"
  from Cons.prems have step: "on_failure t cb = ?cb"
    by (auto simp: cb_inv_def cb_options_ok_def on_failure_def Let_def)
  moreover from Cons.prems have "cb_inv ?cb"
    by (auto simp: cb_inv_def)
  ultimately show ?case using Cons.IH [of ?cb] Cons.prems by simp
qed

lemma successes_closed [simp]:
  "cb_st cb = CbClosed \<Longrightarrow> cb_st (successes ts cb) = CbClosed"
  by (induction ts arbitrary: cb) (simp_all add: on_success_def)

lemma successes_half_open:
  assumes "cb_inv cb" and "cb_st cb = CbHalfOpen"
  shows "cb_st (successes ts cb) =
    (if cb_half_open_requests cb + length ts \<ge> cb_half_open_max_requests (cb_opts cb)
     then CbClosed else CbHalfOpen)"
  using assms
proof (induction ts arbitrary: cb)
  case Nil
  then show ?case by (simp add: cb_inv_def)
next
  case (Cons t ts)
  let ?cb = "cb\<lparr>cb_half_open_requests := cb_half_open_requests cb + 1\<rparr>"
  have no_wrap: "u32_add (cb_half_open_requests cb) 1 = cb_half_open_requests cb + 1"
    using Cons.prems by (auto simp: cb_inv_def cb_options_ok_def)
  show ?case
  proof (cases "cb_half_open_requests cb + 1 \<ge> cb_half_open_max_requests (cb_opts cb)")
    case True
    with Cons.prems no_wrap have "cb_st (on_success t cb) = CbClosed"
      by (simp add: on_success_def transition_to_def Let_def)
    with True show ?thesis by simp
  next
    case False
    with Cons.prems no_wrap have step: "on_success t cb = ?cb"
      by (simp add: on_success_def Let_def)
    from False Cons.prems have "cb_inv ?cb" by (auto simp: cb_inv_def)
    with Cons.IH [of ?cb] Cons.prems step show ?thesis by simp
  qed
qed

subsection \<open>Properties\<close>

text \<open>C6: Once the breaker has been opened by the failure recorded at instant \<open>t\<close>, every
  request asked for before \<open>t + timeout\<close> is refused, whatever calls the clients of the
  breaker make in between, in any order and at any instants before that deadline.\<close>

theorem open_breaker_refuses_until_timeout:
  assumes "cb_st cb \<noteq> CbOpen" and "cb_st (on_failure t cb) = CbOpen"
    and "\<forall>c\<in>set cs. fst c < t + cb_timeout (cb_opts cb)"
    and "now < t + cb_timeout (cb_opts cb)"
  shows "\<not> fst (allow_request now (fold (timed_call allow_request on_success on_failure) cs (on_failure t cb)))"
proof -
  have "breaker_tripped (t + cb_timeout (cb_opts cb)) (on_failure t cb)"
    using assms(1,2)
    by (auto simp: breaker_tripped_def on_failure_def transition_to_def Let_def
        split: cb_state.splits if_splits)
  then show ?thesis using assms(3,4) by (rule cbk.refuses_until)
qed

theorem open_breaker_refuses_until_timeout_witness:
  "\<not> fst (allow_request 30004
      (fold (timed_call allow_request on_success on_failure) [(6, Success), (7, Allow), (29999, Failure)]
        (on_failure 5 (failures [1, 2] (new_circuit_breaker default_cb_options)))))"
proof -
  let ?cb = "failures [1, 2] (new_circuit_breaker default_cb_options)"
  have "cb_st ?cb \<noteq> CbOpen" and "cb_st (on_failure 5 ?cb) = CbOpen"
    and "cb_timeout (cb_opts ?cb) = 30000"
    by (simp_all add: new_circuit_breaker_def default_cb_options_def on_failure_def
        transition_to_def u32_add_def Let_def)
  then show ?thesis
    by (intro open_breaker_refuses_until_timeout) auto
qed

text \<open>A closed breaker opens exactly when the number of consecutive failures reaches the
  configured threshold: starting from a breaker that has just been built, \<open>n\<close> failures with
  no success in between leave it open if and only if \<open>n\<close> is at least the threshold, and
  after fewer it has counted exactly \<open>n\<close>.\<close>

theorem breaker_opens_exactly_at_threshold:
  assumes "cb_options_ok o1"
  shows "cb_st (failures ts (new_circuit_breaker o1)) =
           (if length ts \<ge> cb_failure_threshold o1 then CbOpen else CbClosed) \<and>
         (length ts < cb_failure_threshold o1 \<longrightarrow>
           cb_failure_count (failures ts (new_circuit_breaker o1)) = length ts)"
proof (cases "length ts \<ge> cb_failure_threshold o1")
  case False
  with failures_closed [OF new_circuit_breaker_inv [OF assms], of ts] show ?thesis
    by (simp add: new_circuit_breaker_def)
next
  case True
  let ?n = "cb_failure_threshold o1 - 1"
  have pos: "0 < cb_failure_threshold o1" using assms by (simp add: cb_options_ok_def)
  obtain us t vs where ts: "ts = us @ t # vs" and us: "length us = ?n"
  proof
    show "ts = take ?n ts @ ts ! ?n # drop (Suc ?n) ts"
      using True pos by (intro id_take_nth_drop) simp
    show "length (take ?n ts) = ?n" using True by simp
  qed
  have app: "failures (us @ xs) cb = failures xs (failures us cb)" for xs cb
    by (induction us arbitrary: cb) simp_all
  have "failures us (new_circuit_breaker o1) =
      (new_circuit_breaker o1)\<lparr>cb_failure_count := ?n\<rparr>"
    using failures_closed [OF new_circuit_breaker_inv [OF assms], of us] us pos
    by (simp add: new_circuit_breaker_def)
  then have "cb_st (failures [t] (failures us (new_circuit_breaker o1))) = CbOpen"
    using assms pos
    by (simp add: new_circuit_breaker_def on_failure_def transition_to_def cb_options_ok_def Let_def)
  with ts True show ?thesis by (simp add: app)
qed

theorem breaker_opens_exactly_at_threshold_witness:
  "cb_st (failures [10, 20, 30] (new_circuit_breaker default_cb_options)) = CbOpen \<and>
   cb_st (failures [10, 20] (new_circuit_breaker default_cb_options)) = CbClosed"
  using breaker_opens_exactly_at_threshold [of default_cb_options "[10, 20, 30]"]
    breaker_opens_exactly_at_threshold [of default_cb_options "[10, 20]"]
  by (simp add: cb_options_ok_def default_cb_options_def)

text \<open>Recovery. When a request is granted by an open breaker, its timeout has expired and
  the breaker is half-open with no probe counted; from there \<open>n\<close> successful probes close it
  exactly when \<open>n\<close> reaches the probe quota, and a single failure reopens it and restarts
  the timeout at the instant of that failure.\<close>

theorem half_open_recovery:
  assumes "cb_inv cb" and "cb_st cb = CbOpen" and "allow_request now cb = (True, cb1)"
  shows "now \<ge> cb_opened_at cb + cb_timeout (cb_opts cb) \<and>
    cb_st (successes ts cb1) =
      (if length ts \<ge> cb_half_open_max_requests (cb_opts cb) then CbClosed else CbHalfOpen) \<and>
    cb_st (on_failure t cb1) = CbOpen \<and> cb_opened_at (on_failure t cb1) = t"
proof -
  from assms have cb1: "cb1 = transition_to now CbHalfOpen cb"
    and exp: "is_timeout_expired now cb"
    by (auto simp: allow_request_def split: if_splits)
  have st1: "cb_st cb1 = CbHalfOpen" and n1: "cb_half_open_requests cb1 = 0"
    and o1: "cb_opts cb1 = cb_opts cb"
    by (simp_all add: cb1 transition_to_def)
  have "cb_inv cb1" using allow_request_inv [OF assms(1), of now] assms(3) by simp
  from successes_half_open [OF this st1, of ts] exp n1 o1 st1 show ?thesis
    by (simp add: is_timeout_expired_def on_failure_def transition_to_def)
qed

theorem half_open_recovery_witness:
  "cb_st (successes [40001] (snd (allow_request 40000
     (failures [10, 20, 30] (new_circuit_breaker default_cb_options))))) = CbClosed"
proof -
  let ?cb = "failures [10, 20, 30] (new_circuit_breaker default_cb_options)"
  have inv: "cb_inv ?cb"
    by (auto intro!: inv_intros simp: cb_options_ok_def default_cb_options_def)
  have st: "cb_st ?cb = CbOpen" and al: "fst (allow_request 40000 ?cb)"
    by (simp_all add: new_circuit_breaker_def default_cb_options_def state_simps u32_add_def)
  have q: "cb_half_open_max_requests (cb_opts ?cb) = 1"
    by (simp add: new_circuit_breaker_def default_cb_options_def state_simps u32_add_def)
  from al have eq: "allow_request 40000 ?cb = (True, snd (allow_request 40000 ?cb))"
    by (metis (full_types) prod.collapse)
  show ?thesis using half_open_recovery [OF inv st eq, of "[40001]" 0] q by simp
qed

end
