(* ===== verification/Service_Registry.thy ===== *)
theory Service_Registry
  imports Prelude
begin

text \<open>
  The in-process registry of backend instances
  (\<^verbatim>\<open>include/v2/service/service_registry.h\<close>, \<^verbatim>\<open>src/v2/service/service_registry.cpp\<close>) and the
  service identifiers it is keyed by.  The registry is its vector of instances; a member
  function that reads the clock takes the instant \<open>now\<close> (an \<^typ>\<open>int\<close> in the unit of the
  time-to-live).  The shared mutex makes every member function atomic.
\<close>

subsection \<open>State and operations\<close>

datatype service_id = SvcGateway | SvcLogin | SvcRoom | SvcBattle | SvcMatchmaking | SvcLeaderboard

record service_instance =
  si_service_id :: service_id
  si_host :: string
  si_port :: nat
  si_healthy :: bool
  si_last_heartbeat :: int
  si_registered_at :: int

type_synonym instance_key = "service_id \<times> string \<times> nat"

definition si_key :: "service_instance \<Rightarrow> instance_key" where
  "si_key i = (si_service_id i, si_host i, si_port i)"

record service_registry =
  reg_default_ttl :: int
  reg_instances :: "service_instance list"

definition new_service_registry :: "int \<Rightarrow> service_registry" where
  "new_service_registry ttl = \<lparr>reg_default_ttl = ttl, reg_instances = []\<rparr>"

definition fresh_instance :: "int \<Rightarrow> instance_key \<Rightarrow> service_instance" where
  "fresh_instance now k =
     (case k of (sid, host, port) \<Rightarrow>
       \<lparr>si_service_id = sid, si_host = host, si_port = port, si_healthy = True,
        si_last_heartbeat = now, si_registered_at = now\<rparr>)"

definition refresh_instance :: "int \<Rightarrow> service_instance \<Rightarrow> service_instance" where
  "refresh_instance now i = i\<lparr>si_last_heartbeat := now, si_healthy := True\<rparr>"

definition register_instance :: "int \<Rightarrow> instance_key \<Rightarrow> service_registry \<Rightarrow> service_registry" where
  "register_instance now k r =
     (if find (\<lambda>i. si_key i = k) (reg_instances r) \<noteq> None
      then r\<lparr>reg_instances :=
              update_first (\<lambda>i. si_key i = k) (refresh_instance now) (reg_instances r)\<rparr>
      else r\<lparr>reg_instances := reg_instances r @ [fresh_instance now k]\<rparr>)"

definition heartbeat :: "int \<Rightarrow> instance_key \<Rightarrow> service_registry \<Rightarrow> service_registry" where
  "heartbeat now k r =
     (if find (\<lambda>i. si_key i = k) (reg_instances r) = None
      then r\<lparr>reg_instances := reg_instances r @ [fresh_instance now k]\<rparr>
      else r\<lparr>reg_instances :=
              update_first (\<lambda>i. si_key i = k) (refresh_instance now) (reg_instances r)\<rparr>)"

definition mark_unhealthy :: "instance_key \<Rightarrow> service_registry \<Rightarrow> service_registry" where
  "mark_unhealthy k r =
     r\<lparr>reg_instances :=
        update_first (\<lambda>i. si_key i = k) (\<lambda>i. i\<lparr>si_healthy := False\<rparr>) (reg_instances r)\<rparr>"

definition healthy_instances :: "service_id \<Rightarrow> service_registry \<Rightarrow> service_instance list" where
  "healthy_instances sid r =
     filter (\<lambda>i. si_service_id i = sid \<and> si_healthy i) (reg_instances r)"

definition unhealthy_instances :: "service_id \<Rightarrow> service_registry \<Rightarrow> service_instance list" where
  "unhealthy_instances sid r =
     filter (\<lambda>i. si_service_id i = sid \<and> \<not> si_healthy i) (reg_instances r)"

definition expired :: "int \<Rightarrow> service_registry \<Rightarrow> service_instance \<Rightarrow> bool" where
  "expired now r i \<longleftrightarrow> now - si_last_heartbeat i > reg_default_ttl r"

definition purge_expired :: "int \<Rightarrow> service_registry \<Rightarrow> nat \<times> service_registry" where
  "purge_expired now r =
     (let kept = filter (\<lambda>i. \<not> expired now r i) (reg_instances r) in
      (length (reg_instances r) - length kept, r\<lparr>reg_instances := kept\<rparr>))"

definition instance_count :: "service_registry \<Rightarrow> nat" where
  "instance_count r = length (reg_instances r)"

subsection \<open>Invariant: one entry per (service, host, port)\<close>

definition reg_inv :: "service_registry \<Rightarrow> bool" where
  "reg_inv r \<longleftrightarrow> distinct (map si_key (reg_instances r))"

lemma si_key_updates [simp]:
  "si_key (refresh_instance now i) = si_key i"
  "si_key (i\<lparr>si_healthy := b\<rparr>) = si_key i"
  "si_key (fresh_instance now k) = k"
  by (auto simp: si_key_def refresh_instance_def fresh_instance_def split: prod.splits)

lemma new_service_registry_inv [inv_intros]: "reg_inv (new_service_registry ttl)"
  by (simp add: reg_inv_def new_service_registry_def)

lemma heartbeat_inv [inv_intros]: "reg_inv r \<Longrightarrow> reg_inv (heartbeat now k r)"
  by (auto simp: reg_inv_def heartbeat_def find_key_None)

lemma register_eq_heartbeat: "register_instance now k r = heartbeat now k r"
  by (simp add: register_instance_def heartbeat_def)

lemma register_instance_inv [inv_intros]: "reg_inv r \<Longrightarrow> reg_inv (register_instance now k r)"
  by (simp add: register_eq_heartbeat heartbeat_inv)

lemma mark_unhealthy_inv [inv_intros]: "reg_inv r \<Longrightarrow> reg_inv (mark_unhealthy k r)"
  by (simp add: reg_inv_def mark_unhealthy_def)

lemma purge_expired_inv [inv_intros]: "reg_inv r \<Longrightarrow> reg_inv (snd (purge_expired now r))"
  by (auto simp: reg_inv_def purge_expired_def Let_def)

subsection \<open>The registry as a map from instance keys\<close>

text \<open>
  The abstract view of the registry: what it knows of a backend address.  It is well defined
  because of the invariant, and every operation is one update of it.
\<close>

definition reg_lookup :: "service_registry \<Rightarrow> instance_key \<Rightarrow> service_instance option" where
  "reg_lookup r k = find (\<lambda>i. si_key i = k) (reg_instances r)"

text \<open>
  The interface through which the gateway's bridge uses a registry: a heartbeat makes an
  address known and healthy, a failure report makes a known address unhealthy, and neither
  touches another address.
\<close>

locale health_registry =
  fixes beat :: "int \<Rightarrow> 'k \<Rightarrow> 'r \<Rightarrow> 'r"
    and fail :: "'k \<Rightarrow> 'r \<Rightarrow> 'r"
    and status :: "'r \<Rightarrow> 'k \<Rightarrow> bool option"
    and inv :: "'r \<Rightarrow> bool"
  assumes beat_inv: "inv r \<Longrightarrow> inv (beat now k r)"
    and fail_inv: "inv r \<Longrightarrow> inv (fail k r)"
    and status_beat: "inv r \<Longrightarrow> status (beat now k r) = (status r)(k \<mapsto> True)"
    and status_fail: "inv r \<Longrightarrow>
      status (fail k r) = (if status r k = None then status r else (status r)(k \<mapsto> False))"
begin

lemma fail_after_beat: "inv r \<Longrightarrow> status (fail k (beat now k r)) k = Some False"
  by (simp add: status_fail status_beat beat_inv)

lemma other_key_unchanged:
  "inv r \<Longrightarrow> k \<noteq> k' \<Longrightarrow> status (fail k (beat now k r)) k' = status r k'"
  by (simp add: status_fail status_beat beat_inv)

end

definition reg_status :: "service_registry \<Rightarrow> instance_key \<Rightarrow> bool option" where
  "reg_status r k = map_option si_healthy (reg_lookup r k)"

lemma reg_lookup_heartbeat:
  "reg_lookup (heartbeat now k r) k' =
     (if k' = k then (case reg_lookup r k of
          None \<Rightarrow> Some (fresh_instance now k)
        | Some i \<Rightarrow> Some (refresh_instance now i))
      else reg_lookup r k')"
  by (auto simp: reg_lookup_def heartbeat_def find_append find_update_first
      split: option.splits)

lemma reg_lookup_mark_unhealthy:
  "reg_lookup (mark_unhealthy k r) k' =
     (if k' = k then map_option (\<lambda>i. i\<lparr>si_healthy := False\<rparr>) (reg_lookup r k)
      else reg_lookup r k')"
  by (auto simp: reg_lookup_def mark_unhealthy_def find_update_first)

interpretation reg: health_registry heartbeat mark_unhealthy reg_status reg_inv
proof unfold_locales
  show "reg_status (heartbeat now k r) = (reg_status r)(k \<mapsto> True)" for now k r
    by (auto simp: fun_eq_iff reg_status_def reg_lookup_heartbeat fresh_instance_def
        refresh_instance_def split: option.splits prod.splits)
  show "reg_status (mark_unhealthy k r) =
      (if reg_status r k = None then reg_status r else (reg_status r)(k \<mapsto> False))" for k r
    by (auto simp: fun_eq_iff reg_status_def reg_lookup_mark_unhealthy)
qed (auto intro: inv_intros)

lemma healthy_iff_status:
  assumes "reg_inv r"
  shows "(\<exists>i\<in>set (healthy_instances sid r). si_key i = (sid, h, p)) \<longleftrightarrow>
    reg_status r (sid, h, p) = Some True"
proof
  assume "\<exists>i\<in>set (healthy_instances sid r). si_key i = (sid, h, p)"
  then obtain i where i: "i \<in> set (reg_instances r)" "si_healthy i" "si_key i = (sid, h, p)"
    by (auto simp: healthy_instances_def)
  have "find (\<lambda>j. si_key j = si_key i) (reg_instances r) = Some i"
    using assms i(1) by (intro find_key_eq) (simp_all add: reg_inv_def)
  with i show "reg_status r (sid, h, p) = Some True"
    by (simp add: reg_status_def reg_lookup_def)
next
  assume "reg_status r (sid, h, p) = Some True"
  then obtain i where "find (\<lambda>j. si_key j = (sid, h, p)) (reg_instances r) = Some i" "si_healthy i"
    by (auto simp: reg_status_def reg_lookup_def)
  then show "\<exists>i\<in>set (healthy_instances sid r). si_key i = (sid, h, p)"
    by (auto simp: healthy_instances_def si_key_def dest!: find_Some_set)
qed

subsection \<open>Refinement of the registry to a health map\<close>

text \<open>
  The abstract registry is a finite map from addresses to a health flag and the instant of
  the last heartbeat.  \<open>reg_spec_step\<close> says what each operation does to that map; the vector
  implementation computes the same map after every sequence of operations.
\<close>

datatype reg_op = RegRegister int instance_key | RegHeartbeat int instance_key
  | RegMarkUnhealthy instance_key | RegPurge int

type_synonym health_map = "instance_key \<rightharpoonup> bool \<times> int"

fun reg_step :: "reg_op \<Rightarrow> service_registry \<Rightarrow> service_registry" where
  "reg_step (RegRegister now k) r = register_instance now k r"
| "reg_step (RegHeartbeat now k) r = heartbeat now k r"
| "reg_step (RegMarkUnhealthy k) r = mark_unhealthy k r"
| "reg_step (RegPurge now) r = snd (purge_expired now r)"

fun reg_spec_step :: "int \<Rightarrow> reg_op \<Rightarrow> health_map \<Rightarrow> health_map" where
  "reg_spec_step ttl (RegRegister now k) m = m(k \<mapsto> (True, now))"
| "reg_spec_step ttl (RegHeartbeat now k) m = m(k \<mapsto> (True, now))"
| "reg_spec_step ttl (RegMarkUnhealthy k) m = m(k := map_option (\<lambda>(_, t). (False, t)) (m k))"
| "reg_spec_step ttl (RegPurge now) m =
     (\<lambda>k. case m k of None \<Rightarrow> None | Some (h, t) \<Rightarrow> if now - t > ttl then None else Some (h, t))"

definition reg_abs :: "service_registry \<Rightarrow> health_map" where
  "reg_abs r k = map_option (\<lambda>i. (si_healthy i, si_last_heartbeat i)) (reg_lookup r k)"

lemma reg_step_inv: "reg_inv r \<Longrightarrow> reg_inv (reg_step op r)"
  by (cases op) (auto intro: inv_intros)

lemma reg_step_ttl [simp]: "reg_default_ttl (reg_step op r) = reg_default_ttl r"
  by (cases op) (auto simp: register_instance_def heartbeat_def mark_unhealthy_def
      purge_expired_def Let_def)

lemma reg_abs_heartbeat: "reg_abs (heartbeat now k r) = (reg_abs r)(k \<mapsto> (True, now))"
  by (auto simp: fun_eq_iff reg_abs_def reg_lookup_heartbeat fresh_instance_def
      refresh_instance_def split: option.splits prod.splits)

lemma reg_abs_mark_unhealthy:
  "reg_abs (mark_unhealthy k r) =
     (reg_abs r)(k := map_option (\<lambda>(_, t). (False, t)) (reg_abs r k))"
  by (auto simp: fun_eq_iff reg_abs_def reg_lookup_mark_unhealthy option.map_comp comp_def)

lemma reg_abs_purge:
  assumes "reg_inv r"
  shows "reg_abs (snd (purge_expired now r)) = reg_spec_step (reg_default_ttl r) (RegPurge now) (reg_abs r)"
  using assms
  by (auto simp: fun_eq_iff reg_abs_def reg_lookup_def purge_expired_def Let_def reg_inv_def
      find_key_filter expired_def split: option.splits)

lemma reg_step_refines:
  "reg_inv r \<Longrightarrow> reg_abs (reg_step op r) = reg_spec_step (reg_default_ttl r) op (reg_abs r)"
  by (cases op) (simp_all add: reg_abs_heartbeat reg_abs_mark_unhealthy reg_abs_purge
      register_eq_heartbeat del: reg_spec_step.simps(4))

lemma reg_run_refines:
  "reg_inv r \<Longrightarrow> reg_abs (fold reg_step ops r) = fold (reg_spec_step (reg_default_ttl r)) ops (reg_abs r)"
  by (induction ops arbitrary: r) (simp_all add: reg_step_refines reg_step_inv)

lemma reg_run_inv: "reg_inv r \<Longrightarrow> reg_inv (fold reg_step ops r)"
  by (induction ops arbitrary: r) (simp_all add: reg_step_inv)

lemma reg_abs_new: "reg_abs (new_service_registry ttl) = Map.empty"
  by (simp add: fun_eq_iff reg_abs_def reg_lookup_def new_service_registry_def)

lemma reg_status_abs: "reg_status r k = map_option fst (reg_abs r k)"
  by (simp add: reg_status_def reg_abs_def option.map_comp comp_def)

text \<open>C7: The service registry refines the abstract health map: starting from an empty
  registry, after any sequence of registrations, heartbeats, failure reports and purges an
  address is listed among the healthy instances of its service exactly when the abstract map
  holds it as healthy, and it is listed at most once.\<close>

theorem registry_refines_health_map:
  "(\<exists>i\<in>set (healthy_instances sid (fold reg_step ops (new_service_registry ttl))).
      si_key i = (sid, h, p)) =
     (\<exists>t. fold (reg_spec_step ttl) ops Map.empty (sid, h, p) = Some (True, t)) \<and>
   distinct (map si_key (reg_instances (fold reg_step ops (new_service_registry ttl))))"
proof -
  let ?r = "fold reg_step ops (new_service_registry ttl)"
  have inv: "reg_inv ?r" by (intro reg_run_inv inv_intros)
  have "reg_abs ?r = fold (reg_spec_step ttl) ops Map.empty"
    using reg_run_refines [OF new_service_registry_inv, of ops ttl]
    by (simp add: reg_abs_new) (simp add: new_service_registry_def)
  then show ?thesis
    using healthy_iff_status [OF inv, of sid h p] inv
    by (auto simp: reg_status_abs reg_inv_def)
qed

text \<open>A purge drops exactly the instances whose heartbeat is older than the time-to-live and
  reports how many it dropped.\<close>

lemma purge_expired_spec:
  "purge_expired now r = (n, r') \<Longrightarrow>
     n = length (filter (expired now r) (reg_instances r)) \<and>
     (\<forall>i\<in>set (reg_instances r'). now - si_last_heartbeat i \<le> reg_default_ttl r)"
  using sum_length_filter_compl [of "expired now r" "reg_instances r"]
  by (auto simp: purge_expired_def Let_def expired_def)

end
