(* ===== verification/Service_Bridge.thy ===== *)
theory Service_Bridge
  imports Circuit_Breaker Service_Registry
begin

text \<open>
  Request routing from the gateway to its backends: the error codes of
  \<^verbatim>\<open>include/v2/service/error_codes.h\<close>, the counters of \<^verbatim>\<open>include/v2/gateway/backend_metrics.h\<close>
  and the connection pools, connection set-up and routing of
  \<^verbatim>\<open>src/v2/gateway/gateway_service_bridge.cpp\<close>.

  A connection object is named by a natural number and \<open>br_connected\<close> says which are open.
  What the network and the address resolution answer during one call
  (\<^verbatim>\<open>resolve_backend\<close>, \<^verbatim>\<open>BackendConnection::connect\<close>, \<^verbatim>\<open>send_request\<close>) is an argument of the
  call, the records \<open>ensure_env\<close> and \<open>route_env\<close>, so every outcome is covered.  Tracing spans
  and log output carry no state that routing reads and are left out.
\<close>

subsection \<open>Error codes\<close>

text \<open>
  \<^verbatim>\<open>ServiceErrorCode\<close> has a fixed underlying type and \<^verbatim>\<open>route\<close> casts an arbitrary 32-bit code of
  a response into it, so a code is an integer and the enumerators are named values.
\<close>

definition err_ok :: int where "err_ok = 0"
definition err_timeout :: int where "err_timeout = - 1001"
definition err_unavailable :: int where "err_unavailable = - 1002"
definition err_rejected :: int where "err_rejected = - 1003"
definition err_invalid_request :: int where "err_invalid_request = - 1004"
definition err_internal_error :: int where "err_internal_error = - 1005"
definition err_not_implemented :: int where "err_not_implemented = - 1006"
definition err_circuit_open :: int where "err_circuit_open = - 1007"

lemmas err_codes = err_ok_def err_timeout_def err_unavailable_def err_rejected_def
  err_invalid_request_def err_internal_error_def err_not_implemented_def err_circuit_open_def

definition client_error_table :: "(int \<times> int) list" where
  "client_error_table =
     [(err_ok, 0), (err_timeout, - 2001), (err_unavailable, - 2002), (err_rejected, - 2003),
      (err_invalid_request, - 2004), (err_internal_error, - 2005), (err_not_implemented, - 2006),
      (err_circuit_open, - 2007),
      (- 1100, - 2100), (- 1101, - 2101), (- 1102, - 2102), (- 1103, - 2103), (- 1104, - 2104),
      (- 1200, - 2200), (- 1201, - 2201), (- 1202, - 2202), (- 1203, - 2203), (- 1204, - 2204),
      (- 1205, - 2205)]"

definition to_client_error :: "int \<Rightarrow> int" where
  "to_client_error code =
     (case map_of client_error_table code of Some c \<Rightarrow> c | None \<Rightarrow> - 2005)"

subsection \<open>Backend metrics\<close>

definition latency_bounds :: "nat list" where
  "latency_bounds =
     [1000, 2000, 5000, 10000, 20000, 50000, 100000, 200000, 500000, 1000000, 2000000,
      5000000, 10000000, 30000000, u64_max]"

record metrics_snapshot =
  ms_requests :: u64
  ms_successes :: u64
  ms_timeouts :: u64
  ms_unavailable :: u64
  ms_errors :: u64
  ms_degraded :: u64
  ms_latency_us :: u64
  ms_samples :: u64
  ms_buckets :: "u64 list"

definition empty_metrics :: metrics_snapshot where
  "empty_metrics =
     \<lparr>ms_requests = 0, ms_successes = 0, ms_timeouts = 0, ms_unavailable = 0, ms_errors = 0,
      ms_degraded = 0, ms_latency_us = 0, ms_samples = 0,
      ms_buckets = replicate (length latency_bounds) 0\<rparr>"

type_synonym backend_metrics = "service_id \<rightharpoonup> metrics_snapshot"

definition metrics_of :: "backend_metrics \<Rightarrow> service_id \<Rightarrow> metrics_snapshot" where
  "metrics_of m sid = (case m sid of Some c \<Rightarrow> c | None \<Rightarrow> empty_metrics)"

definition bump_metrics ::
  "(metrics_snapshot \<Rightarrow> metrics_snapshot) \<Rightarrow> service_id \<Rightarrow> backend_metrics \<Rightarrow> backend_metrics" where
  "bump_metrics f sid m = m(sid \<mapsto> f (metrics_of m sid))"

definition record_request :: "service_id \<Rightarrow> backend_metrics \<Rightarrow> backend_metrics" where
  "record_request = bump_metrics (\<lambda>c. c\<lparr>ms_requests := ms_requests c + 1\<rparr>)"

definition record_success :: "service_id \<Rightarrow> backend_metrics \<Rightarrow> backend_metrics" where
  "record_success = bump_metrics (\<lambda>c. c\<lparr>ms_successes := ms_successes c + 1\<rparr>)"

definition record_timeout :: "service_id \<Rightarrow> backend_metrics \<Rightarrow> backend_metrics" where
  "record_timeout = bump_metrics (\<lambda>c. c\<lparr>ms_timeouts := ms_timeouts c + 1\<rparr>)"

definition record_unavailable :: "service_id \<Rightarrow> backend_metrics \<Rightarrow> backend_metrics" where
  "record_unavailable = bump_metrics (\<lambda>c. c\<lparr>ms_unavailable := ms_unavailable c + 1\<rparr>)"

definition record_error :: "service_id \<Rightarrow> backend_metrics \<Rightarrow> backend_metrics" where
  "record_error = bump_metrics (\<lambda>c. c\<lparr>ms_errors := ms_errors c + 1\<rparr>)"

definition record_degraded :: "service_id \<Rightarrow> backend_metrics \<Rightarrow> backend_metrics" where
  "record_degraded = bump_metrics (\<lambda>c. c\<lparr>ms_degraded := ms_degraded c + 1\<rparr>)"

text \<open>The loop over the bucket bounds increments the first bucket whose bound is not exceeded.\<close>

fun bump_bucket :: "nat \<Rightarrow> nat list \<Rightarrow> u64 list \<Rightarrow> u64 list" where
  "bump_bucket lat (b # bs) (c # cs) = (if lat \<le> b then (c + 1) # cs else c # bump_bucket lat bs cs)"
| "bump_bucket lat _ cs = cs"

definition record_latency :: "nat \<Rightarrow> service_id \<Rightarrow> backend_metrics \<Rightarrow> backend_metrics" where
  "record_latency lat = bump_metrics (\<lambda>c. c\<lparr>ms_latency_us := ms_latency_us c + of_nat lat,
      ms_samples := ms_samples c + 1,
      ms_buckets := bump_bucket lat latency_bounds (ms_buckets c)\<rparr>)"

lemmas metrics_ops = record_request_def record_success_def record_timeout_def
  record_unavailable_def record_error_def record_degraded_def record_latency_def

subsection \<open>Connection pools\<close>

record backend_slot =
  sl_pool :: "nat list"
  sl_next :: nat
  sl_cluster_pools :: "string \<Rightarrow> nat list"
  sl_cluster_next :: "string \<Rightarrow> nat"
  sl_breaker :: circuit_breaker

record backend_envelope =
  be_kind_error :: bool
  be_error_code :: int
  be_payload :: string
  be_correlation_id :: nat

record routing_result =
  rr_success :: bool
  rr_payload :: string
  rr_error :: int
  rr_correlation_id :: nat

record resolved_backend =
  rb_host :: string
  rb_port :: nat
  rb_connection_key :: string
  rb_node :: "string option"
  rb_from_cluster :: bool

record gateway_bridge =
  br_slots :: "service_id \<Rightarrow> backend_slot"
  br_connected :: "nat \<Rightarrow> bool"
  br_metrics :: "backend_metrics option"
  br_registry :: "service_registry option"
  br_router_marks :: "(service_id \<times> string) list"

definition new_gateway_bridge :: "backend_metrics option \<Rightarrow> service_registry option \<Rightarrow> gateway_bridge" where
  "new_gateway_bridge metrics registry =
     \<lparr>br_slots = (\<lambda>_. \<lparr>sl_pool = [], sl_next = 0, sl_cluster_pools = (\<lambda>_. []),
        sl_cluster_next = (\<lambda>_. 0), sl_breaker = new_circuit_breaker default_cb_options\<rparr>),
      br_connected = (\<lambda>_. False), br_metrics = metrics, br_registry = registry,
      br_router_marks = []\<rparr>"

text \<open>\<^verbatim>\<open>slot_for\<close>: five slots, and the login slot for any other service.\<close>

definition slot_for :: "service_id \<Rightarrow> service_id" where
  "slot_for sid = (if sid = SvcGateway then SvcLogin else sid)"

definition slot_of :: "gateway_bridge \<Rightarrow> service_id \<Rightarrow> backend_slot" where
  "slot_of br sid = br_slots br (slot_for sid)"

definition set_slot :: "service_id \<Rightarrow> backend_slot \<Rightarrow> gateway_bridge \<Rightarrow> gateway_bridge" where
  "set_slot sid sl br = br\<lparr>br_slots := (br_slots br)(slot_for sid := sl)\<rparr>"

definition backend_connection_pool_size :: "nat option \<Rightarrow> nat" where
  "backend_connection_pool_size raw =
     (case raw of None \<Rightarrow> 1 | Some parsed \<Rightarrow> if parsed > 0 then parsed else 1)"

text \<open>
  The round-robin search of \<^verbatim>\<open>ensure_connection\<close>: probe every pool position once, starting at
  \<open>nxt\<close>; the first open connection is returned and \<open>nxt\<close> moves behind it.
\<close>

definition pool_pick :: "(nat \<Rightarrow> bool) \<Rightarrow> nat list \<Rightarrow> nat \<Rightarrow> (nat \<times> nat) option" where
  "pool_pick connected pool nxt =
     (case find (\<lambda>attempt. connected (pool ! ((nxt + attempt) mod length pool))) [0..<length pool] of
        None \<Rightarrow> None
      | Some attempt \<Rightarrow>
          (let index = (nxt + attempt) mod length pool
           in Some (pool ! index, (index + 1) mod length pool)))"

text \<open>Storing a new connection: append below the limit, otherwise close and replace an entry.\<close>

definition pool_store :: "nat \<Rightarrow> nat \<Rightarrow> nat list \<times> nat \<Rightarrow> (nat list \<times> nat) \<times> nat option" where
  "pool_store limit c pn =
     (case pn of (pool, nxt) \<Rightarrow>
       if length pool < limit
       then ((pool @ [c], nxt mod (length pool + 1)), None)
       else ((pool[nxt mod length pool := c], (nxt + 1) mod length pool),
             Some (pool ! (nxt mod length pool))))"

record ensure_env =
  ee_resolved :: "resolved_backend option"
  ee_connect :: "nat option"
  ee_now :: int

definition slot_pool :: "resolved_backend \<Rightarrow> backend_slot \<Rightarrow> nat list \<times> nat" where
  "slot_pool t sl =
     (if rb_from_cluster t
      then (sl_cluster_pools sl (rb_connection_key t), sl_cluster_next sl (rb_connection_key t))
      else (sl_pool sl, sl_next sl))"

definition set_slot_pool :: "resolved_backend \<Rightarrow> nat list \<times> nat \<Rightarrow> backend_slot \<Rightarrow> backend_slot" where
  "set_slot_pool t pn sl =
     (if rb_from_cluster t
      then sl\<lparr>sl_cluster_pools := (sl_cluster_pools sl)(rb_connection_key t := fst pn),
              sl_cluster_next := (sl_cluster_next sl)(rb_connection_key t := snd pn)\<rparr>
      else sl\<lparr>sl_pool := fst pn, sl_next := snd pn\<rparr>)"

definition close_connection :: "nat \<Rightarrow> gateway_bridge \<Rightarrow> gateway_bridge" where
  "close_connection c br = br\<lparr>br_connected := (br_connected br)(c := False)\<rparr>"

definition registry_heartbeat :: "int \<Rightarrow> service_id \<Rightarrow> resolved_backend \<Rightarrow> gateway_bridge \<Rightarrow> gateway_bridge" where
  "registry_heartbeat now sid t br =
     br\<lparr>br_registry := map_option (heartbeat now (sid, rb_host t, rb_port t)) (br_registry br)\<rparr>"

definition connect_failed :: "service_id \<Rightarrow> resolved_backend \<Rightarrow> gateway_bridge \<Rightarrow> gateway_bridge" where
  "connect_failed sid t br =
     (let br1 = (case rb_node t of
            Some n \<Rightarrow> if rb_from_cluster t
              then br\<lparr>br_router_marks := br_router_marks br @ [(sid, n)]\<rparr> else br
          | None \<Rightarrow> br)
      in br1\<lparr>br_registry := map_option (mark_unhealthy (sid, rb_host t, rb_port t)) (br_registry br1)\<rparr>)"

definition store_connection ::
  "nat \<Rightarrow> int \<Rightarrow> service_id \<Rightarrow> resolved_backend \<Rightarrow> nat \<Rightarrow> gateway_bridge \<Rightarrow> gateway_bridge" where
  "store_connection limit now sid t c br =
     (let sl = slot_of br sid;
          (pn, replaced) = pool_store limit c (slot_pool t sl);
          br1 = (case replaced of None \<Rightarrow> br | Some old \<Rightarrow> close_connection old br);
          br2 = set_slot sid (set_slot_pool t pn sl) br1;
          br3 = br2\<lparr>br_connected := (br_connected br2)(c := True)\<rparr>
      in registry_heartbeat now sid t br3)"

definition ensure_connection ::
  "nat \<Rightarrow> service_id \<Rightarrow> ensure_env \<Rightarrow> gateway_bridge \<Rightarrow> nat option \<times> gateway_bridge" where
  "ensure_connection limit sid env br =
     (case ee_resolved env of
        None \<Rightarrow> (None, br)
      | Some t \<Rightarrow>
          (let sl = slot_of br sid; (pool, nxt) = slot_pool t sl in
           case pool_pick (br_connected br) pool nxt of
             Some (c, nxt') \<Rightarrow>
               (Some c, registry_heartbeat (ee_now env) sid t
                          (set_slot sid (set_slot_pool t (pool, nxt') sl) br))
           | None \<Rightarrow>
               (case ee_connect env of
                  None \<Rightarrow> (None, connect_failed sid t br)
                | Some c \<Rightarrow> (Some c, store_connection limit (ee_now env) sid t c br))))"

subsection \<open>Routing\<close>

definition with_metrics ::
  "(backend_metrics \<Rightarrow> backend_metrics) \<Rightarrow> gateway_bridge \<Rightarrow> gateway_bridge" where
  "with_metrics f br = br\<lparr>br_metrics := map_option f (br_metrics br)\<rparr>"

definition record_route_result :: "service_id \<Rightarrow> routing_result \<Rightarrow> gateway_bridge \<Rightarrow> gateway_bridge" where
  "record_route_result sid res =
     with_metrics
       (if rr_success res then record_success sid
        else if rr_error res = err_timeout then record_timeout sid
        else if rr_error res = err_unavailable then record_unavailable sid
        else record_error sid)"

definition on_breaker ::
  "(circuit_breaker \<Rightarrow> circuit_breaker) \<Rightarrow> service_id \<Rightarrow> gateway_bridge \<Rightarrow> gateway_bridge" where
  "on_breaker f sid br =
     set_slot sid ((slot_of br sid)\<lparr>sl_breaker := f (sl_breaker (slot_of br sid))\<rparr>) br"

record route_env =
  re_now :: int
  re_ensure :: ensure_env
  re_response :: "backend_envelope option"
  re_ensure_retry :: ensure_env
  re_response_retry :: "backend_envelope option"
  re_latency_us :: nat
  re_end :: int

definition empty_result :: routing_result where
  "empty_result = \<lparr>rr_success = False, rr_payload = [], rr_error = err_ok, rr_correlation_id = 0\<rparr>"

text \<open>The request with its single retry over a fresh connection.\<close>

definition send_with_retry ::
  "nat \<Rightarrow> service_id \<Rightarrow> nat \<Rightarrow> route_env \<Rightarrow> gateway_bridge \<Rightarrow> backend_envelope option \<times> gateway_bridge" where
  "send_with_retry limit sid c env br =
     (case re_response env of
        Some r \<Rightarrow> (Some r, br)
      | None \<Rightarrow>
          (case ensure_connection limit sid (re_ensure_retry env) (close_connection c br) of
             (None, br1) \<Rightarrow> (None, br1)
           | (Some _, br1) \<Rightarrow> (re_response_retry env, br1)))"

definition finish_route ::
  "service_id \<Rightarrow> route_env \<Rightarrow> backend_envelope option \<Rightarrow> gateway_bridge \<Rightarrow> routing_result \<times> gateway_bridge" where
  "finish_route sid env response br =
     (case response of
        None \<Rightarrow>
          (let res = empty_result\<lparr>rr_error := err_timeout\<rparr>
           in (res, record_route_result sid res (on_breaker (on_failure (re_end env)) sid br)))
      | Some r \<Rightarrow>
          (if be_kind_error r
           then (let res = empty_result\<lparr>rr_correlation_id := be_correlation_id r,
                       rr_error := be_error_code r, rr_payload := be_payload r\<rparr>;
                     br1 = on_breaker (if be_error_code r = err_rejected then on_success (re_end env)
                                       else on_failure (re_end env)) sid br
                 in (res, record_route_result sid res br1))
           else (let res = empty_result\<lparr>rr_correlation_id := be_correlation_id r,
                       rr_success := True, rr_payload := be_payload r\<rparr>;
                     br1 = record_route_result sid res (on_breaker (on_success (re_end env)) sid br)
                 in (res, with_metrics (record_latency (re_latency_us env) sid) br1))))"

definition route ::
  "nat \<Rightarrow> service_id \<Rightarrow> route_env \<Rightarrow> gateway_bridge \<Rightarrow> routing_result \<times> gateway_bridge" where
  "route limit sid env br0 =
     (let br = with_metrics (record_request sid) br0;
          (allowed, cb) = allow_request (re_now env) (sl_breaker (slot_of br sid));
          br1 = on_breaker (\<lambda>_. cb) sid br
      in if \<not> allowed
         then (let res = empty_result\<lparr>rr_error := err_circuit_open\<rparr>
               in (res, with_metrics (record_degraded sid) (record_route_result sid res br1)))
         else (case ensure_connection limit sid (re_ensure env) br1 of
                 (None, br2) \<Rightarrow>
                   (let res = empty_result\<lparr>rr_error := err_unavailable\<rparr>
                    in (res, record_route_result sid res
                               (on_breaker (on_failure (re_end env)) sid br2)))
               | (Some c, br2) \<Rightarrow>
                   (case send_with_retry limit sid c env br2 of
                      (response, br3) \<Rightarrow> finish_route sid env response br3)))"

subsection \<open>Frame lemmas\<close>

lemma slot_of_set_slot:
  "slot_of (set_slot sid sl br) sid' = (if slot_for sid' = slot_for sid then sl else slot_of br sid')"
  by (simp add: slot_of_def set_slot_def)

lemma bridge_metrics_frame [simp]:
  "br_metrics (set_slot sid sl br) = br_metrics br"
  "br_metrics (on_breaker f sid br) = br_metrics br"
  "br_metrics (close_connection c br) = br_metrics br"
  "br_metrics (registry_heartbeat now sid t br) = br_metrics br"
  "br_metrics (connect_failed sid t br) = br_metrics br"
  "br_metrics (with_metrics g br) = map_option g (br_metrics br)"
  by (auto simp: set_slot_def on_breaker_def close_connection_def registry_heartbeat_def
      connect_failed_def with_metrics_def Let_def split: option.splits)

lemma store_connection_metrics [simp]:
  "br_metrics (store_connection limit now sid t c br) = br_metrics br"
  by (auto simp: store_connection_def Let_def split: prod.splits option.splits)

lemma ensure_connection_metrics [simp]:
  "br_metrics (snd (ensure_connection limit sid env br)) = br_metrics br"
  by (auto simp: ensure_connection_def Let_def split: prod.splits option.splits)

lemma send_with_retry_metrics [simp]:
  "br_metrics (snd (send_with_retry limit sid c env br)) = br_metrics br"
  by (simp add: send_with_retry_def case_prod_beta split: option.splits)

lemma slot_frame [simp]:
  "slot_of (close_connection c br) sid = slot_of br sid"
  "slot_of (registry_heartbeat now sid' t br) sid = slot_of br sid"
  "slot_of (connect_failed sid' t br) sid = slot_of br sid"
  "slot_of (with_metrics f br) sid = slot_of br sid"
  by (auto simp: slot_of_def close_connection_def registry_heartbeat_def connect_failed_def
      with_metrics_def Let_def split: option.splits)

lemma store_connection_other_slot:
  "slot_for sid \<noteq> slot_for sid' \<Longrightarrow> slot_of (store_connection limit now sid t c br) sid' = slot_of br sid'"
  by (auto simp: store_connection_def Let_def slot_of_def set_slot_def close_connection_def
      registry_heartbeat_def split: prod.splits option.splits)

lemma ensure_connection_other_slot:
  "slot_for sid \<noteq> slot_for sid' \<Longrightarrow> slot_of (snd (ensure_connection limit sid env br)) sid' = slot_of br sid'"
  by (auto simp: ensure_connection_def Let_def slot_of_set_slot store_connection_other_slot
      split: prod.splits option.splits)

lemma on_breaker_other_slot:
  "slot_for sid \<noteq> slot_for sid' \<Longrightarrow> slot_of (on_breaker f sid br) sid' = slot_of br sid'"
  by (simp add: on_breaker_def slot_of_set_slot)

lemma send_with_retry_other_slot:
  assumes "slot_for sid \<noteq> slot_for sid'"
  shows "slot_of (snd (send_with_retry limit sid c env br)) sid' = slot_of br sid'"
  by (simp add: send_with_retry_def case_prod_beta ensure_connection_other_slot [OF assms]
      split: option.splits)

lemma finish_route_other_slot:
  "slot_for sid \<noteq> slot_for sid' \<Longrightarrow> slot_of (snd (finish_route sid env r br)) sid' = slot_of br sid'"
  by (auto simp: finish_route_def record_route_result_def Let_def on_breaker_other_slot
      split: option.splits)

text \<open>The three ways through \<open>route\<close>, over the state in which the breaker has been asked.\<close>

definition asked_bridge :: "service_id \<Rightarrow> route_env \<Rightarrow> gateway_bridge \<Rightarrow> gateway_bridge" where
  "asked_bridge sid env br =
     on_breaker (\<lambda>_. snd (allow_request (re_now env) (sl_breaker (slot_of br sid)))) sid
       (with_metrics (record_request sid) br)"

lemma route_unfold:
  "route limit sid env br =
     (let br1 = asked_bridge sid env br;
          e = ensure_connection limit sid (re_ensure env) br1
      in if \<not> fst (allow_request (re_now env) (sl_breaker (slot_of br sid)))
         then (empty_result\<lparr>rr_error := err_circuit_open\<rparr>,
               with_metrics (record_degraded sid)
                 (record_route_result sid (empty_result\<lparr>rr_error := err_circuit_open\<rparr>) br1))
         else (case fst e of
             None \<Rightarrow> (empty_result\<lparr>rr_error := err_unavailable\<rparr>,
               record_route_result sid (empty_result\<lparr>rr_error := err_unavailable\<rparr>)
                 (on_breaker (on_failure (re_end env)) sid (snd e)))
           | Some c \<Rightarrow> finish_route sid env (fst (send_with_retry limit sid c env (snd e)))
               (snd (send_with_retry limit sid c env (snd e)))))"
  by (simp add: route_def asked_bridge_def Let_def case_prod_beta split: option.splits)

lemma asked_bridge_frame [simp]:
  "br_metrics (asked_bridge sid env br) = map_option (record_request sid) (br_metrics br)"
  by (simp add: asked_bridge_def)

lemma asked_bridge_other_slot:
  "slot_for sid \<noteq> slot_for sid' \<Longrightarrow> slot_of (asked_bridge sid env br) sid' = slot_of br sid'"
  by (simp add: asked_bridge_def on_breaker_other_slot)

lemma route_other_slot:
  assumes "slot_for sid \<noteq> slot_for sid'"
  shows "slot_of (snd (route limit sid env br)) sid' = slot_of br sid'"
  by (simp add: route_unfold Let_def record_route_result_def asked_bridge_other_slot [OF assms]
      on_breaker_other_slot [OF assms] ensure_connection_other_slot [OF assms]
      send_with_retry_other_slot [OF assms] finish_route_other_slot [OF assms] split: option.splits)

subsection \<open>Fail-fast routing\<close>

text \<open>
  While the breaker of a slot is tripped a request is answered with the circuit-open error and
  nothing but the metrics changes; the law comes from the breaker's contract.
\<close>

lemma route_refused:
  assumes "breaker_tripped u (sl_breaker (slot_of br sid))" and "re_now env < u"
  shows "rr_error (fst (route limit sid env br)) = err_circuit_open \<and>
    \<not> rr_success (fst (route limit sid env br)) \<and>
    br_slots (snd (route limit sid env br)) = br_slots br \<and>
    br_connected (snd (route limit sid env br)) = br_connected br \<and>
    br_registry (snd (route limit sid env br)) = br_registry br"
proof -
  let ?cb = "sl_breaker (slot_of br sid)"
  have no: "\<not> fst (allow_request (re_now env) ?cb)"
    using assms by (rule cbk.allow_refuses)
  then have same: "snd (allow_request (re_now env) ?cb) = ?cb"
    by (auto simp: allow_request_def split: if_splits)
  from no same show ?thesis
    by (auto simp: route_def Let_def record_route_result_def with_metrics_def on_breaker_def
        set_slot_def slot_of_def empty_result_def split: prod.splits)
qed

fun routes :: "nat \<Rightarrow> (service_id \<times> route_env) list \<Rightarrow> gateway_bridge \<Rightarrow> gateway_bridge" where
  "routes limit [] br = br"
| "routes limit ((sid, env) # rs) br = routes limit rs (snd (route limit sid env br))"

lemma routes_tripped:
  assumes "breaker_tripped u (sl_breaker (slot_of br sid))" and "\<forall>r\<in>set rs. re_now (snd r) < u"
  shows "slot_of (routes limit rs br) sid = slot_of br sid"
  using assms
proof (induction limit rs br rule: routes.induct)
  case (1 limit br)
  then show ?case by simp
next
  case (2 limit sid' env rs br)
  let ?br = "snd (route limit sid' env br)"
  have "slot_of ?br sid = slot_of br sid"
  proof (cases "slot_for sid' = slot_for sid")
    case True
    then have "breaker_tripped u (sl_breaker (slot_of br sid'))"
      using 2(2) by (simp add: slot_of_def)
    from route_refused [OF this] 2(3) show ?thesis by (simp add: slot_of_def)
  qed (rule route_other_slot)
  with 2 show ?case by simp
qed

text \<open>Fail-fast isolation. When the breaker of a backend is open until instant \<open>u\<close>, then
  after any interleaving of requests to any backends made before \<open>u\<close>, a request to that
  backend before \<open>u\<close> is answered at once with the circuit-open error; it touches neither the
  connection pools nor the registry, and the requests to other backends have not changed the
  state of this backend's slot.\<close>

theorem route_fails_fast_while_open:
  assumes "breaker_tripped u (sl_breaker (slot_of br sid))"
    and "\<forall>r\<in>set rs. re_now (snd r) < u" and "re_now env < u"
  shows "slot_of (routes limit rs br) sid = slot_of br sid \<and>
    rr_error (fst (route limit sid env (routes limit rs br))) = err_circuit_open \<and>
    br_connected (snd (route limit sid env (routes limit rs br))) = br_connected (routes limit rs br) \<and>
    br_slots (snd (route limit sid env (routes limit rs br))) = br_slots (routes limit rs br) \<and>
    br_registry (snd (route limit sid env (routes limit rs br))) = br_registry (routes limit rs br)"
proof -
  have slot: "slot_of (routes limit rs br) sid = slot_of br sid"
    using assms(1,2) by (rule routes_tripped)
  then have "breaker_tripped u (sl_breaker (slot_of (routes limit rs br) sid))"
    using assms(1) by simp
  from route_refused [OF this assms(3)] slot show ?thesis by simp
qed

definition no_backend_env :: "int \<Rightarrow> route_env" where
  "no_backend_env now =
     \<lparr>re_now = now, re_ensure = \<lparr>ee_resolved = None, ee_connect = None, ee_now = now\<rparr>,
      re_response = None,
      re_ensure_retry = \<lparr>ee_resolved = None, ee_connect = None, ee_now = now\<rparr>,
      re_response_retry = None, re_latency_us = 0, re_end = now\<rparr>"

theorem route_fails_fast_while_open_witness:
  "rr_error (fst (route 1 SvcLogin (no_backend_env 30002)
     (routes 1 [(SvcRoom, no_backend_env 10), (SvcLogin, no_backend_env 20)]
       (on_breaker (failures [1, 2, 3]) SvcLogin (new_gateway_bridge None None))))) = err_circuit_open"
proof -
  let ?br = "on_breaker (failures [1, 2, 3]) SvcLogin (new_gateway_bridge None None)"
  have "breaker_tripped 30003 (sl_breaker (slot_of ?br SvcLogin))"
    by (simp add: new_gateway_bridge_def on_breaker_def slot_of_def set_slot_def
        new_circuit_breaker_def default_cb_options_def breaker_tripped_def state_simps u32_add_def)
  from route_fails_fast_while_open [OF this,
      of "[(SvcRoom, no_backend_env 10), (SvcLogin, no_backend_env 20)]" "no_backend_env 30002"]
  show ?thesis by (simp add: no_backend_env_def)
qed

subsection \<open>Metrics accounting\<close>

definition accounted :: "metrics_snapshot \<Rightarrow> bool" where
  "accounted c \<longleftrightarrow>
     ms_requests c = ms_successes c + ms_timeouts c + ms_unavailable c + ms_errors c \<and>
     ms_samples c = ms_successes c \<and> length (ms_buckets c) = length latency_bounds \<and>
     sum_list (ms_buckets c) = ms_samples c"

definition latency_ok :: "nat \<Rightarrow> bool" where
  "latency_ok lat \<longleftrightarrow> lat \<le> u64_max"

lemma sum_bump_bucket:
  "length bs = length cs \<Longrightarrow> \<exists>b\<in>set bs. lat \<le> b \<Longrightarrow>
   sum_list (bump_bucket lat bs cs) = sum_list cs + 1"
  by (induction lat bs cs rule: bump_bucket.induct) auto

lemma length_bump_bucket [simp]: "length (bump_bucket lat bs cs) = length cs"
  by (induction lat bs cs rule: bump_bucket.induct) auto

lemma latency_bucket_exists: "latency_ok lat \<Longrightarrow> \<exists>b\<in>set latency_bounds. lat \<le> b"
  by (auto simp: latency_bounds_def latency_ok_def)

lemma metrics_of_bump:
  "metrics_of (bump_metrics f sid m) sid' = (if sid' = sid then f (metrics_of m sid) else metrics_of m sid')"
  by (simp add: metrics_of_def bump_metrics_def)

lemma accounted_empty: "accounted empty_metrics"
  by (simp add: accounted_def empty_metrics_def sum_list_replicate)

definition bridge_accounted :: "gateway_bridge \<Rightarrow> bool" where
  "bridge_accounted br \<longleftrightarrow>
     (case br_metrics br of None \<Rightarrow> True | Some m \<Rightarrow> \<forall>sid. accounted (metrics_of m sid))"

text \<open>One recorded request followed by exactly one recorded outcome keeps the books balanced.\<close>

lemma accounted_outcome:
  assumes "\<forall>s. accounted (metrics_of m s)"
  shows "\<forall>s. accounted (metrics_of (record_timeout sid (record_request sid m)) s)"
    and "\<forall>s. accounted (metrics_of (record_unavailable sid (record_request sid m)) s)"
    and "\<forall>s. accounted (metrics_of (record_error sid (record_request sid m)) s)"
    and "\<forall>s. accounted (metrics_of (record_degraded sid (record_error sid (record_request sid m))) s)"
    and "latency_ok lat \<Longrightarrow>
      \<forall>s. accounted (metrics_of (record_latency lat sid (record_success sid (record_request sid m))) s)"
  using assms sum_bump_bucket [OF _ latency_bucket_exists, of "ms_buckets (metrics_of m sid)" lat]
  by (auto simp: metrics_ops metrics_of_bump accounted_def)

lemma finish_route_accounted:
  assumes "br_metrics br = Some (record_request sid m)" and "\<forall>s. accounted (metrics_of m s)"
    and "latency_ok (re_latency_us env)"
  shows "bridge_accounted (snd (finish_route sid env r br))"
  using assms(1) accounted_outcome [OF assms(2)] assms(3)
  by (auto simp: bridge_accounted_def finish_route_def record_route_result_def empty_result_def
      Let_def split: option.splits)

lemma route_accounted:
  assumes "bridge_accounted br" and "latency_ok (re_latency_us env)"
  shows "bridge_accounted (snd (route limit sid env br))"
proof (cases "br_metrics br")
  case None
  then have none: "br_metrics (snd (finish_route sid env r br')) = None" if "br_metrics br' = None" for r br'
    using that by (simp add: finish_route_def record_route_result_def Let_def split: option.splits)
  from None show ?thesis
    by (simp add: bridge_accounted_def route_unfold Let_def record_route_result_def none
        split: option.splits)
next
  case (Some m)
  with assms(1) have acc: "\<forall>s. accounted (metrics_of m s)" by (simp add: bridge_accounted_def)
  from Some have req: "br_metrics (asked_bridge sid env br) = Some (record_request sid m)" by simp
  then have fin: "bridge_accounted (snd (finish_route sid env r
      (snd (send_with_retry limit sid c env (snd (ensure_connection limit sid (re_ensure env)
         (asked_bridge sid env br)))))))" for r c
    by (intro finish_route_accounted [OF _ acc assms(2)]) simp
  have refused: "bridge_accounted (with_metrics (record_degraded sid)
      (record_route_result sid (empty_result\<lparr>rr_error := err_circuit_open\<rparr>) (asked_bridge sid env br)))"
    using Some accounted_outcome(4) [OF acc, of sid]
    by (simp add: bridge_accounted_def record_route_result_def empty_result_def err_codes)
  have down: "bridge_accounted (record_route_result sid (empty_result\<lparr>rr_error := err_unavailable\<rparr>)
      (on_breaker f sid (snd (ensure_connection limit sid e (asked_bridge sid env br)))))" for f e
    using Some accounted_outcome(2) [OF acc, of sid]
    by (simp add: bridge_accounted_def record_route_result_def empty_result_def err_codes)
  from fin refused down show ?thesis
    by (simp add: route_unfold Let_def split: option.splits)
qed

lemma routes_accounted:
  "bridge_accounted br \<Longrightarrow> \<forall>r\<in>set rs. latency_ok (re_latency_us (snd r)) \<Longrightarrow>
   bridge_accounted (routes limit rs br)"
  by (induction limit rs br rule: routes.induct) (auto intro: route_accounted)

text \<open>The backend counters balance. Starting from an empty metrics object, after any
  sequence of routed requests, for every service the number of requests equals the sum of the
  successes, timeouts, unavailable answers and errors recorded (64-bit arithmetic), every
  success has one latency sample, and the latency buckets add up to the number of samples.\<close>

theorem route_metrics_balance:
  assumes "br_metrics br = Some Map.empty"
    and "\<forall>r\<in>set rs. latency_ok (re_latency_us (snd r))"
  shows "\<exists>m. br_metrics (routes limit rs br) = Some m \<and> (\<forall>sid. accounted (metrics_of m sid))"
proof -
  have "bridge_accounted br"
    using assms(1) accounted_empty by (simp add: bridge_accounted_def metrics_of_def)
  then have acc: "bridge_accounted (routes limit rs br)" using assms(2) by (rule routes_accounted)
  have keep: "(br_metrics (snd (route l sid env b)) = None) = (br_metrics b = None)" for l sid env b
    by (simp add: route_unfold finish_route_def record_route_result_def Let_def split: option.splits)
  have "(br_metrics (routes limit rs b) = None) = (br_metrics b = None)" for b
    by (induction limit rs b rule: routes.induct) (simp_all only: routes.simps keep)
  with assms(1) have "br_metrics (routes limit rs br) \<noteq> None" by simp
  with acc show ?thesis by (auto simp: bridge_accounted_def)
qed

theorem route_metrics_balance_witness:
  "\<exists>m. br_metrics (routes 1 [(SvcRoom, no_backend_env 10), (SvcLogin, no_backend_env 20)]
      (new_gateway_bridge (Some Map.empty) None)) = Some m \<and> (\<forall>sid. accounted (metrics_of m sid))"
  by (rule route_metrics_balance)
    (simp_all add: new_gateway_bridge_def no_backend_env_def latency_ok_def)

subsection \<open>Connection pools stay bounded and hand out open connections\<close>

definition pool_ok :: "nat \<Rightarrow> nat list \<times> nat \<Rightarrow> bool" where
  "pool_ok limit pn \<longleftrightarrow> length (fst pn) \<le> limit \<and> (fst pn \<noteq> [] \<longrightarrow> snd pn < length (fst pn)) \<and>
     (fst pn = [] \<longrightarrow> snd pn = 0)"

definition slot_ok :: "nat \<Rightarrow> backend_slot \<Rightarrow> bool" where
  "slot_ok limit sl \<longleftrightarrow> pool_ok limit (sl_pool sl, sl_next sl) \<and>
     (\<forall>k. pool_ok limit (sl_cluster_pools sl k, sl_cluster_next sl k))"

lemma pool_pick_Some:
  assumes "pool_pick connected pool nxt = Some (c, nxt')"
  shows "connected c \<and> c \<in> set pool \<and> nxt' < length pool"
proof -
  from assms obtain a where a: "find (\<lambda>x. connected (pool ! ((nxt + x) mod length pool))) [0..<length pool] = Some a"
    by (auto simp: pool_pick_def split: option.splits)
  from find_Some_set [OF a] have "connected (pool ! ((nxt + a) mod length pool))" and "0 < length pool"
    by auto
  with a assms show ?thesis
    by (auto simp: pool_pick_def Let_def intro!: nth_mem mod_less_divisor)
qed

lemma pool_store_ok:
  assumes "pool_ok limit pn" and "0 < limit"
  shows "pool_ok limit (fst (pool_store limit c pn)) \<and> c \<in> set (fst (fst (pool_store limit c pn)))"
proof (cases pn)
  case (Pair pool nxt)
  show ?thesis
  proof (cases "length pool < limit")
    case False
    with assms Pair have "0 < length pool" by (auto simp: pool_ok_def)
    with assms Pair False show ?thesis
      by (auto simp: pool_ok_def pool_store_def set_update_memI)
  qed (use assms Pair in \<open>simp add: pool_ok_def pool_store_def\<close>)
qed

lemma slot_pool_ok: "slot_ok limit sl \<Longrightarrow> pool_ok limit (slot_pool t sl)"
  by (simp add: slot_ok_def slot_pool_def)

lemma set_slot_pool_ok: "slot_ok limit sl \<Longrightarrow> pool_ok limit pn \<Longrightarrow> slot_ok limit (set_slot_pool t pn sl)"
  by (simp add: slot_ok_def set_slot_pool_def)

lemma slot_pool_set [simp]: "slot_pool t (set_slot_pool t pn sl) = pn"
  by (simp add: slot_pool_def set_slot_pool_def)

text \<open>Whenever \<open>ensure_connection\<close> answers with a connection, that connection is open and
  is a member of the pool of the resolved backend; the pools never grow beyond the configured
  size and the round-robin cursor stays inside the pool, for every answer of the network.\<close>

theorem ensure_connection_sound:
  assumes "0 < limit" and "slot_ok limit (slot_of br sid)"
    and "ensure_connection limit sid env br = (ans, br')"
  shows "slot_ok limit (slot_of br' sid) \<and>
    (case ans of None \<Rightarrow> slot_of br' sid = slot_of br sid
     | Some c \<Rightarrow> br_connected br' c \<and>
         (\<exists>t. ee_resolved env = Some t \<and> c \<in> set (fst (slot_pool t (slot_of br' sid)))))"
proof (cases "ee_resolved env")
  case None
  with assms show ?thesis by (auto simp: ensure_connection_def)
next
  case (Some t)
  let ?sl = "slot_of br sid"
  obtain pool nxt where pn: "slot_pool t ?sl = (pool, nxt)" by fastforce
  have pok: "pool_ok limit (pool, nxt)" using slot_pool_ok [OF assms(2), of t] pn by simp
  show ?thesis
  proof (cases "pool_pick (br_connected br) pool nxt")
    case (Some p)
    obtain c nxt' where p: "p = (c, nxt')" by fastforce
    with Some have pick: "br_connected br c \<and> c \<in> set pool \<and> nxt' < length pool"
      by (auto dest: pool_pick_Some)
    then have "pool_ok limit (pool, nxt')" using pok by (auto simp: pool_ok_def)
    with pick assms Some p pn \<open>ee_resolved env = Some t\<close> show ?thesis
      by (auto simp: ensure_connection_def slot_of_set_slot set_slot_pool_ok
          registry_heartbeat_def slot_of_def set_slot_def)
  next
    case None
    note store = pool_store_ok [OF pok assms(1)]
    show ?thesis
    proof (cases "ee_connect env")
      case None
      with assms pn \<open>ee_resolved env = Some t\<close> \<open>pool_pick (br_connected br) pool nxt = None\<close>
      show ?thesis by (auto simp: ensure_connection_def)
    next
      case (Some c)
      obtain a b old where st: "pool_store limit c (pool, nxt) = ((a, b), old)"
        by (metis prod.collapse)
      with store [of c] have "pool_ok limit (a, b)" and "c \<in> set a" by simp_all
      with assms pn Some st \<open>ee_resolved env = Some t\<close> \<open>pool_pick (br_connected br) pool nxt = None\<close>
      show ?thesis
        by (auto simp: ensure_connection_def store_connection_def Let_def set_slot_pool_ok
            registry_heartbeat_def slot_of_def set_slot_def close_connection_def
            split: prod.splits option.splits)
    qed
  qed
qed

theorem ensure_connection_sound_witness:
  "br_connected (snd (ensure_connection 2 SvcRoom
      \<lparr>ee_resolved = Some \<lparr>rb_host = ''h'', rb_port = 9102, rb_connection_key = ''r1'',
         rb_node = Some ''r1'', rb_from_cluster = True\<rparr>, ee_connect = Some 7, ee_now = 0\<rparr>
      (new_gateway_bridge None None))) 7"
proof -
  let ?env = "\<lparr>ee_resolved = Some \<lparr>rb_host = ''h'', rb_port = 9102, rb_connection_key = ''r1'',
         rb_node = Some ''r1'', rb_from_cluster = True\<rparr>, ee_connect = Some 7, ee_now = 0\<rparr>"
  let ?r = "ensure_connection 2 SvcRoom ?env (new_gateway_bridge None None)"
  have slot: "slot_ok 2 (slot_of (new_gateway_bridge None None) SvcRoom)"
    by (simp add: slot_ok_def pool_ok_def slot_of_def new_gateway_bridge_def)
  have "fst ?r = Some 7"
    by (simp add: ensure_connection_def slot_pool_def slot_of_def new_gateway_bridge_def
        pool_pick_def Let_def)
  then have "?r = (Some 7, snd ?r)" by (metis prod.collapse)
  from ensure_connection_sound [OF _ slot this] show ?thesis by simp
qed

fun pool_picks :: "nat \<Rightarrow> (nat \<Rightarrow> bool) \<Rightarrow> nat list \<Rightarrow> nat \<Rightarrow> nat option list \<times> nat" where
  "pool_picks 0 connected pool nxt = ([], nxt)"
| "pool_picks (Suc k) connected pool nxt =
     (case pool_pick connected pool nxt of
        None \<Rightarrow> (let (cs, n) = pool_picks k connected pool nxt in (None # cs, n))
      | Some (c, nxt') \<Rightarrow> (let (cs, n) = pool_picks k connected pool nxt' in (Some c # cs, n)))"

lemma pool_pick_all_open:
  assumes "\<forall>c\<in>set pool. connected c" and "pool \<noteq> []"
  shows "pool_pick connected pool nxt =
    Some (pool ! (nxt mod length pool), (nxt + 1) mod length pool)"
proof -
  have "connected (pool ! ((nxt + 0) mod length pool))" using assms by simp
  moreover have "[0..<length pool] = 0 # [1..<length pool]"
    using assms(2) by (simp add: upt_conv_Cons)
  ultimately show ?thesis by (simp add: pool_pick_def Let_def mod_Suc_eq)
qed

lemma pool_picks_all_open:
  assumes "\<forall>c\<in>set pool. connected c" and "pool \<noteq> []"
  shows "pool_picks k connected pool (nxt mod length pool) =
    (map (\<lambda>i. Some (pool ! ((nxt + i) mod length pool))) [0..<k], (nxt + k) mod length pool)"
proof (induction k arbitrary: nxt)
  case (Suc k)
  have "map (\<lambda>i. Some (pool ! ((nxt + i) mod length pool))) [0..<Suc k] =
      Some (pool ! (nxt mod length pool)) #
        map (\<lambda>i. Some (pool ! ((Suc nxt + i) mod length pool))) [0..<k]"
    by (simp add: upt_conv_Cons map_Suc_upt [symmetric] comp_def del: upt_Suc)
  with Suc.IH [of "Suc nxt"] show ?case
    by (simp add: pool_pick_all_open [OF assms] mod_Suc_eq del: upt_Suc)
qed simp

text \<open>Round-robin fairness. When every connection of a pool is open, as many consecutive
  requests as the pool has members use every member exactly once, in pool order starting at
  the cursor, and leave the cursor where it was.\<close>

theorem pool_round_robin:
  assumes "\<forall>c\<in>set pool. connected c" and "pool \<noteq> []" and "nxt < length pool"
  shows "pool_picks (length pool) connected pool nxt = (map Some (rotate nxt pool), nxt)"
proof -
  have "rotate nxt pool = map (\<lambda>i. pool ! ((nxt + i) mod length pool)) [0..<length pool]"
    by (rule nth_equalityI) (simp_all add: nth_rotate add.commute)
  then show ?thesis
    using pool_picks_all_open [OF assms(1,2), of "length pool" nxt] assms(3)
    by (simp add: comp_def)
qed

theorem pool_round_robin_witness:
  "pool_picks 3 (\<lambda>c. c > 4) [5, 6, 7] 1 = ([Some 6, Some 7, Some 5], 1)"
  using pool_round_robin [of "[5, 6, 7]" "\<lambda>c. c > 4" 1]
  by (simp add: numeral_3_eq_3 rotate_def del: pool_picks.simps)

end
