(* ===== verification/Json_Document.thy ===== *)
theory Json_Document
  imports Prelude "HOL-Library.AList"
begin

text \<open>
  JSON documents as the services read them (\<^verbatim>\<open>nlohmann::json\<close>): the values, the typed reads with the
  exception for a value of another type, and the reads with a default.  Numbers are integers; text is
  parsed and printed by parameters of the definitions that need it.
\<close>

subsection \<open>Values\<close>

datatype json = JNull | JBool bool | JInt int | JString string | JArray "json list" | JObject "(string \<times> json) list"

text \<open>The exception a typed read throws, with the value that was read.\<close>

datatype json_error = TypeError json

type_synonym 'a read = "json_error + 'a"

definition is_object :: "json \<Rightarrow> bool" where
  "is_object doc = (case doc of JObject _ \<Rightarrow> True | _ \<Rightarrow> False)"

definition json_find :: "json \<Rightarrow> string \<Rightarrow> json option" where
  "json_find doc key = (case doc of JObject kvs \<Rightarrow> map_of kvs key | _ \<Rightarrow> None)"

definition json_has :: "json \<Rightarrow> string \<Rightarrow> bool" where
  "json_has doc key \<longleftrightarrow> json_find doc key \<noteq> None"

text \<open>Assignment to a key; a null value becomes an object.\<close>

fun json_put :: "string \<Rightarrow> json \<Rightarrow> json \<Rightarrow> json" where
  "json_put key v (JObject kvs) = JObject (AList.update key v kvs)"
| "json_put key v JNull = JObject [(key, v)]"
| "json_put key v doc = doc"

subsection \<open>Typed reads\<close>

definition get_string :: "json \<Rightarrow> string read" where
  "get_string v = (case v of JString s \<Rightarrow> Inr s | _ \<Rightarrow> Inl (TypeError v))"

definition get_bool :: "json \<Rightarrow> bool read" where
  "get_bool v = (case v of JBool b \<Rightarrow> Inr b | _ \<Rightarrow> Inl (TypeError v))"

text \<open>A read as \<^verbatim>\<open>int\<close> also takes a truth value, a read as 64-bit number does not.\<close>

definition get_int32 :: "json \<Rightarrow> int read" where
  "get_int32 v = (case v of JInt i \<Rightarrow> Inr (to_int32 i) | JBool b \<Rightarrow> Inr (if b then 1 else 0) | _ \<Rightarrow> Inl (TypeError v))"

definition get_uint64 :: "json \<Rightarrow> nat read" where
  "get_uint64 v = (case v of JInt i \<Rightarrow> Inr (nat (i mod 2 ^ 64)) | _ \<Rightarrow> Inl (TypeError v))"

definition value_or :: "(json \<Rightarrow> 'a read) \<Rightarrow> json \<Rightarrow> string \<Rightarrow> 'a \<Rightarrow> 'a read" where
  "value_or get doc key d =
     (if \<not> is_object doc then Inl (TypeError doc)
      else case json_find doc key of None \<Rightarrow> Inr d | Some v \<Rightarrow> get v)"

text \<open>The read of a key that has been checked to be there.\<close>

definition at_key :: "(json \<Rightarrow> 'a read) \<Rightarrow> json \<Rightarrow> string \<Rightarrow> 'a read" where
  "at_key get doc key = (case json_find doc key of None \<Rightarrow> get JNull | Some v \<Rightarrow> get v)"

definition and_then :: "'a read \<Rightarrow> ('a \<Rightarrow> 'b read) \<Rightarrow> 'b read" where
  "and_then r f = (case r of Inl e \<Rightarrow> Inl e | Inr x \<Rightarrow> f x)"

lemma and_then_simps [simp]: "and_then (Inl e) f = Inl e" "and_then (Inr x) f = f x"
  by (simp_all add: and_then_def)

lemma and_then_Inr: "and_then r f = Inr y \<longleftrightarrow> (\<exists>x. r = Inr x \<and> f x = Inr y)"
  by (cases r) simp_all

lemma json_find_put [simp]:
  "json_find (JObject kvs) k = map_of kvs k"
  "json_find (json_put key v (JObject kvs)) k = (if k = key then Some v else map_of kvs k)"
  by (simp_all add: json_find_def update_conv')

lemma is_object_JObject [simp]: "is_object (JObject kvs)"
  by (simp add: is_object_def)

text \<open>A handler reads its request first; an exception leaves the state as it is and becomes the reply \<open>threw e\<close>.\<close>

definition reading :: "(json_error \<Rightarrow> 'r) \<Rightarrow> 'a read \<Rightarrow> ('a \<Rightarrow> 's \<Rightarrow> 'r \<times> 's) \<Rightarrow> 's \<Rightarrow> 'r \<times> 's" where
  "reading threw r k s = (case r of Inl e \<Rightarrow> (threw e, s) | Inr x \<Rightarrow> k x s)"

lemma reading_simps [simp]: "reading threw (Inl e) k s = (threw e, s)" "reading threw (Inr x) k s = k x s"
  by (simp_all add: reading_def)

text \<open>A property of the state that a continuation establishes holds after the reads before it.\<close>

lemma reading_keeps:
  assumes "P s" and "\<And>x. r = Inr x \<Longrightarrow> P (snd (k x s))"
  shows "P (snd (reading threw r k s))"
  using assms by (cases r) simp_all

text \<open>A request: a document that is an object with certain keys.\<close>

definition request_has :: "json option \<Rightarrow> string list \<Rightarrow> bool" where
  "request_has req keys = (case req of None \<Rightarrow> False | Some doc \<Rightarrow> is_object doc \<and> list_all (json_has doc) keys)"

subsection \<open>Text\<close>

text \<open>What stands before and after the first occurrence of a character.\<close>

definition split_at :: "char \<Rightarrow> string \<Rightarrow> (string \<times> string) option" where
  "split_at c s = (if c \<in> set s then Some (takeWhile (\<lambda>x. x \<noteq> c) s, tl (dropWhile (\<lambda>x. x \<noteq> c) s)) else None)"

lemma split_at_append [simp]: "c \<notin> set a \<Longrightarrow> split_at c (a @ c # b) = Some (a, b)"
  by (auto simp: split_at_def takeWhile_append dropWhile_append)

lemma split_at_Some: "split_at c s = Some (a, b) \<Longrightarrow> s = a @ c # b \<and> c \<notin> set a"
proof -
  assume a: "split_at c s = Some (a, b)"
  then have c: "c \<in> set s" "a = takeWhile (\<lambda>x. x \<noteq> c) s" "b = tl (dropWhile (\<lambda>x. x \<noteq> c) s)"
    by (auto simp: split_at_def split: if_splits)
  then obtain y ys where y: "dropWhile (\<lambda>x. x \<noteq> c) s = y # ys" by (cases "dropWhile (\<lambda>x. x \<noteq> c) s") auto
  then have "y = c" using hd_dropWhile[of "\<lambda>x. x \<noteq> c" s] by auto
  with c y takeWhile_dropWhile_id[of "\<lambda>x. x \<noteq> c" s] show ?thesis by (auto dest: set_takeWhileD)
qed

end
