(* ===== verification/Envelope_Codec.thy ===== *)
theory Envelope_Codec
  imports Service_Registry Json_Document
begin

text \<open>
  The two envelopes in which requests travel between services: \<^verbatim>\<open>BackendEnvelope\<close>
  (\<^verbatim>\<open>src/v2/service/backend_envelope.cpp\<close>), the typed envelope (\<^verbatim>\<open>include/v3/proto/envelope_codec.h\<close>)
  and the conversions between them (\<^verbatim>\<open>src/v2/service/envelope_adapter.cpp\<close>).  Encoding gives a JSON
  document, whose text is a parameter; decoding ends in a value, in nothing, or in the exception of a
  typed read.  The theory shows that every message kind survives both round trips, and what the
  unused places of the table of message types do.
\<close>

subsection \<open>Kinds and domains\<close>

datatype envelope_domain = DomUnknown | DomLogin | DomRoom | DomBattle | DomMatch | DomLeaderboard

definition domain_to_string :: "envelope_domain \<Rightarrow> string" where
  "domain_to_string d = (case d of DomLogin \<Rightarrow> ''login'' | DomRoom \<Rightarrow> ''room'' | DomBattle \<Rightarrow> ''battle'' | DomMatch \<Rightarrow> ''match''
     | DomLeaderboard \<Rightarrow> ''leaderboard'' | DomUnknown \<Rightarrow> ''unknown'')"

definition domain_from_string :: "string \<Rightarrow> envelope_domain option" where
  "domain_from_string t =
     (if t = ''login'' then Some DomLogin else if t = ''room'' then Some DomRoom else if t = ''battle'' then Some DomBattle
      else if t = ''match'' then Some DomMatch else if t = ''leaderboard'' then Some DomLeaderboard else None)"

datatype envelope_kind =
    EkUnknown | EkLoginRequest | EkLoginResponse | EkTokenValidateRequest | EkTokenValidateResponse | EkSessionBindRequest | EkSessionBindResponse |
    EkSessionCloseRequest | EkSessionCloseResponse | EkTokenRefreshRequest | EkTokenRefreshResponse | EkRoomCreateRequest | EkRoomCreateResponse |
    EkRoomJoinRequest | EkRoomJoinResponse | EkRoomLeaveRequest | EkRoomLeaveResponse | EkRoomReadyRequest | EkRoomReadyResponse |
    EkRoomStartBattleRequest | EkRoomStartBattleResponse | EkRoomStatePush | EkRoomListRequest | EkRoomListResponse | EkRoomDetailRequest |
    EkRoomDetailResponse | EkRoomKickRequest | EkRoomKickResponse | EkRoomTransferOwnerRequest | EkRoomTransferOwnerResponse |
    EkRoomBattleFinishedRequest | EkRoomBattleFinishedResponse | EkBattleCreateRequest | EkBattleCreateResponse | EkBattleInputRequest |
    EkBattleInputResponse | EkBattleStateRequest | EkBattleStateResponse | EkBattleStatePush | EkBattleFinishRequest | EkBattleFinishResponse |
    EkReplayLoadRequest | EkReplayLoadResponse | EkMatchJoinRequest | EkMatchJoinResponse | EkMatchLeaveRequest | EkMatchLeaveResponse |
    EkMatchStatusRequest | EkMatchStatusResponse | EkMatchFoundPush | EkMatchToRoomRequest | EkMatchToRoomResponse | EkLeaderboardSubmitRequest |
    EkLeaderboardSubmitResponse | EkLeaderboardTopRequest | EkLeaderboardTopResponse | EkLeaderboardRankRequest | EkLeaderboardRankResponse

text \<open>\<^verbatim>\<open>to_string(EnvelopeMessageKind)\<close>: the default branch takes the kinds that are not listed.\<close>

definition kind_names :: "(envelope_kind \<times> string) list" where
  "kind_names = [
    (EkLoginRequest, ''login_request''), (EkLoginResponse, ''login_response''), (EkTokenValidateRequest, ''token_validate''),
    (EkTokenValidateResponse, ''token_validate_response''), (EkSessionBindRequest, ''session_bind''),
    (EkSessionBindResponse, ''session_bind_response''), (EkSessionCloseRequest, ''session_close''),
    (EkSessionCloseResponse, ''session_close_response''), (EkTokenRefreshRequest, ''token_refresh''),
    (EkTokenRefreshResponse, ''token_refresh_response''), (EkRoomCreateRequest, ''room_create''), (EkRoomCreateResponse, ''room_create_response''),
    (EkRoomJoinRequest, ''room_join''), (EkRoomJoinResponse, ''room_join_response''), (EkRoomLeaveRequest, ''room_leave''),
    (EkRoomLeaveResponse, ''room_leave_response''), (EkRoomReadyRequest, ''room_ready''), (EkRoomReadyResponse, ''room_ready_response''),
    (EkRoomStartBattleRequest, ''room_start_battle''), (EkRoomStartBattleResponse, ''room_start_battle_response''),
    (EkRoomStatePush, ''room_state_push''), (EkRoomListRequest, ''room_list''), (EkRoomListResponse, ''room_list_response''),
    (EkRoomDetailRequest, ''room_detail''), (EkRoomDetailResponse, ''room_detail_response''), (EkRoomKickRequest, ''room_kick''),
    (EkRoomKickResponse, ''room_kick_response''), (EkRoomTransferOwnerRequest, ''room_transfer_owner''),
    (EkRoomTransferOwnerResponse, ''room_transfer_owner_response''), (EkRoomBattleFinishedRequest, ''room_battle_finished''),
    (EkRoomBattleFinishedResponse, ''room_battle_finished_response''), (EkBattleCreateRequest, ''battle_create''),
    (EkBattleCreateResponse, ''battle_create_response''), (EkBattleInputRequest, ''battle_input''),
    (EkBattleInputResponse, ''battle_input_response''), (EkBattleStateRequest, ''battle_state''), (EkBattleStateResponse, ''battle_state_response''),
    (EkBattleStatePush, ''battle_state_push''), (EkBattleFinishRequest, ''battle_finish''), (EkBattleFinishResponse, ''battle_finish_response''),
    (EkReplayLoadRequest, ''replay_load''), (EkReplayLoadResponse, ''replay_load_response''), (EkMatchJoinRequest, ''match_join''),
    (EkMatchJoinResponse, ''match_join_response''), (EkMatchLeaveRequest, ''match_leave''), (EkMatchLeaveResponse, ''match_leave_response''),
    (EkMatchStatusRequest, ''match_status''), (EkMatchStatusResponse, ''match_status_response''), (EkMatchFoundPush, ''match_found_push''),
    (EkMatchToRoomRequest, ''match_to_room''), (EkMatchToRoomResponse, ''match_to_room_response''), (EkLeaderboardSubmitRequest, ''submit''),
    (EkLeaderboardSubmitResponse, ''submit_response''), (EkLeaderboardTopRequest, ''top''), (EkLeaderboardTopResponse, ''top_response''),
    (EkLeaderboardRankRequest, ''rank''), (EkLeaderboardRankResponse, ''rank_response'')]"

definition kind_to_string :: "envelope_kind \<Rightarrow> string" where
  "kind_to_string kind = (case map_of kind_names kind of None \<Rightarrow> ''unknown'' | Some t \<Rightarrow> t)"

text \<open>The tests of \<^verbatim>\<open>kind_from_string\<close>, in their order.\<close>

definition kind_tests :: "(string \<times> envelope_kind) list" where
  "kind_tests = [
    (''login_request'', EkLoginRequest), (''login_response'', EkLoginResponse), (''token_validate'', EkTokenValidateRequest),
    (''token_validate_response'', EkTokenValidateResponse), (''session_bind'', EkSessionBindRequest),
    (''session_bind_response'', EkSessionBindResponse), (''session_close'', EkSessionCloseRequest),
    (''session_close_response'', EkSessionCloseResponse), (''token_refresh'', EkTokenRefreshRequest),
    (''token_refresh_response'', EkTokenRefreshResponse), (''room_create'', EkRoomCreateRequest), (''room_create_response'', EkRoomCreateResponse),
    (''room_join'', EkRoomJoinRequest), (''room_join_response'', EkRoomJoinResponse), (''room_leave'', EkRoomLeaveRequest),
    (''room_leave_response'', EkRoomLeaveResponse), (''room_ready'', EkRoomReadyRequest), (''room_ready_response'', EkRoomReadyResponse),
    (''room_start_battle'', EkRoomStartBattleRequest), (''room_start_battle_response'', EkRoomStartBattleResponse),
    (''room_state_push'', EkRoomStatePush), (''room_list'', EkRoomListRequest), (''room_list_response'', EkRoomListResponse),
    (''room_detail'', EkRoomDetailRequest), (''room_detail_response'', EkRoomDetailResponse), (''room_kick'', EkRoomKickRequest),
    (''room_kick_response'', EkRoomKickResponse), (''room_transfer_owner'', EkRoomTransferOwnerRequest),
    (''room_transfer_owner_response'', EkRoomTransferOwnerResponse), (''room_battle_finished'', EkRoomBattleFinishedRequest),
    (''room_battle_finished_response'', EkRoomBattleFinishedResponse), (''battle_create'', EkBattleCreateRequest),
    (''battle_create_response'', EkBattleCreateResponse), (''battle_input'', EkBattleInputRequest),
    (''battle_input_response'', EkBattleInputResponse), (''battle_state'', EkBattleStateRequest), (''battle_state_response'', EkBattleStateResponse),
    (''battle_state_push'', EkBattleStatePush), (''battle_finish'', EkBattleFinishRequest), (''battle_finish_response'', EkBattleFinishResponse),
    (''replay_load'', EkReplayLoadRequest), (''replay_load_response'', EkReplayLoadResponse), (''match_join'', EkMatchJoinRequest),
    (''match_join_response'', EkMatchJoinResponse), (''match_leave'', EkMatchLeaveRequest), (''match_leave_response'', EkMatchLeaveResponse),
    (''match_status'', EkMatchStatusRequest), (''match_status_response'', EkMatchStatusResponse), (''match_found_push'', EkMatchFoundPush),
    (''match_to_room'', EkMatchToRoomRequest), (''match_to_room_response'', EkMatchToRoomResponse), (''submit'', EkLeaderboardSubmitRequest),
    (''submit_response'', EkLeaderboardSubmitResponse), (''top'', EkLeaderboardTopRequest), (''top_response'', EkLeaderboardTopResponse),
    (''rank'', EkLeaderboardRankRequest), (''rank_response'', EkLeaderboardRankResponse)]"

definition kind_from_string :: "string \<Rightarrow> envelope_kind option" where
  "kind_from_string kind = map_of kind_tests kind"

definition domain_for_kind :: "envelope_kind \<Rightarrow> envelope_domain option" where
  "domain_for_kind kind =
     (if kind \<in> set [
         EkLoginRequest, EkLoginResponse, EkTokenValidateRequest, EkTokenValidateResponse, EkSessionBindRequest, EkSessionBindResponse,
         EkSessionCloseRequest, EkSessionCloseResponse, EkTokenRefreshRequest, EkTokenRefreshResponse]
      then Some DomLogin
      else if kind \<in> set [
         EkRoomCreateRequest, EkRoomCreateResponse, EkRoomJoinRequest, EkRoomJoinResponse, EkRoomLeaveRequest, EkRoomLeaveResponse,
         EkRoomReadyRequest, EkRoomReadyResponse, EkRoomStartBattleRequest, EkRoomStartBattleResponse, EkRoomStatePush, EkRoomListRequest,
         EkRoomListResponse, EkRoomDetailRequest, EkRoomDetailResponse, EkRoomKickRequest, EkRoomKickResponse, EkRoomTransferOwnerRequest,
         EkRoomTransferOwnerResponse, EkRoomBattleFinishedRequest, EkRoomBattleFinishedResponse]
      then Some DomRoom
      else if kind \<in> set [
         EkBattleCreateRequest, EkBattleCreateResponse, EkBattleInputRequest, EkBattleInputResponse, EkBattleStateRequest, EkBattleStateResponse,
         EkBattleStatePush, EkBattleFinishRequest, EkBattleFinishResponse, EkReplayLoadRequest, EkReplayLoadResponse]
      then Some DomBattle
      else if kind \<in> set [
         EkMatchJoinRequest, EkMatchJoinResponse, EkMatchLeaveRequest, EkMatchLeaveResponse, EkMatchStatusRequest, EkMatchStatusResponse,
         EkMatchFoundPush, EkMatchToRoomRequest, EkMatchToRoomResponse]
      then Some DomMatch
      else if kind \<in> set [
         EkLeaderboardSubmitRequest, EkLeaderboardSubmitResponse, EkLeaderboardTopRequest, EkLeaderboardTopResponse, EkLeaderboardRankRequest,
         EkLeaderboardRankResponse]
      then Some DomLeaderboard
      else None)"

subsection \<open>Typed envelopes\<close>

record envelope_meta =
  em_correlation_id :: nat
  em_source_service :: string
  em_target_service :: string
  em_timeout_ms :: nat
  em_error_code :: int
  em_trace_id :: nat
  em_span_id :: nat

record decoded_envelope =
  de_meta :: envelope_meta
  de_domain :: envelope_domain
  de_kind :: envelope_kind
  de_payload :: json

record typed_envelope =
  te_meta :: envelope_meta
  te_kind :: envelope_kind
  te_payload :: json

definition envelope_doc :: "envelope_meta \<Rightarrow> envelope_domain \<Rightarrow> envelope_kind \<Rightarrow> json \<Rightarrow> json" where
  "envelope_doc meta domain kind payload =
     JObject [(''correlation_id'', JInt (int (em_correlation_id meta))), (''source_service'', JString (em_source_service meta)),
       (''target_service'', JString (em_target_service meta)), (''timeout_ms'', JInt (int (em_timeout_ms meta))),
       (''error_code'', JInt (em_error_code meta)), (''trace_id'', JInt (int (em_trace_id meta))), (''span_id'', JInt (int (em_span_id meta))),
       (''payload'', JObject [(domain_to_string domain, JObject [(kind_to_string kind, payload)])])]"

definition encode_envelope :: "(json \<Rightarrow> string) \<Rightarrow> envelope_meta \<Rightarrow> envelope_domain \<Rightarrow> envelope_kind \<Rightarrow> json \<Rightarrow> string" where
  "encode_envelope dump meta domain kind payload = dump (envelope_doc meta domain kind payload)"

definition get_uint32 :: "json \<Rightarrow> nat read" where
  "get_uint32 v = (case v of JInt i \<Rightarrow> Inr (nat (i mod 2 ^ 32)) | JBool b \<Rightarrow> Inr (if b then 1 else 0) | _ \<Rightarrow> Inl (TypeError v))"

definition decode_meta :: "json \<Rightarrow> envelope_meta read" where
  "decode_meta doc =
     and_then (value_or get_uint64 doc ''correlation_id'' 0) (\<lambda>correlation_id.
     and_then (value_or get_string doc ''source_service'' []) (\<lambda>source_service.
     and_then (value_or get_string doc ''target_service'' []) (\<lambda>target_service.
     and_then (value_or get_uint32 doc ''timeout_ms'' 0) (\<lambda>timeout_ms.
     and_then (value_or get_int32 doc ''error_code'' 0) (\<lambda>error_code.
     and_then (value_or get_uint64 doc ''trace_id'' 0) (\<lambda>trace_id.
     and_then (value_or get_uint64 doc ''span_id'' 0) (\<lambda>span_id.
       Inr \<lparr>em_correlation_id = correlation_id, em_source_service = source_service, em_target_service = target_service,
         em_timeout_ms = timeout_ms, em_error_code = error_code, em_trace_id = trace_id, em_span_id = span_id\<rparr>)))))))"

text \<open>The only entry of an object.\<close>

definition sole_entry :: "json \<Rightarrow> (string \<times> json) option" where
  "sole_entry doc = (case doc of JObject [e] \<Rightarrow> Some e | _ \<Rightarrow> None)"

definition decode_payload_of :: "envelope_meta \<Rightarrow> json \<Rightarrow> decoded_envelope option" where
  "decode_payload_of meta payloads =
     (case sole_entry payloads of
        None \<Rightarrow> None
      | Some (domain_key, messages) \<Rightarrow>
         (case domain_from_string domain_key of
            None \<Rightarrow> None
          | Some domain \<Rightarrow>
             (case sole_entry messages of
                None \<Rightarrow> None
              | Some (kind_key, payload) \<Rightarrow>
                 (case kind_from_string kind_key of
                    None \<Rightarrow> None
                  | Some kind \<Rightarrow> Some \<lparr>de_meta = meta, de_domain = domain, de_kind = kind, de_payload = payload\<rparr>))))"

definition decode_envelope :: "(string \<Rightarrow> json option) \<Rightarrow> string \<Rightarrow> decoded_envelope option read" where
  "decode_envelope parse encoded =
     (case parse encoded of
        None \<Rightarrow> Inr None
      | Some doc \<Rightarrow>
         (case json_find doc ''payload'' of
            Some payloads \<Rightarrow>
              if is_object payloads then and_then (decode_meta doc) (\<lambda>meta. Inr (decode_payload_of meta payloads)) else Inr None
          | None \<Rightarrow> Inr None))"

definition decode_typed_envelope :: "(string \<Rightarrow> json option) \<Rightarrow> string \<Rightarrow> typed_envelope option read" where
  "decode_typed_envelope parse encoded =
     and_then (decode_envelope parse encoded) (\<lambda>decoded.
       Inr (case decoded of None \<Rightarrow> None
            | Some d \<Rightarrow> Some \<lparr>te_meta = de_meta d, te_kind = de_kind d, te_payload = de_payload d\<rparr>))"

definition is_envelope_payload :: "(string \<Rightarrow> json option) \<Rightarrow> string \<Rightarrow> bool read" where
  "is_envelope_payload parse encoded = and_then (decode_envelope parse encoded) (\<lambda>d. Inr (d \<noteq> None))"

definition encode_typed_envelope :: "(json \<Rightarrow> string) \<Rightarrow> envelope_meta \<Rightarrow> envelope_kind \<Rightarrow> json \<Rightarrow> string" where
  "encode_typed_envelope dump meta kind payload =
     (case domain_for_kind kind of None \<Rightarrow> [] | Some domain \<Rightarrow> encode_envelope dump meta domain kind payload)"

definition encode_match_join_request :: "(json \<Rightarrow> string) \<Rightarrow> envelope_meta \<Rightarrow> string \<Rightarrow> int \<Rightarrow> string \<Rightarrow> string" where
  "encode_match_join_request dump meta user_id mmr mode =
     encode_typed_envelope dump meta EkMatchJoinRequest (JObject [(''user_id'', JString user_id), (''mmr'', JInt mmr), (''mode'', JString mode)])"

definition encode_leaderboard_submit_request :: "(json \<Rightarrow> string) \<Rightarrow> envelope_meta \<Rightarrow> string \<Rightarrow> string \<Rightarrow> int \<Rightarrow> string" where
  "encode_leaderboard_submit_request dump meta user_id display_name score =
     encode_typed_envelope dump meta EkLeaderboardSubmitRequest
       (JObject [(''user_id'', JString user_id), (''display_name'', JString display_name), (''score'', JInt score)])"

definition maybe_wrap_response ::
  "(json \<Rightarrow> string) \<Rightarrow> decoded_envelope option \<Rightarrow> envelope_domain \<Rightarrow> envelope_kind \<Rightarrow> json \<Rightarrow> int \<Rightarrow> string" where
  "maybe_wrap_response dump request domain kind payload error_code =
     (case request of None \<Rightarrow> dump payload
      | Some req \<Rightarrow> encode_envelope dump ((de_meta req)\<lparr>em_error_code := error_code\<rparr>) domain kind payload)"

definition maybe_wrap_typed_response :: "(json \<Rightarrow> string) \<Rightarrow> typed_envelope option \<Rightarrow> envelope_kind \<Rightarrow> json \<Rightarrow> int \<Rightarrow> string" where
  "maybe_wrap_typed_response dump request kind payload error_code =
     (case request of None \<Rightarrow> dump payload
      | Some req \<Rightarrow>
         (case domain_for_kind kind of None \<Rightarrow> dump payload
          | Some domain \<Rightarrow> encode_envelope dump ((te_meta req)\<lparr>em_error_code := error_code\<rparr>) domain kind payload))"

subsection \<open>Backend envelopes\<close>

datatype message_kind = KindRequest | KindResponse | KindPush | KindError

record wire_envelope =
  we_correlation_id :: nat
  we_source_service :: service_id
  we_target_service :: service_id
  we_kind :: message_kind
  we_timeout_ms :: nat
  we_error_code :: int
  we_payload :: string
  we_message_type :: string
  we_trace_id :: nat
  we_span_id :: nat

definition message_kind_text :: "message_kind \<Rightarrow> string" where
  "message_kind_text k = (case k of KindRequest \<Rightarrow> ''request'' | KindResponse \<Rightarrow> ''response'' | KindPush \<Rightarrow> ''push'' | KindError \<Rightarrow> ''error'')"

definition service_text :: "service_id \<Rightarrow> string" where
  "service_text s = (case s of SvcGateway \<Rightarrow> ''gateway'' | SvcLogin \<Rightarrow> ''login'' | SvcRoom \<Rightarrow> ''room'' | SvcBattle \<Rightarrow> ''battle''
     | SvcMatchmaking \<Rightarrow> ''matchmaking'' | SvcLeaderboard \<Rightarrow> ''leaderboard'')"

definition parse_service_id :: "string \<Rightarrow> service_id option" where
  "parse_service_id t =
     (if t = ''gateway'' then Some SvcGateway else if t = ''login'' then Some SvcLogin else if t = ''room'' then Some SvcRoom
      else if t = ''battle'' then Some SvcBattle else if t = ''match'' \<or> t = ''matchmaking'' then Some SvcMatchmaking
      else if t = ''leaderboard'' then Some SvcLeaderboard else None)"

definition wire_doc :: "wire_envelope \<Rightarrow> json" where
  "wire_doc e =
     JObject [(''correlation_id'', JInt (int (we_correlation_id e))), (''source_service'', JString (service_text (we_source_service e))),
       (''target_service'', JString (service_text (we_target_service e))), (''kind'', JString (message_kind_text (we_kind e))),
       (''timeout_ms'', JInt (int (we_timeout_ms e))), (''error_code'', JInt (we_error_code e)), (''payload'', JString (we_payload e)),
       (''message_type'', JString (we_message_type e)), (''trace_id'', JInt (int (we_trace_id e))), (''span_id'', JInt (int (we_span_id e)))]"

definition wire_to_json :: "(json \<Rightarrow> string) \<Rightarrow> wire_envelope \<Rightarrow> string" where
  "wire_to_json dump e = dump (wire_doc e)"

definition parse_message_kind :: "string \<Rightarrow> message_kind option" where
  "parse_message_kind t =
     (if t = ''request'' then Some KindRequest else if t = ''response'' then Some KindResponse
      else if t = ''push'' then Some KindPush else if t = ''error'' then Some KindError else None)"

text \<open>The default \<^verbatim>\<open>0ULL\<close> makes the type read \<^verbatim>\<open>unsigned long long\<close>, for which the library takes a truth value too.\<close>

definition get_ulonglong :: "json \<Rightarrow> nat read" where
  "get_ulonglong v = (case v of JInt i \<Rightarrow> Inr (nat (i mod 2 ^ 64)) | JBool b \<Rightarrow> Inr (if b then 1 else 0) | _ \<Rightarrow> Inl (TypeError v))"

definition wire_rest :: "json \<Rightarrow> nat \<Rightarrow> service_id \<Rightarrow> service_id \<Rightarrow> message_kind \<Rightarrow> wire_envelope option read" where
  "wire_rest doc correlation_id source target kind =
     and_then (value_or get_uint32 doc ''timeout_ms'' 0) (\<lambda>timeout_ms.
     and_then (value_or get_int32 doc ''error_code'' 0) (\<lambda>error_code.
     and_then (at_key get_string doc ''payload'') (\<lambda>payload.
     and_then (value_or get_string doc ''message_type'' []) (\<lambda>message_type.
     and_then (value_or get_ulonglong doc ''trace_id'' 0) (\<lambda>trace_id.
     and_then (value_or get_ulonglong doc ''span_id'' 0) (\<lambda>span_id.
       Inr (Some \<lparr>we_correlation_id = correlation_id, we_source_service = source, we_target_service = target, we_kind = kind,
         we_timeout_ms = timeout_ms, we_error_code = error_code, we_payload = payload, we_message_type = message_type,
         we_trace_id = trace_id, we_span_id = span_id\<rparr>)))))))"

definition wire_from_json :: "(string \<Rightarrow> json option) \<Rightarrow> string \<Rightarrow> wire_envelope option read" where
  "wire_from_json parse text =
     (if \<not> request_has (parse text) [''correlation_id'', ''source_service'', ''target_service'', ''kind'', ''payload''] then Inr None
      else (let doc = the (parse text) in
        and_then (at_key get_uint64 doc ''correlation_id'') (\<lambda>correlation_id.
        and_then (at_key get_string doc ''source_service'') (\<lambda>source.
        and_then (at_key get_string doc ''target_service'') (\<lambda>target.
        and_then (at_key get_string doc ''kind'') (\<lambda>kind.
          case (parse_service_id source, parse_service_id target) of
            (Some src, Some tgt) \<Rightarrow>
              (case parse_message_kind kind of None \<Rightarrow> Inr None | Some k \<Rightarrow> wire_rest doc correlation_id src tgt k)
          | _ \<Rightarrow> Inr None))))))"

definition wire_is_valid :: "wire_envelope \<Rightarrow> bool" where
  "wire_is_valid e = (if we_correlation_id e = 0 then False else we_payload e \<noteq> [] \<or> we_kind e = KindError)"

text \<open>The global counter: the number handed out and the next value.\<close>

definition generate_correlation_id :: "nat \<Rightarrow> nat \<times> nat" where
  "generate_correlation_id next = (next, u64_add next 1)"

subsection \<open>Adapter\<close>

text \<open>The table has 59 places and 57 entries; the last two places are an empty text with the kind that is zero.\<close>

definition kMessageTypeMappings :: "(string \<times> envelope_kind) list" where
  "kMessageTypeMappings = [
    (''login_request'', EkLoginRequest), (''login_response'', EkLoginResponse), (''token_validate'', EkTokenValidateRequest),
    (''token_validate_response'', EkTokenValidateResponse), (''session_bind'', EkSessionBindRequest),
    (''session_bind_response'', EkSessionBindResponse), (''session_close'', EkSessionCloseRequest),
    (''session_close_response'', EkSessionCloseResponse), (''token_refresh'', EkTokenRefreshRequest),
    (''token_refresh_response'', EkTokenRefreshResponse), (''room_create'', EkRoomCreateRequest), (''room_create_response'', EkRoomCreateResponse),
    (''room_join'', EkRoomJoinRequest), (''room_join_response'', EkRoomJoinResponse), (''room_leave'', EkRoomLeaveRequest),
    (''room_leave_response'', EkRoomLeaveResponse), (''room_ready'', EkRoomReadyRequest), (''room_ready_response'', EkRoomReadyResponse),
    (''room_start_battle'', EkRoomStartBattleRequest), (''room_start_battle_response'', EkRoomStartBattleResponse),
    (''room_state_push'', EkRoomStatePush), (''room_list'', EkRoomListRequest), (''room_list_response'', EkRoomListResponse),
    (''room_detail'', EkRoomDetailRequest), (''room_detail_response'', EkRoomDetailResponse), (''room_kick'', EkRoomKickRequest),
    (''room_kick_response'', EkRoomKickResponse), (''room_transfer_owner'', EkRoomTransferOwnerRequest),
    (''room_transfer_owner_response'', EkRoomTransferOwnerResponse), (''room_battle_finished'', EkRoomBattleFinishedRequest),
    (''room_battle_finished_response'', EkRoomBattleFinishedResponse), (''battle_create'', EkBattleCreateRequest),
    (''battle_create_response'', EkBattleCreateResponse), (''battle_input'', EkBattleInputRequest),
    (''battle_input_response'', EkBattleInputResponse), (''battle_state'', EkBattleStateRequest), (''battle_state_response'', EkBattleStateResponse),
    (''battle_state_push'', EkBattleStatePush), (''battle_finish'', EkBattleFinishRequest), (''battle_finish_response'', EkBattleFinishResponse),
    (''replay_load'', EkReplayLoadRequest), (''replay_load_response'', EkReplayLoadResponse), (''match_join'', EkMatchJoinRequest),
    (''match_join_response'', EkMatchJoinResponse), (''match_leave'', EkMatchLeaveRequest), (''match_leave_response'', EkMatchLeaveResponse),
    (''match_status'', EkMatchStatusRequest), (''match_status_response'', EkMatchStatusResponse),
    (''leaderboard_submit'', EkLeaderboardSubmitRequest), (''leaderboard_submit_response'', EkLeaderboardSubmitResponse),
    (''leaderboard_top'', EkLeaderboardTopRequest), (''leaderboard_top_response'', EkLeaderboardTopResponse),
    (''leaderboard_rank'', EkLeaderboardRankRequest), (''leaderboard_rank_response'', EkLeaderboardRankResponse),
    (''match_found_push'', EkMatchFoundPush), (''match_to_room'', EkMatchToRoomRequest), (''match_to_room_response'', EkMatchToRoomResponse)] @
     replicate 2 ([], EkUnknown)"

definition message_kind_from_backend_type :: "string \<Rightarrow> envelope_kind option" where
  "message_kind_from_backend_type message_type = map_option snd (find (\<lambda>m. fst m = message_type) kMessageTypeMappings)"

definition backend_type_from_message_kind :: "envelope_kind \<Rightarrow> string" where
  "backend_type_from_message_kind kind = (case find (\<lambda>m. snd m = kind) kMessageTypeMappings of None \<Rightarrow> [] | Some m \<Rightarrow> fst m)"

definition to_meta :: "wire_envelope \<Rightarrow> envelope_meta" where
  "to_meta e = \<lparr>em_correlation_id = we_correlation_id e, em_source_service = service_text (we_source_service e),
     em_target_service = service_text (we_target_service e), em_timeout_ms = we_timeout_ms e, em_error_code = we_error_code e,
     em_trace_id = we_trace_id e, em_span_id = we_span_id e\<rparr>"

definition service_from_meta :: "string \<Rightarrow> service_id" where
  "service_from_meta t =
     (if t = ''login'' then SvcLogin else if t = ''room'' then SvcRoom else if t = ''battle'' then SvcBattle
      else if t = ''match'' \<or> t = ''matchmaking'' then SvcMatchmaking else if t = ''leaderboard'' then SvcLeaderboard else SvcGateway)"

definition to_typed_envelope :: "(string \<Rightarrow> json option) \<Rightarrow> wire_envelope \<Rightarrow> typed_envelope option" where
  "to_typed_envelope parse e =
     (case message_kind_from_backend_type (we_message_type e) of
        None \<Rightarrow> None
      | Some kind \<Rightarrow>
         (case (if we_payload e = [] then Some (JObject []) else parse (we_payload e)) of
            None \<Rightarrow> None
          | Some payload \<Rightarrow> Some \<lparr>te_meta = to_meta e, te_kind = kind, te_payload = payload\<rparr>))"

definition to_backend_envelope :: "(json \<Rightarrow> string) \<Rightarrow> typed_envelope \<Rightarrow> message_kind \<Rightarrow> wire_envelope" where
  "to_backend_envelope dump t kind =
     (let meta = te_meta t in
      \<lparr>we_correlation_id = em_correlation_id meta, we_source_service = service_from_meta (em_source_service meta),
       we_target_service = service_from_meta (em_target_service meta), we_kind = kind, we_timeout_ms = em_timeout_ms meta,
       we_error_code = em_error_code meta, we_payload = dump (te_payload t), we_message_type = backend_type_from_message_kind (te_kind t),
       we_trace_id = em_trace_id meta, we_span_id = em_span_id meta\<rparr>)"

datatype handler_encoding = TypedEnvelope | LegacyRawJson

record handler_payload =
  hp_typed_request :: "typed_envelope option"
  hp_payload :: json
  hp_encoding :: handler_encoding

definition decode_handler_payload :: "(string \<Rightarrow> json option) \<Rightarrow> wire_envelope \<Rightarrow> handler_payload option read" where
  "decode_handler_payload parse e =
     and_then (decode_typed_envelope parse (we_payload e)) (\<lambda>typed.
       Inr (case typed of
              Some t \<Rightarrow> Some \<lparr>hp_typed_request = Some t, hp_payload = te_payload t, hp_encoding = TypedEnvelope\<rparr>
            | None \<Rightarrow>
               (case parse (we_payload e) of
                  None \<Rightarrow> None
                | Some doc \<Rightarrow> Some \<lparr>hp_typed_request = None, hp_payload = doc, hp_encoding = LegacyRawJson\<rparr>)))"

definition wrap_typed_response_if_needed ::
  "(string \<Rightarrow> json option) \<Rightarrow> (json \<Rightarrow> string) \<Rightarrow> typed_envelope option \<Rightarrow> wire_envelope \<Rightarrow> envelope_kind \<Rightarrow> wire_envelope" where
  "wrap_typed_response_if_needed parse dump request response response_kind =
     (case request of None \<Rightarrow> response
      | Some req \<Rightarrow> response\<lparr>we_payload := maybe_wrap_typed_response dump (Some req) response_kind
          (case parse (we_payload response) of None \<Rightarrow> JObject [] | Some doc \<Rightarrow> doc) (we_error_code response)\<rparr>)"

subsection \<open>Round trips\<close>

text \<open>Both tables name every kind once, and no text twice.\<close>

lemma kind_tests_swap: "kind_tests = map prod.swap kind_names"
  by (simp add: kind_tests_def kind_names_def)

lemma distinct_kind_texts: "distinct (map snd kind_names)"
  unfolding kind_names_def by code_simp

lemma distinct_backend_types: "distinct (map fst (take 57 kMessageTypeMappings))"
  unfolding kMessageTypeMappings_def by code_simp

lemma named_kinds: "kind \<noteq> EkUnknown \<Longrightarrow> kind \<in> set (map fst kind_names)"
  by (cases kind) (simp_all add: kind_names_def)

lemma mapped_kinds: "kind \<noteq> EkUnknown \<Longrightarrow> kind \<in> set (map snd (take 57 kMessageTypeMappings))"
  by (cases kind) (simp_all add: kMessageTypeMappings_def)

lemma kind_round_trip:
  assumes "kind \<noteq> EkUnknown"
  shows "kind_from_string (kind_to_string kind) = Some kind"
proof -
  from named_kinds[OF assms] obtain t where t: "map_of kind_names kind = Some t" by (auto simp: map_of_eq_None_iff dest: weak_map_of_SomeI)
  then have "(t, kind) \<in> set kind_tests" unfolding kind_tests_swap by (force dest: map_of_SomeD)
  moreover have "distinct (map fst kind_tests)" using distinct_kind_texts by (simp add: kind_tests_swap comp_def)
  ultimately show ?thesis using t by (simp add: kind_from_string_def kind_to_string_def)
qed

lemma domain_round_trip: "domain \<noteq> DomUnknown \<Longrightarrow> domain_from_string (domain_to_string domain) = Some domain"
  by (cases domain) (simp_all add: domain_from_string_def domain_to_string_def)

lemma domain_for_kind_defined:
  assumes "kind \<noteq> EkUnknown"
  obtains d where "domain_for_kind kind = Some d" "d \<noteq> DomUnknown"
  using assms by (cases kind) (simp_all add: domain_for_kind_def)

lemma service_round_trip [simp]: "service_from_meta (service_text s) = s" "parse_service_id (service_text s) = Some s"
  by (cases s; simp add: service_from_meta_def parse_service_id_def service_text_def)+

lemma message_kind_round_trip [simp]: "parse_message_kind (message_kind_text k) = Some k"
  by (cases k) (simp_all add: parse_message_kind_def message_kind_text_def)

lemma find_first: "distinct (map f xs) \<Longrightarrow> x \<in> set xs \<Longrightarrow> find (\<lambda>y. f y = f x) (xs @ ys) = Some x"
  by (induction xs) (auto simp: image_iff)

lemma find_front: "(\<exists>x \<in> set xs. P x) \<Longrightarrow> \<exists>x \<in> set xs. P x \<and> find P (xs @ ys) = Some x"
  by (induction xs) auto

lemma mappings_split: "kMessageTypeMappings = take 57 kMessageTypeMappings @ drop 57 kMessageTypeMappings"
  by simp

lemma backend_type_round_trip:
  assumes "kind \<noteq> EkUnknown"
  shows "message_kind_from_backend_type (backend_type_from_message_kind kind) = Some kind"
proof -
  let ?L = "take 57 kMessageTypeMappings" and ?R = "drop 57 kMessageTypeMappings"
  from mapped_kinds[OF assms] have "\<exists>m \<in> set ?L. snd m = kind" by auto
  then obtain m where m: "m \<in> set ?L" "snd m = kind" "find (\<lambda>m. snd m = kind) (?L @ ?R) = Some m"
    using find_front[of ?L "\<lambda>m. snd m = kind" ?R] by blast
  with find_first[OF distinct_backend_types m(1), of ?R] show ?thesis
    by (simp add: message_kind_from_backend_type_def backend_type_from_message_kind_def)
qed

text \<open>The numbers fit their fields.\<close>

definition meta_fits :: "envelope_meta \<Rightarrow> bool" where
  "meta_fits m \<longleftrightarrow> em_correlation_id m < 2 ^ 64 \<and> em_timeout_ms m < 2 ^ 32 \<and> - (2 ^ 31) \<le> em_error_code m \<and> em_error_code m < 2 ^ 31 \<and>
     em_trace_id m < 2 ^ 64 \<and> em_span_id m < 2 ^ 64"

lemma get_int_exact [simp]:
  "n < 2 ^ 64 \<Longrightarrow> get_uint64 (JInt (int n)) = Inr n" "n < 2 ^ 64 \<Longrightarrow> get_ulonglong (JInt (int n)) = Inr n" "n < 2 ^ 32 \<Longrightarrow> get_uint32 (JInt (int n)) = Inr n"
  "- (2 ^ 31) \<le> i \<Longrightarrow> i < 2 ^ 31 \<Longrightarrow> get_int32 (JInt i) = Inr i"
  by (simp_all add: get_uint64_def get_ulonglong_def get_uint32_def get_int32_def to_int32_exact)

lemma get_string_exact [simp]: "get_string (JString t) = Inr t"
  by (simp add: get_string_def)

lemma decode_meta_doc: "meta_fits meta \<Longrightarrow> decode_meta (envelope_doc meta d k p) = Inr meta"
  by (cases meta) (simp add: decode_meta_def envelope_doc_def meta_fits_def value_or_def is_object_def)

text \<open>C31: Typed envelopes survive the wire.  For every kind of message but the unknown one, and when the JSON library reads back what it printed, decoding an
  encoded envelope gives the same meta data, kind and payload.\<close>

theorem typed_envelope_round_trip:
  assumes "kind \<noteq> EkUnknown" and "meta_fits meta"
    and "domain_for_kind kind = Some d" and "parse (dump (envelope_doc meta d kind payload)) = Some (envelope_doc meta d kind payload)"
  shows "decode_typed_envelope parse (encode_typed_envelope dump meta kind payload) =
    Inr (Some \<lparr>te_meta = meta, te_kind = kind, te_payload = payload\<rparr>)"
proof -
  have d: "domain_for_kind kind = Some d" "d \<noteq> DomUnknown" using domain_for_kind_defined[OF assms(1)] assms(3) by auto
  have p: "json_find (envelope_doc meta d kind payload) ''payload'' = Some (JObject [(domain_to_string d, JObject [(kind_to_string kind, payload)])])"
    by (simp add: envelope_doc_def)
  have "decode_payload_of meta (JObject [(domain_to_string d, JObject [(kind_to_string kind, payload)])]) =
      Some \<lparr>de_meta = meta, de_domain = d, de_kind = kind, de_payload = payload\<rparr>"
    by (simp add: decode_payload_of_def sole_entry_def domain_round_trip[OF d(2)] kind_round_trip[OF assms(1)])
  with p assms(2,4) d(1) show ?thesis
    by (simp add: decode_typed_envelope_def encode_typed_envelope_def encode_envelope_def decode_envelope_def decode_meta_doc is_object_def)
qed

definition wire_fits :: "wire_envelope \<Rightarrow> bool" where
  "wire_fits e \<longleftrightarrow> meta_fits (to_meta e)"

text \<open>Backend envelopes survive the wire.  An envelope whose numbers fit their fields is read back from its JSON text as it was.\<close>

theorem wire_envelope_round_trip:
  assumes "wire_fits e" and "parse (dump (wire_doc e)) = Some (wire_doc e)"
  shows "wire_from_json parse (wire_to_json dump e) = Inr (Some e)"
  using assms
  by (cases e) (simp add: wire_from_json_def wire_to_json_def request_has_def wire_doc_def is_object_def json_has_def at_key_def wire_rest_def value_or_def
      wire_fits_def to_meta_def meta_fits_def Let_def)

text \<open>The two envelopes agree.  A typed envelope between known services is turned into a backend envelope and back without loss.\<close>

theorem adapter_round_trip:
  assumes "te_kind t \<noteq> EkUnknown" "em_source_service (te_meta t) = service_text src" "em_target_service (te_meta t) = service_text tgt"
    and "parse (dump (te_payload t)) = Some (te_payload t)" "dump (te_payload t) \<noteq> []"
  shows "to_typed_envelope parse (to_backend_envelope dump t kind) = Some t"
  using assms backend_type_round_trip[OF assms(1)]
  by (cases t; cases "te_meta t") (simp add: to_typed_envelope_def to_backend_envelope_def to_meta_def Let_def)

lemma empty_type_is_known: "message_kind_from_backend_type [] = Some EkUnknown"
  unfolding message_kind_from_backend_type_def kMessageTypeMappings_def by (simp add: numeral_2_eq_2)

text \<open>A defect.  An envelope without a message type is not refused: the unused places of the table give it the unknown kind, and the typed envelope
  made from it is encoded as an empty text.\<close>

theorem empty_type_not_refused:
  assumes "we_message_type e = []" and "parse (we_payload e) = Some doc"
  shows "\<exists>t. to_typed_envelope parse e = Some t \<and> te_kind t = EkUnknown \<and> encode_typed_envelope dump (te_meta t) (te_kind t) (te_payload t) = []"
  using assms by (simp add: to_typed_envelope_def empty_type_is_known encode_typed_envelope_def domain_for_kind_def split: option.split)

text \<open>A legacy document with an object under the key of the payload and a text as correlation number makes the reader throw.\<close>

lemma mistyped_legacy_payload_throws:
  assumes "parse (we_payload e) = Some (JObject [(''payload'', JObject []), (''correlation_id'', JString t)])"
  shows "decode_handler_payload parse e = Inl (TypeError (JString t))"
  using assms by (simp add: decode_handler_payload_def decode_typed_envelope_def decode_envelope_def is_object_def decode_meta_def value_or_def get_uint64_def)

text \<open>A library that prints one document.\<close>

definition sample_meta :: envelope_meta where
  "sample_meta = \<lparr>em_correlation_id = 7, em_source_service = ''gateway'', em_target_service = ''login'', em_timeout_ms = 500, em_error_code = - 1003,
     em_trace_id = 1, em_span_id = 2\<rparr>"

definition sample_request :: wire_envelope where
  "sample_request = \<lparr>we_correlation_id = 7, we_source_service = SvcGateway, we_target_service = SvcLogin, we_kind = KindRequest, we_timeout_ms = 500,
     we_error_code = 0, we_payload = ''{}'', we_message_type = [], we_trace_id = 1, we_span_id = 2\<rparr>"

lemma sample_fits: "meta_fits sample_meta" "wire_fits sample_request"
  by (simp_all add: meta_fits_def sample_meta_def wire_fits_def to_meta_def sample_request_def)

theorem typed_envelope_round_trip_witness:
  "decode_typed_envelope (\<lambda>t. Some (envelope_doc sample_meta DomLogin EkLoginRequest JNull)) (encode_typed_envelope (\<lambda>d. ''text'') sample_meta EkLoginRequest JNull) =
     Inr (Some \<lparr>te_meta = sample_meta, te_kind = EkLoginRequest, te_payload = JNull\<rparr>)"
  by (rule typed_envelope_round_trip) (simp_all add: sample_fits domain_for_kind_def)

theorem wire_envelope_round_trip_witness:
  "wire_from_json (\<lambda>t. Some (wire_doc sample_request)) (wire_to_json (\<lambda>d. ''text'') sample_request) = Inr (Some sample_request)"
  by (rule wire_envelope_round_trip) (simp_all add: sample_fits)

theorem adapter_round_trip_witness:
  "to_typed_envelope (\<lambda>t. Some JNull) (to_backend_envelope (\<lambda>d. ''null'') \<lparr>te_meta = sample_meta, te_kind = EkRoomJoinRequest, te_payload = JNull\<rparr> KindRequest) =
     Some \<lparr>te_meta = sample_meta, te_kind = EkRoomJoinRequest, te_payload = JNull\<rparr>"
  by (rule adapter_round_trip[of _ SvcGateway SvcLogin]) (simp_all add: sample_meta_def service_text_def)

theorem empty_type_not_refused_witness:
  "\<exists>t. to_typed_envelope (\<lambda>t. Some (JObject [])) sample_request = Some t \<and> te_kind t = EkUnknown"
  using empty_type_not_refused[of sample_request "\<lambda>t. Some (JObject [])" "JObject []" "\<lambda>d. ''text''"] by (auto simp: sample_request_def)

end
