(* ===== verification/Lru_Cache.thy ===== *)
theory Lru_Cache
  imports Prelude "HOL-Library.AList"
begin

text \<open>
  \<^verbatim>\<open>LruCache\<close> (\<^verbatim>\<open>include/v2/data/lru_cache.h\<close>): a linked list of entries, the most recently used first, and a
  table from keys to list nodes.  A list node has an identity, and an iterator is the identity of its
  node; using an iterator whose node is gone, or the last node of an empty list, is undefined, the
  value \<open>None\<close>.  The theory shows that the cache implements a bounded list of entries in the order of
  their last use, and that no operation is undefined unless the capacity is 0.
\<close>

subsection \<open>The cache\<close>

record ('k, 'v) lru_cache =
  lc_max_size :: nat
  lc_list :: "(nat \<times> 'k \<times> 'v) list"
  lc_map :: "('k \<times> nat) list"
  lc_next_node :: nat

definition new_lru_cache :: "nat \<Rightarrow> ('k, 'v) lru_cache" where
  "new_lru_cache max_size = \<lparr>lc_max_size = max_size, lc_list = [], lc_map = [], lc_next_node = 0\<rparr>"

text \<open>\<^verbatim>\<open>list_.splice(list_.begin(), list_, it)\<close>\<close>

definition splice_front :: "nat \<Rightarrow> (nat \<times> 'k \<times> 'v) list \<Rightarrow> (nat \<times> 'k \<times> 'v) list option" where
  "splice_front it xs = (case find (\<lambda>n. fst n = it) xs of None \<Rightarrow> None | Some n \<Rightarrow> Some (n # filter (\<lambda>m. fst m \<noteq> it) xs))"

definition assign_value :: "nat \<Rightarrow> 'v \<Rightarrow> (nat \<times> 'k \<times> 'v) list \<Rightarrow> (nat \<times> 'k \<times> 'v) list" where
  "assign_value it v xs = map (\<lambda>(i, k, w). (i, k, if i = it then v else w)) xs"

definition lru_get :: "'k \<Rightarrow> ('k, 'v) lru_cache \<Rightarrow> ('v option \<times> ('k, 'v) lru_cache) option" where
  "lru_get key c =
     (case map_of (lc_map c) key of
        None \<Rightarrow> Some (None, c)
      | Some it \<Rightarrow>
         (case splice_front it (lc_list c) of
            None \<Rightarrow> None
          | Some xs \<Rightarrow> Some (Some (snd (snd (hd xs))), c\<lparr>lc_list := xs\<rparr>)))"

definition lru_put :: "'k \<Rightarrow> 'v \<Rightarrow> ('k, 'v) lru_cache \<Rightarrow> (('k \<times> 'v) option \<times> ('k, 'v) lru_cache) option" where
  "lru_put key v c =
     (case map_of (lc_map c) key of
        Some it \<Rightarrow> map_option (\<lambda>xs. (None, c\<lparr>lc_list := xs\<rparr>)) (splice_front it (assign_value it v (lc_list c)))
      | None \<Rightarrow>
         (let insert_front = (\<lambda>c. c\<lparr>lc_list := (lc_next_node c, key, v) # lc_list c, lc_map := AList.update key (lc_next_node c) (lc_map c),
                                    lc_next_node := lc_next_node c + 1\<rparr>)
          in if length (lc_map c) \<ge> lc_max_size c then
              (if lc_list c = [] then None
               else (let evicted = snd (last (lc_list c))
                     in Some (Some evicted, insert_front (c\<lparr>lc_map := AList.delete (fst evicted) (lc_map c), lc_list := butlast (lc_list c)\<rparr>))))
             else Some (None, insert_front c)))"

definition lru_remove :: "'k \<Rightarrow> ('k, 'v) lru_cache \<Rightarrow> ('k, 'v) lru_cache" where
  "lru_remove key c =
     (case map_of (lc_map c) key of
        None \<Rightarrow> c
      | Some it \<Rightarrow> c\<lparr>lc_list := filter (\<lambda>m. fst m \<noteq> it) (lc_list c), lc_map := AList.delete key (lc_map c)\<rparr>)"

definition lru_clear :: "('k, 'v) lru_cache \<Rightarrow> ('k, 'v) lru_cache" where
  "lru_clear c = c\<lparr>lc_list := [], lc_map := []\<rparr>"

definition lru_size :: "('k, 'v) lru_cache \<Rightarrow> nat" where
  "lru_size c = length (lc_map c)"

definition lru_contains :: "'k \<Rightarrow> ('k, 'v) lru_cache \<Rightarrow> (bool \<times> ('k, 'v) lru_cache) option" where
  "lru_contains key c =
     (case map_of (lc_map c) key of
        None \<Rightarrow> Some (False, c)
      | Some it \<Rightarrow> map_option (\<lambda>xs. (True, c\<lparr>lc_list := xs\<rparr>)) (splice_front it (lc_list c)))"

text \<open>The entries \<^verbatim>\<open>for_each\<close> visits, and what \<^verbatim>\<open>drain\<close> returns.\<close>

definition lru_entries :: "('k, 'v) lru_cache \<Rightarrow> ('k \<times> 'v) list" where
  "lru_entries c = map snd (lc_list c)"

definition lru_drain :: "('k, 'v) lru_cache \<Rightarrow> ('k \<times> 'v) list \<times> ('k, 'v) lru_cache" where
  "lru_drain c = (lru_entries c, lru_clear c)"

subsection \<open>Operations in sequence\<close>

datatype ('k, 'v) lru_op = Get 'k | Put 'k 'v | Remove 'k | Clear | Contains 'k | Drain
datatype ('k, 'v) lru_out = Found "'v option" | Evicted "('k \<times> 'v) option" | Done | IsIn bool | Drained "('k \<times> 'v) list"

fun lru_step :: "('k, 'v) lru_op \<Rightarrow> ('k, 'v) lru_cache \<Rightarrow> (('k, 'v) lru_out \<times> ('k, 'v) lru_cache) option" where
  "lru_step (Get k) c = map_option (\<lambda>(r, c). (Found r, c)) (lru_get k c)"
| "lru_step (Put k v) c = map_option (\<lambda>(r, c). (Evicted r, c)) (lru_put k v c)"
| "lru_step (Remove k) c = Some (Done, lru_remove k c)"
| "lru_step Clear c = Some (Done, lru_clear c)"
| "lru_step (Contains k) c = map_option (\<lambda>(r, c). (IsIn r, c)) (lru_contains k c)"
| "lru_step Drain c = Some (case lru_drain c of (r, c) \<Rightarrow> (Drained r, c))"

fun lru_run :: "('k, 'v) lru_op list \<Rightarrow> ('k, 'v) lru_cache \<Rightarrow> (('k, 'v) lru_out list \<times> ('k, 'v) lru_cache) option" where
  "lru_run [] c = Some ([], c)"
| "lru_run (op # ops) c =
     (case lru_step op c of
        None \<Rightarrow> None
      | Some (r, c1) \<Rightarrow> map_option (\<lambda>(rs, c2). (r # rs, c2)) (lru_run ops c1))"

subsection \<open>Specification\<close>

text \<open>A list of entries in the order of their last use.\<close>

definition use_entry :: "'k \<Rightarrow> ('k \<times> 'v) list \<Rightarrow> ('k \<times> 'v) list" where
  "use_entry k xs = (case map_of xs k of None \<Rightarrow> xs | Some v \<Rightarrow> (k, v) # filter (\<lambda>e. fst e \<noteq> k) xs)"

definition put_entry :: "nat \<Rightarrow> 'k \<Rightarrow> 'v \<Rightarrow> ('k \<times> 'v) list \<Rightarrow> ('k \<times> 'v) option \<times> ('k \<times> 'v) list" where
  "put_entry n k v xs =
     (if map_of xs k \<noteq> None then (None, (k, v) # filter (\<lambda>e. fst e \<noteq> k) xs)
      else if length xs < n then (None, (k, v) # xs)
      else (Some (last xs), (k, v) # butlast xs))"

fun spec_step :: "nat \<Rightarrow> ('k, 'v) lru_op \<Rightarrow> ('k \<times> 'v) list \<Rightarrow> ('k, 'v) lru_out \<times> ('k \<times> 'v) list" where
  "spec_step n (Get k) xs = (Found (map_of xs k), use_entry k xs)"
| "spec_step n (Put k v) xs = (case put_entry n k v xs of (r, ys) \<Rightarrow> (Evicted r, ys))"
| "spec_step n (Remove k) xs = (Done, filter (\<lambda>e. fst e \<noteq> k) xs)"
| "spec_step n Clear xs = (Done, [])"
| "spec_step n (Contains k) xs = (IsIn (map_of xs k \<noteq> None), use_entry k xs)"
| "spec_step n Drain xs = (Drained xs, [])"

fun spec_run :: "nat \<Rightarrow> ('k, 'v) lru_op list \<Rightarrow> ('k \<times> 'v) list \<Rightarrow> ('k, 'v) lru_out list \<times> ('k \<times> 'v) list" where
  "spec_run n [] xs = ([], xs)"
| "spec_run n (op # ops) xs = (case spec_step n op xs of (r, ys) \<Rightarrow> case spec_run n ops ys of (rs, zs) \<Rightarrow> (r # rs, zs))"

subsection \<open>Refinement\<close>

text \<open>Nodes and keys are different, and the table knows exactly the nodes.\<close>

definition lru_inv :: "('k, 'v) lru_cache \<Rightarrow> bool" where
  "lru_inv c \<longleftrightarrow> distinct (map fst (lc_list c)) \<and> distinct (map (fst \<circ> snd) (lc_list c)) \<and> distinct (map fst (lc_map c)) \<and>
     (\<forall>k i. map_of (lc_map c) k = Some i \<longleftrightarrow> (\<exists>v. (i, k, v) \<in> set (lc_list c))) \<and> (\<forall>n \<in> set (lc_list c). fst n < lc_next_node c) \<and>
     length (lc_list c) \<le> lc_max_size c"

lemma lru_inv_fields:
  "lru_inv \<lparr>lc_max_size = mx, lc_list = xs, lc_map = m, lc_next_node = nx\<rparr> \<longleftrightarrow> distinct (map fst xs) \<and> distinct (map (fst \<circ> snd) xs) \<and> distinct (map fst m) \<and>
     (\<forall>k i. map_of m k = Some i \<longleftrightarrow> (\<exists>v. (i, k, v) \<in> set xs)) \<and> (\<forall>n \<in> set xs. fst n < nx) \<and> length xs \<le> mx"
  unfolding lru_inv_def by simp

lemma lru_inv_new [simp]: "lru_inv (new_lru_cache n)"
  by (simp add: lru_inv_def new_lru_cache_def)

lemma lru_lookup: "lru_inv c \<Longrightarrow> map_of (lc_map c) k = Some i \<longleftrightarrow> (\<exists>v. (i, k, v) \<in> set (lc_list c))"
  by (simp add: lru_inv_def)

lemma lru_missing: "lru_inv c \<Longrightarrow> map_of (lc_map c) k = None \<longleftrightarrow> k \<notin> set (map (fst \<circ> snd) (lc_list c))"
  using lru_lookup[of c k] by (cases "map_of (lc_map c) k") force+

lemma lru_missing_entry: "lru_inv c \<Longrightarrow> map_of (lc_map c) k = None \<longleftrightarrow> map_of (lru_entries c) k = None"
  by (subst lru_missing) (simp_all add: map_of_eq_None_iff lru_entries_def image_image)

lemma lru_size_list:
  assumes "lru_inv c"
  shows "length (lc_map c) = length (lc_list c)"
proof -
  have "fst ` set (lc_map c) = set (map (fst \<circ> snd) (lc_list c))"
    using lru_missing[OF assms] by (auto simp: map_of_eq_None_iff)
  moreover have "length (lc_map c) = card (fst ` set (lc_map c))" using assms unfolding lru_inv_def by (metis distinct_card length_map set_map)
  moreover have "length (lc_list c) = card (set (map (fst \<circ> snd) (lc_list c)))" using assms unfolding lru_inv_def by (metis distinct_card length_map)
  ultimately show ?thesis by simp
qed

text \<open>The node of a key, and the list without it.\<close>

lemma lru_node:
  assumes "lru_inv c" and "(i, k, v) \<in> set (lc_list c)"
  shows "find (\<lambda>n. fst n = i) (lc_list c) = Some (i, k, v)" "map_of (lru_entries c) k = Some v"
    "\<And>n. n \<in> set (lc_list c) \<Longrightarrow> fst n = i \<longleftrightarrow> fst (snd n) = k"
    "map snd (filter (\<lambda>m. fst m \<noteq> i) (lc_list c)) = filter (\<lambda>e. fst e \<noteq> k) (lru_entries c)"
proof -
  have d: "distinct (map fst (lc_list c))" "distinct (map (fst \<circ> snd) (lc_list c))" using assms(1) by (simp_all add: lru_inv_def)
  have "find (\<lambda>n. fst n = fst x) xs = Some x" if "distinct (map fst xs)" "x \<in> set xs" for x :: "nat \<times> 'a \<times> 'b" and xs
    using that by (induction xs) (auto simp: image_iff)
  from this[OF d(1) assms(2)] show "find (\<lambda>n. fst n = i) (lc_list c) = Some (i, k, v)" by simp
  have "distinct (map fst (lru_entries c))" using d(2) by (simp add: lru_entries_def)
  moreover have "(k, v) \<in> set (lru_entries c)" using assms(2) by (force simp: lru_entries_def)
  ultimately show "map_of (lru_entries c) k = Some v" by (rule map_of_is_SomeI)
  show n: "fst n = i \<longleftrightarrow> fst (snd n) = k" if "n \<in> set (lc_list c)" for n
  proof
    assume "fst n = i"
    with d(1) that assms(2) have "n = (i, k, v)" by (metis distinct_map inj_onD fst_conv)
    then show "fst (snd n) = k" by simp
  next
    assume "fst (snd n) = k"
    with d(2) that assms(2) have "n = (i, k, v)" by (metis distinct_map inj_onD comp_apply fst_conv snd_conv)
    then show "fst n = i" by simp
  qed
  have "filter (\<lambda>m. fst m \<noteq> i) (lc_list c) = filter (\<lambda>m. fst (snd m) \<noteq> k) (lc_list c)" by (rule filter_cong) (simp_all add: n)
  then show "map snd (filter (\<lambda>m. fst m \<noteq> i) (lc_list c)) = filter (\<lambda>e. fst e \<noteq> k) (lru_entries c)"
    by (simp add: lru_entries_def filter_map comp_def)
qed

lemma splice_front_inv:
  assumes "lru_inv c" and "(i, k, v) \<in> set (lc_list c)"
  shows "lru_inv (c\<lparr>lc_list := (i, k, w) # filter (\<lambda>m. fst m \<noteq> i) (lc_list c)\<rparr>)"
proof -
  let ?xs = "filter (\<lambda>m. fst m \<noteq> i) (lc_list c)"
  have n: "fst n = i \<longleftrightarrow> fst (snd n) = k" if "n \<in> set (lc_list c)" for n using lru_node(3)[OF assms] that by simp
  have "length ?xs < length (lc_list c)" using assms(2) by (intro length_filter_less) auto
  then have 1: "length ((i, k, w) # ?xs) \<le> lc_max_size c" using assms(1) by (simp add: lru_inv_def)
  have "k \<notin> (fst \<circ> snd) ` set ?xs" using n by auto
  then have 2: "distinct (map (fst \<circ> snd) ((i, k, w) # ?xs))" using assms(1) by (simp add: lru_inv_def distinct_map_filter)
  have 3: "distinct (map fst ((i, k, w) # ?xs))" using assms(1) by (auto simp: lru_inv_def distinct_map_filter)
  have 4: "(\<exists>u. (i', k', u) \<in> set ((i, k, w) # ?xs)) \<longleftrightarrow> (\<exists>u. (i', k', u) \<in> set (lc_list c))" for i' k'
    using assms(2) n[of "(i', k', _)"] by (cases "i' = i") fastforce+
  have 5: "\<forall>n \<in> set ((i, k, w) # ?xs). fst n < lc_next_node c" using assms by (auto simp: lru_inv_def)
  have 6: "\<forall>k' i'. map_of (lc_map c) k' = Some i' \<longleftrightarrow> (\<exists>u. (i', k', u) \<in> set ((i, k, w) # ?xs))" unfolding 4 using assms(1) by (simp add: lru_inv_def)
  have "distinct (map fst (lc_map c))" using assms(1) by (simp add: lru_inv_def)
  then have "lru_inv \<lparr>lc_max_size = lc_max_size c, lc_list = (i, k, w) # ?xs, lc_map = lc_map c, lc_next_node = lc_next_node c\<rparr>"
    unfolding lru_inv_fields using 1 2 3 5 6 by blast
  then show ?thesis by (cases c) simp
qed

lemma lru_use:
  assumes "lru_inv c" and "map_of (lc_map c) k = Some i"
  shows "\<exists>xs v. splice_front i (lc_list c) = Some ((i, k, v) # xs) \<and> map_of (lru_entries c) k = Some v \<and> lru_inv (c\<lparr>lc_list := (i, k, v) # xs\<rparr>) \<and>
    lru_entries (c\<lparr>lc_list := (i, k, v) # xs\<rparr>) = use_entry k (lru_entries c)"
proof -
  obtain v where v: "(i, k, v) \<in> set (lc_list c)" using assms by (auto simp: lru_lookup)
  from lru_node[OF assms(1) v] splice_front_inv[OF assms(1) v, of v] show ?thesis
    by (intro exI[of _ "filter (\<lambda>m. fst m \<noteq> i) (lc_list c)"] exI[of _ v]) (simp add: splice_front_def use_entry_def lru_entries_def)
qed


lemma assign_value_node:
  assumes "lru_inv c" and "(i, k, v) \<in> set (lc_list c)"
  shows "splice_front i (assign_value i w (lc_list c)) = Some ((i, k, w) # filter (\<lambda>m. fst m \<noteq> i) (lc_list c))"
proof -
  have "find (\<lambda>n. fst n = i) (assign_value i w xs) = map_option (\<lambda>(j, k, u). (j, k, w)) (find (\<lambda>n. fst n = i) xs)" for xs :: "(nat \<times> 'a \<times> 'b) list"
    by (induction xs) (auto simp: assign_value_def)
  moreover have "filter (\<lambda>m. fst m \<noteq> i) (assign_value i w xs) = filter (\<lambda>m. fst m \<noteq> i) xs" for xs :: "(nat \<times> 'a \<times> 'b) list"
    by (induction xs) (auto simp: assign_value_def)
  ultimately show ?thesis using lru_node(1)[OF assms] by (simp add: splice_front_def)
qed

text \<open>Room for one more entry, and a new entry in front.\<close>

lemma insert_front_inv:
  assumes "lru_inv c" and "map_of (lc_map c) k = None" and "length (lc_list c) < lc_max_size c"
  shows "lru_inv (c\<lparr>lc_list := (lc_next_node c, k, v) # lc_list c, lc_map := AList.update k (lc_next_node c) (lc_map c), lc_next_node := lc_next_node c + 1\<rparr>)"
proof -
  have k: "k \<notin> set (map (fst \<circ> snd) (lc_list c))" using lru_missing[OF assms(1)] assms(2) by simp
  have n: "lc_next_node c \<notin> fst ` set (lc_list c)" using assms(1) by (auto simp: lru_inv_def)
  have m: "map_of (AList.update k (lc_next_node c) (lc_map c)) k' = Some i \<longleftrightarrow> (\<exists>u. (i, k', u) \<in> set ((lc_next_node c, k, v) # lc_list c))" for k' i
    using lru_lookup[OF assms(1), of k' i] k n by (auto simp: update_conv' image_iff)
  have "lru_inv \<lparr>lc_max_size = lc_max_size c, lc_list = (lc_next_node c, k, v) # lc_list c, lc_map = AList.update k (lc_next_node c) (lc_map c),
      lc_next_node = lc_next_node c + 1\<rparr>"
    unfolding lru_inv_fields using assms k n m by (auto simp: lru_inv_def distinct_update less_SucI)
  then show ?thesis by (cases c) simp
qed

lemma evict_inv:
  assumes "lru_inv c" and "lc_list c \<noteq> []"
  shows "lru_inv (c\<lparr>lc_map := AList.delete (fst (snd (last (lc_list c)))) (lc_map c), lc_list := butlast (lc_list c)\<rparr>)"
proof -
  obtain xs i k v where l: "lc_list c = xs @ [(i, k, v)]" using assms(2) by (metis append_butlast_last_id prod_cases3)
  have k: "k \<notin> set (map (fst \<circ> snd) xs)" "i \<notin> set (map fst xs)" using assms(1) l by (auto simp: lru_inv_def)
  have m: "map_of (AList.delete k (lc_map c)) k' = Some j \<longleftrightarrow> (\<exists>u. (j, k', u) \<in> set xs)" for k' j
    using lru_lookup[OF assms(1), of k' j] k l by (auto simp: delete_conv' restrict_map_def image_iff)
  have "lru_inv \<lparr>lc_max_size = lc_max_size c, lc_list = xs, lc_map = AList.delete k (lc_map c), lc_next_node = lc_next_node c\<rparr>"
    unfolding lru_inv_fields using assms(1) l m by (auto simp: lru_inv_def distinct_delete)
  then show ?thesis by (cases c) (use l in simp)
qed

lemma lru_put_refines:
  assumes "lru_inv c" and "0 < lc_max_size c"
  shows "\<exists>r c'. lru_put k v c = Some (r, c') \<and> lru_inv c' \<and> lc_max_size c' = lc_max_size c \<and> (r, lru_entries c') = put_entry (lc_max_size c) k v (lru_entries c)"
proof (cases "map_of (lc_map c) k")
  case (Some i)
  obtain u where u: "(i, k, u) \<in> set (lc_list c)" using assms(1) Some by (auto simp: lru_lookup)
  with lru_node[OF assms(1) u] assign_value_node[OF assms(1) u, of v] splice_front_inv[OF assms(1) u, of v] Some show ?thesis
    by (simp add: lru_put_def put_entry_def lru_entries_def)
next
  case None
  then have e: "map_of (lru_entries c) k = None" using lru_missing_entry[OF assms(1)] by simp
  have sz: "length (lc_map c) = length (lc_list c)" by (rule lru_size_list[OF assms(1)])
  show ?thesis
  proof (cases "length (lc_list c) < lc_max_size c")
    case True
    with insert_front_inv[OF assms(1) None True, of v] None e sz show ?thesis by (simp add: lru_put_def put_entry_def Let_def lru_entries_def)
  next
    case False
    then have ne: "lc_list c \<noteq> []" using assms(2) by auto
    let ?c1 = "c\<lparr>lc_map := AList.delete (fst (snd (last (lc_list c)))) (lc_map c), lc_list := butlast (lc_list c)\<rparr>"
    have i1: "lru_inv ?c1" by (rule evict_inv[OF assms(1) ne])
    have "map_of (lc_map ?c1) k = None" using None by (simp add: delete_conv' restrict_map_def)
    moreover have "length (lc_list ?c1) < lc_max_size ?c1" using assms ne by (auto simp: lru_inv_def)
    ultimately have "lru_inv (?c1\<lparr>lc_list := (lc_next_node ?c1, k, v) # lc_list ?c1, lc_map := AList.update k (lc_next_node ?c1) (lc_map ?c1),
        lc_next_node := lc_next_node ?c1 + 1\<rparr>)" by (rule insert_front_inv[OF i1])
    with False None e sz ne show ?thesis by (simp add: lru_put_def put_entry_def Let_def lru_entries_def last_map map_butlast)
  qed
qed

lemma lru_remove_refines:
  assumes "lru_inv c"
  shows "lru_inv (lru_remove k c) \<and> lru_entries (lru_remove k c) = filter (\<lambda>e. fst e \<noteq> k) (lru_entries c)"
proof (cases "map_of (lc_map c) k")
  case None
  then have "k \<notin> set (map (fst \<circ> snd) (lc_list c))" using lru_missing[OF assms] by simp
  then have "filter (\<lambda>e. fst e \<noteq> k) (lru_entries c) = lru_entries c" by (auto simp: lru_entries_def filter_id_conv)
  with None assms show ?thesis by (simp add: lru_remove_def)
next
  case (Some i)
  obtain u where u: "(i, k, u) \<in> set (lc_list c)" using assms Some by (auto simp: lru_lookup)
  let ?xs = "filter (\<lambda>m. fst m \<noteq> i) (lc_list c)"
  have m: "map_of (AList.delete k (lc_map c)) k' = Some j \<longleftrightarrow> (\<exists>u. (j, k', u) \<in> set ?xs)" for k' j
    using lru_lookup[OF assms, of k' j] lru_node(3)[OF assms u, of "(j, k', _)"] by (auto simp: delete_conv' restrict_map_def)
  have "length ?xs \<le> lc_max_size c" using assms by (meson length_filter_le lru_inv_def order_trans)
  then have "lru_inv \<lparr>lc_max_size = lc_max_size c, lc_list = ?xs, lc_map = AList.delete k (lc_map c), lc_next_node = lc_next_node c\<rparr>"
    unfolding lru_inv_fields using assms m by (auto simp: lru_inv_def distinct_delete distinct_map_filter)
  then show ?thesis using Some lru_node(4)[OF assms u] by (cases c) (simp add: lru_remove_def lru_entries_def)
qed

lemma lru_step_refines:
  assumes "lru_inv c" and "0 < lc_max_size c"
  shows "\<exists>r c'. lru_step op c = Some (r, c') \<and> lru_inv c' \<and> lc_max_size c' = lc_max_size c \<and> spec_step (lc_max_size c) op (lru_entries c) = (r, lru_entries c')"
proof (cases op)
  case (Get k)
  with assms lru_use[OF assms(1), of k] lru_missing_entry[OF assms(1), of k] show ?thesis
    by (cases "map_of (lc_map c) k") (auto simp: lru_get_def use_entry_def)
next
  case (Contains k)
  with assms lru_use[OF assms(1), of k] lru_missing_entry[OF assms(1), of k] show ?thesis
    by (cases "map_of (lc_map c) k") (fastforce simp: lru_contains_def use_entry_def)+
next
  case (Put k v)
  with lru_put_refines[OF assms, of k v] show ?thesis by (auto dest: sym)
next
  case (Remove k)
  with lru_remove_refines[OF assms(1), of k] show ?thesis by (auto simp: lru_remove_def split: option.split)
qed (use assms in \<open>auto simp: lru_clear_def lru_drain_def lru_inv_def lru_entries_def\<close>)

lemma lru_run_refines:
  assumes "lru_inv c" and "0 < lc_max_size c"
  shows "\<exists>rs c'. lru_run ops c = Some (rs, c') \<and> lru_inv c' \<and> lc_max_size c' = lc_max_size c \<and> spec_run (lc_max_size c) ops (lru_entries c) = (rs, lru_entries c')"
  using assms
proof (induction ops arbitrary: c)
  case (Cons op ops)
  obtain r c1 where s: "lru_step op c = Some (r, c1)" "lru_inv c1" "lc_max_size c1 = lc_max_size c" "spec_step (lc_max_size c) op (lru_entries c) = (r, lru_entries c1)"
    using lru_step_refines[OF Cons.prems, of op] by blast
  with Cons.IH[of c1] Cons.prems show ?case by (auto simp: s)
qed simp

text \<open>C28: The cache implements its specification.  For every capacity above 0 and every sequence of operations, nothing undefined happens, and results and contents are those of a
  bounded list of entries in the order of their last use, from which the last one is evicted.\<close>

theorem lru_refines_recency_list:
  assumes "0 < n"
  shows "\<exists>rs c. lru_run ops (new_lru_cache n) = Some (rs, c) \<and> spec_run n ops [] = (rs, lru_entries c) \<and> lru_size c = length (lru_entries c) \<and> lru_size c \<le> n"
  using lru_run_refines[of "new_lru_cache n" ops] assms lru_inv_new[of n]
  by (auto simp: new_lru_cache_def lru_entries_def lru_size_def lru_size_list lru_inv_def[of _ ] dest: lru_size_list)

text \<open>A defect.  A cache of capacity 0 takes the last node of an empty list when the first entry is put.\<close>

theorem lru_capacity_zero_undefined: "lru_put k v (new_lru_cache 0) = None"
  by (simp add: lru_put_def new_lru_cache_def)

theorem lru_refines_recency_list_witness:
  "\<exists>rs c. lru_run [Put (1 :: nat) ''a'', Put 2 ''b'', Get 1, Put 3 ''c'', Get 2] (new_lru_cache 2) = Some (rs, c) \<and>
     rs = [Evicted None, Evicted None, Found (Some ''a''), Evicted (Some (2, ''b'')), Found None] \<and> lru_size c \<le> 2"
  using lru_refines_recency_list[of 2 "[Put (1 :: nat) ''a'', Put 2 ''b'', Get 1, Put 3 ''c'', Get 2]"]
  by (auto simp: put_entry_def use_entry_def)

end
