(* ===== verification/Write_Behind.thy ===== *)
theory Write_Behind
  imports Prelude Json_Document
begin

text \<open>
  \<^verbatim>\<open>WriteBehindDataStore\<close> (\<^verbatim>\<open>src/v2/data/write_behind_store.cpp\<close>): writes are queued and a worker thread hands
  them to the store behind.  A step is a region that holds the mutex, or an action without it.
  Waiting on the condition variable is two steps, the check of the condition and the start of the
  wait, and the mutex is held in between; there are no spurious wake-ups.  \<open>wb_step\<close> interleaves the
  worker, any number of clients that write and flush, and the destructor.  The theory shows that the
  writes reach the store behind in their order and that a flush waits for all of them, that the worker
  never sleeps while there is work, and that the destructor can wait forever.
\<close>

subsection \<open>Commands\<close>

record battle_archive =
  ba_battle_id :: string
  ba_room_id :: string
  ba_reason :: string
  ba_triggering_user_id :: string
  ba_total_frames :: nat
  ba_participants :: "string list"
  ba_winner :: "string option"
  ba_scores :: "(string \<times> int) list"
  ba_replay_payload :: string

datatype write_command = WriteReplay string string | WriteResult string string | WriteSnapshot string string | WritePersist battle_archive

datatype delegate_call = CallReplay string string | CallResult string string | CallSnapshot string string

definition archive_report :: "battle_archive \<Rightarrow> json" where
  "archive_report a =
     JObject [(''battle_id'', JString (ba_battle_id a)), (''room_id'', JString (ba_room_id a)), (''reason'', JString (ba_reason a)),
       (''triggering_user_id'', JString (ba_triggering_user_id a)), (''total_frames'', JInt (int (ba_total_frames a))),
       (''participants'', JArray (map JString (ba_participants a))),
       (''winner_user_id'', case ba_winner a of None \<Rightarrow> JNull | Some w \<Rightarrow> JString w),
       (''scores'', JArray (map (\<lambda>(u, n). JObject [(''user_id'', JString u), (''score'', JInt n)]) (ba_scores a)))]"

text \<open>The calls of the store behind that a command makes.\<close>

definition delegate_calls :: "(json \<Rightarrow> string) \<Rightarrow> write_command \<Rightarrow> delegate_call list" where
  "delegate_calls dump cmd =
     (case cmd of
        WriteReplay b text \<Rightarrow> [CallReplay b text]
      | WriteResult b text \<Rightarrow> [CallResult b text]
      | WriteSnapshot b text \<Rightarrow> [CallSnapshot b text]
      | WritePersist a \<Rightarrow> [CallResult (ba_battle_id a) (dump (archive_report a)), CallReplay (ba_battle_id a) (ba_replay_payload a)])"

subsection \<open>Threads\<close>

datatype worker_pc = WkTop | WkLock | WkAboutToWait | WkWaiting | WkWriting write_command | WkRecord bool | WkNotify | WkExited
datatype flusher_pc = FlIdle | FlLock | FlAboutToWait | FlWaiting | FlReturned
datatype destructor_pc = DtIdle | DtFlushing | DtStopping | DtNotifying | DtJoining | DtDone

text \<open>\<open>wb_written\<close> are the commands handed to the store behind with its answer and \<open>wb_history\<close> all commands ever queued; flush call 0 is that of the
  destructor.\<close>

record write_behind =
  wb_queue :: "write_command list"
  wb_running :: bool
  wb_enqueued :: nat
  wb_flushed :: nat
  wb_failed :: nat
  wb_worker_idle :: bool
  wb_worker :: worker_pc
  wb_flusher :: "nat \<Rightarrow> flusher_pc"
  wb_destructor :: destructor_pc
  wb_written :: "(write_command \<times> bool) list"
  wb_history :: "write_command list"

definition new_write_behind :: write_behind where
  "new_write_behind = \<lparr>wb_queue = [], wb_running = True, wb_enqueued = 0, wb_flushed = 0, wb_failed = 0, wb_worker_idle = True, wb_worker = WkTop,
     wb_flusher = (\<lambda>_. FlIdle), wb_destructor = DtIdle, wb_written = [], wb_history = []\<rparr>"

definition mutex_free :: "write_behind \<Rightarrow> bool" where
  "mutex_free s \<longleftrightarrow> wb_worker s \<noteq> WkAboutToWait \<and> (\<forall>i. wb_flusher s i \<noteq> FlAboutToWait)"

definition wake_worker :: "write_behind \<Rightarrow> write_behind" where
  "wake_worker s = (if wb_worker s = WkWaiting then s\<lparr>wb_worker := WkLock\<rparr> else s)"

definition wake_flushers :: "write_behind \<Rightarrow> write_behind" where
  "wake_flushers s = s\<lparr>wb_flusher := (\<lambda>i. if wb_flusher s i = FlWaiting then FlLock else wb_flusher s i)\<rparr>"

definition wb_notify_all :: "write_behind \<Rightarrow> write_behind" where
  "wb_notify_all s = wake_flushers (wake_worker s)"

text \<open>The \<^verbatim>\<open>save_\<close> functions and \<^verbatim>\<open>persist\<close> before they notify.\<close>

definition wb_push :: "write_command \<Rightarrow> write_behind \<Rightarrow> write_behind" where
  "wb_push cmd s = s\<lparr>wb_queue := wb_queue s @ [cmd], wb_enqueued := u64_add (wb_enqueued s) 1, wb_history := wb_history s @ [cmd]\<rparr>"

definition wb_record :: "bool \<Rightarrow> write_behind \<Rightarrow> write_behind" where
  "wb_record ok s =
     (if ok then s\<lparr>wb_flushed := u64_add (wb_flushed s) 1, wb_worker_idle := True\<rparr>
      else s\<lparr>wb_failed := u64_add (wb_failed s) 1, wb_worker_idle := True\<rparr>)"

definition flush_ready :: "write_behind \<Rightarrow> bool" where
  "flush_ready s \<longleftrightarrow> wb_queue s = [] \<and> wb_worker_idle s"

definition set_flusher :: "nat \<Rightarrow> flusher_pc \<Rightarrow> write_behind \<Rightarrow> write_behind" where
  "set_flusher i pc s = s\<lparr>wb_flusher := (wb_flusher s)(i := pc)\<rparr>"

subsection \<open>Steps\<close>

text \<open>\<^verbatim>\<open>notify_one\<close> wakes one of the waiting threads, whichever it is.\<close>

inductive notify_one :: "write_behind \<Rightarrow> write_behind \<Rightarrow> bool" where
  one_worker: "wb_worker s = WkWaiting \<Longrightarrow> notify_one s (wake_worker s)"
| one_flusher: "wb_flusher s i = FlWaiting \<Longrightarrow> notify_one s (set_flusher i FlLock s)"
| one_nobody: "wb_worker s \<noteq> WkWaiting \<Longrightarrow> (\<And>i. wb_flusher s i \<noteq> FlWaiting) \<Longrightarrow> notify_one s s"

inductive wb_step :: "write_behind \<Rightarrow> write_behind \<Rightarrow> bool" where
  save: "mutex_free s \<Longrightarrow> wb_destructor s = DtIdle \<Longrightarrow> notify_one (wb_push cmd s) s' \<Longrightarrow> wb_step s s'"
| flush_call: "wb_destructor s = DtIdle \<Longrightarrow> 0 < i \<Longrightarrow> wb_flusher s i = FlIdle \<Longrightarrow> wb_step s (set_flusher i FlLock s)"
| flush_return: "mutex_free s \<Longrightarrow> wb_flusher s i = FlLock \<Longrightarrow> flush_ready s \<Longrightarrow> wb_step s (set_flusher i FlReturned s)"
| flush_check: "mutex_free s \<Longrightarrow> wb_flusher s i = FlLock \<Longrightarrow> \<not> flush_ready s \<Longrightarrow> wb_step s (set_flusher i FlAboutToWait s)"
| flush_wait: "wb_flusher s i = FlAboutToWait \<Longrightarrow> wb_step s (set_flusher i FlWaiting s)"
| worker_enter: "wb_worker s = WkTop \<Longrightarrow> wb_step s (s\<lparr>wb_worker := (if wb_running s then WkLock else WkExited)\<rparr>)"
| worker_check: "mutex_free s \<Longrightarrow> wb_worker s = WkLock \<Longrightarrow> wb_queue s = [] \<Longrightarrow> wb_running s \<Longrightarrow> wb_step s (s\<lparr>wb_worker := WkAboutToWait\<rparr>)"
| worker_wait: "wb_worker s = WkAboutToWait \<Longrightarrow> wb_step s (s\<lparr>wb_worker := WkWaiting\<rparr>)"
| worker_leave: "mutex_free s \<Longrightarrow> wb_worker s = WkLock \<Longrightarrow> wb_queue s = [] \<Longrightarrow> \<not> wb_running s \<Longrightarrow> wb_step s (s\<lparr>wb_worker := WkExited\<rparr>)"
| worker_take: "mutex_free s \<Longrightarrow> wb_worker s = WkLock \<Longrightarrow> wb_queue s = cmd # cmds \<Longrightarrow>
    wb_step s (s\<lparr>wb_worker_idle := False, wb_queue := cmds, wb_worker := WkWriting cmd\<rparr>)"
| worker_write: "wb_worker s = WkWriting cmd \<Longrightarrow> wb_step s (s\<lparr>wb_written := wb_written s @ [(cmd, ok)], wb_worker := WkRecord ok\<rparr>)"
| worker_record: "mutex_free s \<Longrightarrow> wb_worker s = WkRecord ok \<Longrightarrow> wb_step s ((wb_record ok s)\<lparr>wb_worker := WkNotify\<rparr>)"
| worker_notify: "wb_worker s = WkNotify \<Longrightarrow> wb_step s (wb_notify_all (s\<lparr>wb_worker := WkTop\<rparr>))"
| destroy: "wb_destructor s = DtIdle \<Longrightarrow> (\<And>i. wb_flusher s i = FlIdle \<or> wb_flusher s i = FlReturned) \<Longrightarrow>
    wb_step s ((set_flusher 0 FlLock s)\<lparr>wb_destructor := DtFlushing\<rparr>)"
| destroy_flushed: "wb_destructor s = DtFlushing \<Longrightarrow> wb_flusher s 0 = FlReturned \<Longrightarrow> wb_step s (s\<lparr>wb_destructor := DtStopping\<rparr>)"
| destroy_stop: "wb_destructor s = DtStopping \<Longrightarrow> wb_step s (s\<lparr>wb_running := False, wb_destructor := DtNotifying\<rparr>)"
| destroy_notify: "wb_destructor s = DtNotifying \<Longrightarrow> wb_step s ((wb_notify_all s)\<lparr>wb_destructor := DtJoining\<rparr>)"
| destroy_join: "wb_destructor s = DtJoining \<Longrightarrow> wb_worker s = WkExited \<Longrightarrow> wb_step s (s\<lparr>wb_destructor := DtDone\<rparr>)"

inductive wb_reachable :: "write_behind \<Rightarrow> bool" where
  wb_start: "wb_reachable new_write_behind"
| wb_next: "wb_reachable s \<Longrightarrow> wb_step s s' \<Longrightarrow> wb_reachable s'"

subsection \<open>Invariants\<close>

definition in_flight :: "worker_pc \<Rightarrow> write_command list" where
  "in_flight pc = (case pc of WkWriting cmd \<Rightarrow> [cmd] | _ \<Rightarrow> [])"

definition occupied :: "worker_pc \<Rightarrow> bool" where
  "occupied pc = (case pc of WkWriting _ \<Rightarrow> True | WkRecord _ \<Rightarrow> True | _ \<Rightarrow> False)"

definition wb_inv :: "write_behind \<Rightarrow> bool" where
  "wb_inv s \<longleftrightarrow>
     wb_history s = map fst (wb_written s) @ in_flight (wb_worker s) @ wb_queue s \<and>
     wb_worker_idle s = (\<not> occupied (wb_worker s)) \<and>
     (wb_worker s = WkAboutToWait \<or> wb_worker s = WkWaiting \<longrightarrow> wb_queue s = []) \<and>
     (\<forall>i. wb_flusher s i = FlWaiting \<longrightarrow> wb_queue s \<noteq> [] \<or> occupied (wb_worker s) \<or> wb_worker s = WkNotify) \<and>
     (\<forall>i. wb_flusher s i = FlAboutToWait \<longrightarrow> wb_queue s \<noteq> [] \<or> occupied (wb_worker s)) \<and>
     wb_enqueued s = (wb_flushed s + wb_failed s + length (wb_queue s) + of_bool (occupied (wb_worker s))) mod 2 ^ 64"

lemma in_flight_simps [simp]: "in_flight (WkWriting c) = [c]" "in_flight WkTop = []" "in_flight WkLock = []" "in_flight WkAboutToWait = []"
  "in_flight WkWaiting = []" "in_flight (WkRecord b) = []" "in_flight WkNotify = []" "in_flight WkExited = []"
  by (simp_all add: in_flight_def)

lemma occupied_simps [simp]: "occupied (WkWriting c)" "\<not> occupied WkTop" "\<not> occupied WkLock" "\<not> occupied WkAboutToWait" "\<not> occupied WkWaiting"
  "occupied (WkRecord b)" "\<not> occupied WkNotify" "\<not> occupied WkExited"
  by (simp_all add: occupied_def)

lemmas wb_ops = wb_push_def wb_record_def set_flusher_def wake_worker_def wake_flushers_def wb_notify_all_def flush_ready_def mutex_free_def

lemma wb_inv_new: "wb_inv new_write_behind"
  by (simp add: wb_inv_def new_write_behind_def)

text \<open>A write: when the worker waits, nobody else does, and it is the worker who is woken.\<close>

lemma wb_inv_save:
  assumes "wb_inv s" "mutex_free s" "notify_one (wb_push cmd s) s'"
  shows "wb_inv s'"
  using assms(3)
proof cases
  case one_worker
  with assms(1) show ?thesis by (auto simp: wb_inv_def wb_ops u64_add_def mod_simps)
next
  case (one_flusher i)
  with assms show ?thesis by (auto simp: wb_inv_def wb_ops u64_add_def mod_simps)
next
  case one_nobody
  with assms show ?thesis by (auto simp: wb_inv_def wb_ops u64_add_def mod_simps)
qed

lemma count_one: "(Suc a mod m + b + c) mod m = Suc (a + b + c) mod m" "(a + Suc b mod m + c) mod m = Suc (a + b + c) mod (m :: nat)"
proof -
  show 1: "(Suc a mod m + b + c) mod m = Suc (a + b + c) mod m" for a b by (metis add.assoc add_Suc mod_add_left_eq)
  show "(a + Suc b mod m + c) mod m = Suc (a + b + c) mod m" using 1[of b a] by (simp add: add.commute)
qed

lemma wb_inv_step:
  assumes "wb_step s s'" and "wb_inv s"
  shows "wb_inv s'"
  using assms(1)
proof cases
  case (save cmd)
  with assms(2) show ?thesis by (blast intro: wb_inv_save)
next
  case (worker_record ok)
  with assms(2) show ?thesis by (auto simp: wb_inv_def wb_ops u64_add_def count_one)
next
  case (worker_take cmd cmds)
  with assms(2) show ?thesis by (auto simp: wb_inv_def wb_ops)
next
  case (flush_check i)
  with assms(2) show ?thesis by (auto simp: wb_inv_def wb_ops)
next
  case (flush_wait i)
  with assms(2) show ?thesis by (auto simp: wb_inv_def wb_ops)
qed (use assms(2) in \<open>auto simp: wb_inv_def wb_ops\<close>)

lemma wb_inv_reachable: "wb_reachable s \<Longrightarrow> wb_inv s"
  by (induction rule: wb_reachable.induct) (auto intro: wb_inv_new wb_inv_step)

text \<open>C26: A flush waits for all writes.  Whatever the threads do, when a flush returns, everything that was ever queued has been handed to the store behind, in
  the order in which it was queued.\<close>

theorem flush_means_written:
  assumes "wb_reachable s" and "wb_step s s'" and "wb_flusher s i \<noteq> FlReturned" "wb_flusher s' i = FlReturned"
  shows "map fst (wb_written s') = wb_history s' \<and> wb_queue s' = []"
proof -
  have inv: "wb_inv s" by (rule wb_inv_reachable[OF assms(1)])
  from assms(2) have "s' = set_flusher i FlReturned s \<and> flush_ready s"
  proof cases
    case (save cmd)
    from save(3) have "wb_flusher s' i = FlReturned \<Longrightarrow> wb_flusher s i = FlReturned" by cases (auto simp: wb_ops split: if_splits)
    with assms(3,4) show ?thesis by simp
  next
    case (flush_return j)
    with assms(3,4) show ?thesis by (auto simp: set_flusher_def split: if_splits)
  qed (use assms(3,4) in \<open>auto simp: wb_ops split: if_splits\<close>)
  with inv show ?thesis by (auto simp: wb_inv_def flush_ready_def set_flusher_def in_flight_def occupied_def split: worker_pc.splits)
qed

text \<open>No lost wake-up.  In every reachable state in which writes are queued the worker does not sleep, and a flush that sleeps has writes to wait for: it will be woken when
  the worker is done with the next write.\<close>

theorem worker_awake_while_queued:
  assumes "wb_reachable s"
  shows "(wb_queue s \<noteq> [] \<longrightarrow> wb_worker s \<noteq> WkWaiting) \<and>
    (\<forall>i. wb_flusher s i = FlWaiting \<longrightarrow> wb_queue s \<noteq> [] \<or> occupied (wb_worker s) \<or> wb_worker s = WkNotify)"
  using wb_inv_reachable[OF assms] by (auto simp: wb_inv_def)

text \<open>The counters.  What was queued is what was flushed, what failed, what is pending and what is being written, and the writes are delivered in order.\<close>

theorem write_counters_balance:
  assumes "wb_reachable s"
  shows "wb_enqueued s = (wb_flushed s + wb_failed s + length (wb_queue s) + of_bool (occupied (wb_worker s))) mod 2 ^ 64 \<and>
    (\<exists>rest. wb_history s = map fst (wb_written s) @ rest)"
  using wb_inv_reachable[OF assms] by (auto simp: wb_inv_def)

subsection \<open>The destructor\<close>

definition stuck :: write_behind where
  "stuck = new_write_behind\<lparr>wb_running := False, wb_worker := WkWaiting, wb_flusher := (\<lambda>i. if i = 0 then FlReturned else FlIdle), wb_destructor := DtJoining\<rparr>"

lemma stuck_reachable: "wb_reachable stuck"
proof -
  let ?s0 = "new_write_behind" and ?fl = "\<lambda>pc i. if i = (0 :: nat) then pc else FlIdle"
  have 1: "wb_reachable (?s0\<lparr>wb_worker := WkLock\<rparr>)"
    by (rule wb_next[OF wb_start]) (use worker_enter[of ?s0] in \<open>simp add: new_write_behind_def\<close>)
  have 2: "wb_reachable (?s0\<lparr>wb_worker := WkLock, wb_flusher := ?fl FlLock, wb_destructor := DtFlushing\<rparr>)"
    by (rule wb_next[OF 1]) (use destroy[of "?s0\<lparr>wb_worker := WkLock\<rparr>"] in \<open>simp add: new_write_behind_def set_flusher_def fun_upd_def\<close>)
  have 3: "wb_reachable (?s0\<lparr>wb_worker := WkLock, wb_flusher := ?fl FlReturned, wb_destructor := DtFlushing\<rparr>)"
    by (rule wb_next[OF 2]) (use flush_return[of "?s0\<lparr>wb_worker := WkLock, wb_flusher := ?fl FlLock, wb_destructor := DtFlushing\<rparr>" 0]
        in \<open>simp add: new_write_behind_def set_flusher_def mutex_free_def flush_ready_def fun_upd_def if_distrib cong: if_cong\<close>)
  have 4: "wb_reachable (?s0\<lparr>wb_worker := WkLock, wb_flusher := ?fl FlReturned, wb_destructor := DtStopping\<rparr>)"
    by (rule wb_next[OF 3]) (use destroy_flushed[of "?s0\<lparr>wb_worker := WkLock, wb_flusher := ?fl FlReturned, wb_destructor := DtFlushing\<rparr>"] in simp)
  have 5: "wb_reachable (?s0\<lparr>wb_worker := WkAboutToWait, wb_flusher := ?fl FlReturned, wb_destructor := DtStopping\<rparr>)"
    by (rule wb_next[OF 4]) (use worker_check[of "?s0\<lparr>wb_worker := WkLock, wb_flusher := ?fl FlReturned, wb_destructor := DtStopping\<rparr>"]
        in \<open>simp add: new_write_behind_def mutex_free_def\<close>)
  have 6: "wb_reachable (?s0\<lparr>wb_running := False, wb_worker := WkAboutToWait, wb_flusher := ?fl FlReturned, wb_destructor := DtNotifying\<rparr>)"
    by (rule wb_next[OF 5]) (use destroy_stop[of "?s0\<lparr>wb_worker := WkAboutToWait, wb_flusher := ?fl FlReturned, wb_destructor := DtStopping\<rparr>"]
        in \<open>simp add: new_write_behind_def\<close>)
  have 7: "wb_reachable (?s0\<lparr>wb_running := False, wb_worker := WkAboutToWait, wb_flusher := ?fl FlReturned, wb_destructor := DtJoining\<rparr>)"
    by (rule wb_next[OF 6]) (use destroy_notify[of "?s0\<lparr>wb_running := False, wb_worker := WkAboutToWait, wb_flusher := ?fl FlReturned, wb_destructor := DtNotifying\<rparr>"]
        in \<open>simp add: new_write_behind_def wb_ops if_distrib cong: if_cong\<close>)
  show ?thesis
    by (rule wb_next[OF 7]) (use worker_wait[of "?s0\<lparr>wb_running := False, wb_worker := WkAboutToWait, wb_flusher := ?fl FlReturned, wb_destructor := DtJoining\<rparr>"]
        in \<open>simp add: new_write_behind_def stuck_def\<close>)
qed

text \<open>C27: A defect.  The destructor stops the worker without holding the mutex, so its notification can fall between the worker's check and the start of its wait: then the worker
  sleeps forever and the destructor waits for it forever.\<close>

theorem destructor_can_hang:
  "\<exists>s. wb_reachable s \<and> wb_destructor s = DtJoining \<and> wb_worker s = WkWaiting \<and> (\<forall>s'. \<not> wb_step s s')"
proof -
  have "\<not> wb_step stuck s'" for s'
  proof
    assume "wb_step stuck s'"
    then show False by cases (auto simp: stuck_def new_write_behind_def mutex_free_def split: if_splits)
  qed
  moreover have "wb_destructor stuck = DtJoining" "wb_worker stuck = WkWaiting" by (simp_all add: stuck_def)
  ultimately show ?thesis using stuck_reachable by blast
qed

text \<open>One write that has been recorded.\<close>

definition one_written :: "write_command \<Rightarrow> write_behind" where
  "one_written cmd = new_write_behind\<lparr>wb_enqueued := 1, wb_flushed := 1, wb_worker := WkNotify, wb_written := [(cmd, True)], wb_history := [cmd]\<rparr>"

lemma one_written_reachable: "wb_reachable (one_written cmd)"
proof -
  let ?s0 = "new_write_behind"
  let ?s1 = "?s0\<lparr>wb_queue := [cmd], wb_enqueued := 1, wb_history := [cmd]\<rparr>"
  have "notify_one ?s1 ?s1" by (rule one_nobody) (simp_all add: new_write_behind_def)
  then have 1: "wb_reachable ?s1"
    by (intro wb_next[OF wb_start] save[of ?s0 cmd]) (simp_all add: new_write_behind_def mutex_free_def wb_push_def u64_add_def)
  have 2: "wb_reachable (?s1\<lparr>wb_worker := WkLock\<rparr>)"
    by (rule wb_next[OF 1]) (use worker_enter[of ?s1] in \<open>simp add: new_write_behind_def\<close>)
  let ?s3 = "?s0\<lparr>wb_enqueued := 1, wb_worker_idle := False, wb_worker := WkWriting cmd, wb_history := [cmd]\<rparr>"
  have 3: "wb_reachable ?s3"
    by (rule wb_next[OF 2]) (use worker_take[of "?s1\<lparr>wb_worker := WkLock\<rparr>" cmd "[]"] in \<open>simp add: new_write_behind_def mutex_free_def\<close>)
  let ?s4 = "?s3\<lparr>wb_worker := WkRecord True, wb_written := [(cmd, True)]\<rparr>"
  have 4: "wb_reachable ?s4"
    by (rule wb_next[OF 3]) (use worker_write[of ?s3 cmd True] in \<open>simp add: new_write_behind_def\<close>)
  show ?thesis
    by (rule wb_next[OF 4]) (use worker_record[of ?s4 True] in \<open>simp add: new_write_behind_def mutex_free_def wb_record_def u64_add_def one_written_def\<close>)
qed

theorem flush_means_written_witness:
  "wb_written (set_flusher 1 FlReturned (one_written (WriteResult ''b'' ''r''))) = [(WriteResult ''b'' ''r'', True)] \<and>
   map fst (wb_written (set_flusher 1 FlReturned (one_written (WriteResult ''b'' ''r'')))) = wb_history (set_flusher 1 FlReturned (one_written (WriteResult ''b'' ''r'')))"
proof -
  let ?w = "one_written (WriteResult ''b'' ''r'')"
  let ?f = "set_flusher 1 FlLock ?w"
  have f: "wb_reachable ?f"
    by (rule wb_next[OF one_written_reachable]) (rule flush_call; simp add: one_written_def new_write_behind_def)
  have e: "set_flusher 1 FlReturned ?f = set_flusher 1 FlReturned ?w" by (simp add: set_flusher_def)
  have s: "wb_step ?f (set_flusher 1 FlReturned ?w)"
    unfolding e[symmetric] by (rule flush_return) (simp_all add: set_flusher_def one_written_def new_write_behind_def mutex_free_def flush_ready_def)
  from flush_means_written[OF f s, of 1] show ?thesis by (simp add: set_flusher_def one_written_def)
qed

theorem worker_awake_while_queued_witness:
  "wb_queue (wb_push (WriteResult ''b'' ''r'') new_write_behind) = [WriteResult ''b'' ''r''] \<and>
   wb_worker (wb_push (WriteResult ''b'' ''r'') new_write_behind) \<noteq> WkWaiting"
proof -
  let ?s = "wb_push (WriteResult ''b'' ''r'') new_write_behind"
  have "notify_one ?s ?s" by (rule one_nobody) (simp_all add: new_write_behind_def wb_push_def)
  then have "wb_reachable ?s" by (intro wb_next[OF wb_start] save[of new_write_behind]) (simp_all add: new_write_behind_def mutex_free_def)
  from worker_awake_while_queued[OF this] show ?thesis by (simp add: wb_push_def new_write_behind_def)
qed

theorem write_counters_balance_witness: "wb_enqueued (one_written (WriteResult ''b'' ''r'')) = 1"
  using write_counters_balance[OF one_written_reachable, of "WriteResult ''b'' ''r''"] by (simp add: one_written_def new_write_behind_def)

end
