(* ===== verification/Instance_Runtime.thy ===== *)
theory Instance_Runtime
  imports Prelude "HOL-Library.AList"
begin

text \<open>
  The realtime instance runtime (\<^verbatim>\<open>src/v2/realtime/instance_runtime.cpp\<close>,
  \<^verbatim>\<open>include/v2/realtime/types.h\<close>): instances with their input queues, driven by ticks, with
  the game logic behind the \<^verbatim>\<open>InstancePlugin\<close> interface.

  A plugin is the record \<open>plugin\<close> of its virtual functions over a world of type \<open>'w\<close> (the
  \<^verbatim>\<open>plugin_state\<close>).  A hook gets the context of the instance to change, limits included, and
  returns it with the world.  \<open>None\<close> is an exception of a hook that may throw; the hooks declared
  \<^verbatim>\<open>noexcept\<close> are total.  Every public function holds the mutex, so it is one step;
  \<open>tick_instance\<close> ends with \<open>finish_instance\<close> as the code does after releasing the lock.
  Frame numbers and counters are naturals incremented with \<open>u32_add\<close>.  The content of a string
  that has been moved from, which the language leaves unspecified, is the field
  \<open>rt_moved_string\<close>.
\<close>

subsection \<open>Data\<close>

datatype instance_state =
  KCreating | KWaitingPlayers | KRunning | KFinishing | KFinished | KClosed

datatype finish_reason =
  KNormal | KAllPlayersDone | KTimeout | KFrameLimit | KPlayerDisconnected | KUserRequested | KError

record input_envelope =
  ie_instance_id :: string
  ie_user_id :: string
  ie_seq :: nat
  ie_payload_type :: string
  ie_payload :: string
  ie_client_time_ms :: int

record input_result =
  ir_accepted :: bool
  ir_reject_reason :: string
  ir_ack_seq :: nat

record player_context =
  pc_user_id :: string
  pc_display_name :: string
  pc_joined_at_ms :: int

record instance_context =
  ic_instance_id :: string
  ic_room_id :: string
  ic_instance_type :: string
  ic_players :: "player_context list"
  ic_tick_interval_ms :: nat
  ic_max_frames :: nat
  ic_input_queue_limit :: nat
  ic_resume_window_ms :: nat
  ic_created_at_ms :: int

record frame_context =
  fc_frame_number :: nat
  fc_tick_start_ms :: int
  fc_inputs_this_tick :: "input_envelope list"

record snapshot =
  sn_frame_number :: nat
  sn_payload_type :: string
  sn_payload :: string
  sn_is_full :: bool
  sn_is_resume :: bool

record settlement_context =
  sc_instance_id :: string
  sc_room_id :: string
  sc_reason :: finish_reason
  sc_total_frames :: nat
  sc_result_payload :: string

record tick_stats =
  ts_frame_number :: nat
  ts_inputs_processed :: nat
  ts_pushes_sent :: nat
  ts_should_finish :: bool
  ts_finish_reason :: finish_reason

record 'w plugin =
  pg_on_instance_created :: "instance_context \<Rightarrow> (instance_context \<times> 'w) option"
  pg_on_input :: "instance_context \<Rightarrow> input_envelope \<Rightarrow> 'w \<Rightarrow> input_result option \<times> instance_context \<times> 'w"
  pg_on_tick :: "instance_context \<Rightarrow> frame_context \<Rightarrow> 'w \<Rightarrow> tick_stats \<times> instance_context \<times> 'w"
  pg_build_snapshot :: "instance_context \<Rightarrow> 'w \<Rightarrow> snapshot \<times> instance_context \<times> 'w"
  pg_build_settlement :: "instance_context \<Rightarrow> settlement_context \<Rightarrow> 'w \<Rightarrow> string \<times> instance_context \<times> 'w"
  pg_build_resume_snapshot :: "instance_context \<Rightarrow> player_context \<Rightarrow> 'w \<Rightarrow> snapshot \<times> instance_context \<times> 'w"

record player_input_state =
  pi_last_seq :: nat
  pi_last_acked_frame :: nat

record 'w internal_instance =
  in_ctx :: instance_context
  in_state :: instance_state
  in_plugin :: "'w plugin"
  in_world :: 'w
  in_queue :: "input_envelope list"
  in_current_frame :: nat
  in_running_since_ms :: int
  in_ack_seq_counter :: nat
  in_player_input :: "string \<rightharpoonup> player_input_state"

datatype instance_event =
    InstanceCreated string
  | InstanceFinished string settlement_context
  | SnapshotAvailable string snapshot

record 'w instance_runtime =
  rt_max_instances :: nat
  rt_instances :: "(string \<times> 'w internal_instance) list"
  rt_plugin_factories :: "string \<rightharpoonup> 'w plugin"
  rt_event_callback :: bool
  rt_events :: "instance_event list"
  rt_moved_string :: string

subsection \<open>Operations\<close>

definition new_instance_runtime :: "nat \<Rightarrow> string \<Rightarrow> 'w instance_runtime" where
  "new_instance_runtime max_instances moved =
     \<lparr>rt_max_instances = max_instances, rt_instances = [], rt_plugin_factories = Map.empty,
      rt_event_callback = False, rt_events = [], rt_moved_string = moved\<rparr>"

definition register_plugin :: "string \<Rightarrow> 'w plugin \<Rightarrow> 'w instance_runtime \<Rightarrow> 'w instance_runtime" where
  "register_plugin ty p rt = rt\<lparr>rt_plugin_factories := (rt_plugin_factories rt)(ty \<mapsto> p)\<rparr>"

definition set_event_callback :: "bool \<Rightarrow> 'w instance_runtime \<Rightarrow> 'w instance_runtime" where
  "set_event_callback cb rt = rt\<lparr>rt_event_callback := cb\<rparr>"

definition emit_event :: "instance_event \<Rightarrow> 'w instance_runtime \<Rightarrow> 'w instance_runtime" where
  "emit_event e rt = (if rt_event_callback rt then rt\<lparr>rt_events := rt_events rt @ [e]\<rparr> else rt)"

definition find_instance_locked :: "string \<Rightarrow> 'w instance_runtime \<Rightarrow> 'w internal_instance option" where
  "find_instance_locked iid rt = map_of (rt_instances rt) iid"

definition put_instance :: "string \<Rightarrow> 'w internal_instance \<Rightarrow> 'w instance_runtime \<Rightarrow> 'w instance_runtime" where
  "put_instance iid inst rt = rt\<lparr>rt_instances := AList.update iid inst (rt_instances rt)\<rparr>"

text \<open>The result is the instance identifier, \<open>[]\<close> on failure.\<close>

definition create_instance ::
  "string \<Rightarrow> string \<Rightarrow> string \<Rightarrow> player_context list \<Rightarrow> nat \<Rightarrow> nat \<Rightarrow> nat \<Rightarrow> int \<Rightarrow>
    'w instance_runtime \<Rightarrow> string \<times> 'w instance_runtime" where
  "create_instance iid room ty players tick_interval max_frames resume_window now rt =
     (if find_instance_locked iid rt \<noteq> None then ([], rt)
      else if length (rt_instances rt) \<ge> rt_max_instances rt then ([], rt)
      else case rt_plugin_factories rt ty of
        None \<Rightarrow> ([], rt)
      | Some p \<Rightarrow>
          (let ctx = \<lparr>ic_instance_id = iid, ic_room_id = room, ic_instance_type = ty,
                 ic_players = players, ic_tick_interval_ms = tick_interval,
                 ic_max_frames = max_frames, ic_input_queue_limit = 64,
                 ic_resume_window_ms = resume_window, ic_created_at_ms = now\<rparr>
           in case pg_on_instance_created p ctx of
                None \<Rightarrow> ([], rt)
              | Some (ctx', w) \<Rightarrow>
                  (iid, emit_event (InstanceCreated iid)
                     (put_instance iid
                       \<lparr>in_ctx = ctx', in_state = KWaitingPlayers, in_plugin = p, in_world = w,
                        in_queue = [], in_current_frame = 0, in_running_since_ms = 0,
                        in_ack_seq_counter = 0, in_player_input = Map.empty\<rparr> rt))))"

definition destroy_instance :: "string \<Rightarrow> 'w instance_runtime \<Rightarrow> 'w instance_runtime" where
  "destroy_instance iid rt = rt\<lparr>rt_instances := AList.delete iid (rt_instances rt)\<rparr>"

definition input_refused :: "string \<Rightarrow> input_result" where
  "input_refused reason = \<lparr>ir_accepted = False, ir_reject_reason = reason, ir_ack_seq = 0\<rparr>"

definition input_state_of :: "string \<Rightarrow> 'w internal_instance \<Rightarrow> player_input_state" where
  "input_state_of u inst =
     (case in_player_input inst u of
        None \<Rightarrow> \<lparr>pi_last_seq = 0, pi_last_acked_frame = 0\<rparr>
      | Some p \<Rightarrow> p)"

definition set_input_state ::
  "string \<Rightarrow> player_input_state \<Rightarrow> 'w internal_instance \<Rightarrow> 'w internal_instance" where
  "set_input_state u p inst = inst\<lparr>in_player_input := (in_player_input inst)(u \<mapsto> p)\<rparr>"

definition instance_active :: "'w internal_instance \<Rightarrow> bool" where
  "instance_active inst \<longleftrightarrow> in_state inst = KRunning \<or> in_state inst = KWaitingPlayers"

definition submit_input :: "input_envelope \<Rightarrow> 'w instance_runtime \<Rightarrow> input_result \<times> 'w instance_runtime" where
  "submit_input input rt =
     (case find_instance_locked (ie_instance_id input) rt of
        None \<Rightarrow> (input_refused ''instance_not_found'', rt)
      | Some inst \<Rightarrow>
          if \<not> instance_active inst then (input_refused ''instance_not_active'', rt)
          else
           (let u = ie_user_id input; ps = input_state_of u inst;
                inst1 = set_input_state u ps inst;
                store = (\<lambda>i. put_instance (ie_instance_id input) i rt)
            in if ie_seq input > 0 \<and> ie_seq input \<le> pi_last_seq ps
               then (input_refused ''duplicate_seq'', store inst1)
               else if length (in_queue inst1) \<ge> ic_input_queue_limit (in_ctx inst1)
               then (input_refused ''input_queue_full'', store inst1)
               else
                (let inst2 = (set_input_state u (ps\<lparr>pi_last_seq := ie_seq input\<rparr>) inst1)
                       \<lparr>in_queue := in_queue inst1 @ [input],
                        in_ack_seq_counter := u32_add (in_ack_seq_counter inst1) 1\<rparr>
                 in (\<lparr>ir_accepted = True, ir_reject_reason = [], ir_ack_seq = in_ack_seq_counter inst2\<rparr>,
                     store inst2))))"

definition finish_instance :: "string \<Rightarrow> finish_reason \<Rightarrow> 'w instance_runtime \<Rightarrow> 'w instance_runtime" where
  "finish_instance iid reason rt =
     (case find_instance_locked iid rt of
        None \<Rightarrow> rt
      | Some inst \<Rightarrow>
          if in_state inst = KFinished \<or> in_state inst = KClosed then rt
          else
           (let inst1 = inst\<lparr>in_state := KFinishing\<rparr>;
                sc = \<lparr>sc_instance_id = iid, sc_room_id = ic_room_id (in_ctx inst1), sc_reason = reason,
                      sc_total_frames = in_current_frame inst1, sc_result_payload = []\<rparr>;
                (payload, c, w) = pg_build_settlement (in_plugin inst1) (in_ctx inst1) sc (in_world inst1);
                inst2 = inst1\<lparr>in_ctx := c, in_world := w, in_state := KFinished\<rparr>
            in emit_event (InstanceFinished iid (sc\<lparr>sc_result_payload := payload\<rparr>))
                 (put_instance iid inst2 rt)))"

definition empty_snapshot :: snapshot where
  "empty_snapshot = \<lparr>sn_frame_number = 0, sn_payload_type = [], sn_payload = [], sn_is_full = True,
     sn_is_resume = False\<rparr>"

definition get_resume_snapshot ::
  "string \<Rightarrow> string \<Rightarrow> 'w instance_runtime \<Rightarrow> snapshot \<times> 'w instance_runtime" where
  "get_resume_snapshot iid u rt =
     (case find_instance_locked iid rt of
        None \<Rightarrow> (empty_snapshot, rt)
      | Some inst \<Rightarrow>
          (case find (\<lambda>p. pc_user_id p = u) (ic_players (in_ctx inst)) of
             None \<Rightarrow> (empty_snapshot, rt)
           | Some player \<Rightarrow>
               (let (snap, c, w) = pg_build_resume_snapshot (in_plugin inst) (in_ctx inst) player (in_world inst)
                in (snap, put_instance iid (inst\<lparr>in_ctx := c, in_world := w\<rparr>) rt))))"

text \<open>
  The draining loop of \<^verbatim>\<open>tick_instance\<close>.  An accepted input is moved into the frame before its
  \<^verbatim>\<open>user_id\<close> is used as a key, so the key is that of a moved-from string.
\<close>

fun drain_inputs ::
  "string \<Rightarrow> nat \<Rightarrow> input_envelope list \<Rightarrow> 'w internal_instance \<Rightarrow> input_envelope list \<Rightarrow>
    'w internal_instance \<times> input_envelope list" where
  "drain_inputs moved frame [] inst acc = (inst\<lparr>in_queue := []\<rparr>, acc)"
| "drain_inputs moved frame (input # q) inst acc =
     (let (res, c, w) = pg_on_input (in_plugin inst) (in_ctx inst) input (in_world inst);
          inst1 = inst\<lparr>in_ctx := c, in_world := w\<rparr>
      in case res of
           None \<Rightarrow> drain_inputs moved frame q inst1 acc
         | Some r \<Rightarrow>
             if ir_accepted r
             then drain_inputs moved frame q
                    (set_input_state moved ((input_state_of moved inst1)\<lparr>pi_last_acked_frame := frame\<rparr>) inst1)
                    (acc @ [input\<lparr>ie_seq := ir_ack_seq r\<rparr>])
             else drain_inputs moved frame q inst1 acc)"

definition default_tick_stats :: "nat \<Rightarrow> tick_stats" where
  "default_tick_stats frame = \<lparr>ts_frame_number = frame, ts_inputs_processed = 0, ts_pushes_sent = 0,
     ts_should_finish = False, ts_finish_reason = KNormal\<rparr>"

text \<open>The body of a tick on an active instance: the new instance, the statistics, the snapshot.\<close>

definition tick_body ::
  "string \<Rightarrow> nat \<Rightarrow> int \<Rightarrow> 'w internal_instance \<Rightarrow> 'w internal_instance \<times> tick_stats \<times> snapshot" where
  "tick_body moved frame start_ms inst =
     (let inst1 = (if in_state inst = KWaitingPlayers
                   then inst\<lparr>in_state := KRunning, in_running_since_ms := start_ms\<rparr> else inst);
          inst2 = inst1\<lparr>in_current_frame := frame\<rparr>;
          (inst3, inputs) = drain_inputs moved frame (in_queue inst2) inst2 [];
          (stats, c, w) = pg_on_tick (in_plugin inst3) (in_ctx inst3)
             \<lparr>fc_frame_number = frame, fc_tick_start_ms = start_ms, fc_inputs_this_tick = inputs\<rparr>
             (in_world inst3);
          stats1 = (if ic_max_frames c > 0 \<and> frame \<ge> ic_max_frames c
                       \<and> \<not> ts_should_finish stats
                    then stats\<lparr>ts_should_finish := True, ts_finish_reason := KFrameLimit\<rparr> else stats);
          (snap, c', w') = pg_build_snapshot (in_plugin inst3) c w
      in (inst3\<lparr>in_ctx := c', in_world := w'\<rparr>, stats1, snap\<lparr>sn_frame_number := frame\<rparr>))"

definition tick_instance ::
  "string \<Rightarrow> nat \<Rightarrow> int \<Rightarrow> 'w instance_runtime \<Rightarrow> tick_stats \<times> 'w instance_runtime" where
  "tick_instance iid frame start_ms rt =
     (case find_instance_locked iid rt of
        None \<Rightarrow> ((default_tick_stats frame)\<lparr>ts_should_finish := True, ts_finish_reason := KError\<rparr>, rt)
      | Some inst \<Rightarrow>
          if \<not> instance_active inst then (default_tick_stats frame, rt)
          else
           (let (inst1, stats, snap) = tick_body (rt_moved_string rt) frame start_ms inst;
                rt1 = emit_event (SnapshotAvailable iid snap) (put_instance iid inst1 rt)
            in (stats, if ts_should_finish stats then finish_instance iid (ts_finish_reason stats) rt1
                       else rt1)))"

fun tick_each :: "(string \<times> nat) list \<Rightarrow> int \<Rightarrow> 'w instance_runtime \<Rightarrow> tick_stats list \<times> 'w instance_runtime" where
  "tick_each [] start_ms rt = ([], rt)"
| "tick_each ((iid, frame) # rest) start_ms rt =
     (let (stats, rt1) = tick_instance iid frame start_ms rt;
          (more, rt2) = tick_each rest start_ms rt1
      in (stats # more, rt2))"

definition tick_all :: "int \<Rightarrow> 'w instance_runtime \<Rightarrow> tick_stats list \<times> 'w instance_runtime" where
  "tick_all start_ms rt =
     tick_each (map (\<lambda>(iid, inst). (iid, u32_add (in_current_frame inst) 1))
       (filter (\<lambda>(iid, inst). instance_active inst) (rt_instances rt))) start_ms rt"

definition get_instance_state :: "string \<Rightarrow> 'w instance_runtime \<Rightarrow> instance_state" where
  "get_instance_state iid rt =
     (case find_instance_locked iid rt of None \<Rightarrow> KClosed | Some inst \<Rightarrow> in_state inst)"

definition list_instances ::
  "'w instance_runtime \<Rightarrow> (string \<times> string \<times> instance_state \<times> nat \<times> nat \<times> nat \<times> int \<times> int) list" where
  "list_instances rt =
     map (\<lambda>(iid, inst). (iid, ic_instance_type (in_ctx inst), in_state inst, in_current_frame inst,
       length (ic_players (in_ctx inst)) mod 2 ^ 32, length (in_queue inst) mod 2 ^ 32,
       ic_created_at_ms (in_ctx inst), in_running_since_ms inst)) (rt_instances rt)"

definition instance_count_rt :: "'w instance_runtime \<Rightarrow> nat" where
  "instance_count_rt rt = length (rt_instances rt)"

subsection \<open>Looking up instances\<close>

lemma emit_event_simps [simp]:
  "rt_max_instances (emit_event e rt) = rt_max_instances rt"
  "rt_instances (emit_event e rt) = rt_instances rt"
  "rt_plugin_factories (emit_event e rt) = rt_plugin_factories rt"
  "rt_event_callback (emit_event e rt) = rt_event_callback rt"
  "rt_moved_string (emit_event e rt) = rt_moved_string rt"
  "rt_events (emit_event e rt) = rt_events rt @ (if rt_event_callback rt then [e] else [])"
  "find_instance_locked iid (emit_event e rt) = find_instance_locked iid rt"
  by (simp_all add: emit_event_def find_instance_locked_def)

lemma put_instance_simps [simp]:
  "rt_max_instances (put_instance iid inst rt) = rt_max_instances rt"
  "rt_plugin_factories (put_instance iid inst rt) = rt_plugin_factories rt"
  "rt_event_callback (put_instance iid inst rt) = rt_event_callback rt"
  "rt_moved_string (put_instance iid inst rt) = rt_moved_string rt"
  "rt_events (put_instance iid inst rt) = rt_events rt"
  "find_instance_locked jid (put_instance iid inst rt) =
     (if jid = iid then Some inst else find_instance_locked jid rt)"
  by (simp_all add: put_instance_def find_instance_locked_def update_conv')

lemma find_destroy [simp]:
  "find_instance_locked jid (destroy_instance iid rt) =
     (if jid = iid then None else find_instance_locked jid rt)"
  by (simp add: destroy_instance_def find_instance_locked_def delete_conv' restrict_map_def)

lemma find_None_keys: "find_instance_locked iid rt = None \<longleftrightarrow> iid \<notin> fst ` set (rt_instances rt)"
  by (simp add: find_instance_locked_def map_of_eq_None_iff)

lemma keys_put_instance:
  "map fst (rt_instances (put_instance iid inst rt)) =
     (if find_instance_locked iid rt = None then map fst (rt_instances rt) @ [iid]
      else map fst (rt_instances rt))"
  by (simp add: put_instance_def update_keys find_None_keys)

subsection \<open>Plugins that leave the limits alone\<close>

definition same_limits :: "instance_context \<Rightarrow> instance_context \<Rightarrow> bool" where
  "same_limits c c' \<longleftrightarrow> ic_max_frames c' = ic_max_frames c \<and> ic_input_queue_limit c' = ic_input_queue_limit c"

definition leaves_limits :: "'w plugin \<Rightarrow> bool" where
  "leaves_limits p \<longleftrightarrow>
     (\<forall>c c' w. pg_on_instance_created p c = Some (c', w) \<longrightarrow> same_limits c c') \<and>
     (\<forall>c i w. same_limits c (fst (snd (pg_on_input p c i w)))) \<and>
     (\<forall>c f w. same_limits c (fst (snd (pg_on_tick p c f w)))) \<and>
     (\<forall>c w. same_limits c (fst (snd (pg_build_snapshot p c w)))) \<and>
     (\<forall>c sc w. same_limits c (fst (snd (pg_build_settlement p c sc w)))) \<and>
     (\<forall>c u w. same_limits c (fst (snd (pg_build_resume_snapshot p c u w))))"

lemma same_limits_trans: "same_limits a b \<Longrightarrow> same_limits b c \<Longrightarrow> same_limits a c"
  by (simp add: same_limits_def)

lemma leaves_limitsD:
  assumes "leaves_limits p"
  shows "pg_on_instance_created p c = Some (c', w) \<Longrightarrow> same_limits c c'"
    and "pg_on_input p c i w = (r, c', w') \<Longrightarrow> same_limits c c'"
    and "pg_on_tick p c f w = (st, c', w') \<Longrightarrow> same_limits c c'"
    and "pg_build_snapshot p c w = (sn, c', w') \<Longrightarrow> same_limits c c'"
    and "pg_build_settlement p c sc w = (pl, c', w') \<Longrightarrow> same_limits c c'"
    and "pg_build_resume_snapshot p c u w = (sn, c', w') \<Longrightarrow> same_limits c c'"
  using assms unfolding leaves_limits_def by (metis fst_conv snd_conv)+

subsection \<open>Effects on one instance\<close>

text \<open>What draining leaves alone.\<close>

definition drain_keeps :: "'w internal_instance \<Rightarrow> 'w internal_instance \<Rightarrow> bool" where
  "drain_keeps inst inst' \<longleftrightarrow> in_state inst' = in_state inst \<and>
     (leaves_limits (in_plugin inst) \<longrightarrow> same_limits (in_ctx inst) (in_ctx inst')) \<and>
     in_plugin inst' = in_plugin inst \<and> in_current_frame inst' = in_current_frame inst \<and>
     (\<forall>u. pi_last_seq (input_state_of u inst') = pi_last_seq (input_state_of u inst))"

lemma drain_keeps_step:
  "\<exists>inst1 acc1. drain_inputs moved frame (input # q) inst acc = drain_inputs moved frame q inst1 acc1 \<and>
     drain_keeps inst inst1"
proof -
  obtain res c w where on: "pg_on_input (in_plugin inst) (in_ctx inst) input (in_world inst) = (res, c, w)"
    by (metis prod_cases3)
  let ?i1 = "inst\<lparr>in_ctx := c, in_world := w\<rparr>"
  let ?i2 = "set_input_state moved ((input_state_of moved ?i1)\<lparr>pi_last_acked_frame := frame\<rparr>) ?i1"
  have k: "drain_keeps inst ?i1" "drain_keeps inst ?i2"
    using leaves_limitsD(2) [OF _ on] by (simp_all add: drain_keeps_def input_state_of_def set_input_state_def)
  have eq: "drain_inputs moved frame (input # q) inst acc =
      (case res of None \<Rightarrow> drain_inputs moved frame q ?i1 acc
       | Some r \<Rightarrow> if ir_accepted r then drain_inputs moved frame q ?i2 (acc @ [input\<lparr>ie_seq := ir_ack_seq r\<rparr>])
                   else drain_inputs moved frame q ?i1 acc)"
    using on by (simp add: Let_def)
  show ?thesis
  proof (cases res)
    case None
    with eq have "drain_inputs moved frame (input # q) inst acc = drain_inputs moved frame q ?i1 acc"
      by (simp del: drain_inputs.simps)
    with k(1) show ?thesis by blast
  next
    case (Some r)
    show ?thesis
    proof (cases "ir_accepted r")
      case True
      with eq Some have "drain_inputs moved frame (input # q) inst acc =
          drain_inputs moved frame q ?i2 (acc @ [input\<lparr>ie_seq := ir_ack_seq r\<rparr>])"
        by (simp del: drain_inputs.simps)
      with k(2) show ?thesis by blast
    next
      case False
      with eq Some have "drain_inputs moved frame (input # q) inst acc = drain_inputs moved frame q ?i1 acc"
        by (simp del: drain_inputs.simps)
      with k(1) show ?thesis by blast
    qed
  qed
qed

lemma drain_inputs_effect:
  assumes "drain_inputs moved frame q inst acc = (inst', inputs)"
  shows "in_queue inst' = []" and "drain_keeps inst inst'"
proof -
  have "in_queue inst' = [] \<and> drain_keeps inst inst'"
    using assms
  proof (induction q arbitrary: inst acc)
    case (Cons input q)
    obtain inst1 acc1 where "drain_inputs moved frame (input # q) inst acc = drain_inputs moved frame q inst1 acc1"
      and k: "drain_keeps inst inst1" using drain_keeps_step by blast
    with Cons.prems have "drain_inputs moved frame q inst1 acc1 = (inst', inputs)"
      by (simp del: drain_inputs.simps)
    from Cons.IH [OF this] k show ?case by (auto simp: drain_keeps_def intro: same_limits_trans)
  qed (auto simp: drain_keeps_def input_state_of_def same_limits_def)
  then show "in_queue inst' = []" and "drain_keeps inst inst'" by simp_all
qed

lemma tick_body_effect:
  assumes "tick_body moved frame start_ms inst = (inst', stats, snap)"
  shows "in_queue inst' = []"
    and "in_state inst' = (if in_state inst = KWaitingPlayers then KRunning else in_state inst)"
    and "leaves_limits (in_plugin inst) \<Longrightarrow> same_limits (in_ctx inst) (in_ctx inst')" and "in_plugin inst' = in_plugin inst"
    and "in_current_frame inst' = frame"
    and "pi_last_seq (input_state_of u inst') = pi_last_seq (input_state_of u inst)"
    and "sn_frame_number snap = frame"
    and "leaves_limits (in_plugin inst) \<Longrightarrow> ic_max_frames (in_ctx inst) > 0 \<Longrightarrow> frame \<ge> ic_max_frames (in_ctx inst) \<Longrightarrow> ts_should_finish stats"
proof -
  define inst1 where "inst1 = (if in_state inst = KWaitingPlayers
    then inst\<lparr>in_state := KRunning, in_running_since_ms := start_ms\<rparr> else inst)\<lparr>in_current_frame := frame\<rparr>"
  obtain inst3 inputs where d: "drain_inputs moved frame (in_queue inst1) inst1 [] = (inst3, inputs)" by fastforce
  obtain st c w where t: "pg_on_tick (in_plugin inst3) (in_ctx inst3)
     \<lparr>fc_frame_number = frame, fc_tick_start_ms = start_ms, fc_inputs_this_tick = inputs\<rparr> (in_world inst3) = (st, c, w)"
    by (metis prod_cases3)
  obtain sn c' w' where b: "pg_build_snapshot (in_plugin inst3) c w = (sn, c', w')" by (metis prod_cases3)
  have "inst' = inst3\<lparr>in_ctx := c', in_world := w'\<rparr>" "snap = sn\<lparr>sn_frame_number := frame\<rparr>"
    "stats = (if ic_max_frames c > 0 \<and> frame \<ge> ic_max_frames c \<and> \<not> ts_should_finish st
       then st\<lparr>ts_should_finish := True, ts_finish_reason := KFrameLimit\<rparr> else st)"
    using assms d t b by (simp_all add: tick_body_def inst1_def Let_def)
  moreover have "in_queue inst3 = []" "drain_keeps inst1 inst3" by (rule drain_inputs_effect [OF d])+
  moreover have "in_ctx inst1 = in_ctx inst" "in_plugin inst1 = in_plugin inst" "in_current_frame inst1 = frame"
    "in_state inst1 = (if in_state inst = KWaitingPlayers then KRunning else in_state inst)"
    "in_player_input inst1 = in_player_input inst"
    by (simp_all add: inst1_def)
  moreover have "leaves_limits (in_plugin inst3) \<Longrightarrow> same_limits (in_ctx inst3) c"
    "leaves_limits (in_plugin inst3) \<Longrightarrow> same_limits c c'"
    using leaves_limitsD(3) [OF _ t] leaves_limitsD(4) [OF _ b] by blast+
  ultimately show "in_queue inst' = []"
    "in_state inst' = (if in_state inst = KWaitingPlayers then KRunning else in_state inst)"
    "leaves_limits (in_plugin inst) \<Longrightarrow> same_limits (in_ctx inst) (in_ctx inst')" "in_plugin inst' = in_plugin inst"
    "in_current_frame inst' = frame" "sn_frame_number snap = frame"
    "pi_last_seq (input_state_of u inst') = pi_last_seq (input_state_of u inst)"
    "leaves_limits (in_plugin inst) \<Longrightarrow> ic_max_frames (in_ctx inst) > 0 \<Longrightarrow> frame \<ge> ic_max_frames (in_ctx inst) \<Longrightarrow> ts_should_finish stats"
    by (simp_all add: input_state_of_def drain_keeps_def same_limits_def)
qed

lemma finish_instance_effect:
  "finish_instance iid reason rt = rt \<or>
   (\<exists>inst c w sc. find_instance_locked iid rt = Some inst \<and> in_state inst \<noteq> KFinished \<and> in_state inst \<noteq> KClosed \<and>
      (leaves_limits (in_plugin inst) \<longrightarrow> same_limits (in_ctx inst) c) \<and> sc_reason sc = reason \<and> sc_instance_id sc = iid \<and>
      finish_instance iid reason rt = emit_event (InstanceFinished iid sc)
        (put_instance iid (inst\<lparr>in_ctx := c, in_world := w, in_state := KFinished\<rparr>) rt))"
proof (cases "find_instance_locked iid rt")
  case (Some inst)
  let ?sc = "\<lambda>p. \<lparr>sc_instance_id = iid, sc_room_id = ic_room_id (in_ctx inst), sc_reason = reason,
       sc_total_frames = in_current_frame inst, sc_result_payload = p\<rparr>"
  obtain payload c w where b: "pg_build_settlement (in_plugin inst) (in_ctx inst) (?sc []) (in_world inst) = (payload, c, w)"
    by (metis prod_cases3)
  have lim: "leaves_limits (in_plugin inst) \<longrightarrow> same_limits (in_ctx inst) c" using leaves_limitsD(5) [OF _ b] by blast
  show ?thesis
  proof (cases "in_state inst = KFinished \<or> in_state inst = KClosed")
    case False
    with b Some have "finish_instance iid reason rt = emit_event (InstanceFinished iid (?sc payload))
        (put_instance iid (inst\<lparr>in_ctx := c, in_world := w, in_state := KFinished\<rparr>) rt)"
      by (simp add: finish_instance_def Let_def)
    with False Some lim show ?thesis
      by (intro disjI2 exI [of _ inst] exI [of _ c] exI [of _ w] exI [of _ "?sc payload"]) simp
  qed (use Some in \<open>auto simp: finish_instance_def\<close>)
qed (simp add: finish_instance_def)

lemma finish_instance_other:
  "jid \<noteq> iid \<Longrightarrow> find_instance_locked jid (finish_instance iid reason rt) = find_instance_locked jid rt"
  using finish_instance_effect [of iid reason rt] by auto

lemma tick_instance_other:
  "jid \<noteq> iid \<Longrightarrow> find_instance_locked jid (snd (tick_instance iid frame ms rt)) = find_instance_locked jid rt"
  by (auto simp: tick_instance_def finish_instance_other Let_def split: option.split prod.split)

subsection \<open>Runs of the runtime\<close>

datatype 'w rt_op =
    OpRegister string "'w plugin"
  | OpCallback bool
  | OpCreate string string string "player_context list" nat nat nat int
  | OpDestroy string
  | OpSubmit input_envelope
  | OpFinish string finish_reason
  | OpTick string nat int
  | OpTickAll int
  | OpResume string string

fun rt_step :: "'w rt_op \<Rightarrow> 'w instance_runtime \<Rightarrow> 'w instance_runtime" where
  "rt_step (OpRegister ty p) rt = register_plugin ty p rt"
| "rt_step (OpCallback cb) rt = set_event_callback cb rt"
| "rt_step (OpCreate iid room ty ps ti mf rw now) rt = snd (create_instance iid room ty ps ti mf rw now rt)"
| "rt_step (OpDestroy iid) rt = destroy_instance iid rt"
| "rt_step (OpSubmit input) rt = snd (submit_input input rt)"
| "rt_step (OpFinish iid reason) rt = finish_instance iid reason rt"
| "rt_step (OpTick iid frame ms) rt = snd (tick_instance iid frame ms rt)"
| "rt_step (OpTickAll ms) rt = snd (tick_all ms rt)"
| "rt_step (OpResume iid u) rt = snd (get_resume_snapshot iid u rt)"

definition inst_ok :: "'w internal_instance \<Rightarrow> bool" where
  "inst_ok inst \<longleftrightarrow> in_state inst \<in> {KWaitingPlayers, KRunning, KFinished} \<and>
     (leaves_limits (in_plugin inst) \<longrightarrow> ic_input_queue_limit (in_ctx inst) = 64 \<and> length (in_queue inst) \<le> 64)"

definition rt_inv :: "'w instance_runtime \<Rightarrow> bool" where
  "rt_inv rt \<longleftrightarrow> distinct (map fst (rt_instances rt)) \<and>
     length (rt_instances rt) \<le> rt_max_instances rt \<and>
     (\<forall>iid inst. find_instance_locked iid rt = Some inst \<longrightarrow> inst_ok inst)"

lemma rt_inv_put:
  assumes "rt_inv rt" and "find_instance_locked iid rt \<noteq> None" and "inst_ok inst"
  shows "rt_inv (put_instance iid inst rt)"
proof -
  have "map fst (rt_instances (put_instance iid inst rt)) = map fst (rt_instances rt)"
    using assms(2) by (simp add: keys_put_instance)
  moreover from this have "length (rt_instances (put_instance iid inst rt)) = length (rt_instances rt)"
    by (metis length_map)
  ultimately show ?thesis using assms by (simp add: rt_inv_def)
qed

lemma rt_inv_emit [simp]: "rt_inv (emit_event e rt) = rt_inv rt"
  by (simp add: rt_inv_def)

lemma rt_inv_finish:
  assumes inv: "rt_inv rt"
  shows "rt_inv (finish_instance iid reason rt)"
  using finish_instance_effect [of iid reason rt]
proof (elim disjE exE conjE)
  fix inst c w sc
  assume f: "find_instance_locked iid rt = Some inst" "leaves_limits (in_plugin inst) \<longrightarrow> same_limits (in_ctx inst) c"
    and eq: "finish_instance iid reason rt = emit_event (InstanceFinished iid sc)
        (put_instance iid (inst\<lparr>in_ctx := c, in_world := w, in_state := KFinished\<rparr>) rt)"
  have "inst_ok inst" using inv f(1) by (simp add: rt_inv_def)
  then have "inst_ok (inst\<lparr>in_ctx := c, in_world := w, in_state := KFinished\<rparr>)" using f(2) by (auto simp: inst_ok_def same_limits_def)
  then show ?thesis using inv f(1) by (simp add: eq rt_inv_put)
qed (use inv in simp)

lemma rt_inv_tick: "rt_inv rt \<Longrightarrow> rt_inv (snd (tick_instance iid frame ms rt))"
proof (cases "find_instance_locked iid rt")
  case (Some inst)
  assume inv: "rt_inv rt"
  obtain inst1 stats snap where t: "tick_body (rt_moved_string rt) frame ms inst = (inst1, stats, snap)"
    by (metis prod_cases3)
  have "inst_ok inst" using inv Some by (simp add: rt_inv_def)
  then have "inst_ok inst1" using tick_body_effect(1-4) [OF t] by (auto simp: inst_ok_def same_limits_def)
  then have "rt_inv (put_instance iid inst1 rt)" using inv Some by (simp add: rt_inv_put)
  then show ?thesis using inv Some t by (simp add: tick_instance_def rt_inv_finish Let_def)
qed (simp add: tick_instance_def)

lemma rt_inv_tick_each: "rt_inv rt \<Longrightarrow> rt_inv (snd (tick_each ts ms rt))"
proof (induction ts arbitrary: rt)
  case (Cons t ts)
  then have "rt_inv (snd (tick_instance (fst t) (snd t) ms rt))" by (simp add: rt_inv_tick)
  from Cons.IH [OF this] show ?case by (cases t) (simp add: case_prod_beta Let_def)
qed simp

lemma rt_inv_submit: "rt_inv rt \<Longrightarrow> rt_inv (snd (submit_input input rt))"
proof (cases "find_instance_locked (ie_instance_id input) rt")
  case (Some inst)
  assume inv: "rt_inv rt"
  with Some have "inst_ok inst" by (simp add: rt_inv_def)
  with inv Some show ?thesis
    by (auto simp: submit_input_def Let_def set_input_state_def inst_ok_def intro!: rt_inv_put)
qed (simp add: submit_input_def)

lemma rt_inv_create: "rt_inv rt \<Longrightarrow> rt_inv (snd (create_instance iid room ty ps ti mf rw now rt))"
proof -
  assume inv: "rt_inv rt"
  have put: "rt_inv (put_instance iid inst rt)"
    if "find_instance_locked iid rt = None" "length (rt_instances rt) < rt_max_instances rt" "inst_ok inst" for inst
  proof -
    have keys: "map fst (rt_instances (put_instance iid inst rt)) = map fst (rt_instances rt) @ [iid]"
      using that by (simp add: keys_put_instance)
    then have "length (rt_instances (put_instance iid inst rt)) = length (rt_instances rt) + 1"
      by (metis length_append_singleton length_map Suc_eq_plus1)
    with keys that inv show ?thesis by (auto simp: rt_inv_def find_None_keys)
  qed
  have new: "inst_ok \<lparr>in_ctx = c', in_state = KWaitingPlayers, in_plugin = p, in_world = w, in_queue = [], in_current_frame = 0,
      in_running_since_ms = 0, in_ack_seq_counter = 0, in_player_input = Map.empty\<rparr>"
    if "pg_on_instance_created p c = Some (c', w)" "ic_input_queue_limit c = 64" for p c c' w
    using leaves_limitsD(1) [OF _ that(1)] that(2) by (auto simp: inst_ok_def same_limits_def)
  show ?thesis
    using inv by (auto simp: create_instance_def Let_def intro!: put intro: new split: option.split prod.split)
qed

lemma rt_inv_step: "rt_inv rt \<Longrightarrow> rt_inv (rt_step op rt)"
proof (cases op)
  case (OpDestroy iid)
  assume inv: "rt_inv rt"
  have "length (rt_instances (destroy_instance iid rt)) \<le> length (rt_instances rt)"
    by (simp add: destroy_instance_def length_delete_le)
  moreover have "distinct (map fst (rt_instances (destroy_instance iid rt)))"
    using inv by (simp add: destroy_instance_def rt_inv_def distinct_delete)
  moreover have "rt_max_instances (destroy_instance iid rt) = rt_max_instances rt"
    by (simp add: destroy_instance_def)
  ultimately show ?thesis using inv OpDestroy by (auto simp: rt_inv_def split: if_splits)
next
  case (OpResume iid u)
  assume "rt_inv rt"
  moreover have "inst_ok (inst\<lparr>in_ctx := c, in_world := w\<rparr>)"
    if "find_instance_locked iid rt = Some inst" "pg_build_resume_snapshot (in_plugin inst) (in_ctx inst) pl (in_world inst) = (sn, c, w)" for inst pl sn c w
    using \<open>rt_inv rt\<close> that(1) leaves_limitsD(6) [OF _ that(2)] by (auto simp: rt_inv_def inst_ok_def same_limits_def)
  ultimately show ?thesis
    by (auto simp: OpResume get_resume_snapshot_def Let_def split: option.split prod.split intro!: rt_inv_put)
next
  case (OpRegister ty p)
  assume "rt_inv rt"
  with OpRegister show ?thesis by (simp add: register_plugin_def rt_inv_def find_instance_locked_def)
next
  case (OpCallback cb)
  assume "rt_inv rt"
  with OpCallback show ?thesis by (simp add: set_event_callback_def rt_inv_def find_instance_locked_def)
qed (simp_all add: rt_inv_create rt_inv_submit rt_inv_finish rt_inv_tick rt_inv_tick_each tick_all_def)

interpretation rtm: message_actor rt_step rt_inv
  by unfold_locales (rule rt_inv_step)

lemma max_instances_finish [simp]: "rt_max_instances (finish_instance iid reason rt) = rt_max_instances rt"
  using finish_instance_effect [of iid reason rt] by auto

lemma max_instances_tick [simp]: "rt_max_instances (snd (tick_instance iid f ms rt)) = rt_max_instances rt"
  by (simp add: tick_instance_def Let_def split: option.split prod.split)

lemma max_instances_tick_each [simp]: "rt_max_instances (snd (tick_each ts ms rt)) = rt_max_instances rt"
  by (induction ts arbitrary: rt) (auto simp: case_prod_beta Let_def)

lemma max_instances_step: "rt_max_instances (rt_step op rt) = rt_max_instances rt"
  by (cases op) (auto simp: register_plugin_def set_event_callback_def create_instance_def
      destroy_instance_def submit_input_def get_resume_snapshot_def tick_all_def Let_def
      split: option.split prod.split)

lemma max_instances_run: "rt_max_instances (run_messages rt_step ops rt) = rt_max_instances rt"
  by (induction ops arbitrary: rt) (simp_all add: max_instances_step)

text \<open>C10: The runtime's resources are bounded. Whatever operations are performed on a new
  runtime, it never holds more instances than configured, their identifiers are distinct, and
  no instance ever queues more than 64 inputs, unless its plugin changes the limits in the context
  that the hooks are handed.\<close>

theorem runtime_bounded:
  "let rt = run_messages rt_step ops (new_instance_runtime m moved) in
     length (rt_instances rt) \<le> m \<and> distinct (map fst (rt_instances rt)) \<and>
     (\<forall>(iid, inst) \<in> set (rt_instances rt). leaves_limits (in_plugin inst) \<longrightarrow> length (in_queue inst) \<le> 64)"
proof -
  let ?new = "new_instance_runtime m moved" and ?rt = "run_messages rt_step ops (new_instance_runtime m moved)"
  have "rt_inv ?new" by (simp add: rt_inv_def new_instance_runtime_def find_instance_locked_def)
  then have inv: "rt_inv ?rt" by (rule rtm.inv_run)
  have "rt_max_instances ?rt = m" by (simp add: max_instances_run) (simp add: new_instance_runtime_def)
  moreover have "length (in_queue inst) \<le> 64" if "(iid, inst) \<in> set (rt_instances ?rt)" "leaves_limits (in_plugin inst)" for iid inst
  proof -
    have "find_instance_locked iid ?rt = Some inst"
      using inv that by (simp add: rt_inv_def find_instance_locked_def)
    then show ?thesis using inv that(2) by (auto simp: rt_inv_def inst_ok_def)
  qed
  ultimately show ?thesis using inv by (auto simp: rt_inv_def Let_def)
qed

subsection \<open>Input order\<close>

definition last_seq :: "string \<Rightarrow> string \<Rightarrow> 'w instance_runtime \<Rightarrow> nat" where
  "last_seq iid u rt =
     (case find_instance_locked iid rt of None \<Rightarrow> 0 | Some inst \<Rightarrow> pi_last_seq (input_state_of u inst))"

definition accepts :: "string \<Rightarrow> string \<Rightarrow> 'w rt_op \<Rightarrow> 'w instance_runtime \<Rightarrow> nat list" where
  "accepts iid u op rt =
     (case op of
        OpSubmit input \<Rightarrow>
          if ie_instance_id input = iid \<and> ie_user_id input = u \<and> ir_accepted (fst (submit_input input rt))
          then [ie_seq input] else []
      | _ \<Rightarrow> [])"

fun accepted_seqs :: "string \<Rightarrow> string \<Rightarrow> 'w rt_op list \<Rightarrow> 'w instance_runtime \<Rightarrow> nat list" where
  "accepted_seqs iid u [] rt = []"
| "accepted_seqs iid u (op # ops) rt = accepts iid u op rt @ accepted_seqs iid u ops (rt_step op rt)"

lemma last_seq_put:
  "last_seq iid u (put_instance jid inst rt) =
     (if iid = jid then pi_last_seq (input_state_of u inst) else last_seq iid u rt)"
  by (simp add: last_seq_def)

lemma last_seq_emit [simp]: "last_seq iid u (emit_event e rt) = last_seq iid u rt"
  by (simp add: last_seq_def)

lemma input_state_of_updates [simp]:
  "input_state_of u (inst\<lparr>in_ctx := c\<rparr>) = input_state_of u inst"
  "input_state_of u (inst\<lparr>in_world := w\<rparr>) = input_state_of u inst"
  "input_state_of u (inst\<lparr>in_state := st\<rparr>) = input_state_of u inst"
  "input_state_of u (inst\<lparr>in_queue := q\<rparr>) = input_state_of u inst"
  "input_state_of u (inst\<lparr>in_ack_seq_counter := a\<rparr>) = input_state_of u inst"
  "input_state_of u (set_input_state v p inst) = (if u = v then p else input_state_of u inst)"
  by (simp_all add: input_state_of_def set_input_state_def)

lemma last_seq_finish [simp]: "last_seq iid u (finish_instance jid reason rt) = last_seq iid u rt"
  using finish_instance_effect [of jid reason rt]
proof (elim disjE exE conjE)
  fix inst c w sc
  assume "find_instance_locked jid rt = Some inst"
    and eq: "finish_instance jid reason rt = emit_event (InstanceFinished jid sc)
        (put_instance jid (inst\<lparr>in_ctx := c, in_world := w, in_state := KFinished\<rparr>) rt)"
  then show ?thesis unfolding eq by (simp add: last_seq_put) (simp add: last_seq_def)
qed simp

lemma last_seq_tick [simp]: "last_seq iid u (snd (tick_instance jid f ms rt)) = last_seq iid u rt"
proof (cases "find_instance_locked jid rt")
  case (Some inst)
  obtain inst1 stats snap where t: "tick_body (rt_moved_string rt) f ms inst = (inst1, stats, snap)"
    by (metis prod_cases3)
  have "pi_last_seq (input_state_of u inst1) = pi_last_seq (input_state_of u inst)"
    by (rule tick_body_effect(6) [OF t])
  with t Some show ?thesis by (simp add: tick_instance_def Let_def last_seq_put) (simp add: last_seq_def)
qed (simp add: tick_instance_def)

lemma last_seq_tick_each [simp]: "last_seq iid u (snd (tick_each ts ms rt)) = last_seq iid u rt"
  by (induction ts arbitrary: rt) (auto simp: case_prod_beta Let_def)

lemma last_seq_step:
  assumes "op \<noteq> OpDestroy iid"
  shows "last_seq iid u (rt_step op rt) = (case accepts iid u op rt of [] \<Rightarrow> last_seq iid u rt | s # _ \<Rightarrow> s)"
proof (cases op)
  case (OpSubmit input)
  show ?thesis
    by (cases "find_instance_locked (ie_instance_id input) rt")
      (auto simp: OpSubmit accepts_def submit_input_def Let_def input_refused_def last_seq_put last_seq_def)
next
  case (OpResume jid v)
  then show ?thesis
    by (auto simp: accepts_def get_resume_snapshot_def last_seq_put split: option.split prod.split)
      (simp add: last_seq_def)
next
  case (OpCreate jid room ty ps ti mf rw now)
  then show ?thesis
    by (auto simp: accepts_def create_instance_def last_seq_put Let_def split: option.split)
      (auto simp: last_seq_def input_state_of_def)
next
  case (OpDestroy jid)
  with assms show ?thesis by (simp add: accepts_def last_seq_def)
qed (simp_all add: accepts_def register_plugin_def set_event_callback_def tick_all_def last_seq_def [of iid u rt]
    last_seq_def [of iid u "rt\<lparr>rt_plugin_factories := f\<rparr>" for f] last_seq_def [of iid u "rt\<lparr>rt_event_callback := f\<rparr>" for f]
    find_instance_locked_def)

lemma accepts_newer:
  "accepts iid u op rt = s # rest \<Longrightarrow> (case op of OpSubmit i \<Rightarrow> 0 < ie_seq i | _ \<Rightarrow> True) \<Longrightarrow>
    rest = [] \<and> last_seq iid u rt < s"
  by (auto simp: accepts_def submit_input_def input_refused_def last_seq_def Let_def
      split: rt_op.splits if_splits option.splits)

text \<open>Inputs are accepted in order. While an instance is not destroyed, the numbered inputs of
  one player that it accepts have strictly increasing sequence numbers, whatever other calls,
  ticks included, come in between: no input is accepted twice and none out of order.\<close>

theorem accepted_inputs_increase:
  assumes "\<forall>op\<in>set ops. op \<noteq> OpDestroy iid \<and> (case op of OpSubmit i \<Rightarrow> 0 < ie_seq i | _ \<Rightarrow> True)"
  shows "sorted_wrt (<) (last_seq iid u rt # accepted_seqs iid u ops rt)"
  using assms
proof (induction ops arbitrary: rt)
  case (Cons op ops)
  have IH: "sorted_wrt (<) (last_seq iid u (rt_step op rt) # accepted_seqs iid u ops (rt_step op rt))"
    by (rule Cons.IH) (use Cons.prems in simp)
  show ?case
  proof (cases "accepts iid u op rt")
    case Nil
    with IH Cons.prems show ?thesis by (simp add: last_seq_step)
  next
    case (Cons s rest)
    with accepts_newer [OF Cons] Cons.prems \<open>\<forall>op\<in>set (op # ops). _ op\<close> IH show ?thesis
      by (auto simp: last_seq_step)
  qed
qed simp

text \<open>A plugin without game state that accepts every input and never ends by itself.\<close>

definition echo_plugin :: "unit plugin" where
  "echo_plugin =
     \<lparr>pg_on_instance_created = (\<lambda>ctx. Some (ctx, ())),
      pg_on_input = (\<lambda>ctx i w. (Some \<lparr>ir_accepted = True, ir_reject_reason = [], ir_ack_seq = ie_seq i\<rparr>, ctx, w)),
      pg_on_tick = (\<lambda>ctx f w. (default_tick_stats (fc_frame_number f), ctx, w)),
      pg_build_snapshot = (\<lambda>ctx w. (empty_snapshot, ctx, w)),
      pg_build_settlement = (\<lambda>ctx sc w. (''done'', ctx, w)),
      pg_build_resume_snapshot = (\<lambda>ctx p w. (empty_snapshot, ctx, w))\<rparr>"

lemma echo_leaves_limits: "leaves_limits echo_plugin"
  by (simp add: leaves_limits_def same_limits_def echo_plugin_def)

definition echo_runtime :: "unit instance_runtime" where
  "echo_runtime = run_messages rt_step
     [OpRegister ''echo'' echo_plugin, OpCallback True, OpCreate ''i'' ''r'' ''echo'' [] 33 2 30000 0]
     (new_instance_runtime 4 [])"

definition echo_input :: "nat \<Rightarrow> input_envelope" where
  "echo_input k = \<lparr>ie_instance_id = ''i'', ie_user_id = ''ann'', ie_seq = k, ie_payload_type = [],
     ie_payload = [], ie_client_time_ms = 0\<rparr>"

lemmas echo_defs = echo_runtime_def register_plugin_def set_event_callback_def create_instance_def
  new_instance_runtime_def echo_plugin_def find_instance_locked_def put_instance_def emit_event_def

theorem runtime_bounded_witness:
  "length (rt_instances echo_runtime) \<le> 4 \<and> length (in_queue (the (find_instance_locked ''i'' echo_runtime))) \<le> 64"
proof -
  obtain inst where inst: "(''i'', inst) \<in> set (rt_instances echo_runtime)" "in_plugin inst = echo_plugin"
    "find_instance_locked ''i'' echo_runtime = Some inst"
    by (simp add: echo_defs Let_def)
  note bounded = runtime_bounded
    [of "[OpRegister ''echo'' echo_plugin, OpCallback True, OpCreate ''i'' ''r'' ''echo'' [] 33 2 30000 0]" 4 "[]",
     folded echo_runtime_def, unfolded Let_def]
  then show ?thesis using inst echo_leaves_limits by fastforce
qed

theorem accepted_inputs_increase_witness:
  "accepted_seqs ''i'' ''ann'' (map (\<lambda>k. OpSubmit (echo_input k)) [1, 1, 3, 2]) echo_runtime = [1, 3] \<and>
   sorted_wrt (<) (last_seq ''i'' ''ann'' echo_runtime #
     accepted_seqs ''i'' ''ann'' (map (\<lambda>k. OpSubmit (echo_input k)) [1, 1, 3, 2]) echo_runtime)"
proof
  show "accepted_seqs ''i'' ''ann'' (map (\<lambda>k. OpSubmit (echo_input k)) [1, 1, 3, 2]) echo_runtime = [1, 3]"
    by (simp add: accepts_def submit_input_def echo_input_def echo_defs Let_def input_refused_def
        instance_active_def set_input_state_def input_state_of_def)
next
  show "sorted_wrt (<) (last_seq ''i'' ''ann'' echo_runtime #
     accepted_seqs ''i'' ''ann'' (map (\<lambda>k. OpSubmit (echo_input k)) [1, 1, 3, 2]) echo_runtime)"
    by (rule accepted_inputs_increase) (simp add: echo_input_def)
qed

text \<open>An input numbered 0 resets the counter, after which old numbers are accepted again.\<close>

lemma seq_zero_resets_order:
  "accepted_seqs ''i'' ''ann'' (map (\<lambda>k. OpSubmit (echo_input k)) [5, 0, 5]) echo_runtime = [5, 0, 5]"
  by (simp add: accepts_def submit_input_def echo_input_def echo_defs Let_def input_refused_def
      instance_active_def set_input_state_def input_state_of_def)

text \<open>
  The acknowledged frame is stored under the moved-from name: after a tick that consumed an
  input of a player, that player's record does not show the frame.
\<close>

lemma acked_frame_lost:
  "let inst = the (find_instance_locked ''i''
         (run_messages rt_step [OpSubmit (echo_input 1), OpTick ''i'' 1 0] echo_runtime))
   in pi_last_acked_frame (input_state_of ''ann'' inst) = 0 \<and>
      pi_last_acked_frame (input_state_of [] inst) = 1"
  by (simp add: submit_input_def tick_instance_def tick_body_def echo_input_def echo_defs Let_def
      instance_active_def set_input_state_def input_state_of_def default_tick_stats_def)

subsection \<open>Settlement\<close>

definition finished :: "string \<Rightarrow> 'w instance_runtime \<Rightarrow> bool" where
  "finished iid rt \<longleftrightarrow> get_instance_state iid rt = KFinished"

definition settlements :: "string \<Rightarrow> 'w instance_runtime \<Rightarrow> nat" where
  "settlements iid rt =
     length (filter (\<lambda>e. case e of InstanceFinished j _ \<Rightarrow> j = iid | _ \<Rightarrow> False) (rt_events rt))"

text \<open>An operation settles an instance exactly when it finishes it.\<close>

definition settles_once :: "string \<Rightarrow> 'w instance_runtime \<Rightarrow> 'w instance_runtime \<Rightarrow> bool" where
  "settles_once iid rt rt' \<longleftrightarrow> rt_event_callback rt' \<and> (finished iid rt \<longrightarrow> finished iid rt') \<and>
     settlements iid rt' = settlements iid rt + (if finished iid rt' \<and> \<not> finished iid rt then 1 else 0)"

lemma finished_simps [simp]:
  "finished iid (emit_event e rt) = finished iid rt"
  "finished iid (put_instance jid inst rt) = (if iid = jid then in_state inst = KFinished else finished iid rt)"
  by (simp_all add: finished_def get_instance_state_def)

lemma settlements_simps [simp]:
  "settlements iid (put_instance jid inst rt) = settlements iid rt"
  "rt_event_callback rt \<Longrightarrow> settlements iid (emit_event e rt) =
     settlements iid rt + (case e of InstanceFinished j _ \<Rightarrow> if j = iid then 1 else 0 | _ \<Rightarrow> 0)"
  by (simp_all add: settlements_def split: instance_event.split)

lemma settles_refl: "rt_event_callback rt \<Longrightarrow> settles_once iid rt rt"
  by (simp add: settles_once_def)

lemma settles_trans: "settles_once iid a b \<Longrightarrow> settles_once iid b c \<Longrightarrow> settles_once iid a c"
  unfolding settles_once_def
  by (cases "finished iid a"; cases "finished iid b"; cases "finished iid c") simp_all

lemma settles_finish:
  assumes "rt_event_callback rt"
  shows "settles_once iid rt (finish_instance jid reason rt)"
  using finish_instance_effect [of jid reason rt]
proof (elim disjE exE conjE)
  assume "finish_instance jid reason rt = rt"
  with assms show ?thesis by (simp add: settles_refl)
next
  fix inst c w sc
  assume f: "find_instance_locked jid rt = Some inst" "in_state inst \<noteq> KFinished"
    and "finish_instance jid reason rt = emit_event (InstanceFinished jid sc)
        (put_instance jid (inst\<lparr>in_ctx := c, in_world := w, in_state := KFinished\<rparr>) rt)"
  moreover have "\<not> finished jid rt" using f by (simp add: finished_def get_instance_state_def)
  ultimately show ?thesis using assms by (auto simp: settles_once_def)
qed

lemma settles_put:
  assumes "rt_event_callback rt" and "find_instance_locked jid rt = Some inst"
    and "in_state inst' = KFinished \<longleftrightarrow> in_state inst = KFinished"
  shows "settles_once iid rt (put_instance jid inst' rt)"
  using assms by (auto simp: settles_once_def finished_def get_instance_state_def)

lemma settles_snapshot:
  "rt_event_callback rt \<Longrightarrow> settles_once iid rt (emit_event (SnapshotAvailable jid s) rt)"
  by (simp add: settles_once_def)

lemma settles_tick:
  assumes "rt_event_callback rt"
  shows "settles_once iid rt (snd (tick_instance jid f ms rt))"
proof (cases "find_instance_locked jid rt")
  case (Some inst)
  show ?thesis
  proof (cases "instance_active inst")
    case True
    obtain inst1 stats snap where t: "tick_body (rt_moved_string rt) f ms inst = (inst1, stats, snap)"
      by (metis prod_cases3)
    let ?a = "put_instance jid inst1 rt" and ?b = "emit_event (SnapshotAvailable jid snap) (put_instance jid inst1 rt)"
    have "settles_once iid rt ?a"
      by (rule settles_put [OF assms Some])
        (use tick_body_effect(2) [OF t] True in \<open>auto simp: instance_active_def\<close>)
    moreover have "settles_once iid ?a ?b" by (rule settles_snapshot) (simp add: assms)
    moreover have "settles_once iid ?b (finish_instance jid (ts_finish_reason stats) ?b)"
      by (rule settles_finish) (simp add: assms)
    ultimately have "settles_once iid rt ?b" "settles_once iid rt (finish_instance jid (ts_finish_reason stats) ?b)"
      using settles_trans by blast+
    then show ?thesis using Some True t by (simp add: tick_instance_def Let_def)
  qed (use Some assms in \<open>simp add: tick_instance_def settles_refl\<close>)
qed (use assms in \<open>simp add: tick_instance_def settles_refl\<close>)

lemma settles_tick_each: "rt_event_callback rt \<Longrightarrow> settles_once iid rt (snd (tick_each ts ms rt))"
proof (induction ts arbitrary: rt)
  case (Cons t ts)
  have 1: "settles_once iid rt (snd (tick_instance (fst t) (snd t) ms rt))"
    by (rule settles_tick [OF Cons.prems])
  then have "rt_event_callback (snd (tick_instance (fst t) (snd t) ms rt))" by (simp add: settles_once_def)
  from settles_trans [OF 1 Cons.IH [OF this]] show ?case by (cases t) (simp add: case_prod_beta Let_def)
qed (simp add: settles_refl)

lemma settles_step:
  assumes "rt_event_callback rt" and "op \<noteq> OpDestroy iid" and "\<forall>cb. op \<noteq> OpCallback cb"
  shows "settles_once iid rt (rt_step op rt)"
proof (cases op)
  case (OpSubmit input)
  then show ?thesis
    using assms(1)
    by (auto simp: submit_input_def Let_def set_input_state_def settles_refl intro!: settles_put split: option.split)
next
  case (OpResume jid u)
  then show ?thesis
    using assms(1)
    by (auto simp: get_resume_snapshot_def settles_refl intro!: settles_put split: option.split prod.split)
next
  case (OpCreate jid room ty ps ti mf rw now)
  then show ?thesis
    using assms(1)
    by (auto simp: create_instance_def Let_def settles_refl settles_once_def finished_def
        get_instance_state_def split: option.split)
next
  case (OpDestroy jid)
  with assms show ?thesis
    by (auto simp: settles_once_def finished_def get_instance_state_def settlements_def)
      (simp_all add: destroy_instance_def)
next
  case (OpRegister ty p)
  with assms(1) show ?thesis
    by (simp add: settles_once_def finished_def get_instance_state_def settlements_def register_plugin_def
        find_instance_locked_def)
qed (use assms in \<open>simp_all add: settles_finish settles_tick settles_tick_each tick_all_def\<close>)

text \<open>C8: An instance is settled exactly once. While the event callback stays installed and the
  instance is not destroyed, a finished instance stays finished, and the number of settlement
  events for it grows by one in a run that finishes it and not at all in any other run.\<close>

theorem settled_exactly_once:
  assumes "rt_event_callback rt" and "\<forall>op\<in>set ops. op \<noteq> OpDestroy iid \<and> (\<forall>cb. op \<noteq> OpCallback cb)"
    and "rt' = run_messages rt_step ops rt"
  shows "(finished iid rt \<longrightarrow> finished iid rt') \<and>
    settlements iid rt' = settlements iid rt + (if finished iid rt' \<and> \<not> finished iid rt then 1 else 0)"
proof -
  have "settles_once iid rt (run_messages rt_step ops rt)"
    using assms(1,2)
  proof (induction ops arbitrary: rt)
    case (Cons op ops)
    have 1: "settles_once iid rt (rt_step op rt)" by (rule settles_step) (use Cons.prems in auto)
    then have "rt_event_callback (rt_step op rt)" by (simp add: settles_once_def)
    from settles_trans [OF 1 Cons.IH [OF this]] Cons.prems show ?case by simp
  qed (simp add: settles_refl)
  then show ?thesis using assms(3) by (simp add: settles_once_def)
qed

theorem settled_exactly_once_witness:
  "let rt' = run_messages rt_step [OpFinish ''i'' KTimeout, OpFinish ''i'' KNormal, OpTickAll 9] echo_runtime
   in finished ''i'' rt' \<and> settlements ''i'' rt' = 1"
proof -
  let ?rt1 = "rt_step (OpFinish ''i'' KTimeout) echo_runtime"
  let ?ops = "[OpFinish ''i'' KNormal, OpTickAll 9]"
  have r: "rt_event_callback ?rt1" "finished ''i'' ?rt1" "settlements ''i'' ?rt1 = 1"
    by (simp_all add: echo_defs finish_instance_def finished_def get_instance_state_def settlements_def Let_def)
  have "\<forall>op\<in>set ?ops. op \<noteq> OpDestroy ''i'' \<and> (\<forall>cb. op \<noteq> OpCallback cb)" by simp
  from settled_exactly_once [OF r(1) this refl] r(2,3) show ?thesis by (simp add: Let_def)
qed

subsection \<open>The frame limit\<close>

text \<open>An instance that has finished, or that is active, has the frame limit \<open>m\<close>, which its plugin leaves alone, and stands at frame \<open>k\<close>.\<close>

definition at_frame :: "string \<Rightarrow> nat \<Rightarrow> nat \<Rightarrow> 'w instance_runtime \<Rightarrow> bool" where
  "at_frame iid m k rt \<longleftrightarrow> (\<exists>inst. find_instance_locked iid rt = Some inst \<and>
     (in_state inst = KFinished \<or>
      instance_active inst \<and> leaves_limits (in_plugin inst) \<and> ic_max_frames (in_ctx inst) = m \<and> in_current_frame inst = k \<and> k < m))"

lemma finish_instance_finishes:
  assumes "find_instance_locked iid rt = Some inst" and "in_state inst \<noteq> KClosed"
  shows "\<exists>inst'. find_instance_locked iid (finish_instance iid reason rt) = Some inst' \<and> in_state inst' = KFinished"
  using assms
  by (cases "in_state inst = KFinished") (auto simp: finish_instance_def Let_def split: prod.split)

lemma tick_instance_at_frame:
  assumes "at_frame iid m k rt" and "k + 1 \<le> m"
  shows "at_frame iid m (k + 1) (snd (tick_instance iid (k + 1) ms rt))"
proof -
  obtain inst where f: "find_instance_locked iid rt = Some inst"
    and st: "in_state inst = KFinished \<or> instance_active inst \<and> leaves_limits (in_plugin inst) \<and> ic_max_frames (in_ctx inst) = m"
    using assms(1) by (auto simp: at_frame_def)
  show ?thesis
  proof (cases "in_state inst = KFinished")
    case True
    then show ?thesis using f by (simp add: tick_instance_def instance_active_def at_frame_def)
  next
    case False
    with st have act: "instance_active inst" and lim: "leaves_limits (in_plugin inst)" and m: "ic_max_frames (in_ctx inst) = m" by auto
    obtain inst1 stats snap where t: "tick_body (rt_moved_string rt) (k + 1) ms inst = (inst1, stats, snap)"
      by (metis prod_cases3)
    note e = tick_body_effect [OF t]
    let ?rt1 = "emit_event (SnapshotAvailable iid snap) (put_instance iid inst1 rt)"
    have act1: "instance_active inst1" using e(2) act by (auto simp: instance_active_def)
    show ?thesis
    proof (cases "ts_should_finish stats")
      case True
      have "\<exists>inst'. find_instance_locked iid (finish_instance iid (ts_finish_reason stats) ?rt1) = Some inst' \<and>
          in_state inst' = KFinished"
        by (rule finish_instance_finishes [of _ _ inst1]) (use act1 in \<open>auto simp: instance_active_def\<close>)
      with True f act t show ?thesis by (auto simp: tick_instance_def Let_def at_frame_def)
    next
      case False
      then have "k + 1 < m" using e(8) lim m assms(2) by (cases "k + 1 = m") auto
      with False f act t act1 e(3) [OF lim] e(4,5) lim m show ?thesis
        by (auto simp: tick_instance_def Let_def at_frame_def same_limits_def)
    qed
  qed
qed

lemma at_frame_find_cong:
  "find_instance_locked iid rt' = find_instance_locked iid rt \<Longrightarrow> at_frame iid m k rt' = at_frame iid m k rt"
  by (simp add: at_frame_def)

lemma tick_each_other:
  "iid \<notin> fst ` set ts \<Longrightarrow> find_instance_locked iid (snd (tick_each ts ms rt)) = find_instance_locked iid rt"
proof (induction ts arbitrary: rt)
  case (Cons t ts)
  then show ?case using tick_instance_other [of iid "fst t" "snd t" ms rt]
    by (cases t) (simp add: case_prod_beta Let_def)
qed simp

lemma tick_each_at_frame:
  assumes "distinct (map fst ts)" and "(iid, k + 1) \<in> set ts" and "at_frame iid m k rt" and "k + 1 \<le> m"
  shows "at_frame iid m (k + 1) (snd (tick_each ts ms rt))"
  using assms
proof (induction ts arbitrary: rt)
  case (Cons t ts)
  obtain j f where t: "t = (j, f)" by fastforce
  let ?rt1 = "snd (tick_instance j f ms rt)"
  have eq: "snd (tick_each (t # ts) ms rt) = snd (tick_each ts ms ?rt1)"
    by (simp add: t case_prod_beta Let_def)
  show ?case
  proof (cases "j = iid")
    case True
    with Cons.prems t have "iid \<notin> fst ` set ts" "f = k + 1" by (auto simp: rev_image_eqI)
    with True Cons.prems show ?thesis
      unfolding eq at_frame_find_cong [OF tick_each_other [OF \<open>iid \<notin> fst ` set ts\<close>]]
      using tick_instance_at_frame [OF Cons.prems(3,4), of ms] by simp
  next
    case False
    then have "at_frame iid m k ?rt1"
      using Cons.prems(3) at_frame_find_cong [OF tick_instance_other [of iid j f ms rt]] by simp
    with Cons False t show ?thesis unfolding eq by auto
  qed
qed simp

lemma tick_all_at_frame:
  assumes "rt_inv rt" and "at_frame iid m k rt" and "k + 1 \<le> m" and "m < 2 ^ 32"
  shows "at_frame iid m (k + 1) (snd (tick_all ms rt))"
proof -
  let ?ts = "map (\<lambda>(iid, inst). (iid, u32_add (in_current_frame inst) 1))
    (filter (\<lambda>(iid, inst). instance_active inst) (rt_instances rt))"
  have keys: "map fst ?ts = map fst (filter (\<lambda>(iid, inst). instance_active inst) (rt_instances rt))"
    by (simp add: case_prod_beta comp_def)
  then have d: "distinct (map fst ?ts)" using assms(1) unfolding keys by (auto simp: rt_inv_def)
  obtain inst where f: "find_instance_locked iid rt = Some inst"
    and st: "in_state inst = KFinished \<or> instance_active inst \<and> in_current_frame inst = k"
    using assms(2) by (auto simp: at_frame_def)
  show ?thesis
  proof (cases "in_state inst = KFinished")
    case True
    have "iid \<notin> fst ` set ?ts"
    proof
      assume "iid \<in> fst ` set ?ts"
      then obtain i where "(iid, i) \<in> set (rt_instances rt)" "instance_active i" by force
      then have "find_instance_locked iid rt = Some i"
        using assms(1) by (simp add: rt_inv_def find_instance_locked_def)
      with f True \<open>instance_active i\<close> show False by (simp add: instance_active_def)
    qed
    then show ?thesis using f True by (simp add: tick_all_def tick_each_other at_frame_def)
  next
    case False
    with st have act: "instance_active inst" "in_current_frame inst = k" by auto
    have "(iid, inst) \<in> set (rt_instances rt)"
      using f by (simp add: find_instance_locked_def map_of_SomeD)
    moreover have "u32_add k 1 = k + 1" using assms(3,4) by simp
    ultimately have "(iid, k + 1) \<in> set ?ts" using act by force
    from tick_each_at_frame [OF d this assms(2,3)] show ?thesis by (simp add: tick_all_def)
  qed
qed

text \<open>C9: A frame limit ends every instance whose plugin leaves the limits in the context alone. An
  active instance created with a limit of \<open>m\<close> frames is finished after \<open>m\<close> rounds of the tick timer,
  whatever worlds, statistics and exceptions its hooks produce, and whatever other instances, with
  whatever plugins, the runtime ticks.  A plugin that sets \<^verbatim>\<open>max_frames\<close> to 0 is not ended: the
  limit is read after \<^verbatim>\<open>on_tick\<close>.\<close>

theorem frame_limit_finishes:
  assumes "rt_inv rt" and "find_instance_locked iid rt = Some inst" and "instance_active inst" and "leaves_limits (in_plugin inst)"
    and "ic_max_frames (in_ctx inst) = m" and "in_current_frame inst = 0" and "0 < m" and "m < 2 ^ 32"
    and "length instants = m"
  shows "get_instance_state iid (run_messages rt_step (map OpTickAll instants) rt) = KFinished"
proof -
  have "rt_inv (run_messages rt_step (map OpTickAll (take k instants)) rt) \<and>
      at_frame iid m k (run_messages rt_step (map OpTickAll (take k instants)) rt)" if "k \<le> m" for k
    using that
  proof (induction k)
    case 0
    then show ?case using assms by (auto simp: at_frame_def)
  next
    case (Suc k)
    then have "take (Suc k) instants = take k instants @ [instants ! k]" using assms(9) by (simp add: take_Suc_conv_app_nth)
    with Suc rt_inv_step [of _ "OpTickAll (instants ! k)"] tick_all_at_frame [of "run_messages rt_step (map OpTickAll (take k instants)) rt" iid m k] assms(8)
    show ?case by auto
  qed
  from this [of m] assms(9) show ?thesis
    by (auto simp: at_frame_def get_instance_state_def)
qed

theorem frame_limit_finishes_witness:
  "get_instance_state ''i'' (run_messages rt_step (map OpTickAll [33, 66]) echo_runtime) = KFinished"
proof -
  have inv: "rt_inv echo_runtime"
    unfolding echo_runtime_def
    by (rule rtm.inv_run) (simp add: rt_inv_def new_instance_runtime_def find_instance_locked_def)
  obtain inst where "find_instance_locked ''i'' echo_runtime = Some inst" "instance_active inst" "leaves_limits (in_plugin inst)"
    "ic_max_frames (in_ctx inst) = 2" "in_current_frame inst = 0"
    using echo_leaves_limits by (simp add: echo_defs instance_active_def Let_def)
  from frame_limit_finishes [OF inv this, of "[33, 66]"] show ?thesis by simp
qed

text \<open>The case left out: a plugin that sets the limit to 0 when it is ticked runs past it.\<close>

definition endless_plugin :: "unit plugin" where
  "endless_plugin = echo_plugin\<lparr>pg_on_tick := \<lambda>ctx f w. (default_tick_stats (fc_frame_number f), ctx\<lparr>ic_max_frames := 0\<rparr>, w)\<rparr>"

lemma limit_lifted_by_plugin:
  "get_instance_state ''i'' (run_messages rt_step
     [OpRegister ''echo'' endless_plugin, OpCreate ''i'' ''r'' ''echo'' [] 33 2 30000 0, OpTickAll 33, OpTickAll 66, OpTickAll 99]
     (new_instance_runtime 4 [])) = KRunning"
  by (simp add: echo_defs endless_plugin_def tick_all_def tick_instance_def tick_body_def instance_active_def Let_def default_tick_stats_def
      get_instance_state_def u32_add_def)

end
