(* ===== verification/Ecs_World.thy ===== *)
theory Ecs_World
  imports Prelude "HOL-Library.AList" "HOL-Library.Multiset"
begin

text \<open>
  The entity component system (\<^verbatim>\<open>include/v2/ecs\<close>, \<^verbatim>\<open>src/v2/ecs/world.cpp\<close>): \<^verbatim>\<open>SimpleWorld\<close> with its
  type-erased component stores.  A store is an association list, one per component type; the
  order in which \<^verbatim>\<open>for_each\<close> visits an \<^verbatim>\<open>std::unordered_map\<close> is unspecified, so every iteration
  takes the visiting order as an argument.  The arena and the handle pool only decide where an
  entity's storage lives and are left out.
\<close>

type_synonym entity_id = nat

record entity_handle =
  eh_id :: entity_id
  eh_generation :: nat

definition eh_valid :: "entity_handle \<Rightarrow> bool" where
  "eh_valid h = (eh_id h \<noteq> 0)"

record ('k, 'c) simple_world =
  sw_next_entity_id :: nat
  sw_entity_storage :: "entity_id \<rightharpoonup> nat"
  sw_component_stores :: "'k \<Rightarrow> (entity_id \<times> 'c) list"

text \<open>The component of a type that an entity number owns (\<^verbatim>\<open>components.find(id)\<close>).\<close>

definition comp_at :: "('k, 'c) simple_world \<Rightarrow> 'k \<Rightarrow> entity_id \<Rightarrow> 'c option" where
  "comp_at w k i = map_of (sw_component_stores w k) i"

definition new_simple_world :: "('k, 'c) simple_world" where
  "new_simple_world =
     \<lparr>sw_next_entity_id = 1, sw_entity_storage = Map.empty, sw_component_stores = (\<lambda>_. [])\<rparr>"

definition create_entity :: "('k, 'c) simple_world \<Rightarrow> entity_handle \<times> ('k, 'c) simple_world" where
  "create_entity w =
     (let entity_id = sw_next_entity_id w
      in (\<lparr>eh_id = entity_id, eh_generation = 1\<rparr>,
          w\<lparr>sw_next_entity_id := u32_add entity_id 1,
            sw_entity_storage := (sw_entity_storage w)(entity_id \<mapsto> 1)\<rparr>))"

definition entity_exists :: "entity_handle \<Rightarrow> ('k, 'c) simple_world \<Rightarrow> bool" where
  "entity_exists h w = (eh_valid h \<and> sw_entity_storage w (eh_id h) = Some (eh_generation h))"

definition destroy_entity :: "entity_handle \<Rightarrow> ('k, 'c) simple_world \<Rightarrow> ('k, 'c) simple_world" where
  "destroy_entity h w =
     (if \<not> entity_exists h w then w
      else w\<lparr>sw_component_stores := (\<lambda>k. AList.delete (eh_id h) (sw_component_stores w k)),
             sw_entity_storage := (sw_entity_storage w)(eh_id h := None)\<rparr>)"

text \<open>Writing a component of an entity, through a slot of the store or through a reference.\<close>

definition set_component ::
  "entity_id \<Rightarrow> 'k \<Rightarrow> 'c \<Rightarrow> ('k, 'c) simple_world \<Rightarrow> ('k, 'c) simple_world" where
  "set_component i k c w =
     w\<lparr>sw_component_stores := (sw_component_stores w)(k := AList.update i c (sw_component_stores w k))\<rparr>"

text \<open>
  \<^verbatim>\<open>add_component_erased\<close> answers a null pointer (\<open>None\<close>) for an entity that does not exist.
  \<^verbatim>\<open>add_component\<close> dereferences the answer; \<open>add_component\<close> leaves the world alone in that case,
  and \<open>add_component_defined\<close> below is the fact that makes the callers safe.
\<close>

definition add_component_erased ::
  "entity_handle \<Rightarrow> 'k \<Rightarrow> 'c \<Rightarrow> ('k, 'c) simple_world \<Rightarrow> ('k, 'c) simple_world option" where
  "add_component_erased h k c w =
     (if \<not> entity_exists h w then None else Some (set_component (eh_id h) k c w))"

definition add_component ::
  "entity_handle \<Rightarrow> 'k \<Rightarrow> 'c \<Rightarrow> ('k, 'c) simple_world \<Rightarrow> ('k, 'c) simple_world" where
  "add_component h k c w = (case add_component_erased h k c w of Some w' \<Rightarrow> w' | None \<Rightarrow> w)"

definition get_component_erased ::
  "entity_handle \<Rightarrow> 'k \<Rightarrow> ('k, 'c) simple_world \<Rightarrow> 'c option" where
  "get_component_erased h k w =
     (if \<not> entity_exists h w then None else comp_at w k (eh_id h))"

definition remove_component_erased ::
  "entity_handle \<Rightarrow> 'k \<Rightarrow> ('k, 'c) simple_world \<Rightarrow> bool \<times> ('k, 'c) simple_world" where
  "remove_component_erased h k w =
     (if \<not> entity_exists h w then (False, w)
      else (comp_at w k (eh_id h) \<noteq> None,
            w\<lparr>sw_component_stores := (sw_component_stores w)
                (k := AList.delete (eh_id h) (sw_component_stores w k))\<rparr>))"

definition handle_of :: "('k, 'c) simple_world \<Rightarrow> entity_id \<Rightarrow> entity_handle" where
  "handle_of w i = \<lparr>eh_id = i,
     eh_generation = (case sw_entity_storage w i of Some g \<Rightarrow> g | None \<Rightarrow> 0)\<rparr>"

type_synonym visit_order = "entity_id list \<Rightarrow> entity_id list"

definition for_each ::
  "visit_order \<Rightarrow> 'k \<Rightarrow> (entity_handle \<Rightarrow> 'c \<Rightarrow> ('k, 'c) simple_world \<Rightarrow> ('k, 'c) simple_world) \<Rightarrow>
     ('k, 'c) simple_world \<Rightarrow> ('k, 'c) simple_world" where
  "for_each order k fn w =
     fold (\<lambda>i w. case comp_at w k i of
                   None \<Rightarrow> w
                 | Some c \<Rightarrow> fn (handle_of w i) c w)
       (order (map fst (sw_component_stores w k))) w"

text \<open>The same with a local variable the function also writes.\<close>

definition for_each_acc ::
  "visit_order \<Rightarrow> 'k \<Rightarrow>
     (entity_handle \<Rightarrow> 'c \<Rightarrow> ('k, 'c) simple_world \<times> 'a \<Rightarrow> ('k, 'c) simple_world \<times> 'a) \<Rightarrow>
     ('k, 'c) simple_world \<times> 'a \<Rightarrow> ('k, 'c) simple_world \<times> 'a" where
  "for_each_acc order k fn s =
     fold (\<lambda>i s. case comp_at (fst s) k i of
                   None \<Rightarrow> s
                 | Some c \<Rightarrow> fn (handle_of (fst s) i) c s)
       (order (map fst (sw_component_stores (fst s) k))) s"

text \<open>The component handles and values a read-only \<^verbatim>\<open>for_each\<close> passes to its function, in order.\<close>

definition visited ::
  "visit_order \<Rightarrow> 'k \<Rightarrow> ('k, 'c) simple_world \<Rightarrow> (entity_handle \<times> 'c) list" where
  "visited order k w =
     map (\<lambda>i. (handle_of w i, the (comp_at w k i)))
       (order (map fst (sw_component_stores w k)))"

text \<open>What the standard promises of the visiting order: every key once.\<close>

definition visits_all :: "visit_order \<Rightarrow> bool" where
  "visits_all order \<longleftrightarrow> (\<forall>xs. mset (order xs) = mset xs)"

subsection \<open>The world invariant\<close>

text \<open>
  Keys of a store are distinct and belong to living entities, handles issued later are new, and
  every component is stored under its own type, so the \<^verbatim>\<open>static_cast\<close> of \<^verbatim>\<open>get_component\<close> and
  \<^verbatim>\<open>for_each\<close> always meets an object of the type it asks for.
\<close>

definition world_ok :: "('c \<Rightarrow> 'k) \<Rightarrow> ('k, 'c) simple_world \<Rightarrow> bool" where
  "world_ok type_of w \<longleftrightarrow>
     0 < sw_next_entity_id w \<and>
     (\<forall>i. sw_entity_storage w i \<noteq> None \<longrightarrow> 0 < i \<and> i < sw_next_entity_id w) \<and>
     (\<forall>k. distinct (map fst (sw_component_stores w k))) \<and>
     (\<forall>k i c. comp_at w k i = Some c \<longrightarrow>
        sw_entity_storage w i \<noteq> None \<and> type_of c = k)"

lemma comp_at_new [simp]: "comp_at new_simple_world k i = None"
  by (simp add: comp_at_def new_simple_world_def)

lemma comp_at_set:
  "comp_at (set_component i k c w) k' j = (if k = k' \<and> i = j then Some c else comp_at w k' j)"
  by (simp add: comp_at_def set_component_def update_conv')

lemma comp_at_destroy:
  "entity_exists h w \<Longrightarrow>
     comp_at (destroy_entity h w) k i = (if i = eh_id h then None else comp_at w k i)"
  by (simp add: comp_at_def destroy_entity_def delete_conv')

lemma comp_at_remove:
  "comp_at (snd (remove_component_erased h k w)) k' i =
     (if entity_exists h w \<and> k' = k \<and> i = eh_id h then None else comp_at w k' i)"
  by (simp add: comp_at_def remove_component_erased_def delete_conv')

lemma comp_at_None_iff: "comp_at w k i = None \<longleftrightarrow> i \<notin> set (map fst (sw_component_stores w k))"
  by (simp add: comp_at_def map_of_eq_None_iff)

lemma create_entity_comp: "comp_at (snd (create_entity w)) k i = comp_at w k i"
  by (simp add: comp_at_def create_entity_def Let_def)

lemma world_ok_new: "world_ok type_of new_simple_world"
  by (simp add: world_ok_def) (simp add: new_simple_world_def)

lemma world_ok_create:
  assumes "world_ok type_of w" and "Suc (sw_next_entity_id w) < 2 ^ 32"
  shows "world_ok type_of (snd (create_entity w))"
  using assms unfolding world_ok_def create_entity_comp
  by (auto simp: create_entity_def Let_def less_Suc_eq)

lemma stores_distinct:
  "distinct (map fst (sw_component_stores w k)) \<Longrightarrow>
     distinct (map fst (sw_component_stores (set_component i k' c w) k))"
  "distinct (map fst (sw_component_stores w k)) \<Longrightarrow>
     distinct (map fst (sw_component_stores (destroy_entity h w) k))"
  "distinct (map fst (sw_component_stores w k)) \<Longrightarrow>
     distinct (map fst (sw_component_stores (snd (remove_component_erased h k' w)) k))"
  by (auto simp: set_component_def destroy_entity_def remove_component_erased_def distinct_update
      distinct_delete)

lemma world_ok_destroy:
  assumes "world_ok type_of w"
  shows "world_ok type_of (destroy_entity h w)"
proof (cases "entity_exists h w")
  case True
  with assms show ?thesis
    unfolding world_ok_def comp_at_destroy[OF True]
    by (auto simp: stores_distinct) (auto simp: destroy_entity_def split: if_splits)
next
  case False
  with assms show ?thesis by (simp add: destroy_entity_def)
qed

lemma world_ok_set:
  assumes "world_ok type_of w" and "sw_entity_storage w i \<noteq> None"
  shows "world_ok type_of (set_component i (type_of c) c w)"
  using assms unfolding world_ok_def comp_at_set
  by (auto simp: stores_distinct) (auto simp: set_component_def)

lemma world_ok_remove:
  assumes "world_ok type_of w"
  shows "world_ok type_of (snd (remove_component_erased h k w))"
  using assms unfolding world_ok_def comp_at_remove
  by (auto simp: stores_distinct) (auto simp: remove_component_erased_def split: if_splits)

lemma entity_exists_storage: "entity_exists h w \<Longrightarrow> sw_entity_storage w (eh_id h) \<noteq> None"
  by (simp add: entity_exists_def)

lemma world_ok_add:
  assumes "world_ok type_of w"
  shows "world_ok type_of (add_component h (type_of c) c w)"
  using world_ok_set[OF assms entity_exists_storage] assms
  by (auto simp: add_component_def add_component_erased_def)

lemma world_ok_keys:
  "world_ok type_of w \<Longrightarrow> distinct (map fst (sw_component_stores w k))"
  by (simp add: world_ok_def)

lemma world_ok_alive:
  "world_ok type_of w \<Longrightarrow> comp_at w k i = Some c \<Longrightarrow>
     sw_entity_storage w i \<noteq> None \<and> type_of c = k \<and> 0 < i \<and> i < sw_next_entity_id w"
  unfolding world_ok_def by blast

lemma entity_exists_handle_of:
  "world_ok type_of w \<Longrightarrow> sw_entity_storage w i \<noteq> None \<Longrightarrow> entity_exists (handle_of w i) w"
  by (auto simp: entity_exists_def handle_of_def eh_valid_def world_ok_def)

subsection \<open>Lookup after write\<close>

lemma storage_set [simp]:
  "sw_entity_storage (set_component i k c w) = sw_entity_storage w"
  "sw_next_entity_id (set_component i k c w) = sw_next_entity_id w"
  by (simp_all add: set_component_def)

lemma entity_exists_set [simp]: "entity_exists h (set_component i k c w) = entity_exists h w"
  by (simp add: entity_exists_def)

lemma handle_of_set [simp]: "handle_of (set_component i k c w) j = handle_of w j"
  by (simp add: handle_of_def)

lemma eh_id_handle_of [simp]: "eh_id (handle_of w i) = i"
  by (simp add: handle_of_def)

lemma keys_set_present:
  "comp_at w k i \<noteq> None \<Longrightarrow>
     map fst (sw_component_stores (set_component i k c w) k') = map fst (sw_component_stores w k')"
  by (simp add: set_component_def update_keys comp_at_None_iff)

lemma add_component_defined:
  "entity_exists h w \<Longrightarrow> add_component_erased h k c w = Some (add_component h k c w)"
  by (simp add: add_component_def add_component_erased_def)

lemma add_component_exists:
  "entity_exists h w \<Longrightarrow> add_component h k c w = set_component (eh_id h) k c w"
  by (simp add: add_component_def add_component_erased_def)

lemma create_entity_exists:
  "world_ok type_of w \<Longrightarrow> create_entity w = (h, w') \<Longrightarrow> entity_exists h w'"
  by (auto simp: create_entity_def Let_def entity_exists_def eh_valid_def world_ok_def)

lemma create_entity_comp' [simp]: "create_entity w = (h, w') \<Longrightarrow> comp_at w' k i = comp_at w k i"
  using create_entity_comp[of w k i] by simp

subsection \<open>Iteration\<close>

lemma set_order: "visits_all order \<Longrightarrow> set (order xs) = set xs"
  unfolding visits_all_def by (metis set_mset_mset)

lemma distinct_order: "visits_all order \<Longrightarrow> distinct (order xs) = distinct xs"
  unfolding visits_all_def by (metis mset_eq_imp_distinct_iff)

lemma visits_all_examples: "visits_all id" "visits_all rev" "visits_all (\<lambda>xs. xs)"
  by (simp_all add: visits_all_def)

text \<open>An invariant kept by every call of the function is kept by the whole iteration.\<close>

lemma for_each_invariant:
  assumes "I w"
    and "\<And>i c w. I w \<Longrightarrow> comp_at w k i = Some c \<Longrightarrow> I (fn (handle_of w i) c w)"
  shows "I (for_each order k fn w)"
proof -
  have "I (fold (\<lambda>i w. case comp_at w k i of None \<Rightarrow> w | Some c \<Rightarrow> fn (handle_of w i) c w) is w)"
    if "I w" for "is" w
    using that by (induction "is" arbitrary: w) (auto split: option.splits intro: assms(2))
  with assms(1) show ?thesis by (simp add: for_each_def)
qed

lemma for_each_acc_invariant:
  assumes "I s"
    and "\<And>i c s. I s \<Longrightarrow> comp_at (fst s) k i = Some c \<Longrightarrow> I (fn (handle_of (fst s) i) c s)"
  shows "I (for_each_acc order k fn s)"
proof -
  have "I (fold (\<lambda>i s. case comp_at (fst s) k i of None \<Rightarrow> s | Some c \<Rightarrow> fn (handle_of (fst s) i) c s) is s)"
    if "I s" for "is" s
    using that by (induction "is" arbitrary: s) (simp_all add: assms(2) split: option.split)
  with assms(1) show ?thesis by (simp add: for_each_acc_def)
qed

text \<open>
  When the function only rewrites the component it was given, the iteration is a map over the
  store and its order does not matter.
\<close>

lemma for_each_local:
  assumes order: "visits_all order" and "distinct (map fst (sw_component_stores w k))"
    and fn: "\<And>i c w k' j. comp_at w k i = Some c \<Longrightarrow>
      comp_at (fn (handle_of w i) c w) k' j = (if k' = k \<and> j = i then Some (f i c) else comp_at w k' j)"
  shows "comp_at (for_each order k fn w) k' j =
    (if k' = k then map_option (f j) (comp_at w k j) else comp_at w k' j)"
proof -
  have fold: "comp_at (fold (\<lambda>i w. case comp_at w k i of None \<Rightarrow> w | Some c \<Rightarrow> fn (handle_of w i) c w) is w) k' j =
    (if k' = k \<and> j \<in> set is then map_option (f j) (comp_at w k j) else comp_at w k' j)" if "distinct is" for "is" w
    using that
  proof (induction "is" arbitrary: w)
    case (Cons i "is")
    then show ?case by (cases "comp_at w k i") (auto simp: fn)
  qed simp
  have "distinct (order (map fst (sw_component_stores w k)))"
    by (simp add: distinct_order order assms(2))
  from fold[OF this] have "comp_at (for_each order k fn w) k' j =
    (if k' = k \<and> j \<in> set (order (map fst (sw_component_stores w k)))
     then map_option (f j) (comp_at w k j) else comp_at w k' j)"
    by (simp only: for_each_def)
  moreover have "comp_at w k j = None" if "j \<notin> set (map fst (sw_component_stores w k))"
    using that by (simp add: comp_at_None_iff)
  ultimately show ?thesis by (auto simp: set_order order)
qed

lemma set_visited:
  assumes "visits_all order"
  shows "set (visited order k w) = {(handle_of w i, c) |i c. comp_at w k i = Some c}"
proof -
  have "i \<in> set (map fst (sw_component_stores w k)) \<longleftrightarrow> (\<exists>c. comp_at w k i = Some c)" for i
    using comp_at_None_iff[of w k i] by auto
  then show ?thesis by (force simp: visited_def set_order assms)
qed

end
