(* ===== verification/System_Executor.thy ===== *)
theory System_Executor
  imports Prelude "HOL-Library.Multiset" "HOL-Library.Sublist"
begin

text \<open>
  \<^verbatim>\<open>ParallelSystemExecutor\<close> (\<^verbatim>\<open>src/v2/ecs/parallel_system_executor.cpp\<close>): the systems of a world are
  grouped into stages by Kahn's algorithm and run stage by stage; the systems of one stage run
  concurrently.  A system is an arbitrary function on the state that ends normally or with an
  exception; it takes effect as a whole, and the order in which the concurrent systems of a stage
  do so is an argument.
\<close>

record system_metadata =
  sm_name :: string
  sm_dependencies :: "string list"

text \<open>How a system ends: normally, with a \<^verbatim>\<open>std::exception\<close>, or with something else thrown.\<close>

datatype system_end = Completed | ThrewException | ThrewOther

record 'w system_entry =
  se_metadata :: system_metadata
  se_run :: "'w \<Rightarrow> system_end \<times> 'w"

record 'w parallel_executor =
  pe_entries :: "'w system_entry list"
  pe_dirty :: bool
  pe_stages :: "nat list list"

definition new_parallel_executor :: "'w parallel_executor" where
  "new_parallel_executor = \<lparr>pe_entries = [], pe_dirty = True, pe_stages = []\<rparr>"

definition executor_add_system ::
  "'w system_entry \<Rightarrow> 'w parallel_executor \<Rightarrow> 'w parallel_executor" where
  "executor_add_system e x = x\<lparr>pe_entries := pe_entries x @ [e], pe_dirty := True\<rparr>"

definition executor_clear :: "'w parallel_executor \<Rightarrow> 'w parallel_executor" where
  "executor_clear x = x\<lparr>pe_entries := [], pe_stages := [], pe_dirty := True\<rparr>"

subsection \<open>Building the stages\<close>

definition id_to_idx :: "system_metadata list \<Rightarrow> string \<rightharpoonup> nat" where
  "id_to_idx ms =
     fold (\<lambda>i m. let name = sm_name (ms ! i) in if name = [] then m else m(name \<mapsto> i))
       [0..<length ms] Map.empty"

definition add_dependency ::
  "(string \<rightharpoonup> nat) \<Rightarrow> nat \<Rightarrow> string \<Rightarrow> nat list list \<times> nat list \<Rightarrow> nat list list \<times> nat list" where
  "add_dependency ids i dep =
     (\<lambda>(dependents, in_degree).
        case ids dep of
          None \<Rightarrow> (dependents, in_degree)
        | Some j \<Rightarrow> (dependents[j := dependents ! j @ [i]], in_degree[i := in_degree ! i + 1]))"

definition build_graph :: "system_metadata list \<Rightarrow> nat list list \<times> nat list" where
  "build_graph ms =
     (let n = length ms; ids = id_to_idx ms
      in fold (\<lambda>i. fold (add_dependency ids i) (sm_dependencies (ms ! i))) [0..<n]
           (replicate n [], replicate n 0))"

definition size_dec :: "nat \<Rightarrow> nat" where
  "size_dec x = (if x = 0 then u64_max else x - 1)"

fun release_dependents :: "nat list \<Rightarrow> nat list \<times> nat list \<Rightarrow> nat list \<times> nat list" where
  "release_dependents [] (in_degree, next_ready) = (in_degree, next_ready)"
| "release_dependents (d # ds) (in_degree, next_ready) =
     (let left = size_dec (in_degree ! d)
      in release_dependents ds
           (in_degree[d := left], if left = 0 then next_ready @ [d] else next_ready))"

fun drain_ready ::
  "nat list list \<Rightarrow> nat list \<Rightarrow> nat list \<times> nat list \<Rightarrow> nat list \<times> nat list" where
  "drain_ready dependents [] st = st"
| "drain_ready dependents (idx # ready) st =
     drain_ready dependents ready (release_dependents (dependents ! idx) st)"

partial_function (option) stage_loop ::
  "nat list list \<Rightarrow> nat list \<Rightarrow> nat list \<Rightarrow> nat list list \<Rightarrow> nat \<Rightarrow>
     (nat list list \<times> nat list \<times> nat) option" where
  "stage_loop dependents ready in_degree stages visited =
     (if ready = [] then Some (stages, in_degree, visited)
      else case drain_ready dependents ready (in_degree, []) of
        (in_degree', next_ready) \<Rightarrow>
          stage_loop dependents next_ready in_degree' (stages @ [ready]) (visited + length ready))"

declare stage_loop.simps [code]

definition build_stages :: "system_metadata list \<Rightarrow> nat list list option" where
  "build_stages ms =
     (let n = length ms in
      if n = 0 then Some []
      else case build_graph ms of
        (dependents, in_degree) \<Rightarrow>
          (case stage_loop dependents (filter (\<lambda>i. in_degree ! i = 0) [0..<n]) in_degree [] 0 of
             None \<Rightarrow> None
           | Some (stages, left, visited) \<Rightarrow>
               Some (if visited \<noteq> n
                     then (let fallback_stage = filter (\<lambda>i. left ! i > 0) [0..<n]
                           in if fallback_stage \<noteq> [] then stages @ [fallback_stage] else stages)
                     else stages)))"

definition rebuild_stages :: "'w parallel_executor \<Rightarrow> 'w parallel_executor option" where
  "rebuild_stages x =
     (if \<not> pe_dirty x then Some x
      else case build_stages (map se_metadata (pe_entries x)) of
             None \<Rightarrow> None
           | Some stages \<Rightarrow> Some (x\<lparr>pe_stages := stages, pe_dirty := False\<rparr>))"

text \<open>Systems on one thread: the first exception ends the loop.\<close>

fun run_inline :: "'w system_entry list \<Rightarrow> 'w \<Rightarrow> system_end \<times> 'w" where
  "run_inline [] w = (Completed, w)"
| "run_inline (e # es) w = (case se_run e w of (Completed, w1) \<Rightarrow> run_inline es w1 | (thrown, w1) \<Rightarrow> (thrown, w1))"

text \<open>Systems as asynchronous tasks: all of them run.\<close>

fun run_tasks :: "'w system_entry list \<Rightarrow> 'w \<Rightarrow> system_end list \<times> 'w" where
  "run_tasks [] w = ([], w)"
| "run_tasks (e # es) w = (case se_run e w of (x, w1) \<Rightarrow> (case run_tasks es w1 of (xs, w2) \<Rightarrow> (x # xs, w2)))"

text \<open>
  One stage: a single system runs inline; several systems run as asynchronous tasks, \<open>order\<close> saying
  in which order they take effect.  All of them are awaited; what they throw is logged when it is a
  \<^verbatim>\<open>std::exception\<close> and thrown on otherwise, after the tasks left have ended too.
\<close>

definition run_stage :: "(nat list \<Rightarrow> nat list) \<Rightarrow> 'w system_entry list \<Rightarrow> nat list \<Rightarrow> 'w \<Rightarrow> system_end \<times> 'w" where
  "run_stage order entries stage w =
     (if length stage = 1 then se_run (entries ! hd stage) w
      else case run_tasks (map (\<lambda>idx. entries ! idx) (order stage)) w of
             (ends, w1) \<Rightarrow> (if ThrewOther \<in> set ends then ThrewOther else Completed, w1))"

fun run_stages :: "(nat list \<Rightarrow> nat list) \<Rightarrow> 'w system_entry list \<Rightarrow> nat list list \<Rightarrow> 'w \<Rightarrow> system_end \<times> 'w" where
  "run_stages order entries [] w = (Completed, w)"
| "run_stages order entries (stage # stages) w =
     (case run_stage order entries stage w of (Completed, w1) \<Rightarrow> run_stages order entries stages w1 | (thrown, w1) \<Rightarrow> (thrown, w1))"

definition counted :: "nat \<Rightarrow> system_end \<Rightarrow> system_end + nat" where
  "counted n x = (if x = Completed then Inr n else Inl x)"

text \<open>The result is the number of systems run, or the exception.\<close>

definition execute_all ::
  "(nat list \<Rightarrow> nat list) \<Rightarrow> 'w parallel_executor \<Rightarrow> 'w \<Rightarrow> ((system_end + nat) \<times> 'w parallel_executor \<times> 'w) option" where
  "execute_all order x w =
     (case rebuild_stages x of
        None \<Rightarrow> None
      | Some x1 \<Rightarrow>
         (case run_stages order (pe_entries x1) (pe_stages x1) w of
            (x, w1) \<Rightarrow> Some (counted (length (concat (pe_stages x1))) x, x1, w1)))"

text \<open>\<^verbatim>\<open>SequentialSystemExecutor::execute_all\<close>: registration order on the calling thread.\<close>

definition execute_sequential :: "'w system_entry list \<Rightarrow> 'w \<Rightarrow> (system_end + nat) \<times> 'w" where
  "execute_sequential entries w = (case run_inline entries w of (x, w1) \<Rightarrow> (counted (length entries) x, w1))"

subsection \<open>Systems that do not throw\<close>

definition completing :: "('w \<Rightarrow> 'w) \<Rightarrow> 'w \<Rightarrow> system_end \<times> 'w" where
  "completing f w = (Completed, f w)"

definition never_throws :: "'w system_entry \<Rightarrow> bool" where
  "never_throws e \<longleftrightarrow> (\<forall>w. fst (se_run e w) = Completed)"

definition effect :: "'w system_entry \<Rightarrow> 'w \<Rightarrow> 'w" where
  "effect e w = snd (se_run e w)"

lemma effect_run: "never_throws e \<Longrightarrow> se_run e w = (Completed, effect e w)"
  by (simp add: never_throws_def effect_def prod_eq_iff)

lemma run_inline_effects: "\<forall>e \<in> set es. never_throws e \<Longrightarrow> run_inline es w = (Completed, fold effect es w)"
  by (induction es arbitrary: w) (simp_all add: effect_run)

lemma run_tasks_effects: "\<forall>e \<in> set es. never_throws e \<Longrightarrow> run_tasks es w = (replicate (length es) Completed, fold effect es w)"
  by (induction es arbitrary: w) (simp_all add: effect_run)

subsection \<open>The dependency graph\<close>

text \<open>An edge \<open>(j, i)\<close> says that system \<open>i\<close> names system \<open>j\<close> as a dependency.\<close>

definition dependency_edges :: "system_metadata list \<Rightarrow> (nat \<times> nat) list" where
  "dependency_edges ms =
     concat (map (\<lambda>i. map (\<lambda>j. (j, i)) (List.map_filter (id_to_idx ms) (sm_dependencies (ms ! i))))
       [0..<length ms])"

lemma fold_id_to_idx_range:
  "ran m \<subseteq> {..<n} \<Longrightarrow> set is \<subseteq> {..<n} \<Longrightarrow>
     ran (fold (\<lambda>i m. let name = sm_name (ms ! i) in if name = [] then m else m(name \<mapsto> i)) is m)
       \<subseteq> {..<n}"
proof (induction "is" arbitrary: m)
  case (Cons i "is")
  then have "ran (m(sm_name (ms ! i) \<mapsto> i)) \<subseteq> {..<n}" by (auto simp: ran_def)
  with Cons show ?case by (simp add: Let_def)
qed simp

lemma id_to_idx_range: "id_to_idx ms d = Some j \<Longrightarrow> j < length ms"
  using fold_id_to_idx_range[of Map.empty "length ms" "[0..<length ms]" ms]
  by (force simp: id_to_idx_def ran_def)

lemma dependency_edges_range:
  "(a, b) \<in> set (dependency_edges ms) \<Longrightarrow> a < length ms \<and> b < length ms"
  by (auto simp: dependency_edges_def map_filter_def dest: id_to_idx_range)

lemma dependency_edges_subset:
  "set (dependency_edges ms) \<subseteq> {..<length ms} \<times> {..<length ms}"
  using dependency_edges_range by fast

definition add_edge :: "nat \<times> nat \<Rightarrow> nat list list \<times> nat list \<Rightarrow> nat list list \<times> nat list" where
  "add_edge = (\<lambda>(j, i) (dp, dg). (dp[j := dp ! j @ [i]], dg[i := dg ! i + 1]))"

lemma fold_add_dependency:
  "fold (add_dependency ids i) ds st = fold add_edge (map (\<lambda>j. (j, i)) (List.map_filter ids ds)) st"
  by (induction ds arbitrary: st)
    (auto simp: add_dependency_def add_edge_def map_filter_simps split: option.splits)

lemma build_graph_edges:
  "build_graph ms = fold add_edge (dependency_edges ms) (replicate (length ms) [], replicate (length ms) 0)"
proof -
  have "fold (\<lambda>i. fold (add_dependency ids i) (f i)) is st =
    fold add_edge (concat (map (\<lambda>i. map (\<lambda>j. (j, i)) (List.map_filter ids (f i))) is)) st" for ids f "is" st
    by (induction "is" arbitrary: st) (simp_all add: fold_add_dependency)
  then show ?thesis by (simp add: build_graph_def dependency_edges_def Let_def)
qed

lemma fold_add_edge:
  assumes "fold add_edge es (dp, dg) = (dp', dg')" and "length dp = n" and "length dg = n"
    and "set es \<subseteq> {..<n} \<times> {..<n}"
  shows "length dp' = n \<and> length dg' = n \<and>
    (\<forall>j<n. dp' ! j = dp ! j @ map snd (filter (\<lambda>e. fst e = j) es)) \<and>
    (\<forall>i<n. dg' ! i = dg ! i + length (filter (\<lambda>e. snd e = i) es))"
  using assms
proof (induction es arbitrary: dp dg)
  case (Cons e es)
  obtain j i where e: "e = (j, i)" by (cases e)
  from Cons.prems(4) e have ji: "j < n" "i < n" by auto
  have "fold add_edge es (dp[j := dp ! j @ [i]], dg[i := dg ! i + 1]) = (dp', dg')"
    using Cons.prems(1) e by (simp add: add_edge_def)
  from Cons.IH[OF this] Cons.prems(2-4) ji e show ?case
    by (auto simp: nth_list_update)
qed simp

lemma build_graph_spec:
  assumes "build_graph ms = (dp, dg)"
  shows "length dg = length ms"
    and "j < length ms \<Longrightarrow> dp ! j = map snd (filter (\<lambda>e. fst e = j) (dependency_edges ms))"
    and "i < length ms \<Longrightarrow> dg ! i = length (filter (\<lambda>e. snd e = i) (dependency_edges ms))"
  using fold_add_edge[OF assms[unfolded build_graph_edges] length_replicate length_replicate
      dependency_edges_subset] by auto

subsection \<open>Kahn's algorithm\<close>

text \<open>
  The state of the algorithm: \<open>done\<close> are the systems already placed, \<open>pending\<close> those of the
  current stage, \<open>nxt\<close> those found ready for the next stage.
\<close>

definition open_edges :: "(nat \<times> nat) list \<Rightarrow> nat list \<Rightarrow> nat \<Rightarrow> nat" where
  "open_edges es placed i = length (filter (\<lambda>e. snd e = i \<and> fst e \<notin> set placed) es)"

definition kahn :: "nat \<Rightarrow> (nat \<times> nat) list \<Rightarrow> nat list \<Rightarrow> nat list \<Rightarrow> nat list \<Rightarrow> nat list \<Rightarrow> bool" where
  "kahn n es placed pending nxt deg \<longleftrightarrow>
     length deg = n \<and> distinct (placed @ pending @ nxt) \<and> set (placed @ pending @ nxt) \<subseteq> {..<n} \<and>
     (\<forall>i<n. deg ! i = open_edges es placed i) \<and>
     (\<forall>i<n. deg ! i = 0 \<longleftrightarrow> i \<in> set (placed @ pending @ nxt))"

lemma release_dependents_spec:
  assumes "release_dependents ds (deg, nxt) = (deg', nxt')"
    and "\<forall>i. count_list ds i \<le> deg ! i" and "set ds \<subseteq> {..<length deg}"
  shows "length deg' = length deg \<and> (\<forall>i<length deg. deg' ! i = deg ! i - count_list ds i) \<and>
    (\<exists>zs. nxt' = nxt @ zs \<and> distinct zs \<and> set zs = {i \<in> set ds. count_list ds i = deg ! i})"
  using assms
proof (induction ds arbitrary: deg nxt)
  case (Cons d ds)
  let ?deg = "deg[d := deg ! d - 1]"
  have pos: "0 < deg ! d" and dl: "d < length deg"
    using Cons.prems(2,3) by (auto dest: spec[of _ d])
  let ?nxt = "if deg ! d = 1 then nxt @ [d] else nxt"
  have call: "release_dependents ds (?deg, ?nxt) = (deg', nxt')"
    using Cons.prems(1) pos by (simp add: Let_def size_dec_def le_Suc_eq split: if_splits)
  have le: "\<forall>i. count_list ds i \<le> ?deg ! i"
    using Cons.prems(2) dl by (auto simp: nth_list_update split: if_splits)
  from Cons.IH[OF call le] Cons.prems(3)
  obtain zs where zs: "length deg' = length deg" "\<forall>i<length deg. deg' ! i = ?deg ! i - count_list ds i"
    "nxt' = ?nxt @ zs" "distinct zs" "set zs = {i \<in> set ds. count_list ds i = ?deg ! i}" by auto
  have one: "d \<notin> set ds" if "deg ! d = 1"
    using Cons.prems(2) that by (metis Suc_eq_plus1 count_list.simps(2) count_list_0_iff
        le_SucE le_zero_eq not_less_eq_eq one_le_numeral add_le_same_cancel2)
  show ?case
  proof (cases "deg ! d = 1")
    case True
    with one zs dl show ?thesis
      by (intro conjI exI[of _ "d # zs"]) (auto simp: nth_list_update count_list_0_iff split: if_splits)
  next
    case False
    with zs dl pos show ?thesis
      by (intro conjI exI[of _ zs]) (auto simp: nth_list_update count_list_0_iff split: if_splits)
  qed
qed simp

lemma open_edges_snoc:
  "x \<notin> set placed \<Longrightarrow>
     open_edges es placed i =
     open_edges es (placed @ [x]) i + count_list (map snd (filter (\<lambda>e. fst e = x) es)) i"
  by (induction es) (auto simp: open_edges_def)

lemma kahn_place:
  assumes k: "kahn n es placed (x # pending) nxt deg"
    and r: "release_dependents (map snd (filter (\<lambda>e. fst e = x) es)) (deg, nxt) = (deg', nxt')"
    and es: "set es \<subseteq> {..<n} \<times> {..<n}"
  shows "kahn n es (placed @ [x]) pending nxt' deg'"
proof -
  let ?ds = "map snd (filter (\<lambda>e. fst e = x) es)"
  have x: "x \<notin> set placed" and len: "length deg = n"
    and deg: "\<And>i. i < n \<Longrightarrow> deg ! i = open_edges es placed i"
    and zero: "\<And>i. i < n \<Longrightarrow> deg ! i = 0 \<longleftrightarrow> i \<in> set (placed @ (x # pending) @ nxt)"
    and rest: "distinct (placed @ (x # pending) @ nxt)" "set (placed @ (x # pending) @ nxt) \<subseteq> {..<n}"
    using k by (auto simp: kahn_def)
  have ds: "set ?ds \<subseteq> {..<n}" using es by auto
  have le: "\<forall>i. count_list ?ds i \<le> deg ! i"
  proof
    fix i show "count_list ?ds i \<le> deg ! i"
    proof (cases "i < n")
      case True
      with deg[OF True] open_edges_snoc[OF x, of es i] show ?thesis by simp
    next
      case False
      with ds have "i \<notin> set ?ds" by auto
      then show ?thesis by (metis count_list_0_iff le0)
    qed
  qed
  from release_dependents_spec[OF r le] ds len obtain zs where
    l: "length deg' = n" and deg': "\<And>i. i < n \<Longrightarrow> deg' ! i = deg ! i - count_list ?ds i"
    and zs: "nxt' = nxt @ zs" "distinct zs" "set zs = {i \<in> set ?ds. count_list ?ds i = deg ! i}"
    by auto
  have op: "deg' ! i = open_edges es (placed @ [x]) i" if "i < n" for i
    using deg'[OF that] deg[OF that] open_edges_snoc[OF x, of es i] by simp
  have inz: "i \<in> set zs \<longleftrightarrow> i \<in> set ?ds \<and> count_list ?ds i = deg ! i" for i
    unfolding zs(3) by simp
  have pos: "0 < deg ! i" if "i \<in> set zs" for i
    using that inz[of i] count_list_0_iff[of ?ds i] by (metis gr0I)
  have zn: "i < n" if "i \<in> set zs" for i using that inz ds by blast
  have "distinct (placed @ [x] @ pending @ nxt @ zs)"
    using rest zs(2) pos zero zn by (auto simp: disjoint_iff) (metis Un_iff less_nat_zero_code list.set_intros set_append)+
  moreover have "(deg' ! i = 0) = (i \<in> set (placed @ [x] @ pending @ nxt @ zs))" if i: "i < n" for i
  proof (cases "deg ! i = 0")
    case True
    then show ?thesis using zero[OF i] deg'[OF i] by auto
  next
    case False
    have "(deg' ! i = 0) = (i \<in> set zs)"
      using False deg'[OF i] spec[OF le, of i] inz[of i] count_list_0_iff[of ?ds i] by (metis diff_is_0_eq le_antisym order_refl)
    then show ?thesis using False zero[OF i] by auto
  qed
  moreover have "set (placed @ [x] @ pending @ nxt @ zs) \<subseteq> {..<n}"
    using rest(2) zn by auto
  ultimately show ?thesis
    using l op zs(1) by (simp add: kahn_def)
qed

lemma kahn_drain:
  assumes "kahn n es placed pending nxt deg" and "drain_ready dp pending (deg, nxt) = (deg', nxt')"
    and "set es \<subseteq> {..<n} \<times> {..<n}"
    and "\<And>j. j < n \<Longrightarrow> dp ! j = map snd (filter (\<lambda>e. fst e = j) es)"
  shows "kahn n es (placed @ pending) [] nxt' deg'"
  using assms
proof (induction pending arbitrary: placed deg nxt)
  case (Cons x pending)
  obtain deg1 nxt1 where r: "release_dependents (dp ! x) (deg, nxt) = (deg1, nxt1)"
    by (cases "release_dependents (dp ! x) (deg, nxt)")
  have "x < n" using Cons.prems(1) by (simp add: kahn_def)
  with r Cons.prems(1,3,4) have "kahn n es (placed @ [x]) pending nxt1 deg1"
    by (intro kahn_place) simp_all
  from Cons.IH[OF this _ Cons.prems(3,4)] Cons.prems(2) r show ?case by simp
qed simp

lemma kahn_shift: "kahn n es placed [] nxt deg = kahn n es placed nxt [] deg"
  by (simp only: kahn_def append_Nil append_Nil2)

text \<open>
  The loop ends: every round places at least one system.  Every system of a stage has all its
  dependencies in earlier stages.
\<close>

lemma stage_loop_spec:
  assumes "kahn n es placed ready [] deg" and "set es \<subseteq> {..<n} \<times> {..<n}"
    and "\<And>j. j < n \<Longrightarrow> dp ! j = map snd (filter (\<lambda>e. fst e = j) es)"
  shows "\<exists>stages' deg'. stage_loop dp ready deg stages (length placed) =
      Some (stages @ stages', deg', length (placed @ concat stages')) \<and>
    kahn n es (placed @ concat stages') [] [] deg' \<and>
    (\<forall>k<length stages'. \<forall>b\<in>set (stages' ! k). \<forall>a. (a, b) \<in> set es \<longrightarrow>
       a \<in> set (placed @ concat (take k stages')))"
  using assms
proof (induction "n - length placed" arbitrary: placed ready deg stages rule: less_induct)
  case less
  show ?case
  proof (cases "ready = []")
    case True
    then show ?thesis
      using less.prems(1) by (intro exI[of _ "[]"] exI[of _ deg]) (simp add: stage_loop.simps)
  next
    case False
    obtain deg1 nxt where d: "drain_ready dp ready (deg, []) = (deg1, nxt)"
      by (cases "drain_ready dp ready (deg, [])")
    have k1: "kahn n es (placed @ ready) nxt [] deg1"
      using kahn_drain[OF less.prems(1) d less.prems(2)] less.prems(3) by (metis kahn_shift)
    have dist: "distinct (placed @ ready)" "set (placed @ ready) \<subseteq> {..<n}"
      using less.prems(1) by (auto simp: kahn_def)
    have "card (set (placed @ ready)) \<le> card {..<n}"
      by (rule card_mono) (use dist in auto)
    then have "length (placed @ ready) \<le> n"
      using distinct_card[OF dist(1)] by simp
    with False have smaller: "n - length (placed @ ready) < n - length placed"
      by (cases ready) simp_all
    obtain st deg2 where st: "stage_loop dp nxt deg1 (stages @ [ready]) (length (placed @ ready)) =
        Some ((stages @ [ready]) @ st, deg2, length ((placed @ ready) @ concat st))"
      "kahn n es ((placed @ ready) @ concat st) [] [] deg2"
      "\<And>k b a. k < length st \<Longrightarrow> b \<in> set (st ! k) \<Longrightarrow> (a, b) \<in> set es \<Longrightarrow>
         a \<in> set ((placed @ ready) @ concat (take k st))"
      using less.hyps[OF smaller k1 less.prems(2,3), of "stages @ [ready]"] by blast
    have first: "a \<in> set placed" if "b \<in> set ready" "(a, b) \<in> set es" for a b
    proof -
      have "b < n" "deg ! b = 0" "deg ! b = open_edges es placed b"
        using less.prems(1) that(1) by (auto simp: kahn_def)
      then have "filter (\<lambda>e. snd e = b \<and> fst e \<notin> set placed) es = []"
        by (simp add: open_edges_def)
      with that(2) show ?thesis by (auto simp: filter_empty_conv)
    qed
    show ?thesis
    proof (intro exI[of _ "ready # st"] exI[of _ deg2] conjI allI impI ballI)
      show "stage_loop dp ready deg stages (length placed) =
        Some (stages @ ready # st, deg2, length (placed @ concat (ready # st)))"
        using st(1) d False by (simp add: stage_loop.simps[of dp ready])
      show "kahn n es (placed @ concat (ready # st)) [] [] deg2" using st(2) by simp
      show "a \<in> set (placed @ concat (take k (ready # st)))"
        if "k < length (ready # st)" "b \<in> set ((ready # st) ! k)" "(a, b) \<in> set es" for k a b
        using that first[of b a] st(3)[of "k - 1" b a] by (cases k) auto
    qed
  qed
qed

lemma build_graph_kahn:
  assumes g: "build_graph ms = (dp, dg)"
  shows "kahn (length ms) (dependency_edges ms) [] (filter (\<lambda>i. dg ! i = 0) [0..<length ms]) [] dg"
  using build_graph_spec[OF g] by (auto simp: kahn_def open_edges_def)

lemma kahn_open:
  assumes "kahn n es placed [] [] deg" and "i < n" and "i \<notin> set placed"
    and "set es \<subseteq> {..<n} \<times> {..<n}"
  shows "\<exists>j<n. j \<notin> set placed \<and> (j, i) \<in> set es"
proof -
  have "open_edges es placed i \<noteq> 0"
    using assms(1-3) by (auto simp: kahn_def)
  then have "filter (\<lambda>e. snd e = i \<and> fst e \<notin> set placed) es \<noteq> []"
    by (simp add: open_edges_def)
  then obtain e where "e \<in> set es" "snd e = i" "fst e \<notin> set placed"
    by (auto simp: filter_empty_conv)
  with assms(4) show ?thesis by (cases e) auto
qed

lemma acyclic_all_placed:
  assumes k: "kahn n es placed [] [] deg" and es: "set es \<subseteq> {..<n} \<times> {..<n}"
    and "acyclic (set es)"
  shows "set placed = {..<n}"
proof (rule ccontr)
  assume "set placed \<noteq> {..<n}"
  moreover have "set placed \<subseteq> {..<n}" using k by (simp add: kahn_def)
  ultimately obtain i where i: "i \<in> {..<n} - set placed" by auto
  have "wf (set es)" by (rule finite_acyclic_wf) (use assms(3) in simp_all)
  then obtain m where m: "m \<in> {..<n} - set placed" "\<And>y. (y, m) \<in> set es \<Longrightarrow> y \<notin> {..<n} - set placed"
    using wfE_min[OF _ i] by metis
  from kahn_open[OF k _ _ es, of m] m show False by auto
qed

text \<open>What the stages are, when the loop has ended.\<close>

lemma build_stages_spec:
  obtains st rest where "build_stages ms = Some (st @ rest)"
    and "mset (concat (st @ rest)) = mset [0..<length ms]"
    and "\<And>k b a. k < length st \<Longrightarrow> b \<in> set (st ! k) \<Longrightarrow> (a, b) \<in> set (dependency_edges ms) \<Longrightarrow>
           a \<in> set (concat (take k st))"
    and "acyclic (set (dependency_edges ms)) \<Longrightarrow> rest = []"
proof (cases "ms = []")
  case True
  then show ?thesis by (intro that[of "[]" "[]"]) (simp_all add: build_stages_def)
next
  case False
  let ?n = "length ms" and ?es = "dependency_edges ms"
  obtain dp dg where g: "build_graph ms = (dp, dg)" by (cases "build_graph ms")
  from stage_loop_spec[OF build_graph_kahn[OF g] dependency_edges_subset build_graph_spec(2)[OF g], of "[]"]
  obtain st deg where st: "stage_loop dp (filter (\<lambda>i. dg ! i = 0) [0..<?n]) dg [] 0 =
      Some (st, deg, length (concat st))" "kahn ?n ?es (concat st) [] [] deg"
    "\<And>k b a. k < length st \<Longrightarrow> b \<in> set (st ! k) \<Longrightarrow> (a, b) \<in> set ?es \<Longrightarrow> a \<in> set (concat (take k st))"
    by auto
  define fb where "fb = filter (\<lambda>i. deg ! i > 0) [0..<?n]"
  define rest where "rest = (if fb = [] then [] else [fb])"
  have dist: "distinct (concat st)" "set (concat st) \<subseteq> {..<?n}"
    and left: "set fb = {..<?n} - set (concat st)"
    using st(2) by (auto simp: kahn_def fb_def)
  have "fb = []" if "length (concat st) = ?n"
  proof -
    have "set (concat st) = {..<?n}"
      using dist that distinct_card[OF dist(1)] by (intro card_subset_eq) auto
    with left show ?thesis by simp
  qed
  then have res: "build_stages ms = Some (st @ rest)"
    using False g st(1) by (simp add: build_stages_def Let_def fb_def[symmetric] rest_def)
  have "distinct fb" by (simp add: fb_def)
  with dist left have "distinct (concat st @ fb)" "set (concat st @ fb) = {..<?n}" by auto
  then have "mset (concat st @ fb) = mset [0..<?n]"
    by (metis atLeast_upt distinct_upt set_eq_iff_mset_eq_distinct)
  then have all: "mset (concat (st @ rest)) = mset [0..<?n]" by (auto simp: rest_def)
  have "rest = []" if "acyclic (set ?es)"
    using acyclic_all_placed[OF st(2) dependency_edges_subset that] left by (simp add: rest_def)
  with res all st(3) show ?thesis by (intro that[of st rest]) simp_all
qed

subsection \<open>Correctness of the stages\<close>

text \<open>C15: Whatever dependencies the systems declare, cyclic ones included, the construction of the
  stages ends and every registered system is in exactly one stage, so each system runs exactly
  once per tick.\<close>

theorem build_stages_total:
  "\<exists>stages. build_stages ms = Some stages \<and> mset (concat stages) = mset [0..<length ms]"
  by (rule build_stages_spec[of ms]) blast

lemma stages_respect_dependencies:
  assumes "build_stages ms = Some stages" and "acyclic (set (dependency_edges ms))"
    and "(a, b) \<in> set (dependency_edges ms)" and "k < length stages" and "b \<in> set (stages ! k)"
  shows "a \<in> set (concat (take k stages))"
proof (rule build_stages_spec[of ms])
  fix st rest
  assume "build_stages ms = Some (st @ rest)" and "acyclic (set (dependency_edges ms)) \<Longrightarrow> rest = []"
  then have "stages = st" using assms(1,2) by simp
  moreover assume "\<And>k b a. k < length st \<Longrightarrow> b \<in> set (st ! k) \<Longrightarrow> (a, b) \<in> set (dependency_edges ms) \<Longrightarrow>
       a \<in> set (concat (take k st))"
  ultimately show ?thesis using assms(3-5) by metis
qed

lemma stages_respect_paths:
  assumes "(a, b) \<in> (set (dependency_edges ms))\<^sup>+"
    and "build_stages ms = Some stages" and "acyclic (set (dependency_edges ms))"
    and "k < length stages" and "b \<in> set (stages ! k)"
  shows "a \<in> set (concat (take k stages))"
  using assms
proof (induction arbitrary: k rule: trancl_induct)
  case (base b)
  then show ?case by (intro stages_respect_dependencies)
next
  case (step y b)
  have "y \<in> set (concat (take k stages))"
    using stages_respect_dependencies[OF step.prems(1,2) step.hyps(2) step.prems(3,4)] .
  then obtain j where j: "j < k" "y \<in> set (stages ! j)"
    using step.prems(3) by (fastforce simp: set_conv_nth[of "take k stages"])
  have "a \<in> set (concat (take j stages))"
    using step.IH[OF step.prems(1,2) _ j(2)] j(1) step.prems(3) by simp
  moreover have "set (take j stages) \<subseteq> set (take k stages)"
    using j(1) by (intro set_take_subset_set_take) simp
  ultimately show ?case by auto
qed

subsection \<open>Parallel and sequential execution agree\<close>

definition precedes :: "'a list \<Rightarrow> 'a \<Rightarrow> 'a \<Rightarrow> bool" where
  "precedes xs a b = subseq [a, b] xs"

lemma precedes_remove: "precedes (us @ vs) a b \<Longrightarrow> precedes (us @ x # vs) a b"
  unfolding precedes_def by (rule subseq_order.trans) (auto intro: list_emb_append_mono)

lemma precedes_Cons: "b \<in> set xs \<Longrightarrow> precedes (x # xs) x b"
  by (simp add: precedes_def subseq_singleton_left)

lemma precedes_append: "a \<in> set us \<Longrightarrow> b \<in> set vs \<Longrightarrow> precedes (us @ vs) a b"
  unfolding precedes_def using list_emb_append_mono[of "(=)" "[a]" us "[b]" vs]
  by (simp add: subseq_singleton_left)

lemma precedes_split:
  assumes "distinct (ps @ qs)" and "a \<in> set ps" and "b \<in> set qs"
  shows "\<not> precedes (ps @ qs) b a"
proof
  assume "precedes (ps @ qs) b a"
  then obtain as bs where "[b, a] = as @ bs" "subseq as ps" "subseq bs qs"
    by (auto simp: precedes_def subseq_append_iff)
  moreover have "set as \<subseteq> set ps" "set bs \<subseteq> set qs"
    using calculation(2,3) by (auto dest: list_emb_set)
  ultimately have "a \<in> set qs \<or> b \<in> set ps"
    by (cases as) auto
  with assms show False by auto
qed

lemma fold_commute_front:
  assumes "\<And>u. u \<in> set us \<Longrightarrow> f x \<circ> f u = f u \<circ> f x"
  shows "fold f (us @ x # vs) w = fold f (x # us @ vs) w"
  using assms
proof (induction us arbitrary: w)
  case (Cons u us)
  have "f x (f u w) = f u (f x w)"
    using Cons.prems[of u] by (metis comp_apply list.set_intros(1))
  with Cons show ?case by simp
qed simp

text \<open>Two schedules that differ only in the order of commuting steps have the same effect.\<close>

lemma fold_reorder:
  assumes "distinct xs" and "mset xs = mset ys"
    and "\<And>a b. precedes xs a b \<Longrightarrow> precedes ys b a \<Longrightarrow> f a \<circ> f b = f b \<circ> f a"
  shows "fold f xs w = fold f ys w"
  using assms
proof (induction xs arbitrary: ys w)
  case (Cons x xs)
  have "x \<in> set ys" using Cons.prems(2) by (metis list.set_intros(1) set_mset_mset)
  then obtain us vs where ys: "ys = us @ x # vs" by (meson split_list)
  have perm: "mset xs = mset (us @ vs)" using Cons.prems(2) ys by simp
  have "f x \<circ> f u = f u \<circ> f x" if "u \<in> set us" for u
  proof (rule Cons.prems(3))
    have "u \<in> set xs" using that perm by (metis Un_iff set_append set_mset_mset)
    then show "precedes (x # xs) x u" by (rule precedes_Cons)
    show "precedes ys u x" using that unfolding ys by (simp add: precedes_append)
  qed
  then have "fold f ys w = fold f (us @ vs) (f x w)"
    unfolding ys by (subst fold_commute_front) simp_all
  moreover have "fold f xs (f x w) = fold f (us @ vs) (f x w)"
  proof (rule Cons.IH[OF _ perm])
    show "distinct xs" using Cons.prems(1) by simp
    fix a b assume "precedes xs a b" "precedes (us @ vs) b a"
    then have "precedes (x # xs) a b" "precedes ys b a"
      using precedes_remove[of us vs b a x] precedes_remove[of "[]" xs a b x] ys by simp_all
    then show "f a \<circ> f b = f b \<circ> f a" by (rule Cons.prems(3))
  qed
  ultimately show ?case by simp
qed simp

lemma precedes_upt: "precedes [0..<n] a b \<Longrightarrow> a < b \<and> b < n"
proof -
  assume p: "precedes [0..<n] a b"
  then obtain N where N: "[a, b] = nths [0..<n] N" unfolding precedes_def by (metis subseq_conv_nths)
  then have "set [a, b] \<subseteq> {..<n}" by (metis atLeast_upt set_nths_subset)
  moreover have "sorted [a, b]" "distinct [a, b]"
    unfolding N by (rule sorted_nths distinct_nthsI; simp)+
  ultimately show ?thesis by simp
qed

definition staged :: "(nat list \<Rightarrow> nat list) \<Rightarrow> nat list list \<Rightarrow> nat list" where
  "staged order stages = concat (map (\<lambda>s. if length s = 1 then s else order s) stages)"

lemma run_stages_effects:
  assumes "\<forall>e \<in> set entries. never_throws e" "\<forall>xs. mset (order xs) = mset xs" "set (concat stages) \<subseteq> {..<length entries}"
  shows "run_stages order entries stages w = (Completed, fold (\<lambda>i. effect (entries ! i)) (staged order stages) w)"
  using assms(3)
proof (induction stages arbitrary: w)
  case (Cons stage stages)
  have "set (order stage) = set stage" using assms(2) by (metis set_mset_mset)
  then have none: "\<forall>e \<in> set (map (\<lambda>idx. entries ! idx) (order stage)). never_throws e"
    using assms(1) Cons.prems by auto
  have "run_stage order entries stage w = (Completed, fold (\<lambda>i. effect (entries ! i)) (if length stage = 1 then stage else order stage) w)"
  proof (cases "length stage = 1")
    case True
    then obtain i where "stage = [i]" by (cases stage) auto
    moreover from this have "never_throws (entries ! i)" using assms(1) Cons.prems by simp
    ultimately show ?thesis by (simp add: run_stage_def effect_run)
  qed (use run_tasks_effects [OF none, of w] in \<open>simp add: run_stage_def fold_map comp_def\<close>)
  with Cons show ?case by (simp add: staged_def)
qed (simp add: staged_def)

lemma mset_staged: "\<forall>xs. mset (order xs) = mset xs \<Longrightarrow> mset (staged order stages) = mset (concat stages)"
  by (induction stages) (simp_all add: staged_def)

lemma set_staged: "\<forall>xs. mset (order xs) = mset xs \<Longrightarrow> set (staged order stages) = set (concat stages)"
  using mset_staged by (metis set_mset_mset)

text \<open>A system never takes effect before one it depends on.\<close>

lemma staged_respects:
  assumes order: "\<forall>xs. mset (order xs) = mset xs" and st: "build_stages ms = Some stages"
    and ac: "acyclic (set (dependency_edges ms))" and dep: "(a, b) \<in> (set (dependency_edges ms))\<^sup>+"
    and dist: "distinct (concat stages)" and b: "b \<in> set (concat stages)"
  shows "\<not> precedes (staged order stages) b a"
proof -
  obtain k where k: "k < length stages" "b \<in> set (stages ! k)"
    using b by (metis UN_iff in_set_conv_nth set_concat)
  have a: "a \<in> set (concat (take k stages))" by (rule stages_respect_paths[OF dep st ac k])
  have split: "staged order stages = staged order (take k stages) @ staged order (drop k stages)"
    unfolding staged_def concat_append[symmetric] map_append[symmetric] append_take_drop_id ..
  have bk: "b \<in> set (concat (drop k stages))"
    using k by (metis Cons_nth_drop_Suc UN_iff list.set_intros(1) set_concat)
  have "distinct (staged order stages)" using dist mset_staged[OF order] by (metis mset_eq_imp_distinct_iff)
  then show ?thesis
    unfolding split using a bk set_staged[OF order] by (intro precedes_split) simp_all
qed

lemma fold_entries: "fold (\<lambda>i. effect (es ! i)) [0..<length es] w = fold effect es w"
proof -
  have "fold effect (map (\<lambda>i. es ! i) [0..<length es]) w = fold (\<lambda>i. effect (es ! i)) [0..<length es] w"
    by (simp add: fold_map comp_def)
  then show ?thesis by (simp add: map_nth)
qed

text \<open>C16: The parallel executor computes what the sequential one computes, for systems that do not
  throw.  When every system is registered after the systems it depends on and systems without a
  dependency between them commute, a run of the stages, with the concurrent systems of a stage
  taking effect in any order, ends with the same state and count as running all systems in
  registration order.\<close>

theorem parallel_equals_sequential:
  assumes "\<forall>xs. mset (order xs) = mset xs" and "pe_dirty x" and "\<forall>e \<in> set (pe_entries x). never_throws e"
    and "\<forall>(a, b) \<in> set (dependency_edges (map se_metadata (pe_entries x))). a < b"
    and "\<forall>a < length (pe_entries x). \<forall>b < length (pe_entries x).
      (a, b) \<notin> (set (dependency_edges (map se_metadata (pe_entries x))))\<^sup>+ \<longrightarrow>
      (b, a) \<notin> (set (dependency_edges (map se_metadata (pe_entries x))))\<^sup>+ \<longrightarrow>
      effect (pe_entries x ! a) \<circ> effect (pe_entries x ! b) = effect (pe_entries x ! b) \<circ> effect (pe_entries x ! a)"
  shows "\<exists>x'. execute_all order x w =
    Some (fst (execute_sequential (pe_entries x) w), x', snd (execute_sequential (pe_entries x) w))"
proof -
  let ?es = "pe_entries x" and ?E = "set (dependency_edges (map se_metadata (pe_entries x)))"
  obtain stages where st: "build_stages (map se_metadata ?es) = Some stages" "mset (concat stages) = mset [0..<length ?es]"
    by (rule build_stages_spec[of "map se_metadata ?es"]) auto
  have less: "a < b" if "(a, b) \<in> ?E\<^sup>+" for a b
    using that by (induction rule: trancl_induct) (use assms(4) in fastforce)+
  then have ac: "acyclic ?E" by (auto simp: acyclic_def)
  have dist: "distinct (concat stages)" using st(2) by (metis distinct_upt mset_eq_imp_distinct_iff)
  have mem: "i \<in> set (concat stages) \<longleftrightarrow> i < length ?es" for i
    using st(2) by (metis atLeast_upt lessThan_iff set_mset_mset)
  have "fold (\<lambda>i. effect (?es ! i)) [0..<length ?es] w = fold (\<lambda>i. effect (?es ! i)) (staged order stages) w"
  proof (rule fold_reorder)
    show "mset [0..<length ?es] = mset (staged order stages)" using st(2) mset_staged[OF assms(1)] by simp
    fix a b assume "precedes [0..<length ?es] a b" and ba: "precedes (staged order stages) b a"
    then have ab: "a < b" "b < length ?es" by (auto dest: precedes_upt)
    have "(a, b) \<notin> ?E\<^sup>+" using staged_respects[OF assms(1) st(1) ac _ dist] ba ab mem by blast
    moreover have "(b, a) \<notin> ?E\<^sup>+" using less[of b a] ab(1) by auto
    ultimately show "effect (?es ! a) \<circ> effect (?es ! b) = effect (?es ! b) \<circ> effect (?es ! a)"
      using assms(5) ab by simp
  qed simp
  moreover have "set (concat stages) \<subseteq> {..<length ?es}" using mem by blast
  ultimately have "run_stages order ?es stages w = run_inline ?es w"
    using run_stages_effects[OF assms(3,1)] run_inline_effects[OF assms(3)] by (simp add: fold_entries)
  moreover have "length (concat stages) = length ?es" using st(2) by (metis length_upt minus_nat.diff_0 size_mset)
  ultimately show ?thesis
    using st(1) assms(2) by (simp add: execute_all_def rebuild_stages_def execute_sequential_def split: prod.split)
qed

text \<open>Two counters that do not interfere and a third system that needs both.\<close>

definition sample_executor :: "(nat \<times> nat) parallel_executor" where
  "sample_executor = fold executor_add_system
     [\<lparr>se_metadata = \<lparr>sm_name = ''a'', sm_dependencies = []\<rparr>, se_run = completing (\<lambda>(u, v). (u + 1, v))\<rparr>,
      \<lparr>se_metadata = \<lparr>sm_name = ''b'', sm_dependencies = []\<rparr>, se_run = completing (\<lambda>(u, v). (u, v * 2))\<rparr>,
      \<lparr>se_metadata = \<lparr>sm_name = ''c'', sm_dependencies = [''a'', ''b'']\<rparr>, se_run = completing (\<lambda>(u, v). (u + v, v))\<rparr>]
     new_parallel_executor"

lemma sample_edges: "dependency_edges (map se_metadata (pe_entries sample_executor)) = [(0, 2), (1, 2)]"
  unfolding sample_executor_def by code_simp

lemma sample_entries:
  "pe_dirty sample_executor" "length (pe_entries sample_executor) = 3"
  "effect (pe_entries sample_executor ! 0) = (\<lambda>(u, v). (u + 1, v))"
  "effect (pe_entries sample_executor ! 1) = (\<lambda>(u, v). (u, v * 2))"
  "\<forall>e \<in> set (pe_entries sample_executor). never_throws e"
  by (simp_all add: sample_executor_def executor_add_system_def new_parallel_executor_def effect_def never_throws_def completing_def fun_eq_iff)

theorem parallel_equals_sequential_witness:
  "\<exists>x'. execute_all rev sample_executor (1, 5) =
     Some (fst (execute_sequential (pe_entries sample_executor) (1, 5)), x', snd (execute_sequential (pe_entries sample_executor) (1, 5)))"
proof (rule parallel_equals_sequential)
  let ?E = "set (dependency_edges (map se_metadata (pe_entries sample_executor)))"
  show "\<forall>a < length (pe_entries sample_executor). \<forall>b < length (pe_entries sample_executor).
      (a, b) \<notin> ?E\<^sup>+ \<longrightarrow> (b, a) \<notin> ?E\<^sup>+ \<longrightarrow>
      effect (pe_entries sample_executor ! a) \<circ> effect (pe_entries sample_executor ! b) =
      effect (pe_entries sample_executor ! b) \<circ> effect (pe_entries sample_executor ! a)"
  proof (intro allI impI)
    fix a b assume ab: "a < length (pe_entries sample_executor)" "b < length (pe_entries sample_executor)"
      "(a, b) \<notin> ?E\<^sup>+" "(b, a) \<notin> ?E\<^sup>+"
    have "(0, 2) \<in> ?E\<^sup>+" "(1, 2) \<in> ?E\<^sup>+" by (auto simp: sample_edges)
    then have "(a, b) \<notin> {(0, 2), (1, 2), (2, 0), (2, 1)}" using ab(3,4) by auto
    moreover have "a = 0 \<or> a = 1 \<or> a = 2" "b = 0 \<or> b = 1 \<or> b = 2" using ab(1,2) sample_entries(2) by linarith+
    ultimately have "a = b \<or> a = 0 \<and> b = 1 \<or> a = 1 \<and> b = 0" by auto
    then show "effect (pe_entries sample_executor ! a) \<circ> effect (pe_entries sample_executor ! b) =
      effect (pe_entries sample_executor ! b) \<circ> effect (pe_entries sample_executor ! a)"
      by (elim disjE conjE) (simp_all add: sample_entries sample_entries(4)[unfolded One_nat_def] fun_eq_iff split: prod.split)
  qed
qed (simp_all add: sample_edges sample_entries)

text \<open>Systems that depend on each other end up in one stage, which runs concurrently.\<close>

lemma cycle_runs_concurrently:
  "build_stages [\<lparr>sm_name = ''a'', sm_dependencies = [''b'']\<rparr>, \<lparr>sm_name = ''b'', sm_dependencies = [''a'']\<rparr>] = Some [[0, 1]]"
  by code_simp

text \<open>The difference an exception makes: in a stage of several systems it is logged and the systems after it run, in the sequential executor it ends the run.\<close>

lemma concurrent_exception_is_dropped:
  "let es = [\<lparr>se_metadata = \<lparr>sm_name = ''a'', sm_dependencies = []\<rparr>, se_run = (\<lambda>n. (ThrewException, n))\<rparr>,
             \<lparr>se_metadata = \<lparr>sm_name = ''b'', sm_dependencies = []\<rparr>, se_run = completing (\<lambda>n. n + 1)\<rparr>]
   in run_stage id es [0, 1] (0::nat) = (Completed, 1) \<and> execute_sequential es 0 = (Inl ThrewException, 0)"
  by (simp add: run_stage_def execute_sequential_def counted_def completing_def)

end
