(* ===== verification/Spatial_Grid.thy ===== *)
theory Spatial_Grid
  imports Prelude "HOL-Library.Signed_Division" "HOL-Library.Multiset"
begin

text \<open>
  The uniform grid of the area-of-interest system (\<^verbatim>\<open>src/v2/aoi/spatial_grid.cpp\<close>).  Coordinates
  are integers; the division of C++ truncates towards zero (\<open>sdiv\<close>).
\<close>

record spatial_grid =
  sg_cell_size :: int
  sg_grid_width_cells :: int
  sg_grid_height_cells :: int
  sg_cells :: "nat list list"
  sg_entity_positions :: "nat \<rightharpoonup> int \<times> int"

definition new_spatial_grid :: "int \<Rightarrow> int \<Rightarrow> int \<Rightarrow> spatial_grid" where
  "new_spatial_grid world_width world_height cell_size =
     (let gw = max 1 ((world_width + cell_size - 1) sdiv cell_size);
          gh = max 1 ((world_height + cell_size - 1) sdiv cell_size)
      in \<lparr>sg_cell_size = cell_size, sg_grid_width_cells = gw, sg_grid_height_cells = gh,
          sg_cells = replicate (nat (gw * gh)) [], sg_entity_positions = Map.empty\<rparr>)"

definition clamp :: "int \<Rightarrow> int \<Rightarrow> int \<Rightarrow> int" where
  "clamp v lo hi = (if v < lo then lo else if hi < v then hi else v)"

definition cell_coord_x :: "spatial_grid \<Rightarrow> int \<Rightarrow> int" where
  "cell_coord_x g x = clamp (x sdiv sg_cell_size g) 0 (sg_grid_width_cells g - 1)"

definition cell_coord_y :: "spatial_grid \<Rightarrow> int \<Rightarrow> int" where
  "cell_coord_y g y = clamp (y sdiv sg_cell_size g) 0 (sg_grid_height_cells g - 1)"

definition cell_index :: "spatial_grid \<Rightarrow> int \<Rightarrow> int \<Rightarrow> nat" where
  "cell_index g cell_x cell_y = nat (cell_y * sg_grid_width_cells g + cell_x)"

definition push_to_cell :: "nat \<Rightarrow> nat \<Rightarrow> nat list list \<Rightarrow> nat list list" where
  "push_to_cell idx e cells = cells[idx := cells ! idx @ [e]]"

definition grid_add :: "nat \<Rightarrow> int \<Rightarrow> int \<Rightarrow> spatial_grid \<Rightarrow> spatial_grid" where
  "grid_add e x y g =
     (if sg_entity_positions g e \<noteq> None then g
      else let cx = cell_coord_x g x; cy = cell_coord_y g y
           in g\<lparr>sg_cells := push_to_cell (cell_index g cx cy) e (sg_cells g),
                sg_entity_positions := (sg_entity_positions g)(e \<mapsto> (cx, cy))\<rparr>)"

text \<open>The found element is overwritten with the last one, which is then popped.\<close>

fun find_index :: "nat \<Rightarrow> nat list \<Rightarrow> nat" where
  "find_index e [] = 0"
| "find_index e (x # xs) = (if x = e then 0 else Suc (find_index e xs))"

definition swap_remove :: "nat \<Rightarrow> nat list \<Rightarrow> nat list" where
  "swap_remove e cell =
     (if e \<in> set cell then butlast (cell[find_index e cell := last cell]) else cell)"

definition remove_from_cell :: "nat \<Rightarrow> nat \<Rightarrow> nat list list \<Rightarrow> nat list list" where
  "remove_from_cell idx e cells = cells[idx := swap_remove e (cells ! idx)]"

definition grid_remove :: "nat \<Rightarrow> spatial_grid \<Rightarrow> spatial_grid" where
  "grid_remove e g =
     (case sg_entity_positions g e of
        None \<Rightarrow> g
      | Some (cx, cy) \<Rightarrow>
          g\<lparr>sg_cells := remove_from_cell (cell_index g cx cy) e (sg_cells g),
            sg_entity_positions := (sg_entity_positions g)(e := None)\<rparr>)"

definition grid_move :: "nat \<Rightarrow> int \<Rightarrow> int \<Rightarrow> spatial_grid \<Rightarrow> spatial_grid" where
  "grid_move e new_x new_y g =
     (case sg_entity_positions g e of
        None \<Rightarrow> g
      | Some (old_cx, old_cy) \<Rightarrow>
          let new_cx = cell_coord_x g new_x; new_cy = cell_coord_y g new_y
          in if old_cx = new_cx \<and> old_cy = new_cy
             then g\<lparr>sg_entity_positions := (sg_entity_positions g)(e \<mapsto> (new_cx, new_cy))\<rparr>
             else g\<lparr>sg_cells := push_to_cell (cell_index g new_cx new_cy) e
                      (remove_from_cell (cell_index g old_cx old_cy) e (sg_cells g)),
                    sg_entity_positions := (sg_entity_positions g)(e \<mapsto> (new_cx, new_cy))\<rparr>)"

definition grid_query :: "int \<Rightarrow> int \<Rightarrow> int \<Rightarrow> spatial_grid \<Rightarrow> nat list" where
  "grid_query x y radius g =
     (if radius < 0 then []
      else concat (map (\<lambda>cy. concat (map (\<lambda>cx. sg_cells g ! cell_index g cx cy)
             [cell_coord_x g (x - radius)..cell_coord_x g (x + radius)]))
             [cell_coord_y g (y - radius)..cell_coord_y g (y + radius)]))"

definition grid_clear :: "spatial_grid \<Rightarrow> spatial_grid" where
  "grid_clear g = g\<lparr>sg_cells := map (\<lambda>_. []) (sg_cells g), sg_entity_positions := Map.empty\<rparr>"

subsection \<open>Cells\<close>

lemma find_index_less: "e \<in> set xs \<Longrightarrow> find_index e xs < length xs \<and> xs ! find_index e xs = e"
  by (induction xs) auto

lemma swap_remove_mset:
  assumes "e \<in> set cell"
  shows "mset (swap_remove e cell) = mset cell - {#e#}"
proof -
  let ?i = "find_index e cell"
  have i: "?i < length cell" "cell ! ?i = e" using find_index_less[OF assms] by auto
  have ne: "cell \<noteq> []" using assms by auto
  let ?l = "cell[?i := last cell]"
  have "mset ?l = add_mset (last cell) (mset cell - {#e#})"
    using mset_update[OF i(1), of "last cell"] i(2) by simp
  moreover have "mset ?l = add_mset (last ?l) (mset (butlast ?l))"
    using ne by (metis append_butlast_last_id list_update_nonempty mset.simps(1) mset.simps(2) mset_append
        union_mset_add_mset_right add.right_neutral)
  moreover have "last ?l = last cell"
    using ne i(1) by (simp add: last_list_update)
  ultimately show ?thesis using assms by (simp add: swap_remove_def)
qed

lemma swap_remove_distinct:
  assumes "distinct cell"
  shows "distinct (swap_remove e cell)" and "set (swap_remove e cell) = set cell - {e}"
proof -
  have "mset (swap_remove e cell) = mset (remove1 e cell)"
  proof (cases "e \<in> set cell")
    case True
    then show ?thesis by (simp only: swap_remove_mset mset_remove1)
  next
    case False
    then show ?thesis by (simp add: swap_remove_def remove1_idem)
  qed
  then show "distinct (swap_remove e cell)" and "set (swap_remove e cell) = set cell - {e}"
    using assms by (metis distinct_remove1 mset_eq_imp_distinct_iff, metis set_mset_mset set_remove1_eq)
qed

lemma sdiv_mono:
  assumes "0 < (c :: int)" and "x \<le> y"
  shows "x sdiv c \<le> y sdiv c"
proof -
  have pos: "k sdiv c = k div c" if "0 \<le> k" for k
    using that assms(1) by (simp add: signed_divide_int_def sgn_if)
  have neg: "k sdiv c = - ((- k) div c)" if "k < 0" for k
    using that assms(1) by (simp add: signed_divide_int_def sgn_if)
  show ?thesis
  proof (cases "0 \<le> x")
    case True
    then show ?thesis using assms by (simp add: pos zdiv_mono1)
  next
    case False
    show ?thesis
    proof (cases "0 \<le> y")
      case True
      have "0 \<le> (- x) div c" "0 \<le> y div c"
        using False True assms(1) by (simp_all add: pos_imp_zdiv_nonneg_iff)
      then show ?thesis using False True by (simp add: pos neg)
    next
      case y: False
      have "(- y) div c \<le> (- x) div c" using assms by (intro zdiv_mono1) simp_all
      then show ?thesis using False y by (simp add: neg)
    qed
  qed
qed

lemma clamp_mono: "lo \<le> hi \<Longrightarrow> v \<le> v' \<Longrightarrow> clamp v lo hi \<le> clamp v' lo hi"
  by (simp add: clamp_def)

lemma clamp_range: "lo \<le> hi \<Longrightarrow> lo \<le> clamp v lo hi \<and> clamp v lo hi \<le> hi"
  by (simp add: clamp_def)

subsection \<open>The grid refines a map from entities to coordinates\<close>

definition in_grid :: "spatial_grid \<Rightarrow> int \<Rightarrow> int \<Rightarrow> bool" where
  "in_grid g cx cy \<longleftrightarrow> 0 \<le> cx \<and> cx < sg_grid_width_cells g \<and> 0 \<le> cy \<and> cy < sg_grid_height_cells g"

definition grid_ok :: "spatial_grid \<Rightarrow> bool" where
  "grid_ok g \<longleftrightarrow>
     0 < sg_cell_size g \<and> 1 \<le> sg_grid_width_cells g \<and> 1 \<le> sg_grid_height_cells g \<and>
     length (sg_cells g) = nat (sg_grid_width_cells g * sg_grid_height_cells g) \<and>
     (\<forall>e cx cy. sg_entity_positions g e = Some (cx, cy) \<longrightarrow> in_grid g cx cy) \<and>
     (\<forall>cx cy. in_grid g cx cy \<longrightarrow> distinct (sg_cells g ! cell_index g cx cy) \<and>
        (\<forall>e. e \<in> set (sg_cells g ! cell_index g cx cy) \<longleftrightarrow> sg_entity_positions g e = Some (cx, cy)))"

lemma cell_index_less:
  assumes "in_grid g cx cy" and "length (sg_cells g) = nat (sg_grid_width_cells g * sg_grid_height_cells g)"
  shows "cell_index g cx cy < length (sg_cells g)"
proof -
  let ?w = "sg_grid_width_cells g" and ?h = "sg_grid_height_cells g"
  have "cy * ?w + cx < (cy + 1) * ?w" using assms(1) by (simp add: in_grid_def algebra_simps)
  also have "\<dots> \<le> ?h * ?w" using assms(1) by (intro mult_right_mono) (simp_all add: in_grid_def)
  finally show ?thesis using assms by (simp add: cell_index_def in_grid_def mult.commute nat_less_eq_zless)
qed

lemma cell_index_inj:
  assumes "in_grid g cx cy" and "in_grid g cx' cy'" and "cell_index g cx cy = cell_index g cx' cy'"
  shows "cx = cx' \<and> cy = cy'"
proof -
  let ?w = "sg_grid_width_cells g"
  have "0 \<le> cy * ?w + cx" "0 \<le> cy' * ?w + cx'" using assms(1,2) by (auto simp: in_grid_def)
  with assms(3) have e: "cy * ?w + cx = cy' * ?w + cx'" by (simp add: cell_index_def)
  have "(cy * ?w + cx) div ?w = cy" "(cy' * ?w + cx') div ?w = cy'"
    using assms(1,2) by (simp_all add: in_grid_def div_pos_pos_trivial)
  with e show ?thesis by (metis add_left_cancel)
qed

lemma cell_coord_in_grid: "grid_ok g \<Longrightarrow> in_grid g (cell_coord_x g x) (cell_coord_y g y)"
  using clamp_range[of 0 "sg_grid_width_cells g - 1"] clamp_range[of 0 "sg_grid_height_cells g - 1"]
  by (auto simp: grid_ok_def in_grid_def cell_coord_x_def cell_coord_y_def)

lemma grid_ok_cell:
  "grid_ok g \<Longrightarrow> in_grid g cx cy \<Longrightarrow> distinct (sg_cells g ! cell_index g cx cy) \<and>
     set (sg_cells g ! cell_index g cx cy) = {e. sg_entity_positions g e = Some (cx, cy)} \<and>
     cell_index g cx cy < length (sg_cells g)"
  using cell_index_less by (auto simp: grid_ok_def)

lemma grid_frame [simp]:
  "sg_cell_size (grid_add e x y g) = sg_cell_size g" "sg_cell_size (grid_remove e g) = sg_cell_size g"
  "sg_cell_size (grid_move e x y g) = sg_cell_size g" "sg_cell_size (grid_clear g) = sg_cell_size g"
  "sg_grid_width_cells (grid_add e x y g) = sg_grid_width_cells g"
  "sg_grid_width_cells (grid_remove e g) = sg_grid_width_cells g"
  "sg_grid_width_cells (grid_move e x y g) = sg_grid_width_cells g"
  "sg_grid_width_cells (grid_clear g) = sg_grid_width_cells g"
  "sg_grid_height_cells (grid_add e x y g) = sg_grid_height_cells g"
  "sg_grid_height_cells (grid_remove e g) = sg_grid_height_cells g"
  "sg_grid_height_cells (grid_move e x y g) = sg_grid_height_cells g"
  "sg_grid_height_cells (grid_clear g) = sg_grid_height_cells g"
  by (auto simp: grid_add_def grid_remove_def grid_move_def grid_clear_def Let_def split: option.splits)

text \<open>Rewriting one cell and the position of one entity in agreement keeps the invariant.\<close>

lemma grid_ok_update:
  assumes ok: "grid_ok g"
    and new: "\<And>cx cy. in_grid g cx cy \<Longrightarrow> distinct (cells' ! cell_index g cx cy) \<and>
       (\<forall>e. e \<in> set (cells' ! cell_index g cx cy) \<longleftrightarrow> pos' e = Some (cx, cy))"
    and len: "length cells' = length (sg_cells g)"
    and pos: "\<And>e cx cy. pos' e = Some (cx, cy) \<Longrightarrow> in_grid g cx cy"
  shows "grid_ok (g\<lparr>sg_cells := cells', sg_entity_positions := pos'\<rparr>)"
  using assms by (auto simp: grid_ok_def in_grid_def cell_index_def)

lemma grid_ok_empty:
  assumes "0 < sg_cell_size g" and "1 \<le> sg_grid_width_cells g" and "1 \<le> sg_grid_height_cells g"
    and len: "length (sg_cells g) = nat (sg_grid_width_cells g * sg_grid_height_cells g)"
    and "set (sg_cells g) \<subseteq> {[]}" and "sg_entity_positions g = Map.empty"
  shows "grid_ok g"
proof -
  have "sg_cells g ! cell_index g cx cy = []" if "in_grid g cx cy" for cx cy
    using nth_mem[OF cell_index_less[OF that len]] assms(5) by blast
  with assms show ?thesis by (simp add: grid_ok_def)
qed

lemma grid_ok_new: "0 < c \<Longrightarrow> grid_ok (new_spatial_grid w h c)"
  by (rule grid_ok_empty) (auto simp: new_spatial_grid_def Let_def)

lemma grid_ok_clear: "grid_ok g \<Longrightarrow> grid_ok (grid_clear g)"
  by (rule grid_ok_empty) (auto simp: grid_clear_def grid_ok_def)

lemma push_to_cell_nth:
  "idx < length cells \<Longrightarrow> push_to_cell idx e cells ! i = (if i = idx then cells ! idx @ [e] else cells ! i)"
  by (simp add: push_to_cell_def)

lemma remove_from_cell_nth:
  "idx < length cells \<Longrightarrow>
     remove_from_cell idx e cells ! i = (if i = idx then swap_remove e (cells ! idx) else cells ! i)"
  by (simp add: remove_from_cell_def)

lemma length_cells [simp]:
  "length (push_to_cell idx e cells) = length cells"
  "length (remove_from_cell idx e cells) = length cells"
  by (simp_all add: push_to_cell_def remove_from_cell_def)

lemma grid_ok_push:
  assumes ok: "grid_ok g" and e: "sg_entity_positions g e = None" and at: "in_grid g cx cy"
  shows "grid_ok (g\<lparr>sg_cells := push_to_cell (cell_index g cx cy) e (sg_cells g),
           sg_entity_positions := (sg_entity_positions g)(e \<mapsto> (cx, cy))\<rparr>)"
proof (rule grid_ok_update[OF ok])
  fix cx' cy' assume i: "in_grid g cx' cy'"
  have eq: "cell_index g cx' cy' = cell_index g cx cy \<longleftrightarrow> cx' = cx \<and> cy' = cy"
    using cell_index_inj[OF i at] by auto
  show "distinct (push_to_cell (cell_index g cx cy) e (sg_cells g) ! cell_index g cx' cy') \<and>
    (\<forall>e'. e' \<in> set (push_to_cell (cell_index g cx cy) e (sg_cells g) ! cell_index g cx' cy') \<longleftrightarrow>
      ((sg_entity_positions g)(e \<mapsto> (cx, cy))) e' = Some (cx', cy'))"
    using grid_ok_cell[OF ok i] grid_ok_cell[OF ok at] e by (auto simp: push_to_cell_nth eq)
next
  fix e' cx' cy' assume "((sg_entity_positions g)(e \<mapsto> (cx, cy))) e' = Some (cx', cy')"
  then show "in_grid g cx' cy'" using ok at by (auto simp: grid_ok_def split: if_splits)
qed simp

lemma grid_ok_drop:
  assumes ok: "grid_ok g" and e: "sg_entity_positions g e = Some (cx, cy)"
  shows "grid_ok (g\<lparr>sg_cells := remove_from_cell (cell_index g cx cy) e (sg_cells g),
           sg_entity_positions := (sg_entity_positions g)(e := None)\<rparr>)"
proof (rule grid_ok_update[OF ok])
  have at: "in_grid g cx cy" using ok e by (simp add: grid_ok_def)
  fix cx' cy' assume i: "in_grid g cx' cy'"
  have eq: "cell_index g cx' cy' = cell_index g cx cy \<longleftrightarrow> cx' = cx \<and> cy' = cy"
    using cell_index_inj[OF i at] by auto
  show "distinct (remove_from_cell (cell_index g cx cy) e (sg_cells g) ! cell_index g cx' cy') \<and>
    (\<forall>e'. e' \<in> set (remove_from_cell (cell_index g cx cy) e (sg_cells g) ! cell_index g cx' cy') \<longleftrightarrow>
      ((sg_entity_positions g)(e := None)) e' = Some (cx', cy'))"
    using grid_ok_cell[OF ok i] grid_ok_cell[OF ok at] e
    by (auto simp: remove_from_cell_nth eq swap_remove_distinct)
next
  fix e' cx' cy' assume "((sg_entity_positions g)(e := None)) e' = Some (cx', cy')"
  then show "in_grid g cx' cy'" using ok by (auto simp: grid_ok_def split: if_splits)
qed simp

lemma grid_ok_add: "grid_ok g \<Longrightarrow> grid_ok (grid_add e x y g)"
  by (cases "sg_entity_positions g e")
    (simp_all add: grid_add_def Let_def grid_ok_push cell_coord_in_grid)

lemma grid_ok_remove: "grid_ok g \<Longrightarrow> grid_ok (grid_remove e g)"
  using grid_ok_drop by (auto simp: grid_remove_def split: option.splits)

lemma grid_move_unfold:
  "sg_entity_positions g e = Some p \<Longrightarrow>
   grid_move e x y g = (if p = (cell_coord_x g x, cell_coord_y g y) then g
     else grid_add e x y (grid_remove e g))"
  by (cases p) (auto simp: grid_move_def grid_add_def grid_remove_def Let_def cell_coord_x_def
      cell_coord_y_def cell_index_def fun_upd_idem)

lemma grid_ok_move: "grid_ok g \<Longrightarrow> grid_ok (grid_move e x y g)"
  by (cases "sg_entity_positions g e")
    (simp_all add: grid_move_unfold grid_ok_add grid_ok_remove, simp add: grid_move_def)

text \<open>The abstract view: the coordinates each entity was last given.\<close>

datatype grid_op = GridAdd nat int int | GridRemove nat | GridMove nat int int | GridClear

fun grid_step :: "grid_op \<Rightarrow> spatial_grid \<Rightarrow> spatial_grid" where
  "grid_step (GridAdd e x y) = grid_add e x y"
| "grid_step (GridRemove e) = grid_remove e"
| "grid_step (GridMove e x y) = grid_move e x y"
| "grid_step GridClear = grid_clear"

fun coord_step :: "grid_op \<Rightarrow> (nat \<rightharpoonup> int \<times> int) \<Rightarrow> (nat \<rightharpoonup> int \<times> int)" where
  "coord_step (GridAdd e x y) a = (if a e = None then a(e \<mapsto> (x, y)) else a)"
| "coord_step (GridRemove e) a = a(e := None)"
| "coord_step (GridMove e x y) a = (if a e = None then a else a(e \<mapsto> (x, y)))"
| "coord_step GridClear a = Map.empty"

definition grid_rel :: "spatial_grid \<Rightarrow> (nat \<rightharpoonup> int \<times> int) \<Rightarrow> bool" where
  "grid_rel g a \<longleftrightarrow> grid_ok g \<and>
     (\<forall>e. sg_entity_positions g e = map_option (\<lambda>(x, y). (cell_coord_x g x, cell_coord_y g y)) (a e))"

lemma cell_coord_frame [simp]:
  "cell_coord_x (grid_step op g) x = cell_coord_x g x"
  "cell_coord_y (grid_step op g) y = cell_coord_y g y"
  by (cases op; simp add: cell_coord_x_def cell_coord_y_def)+

lemma positions_step:
  "sg_entity_positions (grid_add e x y g) = (if sg_entity_positions g e = None
     then (sg_entity_positions g)(e \<mapsto> (cell_coord_x g x, cell_coord_y g y)) else sg_entity_positions g)"
  "sg_entity_positions (grid_remove e g) = (sg_entity_positions g)(e := None)"
  "sg_entity_positions (grid_move e x y g) = (if sg_entity_positions g e = None then sg_entity_positions g
     else (sg_entity_positions g)(e \<mapsto> (cell_coord_x g x, cell_coord_y g y)))"
  "sg_entity_positions (grid_clear g) = Map.empty"
  by (auto simp: grid_add_def grid_remove_def grid_move_def grid_clear_def Let_def fun_upd_idem
      split: option.splits)

lemma grid_rel_step:
  assumes "grid_rel g a"
  shows "grid_rel (grid_step op g) (coord_step op a)"
proof -
  have "grid_ok (grid_step op g)"
    using assms by (cases op) (simp_all add: grid_rel_def grid_ok_add grid_ok_remove grid_ok_move grid_ok_clear)
  moreover have "sg_entity_positions (grid_step op g) e =
    map_option (\<lambda>(x, y). (cell_coord_x g x, cell_coord_y g y)) (coord_step op a e)" for e
    using assms by (cases op) (auto simp: grid_rel_def positions_step)
  ultimately show ?thesis by (simp add: grid_rel_def)
qed

lemma grid_rel_run: "grid_rel g a \<Longrightarrow> grid_rel (fold grid_step ops g) (fold coord_step ops a)"
  by (induction ops arbitrary: g a) (simp_all add: grid_rel_step)

lemma grid_rel_new: "0 < c \<Longrightarrow> grid_rel (new_spatial_grid w h c) Map.empty"
  by (simp add: grid_rel_def grid_ok_new) (simp add: new_spatial_grid_def Let_def)

lemma grid_query_cells:
  assumes ok: "grid_ok g" and r: "0 \<le> r"
  shows "distinct (grid_query x y r g)"
    and "set (grid_query x y r g) = {e. \<exists>cx cy. sg_entity_positions g e = Some (cx, cy) \<and>
      cell_coord_x g (x - r) \<le> cx \<and> cx \<le> cell_coord_x g (x + r) \<and>
      cell_coord_y g (y - r) \<le> cy \<and> cy \<le> cell_coord_y g (y + r)}"
proof -
  let ?X = "[cell_coord_x g (x - r)..cell_coord_x g (x + r)]"
  let ?Y = "[cell_coord_y g (y - r)..cell_coord_y g (y + r)]"
  let ?cell = "\<lambda>cx cy. sg_cells g ! cell_index g cx cy"
  have cell: "distinct (?cell cx cy)" "set (?cell cx cy) = {e. sg_entity_positions g e = Some (cx, cy)}"
    if "cx \<in> set ?X" "cy \<in> set ?Y" for cx cy
  proof -
    have "in_grid g cx cy"
      using that cell_coord_in_grid[OF ok, of "x - r" "y - r"] cell_coord_in_grid[OF ok, of "x + r" "y + r"]
      by (auto simp: in_grid_def)
    then show "distinct (?cell cx cy)" "set (?cell cx cy) = {e. sg_entity_positions g e = Some (cx, cy)}"
      using grid_ok_cell[OF ok] by blast+
  qed
  have row: "distinct (concat (map (\<lambda>cx. ?cell cx cy) ?X))" if "cy \<in> set ?Y" for cy
    by (rule distinct_concat_map) (use cell that in auto)
  have "distinct (concat (map (\<lambda>cy. concat (map (\<lambda>cx. ?cell cx cy) ?X)) ?Y))"
    by (rule distinct_concat_map) (use row cell in auto)
  then show "distinct (grid_query x y r g)" using r by (simp add: grid_query_def)
  show "set (grid_query x y r g) = {e. \<exists>cx cy. sg_entity_positions g e = Some (cx, cy) \<and>
      cell_coord_x g (x - r) \<le> cx \<and> cx \<le> cell_coord_x g (x + r) \<and>
      cell_coord_y g (y - r) \<le> cy \<and> cy \<le> cell_coord_y g (y + r)}"
    using r cell(2) by (auto simp: grid_query_def)
qed

lemma cell_coord_mono:
  assumes "grid_ok g" and "u \<le> v"
  shows "cell_coord_x g u \<le> cell_coord_x g v" and "cell_coord_y g u \<le> cell_coord_y g v"
  using assms by (auto simp: cell_coord_x_def cell_coord_y_def grid_ok_def intro!: clamp_mono sdiv_mono)

lemma grid_query_near:
  assumes rel: "grid_rel g a" and r: "0 \<le> r" and e: "a e = Some (ex, ey)"
    and near: "\<bar>ex - x\<bar> \<le> r" "\<bar>ey - y\<bar> \<le> r"
  shows "e \<in> set (grid_query x y r g)"
proof -
  have ok: "grid_ok g" and p: "sg_entity_positions g e = Some (cell_coord_x g ex, cell_coord_y g ey)"
    using rel e by (auto simp: grid_rel_def)
  have "x - r \<le> ex" "ex \<le> x + r" "y - r \<le> ey" "ey \<le> y + r" using near by linarith+
  then show ?thesis
    using p cell_coord_mono[OF ok] by (auto simp: grid_query_cells(2)[OF ok r])
qed

definition on_map :: "spatial_grid \<Rightarrow> int \<Rightarrow> int \<Rightarrow> bool" where
  "on_map g x y \<longleftrightarrow> 0 \<le> x \<and> x div sg_cell_size g < sg_grid_width_cells g \<and>
     0 \<le> y \<and> y div sg_cell_size g < sg_grid_height_cells g"

lemma clamp_window:
  assumes c: "0 < c" and n: "1 \<le> n" and r: "0 \<le> r" and u: "0 \<le> u" "u div c < n" and v: "0 \<le> v" "v div c < n"
    and lo: "clamp ((u - r) sdiv c) 0 (n - 1) \<le> v div c" and hi: "v div c \<le> clamp ((u + r) sdiv c) 0 (n - 1)"
  shows "\<bar>v - u\<bar> < r + c"
proof -
  have pos: "k sdiv c = k div c" if "0 \<le> k" for k
    using that c by (simp add: signed_divide_int_def sgn_if)
  have cell: "c * (k div c) \<le> k \<and> k < c * (k div c) + c" for k
    using c pos_mod_bound[OF c, of k] pos_mod_sign[OF c, of k] mult_div_mod_eq[of c k] by linarith
  have "v div c \<le> (u + r) div c"
    using hi u(1) r c by (simp add: pos clamp_def pos_imp_zdiv_neg_iff split: if_splits)
  then have "c * (v div c) \<le> c * ((u + r) div c)" using c by simp
  with cell[of v] cell[of "u + r"] have up: "v < u + r + c" by linarith
  have "u - r < v + c"
  proof (cases "u - r < 0")
    case True
    with v(1) c show ?thesis by linarith
  next
    case False
    have "(u - r) div c \<le> u div c" using c r by (intro zdiv_mono1) simp_all
    with u(2) False lo have "(u - r) div c \<le> v div c"
      using c by (simp add: pos clamp_def pos_imp_zdiv_neg_iff split: if_splits)
    then have "c * ((u - r) div c) \<le> c * (v div c)" using c by simp
    with cell[of v] cell[of "u - r"] show ?thesis by linarith
  qed
  with up show ?thesis by linarith
qed

lemma cell_coord_on_map:
  assumes "grid_ok g" and "on_map g x y"
  shows "cell_coord_x g x = x div sg_cell_size g" and "cell_coord_y g y = y div sg_cell_size g"
  using assms by (auto simp: grid_ok_def on_map_def cell_coord_x_def cell_coord_y_def clamp_def
      signed_divide_int_def sgn_if pos_imp_zdiv_neg_iff)

lemma grid_query_far:
  assumes rel: "grid_rel g a" and r: "0 \<le> r" and e: "a e = Some (ex, ey)"
    and map: "on_map g ex ey" "on_map g x y" and q: "e \<in> set (grid_query x y r g)"
  shows "\<bar>ex - x\<bar> < r + sg_cell_size g \<and> \<bar>ey - y\<bar> < r + sg_cell_size g"
proof -
  let ?c = "sg_cell_size g"
  have ok: "grid_ok g" and "sg_entity_positions g e = Some (ex div ?c, ey div ?c)"
    using rel e cell_coord_on_map[OF _ map(1)] by (auto simp: grid_rel_def)
  with q have "cell_coord_x g (x - r) \<le> ex div ?c" "ex div ?c \<le> cell_coord_x g (x + r)"
    "cell_coord_y g (y - r) \<le> ey div ?c" "ey div ?c \<le> cell_coord_y g (y + r)"
    by (auto simp: grid_query_cells(2)[OF ok r])
  with ok map r show ?thesis
    by (intro conjI; intro clamp_window[where n = "sg_grid_width_cells g"]
        clamp_window[where n = "sg_grid_height_cells g"])
      (auto simp: grid_ok_def on_map_def cell_coord_x_def cell_coord_y_def)
qed

text \<open>C17: After any sequence of additions, moves, removals and clears, a query of the grid returns
  every entity whose coordinates lie in the square of the given radius, each entity once, no
  entity that is not in the grid, and on the map nothing farther away than the radius plus one
  cell.\<close>

theorem grid_query_correct:
  assumes "0 < cell_size" and "0 \<le> r"
    and "g = fold grid_step ops (new_spatial_grid width height cell_size)"
    and "a = fold coord_step ops Map.empty"
  shows "distinct (grid_query x y r g) \<and> set (grid_query x y r g) \<subseteq> dom a \<and>
    (\<forall>e ex ey. a e = Some (ex, ey) \<and> \<bar>ex - x\<bar> \<le> r \<and> \<bar>ey - y\<bar> \<le> r \<longrightarrow> e \<in> set (grid_query x y r g)) \<and>
    (\<forall>e ex ey. a e = Some (ex, ey) \<and> on_map g ex ey \<and> on_map g x y \<and> e \<in> set (grid_query x y r g) \<longrightarrow>
       \<bar>ex - x\<bar> < r + sg_cell_size g \<and> \<bar>ey - y\<bar> < r + sg_cell_size g)"
proof -
  have rel: "grid_rel g a" unfolding assms(3,4) by (rule grid_rel_run[OF grid_rel_new[OF assms(1)]])
  then have ok: "grid_ok g" and "dom (sg_entity_positions g) = dom a"
    by (auto simp: grid_rel_def dom_def)
  then have "set (grid_query x y r g) \<subseteq> dom a"
    unfolding grid_query_cells(2)[OF ok assms(2)] by blast
  with grid_query_cells(1)[OF ok assms(2)] grid_query_near[OF rel assms(2)] grid_query_far[OF rel assms(2)]
  show ?thesis by blast
qed

theorem grid_query_correct_witness:
  "7 \<in> set (grid_query 120 80 50
      (fold grid_step [GridAdd 7 (-30) 900, GridAdd 8 500 500, GridMove 7 150 110, GridRemove 8]
        (new_spatial_grid 1000 1000 100)))"
proof -
  let ?ops = "[GridAdd 7 (-30) 900, GridAdd 8 500 500, GridMove 7 150 110, GridRemove 8]"
  have "fold coord_step ?ops Map.empty 7 = Some (150, 110)" by simp
  with grid_query_correct[of 100 50 _ ?ops 1000 1000 "fold coord_step ?ops Map.empty" 120 80, OF _ _ refl refl]
  show ?thesis by fastforce
qed

end
