(* ===== verification/Battle_World.thy ===== *)
theory Battle_World
  imports Ecs_World System_Executor Spatial_Grid Input_Validator
begin

text \<open>
  The authoritative battle simulation: the components of a battle
  (\<^verbatim>\<open>include/v2/battle/runtime_components.h\<close>), the systems that run every frame
  (\<^verbatim>\<open>src/v2/battle/runtime_world.cpp\<close>, \<^verbatim>\<open>src/v2/battle/game_systems.cpp\<close>,
  \<^verbatim>\<open>src/v2/aoi/aoi_system.cpp\<close>) and the entry points the actor and the plugin use.  Signed
  numbers are integers; that the code stays inside \<^verbatim>\<open>int32_t\<close> is part of what is proved
  for positions and health.  Audit logging and the speed statistics feed only the log and are
  left out.
\<close>

subsection \<open>Components\<close>

datatype battle_lifecycle = BattleCreated | BattleRunning | BattleFinished

record battle_clock =
  ck_frame_number :: nat
  ck_last_trigger :: string

record battle_participant =
  bp_user_id :: string
  bp_online :: bool
  bp_score :: int
  bp_last_submitted_frame :: nat
  bp_last_acked_frame :: nat
  bp_pending_input_data :: string
  bp_pending_target_user_id :: string
  bp_pending_move_x :: int
  bp_pending_move_y :: int
  bp_has_pending_move :: bool
  bp_facing_dx :: int
  bp_facing_dy :: int
  bp_has_pending_fire :: bool
  bp_pending_fire_dx :: int
  bp_pending_fire_dy :: int

definition new_participant :: "string \<Rightarrow> battle_participant" where
  "new_participant user_id = \<lparr>bp_user_id = user_id, bp_online = True, bp_score = 0,
     bp_last_submitted_frame = 0, bp_last_acked_frame = 0, bp_pending_input_data = [],
     bp_pending_target_user_id = [], bp_pending_move_x = 0, bp_pending_move_y = 0,
     bp_has_pending_move = False, bp_facing_dx = 1, bp_facing_dy = 0, bp_has_pending_fire = False,
     bp_pending_fire_dx = 1, bp_pending_fire_dy = 0\<rparr>"

record battle_metadata =
  bm_battle_id :: string
  bm_room_id :: string
  bm_lifecycle :: battle_lifecycle
  bm_next_input_seq :: nat
  bm_max_frames :: nat
  bm_current_frame_number :: nat

record frame_participant =
  fp_user_id :: string
  fp_x :: int
  fp_y :: int
  fp_hp :: int
  fp_score :: int
  fp_online :: bool

record replay_frame =
  rp_frame_number :: nat
  rp_participants :: "frame_participant list"
  rp_lifecycle :: battle_lifecycle

record replay_input =
  ri_input_seq :: nat
  ri_frame_number :: nat
  ri_user_id :: string
  ri_input_data :: string
  ri_score :: int
  ri_trigger :: string

record replay_log =
  rl_replay_inputs :: "replay_input list"
  rl_frame_snapshots :: "replay_frame list"

record position =
  po_x :: int
  po_y :: int

record health =
  he_hp :: int
  he_max_hp :: int

record attack_state =
  at_damage :: int
  at_range :: int
  at_last_target_user_id :: string

record attack_cooldown =
  co_last_attack_frame :: nat
  co_cooldown_frames :: nat
  co_attacks_this_frame :: nat

definition kMaxAttacksPerFrame :: nat where
  "kMaxAttacksPerFrame = 1"

record projectile =
  pr_projectile_id :: string
  pr_owner_user_id :: string
  pr_target_user_id :: string
  pr_start_x :: int
  pr_start_y :: int
  pr_target_x :: int
  pr_target_y :: int
  pr_dir_x :: int
  pr_dir_y :: int
  pr_damage :: int
  pr_speed :: int
  pr_aoe_radius :: int
  pr_duration_frames :: nat
  pr_current_frame :: nat
  pr_active :: bool

record damage_overlay =
  do_source_projectile_id :: string
  do_damage_per_tick :: int
  do_remaining_ticks :: nat
  do_interval_frames :: nat
  do_last_applied_frame :: nat

record aoi_view =
  av_visible_entities :: "nat list"
  av_visible_count :: nat

definition default_health :: health where
  "default_health = \<lparr>he_hp = 100, he_max_hp = 100\<rparr>"

definition default_attack :: attack_state where
  "default_attack = \<lparr>at_damage = 10, at_range = 1, at_last_target_user_id = []\<rparr>"

definition default_cooldown :: attack_cooldown where
  "default_cooldown = \<lparr>co_last_attack_frame = 0, co_cooldown_frames = 3, co_attacks_this_frame = 0\<rparr>"

text \<open>The component types and the objects stored under them.\<close>

datatype btype =
    TClock | TParticipant | TMetadata | TReplayLog | TPosition | THealth | TAttack | TCooldown
  | TProjectile | TDamageOverlay | TAoiView

datatype bcomp =
    CClock battle_clock | CParticipant battle_participant | CMetadata battle_metadata
  | CReplayLog replay_log | CPosition position | CHealth health | CAttack attack_state
  | CCooldown attack_cooldown | CProjectile projectile | CDamageOverlay damage_overlay
  | CAoiView aoi_view

fun btype_of :: "bcomp \<Rightarrow> btype" where
  "btype_of (CClock _) = TClock"
| "btype_of (CParticipant _) = TParticipant"
| "btype_of (CMetadata _) = TMetadata"
| "btype_of (CReplayLog _) = TReplayLog"
| "btype_of (CPosition _) = TPosition"
| "btype_of (CHealth _) = THealth"
| "btype_of (CAttack _) = TAttack"
| "btype_of (CCooldown _) = TCooldown"
| "btype_of (CProjectile _) = TProjectile"
| "btype_of (CDamageOverlay _) = TDamageOverlay"
| "btype_of (CAoiView _) = TAoiView"

type_synonym ecs = "(btype, bcomp) simple_world"

definition get_position :: "entity_handle \<Rightarrow> ecs \<Rightarrow> position option" where
  "get_position h w = (case get_component_erased h TPosition w of Some (CPosition p) \<Rightarrow> Some p | _ \<Rightarrow> None)"

definition get_health :: "entity_handle \<Rightarrow> ecs \<Rightarrow> health option" where
  "get_health h w = (case get_component_erased h THealth w of Some (CHealth p) \<Rightarrow> Some p | _ \<Rightarrow> None)"

definition get_attack :: "entity_handle \<Rightarrow> ecs \<Rightarrow> attack_state option" where
  "get_attack h w = (case get_component_erased h TAttack w of Some (CAttack p) \<Rightarrow> Some p | _ \<Rightarrow> None)"

definition get_cooldown :: "entity_handle \<Rightarrow> ecs \<Rightarrow> attack_cooldown option" where
  "get_cooldown h w = (case get_component_erased h TCooldown w of Some (CCooldown p) \<Rightarrow> Some p | _ \<Rightarrow> None)"

text \<open>Writing through a reference of the component type.\<close>

definition put :: "entity_handle \<Rightarrow> bcomp \<Rightarrow> ecs \<Rightarrow> ecs" where
  "put h c w = set_component (eh_id h) (btype_of c) c w"

text \<open>\<^verbatim>\<open>for_each<T>\<close> with a function that sees the object as its type.\<close>

definition each_participant ::
  "visit_order \<Rightarrow> (entity_handle \<Rightarrow> battle_participant \<Rightarrow> ecs \<Rightarrow> ecs) \<Rightarrow> ecs \<Rightarrow> ecs" where
  "each_participant order fn =
     for_each order TParticipant (\<lambda>h c w. case c of CParticipant p \<Rightarrow> fn h p w | _ \<Rightarrow> w)"

definition update_participants :: "visit_order \<Rightarrow> (battle_participant \<Rightarrow> battle_participant) \<Rightarrow> ecs \<Rightarrow> ecs" where
  "update_participants order f = each_participant order (\<lambda>h p. put h (CParticipant (f p)))"

definition update_metadata :: "visit_order \<Rightarrow> (battle_metadata \<Rightarrow> battle_metadata) \<Rightarrow> ecs \<Rightarrow> ecs" where
  "update_metadata order f =
     for_each order TMetadata (\<lambda>h c w. case c of CMetadata m \<Rightarrow> put h (CMetadata (f m)) w | _ \<Rightarrow> w)"

definition update_clock :: "visit_order \<Rightarrow> (battle_clock \<Rightarrow> battle_clock) \<Rightarrow> ecs \<Rightarrow> ecs" where
  "update_clock order f =
     for_each order TClock (\<lambda>h c w. case c of CClock m \<Rightarrow> put h (CClock (f m)) w | _ \<Rightarrow> w)"

definition update_replay_log :: "visit_order \<Rightarrow> (replay_log \<Rightarrow> replay_log) \<Rightarrow> ecs \<Rightarrow> ecs" where
  "update_replay_log order f =
     for_each order TReplayLog (\<lambda>h c w. case c of CReplayLog m \<Rightarrow> put h (CReplayLog (f m)) w | _ \<Rightarrow> w)"

fun as_participant where "as_participant (h, CParticipant p) = Some (h :: entity_handle, p)" | "as_participant _ = None"
fun as_metadata where "as_metadata (h, CMetadata m) = Some (h :: entity_handle, m)" | "as_metadata _ = None"
fun as_clock where "as_clock (h, CClock m) = Some (h :: entity_handle, m)" | "as_clock _ = None"
fun as_replay_log where "as_replay_log (h, CReplayLog m) = Some (h :: entity_handle, m)" | "as_replay_log _ = None"
fun as_projectile where "as_projectile (h, CProjectile m) = Some (h :: entity_handle, m)" | "as_projectile _ = None"

text \<open>The objects a \<^verbatim>\<open>for_each\<close> that only reads is called with.\<close>

definition participants_in :: "visit_order \<Rightarrow> ecs \<Rightarrow> (entity_handle \<times> battle_participant) list" where
  "participants_in order w = List.map_filter as_participant (visited order TParticipant w)"

definition metadata_in :: "visit_order \<Rightarrow> ecs \<Rightarrow> (entity_handle \<times> battle_metadata) list" where
  "metadata_in order w = List.map_filter as_metadata (visited order TMetadata w)"

definition clocks_in :: "visit_order \<Rightarrow> ecs \<Rightarrow> (entity_handle \<times> battle_clock) list" where
  "clocks_in order w = List.map_filter as_clock (visited order TClock w)"

definition replay_logs_in :: "visit_order \<Rightarrow> ecs \<Rightarrow> (entity_handle \<times> replay_log) list" where
  "replay_logs_in order w = List.map_filter as_replay_log (visited order TReplayLog w)"

definition projectiles_in :: "visit_order \<Rightarrow> ecs \<Rightarrow> (entity_handle \<times> projectile) list" where
  "projectiles_in order w = List.map_filter as_projectile (visited order TProjectile w)"

text \<open>A pointer or value assigned in a \<^verbatim>\<open>for_each\<close> keeps the last object visited.\<close>

definition last_opt :: "'a list \<Rightarrow> 'a option" where
  "last_opt xs = (if xs = [] then None else Some (last xs))"

subsection \<open>The world of one battle\<close>

text \<open>
  Beside the entities: the counters of \<^verbatim>\<open>BattleLifecycleSystem\<close>, the grid of \<^verbatim>\<open>AoiSystem\<close>, and
  three parameters of the implementation the results do not depend on: the visiting order of the
  hash tables, the order in which concurrent systems of a stage take effect, and the
  floating-point interpolation of a projectile in flight (frame and projectile to coordinates).
\<close>

record lifecycle_system =
  ls_max_idle_frames :: nat
  ls_max_offline_frames :: nat
  ls_idle_frames :: nat
  ls_offline_frames :: nat
  ls_last_input_seq :: nat

definition new_lifecycle_system :: lifecycle_system where
  "new_lifecycle_system = \<lparr>ls_max_idle_frames = 300, ls_max_offline_frames = 60, ls_idle_frames = 0,
     ls_offline_frames = 0, ls_last_input_seq = 0\<rparr>"

record battle_env =
  be_order :: visit_order
  be_sched :: "nat list \<Rightarrow> nat list"
  be_lerp :: "projectile \<Rightarrow> int \<times> int"
  be_draw :: "string \<Rightarrow> nat \<Rightarrow> int \<times> int"

record battle_world =
  bw_ecs :: ecs
  bw_lifecycle_system :: lifecycle_system
  bw_aoi_grid :: spatial_grid
  bw_env :: battle_env

abbreviation bw_order :: "battle_world \<Rightarrow> visit_order" where
  "bw_order b \<equiv> be_order (bw_env b)"

record frame_ctx =
  fc_frame_number :: nat
  fc_trigger :: string

definition normalize_direction :: "int \<Rightarrow> int \<Rightarrow> int \<times> int" where
  "normalize_direction dx dy =
     (if \<bar>dx\<bar> \<ge> \<bar>dy\<bar> \<and> dx \<noteq> 0 then (if dx > 0 then 1 else -1, 0)
      else if dy \<noteq> 0 then (0, if dy > 0 then 1 else -1)
      else (1, 0))"

text \<open>
  The seeded \<^verbatim>\<open>std::mt19937\<close> and the distributions over 1..18 and 1..13 are the parameter
  \<open>be_draw\<close>: the numbers drawn for the player at an index.
\<close>

definition spawn_position_for :: "battle_env \<Rightarrow> string \<Rightarrow> nat \<Rightarrow> int \<times> int" where
  "spawn_position_for env battle_id index =
     (case be_draw env battle_id index of (x, y) \<Rightarrow> (x * 50, y * 50))"

definition draws_in_range :: "battle_env \<Rightarrow> bool" where
  "draws_in_range env \<longleftrightarrow> (\<forall>b i. case be_draw env b i of (x, y) \<Rightarrow> 1 \<le> x \<and> x \<le> 18 \<and> 1 \<le> y \<and> y \<le> 13)"

subsection \<open>Clock, input and lifecycle systems\<close>

definition clock_system :: "frame_ctx \<Rightarrow> battle_world \<Rightarrow> battle_world" where
  "clock_system ctx b =
     b\<lparr>bw_ecs := update_metadata (bw_order b) (\<lambda>m. m\<lparr>bm_current_frame_number := fc_frame_number ctx\<rparr>)
        (update_clock (bw_order b)
           (\<lambda>c. c\<lparr>ck_frame_number := fc_frame_number ctx, ck_last_trigger := fc_trigger ctx\<rparr>) (bw_ecs b))\<rparr>"

text \<open>\<^verbatim>\<open>find(',', 5)\<close> and the two halves of a coordinate pair.\<close>

definition parse_pair :: "string \<Rightarrow> (int \<times> int) option" where
  "parse_pair input =
     (case find_char CHR '','' (drop 5 input) of
        None \<Rightarrow> None
      | Some c \<Rightarrow> Some (to_int32 (fst (strtol (take c (drop 5 input)))),
                      to_int32 (fst (strtol (drop (c + 1) (drop 5 input))))))"

definition apply_pending_input :: "battle_participant \<Rightarrow> battle_participant" where
  "apply_pending_input p =
     (if \<not> bp_online p \<or> bp_pending_input_data p = [] then p
      else
       (let input = bp_pending_input_data p;
            p1 = (if starts_with ''attack:'' input then p\<lparr>bp_pending_target_user_id := drop 7 input\<rparr> else p);
            p2 = (if starts_with ''move:'' input
                  then (case parse_pair input of
                          None \<Rightarrow> p1
                        | Some (x, y) \<Rightarrow> p1\<lparr>bp_pending_move_x := x, bp_pending_move_y := y,
                                            bp_has_pending_move := True\<rparr>)
                  else p1);
            p3 = (if starts_with ''fire:'' input
                  then (case parse_pair input of
                          None \<Rightarrow> p2
                        | Some (x, y) \<Rightarrow> (case normalize_direction x y of (dx, dy) \<Rightarrow>
                            p2\<lparr>bp_pending_fire_dx := dx, bp_pending_fire_dy := dy,
                               bp_has_pending_fire := True\<rparr>))
                  else p2)
        in p3\<lparr>bp_pending_input_data := []\<rparr>))"

definition input_system :: "frame_ctx \<Rightarrow> battle_world \<Rightarrow> battle_world" where
  "input_system ctx b = b\<lparr>bw_ecs := update_participants (bw_order b) apply_pending_input (bw_ecs b)\<rparr>"

text \<open>Handles are collected first, then the component is removed from each entity.\<close>

definition remove_all :: "visit_order \<Rightarrow> btype \<Rightarrow> ecs \<Rightarrow> ecs" where
  "remove_all order k w =
     fold (\<lambda>h w. snd (remove_component_erased h k w)) (map fst (visited order k w)) w"

definition lifecycle_run :: "frame_ctx \<Rightarrow> battle_world \<Rightarrow> battle_world" where
  "lifecycle_run ctx b =
     (case last_opt (metadata_in (bw_order b) (bw_ecs b)) of
        None \<Rightarrow> b
      | Some (h, m) \<Rightarrow>
         (let ls = bw_lifecycle_system b in
          case bm_lifecycle m of
            BattleCreated \<Rightarrow>
              b\<lparr>bw_ecs := put h (CMetadata (m\<lparr>bm_lifecycle := BattleRunning\<rparr>)) (bw_ecs b),
                bw_lifecycle_system := ls\<lparr>ls_idle_frames := 0, ls_offline_frames := 0,
                                          ls_last_input_seq := bm_next_input_seq m\<rparr>\<rparr>
          | BattleFinished \<Rightarrow>
              b\<lparr>bw_ecs := remove_all (bw_order b) TDamageOverlay
                            (remove_all (bw_order b) TProjectile (bw_ecs b))\<rparr>
          | BattleRunning \<Rightarrow>
             (let has_input = bm_next_input_seq m > ls_last_input_seq ls;
                  ls1 = ls\<lparr>ls_last_input_seq := bm_next_input_seq m,
                           ls_idle_frames := (if has_input then 0 else u32_add (ls_idle_frames ls) 1)\<rparr>;
                  finish = put h (CMetadata (m\<lparr>bm_lifecycle := BattleFinished\<rparr>)) (bw_ecs b);
                  people = map snd (participants_in (bw_order b) (bw_ecs b))
              in if ls_idle_frames ls1 \<ge> ls_max_idle_frames ls1
                 then b\<lparr>bw_ecs := finish, bw_lifecycle_system := ls1\<rparr>
                 else if people = [] then b\<lparr>bw_lifecycle_system := ls1\<rparr>
                 else if \<forall>p\<in>set people. \<not> bp_online p
                 then (let ls2 = ls1\<lparr>ls_offline_frames := u32_add (ls_offline_frames ls1) 1\<rparr>
                       in if ls_offline_frames ls2 \<ge> ls_max_offline_frames ls2
                          then b\<lparr>bw_ecs := finish, bw_lifecycle_system := ls2\<rparr>
                          else b\<lparr>bw_lifecycle_system := ls2\<rparr>)
                 else b\<lparr>bw_lifecycle_system := ls1\<lparr>ls_offline_frames := 0\<rparr>\<rparr>)))"

definition frame_participant_of :: "ecs \<Rightarrow> entity_handle \<Rightarrow> battle_participant \<Rightarrow> frame_participant" where
  "frame_participant_of w h p =
     \<lparr>fp_user_id = bp_user_id p,
      fp_x = (case get_position h w of Some q \<Rightarrow> po_x q | None \<Rightarrow> 0),
      fp_y = (case get_position h w of Some q \<Rightarrow> po_y q | None \<Rightarrow> 0),
      fp_hp = (case get_health h w of Some q \<Rightarrow> he_hp q | None \<Rightarrow> 0),
      fp_score = bp_score p, fp_online = bp_online p\<rparr>"

definition replay_system :: "frame_ctx \<Rightarrow> battle_world \<Rightarrow> battle_world" where
  "replay_system ctx b =
     (case last_opt (metadata_in (bw_order b) (bw_ecs b)) of
        None \<Rightarrow> b
      | Some (mh, m) \<Rightarrow>
          (case last_opt (replay_logs_in (bw_order b) (bw_ecs b)) of
             None \<Rightarrow> b
           | Some (rh, rl) \<Rightarrow>
               let record = \<lparr>rp_frame_number = fc_frame_number ctx,
                     rp_participants = map (\<lambda>(h, p). frame_participant_of (bw_ecs b) h p)
                       (participants_in (bw_order b) (bw_ecs b)),
                     rp_lifecycle = bm_lifecycle m\<rparr>
               in b\<lparr>bw_ecs := put rh (CReplayLog (rl\<lparr>rl_frame_snapshots := rl_frame_snapshots rl @ [record]\<rparr>))
                      (bw_ecs b)\<rparr>))"

subsection \<open>Movement and combat\<close>

definition kMaxX :: int where "kMaxX = 1000"
definition kMaxY :: int where "kMaxY = 1000"
definition kMaxMoveDelta :: int where "kMaxMoveDelta = 200"
definition kProjectileRange :: int where "kProjectileRange = 1400"
definition kProjectileDamage :: int where "kProjectileDamage = 25"
definition kProjectileSpeed :: int where "kProjectileSpeed = 100"
definition kMaxDamage :: int where "kMaxDamage = 50"
definition kMinDamage :: int where "kMinDamage = 1"

definition move_participant :: "entity_handle \<Rightarrow> battle_participant \<Rightarrow> ecs \<Rightarrow> ecs" where
  "move_participant h p w =
     (if \<not> bp_online p \<or> \<not> bp_has_pending_move p then w
      else case get_position h w of
        None \<Rightarrow> w
      | Some pos \<Rightarrow>
         (let tx = bp_pending_move_x p; ty = bp_pending_move_y p;
              reject = put h (CParticipant (p\<lparr>bp_has_pending_move := False,
                 bp_pending_move_x := po_x pos, bp_pending_move_y := po_y pos\<rparr>)) w
          in if tx < 0 \<or> tx > kMaxX \<or> ty < 0 \<or> ty > kMaxY then reject
             else if \<bar>tx - po_x pos\<bar> + \<bar>ty - po_y pos\<bar> > kMaxMoveDelta then reject
             else (let p1 = (if tx \<noteq> po_x pos \<or> ty \<noteq> po_y pos
                             then (case normalize_direction (tx - po_x pos) (ty - po_y pos) of
                                     (dx, dy) \<Rightarrow> p\<lparr>bp_facing_dx := dx, bp_facing_dy := dy\<rparr>)
                             else p)
                   in put h (CParticipant (p1\<lparr>bp_has_pending_move := False\<rparr>))
                        (put h (CPosition (pos\<lparr>po_x := tx, po_y := ty\<rparr>)) w))))"

definition movement_system :: "frame_ctx \<Rightarrow> battle_world \<Rightarrow> battle_world" where
  "movement_system ctx b = b\<lparr>bw_ecs := each_participant (bw_order b) move_participant (bw_ecs b)\<rparr>"

definition sign_dir :: "int \<Rightarrow> int \<Rightarrow> int" where
  "sign_dir target start = (if target > start then 1 else if target < start then -1 else 0)"

definition spawn_projectile ::
  "string \<Rightarrow> string \<Rightarrow> string \<Rightarrow> int \<Rightarrow> int \<Rightarrow> int \<Rightarrow> int \<Rightarrow> int \<Rightarrow> int \<Rightarrow> int \<Rightarrow> nat \<Rightarrow> ecs \<Rightarrow> ecs" where
  "spawn_projectile pid owner target sx sy tx ty damage speed aoe_radius duration_frames w =
     (case create_entity w of (entity, w1) \<Rightarrow>
        add_component entity TProjectile (CProjectile
          \<lparr>pr_projectile_id = pid, pr_owner_user_id = owner, pr_target_user_id = target,
           pr_start_x = sx, pr_start_y = sy, pr_target_x = tx, pr_target_y = ty,
           pr_dir_x = sign_dir tx sx, pr_dir_y = sign_dir ty sy, pr_damage = damage, pr_speed = speed,
           pr_aoe_radius = aoe_radius, pr_duration_frames = duration_frames, pr_current_frame = 0,
           pr_active = True\<rparr>)
          (add_component entity TPosition (CPosition \<lparr>po_x = sx, po_y = sy\<rparr>) w1))"

text \<open>The part of the loop that handles a pending shot.\<close>

definition fire_pending :: "nat \<Rightarrow> entity_handle \<Rightarrow> battle_participant \<Rightarrow> ecs \<Rightarrow> battle_participant \<times> ecs" where
  "fire_pending frame h p w =
     (if \<not> bp_has_pending_fire p then (p, w)
      else
       (let cooldown = get_cooldown h w;
            ready = (case cooldown of None \<Rightarrow> True
                     | Some c \<Rightarrow> co_last_attack_frame c = 0 \<or>
                                 u32_sub frame (co_last_attack_frame c) \<ge> co_cooldown_frames c)
        in case get_position h w of
             Some pos \<Rightarrow>
               if ready
               then (case normalize_direction (bp_pending_fire_dx p) (bp_pending_fire_dy p) of (dx, dy) \<Rightarrow>
                  (let p1 = p\<lparr>bp_facing_dx := dx, bp_facing_dy := dy\<rparr>;
                       w1 = spawn_projectile (bp_user_id p @ ''_shot_'' @ decimal frame) (bp_user_id p) []
                              (po_x pos) (po_y pos)
                              (clamp (po_x pos + dx * kProjectileRange) 0 kMaxX)
                              (clamp (po_y pos + dy * kProjectileRange) 0 kMaxY)
                              kProjectileDamage kProjectileSpeed 0 0 (put h (CParticipant p1) w);
                       w2 = (case cooldown of None \<Rightarrow> w1
                             | Some c \<Rightarrow> put h (CCooldown (c\<lparr>co_last_attack_frame := frame\<rparr>)) w1);
                       p2 = p1\<lparr>bp_has_pending_fire := False\<rparr>
                   in (p2, put h (CParticipant p2) w2)))
               else (let p2 = p\<lparr>bp_has_pending_fire := False\<rparr> in (p2, put h (CParticipant p2) w))
           | None \<Rightarrow> (let p2 = p\<lparr>bp_has_pending_fire := False\<rparr> in (p2, put h (CParticipant p2) w))))"

definition collect_attack ::
  "nat \<Rightarrow> entity_handle \<Rightarrow> battle_participant \<Rightarrow> ecs \<times> (entity_handle \<times> string) list \<Rightarrow>
     ecs \<times> (entity_handle \<times> string) list" where
  "collect_attack frame h p0 s =
     (case fire_pending frame h p0 (fst s) of (p, w) \<Rightarrow>
       if \<not> bp_online p \<or> bp_pending_target_user_id p = [] then (w, snd s)
       else
        (let done = put h (CParticipant (p\<lparr>bp_pending_target_user_id := []\<rparr>));
             intent = (h, bp_pending_target_user_id p)
         in case get_cooldown h w of
              None \<Rightarrow> (done w, snd s @ [intent])
            | Some c \<Rightarrow>
                if co_attacks_this_frame c \<ge> kMaxAttacksPerFrame then (done w, snd s)
                else if co_last_attack_frame c > 0 \<and>
                        u32_sub frame (co_last_attack_frame c) < co_cooldown_frames c then (done w, snd s)
                else (done (put h (CCooldown (c\<lparr>co_attacks_this_frame := u32_add (co_attacks_this_frame c) 1\<rparr>)) w),
                      snd s @ [intent])))"

definition strike :: "nat \<Rightarrow> entity_handle \<Rightarrow> string \<Rightarrow> position \<Rightarrow> attack_state \<Rightarrow>
    entity_handle \<Rightarrow> battle_participant \<Rightarrow> ecs \<Rightarrow> ecs" where
  "strike frame source target_user source_pos attack h p w =
     (if bp_user_id p \<noteq> target_user \<or> \<not> bp_online p then w
      else case (get_position h w, get_health h w) of
        (Some pos, Some he) \<Rightarrow>
          if \<bar>po_x source_pos - po_x pos\<bar> \<le> at_range attack \<and> \<bar>po_y source_pos - po_y pos\<bar> \<le> at_range attack
          then (let w1 = put h (CHealth (he\<lparr>he_hp := max 0 (he_hp he - at_damage attack)\<rparr>)) w
                in case get_cooldown source w1 of
                     None \<Rightarrow> w1
                   | Some c \<Rightarrow> put source (CCooldown (c\<lparr>co_last_attack_frame := frame\<rparr>)) w1)
          else w
      | _ \<Rightarrow> w)"

definition resolve_attack :: "visit_order \<Rightarrow> nat \<Rightarrow> entity_handle \<times> string \<Rightarrow> ecs \<Rightarrow> ecs" where
  "resolve_attack order frame intent w =
     (case (get_position (fst intent) w, get_attack (fst intent) w) of
        (Some pos, Some attack) \<Rightarrow>
          if at_damage attack < kMinDamage \<or> at_damage attack > kMaxDamage then w
          else each_participant order (strike frame (fst intent) (snd intent) pos attack) w
      | _ \<Rightarrow> w)"

definition combat_system :: "frame_ctx \<Rightarrow> battle_world \<Rightarrow> battle_world" where
  "combat_system ctx b =
     (case for_each_acc (bw_order b) TParticipant
         (\<lambda>h c s. case c of CParticipant p \<Rightarrow> collect_attack (fc_frame_number ctx) h p s | _ \<Rightarrow> s)
         (bw_ecs b, []) of (w, intents) \<Rightarrow>
        b\<lparr>bw_ecs := fold (resolve_attack (bw_order b) (fc_frame_number ctx)) intents w\<rparr>)"

subsection \<open>Projectiles\<close>

definition award :: "visit_order \<Rightarrow> string \<Rightarrow> int \<Rightarrow> ecs \<Rightarrow> ecs" where
  "award order owner points =
     update_participants order (\<lambda>p. if bp_user_id p = owner then p\<lparr>bp_score := bp_score p + points\<rparr> else p)"

definition damage_target :: "visit_order \<Rightarrow> projectile \<Rightarrow> entity_handle \<Rightarrow> health \<Rightarrow> ecs \<Rightarrow> bool \<times> ecs" where
  "damage_target order proj h he w =
     (let hp = max 0 (he_hp he - pr_damage proj);
          w1 = put h (CHealth (he\<lparr>he_hp := hp\<rparr>)) w
      in if he_hp he \<noteq> hp then (True, award order (pr_owner_user_id proj) (if hp = 0 then 5 else 1) w1)
         else (False, w1))"

text \<open>The free-flying projectile of \<^verbatim>\<open>CombatSystem\<close>: it hits the first living target nearby.\<close>

definition free_flight_hit ::
  "visit_order \<Rightarrow> projectile \<Rightarrow> int \<Rightarrow> int \<Rightarrow> entity_handle \<Rightarrow> battle_participant \<Rightarrow> ecs \<times> bool \<Rightarrow> ecs \<times> bool" where
  "free_flight_hit order proj x y h p s =
     (if snd s \<or> bp_user_id p = pr_owner_user_id proj \<or> \<not> bp_online p then s
      else case (get_position h (fst s), get_health h (fst s)) of
        (Some pos, Some he) \<Rightarrow>
          if he_hp he \<le> 0 \<or> \<bar>po_x pos - x\<bar> + \<bar>po_y pos - y\<bar> > 60 then s
          else (case damage_target order proj h he (fst s) of (hit, w) \<Rightarrow> (w, snd s \<or> hit))
      | _ \<Rightarrow> s)"

definition impact_hit ::
  "visit_order \<Rightarrow> projectile \<Rightarrow> entity_handle \<Rightarrow> battle_participant \<Rightarrow> ecs \<Rightarrow> ecs" where
  "impact_hit order proj h p w =
     (if bp_user_id p = pr_owner_user_id proj \<or> \<not> bp_online p then w
      else case (get_position h w, get_health h w) of
        (Some pos, Some he) \<Rightarrow>
          if \<bar>po_x pos - pr_target_x proj\<bar> + \<bar>po_y pos - pr_target_y proj\<bar> > 60 then w
          else snd (damage_target order proj h he w)
      | _ \<Rightarrow> w)"

definition area_hit :: "nat \<Rightarrow> projectile \<Rightarrow> entity_handle \<Rightarrow> position \<Rightarrow> ecs \<Rightarrow> ecs" where
  "area_hit frame proj h pos w =
     (if \<bar>po_x pos - pr_target_x proj\<bar> + \<bar>po_y pos - pr_target_y proj\<bar> > pr_aoe_radius proj then w
      else case get_health h w of
        None \<Rightarrow> w
      | Some he \<Rightarrow>
         (let w1 = put h (CHealth (he\<lparr>he_hp := max 0 (he_hp he - pr_damage proj)\<rparr>)) w
          in if pr_duration_frames proj > 0
             then add_component h TDamageOverlay (CDamageOverlay
                    \<lparr>do_source_projectile_id = pr_projectile_id proj, do_damage_per_tick = pr_damage proj,
                     do_remaining_ticks = pr_duration_frames proj, do_interval_frames = 1,
                     do_last_applied_frame = frame\<rparr>) w1
             else w1))"

definition fly_free :: "visit_order \<Rightarrow> entity_handle \<Rightarrow> projectile \<Rightarrow> position \<Rightarrow> ecs \<Rightarrow> ecs" where
  "fly_free order h proj pos w =
     (let x = po_x pos + pr_dir_x proj * pr_speed proj; y = po_y pos + pr_dir_y proj * pr_speed proj
      in case for_each_acc order TParticipant
           (\<lambda>th c s. case c of CParticipant p \<Rightarrow> free_flight_hit order proj x y th p s | _ \<Rightarrow> s)
           (put h (CPosition (pos\<lparr>po_x := x, po_y := y\<rparr>)) w, False) of
         (w1, hit) \<Rightarrow>
           if hit \<or> x < 0 \<or> x > kMaxX \<or> y < 0 \<or> y > kMaxY
           then put h (CProjectile (proj\<lparr>pr_active := False\<rparr>)) w1 else w1)"

definition strike_target :: "visit_order \<Rightarrow> nat \<Rightarrow> entity_handle \<Rightarrow> projectile \<Rightarrow> ecs \<Rightarrow> ecs" where
  "strike_target order frame h proj w =
     (let w1 = (case get_position h w of None \<Rightarrow> w
                | Some pos \<Rightarrow> put h (CPosition (pos\<lparr>po_x := pr_target_x proj, po_y := pr_target_y proj\<rparr>)) w);
          w2 = (if pr_aoe_radius proj = 0 then each_participant order (impact_hit order proj) w1
                else for_each order TPosition
                  (\<lambda>th c w. case c of CPosition pos \<Rightarrow> area_hit frame proj th pos w | _ \<Rightarrow> w) w1)
      in put h (CProjectile (proj\<lparr>pr_active := False\<rparr>)) w2)"

definition fly_projectile ::
  "visit_order \<Rightarrow> (projectile \<Rightarrow> int \<times> int) \<Rightarrow> nat \<Rightarrow> entity_handle \<Rightarrow> projectile \<Rightarrow> ecs \<Rightarrow> ecs" where
  "fly_projectile order lerp frame h proj0 w0 =
     (if \<not> pr_active proj0 then w0
      else
       (let proj = proj0\<lparr>pr_current_frame := u32_add (pr_current_frame proj0) 1\<rparr>;
            w = put h (CProjectile proj) w0;
            total = \<bar>pr_target_x proj - pr_start_x proj\<bar> + \<bar>pr_target_y proj - pr_start_y proj\<bar>
        in case get_position h w of
             Some pos \<Rightarrow>
               if pr_aoe_radius proj = 0 \<and> pr_target_user_id proj = [] then fly_free order h proj pos w
               else if total = 0 \<or> int (pr_current_frame proj) * pr_speed proj \<ge> total
               then strike_target order frame h proj w
               else (case lerp proj of (x, y) \<Rightarrow> put h (CPosition (pos\<lparr>po_x := x, po_y := y\<rparr>)) w)
           | None \<Rightarrow>
               if total = 0 \<or> int (pr_current_frame proj) * pr_speed proj \<ge> total
               then strike_target order frame h proj w else w))"

definition overlay_tick ::
  "nat \<Rightarrow> entity_handle \<Rightarrow> damage_overlay \<Rightarrow> ecs \<times> entity_handle list \<Rightarrow> ecs \<times> entity_handle list" where
  "overlay_tick frame h dot s =
     (if do_remaining_ticks dot = 0 then (fst s, snd s @ [h])
      else if u32_sub frame (do_last_applied_frame dot) \<ge> do_interval_frames dot
      then (let w1 = (case get_health h (fst s) of None \<Rightarrow> fst s
                      | Some he \<Rightarrow> put h (CHealth (he\<lparr>he_hp := max 0 (he_hp he - do_damage_per_tick dot)\<rparr>)) (fst s))
            in (put h (CDamageOverlay (dot\<lparr>do_remaining_ticks := do_remaining_ticks dot - 1,
                                          do_last_applied_frame := frame\<rparr>)) w1, snd s))
      else s)"

definition projectile_system :: "frame_ctx \<Rightarrow> battle_world \<Rightarrow> battle_world" where
  "projectile_system ctx b =
     (let order = bw_order b; frame = fc_frame_number ctx;
          w1 = for_each order TProjectile
                 (\<lambda>h c w. case c of CProjectile p \<Rightarrow> fly_projectile order (be_lerp (bw_env b)) frame h p w | _ \<Rightarrow> w)
                 (bw_ecs b)
      in case for_each_acc order TDamageOverlay
             (\<lambda>h c s. case c of CDamageOverlay d \<Rightarrow> overlay_tick frame h d s | _ \<Rightarrow> s) (w1, []) of
           (w2, expired) \<Rightarrow>
             b\<lparr>bw_ecs := fold (\<lambda>h w. snd (remove_component_erased h TDamageOverlay w)) expired w2\<rparr>)"

subsection \<open>Area of interest\<close>

definition kViewRadius :: int where "kViewRadius = 100"

definition new_aoi_grid :: spatial_grid where
  "new_aoi_grid = new_spatial_grid 1000 1000 100"

definition view_neighbours :: "spatial_grid \<Rightarrow> entity_handle \<Rightarrow> battle_participant \<Rightarrow> ecs \<Rightarrow> ecs" where
  "view_neighbours grid h p w =
     (if \<not> bp_online p then w
      else case get_position h w of
        None \<Rightarrow> w
      | Some pos \<Rightarrow>
         (let visible = grid_query (po_x pos) (po_y pos) kViewRadius grid
          in add_component h TAoiView
               (CAoiView \<lparr>av_visible_entities = visible, av_visible_count = length visible\<rparr>) w))"

definition aoi_system :: "frame_ctx \<Rightarrow> battle_world \<Rightarrow> battle_world" where
  "aoi_system ctx b =
     (let grid = fold (\<lambda>(h, c). case c of CPosition q \<Rightarrow> grid_add (eh_id h) (po_x q) (po_y q) | _ \<Rightarrow> id)
                   (visited (bw_order b) TPosition (bw_ecs b)) (grid_clear (bw_aoi_grid b))
      in b\<lparr>bw_aoi_grid := grid, bw_ecs := each_participant (bw_order b) (view_neighbours grid) (bw_ecs b)\<rparr>)"

subsection \<open>Creating and ticking the world\<close>

definition battle_systems :: "frame_ctx \<Rightarrow> battle_world system_entry list" where
  "battle_systems ctx =
    [\<lparr>se_metadata = \<lparr>sm_name = ''BattleClockSystem'', sm_dependencies = []\<rparr>, se_run = completing (clock_system ctx)\<rparr>,
     \<lparr>se_metadata = \<lparr>sm_name = ''BattleInputSystem'', sm_dependencies = []\<rparr>, se_run = completing (input_system ctx)\<rparr>,
     \<lparr>se_metadata = \<lparr>sm_name = ''MovementSystem'', sm_dependencies = [''BattleInputSystem'']\<rparr>,
        se_run = completing (movement_system ctx)\<rparr>,
     \<lparr>se_metadata = \<lparr>sm_name = ''BattleLifecycleSystem'', sm_dependencies = [''BattleClockSystem'']\<rparr>,
        se_run = completing (lifecycle_run ctx)\<rparr>,
     \<lparr>se_metadata = \<lparr>sm_name = ''CombatSystem'', sm_dependencies = [''MovementSystem'', ''BattleInputSystem'']\<rparr>,
        se_run = completing (combat_system ctx)\<rparr>,
     \<lparr>se_metadata = \<lparr>sm_name = ''AoiSystem'', sm_dependencies = [''MovementSystem'']\<rparr>,
        se_run = completing (aoi_system ctx)\<rparr>,
     \<lparr>se_metadata = \<lparr>sm_name = ''ProjectileSystem'', sm_dependencies = [''CombatSystem'']\<rparr>,
        se_run = completing (projectile_system ctx)\<rparr>,
     \<lparr>se_metadata = \<lparr>sm_name = ''BattleReplaySystem'',
                     sm_dependencies = [''BattleLifecycleSystem'', ''CombatSystem'', ''AoiSystem'', ''ProjectileSystem'']\<rparr>,
        se_run = completing (replay_system ctx)\<rparr>]"

definition battle_executor :: "frame_ctx \<Rightarrow> battle_world parallel_executor" where
  "battle_executor ctx = fold executor_add_system (battle_systems ctx) new_parallel_executor"

definition world_tick :: "frame_ctx \<Rightarrow> battle_world \<Rightarrow> battle_world option" where
  "world_tick ctx b = map_option (\<lambda>r. snd (snd r)) (execute_all (be_sched (bw_env b)) (battle_executor ctx) b)"

definition add_player :: "battle_env \<Rightarrow> string \<Rightarrow> nat \<times> string \<Rightarrow> ecs \<Rightarrow> ecs" where
  "add_player env battle_id = (\<lambda>(index, user_id) w.
     case create_entity w of (entity, w1) \<Rightarrow>
       (case spawn_position_for env battle_id index of (x, y) \<Rightarrow>
          add_component entity TCooldown (CCooldown default_cooldown)
          (add_component entity TAttack (CAttack default_attack)
          (add_component entity THealth (CHealth default_health)
          (add_component entity TPosition (CPosition \<lparr>po_x = x, po_y = y\<rparr>)
          (add_component entity TParticipant (CParticipant (new_participant user_id)) w1))))))"

definition create_battle_world ::
  "battle_env \<Rightarrow> string \<Rightarrow> string \<Rightarrow> string list \<Rightarrow> nat \<Rightarrow> battle_world" where
  "create_battle_world env battle_id room_id player_ids max_frames =
     (case create_entity new_simple_world of (clock_entity, w0) \<Rightarrow>
       (let w1 = add_component clock_entity TMetadata (CMetadata
                   \<lparr>bm_battle_id = battle_id, bm_room_id = room_id, bm_lifecycle = BattleRunning,
                    bm_next_input_seq = 1, bm_max_frames = max_frames, bm_current_frame_number = 0\<rparr>)
                 (add_component clock_entity TClock (CClock \<lparr>ck_frame_number = 0, ck_last_trigger = []\<rparr>) w0)
        in case create_entity w1 of (replay_entity, w2) \<Rightarrow>
          (let w3 = add_component replay_entity TReplayLog
                      (CReplayLog \<lparr>rl_replay_inputs = [], rl_frame_snapshots = []\<rparr>) w2
           in \<lparr>bw_ecs = fold (add_player env battle_id) (enumerate 0 player_ids) w3,
               bw_lifecycle_system = new_lifecycle_system, bw_aoi_grid = new_aoi_grid, bw_env = env\<rparr>)))"

subsection \<open>Reading and writing the battle state\<close>

definition battle_world_set_lifecycle :: "battle_lifecycle \<Rightarrow> battle_world \<Rightarrow> battle_world" where
  "battle_world_set_lifecycle l b =
     b\<lparr>bw_ecs := update_metadata (bw_order b) (\<lambda>m. m\<lparr>bm_lifecycle := l\<rparr>) (bw_ecs b)\<rparr>"

definition last_metadata :: "battle_world \<Rightarrow> battle_metadata option" where
  "last_metadata b = map_option snd (last_opt (metadata_in (bw_order b) (bw_ecs b)))"

definition battle_world_battle_id :: "battle_world \<Rightarrow> string" where
  "battle_world_battle_id b = (case last_metadata b of None \<Rightarrow> [] | Some m \<Rightarrow> bm_battle_id m)"

definition battle_world_room_id :: "battle_world \<Rightarrow> string" where
  "battle_world_room_id b = (case last_metadata b of None \<Rightarrow> [] | Some m \<Rightarrow> bm_room_id m)"

definition battle_world_lifecycle :: "battle_world \<Rightarrow> battle_lifecycle" where
  "battle_world_lifecycle b = (case last_metadata b of None \<Rightarrow> BattleCreated | Some m \<Rightarrow> bm_lifecycle m)"

definition battle_world_frame_number :: "battle_world \<Rightarrow> nat" where
  "battle_world_frame_number b = (case last_metadata b of None \<Rightarrow> 0 | Some m \<Rightarrow> bm_current_frame_number m)"

record battle_participant_state =
  bs_user_id :: string
  bs_online :: bool

definition battle_world_participants :: "battle_world \<Rightarrow> battle_participant_state list" where
  "battle_world_participants b =
     map (\<lambda>(h, p). \<lparr>bs_user_id = bp_user_id p, bs_online = bp_online p\<rparr>)
       (sort_key (\<lambda>hp. eh_id (fst hp)) (participants_in (bw_order b) (bw_ecs b)))"

definition for_user :: "string \<Rightarrow> (battle_participant \<Rightarrow> battle_participant) \<Rightarrow> battle_world \<Rightarrow> battle_world" where
  "for_user user_id f b =
     b\<lparr>bw_ecs := update_participants (bw_order b) (\<lambda>p. if bp_user_id p = user_id then f p else p) (bw_ecs b)\<rparr>"

definition battle_world_apply_input_score :: "string \<Rightarrow> int \<Rightarrow> battle_world \<Rightarrow> battle_world" where
  "battle_world_apply_input_score user_id score = for_user user_id (\<lambda>p. p\<lparr>bp_score := bp_score p + score\<rparr>)"

definition battle_world_mark_offline :: "string \<Rightarrow> battle_world \<Rightarrow> bool \<times> battle_world" where
  "battle_world_mark_offline user_id b =
     (\<exists>p\<in>snd ` set (participants_in (bw_order b) (bw_ecs b)). bp_user_id p = user_id \<and> bp_online p,
      for_user user_id (\<lambda>p. p\<lparr>bp_online := False\<rparr>) b)"

definition battle_world_set_online :: "string \<Rightarrow> battle_world \<Rightarrow> battle_world" where
  "battle_world_set_online user_id = for_user user_id (\<lambda>p. p\<lparr>bp_online := True\<rparr>)"

definition battle_world_should_accept_input :: "string \<Rightarrow> nat \<Rightarrow> battle_world \<Rightarrow> bool" where
  "battle_world_should_accept_input user_id submitted_frame b =
     (submitted_frame = 0 \<or>
      (\<forall>p\<in>snd ` set (participants_in (bw_order b) (bw_ecs b)).
         \<not> (bp_user_id p = user_id \<and> bp_last_submitted_frame p \<ge> submitted_frame)))"

definition battle_world_record_submitted_frame :: "string \<Rightarrow> nat \<Rightarrow> battle_world \<Rightarrow> battle_world" where
  "battle_world_record_submitted_frame user_id f = for_user user_id (\<lambda>p. p\<lparr>bp_last_submitted_frame := f\<rparr>)"

definition battle_world_record_frame_ack :: "string \<Rightarrow> nat \<Rightarrow> battle_world \<Rightarrow> battle_world" where
  "battle_world_record_frame_ack user_id f = for_user user_id (\<lambda>p. p\<lparr>bp_last_acked_frame := f\<rparr>)"

definition battle_world_tick :: "frame_ctx \<Rightarrow> battle_world \<Rightarrow> nat \<times> battle_world" where
  "battle_world_tick ctx b =
     (let b1 = (case world_tick ctx b of Some b1 \<Rightarrow> b1 | None \<Rightarrow> b)
      in (case last_opt (clocks_in (bw_order b1) (bw_ecs b1)) of None \<Rightarrow> 0 | Some (h, c) \<Rightarrow> ck_frame_number c, b1))"

definition battle_world_append_replay_input ::
  "nat \<Rightarrow> string \<Rightarrow> string \<Rightarrow> int \<Rightarrow> battle_world \<Rightarrow> nat \<times> battle_world" where
  "battle_world_append_replay_input frame_number user_id input_data score b =
     (let seq = (case last_metadata b of None \<Rightarrow> 0 | Some m \<Rightarrow> bm_next_input_seq m);
          w1 = update_metadata (bw_order b) (\<lambda>m. m\<lparr>bm_next_input_seq := u64_add (bm_next_input_seq m) 1\<rparr>) (bw_ecs b);
          w2 = update_replay_log (bw_order b)
                 (\<lambda>r. r\<lparr>rl_replay_inputs := rl_replay_inputs r @
                    [\<lparr>ri_input_seq = seq, ri_frame_number = frame_number, ri_user_id = user_id,
                      ri_input_data = input_data, ri_score = score, ri_trigger = []\<rparr>]\<rparr>) w1
      in (seq, b\<lparr>bw_ecs := w2\<rparr>))"

definition battle_world_apply_trigger_to_frame :: "nat \<Rightarrow> string \<Rightarrow> battle_world \<Rightarrow> battle_world" where
  "battle_world_apply_trigger_to_frame frame_number trigger b =
     b\<lparr>bw_ecs := update_replay_log (bw_order b)
        (\<lambda>r. r\<lparr>rl_replay_inputs := map (\<lambda>i. if ri_frame_number i = frame_number then i\<lparr>ri_trigger := trigger\<rparr> else i)
                 (rl_replay_inputs r)\<rparr>) (bw_ecs b)\<rparr>"

definition last_replay_log :: "battle_world \<Rightarrow> replay_log option" where
  "last_replay_log b = map_option snd (last_opt (replay_logs_in (bw_order b) (bw_ecs b)))"

definition battle_world_collect_replay_inputs :: "battle_world \<Rightarrow> replay_input list" where
  "battle_world_collect_replay_inputs b = (case last_replay_log b of None \<Rightarrow> [] | Some r \<Rightarrow> rl_replay_inputs r)"

definition battle_world_collect_frame_snapshots :: "battle_world \<Rightarrow> replay_frame list" where
  "battle_world_collect_frame_snapshots b = (case last_replay_log b of None \<Rightarrow> [] | Some r \<Rightarrow> rl_frame_snapshots r)"

record battle_score =
  sc_user_id :: string
  sc_score :: int

definition battle_world_collect_scores :: "battle_participant_state list \<Rightarrow> battle_world \<Rightarrow> battle_score list" where
  "battle_world_collect_scores participants b =
     (let scores = fold (\<lambda>(h, p) m. m(bp_user_id p \<mapsto> bp_score p)) (participants_in (bw_order b) (bw_ecs b)) Map.empty
      in map (\<lambda>s. \<lparr>sc_user_id = bs_user_id s,
                   sc_score = (case scores (bs_user_id s) of None \<Rightarrow> 0 | Some v \<Rightarrow> v)\<rparr>) participants)"

datatype battle_finish_reason =
    FinFinished | FinSurrender | FinTimeout | FinFrameLimitReached | FinPlayerDisconnected | FinUserRequested

record battle_result_summary =
  br_battle_id :: string
  br_room_id :: string
  br_reason :: battle_finish_reason
  br_winner_user_id :: "string option"
  br_scores :: "battle_score list"
  br_total_frames :: nat

text \<open>The winner is the first participant with the highest score.\<close>

fun best_score :: "(int \<times> string) option \<Rightarrow> battle_score list \<Rightarrow> (int \<times> string) option" where
  "best_score best [] = best"
| "best_score best (s # ss) =
     best_score (case best of
                   None \<Rightarrow> Some (sc_score s, sc_user_id s)
                 | Some (high, _) \<Rightarrow> if sc_score s > high then Some (sc_score s, sc_user_id s) else best) ss"

definition battle_world_build_result_summary ::
  "string \<Rightarrow> string \<Rightarrow> battle_participant_state list \<Rightarrow> battle_finish_reason \<Rightarrow> nat \<Rightarrow> battle_world \<Rightarrow>
     battle_result_summary" where
  "battle_world_build_result_summary battle_id room_id participants reason total_frames b =
     (let scores = battle_world_collect_scores participants b
      in \<lparr>br_battle_id = battle_id, br_room_id = room_id, br_reason = reason,
          br_winner_user_id = map_option snd (best_score None scores), br_scores = scores,
          br_total_frames = total_frames\<rparr>)"

definition battle_world_should_finish_for_frame_limit :: "nat \<Rightarrow> battle_world \<Rightarrow> bool" where
  "battle_world_should_finish_for_frame_limit frame_number b =
     (case last_metadata b of None \<Rightarrow> False | Some m \<Rightarrow> bm_max_frames m > 0 \<and> frame_number \<ge> bm_max_frames m)"

record world_participant_state =
  wp_user_id :: string
  wp_online :: bool
  wp_score :: int
  wp_last_submitted_frame :: nat
  wp_last_acked_frame :: nat
  wp_pos_x :: int
  wp_pos_y :: int
  wp_facing_dx :: int
  wp_facing_dy :: int
  wp_hp :: int
  wp_max_hp :: int
  wp_damage :: int

record world_projectile_state =
  wj_projectile_id :: string
  wj_owner_user_id :: string
  wj_pos_x :: int
  wj_pos_y :: int
  wj_dir_x :: int
  wj_dir_y :: int
  wj_active :: bool

record battle_world_snap =
  ws_frame_number :: nat
  ws_last_trigger :: string
  ws_participants :: "world_participant_state list"
  ws_projectiles :: "world_projectile_state list"

definition world_participant_of :: "ecs \<Rightarrow> entity_handle \<Rightarrow> battle_participant \<Rightarrow> world_participant_state" where
  "world_participant_of w h p =
     \<lparr>wp_user_id = bp_user_id p, wp_online = bp_online p, wp_score = bp_score p,
      wp_last_submitted_frame = bp_last_submitted_frame p, wp_last_acked_frame = bp_last_acked_frame p,
      wp_pos_x = (case get_position h w of Some q \<Rightarrow> po_x q | None \<Rightarrow> 0),
      wp_pos_y = (case get_position h w of Some q \<Rightarrow> po_y q | None \<Rightarrow> 0),
      wp_facing_dx = bp_facing_dx p, wp_facing_dy = bp_facing_dy p,
      wp_hp = (case get_health h w of Some q \<Rightarrow> he_hp q | None \<Rightarrow> 100),
      wp_max_hp = (case get_health h w of Some q \<Rightarrow> he_max_hp q | None \<Rightarrow> 100),
      wp_damage = (case get_attack h w of Some q \<Rightarrow> at_damage q | None \<Rightarrow> 10)\<rparr>"

definition world_projectile_of :: "ecs \<Rightarrow> entity_handle \<Rightarrow> projectile \<Rightarrow> world_projectile_state" where
  "world_projectile_of w h q =
     \<lparr>wj_projectile_id = pr_projectile_id q, wj_owner_user_id = pr_owner_user_id q,
      wj_pos_x = (case get_position h w of Some p \<Rightarrow> po_x p | None \<Rightarrow> 0),
      wj_pos_y = (case get_position h w of Some p \<Rightarrow> po_y p | None \<Rightarrow> 0),
      wj_dir_x = pr_dir_x q, wj_dir_y = pr_dir_y q, wj_active = pr_active q\<rparr>"

definition battle_world_snapshot :: "battle_world \<Rightarrow> battle_world_snap" where
  "battle_world_snapshot b =
     (let w = bw_ecs b; clock = last_opt (clocks_in (bw_order b) w)
      in \<lparr>ws_frame_number = (case clock of None \<Rightarrow> 0 | Some (h, c) \<Rightarrow> ck_frame_number c),
          ws_last_trigger = (case clock of None \<Rightarrow> [] | Some (h, c) \<Rightarrow> ck_last_trigger c),
          ws_participants = map (\<lambda>(h, p). world_participant_of w h p)
            (sort_key (\<lambda>hp. eh_id (fst hp)) (participants_in (bw_order b) w)),
          ws_projectiles = map (\<lambda>(h, p). world_projectile_of w h p)
            (sort_key (\<lambda>hp. eh_id (fst hp)) (filter (\<lambda>(h, p). pr_active p) (projectiles_in (bw_order b) w)))\<rparr>)"

record battle_runtime_state =
  rt_battle_id :: string
  rt_room_id :: string
  rt_lifecycle :: battle_lifecycle
  rt_participants :: "battle_participant_state list"
  rt_frame_number :: nat
  rt_replay_inputs :: "replay_input list"

definition battle_world_runtime_state :: "battle_world \<Rightarrow> battle_runtime_state" where
  "battle_world_runtime_state b =
     \<lparr>rt_battle_id = battle_world_battle_id b, rt_room_id = battle_world_room_id b,
      rt_lifecycle = battle_world_lifecycle b, rt_participants = battle_world_participants b,
      rt_frame_number = battle_world_frame_number b, rt_replay_inputs = battle_world_collect_replay_inputs b\<rparr>"

subsection \<open>Authoritative entry points\<close>

record world_input_result =
  wi_accepted :: bool
  wi_reject_reason :: string
  wi_input_seq :: nat

record world_frame_result =
  wf_frame_number :: nat
  wf_trigger :: string
  wf_should_finish :: bool
  wf_finish_reason :: battle_finish_reason

definition battle_world_process_input ::
  "string \<Rightarrow> string \<Rightarrow> int \<Rightarrow> nat \<Rightarrow> battle_world \<Rightarrow> world_input_result \<times> battle_world" where
  "battle_world_process_input user_id input_data score submitted_frame b =
     (if battle_world_lifecycle b \<noteq> BattleRunning
      then (\<lparr>wi_accepted = False, wi_reject_reason = ''battle_not_running'', wi_input_seq = 0\<rparr>, b)
      else if \<not> battle_world_should_accept_input user_id submitted_frame b
      then (\<lparr>wi_accepted = False, wi_reject_reason = ''duplicate_frame'', wi_input_seq = 0\<rparr>, b)
      else
       (let b1 = (if submitted_frame > 0 then battle_world_record_submitted_frame user_id submitted_frame b else b);
            b2 = battle_world_apply_input_score user_id score b1;
            b3 = for_user user_id (\<lambda>p. p\<lparr>bp_pending_input_data := input_data\<rparr>) b2;
            nextf = u32_add (battle_world_frame_number b3) 1
        in case battle_world_append_replay_input nextf user_id input_data score b3 of (seq, b4) \<Rightarrow>
             (\<lparr>wi_accepted = True, wi_reject_reason = [], wi_input_seq = seq\<rparr>, b4)))"

definition battle_world_advance_frame :: "nat \<Rightarrow> string \<Rightarrow> battle_world \<Rightarrow> world_frame_result \<times> battle_world" where
  "battle_world_advance_frame next_frame trigger b =
     (case battle_world_tick \<lparr>fc_frame_number = next_frame, fc_trigger = trigger\<rparr> b of (frame_number, b1) \<Rightarrow>
       (let b2 = battle_world_apply_trigger_to_frame frame_number trigger b1;
            limit = battle_world_should_finish_for_frame_limit frame_number b2
        in (\<lparr>wf_frame_number = frame_number, wf_trigger = trigger, wf_should_finish = limit,
             wf_finish_reason = (if limit then FinFrameLimitReached else FinFinished)\<rparr>, b2)))"

definition battle_world_handle_disconnect :: "string \<Rightarrow> battle_world \<Rightarrow> (bool \<times> bool) \<times> battle_world" where
  "battle_world_handle_disconnect user_id b =
     (if battle_world_lifecycle b \<noteq> BattleRunning then ((False, False), b)
      else case battle_world_mark_offline user_id b of (existed, b1) \<Rightarrow> ((existed, existed), b1))"

end
