(* ===== verification/Battle_Invariants.thy ===== *)
theory Battle_Invariants
  imports Battle_World
begin

text \<open>
  What every frame of a battle keeps: the entity system stays well-typed, every participant has
  a position on the field and a health between zero and its maximum, and no participant moves
  farther than the speed limit in one frame.
\<close>

subsection \<open>The invariant of the entities\<close>

definition on_field :: "position \<Rightarrow> bool" where
  "on_field q \<longleftrightarrow> 0 \<le> po_x q \<and> po_x q \<le> kMaxX \<and> 0 \<le> po_y q \<and> po_y q \<le> kMaxY"

definition health_ok :: "health \<Rightarrow> bool" where
  "health_ok he \<longleftrightarrow> 0 \<le> he_hp he \<and> he_hp he \<le> he_max_hp he \<and> he_max_hp he = 100"

definition ecs_inv :: "ecs \<Rightarrow> bool" where
  "ecs_inv w \<longleftrightarrow> world_ok btype_of w \<and>
     (\<forall>i c. comp_at w TParticipant i = Some c \<longrightarrow>
        (\<exists>q. comp_at w TPosition i = Some (CPosition q) \<and> on_field q) \<and>
        (\<exists>he. comp_at w THealth i = Some (CHealth he) \<and> health_ok he)) \<and>
     (\<forall>i he. comp_at w THealth i = Some (CHealth he) \<longrightarrow> health_ok he) \<and>
     (\<forall>i q. comp_at w TProjectile i = Some (CProjectile q) \<longrightarrow>
        0 \<le> pr_damage q \<and> comp_at w TParticipant i = None) \<and>
     (\<forall>i d. comp_at w TDamageOverlay i = Some (CDamageOverlay d) \<longrightarrow> 0 \<le> do_damage_per_tick d)"

lemma ecs_inv_ok: "ecs_inv w \<Longrightarrow> world_ok btype_of w"
  by (simp add: ecs_inv_def)

lemma ecs_inv_participant:
  assumes "ecs_inv w" and "comp_at w TParticipant i \<noteq> None"
  obtains q he where "comp_at w TPosition i = Some (CPosition q)" "on_field q"
    "comp_at w THealth i = Some (CHealth he)" "health_ok he"
  using assms unfolding ecs_inv_def by blast

lemma comp_typed:
  assumes "ecs_inv w" and "comp_at w k i = Some c"
  shows "btype_of c = k" and "sw_entity_storage w i \<noteq> None"
  using world_ok_alive[OF ecs_inv_ok[OF assms(1)] assms(2)] by auto

lemma btype_of_inverts:
  "btype_of c = TParticipant \<longleftrightarrow> (\<exists>p. c = CParticipant p)"
  "btype_of c = TMetadata \<longleftrightarrow> (\<exists>m. c = CMetadata m)"
  "btype_of c = TPosition \<longleftrightarrow> (\<exists>q. c = CPosition q)"
  "btype_of c = THealth \<longleftrightarrow> (\<exists>h. c = CHealth h)"
  "btype_of c = TCooldown \<longleftrightarrow> (\<exists>m. c = CCooldown m)"
  "btype_of c = TProjectile \<longleftrightarrow> (\<exists>m. c = CProjectile m)"
  "btype_of c = TDamageOverlay \<longleftrightarrow> (\<exists>m. c = CDamageOverlay m)"
  "btype_of c = TReplayLog \<longleftrightarrow> (\<exists>m. c = CReplayLog m)"
  "btype_of c = TClock \<longleftrightarrow> (\<exists>m. c = CClock m)"
  by (cases c; simp)+

lemma comp_at_put:
  "comp_at (put h c w) k i = (if k = btype_of c \<and> i = eh_id h then Some c else comp_at w k i)"
  by (auto simp: put_def comp_at_set)

lemma put_frame [simp]:
  "sw_entity_storage (put h c w) = sw_entity_storage w"
  "sw_next_entity_id (put h c w) = sw_next_entity_id w"
  "entity_exists h' (put h c w) = entity_exists h' w"
  "handle_of (put h c w) i = handle_of w i"
  by (simp_all add: put_def)

lemma world_ok_put:
  "world_ok btype_of w \<Longrightarrow> sw_entity_storage w (eh_id h) \<noteq> None \<Longrightarrow> world_ok btype_of (put h c w)"
  unfolding put_def by (rule world_ok_set)

text \<open>One rule per component type: what may be written without breaking the invariant.\<close>

lemma ecs_inv_put:
  assumes inv: "ecs_inv w" and alive: "sw_entity_storage w (eh_id h) \<noteq> None"
    and ok: "\<And>p. c = CParticipant p \<Longrightarrow> comp_at w TParticipant (eh_id h) \<noteq> None"
      "\<And>q. c = CPosition q \<Longrightarrow> comp_at w TParticipant (eh_id h) \<noteq> None \<Longrightarrow> on_field q"
      "\<And>he. c = CHealth he \<Longrightarrow> health_ok he"
      "\<And>q. c = CProjectile q \<Longrightarrow> 0 \<le> pr_damage q \<and> comp_at w TParticipant (eh_id h) = None"
      "\<And>d. c = CDamageOverlay d \<Longrightarrow> 0 \<le> do_damage_per_tick d"
  shows "ecs_inv (put h c w)"
proof (unfold ecs_inv_def, intro conjI allI impI)
  show "world_ok btype_of (put h c w)" by (rule world_ok_put[OF ecs_inv_ok[OF inv] alive])
  have part: "comp_at w TParticipant i \<noteq> None" if "comp_at (put h c w) TParticipant i = Some c'" for i c'
    using that ok(1) by (cases c) (auto simp: comp_at_put split: if_splits)
  fix i c'
  assume c': "comp_at (put h c w) TParticipant i = Some c'"
  from part[OF c'] obtain q he where old: "comp_at w TPosition i = Some (CPosition q)" "on_field q"
    "comp_at w THealth i = Some (CHealth he)" "health_ok he"
    using ecs_inv_participant[OF inv] by blast
  show "\<exists>q. comp_at (put h c w) TPosition i = Some (CPosition q) \<and> on_field q"
    using old(1,2) ok(2) part[OF c'] by (cases c) (auto simp: comp_at_put)
  show "\<exists>he. comp_at (put h c w) THealth i = Some (CHealth he) \<and> health_ok he"
    using old(3,4) ok(3) by (cases c) (auto simp: comp_at_put)
next
  fix i he assume "comp_at (put h c w) THealth i = Some (CHealth he)"
  then show "health_ok he" using inv ok(3) by (auto simp: comp_at_put ecs_inv_def split: if_splits)
next
  fix i q assume q: "comp_at (put h c w) TProjectile i = Some (CProjectile q)"
  then show "0 \<le> pr_damage q" using inv ok(4) by (auto simp: comp_at_put ecs_inv_def split: if_splits)
  show "comp_at (put h c w) TParticipant i = None"
  proof (cases "c = CProjectile q \<and> i = eh_id h")
    case True
    with ok(4) show ?thesis by (simp add: comp_at_put)
  next
    case False
    with q inv have "comp_at w TProjectile i = Some (CProjectile q)" "comp_at w TParticipant i = None"
      by (auto simp: comp_at_put ecs_inv_def split: if_splits)
    with ok(1) show ?thesis by (cases c) (auto simp: comp_at_put)
  qed
next
  fix i d assume "comp_at (put h c w) TDamageOverlay i = Some (CDamageOverlay d)"
  then show "0 \<le> do_damage_per_tick d" using inv ok(5) by (auto simp: comp_at_put ecs_inv_def split: if_splits)
qed

lemma ecs_inv_put_plain:
  assumes "ecs_inv w" and "sw_entity_storage w (eh_id h) \<noteq> None"
    and "btype_of c \<in> {TClock, TMetadata, TReplayLog, TAttack, TCooldown, TAoiView}"
  shows "ecs_inv (put h c w)"
  by (rule ecs_inv_put) (use assms in auto)

lemma ecs_inv_put_participant:
  "ecs_inv w \<Longrightarrow> comp_at w TParticipant (eh_id h) = Some c \<Longrightarrow> ecs_inv (put h (CParticipant p) w)"
  by (rule ecs_inv_put) (auto dest: comp_typed(2))

lemma ecs_inv_put_health:
  "ecs_inv w \<Longrightarrow> sw_entity_storage w (eh_id h) \<noteq> None \<Longrightarrow> health_ok he \<Longrightarrow> ecs_inv (put h (CHealth he) w)"
  by (rule ecs_inv_put) auto

lemma ecs_inv_remove:
  assumes "ecs_inv w" and "k = TProjectile \<or> k = TDamageOverlay"
  shows "ecs_inv (snd (remove_component_erased h k w))"
  using world_ok_remove[OF ecs_inv_ok[OF assms(1)], of h k] assms
  unfolding ecs_inv_def comp_at_remove by (auto split: if_splits)

lemma get_component_comp:
  "get_component_erased h k w = Some c \<Longrightarrow> comp_at w k (eh_id h) = Some c \<and> entity_exists h w"
  by (auto simp: get_component_erased_def split: if_splits)

lemma get_comp:
  "get_position h w = Some q \<Longrightarrow> comp_at w TPosition (eh_id h) = Some (CPosition q) \<and> entity_exists h w"
  "get_health h w = Some he \<Longrightarrow> comp_at w THealth (eh_id h) = Some (CHealth he) \<and> entity_exists h w"
  "get_cooldown h w = Some co \<Longrightarrow> comp_at w TCooldown (eh_id h) = Some (CCooldown co) \<and> entity_exists h w"
  by (auto simp: get_position_def get_health_def get_cooldown_def dest: get_component_comp
      split: option.splits bcomp.splits)

lemma ecs_inv_damage:
  assumes "ecs_inv w" and "get_health h w = Some he" and "0 \<le> d"
  shows "ecs_inv (put h (CHealth (he\<lparr>he_hp := max 0 (he_hp he - d)\<rparr>)) w)"
proof (rule ecs_inv_put_health[OF assms(1)])
  show "sw_entity_storage w (eh_id h) \<noteq> None"
    using get_comp(2)[OF assms(2)] entity_exists_storage by blast
  have "health_ok he" using assms(1) get_comp(2)[OF assms(2)] by (auto simp: ecs_inv_def)
  then show "health_ok (he\<lparr>he_hp := max 0 (he_hp he - d)\<rparr>)"
    using assms(3) by (auto simp: health_ok_def)
qed

subsection \<open>What the systems keep of the bodies\<close>

definition pending_fires :: "ecs \<Rightarrow> nat" where
  "pending_fires w = card {i. \<exists>p. comp_at w TParticipant i = Some (CParticipant p) \<and> bp_has_pending_fire p}"

text \<open>There are entity numbers left for every pending shot.\<close>

definition room_for_shots :: "ecs \<Rightarrow> bool" where
  "room_for_shots w \<longleftrightarrow> Suc (sw_next_entity_id w + pending_fires w) < 2 ^ 32"

definition keeps_bodies :: "ecs \<Rightarrow> ecs \<Rightarrow> bool" where
  "keeps_bodies w0 w \<longleftrightarrow> ecs_inv w \<and>
     (\<forall>i. comp_at w TParticipant i = None \<longleftrightarrow> comp_at w0 TParticipant i = None) \<and>
     (\<forall>i. comp_at w0 TParticipant i \<noteq> None \<longrightarrow> comp_at w TPosition i = comp_at w0 TPosition i) \<and>
     (\<forall>i. sw_entity_storage w0 i \<noteq> None \<longrightarrow> sw_entity_storage w i \<noteq> None)"

lemma keeps_bodies_refl: "ecs_inv w \<Longrightarrow> keeps_bodies w w"
  by (simp add: keeps_bodies_def)

lemma keeps_bodies_trans: "keeps_bodies w0 w1 \<Longrightarrow> keeps_bodies w1 w2 \<Longrightarrow> keeps_bodies w0 w2"
  by (simp add: keeps_bodies_def)

lemma keeps_bodies_inv: "keeps_bodies w0 w \<Longrightarrow> ecs_inv w"
  by (simp add: keeps_bodies_def)

lemma keeps_bodies_put:
  assumes "keeps_bodies w0 w" and "ecs_inv (put h c w)"
    and "btype_of c = TParticipant \<Longrightarrow> comp_at w TParticipant (eh_id h) \<noteq> None"
    and "btype_of c = TPosition \<Longrightarrow> comp_at w TParticipant (eh_id h) = None"
  shows "keeps_bodies w0 (put h c w)"
  using assms unfolding keeps_bodies_def comp_at_put by auto

lemma keeps_bodies_put_plain:
  assumes "keeps_bodies w0 w" and "sw_entity_storage w (eh_id h) \<noteq> None"
    and "btype_of c \<in> {TClock, TMetadata, TReplayLog, TAttack, TCooldown, TAoiView}"
  shows "keeps_bodies w0 (put h c w)"
  by (rule keeps_bodies_put[OF assms(1) ecs_inv_put_plain[OF keeps_bodies_inv[OF assms(1)] assms(2,3)]])
    (use assms(3) in auto)

lemma keeps_bodies_put_participant:
  assumes "keeps_bodies w0 w" and "comp_at w TParticipant (eh_id h) = Some c"
  shows "keeps_bodies w0 (put h (CParticipant p) w)"
  by (rule keeps_bodies_put[OF assms(1) ecs_inv_put_participant[OF keeps_bodies_inv[OF assms(1)] assms(2)]])
    (use assms(2) in simp_all)

lemma keeps_bodies_remove:
  assumes "keeps_bodies w0 w" and "k = TProjectile \<or> k = TDamageOverlay"
  shows "keeps_bodies w0 (snd (remove_component_erased h k w))"
  using assms ecs_inv_remove[OF keeps_bodies_inv[OF assms(1)] assms(2), of h]
  unfolding keeps_bodies_def comp_at_remove by (auto simp: remove_component_erased_def)

lemma keeps_bodies_remove_all:
  assumes "keeps_bodies w0 w" and "k = TProjectile \<or> k = TDamageOverlay"
  shows "keeps_bodies w0 (fold (\<lambda>h w. snd (remove_component_erased h k w)) hs w)"
  using assms by (induction hs arbitrary: w) (simp_all add: keeps_bodies_remove)

lemma handle_alive:
  "ecs_inv w \<Longrightarrow> comp_at w k i = Some c \<Longrightarrow> sw_entity_storage w (eh_id (handle_of w i)) \<noteq> None"
  by (simp add: comp_typed(2))

text \<open>Rewriting a component the iteration has just visited.\<close>

lemma keeps_bodies_rewrite:
  assumes "keeps_bodies w0 w" and "comp_at w k i = Some c" and "btype_of c' = k"
    and "k \<in> {TClock, TMetadata, TReplayLog, TAttack, TCooldown, TAoiView, TParticipant}"
  shows "keeps_bodies w0 (put (handle_of w i) c' w)"
proof (cases "k = TParticipant")
  case True
  with assms(3) obtain p where "c' = CParticipant p" by (auto simp: btype_of_inverts)
  then show ?thesis using keeps_bodies_put_participant[OF assms(1)] assms(2) True by simp
next
  case False
  with assms(3,4) handle_alive[OF keeps_bodies_inv[OF assms(1)] assms(2)] show ?thesis
    by (intro keeps_bodies_put_plain[OF assms(1)]) auto
qed

lemma update_keeps_bodies:
  assumes "ecs_inv w"
  shows "keeps_bodies w (update_metadata order f w)" "keeps_bodies w (update_clock order g w)"
    "keeps_bodies w (update_replay_log order r w)" "keeps_bodies w (update_participants order u w)"
  unfolding update_metadata_def update_clock_def update_replay_log_def update_participants_def each_participant_def
  by (rule for_each_invariant[where I = "keeps_bodies w", OF keeps_bodies_refl[OF assms]],
      simp split: bcomp.split add: keeps_bodies_rewrite)+

lemma last_opt_in: "last_opt xs = Some x \<Longrightarrow> x \<in> set xs"
  by (auto simp: last_opt_def split: if_splits)


lemma as_inverts:
  "as_participant x = Some (h, p) \<longleftrightarrow> x = (h, CParticipant p)"
  "as_metadata x = Some (h, m) \<longleftrightarrow> x = (h, CMetadata m)"
  "as_clock x = Some (h, c) \<longleftrightarrow> x = (h, CClock c)"
  "as_replay_log x = Some (h, r) \<longleftrightarrow> x = (h, CReplayLog r)"
  "as_projectile x = Some (h, q) \<longleftrightarrow> x = (h, CProjectile q)"
  by (cases x; cases "snd x"; auto)+

lemma set_map_filter: "y \<in> set (List.map_filter f xs) \<longleftrightarrow> (\<exists>x\<in>set xs. f x = Some y)"
  by (force simp: map_filter_def)

lemma in_visited:
  assumes "visits_all order"
  shows "(h, p) \<in> set (participants_in order w) \<longleftrightarrow>
      comp_at w TParticipant (eh_id h) = Some (CParticipant p) \<and> h = handle_of w (eh_id h)"
    and "(h, m) \<in> set (metadata_in order w) \<longleftrightarrow>
      comp_at w TMetadata (eh_id h) = Some (CMetadata m) \<and> h = handle_of w (eh_id h)"
    and "(h, r) \<in> set (replay_logs_in order w) \<longleftrightarrow>
      comp_at w TReplayLog (eh_id h) = Some (CReplayLog r) \<and> h = handle_of w (eh_id h)"
    and "(h, c) \<in> set (clocks_in order w) \<longleftrightarrow>
      comp_at w TClock (eh_id h) = Some (CClock c) \<and> h = handle_of w (eh_id h)"
  unfolding participants_in_def metadata_in_def replay_logs_in_def clocks_in_def
  by (auto simp: set_map_filter as_inverts set_visited[OF assms])

abbreviation env_ok :: "battle_env \<Rightarrow> bool" where
  "env_ok env \<equiv> visits_all (be_order env) \<and> (\<forall>xs. mset (be_sched env xs) = mset xs) \<and> draws_in_range env"

lemma clock_keeps:
  assumes "ecs_inv (bw_ecs b)"
  shows "keeps_bodies (bw_ecs b) (bw_ecs (clock_system ctx b))"
proof -
  let ?w = "update_clock (bw_order b)
    (\<lambda>c. c\<lparr>ck_frame_number := fc_frame_number ctx, ck_last_trigger := fc_trigger ctx\<rparr>) (bw_ecs b)"
  have "keeps_bodies (bw_ecs b) ?w" by (rule update_keeps_bodies(2)[OF assms])
  then show ?thesis
    using keeps_bodies_trans update_keeps_bodies(1)[OF keeps_bodies_inv] by (simp add: clock_system_def)
qed

lemma input_keeps:
  "ecs_inv (bw_ecs b) \<Longrightarrow> keeps_bodies (bw_ecs b) (bw_ecs (input_system ctx b))"
  unfolding input_system_def by (simp add: update_keeps_bodies)

lemma lifecycle_keeps:
  assumes "ecs_inv (bw_ecs b)" and "visits_all (bw_order b)"
  shows "keeps_bodies (bw_ecs b) (bw_ecs (lifecycle_run ctx b))"
proof (cases "last_opt (metadata_in (bw_order b) (bw_ecs b))")
  case None
  then show ?thesis using assms(1) by (simp add: lifecycle_run_def keeps_bodies_refl)
next
  case (Some hm)
  obtain h m where hm: "hm = (h, m)" by (cases hm)
  have "comp_at (bw_ecs b) TMetadata (eh_id h) = Some (CMetadata m)"
    using last_opt_in[OF Some] in_visited(2)[OF assms(2)] hm by auto
  then have alive: "sw_entity_storage (bw_ecs b) (eh_id h) \<noteq> None" using comp_typed(2)[OF assms(1)] by blast
  have "keeps_bodies (bw_ecs b) (put h (CMetadata m') (bw_ecs b))" for m'
    by (rule keeps_bodies_put_plain[OF keeps_bodies_refl[OF assms(1)] alive]) simp
  moreover have "keeps_bodies (bw_ecs b)
      (remove_all (bw_order b) TDamageOverlay (remove_all (bw_order b) TProjectile (bw_ecs b)))"
    unfolding remove_all_def by (intro keeps_bodies_remove_all keeps_bodies_refl[OF assms(1)]) simp_all
  ultimately show ?thesis
    using Some hm keeps_bodies_refl[OF assms(1)]
    by (cases "bm_lifecycle m") (simp_all add: lifecycle_run_def Let_def)
qed

lemma replay_keeps:
  assumes "ecs_inv (bw_ecs b)" and "visits_all (bw_order b)"
  shows "keeps_bodies (bw_ecs b) (bw_ecs (replay_system ctx b))"
proof (cases "last_opt (replay_logs_in (bw_order b) (bw_ecs b))")
  case None
  then show ?thesis using assms(1) by (simp add: replay_system_def keeps_bodies_refl split: option.split)
next
  case (Some hr)
  obtain h r where hr: "hr = (h, r)" by (cases hr)
  have "comp_at (bw_ecs b) TReplayLog (eh_id h) = Some (CReplayLog r)"
    using last_opt_in[OF Some] in_visited(3)[OF assms(2)] hr by auto
  then have alive: "sw_entity_storage (bw_ecs b) (eh_id h) \<noteq> None" using comp_typed(2)[OF assms(1)] by blast
  have "keeps_bodies (bw_ecs b) (put h (CReplayLog r') (bw_ecs b))" for r'
    by (rule keeps_bodies_put_plain[OF keeps_bodies_refl[OF assms(1)] alive]) simp
  then show ?thesis
    using Some hr keeps_bodies_refl[OF assms(1)] by (simp add: replay_system_def Let_def split: option.split)
qed

lemma add_component_keeps:
  assumes "keeps_bodies w0 w" and "btype_of c = k" and "k = TAoiView"
  shows "keeps_bodies w0 (add_component h k c w)"
proof (cases "entity_exists h w")
  case True
  then have "add_component h k c w = put h c w" using assms(2) by (simp add: add_component_exists put_def)
  then show ?thesis
    using keeps_bodies_put_plain[OF assms(1) entity_exists_storage[OF True], of c] assms(2,3) by simp
next
  case False
  then show ?thesis using assms(1) by (simp add: add_component_def add_component_erased_def)
qed

lemma aoi_keeps:
  assumes "ecs_inv (bw_ecs b)"
  shows "keeps_bodies (bw_ecs b) (bw_ecs (aoi_system ctx b))"
  unfolding aoi_system_def Let_def each_participant_def
  by (simp, rule for_each_invariant[where I = "keeps_bodies (bw_ecs b)", OF keeps_bodies_refl[OF assms]])
    (auto simp: view_neighbours_def Let_def add_component_keeps split: bcomp.split option.split)

subsection \<open>Movement\<close>

definition distance :: "position \<Rightarrow> position \<Rightarrow> int" where
  "distance a b = \<bar>po_x a - po_x b\<bar> + \<bar>po_y a - po_y b\<bar>"

text \<open>During the movement pass: whoever still wants to move stands where the frame began.\<close>

definition moving :: "ecs \<Rightarrow> ecs \<Rightarrow> bool" where
  "moving w0 w \<longleftrightarrow> ecs_inv w \<and>
     (\<forall>i. comp_at w TParticipant i = None \<longleftrightarrow> comp_at w0 TParticipant i = None) \<and>
     (\<forall>i p q0. comp_at w TParticipant i = Some (CParticipant p) \<longrightarrow> comp_at w0 TPosition i = Some (CPosition q0) \<longrightarrow>
        (\<exists>q. comp_at w TPosition i = Some (CPosition q) \<and> distance q q0 \<le> kMaxMoveDelta \<and>
             (bp_has_pending_move p \<longrightarrow> q = q0)))"

lemma moving_refl:
  "ecs_inv w \<Longrightarrow> moving w w"
  by (auto simp: moving_def distance_def kMaxMoveDelta_def)

lemma moving_step:
  assumes m: "moving w0 w" and p: "comp_at w TParticipant i = Some (CParticipant p)"
  shows "moving w0 (move_participant (handle_of w i) p w)"
proof (cases "get_position (handle_of w i) w")
  case None
  then show ?thesis using m by (simp add: move_participant_def)
next
  case (Some q)
  let ?h = "handle_of w i"
  have inv: "ecs_inv w" using m by (simp add: moving_def)
  have q: "comp_at w TPosition i = Some (CPosition q)" using get_comp(1)[OF Some] by simp
  have here: "\<exists>c. comp_at w0 TParticipant i = Some c" "\<forall>q0. comp_at w0 TPosition i = Some (CPosition q0) \<longrightarrow>
       distance q q0 \<le> kMaxMoveDelta \<and> (bp_has_pending_move p \<longrightarrow> q = q0)"
    using m p q unfolding moving_def by (metis option.exhaust option.distinct(1), fastforce)
  have rej: "moving w0 (put ?h (CParticipant p') w)" if "\<not> bp_has_pending_move p'" for p'
    using m p q here that ecs_inv_put_participant[OF inv, of ?h "CParticipant p" p']
    unfolding moving_def by (auto simp: comp_at_put)
  have acc: "moving w0 (put ?h (CParticipant p') (put ?h (CPosition q') w))"
    if "\<not> bp_has_pending_move p'" "bp_has_pending_move p" "on_field q'" "distance q' q \<le> kMaxMoveDelta" for p' q'
  proof -
    have i1: "ecs_inv (put ?h (CPosition q') w)"
      by (rule ecs_inv_put[OF inv]) (use that(3) comp_typed(2)[OF inv p] in auto)
    have "ecs_inv (put ?h (CParticipant p') (put ?h (CPosition q') w))"
      by (rule ecs_inv_put_participant[OF i1]) (simp add: comp_at_put p)
    with m p q here that show ?thesis unfolding moving_def by (auto simp: comp_at_put)
  qed
  show ?thesis
    using rej acc m Some
    by (auto simp: move_participant_def Let_def on_field_def distance_def kMaxX_def kMaxY_def kMaxMoveDelta_def
        split: prod.split)
qed

lemma movement_moves:
  assumes "ecs_inv (bw_ecs b)"
  shows "moving (bw_ecs b) (bw_ecs (movement_system ctx b))"
  unfolding movement_system_def each_participant_def
  by (simp, rule for_each_invariant[where I = "moving (bw_ecs b)", OF moving_refl[OF assms]])
    (auto simp: moving_step split: bcomp.split)
subsection \<open>Combat\<close>

definition firing :: "ecs \<Rightarrow> nat set" where
  "firing w = {i. \<exists>p. comp_at w TParticipant i = Some (CParticipant p) \<and> bp_has_pending_fire p}"

lemma finite_firing: "finite (firing w)"
proof (rule finite_subset)
  show "firing w \<subseteq> set (map fst (sw_component_stores w TParticipant))"
  proof
    fix i assume "i \<in> firing w"
    then show "i \<in> set (map fst (sw_component_stores w TParticipant))"
      using comp_at_None_iff[of w TParticipant i] by (auto simp: firing_def)
  qed
qed simp

lemma firing_put:
  "firing (put h c w) = (case c of
     CParticipant p \<Rightarrow> if bp_has_pending_fire p then insert (eh_id h) (firing w) else firing w - {eh_id h}
   | _ \<Rightarrow> firing w)"
  by (cases c) (auto simp: firing_def comp_at_put)

lemma room_firing: "room_for_shots w \<longleftrightarrow> Suc (sw_next_entity_id w + card (firing w)) < 2 ^ 32"
  by (simp add: room_for_shots_def pending_fires_def firing_def)

lemma room_put:
  assumes "room_for_shots w"
    and "\<And>p. c = CParticipant p \<Longrightarrow> bp_has_pending_fire p \<Longrightarrow> eh_id h \<in> firing w"
  shows "room_for_shots (put h c w)"
proof -
  have "firing (put h c w) \<subseteq> firing w" using assms(2) by (auto simp: firing_put split: bcomp.splits if_splits)
  then have "card (firing (put h c w)) \<le> card (firing w)" by (rule card_mono[OF finite_firing])
  with assms(1) show ?thesis by (simp add: room_firing)
qed

lemma fresh_id:
  assumes "ecs_inv w"
  shows "comp_at w k (sw_next_entity_id w) = None" and "sw_entity_storage w (sw_next_entity_id w) = None"
proof -
  show *: "sw_entity_storage w (sw_next_entity_id w) = None"
    using ecs_inv_ok[OF assms] by (auto simp: world_ok_def)
  show "comp_at w k (sw_next_entity_id w) = None"
    using comp_typed(2)[OF assms, of k "sw_next_entity_id w"] * by (cases "comp_at w k (sw_next_entity_id w)") auto
qed

lemma ecs_inv_create:
  assumes "ecs_inv w" and "Suc (sw_next_entity_id w) < 2 ^ 32"
  shows "ecs_inv (snd (create_entity w))"
  using world_ok_create[OF ecs_inv_ok[OF assms(1)] assms(2)] assms(1)
  unfolding ecs_inv_def create_entity_comp by auto

lemma spawn_keeps:
  assumes k: "keeps_bodies w0 w" and room: "Suc (sw_next_entity_id w) < 2 ^ 32" and "0 \<le> damage"
    and w': "w' = spawn_projectile pid owner target sx sy tx ty damage speed aoe dur w"
  shows "keeps_bodies w0 w'" and "sw_next_entity_id w' = Suc (sw_next_entity_id w)"
    and "comp_at w' TParticipant i = comp_at w TParticipant i" and "firing w' = firing w"
    and "comp_at w' TCooldown i = comp_at w TCooldown i"
    and "sw_entity_storage w i \<noteq> None \<Longrightarrow> sw_entity_storage w' i \<noteq> None"
proof -
  let ?n = "sw_next_entity_id w"
  obtain e w1 where e: "create_entity w = (e, w1)" "eh_id e = ?n"
    by (simp add: create_entity_def Let_def)
  have snd: "w1 = snd (create_entity w)" using e(1) by simp
  have inv: "ecs_inv w" using k by (rule keeps_bodies_inv)
  have ex: "entity_exists e w1" by (rule create_entity_exists[OF ecs_inv_ok[OF inv] e(1)])
  have k1: "keeps_bodies w0 w1"
    using k ecs_inv_create[OF inv room] unfolding keeps_bodies_def snd create_entity_comp
    by (simp add: create_entity_def Let_def)
  have none: "comp_at w1 TParticipant ?n = None" by (simp add: snd create_entity_comp fresh_id(1)[OF inv])
  define q where "q = \<lparr>po_x = sx, po_y = sy\<rparr>"
  let ?w2 = "put e (CPosition q) w1"
  have k2: "keeps_bodies w0 ?w2"
    by (rule keeps_bodies_put[OF k1 ecs_inv_put[OF keeps_bodies_inv[OF k1] entity_exists_storage[OF ex]]])
      (use none e(2) in auto)
  obtain pr where pr: "w' = put e (CProjectile pr) ?w2" "pr_damage pr = damage"
    using w' e(1) ex by (simp add: spawn_projectile_def add_component_exists put_def q_def entity_exists_def)
  have "ecs_inv (put e (CProjectile pr) ?w2)"
    by (rule ecs_inv_put[OF keeps_bodies_inv[OF k2]])
      (use entity_exists_storage[OF ex] none e(2) pr(2) assms(3) in \<open>auto simp: comp_at_put\<close>)
  with k2 show "keeps_bodies w0 w'" unfolding pr(1) by (rule keeps_bodies_put) auto
  show "sw_next_entity_id w' = Suc ?n" using room by (simp add: pr(1) snd create_entity_def Let_def)
  show part: "comp_at w' TParticipant i = comp_at w TParticipant i" for i
    by (simp add: pr(1) comp_at_put snd create_entity_comp)
  then show "firing w' = firing w" by (simp add: firing_def)
  show "comp_at w' TCooldown i = comp_at w TCooldown i"
    by (simp add: pr(1) comp_at_put snd create_entity_comp)
  show "sw_entity_storage w' i \<noteq> None" if "sw_entity_storage w i \<noteq> None"
    using that by (simp add: pr(1) snd create_entity_def Let_def)
qed

lemma fire_pending_keeps:
  assumes k: "keeps_bodies w0 w" and room: "room_for_shots w"
    and p: "comp_at w TParticipant (eh_id h) = Some (CParticipant p)"
    and r: "fire_pending frame h p w = (p', w')"
  shows "keeps_bodies w0 w' \<and> room_for_shots w' \<and> comp_at w' TParticipant (eh_id h) = Some (CParticipant p')
    \<and> \<not> bp_has_pending_fire p'"
proof (cases "bp_has_pending_fire p")
  case False
  with r assms show ?thesis by (simp add: fire_pending_def)
next
  case True
  let ?i = "eh_id h"
  have stop: "keeps_bodies w0 (put h (CParticipant p2) w) \<and> room_for_shots (put h (CParticipant p2) w) \<and>
      comp_at (put h (CParticipant p2) w) TParticipant ?i = Some (CParticipant p2)"
    if "\<not> bp_has_pending_fire p2" for p2
    using keeps_bodies_put_participant[OF k p] room_put[OF room, of "CParticipant p2" h] that
    by (simp add: comp_at_put)
  have alive: "sw_entity_storage w ?i \<noteq> None" using comp_typed(2)[OF keeps_bodies_inv[OF k] p] .
  have shot: "keeps_bodies w0 w4 \<and> room_for_shots w4 \<and> comp_at w4 TParticipant ?i = Some (CParticipant p2)"
    if p1: "bp_has_pending_fire p1" and p2: "\<not> bp_has_pending_fire p2"
      and w2: "w2 = spawn_projectile pid owner target sx sy tx ty kProjectileDamage speed aoe dur (put h (CParticipant p1) w)"
      and w3: "w3 = w2 \<or> (\<exists>c. w3 = put h (CCooldown c) w2)" and w4: "w4 = put h (CParticipant p2) w3"
    for p1 p2 pid owner target sx sy tx ty speed aoe dur w2 w3 w4
  proof -
    let ?w1 = "put h (CParticipant p1) w"
    have in_f: "?i \<in> firing w" using p True by (simp add: firing_def)
    have k1: "keeps_bodies w0 ?w1" by (rule keeps_bodies_put_participant[OF k p])
    have f1: "firing ?w1 = firing w" using p1 in_f by (auto simp: firing_put)
    have card: "0 < card (firing w)" using in_f finite_firing[of w] by (auto simp: card_gt_0_iff)
    have less: "Suc (sw_next_entity_id ?w1) < 2 ^ 32" using room card by (simp add: room_firing)
    note sp = spawn_keeps[OF k1 less _ w2, unfolded kProjectileDamage_def, simplified]
    have k3: "keeps_bodies w0 w3" and f3: "firing w3 = firing w" and n3: "sw_next_entity_id w3 = Suc (sw_next_entity_id w)"
      and p3: "comp_at w3 TParticipant ?i = Some (CParticipant p1)"
      using w3 sp(1,2,3,4) sp(6)[of ?i] f1 alive
      by (auto simp: firing_put comp_at_put intro: keeps_bodies_put_plain)
    have "firing w4 = firing w - {?i}" using w4 p2 f3 by (simp add: firing_put)
    then have "card (firing w4) = card (firing w) - 1" using in_f by simp
    then have "room_for_shots w4" using room card n3 w4 by (simp add: room_firing)
    then show ?thesis using keeps_bodies_put_participant[OF k3 p3] w4 by (simp add: comp_at_put)
  qed
  show ?thesis
  proof (cases "get_position h w")
    case None
    with r True stop[of p'] show ?thesis by (auto simp: fire_pending_def Let_def)
  next
    case (Some pos)
    obtain dx dy where d: "normalize_direction (bp_pending_fire_dx p) (bp_pending_fire_dy p) = (dx, dy)" by fastforce
    show ?thesis
    proof (cases "case get_cooldown h w of None \<Rightarrow> True
        | Some c \<Rightarrow> co_last_attack_frame c = 0 \<or> u32_sub frame (co_last_attack_frame c) \<ge> co_cooldown_frames c")
      case False
      with r True Some stop[of p'] show ?thesis by (auto simp: fire_pending_def Let_def)
    next
      case ready: True
      let ?p1 = "p\<lparr>bp_facing_dx := dx, bp_facing_dy := dy\<rparr>"
      define w2 where "w2 = spawn_projectile (bp_user_id p @ ''_shot_'' @ decimal frame) (bp_user_id p) []
        (po_x pos) (po_y pos) (clamp (po_x pos + dx * kProjectileRange) 0 kMaxX)
        (clamp (po_y pos + dy * kProjectileRange) 0 kMaxY) kProjectileDamage kProjectileSpeed 0 0
        (put h (CParticipant ?p1) w)"
      define w3 where "w3 = (case get_cooldown h w of None \<Rightarrow> w2
        | Some c \<Rightarrow> put h (CCooldown (c\<lparr>co_last_attack_frame := frame\<rparr>)) w2)"
      have res: "p' = ?p1\<lparr>bp_has_pending_fire := False\<rparr>" "w' = put h (CParticipant p') w3"
        using r True Some ready d unfolding w3_def w2_def
        by (cases "get_cooldown h w"; auto simp: fire_pending_def Let_def)+
      have "w3 = w2 \<or> (\<exists>c. w3 = put h (CCooldown c) w2)" by (auto simp: w3_def split: option.split)
      then have "keeps_bodies w0 w' \<and> room_for_shots w' \<and> comp_at w' TParticipant ?i = Some (CParticipant p')"
        using shot[OF _ _ w2_def _ res(2)] res(1) True by simp
      moreover have "\<not> bp_has_pending_fire p'" using res(1) by simp
      ultimately show ?thesis by simp
    qed
  qed
qed

lemma collect_attack_keeps:
  assumes k: "keeps_bodies w0 (fst s)" and room: "room_for_shots (fst s)"
    and p: "comp_at (fst s) TParticipant i = Some (CParticipant p)"
  shows "keeps_bodies w0 (fst (collect_attack frame (handle_of (fst s) i) p s)) \<and>
    room_for_shots (fst (collect_attack frame (handle_of (fst s) i) p s))"
proof -
  let ?h = "handle_of (fst s) i"
  obtain p' w where r: "fire_pending frame ?h p (fst s) = (p', w)" by fastforce
  have f: "keeps_bodies w0 w" "room_for_shots w" "comp_at w TParticipant i = Some (CParticipant p')"
    "\<not> bp_has_pending_fire p'"
    using fire_pending_keeps[OF k room _ r] p by auto
  have cool: "keeps_bodies w0 (put ?h (CCooldown c) w) \<and> room_for_shots (put ?h (CCooldown c) w) \<and>
      comp_at (put ?h (CCooldown c) w) TParticipant i = Some (CParticipant p')" for c
    using keeps_bodies_put_plain[OF f(1), of ?h "CCooldown c"] room_put[OF f(2), of "CCooldown c" ?h]
      comp_typed(2)[OF keeps_bodies_inv[OF f(1)] f(3)] f(3) by (simp add: comp_at_put)
  have fin: "keeps_bodies w0 (put ?h (CParticipant (p'\<lparr>bp_pending_target_user_id := []\<rparr>)) v) \<and>
      room_for_shots (put ?h (CParticipant (p'\<lparr>bp_pending_target_user_id := []\<rparr>)) v)"
    if "keeps_bodies w0 v" "room_for_shots v" "comp_at v TParticipant i = Some (CParticipant p')" for v
    using keeps_bodies_put_participant[OF that(1), of ?h] that(3) f(4)
      room_put[OF that(2), of "CParticipant (p'\<lparr>bp_pending_target_user_id := []\<rparr>)" ?h] by simp
  show ?thesis
    using r f(1-3) cool fin by (simp add: collect_attack_def Let_def split: option.split)
qed

lemma keeps_bodies_damage:
  assumes "keeps_bodies w0 w" and "get_health h w = Some he" and "0 \<le> d"
  shows "keeps_bodies w0 (put h (CHealth (he\<lparr>he_hp := max 0 (he_hp he - d)\<rparr>)) w)"
  by (rule keeps_bodies_put[OF assms(1) ecs_inv_damage[OF keeps_bodies_inv[OF assms(1)] assms(2,3)]]) simp_all

lemma strike_keeps:
  assumes "keeps_bodies w0 w" and "0 \<le> at_damage attack"
  shows "keeps_bodies w0 (strike frame source target pos attack h p w)"
proof -
  have "keeps_bodies w0 (put source (CCooldown c') w1)"
    if "keeps_bodies w0 w1" "get_cooldown source w1 = Some c" for w1 c c'
    using keeps_bodies_put_plain[OF that(1) entity_exists_storage] get_comp(3)[OF that(2)] by simp
  then show ?thesis
    using assms keeps_bodies_damage[OF assms(1) _ assms(2)]
    by (auto simp: strike_def Let_def split: option.split)
qed

lemma each_participant_keeps:
  assumes "keeps_bodies w0 w"
    and "\<And>h p w. keeps_bodies w0 w \<Longrightarrow> comp_at w TParticipant (eh_id h) = Some (CParticipant p) \<Longrightarrow> keeps_bodies w0 (fn h p w)"
  shows "keeps_bodies w0 (each_participant order fn w)"
  unfolding each_participant_def
  by (rule for_each_invariant[where I = "keeps_bodies w0", OF assms(1)])
    (auto intro: assms(2) split: bcomp.split)

lemma resolve_attack_keeps:
  "keeps_bodies w0 w \<Longrightarrow> keeps_bodies w0 (resolve_attack order frame intent w)"
  by (auto simp: resolve_attack_def kMinDamage_def intro!: each_participant_keeps strike_keeps
      split: option.split)

lemma combat_keeps:
  assumes "ecs_inv (bw_ecs b)" and "room_for_shots (bw_ecs b)"
  shows "keeps_bodies (bw_ecs b) (bw_ecs (combat_system ctx b))"
proof -
  let ?fn = "\<lambda>h c s. case c of CParticipant p \<Rightarrow> collect_attack (fc_frame_number ctx) h p s | _ \<Rightarrow> s"
  let ?I = "\<lambda>s. keeps_bodies (bw_ecs b) (fst s) \<and> room_for_shots (fst s)"
  obtain w intents where r: "for_each_acc (bw_order b) TParticipant ?fn (bw_ecs b, []) = (w, intents)" by fastforce
  have "?I (for_each_acc (bw_order b) TParticipant ?fn (bw_ecs b, []))"
    by (rule for_each_acc_invariant)
      (use assms keeps_bodies_refl collect_attack_keeps in \<open>auto split: bcomp.split\<close>)
  then have "keeps_bodies (bw_ecs b) w" using r by simp
  then have "keeps_bodies (bw_ecs b) (fold (resolve_attack (bw_order b) (fc_frame_number ctx)) intents w)"
    by (induction intents arbitrary: w) (simp_all add: resolve_attack_keeps)
  with r show ?thesis by (simp add: combat_system_def)
qed

subsection \<open>Projectiles\<close>

lemma award_keeps: "keeps_bodies w0 w \<Longrightarrow> keeps_bodies w0 (award order owner points w)"
  unfolding award_def using keeps_bodies_trans update_keeps_bodies(4)[OF keeps_bodies_inv] by blast

lemma damage_target_keeps:
  assumes "keeps_bodies w0 w" and "get_health h w = Some he" and "0 \<le> pr_damage proj"
  shows "keeps_bodies w0 (snd (damage_target order proj h he w))"
  using keeps_bodies_damage[OF assms] by (auto simp: damage_target_def Let_def award_keeps simp del: max.absorb1 max.absorb2)

lemma free_flight_hit_keeps:
  assumes "keeps_bodies w0 (fst s)" and "0 \<le> pr_damage proj"
  shows "keeps_bodies w0 (fst (free_flight_hit order proj x y h p s))"
  using assms damage_target_keeps[OF assms(1) _ assms(2)]
  by (auto simp: free_flight_hit_def case_prod_beta split: option.split)

lemma impact_hit_keeps:
  assumes "keeps_bodies w0 w" and "0 \<le> pr_damage proj"
  shows "keeps_bodies w0 (impact_hit order proj h p w)"
  using assms damage_target_keeps[OF assms(1) _ assms(2)]
  by (auto simp: impact_hit_def split: option.split)

lemma area_hit_keeps:
  assumes "keeps_bodies w0 w" and "0 \<le> pr_damage proj"
  shows "keeps_bodies w0 (area_hit frame proj h pos w)"
proof -
  have "keeps_bodies w0 (add_component h TDamageOverlay (CDamageOverlay d) v)"
    if v: "keeps_bodies w0 v" and "0 \<le> do_damage_per_tick d" for d v
  proof (cases "entity_exists h v")
    case True
    have "ecs_inv (put h (CDamageOverlay d) v)"
      by (rule ecs_inv_put[OF keeps_bodies_inv[OF v] entity_exists_storage[OF True]]) (use that in auto)
    then have "keeps_bodies w0 (put h (CDamageOverlay d) v)" by (intro keeps_bodies_put[OF v]) simp_all
    with True show ?thesis by (simp add: add_component_exists put_def)
  next
    case False
    with v show ?thesis by (simp add: add_component_def add_component_erased_def)
  qed
  then show ?thesis
    using assms keeps_bodies_damage[OF assms(1) _ assms(2)]
    by (auto simp: area_hit_def Let_def split: option.split)
qed

text \<open>An entity that is a projectile and no participant.\<close>

definition missile :: "ecs \<Rightarrow> entity_handle \<Rightarrow> bool" where
  "missile w h \<longleftrightarrow> comp_at w TParticipant (eh_id h) = None \<and> sw_entity_storage w (eh_id h) \<noteq> None"

lemma keeps_bodies_put_missile:
  assumes "keeps_bodies w0 w" and "missile w h" and "c = CPosition q \<or> c = CProjectile pr \<and> 0 \<le> pr_damage pr"
  shows "keeps_bodies w0 (put h c w)" and "missile (put h c w) h"
proof -
  have "ecs_inv (put h c w)"
    by (rule ecs_inv_put[OF keeps_bodies_inv[OF assms(1)]]) (use assms(2,3) in \<open>auto simp: missile_def\<close>)
  then show "keeps_bodies w0 (put h c w)"
    by (rule keeps_bodies_put[OF assms(1)]) (use assms(2,3) in \<open>auto simp: missile_def\<close>)
  show "missile (put h c w) h" using assms(2,3) by (auto simp: missile_def comp_at_put)
qed

lemma missile_keeps: "missile w0 h \<Longrightarrow> keeps_bodies w0 w \<Longrightarrow> missile w h"
  by (simp add: missile_def keeps_bodies_def)

lemma fly_free_keeps:
  assumes "ecs_inv w" and "missile w h" and "0 \<le> pr_damage proj"
  shows "keeps_bodies w (fly_free order h proj pos w)"
proof -
  let ?x = "po_x pos + pr_dir_x proj * pr_speed proj" and ?y = "po_y pos + pr_dir_y proj * pr_speed proj"
  let ?fn = "\<lambda>th c s. case c of CParticipant p \<Rightarrow> free_flight_hit order proj ?x ?y th p s | _ \<Rightarrow> s"
  let ?w = "put h (CPosition (pos\<lparr>po_x := ?x, po_y := ?y\<rparr>)) w"
  have start: "keeps_bodies w ?w"
    using keeps_bodies_put_missile(1)[OF keeps_bodies_refl[OF assms(1)] assms(2)] by blast
  obtain w1 hit where r: "for_each_acc order TParticipant ?fn (?w, False) = (w1, hit)" by fastforce
  have "keeps_bodies w (fst (for_each_acc order TParticipant ?fn (?w, False)))"
    by (rule for_each_acc_invariant[where I = "\<lambda>s. keeps_bodies w (fst s)"])
      (use start assms(3) free_flight_hit_keeps in \<open>auto split: bcomp.split\<close>)
  then have k: "keeps_bodies w w1" using r by simp
  have "keeps_bodies w (put h (CProjectile (proj\<lparr>pr_active := False\<rparr>)) w1)"
    using keeps_bodies_put_missile(1)[OF k missile_keeps[OF assms(2) k],
        of _ _ "proj\<lparr>pr_active := False\<rparr>"] assms(3) by simp
  with k r show ?thesis by (simp add: fly_free_def Let_def)
qed

lemma strike_target_keeps:
  assumes "ecs_inv w" and "missile w h" and "0 \<le> pr_damage proj"
  shows "keeps_bodies w (strike_target order frame h proj w)"
proof -
  define w1 where "w1 = (case get_position h w of None \<Rightarrow> w
    | Some pos \<Rightarrow> put h (CPosition (pos\<lparr>po_x := pr_target_x proj, po_y := pr_target_y proj\<rparr>)) w)"
  define w2 where "w2 = (if pr_aoe_radius proj = 0 then each_participant order (impact_hit order proj) w1
    else for_each order TPosition (\<lambda>th c w. case c of CPosition pos \<Rightarrow> area_hit frame proj th pos w | _ \<Rightarrow> w) w1)"
  note refl = keeps_bodies_refl[OF assms(1)]
  have k1: "keeps_bodies w w1"
    unfolding w1_def using refl keeps_bodies_put_missile(1)[OF refl assms(2)] by (auto split: option.split)
  have "keeps_bodies w (for_each order TPosition
      (\<lambda>th c w. case c of CPosition pos \<Rightarrow> area_hit frame proj th pos w | _ \<Rightarrow> w) w1)"
    by (rule for_each_invariant[where I = "keeps_bodies w", OF k1])
      (use assms(3) area_hit_keeps in \<open>auto split: bcomp.split\<close>)
  then have k2: "keeps_bodies w w2"
    unfolding w2_def using each_participant_keeps[OF k1 impact_hit_keeps[OF _ assms(3)]] by simp
  have "keeps_bodies w (put h (CProjectile (proj\<lparr>pr_active := False\<rparr>)) w2)"
    using keeps_bodies_put_missile(1)[OF k2 missile_keeps[OF assms(2) k2],
        of _ _ "proj\<lparr>pr_active := False\<rparr>"] assms(3) by simp
  moreover have "strike_target order frame h proj w = put h (CProjectile (proj\<lparr>pr_active := False\<rparr>)) w2"
    unfolding strike_target_def w2_def w1_def by (simp add: Let_def)
  ultimately show ?thesis by simp
qed

lemma fly_projectile_keeps:
  assumes k: "keeps_bodies w0 w" and p: "comp_at w TProjectile (eh_id h) = Some (CProjectile proj0)"
  shows "keeps_bodies w0 (fly_projectile order lerp frame h proj0 w)"
proof -
  have inv: "ecs_inv w" by (rule keeps_bodies_inv[OF k])
  have m: "missile w h" and d: "0 \<le> pr_damage proj0"
    using inv p comp_typed(2)[OF inv p] by (auto simp: ecs_inv_def missile_def)
  define proj where "proj = proj0\<lparr>pr_current_frame := u32_add (pr_current_frame proj0) 1\<rparr>"
  define w1 where "w1 = put h (CProjectile proj) w"
  have d1: "0 \<le> pr_damage proj" using d by (simp add: proj_def)
  have k1: "keeps_bodies w0 w1" "missile w1 h"
    unfolding w1_def using keeps_bodies_put_missile[OF k m] d1 by blast+
  have steps: "keeps_bodies w0 (fly_free order h proj pos w1)" "keeps_bodies w0 (strike_target order frame h proj w1)"
    "keeps_bodies w0 (put h (CPosition q) w1)" for pos q
    using keeps_bodies_trans[OF k1(1)] fly_free_keeps[OF keeps_bodies_inv[OF k1(1)] k1(2) d1]
      strike_target_keeps[OF keeps_bodies_inv[OF k1(1)] k1(2) d1] keeps_bodies_put_missile(1)[OF k1] by blast+
  then show ?thesis
    using k k1(1) unfolding fly_projectile_def proj_def[symmetric] Let_def w1_def[symmetric]
    by (simp add: case_prod_beta split: option.split)
qed

lemma overlay_tick_keeps:
  assumes k: "keeps_bodies w0 (fst s)" and d: "comp_at (fst s) TDamageOverlay (eh_id h) = Some (CDamageOverlay dot)"
  shows "keeps_bodies w0 (fst (overlay_tick frame h dot s))"
proof -
  have inv: "ecs_inv (fst s)" by (rule keeps_bodies_inv[OF k])
  have alive: "sw_entity_storage (fst s) (eh_id h) \<noteq> None" by (rule comp_typed(2)[OF inv d])
  have dmg: "0 \<le> do_damage_per_tick dot" using inv d by (auto simp: ecs_inv_def)
  have "keeps_bodies w0 (put h (CDamageOverlay d') v)"
    if "keeps_bodies w0 v" "sw_entity_storage v (eh_id h) \<noteq> None" "0 \<le> do_damage_per_tick d'" for d' v
    by (rule keeps_bodies_put[OF that(1) ecs_inv_put[OF keeps_bodies_inv[OF that(1)] that(2)]])
      (use that(3) in auto)
  then show ?thesis
    using k alive dmg keeps_bodies_damage[OF k _ dmg]
    by (auto simp: overlay_tick_def Let_def split: option.split)
qed

lemma projectile_keeps:
  assumes "ecs_inv (bw_ecs b)"
  shows "keeps_bodies (bw_ecs b) (bw_ecs (projectile_system ctx b))"
proof -
  let ?w = "bw_ecs b" and ?o = "bw_order b" and ?f = "fc_frame_number ctx"
  let ?fly = "\<lambda>h c w. case c of CProjectile p \<Rightarrow> fly_projectile ?o (be_lerp (bw_env b)) ?f h p w | _ \<Rightarrow> w"
  let ?dot = "\<lambda>h c s. case c of CDamageOverlay d \<Rightarrow> overlay_tick ?f h d s | _ \<Rightarrow> s"
  have k1: "keeps_bodies ?w (for_each ?o TProjectile ?fly ?w)"
    by (rule for_each_invariant[where I = "keeps_bodies ?w", OF keeps_bodies_refl[OF assms]])
      (auto intro: fly_projectile_keeps split: bcomp.split)
  obtain w2 ex where r: "for_each_acc ?o TDamageOverlay ?dot (for_each ?o TProjectile ?fly ?w, []) = (w2, ex)"
    by fastforce
  have "keeps_bodies ?w (fst (for_each_acc ?o TDamageOverlay ?dot (for_each ?o TProjectile ?fly ?w, [])))"
    by (rule for_each_acc_invariant[where I = "\<lambda>s. keeps_bodies ?w (fst s)"])
      (use k1 overlay_tick_keeps in \<open>auto split: bcomp.split\<close>)
  then have "keeps_bodies ?w w2" using r by simp
  with r show ?thesis by (simp add: projectile_system_def Let_def keeps_bodies_remove_all)
qed

subsection \<open>One tick\<close>

lemma battle_stages:
  "build_stages (map se_metadata (battle_systems ctx)) = Some [[0, 1], [3, 2], [4, 5], [6], [7]]"
  unfolding battle_systems_def list.map system_entry.simps by code_simp

lemma perm_pair: "mset xs = mset [a, b] \<Longrightarrow> xs = [a, b] \<or> xs = [b, a]"
proof -
  assume m: "mset xs = mset [a, b]"
  then have "length xs = 2" by (metis length_Cons list.size(3) numeral_2_eq_2 size_mset)
  then obtain x y where xs: "xs = [x, y]" by (auto simp: numeral_2_eq_2 length_Suc_conv)
  with m show ?thesis by (auto simp: add_eq_conv_diff add_mset_eq_single)
qed

lemma entries_executor: "pe_entries (battle_executor ctx) = battle_systems ctx" "pe_dirty (battle_executor ctx)"
proof -
  have "pe_entries (fold executor_add_system es x) = pe_entries x @ es \<and>
      (pe_dirty x \<longrightarrow> pe_dirty (fold executor_add_system es x))" for es and x :: "'w parallel_executor"
    by (induction es arbitrary: x) (simp_all add: executor_add_system_def)
  from this[of "battle_systems ctx" new_parallel_executor]
  show "pe_entries (battle_executor ctx) = battle_systems ctx" "pe_dirty (battle_executor ctx)"
    by (simp_all add: battle_executor_def new_parallel_executor_def)
qed

text \<open>A tick runs the systems of the five stages, in one of the orders the scheduler allows.\<close>

lemma world_tick_stages:
  assumes "\<forall>xs. mset (be_sched (bw_env b) xs) = mset xs"
  obtains s1 s2 s3 where "s1 \<in> {[clock_system, input_system], [input_system, clock_system]}"
    "s2 \<in> {[movement_system, lifecycle_run], [lifecycle_run, movement_system]}"
    "s3 \<in> {[combat_system, aoi_system], [aoi_system, combat_system]}"
    "world_tick ctx b = Some (fold (\<lambda>s. s ctx) (s1 @ s2 @ s3 @ [projectile_system, replay_system]) b)"
proof -
  let ?o = "be_sched (bw_env b)"
  have p: "?o [0, 1] = [0, 1] \<or> ?o [0, 1] = [1, 0]" "?o [3, 2] = [3, 2] \<or> ?o [3, 2] = [2, 3]"
    "?o [4, 5] = [4, 5] \<or> ?o [4, 5] = [5, 4]"
    by (rule perm_pair[OF spec[OF assms]])+
  have t: "world_tick ctx b = Some (snd (run_stages ?o (battle_systems ctx) [[0, 1], [3, 2], [4, 5], [6], [7]] b))"
    by (simp add: world_tick_def execute_all_def rebuild_stages_def entries_executor battle_stages split: prod.split)
  show ?thesis
    by (rule that[of "if ?o [0, 1] = [0, 1] then [clock_system, input_system] else [input_system, clock_system]"
          "if ?o [3, 2] = [3, 2] then [lifecycle_run, movement_system] else [movement_system, lifecycle_run]"
          "if ?o [4, 5] = [4, 5] then [combat_system, aoi_system] else [aoi_system, combat_system]"])
      (use p t in \<open>auto simp: run_stage_def battle_systems_def completing_def\<close>)
qed

lemma systems_env [simp]:
  "bw_env (clock_system ctx b) = bw_env b" "bw_env (input_system ctx b) = bw_env b"
  "bw_env (movement_system ctx b) = bw_env b" "bw_env (combat_system ctx b) = bw_env b"
  "bw_env (aoi_system ctx b) = bw_env b" "bw_env (projectile_system ctx b) = bw_env b"
  "bw_env (replay_system ctx b) = bw_env b" "bw_env (lifecycle_run ctx b) = bw_env b"
  by (auto simp: clock_system_def input_system_def movement_system_def combat_system_def aoi_system_def
      projectile_system_def replay_system_def lifecycle_run_def Let_def case_prod_beta
      split: option.split battle_lifecycle.split)

text \<open>Entity numbers are only used up by shots.\<close>

lemma next_id_add [simp]: "sw_next_entity_id (add_component h k c w) = sw_next_entity_id w"
  by (simp add: add_component_def add_component_erased_def)

lemma next_id_remove [simp]: "sw_next_entity_id (snd (remove_component_erased h k w)) = sw_next_entity_id w"
  by (simp add: remove_component_erased_def)

lemma next_id_each:
  "(\<And>h c w. sw_next_entity_id (fn h c w) = sw_next_entity_id w) \<Longrightarrow>
     sw_next_entity_id (for_each order k fn w) = sw_next_entity_id w"
  by (rule for_each_invariant[where I = "\<lambda>v. sw_next_entity_id v = sw_next_entity_id w"]) simp_all

lemma next_id_updates [simp]:
  "sw_next_entity_id (update_metadata order f w) = sw_next_entity_id w"
  "sw_next_entity_id (update_clock order g w) = sw_next_entity_id w"
  "sw_next_entity_id (update_replay_log order r w) = sw_next_entity_id w"
  "sw_next_entity_id (update_participants order u w) = sw_next_entity_id w"
  by (auto simp: update_metadata_def update_clock_def update_replay_log_def update_participants_def
      each_participant_def intro!: next_id_each split: bcomp.split)

lemma next_id_remove_all [simp]: "sw_next_entity_id (remove_all order k w) = sw_next_entity_id w"
proof -
  have "sw_next_entity_id (fold (\<lambda>h w. snd (remove_component_erased h k w)) hs w) = sw_next_entity_id w" for hs w
    by (induction hs arbitrary: w) simp_all
  then show ?thesis by (simp add: remove_all_def)
qed

lemma next_id_systems [simp]:
  "sw_next_entity_id (bw_ecs (clock_system ctx b)) = sw_next_entity_id (bw_ecs b)"
  "sw_next_entity_id (bw_ecs (input_system ctx b)) = sw_next_entity_id (bw_ecs b)"
  "sw_next_entity_id (bw_ecs (movement_system ctx b)) = sw_next_entity_id (bw_ecs b)"
  "sw_next_entity_id (bw_ecs (lifecycle_run ctx b)) = sw_next_entity_id (bw_ecs b)"
  "sw_next_entity_id (bw_ecs (aoi_system ctx b)) = sw_next_entity_id (bw_ecs b)"
  by (auto simp: clock_system_def input_system_def movement_system_def lifecycle_run_def aoi_system_def Let_def
      each_participant_def move_participant_def view_neighbours_def case_prod_beta
      intro!: next_id_each split: option.split battle_lifecycle.split bcomp.split)

definition players :: "ecs \<Rightarrow> nat set" where
  "players w = {i. comp_at w TParticipant i \<noteq> None}"

definition room_for_players :: "ecs \<Rightarrow> bool" where
  "room_for_players w \<longleftrightarrow> Suc (sw_next_entity_id w + card (players w)) < 2 ^ 32"

lemma finite_players: "finite (players w)"
proof -
  have "players w = set (map fst (sw_component_stores w TParticipant))"
    by (simp only: players_def comp_at_None_iff) simp
  then show ?thesis by simp
qed

lemma room_for_players_shots: "room_for_players w \<Longrightarrow> room_for_shots w"
proof -
  assume r: "room_for_players w"
  have "card (firing w) \<le> card (players w)"
    by (rule card_mono[OF finite_players]) (auto simp: firing_def players_def)
  with r show ?thesis by (simp add: room_for_players_def room_firing)
qed

text \<open>The bodies after a movement pass: everybody is within the speed limit of the start.\<close>

definition moved :: "ecs \<Rightarrow> ecs \<Rightarrow> bool" where
  "moved w0 w \<longleftrightarrow> ecs_inv w \<and> players w = players w0 \<and>
     (\<forall>i q0. i \<in> players w0 \<longrightarrow> comp_at w0 TPosition i = Some (CPosition q0) \<longrightarrow>
        (\<exists>q. comp_at w TPosition i = Some (CPosition q) \<and> distance q q0 \<le> kMaxMoveDelta))"

lemma keeps_players: "keeps_bodies w0 w \<Longrightarrow> players w = players w0"
  by (auto simp: keeps_bodies_def players_def)

lemma movedI:
  assumes "ecs_inv w" and "players w = players w0"
    and "\<And>i q0. i \<in> players w0 \<Longrightarrow> comp_at w0 TPosition i = Some (CPosition q0) \<Longrightarrow>
      \<exists>q. comp_at w TPosition i = Some (CPosition q) \<and> distance q q0 \<le> kMaxMoveDelta"
  shows "moved w0 w"
  unfolding moved_def using assms by blast

lemma movedD:
  assumes "moved w0 w"
  shows "ecs_inv w" and "players w = players w0"
    and "i \<in> players w0 \<Longrightarrow> comp_at w0 TPosition i = Some (CPosition q0) \<Longrightarrow>
      \<exists>q. comp_at w TPosition i = Some (CPosition q) \<and> distance q q0 \<le> kMaxMoveDelta"
  using assms unfolding moved_def by blast+

lemma keeps_position: "keeps_bodies w0 w \<Longrightarrow> i \<in> players w0 \<Longrightarrow> comp_at w TPosition i = comp_at w0 TPosition i"
  unfolding keeps_bodies_def players_def by blast

lemma moved_of_moving:
  assumes m: "moving w0 w"
  shows "moved w0 w"
proof (rule movedI)
  show inv: "ecs_inv w" using m by (simp add: moving_def)
  show p: "players w = players w0" using m unfolding moving_def players_def by simp
  fix i q0 assume "i \<in> players w0" and q0: "comp_at w0 TPosition i = Some (CPosition q0)"
  with p obtain c where c: "comp_at w TParticipant i = Some c" unfolding players_def by blast
  from comp_typed(1)[OF inv c] obtain pa where "c = CParticipant pa" unfolding btype_of_inverts by blast
  with m c q0 show "\<exists>q. comp_at w TPosition i = Some (CPosition q) \<and> distance q q0 \<le> kMaxMoveDelta"
    unfolding moving_def by blast
qed

lemma moved_keeps:
  assumes "moved w0 w1" and "keeps_bodies w1 w2"
  shows "moved w0 w2"
proof (rule movedI)
  show "ecs_inv w2" by (rule keeps_bodies_inv[OF assms(2)])
  show "players w2 = players w0" using keeps_players[OF assms(2)] movedD(2)[OF assms(1)] by simp
  fix i q0 assume i: "i \<in> players w0" and q0: "comp_at w0 TPosition i = Some (CPosition q0)"
  show "\<exists>q. comp_at w2 TPosition i = Some (CPosition q) \<and> distance q q0 \<le> kMaxMoveDelta"
    using movedD(3)[OF assms(1) i q0] keeps_position[OF assms(2), of i] movedD(2)[OF assms(1)] i by simp
qed

lemma keeps_moved:
  assumes "keeps_bodies w0 w1" and "moved w1 w2"
  shows "moved w0 w2"
proof (rule movedI)
  show "ecs_inv w2" by (rule movedD(1)[OF assms(2)])
  show "players w2 = players w0" using keeps_players[OF assms(1)] movedD(2)[OF assms(2)] by simp
  fix i q0 assume i: "i \<in> players w0" and q0: "comp_at w0 TPosition i = Some (CPosition q0)"
  show "\<exists>q. comp_at w2 TPosition i = Some (CPosition q) \<and> distance q q0 \<le> kMaxMoveDelta"
    using movedD(3)[OF assms(2), of i q0] keeps_players[OF assms(1)] keeps_position[OF assms(1) i] i q0 by simp
qed

lemma world_tick_moved:
  assumes "ecs_inv (bw_ecs b)" and "env_ok (bw_env b)" and "room_for_players (bw_ecs b)"
  shows "\<exists>b'. world_tick ctx b = Some b' \<and> bw_env b' = bw_env b \<and> moved (bw_ecs b) (bw_ecs b')"
proof -
  let ?w0 = "bw_ecs b"
  let ?pre = "\<lambda>b'. keeps_bodies ?w0 (bw_ecs b') \<and> sw_next_entity_id (bw_ecs b') = sw_next_entity_id ?w0 \<and> bw_env b' = bw_env b"
  let ?mid = "\<lambda>b'. moved ?w0 (bw_ecs b') \<and> sw_next_entity_id (bw_ecs b') = sw_next_entity_id ?w0 \<and> bw_env b' = bw_env b"
  let ?post = "\<lambda>b'. moved ?w0 (bw_ecs b') \<and> bw_env b' = bw_env b"
  have vis: "visits_all (bw_order b)" using assms(2) by simp
  have pre: "?pre b" using keeps_bodies_refl[OF assms(1)] by simp
  have pre_step: "?pre (clock_system ctx b')" "?pre (input_system ctx b')" "?pre (lifecycle_run ctx b')"
    if p: "?pre b'" for b'
  proof -
    have inv: "ecs_inv (bw_ecs b')" and v: "visits_all (bw_order b')" using p vis keeps_bodies_inv by auto
    note k = keeps_bodies_trans[OF conjunct1[OF p]]
    show "?pre (clock_system ctx b')" "?pre (input_system ctx b')" "?pre (lifecycle_run ctx b')"
      using p k[OF clock_keeps[OF inv]] k[OF input_keeps[OF inv]] k[OF lifecycle_keeps[OF inv v]] by simp_all
  qed
  have move: "?mid (movement_system ctx b')" if p: "?pre b'" for b'
    using p keeps_moved[OF conjunct1[OF p] moved_of_moving[OF movement_moves[OF keeps_bodies_inv[OF conjunct1[OF p]]]]]
    by simp
  have mid_step: "?mid (lifecycle_run ctx b')" "?mid (aoi_system ctx b')" if p: "?mid b'" for b'
  proof -
    have inv: "ecs_inv (bw_ecs b')" and v: "visits_all (bw_order b')" using p vis movedD(1) by auto
    note k = moved_keeps[OF conjunct1[OF p]]
    show "?mid (lifecycle_run ctx b')" "?mid (aoi_system ctx b')"
      using p k[OF lifecycle_keeps[OF inv v]] k[OF aoi_keeps[OF inv]] by simp_all
  qed
  have combat: "?post (combat_system ctx b')" if "?mid b'" for b'
  proof -
    have "room_for_players (bw_ecs b')"
      using that assms(3) by (simp add: room_for_players_def moved_def)
    then have "keeps_bodies (bw_ecs b') (bw_ecs (combat_system ctx b'))"
      using combat_keeps[OF movedD(1) room_for_players_shots] that by blast
    with that show ?thesis using moved_keeps[OF conjunct1[OF that]] by simp
  qed
  have post_step: "?post (aoi_system ctx b')" "?post (projectile_system ctx b')" "?post (replay_system ctx b')"
    if p: "?post b'" for b'
  proof -
    have inv: "ecs_inv (bw_ecs b')" and v: "visits_all (bw_order b')" using p vis movedD(1) by auto
    note k = moved_keeps[OF conjunct1[OF p]]
    show "?post (aoi_system ctx b')" "?post (projectile_system ctx b')" "?post (replay_system ctx b')"
      using p k[OF aoi_keeps[OF inv]] k[OF projectile_keeps[OF inv]] k[OF replay_keeps[OF inv v]] by simp_all
  qed
  obtain s1 s2 s3 where s: "s1 \<in> {[clock_system, input_system], [input_system, clock_system]}"
    "s2 \<in> {[movement_system, lifecycle_run], [lifecycle_run, movement_system]}"
    "s3 \<in> {[combat_system, aoi_system], [aoi_system, combat_system]}"
    "world_tick ctx b = Some (fold (\<lambda>s. s ctx) (s1 @ s2 @ s3 @ [projectile_system, replay_system]) b)"
    by (rule world_tick_stages[of b ctx]) (use assms(2) in blast)
  have 1: "?pre (fold (\<lambda>s. s ctx) s1 b)" using s(1) pre pre_step by auto
  have 2: "?mid (fold (\<lambda>s. s ctx) s2 b1)" if "?pre b1" for b1 using s(2) that move pre_step mid_step by auto
  have 3: "?post (fold (\<lambda>s. s ctx) s3 b2)" if "?mid b2" for b2 using s(3) that combat mid_step post_step by auto
  have "?post (fold (\<lambda>s. s ctx) (s1 @ s2 @ s3 @ [projectile_system, replay_system]) b)"
    using post_step 3[OF 2[OF 1]] by simp
  with s(4) show ?thesis by auto
qed

text \<open>C14: A frame of the battle, in whatever order the concurrent systems of a stage take effect and
  the hash tables are visited: the tick ends, the entity tables stay well-typed, the same players
  are there, nobody has moved farther than 200 units, every player is on the field and has
  between 0 and 100 health points.\<close>

theorem battle_tick_bounded:
  assumes "ecs_inv (bw_ecs b)" and "env_ok (bw_env b)" and "room_for_players (bw_ecs b)"
  shows "\<exists>b'. world_tick ctx b = Some b' \<and> bw_env b' = bw_env b \<and> moved (bw_ecs b) (bw_ecs b')"
  by (rule world_tick_moved[OF assms])

subsection \<open>A new battle\<close>

lemma add_put: "entity_exists h w \<Longrightarrow> add_component h (btype_of c) c w = put h c w"
  by (simp add: add_component_exists put_def)

lemma world_ok_put_all:
  assumes "world_ok btype_of w" and "entity_exists h w"
  shows "world_ok btype_of (fold (put h) cs w)"
  using assms by (induction cs arbitrary: w) (simp_all add: world_ok_put entity_exists_storage)

lemma spawn_on_field:
  assumes "draws_in_range env" and "spawn_position_for env battle_id index = (x, y)"
  shows "on_field \<lparr>po_x = x, po_y = y\<rparr>"
proof -
  obtain a b where ab: "be_draw env battle_id index = (a, b)" by fastforce
  have "case be_draw env battle_id index of (x, y) \<Rightarrow> 1 \<le> x \<and> x \<le> 18 \<and> 1 \<le> y \<and> y \<le> 13"
    using assms(1) by (simp add: draws_in_range_def)
  with ab assms(2) show ?thesis by (auto simp: spawn_position_for_def on_field_def kMaxX_def kMaxY_def)
qed

lemma add_player_ecs_inv:
  assumes inv: "ecs_inv w" and room: "Suc (sw_next_entity_id w) < 2 ^ 32" and draws: "draws_in_range env"
  shows "ecs_inv (add_player env battle_id pl w)"
    and "sw_next_entity_id (add_player env battle_id pl w) = Suc (sw_next_entity_id w)"
    and "players (add_player env battle_id pl w) = insert (sw_next_entity_id w) (players w)"
proof -
  let ?n = "sw_next_entity_id w"
  obtain index user_id where pl: "pl = (index, user_id)" by fastforce
  obtain e w1 where e: "create_entity w = (e, w1)" and id: "eh_id e = ?n" by (simp add: create_entity_def Let_def)
  obtain x y where xy: "spawn_position_for env battle_id index = (x, y)" by fastforce
  have w1: "w1 = snd (create_entity w)" using e by simp
  have inv1: "ecs_inv w1" unfolding w1 by (rule ecs_inv_create[OF inv room])
  have ex: "entity_exists e w1" by (rule create_entity_exists[OF ecs_inv_ok[OF inv] e])
  have none: "comp_at w1 k ?n = None" for k by (simp add: w1 create_entity_comp fresh_id(1)[OF inv])
  let ?cs = "[CParticipant (new_participant user_id), CPosition \<lparr>po_x = x, po_y = y\<rparr>, CHealth default_health,
    CAttack default_attack, CCooldown default_cooldown]"
  have r: "add_player env battle_id pl w = fold (put e) ?cs w1"
    using add_put[of e _ "CParticipant (new_participant user_id)"] add_put[of e _ "CPosition \<lparr>po_x = x, po_y = y\<rparr>"]
      add_put[of e _ "CHealth default_health"] add_put[of e _ "CAttack default_attack"]
      add_put[of e _ "CCooldown default_cooldown"] ex
    by (simp add: add_player_def pl e xy)
  have field: "on_field \<lparr>po_x = x, po_y = y\<rparr>" by (rule spawn_on_field[OF draws xy])
  have hp: "health_ok default_health" by (simp add: health_ok_def default_health_def)
  have "world_ok btype_of (fold (put e) ?cs w1)" by (rule world_ok_put_all[OF ecs_inv_ok[OF inv1] ex])
  then show "ecs_inv (add_player env battle_id pl w)"
    using inv1 field hp none unfolding r ecs_inv_def by (simp add: comp_at_put id) blast
  show "sw_next_entity_id (add_player env battle_id pl w) = Suc ?n"
    using room by (simp add: r w1 create_entity_def Let_def)
  show "players (add_player env battle_id pl w) = insert ?n (players w)"
    unfolding r players_def by (auto simp: comp_at_put id w1 create_entity_comp)
qed

lemma add_players_ecs_inv:
  assumes "ecs_inv w" and "sw_next_entity_id w + length pls < 2 ^ 32" and "draws_in_range env"
  shows "ecs_inv (fold (add_player env battle_id) pls w) \<and>
    sw_next_entity_id (fold (add_player env battle_id) pls w) = sw_next_entity_id w + length pls \<and>
    card (players (fold (add_player env battle_id) pls w)) \<le> card (players w) + length pls"
  using assms
proof (induction pls arbitrary: w)
  case (Cons pl pls)
  note a = add_player_ecs_inv[OF Cons.prems(1) _ Cons.prems(3), of battle_id pl]
  have "Suc (sw_next_entity_id w) < 2 ^ 32" using Cons.prems(2) by simp
  then show ?case
    using Cons.IH[OF a(1) _ Cons.prems(3)] a(2,3) Cons.prems(2) card_insert_le_m1
    by (simp add: card_insert_if finite_players split: if_splits)
qed simp

text \<open>A battle starts with the invariant and with an entity for every listed player.\<close>

definition battle_start :: "battle_env \<Rightarrow> string \<Rightarrow> string \<Rightarrow> nat \<Rightarrow> ecs" where
  "battle_start env battle_id room_id max_frames = bw_ecs (create_battle_world env battle_id room_id [] max_frames)"

lemma create_entity_step:
  assumes "ecs_inv w" and "Suc (sw_next_entity_id w) < 2 ^ 32"
  obtains w' where "create_entity w = (\<lparr>eh_id = sw_next_entity_id w, eh_generation = 1\<rparr>, w')"
    "ecs_inv w'" "entity_exists \<lparr>eh_id = sw_next_entity_id w, eh_generation = 1\<rparr> w'"
    "sw_next_entity_id w' = Suc (sw_next_entity_id w)" "\<forall>k i. comp_at w' k i = comp_at w k i"
proof -
  have c: "create_entity w = (\<lparr>eh_id = sw_next_entity_id w, eh_generation = 1\<rparr>, snd (create_entity w))"
    by (simp add: create_entity_def Let_def)
  show thesis
    by (rule that[OF c ecs_inv_create[OF assms] create_entity_exists[OF ecs_inv_ok[OF assms(1)] c]])
      (use assms(2) in \<open>simp_all add: create_entity_comp\<close>, simp add: create_entity_def Let_def)
qed

lemma battle_start_simps:
  "ecs_inv (battle_start env battle_id room_id max_frames)"
  "sw_next_entity_id (battle_start env battle_id room_id max_frames) = 3"
  "players (battle_start env battle_id room_id max_frames) = {}"
proof -
  let ?w = "battle_start env battle_id room_id max_frames"
  let ?e = "\<lambda>i. \<lparr>eh_id = i, eh_generation = 1\<rparr>"
  define m where "m = CMetadata \<lparr>bm_battle_id = battle_id, bm_room_id = room_id, bm_lifecycle = BattleRunning,
    bm_next_input_seq = 1, bm_max_frames = max_frames, bm_current_frame_number = 0\<rparr>"
  define cl where "cl = CClock \<lparr>ck_frame_number = 0, ck_last_trigger = []\<rparr>"
  define lg where "lg = CReplayLog \<lparr>rl_replay_inputs = [], rl_frame_snapshots = []\<rparr>"
  have ty: "btype_of m = TMetadata" "btype_of cl = TClock" "btype_of lg = TReplayLog"
    by (simp_all add: m_def cl_def lg_def)
  have new: "ecs_inv new_simple_world" "sw_next_entity_id (new_simple_world :: ecs) = 1"
    by (simp_all add: ecs_inv_def world_ok_new) (simp add: new_simple_world_def)
  obtain w0 where w0: "create_entity new_simple_world = (?e 1, w0)" "ecs_inv w0" "entity_exists (?e 1) w0"
    "sw_next_entity_id w0 = 2" "\<forall>k i. comp_at w0 k i = None"
    by (rule create_entity_step[OF new(1), unfolded new(2)]) auto
  define w1 where "w1 = put (?e 1) m (put (?e 1) cl w0)"
  have inv1: "ecs_inv w1" and n1: "sw_next_entity_id w1 = 2"
    unfolding w1_def using entity_exists_storage[OF w0(3)]
    by (auto simp: ty w0(4) intro!: ecs_inv_put_plain w0(2))
  obtain w2 where w2: "create_entity w1 = (?e 2, w2)" "ecs_inv w2" "entity_exists (?e 2) w2"
    "sw_next_entity_id w2 = 3" "\<forall>k i. comp_at w2 k i = comp_at w1 k i"
    by (rule create_entity_step[OF inv1, unfolded n1]) auto
  have "add_component (?e 1) TMetadata m (add_component (?e 1) TClock cl w0) = w1"
    using add_put[of "?e 1" _ m] add_put[OF w0(3), of cl] w0(3) by (simp add: w1_def ty)
  moreover have "add_component (?e 2) TReplayLog lg w2 = put (?e 2) lg w2"
    using add_put[OF w2(3), of lg] by (simp add: ty)
  ultimately have w: "?w = put (?e 2) lg w2"
    unfolding battle_start_def create_battle_world_def m_def[symmetric] cl_def[symmetric] lg_def[symmetric]
    by (simp only: w0(1) w2(1) prod.case Let_def battle_world.simps enumerate_simps fold_simps)
  show "ecs_inv ?w" unfolding w
    by (rule ecs_inv_put_plain[OF w2(2)]) (use entity_exists_storage[OF w2(3)] ty in simp_all)
  show "sw_next_entity_id ?w = 3" unfolding w by (simp add: w2(4))
  show "players ?w = {}" unfolding w by (simp add: players_def comp_at_put ty w2(5) w1_def w0(5))
qed

lemma create_battle_world_start:
  "bw_ecs (create_battle_world env battle_id room_id player_ids max_frames) =
     fold (add_player env battle_id) (enumerate 0 player_ids) (battle_start env battle_id room_id max_frames)"
  "bw_env (create_battle_world env battle_id room_id player_ids max_frames) = env"
  by (simp_all add: battle_start_def create_battle_world_def case_prod_beta Let_def)

lemma new_battle_ok:
  assumes "draws_in_range env" and "4 + 2 * length player_ids < 2 ^ 32"
  shows "ecs_inv (bw_ecs (create_battle_world env battle_id room_id player_ids max_frames))"
    and "room_for_players (bw_ecs (create_battle_world env battle_id room_id player_ids max_frames))"
  using add_players_ecs_inv[OF battle_start_simps(1)[of env battle_id room_id max_frames], where pls = "enumerate 0 player_ids" and env = env and battle_id = battle_id]
    assms unfolding create_battle_world_start
  by (simp_all add: battle_start_simps room_for_players_def)

definition example_env :: battle_env where
  "example_env = \<lparr>be_order = rev, be_sched = rev, be_lerp = (\<lambda>p. (pr_target_x p, pr_target_y p)),
     be_draw = (\<lambda>_ i. if i = 0 then (1, 1) else (2, 2))\<rparr>"

lemma example_env_ok: "env_ok example_env"
  by (simp add: example_env_def draws_in_range_def visits_all_examples)

definition example_battle :: battle_world where
  "example_battle = create_battle_world example_env ''b'' ''r'' [''ann'', ''bob''] 0"

lemma example_battle_ok:
  "ecs_inv (bw_ecs example_battle)" "env_ok (bw_env example_battle)" "room_for_players (bw_ecs example_battle)"
  using new_battle_ok[of example_env "[''ann'', ''bob'']"] example_env_ok
  by (simp_all add: example_battle_def create_battle_world_start(2))

theorem battle_tick_bounded_witness:
  "\<exists>b'. world_tick \<lparr>fc_frame_number = 1, fc_trigger = ''tick''\<rparr> example_battle = Some b' \<and>
     bw_env b' = bw_env example_battle \<and> moved (bw_ecs example_battle) (bw_ecs b')"
  by (rule battle_tick_bounded[OF example_battle_ok])

end
