(* ===== verification/Battle_Frame.thy ===== *)
theory Battle_Frame
  imports Battle_Invariants
begin

text \<open>
  What one frame of a battle leaves unchanged, and how its metadata evolves: no system but the
  clock and the lifecycle system writes the metadata, shots are the only way to use up entity
  numbers, and the lifecycle system counts idle frames whatever order the systems of a stage take.
\<close>

subsection \<open>What the systems leave alone\<close>

text \<open>
  A predicate on the entities that survives every write of an admissible component survives every
  system.  Shots need new entities, so they are allowed for only if a pending shot is admissible.
\<close>

locale ecs_frame =
  fixes ok :: "bcomp \<Rightarrow> bool" and I :: "ecs \<Rightarrow> bool"
  assumes plain: "btype_of c \<notin> {TParticipant, TMetadata} \<Longrightarrow> ok c"
    and I_put: "I w \<Longrightarrow> ok c \<Longrightarrow> I (put h c w)"
    and I_remove: "I w \<Longrightarrow> k \<in> {TProjectile, TDamageOverlay} \<Longrightarrow> I (snd (remove_component_erased h k w))"
    and I_ok: "I w \<Longrightarrow> comp_at w TParticipant i = Some (CParticipant p) \<Longrightarrow> ok (CParticipant p)"
    and ok_field: "ok (CParticipant p) \<Longrightarrow> bp_pending_input_data p' = bp_pending_input_data p \<Longrightarrow>
      (bp_has_pending_fire p' \<longrightarrow> bp_has_pending_fire p) \<Longrightarrow> ok (CParticipant p')"
    and ok_input: "ok (CParticipant p) \<Longrightarrow> ok (CParticipant (apply_pending_input p))"
    and I_create: "I w \<Longrightarrow> ok (CParticipant p) \<Longrightarrow> bp_has_pending_fire p \<Longrightarrow> I (snd (create_entity w))"
begin

lemma ok_plain [simp]:
  "ok (CClock x0)" "ok (CReplayLog x1)" "ok (CPosition x2)" "ok (CHealth x3)" "ok (CAttack x4)" "ok (CCooldown x5)"
  "ok (CProjectile x6)" "ok (CDamageOverlay x7)" "ok (CAoiView x8)"
  by (rule plain; simp)+

lemma ok_fields [simp]:
  assumes "ok (CParticipant p)"
  shows "ok (CParticipant (p\<lparr>bp_score := n\<rparr>))" "ok (CParticipant (p\<lparr>bp_pending_target_user_id := u\<rparr>))"
    "ok (CParticipant (p\<lparr>bp_has_pending_move := v\<rparr>))" "ok (CParticipant (p\<lparr>bp_has_pending_fire := False\<rparr>))"
    "ok (CParticipant (p\<lparr>bp_facing_dx := x\<rparr>))" "ok (CParticipant (p\<lparr>bp_facing_dy := y\<rparr>))"
    "ok (CParticipant (p\<lparr>bp_pending_move_x := x\<rparr>))" "ok (CParticipant (p\<lparr>bp_pending_move_y := y\<rparr>))"
  by (rule ok_field[OF assms]; simp)+

lemma I_plain: "I w \<Longrightarrow> btype_of c \<notin> {TParticipant, TMetadata} \<Longrightarrow> I (put h c w)"
  by (rule I_put[OF _ plain])

lemma I_add: "I w \<Longrightarrow> btype_of c = k \<Longrightarrow> k \<notin> {TParticipant, TMetadata} \<Longrightarrow> I (add_component h k c w)"
  using I_plain[of w c h] by (cases "entity_exists h w")
    (auto simp: add_component_exists put_def add_component_def add_component_erased_def)

lemma I_each:
  assumes "I w" and "\<And>h p w. I w \<Longrightarrow> ok (CParticipant p) \<Longrightarrow> I (fn h p w)"
  shows "I (each_participant order fn w)"
  unfolding each_participant_def
  by (rule for_each_invariant[where I = I, OF assms(1)]) (auto intro: assms(2) I_ok split: bcomp.split)

lemma I_update:
  assumes "I w" and "\<And>p. ok (CParticipant p) \<Longrightarrow> ok (CParticipant (f p))"
  shows "I (update_participants order f w)"
  unfolding update_participants_def by (rule I_each[OF assms(1)]) (rule I_put, simp_all add: assms(2))

lemma I_logs: "I w \<Longrightarrow> I (update_clock order g w)" "I w \<Longrightarrow> I (update_replay_log order r w)"
  unfolding update_clock_def update_replay_log_def
  by (rule for_each_invariant[where I = I]; auto intro!: I_put split: bcomp.split)+

lemma I_input: "I (bw_ecs b) \<Longrightarrow> I (bw_ecs (input_system ctx b))"
  by (simp add: input_system_def I_update ok_input)

lemma I_replay: "I (bw_ecs b) \<Longrightarrow> I (bw_ecs (replay_system ctx b))"
  by (auto simp: replay_system_def Let_def intro!: I_put split: option.split)

lemma I_aoi: "I (bw_ecs b) \<Longrightarrow> I (bw_ecs (aoi_system ctx b))"
  by (auto simp: aoi_system_def Let_def view_neighbours_def intro!: I_each I_add split: option.split)

lemma I_move: "I w \<Longrightarrow> ok (CParticipant p) \<Longrightarrow> I (move_participant h p w)"
  by (auto simp: move_participant_def Let_def intro!: I_put split: option.split prod.split)

lemma I_movement: "I (bw_ecs b) \<Longrightarrow> I (bw_ecs (movement_system ctx b))"
  by (simp add: movement_system_def I_each I_move)

lemma I_spawn:
  "I w \<Longrightarrow> ok (CParticipant p) \<Longrightarrow> bp_has_pending_fire p \<Longrightarrow>
     I (spawn_projectile pid owner target sx sy tx ty damage speed aoe dur w)"
  using I_create[of w p] by (auto simp: spawn_projectile_def case_prod_beta intro!: I_add)

lemma I_fire:
  assumes "I w" and "ok (CParticipant p)"
  shows "I (snd (fire_pending frame h p w)) \<and> ok (CParticipant (fst (fire_pending frame h p w)))"
proof (cases "bp_has_pending_fire p")
  case True
  have rest: "ok (CParticipant (p\<lparr>bp_has_pending_fire := False\<rparr>))"
    "ok (CParticipant (p\<lparr>bp_facing_dx := dx, bp_facing_dy := dy\<rparr>))"
    "ok (CParticipant (p\<lparr>bp_facing_dx := dx, bp_facing_dy := dy, bp_has_pending_fire := False\<rparr>))" for dx dy
    by (rule ok_field[OF assms(2)]; simp)+
  have shot: "I (spawn_projectile pid owner target sx sy tx ty damage speed aoe dur
      (put h (CParticipant (p\<lparr>bp_facing_dx := dx, bp_facing_dy := dy\<rparr>)) w))"
    for pid owner target sx sy tx ty damage speed aoe dur dx dy
    by (rule I_spawn[OF I_put[OF assms(1) rest(2)] assms(2) True])
  show ?thesis
    using True assms rest shot
    by (auto simp: fire_pending_def Let_def intro!: I_put split: option.split prod.split)
qed (use assms in \<open>simp add: fire_pending_def\<close>)

lemma I_collect:
  assumes "I (fst s)" and "ok (CParticipant p)"
  shows "I (fst (collect_attack frame h p s))"
proof -
  obtain p' w where r: "fire_pending frame h p (fst s) = (p', w)" by fastforce
  have "I w" "ok (CParticipant p')" using I_fire[OF assms, of frame h] r by simp_all
  then show ?thesis
    using r by (auto simp: collect_attack_def Let_def intro!: I_put split: option.split)
qed

lemma I_resolve: "I w \<Longrightarrow> I (resolve_attack order frame intent w)"
  by (auto simp: resolve_attack_def strike_def Let_def intro!: I_each I_put split: option.split)

lemma I_combat:
  assumes "I (bw_ecs b)"
  shows "I (bw_ecs (combat_system ctx b))"
proof -
  let ?fn = "\<lambda>h c s. case c of CParticipant p \<Rightarrow> collect_attack (fc_frame_number ctx) h p s | _ \<Rightarrow> s"
  obtain w intents where r: "for_each_acc (bw_order b) TParticipant ?fn (bw_ecs b, []) = (w, intents)" by fastforce
  have "I (fst (for_each_acc (bw_order b) TParticipant ?fn (bw_ecs b, [])))"
    by (rule for_each_acc_invariant[where I = "\<lambda>s. I (fst s)"])
      (use assms in \<open>auto intro: I_collect I_ok split: bcomp.split\<close>)
  then have "I w" using r by simp
  then have "I (fold (resolve_attack (bw_order b) (fc_frame_number ctx)) intents w)"
    by (induction intents arbitrary: w) (simp_all add: I_resolve)
  with r show ?thesis by (simp add: combat_system_def)
qed

lemma I_damage: "I w \<Longrightarrow> I (snd (damage_target order proj h he w))"
  by (auto simp: damage_target_def award_def Let_def intro!: I_update I_put)

lemma I_fly_free:
  assumes "I w"
  shows "I (fly_free order h proj pos w)"
proof -
  let ?x = "po_x pos + pr_dir_x proj * pr_speed proj" and ?y = "po_y pos + pr_dir_y proj * pr_speed proj"
  let ?fn = "\<lambda>th c s. case c of CParticipant p \<Rightarrow> free_flight_hit order proj ?x ?y th p s | _ \<Rightarrow> s"
  let ?w = "put h (CPosition (pos\<lparr>po_x := ?x, po_y := ?y\<rparr>)) w"
  obtain w1 hit where r: "for_each_acc order TParticipant ?fn (?w, False) = (w1, hit)" by fastforce
  have "I (fst (for_each_acc order TParticipant ?fn (?w, False)))"
    by (rule for_each_acc_invariant[where I = "\<lambda>s. I (fst s)"])
      (use I_plain[OF assms] I_damage in \<open>auto simp: free_flight_hit_def case_prod_beta split: bcomp.split option.split\<close>)
  with r show ?thesis by (auto simp: fly_free_def Let_def intro!: I_put)
qed

lemma I_strike_target:
  assumes "I w"
  shows "I (strike_target order frame h proj w)"
proof -
  define w1 where "w1 = (case get_position h w of None \<Rightarrow> w
    | Some pos \<Rightarrow> put h (CPosition (pos\<lparr>po_x := pr_target_x proj, po_y := pr_target_y proj\<rparr>)) w)"
  have "I w1" unfolding w1_def using assms by (auto intro!: I_put split: option.split)
  moreover have "I (for_each order TPosition
      (\<lambda>th c w. case c of CPosition pos \<Rightarrow> area_hit frame proj th pos w | _ \<Rightarrow> w) w1)"
    by (rule for_each_invariant[where I = I, OF \<open>I w1\<close>])
      (auto simp: area_hit_def Let_def intro!: I_put I_add split: bcomp.split option.split)
  moreover have "I (each_participant order (impact_hit order proj) w1)"
    by (rule I_each[OF \<open>I w1\<close>]) (auto simp: impact_hit_def intro!: I_damage split: option.split)
  ultimately show ?thesis unfolding strike_target_def w1_def[symmetric] by (auto simp: Let_def intro!: I_put)
qed

lemma I_projectile:
  assumes "I (bw_ecs b)"
  shows "I (bw_ecs (projectile_system ctx b))"
proof -
  let ?o = "bw_order b" and ?f = "fc_frame_number ctx"
  let ?fly = "\<lambda>h c w. case c of CProjectile p \<Rightarrow> fly_projectile ?o (be_lerp (bw_env b)) ?f h p w | _ \<Rightarrow> w"
  let ?dot = "\<lambda>h c s. case c of CDamageOverlay d \<Rightarrow> overlay_tick ?f h d s | _ \<Rightarrow> s"
  have fly: "I (fly_projectile ?o (be_lerp (bw_env b)) ?f h p w)" if "I w" for h p w
    using I_fly_free[OF I_plain[OF that]] I_strike_target[OF I_plain[OF that]] I_plain[OF I_plain[OF that]] that I_plain[OF that]
    by (simp add: fly_projectile_def Let_def split: option.split prod.split)
  have k1: "I (for_each ?o TProjectile ?fly (bw_ecs b))"
    by (rule for_each_invariant[where I = I, OF assms]) (auto intro: fly split: bcomp.split)
  obtain w2 ex where r: "for_each_acc ?o TDamageOverlay ?dot (for_each ?o TProjectile ?fly (bw_ecs b), []) = (w2, ex)"
    by fastforce
  have "I (fst (for_each_acc ?o TDamageOverlay ?dot (for_each ?o TProjectile ?fly (bw_ecs b), [])))"
    by (rule for_each_acc_invariant[where I = "\<lambda>s. I (fst s)"])
      (use k1 in \<open>auto simp: overlay_tick_def Let_def intro!: I_put split: bcomp.split option.split\<close>)
  then have "I w2" using r by simp
  then have "I (fold (\<lambda>h w. snd (remove_component_erased h TDamageOverlay w)) ex w2)"
    by (induction ex arbitrary: w2) (simp_all add: I_remove)
  with r show ?thesis by (simp add: projectile_system_def Let_def)
qed

lemma I_remove_all: "I w \<Longrightarrow> k \<in> {TProjectile, TDamageOverlay} \<Longrightarrow> I (remove_all order k w)"
proof -
  assume "I w" and k: "k \<in> {TProjectile, TDamageOverlay}"
  then have "I (fold (\<lambda>h w. snd (remove_component_erased h k w)) hs w)" for hs
    by (induction hs arbitrary: w) (simp_all add: I_remove)
  then show ?thesis by (simp add: remove_all_def)
qed

end

text \<open>When metadata may be written too, nothing is left to except.\<close>

locale ecs_closed = ecs_frame +
  assumes meta_ok: "ok (CMetadata m)"
begin

lemma I_metadata: "I w \<Longrightarrow> I (update_metadata order f w)"
  unfolding update_metadata_def
  by (rule for_each_invariant[where I = I]) (auto intro!: I_put meta_ok split: bcomp.split)

lemma I_clock: "I (bw_ecs b) \<Longrightarrow> I (bw_ecs (clock_system ctx b))"
  by (simp add: clock_system_def I_metadata I_logs)

lemma I_lifecycle: "I (bw_ecs b) \<Longrightarrow> I (bw_ecs (lifecycle_run ctx b))"
  by (auto simp: lifecycle_run_def Let_def intro!: I_put meta_ok I_remove_all split: option.split battle_lifecycle.split)

lemma I_tick:
  assumes "I (bw_ecs b)" and "env_ok (bw_env b)" and "world_tick ctx b = Some b'"
  shows "I (bw_ecs b')"
proof -
  note run = I_clock I_lifecycle I_input I_movement I_combat I_aoi I_projectile I_replay
  obtain s1 s2 s3 where s: "s1 \<in> {[clock_system, input_system], [input_system, clock_system]}"
    "s2 \<in> {[movement_system, lifecycle_run], [lifecycle_run, movement_system]}"
    "s3 \<in> {[combat_system, aoi_system], [aoi_system, combat_system]}"
    "world_tick ctx b = Some (fold (\<lambda>s. s ctx) (s1 @ s2 @ s3 @ [projectile_system, replay_system]) b)"
    by (rule world_tick_stages[of b ctx]) (use assms(2) in blast)
  then show ?thesis using assms(1,3) by (auto intro!: run)
qed

end

text \<open>Pending shots: only a \<^verbatim>\<open>fire:\<close> input makes one, and only shots use up entity numbers.\<close>

definition quiet :: "battle_participant \<Rightarrow> bool" where
  "quiet p \<longleftrightarrow> \<not> bp_has_pending_fire p \<and> \<not> starts_with ''fire:'' (bp_pending_input_data p)"

definition all_quiet :: "ecs \<Rightarrow> bool" where
  "all_quiet w \<longleftrightarrow> (\<forall>i p. comp_at w TParticipant i = Some (CParticipant p) \<longrightarrow> quiet p)"

lemma quiet_input: "quiet p \<Longrightarrow> quiet (apply_pending_input p)"
  by (auto simp: quiet_def apply_pending_input_def Let_def starts_with_def split: option.split prod.split)

interpretation shots: ecs_closed "\<lambda>c. case c of CParticipant p \<Rightarrow> quiet p | _ \<Rightarrow> True"
  "\<lambda>w. all_quiet w \<and> sw_next_entity_id w = n" for n
  by unfold_locales
    (auto simp: all_quiet_def comp_at_put comp_at_remove quiet_input split: bcomp.splits if_splits,
     auto simp: quiet_def)

subsection \<open>The metadata of a battle\<close>

text \<open>There is one metadata object, on the first entity.\<close>

definition has_meta :: "ecs \<Rightarrow> battle_metadata \<Rightarrow> bool" where
  "has_meta w m \<longleftrightarrow> sw_component_stores w TMetadata = [(1, CMetadata m)]"

lemma stores_put:
  "sw_component_stores (put h c w) k =
     (if k = btype_of c then AList.update (eh_id h) c (sw_component_stores w k) else sw_component_stores w k)"
  by (simp add: put_def set_component_def)

interpretation meta: ecs_frame "\<lambda>c. btype_of c \<noteq> TMetadata"
  "\<lambda>w. sw_component_stores w TMetadata = stored" for stored
  by unfold_locales (auto simp: stores_put remove_component_erased_def create_entity_def Let_def)

lemma order_single: "visits_all order \<Longrightarrow> order [x] = [x]"
  unfolding visits_all_def by (metis mset_single_iff_right)

lemma has_meta_read:
  assumes "has_meta (bw_ecs b) m" and "visits_all (bw_order b)"
  shows "metadata_in (bw_order b) (bw_ecs b) = [(handle_of (bw_ecs b) 1, m)]" and "last_metadata b = Some m"
proof -
  show *: "metadata_in (bw_order b) (bw_ecs b) = [(handle_of (bw_ecs b) 1, m)]"
    using assms(1) order_single[OF assms(2)]
    by (simp add: metadata_in_def visited_def has_meta_def comp_at_def map_filter_def)
  then show "last_metadata b = Some m" by (simp add: last_metadata_def last_opt_def)
qed

lemma has_meta_put: "has_meta w m \<Longrightarrow> eh_id h = 1 \<Longrightarrow> has_meta (put h (CMetadata m') w) m'"
  by (simp add: has_meta_def stores_put)

lemma has_meta_update:
  assumes "has_meta w m" and "visits_all order"
  shows "has_meta (update_metadata order f w) (f m)"
proof -
  have "update_metadata order f w = put (handle_of w 1) (CMetadata (f m)) w"
    using assms(1) order_single[OF assms(2)] by (simp add: update_metadata_def for_each_def has_meta_def comp_at_def)
  then show ?thesis using has_meta_put[OF assms(1)] by simp
qed

lemma has_meta_frame:
  assumes "has_meta (bw_ecs b) m"
  shows "has_meta (bw_ecs (input_system ctx b)) m" "has_meta (bw_ecs (movement_system ctx b)) m"
    "has_meta (bw_ecs (combat_system ctx b)) m" "has_meta (bw_ecs (aoi_system ctx b)) m"
    "has_meta (bw_ecs (projectile_system ctx b)) m" "has_meta (bw_ecs (replay_system ctx b)) m"
  using assms unfolding has_meta_def
  by (rule meta.I_input meta.I_movement meta.I_combat meta.I_aoi meta.I_projectile meta.I_replay)+

lemma has_meta_logs:
  "has_meta w m \<Longrightarrow> has_meta (update_participants order f w) m"
  "has_meta w m \<Longrightarrow> has_meta (update_clock order g w) m"
  "has_meta w m \<Longrightarrow> has_meta (update_replay_log order r w) m"
  "has_meta w m \<Longrightarrow> k \<in> {TProjectile, TDamageOverlay} \<Longrightarrow> has_meta (remove_all order k w) m"
  unfolding has_meta_def
  by (rule meta.I_update, assumption, simp) (rule meta.I_logs meta.I_remove_all; assumption)+

lemma has_meta_clock:
  "has_meta (bw_ecs b) m \<Longrightarrow> visits_all (bw_order b) \<Longrightarrow>
     has_meta (bw_ecs (clock_system ctx b)) (m\<lparr>bm_current_frame_number := fc_frame_number ctx\<rparr>)"
  by (simp add: clock_system_def has_meta_update has_meta_logs)

text \<open>The counters of the lifecycle system across one frame.\<close>

definition life_next :: "battle_metadata \<Rightarrow> lifecycle_system \<Rightarrow> battle_metadata \<Rightarrow> lifecycle_system \<Rightarrow> bool" where
  "life_next m ls m' ls' \<longleftrightarrow>
     ls_max_idle_frames ls' = ls_max_idle_frames ls \<and>
     (case bm_lifecycle m of
        BattleCreated \<Rightarrow> m' = m\<lparr>bm_lifecycle := BattleRunning\<rparr>
      | BattleFinished \<Rightarrow> m' = m
      | BattleRunning \<Rightarrow>
          ls_last_input_seq ls' = bm_next_input_seq m \<and>
          ls_idle_frames ls' = (if bm_next_input_seq m > ls_last_input_seq ls then 0 else u32_add (ls_idle_frames ls) 1) \<and>
          (if ls_idle_frames ls' \<ge> ls_max_idle_frames ls then m' = m\<lparr>bm_lifecycle := BattleFinished\<rparr>
           else m' = m \<or> m' = m\<lparr>bm_lifecycle := BattleFinished\<rparr>))"

lemma lifecycle_run_next:
  assumes "has_meta (bw_ecs b) m" and "visits_all (bw_order b)"
  shows "\<exists>m'. has_meta (bw_ecs (lifecycle_run ctx b)) m' \<and>
    life_next m (bw_lifecycle_system b) m' (bw_lifecycle_system (lifecycle_run ctx b))"
proof -
  have l: "last_opt (metadata_in (bw_order b) (bw_ecs b)) = Some (handle_of (bw_ecs b) 1, m)"
    by (simp add: has_meta_read(1)[OF assms] last_opt_def)
  have fin: "has_meta (put (handle_of (bw_ecs b) 1) (CMetadata m') (bw_ecs b)) m'" for m'
    by (rule has_meta_put[OF assms(1)]) simp
  show ?thesis
    using assms(1) fin has_meta_logs(4)[OF has_meta_logs(4)[OF assms(1)]]
    by (cases "bm_lifecycle m") (auto simp: lifecycle_run_def l Let_def life_next_def)
qed

lemma systems_lifecycle [simp]:
  "bw_lifecycle_system (clock_system ctx b) = bw_lifecycle_system b"
  "bw_lifecycle_system (input_system ctx b) = bw_lifecycle_system b"
  "bw_lifecycle_system (movement_system ctx b) = bw_lifecycle_system b"
  "bw_lifecycle_system (combat_system ctx b) = bw_lifecycle_system b"
  "bw_lifecycle_system (aoi_system ctx b) = bw_lifecycle_system b"
  "bw_lifecycle_system (projectile_system ctx b) = bw_lifecycle_system b"
  "bw_lifecycle_system (replay_system ctx b) = bw_lifecycle_system b"
  by (simp_all add: clock_system_def input_system_def movement_system_def combat_system_def aoi_system_def
      projectile_system_def replay_system_def Let_def case_prod_beta split: option.split)

lemma world_tick_meta:
  assumes m: "has_meta (bw_ecs b) m" and env: "env_ok (bw_env b)"
  obtains b' m' where "world_tick ctx b = Some b'" "bw_env b' = bw_env b" "has_meta (bw_ecs b') m'"
    "life_next (m\<lparr>bm_current_frame_number := fc_frame_number ctx\<rparr>) (bw_lifecycle_system b) m' (bw_lifecycle_system b')"
proof -
  let ?m = "m\<lparr>bm_current_frame_number := fc_frame_number ctx\<rparr>"
  have v: "visits_all (bw_order b)" using env by simp
  obtain s1 s2 s3 where s: "s1 \<in> {[clock_system, input_system], [input_system, clock_system]}"
    "s2 \<in> {[movement_system, lifecycle_run], [lifecycle_run, movement_system]}"
    "s3 \<in> {[combat_system, aoi_system], [aoi_system, combat_system]}"
    "world_tick ctx b = Some (fold (\<lambda>s. s ctx) (s1 @ s2 @ s3 @ [projectile_system, replay_system]) b)"
    by (rule world_tick_stages[of b ctx]) (use env in blast)
  define b1 where "b1 = fold (\<lambda>s. s ctx) s1 b"
  have b1: "has_meta (bw_ecs b1) ?m" "bw_env b1 = bw_env b" "bw_lifecycle_system b1 = bw_lifecycle_system b"
    using s(1) m v has_meta_clock has_meta_frame(1) by (auto simp: b1_def)
  define b2 where "b2 = fold (\<lambda>s. s ctx) s2 b1"
  have b2: "bw_env b2 = bw_env b" using s(2) b1(2) by (auto simp: b2_def)
  have "\<exists>m'. has_meta (bw_ecs b2) m' \<and> life_next ?m (bw_lifecycle_system b) m' (bw_lifecycle_system b2)"
  proof (cases "s2 = [movement_system, lifecycle_run]")
    case True
    then show ?thesis
      using lifecycle_run_next[OF has_meta_frame(2)[OF b1(1), of ctx], of ctx] b1(2,3) v by (simp add: b2_def)
  next
    case False
    with s(2) have b2': "b2 = movement_system ctx (lifecycle_run ctx b1)" by (auto simp: b2_def)
    obtain m' where "has_meta (bw_ecs (lifecycle_run ctx b1)) m'"
      "life_next ?m (bw_lifecycle_system b1) m' (bw_lifecycle_system (lifecycle_run ctx b1))"
      using lifecycle_run_next[OF b1(1), of ctx] b1(2) v by auto
    then show ?thesis using has_meta_frame(2) b1(3) by (auto simp: b2')
  qed
  then obtain m' where m': "has_meta (bw_ecs b2) m'" "life_next ?m (bw_lifecycle_system b) m' (bw_lifecycle_system b2)"
    by blast
  define b3 where "b3 = fold (\<lambda>s. s ctx) s3 b2"
  have b3: "has_meta (bw_ecs b3) m'" "bw_env b3 = bw_env b" "bw_lifecycle_system b3 = bw_lifecycle_system b2"
    using s(3) m' b2 has_meta_frame(3,4) by (auto simp: b3_def)
  have "world_tick ctx b = Some (replay_system ctx (projectile_system ctx b3))"
    using s(4) by (simp add: b1_def b2_def b3_def)
  then show thesis by (rule that) (use b3 m' has_meta_frame(5,6) in auto)
qed

end
