(* ===== verification/Battle_Actor.thy ===== *)
theory Battle_Actor
  imports Battle_Frame
begin

text \<open>
  The battle actor (\<^verbatim>\<open>src/v2/battle/battle_actor.cpp\<close>, \<^verbatim>\<open>include/v2/battle/battle_actor.h\<close>): it owns
  the world of one battle, screens the input of the players, advances the frames and announces
  the settlement.  \<open>ba_events\<close> are the events pushed to the sink.  Timers belong to the actor
  system: \<^verbatim>\<open>schedule_after\<close> returns a fresh number, \<open>ba_timers\<close> lists the timers scheduled and not
  cancelled with the player they are for, and an expired timer leaves the list when its message
  is delivered.
\<close>

subsection \<open>State, messages and handlers\<close>

datatype battle_msg =
    CreateBattleMsg string string "string list" nat
  | SubmitBattleInputMsg string nat string int nat
  | TickBattleMsg string
  | EndBattleMsg battle_finish_reason string
  | AckFrameMsg string nat
  | PlayerDisconnectedMsg string
  | PlayerReconnectedMsg string
  | DisconnectGraceTimerExpiredMsg string

record battle_settlement =
  bt_battle_id :: string
  bt_room_id :: string
  bt_reason :: battle_finish_reason
  bt_triggering_user_id :: string
  bt_total_frames :: nat
  bt_participant_user_ids :: "string list"
  bt_replay_inputs :: "replay_input list"
  bt_result :: battle_result_summary

datatype battle_event =
    BattleCreatedMsg string string "string list"
  | BattleInputAcceptedMsg string string string nat nat string
  | BattleFrameAdvancedMsg string string nat string
  | BattleSettlementPreparedMsg battle_settlement
  | BattleFinishedMsg string string battle_finish_reason string
  | FrameAckMsg string nat

record battle_actor =
  ba_world :: "battle_world option"
  ba_disconnect_grace_timers :: "string \<rightharpoonup> nat"
  ba_next_timer :: nat
  ba_timers :: "(nat \<times> string) list"
  ba_events :: "battle_event list"

definition new_battle_actor :: battle_actor where
  "new_battle_actor = \<lparr>ba_world = None, ba_disconnect_grace_timers = Map.empty, ba_next_timer = 1,
     ba_timers = [], ba_events = []\<rparr>"

definition battle_push :: "battle_event \<Rightarrow> battle_actor \<Rightarrow> battle_actor" where
  "battle_push e s = s\<lparr>ba_events := ba_events s @ [e]\<rparr>"

definition empty_runtime_state :: battle_runtime_state where
  "empty_runtime_state = \<lparr>rt_battle_id = [], rt_room_id = [], rt_lifecycle = BattleCreated,
     rt_participants = [], rt_frame_number = 0, rt_replay_inputs = []\<rparr>"

definition runtime_state :: "battle_actor \<Rightarrow> battle_runtime_state" where
  "runtime_state s = (case ba_world s of None \<Rightarrow> empty_runtime_state | Some b \<Rightarrow> battle_world_runtime_state b)"

definition finish_battle :: "battle_finish_reason \<Rightarrow> string \<Rightarrow> battle_actor \<Rightarrow> battle_actor" where
  "finish_battle reason triggering_user_id s =
     (if rt_lifecycle (runtime_state s) = BattleFinished then s
      else
       (let s1 = s\<lparr>ba_world := map_option (battle_world_set_lifecycle BattleFinished) (ba_world s)\<rparr>;
            fin = runtime_state s1;
            result = (case ba_world s1 of
                Some b \<Rightarrow> battle_world_build_result_summary (rt_battle_id fin) (rt_room_id fin)
                            (rt_participants fin) reason (rt_frame_number fin) b
              | None \<Rightarrow> \<lparr>br_battle_id = rt_battle_id fin, br_room_id = rt_room_id fin, br_reason = reason,
                          br_winner_user_id = None, br_scores = [], br_total_frames = rt_frame_number fin\<rparr>)
        in battle_push (BattleFinishedMsg (rt_battle_id fin) (rt_room_id fin) reason triggering_user_id)
             (battle_push (BattleSettlementPreparedMsg
                \<lparr>bt_battle_id = rt_battle_id fin, bt_room_id = rt_room_id fin, bt_reason = reason,
                 bt_triggering_user_id = triggering_user_id, bt_total_frames = rt_frame_number fin,
                 bt_participant_user_ids = map bs_user_id (rt_participants fin),
                 bt_replay_inputs = rt_replay_inputs fin, bt_result = result\<rparr>) s1)))"

definition handle_create ::
  "battle_env \<Rightarrow> string \<Rightarrow> string \<Rightarrow> string list \<Rightarrow> nat \<Rightarrow> battle_actor \<Rightarrow> battle_actor" where
  "handle_create env battle_id room_id player_ids max_frames s =
     battle_push (BattleCreatedMsg battle_id room_id player_ids)
       (s\<lparr>ba_world := Some (create_battle_world env battle_id room_id player_ids max_frames)\<rparr>)"

text \<open>The position the anti-cheat check starts from: the first participant of that name.\<close>

definition snapshot_position :: "string \<Rightarrow> battle_world \<Rightarrow> int \<times> int" where
  "snapshot_position user_id b =
     (case List.find (\<lambda>p. wp_user_id p = user_id) (ws_participants (battle_world_snapshot b)) of
        None \<Rightarrow> (0, 0) | Some p \<Rightarrow> (wp_pos_x p, wp_pos_y p))"

definition handle_input :: "string \<Rightarrow> nat \<Rightarrow> string \<Rightarrow> int \<Rightarrow> nat \<Rightarrow> battle_actor \<Rightarrow> battle_actor" where
  "handle_input user_id request_id input_data score submitted_frame s =
     (case ba_world s of
        None \<Rightarrow> s
      | Some b \<Rightarrow>
         (case snapshot_position user_id b of (px, py) \<Rightarrow>
            if \<not> iv_valid (validate default_validator_config input_data px py) then s
            else case battle_world_process_input user_id input_data score submitted_frame b of (result, b1) \<Rightarrow>
              (let s1 = s\<lparr>ba_world := Some b1\<rparr>
               in if \<not> wi_accepted result then s1
                  else battle_push (BattleInputAcceptedMsg (rt_battle_id (runtime_state s1))
                         (rt_room_id (runtime_state s1)) user_id (wi_input_seq result) request_id input_data) s1)))"

definition handle_tick :: "string \<Rightarrow> battle_actor \<Rightarrow> battle_actor" where
  "handle_tick trigger s =
     (case ba_world s of
        None \<Rightarrow> s
      | Some b \<Rightarrow>
         (case battle_world_advance_frame (u32_add (rt_frame_number (runtime_state s)) 1) trigger b of (result, b1) \<Rightarrow>
            (let s1 = s\<lparr>ba_world := Some b1\<rparr>;
                 s2 = battle_push (BattleFrameAdvancedMsg (rt_battle_id (runtime_state s1))
                        (rt_room_id (runtime_state s1)) (wf_frame_number result) trigger) s1
             in if wf_should_finish result then finish_battle (wf_finish_reason result) trigger s2 else s2)))"

definition handle_end :: "battle_finish_reason \<Rightarrow> string \<Rightarrow> battle_actor \<Rightarrow> battle_actor" where
  "handle_end reason triggering_user_id s =
     (if rt_lifecycle (runtime_state s) = BattleRunning then finish_battle reason triggering_user_id s else s)"

definition handle_ack :: "string \<Rightarrow> nat \<Rightarrow> battle_actor \<Rightarrow> battle_actor" where
  "handle_ack user_id frame_number s =
     battle_push (FrameAckMsg user_id frame_number)
       (s\<lparr>ba_world := map_option (battle_world_record_frame_ack user_id frame_number) (ba_world s)\<rparr>)"

definition handle_disconnected :: "string \<Rightarrow> battle_actor \<Rightarrow> battle_actor" where
  "handle_disconnected user_id s =
     (case ba_world s of
        None \<Rightarrow> s
      | Some b \<Rightarrow>
         (let s1 = s\<lparr>ba_world := Some (snd (battle_world_handle_disconnect user_id b))\<rparr>
          in if ba_disconnect_grace_timers s user_id \<noteq> None then s1
             else s1\<lparr>ba_timers := ba_timers s @ [(ba_next_timer s, user_id)],
                     ba_disconnect_grace_timers := (ba_disconnect_grace_timers s)(user_id \<mapsto> ba_next_timer s),
                     ba_next_timer := ba_next_timer s + 1\<rparr>))"

definition handle_reconnected :: "string \<Rightarrow> battle_actor \<Rightarrow> battle_actor" where
  "handle_reconnected user_id s =
     (case ba_world s of
        None \<Rightarrow> s
      | Some b \<Rightarrow>
         (let s1 = (case ba_disconnect_grace_timers s user_id of
                      None \<Rightarrow> s
                    | Some t \<Rightarrow> s\<lparr>ba_timers := filter (\<lambda>x. fst x \<noteq> t) (ba_timers s),
                        ba_disconnect_grace_timers := (ba_disconnect_grace_timers s)(user_id := None)\<rparr>)
          in s1\<lparr>ba_world := Some (battle_world_set_online user_id b)\<rparr>))"

definition handle_grace_expired :: "string \<Rightarrow> battle_actor \<Rightarrow> battle_actor" where
  "handle_grace_expired user_id s =
     (let s1 = s\<lparr>ba_disconnect_grace_timers := (ba_disconnect_grace_timers s)(user_id := None)\<rparr>
      in if ba_world s1 \<noteq> None \<and> rt_lifecycle (runtime_state s1) = BattleRunning
         then finish_battle FinPlayerDisconnected user_id s1 else s1)"

fun on_battle_message :: "battle_env \<Rightarrow> battle_msg \<Rightarrow> battle_actor \<Rightarrow> battle_actor" where
  "on_battle_message env (CreateBattleMsg battle_id room_id player_ids max_frames) s =
     handle_create env battle_id room_id player_ids max_frames s"
| "on_battle_message env (SubmitBattleInputMsg user_id request_id input_data score submitted_frame) s =
     handle_input user_id request_id input_data score submitted_frame s"
| "on_battle_message env (TickBattleMsg trigger) s = handle_tick trigger s"
| "on_battle_message env (EndBattleMsg reason user_id) s = handle_end reason user_id s"
| "on_battle_message env (AckFrameMsg user_id frame_number) s = handle_ack user_id frame_number s"
| "on_battle_message env (PlayerDisconnectedMsg user_id) s = handle_disconnected user_id s"
| "on_battle_message env (PlayerReconnectedMsg user_id) s = handle_reconnected user_id s"
| "on_battle_message env (DisconnectGraceTimerExpiredMsg user_id) s = handle_grace_expired user_id s"

text \<open>The actor system delivers the message of a timer that is still scheduled.\<close>

definition expire_grace_timer :: "nat \<Rightarrow> battle_actor \<Rightarrow> battle_actor" where
  "expire_grace_timer t s =
     (case map_of (ba_timers s) t of
        None \<Rightarrow> s
      | Some user_id \<Rightarrow> handle_grace_expired user_id (s\<lparr>ba_timers := filter (\<lambda>x. fst x \<noteq> t) (ba_timers s)\<rparr>))"

subsection \<open>The world behind the actor\<close>

text \<open>Everything the operations of the actor keep of the world.\<close>

definition world_inv :: "battle_world \<Rightarrow> bool" where
  "world_inv b \<longleftrightarrow> env_ok (bw_env b) \<and> ecs_inv (bw_ecs b) \<and> room_for_players (bw_ecs b) \<and> all_quiet (bw_ecs b)"

lemma world_inv_step:
  assumes "world_inv b" and "keeps_bodies (bw_ecs b) (bw_ecs b')" and "all_quiet (bw_ecs b')"
    and "sw_next_entity_id (bw_ecs b') = sw_next_entity_id (bw_ecs b)" and "bw_env b' = bw_env b"
  shows "world_inv b'"
  using assms keeps_bodies_inv[OF assms(2)] keeps_players[OF assms(2)] by (simp add: world_inv_def room_for_players_def)

lemma world_inv_ecs: "world_inv b \<Longrightarrow> ecs_inv (bw_ecs b)"
  and world_inv_quiet: "world_inv b \<Longrightarrow> all_quiet (bw_ecs b) \<and> sw_next_entity_id (bw_ecs b) = sw_next_entity_id (bw_ecs b)"
  by (simp_all add: world_inv_def)

lemma world_inv_logs:
  assumes "world_inv b"
  shows "world_inv (b\<lparr>bw_ecs := update_metadata order f (bw_ecs b)\<rparr>)"
    and "world_inv (b\<lparr>bw_ecs := update_replay_log order r (bw_ecs b)\<rparr>)"
  by (rule world_inv_step[OF assms]; simp add: update_keeps_bodies world_inv_ecs[OF assms]
      shots.I_metadata[OF world_inv_quiet[OF assms], simplified] shots.I_logs(2)[OF world_inv_quiet[OF assms], simplified])+

lemma world_inv_for_user:
  assumes "world_inv b" and "\<And>p. quiet p \<Longrightarrow> quiet (f p)"
  shows "world_inv (for_user user_id f b)"
  by (rule world_inv_step[OF assms(1)])
    (simp_all add: for_user_def update_keeps_bodies world_inv_ecs[OF assms(1)]
      shots.I_update[OF world_inv_quiet[OF assms(1)], simplified] assms(2))

lemma quiet_fields [simp]:
  "quiet (p\<lparr>bp_score := n\<rparr>) = quiet p" "quiet (p\<lparr>bp_online := v\<rparr>) = quiet p"
  "quiet (p\<lparr>bp_last_submitted_frame := f\<rparr>) = quiet p" "quiet (p\<lparr>bp_last_acked_frame := f\<rparr>) = quiet p"
  by (simp_all add: quiet_def)

lemma world_inv_ops:
  assumes "world_inv b"
  shows "world_inv (battle_world_set_lifecycle l b)" "world_inv (battle_world_apply_input_score u n b)"
    "world_inv (snd (battle_world_mark_offline u b))" "world_inv (battle_world_set_online u b)"
    "world_inv (battle_world_record_submitted_frame u f b)" "world_inv (battle_world_record_frame_ack u f b)"
    "world_inv (battle_world_apply_trigger_to_frame f t b)"
    "world_inv (snd (battle_world_append_replay_input f u d n b))"
  using world_inv_logs[OF assms] world_inv_for_user[OF assms]
    world_inv_logs(2)[OF world_inv_logs(1)[OF assms]]
  by (simp_all add: battle_world_set_lifecycle_def battle_world_apply_input_score_def battle_world_mark_offline_def
      battle_world_set_online_def battle_world_record_submitted_frame_def battle_world_record_frame_ack_def
      battle_world_apply_trigger_to_frame_def battle_world_append_replay_input_def Let_def)

lemma world_inv_process:
  assumes "world_inv b" and "\<not> starts_with ''fire:'' input_data"
  shows "world_inv (snd (battle_world_process_input u input_data n f b))"
proof -
  have "world_inv (for_user u (\<lambda>p. p\<lparr>bp_pending_input_data := input_data\<rparr>) b')" if "world_inv b'" for b'
    by (rule world_inv_for_user[OF that]) (use assms(2) in \<open>simp add: quiet_def\<close>)
  then show ?thesis
    using assms(1) world_inv_ops(2,5,8) by (auto simp: battle_world_process_input_def Let_def case_prod_beta)
qed

lemma world_inv_advance:
  assumes "world_inv b"
  shows "world_inv (snd (battle_world_advance_frame f t b))"
proof -
  let ?ctx = "\<lparr>fc_frame_number = f, fc_trigger = t\<rparr>"
  obtain b' where b': "world_tick ?ctx b = Some b'" "bw_env b' = bw_env b" "moved (bw_ecs b) (bw_ecs b')"
    using world_tick_moved assms unfolding world_inv_def by blast
  have "all_quiet (bw_ecs b') \<and> sw_next_entity_id (bw_ecs b') = sw_next_entity_id (bw_ecs b)"
    by (rule shots.I_tick[OF _ _ b'(1)]) (use assms in \<open>simp_all add: world_inv_def\<close>)
  then have "world_inv b'"
    using assms b' by (simp add: world_inv_def room_for_players_def moved_def)
  then show ?thesis
    using world_inv_ops(7) by (simp add: battle_world_advance_frame_def battle_world_tick_def b'(1) Let_def)
qed

lemma world_inv_disconnect: "world_inv b \<Longrightarrow> world_inv (snd (battle_world_handle_disconnect u b))"
  using world_inv_ops(3) by (simp add: battle_world_handle_disconnect_def case_prod_beta)

lemma add_player_quiet: "all_quiet w \<Longrightarrow> all_quiet (add_player env battle_id pl w)"
proof -
  have "quiet (new_participant u)" for u by (simp add: quiet_def new_participant_def starts_with_def)
  then show "all_quiet w \<Longrightarrow> all_quiet (add_player env battle_id pl w)"
    by (auto simp: add_player_def all_quiet_def case_prod_beta add_component_def add_component_erased_def comp_at_set
        create_entity_comp split: if_splits)
qed

lemma new_battle_inv:
  assumes "env_ok env" and "4 + 2 * length player_ids < 2 ^ 32"
  shows "world_inv (create_battle_world env battle_id room_id player_ids max_frames)"
proof -
  have "all_quiet (battle_start env battle_id room_id max_frames)"
    using battle_start_simps(3)[of env battle_id room_id max_frames] by (auto simp: all_quiet_def players_def)
  then have "all_quiet (fold (add_player env battle_id) pls (battle_start env battle_id room_id max_frames))" for pls
    by (induction pls arbitrary: battle_id rule: rev_induct) (simp_all add: add_player_quiet)
  then show ?thesis
    using new_battle_ok assms by (simp add: world_inv_def create_battle_world_start)
qed

subsection \<open>The players of a battle stay within the rules\<close>

datatype battle_step = Deliver battle_msg | Expire nat

fun battle_step_run :: "battle_env \<Rightarrow> battle_step \<Rightarrow> battle_actor \<Rightarrow> battle_actor" where
  "battle_step_run env (Deliver msg) s = on_battle_message env msg s"
| "battle_step_run env (Expire t) s = expire_grace_timer t s"

definition actor_inv :: "battle_actor \<Rightarrow> bool" where
  "actor_inv s \<longleftrightarrow> pred_option world_inv (ba_world s)"

lemma battle_push_frame [simp]:
  "ba_world (battle_push e s) = ba_world s" "ba_timers (battle_push e s) = ba_timers s"
  "ba_disconnect_grace_timers (battle_push e s) = ba_disconnect_grace_timers s"
  "ba_next_timer (battle_push e s) = ba_next_timer s" "ba_events (battle_push e s) = ba_events s @ [e]"
  "runtime_state (battle_push e s) = runtime_state s"
  by (simp_all add: battle_push_def runtime_state_def)

lemma finish_battle_frame [simp]:
  "ba_timers (finish_battle r u s) = ba_timers s"
  "ba_disconnect_grace_timers (finish_battle r u s) = ba_disconnect_grace_timers s"
  "ba_next_timer (finish_battle r u s) = ba_next_timer s"
  by (simp_all add: finish_battle_def Let_def)

lemma finish_battle_world:
  "ba_world (finish_battle r u s) = (if rt_lifecycle (runtime_state s) = BattleFinished then ba_world s
     else map_option (battle_world_set_lifecycle BattleFinished) (ba_world s))"
  by (simp add: finish_battle_def Let_def)

lemma finish_inv: "actor_inv s \<Longrightarrow> actor_inv (finish_battle r u s)"
  by (cases "ba_world s") (auto simp: actor_inv_def finish_battle_world world_inv_ops)

lemma valid_not_fire: "iv_valid (validate cfg input_data x y) \<Longrightarrow> \<not> starts_with ''fire:'' input_data"
proof
  assume v: "iv_valid (validate cfg input_data x y)" and "starts_with ''fire:'' input_data"
  then have "take 5 input_data = ''fire:''" by (simp add: starts_with_def numeral_eq_Suc)
  then have "input_data = ''fire:'' @ drop 5 input_data" by (metis append_take_drop_id)
  with v fire_never_valid show False by metis
qed

lemma handle_input_inv: "actor_inv s \<Longrightarrow> actor_inv (handle_input u r d n f s)"
proof -
  assume s: "actor_inv s"
  show "actor_inv (handle_input u r d n f s)"
  proof (cases "ba_world s")
    case None
    with s show ?thesis by (simp add: handle_input_def)
  next
    case (Some b)
    have "world_inv (snd (battle_world_process_input u d n f b))"
      if "iv_valid (validate default_validator_config d x y)" for x y
      by (rule world_inv_process[OF _ valid_not_fire[OF that]]) (use s Some in \<open>simp add: actor_inv_def\<close>)
    with s Some show ?thesis
      by (auto simp: handle_input_def actor_inv_def Let_def case_prod_beta)
  qed
qed

lemma handle_tick_inv: "actor_inv s \<Longrightarrow> actor_inv (handle_tick t s)"
  using world_inv_advance by (cases "ba_world s")
    (auto simp: handle_tick_def Let_def case_prod_beta actor_inv_def intro!: finish_inv[unfolded actor_inv_def])

lemma grace_inv: "actor_inv s \<Longrightarrow> actor_inv (handle_grace_expired u s)"
  using finish_inv by (auto simp: handle_grace_expired_def Let_def actor_inv_def)

text \<open>A battle may not have more players than there are entity numbers.\<close>

fun fits :: "battle_step \<Rightarrow> bool" where
  "fits (Deliver (CreateBattleMsg _ _ player_ids _)) = (4 + 2 * length player_ids < 2 ^ 32)"
| "fits _ = True"

lemma step_inv:
  assumes "env_ok env" and "actor_inv s" and "fits m"
  shows "actor_inv (battle_step_run env m s)"
proof (cases m)
  case (Expire t)
  then show ?thesis
    using grace_inv[of "s\<lparr>ba_timers := ts\<rparr>" for ts] assms(2) by (simp add: expire_grace_timer_def actor_inv_def split: option.split)
next
  case (Deliver msg)
  show ?thesis
  proof (cases msg)
    case (CreateBattleMsg b r ids n)
    then show ?thesis using Deliver new_battle_inv assms(1,3) by (simp add: handle_create_def actor_inv_def)
  next
    case (AckFrameMsg u f)
    then show ?thesis
      using Deliver assms(2) world_inv_ops(6) by (cases "ba_world s") (auto simp: handle_ack_def actor_inv_def)
  next
    case (PlayerDisconnectedMsg u)
    then show ?thesis
      using Deliver assms(2) world_inv_disconnect
      by (cases "ba_world s") (auto simp: handle_disconnected_def actor_inv_def Let_def)
  next
    case (PlayerReconnectedMsg u)
    then show ?thesis
      using Deliver assms(2) world_inv_ops(4)
      by (cases "ba_world s") (auto simp: handle_reconnected_def actor_inv_def Let_def)
  qed (use Deliver assms(2) handle_input_inv handle_tick_inv finish_inv grace_inv in \<open>auto simp: handle_end_def\<close>)
qed

interpretation battle_rules: guarded_actor "battle_step_run env" actor_inv "\<lambda>m. env_ok env \<and> fits m" for env
  by unfold_locales (use step_inv in blast)

lemma battle_run_inv:
  assumes "env_ok env" and "list_all fits steps" and "actor_inv s"
  shows "actor_inv (run_messages (battle_step_run env) steps s)"
proof (rule battle_rules.inv_run_admitted[OF assms(3)])
  show "list_all (\<lambda>m. env_ok env \<and> fits m) steps" using assms(1,2) by (simp add: list_all_iff)
qed

lemma step_world: "ba_world s \<noteq> None \<Longrightarrow> ba_world (battle_step_run env m s) \<noteq> None"
proof (cases m)
  case (Deliver msg)
  assume "ba_world s \<noteq> None"
  with Deliver show ?thesis
    by (cases msg) (auto simp: handle_create_def handle_input_def handle_tick_def handle_end_def handle_ack_def
        handle_disconnected_def handle_reconnected_def handle_grace_expired_def finish_battle_world
        case_prod_beta Let_def)
qed (auto simp: expire_grace_timer_def handle_grace_expired_def finish_battle_world Let_def split: option.split)

interpretation battle_lives: message_actor "battle_step_run env" "\<lambda>s. ba_world s \<noteq> None" for env
  by unfold_locales (rule step_world)

text \<open>C13: Whatever the clients, the timers and the owner of a battle send, in every reachable state
  of the battle actor the entity tables are well-typed and every player stands on the field with
  a health between 0 and its maximum of 100.\<close>

theorem battle_players_within_rules:
  assumes "env_ok env" and "list_all fits steps"
    and "ba_world (run_messages (battle_step_run env) steps new_battle_actor) = Some b"
  shows "world_ok btype_of (bw_ecs b) \<and>
    (\<forall>i p. comp_at (bw_ecs b) TParticipant i = Some p \<longrightarrow>
       (\<exists>q he. comp_at (bw_ecs b) TPosition i = Some (CPosition q) \<and> comp_at (bw_ecs b) THealth i = Some (CHealth he) \<and>
          0 \<le> po_x q \<and> po_x q \<le> 1000 \<and> 0 \<le> po_y q \<and> po_y q \<le> 1000 \<and> 0 \<le> he_hp he \<and> he_hp he \<le> 100))"
proof -
  have "actor_inv (run_messages (battle_step_run env) steps new_battle_actor)"
    by (rule battle_run_inv[OF assms(1,2)]) (simp add: actor_inv_def new_battle_actor_def)
  then have "ecs_inv (bw_ecs b)" using assms(3) by (simp add: actor_inv_def world_inv_def)
  then show ?thesis
    unfolding ecs_inv_def on_field_def health_ok_def kMaxX_def kMaxY_def by (metis (no_types, lifting))
qed

definition example_actions :: "battle_step list" where
  "example_actions = [Deliver (SubmitBattleInputMsg ''ann'' 1 ''move:60,70'' 0 0), Deliver (TickBattleMsg ''tick''),
     Deliver (PlayerDisconnectedMsg ''bob''), Expire 1]"

definition example_steps :: "battle_step list" where
  "example_steps = Deliver (CreateBattleMsg ''b'' ''r'' [''ann'', ''bob''] 0) # example_actions"

theorem battle_players_within_rules_witness:
  "\<exists>b. ba_world (run_messages (battle_step_run example_env) example_steps new_battle_actor) = Some b \<and>
     world_ok btype_of (bw_ecs b)"
proof -
  have "ba_world (run_messages (battle_step_run example_env) example_steps new_battle_actor) \<noteq> None"
    unfolding example_steps_def run_messages_simps(2)
    by (rule battle_lives.inv_run) (simp add: handle_create_def)
  then obtain b where b: "ba_world (run_messages (battle_step_run example_env) example_steps new_battle_actor) = Some b"
    by blast
  have "list_all fits example_steps" by (simp add: example_steps_def example_actions_def)
  from battle_players_within_rules[OF example_env_ok this b] b show ?thesis by blast
qed

subsection \<open>The metadata behind the actor\<close>

definition meta_of :: "battle_actor \<Rightarrow> battle_metadata \<Rightarrow> bool" where
  "meta_of s m \<longleftrightarrow> (\<exists>b. ba_world s = Some b \<and> env_ok (bw_env b) \<and> has_meta (bw_ecs b) m)"

lemma meta_runtime:
  assumes "meta_of s m"
  shows "rt_lifecycle (runtime_state s) = bm_lifecycle m" "rt_battle_id (runtime_state s) = bm_battle_id m"
    "rt_room_id (runtime_state s) = bm_room_id m" "rt_frame_number (runtime_state s) = bm_current_frame_number m"
proof -
  from assms obtain b where b: "ba_world s = Some b" "env_ok (bw_env b)" "has_meta (bw_ecs b) m"
    by (auto simp: meta_of_def)
  then have "last_metadata b = Some m" using has_meta_read(2) by blast
  then show "rt_lifecycle (runtime_state s) = bm_lifecycle m" "rt_battle_id (runtime_state s) = bm_battle_id m"
    "rt_room_id (runtime_state s) = bm_room_id m" "rt_frame_number (runtime_state s) = bm_current_frame_number m"
    using b(1) by (simp_all add: runtime_state_def battle_world_runtime_state_def battle_world_lifecycle_def
        battle_world_battle_id_def battle_world_room_id_def battle_world_frame_number_def)
qed

lemma for_user_frame [simp]: "bw_env (for_user u f b) = bw_env b" "bw_lifecycle_system (for_user u f b) = bw_lifecycle_system b"
  by (simp_all add: for_user_def)

lemma meta_for_user: "has_meta (bw_ecs b) m \<Longrightarrow> has_meta (bw_ecs (for_user u f b)) m"
  by (simp add: for_user_def has_meta_logs)

lemma process_input_meta:
  assumes "has_meta (bw_ecs b) m" and "env_ok (bw_env b)"
  obtains m' where "has_meta (bw_ecs (snd (battle_world_process_input u d n f b))) m'"
    "bw_env (snd (battle_world_process_input u d n f b)) = bw_env b"
    "m' = m\<lparr>bm_next_input_seq := bm_next_input_seq m'\<rparr>"
    "bm_lifecycle m \<noteq> BattleRunning \<longrightarrow> \<not> wi_accepted (fst (battle_world_process_input u d n f b))"
proof -
  have life: "battle_world_lifecycle b = bm_lifecycle m"
    using has_meta_read(2)[OF assms(1)] assms(2) by (simp add: battle_world_lifecycle_def)
  show thesis
  proof (cases "bm_lifecycle m = BattleRunning \<and> battle_world_should_accept_input u f b")
    case False
    then show ?thesis by (intro that[of m]) (auto simp: battle_world_process_input_def life assms(1))
  next
    case True
    then show ?thesis
      using assms by (intro that[of "m\<lparr>bm_next_input_seq := u64_add (bm_next_input_seq m) 1\<rparr>"])
        (auto simp: battle_world_process_input_def life Let_def battle_world_append_replay_input_def
          battle_world_record_submitted_frame_def battle_world_apply_input_score_def
          intro!: has_meta_logs(3) has_meta_update meta_for_user)
  qed
qed

lemma advance_frame_meta:
  assumes "has_meta (bw_ecs b) m" and "env_ok (bw_env b)"
  obtains m' b' where "snd (battle_world_advance_frame f t b) = b'" "bw_env b' = bw_env b" "has_meta (bw_ecs b') m'"
    "life_next (m\<lparr>bm_current_frame_number := f\<rparr>) (bw_lifecycle_system b) m' (bw_lifecycle_system b')"
    "wf_should_finish (fst (battle_world_advance_frame f t b)) \<longrightarrow> bm_max_frames m > 0"
proof -
  let ?ctx = "\<lparr>fc_frame_number = f, fc_trigger = t\<rparr>"
  obtain b1 m' where b1: "world_tick ?ctx b = Some b1" "bw_env b1 = bw_env b" "has_meta (bw_ecs b1) m'"
    "life_next (m\<lparr>bm_current_frame_number := f\<rparr>) (bw_lifecycle_system b) m' (bw_lifecycle_system b1)"
    using world_tick_meta[OF assms, of ?ctx] by auto
  obtain frame where tick: "battle_world_tick ?ctx b = (frame, b1)" by (simp add: battle_world_tick_def b1(1) Let_def)
  let ?b' = "battle_world_apply_trigger_to_frame frame t b1"
  have b': "snd (battle_world_advance_frame f t b) = ?b'"
    by (simp add: battle_world_advance_frame_def tick Let_def)
  have env': "bw_env ?b' = bw_env b" by (simp add: battle_world_apply_trigger_to_frame_def b1(2))
  have m2: "has_meta (bw_ecs ?b') m'"
    using b1(3) by (simp add: battle_world_apply_trigger_to_frame_def has_meta_logs)
  have "bm_max_frames m' = bm_max_frames m"
    using b1(4) by (auto simp: life_next_def split: battle_lifecycle.splits if_splits)
  moreover have "last_metadata ?b' = Some m'" using has_meta_read(2)[OF m2] assms(2) env' by simp
  ultimately have "wf_should_finish (fst (battle_world_advance_frame f t b)) \<longrightarrow> bm_max_frames m > 0"
    unfolding battle_world_advance_frame_def tick prod.case Let_def
    by (simp add: battle_world_should_finish_for_frame_limit_def)
  moreover have "bw_lifecycle_system ?b' = bw_lifecycle_system b1" by (simp add: battle_world_apply_trigger_to_frame_def)
  ultimately show thesis using that[OF b' env' m2] b1(4) by simp
qed

lemma new_battle_meta:
  assumes "env_ok env"
  shows "has_meta (bw_ecs (create_battle_world env battle_id room_id player_ids max_frames))
    \<lparr>bm_battle_id = battle_id, bm_room_id = room_id, bm_lifecycle = BattleRunning, bm_next_input_seq = 1,
     bm_max_frames = max_frames, bm_current_frame_number = 0\<rparr>"
proof -
  let ?m = "\<lparr>bm_battle_id = battle_id, bm_room_id = room_id, bm_lifecycle = BattleRunning, bm_next_input_seq = 1,
     bm_max_frames = max_frames, bm_current_frame_number = 0\<rparr>"
  have "has_meta (battle_start env battle_id room_id max_frames) ?m"
    by (simp add: battle_start_def create_battle_world_def create_entity_def new_simple_world_def Let_def
        add_component_def add_component_erased_def entity_exists_def eh_valid_def set_component_def has_meta_def u32_add_def)
  moreover have "has_meta w m \<Longrightarrow> has_meta (add_player env battle_id pl w) m" for w m pl
    by (auto simp: add_player_def case_prod_beta create_entity_def Let_def add_component_def add_component_erased_def
        set_component_def has_meta_def)
  ultimately have "has_meta (fold (add_player env battle_id) pls (battle_start env battle_id room_id max_frames)) ?m" for pls
    by (induction pls rule: rev_induct) simp_all
  then show ?thesis by (simp add: create_battle_world_start)
qed

subsection \<open>Settlement\<close>

fun closing :: "battle_event \<Rightarrow> bool" where
  "closing (BattleSettlementPreparedMsg _) = True"
| "closing (BattleFinishedMsg _ _ _ _) = True"
| "closing _ = False"

text \<open>What may still be announced when the battle is over.\<close>

fun late :: "battle_event \<Rightarrow> bool" where
  "late (BattleFrameAdvancedMsg _ _ _ _) = True"
| "late (FrameAckMsg _ _) = True"
| "late _ = False"

text \<open>A settlement and, right after it, the end of the same battle for the same reason.\<close>

definition closing_pair :: "battle_event list \<Rightarrow> bool" where
  "closing_pair es \<longleftrightarrow> (\<exists>st. es = [BattleSettlementPreparedMsg st,
     BattleFinishedMsg (bt_battle_id st) (bt_room_id st) (bt_reason st) (bt_triggering_user_id st)])"

definition log_open :: "battle_event list \<Rightarrow> bool" where
  "log_open evs \<longleftrightarrow> list_all (\<lambda>e. \<not> closing e) evs"

definition log_closed :: "battle_event list \<Rightarrow> bool" where
  "log_closed evs \<longleftrightarrow> (\<exists>pre mid post. evs = pre @ mid @ post \<and> log_open pre \<and> closing_pair mid \<and> list_all late post)"

lemma late_not_closing: "list_all late es \<Longrightarrow> log_open es"
proof (induction es)
  case (Cons e es)
  then show ?case by (cases e) (simp_all add: log_open_def)
qed (simp add: log_open_def)

text \<open>One step: either nothing is settled, and after the end nothing but late events happen, or
  the step ends the battle with its settlement.\<close>

definition log_step :: "battle_metadata \<Rightarrow> battle_metadata \<Rightarrow> battle_event list \<Rightarrow> bool" where
  "log_step m m' es \<longleftrightarrow>
     (if bm_lifecycle m = BattleFinished then bm_lifecycle m' = BattleFinished \<and> list_all late es
      else log_open es \<or> (\<exists>pre mid. es = pre @ mid \<and> log_open pre \<and> closing_pair mid \<and> bm_lifecycle m' = BattleFinished))"

definition steps_to :: "battle_actor \<Rightarrow> battle_metadata \<Rightarrow> battle_actor \<Rightarrow> bool" where
  "steps_to s m s' \<longleftrightarrow> (\<exists>m' es. meta_of s' m' \<and> ba_events s' = ba_events s @ es \<and> log_step m m' es)"

lemma steps_toI:
  "meta_of s' m' \<Longrightarrow> ba_events s' = ba_events s @ es \<Longrightarrow> log_step m m' es \<Longrightarrow> steps_to s m s'"
  by (auto simp: steps_to_def)

lemma steps_to_refl: "meta_of s m \<Longrightarrow> steps_to s m s"
  by (rule steps_toI[of s m s "[]"]) (auto simp: log_step_def log_open_def)

lemma finish_battle_meta:
  assumes "meta_of s m"
  shows "\<exists>es. meta_of (finish_battle r u s) (m\<lparr>bm_lifecycle := BattleFinished\<rparr>) \<and>
    ba_events (finish_battle r u s) = ba_events s @ es \<and>
    (if bm_lifecycle m = BattleFinished then es = [] else closing_pair es)"
proof (cases "bm_lifecycle m = BattleFinished")
  case True
  then have same: "finish_battle r u s = s" using meta_runtime(1)[OF assms] by (simp add: finish_battle_def)
  have eq: "m\<lparr>bm_lifecycle := BattleFinished\<rparr> = m" using True by (cases m) simp
  show ?thesis unfolding same eq using True assms by simp
next
  case False
  from assms obtain b where b: "ba_world s = Some b" "env_ok (bw_env b)" "has_meta (bw_ecs b) m"
    by (auto simp: meta_of_def)
  have "has_meta (bw_ecs (battle_world_set_lifecycle BattleFinished b)) (m\<lparr>bm_lifecycle := BattleFinished\<rparr>)"
    using has_meta_update[OF b(3)] b(2) by (simp add: battle_world_set_lifecycle_def)
  moreover have "bw_env (battle_world_set_lifecycle BattleFinished b) = bw_env b" by (simp add: battle_world_set_lifecycle_def)
  ultimately have "meta_of (finish_battle r u s) (m\<lparr>bm_lifecycle := BattleFinished\<rparr>)"
    using b False meta_runtime(1)[OF assms] by (simp add: meta_of_def finish_battle_world)
  then show ?thesis
    using False meta_runtime(1)[OF assms] by (simp add: finish_battle_def Let_def closing_pair_def)
qed

lemma finish_steps_to:
  assumes "meta_of s m" and "ba_events s = ba_events s0 @ es0" and "list_all late es0"
    and "bm_lifecycle m0 = BattleFinished \<Longrightarrow> bm_lifecycle m = BattleFinished"
  shows "steps_to s0 m0 (finish_battle r u s)"
proof -
  obtain es where es: "meta_of (finish_battle r u s) (m\<lparr>bm_lifecycle := BattleFinished\<rparr>)"
    "ba_events (finish_battle r u s) = ba_events s @ es"
    "if bm_lifecycle m = BattleFinished then es = [] else closing_pair es"
    using finish_battle_meta[OF assms(1)] by blast
  have "log_step m0 (m\<lparr>bm_lifecycle := BattleFinished\<rparr>) (es0 @ es)"
    using es(3) assms(3,4) late_not_closing[OF assms(3)] by (auto simp: log_step_def split: if_splits)
  then show ?thesis using es(1,2) assms(2) by (intro steps_toI[of _ "m\<lparr>bm_lifecycle := BattleFinished\<rparr>"]) simp_all
qed

lemma meta_world: "meta_of s m \<Longrightarrow> \<exists>b. ba_world s = Some b \<and> env_ok (bw_env b) \<and> has_meta (bw_ecs b) m"
  by (simp add: meta_of_def)

lemma tick_steps_to:
  assumes "meta_of s m"
  shows "steps_to s m (handle_tick t s)"
proof -
  obtain b where b: "ba_world s = Some b" "env_ok (bw_env b)" "has_meta (bw_ecs b) m" using meta_world[OF assms] by blast
  let ?f = "u32_add (rt_frame_number (runtime_state s)) 1"
  obtain m' b' where r: "snd (battle_world_advance_frame ?f t b) = b'" "bw_env b' = bw_env b" "has_meta (bw_ecs b') m'"
    "life_next (m\<lparr>bm_current_frame_number := ?f\<rparr>) (bw_lifecycle_system b) m' (bw_lifecycle_system b')"
    by (rule advance_frame_meta[OF b(3,2), of ?f t])
  obtain res where adv: "battle_world_advance_frame ?f t b = (res, b')" using r(1) by (metis surjective_pairing)
  define s2 where "s2 = battle_push (BattleFrameAdvancedMsg (rt_battle_id (runtime_state (s\<lparr>ba_world := Some b'\<rparr>)))
    (rt_room_id (runtime_state (s\<lparr>ba_world := Some b'\<rparr>))) (wf_frame_number res) t) (s\<lparr>ba_world := Some b'\<rparr>)"
  have m2: "meta_of s2 m'" using r(2,3) b(2) by (simp add: meta_of_def s2_def)
  have fin: "bm_lifecycle m = BattleFinished \<Longrightarrow> bm_lifecycle m' = BattleFinished"
    using r(4) by (simp add: life_next_def)
  obtain e where e: "ba_events s2 = ba_events s @ [e]" "late e" by (simp add: s2_def)
  have "handle_tick t s = (if wf_should_finish res then finish_battle (wf_finish_reason res) t s2 else s2)"
    using b(1) adv by (simp add: handle_tick_def Let_def s2_def)
  moreover have "steps_to s m s2"
    using m2 e late_not_closing[of "[e]"] fin by (intro steps_toI[of s2 m' s "[e]"]) (auto simp: log_step_def)
  moreover have "steps_to s m (finish_battle (wf_finish_reason res) t s2)"
    by (rule finish_steps_to[OF m2 e(1)]) (use e(2) fin in simp_all)
  ultimately show ?thesis by simp
qed

lemma input_steps_to:
  assumes "meta_of s m"
  shows "steps_to s m (handle_input u r d n f s)"
proof -
  obtain b where b: "ba_world s = Some b" "env_ok (bw_env b)" "has_meta (bw_ecs b) m" using meta_world[OF assms] by blast
  obtain res b' where p: "battle_world_process_input u d n f b = (res, b')" by fastforce
  obtain m' where m': "has_meta (bw_ecs b') m'" "bw_env b' = bw_env b" "m' = m\<lparr>bm_next_input_seq := bm_next_input_seq m'\<rparr>"
    "bm_lifecycle m \<noteq> BattleRunning \<longrightarrow> \<not> wi_accepted res"
    by (rule process_input_meta[OF b(3,2), of u d n f]) (simp add: p)
  have life: "bm_lifecycle m' = bm_lifecycle m" using arg_cong[OF m'(3), of bm_lifecycle] by simp
  define s1 where "s1 = s\<lparr>ba_world := Some b'\<rparr>"
  have m1: "meta_of s1 m'" using m'(1,2) b(2) by (simp add: meta_of_def s1_def)
  have kept: "steps_to s m s1"
    using m1 life by (intro steps_toI[of s1 m' s "[]"]) (auto simp: s1_def log_step_def log_open_def)
  have told: "steps_to s m (battle_push (BattleInputAcceptedMsg x y u q r d) s1)" if "wi_accepted res" for x y q
    using m1 that m'(4) by (intro steps_toI[of _ m' s "[BattleInputAcceptedMsg x y u q r d]"])
      (auto simp: s1_def log_step_def log_open_def meta_of_def)
  show ?thesis
    using b(1) p kept told steps_to_refl[OF assms]
    by (simp add: handle_input_def s1_def Let_def split: prod.split)
qed

lemma world_steps_to:
  assumes "meta_of s m" and "ba_events s' = ba_events s @ es" and "list_all late es"
    and "\<And>b. ba_world s = Some b \<Longrightarrow> \<exists>b'. ba_world s' = Some b' \<and> bw_env b' = bw_env b \<and>
      (has_meta (bw_ecs b) m \<longrightarrow> has_meta (bw_ecs b') m)"
  shows "steps_to s m s'"
proof (rule steps_toI[OF _ assms(2)])
  show "meta_of s' m" using assms(1,4) unfolding meta_of_def by metis
  show "log_step m m es" using assms(3) late_not_closing[OF assms(3)] by (simp add: log_step_def)
qed

lemma grace_steps_to:
  assumes "meta_of s m"
  shows "steps_to s m (handle_grace_expired u s)"
proof -
  let ?s = "s\<lparr>ba_disconnect_grace_timers := (ba_disconnect_grace_timers s)(u := None)\<rparr>"
  have m: "meta_of ?s m" using assms by (simp add: meta_of_def)
  have "steps_to s m (finish_battle FinPlayerDisconnected u ?s)"
    by (rule finish_steps_to[OF m, of s "[]"]) simp_all
  moreover have "steps_to s m ?s" by (rule world_steps_to[OF assms, of _ "[]"]) simp_all
  ultimately show ?thesis by (simp add: handle_grace_expired_def Let_def)
qed

fun creates :: "battle_step \<Rightarrow> bool" where
  "creates (Deliver (CreateBattleMsg _ _ _ _)) = True"
| "creates _ = False"

lemma battle_steps_to:
  assumes m: "meta_of s m" and "\<not> creates st"
  shows "steps_to s m (battle_step_run env st s)"
proof (cases st)
  case (Expire t)
  have "steps_to (s\<lparr>ba_timers := ts\<rparr>) m (handle_grace_expired u (s\<lparr>ba_timers := ts\<rparr>))" for ts u
    by (rule grace_steps_to) (use m in \<open>simp add: meta_of_def\<close>)
  then show ?thesis
    using Expire steps_to_refl[OF m] by (simp add: expire_grace_timer_def steps_to_def split: option.split)
next
  case (Deliver msg)
  obtain b where b: "ba_world s = Some b" "env_ok (bw_env b)" "has_meta (bw_ecs b) m" using meta_world[OF m] by blast
  show ?thesis
  proof (cases msg)
    case (EndBattleMsg r u)
    have "steps_to s m (finish_battle r u s)" by (rule finish_steps_to[OF m, of s "[]"]) simp_all
    then show ?thesis using Deliver EndBattleMsg steps_to_refl[OF m] by (simp add: handle_end_def)
  next
    case (AckFrameMsg u f)
    then show ?thesis
      using Deliver b by (intro world_steps_to[OF m, of _ "[FrameAckMsg u f]"])
        (auto simp: handle_ack_def battle_world_record_frame_ack_def meta_for_user)
  next
    case (PlayerDisconnectedMsg u)
    then show ?thesis
      using Deliver b by (intro world_steps_to[OF m, of _ "[]"])
        (auto simp: handle_disconnected_def Let_def battle_world_handle_disconnect_def battle_world_mark_offline_def meta_for_user)
  next
    case (PlayerReconnectedMsg u)
    then show ?thesis
      using Deliver b by (intro world_steps_to[OF m, of _ "[]"])
        (auto simp: handle_reconnected_def Let_def battle_world_set_online_def meta_for_user split: option.split)
  qed (use Deliver assms tick_steps_to input_steps_to grace_steps_to in auto)
qed

text \<open>The log of a battle, as far as it has got.\<close>

definition log_inv :: "battle_actor \<Rightarrow> bool" where
  "log_inv s \<longleftrightarrow> (\<exists>m. meta_of s m \<and>
     (log_open (ba_events s) \<or> (log_closed (ba_events s) \<and> bm_lifecycle m = BattleFinished)))"

lemma log_open_append [simp]: "log_open (xs @ ys) \<longleftrightarrow> log_open xs \<and> log_open ys"
  by (simp add: log_open_def)

lemma log_closed_append: "log_closed xs \<Longrightarrow> list_all late ys \<Longrightarrow> log_closed (xs @ ys)"
  unfolding log_closed_def by (metis append.assoc list_all_append)

lemma log_closedI: "log_open xs \<Longrightarrow> closing_pair ys \<Longrightarrow> log_closed (xs @ ys)"
  unfolding log_closed_def by (intro exI[of _ xs] exI[of _ ys] exI[of _ "[]"]) simp

lemma log_inv_step:
  assumes "log_inv s" and "\<not> creates st"
  shows "log_inv (battle_step_run env st s)"
proof -
  let ?s = "battle_step_run env st s"
  obtain m where m: "meta_of s m" "log_open (ba_events s) \<or> (log_closed (ba_events s) \<and> bm_lifecycle m = BattleFinished)"
    using assms(1) by (auto simp: log_inv_def)
  obtain m' es where r: "meta_of ?s m'" "ba_events ?s = ba_events s @ es" "log_step m m' es"
    using battle_steps_to[OF m(1) assms(2), of env] by (auto simp: steps_to_def)
  have "log_open (ba_events ?s) \<or> (log_closed (ba_events ?s) \<and> bm_lifecycle m' = BattleFinished)"
    using m(2) r(2,3) late_not_closing[of es] log_closed_append[of "ba_events s" es]
      log_closedI[of "ba_events s @ _"]
    by (auto simp: log_step_def split: if_splits)
  with r(1) show ?thesis by (auto simp: log_inv_def)
qed

interpretation battle_log: guarded_actor "battle_step_run env" log_inv "\<lambda>m. \<not> creates m" for env
  by unfold_locales (rule log_inv_step)

definition started :: "battle_env \<Rightarrow> string \<Rightarrow> string \<Rightarrow> string list \<Rightarrow> nat \<Rightarrow> battle_actor" where
  "started env battle_id room_id player_ids max_frames =
     battle_step_run env (Deliver (CreateBattleMsg battle_id room_id player_ids max_frames)) new_battle_actor"

lemma started_meta:
  assumes "env_ok env"
  shows "meta_of (started env battle_id room_id player_ids max_frames)
    \<lparr>bm_battle_id = battle_id, bm_room_id = room_id, bm_lifecycle = BattleRunning, bm_next_input_seq = 1,
     bm_max_frames = max_frames, bm_current_frame_number = 0\<rparr>"
  using assms new_battle_meta[OF assms, of battle_id room_id player_ids max_frames]
  by (simp add: started_def meta_of_def handle_create_def create_battle_world_start(2))

lemma started_log: "env_ok env \<Longrightarrow> log_inv (started env battle_id room_id player_ids max_frames)"
  using started_meta by (fastforce simp: log_inv_def started_def handle_create_def new_battle_actor_def log_open_def)

text \<open>C12: A battle is settled at most once: whatever arrives after its creation, either nothing has
  been announced, or there is exactly one settlement, immediately followed by the matching end of
  the battle, the battle is finished, and nothing but frames and acknowledgements follows: no
  input is accepted and no second settlement is made.\<close>

theorem battle_settled_once:
  assumes "env_ok env" and "list_all (\<lambda>m. \<not> creates m) steps"
    and "s = run_messages (battle_step_run env) steps (started env battle_id room_id player_ids max_frames)"
  shows "log_open (ba_events s) \<or> (log_closed (ba_events s) \<and> rt_lifecycle (runtime_state s) = BattleFinished)"
proof -
  have "log_inv s"
    unfolding assms(3) by (rule battle_log.inv_run_admitted[OF started_log[OF assms(1)] assms(2)])
  then show ?thesis using meta_runtime(1) by (auto simp: log_inv_def)
qed

theorem battle_settled_once_witness:
  "let s = run_messages (battle_step_run example_env) [Deliver (EndBattleMsg FinSurrender ''ann''),
       Deliver (TickBattleMsg ''tick''), Deliver (EndBattleMsg FinTimeout ''bob'')]
       (started example_env ''b'' ''r'' [''ann'', ''bob''] 0)
   in log_open (ba_events s) \<or> (log_closed (ba_events s) \<and> rt_lifecycle (runtime_state s) = BattleFinished)"
  unfolding Let_def by (rule battle_settled_once[OF example_env_ok _ refl]) simp

subsection \<open>A battle that times out\<close>

lemma finished_run:
  assumes "meta_of s m" and "bm_lifecycle m = BattleFinished" and "list_all (\<lambda>m. \<not> creates m) steps"
  shows "\<exists>es. ba_events (run_messages (battle_step_run env) steps s) = ba_events s @ es \<and> list_all late es"
  using assms
proof (induction steps arbitrary: s m)
  case (Cons st steps)
  let ?s = "battle_step_run env st s"
  obtain m' es where r: "meta_of ?s m'" "ba_events ?s = ba_events s @ es" "log_step m m' es"
    using battle_steps_to[OF Cons.prems(1), of st env] Cons.prems(3) by (auto simp: steps_to_def)
  with Cons.prems(2) have "bm_lifecycle m' = BattleFinished" "list_all late es" by (simp_all add: log_step_def)
  with Cons.IH[OF r(1)] Cons.prems(3) r(2) show ?case by fastforce
qed simp

text \<open>Frames without input.\<close>

definition idling :: "nat \<Rightarrow> battle_actor \<Rightarrow> bool" where
  "idling n s \<longleftrightarrow> (\<exists>b m. ba_world s = Some b \<and> env_ok (bw_env b) \<and> has_meta (bw_ecs b) m \<and> bm_max_frames m = 0 \<and>
     log_open (ba_events s) \<and> ls_max_idle_frames (bw_lifecycle_system b) = 300 \<and>
     (bm_lifecycle m = BattleFinished \<or> bm_lifecycle m = BattleRunning \<and>
        ls_last_input_seq (bw_lifecycle_system b) = bm_next_input_seq m \<and> ls_idle_frames (bw_lifecycle_system b) = n \<and> n < 300))"

lemma idle_tick:
  assumes b: "ba_world s = Some b" "env_ok (bw_env b)" "has_meta (bw_ecs b) m" and nolimit: "bm_max_frames m = 0"
    and log: "log_open (ba_events s)" and max: "ls_max_idle_frames (bw_lifecycle_system b) = 300"
  obtains b' m' f where "ba_world (handle_tick t s) = Some b'" "env_ok (bw_env b')" "has_meta (bw_ecs b') m'"
    "bm_max_frames m' = 0" "log_open (ba_events (handle_tick t s))"
    "life_next (m\<lparr>bm_current_frame_number := f\<rparr>) (bw_lifecycle_system b) m' (bw_lifecycle_system b')"
proof -
  let ?f = "u32_add (rt_frame_number (runtime_state s)) 1"
  obtain m' b' where r: "snd (battle_world_advance_frame ?f t b) = b'" "bw_env b' = bw_env b" "has_meta (bw_ecs b') m'"
    "life_next (m\<lparr>bm_current_frame_number := ?f\<rparr>) (bw_lifecycle_system b) m' (bw_lifecycle_system b')"
    "wf_should_finish (fst (battle_world_advance_frame ?f t b)) \<longrightarrow> bm_max_frames m > 0"
    by (rule advance_frame_meta[OF b(3,2), of ?f t])
  obtain res where adv: "battle_world_advance_frame ?f t b = (res, b')" using r(1) by (metis surjective_pairing)
  have nofin: "\<not> wf_should_finish res" using r(5) nolimit adv by simp
  have "bm_max_frames m' = 0"
    using r(4) nolimit by (auto simp: life_next_def split: battle_lifecycle.splits if_splits)
  moreover have "ba_world (handle_tick t s) = Some b'" "log_open (ba_events (handle_tick t s))"
    using b(1) adv nofin log by (simp_all add: handle_tick_def Let_def) (simp add: log_open_def)
  ultimately show thesis using that r(2-4) b(2) by simp
qed

lemma idling_step:
  assumes "idling n s"
  shows "idling (Suc n) (handle_tick t s)"
proof -
  obtain b m where b: "ba_world s = Some b" "env_ok (bw_env b)" "has_meta (bw_ecs b) m" "bm_max_frames m = 0"
    "log_open (ba_events s)" "ls_max_idle_frames (bw_lifecycle_system b) = 300"
    and life: "bm_lifecycle m = BattleFinished \<or> bm_lifecycle m = BattleRunning \<and>
        ls_last_input_seq (bw_lifecycle_system b) = bm_next_input_seq m \<and> ls_idle_frames (bw_lifecycle_system b) = n \<and> n < 300"
    using assms by (auto simp: idling_def)
  obtain b' m' f where r: "ba_world (handle_tick t s) = Some b'" "env_ok (bw_env b')" "has_meta (bw_ecs b') m'"
    "bm_max_frames m' = 0" "log_open (ba_events (handle_tick t s))"
    "life_next (m\<lparr>bm_current_frame_number := f\<rparr>) (bw_lifecycle_system b) m' (bw_lifecycle_system b')"
    by (rule idle_tick[OF b])
  have "u32_add n 1 = Suc n" if "n < 300" using that by (simp add: u32_add_def)
  with life r(6) b(6) have "ls_max_idle_frames (bw_lifecycle_system b') = 300 \<and>
     (bm_lifecycle m' = BattleFinished \<or> bm_lifecycle m' = BattleRunning \<and>
        ls_last_input_seq (bw_lifecycle_system b') = bm_next_input_seq m' \<and> ls_idle_frames (bw_lifecycle_system b') = Suc n \<and> Suc n < 300)"
    by (auto simp: life_next_def split: if_splits)
  with r show ?thesis unfolding idling_def by blast
qed

lemma idling_run:
  "idling n s \<Longrightarrow> idling (n + k) (run_messages (battle_step_run env) (replicate k (Deliver (TickBattleMsg t))) s)"
  by (induction k arbitrary: n s) (simp, use idling_step in fastforce)

lemma idling_first:
  assumes "env_ok env"
  shows "idling 0 (handle_tick t (started env battle_id room_id player_ids 0))"
proof -
  let ?s = "started env battle_id room_id player_ids 0"
  let ?b = "create_battle_world env battle_id room_id player_ids 0"
  have b: "ba_world ?s = Some ?b" "env_ok (bw_env ?b)" "log_open (ba_events ?s)" "bw_lifecycle_system ?b = new_lifecycle_system"
    using assms by (simp_all add: started_def handle_create_def create_battle_world_start(2) new_battle_actor_def log_open_def)
      (simp add: create_battle_world_def case_prod_beta Let_def)
  obtain b' m' f where r: "ba_world (handle_tick t ?s) = Some b'" "env_ok (bw_env b')" "has_meta (bw_ecs b') m'"
    "bm_max_frames m' = 0" "log_open (ba_events (handle_tick t ?s))"
    "life_next (\<lparr>bm_battle_id = battle_id, bm_room_id = room_id, bm_lifecycle = BattleRunning, bm_next_input_seq = 1,
     bm_max_frames = 0, bm_current_frame_number = 0\<rparr>\<lparr>bm_current_frame_number := f\<rparr>) (bw_lifecycle_system ?b) m' (bw_lifecycle_system b')"
    by (rule idle_tick[OF b(1,2) new_battle_meta[OF assms] _ b(3)]) (simp_all add: b(4) new_lifecycle_system_def)
  from r(6) have "ls_max_idle_frames (bw_lifecycle_system b') = 300 \<and>
     (bm_lifecycle m' = BattleFinished \<or> bm_lifecycle m' = BattleRunning \<and>
        ls_last_input_seq (bw_lifecycle_system b') = bm_next_input_seq m' \<and> ls_idle_frames (bw_lifecycle_system b') = 0)"
    by (auto simp: life_next_def b(4) new_lifecycle_system_def)
  with r show ?thesis unfolding idling_def by auto
qed

text \<open>A battle without a frame limit that gets no input for 301 frames is finished by the
  lifecycle system, and is then never settled: no settlement and no end of battle has been
  announced, and none will be, whatever is sent to the actor afterwards.\<close>

theorem idle_battle_never_settled:
  assumes "env_ok env" and "list_all (\<lambda>m. \<not> creates m) steps"
    and "s = run_messages (battle_step_run env) (replicate 301 (Deliver (TickBattleMsg t)))
      (started env battle_id room_id player_ids 0)"
  shows "rt_lifecycle (runtime_state s) = BattleFinished \<and>
    log_open (ba_events (run_messages (battle_step_run env) steps s))"
proof -
  have "replicate 301 (Deliver (TickBattleMsg t)) = Deliver (TickBattleMsg t) # replicate 300 (Deliver (TickBattleMsg t))"
    by (simp add: numeral_eq_Suc)
  then have s: "s = run_messages (battle_step_run env) (replicate 300 (Deliver (TickBattleMsg t)))
      (handle_tick t (started env battle_id room_id player_ids 0))"
    unfolding assms(3) by simp
  have "idling (0 + 300) s" unfolding s by (rule idling_run[OF idling_first[OF assms(1)]])
  then obtain m where m: "meta_of s m" "bm_lifecycle m = BattleFinished" and log: "log_open (ba_events s)"
    by (auto simp: idling_def meta_of_def)
  obtain es where "ba_events (run_messages (battle_step_run env) steps s) = ba_events s @ es" "list_all late es"
    using finished_run[OF m assms(2)] by blast
  with log m show ?thesis using late_not_closing[of es] meta_runtime(1)[OF m(1)] by simp
qed

theorem idle_battle_never_settled_witness:
  "let s = run_messages (battle_step_run example_env) (replicate 301 (Deliver (TickBattleMsg ''tick'')))
       (started example_env ''b'' ''r'' [''ann'', ''bob''] 0)
   in rt_lifecycle (runtime_state s) = BattleFinished \<and>
      log_open (ba_events (run_messages (battle_step_run example_env) [Deliver (EndBattleMsg FinTimeout ''ann'')] s))"
  unfolding Let_def by (rule idle_battle_never_settled[OF example_env_ok _ refl]) simp

subsection \<open>The grace period of a lost connection\<close>

text \<open>The scheduled timers are exactly the ones the actor remembers, one per player.\<close>

definition timers_ok :: "battle_actor \<Rightarrow> bool" where
  "timers_ok s \<longleftrightarrow> (\<forall>t u. (t, u) \<in> set (ba_timers s) \<longleftrightarrow> ba_disconnect_grace_timers s u = Some t) \<and>
     (\<forall>t u. (t, u) \<in> set (ba_timers s) \<longrightarrow> t < ba_next_timer s) \<and> distinct (map fst (ba_timers s))"

lemma timers_ok_cong:
  "ba_timers s' = ba_timers s \<Longrightarrow> ba_disconnect_grace_timers s' = ba_disconnect_grace_timers s \<Longrightarrow>
     ba_next_timer s' = ba_next_timer s \<Longrightarrow> timers_ok s \<Longrightarrow> timers_ok s'"
  by (simp add: timers_ok_def)

lemma same_timer: "distinct (map fst xs) \<Longrightarrow> (t, u) \<in> set xs \<Longrightarrow> (t, v) \<in> set xs \<Longrightarrow> u = v"
  by (metis Some_eq_map_of_iff option.inject)

lemma timers_ok_drop:
  assumes "timers_ok s" and "ba_disconnect_grace_timers s u = Some t"
  shows "timers_ok (s\<lparr>ba_timers := filter (\<lambda>x. fst x \<noteq> t) (ba_timers s),
    ba_disconnect_grace_timers := (ba_disconnect_grace_timers s)(u := None)\<rparr>)"
proof -
  have u: "(t, u) \<in> set (ba_timers s)" and d: "distinct (map fst (ba_timers s))"
    using assms by (simp_all add: timers_ok_def)
  have "(t, v) \<in> set (ba_timers s) \<longleftrightarrow> v = u" for v
    using u same_timer[OF d u] by blast
  moreover have "(r, u) \<in> set (ba_timers s) \<longrightarrow> r = t" for r
    using assms by (simp add: timers_ok_def)
  ultimately show ?thesis
    using assms(1) d unfolding timers_ok_def by (auto simp: distinct_map_filter)
qed

lemma timers_ok_add:
  assumes "timers_ok s" and "ba_disconnect_grace_timers s u = None"
  shows "timers_ok (s\<lparr>ba_timers := ba_timers s @ [(ba_next_timer s, u)],
    ba_disconnect_grace_timers := (ba_disconnect_grace_timers s)(u \<mapsto> ba_next_timer s), ba_next_timer := ba_next_timer s + 1\<rparr>)"
proof -
  have "ba_next_timer s \<notin> fst ` set (ba_timers s)" using assms(1) by (force simp: timers_ok_def)
  moreover have "(t, u) \<notin> set (ba_timers s)" for t using assms by (simp add: timers_ok_def)
  ultimately show ?thesis using assms(1) by (auto simp: timers_ok_def less_Suc_eq)
qed

lemma grace_frame [simp]:
  "ba_timers (handle_grace_expired u s) = ba_timers s" "ba_next_timer (handle_grace_expired u s) = ba_next_timer s"
  "ba_disconnect_grace_timers (handle_grace_expired u s) = (ba_disconnect_grace_timers s)(u := None)"
  by (simp_all add: handle_grace_expired_def Let_def)

lemma quiet_timers:
  assumes "\<forall>u. msg \<noteq> PlayerDisconnectedMsg u \<and> msg \<noteq> PlayerReconnectedMsg u \<and> msg \<noteq> DisconnectGraceTimerExpiredMsg u"
  shows "ba_timers (on_battle_message env msg s) = ba_timers s"
    "ba_disconnect_grace_timers (on_battle_message env msg s) = ba_disconnect_grace_timers s"
    "ba_next_timer (on_battle_message env msg s) = ba_next_timer s"
  using assms by (cases msg; simp add: handle_create_def handle_input_def handle_tick_def handle_end_def handle_ack_def
      Let_def split: option.split prod.split)+

text \<open>The message of a timer comes from the timer and from nowhere else.\<close>

fun genuine :: "battle_step \<Rightarrow> bool" where
  "genuine (Deliver (DisconnectGraceTimerExpiredMsg _)) = False"
| "genuine _ = True"

lemma timers_ok_step:
  assumes ok: "timers_ok s" and "genuine st"
  shows "timers_ok (battle_step_run env st s)"
proof (cases st)
  case (Expire t)
  show ?thesis
  proof (cases "map_of (ba_timers s) t")
    case (Some u)
    then have u: "ba_disconnect_grace_timers s u = Some t" using ok map_of_SomeD by (fastforce simp: timers_ok_def)
    show ?thesis
      by (rule timers_ok_cong[OF _ _ _ timers_ok_drop[OF ok u]]) (simp_all add: Expire expire_grace_timer_def Some)
  qed (use Expire ok in \<open>simp add: expire_grace_timer_def\<close>)
next
  case (Deliver msg)
  show ?thesis
  proof (cases msg)
    case (PlayerDisconnectedMsg u)
    show ?thesis
      using ok timers_ok_add[OF timers_ok_cong[of "s\<lparr>ba_world := w\<rparr>" s for w], of _ u]
      by (auto simp: Deliver PlayerDisconnectedMsg handle_disconnected_def Let_def split: option.split)
        (auto simp: timers_ok_def)
  next
    case (PlayerReconnectedMsg u)
    show ?thesis
    proof (cases "ba_world s = None \<or> ba_disconnect_grace_timers s u = None")
      case True
      then show ?thesis using ok
        by (auto simp: Deliver PlayerReconnectedMsg handle_reconnected_def timers_ok_def split: option.split)
    next
      case False
      then obtain t b where t: "ba_disconnect_grace_timers s u = Some t" "ba_world s = Some b" by auto
      show ?thesis
        by (rule timers_ok_cong[OF _ _ _ timers_ok_drop[OF ok t(1)]])
          (simp_all add: Deliver PlayerReconnectedMsg handle_reconnected_def t Let_def)
    qed
  qed (use assms Deliver quiet_timers[of msg] in \<open>auto intro: timers_ok_cong\<close>)
qed

interpretation battle_timers: guarded_actor "battle_step_run env" timers_ok genuine for env
  by unfold_locales (rule timers_ok_step)

text \<open>The settlements a timer of the player would make.\<close>

fun ends_for :: "string \<Rightarrow> battle_event \<Rightarrow> bool" where
  "ends_for u (BattleSettlementPreparedMsg st) = (bt_reason st = FinPlayerDisconnected \<and> bt_triggering_user_id st = u)"
| "ends_for u (BattleFinishedMsg _ _ reason user) = (reason = FinPlayerDisconnected \<and> user = u)"
| "ends_for u _ = False"

fun harmless :: "string \<Rightarrow> battle_step \<Rightarrow> bool" where
  "harmless u (Deliver (PlayerDisconnectedMsg v)) = (v \<noteq> u)"
| "harmless u (Deliver (DisconnectGraceTimerExpiredMsg v)) = (v \<noteq> u)"
| "harmless u (Deliver (EndBattleMsg reason v)) = (reason \<noteq> FinPlayerDisconnected \<or> v \<noteq> u)"
| "harmless u _ = True"

definition spared :: "string \<Rightarrow> battle_event list \<Rightarrow> battle_actor \<Rightarrow> bool" where
  "spared u log s \<longleftrightarrow> u \<notin> snd ` set (ba_timers s) \<and> (\<exists>es. ba_events s = log @ es \<and> list_all (\<lambda>e. \<not> ends_for u e) es)"

lemma spared_push: "spared u log s \<Longrightarrow> \<not> ends_for u e \<Longrightarrow> spared u log (battle_push e s)"
  by (auto simp: spared_def)

lemma spared_world: "spared u log (s\<lparr>ba_world := w\<rparr>) = spared u log s"
  by (simp add: spared_def)

lemma spared_finish:
  "spared u log s \<Longrightarrow> r \<noteq> FinPlayerDisconnected \<or> v \<noteq> u \<Longrightarrow> spared u log (finish_battle r v s)"
  by (auto simp: finish_battle_def Let_def spared_world intro!: spared_push)

lemma spared_step:
  assumes s: "spared u log s" and "harmless u st"
  shows "spared u log (battle_step_run env st s)"
proof (cases st)
  case (Expire t)
  show ?thesis
  proof (cases "map_of (ba_timers s) t")
    case (Some v)
    then have "v \<in> snd ` set (ba_timers s)" using map_of_SomeD by (metis image_eqI snd_conv)
    then have "v \<noteq> u" using s by (auto simp: spared_def)
    moreover have "spared u log (s\<lparr>ba_timers := filter (\<lambda>x. fst x \<noteq> t) (ba_timers s), ba_disconnect_grace_timers := g\<rparr>)" for g
      using s by (auto simp: spared_def)
    ultimately show ?thesis
      by (simp add: Expire expire_grace_timer_def Some handle_grace_expired_def Let_def spared_finish)
  qed (use Expire s in \<open>simp add: expire_grace_timer_def\<close>)
next
  case (Deliver msg)
  have fin: "wf_finish_reason (fst (battle_world_advance_frame f t b)) \<noteq> FinPlayerDisconnected" for f t b
    by (simp add: battle_world_advance_frame_def Let_def case_prod_beta)
  show ?thesis
  proof (cases msg)
    case (TickBattleMsg t)
    show ?thesis
    proof (cases "ba_world s")
      case (Some b)
      let ?r = "battle_world_advance_frame (u32_add (rt_frame_number (runtime_state s)) 1) t b"
      have "handle_tick t s = (let s2 = battle_push (BattleFrameAdvancedMsg (rt_battle_id (runtime_state (s\<lparr>ba_world := Some (snd ?r)\<rparr>)))
            (rt_room_id (runtime_state (s\<lparr>ba_world := Some (snd ?r)\<rparr>))) (wf_frame_number (fst ?r)) t) (s\<lparr>ba_world := Some (snd ?r)\<rparr>)
          in if wf_should_finish (fst ?r) then finish_battle (wf_finish_reason (fst ?r)) t s2 else s2)"
        by (simp add: handle_tick_def Some Let_def case_prod_beta)
      then show ?thesis
        using s spared_finish[OF _ disjI1[OF fin]] spared_push[of u log "s\<lparr>ba_world := Some (snd ?r)\<rparr>"]
        by (simp add: Deliver TickBattleMsg spared_world Let_def)
    qed (use s Deliver TickBattleMsg in \<open>simp add: handle_tick_def\<close>)
  next
    case (PlayerReconnectedMsg v)
    have "snd ` set (filter (\<lambda>x. fst x \<noteq> t) (ba_timers s)) \<subseteq> snd ` set (ba_timers s)" for t by auto
    then show ?thesis
      using s by (auto simp: Deliver PlayerReconnectedMsg handle_reconnected_def spared_def Let_def split: option.split)
  next
    case (PlayerDisconnectedMsg v)
    then show ?thesis
      using assms by (auto simp: Deliver handle_disconnected_def spared_def Let_def split: option.split)
  next
    case (DisconnectGraceTimerExpiredMsg v)
    have "spared u log (s\<lparr>ba_disconnect_grace_timers := g\<rparr>)" for g using s by (simp add: spared_def)
    then show ?thesis
      using assms DisconnectGraceTimerExpiredMsg by (simp add: Deliver handle_grace_expired_def Let_def spared_finish)
  qed (use assms Deliver in \<open>auto simp: handle_create_def handle_input_def handle_end_def handle_ack_def spared_world Let_def
      spared_finish intro!: spared_push split: option.split prod.split\<close>)
qed

interpretation battle_spared: guarded_actor "battle_step_run env" "spared u log" "harmless u" for env u log
  by unfold_locales (rule spared_step)

text \<open>A player who comes back in time does not end the battle: from the reconnection on, and until
  the player is lost again, no timer of the player is left, and the battle is not ended on the
  grounds that this player was disconnected.\<close>

theorem reconnect_cancels_grace:
  assumes "list_all genuine before" and "s = run_messages (battle_step_run env) before new_battle_actor"
    and "ba_world s \<noteq> None" and "list_all (harmless u) after"
    and "s' = run_messages (battle_step_run env) (Deliver (PlayerReconnectedMsg u) # after) s"
  shows "u \<notin> snd ` set (ba_timers s') \<and>
    (\<exists>es. ba_events s' = ba_events s @ es \<and> list_all (\<lambda>e. \<not> ends_for u e) es)"
proof -
  have ok: "timers_ok s"
    unfolding assms(2) by (rule battle_timers.inv_run_admitted) (simp_all add: assms(1) timers_ok_def new_battle_actor_def)
  obtain b where b: "ba_world s = Some b" using assms(3) by blast
  have "\<forall>t. (t, u) \<in> set (ba_timers s) \<longleftrightarrow> ba_disconnect_grace_timers s u = Some t"
    using ok unfolding timers_ok_def by blast
  then have "\<forall>t. (t, u) \<notin> set (ba_timers (handle_reconnected u s))"
    by (cases "ba_disconnect_grace_timers s u") (simp_all add: handle_reconnected_def b Let_def)
  then have "u \<notin> snd ` set (ba_timers (handle_reconnected u s))" by auto
  moreover have "ba_events (handle_reconnected u s) = ba_events s"
    by (simp add: handle_reconnected_def b Let_def split: option.split)
  ultimately have "spared u (ba_events s) (handle_reconnected u s)" by (simp add: spared_def)
  then have "spared u (ba_events s) s'"
    unfolding assms(5) using battle_spared.inv_run_admitted[OF _ assms(4)] by simp
  then show ?thesis by (simp add: spared_def)
qed

theorem reconnect_cancels_grace_witness:
  "let run = run_messages (battle_step_run example_env);
       s = run [Deliver (CreateBattleMsg ''b'' ''r'' [''ann'', ''bob''] 0), Deliver (PlayerDisconnectedMsg ''bob'')] new_battle_actor;
       s' = run [Deliver (PlayerReconnectedMsg ''bob''), Expire 1] s
   in ''bob'' \<notin> snd ` set (ba_timers s') \<and>
      (\<exists>es. ba_events s' = ba_events s @ es \<and> list_all (\<lambda>e. \<not> ends_for ''bob'' e) es)"
  unfolding Let_def
  by (rule reconnect_cancels_grace[OF _ refl _ _ refl]) (simp_all add: handle_create_def handle_disconnected_def Let_def)

end
