(* ===== verification/Battle_Plugin.thy ===== *)
theory Battle_Plugin
  imports Battle_Actor Instance_Runtime Json_Document
begin

text \<open>
  \<^verbatim>\<open>BattleInstancePlugin\<close> (\<^verbatim>\<open>src/v2/battle/battle_instance_plugin.cpp\<close>): the battle world behind
  the plugin interface of the realtime instance runtime.  JSON documents are trees; turning a
  tree into text belongs to the JSON library and is the parameter \<open>dump\<close>, where \<open>None\<close> is the
  exception it throws on text that is not UTF-8.
\<close>

subsection \<open>The plugin\<close>

record battle_plugin_state =
  ps_world :: battle_world
  ps_player_entities :: "string \<rightharpoonup> entity_handle"
  ps_finish_requested :: bool

fun map_to_realtime :: "battle_finish_reason \<Rightarrow> finish_reason" where
  "map_to_realtime FinFinished = KNormal"
| "map_to_realtime FinSurrender = KAllPlayersDone"
| "map_to_realtime FinTimeout = KTimeout"
| "map_to_realtime FinFrameLimitReached = KFrameLimit"
| "map_to_realtime FinPlayerDisconnected = KPlayerDisconnected"
| "map_to_realtime FinUserRequested = KUserRequested"

fun map_to_battle :: "finish_reason \<Rightarrow> battle_finish_reason" where
  "map_to_battle KNormal = FinFinished"
| "map_to_battle KAllPlayersDone = FinFinished"
| "map_to_battle KTimeout = FinTimeout"
| "map_to_battle KFrameLimit = FinFrameLimitReached"
| "map_to_battle KPlayerDisconnected = FinPlayerDisconnected"
| "map_to_battle KUserRequested = FinUserRequested"
| "map_to_battle KError = FinFinished"

text \<open>The handles of the listed players; of several participants of a name the last one visited.\<close>

definition find_player_entities :: "string list \<Rightarrow> battle_world \<Rightarrow> string \<rightharpoonup> entity_handle" where
  "find_player_entities player_ids b =
     fold (\<lambda>u. fold (\<lambda>(h, p) es. if bp_user_id p = u then es(u \<mapsto> h) else es) (participants_in (bw_order b) (bw_ecs b)))
       player_ids Map.empty"

definition on_instance_created :: "battle_env \<Rightarrow> instance_context \<Rightarrow> battle_plugin_state" where
  "on_instance_created env ctx =
     (let player_ids = map pc_user_id (ic_players ctx);
          b = create_battle_world env (ic_instance_id ctx) (ic_room_id ctx) player_ids (ic_max_frames ctx)
      in \<lparr>ps_world = b, ps_player_entities = find_player_entities player_ids b, ps_finish_requested = False\<rparr>)"

definition on_player_join :: "player_context \<Rightarrow> battle_plugin_state \<Rightarrow> battle_plugin_state" where
  "on_player_join player st =
     (if ps_player_entities st (pc_user_id player) \<noteq> None then st
      else case create_entity (bw_ecs (ps_world st)) of (entity, w) \<Rightarrow>
        st\<lparr>ps_world := (ps_world st)\<lparr>bw_ecs :=
             add_component entity TCooldown (CCooldown default_cooldown)
             (add_component entity TAttack (CAttack default_attack)
             (add_component entity THealth (CHealth default_health)
             (add_component entity TPosition (CPosition \<lparr>po_x = 0, po_y = 0\<rparr>)
             (add_component entity TParticipant (CParticipant (new_participant (pc_user_id player))) w))))\<rparr>,
           ps_player_entities := (ps_player_entities st)(pc_user_id player \<mapsto> entity)\<rparr>)"

definition on_player_leave :: "player_context \<Rightarrow> battle_plugin_state \<Rightarrow> battle_plugin_state" where
  "on_player_leave player st =
     st\<lparr>ps_world := snd (battle_world_handle_disconnect (pc_user_id player) (ps_world st))\<rparr>"

definition on_input :: "input_envelope \<Rightarrow> battle_plugin_state \<Rightarrow> input_result \<times> battle_plugin_state" where
  "on_input input st =
     (case battle_world_process_input (ie_user_id input) (ie_payload input) 0 0 (ps_world st) of (result, b) \<Rightarrow>
        (if \<not> wi_accepted result
         then \<lparr>ir_accepted = False, ir_reject_reason = wi_reject_reason result, ir_ack_seq = 0\<rparr>
         else \<lparr>ir_accepted = True, ir_reject_reason = [], ir_ack_seq = wi_input_seq result\<rparr>,
         st\<lparr>ps_world := b\<rparr>))"

definition on_tick :: "frame_context \<Rightarrow> battle_plugin_state \<Rightarrow> tick_stats \<times> battle_plugin_state" where
  "on_tick frame st =
     (let trigger = (case fc_inputs_this_tick frame of [] \<Rightarrow> ''tick'' | i # _ \<Rightarrow> ''input:'' @ ie_user_id i)
      in case battle_world_advance_frame (frame_context.fc_frame_number frame) trigger (ps_world st) of (result, b) \<Rightarrow>
        (let lifecycle_finished = (battle_world_lifecycle b = BattleFinished);
             requested = ps_finish_requested st;
             stats = \<lparr>ts_frame_number = wf_frame_number result,
                      ts_inputs_processed = length (fc_inputs_this_tick frame) mod 2 ^ 32, ts_pushes_sent = 0,
                      ts_should_finish = False, ts_finish_reason = KNormal\<rparr>
         in if wf_should_finish result \<or> lifecycle_finished \<or> requested
            then (stats\<lparr>ts_should_finish := True,
                        ts_finish_reason := (if requested then KUserRequested
                           else if wf_should_finish result then map_to_realtime (wf_finish_reason result)
                           else KNormal)\<rparr>,
                  st\<lparr>ps_world := (if lifecycle_finished then b else battle_world_set_lifecycle BattleFinished b),
                     ps_finish_requested := False\<rparr>)
            else (stats, st\<lparr>ps_world := b, ps_finish_requested := False\<rparr>)))"

subsection \<open>Snapshots and settlements\<close>

definition participant_json :: "world_participant_state \<Rightarrow> json" where
  "participant_json p = JObject [(''user_id'', JString (wp_user_id p)), (''online'', JBool (wp_online p)),
     (''score'', JInt (wp_score p)), (''pos_x'', JInt (wp_pos_x p)), (''pos_y'', JInt (wp_pos_y p)),
     (''direction_x'', JInt (wp_facing_dx p)), (''direction_y'', JInt (wp_facing_dy p)),
     (''hp'', JInt (wp_hp p)), (''max_hp'', JInt (wp_max_hp p))]"

definition projectile_json :: "world_projectile_state \<Rightarrow> json" where
  "projectile_json q = JObject [(''id'', JString (wj_projectile_id q)), (''owner'', JString (wj_owner_user_id q)),
     (''x'', JInt (wj_pos_x q)), (''y'', JInt (wj_pos_y q)), (''dx'', JInt (wj_dir_x q)), (''dy'', JInt (wj_dir_y q)),
     (''active'', JBool (wj_active q))]"

definition build_snapshot :: "(json \<Rightarrow> string option) \<Rightarrow> bool \<Rightarrow> battle_plugin_state \<Rightarrow> snapshot" where
  "build_snapshot dump is_resume st =
     (let s = battle_world_snapshot (ps_world st);
          j = JObject [(''frame'', JInt (int (ws_frame_number s))), (''trigger'', JString (ws_last_trigger s)),
                (''participants'', JArray (map participant_json (ws_participants s))),
                (''bullets'', JArray (map projectile_json (ws_projectiles s)))]
      in \<lparr>sn_frame_number = 0, sn_payload_type = ''battle.snapshot'',
          sn_payload = (case dump j of Some t \<Rightarrow> t | None \<Rightarrow> ''{\"error\":\"snapshot_failed\"}''),
          sn_is_full = True, sn_is_resume = is_resume\<rparr>)"

fun finish_reason_text :: "battle_finish_reason \<Rightarrow> string" where
  "finish_reason_text FinFinished = ''finished''"
| "finish_reason_text FinSurrender = ''surrender''"
| "finish_reason_text FinTimeout = ''timeout''"
| "finish_reason_text FinFrameLimitReached = ''frame_limit_reached''"
| "finish_reason_text FinPlayerDisconnected = ''player_disconnected''"
| "finish_reason_text FinUserRequested = ''user_requested''"

definition settlement_json :: "battle_result_summary \<Rightarrow> json" where
  "settlement_json r = JObject
     ([(''type'', JString ''battle.settlement''), (''battle_id'', JString (br_battle_id r)),
       (''room_id'', JString (br_room_id r)), (''total_frames'', JInt (int (br_total_frames r))),
       (''reason'', JString (finish_reason_text (br_reason r)))] @
      (case br_winner_user_id r of None \<Rightarrow> [] | Some u \<Rightarrow> [(''winner_user_id'', JString u)]) @
      [(''scores'', JArray (map (\<lambda>s. JObject [(''user_id'', JString (sc_user_id s)), (''score'', JInt (sc_score s))])
         (br_scores r)))])"

definition build_settlement ::
  "(json \<Rightarrow> string option) \<Rightarrow> instance_context \<Rightarrow> settlement_context \<Rightarrow> battle_plugin_state \<Rightarrow> string" where
  "build_settlement dump ctx sc st =
     (let b = ps_world st;
          r = battle_world_build_result_summary (ic_instance_id ctx) (ic_room_id ctx) (battle_world_participants b)
                (map_to_battle (sc_reason sc)) (sc_total_frames sc) b
      in case dump (settlement_json r) of
           Some t \<Rightarrow> t
         | None \<Rightarrow> ''{\"type\":\"battle.settlement\",\"error\":\"settlement_failed\"}'')"

definition battle_plugin :: "battle_env \<Rightarrow> (json \<Rightarrow> string option) \<Rightarrow> battle_plugin_state plugin" where
  "battle_plugin env dump =
     \<lparr>pg_on_instance_created = (\<lambda>ctx. Some (ctx, on_instance_created env ctx)),
      pg_on_input = (\<lambda>ctx input st. case on_input input st of (r, st') \<Rightarrow> (Some r, ctx, st')),
      pg_on_tick = (\<lambda>ctx frame st. case on_tick frame st of (stats, st') \<Rightarrow> (stats, ctx, st')),
      pg_build_snapshot = (\<lambda>ctx st. (build_snapshot dump False st, ctx, st)),
      pg_build_settlement = (\<lambda>ctx sc st. (build_settlement dump ctx sc st, ctx, st)),
      pg_build_resume_snapshot = (\<lambda>ctx player st. (build_snapshot dump True st, ctx, st))\<rparr>"

lemma battle_plugin_leaves_limits: "leaves_limits (battle_plugin env dump)"
  by (simp add: leaves_limits_def same_limits_def battle_plugin_def split: prod.split)

subsection \<open>An idle battle under the instance runtime\<close>

text \<open>The runtime holds one battle that gets no input: it is still counting idle frames, or it has
  been settled.\<close>

definition battle_idle :: "battle_env \<Rightarrow> (json \<Rightarrow> string option) \<Rightarrow> string \<Rightarrow> nat \<Rightarrow> battle_plugin_state instance_runtime \<Rightarrow> bool" where
  "battle_idle env dump iid n rt \<longleftrightarrow> rt_event_callback rt \<and>
     (\<exists>inst m. rt_instances rt = [(iid, inst)] \<and>
        (in_state inst = KFinished \<and> (\<exists>sc. InstanceFinished iid sc \<in> set (rt_events rt) \<and> sc_reason sc = KNormal) \<or>
         instance_active inst \<and> in_plugin inst = battle_plugin env dump \<and> in_queue inst = [] \<and>
         ic_max_frames (in_ctx inst) = 0 \<and> \<not> ps_finish_requested (in_world inst) \<and>
         env_ok (bw_env (ps_world (in_world inst))) \<and> has_meta (bw_ecs (ps_world (in_world inst))) m \<and>
         bm_max_frames m = 0 \<and> bm_lifecycle m = BattleRunning \<and>
         ls_max_idle_frames (bw_lifecycle_system (ps_world (in_world inst))) = 300 \<and>
         (n = 0 \<and> bw_lifecycle_system (ps_world (in_world inst)) = new_lifecycle_system \<and> bm_next_input_seq m = 1 \<or>
          0 < n \<and> n \<le> 300 \<and> ls_last_input_seq (bw_lifecycle_system (ps_world (in_world inst))) = bm_next_input_seq m \<and>
          ls_idle_frames (bw_lifecycle_system (ps_world (in_world inst))) = n - 1)))"

lemma on_tick_idle:
  assumes env: "env_ok (bw_env (ps_world st))" and m: "has_meta (bw_ecs (ps_world st)) m"
    and life: "bm_lifecycle m = BattleRunning" "bm_max_frames m = 0" and req: "\<not> ps_finish_requested st"
  obtains stats st' m' where "on_tick frame st = (stats, st')"
    "life_next (m\<lparr>bm_current_frame_number := frame_context.fc_frame_number frame\<rparr>) (bw_lifecycle_system (ps_world st)) m'
       (bw_lifecycle_system (ps_world st'))"
    "env_ok (bw_env (ps_world st'))" "has_meta (bw_ecs (ps_world st')) m'" "\<not> ps_finish_requested st'"
    "bm_max_frames m' = 0" "ts_should_finish stats \<longleftrightarrow> bm_lifecycle m' = BattleFinished" "ts_finish_reason stats = KNormal"
proof -
  let ?f = "frame_context.fc_frame_number frame" and ?b = "ps_world st"
  let ?t = "case fc_inputs_this_tick frame of [] \<Rightarrow> ''tick'' | i # _ \<Rightarrow> ''input:'' @ ie_user_id i"
  obtain m' b' where r: "snd (battle_world_advance_frame ?f ?t ?b) = b'" "bw_env b' = bw_env ?b" "has_meta (bw_ecs b') m'"
    "life_next (m\<lparr>bm_current_frame_number := ?f\<rparr>) (bw_lifecycle_system ?b) m' (bw_lifecycle_system b')"
    "wf_should_finish (fst (battle_world_advance_frame ?f ?t ?b)) \<longrightarrow> bm_max_frames m > 0"
    by (rule advance_frame_meta[OF m env, of ?f ?t])
  obtain res where adv: "battle_world_advance_frame ?f ?t ?b = (res, b')" using r(1) by (metis surjective_pairing)
  have fin: "\<not> wf_should_finish res" using r(5) life(2) adv by simp
  have lc: "battle_world_lifecycle b' = bm_lifecycle m'"
    using has_meta_read(2)[OF r(3)] r(2) env by (simp add: battle_world_lifecycle_def)
  have max: "bm_max_frames m' = 0" using r(4) life by (auto simp: life_next_def split: if_splits)
  show thesis
    by (rule that[of "fst (on_tick frame st)" "snd (on_tick frame st)" m'])
      (use r fin lc max env req in \<open>simp_all add: on_tick_def adv Let_def\<close>)
qed

lemma idle_count:
  assumes next_life: "life_next (m\<lparr>bm_current_frame_number := f\<rparr>) ls m' ls'"
    and "bm_lifecycle m = BattleRunning" and "ls_max_idle_frames ls = 300"
    and "n = 0 \<and> ls = new_lifecycle_system \<and> bm_next_input_seq m = 1 \<or>
      0 < n \<and> n \<le> 300 \<and> ls_last_input_seq ls = bm_next_input_seq m \<and> ls_idle_frames ls = n - 1"
  shows "ls_max_idle_frames ls' = 300 \<and> (bm_lifecycle m' = BattleFinished \<or> bm_lifecycle m' = BattleRunning \<and>
    Suc n \<le> 300 \<and> ls_last_input_seq ls' = bm_next_input_seq m' \<and> ls_idle_frames ls' = n)"
proof -
  have "u32_add (n - 1) 1 = n" if "0 < n" "n \<le> 300" using that by (simp add: u32_add_def)
  with assms show ?thesis by (auto simp: life_next_def new_lifecycle_system_def split: if_splits)
qed

lemma battle_idle_tick:
  assumes "battle_idle env dump iid n rt"
  shows "battle_idle env dump iid (Suc n) (snd (tick_all now rt))"
proof -
  obtain inst m where rt: "rt_event_callback rt" "rt_instances rt = [(iid, inst)]"
    and or: "in_state inst = KFinished \<and> (\<exists>sc. InstanceFinished iid sc \<in> set (rt_events rt) \<and> sc_reason sc = KNormal) \<or>
         instance_active inst \<and> in_plugin inst = battle_plugin env dump \<and> in_queue inst = [] \<and>
         ic_max_frames (in_ctx inst) = 0 \<and> \<not> ps_finish_requested (in_world inst) \<and>
         env_ok (bw_env (ps_world (in_world inst))) \<and> has_meta (bw_ecs (ps_world (in_world inst))) m \<and>
         bm_max_frames m = 0 \<and> bm_lifecycle m = BattleRunning \<and>
         ls_max_idle_frames (bw_lifecycle_system (ps_world (in_world inst))) = 300 \<and>
         (n = 0 \<and> bw_lifecycle_system (ps_world (in_world inst)) = new_lifecycle_system \<and> bm_next_input_seq m = 1 \<or>
          0 < n \<and> n \<le> 300 \<and> ls_last_input_seq (bw_lifecycle_system (ps_world (in_world inst))) = bm_next_input_seq m \<and>
          ls_idle_frames (bw_lifecycle_system (ps_world (in_world inst))) = n - 1)"
    using assms unfolding battle_idle_def by blast
  from or show ?thesis
  proof (elim disjE)
    assume fin: "in_state inst = KFinished \<and> (\<exists>sc. InstanceFinished iid sc \<in> set (rt_events rt) \<and> sc_reason sc = KNormal)"
    then have "tick_all now rt = ([], rt)" by (simp add: tick_all_def rt(2) instance_active_def)
    with fin rt show ?thesis unfolding battle_idle_def by auto
  next
    assume a: "instance_active inst \<and> in_plugin inst = battle_plugin env dump \<and> in_queue inst = [] \<and>
         ic_max_frames (in_ctx inst) = 0 \<and> \<not> ps_finish_requested (in_world inst) \<and>
         env_ok (bw_env (ps_world (in_world inst))) \<and> has_meta (bw_ecs (ps_world (in_world inst))) m \<and>
         bm_max_frames m = 0 \<and> bm_lifecycle m = BattleRunning \<and>
         ls_max_idle_frames (bw_lifecycle_system (ps_world (in_world inst))) = 300 \<and>
         (n = 0 \<and> bw_lifecycle_system (ps_world (in_world inst)) = new_lifecycle_system \<and> bm_next_input_seq m = 1 \<or>
          0 < n \<and> n \<le> 300 \<and> ls_last_input_seq (bw_lifecycle_system (ps_world (in_world inst))) = bm_next_input_seq m \<and>
          ls_idle_frames (bw_lifecycle_system (ps_world (in_world inst))) = n - 1)"
    let ?f = "u32_add (in_current_frame inst) 1"
    let ?frame = "\<lparr>fc_frame_number = ?f, fc_tick_start_ms = now, fc_inputs_this_tick = []\<rparr>"
    obtain stats st' m' where t: "on_tick ?frame (in_world inst) = (stats, st')"
      "life_next (m\<lparr>bm_current_frame_number := frame_context.fc_frame_number ?frame\<rparr>)
         (bw_lifecycle_system (ps_world (in_world inst))) m' (bw_lifecycle_system (ps_world st'))"
      "env_ok (bw_env (ps_world st'))" "has_meta (bw_ecs (ps_world st')) m'" "\<not> ps_finish_requested st'"
      "bm_max_frames m' = 0" "ts_should_finish stats \<longleftrightarrow> bm_lifecycle m' = BattleFinished" "ts_finish_reason stats = KNormal"
      by (rule on_tick_idle[of "in_world inst" m ?frame]) (use a in auto)
    have c: "ls_max_idle_frames (bw_lifecycle_system (ps_world st')) = 300 \<and>
       (bm_lifecycle m' = BattleFinished \<or> bm_lifecycle m' = BattleRunning \<and> Suc n \<le> 300 \<and>
        ls_last_input_seq (bw_lifecycle_system (ps_world st')) = bm_next_input_seq m' \<and>
        ls_idle_frames (bw_lifecycle_system (ps_world st')) = n)"
      by (rule idle_count[OF t(2)]) (use a in auto)
    define inst1 where "inst1 = (if in_state inst = KWaitingPlayers
        then inst\<lparr>in_state := KRunning, in_running_since_ms := now\<rparr> else inst)\<lparr>in_current_frame := ?f, in_queue := [], in_world := st'\<rparr>"
    have body: "\<exists>snap. tick_body (rt_moved_string rt) ?f now inst = (inst1, stats, snap)"
      using a t(1) by (auto simp: tick_body_def Let_def battle_plugin_def inst1_def)
    then obtain snap where snap: "tick_body (rt_moved_string rt) ?f now inst = (inst1, stats, snap)" by blast
    define rt1 where "rt1 = emit_event (SnapshotAvailable iid snap) (put_instance iid inst1 rt)"
    have rt1: "rt_instances rt1 = [(iid, inst1)]" "rt_event_callback rt1"
      using rt by (simp_all add: rt1_def put_instance_def)
    have tick: "snd (tick_all now rt) = (if ts_should_finish stats then finish_instance iid KNormal rt1 else rt1)"
    proof -
      have find: "find_instance_locked iid rt = Some inst" by (simp add: find_instance_locked_def rt(2))
      have "snd (tick_instance iid ?f now rt) = (if ts_should_finish stats then finish_instance iid KNormal rt1 else rt1)"
        using a t(8) snap by (simp add: tick_instance_def find rt1_def)
      then show ?thesis using a by (simp add: tick_all_def rt(2) case_prod_beta)
    qed
    have act: "instance_active inst1" using a by (auto simp: inst1_def instance_active_def)
    show ?thesis
    proof (cases "bm_lifecycle m' = BattleFinished")
      case True
      have "in_state inst1 \<noteq> KFinished \<and> in_state inst1 \<noteq> KClosed" using act by (auto simp: instance_active_def)
      then obtain sc inst2 where fin: "finish_instance iid KNormal rt1 = emit_event (InstanceFinished iid sc) (put_instance iid inst2 rt1)"
        "sc_reason sc = KNormal" "in_state inst2 = KFinished"
        using rt1(1) by (simp add: finish_instance_def find_instance_locked_def Let_def case_prod_beta)
      have "rt_instances (put_instance iid inst2 rt1) = [(iid, inst2)]" by (simp add: put_instance_def rt1(1))
      moreover have "rt_event_callback (put_instance iid inst2 rt1)" using rt1(2) by simp
      moreover have "snd (tick_all now rt) = emit_event (InstanceFinished iid sc) (put_instance iid inst2 rt1)"
        using tick True t(7) fin(1) by simp
      ultimately show ?thesis using fin(2,3) unfolding battle_idle_def by auto
    next
      case False
      then have "snd (tick_all now rt) = rt1" using tick t(7) by simp
      moreover have "in_plugin inst1 = battle_plugin env dump" "in_queue inst1 = []" "ic_max_frames (in_ctx inst1) = 0"
        "in_world inst1 = st'" using a by (simp_all add: inst1_def)
      ultimately show ?thesis
        using False c rt1 act t(3-6) unfolding battle_idle_def by auto
    qed
  qed
qed

lemma battle_idle_run:
  "battle_idle env dump iid n rt \<Longrightarrow>
     battle_idle env dump iid (n + length nows) (fold (\<lambda>now rt. snd (tick_all now rt)) nows rt)"
proof (induction nows arbitrary: n rt)
  case (Cons now nows)
  from Cons.IH[OF battle_idle_tick[OF Cons.prems, of now]] show ?case by simp
qed simp

lemma battle_idle_created:
  assumes "env_ok env" and "rt_instances rt = []" and "rt_event_callback rt" and "0 < rt_max_instances rt"
    and "rt_plugin_factories rt ty = Some (battle_plugin env dump)"
  shows "battle_idle env dump iid 0 (snd (create_instance iid room ty party tick_interval 0 resume_window now rt))"
proof -
  let ?ctx = "\<lparr>ic_instance_id = iid, ic_room_id = room, ic_instance_type = ty, ic_players = party,
    ic_tick_interval_ms = tick_interval, ic_max_frames = 0, ic_input_queue_limit = 64,
    ic_resume_window_ms = resume_window, ic_created_at_ms = now\<rparr>"
  let ?st = "on_instance_created env ?ctx"
  let ?b = "create_battle_world env iid room (map pc_user_id party) 0"
  have st: "ps_world ?st = ?b" "\<not> ps_finish_requested ?st" by (simp_all add: on_instance_created_def Let_def)
  have b: "bw_env ?b = env" "bw_lifecycle_system ?b = new_lifecycle_system"
    by (simp_all add: create_battle_world_start(2)) (simp add: create_battle_world_def case_prod_beta Let_def)
  define inst where "inst = \<lparr>in_ctx = ?ctx, in_state = KWaitingPlayers, in_plugin = battle_plugin env dump, in_world = ?st,
    in_queue = [], in_current_frame = 0, in_running_since_ms = 0, in_ack_seq_counter = 0, in_player_input = Map.empty\<rparr>"
  have "snd (create_instance iid room ty party tick_interval 0 resume_window now rt) =
      emit_event (InstanceCreated iid) (put_instance iid inst rt)"
    using assms by (simp add: create_instance_def find_instance_locked_def battle_plugin_def Let_def inst_def)
  moreover have "rt_instances (put_instance iid inst rt) = [(iid, inst)]" by (simp add: put_instance_def assms(2))
  moreover have "instance_active inst" "in_plugin inst = battle_plugin env dump" "in_queue inst = []"
    "ic_max_frames (in_ctx inst) = 0" "in_world inst = ?st" by (simp_all add: inst_def instance_active_def)
  ultimately show ?thesis
    using new_battle_meta[OF assms(1), of iid room "map pc_user_id party" 0] assms(1,3) st b
    unfolding battle_idle_def by (fastforce simp: new_lifecycle_system_def)
qed

text \<open>The battle world under the instance runtime: an instance without a frame limit that gets no
  input is finished after at most 301 rounds of ticks, and its settlement is announced.\<close>

theorem idle_instance_settled:
  assumes "env_ok env" and "rt_instances rt = []" and "rt_event_callback rt" and "0 < rt_max_instances rt"
    and "rt_plugin_factories rt ty = Some (battle_plugin env dump)" and "301 \<le> length nows"
    and "rt' = fold (\<lambda>now rt. snd (tick_all now rt)) nows
      (snd (create_instance iid room ty party tick_interval 0 resume_window now rt))"
  shows "get_instance_state iid rt' = KFinished \<and>
    (\<exists>sc. InstanceFinished iid sc \<in> set (rt_events rt') \<and> sc_reason sc = KNormal)"
proof -
  have "battle_idle env dump iid (0 + length nows) rt'"
    unfolding assms(7) by (rule battle_idle_run[OF battle_idle_created[OF assms(1-5)]])
  with assms(6) show ?thesis
    by (auto simp: battle_idle_def get_instance_state_def find_instance_locked_def)
qed

theorem idle_instance_settled_witness:
  "let rt = set_event_callback True (register_plugin ''battle'' (battle_plugin example_env (\<lambda>_. None)) (new_instance_runtime 4 []));
       rt' = fold (\<lambda>now rt. snd (tick_all now rt)) (replicate 301 0) (snd (create_instance ''i'' ''r'' ''battle'' [] 33 0 0 0 rt))
   in get_instance_state ''i'' rt' = KFinished \<and> (\<exists>sc. InstanceFinished ''i'' sc \<in> set (rt_events rt') \<and> sc_reason sc = KNormal)"
  unfolding Let_def
  by (rule idle_instance_settled[OF example_env_ok _ _ _ _ _ refl, where dump = "\<lambda>_. None"])
    (simp_all add: set_event_callback_def register_plugin_def new_instance_runtime_def)

end
