(* ===== verification/Leaderboard.thy ===== *)
theory Leaderboard
  imports Prelude "HOL-Library.Char_ord" "HOL-Library.List_Lexorder"
begin

text \<open>
  The leaderboard service (\<^verbatim>\<open>src/v2/leaderboard/leaderboard_service.cpp\<close>): the sorted set of scores,
  and the request handlers over it.  A \<^verbatim>\<open>std::multiset\<close> is the list of its elements in order.
  Requests and replicated commands are records of the JSON fields the code reads; the optional
  Redis mirror is a record of the operations the service calls; what the Raft node answers to
  \<^verbatim>\<open>append_command\<close>, and the commands it delivers meanwhile, are an argument.
\<close>

subsection \<open>The sorted set\<close>

definition score_compare :: "int \<times> string \<Rightarrow> int \<times> string \<Rightarrow> bool" where
  "score_compare a b = (if fst a \<noteq> fst b then fst a > fst b else snd a < snd b)"

fun sorted_insert :: "int \<times> string \<Rightarrow> (int \<times> string) list \<Rightarrow> (int \<times> string) list" where
  "sorted_insert x [] = [x]"
| "sorted_insert x (y # ys) = (if score_compare x y then x # y # ys else y # sorted_insert x ys)"

definition sorted_erase :: "int \<times> string \<Rightarrow> (int \<times> string) list \<Rightarrow> (int \<times> string) list" where
  "sorted_erase x ys = filter (\<lambda>y. score_compare x y \<or> score_compare y x) ys"

record leaderboard_entry =
  le_user_id :: string
  le_display_name :: string
  le_score :: int
  le_rank :: int

record sorted_set =
  so_sorted :: "(int \<times> string) list"
  so_user_scores :: "string \<rightharpoonup> int"
  so_display_names :: "string \<rightharpoonup> string"

definition new_sorted_set :: sorted_set where
  "new_sorted_set = \<lparr>so_sorted = [], so_user_scores = Map.empty, so_display_names = Map.empty\<rparr>"

definition submit :: "string \<Rightarrow> string \<Rightarrow> int \<Rightarrow> sorted_set \<Rightarrow> sorted_set" where
  "submit user_id display_name score s =
     (let kept = (case so_user_scores s user_id of
                    None \<Rightarrow> so_sorted s
                  | Some old \<Rightarrow> sorted_erase (old, user_id) (so_sorted s))
      in s\<lparr>so_user_scores := (so_user_scores s)(user_id \<mapsto> score),
           so_sorted := sorted_insert (score, user_id) kept,
           so_display_names := (if display_name = [] then so_display_names s
                                else (so_display_names s)(user_id \<mapsto> display_name))\<rparr>)"

definition name_of :: "string \<Rightarrow> sorted_set \<Rightarrow> string" where
  "name_of user_id s = (case so_display_names s user_id of None \<Rightarrow> [] | Some n \<Rightarrow> n)"

fun top_loop :: "sorted_set \<Rightarrow> nat \<Rightarrow> nat \<Rightarrow> int \<Rightarrow> (int \<times> string) list \<Rightarrow> leaderboard_entry list" where
  "top_loop s k found rank [] = []"
| "top_loop s k found rank ((score, user_id) # rest) =
     (if found \<ge> k then []
      else \<lparr>le_user_id = user_id, le_display_name = name_of user_id s, le_score = score, le_rank = rank\<rparr> #
           top_loop s k (found + 1) (rank + 1) rest)"

definition top_k :: "nat \<Rightarrow> sorted_set \<Rightarrow> leaderboard_entry list" where
  "top_k k s = top_loop s k 0 1 (so_sorted s)"

fun rank_loop :: "string \<Rightarrow> int \<Rightarrow> (int \<times> string) list \<Rightarrow> int" where
  "rank_loop user_id rank [] = 0"
| "rank_loop user_id rank ((score, uid) # rest) = (if uid = user_id then rank else rank_loop user_id (rank + 1) rest)"

definition rank_of :: "string \<Rightarrow> sorted_set \<Rightarrow> leaderboard_entry option" where
  "rank_of user_id s =
     (case so_user_scores s user_id of
        None \<Rightarrow> None
      | Some score \<Rightarrow> Some \<lparr>le_user_id = user_id, le_display_name = name_of user_id s, le_score = score,
                           le_rank = rank_loop user_id 1 (so_sorted s)\<rparr>)"

definition set_size :: "sorted_set \<Rightarrow> nat" where
  "set_size s = length (so_sorted s)"

subsection \<open>The service\<close>

record 'r redis_leaderboard =
  rl_available :: "'r \<Rightarrow> bool"
  rl_rank_of :: "string \<Rightarrow> 'r \<Rightarrow> leaderboard_entry option"
  rl_top_k :: "nat \<Rightarrow> 'r \<Rightarrow> leaderboard_entry list"
  rl_submit :: "string \<Rightarrow> string \<Rightarrow> int \<Rightarrow> 'r \<Rightarrow> 'r"

record score_event =
  ev_user_id :: string
  ev_score :: int
  ev_display_name :: string
  ev_previous_score :: int

record 'r leaderboard_service =
  lb_leaderboard :: sorted_set
  lb_redis :: "('r redis_leaderboard \<times> 'r) option"
  lb_event_store :: "score_event list option"
  lb_idempotency_keys :: "string set"

text \<open>The mirror, when it is configured and reachable.\<close>

definition redis_up :: "'r leaderboard_service \<Rightarrow> ('r redis_leaderboard \<times> 'r) option" where
  "redis_up s = (case lb_redis s of None \<Rightarrow> None | Some (ops, r) \<Rightarrow> if rl_available ops r then Some (ops, r) else None)"

definition apply_submit :: "string \<Rightarrow> string \<Rightarrow> int \<Rightarrow> 'r leaderboard_service \<Rightarrow> 'r leaderboard_service" where
  "apply_submit user_id display_name score s =
     (let mirrored = (case redis_up s of None \<Rightarrow> None | Some (ops, r) \<Rightarrow> rl_rank_of ops user_id r);
          previous = (case mirrored of
              Some e \<Rightarrow> le_score e
            | None \<Rightarrow> (case rank_of user_id (lb_leaderboard s) of Some e \<Rightarrow> le_score e | None \<Rightarrow> 0));
          s1 = s\<lparr>lb_leaderboard := submit user_id display_name score (lb_leaderboard s)\<rparr>;
          s2 = (case redis_up s1 of None \<Rightarrow> s1
                | Some (ops, r) \<Rightarrow> s1\<lparr>lb_redis := Some (ops, rl_submit ops user_id display_name score r)\<rparr>)
      in s2\<lparr>lb_event_store := map_option (\<lambda>es. es @ [\<lparr>ev_user_id = user_id, ev_score = score,
             ev_display_name = display_name, ev_previous_score = previous\<rparr>]) (lb_event_store s2)\<rparr>)"

definition service_rank_of :: "string \<Rightarrow> 'r leaderboard_service \<Rightarrow> int option" where
  "service_rank_of user_id s =
     (case (case redis_up s of None \<Rightarrow> None | Some (ops, r) \<Rightarrow> rl_rank_of ops user_id r) of
        Some e \<Rightarrow> Some (le_rank e)
      | None \<Rightarrow> map_option le_rank (rank_of user_id (lb_leaderboard s)))"

record submit_command =
  cm_v :: int
  cm_op :: string
  cm_user_id :: string
  cm_display_name :: string
  cm_score :: int

definition make_submit_command :: "string \<Rightarrow> string \<Rightarrow> int \<Rightarrow> submit_command" where
  "make_submit_command user_id display_name score =
     \<lparr>cm_v = 1, cm_op = ''leaderboard_submit'', cm_user_id = user_id, cm_display_name = display_name, cm_score = score\<rparr>"

text \<open>\<open>None\<close> is a command that is not JSON.\<close>

definition apply_raft_entry :: "submit_command option \<Rightarrow> 'r leaderboard_service \<Rightarrow> 'r leaderboard_service" where
  "apply_raft_entry command s =
     (case command of
        None \<Rightarrow> s
      | Some c \<Rightarrow> if cm_v c \<noteq> 1 \<or> cm_op c \<noteq> ''leaderboard_submit'' \<or> cm_user_id c = [] then s
                  else apply_submit (cm_user_id c) (cm_display_name c) (cm_score c) s)"

datatype raft_role =
    NoRaft
  | RaftFollower string
  | RaftLeader "submit_command \<Rightarrow> bool \<times> submit_command option list"

record submit_request =
  sq_user_id :: string
  sq_display_name :: string
  sq_score :: int
  sq_idempotency_key :: string

datatype lb_response =
    LbError int string
  | LbSubmitted string "int option" bool
  | LbEntries "leaderboard_entry list"
  | LbRank string int int

text \<open>The score is read with an \<^verbatim>\<open>int\<close> default, which converts it to 32 bits.\<close>

definition handle_submit ::
  "raft_role \<Rightarrow> submit_request option \<Rightarrow> 'r leaderboard_service \<Rightarrow> lb_response \<times> 'r leaderboard_service" where
  "handle_submit raft req s =
     (case req of
        None \<Rightarrow> (LbError (-1004) ''invalid_json'', s)
      | Some q \<Rightarrow>
         (let user_id = sq_user_id q; score = to_int32 (sq_score q); key = sq_idempotency_key q in
          if user_id = [] then (LbError (-1004) ''empty_user_id'', s)
          else if key \<noteq> [] \<and> key \<in> lb_idempotency_keys s
          then (LbSubmitted user_id (service_rank_of user_id s) True, s)
          else
           (let s1 = (if key = [] then s else s\<lparr>lb_idempotency_keys := insert key (lb_idempotency_keys s)\<rparr>) in
            case raft of
              NoRaft \<Rightarrow> (let s2 = apply_submit user_id (sq_display_name q) score s1
                         in (LbSubmitted user_id (service_rank_of user_id s2) False, s2))
            | RaftFollower hint \<Rightarrow> (LbError (-1003) (''not_raft_leader:'' @ hint), s1)
            | RaftLeader append_command \<Rightarrow>
                (case append_command (make_submit_command user_id (sq_display_name q) score) of (ok, delivered) \<Rightarrow>
                   (let s2 = fold apply_raft_entry delivered s1
                    in if ok then (LbSubmitted user_id (service_rank_of user_id s2) False, s2)
                       else (LbError (-1005) ''raft_commit_failed'', s2))))))"

text \<open>A negative \<^verbatim>\<open>k\<close> becomes a huge unsigned number, which the cap cuts to 100.\<close>

definition requested_k :: "int option \<Rightarrow> nat" where
  "requested_k k = (let n = to_int32 (case k of None \<Rightarrow> 10 | Some n \<Rightarrow> n) in if n < 0 \<or> n > 100 then 100 else nat n)"

definition handle_top :: "int option option \<Rightarrow> 'r leaderboard_service \<Rightarrow> lb_response" where
  "handle_top req s =
     (case req of
        None \<Rightarrow> LbError (-1004) ''invalid_json''
      | Some k \<Rightarrow>
         (let n = requested_k k
          in LbEntries (case redis_up s of
               Some (ops, r) \<Rightarrow> (let entries = rl_top_k ops n r
                  in if entries = [] \<and> set_size (lb_leaderboard s) > 0 then top_k n (lb_leaderboard s) else entries)
             | None \<Rightarrow> top_k n (lb_leaderboard s))))"

definition handle_rank :: "string option \<Rightarrow> 'r leaderboard_service \<Rightarrow> lb_response" where
  "handle_rank req s =
     (case req of
        None \<Rightarrow> LbError (-1004) ''invalid_json''
      | Some user_id \<Rightarrow>
          if user_id = [] then LbError (-1004) ''empty_user_id''
          else
           (let mirrored = (case redis_up s of None \<Rightarrow> None | Some (ops, r) \<Rightarrow> rl_rank_of ops user_id r);
                entry = (case mirrored of None \<Rightarrow> rank_of user_id (lb_leaderboard s) | Some e \<Rightarrow> Some e)
            in case entry of
                 None \<Rightarrow> LbError (-1003) ''user_not_found''
               | Some e \<Rightarrow> LbRank (le_user_id e) (le_rank e) (le_score e)))"

subsection \<open>The order of the scores\<close>

text \<open>The comparator is a strict total order.\<close>

lemma score_compare_irrefl: "\<not> score_compare a a"
  by (simp add: score_compare_def)

lemma score_compare_trans: "score_compare a b \<Longrightarrow> score_compare b c \<Longrightarrow> score_compare a c"
  by (auto simp: score_compare_def split: if_splits)

lemma score_compare_total: "score_compare a b \<or> score_compare b a \<longleftrightarrow> a \<noteq> b"
  by (cases a; cases b) (auto simp: score_compare_def)

lemma sorted_erase_removeAll: "sorted_erase x ys = removeAll x ys"
proof -
  have "score_compare x y \<or> score_compare y x \<longleftrightarrow> x \<noteq> y" for y by (rule score_compare_total)
  then show ?thesis unfolding sorted_erase_def removeAll_filter_not_eq by simp
qed

lemma set_sorted_insert: "set (sorted_insert x ys) = insert x (set ys)"
  by (induction ys) auto

lemma sorted_insert_sorted:
  assumes "sorted_wrt score_compare ys" and "x \<notin> set ys"
  shows "sorted_wrt score_compare (sorted_insert x ys)"
  using assms
proof (induction ys)
  case (Cons y ys)
  show ?case
  proof (cases "score_compare x y")
    case True
    with Cons.prems(1) score_compare_trans show ?thesis by fastforce
  next
    case False
    then have "score_compare y x" using score_compare_total[of x y] Cons.prems(2) by auto
    with False Cons show ?thesis by (simp add: set_sorted_insert)
  qed
qed simp

text \<open>The set of the pairs and the map from users to scores describe the same board.\<close>

definition board_ok :: "sorted_set \<Rightarrow> bool" where
  "board_ok s \<longleftrightarrow> sorted_wrt score_compare (so_sorted s) \<and>
     (\<forall>score u. (score, u) \<in> set (so_sorted s) \<longleftrightarrow> so_user_scores s u = Some score)"

lemma board_ok_new: "board_ok new_sorted_set"
  by (simp add: board_ok_def new_sorted_set_def)

lemma board_ok_submit:
  assumes "board_ok s"
  shows "board_ok (submit u n score s)"
proof -
  define kept where "kept = (case so_user_scores s u of None \<Rightarrow> so_sorted s
    | Some old \<Rightarrow> sorted_erase (old, u) (so_sorted s))"
  have kept: "set kept = {(sc, v). (sc, v) \<in> set (so_sorted s) \<and> v \<noteq> u}"
    using assms by (cases "so_user_scores s u") (auto simp: kept_def sorted_erase_removeAll board_ok_def)
  have "sorted_wrt score_compare kept"
    using assms by (auto simp: kept_def board_ok_def sorted_erase_def sorted_wrt_filter split: option.split)
  then have "sorted_wrt score_compare (sorted_insert (score, u) kept)"
    by (rule sorted_insert_sorted) (simp add: kept)
  moreover have "(sc, v) \<in> set (sorted_insert (score, u) kept) \<longleftrightarrow> ((so_user_scores s)(u \<mapsto> score)) v = Some sc" for sc v
    using assms by (auto simp: set_sorted_insert kept board_ok_def)
  ultimately show ?thesis
    unfolding board_ok_def submit_def Let_def kept_def[symmetric] by simp
qed

lemma board_sorted_distinct: "board_ok s \<Longrightarrow> distinct (so_sorted s)"
proof -
  have "sorted_wrt score_compare xs \<Longrightarrow> distinct xs" for xs
    by (induction xs) (auto simp: score_compare_irrefl)
  then show "board_ok s \<Longrightarrow> distinct (so_sorted s)" by (simp add: board_ok_def)
qed

lemma board_size: "board_ok s \<Longrightarrow> length (so_sorted s) = card (dom (so_user_scores s))"
proof -
  assume ok: "board_ok s"
  have "dom (so_user_scores s) = snd ` set (so_sorted s)" using ok by (force simp: board_ok_def dom_def image_iff)
  moreover have "inj_on snd (set (so_sorted s))" using ok by (auto simp: board_ok_def inj_on_def)
  ultimately show ?thesis by (simp add: card_image distinct_card[OF board_sorted_distinct[OF ok]])
qed

text \<open>The position in the list counts the elements ahead.\<close>

lemma rank_loop_split:
  "u \<notin> snd ` set xs \<Longrightarrow> rank_loop u r (xs @ (sc, u) # ys) = r + int (length xs)"
  by (induction xs arbitrary: r) auto

lemma ahead_prefix:
  assumes "sorted_wrt score_compare (xs @ y # ys)"
  shows "{z \<in> set (xs @ y # ys). score_compare z y} = set xs"
proof -
  have "\<not> score_compare z y" if "z \<in> set ys" for z
    using assms that score_compare_trans[of z y z] score_compare_irrefl[of z] by (auto simp: sorted_wrt_append)
  then show ?thesis using assms score_compare_irrefl[of y] by (auto simp: sorted_wrt_append)
qed

lemma rank_of_count:
  assumes ok: "board_ok s" and sc: "so_user_scores s u = Some sc"
  shows "rank_loop u 1 (so_sorted s) =
    1 + int (card {v. \<exists>sv. so_user_scores s v = Some sv \<and> score_compare (sv, v) (sc, u)})"
proof -
  have "(sc, u) \<in> set (so_sorted s)" using ok sc by (simp add: board_ok_def)
  then obtain xs ys where split: "so_sorted s = xs @ (sc, u) # ys" by (meson split_list)
  have dist: "distinct xs" using board_sorted_distinct[OF ok] split by simp
  have inj: "inj_on snd (set (so_sorted s))" using ok by (auto simp: board_ok_def inj_on_def)
  have "u \<notin> snd ` set xs"
  proof
    assume "u \<in> snd ` set xs"
    then obtain sc' where "(sc', u) \<in> set xs" by force
    moreover from this have "(sc', u) \<in> set (so_sorted s)" by (simp add: split)
    then have "sc' = sc" using ok sc unfolding board_ok_def by (metis option.inject)
    ultimately show False using board_sorted_distinct[OF ok] split by simp
  qed
  moreover have "{v. \<exists>sv. so_user_scores s v = Some sv \<and> score_compare (sv, v) (sc, u)} = snd ` set xs"
  proof -
    have "{v. \<exists>sv. so_user_scores s v = Some sv \<and> score_compare (sv, v) (sc, u)} =
        snd ` {z \<in> set (so_sorted s). score_compare z (sc, u)}"
      using ok by (force simp: board_ok_def)
    then show ?thesis using ahead_prefix[of xs "(sc, u)" ys] ok split by (simp add: board_ok_def)
  qed
  moreover have "card (snd ` set xs) = length xs"
    using inj split dist by (simp add: card_image distinct_card inj_on_def)
  ultimately show ?thesis by (simp add: split rank_loop_split)
qed

text \<open>The first \<open>k\<close> entries.\<close>

lemma top_loop_take:
  "top_loop s k n r xs = map (\<lambda>(i, sc, u). \<lparr>le_user_id = u, le_display_name = name_of u s, le_score = sc, le_rank = r + int i\<rparr>)
     (enumerate 0 (take (k - n) xs))"
proof (induction xs arbitrary: n r)
  case (Cons x xs)
  show ?case
  proof (cases "n \<ge> k")
    case False
    then have "k - n = Suc (k - (n + 1))" by simp
    then show ?thesis
      using False Cons.IH[of "n + 1" "r + 1"]
      by (cases x) (simp add: enumerate_Suc_eq case_prod_beta comp_def add.assoc add.commute[of 1])
  qed (cases x, simp)
qed simp

lemma rank_of_entry:
  assumes ok: "board_ok s" and i: "i < length (so_sorted s)" and e: "so_sorted s ! i = (sc, u)"
  shows "rank_of u s = Some \<lparr>le_user_id = u, le_display_name = name_of u s, le_score = sc, le_rank = 1 + int i\<rparr>"
proof -
  have split: "so_sorted s = take i (so_sorted s) @ (sc, u) # drop (Suc i) (so_sorted s)"
    using id_take_nth_drop[OF i] e by simp
  have sc: "so_user_scores s u = Some sc" using ok nth_mem[OF i] e by (simp add: board_ok_def)
  have "u \<notin> snd ` set (take i (so_sorted s))"
  proof
    assume "u \<in> snd ` set (take i (so_sorted s))"
    then obtain sc' where sc': "(sc', u) \<in> set (take i (so_sorted s))" by force
    then have "(sc', u) \<in> set (so_sorted s)" by (meson in_set_takeD)
    then have "sc' = sc" using ok sc unfolding board_ok_def by (metis option.inject)
    with sc' board_sorted_distinct[OF ok] show False by (subst (asm) split) simp
  qed
  then have "rank_loop u 1 (take i (so_sorted s) @ (sc, u) # drop (Suc i) (so_sorted s)) = 1 + int (length (take i (so_sorted s)))"
    by (rule rank_loop_split)
  then have "rank_loop u 1 (so_sorted s) = 1 + int i" using i split by simp
  with sc show ?thesis by (simp add: rank_of_def)
qed

lemma top_k_entries:
  assumes "board_ok s"
  shows "list_all (\<lambda>e. rank_of (le_user_id e) s = Some e) (top_k k s)"
    and "map le_rank (top_k k s) = map int [1..<Suc (min k (length (so_sorted s)))]"
proof -
  have t: "top_k k s = map (\<lambda>(i, sc, u). \<lparr>le_user_id = u, le_display_name = name_of u s, le_score = sc, le_rank = 1 + int i\<rparr>)
     (enumerate 0 (take k (so_sorted s)))" by (simp add: top_k_def top_loop_take)
  show "list_all (\<lambda>e. rank_of (le_user_id e) s = Some e) (top_k k s)"
    using rank_of_entry[OF assms] by (auto simp: t list_all_iff in_set_enumerate_eq)
  show "map le_rank (top_k k s) = map int [1..<Suc (min k (length (so_sorted s)))]"
    by (rule nth_equalityI) (auto simp: t nth_enumerate_eq case_prod_beta min.commute simp del: upt_Suc)
qed

subsection \<open>Ranking\<close>

definition submissions :: "(string \<times> string \<times> int) list \<Rightarrow> sorted_set" where
  "submissions subs = fold (\<lambda>(u, n, sc). submit u n sc) subs new_sorted_set"

text \<open>What the board stands for: the last score of every user.\<close>

definition last_scores :: "(string \<times> string \<times> int) list \<Rightarrow> string \<rightharpoonup> int" where
  "last_scores subs = fold (\<lambda>(u, n, sc) m. m(u \<mapsto> sc)) subs Map.empty"

lemma submissions_ok: "board_ok (submissions subs) \<and> so_user_scores (submissions subs) = last_scores subs"
proof (induction subs rule: rev_induct)
  case Nil
  show ?case by (simp add: submissions_def last_scores_def board_ok_new new_sorted_set_def[symmetric])
      (simp add: new_sorted_set_def)
next
  case (snoc x xs)
  obtain u n sc where x: "x = (u, n, sc)" by (cases x)
  have "submissions (xs @ [x]) = submit u n sc (submissions xs)" by (simp add: submissions_def x)
  moreover have "last_scores (xs @ [x]) = (last_scores xs)(u \<mapsto> sc)" by (simp add: last_scores_def x)
  ultimately show ?case using snoc by (simp add: board_ok_submit) (simp add: submit_def Let_def fun_upd_def)
qed

text \<open>C18: The leaderboard ranks the last submitted scores.  After any sequence of submissions the
  rank of a user is one more than the number of users ahead, those with a higher score or the
  same score and a smaller name; users who never submitted have no rank; and the top list holds
  exactly the users of the ranks 1, 2, and so on, with the entries the rank query gives.\<close>

theorem leaderboard_ranks:
  "(\<forall>u. map_option (\<lambda>e. (le_score e, le_rank e)) (rank_of u (submissions subs)) =
      map_option (\<lambda>sc. (sc, 1 + int (card {v. \<exists>sv. last_scores subs v = Some sv \<and> (sv > sc \<or> sv = sc \<and> v < u)})))
        (last_scores subs u)) \<and>
   list_all (\<lambda>e. rank_of (le_user_id e) (submissions subs) = Some e) (top_k k (submissions subs)) \<and>
   map le_rank (top_k k (submissions subs)) = map int [1..<Suc (min k (card (dom (last_scores subs))))]"
proof -
  have ok: "board_ok (submissions subs)" and m: "so_user_scores (submissions subs) = last_scores subs"
    using submissions_ok by auto
  have cmp: "score_compare (sv, v) (sc, u) \<longleftrightarrow> sv > sc \<or> sv = sc \<and> v < u" for sv sc :: int and u v
    by (auto simp: score_compare_def)
  have "map_option (\<lambda>e. (le_score e, le_rank e)) (rank_of u (submissions subs)) =
      map_option (\<lambda>sc. (sc, 1 + int (card {v. \<exists>sv. last_scores subs v = Some sv \<and> (sv > sc \<or> sv = sc \<and> v < u)})))
        (last_scores subs u)" for u
    using rank_of_count[OF ok, of u] by (cases "last_scores subs u") (simp_all add: rank_of_def m cmp)
  then show ?thesis using top_k_entries[OF ok, of k] board_size[OF ok] m by simp
qed

text \<open>A submission of a service without Raft changes the board by exactly that score.\<close>

lemma handle_submit_alone:
  assumes "sq_user_id q \<noteq> []" and "sq_idempotency_key q \<notin> lb_idempotency_keys s"
  shows "lb_leaderboard (snd (handle_submit NoRaft (Some q) s)) =
    submit (sq_user_id q) (sq_display_name q) (to_int32 (sq_score q)) (lb_leaderboard s)"
  using assms by (simp add: handle_submit_def apply_submit_def Let_def redis_up_def split: option.split prod.split)

subsection \<open>A refused submission\<close>

text \<open>A defect.  A submission with an idempotency key that reaches a node which is not the leader
  is refused, but its key is recorded; when the client repeats it, the node answers that the
  score has been submitted, whatever its role then is, and the board has still not changed.\<close>

theorem refused_submission_reported_ok:
  assumes "sq_user_id q \<noteq> []" and "sq_idempotency_key q \<noteq> []" and "sq_idempotency_key q \<notin> lb_idempotency_keys s"
    and "handle_submit (RaftFollower hint) (Some q) s = (r1, s1)" and "handle_submit raft (Some q) s1 = (r2, s2)"
  shows "r1 = LbError (-1003) (''not_raft_leader:'' @ hint) \<and> (\<exists>rank. r2 = LbSubmitted (sq_user_id q) rank True) \<and>
    lb_leaderboard s2 = lb_leaderboard s \<and> lb_redis s2 = lb_redis s \<and> lb_event_store s2 = lb_event_store s"
  using assms by (auto simp: handle_submit_def Let_def)

definition example_submission :: submit_request where
  "example_submission = \<lparr>sq_user_id = ''ann'', sq_display_name = ''Ann'', sq_score = 7, sq_idempotency_key = ''k1''\<rparr>"

definition example_service :: "unit leaderboard_service" where
  "example_service = \<lparr>lb_leaderboard = new_sorted_set, lb_redis = None, lb_event_store = Some [], lb_idempotency_keys = {}\<rparr>"

theorem refused_submission_reported_ok_witness:
  "let (r1, s1) = handle_submit (RaftFollower ''n2'') (Some example_submission) example_service;
       (r2, s2) = handle_submit NoRaft (Some example_submission) s1
   in r1 = LbError (-1003) ''not_raft_leader:n2'' \<and> (\<exists>rank. r2 = LbSubmitted ''ann'' rank True) \<and>
      lb_leaderboard s2 = new_sorted_set"
proof -
  obtain r1 s1 where r1: "handle_submit (RaftFollower ''n2'') (Some example_submission) example_service = (r1, s1)" by fastforce
  obtain r2 s2 where r2: "handle_submit NoRaft (Some example_submission) s1 = (r2, s2)" by fastforce
  from refused_submission_reported_ok[OF _ _ _ r1 r2] r1 r2 show ?thesis
    by (simp add: example_submission_def example_service_def)
qed

end
