(* ===== verification/Matchmaking.thy ===== *)
theory Matchmaking
  imports Prelude "HOL-Library.Multiset" "HOL-Library.Signed_Division"
begin

text \<open>
  The matchmaking service (\<^verbatim>\<open>src/v2/match/matchmaking_service.cpp\<close>): the queue of each mode, the matcher,
  the callbacks that commit matches, and the request handlers.  \<^verbatim>\<open>std::sort\<close> by queueing time, which
  is not stable, is an argument of the operations that sort; its contract is the locale
  \<open>queue_sort\<close>.  The commands handed to the Raft node and the results handed to the match
  callback are kept in the order of the calls; a command the Raft node delivers is a separate step.
  Ratings are mathematical integers: the handler converts them to 32 bits, so the 64-bit
  differences and sums of the code are exact.  A request and a round of the matcher thread are single
  steps.  In the code each access to a queue holds that queue's mutex, but no lock is held from the entry of a
  player to the removal of the players matched, and sessions run on threads of their own; the last section
  splits a join into its regions and shows what overlapping joins can do.
\<close>

subsection \<open>Players and results\<close>

datatype match_mode = K1v1 | K2v2 | K4v4

definition players_for_mode :: "match_mode \<Rightarrow> nat" where
  "players_for_mode m = (case m of K1v1 \<Rightarrow> 2 | K2v2 \<Rightarrow> 4 | K4v4 \<Rightarrow> 8)"

definition mode_text :: "match_mode \<Rightarrow> string" where
  "mode_text m = (case m of K1v1 \<Rightarrow> ''1v1'' | K2v2 \<Rightarrow> ''2v2'' | K4v4 \<Rightarrow> ''4v4'')"

definition parse_mode :: "string \<Rightarrow> match_mode" where
  "parse_mode s = (if s = ''2v2'' then K2v2 else if s = ''4v4'' then K4v4 else K1v1)"

record match_player =
  mp_user_id :: string
  mp_mmr :: int
  mp_queued_at_ms :: u64
  mp_mode :: match_mode

record match_result =
  mr_match_id :: string
  mr_mode :: match_mode
  mr_player_ids :: "string list"
  mr_avg_mmr :: int

record matchmaking_config =
  mk_mmr_range_initial :: int
  mk_mmr_range_expand_per_sec :: int
  mk_max_wait_ms :: u64

definition default_matchmaking_config :: matchmaking_config where
  "default_matchmaking_config = \<lparr>mk_mmr_range_initial = 100, mk_mmr_range_expand_per_sec = 50, mk_max_wait_ms = 30000\<rparr>"

subsection \<open>The queue of a mode\<close>

type_synonym match_queue = "match_player list"
type_synonym queue_sorter = "match_player list \<Rightarrow> match_player list"

definition queue_add :: "match_player \<Rightarrow> match_queue \<Rightarrow> match_queue" where
  "queue_add player q = filter (\<lambda>p. mp_user_id p \<noteq> mp_user_id player) q @ [player]"

fun queue_remove :: "string \<Rightarrow> match_queue \<Rightarrow> bool \<times> match_queue" where
  "queue_remove user_id [] = (False, [])"
| "queue_remove user_id (p # ps) =
     (if mp_user_id p = user_id then (True, ps) else (case queue_remove user_id ps of (found, rest) \<Rightarrow> (found, p # rest)))"

definition in_range :: "int \<Rightarrow> int \<Rightarrow> match_player \<Rightarrow> bool" where
  "in_range mmr_center mmr_range p =
     ((if mp_mmr p > mmr_center then mp_mmr p - mmr_center else mmr_center - mp_mmr p) \<le> mmr_range)"

definition get_eligible :: "queue_sorter \<Rightarrow> int \<Rightarrow> int \<Rightarrow> match_queue \<Rightarrow> match_player list" where
  "get_eligible srt mmr_center mmr_range q = srt (filter (in_range mmr_center mmr_range) q)"

definition queue_remove_players :: "string list \<Rightarrow> match_queue \<Rightarrow> match_queue" where
  "queue_remove_players user_ids q = fold (\<lambda>uid. filter (\<lambda>p. mp_user_id p \<noteq> uid)) user_ids q"

definition expired_players :: "u64 \<Rightarrow> u64 \<Rightarrow> match_queue \<Rightarrow> string list" where
  "expired_players now max_wait_ms q = map mp_user_id (filter (\<lambda>p. now - mp_queued_at_ms p > max_wait_ms) q)"

definition snapshot_by_queue_time :: "queue_sorter \<Rightarrow> match_queue \<Rightarrow> match_player list" where
  "snapshot_by_queue_time srt q = srt q"

subsection \<open>Commands of the replicated log\<close>

text \<open>The JSON document of a command: a field is \<^const>\<open>None\<close> where the document does not have it.\<close>

record match_command =
  mc_v :: int
  mc_op :: string
  mc_user_id :: "string option"
  mc_mmr :: "int option"
  mc_queued_at_ms :: "u64 option"
  mc_mode :: "string option"
  mc_match_id :: "string option"
  mc_avg_mmr :: "int option"
  mc_player_ids :: "string list option"
  mc_user_ids :: "string list option"

definition bare_command :: "string \<Rightarrow> match_mode \<Rightarrow> match_command" where
  "bare_command op mode = \<lparr>mc_v = 1, mc_op = op, mc_user_id = None, mc_mmr = None, mc_queued_at_ms = None,
     mc_mode = Some (mode_text mode), mc_match_id = None, mc_avg_mmr = None, mc_player_ids = None, mc_user_ids = None\<rparr>"

definition make_join_command :: "match_player \<Rightarrow> match_command" where
  "make_join_command p = (bare_command ''match_join'' (mp_mode p))
     \<lparr>mc_user_id := Some (mp_user_id p), mc_mmr := Some (mp_mmr p), mc_queued_at_ms := Some (mp_queued_at_ms p)\<rparr>"

definition make_leave_command :: "string \<Rightarrow> match_mode \<Rightarrow> match_command" where
  "make_leave_command user_id mode = (bare_command ''match_leave'' mode)\<lparr>mc_user_id := Some user_id\<rparr>"

definition make_match_found_command :: "match_result \<Rightarrow> match_command" where
  "make_match_found_command r = (bare_command ''match_found'' (mr_mode r))
     \<lparr>mc_match_id := Some (mr_match_id r), mc_avg_mmr := Some (mr_avg_mmr r), mc_player_ids := Some (mr_player_ids r)\<rparr>"

definition make_purge_command :: "match_mode \<Rightarrow> string list \<Rightarrow> match_command" where
  "make_purge_command mode user_ids = (bare_command ''match_purge'' mode)\<lparr>mc_user_ids := Some user_ids\<rparr>"

subsection \<open>The matcher and its callbacks\<close>

text \<open>A leader carries the answer \<^verbatim>\<open>append_command\<close> gives; a follower the hint to the leader.\<close>

datatype match_role = MatchAlone | MatchFollower string | MatchLeader "match_command \<Rightarrow> bool"

record match_service =
  ms_config :: matchmaking_config
  ms_queues :: "match_mode \<Rightarrow> match_queue"
  ms_next_match_id :: nat
  ms_pending_matches :: "string \<rightharpoonup> match_result"
  ms_notified :: "match_result list"
  ms_proposed :: "match_command list"

definition new_match_service :: "matchmaking_config \<Rightarrow> match_service" where
  "new_match_service c = \<lparr>ms_config = c, ms_queues = (\<lambda>_. []), ms_next_match_id = 1,
     ms_pending_matches = Map.empty, ms_notified = [], ms_proposed = []\<rparr>"

definition update_queue :: "match_mode \<Rightarrow> (match_queue \<Rightarrow> match_queue) \<Rightarrow> match_service \<Rightarrow> match_service" where
  "update_queue mode f s = s\<lparr>ms_queues := (ms_queues s)(mode := f (ms_queues s mode))\<rparr>"

definition apply_match_found :: "match_result \<Rightarrow> match_service \<Rightarrow> match_service" where
  "apply_match_found r s =
     (let s1 = update_queue (mr_mode r) (queue_remove_players (mr_player_ids r)) s
      in s1\<lparr>ms_pending_matches := (ms_pending_matches s1)(mr_match_id r \<mapsto> r), ms_notified := ms_notified s1 @ [r]\<rparr>)"

definition apply_match_leave :: "match_mode \<Rightarrow> string \<Rightarrow> match_service \<Rightarrow> match_service" where
  "apply_match_leave mode user_id = update_queue mode (\<lambda>q. snd (queue_remove user_id q))"

definition apply_match_purge :: "match_mode \<Rightarrow> string list \<Rightarrow> match_service \<Rightarrow> match_service" where
  "apply_match_purge mode user_ids s = (if user_ids \<noteq> [] then update_queue mode (queue_remove_players user_ids) s else s)"

definition propose :: "match_command \<Rightarrow> match_service \<Rightarrow> match_service" where
  "propose c s = s\<lparr>ms_proposed := ms_proposed s @ [c]\<rparr>"

definition match_callback :: "match_role \<Rightarrow> match_result \<Rightarrow> match_service \<Rightarrow> match_service" where
  "match_callback role r s =
     (case role of
        MatchAlone \<Rightarrow> apply_match_found r s
      | MatchFollower _ \<Rightarrow> s
      | MatchLeader _ \<Rightarrow> propose (make_match_found_command r) s)"

definition purge_callback :: "match_role \<Rightarrow> match_mode \<Rightarrow> string list \<Rightarrow> match_service \<Rightarrow> match_service" where
  "purge_callback role mode user_ids s =
     (case role of
        MatchAlone \<Rightarrow> apply_match_purge mode user_ids s
      | MatchFollower _ \<Rightarrow> s
      | MatchLeader _ \<Rightarrow> if user_ids = [] then s else propose (make_purge_command mode user_ids) s)"

fun find_eligible :: "queue_sorter \<Rightarrow> int \<Rightarrow> nat \<Rightarrow> match_queue \<Rightarrow> match_player list \<Rightarrow> match_player list" where
  "find_eligible srt mmr_range required q [] = []"
| "find_eligible srt mmr_range required q (anchor # anchors) =
     (let eligible = get_eligible srt (mp_mmr anchor) mmr_range q
      in if length eligible \<ge> required then eligible else find_eligible srt mmr_range required q anchors)"

definition match_of :: "nat \<Rightarrow> match_mode \<Rightarrow> match_player list \<Rightarrow> match_result" where
  "match_of n mode eligible =
     (let chosen = take (players_for_mode mode) eligible
      in \<lparr>mr_match_id = ''match_'' @ decimal n, mr_mode = mode, mr_player_ids = map mp_user_id chosen,
          mr_avg_mmr = sum_list (map mp_mmr chosen) sdiv int (players_for_mode mode)\<rparr>)"

definition try_match_mode :: "queue_sorter \<Rightarrow> match_role \<Rightarrow> match_mode \<Rightarrow> match_service \<Rightarrow> match_service" where
  "try_match_mode srt role mode s =
     (let q = ms_queues s mode;
          eligible = find_eligible srt (mk_mmr_range_initial (ms_config s)) (players_for_mode mode) q
            (snapshot_by_queue_time srt q)
      in if eligible = [] then s
         else match_callback role (match_of (ms_next_match_id s) mode eligible)
                (s\<lparr>ms_next_match_id := ms_next_match_id s + 1\<rparr>))"

definition apply_match_join :: "queue_sorter \<Rightarrow> match_role \<Rightarrow> match_player \<Rightarrow> match_service \<Rightarrow> match_service" where
  "apply_match_join srt role player s = try_match_mode srt role (mp_mode player) (update_queue (mp_mode player) (queue_add player) s)"

text \<open>One round of the matcher thread; the times are those of the three expiry checks.\<close>

definition check_mode :: "queue_sorter \<Rightarrow> match_role \<Rightarrow> (match_mode \<Rightarrow> u64) \<Rightarrow> match_mode \<Rightarrow> match_service \<Rightarrow> match_service" where
  "check_mode srt role now mode s =
     (let s1 = try_match_mode srt role mode s;
          expired = expired_players (now mode) (mk_max_wait_ms (ms_config s1)) (ms_queues s1 mode)
      in if expired = [] then s1 else purge_callback role mode expired s1)"

definition match_round :: "queue_sorter \<Rightarrow> match_role \<Rightarrow> (match_mode \<Rightarrow> u64) \<Rightarrow> match_service \<Rightarrow> match_service" where
  "match_round srt role now s = fold (check_mode srt role now) [K1v1, K2v2, K4v4] s"

definition match_apply_raft_entry :: "queue_sorter \<Rightarrow> match_role \<Rightarrow> match_command option \<Rightarrow> match_service \<Rightarrow> match_service" where
  "match_apply_raft_entry srt role command s =
     (case command of
        None \<Rightarrow> s
      | Some c \<Rightarrow>
         (let user_id = (case mc_user_id c of None \<Rightarrow> [] | Some u \<Rightarrow> u);
              mode = parse_mode (case mc_mode c of None \<Rightarrow> ''1v1'' | Some m \<Rightarrow> m)
          in if mc_v c \<noteq> 1 then s
             else if mc_op c = ''match_join'' then
               (if user_id = [] then s
                else apply_match_join srt role \<lparr>mp_user_id = user_id,
                       mp_mmr = (case mc_mmr c of None \<Rightarrow> 1000 | Some r \<Rightarrow> r),
                       mp_queued_at_ms = (case mc_queued_at_ms c of None \<Rightarrow> 0 | Some t \<Rightarrow> t), mp_mode = mode\<rparr> s)
             else if mc_op c = ''match_leave'' then (if user_id = [] then s else apply_match_leave mode user_id s)
             else if mc_op c = ''match_found'' then
               (let r = \<lparr>mr_match_id = (case mc_match_id c of None \<Rightarrow> [] | Some i \<Rightarrow> i), mr_mode = mode,
                         mr_player_ids = (case mc_player_ids c of None \<Rightarrow> [] | Some ps \<Rightarrow> ps),
                         mr_avg_mmr = (case mc_avg_mmr c of None \<Rightarrow> 0 | Some a \<Rightarrow> a)\<rparr>
                in if mr_match_id r \<noteq> [] \<and> mr_player_ids r \<noteq> [] then apply_match_found r s else s)
             else if mc_op c = ''match_purge'' then
               (case mc_user_ids c of None \<Rightarrow> s | Some us \<Rightarrow> apply_match_purge mode us s)
             else s))"

subsection \<open>Request handlers\<close>

record match_request =
  mq_user_id :: "string option"
  mq_mmr :: "int option"
  mq_mode :: "string option"
  mq_queued_at_ms :: "int option"

datatype match_response =
    MatchError int string
  | MatchQueued string
  | MatchLeft
  | MatchMatched string match_mode int
  | MatchWaiting nat string

definition request_user :: "match_request \<Rightarrow> string" where
  "request_user q = (case mq_user_id q of None \<Rightarrow> [] | Some u \<Rightarrow> u)"

definition request_mode :: "match_request \<Rightarrow> string" where
  "request_mode q = (case mq_mode q of None \<Rightarrow> ''1v1'' | Some m \<Rightarrow> m)"

text \<open>The rating is read with an \<^verbatim>\<open>int\<close> default, which converts it to 32 bits; the
  queueing time of the request wins over the server's clock.\<close>

definition request_player :: "u64 \<Rightarrow> match_request \<Rightarrow> match_player" where
  "request_player now q =
     \<lparr>mp_user_id = request_user q, mp_mmr = to_int32 (case mq_mmr q of None \<Rightarrow> 1000 | Some r \<Rightarrow> r),
      mp_queued_at_ms = (case mq_queued_at_ms q of None \<Rightarrow> now | Some t \<Rightarrow> word_of_int t), mp_mode = parse_mode (request_mode q)\<rparr>"

definition handle_match_join ::
  "queue_sorter \<Rightarrow> match_role \<Rightarrow> u64 \<Rightarrow> match_request option \<Rightarrow> match_service \<Rightarrow> match_response \<times> match_service" where
  "handle_match_join srt role now req s =
     (case req of
        None \<Rightarrow> (MatchError (-1004) ''invalid_json'', s)
      | Some q \<Rightarrow>
          if request_user q = [] then (MatchError (-1004) ''empty_user_id'', s)
          else
           (let player = request_player now q in
            case role of
              MatchAlone \<Rightarrow> (MatchQueued (request_mode q), apply_match_join srt role player s)
            | MatchFollower hint \<Rightarrow> (MatchError (-1003) (''not_raft_leader:'' @ hint), s)
            | MatchLeader append_command \<Rightarrow>
                (let c = make_join_command player
                 in (if append_command c then MatchQueued (request_mode q) else MatchError (-1005) ''raft_commit_failed'',
                     propose c s))))"

definition handle_match_leave ::
  "match_role \<Rightarrow> match_request option \<Rightarrow> match_service \<Rightarrow> match_response \<times> match_service" where
  "handle_match_leave role req s =
     (case req of
        None \<Rightarrow> (MatchError (-1004) ''invalid_json'', s)
      | Some q \<Rightarrow>
         (let mode = parse_mode (request_mode q) in
          case role of
            MatchAlone \<Rightarrow> (MatchLeft, apply_match_leave mode (request_user q) s)
          | MatchFollower hint \<Rightarrow> (MatchError (-1003) (''not_raft_leader:'' @ hint), s)
          | MatchLeader append_command \<Rightarrow>
              (let c = make_leave_command (request_user q) mode
               in (if append_command c then MatchLeft else MatchError (-1005) ''raft_commit_failed'', propose c s))))"

text \<open>The order in which the hash map of the pending matches is walked is an argument.\<close>

definition handle_match_status ::
  "((string \<rightharpoonup> match_result) \<Rightarrow> match_result list) \<Rightarrow> match_request option \<Rightarrow> match_service \<Rightarrow> match_response" where
  "handle_match_status walk req s =
     (case req of
        None \<Rightarrow> MatchError (-1004) ''invalid_json''
      | Some q \<Rightarrow>
         (case find (\<lambda>r. request_user q \<in> set (mr_player_ids r)) (walk (ms_pending_matches s)) of
            Some r \<Rightarrow> MatchMatched (mr_match_id r) (mr_mode r) (mr_avg_mmr r)
          | None \<Rightarrow> MatchWaiting (length (ms_queues s (parse_mode (request_mode q)))) (request_mode q)))"

subsection \<open>Groups of players in range\<close>

definition near :: "('a \<Rightarrow> int) \<Rightarrow> int \<Rightarrow> 'a set \<Rightarrow> 'a \<Rightarrow> 'a set" where
  "near f r Q a = {x \<in> Q. \<bar>f x - f a\<bar> \<le> r}"

lemma near_mono: "Q \<subseteq> P \<Longrightarrow> near f r Q a \<subseteq> near f r P a"
  by (auto simp: near_def)

lemma near_insert_card:
  assumes "finite Q" and "card (near f r (Q - {p}) a) < n"
  shows "card (near f r Q a) \<le> n"
proof -
  have fin: "finite (near f r (Q - {p}) a)" using assms by (simp add: near_def)
  have "near f r Q a \<subseteq> insert p (near f r (Q - {p}) a)" by (auto simp: near_def)
  then have "card (near f r Q a) \<le> card (insert p (near f r (Q - {p}) a))" by (rule card_mono[rotated]) (simp add: fin)
  also have "\<dots> \<le> Suc (card (near f r (Q - {p}) a))" by (simp add: fin card_insert_if)
  finally have "card (near f r Q a) \<le> Suc (card (near f r (Q - {p}) a))" .
  with assms show ?thesis by simp
qed

text \<open>The players of one side of a player's range are in range of each other.\<close>

lemma near_side_card:
  assumes "finite Q" and p: "p \<in> Q" and old: "\<forall>t\<in>Q - {p}. card (near f r (Q - {p}) t) < n"
    and S: "S \<subseteq> near f r Q p - {p}" and side: "(\<forall>x\<in>S. f x \<le> f p) \<or> (\<forall>x\<in>S. f x \<ge> f p)"
    and "n > 0"
  shows "card S < n"
proof (cases "S = {}")
  case False
  then obtain t where t: "t \<in> S" by auto
  have "S \<subseteq> near f r (Q - {p}) t"
  proof
    fix x assume x: "x \<in> S"
    have "f x \<le> f p \<and> f t \<le> f p \<or> f x \<ge> f p \<and> f t \<ge> f p" using side x t by blast
    moreover have "\<bar>f x - f p\<bar> \<le> r" "\<bar>f t - f p\<bar> \<le> r" "x \<in> Q - {p}" using S x t by (auto simp: near_def)
    ultimately show "x \<in> near f r (Q - {p}) t" by (auto simp: near_def)
  qed
  then have "card S \<le> card (near f r (Q - {p}) t)"
    by (rule card_mono[rotated]) (simp add: near_def assms)
  also have "\<dots> < n" using old t S by (auto simp: near_def)
  finally show ?thesis .
qed (use assms in simp)

lemma near_card_two_sides:
  assumes "finite Q" and "p \<in> Q" and "\<forall>t\<in>Q - {p}. card (near f r (Q - {p}) t) < n" and "n > 0"
  shows "card (near f r Q p - {p}) \<le> 2 * (n - 1)"
proof -
  let ?L = "{x \<in> near f r Q p - {p}. f x \<le> f p}" and ?R = "{x \<in> near f r Q p - {p}. f x \<ge> f p}"
  have "near f r Q p - {p} \<subseteq> ?L \<union> ?R" by auto
  moreover have "finite (?L \<union> ?R)" using assms by (simp add: near_def)
  ultimately have "card (near f r Q p - {p}) \<le> card ?L + card ?R"
    by (meson card_Un_le card_mono le_trans)
  moreover have "card ?L < n" "card ?R < n" by (rule near_side_card[OF assms(1-3)], auto simp: assms)+
  ultimately show ?thesis by simp
qed

text \<open>When one player joins a queue without a match and a match is taken out, no match is left.\<close>

lemma drained_core:
  assumes Q: "finite Q" "p \<in> Q" and old: "\<forall>t\<in>Q - {p}. card (near f r (Q - {p}) t) < n" and n: "n > 0"
    and T: "T \<subseteq> near f r Q c" "card T = n" "c \<in> Q" and a: "a \<in> Q - T"
  shows "card (near f r (Q - T) a) < n"
proof (cases "p \<in> T")
  case True
  then have "near f r (Q - T) a \<subseteq> near f r (Q - {p}) a" by (auto simp: near_def)
  then have "card (near f r (Q - T) a) \<le> card (near f r (Q - {p}) a)" using Q by (simp add: near_def card_mono)
  also have "\<dots> < n" using old a True by auto
  finally show ?thesis .
next
  case False
  have fin: "finite T" using T(1) Q(1) by (auto simp: near_def intro: finite_subset)
  have c: "c = p"
  proof (rule ccontr)
    assume "c \<noteq> p"
    have "T \<subseteq> near f r (Q - {p}) c" using T(1) False by (auto simp: near_def)
    then have "card T \<le> card (near f r (Q - {p}) c)" by (rule card_mono[rotated]) (simp add: near_def Q(1))
    then have "n \<le> card (near f r (Q - {p}) c)" by (simp add: T(2))
    with old T(3) \<open>c \<noteq> p\<close> show False by force
  qed
  have sub: "T \<subseteq> near f r Q p - {p}" using T(1) False c by auto
  show ?thesis
  proof (cases "a = p")
    case True
    let ?E = "near f r Q p - {p}"
    have "card ?E \<ge> n" using card_mono[OF _ sub] T(2) Q(1) by (simp add: near_def)
    then have rest: "Suc (card (?E - T)) < n"
      using near_card_two_sides[OF Q old n] card_Diff_subset[OF fin sub] T(2) n by linarith
    have "near f r (Q - T) a \<subseteq> insert p (?E - T)" using True by (auto simp: near_def)
    then have "card (near f r (Q - T) a) \<le> card (insert p (?E - T))"
      by (rule card_mono[rotated]) (simp add: near_def Q(1))
    also have "\<dots> \<le> Suc (card (?E - T))" by (simp add: card_insert_if near_def Q(1))
    finally show ?thesis using rest by simp
  next
    case False
    show ?thesis
    proof (rule ccontr)
      assume neg: "\<not> card (near f r (Q - T) a) < n"
      have "card (near f r (Q - {p}) a) < n" using old a False by blast
      then have "card (near f r Q a) \<le> n" by (rule near_insert_card[OF Q(1)])
      moreover have "near f r (Q - T) a \<subseteq> near f r Q a" and "finite (near f r Q a)"
        using Q(1) by (auto simp: near_def)
      ultimately have eq: "near f r (Q - T) a = near f r Q a" using neg by (meson card_seteq le_trans not_le)
      have "p \<in> near f r Q a"
      proof (rule ccontr)
        assume "p \<notin> near f r Q a"
        then have "near f r (Q - T) a \<subseteq> near f r (Q - {p}) a" using eq by (auto simp: near_def)
        then have "card (near f r (Q - T) a) \<le> card (near f r (Q - {p}) a)" using Q by (simp add: near_def card_mono)
        with neg old a False show False by force
      qed
      then have ap: "\<bar>f p - f a\<bar> \<le> r" by (simp add: near_def)
      have out: "\<bar>f t - f a\<bar> > r" if "t \<in> T" for t
        using that eq T(1) by (auto simp: near_def set_eq_iff) 
      have "(\<forall>x\<in>T. f x \<le> f p) \<or> (\<forall>x\<in>T. f x \<ge> f p)"
      proof (cases "f a \<ge> f p")
        case True
        have "f t \<le> f p" if "t \<in> T" for t using out[OF that] sub that ap True by (auto simp: near_def)
        then show ?thesis by blast
      next
        case le: False
        have "f t \<ge> f p" if "t \<in> T" for t using out[OF that] sub that ap le by (auto simp: near_def)
        then show ?thesis by blast
      qed
      from near_side_card[OF Q old sub this n] T(2) show False by simp
    qed
  qed
qed

subsection \<open>The contract of the sort\<close>

locale queue_sort =
  fixes srt :: queue_sorter
  assumes mset_srt: "mset (srt q) = mset q"
    and sorted_srt: "sorted (map mp_queued_at_ms (srt q))"
begin

lemma set_srt [simp]: "set (srt q) = set q"
  using mset_srt[of q] by (metis set_mset_mset)

lemma length_srt [simp]: "length (srt q) = length q"
  using mset_srt[of q] by (metis size_mset)

lemma distinct_ids_srt: "distinct (map mp_user_id q) \<Longrightarrow> distinct (map mp_user_id (srt q))"
  using mset_srt[of q] by (metis mset_eq_imp_distinct_iff mset_map)

lemma set_eligible: "set (get_eligible srt c r q) = {p \<in> set q. \<bar>mp_mmr p - c\<bar> \<le> r}"
  by (auto simp: get_eligible_def in_range_def split: if_splits)

lemma length_eligible: "length (get_eligible srt c r q) = length (filter (in_range c r) q)"
  by (simp add: get_eligible_def)

lemma distinct_eligible: "distinct (map mp_user_id q) \<Longrightarrow> distinct (map mp_user_id (get_eligible srt c r q))"
  by (simp add: get_eligible_def distinct_ids_srt distinct_map_filter)

lemma find_eligible_cases:
  "find_eligible srt r n q anchors = [] \<and> list_all (\<lambda>a. length (filter (in_range (mp_mmr a) r) q) < n) anchors \<or>
   (\<exists>a\<in>set anchors. find_eligible srt r n q anchors = get_eligible srt (mp_mmr a) r q \<and>
     n \<le> length (find_eligible srt r n q anchors))"
  by (induction anchors) (auto simp: Let_def length_eligible)

end

interpretation stable: queue_sort "sort_key mp_queued_at_ms"
  by unfold_locales simp_all

subsection \<open>Queues without a match\<close>

definition drained :: "int \<Rightarrow> nat \<Rightarrow> match_queue \<Rightarrow> bool" where
  "drained r n q = list_all (\<lambda>a. length (filter (in_range (mp_mmr a) r) q) < n) q"

definition queue_ok :: "match_mode \<Rightarrow> match_queue \<Rightarrow> bool" where
  "queue_ok mode q = (distinct (map mp_user_id q) \<and> list_all (\<lambda>p. mp_mode p = mode) q)"

lemma in_range_near: "{p \<in> set q. in_range (mp_mmr a) r p} = near mp_mmr r (set q) a"
  by (auto simp: in_range_def near_def split: if_splits)

lemma drained_near:
  assumes "distinct (map mp_user_id q)"
  shows "drained r n q \<longleftrightarrow> (\<forall>a\<in>set q. card (near mp_mmr r (set q) a) < n)"
proof -
  have "distinct q" using assms by (simp add: distinct_map)
  then have "length (filter (in_range (mp_mmr a) r) q) = card (near mp_mmr r (set q) a)" for a
    by (metis distinct_card distinct_filter in_range_near set_filter)
  then show ?thesis by (simp add: drained_def list_all_iff)
qed

lemma drained_subset:
  assumes "drained r n q" and "distinct (map mp_user_id q)" "distinct (map mp_user_id q')" and "set q' \<subseteq> set q"
  shows "drained r n q'"
proof -
  have "card (near mp_mmr r (set q') a) \<le> card (near mp_mmr r (set q) a)" for a
    by (rule card_mono) (use assms(4) in \<open>auto simp: near_def\<close>)
  then show ?thesis using assms by (force simp: drained_near dest: le_less_trans)
qed

lemma queue_remove_players_filter: "queue_remove_players ids q = filter (\<lambda>p. mp_user_id p \<notin> set ids) q"
  unfolding queue_remove_players_def by (induction ids arbitrary: q) (auto intro: filter_cong)

lemma queue_remove_filter:
  "distinct (map mp_user_id q) \<Longrightarrow> snd (queue_remove u q) = filter (\<lambda>p. mp_user_id p \<noteq> u) q"
proof (induction q)
  case (Cons p ps)
  show ?case
  proof (cases "mp_user_id p = u")
    case True
    then have "\<forall>x\<in>set ps. mp_user_id x \<noteq> u" using Cons.prems by (metis distinct.simps(2) image_eqI list.set_map list.simps(9))
    then have "filter (\<lambda>p. mp_user_id p \<noteq> u) ps = ps" by (simp add: filter_id_conv)
    with True show ?thesis by simp
  qed (use Cons in \<open>simp add: case_prod_beta\<close>)
qed simp

lemma queue_ok_filter: "queue_ok mode q \<Longrightarrow> queue_ok mode (filter P q)"
  by (auto simp: queue_ok_def distinct_map_filter list_all_iff)

lemma drained_filter: "queue_ok mode q \<Longrightarrow> drained r n q \<Longrightarrow> drained r n (filter P q)"
  by (rule drained_subset[of r n q]) (auto simp: queue_ok_def distinct_map_filter)

lemma queue_ok_add: "queue_ok (mp_mode p) q \<Longrightarrow> queue_ok (mp_mode p) (queue_add p q)"
  by (auto simp: queue_ok_def queue_add_def distinct_map_filter list_all_iff)

lemma set_queue_add: "set (queue_add p q) = insert p {x \<in> set q. mp_user_id x \<noteq> mp_user_id p}"
  by (auto simp: queue_add_def)

lemma players_for_mode_pos [simp]: "0 < players_for_mode m"
  by (cases m) (simp_all add: players_for_mode_def)

context queue_sort
begin

lemma find_eligible_None: "n > 0 \<Longrightarrow> find_eligible srt r n q (srt q) = [] \<longleftrightarrow> drained r n q"
proof
  assume n: "n > 0" and e: "find_eligible srt r n q (srt q) = []"
  have "list_all (\<lambda>a. length (filter (in_range (mp_mmr a) r) q) < n) (srt q)"
    using find_eligible_cases[of r n q "srt q"] n unfolding e by auto
  then show "drained r n q" by (simp add: drained_def list_all_iff)
next
  assume n: "n > 0" and d: "drained r n q"
  have "length (filter (in_range (mp_mmr a) r) q) < n" if "a \<in> set (srt q)" for a
    using d that by (simp add: drained_def list_all_iff)
  then show "find_eligible srt r n q (srt q) = []"
    using find_eligible_cases[of r n q "srt q"] length_eligible by (metis linorder_not_le)
qed

lemma eligible_group:
  assumes q: "distinct (map mp_user_id q)" and n: "n > 0" and e: "find_eligible srt r n q (srt q) = e" "e \<noteq> []"
  obtains c where "c \<in> set q" "set (take n e) \<subseteq> near mp_mmr r (set q) c" "length (take n e) = n"
    "distinct (map mp_user_id (take n e))"
proof -
  obtain c where c: "c \<in> set q" "e = get_eligible srt (mp_mmr c) r q" "n \<le> length e"
    using find_eligible_cases[of r n q "srt q"] e by auto
  have "set (take n e) \<subseteq> set e" by (rule set_take_subset)
  then have "set (take n e) \<subseteq> near mp_mmr r (set q) c"
    unfolding c(2) set_eligible by (auto simp: near_def)
  moreover have "distinct (map mp_user_id (take n e))"
    using distinct_eligible[OF q, of "mp_mmr c" r] c(2) by (simp add: take_map[symmetric])
  ultimately show ?thesis using that c by simp
qed

text \<open>Taking the match of a joining player out of the queue leaves no match.\<close>

lemma drained_after_join:
  assumes ok: "queue_ok (mp_mode p) q" and d: "drained r n q" and n: "n > 0"
    and e: "find_eligible srt r n (queue_add p q) (srt (queue_add p q)) = e" "e \<noteq> []"
  shows "drained r n (filter (\<lambda>x. mp_user_id x \<notin> set (map mp_user_id (take n e))) (queue_add p q))"
proof -
  let ?Q = "set (queue_add p q)" and ?T = "set (take n e)"
  have ok': "distinct (map mp_user_id (queue_add p q))" using queue_ok_add[OF ok] by (simp add: queue_ok_def)
  obtain c where c: "c \<in> ?Q" "?T \<subseteq> near mp_mmr r ?Q c" "length (take n e) = n" "distinct (map mp_user_id (take n e))"
    by (rule eligible_group[OF ok' n e])
  have card: "card ?T = n" using c(3,4) by (metis distinct_card distinct_map)
  have old: "\<forall>t\<in>?Q - {p}. card (near mp_mmr r (?Q - {p}) t) < n"
  proof -
    have eq: "?Q - {p} = set (filter (\<lambda>x. mp_user_id x \<noteq> mp_user_id p) q)" by (auto simp: set_queue_add)
    have "drained r n (filter (\<lambda>x. mp_user_id x \<noteq> mp_user_id p) q)" by (rule drained_filter[OF ok d])
    then show ?thesis unfolding eq using ok by (subst (asm) drained_near) (auto simp: queue_ok_def distinct_map_filter)
  qed
  have rest: "set (filter (\<lambda>x. mp_user_id x \<notin> set (map mp_user_id (take n e))) (queue_add p q)) = ?Q - ?T"
  proof -
    have "inj_on mp_user_id ?Q" using ok' by (simp add: distinct_map)
    moreover have "?T \<subseteq> ?Q" using c(2) by (auto simp: near_def)
    ultimately have "mp_user_id x \<in> mp_user_id ` ?T \<longleftrightarrow> x \<in> ?T" if "x \<in> ?Q" for x
      using that by (meson inj_on_image_mem_iff)
    then show ?thesis by auto
  qed
  have left: "\<forall>a\<in>?Q - ?T. card (near mp_mmr r (?Q - ?T) a) < n"
    using drained_core[OF _ _ old n c(2) card c(1)] by (simp add: set_queue_add)
  have "distinct (map mp_user_id (filter (\<lambda>x. mp_user_id x \<notin> set (map mp_user_id (take n e))) (queue_add p q)))"
    using ok' by (rule distinct_map_filter)
  from drained_near[OF this] show ?thesis unfolding rest using left by blast
qed

end

subsection \<open>The service without replication\<close>

text \<open>A request or a round of the matcher thread.\<close>

datatype match_event =
    JoinRequest u64 "match_request option"
  | LeaveRequest "match_request option"
  | MatcherRound "match_mode \<Rightarrow> u64"

fun match_step :: "queue_sorter \<Rightarrow> match_event \<Rightarrow> match_service \<Rightarrow> match_service" where
  "match_step srt (JoinRequest now req) s = snd (handle_match_join srt MatchAlone now req s)"
| "match_step srt (LeaveRequest req) s = snd (handle_match_leave MatchAlone req s)"
| "match_step srt (MatcherRound now) s = match_round srt MatchAlone now s"

definition match_service_ok :: "match_service \<Rightarrow> bool" where
  "match_service_ok s = list_all (\<lambda>mode. queue_ok mode (ms_queues s mode) \<and>
     drained (mk_mmr_range_initial (ms_config s)) (players_for_mode mode) (ms_queues s mode)) [K1v1, K2v2, K4v4]"

lemma match_service_okD:
  "match_service_ok s \<Longrightarrow> queue_ok mode (ms_queues s mode) \<and>
     drained (mk_mmr_range_initial (ms_config s)) (players_for_mode mode) (ms_queues s mode)"
  by (cases mode) (auto simp: match_service_ok_def)

lemma match_service_okI:
  assumes "match_service_ok s" and "ms_config s' = ms_config s"
    and "ms_queues s' = (ms_queues s)(mode := q)" and "queue_ok mode q"
    and "drained (mk_mmr_range_initial (ms_config s)) (players_for_mode mode) q"
  shows "match_service_ok s'"
  using assms by (cases mode) (auto simp: match_service_ok_def)

lemma update_queue_simps [simp]:
  "ms_config (update_queue mode f s) = ms_config s"
  "ms_queues (update_queue mode f s) = (ms_queues s)(mode := f (ms_queues s mode))"
  "ms_next_match_id (update_queue mode f s) = ms_next_match_id s"
  "ms_pending_matches (update_queue mode f s) = ms_pending_matches s"
  "ms_notified (update_queue mode f s) = ms_notified s"
  "ms_proposed (update_queue mode f s) = ms_proposed s"
  by (simp_all add: update_queue_def)

lemma apply_match_found_simps [simp]:
  "ms_config (apply_match_found r s) = ms_config s"
  "ms_queues (apply_match_found r s) = (ms_queues s)(mr_mode r := filter (\<lambda>p. mp_user_id p \<notin> set (mr_player_ids r)) (ms_queues s (mr_mode r)))"
  "ms_notified (apply_match_found r s) = ms_notified s @ [r]"
  "ms_pending_matches (apply_match_found r s) = (ms_pending_matches s)(mr_match_id r \<mapsto> r)"
  by (simp_all add: apply_match_found_def Let_def queue_remove_players_filter)

lemma match_of_simps [simp]:
  "mr_mode (match_of n mode e) = mode"
  "mr_player_ids (match_of n mode e) = map mp_user_id (take (players_for_mode mode) e)"
  "mr_match_id (match_of n mode e) = ''match_'' @ decimal n"
  by (simp_all add: match_of_def Let_def)

context queue_sort
begin

lemma try_match_drained:
  "drained (mk_mmr_range_initial (ms_config s)) (players_for_mode mode) (ms_queues s mode) \<Longrightarrow> try_match_mode srt role mode s = s"
  by (simp add: try_match_mode_def snapshot_by_queue_time_def find_eligible_None)

lemma join_ok:
  assumes ok: "match_service_ok s"
  shows "match_service_ok (apply_match_join srt MatchAlone p s)"
proof -
  let ?r = "mk_mmr_range_initial (ms_config s)" and ?n = "players_for_mode (mp_mode p)" and ?q = "queue_add p (ms_queues s (mp_mode p))"
  define e where "e = find_eligible srt ?r ?n ?q (srt ?q)"
  note qok = match_service_okD[OF ok, of "mp_mode p"]
  show ?thesis
  proof (cases "e = []")
    case True
    then have "drained ?r ?n ?q" unfolding e_def by (simp add: find_eligible_None)
    then show ?thesis using True qok
      by (intro match_service_okI[OF ok, of _ "mp_mode p" ?q])
        (simp_all add: apply_match_join_def try_match_drained queue_ok_add)
  next
    case False
    have "drained ?r ?n (filter (\<lambda>x. mp_user_id x \<notin> set (map mp_user_id (take ?n e))) ?q)"
      by (rule drained_after_join[OF _ _ _ e_def[symmetric] False]) (use qok in simp_all)
    then show ?thesis using False qok
      by (intro match_service_okI[OF ok, of _ "mp_mode p" "filter (\<lambda>x. mp_user_id x \<notin> set (map mp_user_id (take ?n e))) ?q"])
        (simp_all add: apply_match_join_def try_match_mode_def snapshot_by_queue_time_def Let_def e_def[symmetric]
          match_callback_def queue_ok_add queue_ok_filter)
  qed
qed

lemma filter_queue_ok:
  assumes "match_service_ok s" and "ms_config s' = ms_config s"
    and "ms_queues s' = (ms_queues s)(mode := filter P (ms_queues s mode))"
  shows "match_service_ok s'"
  using assms match_service_okD[OF assms(1), of mode]
  by (intro match_service_okI[OF assms]) (auto intro: queue_ok_filter drained_filter)

lemma check_mode_ok: "match_service_ok s \<Longrightarrow> match_service_ok (check_mode srt MatchAlone now mode s)"
proof -
  assume ok: "match_service_ok s"
  then have "try_match_mode srt MatchAlone mode s = s" by (intro try_match_drained) (simp add: match_service_okD)
  then show ?thesis using ok
    by (auto simp: check_mode_def Let_def purge_callback_def apply_match_purge_def queue_remove_players_filter
        intro!: filter_queue_ok[OF ok])
qed

lemma step_ok: "match_service_ok s \<Longrightarrow> match_service_ok (match_step srt ev s)"
proof (cases ev)
  case (LeaveRequest req)
  assume ok: "match_service_ok s"
  have "snd (queue_remove u (ms_queues s mode)) = filter (\<lambda>p. mp_user_id p \<noteq> u) (ms_queues s mode)" for u mode
    by (rule queue_remove_filter) (use match_service_okD[OF ok, of mode] in \<open>simp add: queue_ok_def\<close>)
  then show ?thesis using ok LeaveRequest
    by (auto simp: handle_match_leave_def Let_def apply_match_leave_def split: option.split intro!: filter_queue_ok[OF ok])
qed (auto simp: handle_match_join_def Let_def join_ok match_round_def check_mode_ok split: option.split)

lemma run_ok: "match_service_ok s \<Longrightarrow> match_service_ok (fold (match_step srt) evs s)"
  by (induction evs arbitrary: s) (simp_all add: step_ok)

end

lemma new_match_service_ok: "match_service_ok (new_match_service c)"
  by (simp add: match_service_ok_def new_match_service_def queue_ok_def drained_def)

text \<open>C19: Nobody waits although a match exists, in a service without Raft whose requests and matcher rounds
  do not overlap.  After any sequence of joins, leaves and rounds of the matcher thread, handled one
  after another, every queue holds each user once, and no player of a queue has as many players of the
  same queue within the rating range (oneself included) as the mode needs.\<close>

theorem queues_always_drained:
  assumes "queue_sort srt"
  shows "match_service_ok (fold (match_step srt) evs (new_match_service c))"
  by (rule queue_sort.run_ok[OF assms]) (rule new_match_service_ok)

definition example_join :: "string \<Rightarrow> int \<Rightarrow> string \<Rightarrow> match_event" where
  "example_join u r m = JoinRequest 5 (Some \<lparr>mq_user_id = Some u, mq_mmr = Some r, mq_mode = Some m, mq_queued_at_ms = None\<rparr>)"

theorem queues_always_drained_witness:
  "match_service_ok (fold (match_step (sort_key mp_queued_at_ms))
     [example_join ''a'' 1000 ''2v2'', example_join ''b'' 1100 ''2v2'', MatcherRound (\<lambda>_. 9)]
     (new_match_service default_matchmaking_config))"
  by (rule queues_always_drained) (rule stable.queue_sort_axioms)

context queue_sort
begin

lemma join_outcome:
  assumes ok: "queue_ok (mp_mode p) (ms_queues s (mp_mode p))"
  defines "q \<equiv> queue_add p (ms_queues s (mp_mode p))" and "s' \<equiv> apply_match_join srt MatchAlone p s"
  shows "ms_notified s' = ms_notified s \<and> ms_queues s' (mp_mode p) = q \<or>
    (\<exists>r players. ms_notified s' = ms_notified s @ [r] \<and> mr_mode r = mp_mode p \<and>
       mr_player_ids r = map mp_user_id players \<and> distinct (mr_player_ids r) \<and>
       length players = players_for_mode (mp_mode p) \<and> set players \<subseteq> set q \<and>
       list_all (\<lambda>x. list_all (\<lambda>y. \<bar>mp_mmr x - mp_mmr y\<bar> \<le> 2 * mk_mmr_range_initial (ms_config s)) players) players \<and>
       ms_queues s' (mp_mode p) = filter (\<lambda>x. mp_user_id x \<notin> set (mr_player_ids r)) q)"
proof -
  let ?r = "mk_mmr_range_initial (ms_config s)" and ?n = "players_for_mode (mp_mode p)"
  define e where "e = find_eligible srt ?r ?n q (srt q)"
  have s': "s' = (if e = [] then update_queue (mp_mode p) (queue_add p) s
      else apply_match_found (match_of (ms_next_match_id s) (mp_mode p) e)
        ((update_queue (mp_mode p) (queue_add p) s)\<lparr>ms_next_match_id := ms_next_match_id s + 1\<rparr>))"
    by (simp add: s'_def apply_match_join_def try_match_mode_def snapshot_by_queue_time_def Let_def q_def[symmetric]
        e_def[symmetric] match_callback_def)
  show ?thesis
  proof (cases "e = []")
    case True
    then show ?thesis by (simp add: s' q_def)
  next
    case False
    have "distinct (map mp_user_id q)" using queue_ok_add[OF ok] by (simp add: q_def queue_ok_def)
    then obtain c where c: "set (take ?n e) \<subseteq> near mp_mmr ?r (set q) c" "length (take ?n e) = ?n"
        "distinct (map mp_user_id (take ?n e))"
      using eligible_group[OF _ _ e_def[symmetric] False] by (metis players_for_mode_pos)
    have "\<bar>mp_mmr x - mp_mmr y\<bar> \<le> 2 * ?r" if "x \<in> set (take ?n e)" "y \<in> set (take ?n e)" for x y
    proof -
      have "\<bar>mp_mmr x - mp_mmr c\<bar> \<le> ?r" "\<bar>mp_mmr y - mp_mmr c\<bar> \<le> ?r" using c(1) that by (auto simp: near_def)
      then show ?thesis by arith
    qed
    moreover have "set (take ?n e) \<subseteq> set q" using c(1) by (auto simp: near_def)
    ultimately show ?thesis using False c
      by (intro disjI2 exI[of _ "match_of (ms_next_match_id s) (mp_mode p) e"] exI[of _ "take ?n e"])
        (simp add: s' list_all_iff q_def[symmetric])
  qed
qed

end

text \<open>Matches are fair and complete.  A join of a reachable service either leaves the player queued and
  announces nothing, or announces exactly one match: it has as many different players as the
  mode needs, all from the queue, any two of them at most twice the rating range apart, and it
  takes exactly these players out of the queue.\<close>

theorem join_makes_fair_match:
  assumes "queue_sort srt" and "s = fold (match_step srt) evs (new_match_service c)"
    and "s' = apply_match_join srt MatchAlone p s" and "q = queue_add p (ms_queues s (mp_mode p))"
  shows "ms_notified s' = ms_notified s \<and> ms_queues s' (mp_mode p) = q \<or>
    (\<exists>r players. ms_notified s' = ms_notified s @ [r] \<and> mr_mode r = mp_mode p \<and>
       mr_player_ids r = map mp_user_id players \<and> distinct (mr_player_ids r) \<and>
       length players = players_for_mode (mp_mode p) \<and> set players \<subseteq> set q \<and>
       list_all (\<lambda>x. list_all (\<lambda>y. \<bar>mp_mmr x - mp_mmr y\<bar> \<le> 2 * mk_mmr_range_initial (ms_config s)) players) players \<and>
       ms_queues s' (mp_mode p) = filter (\<lambda>x. mp_user_id x \<notin> set (mr_player_ids r)) q)"
proof -
  have "match_service_ok s" unfolding assms(2) by (rule queue_sort.run_ok[OF assms(1)]) (rule new_match_service_ok)
  then have "queue_ok (mp_mode p) (ms_queues s (mp_mode p))" by (simp add: match_service_okD)
  from queue_sort.join_outcome[OF assms(1) this] show ?thesis unfolding assms(3,4) .
qed

theorem join_makes_fair_match_witness:
  "let srt = sort_key mp_queued_at_ms;
       p = \<lparr>mp_user_id = ''b'', mp_mmr = 1050, mp_queued_at_ms = 7, mp_mode = K1v1\<rparr>;
       s = fold (match_step srt) [example_join ''a'' 1000 ''1v1''] (new_match_service default_matchmaking_config);
       s' = apply_match_join srt MatchAlone p s
   in \<exists>r. ms_notified s' = [r] \<and> length (mr_player_ids r) = 2"
proof -
  define p where "p = \<lparr>mp_user_id = ''b'', mp_mmr = 1050, mp_queued_at_ms = 7, mp_mode = K1v1\<rparr>"
  define s where "s = fold (match_step (sort_key mp_queued_at_ms)) [example_join ''a'' 1000 ''1v1''] (new_match_service default_matchmaking_config)"
  let ?s' = "apply_match_join (sort_key mp_queued_at_ms) MatchAlone p s"
  have s: "s = fold (match_step (sort_key mp_queued_at_ms)) [JoinRequest 5 (Some \<lparr>mq_user_id = Some ''a'', mq_mmr = Some 1000, mq_mode = Some ''1v1'', mq_queued_at_ms = None\<rparr>)] (new_match_service default_matchmaking_config)"
    by (simp add: s_def example_join_def)
  have "ms_notified s = [] \<and> ms_notified ?s' \<noteq> []"
    by (simp add: s p_def handle_match_join_def request_user_def request_mode_def request_player_def to_int32_def parse_mode_def
        apply_match_join_def try_match_mode_def snapshot_by_queue_time_def get_eligible_def in_range_def players_for_mode_def
        default_matchmaking_config_def new_match_service_def update_queue_def queue_add_def match_callback_def apply_match_found_def Let_def)
  with join_makes_fair_match[OF stable.queue_sort_axioms s_def refl refl, of p] show ?thesis
    unfolding Let_def p_def[symmetric] s_def[symmetric] by (auto simp: p_def players_for_mode_def)
qed

subsection \<open>Nobody is matched twice for one join\<close>

definition joins_of :: "string \<Rightarrow> match_event list \<Rightarrow> nat" where
  "joins_of u evs = length (filter (\<lambda>ev. case ev of JoinRequest now (Some q) \<Rightarrow> request_user q = u | _ \<Rightarrow> False) evs)"

definition matches_of :: "string \<Rightarrow> match_service \<Rightarrow> nat" where
  "matches_of u s = length (filter (\<lambda>r. u \<in> set (mr_player_ids r)) (ms_notified s))"

definition queued_in :: "string \<Rightarrow> match_service \<Rightarrow> nat" where
  "queued_in u s = length (filter (\<lambda>m. u \<in> mp_user_id ` set (ms_queues s m)) [K1v1, K2v2, K4v4])"

lemma queued_in_update:
  assumes "\<forall>m. m \<noteq> mode \<longrightarrow> ms_queues s' m = ms_queues s m"
  shows "queued_in u s' + (if u \<in> mp_user_id ` set (ms_queues s mode) then 1 else 0) =
    queued_in u s + (if u \<in> mp_user_id ` set (ms_queues s' mode) then 1 else 0)"
  using assms by (cases mode) (auto simp: queued_in_def)

lemma join_other_queues: "m \<noteq> mp_mode p \<Longrightarrow> ms_queues (apply_match_join srt MatchAlone p s) m = ms_queues s m"
  by (simp add: apply_match_join_def try_match_mode_def Let_def match_callback_def)

lemma queued_in_filter:
  assumes "ms_queues s' = (ms_queues s)(mode := filter P (ms_queues s mode))"
  shows "queued_in u s' \<le> queued_in u s"
  using queued_in_update[of mode s' s u] assms by (auto split: if_splits)

context queue_sort
begin

lemma join_counts:
  assumes ok: "match_service_ok s"
  shows "matches_of u (apply_match_join srt MatchAlone p s) + queued_in u (apply_match_join srt MatchAlone p s) \<le>
    matches_of u s + queued_in u s + (if mp_user_id p = u then 1 else 0)"
proof -
  let ?s' = "apply_match_join srt MatchAlone p s" and ?q = "queue_add p (ms_queues s (mp_mode p))"
  have upd: "queued_in u ?s' + (if u \<in> mp_user_id ` set (ms_queues s (mp_mode p)) then 1 else 0) =
      queued_in u s + (if u \<in> mp_user_id ` set (ms_queues ?s' (mp_mode p)) then 1 else 0)"
    by (rule queued_in_update) (simp add: join_other_queues)
  have q: "u \<in> mp_user_id ` set ?q \<longleftrightarrow> u = mp_user_id p \<or> u \<in> mp_user_id ` set (ms_queues s (mp_mode p))"
    by (auto simp: set_queue_add)
  have "queue_ok (mp_mode p) (ms_queues s (mp_mode p))" using match_service_okD[OF ok] by simp
  from join_outcome[OF this, of ] show ?thesis
  proof (elim disjE exE conjE)
    assume "ms_notified ?s' = ms_notified s" and "ms_queues ?s' (mp_mode p) = ?q"
    with upd q show ?thesis by (auto simp: matches_of_def split: if_splits)
  next
    fix r players
    assume r: "ms_notified ?s' = ms_notified s @ [r]" "mr_player_ids r = map mp_user_id players"
      "set players \<subseteq> set ?q" "ms_queues ?s' (mp_mode p) = filter (\<lambda>x. mp_user_id x \<notin> set (mr_player_ids r)) ?q"
    have m: "matches_of u ?s' = matches_of u s + (if u \<in> set (mr_player_ids r) then 1 else 0)"
      by (simp add: matches_of_def r(1))
    have "u \<in> mp_user_id ` set (ms_queues ?s' (mp_mode p)) \<longleftrightarrow> u \<in> mp_user_id ` set ?q \<and> u \<notin> set (mr_player_ids r)"
      by (auto simp: r(4))
    moreover have "u \<in> set (mr_player_ids r) \<Longrightarrow> u \<in> mp_user_id ` set ?q" using r(2,3) by auto
    ultimately show ?thesis using upd q m by (auto split: if_splits)
  qed
qed

lemma check_mode_counts:
  assumes ok: "match_service_ok s"
  shows "matches_of u (check_mode srt MatchAlone now mode s) + queued_in u (check_mode srt MatchAlone now mode s) \<le> matches_of u s + queued_in u s"
proof -
  have "try_match_mode srt MatchAlone mode s = s" by (rule try_match_drained) (use match_service_okD[OF ok] in simp)
  then have "ms_notified (check_mode srt MatchAlone now mode s) = ms_notified s \<and>
     (check_mode srt MatchAlone now mode s = s \<or>
      (\<exists>P. ms_queues (check_mode srt MatchAlone now mode s) = (ms_queues s)(mode := filter P (ms_queues s mode))))"
    by (auto simp: check_mode_def Let_def purge_callback_def apply_match_purge_def queue_remove_players_filter)
  then show ?thesis by (auto simp: matches_of_def dest: queued_in_filter)
qed

lemma step_counts:
  assumes ok: "match_service_ok s"
  shows "matches_of u (match_step srt ev s) + queued_in u (match_step srt ev s) \<le> matches_of u s + queued_in u s + joins_of u [ev]"
proof (cases ev)
  case (JoinRequest now req)
  show ?thesis
  proof (cases req)
    case (Some q)
    have "mp_user_id (request_player now q) = request_user q" by (simp add: request_player_def)
    then show ?thesis using JoinRequest Some join_counts[OF ok, of u "request_player now q"]
      by (cases "request_user q = []"; cases "request_user q = u") (simp_all add: handle_match_join_def Let_def joins_of_def)
  qed (simp add: JoinRequest handle_match_join_def)
next
  case (LeaveRequest req)
  have "snd (queue_remove v (ms_queues s mode)) = filter (\<lambda>p. mp_user_id p \<noteq> v) (ms_queues s mode)" for v mode
    by (rule queue_remove_filter) (use match_service_okD[OF ok, of mode] in \<open>simp add: queue_ok_def\<close>)
  then have "ms_notified (match_step srt ev s) = ms_notified s \<and> queued_in u (match_step srt ev s) \<le> queued_in u s"
    using LeaveRequest by (auto simp: handle_match_leave_def Let_def apply_match_leave_def split: option.split intro!: queued_in_filter)
  then show ?thesis by (simp add: matches_of_def)
next
  case (MatcherRound now)
  have "matches_of u (check_mode srt MatchAlone now K4v4 s3) + queued_in u (check_mode srt MatchAlone now K4v4 s3) \<le> matches_of u s + queued_in u s"
    if "s3 = check_mode srt MatchAlone now K2v2 (check_mode srt MatchAlone now K1v1 s)" for s3
    using check_mode_counts[OF ok, of u now K1v1] check_mode_counts[OF check_mode_ok[OF ok], of u now K2v2 now K1v1]
      check_mode_counts[OF check_mode_ok[OF check_mode_ok[OF ok]], of u now K4v4 now K2v2 now K1v1] unfolding that by linarith
  then show ?thesis by (simp add: MatcherRound match_round_def)
qed

lemma run_counts:
  "match_service_ok s \<Longrightarrow> matches_of u (fold (match_step srt) evs s) + queued_in u (fold (match_step srt) evs s) \<le>
     matches_of u s + queued_in u s + joins_of u evs"
proof (induction evs arbitrary: s)
  case (Cons ev evs)
  have "joins_of u (ev # evs) = joins_of u [ev] + joins_of u evs" by (simp add: joins_of_def)
  then show ?case using Cons.IH[OF step_ok[OF Cons.prems, of ev]] step_counts[OF Cons.prems, of u ev] by simp
qed (simp add: joins_of_def)

end

text \<open>One match per join.  In every run without replication a user appears in at most as many announced
  matches as the user sent join requests, and in fewer while still queued somewhere.\<close>

theorem matched_once_per_join:
  assumes "queue_sort srt"
  shows "matches_of u (fold (match_step srt) evs (new_match_service c)) +
     queued_in u (fold (match_step srt) evs (new_match_service c)) \<le> joins_of u evs"
  using queue_sort.run_counts[OF assms new_match_service_ok, of u evs c]
  by (simp add: matches_of_def queued_in_def new_match_service_def)

theorem matched_once_per_join_witness:
  "matches_of ''a'' (fold (match_step (sort_key mp_queued_at_ms)) [example_join ''a'' 1000 ''1v1'', example_join ''b'' 1100 ''1v1'']
     (new_match_service default_matchmaking_config)) \<le> 1"
  using matched_once_per_join[OF stable.queue_sort_axioms, of "''a''" "[example_join ''a'' 1000 ''1v1'', example_join ''b'' 1100 ''1v1'']" default_matchmaking_config]
  by (simp add: joins_of_def example_join_def request_user_def)

subsection \<open>The replicated service\<close>

lemma parse_mode_text [simp]: "parse_mode (mode_text m) = m"
  by (cases m) (simp_all add: parse_mode_def mode_text_def)

text \<open>A command read back from the log does what the request asked for.\<close>

lemma join_command_applies:
  "mp_user_id p \<noteq> [] \<Longrightarrow> match_apply_raft_entry srt role (Some (make_join_command p)) s = apply_match_join srt role p s"
  by (cases p) (simp add: match_apply_raft_entry_def make_join_command_def bare_command_def Let_def)

lemma leave_command_applies:
  "u \<noteq> [] \<Longrightarrow> match_apply_raft_entry srt role (Some (make_leave_command u mode)) s = apply_match_leave mode u s"
  by (simp add: match_apply_raft_entry_def make_leave_command_def bare_command_def Let_def)

lemma purge_command_applies:
  "match_apply_raft_entry srt role (Some (make_purge_command mode us)) s = apply_match_purge mode us s"
  by (simp add: match_apply_raft_entry_def make_purge_command_def bare_command_def Let_def)

lemma found_command_applies:
  "mr_match_id r \<noteq> [] \<Longrightarrow> mr_player_ids r \<noteq> [] \<Longrightarrow>
     match_apply_raft_entry srt role (Some (make_match_found_command r)) s = apply_match_found r s"
  by (cases r) (simp add: match_apply_raft_entry_def make_match_found_command_def bare_command_def Let_def)

text \<open>A proposed match leaves the players queued, so the next attempt proposes them again.\<close>

lemma leader_proposes_again:
  assumes sort: "queue_sort srt"
    and q: "\<not> drained (mk_mmr_range_initial (ms_config s)) (players_for_mode mode) (ms_queues s mode)"
  shows "\<exists>e. e \<noteq> [] \<and> ms_proposed (try_match_mode srt (MatchLeader app) mode (try_match_mode srt (MatchLeader app) mode s)) =
    ms_proposed s @ [make_match_found_command (match_of (ms_next_match_id s) mode e),
      make_match_found_command (match_of (ms_next_match_id s + 1) mode e)]"
proof -
  define e where "e = find_eligible srt (mk_mmr_range_initial (ms_config s)) (players_for_mode mode) (ms_queues s mode) (srt (ms_queues s mode))"
  have e: "e \<noteq> []" using q queue_sort.find_eligible_None[OF sort] by (simp add: e_def)
  have one: "try_match_mode srt (MatchLeader app) mode t = propose (make_match_found_command (match_of (ms_next_match_id t) mode e)) (t\<lparr>ms_next_match_id := ms_next_match_id t + 1\<rparr>)"
    if "ms_queues t = ms_queues s" "ms_config t = ms_config s" for t
    using e that by (simp add: try_match_mode_def snapshot_by_queue_time_def Let_def e_def[symmetric] match_callback_def)
  show ?thesis using e by (intro exI[of _ e]) (simp add: one propose_def)
qed

text \<open>A defect of the replicated service.  While a proposed match is not yet committed its players stay
  queued, so the leader's next attempt proposes the same players under another match id; when
  both commands are committed, every replica announces both matches.\<close>

theorem raft_match_committed_twice:
  assumes "queue_sort srt"
    and "\<not> drained (mk_mmr_range_initial (ms_config s)) (players_for_mode mode) (ms_queues s mode)"
    and "s2 = try_match_mode srt (MatchLeader app) mode (try_match_mode srt (MatchLeader app) mode s)"
  shows "\<exists>c1 c2 r1 r2. ms_proposed s2 = ms_proposed s @ [c1, c2] \<and>
    ms_notified (fold (match_apply_raft_entry srt role) [Some c1, Some c2] t) = ms_notified t @ [r1, r2] \<and>
    mr_player_ids r1 = mr_player_ids r2 \<and> mr_player_ids r1 \<noteq> [] \<and> mr_match_id r1 \<noteq> mr_match_id r2"
proof -
  obtain e where e: "e \<noteq> []" "ms_proposed s2 = ms_proposed s @ [make_match_found_command (match_of (ms_next_match_id s) mode e),
      make_match_found_command (match_of (ms_next_match_id s + 1) mode e)]"
    using leader_proposes_again[OF assms(1,2)] unfolding assms(3) by blast
  then show ?thesis
    by (intro exI[of _ "make_match_found_command (match_of (ms_next_match_id s) mode e)"]
        exI[of _ "make_match_found_command (match_of (ms_next_match_id s + 1) mode e)"]
        exI[of _ "match_of (ms_next_match_id s) mode e"] exI[of _ "match_of (ms_next_match_id s + 1) mode e"])
      (simp add: found_command_applies)
qed

definition example_pair :: match_service where
  "example_pair = (new_match_service default_matchmaking_config)\<lparr>ms_queues := (\<lambda>_. [])(K1v1 :=
     [\<lparr>mp_user_id = ''a'', mp_mmr = 1000, mp_queued_at_ms = 1, mp_mode = K1v1\<rparr>,
      \<lparr>mp_user_id = ''b'', mp_mmr = 1010, mp_queued_at_ms = 2, mp_mode = K1v1\<rparr>])\<rparr>"

theorem raft_match_committed_twice_witness:
  "\<exists>c1 c2 r1 r2. ms_proposed (try_match_mode (sort_key mp_queued_at_ms) (MatchLeader (\<lambda>_. True)) K1v1
      (try_match_mode (sort_key mp_queued_at_ms) (MatchLeader (\<lambda>_. True)) K1v1 example_pair)) = ms_proposed example_pair @ [c1, c2] \<and>
    ms_notified (fold (match_apply_raft_entry (sort_key mp_queued_at_ms) MatchAlone) [Some c1, Some c2] example_pair) = ms_notified example_pair @ [r1, r2] \<and>
    mr_player_ids r1 = mr_player_ids r2 \<and> mr_player_ids r1 \<noteq> [] \<and> mr_match_id r1 \<noteq> mr_match_id r2"
proof -
  have "\<not> drained (mk_mmr_range_initial (ms_config example_pair)) (players_for_mode K1v1) (ms_queues example_pair K1v1)"
    by (simp add: example_pair_def new_match_service_def default_matchmaking_config_def drained_def players_for_mode_def in_range_def)
  from raft_match_committed_twice[OF stable.queue_sort_axioms this refl] show ?thesis .
qed

subsection \<open>Overlapping joins\<close>

text \<open>The part of \<^verbatim>\<open>try_match_mode\<close> before its callback; in the code other threads may run between it and what surrounds it.\<close>

definition look_for_match :: "queue_sorter \<Rightarrow> match_mode \<Rightarrow> match_service \<Rightarrow> match_result option \<times> match_service" where
  "look_for_match srt mode s =
     (let q = ms_queues s mode;
          eligible = find_eligible srt (mk_mmr_range_initial (ms_config s)) (players_for_mode mode) q (snapshot_by_queue_time srt q)
      in if eligible = [] then (None, s)
         else (Some (match_of (ms_next_match_id s) mode eligible), s\<lparr>ms_next_match_id := ms_next_match_id s + 1\<rparr>))"

text \<open>Run without a break, the regions are the join.\<close>

lemma join_in_regions:
  "apply_match_join srt role p s =
     (case look_for_match srt (mp_mode p) (update_queue (mp_mode p) (queue_add p) s) of
        (None, s1) \<Rightarrow> s1 | (Some r, s1) \<Rightarrow> match_callback role r s1)"
  by (simp add: apply_match_join_def try_match_mode_def look_for_match_def Let_def)

definition waiting_player :: "string \<Rightarrow> u64 \<Rightarrow> match_player" where
  "waiting_player u t = \<lparr>mp_user_id = u, mp_mmr = 1000, mp_queued_at_ms = t, mp_mode = K1v1\<rparr>"

text \<open>Two joins that overlap while a player waits: both threads have entered their player and looked before either removes
  the players it found.  Both find the same two players, who are announced in two matches, while the third one is left.\<close>

definition overlapping_joins :: match_service where
  "overlapping_joins =
     (let s1 = update_queue K1v1 (queue_add (waiting_player ''x'' 1)) (new_match_service default_matchmaking_config);
          s2 = update_queue K1v1 (queue_add (waiting_player ''a'' 2)) s1;
          (r1, s3) = look_for_match (sort_key mp_queued_at_ms) K1v1 s2;
          s4 = update_queue K1v1 (queue_add (waiting_player ''b'' 3)) s3;
          (r2, s5) = look_for_match (sort_key mp_queued_at_ms) K1v1 s4
      in match_callback MatchAlone (the r2) (match_callback MatchAlone (the r1) s5))"

lemma overlapping_joins_match_twice:
  "map mr_player_ids (ms_notified overlapping_joins) = [[''x'', ''a''], [''x'', ''a'']] \<and>
   map mr_match_id (ms_notified overlapping_joins) = [''match_1'', ''match_2''] \<and>
   map mp_user_id (ms_queues overlapping_joins K1v1) = [''b'']"
  by code_simp

end
