(* ===== verification/Protocol.thy ===== *)
theory Protocol
  imports Prelude
begin

text \<open>
  The error codes and message numbers of the client protocol (\<^verbatim>\<open>include/net/protocol.h\<close>), shared by both
  gateways.
\<close>

subsection \<open>Error codes\<close>

datatype error_code =
    KOk | KAuthRequired | KInvalidUserId | KInvalidToken | KDuplicateLogin | KInvalidRoomId | KRoomAlreadyExists
  | KRoomNotFound | KRoomInBattle | KNotInRoom | KNotRoomOwner | KNotAllReady | KNotEnoughPlayers
  | KBattleAlreadyStarted | KBattleNotStarted | KPlayerNotInBattle | KTokenExpired | KLoginBackendUnavailable
  | KRoomBackendUnavailable | KBattleBackendUnavailable | KRateLimited | KSessionNotFound

fun error_value :: "error_code \<Rightarrow> int" where
  "error_value KOk = 0"
| "error_value KAuthRequired = 1001"
| "error_value KInvalidUserId = 1002"
| "error_value KInvalidToken = 1003"
| "error_value KDuplicateLogin = 1004"
| "error_value KInvalidRoomId = 2001"
| "error_value KRoomAlreadyExists = 2002"
| "error_value KRoomNotFound = 2003"
| "error_value KRoomInBattle = 2004"
| "error_value KNotInRoom = 2005"
| "error_value KNotRoomOwner = 2006"
| "error_value KNotAllReady = 2007"
| "error_value KNotEnoughPlayers = 3001"
| "error_value KBattleAlreadyStarted = 3002"
| "error_value KBattleNotStarted = 3003"
| "error_value KPlayerNotInBattle = 3004"
| "error_value KTokenExpired = 1005"
| "error_value KLoginBackendUnavailable = 2008"
| "error_value KRoomBackendUnavailable = 2009"
| "error_value KBattleBackendUnavailable = 3010"
| "error_value KRateLimited = 9001"
| "error_value KSessionNotFound = 9002"

fun error_text :: "error_code \<Rightarrow> string" where
  "error_text KOk = ''ok''"
| "error_text KAuthRequired = ''auth_required''"
| "error_text KInvalidUserId = ''invalid_user_id''"
| "error_text KInvalidToken = ''invalid_token''"
| "error_text KTokenExpired = ''token_expired''"
| "error_text KDuplicateLogin = ''duplicate_login''"
| "error_text KInvalidRoomId = ''invalid_room_id''"
| "error_text KRoomAlreadyExists = ''room_already_exists''"
| "error_text KRoomNotFound = ''room_not_found''"
| "error_text KRoomInBattle = ''room_in_battle''"
| "error_text KNotInRoom = ''not_in_room''"
| "error_text KNotRoomOwner = ''not_room_owner''"
| "error_text KNotAllReady = ''not_all_ready''"
| "error_text KNotEnoughPlayers = ''not_enough_players''"
| "error_text KBattleAlreadyStarted = ''battle_already_started''"
| "error_text KBattleNotStarted = ''battle_not_started''"
| "error_text KPlayerNotInBattle = ''player_not_in_battle''"
| "error_text KLoginBackendUnavailable = ''login_backend_unavailable''"
| "error_text KRoomBackendUnavailable = ''room_backend_unavailable''"
| "error_text KBattleBackendUnavailable = ''battle_backend_unavailable''"
| "error_text KRateLimited = ''rate_limited''"
| "error_text KSessionNotFound = ''session_not_found''"

subsection \<open>Message numbers\<close>

definition kHeartbeatRequest :: nat where "kHeartbeatRequest = 1"
definition kHeartbeatResponse :: nat where "kHeartbeatResponse = 2"
definition kEchoRequest :: nat where "kEchoRequest = 1001"
definition kSessionKickedPush :: nat where "kSessionKickedPush = 1003"
definition kSessionResumedPush :: nat where "kSessionResumedPush = 1004"
definition kLoginRequest :: nat where "kLoginRequest = 2001"
definition kLoginResponse :: nat where "kLoginResponse = 2002"
definition kRoomCreateRequest :: nat where "kRoomCreateRequest = 3001"
definition kRoomCreateResponse :: nat where "kRoomCreateResponse = 3002"
definition kRoomJoinRequest :: nat where "kRoomJoinRequest = 3003"
definition kRoomJoinResponse :: nat where "kRoomJoinResponse = 3004"
definition kRoomLeaveRequest :: nat where "kRoomLeaveRequest = 3005"
definition kRoomLeaveResponse :: nat where "kRoomLeaveResponse = 3006"
definition kRoomReadyRequest :: nat where "kRoomReadyRequest = 3007"
definition kRoomReadyResponse :: nat where "kRoomReadyResponse = 3008"
definition kRoomStatePush :: nat where "kRoomStatePush = 3009"
definition kBattleStartRequest :: nat where "kBattleStartRequest = 4001"
definition kBattleStartResponse :: nat where "kBattleStartResponse = 4002"
definition kBattleInputRequest :: nat where "kBattleInputRequest = 4003"
definition kBattleInputResponse :: nat where "kBattleInputResponse = 4004"
definition kBattleInputPush :: nat where "kBattleInputPush = 4005"
definition kBattleStatePush :: nat where "kBattleStatePush = 4006"
definition kErrorResponse :: nat where "kErrorResponse = 9001"
definition kEchoResponse :: nat where "kEchoResponse = 1002"
definition kRegisterRequest :: nat where "kRegisterRequest = 2003"
definition kRegisterResponse :: nat where "kRegisterResponse = 2004"
definition kRoomListRequest :: nat where "kRoomListRequest = 3010"
definition kRoomListResponse :: nat where "kRoomListResponse = 3011"
definition kRoomDetailRequest :: nat where "kRoomDetailRequest = 3012"
definition kRoomDetailResponse :: nat where "kRoomDetailResponse = 3013"
definition kRoomKickRequest :: nat where "kRoomKickRequest = 3014"
definition kRoomKickResponse :: nat where "kRoomKickResponse = 3015"
definition kRoomTransferOwnerRequest :: nat where "kRoomTransferOwnerRequest = 3016"
definition kRoomTransferOwnerResponse :: nat where "kRoomTransferOwnerResponse = 3017"
definition kBattleStateRequest :: nat where "kBattleStateRequest = 4007"
definition kBattleStateResponse :: nat where "kBattleStateResponse = 4008"
definition kReplayLoadRequest :: nat where "kReplayLoadRequest = 4009"
definition kReplayLoadResponse :: nat where "kReplayLoadResponse = 4010"
definition kMatchJoinRequest :: nat where "kMatchJoinRequest = 6001"
definition kMatchJoinResponse :: nat where "kMatchJoinResponse = 6002"
definition kMatchFoundPush :: nat where "kMatchFoundPush = 6003"
definition kMatchLeaveRequest :: nat where "kMatchLeaveRequest = 6004"
definition kMatchLeaveResponse :: nat where "kMatchLeaveResponse = 6005"
definition kMatchStatusRequest :: nat where "kMatchStatusRequest = 6006"
definition kMatchStatusResponse :: nat where "kMatchStatusResponse = 6007"
definition kLeaderboardSubmitRequest :: nat where "kLeaderboardSubmitRequest = 7001"
definition kLeaderboardSubmitResponse :: nat where "kLeaderboardSubmitResponse = 7002"
definition kLeaderboardTopRequest :: nat where "kLeaderboardTopRequest = 7003"
definition kLeaderboardTopResponse :: nat where "kLeaderboardTopResponse = 7004"
definition kLeaderboardRankRequest :: nat where "kLeaderboardRankRequest = 7005"
definition kLeaderboardRankResponse :: nat where "kLeaderboardRankResponse = 7006"

text \<open>Clients tell errors apart by their number.\<close>

lemma error_value_inj: "error_value c = error_value d \<Longrightarrow> c = d"
  by (cases c; cases d) simp_all

text \<open>The message numbers, for evaluations.\<close>

lemmas message_numbers =
  kHeartbeatRequest_def kHeartbeatResponse_def kEchoRequest_def kSessionKickedPush_def kSessionResumedPush_def kLoginRequest_def
  kLoginResponse_def kRoomCreateRequest_def kRoomCreateResponse_def kRoomJoinRequest_def kRoomJoinResponse_def kRoomLeaveRequest_def
  kRoomLeaveResponse_def kRoomReadyRequest_def kRoomReadyResponse_def kRoomStatePush_def kBattleStartRequest_def
  kBattleStartResponse_def kBattleInputRequest_def kBattleInputResponse_def kBattleInputPush_def kBattleStatePush_def kErrorResponse_def
  kEchoResponse_def kRegisterRequest_def kRegisterResponse_def kRoomListRequest_def kRoomListResponse_def kRoomDetailRequest_def
  kRoomDetailResponse_def kRoomKickRequest_def kRoomKickResponse_def kRoomTransferOwnerRequest_def kRoomTransferOwnerResponse_def
  kBattleStateRequest_def kBattleStateResponse_def kReplayLoadRequest_def kReplayLoadResponse_def kMatchJoinRequest_def
  kMatchJoinResponse_def kMatchFoundPush_def kMatchLeaveRequest_def kMatchLeaveResponse_def kMatchStatusRequest_def
  kMatchStatusResponse_def kLeaderboardSubmitRequest_def kLeaderboardSubmitResponse_def kLeaderboardTopRequest_def
  kLeaderboardTopResponse_def kLeaderboardRankRequest_def kLeaderboardRankResponse_def

end
