(* ===== verification/Game_Sessions.thy ===== *)
theory Game_Sessions
  imports Prelude "HOL-Library.AList"
begin

text \<open>
  The session table of the version 1 gateway (\<^verbatim>\<open>src/game/gateway/session_manager.cpp\<close>).  A
  \<^verbatim>\<open>std::shared_ptr<net::Session>\<close> is the identity of the session object, \<^const>\<open>None\<close> the null
  pointer; the hash table of the sessions is an association list, the order in which a
  broadcast walks it is an argument.  Every member function holds the mutex and is one step.
\<close>

type_synonym session_ptr = "nat option"

record login_context =
  lc_user_id :: string
  lc_display_name :: string

definition empty_login_context :: login_context where
  "empty_login_context = \<lparr>lc_user_id = [], lc_display_name = []\<rparr>"

record session_record =
  sr_session_id :: nat
  sr_session :: session_ptr
  sr_login_context :: login_context
  sr_authenticated :: bool

type_synonym session_table = "(session_ptr \<times> session_record) list"

record session_manager =
  sm_next_session_id :: nat
  sm_sessions :: session_table
  sm_user_index :: "string \<rightharpoonup> session_ptr"
  sm_snapshot :: session_table
  sm_max_pending :: nat

definition new_session_manager :: session_manager where
  "new_session_manager = \<lparr>sm_next_session_id = 1, sm_sessions = [], sm_user_index = Map.empty,
     sm_snapshot = [], sm_max_pending = 1024\<rparr>"

definition session_record_of :: "session_ptr \<Rightarrow> session_manager \<Rightarrow> session_record option" where
  "session_record_of key s = map_of (sm_sessions s) key"

definition publish_snapshot :: "session_manager \<Rightarrow> session_manager" where
  "publish_snapshot s = s\<lparr>sm_snapshot := sm_sessions s\<rparr>"

definition session_add :: "session_ptr \<Rightarrow> session_manager \<Rightarrow> nat \<times> session_manager" where
  "session_add session s =
     (let session_id = sm_next_session_id s
      in (session_id, publish_snapshot (s\<lparr>sm_next_session_id := u64_add session_id 1,
           sm_sessions := AList.update session
             \<lparr>sr_session_id = session_id, sr_session = session, sr_login_context = empty_login_context,
              sr_authenticated = False\<rparr> (sm_sessions s)\<rparr>)))"

text \<open>The user index forgets a user who is bound to this very session.\<close>

definition drop_user_index :: "session_ptr \<Rightarrow> session_record \<Rightarrow> (string \<rightharpoonup> session_ptr) \<Rightarrow> (string \<rightharpoonup> session_ptr)" where
  "drop_user_index key rec index =
     (let u = lc_user_id (sr_login_context rec)
      in if u \<noteq> [] \<and> index u = Some key then index(u := None) else index)"

definition session_remove :: "session_ptr \<Rightarrow> session_manager \<Rightarrow> session_manager" where
  "session_remove session s =
     (case session_record_of session s of
        None \<Rightarrow> s
      | Some rec \<Rightarrow> publish_snapshot (s\<lparr>sm_user_index := drop_user_index session rec (sm_user_index s),
                      sm_sessions := AList.delete session (sm_sessions s)\<rparr>))"

definition all_sessions :: "(session_table \<Rightarrow> session_table) \<Rightarrow> session_manager \<Rightarrow> session_ptr list" where
  "all_sessions walk s = map (sr_session \<circ> snd) (walk (sm_sessions s))"

definition session_contains :: "session_ptr \<Rightarrow> session_manager \<Rightarrow> bool" where
  "session_contains session s = (session_record_of session s \<noteq> None)"

definition is_authenticated :: "session_ptr \<Rightarrow> session_manager \<Rightarrow> bool" where
  "is_authenticated session s = (case session_record_of session s of None \<Rightarrow> False | Some rec \<Rightarrow> sr_authenticated rec)"

definition login_context_of :: "session_ptr \<Rightarrow> session_manager \<Rightarrow> login_context option" where
  "login_context_of session s =
     (case session_record_of session s of
        None \<Rightarrow> None
      | Some rec \<Rightarrow> if sr_authenticated rec then Some (sr_login_context rec) else None)"

definition user_id_of :: "session_ptr \<Rightarrow> session_manager \<Rightarrow> string option" where
  "user_id_of session s =
     (case session_record_of session s of
        None \<Rightarrow> None
      | Some rec \<Rightarrow> if sr_authenticated rec then Some (lc_user_id (sr_login_context rec)) else None)"

definition session_counts :: "session_manager \<Rightarrow> nat \<times> nat" where
  "session_counts s = (length (sm_sessions s), length (filter (sr_authenticated \<circ> snd) (sm_sessions s)))"

definition authenticate :: "session_ptr \<Rightarrow> login_context \<Rightarrow> session_manager \<Rightarrow> session_ptr \<times> session_manager" where
  "authenticate session context s =
     (case session_record_of session s of
        None \<Rightarrow> (None, s)
      | Some rec \<Rightarrow>
          if lc_user_id context = [] then (None, s)
          else
           (let index = drop_user_index session rec (sm_user_index s);
                (replaced, table) =
                  (case index (lc_user_id context) of
                     None \<Rightarrow> (None, sm_sessions s)
                   | Some old \<Rightarrow>
                       if old = session then (None, sm_sessions s)
                       else (case map_of (sm_sessions s) old of
                               None \<Rightarrow> (None, sm_sessions s)
                             | Some orec \<Rightarrow> (sr_session orec, AList.update old
                                 (orec\<lparr>sr_authenticated := False, sr_login_context := empty_login_context\<rparr>) (sm_sessions s))))
            in (replaced, publish_snapshot (s\<lparr>sm_user_index := index(lc_user_id context \<mapsto> session),
                  sm_sessions := AList.update session (rec\<lparr>sr_authenticated := True, sr_login_context := context\<rparr>) table\<rparr>))))"

text \<open>The sessions a broadcast sends to, and those it reports as overloaded.\<close>

definition broadcast_targets ::
  "(session_table \<Rightarrow> session_table) \<Rightarrow> (session_ptr \<Rightarrow> nat) \<Rightarrow> session_manager \<Rightarrow> session_ptr list \<times> session_ptr list" where
  "broadcast_targets walk pending s =
     (let live = filter (\<lambda>rec. sr_authenticated rec \<and> sr_session rec \<noteq> None) (map snd (walk (sm_snapshot s)))
      in (map sr_session (filter (\<lambda>rec. pending (sr_session rec) < sm_max_pending s) live),
          map sr_session (filter (\<lambda>rec. pending (sr_session rec) \<ge> sm_max_pending s) live)))"

subsection \<open>One session per user\<close>

definition bound_user :: "session_record option \<Rightarrow> string option" where
  "bound_user r = (case r of None \<Rightarrow> None | Some rec \<Rightarrow> if sr_authenticated rec then Some (lc_user_id (sr_login_context rec)) else None)"

lemma bound_user_simps [simp]:
  "bound_user None = None"
  "bound_user (Some rec) = (if sr_authenticated rec then Some (lc_user_id (sr_login_context rec)) else None)"
  by (simp_all add: bound_user_def)

definition record_ok :: "session_ptr \<times> session_record \<Rightarrow> bool" where
  "record_ok kr = (sr_session (snd kr) = fst kr \<and>
     (lc_user_id (sr_login_context (snd kr)) = [] \<longleftrightarrow> \<not> sr_authenticated (snd kr)))"

text \<open>The index maps a user to a session exactly when the session is authenticated for the user,
  and readers of the published copy see the table.\<close>

definition sessions_ok :: "session_manager \<Rightarrow> bool" where
  "sessions_ok s \<longleftrightarrow> distinct (map fst (sm_sessions s)) \<and> list_all record_ok (sm_sessions s) \<and>
     sm_snapshot s = sm_sessions s \<and>
     (\<forall>u k. sm_user_index s u = Some k \<longleftrightarrow> bound_user (map_of (sm_sessions s) k) = Some u)"

lemma sessions_ok_new: "sessions_ok new_session_manager"
  by (simp add: sessions_ok_def new_session_manager_def)

lemma map_of_update [simp]: "map_of (AList.update k v xs) k' = (if k' = k then Some v else map_of xs k')"
  by (simp add: update_conv)

lemma map_of_delete [simp]: "map_of (AList.delete k xs) k' = (if k' = k then None else map_of xs k')"
  by (simp add: delete_conv)

lemma list_all_update: "list_all P xs \<Longrightarrow> P (k, v) \<Longrightarrow> list_all P (AList.update k v xs)"
  by (induction xs) auto

lemma list_all_delete: "list_all P xs \<Longrightarrow> list_all P (AList.delete k xs)"
  by (auto simp: list_all_iff AList.delete_eq)

lemma record_okD: "sessions_ok s \<Longrightarrow> session_record_of k s = Some rec \<Longrightarrow> record_ok (k, rec)"
  by (auto simp: sessions_ok_def session_record_of_def list_all_iff dest: map_of_SomeD)

lemma index_bound: "sessions_ok s \<Longrightarrow> sm_user_index s u = Some k \<longleftrightarrow> bound_user (session_record_of k s) = Some u"
  by (simp add: sessions_ok_def session_record_of_def)

lemma bound_unique:
  "sessions_ok s \<Longrightarrow> bound_user (map_of (sm_sessions s) a) = Some u \<Longrightarrow> bound_user (map_of (sm_sessions s) b) = Some u \<Longrightarrow> a = b"
  unfolding sessions_ok_def by (metis option.inject)

lemma sessions_okI:
  assumes "sessions_ok s" and "distinct (map fst t)" and "list_all record_ok t"
    and "\<And>u k. index u = Some k \<longleftrightarrow> bound_user (map_of t k) = Some u"
  shows "sessions_ok (publish_snapshot (s\<lparr>sm_user_index := index, sm_sessions := t\<rparr>))"
  using assms by (simp add: sessions_ok_def publish_snapshot_def)

lemma sessions_ok_add:
  assumes ok: "sessions_ok s" and fresh: "session_record_of k s = None"
  shows "sessions_ok (snd (session_add k s))"
  using ok fresh unfolding sessions_ok_def
  by (auto simp: session_add_def publish_snapshot_def Let_def distinct_update session_record_of_def record_ok_def
      empty_login_context_def intro!: list_all_update)

lemma drop_user_index_ok:
  assumes ok: "sessions_ok s" and rec: "session_record_of k s = Some rec"
  shows "drop_user_index k rec (sm_user_index s) u = (if sm_user_index s u = Some k then None else sm_user_index s u)"
  using index_bound[OF ok, of u k] index_bound[OF ok, of "lc_user_id (sr_login_context rec)" k] record_okD[OF ok rec] rec
  by (auto simp: drop_user_index_def Let_def record_ok_def split: if_splits)

lemma sessions_ok_remove:
  assumes ok: "sessions_ok s"
  shows "sessions_ok (session_remove k s)"
proof (cases "session_record_of k s")
  case (Some rec)
  have "sessions_ok (publish_snapshot (s\<lparr>sm_user_index := drop_user_index k rec (sm_user_index s), sm_sessions := AList.delete k (sm_sessions s)\<rparr>))"
  proof (rule sessions_okI[OF ok])
    show "drop_user_index k rec (sm_user_index s) u = Some k' \<longleftrightarrow> bound_user (map_of (AList.delete k (sm_sessions s)) k') = Some u" for u k'
      using index_bound[OF ok, of u k'] by (auto simp: drop_user_index_ok[OF ok Some] session_record_of_def)
  qed (use ok in \<open>simp_all add: sessions_ok_def distinct_delete list_all_delete\<close>)
  with Some show ?thesis by (simp add: session_remove_def)
qed (use ok in \<open>simp add: session_remove_def\<close>)

text \<open>The three outcomes of a login: refused, alone, or taking over the session that had the user.\<close>

lemma authenticate_cases:
  assumes ok: "sessions_ok s" and rec: "session_record_of k s = Some rec" and u: "lc_user_id c \<noteq> []"
  shows "authenticate k c s =
    (let old = (case sm_user_index s (lc_user_id c) of None \<Rightarrow> None | Some o' \<Rightarrow> if o' = k then None else Some o');
         index = drop_user_index k rec (sm_user_index s)
     in case old of
          None \<Rightarrow> (None, publish_snapshot (s\<lparr>sm_user_index := index(lc_user_id c \<mapsto> k),
             sm_sessions := AList.update k (rec\<lparr>sr_authenticated := True, sr_login_context := c\<rparr>) (sm_sessions s)\<rparr>))
        | Some o' \<Rightarrow> (o', publish_snapshot (s\<lparr>sm_user_index := index(lc_user_id c \<mapsto> k),
             sm_sessions := AList.update k (rec\<lparr>sr_authenticated := True, sr_login_context := c\<rparr>)
               (AList.update o' ((the (session_record_of o' s))\<lparr>sr_authenticated := False, sr_login_context := empty_login_context\<rparr>) (sm_sessions s))\<rparr>)))"
proof (cases "sm_user_index s (lc_user_id c)")
  case None
  then show ?thesis using rec u by (simp add: authenticate_def drop_user_index_ok[OF ok rec] Let_def)
next
  case (Some o')
  then have "bound_user (session_record_of o' s) = Some (lc_user_id c)" using index_bound[OF ok] by simp
  then obtain orec where orec: "session_record_of o' s = Some orec" by (cases "session_record_of o' s") auto
  then have "sr_session orec = o'" using record_okD[OF ok] by (auto simp: record_ok_def)
  then show ?thesis using Some rec u orec
    by (simp add: authenticate_def drop_user_index_ok[OF ok rec] Let_def session_record_of_def)
qed

lemma sessions_ok_authenticate:
  assumes ok: "sessions_ok s"
  shows "sessions_ok (snd (authenticate k c s))"
proof (cases "\<exists>rec. session_record_of k s = Some rec \<and> lc_user_id c \<noteq> []")
  case True
  then obtain rec where rec: "session_record_of k s = Some rec" and u: "lc_user_id c \<noteq> []" by blast
  have rok: "record_ok (k, rec\<lparr>sr_authenticated := True, sr_login_context := c\<rparr>)" using record_okD[OF ok rec] u by (simp add: record_ok_def)
  have base: "distinct (map fst (sm_sessions s))" "list_all record_ok (sm_sessions s)" using ok by (simp_all add: sessions_ok_def)
  show ?thesis
  proof (cases "\<exists>o'. sm_user_index s (lc_user_id c) = Some o' \<and> o' \<noteq> k")
    case True
    then obtain o' where o': "sm_user_index s (lc_user_id c) = Some o'" "o' \<noteq> k" by blast
    then obtain orec where orec: "session_record_of o' s = Some orec" and "bound_user (Some orec) = Some (lc_user_id c)"
      using index_bound[OF ok, of "lc_user_id c" o'] by (cases "session_record_of o' s") auto
    have "record_ok (o', orec\<lparr>sr_authenticated := False, sr_login_context := empty_login_context\<rparr>)"
      using record_okD[OF ok orec] by (simp add: record_ok_def empty_login_context_def)
    then show ?thesis using o' rok base u
      by (simp add: authenticate_cases[OF ok rec u] Let_def orec)
        (rule sessions_okI[OF ok]; auto simp: distinct_update drop_user_index_ok[OF ok rec] index_bound[OF ok] session_record_of_def
          intro!: list_all_update dest: bound_unique[OF ok])
  next
    case False
    then have "\<forall>k'. bound_user (map_of (sm_sessions s) k') = Some (lc_user_id c) \<longrightarrow> k' = k"
      using index_bound[OF ok, of "lc_user_id c"] by (simp add: session_record_of_def)
    then have "sessions_ok (publish_snapshot (s\<lparr>sm_user_index := (drop_user_index k rec (sm_user_index s))(lc_user_id c \<mapsto> k),
        sm_sessions := AList.update k (rec\<lparr>sr_authenticated := True, sr_login_context := c\<rparr>) (sm_sessions s)\<rparr>))"
      using rok base by (intro sessions_okI[OF ok]) (auto simp: distinct_update drop_user_index_ok[OF ok rec]
        index_bound[OF ok] session_record_of_def intro!: list_all_update dest: bound_unique[OF ok])
    then show ?thesis using False
      by (auto simp: authenticate_cases[OF ok rec u] Let_def split: option.split)
  qed
qed (use ok in \<open>auto simp: authenticate_def split: option.split\<close>)

end
