(* ===== verification/Game_Rooms.thy ===== *)
theory Game_Rooms
  imports Game_Sessions "HOL-Library.Multiset"
begin

text \<open>
  The rooms of the version 1 gateway (\<^verbatim>\<open>src/game/room/room_manager.cpp\<close>).  The members of a room are an
  association list; \<open>ord\<close> is the order in which their hash table is walked (locale
  \<open>member_walk\<close>).  Whether a battle runs in a room is the argument \<open>in_battle\<close>, the query the
  gateway connects to the battle manager.
\<close>

record game_member =
  gm_session :: session_ptr
  gm_user_id :: string
  gm_ready :: bool

type_synonym member_table = "(session_ptr \<times> game_member) list"

record game_room =
  gr_owner :: session_ptr
  gr_members :: member_table

record room_manager =
  rm_rooms :: "string \<rightharpoonup> game_room"
  rm_session_rooms :: "session_ptr \<rightharpoonup> string"

definition new_room_manager :: room_manager where
  "new_room_manager = \<lparr>rm_rooms = Map.empty, rm_session_rooms = Map.empty\<rparr>"

record room_snapshot =
  rs_room_id :: string
  rs_owner :: session_ptr
  rs_battle_started :: bool
  rs_members :: "game_member list"

datatype create_room_result = CreateOk | CreateSessionNotFound | CreateInvalidRoomId | CreateRoomAlreadyExists
datatype join_room_result = JoinOk | JoinSessionNotFound | JoinInvalidRoomId | JoinRoomNotFound | JoinRoomInBattle
datatype leave_room_result = LeaveOk | LeaveSessionNotFound | LeaveNotInRoom
datatype ready_result = ReadyOk | ReadySessionNotFound | ReadyNotInRoom | ReadyRoomInBattle

text \<open>An outcome is the room and its number of members.\<close>

type_synonym room_outcome = "string \<times> nat"

definition fresh_member :: "session_ptr \<Rightarrow> game_member" where
  "fresh_member session = \<lparr>gm_session = session, gm_user_id = [], gm_ready = False\<rparr>"

definition remove_from_room :: "(member_table \<Rightarrow> member_table) \<Rightarrow> session_ptr \<Rightarrow> room_manager \<Rightarrow> room_manager" where
  "remove_from_room ord key s =
     (case rm_session_rooms s key of
        None \<Rightarrow> s
      | Some room_id \<Rightarrow>
         (let rooms = (case rm_rooms s room_id of
                None \<Rightarrow> rm_rooms s
              | Some room \<Rightarrow>
                 (let members = AList.delete key (gr_members room);
                      owner = (if gr_owner room \<noteq> None \<and> gr_owner room = key
                               then (if members = [] then None else gm_session (snd (hd (ord members))))
                               else gr_owner room)
                  in if members = [] then (rm_rooms s)(room_id := None)
                     else (rm_rooms s)(room_id \<mapsto> \<lparr>gr_owner = owner, gr_members = members\<rparr>)))
          in \<lparr>rm_rooms = rooms, rm_session_rooms = (rm_session_rooms s)(key := None)\<rparr>))"

definition create_room ::
  "(member_table \<Rightarrow> member_table) \<Rightarrow> session_ptr \<Rightarrow> string \<Rightarrow> room_manager \<Rightarrow> (create_room_result \<times> room_outcome) \<times> room_manager" where
  "create_room ord session room_id s =
     (if session = None then ((CreateSessionNotFound, [], 0), s)
      else if room_id = [] then ((CreateInvalidRoomId, [], 0), s)
      else if rm_rooms s room_id \<noteq> None then ((CreateRoomAlreadyExists, [], 0), s)
      else
       (let s1 = remove_from_room ord session s
        in ((CreateOk, room_id, 1),
            \<lparr>rm_rooms = (rm_rooms s1)(room_id \<mapsto> \<lparr>gr_owner = session, gr_members = [(session, fresh_member session)]\<rparr>),
             rm_session_rooms = (rm_session_rooms s1)(session \<mapsto> room_id)\<rparr>)))"

definition join_room ::
  "(member_table \<Rightarrow> member_table) \<Rightarrow> (string \<Rightarrow> bool) \<Rightarrow> session_ptr \<Rightarrow> string \<Rightarrow> room_manager \<Rightarrow> (join_room_result \<times> room_outcome) \<times> room_manager" where
  "join_room ord in_battle session room_id s =
     (if session = None then ((JoinSessionNotFound, [], 0), s)
      else if room_id = [] then ((JoinInvalidRoomId, [], 0), s)
      else case rm_rooms s room_id of
        None \<Rightarrow> ((JoinRoomNotFound, [], 0), s)
      | Some old \<Rightarrow>
          if in_battle room_id then ((JoinRoomInBattle, room_id, length (gr_members old)), s)
          else
           (let s1 = remove_from_room ord session s;
                room = (case rm_rooms s1 room_id of None \<Rightarrow> \<lparr>gr_owner = None, gr_members = []\<rparr> | Some r \<Rightarrow> r);
                room' = room\<lparr>gr_members := AList.update session (fresh_member session) (gr_members room)\<rparr>
            in ((JoinOk, room_id, length (gr_members room')),
                \<lparr>rm_rooms = (rm_rooms s1)(room_id \<mapsto> room'), rm_session_rooms = (rm_session_rooms s1)(session \<mapsto> room_id)\<rparr>)))"

definition member_count :: "string \<Rightarrow> room_manager \<Rightarrow> nat" where
  "member_count room_id s = (case rm_rooms s room_id of None \<Rightarrow> 0 | Some room \<Rightarrow> length (gr_members room))"

definition leave_room ::
  "(member_table \<Rightarrow> member_table) \<Rightarrow> session_ptr \<Rightarrow> room_manager \<Rightarrow> (leave_room_result \<times> room_outcome) \<times> room_manager" where
  "leave_room ord session s =
     (if session = None then ((LeaveSessionNotFound, [], 0), s)
      else case rm_session_rooms s session of
        None \<Rightarrow> ((LeaveNotInRoom, [], 0), s)
      | Some room_id \<Rightarrow> (let s1 = remove_from_room ord session s in ((LeaveOk, room_id, member_count room_id s1), s1)))"

definition set_ready ::
  "(string \<Rightarrow> bool) \<Rightarrow> session_ptr \<Rightarrow> bool \<Rightarrow> room_manager \<Rightarrow> (ready_result \<times> room_outcome) \<times> room_manager" where
  "set_ready in_battle session ready s =
     (if session = None then ((ReadySessionNotFound, [], 0), s)
      else case rm_session_rooms s session of
        None \<Rightarrow> ((ReadyNotInRoom, [], 0), s)
      | Some room_id \<Rightarrow>
         (case rm_rooms s room_id of
            None \<Rightarrow> ((ReadyNotInRoom, [], 0), s)
          | Some room \<Rightarrow>
              if in_battle room_id then ((ReadyRoomInBattle, room_id, length (gr_members room)), s)
              else
               (let m = (case map_of (gr_members room) session of None \<Rightarrow> fresh_member None | Some m \<Rightarrow> m);
                    members = AList.update session (m\<lparr>gm_ready := ready\<rparr>) (gr_members room)
                in ((ReadyOk, room_id, length members),
                    s\<lparr>rm_rooms := (rm_rooms s)(room_id \<mapsto> room\<lparr>gr_members := members\<rparr>)\<rparr>))))"

definition transfer_session :: "session_ptr \<Rightarrow> session_ptr \<Rightarrow> room_manager \<Rightarrow> bool \<times> room_manager" where
  "transfer_session from_session to_session s =
     (case rm_session_rooms s from_session of
        None \<Rightarrow> (False, s)
      | Some room_id \<Rightarrow>
         (case rm_rooms s room_id of
            None \<Rightarrow> (False, s)
          | Some room \<Rightarrow>
             (case map_of (gr_members room) from_session of
                None \<Rightarrow> (False, s)
              | Some m \<Rightarrow>
                 (let members = AList.update to_session (m\<lparr>gm_session := to_session\<rparr>) (AList.delete from_session (gr_members room));
                      owner = (if gr_owner room \<noteq> None \<and> gr_owner room = from_session then to_session else gr_owner room)
                  in (True, \<lparr>rm_rooms = (rm_rooms s)(room_id \<mapsto> \<lparr>gr_owner = owner, gr_members = members\<rparr>),
                             rm_session_rooms = (rm_session_rooms s)(from_session := None, to_session \<mapsto> room_id)\<rparr>)))))"

definition room_remove_session :: "(member_table \<Rightarrow> member_table) \<Rightarrow> session_ptr \<Rightarrow> room_manager \<Rightarrow> room_manager" where
  "room_remove_session ord session s = remove_from_room ord session s"

definition room_id_of :: "session_ptr \<Rightarrow> room_manager \<Rightarrow> string option" where
  "room_id_of session s = rm_session_rooms s session"

definition snapshot_of_room :: "(member_table \<Rightarrow> member_table) \<Rightarrow> (string \<Rightarrow> bool) \<Rightarrow> string \<Rightarrow> room_manager \<Rightarrow> room_snapshot option" where
  "snapshot_of_room ord in_battle room_id s =
     map_option (\<lambda>room. \<lparr>rs_room_id = room_id, rs_owner = gr_owner room, rs_battle_started = in_battle room_id,
       rs_members = map snd (ord (gr_members room))\<rparr>) (rm_rooms s room_id)"

definition room_snapshot_of :: "(member_table \<Rightarrow> member_table) \<Rightarrow> (string \<Rightarrow> bool) \<Rightarrow> session_ptr \<Rightarrow> room_manager \<Rightarrow> room_snapshot option" where
  "room_snapshot_of ord in_battle session s =
     (case rm_session_rooms s session of None \<Rightarrow> None | Some room_id \<Rightarrow> snapshot_of_room ord in_battle room_id s)"

definition room_members :: "(member_table \<Rightarrow> member_table) \<Rightarrow> string \<Rightarrow> room_manager \<Rightarrow> session_ptr list" where
  "room_members ord room_id s =
     (case rm_rooms s room_id of None \<Rightarrow> [] | Some room \<Rightarrow> map (gm_session \<circ> snd) (ord (gr_members room)))"

definition set_member_user_id :: "session_ptr \<Rightarrow> string \<Rightarrow> room_manager \<Rightarrow> room_manager" where
  "set_member_user_id session user_id s =
     (if session = None then s
      else case rm_session_rooms s session of
        None \<Rightarrow> s
      | Some room_id \<Rightarrow>
         (case rm_rooms s room_id of
            None \<Rightarrow> s
          | Some room \<Rightarrow>
             (case map_of (gr_members room) session of
                None \<Rightarrow> s
              | Some m \<Rightarrow> s\<lparr>rm_rooms := (rm_rooms s)(room_id \<mapsto>
                  room\<lparr>gr_members := AList.update session (m\<lparr>gm_user_id := user_id\<rparr>) (gr_members room)\<rparr>)\<rparr>)))"

subsection \<open>Seats\<close>

locale member_walk =
  fixes ord :: "member_table \<Rightarrow> member_table"
  assumes mset_ord: "mset (ord ms) = mset ms"
begin

lemma set_ord [simp]: "set (ord ms) = set ms"
  using mset_ord[of ms] by (metis set_mset_mset)

lemma ord_Nil [simp]: "ord ms = [] \<longleftrightarrow> ms = []"
  using mset_ord[of ms] by (metis mset_zero_iff)

lemma hd_ord: "ms \<noteq> [] \<Longrightarrow> hd (ord ms) \<in> set ms"
  by (metis hd_in_set ord_Nil set_ord)

end

interpretation in_order: member_walk id
  by unfold_locales simp

interpretation reversed: member_walk rev
  by unfold_locales simp

definition seats :: "room_manager \<Rightarrow> string \<Rightarrow> session_ptr set" where
  "seats s room_id = (case rm_rooms s room_id of None \<Rightarrow> {} | Some room \<Rightarrow> fst ` set (gr_members room))"

definition room_ok :: "game_room \<Rightarrow> bool" where
  "room_ok room \<longleftrightarrow> distinct (map fst (gr_members room)) \<and>
     list_all (\<lambda>(k, m). k \<noteq> None \<and> gm_session m = k) (gr_members room) \<and> gr_owner room \<in> fst ` set (gr_members room)"

text \<open>Every room has members and an owner among them, and a session sits in the room the session
  table names and in no other.\<close>

definition rooms_ok :: "room_manager \<Rightarrow> bool" where
  "rooms_ok s \<longleftrightarrow> (\<forall>r room. rm_rooms s r = Some room \<longrightarrow> room_ok room) \<and>
     (\<forall>k r. rm_session_rooms s k = Some r \<longleftrightarrow> k \<in> seats s r)"

lemma rooms_ok_new: "rooms_ok new_room_manager"
  by (simp add: rooms_ok_def new_room_manager_def seats_def)

lemma rooms_okD:
  "rooms_ok s \<Longrightarrow> rm_rooms s r = Some room \<Longrightarrow> room_ok room"
  "rooms_ok s \<Longrightarrow> rm_session_rooms s k = Some r \<longleftrightarrow> k \<in> seats s r"
  by (auto simp: rooms_ok_def)

lemma seated_room: "rooms_ok s \<Longrightarrow> rm_session_rooms s k = Some r \<Longrightarrow> \<exists>room m. rm_rooms s r = Some room \<and> map_of (gr_members room) k = Some m"
  by (drule (1) rooms_okD(2)[THEN iffD1]) (cases "rm_rooms s r", simp_all add: seats_def,
      meson map_of_eq_None_iff not_None_eq)

lemma seat_not_None: "rooms_ok s \<Longrightarrow> k \<in> seats s r \<Longrightarrow> k \<noteq> None"
  using rooms_okD(1)[of s r] by (cases "rm_rooms s r") (auto simp: seats_def room_ok_def list_all_iff)

text \<open>A room whose members change keeps the invariant when its seats do.\<close>

lemma rooms_ok_update:
  assumes ok: "rooms_ok s" and room: "room_ok room" and seats: "\<And>k. index k = Some r \<longleftrightarrow> k \<in> fst ` set (gr_members room)"
    and others: "\<And>k r'. r' \<noteq> r \<Longrightarrow> index k = Some r' \<longleftrightarrow> k \<in> seats s r'"
  shows "rooms_ok \<lparr>rm_rooms = (rm_rooms s)(r \<mapsto> room), rm_session_rooms = index\<rparr>"
proof -
  have "seats \<lparr>rm_rooms = (rm_rooms s)(r \<mapsto> room), rm_session_rooms = index\<rparr> r' = (if r' = r then fst ` set (gr_members room) else seats s r')" for r'
    by (simp add: seats_def)
  then show ?thesis using rooms_okD(1)[OF ok] room seats others unfolding rooms_ok_def by simp
qed

context member_walk
begin

lemma room_ok_remove:
  assumes ok: "room_ok room" and left: "AList.delete key (gr_members room) \<noteq> []" and key: "key \<noteq> None"
  shows "room_ok \<lparr>gr_owner = if gr_owner room \<noteq> None \<and> gr_owner room = key
      then gm_session (snd (hd (ord (AList.delete key (gr_members room))))) else gr_owner room,
    gr_members = AList.delete key (gr_members room)\<rparr>"
proof -
  let ?ms = "AList.delete key (gr_members room)"
  have all: "list_all (\<lambda>(k, m). k \<noteq> None \<and> gm_session m = k) ?ms" using ok by (simp add: room_ok_def list_all_delete)
  have "hd (ord ?ms) \<in> set ?ms" using left by (rule hd_ord)
  then have "gm_session (snd (hd (ord ?ms))) \<in> fst ` set ?ms" using all by (force simp: list_all_iff)
  moreover have "gr_owner room \<noteq> key \<Longrightarrow> gr_owner room \<in> fst ` set ?ms" using ok by (auto simp: room_ok_def AList.delete_eq image_iff)
  ultimately show ?thesis using ok all key by (auto simp: room_ok_def distinct_delete)
qed

lemma remove_seats:
  assumes ok: "rooms_ok s"
  shows "seats (remove_from_room ord key s) r = seats s r - {key}"
proof (cases "rm_session_rooms s key")
  case None
  then have "key \<notin> seats s r" using rooms_okD(2)[OF ok, of key r] by simp
  then show ?thesis using None by (simp add: remove_from_room_def)
next
  case (Some r0)
  then obtain room where "rm_rooms s r0 = Some room" using seated_room[OF ok] by blast
  moreover have "r \<noteq> r0 \<Longrightarrow> key \<notin> seats s r" using Some rooms_okD(2)[OF ok, of key r] by simp
  moreover have "fst ` set (AList.delete key xs) = fst ` set xs - {key}" for xs :: member_table by (auto simp: AList.delete_eq)
  moreover have "AList.delete key xs = [] \<longleftrightarrow> fst ` set xs - {key} = {}" for xs :: member_table by (auto simp: AList.delete_eq filter_empty_conv)
  ultimately show ?thesis using Some
    by (auto simp: remove_from_room_def seats_def Let_def)
qed

lemma remove_ok:
  assumes ok: "rooms_ok s"
  shows "rooms_ok (remove_from_room ord key s)"
proof (cases "rm_session_rooms s key")
  case (Some r0)
  then obtain room m where room: "rm_rooms s r0 = Some room" "map_of (gr_members room) key = Some m" using seated_room[OF ok] by blast
  have "key \<noteq> None" using seat_not_None[OF ok] Some rooms_okD(2)[OF ok] by blast
  then have "room_ok room'" if "rm_rooms (remove_from_room ord key s) r = Some room'" for r room'
    using that Some room rooms_okD(1)[OF ok] room_ok_remove[OF rooms_okD(1)[OF ok room(1)], of key]
    by (auto simp: remove_from_room_def Let_def split: if_splits)
  moreover have "rm_session_rooms (remove_from_room ord key s) k = Some r \<longleftrightarrow> k \<in> seats (remove_from_room ord key s) r" for k r
    unfolding remove_seats[OF ok] using Some rooms_okD(2)[OF ok, of k r] by (auto simp: remove_from_room_def)
  ultimately show ?thesis by (simp add: rooms_ok_def)
qed (use ok in \<open>simp add: remove_from_room_def\<close>)

end

context member_walk
begin

lemma create_ok: "rooms_ok s \<Longrightarrow> rooms_ok (snd (create_room ord k r s))"
proof -
  assume ok: "rooms_ok s"
  let ?s1 = "remove_from_room ord k s"
  have "rooms_ok \<lparr>rm_rooms = (rm_rooms ?s1)(r \<mapsto> \<lparr>gr_owner = k, gr_members = [(k, fresh_member k)]\<rparr>),
      rm_session_rooms = (rm_session_rooms ?s1)(k \<mapsto> r)\<rparr>" if "k \<noteq> None" and none: "rm_rooms s r = None"
  proof (rule rooms_ok_update[OF remove_ok[OF ok]])
    have r: "seats ?s1 r = {}" unfolding remove_seats[OF ok] using none by (simp add: seats_def)
    show "((rm_session_rooms ?s1)(k \<mapsto> r)) k' = Some r \<longleftrightarrow> k' \<in> fst ` set (gr_members \<lparr>gr_owner = k, gr_members = [(k, fresh_member k)]\<rparr>)" for k'
      using rooms_okD(2)[OF remove_ok[OF ok], of k k' r] r by simp
    show "((rm_session_rooms ?s1)(k \<mapsto> r)) k' = Some r' \<longleftrightarrow> k' \<in> seats ?s1 r'" if "r' \<noteq> r" for k' r'
      using rooms_okD(2)[OF remove_ok[OF ok], of k k' r'] that by (simp add: remove_seats[OF ok])
  qed (use that in \<open>simp add: room_ok_def fresh_member_def\<close>)
  then show ?thesis using ok by (simp add: create_room_def Let_def)
qed

text \<open>Joining keeps the invariant unless the session is alone in the very room it joins.\<close>

lemma join_ok:
  assumes ok: "rooms_ok s" and other: "seats s r \<noteq> {k}"
  shows "rooms_ok (snd (join_room ord in_battle k r s))"
proof -
  let ?s1 = "remove_from_room ord k s"
  have ok1: "rooms_ok ?s1" by (rule remove_ok[OF ok])
  have "rooms_ok (snd (join_room ord in_battle k r s))" if k: "k \<noteq> None" "r \<noteq> []" and some: "rm_rooms s r = Some old" and b: "\<not> in_battle r" for old
  proof -
    have "gr_members old \<noteq> []" using rooms_okD(1)[OF ok some] by (auto simp: room_ok_def)
    then have "seats s r \<noteq> {}" using some by (simp add: seats_def)
    then have "seats ?s1 r \<noteq> {}" unfolding remove_seats[OF ok] using other by blast
    then obtain room where room: "rm_rooms ?s1 r = Some room" by (cases "rm_rooms ?s1 r") (auto simp: seats_def)
    let ?room = "room\<lparr>gr_members := AList.update k (fresh_member k) (gr_members room)\<rparr>"
    have "room_ok ?room" using rooms_okD(1)[OF ok1 room] k
      by (auto simp: room_ok_def distinct_update dom_update fresh_member_def intro!: list_all_update)
    then have "rooms_ok \<lparr>rm_rooms = (rm_rooms ?s1)(r \<mapsto> ?room), rm_session_rooms = (rm_session_rooms ?s1)(k \<mapsto> r)\<rparr>"
    proof (rule rooms_ok_update[OF ok1])
      show "((rm_session_rooms ?s1)(k \<mapsto> r)) k' = Some r \<longleftrightarrow> k' \<in> fst ` set (gr_members ?room)" for k'
        using rooms_okD(2)[OF ok1, of k' r] room by (simp add: seats_def dom_update)
      show "((rm_session_rooms ?s1)(k \<mapsto> r)) k' = Some r' \<longleftrightarrow> k' \<in> seats ?s1 r'" if "r' \<noteq> r" for k' r'
        using rooms_okD(2)[OF ok1, of k' r'] that by (simp add: remove_seats[OF ok])
    qed
    then show ?thesis using k some b room by (auto simp: join_room_def Let_def)
  qed
  then show ?thesis using ok by (auto simp: join_room_def split: option.split)
qed

lemma leave_ok: "rooms_ok s \<Longrightarrow> rooms_ok (snd (leave_room ord k s))"
  by (simp add: leave_room_def Let_def remove_ok split: option.split)

end

text \<open>A change of one member's fields.\<close>

lemma member_update_ok:
  assumes ok: "rooms_ok s" and room: "rm_rooms s r = Some room" and m: "map_of (gr_members room) k = Some m"
    and m': "gm_session m' = gm_session m"
  shows "rooms_ok (s\<lparr>rm_rooms := (rm_rooms s)(r \<mapsto> room\<lparr>gr_members := AList.update k m' (gr_members room)\<rparr>)\<rparr>)"
proof -
  let ?room = "room\<lparr>gr_members := AList.update k m' (gr_members room)\<rparr>"
  have k: "k \<in> fst ` set (gr_members room)" using m by (metis domI dom_map_of_conv_image_fst)
  have rok: "room_ok room" by (rule rooms_okD(1)[OF ok room])
  have "k \<noteq> None \<and> gm_session m = k" using rok map_of_SomeD[OF m] by (auto simp: room_ok_def list_all_iff)
  then have "list_all (\<lambda>(k, m). k \<noteq> None \<and> gm_session m = k) (AList.update k m' (gr_members room))"
    using rok m' by (intro list_all_update) (simp_all add: room_ok_def)
  then have "room_ok ?room" using rok k by (simp add: room_ok_def distinct_update dom_update)
  then have "rooms_ok \<lparr>rm_rooms = (rm_rooms s)(r \<mapsto> ?room), rm_session_rooms = rm_session_rooms s\<rparr>"
  proof (rule rooms_ok_update[OF ok])
    show "rm_session_rooms s k' = Some r \<longleftrightarrow> k' \<in> fst ` set (gr_members ?room)" for k'
      using rooms_okD(2)[OF ok, of k' r] room k by (auto simp: seats_def dom_update)
    show "rm_session_rooms s k' = Some r' \<longleftrightarrow> k' \<in> seats s r'" for k' r' by (rule rooms_okD(2)[OF ok])
  qed
  then show ?thesis by (cases s) simp
qed

lemma set_ready_ok: "rooms_ok s \<Longrightarrow> rooms_ok (snd (set_ready in_battle k b s))"
proof -
  assume ok: "rooms_ok s"
  show ?thesis
  proof (cases "rm_session_rooms s k")
    case (Some r)
    with seated_room[OF ok] obtain room m where rm: "rm_rooms s r = Some room" "map_of (gr_members room) k = Some m" by blast
    show ?thesis using Some rm ok member_update_ok[OF ok rm, of "m\<lparr>gm_ready := b\<rparr>"] by (simp add: set_ready_def Let_def)
  qed (use ok in \<open>simp add: set_ready_def\<close>)
qed

lemma set_member_user_id_ok: "rooms_ok s \<Longrightarrow> rooms_ok (set_member_user_id k u s)"
proof -
  assume ok: "rooms_ok s"
  show ?thesis
  proof (cases "rm_session_rooms s k")
    case (Some r)
    with seated_room[OF ok] obtain room m where rm: "rm_rooms s r = Some room" "map_of (gr_members room) k = Some m" by blast
    show ?thesis using Some rm ok member_update_ok[OF ok rm, of "m\<lparr>gm_user_id := u\<rparr>"] by (simp add: set_member_user_id_def)
  qed (use ok in \<open>simp add: set_member_user_id_def\<close>)
qed

text \<open>A seat may be handed to a session that has none.\<close>

lemma transfer_ok:
  assumes ok: "rooms_ok s" and free: "rm_session_rooms s b = None" and b: "b \<noteq> None"
  shows "rooms_ok (snd (transfer_session a b s))"
proof (cases "rm_session_rooms s a")
  case (Some r)
  with seated_room[OF ok] obtain room m where rm: "rm_rooms s r = Some room" "map_of (gr_members room) a = Some m" by blast
  let ?ms = "AList.update b (m\<lparr>gm_session := b\<rparr>) (AList.delete a (gr_members room))"
  let ?room = "\<lparr>gr_owner = if gr_owner room \<noteq> None \<and> gr_owner room = a then b else gr_owner room, gr_members = ?ms\<rparr>"
  have ab: "a \<noteq> b" using Some free by auto
  have keys: "fst ` set ?ms = insert b (fst ` set (gr_members room) - {a})" by (simp add: dom_update) (auto simp: AList.delete_eq)
  have a: "a \<noteq> None" using seat_not_None[OF ok] Some rooms_okD(2)[OF ok] by blast
  have "room_ok ?room" using rooms_okD(1)[OF ok rm(1)] b a ab
    by (auto simp: room_ok_def distinct_update distinct_delete keys intro!: list_all_update list_all_delete)
  then have "rooms_ok \<lparr>rm_rooms = (rm_rooms s)(r \<mapsto> ?room), rm_session_rooms = (rm_session_rooms s)(a := None, b \<mapsto> r)\<rparr>"
  proof (rule rooms_ok_update[OF ok])
    show "((rm_session_rooms s)(a := None, b \<mapsto> r)) k = Some r \<longleftrightarrow> k \<in> fst ` set (gr_members ?room)" for k
      using rooms_okD(2)[OF ok, of k r] rm(1) by (simp add: keys del: AList.update.simps) (simp add: seats_def)
    show "((rm_session_rooms s)(a := None, b \<mapsto> r)) k = Some r' \<longleftrightarrow> k \<in> seats s r'" if "r' \<noteq> r" for k r'
      using rooms_okD(2)[OF ok, of k r'] rooms_okD(2)[OF ok, of b r'] rooms_okD(2)[OF ok, of a r'] that Some free by auto
  qed
  then show ?thesis using Some rm by (simp add: transfer_session_def Let_def)
qed (use ok in \<open>simp add: transfer_session_def\<close>)

subsection \<open>Two ways to lose a seat\<close>

lemma sole_member_removed:
  assumes ok: "rooms_ok s" and sole: "seats s r = {k}"
  shows "rm_rooms (remove_from_room ord k s) r = None"
proof -
  have k: "rm_session_rooms s k = Some r" using rooms_okD(2)[OF ok] sole by blast
  obtain room where room: "rm_rooms s r = Some room" using seated_room[OF ok k] by blast
  then have "fst ` set (gr_members room) = {k}" using sole by (simp add: seats_def)
  then have "AList.delete k (gr_members room) = []" by (force simp: AList.delete_eq filter_empty_conv)
  then show ?thesis using k room by (simp add: remove_from_room_def Let_def)
qed

text \<open>A defect.  A session that joins the room it is alone in is accepted, but the room is deleted and
  created again on the way and has no owner afterwards.\<close>

theorem rejoin_loses_owner:
  assumes "rooms_ok s" and "seats s r = {k}" and "k \<noteq> None" and "r \<noteq> []" and "\<not> in_battle r"
  shows "\<exists>s' room. join_room ord in_battle k r s = ((JoinOk, r, 1), s') \<and> rm_rooms s' r = Some room \<and>
    gr_owner room = None \<and> fst ` set (gr_members room) = {k}"
proof -
  obtain old where "rm_rooms s r = Some old" using assms(2) by (cases "rm_rooms s r") (auto simp: seats_def)
  then show ?thesis using assms sole_member_removed[OF assms(1,2), of ord]
    by (auto simp: join_room_def Let_def)
qed

definition example_rooms :: room_manager where
  "example_rooms = snd (create_room id (Some 1) ''r'' new_room_manager)"

lemma example_rooms_ok: "rooms_ok example_rooms" "seats example_rooms ''r'' = {Some 1}"
  unfolding example_rooms_def by (rule in_order.create_ok[OF rooms_ok_new])
    (simp add: create_room_def seats_def new_room_manager_def Let_def)

theorem rejoin_loses_owner_witness:
  "\<exists>s' room. join_room id (\<lambda>_. False) (Some 1) ''r'' example_rooms = ((JoinOk, ''r'', 1), s') \<and> rm_rooms s' ''r'' = Some room \<and>
    gr_owner room = None \<and> fst ` set (gr_members room) = {Some 1}"
  by (rule rejoin_loses_owner[OF example_rooms_ok]) simp_all

text \<open>A defect.  When a seat is handed over to a session that already has one elsewhere, that session sits in
  both rooms, and stays in the old room after it has been removed.\<close>

theorem transfer_leaves_ghost:
  assumes "rooms_ok s" and "rm_session_rooms s a = Some r1" and "rm_session_rooms s b = Some r2" and "r1 \<noteq> r2"
    and "transfer_session a b s = (moved, s')"
  shows "moved \<and> b \<in> seats s' r1 \<and> b \<in> seats s' r2 \<and> b \<in> seats (room_remove_session ord b s') r2"
proof -
  obtain room m where rm: "rm_rooms s r1 = Some room" "map_of (gr_members room) a = Some m" using seated_room[OF assms(1,2)] by blast
  have b: "b \<in> seats s r2" using rooms_okD(2)[OF assms(1)] assms(3) by blast
  then show ?thesis using assms(2-5) rm
    by (auto simp: transfer_session_def Let_def seats_def dom_update room_remove_session_def remove_from_room_def split: option.splits)
qed

definition example_two_rooms :: room_manager where
  "example_two_rooms = snd (create_room id (Some 2) ''q'' example_rooms)"

theorem transfer_leaves_ghost_witness:
  "case transfer_session (Some 1) (Some 2) example_two_rooms of (moved, s') \<Rightarrow>
     moved \<and> Some 2 \<in> seats s' ''r'' \<and> Some 2 \<in> seats s' ''q'' \<and> Some 2 \<in> seats (room_remove_session id (Some 2) s') ''q''"
proof -
  obtain moved s' where t: "transfer_session (Some 1) (Some 2) example_two_rooms = (moved, s')" by fastforce
  have ok: "rooms_ok example_two_rooms" unfolding example_two_rooms_def by (rule in_order.create_ok[OF example_rooms_ok(1)])
  have "rm_session_rooms example_two_rooms (Some 1) = Some ''r''" "rm_session_rooms example_two_rooms (Some 2) = Some ''q''"
    by (simp_all add: example_two_rooms_def example_rooms_def create_room_def new_room_manager_def remove_from_room_def Let_def)
  from transfer_leaves_ghost[OF ok this _ t, of id] t show ?thesis by simp
qed

end
