(* ===== verification/Game_Battles.thy ===== *)
theory Game_Battles
  imports Prelude
begin

text \<open>
  The battles of the version 1 gateway (\<^verbatim>\<open>src/game/battle/battle_manager.cpp\<close>): a battle collects the
  inputs of its players frame by frame and is won by the player with the most inputs.
\<close>

record input_event =
  ev_sequence :: nat
  ev_frame_number :: nat
  ev_user_id :: string
  ev_payload :: string

record frame_snapshot =
  fs_frame_number :: nat
  fs_room_id :: string
  fs_inputs :: "input_event list"

record battle_result =
  br_room_id :: string
  br_winner_id :: string
  br_total_frames :: nat
  br_total_inputs :: nat
  br_player_scores :: "(string \<times> nat) list"

record battle_context =
  bx_player_ids :: "string list"
  bx_next_sequence :: nat
  bx_current_frame :: nat
  bx_inputs :: "input_event list"
  bx_spectators :: "string list"

type_synonym battle_manager = "string \<rightharpoonup> battle_context"

datatype start_battle_result = StartOk | StartNotInRoom | StartAlreadyStarted | StartNotEnoughPlayers
datatype submit_input_result = SubmitOk input_event | SubmitBattleNotStarted | SubmitPlayerNotInBattle
datatype spectator_result = SpectatorOk | SpectatorBattleNotFound | SpectatorMaxSpectators

definition kMaxSpectatorsPerBattle :: nat where
  "kMaxSpectatorsPerBattle = 100"

definition new_battle_context :: "string list \<Rightarrow> battle_context" where
  "new_battle_context player_ids = \<lparr>bx_player_ids = player_ids, bx_next_sequence = 1, bx_current_frame = 0,
     bx_inputs = [], bx_spectators = []\<rparr>"

definition start_battle :: "string \<Rightarrow> string list \<Rightarrow> battle_manager \<Rightarrow> (start_battle_result \<times> string \<times> nat) \<times> battle_manager" where
  "start_battle room_id player_ids s =
     (if room_id = [] then ((StartNotInRoom, [], 0), s)
      else if length player_ids < 2 then ((StartNotEnoughPlayers, room_id, length player_ids), s)
      else if s room_id \<noteq> None then ((StartAlreadyStarted, room_id, length player_ids), s)
      else ((StartOk, room_id, length player_ids), s(room_id \<mapsto> new_battle_context player_ids)))"

definition battle_submit_input :: "string \<Rightarrow> string \<Rightarrow> string \<Rightarrow> battle_manager \<Rightarrow> submit_input_result \<times> battle_manager" where
  "battle_submit_input room_id user_id payload s =
     (case s room_id of
        None \<Rightarrow> (SubmitBattleNotStarted, s)
      | Some ctx \<Rightarrow>
          if user_id \<notin> set (bx_player_ids ctx) then (SubmitPlayerNotInBattle, s)
          else
           (let event = \<lparr>ev_sequence = bx_next_sequence ctx, ev_frame_number = bx_current_frame ctx,
                         ev_user_id = user_id, ev_payload = payload\<rparr>
            in (SubmitOk event, s(room_id \<mapsto> ctx\<lparr>bx_next_sequence := u64_add (bx_next_sequence ctx) 1,
                  bx_inputs := bx_inputs ctx @ [event]\<rparr>))))"

definition advance_frame :: "string \<Rightarrow> battle_manager \<Rightarrow> frame_snapshot option \<times> battle_manager" where
  "advance_frame room_id s =
     (case s room_id of
        None \<Rightarrow> (None, s)
      | Some ctx \<Rightarrow>
         (let frame = bx_current_frame ctx
          in (Some \<lparr>fs_frame_number = frame, fs_room_id = room_id,
                    fs_inputs = filter (\<lambda>i. ev_frame_number i = frame) (bx_inputs ctx)\<rparr>,
              s(room_id \<mapsto> ctx\<lparr>bx_current_frame := u32_add frame 1\<rparr>))))"

definition score_of :: "battle_context \<Rightarrow> string \<Rightarrow> nat" where
  "score_of ctx pid = length (filter (\<lambda>i. ev_user_id i = pid) (bx_inputs ctx))"

text \<open>The loop over the players: the first one with the largest positive score wins.\<close>

fun winner_loop :: "(string \<Rightarrow> nat) \<Rightarrow> string \<Rightarrow> nat \<Rightarrow> string list \<Rightarrow> string" where
  "winner_loop score winner_id max_score [] = winner_id"
| "winner_loop score winner_id max_score (pid # pids) =
     (if score pid > max_score then winner_loop score pid (score pid) pids else winner_loop score winner_id max_score pids)"

definition end_battle :: "string \<Rightarrow> battle_manager \<Rightarrow> battle_result option \<times> battle_manager" where
  "end_battle room_id s =
     (case s room_id of
        None \<Rightarrow> (None, s)
      | Some ctx \<Rightarrow>
          (Some \<lparr>br_room_id = room_id, br_winner_id = winner_loop (score_of ctx) [] 0 (bx_player_ids ctx),
                 br_total_frames = bx_current_frame ctx, br_total_inputs = length (bx_inputs ctx),
                 br_player_scores = map (\<lambda>pid. (pid, score_of ctx pid)) (bx_player_ids ctx)\<rparr>,
           s(room_id := None)))"

definition battle_remove_room :: "string \<Rightarrow> battle_manager \<Rightarrow> battle_manager" where
  "battle_remove_room room_id s = s(room_id := None)"

definition battle_started :: "string \<Rightarrow> battle_manager \<Rightarrow> bool" where
  "battle_started room_id s = (s room_id \<noteq> None)"

definition add_spectator :: "string \<Rightarrow> string \<Rightarrow> battle_manager \<Rightarrow> spectator_result \<times> battle_manager" where
  "add_spectator room_id user_id s =
     (case s room_id of
        None \<Rightarrow> (SpectatorBattleNotFound, s)
      | Some ctx \<Rightarrow>
          if length (bx_spectators ctx) \<ge> kMaxSpectatorsPerBattle then (SpectatorMaxSpectators, s)
          else (SpectatorOk, s(room_id \<mapsto> ctx\<lparr>bx_spectators := bx_spectators ctx @ [user_id]\<rparr>)))"

definition remove_spectator :: "string \<Rightarrow> string \<Rightarrow> battle_manager \<Rightarrow> bool \<times> battle_manager" where
  "remove_spectator room_id user_id s =
     (case s room_id of
        None \<Rightarrow> (False, s)
      | Some ctx \<Rightarrow>
          if user_id \<notin> set (bx_spectators ctx) then (False, s)
          else (True, s(room_id \<mapsto> ctx\<lparr>bx_spectators := remove1 user_id (bx_spectators ctx)\<rparr>)))"

definition spectators :: "string \<Rightarrow> battle_manager \<Rightarrow> string list" where
  "spectators room_id s = (case s room_id of None \<Rightarrow> [] | Some ctx \<Rightarrow> bx_spectators ctx)"

definition spectator_count :: "string \<Rightarrow> battle_manager \<Rightarrow> nat" where
  "spectator_count room_id s = (case s room_id of None \<Rightarrow> 0 | Some ctx \<Rightarrow> length (bx_spectators ctx))"

subsection \<open>Inputs and frames\<close>

datatype battle_call = CallInput string string | CallFrame | CallWatch string | CallUnwatch string

text \<open>A call on the battle of one room, and the frame it hands out.\<close>

definition battle_call_step :: "string \<Rightarrow> battle_call \<Rightarrow> battle_manager \<times> frame_snapshot list \<Rightarrow> battle_manager \<times> frame_snapshot list" where
  "battle_call_step r c st =
     (case c of
        CallInput u p \<Rightarrow> (snd (battle_submit_input r u p (fst st)), snd st)
      | CallFrame \<Rightarrow> (case advance_frame r (fst st) of (f, s) \<Rightarrow> (s, snd st @ (case f of None \<Rightarrow> [] | Some x \<Rightarrow> [x])))
      | CallWatch u \<Rightarrow> (snd (add_spectator r u (fst st)), snd st)
      | CallUnwatch u \<Rightarrow> (snd (remove_spectator r u (fst st)), snd st))"

definition inputs_ok :: "battle_context \<Rightarrow> frame_snapshot list \<Rightarrow> bool" where
  "inputs_ok ctx frames \<longleftrightarrow>
     map ev_sequence (bx_inputs ctx) = [1..<bx_next_sequence ctx] \<and> 1 \<le> bx_next_sequence ctx \<and>
     list_all (\<lambda>i. ev_frame_number i \<le> bx_current_frame ctx \<and> ev_user_id i \<in> set (bx_player_ids ctx)) (bx_inputs ctx) \<and>
     map fs_frame_number frames = [0..<bx_current_frame ctx] \<and>
     bx_inputs ctx = concat (map fs_inputs frames) @ filter (\<lambda>i. ev_frame_number i = bx_current_frame ctx) (bx_inputs ctx) \<and>
     length (bx_spectators ctx) \<le> kMaxSpectatorsPerBattle"


lemma filter_none_above: "list_all (\<lambda>i. ev_frame_number i \<le> f) is \<Longrightarrow> filter (\<lambda>i. ev_frame_number i = Suc f) is = []"
  by (auto simp: list_all_iff filter_empty_conv)

lemma inputs_ok_input:
  assumes ok: "inputs_ok ctx frames" and u: "u \<in> set (bx_player_ids ctx)" and n: "bx_next_sequence ctx < u64_max"
  shows "inputs_ok (ctx\<lparr>bx_next_sequence := u64_add (bx_next_sequence ctx) 1,
    bx_inputs := bx_inputs ctx @ [\<lparr>ev_sequence = bx_next_sequence ctx, ev_frame_number = bx_current_frame ctx,
      ev_user_id = u, ev_payload = p\<rparr>]\<rparr>) frames"
  using assms unfolding inputs_ok_def by (simp add: append_assoc[symmetric] del: append_assoc)

lemma inputs_ok_frame:
  assumes ok: "inputs_ok ctx frames" and f: "bx_current_frame ctx < 2 ^ 32 - 1"
  shows "inputs_ok (ctx\<lparr>bx_current_frame := u32_add (bx_current_frame ctx) 1\<rparr>)
    (frames @ [\<lparr>fs_frame_number = bx_current_frame ctx, fs_room_id = r,
       fs_inputs = filter (\<lambda>i. ev_frame_number i = bx_current_frame ctx) (bx_inputs ctx)\<rparr>])"
proof -
  have u: "u32_add (bx_current_frame ctx) 1 = Suc (bx_current_frame ctx)" using f by simp
  have "list_all (\<lambda>i. ev_frame_number i \<le> bx_current_frame ctx) (bx_inputs ctx)" using ok by (auto simp: inputs_ok_def list_all_iff)
  then have none: "filter (\<lambda>i. ev_frame_number i = Suc (bx_current_frame ctx)) (bx_inputs ctx) = []" by (rule filter_none_above)
  show ?thesis using ok unfolding inputs_ok_def u
    by (auto simp: none list_all_iff)
qed

definition running :: "string \<Rightarrow> nat \<Rightarrow> battle_manager \<times> frame_snapshot list \<Rightarrow> bool" where
  "running r n st \<longleftrightarrow> (\<exists>ctx. fst st r = Some ctx \<and> inputs_ok ctx (snd st) \<and> bx_current_frame ctx \<le> n \<and> bx_next_sequence ctx \<le> n + 1)"

lemma running_step:
  assumes "running r n st" and n: "n < 2 ^ 32 - 1"
  shows "running r (n + 1) (battle_call_step r c st)"
proof -
  obtain ctx where ctx: "fst st r = Some ctx" "inputs_ok ctx (snd st)" "bx_current_frame ctx \<le> n" "bx_next_sequence ctx \<le> n + 1"
    using assms(1) by (auto simp: running_def)
  show ?thesis
  proof (cases c)
    case (CallInput u p)
    have "bx_next_sequence ctx < u64_max" using ctx(4) n by (simp add: u64_max_def)
    then show ?thesis using ctx inputs_ok_input[OF ctx(2), of u p] CallInput
      by (auto simp: running_def battle_call_step_def battle_submit_input_def Let_def)
  next
    case CallFrame
    have "bx_current_frame ctx < 2 ^ 32 - 1" using ctx(3) n by simp
    then show ?thesis using ctx inputs_ok_frame[OF ctx(2), of r] CallFrame n
      by (auto simp: running_def battle_call_step_def advance_frame_def Let_def)
  next
    case (CallWatch u)
    then show ?thesis using ctx by (auto simp: running_def battle_call_step_def add_spectator_def inputs_ok_def)
  next
    case (CallUnwatch u)
    then show ?thesis using ctx by (auto simp: running_def battle_call_step_def remove_spectator_def inputs_ok_def length_remove1)
  qed
qed

lemma running_run: "running r n st \<Longrightarrow> n + length calls < 2 ^ 32 \<Longrightarrow> running r (n + length calls) (fold (battle_call_step r) calls st)"
proof (induction calls arbitrary: n st)
  case (Cons c calls)
  have "running r (n + 1) (battle_call_step r c st)" using Cons.prems by (intro running_step) simp_all
  from Cons.IH[OF this] Cons.prems show ?case by simp
qed simp

text \<open>Every input is delivered exactly once.  However inputs, frames and spectators of a battle
  interleave, the frames handed out are numbered 0, 1, 2 and so on, their inputs together with those of
  the running frame are all accepted inputs in order, these carry the sequence numbers 1, 2, 3 and
  so on, and there are at most 100 spectators; as long as the 32-bit frame counter does not wrap around.\<close>

theorem inputs_delivered_once:
  assumes "start_battle r players s0 = ((StartOk, r, n), s)" and "length calls < 2 ^ 32"
    and "fold (battle_call_step r) calls (s, []) = (s', frames)"
  shows "\<exists>ctx. s' r = Some ctx \<and> map fs_frame_number frames = [0..<bx_current_frame ctx] \<and>
    concat (map fs_inputs frames) @ filter (\<lambda>i. ev_frame_number i = bx_current_frame ctx) (bx_inputs ctx) = bx_inputs ctx \<and>
    map ev_sequence (bx_inputs ctx) = [1..<Suc (length (bx_inputs ctx))] \<and> spectator_count r s' \<le> kMaxSpectatorsPerBattle"
proof -
  have "running r 0 (s, [])"
    using assms(1) by (auto simp: start_battle_def running_def inputs_ok_def new_battle_context_def kMaxSpectatorsPerBattle_def split: if_splits)
  from running_run[OF this, of calls] assms(2,3) obtain ctx where ctx: "s' r = Some ctx" "inputs_ok ctx frames"
    by (auto simp: running_def)
  have seq: "map ev_sequence (bx_inputs ctx) = [1..<bx_next_sequence ctx]" "1 \<le> bx_next_sequence ctx"
    using ctx(2) by (simp_all add: inputs_ok_def)
  have "bx_next_sequence ctx = Suc (length (bx_inputs ctx))" using arg_cong[OF seq(1), of length] seq(2) by simp
  with seq(1) have "map ev_sequence (bx_inputs ctx) = [1..<Suc (length (bx_inputs ctx))]" by (simp only:)
  moreover have "spectator_count r s' \<le> kMaxSpectatorsPerBattle" "map fs_frame_number frames = [0..<bx_current_frame ctx]"
    "concat (map fs_inputs frames) @ filter (\<lambda>i. ev_frame_number i = bx_current_frame ctx) (bx_inputs ctx) = bx_inputs ctx"
    using ctx by (auto simp: spectator_count_def inputs_ok_def)
  ultimately show ?thesis using ctx(1) by blast
qed

theorem inputs_delivered_once_witness:
  "\<exists>s ctx. start_battle ''r'' [''a'', ''b''] Map.empty = ((StartOk, ''r'', 2), s) \<and>
     (case fold (battle_call_step ''r'') [CallInput ''a'' ''x'', CallFrame, CallInput ''b'' ''y''] (s, []) of (s', frames) \<Rightarrow>
       s' ''r'' = Some ctx \<and> map ev_sequence (bx_inputs ctx) = [1..<Suc (length (bx_inputs ctx))])"
proof -
  obtain s where s: "start_battle ''r'' [''a'', ''b''] Map.empty = ((StartOk, ''r'', 2), s)" by (simp add: start_battle_def)
  obtain s' frames where f: "fold (battle_call_step ''r'') [CallInput ''a'' ''x'', CallFrame, CallInput ''b'' ''y''] (s, []) = (s', frames)" by fastforce
  have "length [CallInput ''a'' ''x'', CallFrame, CallInput ''b'' ''y''] < 2 ^ 32" by simp
  from inputs_delivered_once[OF s this f] s f show ?thesis by auto
qed

subsection \<open>The winner\<close>

lemma winner_loop_spec:
  "(winner_loop sc w m pids = w \<and> (\<forall>p\<in>set pids. sc p \<le> m)) \<or>
   (winner_loop sc w m pids \<in> set pids \<and> sc (winner_loop sc w m pids) > m \<and> (\<forall>p\<in>set pids. sc p \<le> sc (winner_loop sc w m pids)))"
proof (induction pids arbitrary: w m)
  case (Cons p pids)
  show ?case using Cons.IH[of p "sc p"] Cons.IH[of w m] by (cases "sc p > m") (auto dest: order_trans)
qed simp

text \<open>The winner of a battle has the most inputs; nobody wins a battle without inputs.\<close>

lemma end_battle_winner:
  assumes "s r = Some ctx" and "end_battle r s = (Some res, s')"
  shows "(br_winner_id res = [] \<and> (\<forall>p\<in>set (bx_player_ids ctx). score_of ctx p = 0) \<or>
      br_winner_id res \<in> set (bx_player_ids ctx) \<and> (\<forall>p\<in>set (bx_player_ids ctx). score_of ctx p \<le> score_of ctx (br_winner_id res))) \<and>
    s' r = None"
  using assms winner_loop_spec[of "score_of ctx" "[]" 0 "bx_player_ids ctx"] by (auto simp: end_battle_def)

end
