(* ===== verification/Game_Gateway.thy ===== *)
theory Game_Gateway
  imports Protocol Game_Rooms Game_Battles
begin

text \<open>
  The version 1 gateway: the session, room and battle tables behind the services that handle client
  packets (\<^verbatim>\<open>src/game/login\<close>, \<^verbatim>\<open>src/game/room\<close>, \<^verbatim>\<open>src/game/battle\<close>, \<^verbatim>\<open>src/game/gateway\<close>).  A packet that is
  written, a session that is stopped and a socket that is closed are appended to \<open>gg_out\<close>.  A
  handler is one step.  The environment gives the walking order of hash tables, the remote
  endpoint of a session and the token validator.
\<close>

subsection \<open>State\<close>

record packet =
  pk_message_id :: nat
  pk_request_id :: nat
  pk_error_code :: int
  pk_body :: string

datatype gateway_output = Sent session_ptr packet | Stopped session_ptr | SocketClosed session_ptr

record rate_limit_entry =
  re_window_started_at :: nat
  re_message_count :: nat

record game_gateway =
  gg_sessions :: session_manager
  gg_rooms :: room_manager
  gg_battles :: battle_manager
  gg_rate_limits :: "session_ptr \<rightharpoonup> rate_limit_entry"
  gg_active_connections :: nat
  gg_ip_counts :: "string \<rightharpoonup> nat"
  gg_max_connections :: nat
  gg_per_ip_limit :: nat
  gg_out :: "gateway_output list"

definition new_game_gateway :: "nat \<Rightarrow> nat \<Rightarrow> game_gateway" where
  "new_game_gateway max_total per_ip = \<lparr>gg_sessions = new_session_manager, gg_rooms = new_room_manager, gg_battles = Map.empty,
     gg_rate_limits = Map.empty, gg_active_connections = 0, gg_ip_counts = Map.empty,
     gg_max_connections = max_total, gg_per_ip_limit = per_ip, gg_out = []\<rparr>"

record token_validation =
  tv_ok :: bool
  tv_expired :: bool
  tv_user_id :: string
  tv_display_name :: string

record game_env =
  ge_walk :: "member_table \<Rightarrow> member_table"
  ge_endpoint :: "session_ptr \<Rightarrow> string"
  ge_validate :: "string \<Rightarrow> string \<Rightarrow> string option \<Rightarrow> token_validation"

text \<open>The rooms ask the battle manager whether a battle runs.\<close>

definition room_in_battle :: "game_gateway \<Rightarrow> string \<Rightarrow> bool" where
  "room_in_battle g room_id = battle_started room_id (gg_battles g)"

subsection \<open>Token validators\<close>

definition no_token :: token_validation where
  "no_token = \<lparr>tv_ok = False, tv_expired = False, tv_user_id = [], tv_display_name = []\<rparr>"

definition dev_validate :: "string \<Rightarrow> string \<Rightarrow> string option \<Rightarrow> token_validation" where
  "dev_validate user_id token display_name =
     (let accepted = \<lparr>tv_ok = True, tv_expired = False, tv_user_id = user_id,
            tv_display_name = (case display_name of None \<Rightarrow> user_id | Some d \<Rightarrow> d)\<rparr>
      in if user_id = [] \<or> token = [] then no_token
         else if token = ''dev'' then accepted
         else if token \<noteq> ''token:'' @ user_id then no_token
         else accepted)"

record user_record =
  ur_token :: string
  ur_display_name :: string

definition json_file_validate :: "(string \<rightharpoonup> user_record) \<Rightarrow> string \<Rightarrow> string \<Rightarrow> string option \<Rightarrow> token_validation" where
  "json_file_validate users user_id token display_name =
     (case users user_id of
        None \<Rightarrow> no_token
      | Some r \<Rightarrow>
          if token = [] \<or> token \<noteq> ur_token r then no_token
          else \<lparr>tv_ok = True, tv_expired = False, tv_user_id = user_id,
                tv_display_name = (case display_name of None \<Rightarrow> ur_display_name r | Some d \<Rightarrow> d)\<rparr>)"

subsection \<open>Sending\<close>

definition dispatch_write :: "session_ptr \<Rightarrow> packet \<Rightarrow> game_gateway \<Rightarrow> game_gateway" where
  "dispatch_write session p g = (if session = None then g else g\<lparr>gg_out := gg_out g @ [Sent session p]\<rparr>)"

definition send_ok :: "session_ptr \<Rightarrow> nat \<Rightarrow> nat \<Rightarrow> string \<Rightarrow> game_gateway \<Rightarrow> game_gateway" where
  "send_ok session message_id request_id body =
     dispatch_write session \<lparr>pk_message_id = message_id, pk_request_id = request_id, pk_error_code = error_value KOk, pk_body = body\<rparr>"

definition send_error :: "session_ptr \<Rightarrow> nat \<Rightarrow> error_code \<Rightarrow> game_gateway \<Rightarrow> game_gateway" where
  "send_error session request_id code =
     dispatch_write session \<lparr>pk_message_id = kErrorResponse, pk_request_id = request_id, pk_error_code = error_value code, pk_body = error_text code\<rparr>"

definition send_push :: "session_ptr \<Rightarrow> nat \<Rightarrow> string \<Rightarrow> game_gateway \<Rightarrow> game_gateway" where
  "send_push session message_id body =
     dispatch_write session \<lparr>pk_message_id = message_id, pk_request_id = 0, pk_error_code = error_value KOk, pk_body = body\<rparr>"

definition push_to_others :: "session_ptr list \<Rightarrow> nat \<Rightarrow> string \<Rightarrow> session_ptr \<Rightarrow> game_gateway \<Rightarrow> game_gateway" where
  "push_to_others members message_id body exclude g =
     fold (\<lambda>m g. if exclude \<noteq> None \<and> m = exclude then g else send_push m message_id body g) members g"

subsection \<open>Connections\<close>

text \<open>The address is what stands before the last colon.\<close>

definition extract_ip :: "string \<Rightarrow> string" where
  "extract_ip remote_endpoint =
     (if CHR '':'' \<in> set remote_endpoint then rev (tl (dropWhile (\<lambda>c. c \<noteq> CHR '':'') (rev remote_endpoint))) else remote_endpoint)"

definition try_acquire_connection_slot :: "string \<Rightarrow> game_gateway \<Rightarrow> bool \<times> game_gateway" where
  "try_acquire_connection_slot client_ip g =
     (if gg_max_connections g > 0 \<and> gg_active_connections g \<ge> gg_max_connections g then (False, g)
      else if gg_per_ip_limit g > 0 then
       (let count = (case gg_ip_counts g client_ip of None \<Rightarrow> 0 | Some n \<Rightarrow> n);
            g1 = g\<lparr>gg_ip_counts := (gg_ip_counts g)(client_ip \<mapsto> count)\<rparr>
        in if count \<ge> gg_per_ip_limit g then (False, g1)
           else (True, g1\<lparr>gg_ip_counts := (gg_ip_counts g)(client_ip \<mapsto> count + 1),
                          gg_active_connections := gg_active_connections g + 1\<rparr>))
      else (True, g\<lparr>gg_active_connections := gg_active_connections g + 1\<rparr>))"

definition release_connection_slot :: "string \<Rightarrow> game_gateway \<Rightarrow> game_gateway" where
  "release_connection_slot client_ip g =
     (let g1 = g\<lparr>gg_active_connections := (gg_active_connections g + u64_max) mod (u64_max + 1)\<rparr>
      in if gg_per_ip_limit g = 0 then g1
         else case gg_ip_counts g client_ip of
           None \<Rightarrow> g1
         | Some n \<Rightarrow> if n > 1 then g1\<lparr>gg_ip_counts := (gg_ip_counts g)(client_ip \<mapsto> n - 1)\<rparr>
                     else g1\<lparr>gg_ip_counts := (gg_ip_counts g)(client_ip := None)\<rparr>)"

definition attach_session :: "game_env \<Rightarrow> session_ptr \<Rightarrow> game_gateway \<Rightarrow> bool \<times> game_gateway" where
  "attach_session env session g =
     (case try_acquire_connection_slot (extract_ip (ge_endpoint env session)) g of
        (False, g1) \<Rightarrow> (False, g1\<lparr>gg_out := gg_out g1 @ [SocketClosed session]\<rparr>)
      | (True, g1) \<Rightarrow> (True, g1\<lparr>gg_sessions := snd (session_add session (gg_sessions g1))\<rparr>))"

definition clear_battle_if_room_empty :: "string \<Rightarrow> game_gateway \<Rightarrow> game_gateway" where
  "clear_battle_if_room_empty room_id g =
     (if member_count room_id (gg_rooms g) = 0 then g\<lparr>gg_battles := battle_remove_room room_id (gg_battles g)\<rparr> else g)"

definition release_session_state :: "game_env \<Rightarrow> session_ptr \<Rightarrow> game_gateway \<Rightarrow> bool \<times> game_gateway" where
  "release_session_state env session g =
     (if \<not> session_contains session (gg_sessions g) then (False, g)
      else
       (let room_id = room_id_of session (gg_rooms g);
            g1 = g\<lparr>gg_rooms := room_remove_session (ge_walk env) session (gg_rooms g)\<rparr>;
            g2 = (case room_id of None \<Rightarrow> g1 | Some r \<Rightarrow> clear_battle_if_room_empty r g1);
            g3 = g2\<lparr>gg_sessions := session_remove session (gg_sessions g2)\<rparr>
        in (True, release_connection_slot (extract_ip (ge_endpoint env session)) g3)))"

definition gateway_stop :: "game_env \<Rightarrow> (session_table \<Rightarrow> session_table) \<Rightarrow> game_gateway \<Rightarrow> game_gateway" where
  "gateway_stop env walk g =
     fold (\<lambda>session g. let g1 = snd (release_session_state env session g) in g1\<lparr>gg_out := gg_out g1 @ [Stopped session]\<rparr>)
       (all_sessions walk (gg_sessions g)) g"

subsection \<open>Ingress checks and heartbeat\<close>

definition should_allow_message :: "session_ptr \<Rightarrow> nat \<Rightarrow> nat \<Rightarrow> game_gateway \<Rightarrow> bool \<times> game_gateway" where
  "should_allow_message session message_id request_id g =
     (if message_id \<in> {kHeartbeatRequest, kLoginRequest, kEchoRequest} then (True, g)
      else if is_authenticated session (gg_sessions g) then (True, g)
      else (False, send_error session request_id KAuthRequired g))"

definition kRateLimitWindow :: nat where
  "kRateLimitWindow = 1000"

definition kMaxMessagesPerWindow :: nat where
  "kMaxMessagesPerWindow = 32"

definition check_rate_limit :: "nat \<Rightarrow> session_ptr \<Rightarrow> nat \<Rightarrow> nat \<Rightarrow> game_gateway \<Rightarrow> bool \<times> game_gateway" where
  "check_rate_limit now session message_id request_id g =
     (if message_id = kHeartbeatRequest then (True, g)
      else
       (let entry = (case gg_rate_limits g session of None \<Rightarrow> \<lparr>re_window_started_at = 0, re_message_count = 0\<rparr> | Some e \<Rightarrow> e);
            e1 = (if int now - int (re_window_started_at entry) \<ge> int kRateLimitWindow
                  then \<lparr>re_window_started_at = now, re_message_count = 0\<rparr> else entry);
            allowed = re_message_count e1 < kMaxMessagesPerWindow;
            e2 = (if allowed then e1\<lparr>re_message_count := re_message_count e1 + 1\<rparr> else e1);
            g1 = g\<lparr>gg_rate_limits := (gg_rate_limits g)(session \<mapsto> e2)\<rparr>
        in if allowed then (True, g1) else (False, send_error session request_id KRateLimited g1)))"

definition handle_heartbeat :: "session_ptr \<Rightarrow> nat \<Rightarrow> game_gateway \<Rightarrow> game_gateway" where
  "handle_heartbeat session request_id = send_ok session kHeartbeatResponse request_id ''pong''"

subsection \<open>Login\<close>

text \<open>What stands before and after the first bar.\<close>

definition split_bar :: "string \<Rightarrow> (string \<times> string) option" where
  "split_bar body = (if CHR ''|'' \<in> set body
     then Some (takeWhile (\<lambda>c. c \<noteq> CHR ''|'') body, tl (dropWhile (\<lambda>c. c \<noteq> CHR ''|'') body)) else None)"

definition parse_login_request :: "string \<Rightarrow> (string \<times> string \<times> string option) option" where
  "parse_login_request body =
     (case split_bar body of
        None \<Rightarrow> None
      | Some (user_id, rest) \<Rightarrow>
         (case split_bar rest of
            None \<Rightarrow> Some (user_id, rest, None)
          | Some (token, display_name) \<Rightarrow> Some (user_id, token, Some display_name)))"

definition login_room_suffix :: "room_snapshot option \<Rightarrow> string" where
  "login_room_suffix snap = (case snap of None \<Rightarrow> [] | Some r \<Rightarrow> '':room='' @ rs_room_id r)"

definition session_resumed_body :: "room_snapshot \<Rightarrow> string" where
  "session_resumed_body r = ''session_resumed:'' @ rs_room_id r @ (if rs_battle_started r then '':battle=1'' else '':battle=0'')"

definition kick_replaced :: "session_ptr \<Rightarrow> session_ptr \<Rightarrow> game_gateway \<Rightarrow> game_gateway" where
  "kick_replaced replaced session g =
     (if replaced = None \<or> replaced = session then g
      else
       (let (transferred, rooms) = transfer_session replaced session (gg_rooms g);
            kick = \<lparr>pk_message_id = kSessionKickedPush, pk_request_id = 0, pk_error_code = error_value KOk,
                    pk_body = (if transferred then ''session_kicked:duplicate_login:room_transferred''
                               else ''session_kicked:duplicate_login'')\<rparr>
        in g\<lparr>gg_rooms := rooms, gg_out := gg_out g @ [Sent replaced kick, Stopped replaced]\<rparr>))"

definition handle_login :: "game_env \<Rightarrow> session_ptr \<Rightarrow> nat \<Rightarrow> string \<Rightarrow> game_gateway \<Rightarrow> game_gateway" where
  "handle_login env session request_id body g =
     (case parse_login_request body of
        None \<Rightarrow> send_error session request_id KInvalidUserId g
      | Some (user_id, token, display_name) \<Rightarrow>
          if user_id = [] then send_error session request_id KInvalidUserId g
          else
           (let v = ge_validate env user_id token display_name in
            if \<not> tv_ok v then send_error session request_id (if tv_expired v then KTokenExpired else KInvalidToken) g
            else
             (let (replaced, sessions) = authenticate session \<lparr>lc_user_id = tv_user_id v, lc_display_name = tv_display_name v\<rparr> (gg_sessions g);
                  g1 = kick_replaced replaced session (g\<lparr>gg_sessions := sessions\<rparr>);
                  snap = room_snapshot_of (ge_walk env) (room_in_battle g1) session (gg_rooms g1);
                  g2 = send_ok session kLoginResponse request_id
                         (''login_ok:'' @ tv_user_id v @ '':'' @ tv_display_name v @ login_room_suffix snap) g1
              in case snap of None \<Rightarrow> g2 | Some r \<Rightarrow> send_push session kSessionResumedPush (session_resumed_body r) g2)))"

subsection \<open>Rooms\<close>

definition tag_room_member_user_id :: "session_ptr \<Rightarrow> game_gateway \<Rightarrow> game_gateway" where
  "tag_room_member_user_id session g =
     (case login_context_of session (gg_sessions g) of
        None \<Rightarrow> g
      | Some c \<Rightarrow> g\<lparr>gg_rooms := set_member_user_id session (lc_user_id c) (gg_rooms g)\<rparr>)"

definition resolve_user_id :: "game_gateway \<Rightarrow> game_member \<Rightarrow> string" where
  "resolve_user_id g m =
     (if gm_user_id m \<noteq> [] then gm_user_id m
      else case login_context_of (gm_session m) (gg_sessions g) of None \<Rightarrow> ''unknown'' | Some c \<Rightarrow> lc_user_id c)"

fun join_members :: "string list \<Rightarrow> string" where
  "join_members [] = []"
| "join_members [x] = x"
| "join_members (x # y # xs) = x @ '';'' @ join_members (y # xs)"

definition build_room_state_body :: "game_gateway \<Rightarrow> room_snapshot \<Rightarrow> string" where
  "build_room_state_body g r =
     (let owner = (if rs_owner r = None then ''unknown''
                   else case find (\<lambda>m. gm_session m = rs_owner r) (rs_members r) of None \<Rightarrow> ''unknown'' | Some m \<Rightarrow> resolve_user_id g m)
      in ''room_state:'' @ rs_room_id r @ '':owner='' @ owner @ '':battle='' @ (if rs_battle_started r then ''1'' else ''0'') @
         '':members='' @ join_members (map (\<lambda>m. resolve_user_id g m @ '':'' @ (if gm_ready m then ''1'' else ''0'')) (rs_members r)))"

definition broadcast_room_state :: "game_env \<Rightarrow> string \<Rightarrow> session_ptr \<Rightarrow> game_gateway \<Rightarrow> game_gateway" where
  "broadcast_room_state env room_id exclude g =
     (case snapshot_of_room (ge_walk env) (room_in_battle g) room_id (gg_rooms g) of
        None \<Rightarrow> g
      | Some r \<Rightarrow> push_to_others (map gm_session (rs_members r)) kRoomStatePush (build_room_state_body g r) exclude g)"

definition handle_room_create :: "game_env \<Rightarrow> session_ptr \<Rightarrow> nat \<Rightarrow> string \<Rightarrow> game_gateway \<Rightarrow> game_gateway" where
  "handle_room_create env session request_id body g =
     (if \<not> is_authenticated session (gg_sessions g) then send_error session request_id KAuthRequired g
      else case create_room (ge_walk env) session body (gg_rooms g) of ((result, room_id, _), rooms) \<Rightarrow>
       (let g1 = g\<lparr>gg_rooms := rooms\<rparr> in
        case result of
          CreateOk \<Rightarrow> broadcast_room_state env room_id session
                        (send_ok session kRoomCreateResponse request_id (''room_created:'' @ room_id) (tag_room_member_user_id session g1))
        | CreateInvalidRoomId \<Rightarrow> send_error session request_id KInvalidRoomId g1
        | CreateRoomAlreadyExists \<Rightarrow> send_error session request_id KRoomAlreadyExists g1
        | CreateSessionNotFound \<Rightarrow> send_error session request_id KSessionNotFound g1))"

definition handle_room_join :: "game_env \<Rightarrow> session_ptr \<Rightarrow> nat \<Rightarrow> string \<Rightarrow> game_gateway \<Rightarrow> game_gateway" where
  "handle_room_join env session request_id body g =
     (if \<not> is_authenticated session (gg_sessions g) then send_error session request_id KAuthRequired g
      else case join_room (ge_walk env) (room_in_battle g) session body (gg_rooms g) of ((result, room_id, n), rooms) \<Rightarrow>
       (let g1 = g\<lparr>gg_rooms := rooms\<rparr> in
        case result of
          JoinOk \<Rightarrow> broadcast_room_state env room_id session
                      (send_ok session kRoomJoinResponse request_id (''room_joined:'' @ room_id @ '':'' @ decimal n) (tag_room_member_user_id session g1))
        | JoinInvalidRoomId \<Rightarrow> send_error session request_id KInvalidRoomId g1
        | JoinRoomNotFound \<Rightarrow> send_error session request_id KRoomNotFound g1
        | JoinRoomInBattle \<Rightarrow> send_error session request_id KRoomInBattle g1
        | JoinSessionNotFound \<Rightarrow> send_error session request_id KSessionNotFound g1))"

definition handle_room_leave :: "game_env \<Rightarrow> session_ptr \<Rightarrow> nat \<Rightarrow> game_gateway \<Rightarrow> game_gateway" where
  "handle_room_leave env session request_id g =
     (case leave_room (ge_walk env) session (gg_rooms g) of ((result, room_id, _), rooms) \<Rightarrow>
       (let g1 = g\<lparr>gg_rooms := rooms\<rparr> in
        case result of
          LeaveOk \<Rightarrow>
           (let g2 = send_ok session kRoomLeaveResponse request_id (''room_left:'' @ room_id) (clear_battle_if_room_empty room_id g1)
            in case room_id_of session (gg_rooms g) of None \<Rightarrow> g2 | Some r \<Rightarrow> broadcast_room_state env r session g2)
        | LeaveNotInRoom \<Rightarrow> send_error session request_id KNotInRoom g1
        | LeaveSessionNotFound \<Rightarrow> send_error session request_id KSessionNotFound g1))"

text \<open>Ready is requested by 1 or true before or after the bar.\<close>

definition parse_ready :: "string \<Rightarrow> bool" where
  "parse_ready body =
     (case split_bar body of
        None \<Rightarrow> body \<in> {''1'', ''true''}
      | Some (action, value) \<Rightarrow> action \<in> {''1'', ''true''} \<or> value \<in> {''1'', ''true''})"

definition handle_room_ready :: "game_env \<Rightarrow> session_ptr \<Rightarrow> nat \<Rightarrow> string \<Rightarrow> game_gateway \<Rightarrow> game_gateway" where
  "handle_room_ready env session request_id body g =
     (let ready = parse_ready body in
      case set_ready (room_in_battle g) session ready (gg_rooms g) of ((result, room_id, _), rooms) \<Rightarrow>
       (let g1 = g\<lparr>gg_rooms := rooms\<rparr> in
        case result of
          ReadyOk \<Rightarrow> broadcast_room_state env room_id session
                       (send_ok session kRoomReadyResponse request_id (if ready then ''room_ready:on'' else ''room_ready:off'') g1)
        | ReadyNotInRoom \<Rightarrow> send_error session request_id KNotInRoom g1
        | ReadyRoomInBattle \<Rightarrow> send_error session request_id KRoomInBattle g1
        | ReadySessionNotFound \<Rightarrow> send_error session request_id KSessionNotFound g1))"

subsection \<open>Battles\<close>

text \<open>The loop over the members: those without a known user are passed over, a member who is not ready ends it.\<close>

fun collect_players :: "game_gateway \<Rightarrow> game_member list \<Rightarrow> string list option" where
  "collect_players g [] = Some []"
| "collect_players g (m # ms) =
     (let uid = (if gm_user_id m \<noteq> [] then Some (gm_user_id m)
                 else map_option lc_user_id (login_context_of (gm_session m) (gg_sessions g)))
      in case uid of
           None \<Rightarrow> collect_players g ms
         | Some u \<Rightarrow> if \<not> gm_ready m then None else map_option (\<lambda>us. u # us) (collect_players g ms))"

definition broadcast_to_room :: "game_env \<Rightarrow> string \<Rightarrow> nat \<Rightarrow> string \<Rightarrow> session_ptr \<Rightarrow> game_gateway \<Rightarrow> game_gateway" where
  "broadcast_to_room env room_id message_id body exclude g =
     push_to_others (room_members (ge_walk env) room_id (gg_rooms g)) message_id body exclude g"

definition handle_battle_start :: "game_env \<Rightarrow> session_ptr \<Rightarrow> nat \<Rightarrow> game_gateway \<Rightarrow> game_gateway" where
  "handle_battle_start env session request_id g =
     (if \<not> is_authenticated session (gg_sessions g) then send_error session request_id KAuthRequired g
      else case room_snapshot_of (ge_walk env) (room_in_battle g) session (gg_rooms g) of
        None \<Rightarrow> send_error session request_id KNotInRoom g
      | Some r \<Rightarrow>
          if rs_owner r = None \<or> rs_owner r \<noteq> session then send_error session request_id KNotRoomOwner g
          else case collect_players g (rs_members r) of
            None \<Rightarrow> send_error session request_id KNotAllReady g
          | Some players \<Rightarrow>
             (case start_battle (rs_room_id r) players (gg_battles g) of ((result, room_id, n), battles) \<Rightarrow>
               (let g1 = g\<lparr>gg_battles := battles\<rparr> in
                case result of
                  StartOk \<Rightarrow> broadcast_to_room env room_id kBattleStatePush (''battle_state:started:'' @ room_id @ '':'' @ decimal n) session
                               (send_ok session kBattleStartResponse request_id (''battle_started:'' @ room_id @ '':'' @ decimal n) g1)
                | StartNotEnoughPlayers \<Rightarrow> send_error session request_id KNotEnoughPlayers g1
                | StartAlreadyStarted \<Rightarrow> send_error session request_id KBattleAlreadyStarted g1
                | StartNotInRoom \<Rightarrow> send_error session request_id KNotInRoom g1)))"

definition handle_battle_input :: "game_env \<Rightarrow> session_ptr \<Rightarrow> nat \<Rightarrow> string \<Rightarrow> game_gateway \<Rightarrow> game_gateway" where
  "handle_battle_input env session request_id body g =
     (case (room_id_of session (gg_rooms g), login_context_of session (gg_sessions g)) of
        (Some room_id, Some c) \<Rightarrow>
         (case battle_submit_input room_id (lc_user_id c) body (gg_battles g) of (result, battles) \<Rightarrow>
           (let g1 = g\<lparr>gg_battles := battles\<rparr> in
            case result of
              SubmitOk i \<Rightarrow> broadcast_to_room env room_id kBattleInputPush
                  (''battle_input:'' @ room_id @ '':'' @ ev_user_id i @ '':'' @ decimal (ev_sequence i) @ '':'' @ ev_payload i) session
                  (send_ok session kBattleInputResponse request_id (''battle_input_accepted:'' @ room_id @ '':'' @ decimal (ev_sequence i)) g1)
            | SubmitBattleNotStarted \<Rightarrow> send_error session request_id KBattleNotStarted g1
            | SubmitPlayerNotInBattle \<Rightarrow> send_error session request_id KPlayerNotInBattle g1))
      | _ \<Rightarrow> send_error session request_id KNotInRoom g)"

subsection \<open>Dispatch\<close>

text \<open>The handlers the four services register.\<close>

definition handler_of :: "game_env \<Rightarrow> nat \<Rightarrow> (session_ptr \<Rightarrow> nat \<Rightarrow> string \<Rightarrow> game_gateway \<Rightarrow> game_gateway) option" where
  "handler_of env message_id =
     (if message_id = kHeartbeatRequest then Some (\<lambda>s r b. handle_heartbeat s r)
      else if message_id = kLoginRequest then Some (handle_login env)
      else if message_id = kRoomCreateRequest then Some (handle_room_create env)
      else if message_id = kRoomJoinRequest then Some (handle_room_join env)
      else if message_id = kRoomLeaveRequest then Some (\<lambda>s r b. handle_room_leave env s r)
      else if message_id = kRoomReadyRequest then Some (handle_room_ready env)
      else if message_id = kBattleStartRequest then Some (\<lambda>s r b. handle_battle_start env s r)
      else if message_id = kBattleInputRequest then Some (handle_battle_input env)
      else None)"

definition dispatch :: "game_env \<Rightarrow> nat \<Rightarrow> session_ptr \<Rightarrow> nat \<Rightarrow> nat \<Rightarrow> string \<Rightarrow> game_gateway \<Rightarrow> bool \<times> game_gateway" where
  "dispatch env now session message_id request_id body g =
     (case handler_of env message_id of
        None \<Rightarrow> (False, g)
      | Some handler \<Rightarrow>
          if session = None then (True, handler session request_id body g)
          else (case should_allow_message session message_id request_id g of
                  (False, g1) \<Rightarrow> (True, g1)
                | (True, g1) \<Rightarrow>
                   (case check_rate_limit now session message_id request_id g1 of
                      (False, g2) \<Rightarrow> (True, g2)
                    | (True, g2) \<Rightarrow> (True, handler session request_id body g2))))"

datatype gateway_event =
    Connect session_ptr
  | Packet nat session_ptr nat nat string
  | Close session_ptr

fun gateway_step :: "game_env \<Rightarrow> gateway_event \<Rightarrow> game_gateway \<Rightarrow> game_gateway" where
  "gateway_step env (Connect session) g = snd (attach_session env session g)"
| "gateway_step env (Packet now session message_id request_id body) g = snd (dispatch env now session message_id request_id body g)"
| "gateway_step env (Close session) g = snd (release_session_state env session g)"

subsection \<open>Every request is answered once\<close>

definition answer_to :: "session_ptr \<Rightarrow> nat \<Rightarrow> gateway_output \<Rightarrow> bool" where
  "answer_to session request_id o' = (case o' of Sent k p \<Rightarrow> k = session \<and> pk_request_id p = request_id | _ \<Rightarrow> False)"

definition answers :: "session_ptr \<Rightarrow> nat \<Rightarrow> game_gateway \<Rightarrow> nat" where
  "answers session request_id g = length (filter (answer_to session request_id) (gg_out g))"

lemma answers_update [simp]:
  "answers s r (g\<lparr>gg_sessions := a\<rparr>) = answers s r g" "answers s r (g\<lparr>gg_rooms := b\<rparr>) = answers s r g"
  "answers s r (g\<lparr>gg_battles := c\<rparr>) = answers s r g" "answers s r (g\<lparr>gg_rate_limits := d\<rparr>) = answers s r g"
  by (simp_all add: answers_def)

lemma answers_send [simp]:
  "s \<noteq> None \<Longrightarrow> answers s r (send_ok s m r b g) = Suc (answers s r g)"
  "s \<noteq> None \<Longrightarrow> answers s r (send_error s r e g) = Suc (answers s r g)"
  "r \<noteq> 0 \<Longrightarrow> answers s r (send_push k m b g) = answers s r g"
  by (auto simp: answers_def answer_to_def send_ok_def send_error_def send_push_def dispatch_write_def)

lemma answers_push_to_others [simp]: "r \<noteq> 0 \<Longrightarrow> answers s r (push_to_others ms m b x g) = answers s r g"
  unfolding push_to_others_def by (induction ms arbitrary: g) simp_all

lemma answers_broadcast [simp]:
  "r \<noteq> 0 \<Longrightarrow> answers s r (broadcast_room_state env room x g) = answers s r g"
  "r \<noteq> 0 \<Longrightarrow> answers s r (broadcast_to_room env room m b x g) = answers s r g"
  by (simp_all add: broadcast_room_state_def broadcast_to_room_def split: option.split)

lemma answers_tag [simp]:
  "answers s r (tag_room_member_user_id k g) = answers s r g"
  "answers s r (clear_battle_if_room_empty room g) = answers s r g"
  by (simp_all add: tag_room_member_user_id_def clear_battle_if_room_empty_def split: option.split)

lemma answers_kick [simp]: "r \<noteq> 0 \<Longrightarrow> answers s r (kick_replaced o' k g) = answers s r g"
  by (simp add: kick_replaced_def answers_def answer_to_def split: prod.split)

lemma answers_handler:
  assumes h: "handler_of env mid = Some h" and "s \<noteq> None" "r \<noteq> 0"
  shows "answers s r (h s r b g) = Suc (answers s r g)"
proof -
  note send = assms(2,3)
  have "answers s r (handle_login env s r b g) = Suc (answers s r g)"
    using send by (auto simp: handle_login_def Let_def split: option.split prod.split)
  moreover have "answers s r (handle_room_create env s r b g) = Suc (answers s r g)"
    using send by (auto simp: handle_room_create_def Let_def split: prod.split create_room_result.split)
  moreover have "answers s r (handle_room_join env s r b g) = Suc (answers s r g)"
    using send by (auto simp: handle_room_join_def Let_def split: prod.split join_room_result.split)
  moreover have "answers s r (handle_room_leave env s r g) = Suc (answers s r g)"
    using send by (auto simp: handle_room_leave_def Let_def split: prod.split leave_room_result.split option.split)
  moreover have "answers s r (handle_room_ready env s r b g) = Suc (answers s r g)"
    using send by (auto simp: handle_room_ready_def Let_def split: prod.split ready_result.split)
  moreover have "answers s r (handle_battle_start env s r g) = Suc (answers s r g)"
    using send by (auto simp: handle_battle_start_def Let_def split: option.split prod.split start_battle_result.split)
  moreover have "answers s r (handle_battle_input env s r b g) = Suc (answers s r g)"
    using send by (auto simp: handle_battle_input_def Let_def split: option.split prod.split submit_input_result.split)
  moreover have "answers s r (handle_heartbeat s r g) = Suc (answers s r g)"
    using send by (simp add: handle_heartbeat_def)
  ultimately show ?thesis using h by (auto simp: handler_of_def split: if_splits)
qed

text \<open>Every request of a client that some handler serves is answered exactly once: whatever the state,
  the rate limit and the request, one packet with the request's number goes back to the session.\<close>

theorem request_answered_once:
  assumes "handler_of env message_id \<noteq> None" and "session \<noteq> None" and "request_id \<noteq> 0"
  shows "answers session request_id (snd (dispatch env now session message_id request_id body g)) = answers session request_id g + 1"
proof -
  obtain h where h: "handler_of env message_id = Some h" using assms(1) by blast
  show ?thesis
  proof (cases "fst (should_allow_message session message_id request_id g)")
    case False
    then show ?thesis using assms h by (auto simp: dispatch_def should_allow_message_def split: if_splits)
  next
    case True
    then have allow: "should_allow_message session message_id request_id g = (True, g)"
      by (auto simp: should_allow_message_def split: if_splits)
    have rate: "(\<exists>g1. check_rate_limit now session message_id request_id g = (True, g1) \<and> answers session request_id g1 = answers session request_id g) \<or>
       (\<exists>g1. check_rate_limit now session message_id request_id g = (False, g1) \<and> answers session request_id g1 = answers session request_id g + 1)"
      using assms by (auto simp: check_rate_limit_def Let_def)
    then show ?thesis using assms h allow answers_handler[OF h assms(2,3)] by (auto simp: dispatch_def)
  qed
qed

definition example_game_env :: game_env where
  "example_game_env = \<lparr>ge_walk = id, ge_endpoint = (\<lambda>k. ''10.0.0.1:7''), ge_validate = dev_validate\<rparr>"

theorem request_answered_once_witness:
  "answers (Some 1) 7 (snd (dispatch example_game_env 5 (Some 1) 3001 7 ''r'' (new_game_gateway 0 0))) = 1"
proof -
  have "handler_of example_game_env 3001 \<noteq> None"
    by (simp add: handler_of_def kHeartbeatRequest_def kLoginRequest_def kRoomCreateRequest_def)
  from request_answered_once[OF this, of "Some 1" 7 5 "''r''" "new_game_gateway 0 0"] show ?thesis
    by (simp add: answers_def new_game_gateway_def)
qed

subsection \<open>Connections and logins\<close>

lemma send_frame [simp]:
  "gg_sessions (dispatch_write k p g) = gg_sessions g" "gg_rooms (dispatch_write k p g) = gg_rooms g"
  "gg_battles (dispatch_write k p g) = gg_battles g" "gg_active_connections (dispatch_write k p g) = gg_active_connections g"
  "gg_ip_counts (dispatch_write k p g) = gg_ip_counts g" "gg_max_connections (dispatch_write k p g) = gg_max_connections g"
  "gg_per_ip_limit (dispatch_write k p g) = gg_per_ip_limit g"
  by (simp_all add: dispatch_write_def)

text \<open>What a step may not touch: the connection accounting, and apart from login the session table.\<close>

definition accounts :: "game_gateway \<Rightarrow> nat \<times> (string \<rightharpoonup> nat) \<times> nat \<times> nat" where
  "accounts g = (gg_active_connections g, gg_ip_counts g, gg_max_connections g, gg_per_ip_limit g)"

lemma accounts_simps [simp]:
  "accounts (g\<lparr>gg_sessions := a\<rparr>) = accounts g" "accounts (g\<lparr>gg_rooms := b\<rparr>) = accounts g"
  "accounts (g\<lparr>gg_battles := c\<rparr>) = accounts g" "accounts (g\<lparr>gg_rate_limits := d\<rparr>) = accounts g"
  "accounts (g\<lparr>gg_out := e\<rparr>) = accounts g" "accounts (dispatch_write k p g) = accounts g"
  by (simp_all add: accounts_def)

lemma sends_frame [simp]:
  "gg_sessions (send_ok k m r b g) = gg_sessions g" "gg_rooms (send_ok k m r b g) = gg_rooms g"
  "gg_battles (send_ok k m r b g) = gg_battles g" "accounts (send_ok k m r b g) = accounts g"
  "gg_sessions (send_error k r e g) = gg_sessions g" "gg_rooms (send_error k r e g) = gg_rooms g"
  "gg_battles (send_error k r e g) = gg_battles g" "accounts (send_error k r e g) = accounts g"
  "gg_sessions (send_push k m b g) = gg_sessions g" "gg_rooms (send_push k m b g) = gg_rooms g"
  "gg_battles (send_push k m b g) = gg_battles g" "accounts (send_push k m b g) = accounts g"
  by (simp_all add: send_ok_def send_error_def send_push_def)

lemma push_to_others_frame [simp]:
  "gg_sessions (push_to_others ms m b x g) = gg_sessions g" "gg_rooms (push_to_others ms m b x g) = gg_rooms g"
  "gg_battles (push_to_others ms m b x g) = gg_battles g" "accounts (push_to_others ms m b x g) = accounts g"
  unfolding push_to_others_def by (induction ms arbitrary: g) simp_all

lemma broadcasts_frame [simp]:
  "gg_sessions (broadcast_room_state env r x g) = gg_sessions g" "gg_rooms (broadcast_room_state env r x g) = gg_rooms g"
  "gg_battles (broadcast_room_state env r x g) = gg_battles g" "accounts (broadcast_room_state env r x g) = accounts g"
  "gg_sessions (broadcast_to_room env r m b x g) = gg_sessions g" "gg_rooms (broadcast_to_room env r m b x g) = gg_rooms g"
  "gg_battles (broadcast_to_room env r m b x g) = gg_battles g" "accounts (broadcast_to_room env r m b x g) = accounts g"
  by (simp_all add: broadcast_room_state_def broadcast_to_room_def split: option.split)

lemma tag_frame [simp]:
  "gg_sessions (tag_room_member_user_id k g) = gg_sessions g" "gg_battles (tag_room_member_user_id k g) = gg_battles g"
  "accounts (tag_room_member_user_id k g) = accounts g"
  "gg_sessions (clear_battle_if_room_empty r g) = gg_sessions g" "gg_rooms (clear_battle_if_room_empty r g) = gg_rooms g"
  "accounts (clear_battle_if_room_empty r g) = accounts g"
  by (simp_all add: tag_room_member_user_id_def clear_battle_if_room_empty_def split: option.split)

lemma kick_frame [simp]:
  "gg_sessions (kick_replaced o' k g) = gg_sessions g" "gg_battles (kick_replaced o' k g) = gg_battles g"
  "accounts (kick_replaced o' k g) = accounts g"
  by (simp_all add: kick_replaced_def split: prod.split)

lemma login_sessions:
  "gg_sessions (handle_login env k r b g) = gg_sessions g \<or> (\<exists>c. gg_sessions (handle_login env k r b g) = snd (authenticate k c (gg_sessions g)))"
  by (auto simp: handle_login_def Let_def split: option.split prod.split) (metis snd_conv)+

lemmas handler_defs = handle_heartbeat_def handle_room_create_def handle_room_join_def handle_room_leave_def handle_room_ready_def
  handle_battle_start_def handle_battle_input_def

lemmas result_splits = option.split prod.split create_room_result.split join_room_result.split leave_room_result.split
  ready_result.split start_battle_result.split submit_input_result.split

lemma handlers_sessions [simp]:
  "gg_sessions (handle_heartbeat k r g) = gg_sessions g"
  "gg_sessions (handle_room_create env k r b g) = gg_sessions g"
  "gg_sessions (handle_room_join env k r b g) = gg_sessions g"
  "gg_sessions (handle_room_leave env k r g) = gg_sessions g"
  "gg_sessions (handle_room_ready env k r b g) = gg_sessions g"
  "gg_sessions (handle_battle_start env k r g) = gg_sessions g"
  "gg_sessions (handle_battle_input env k r b g) = gg_sessions g"
  by (auto simp: handler_defs Let_def split: result_splits)

lemma handlers_accounts [simp]:
  "accounts (handle_heartbeat k r g) = accounts g"
  "accounts (handle_login env k r b g) = accounts g"
  "accounts (handle_room_create env k r b g) = accounts g"
  "accounts (handle_room_join env k r b g) = accounts g"
  "accounts (handle_room_leave env k r g) = accounts g"
  "accounts (handle_room_ready env k r b g) = accounts g"
  "accounts (handle_battle_start env k r g) = accounts g"
  "accounts (handle_battle_input env k r b g) = accounts g"
  by (auto simp: handler_defs handle_login_def Let_def split: result_splits)

lemma ingress_frame:
  "gg_sessions (snd (should_allow_message k m r g)) = gg_sessions g" "gg_rooms (snd (should_allow_message k m r g)) = gg_rooms g"
  "gg_battles (snd (should_allow_message k m r g)) = gg_battles g" "accounts (snd (should_allow_message k m r g)) = accounts g"
  "gg_sessions (snd (check_rate_limit now k m r g)) = gg_sessions g" "gg_rooms (snd (check_rate_limit now k m r g)) = gg_rooms g"
  "gg_battles (snd (check_rate_limit now k m r g)) = gg_battles g" "accounts (snd (check_rate_limit now k m r g)) = accounts g"
  by (simp_all add: should_allow_message_def check_rate_limit_def Let_def)

text \<open>A packet is refused before any table changes, or is handed to its handler.\<close>

lemma dispatch_cases:
  "(gg_sessions (snd (dispatch env now k m r b g)) = gg_sessions g \<and> gg_rooms (snd (dispatch env now k m r b g)) = gg_rooms g \<and>
    gg_battles (snd (dispatch env now k m r b g)) = gg_battles g \<and> accounts (snd (dispatch env now k m r b g)) = accounts g) \<or>
   (\<exists>h g1. handler_of env m = Some h \<and> snd (dispatch env now k m r b g) = h k r b g1 \<and>
     (k \<noteq> None \<longrightarrow> is_authenticated k (gg_sessions g) \<or> m \<in> {kHeartbeatRequest, kLoginRequest}) \<and>
     gg_sessions g1 = gg_sessions g \<and> gg_rooms g1 = gg_rooms g \<and> gg_battles g1 = gg_battles g \<and> accounts g1 = accounts g)"
proof (cases "handler_of env m")
  case (Some h)
  obtain ok1 g1 where a: "should_allow_message k m r g = (ok1, g1)" by fastforce
  obtain ok2 g2 where c: "check_rate_limit now k m r g1 = (ok2, g2)" by fastforce
  have f: "gg_sessions g2 = gg_sessions g" "gg_rooms g2 = gg_rooms g" "gg_battles g2 = gg_battles g" "accounts g2 = accounts g"
    "gg_sessions g1 = gg_sessions g" "gg_rooms g1 = gg_rooms g" "gg_battles g1 = gg_battles g" "accounts g1 = accounts g"
    using ingress_frame(1-4)[of k m r g] ingress_frame(5-8)[of now k m r g1] a c by auto
  have auth: "ok1 \<Longrightarrow> is_authenticated k (gg_sessions g) \<or> m \<in> {kHeartbeatRequest, kLoginRequest}"
    using a Some by (auto simp: should_allow_message_def handler_of_def kEchoRequest_def kHeartbeatRequest_def kLoginRequest_def
        kRoomCreateRequest_def kRoomJoinRequest_def kRoomLeaveRequest_def kRoomReadyRequest_def kBattleStartRequest_def
        kBattleInputRequest_def split: if_splits)
  show ?thesis using Some a c f auth by (cases ok1; cases ok2; cases "k = None") (auto simp: dispatch_def)
qed (simp add: dispatch_def)

text \<open>The states a gateway can be in: every accepted connection is a new session object, and the
  connection counter does not reach the end of its range; \<open>G\<close> restricts the events further.\<close>

definition fresh_connect :: "gateway_event \<Rightarrow> game_gateway \<Rightarrow> bool" where
  "fresh_connect ev g = (case ev of
     Connect k \<Rightarrow> k \<noteq> None \<and> \<not> session_contains k (gg_sessions g) \<and> gg_active_connections g < u64_max
   | _ \<Rightarrow> True)"

inductive gateway_reachable :: "game_env \<Rightarrow> (gateway_event \<Rightarrow> game_gateway \<Rightarrow> bool) \<Rightarrow> nat \<Rightarrow> nat \<Rightarrow> game_gateway \<Rightarrow> bool"
  for env G max_total per_ip where
  start: "gateway_reachable env G max_total per_ip (new_game_gateway max_total per_ip)"
| step: "gateway_reachable env G max_total per_ip g \<Longrightarrow> fresh_connect ev g \<Longrightarrow> G ev g \<Longrightarrow>
     gateway_reachable env G max_total per_ip (gateway_step env ev g)"

definition connected :: "game_gateway \<Rightarrow> session_ptr list" where
  "connected g = map fst (sm_sessions (gg_sessions g))"

definition ip_of :: "game_env \<Rightarrow> session_ptr \<Rightarrow> string" where
  "ip_of env k = extract_ip (ge_endpoint env k)"

definition count_of :: "(string \<rightharpoonup> nat) \<Rightarrow> string \<Rightarrow> nat" where
  "count_of counts ip = (case counts ip of None \<Rightarrow> 0 | Some n \<Rightarrow> n)"

lemma count_of_simps [simp]:
  "count_of (counts(a \<mapsto> n)) ip = (if ip = a then n else count_of counts ip)"
  "count_of (counts(a := None)) ip = (if ip = a then 0 else count_of counts ip)"
  by (simp_all add: count_of_def)

definition per_ip_ok :: "(session_ptr \<Rightarrow> string) \<Rightarrow> nat \<Rightarrow> (string \<rightharpoonup> nat) \<Rightarrow> session_ptr list \<Rightarrow> bool" where
  "per_ip_ok f lim counts ks \<longleftrightarrow> (0 < lim \<longrightarrow> (\<forall>ip. count_of counts ip = length (filter (\<lambda>k. f k = ip) ks) \<and> length (filter (\<lambda>k. f k = ip) ks) \<le> lim))"

definition connections_ok :: "game_env \<Rightarrow> game_gateway \<Rightarrow> bool" where
  "connections_ok env g \<longleftrightarrow> gg_active_connections g = length (connected g) \<and> gg_active_connections g \<le> u64_max \<and>
     (0 < gg_max_connections g \<longrightarrow> length (connected g) \<le> gg_max_connections g) \<and>
     per_ip_ok (ip_of env) (gg_per_ip_limit g) (gg_ip_counts g) (connected g)"

lemma connections_ok_cong:
  "accounts g' = accounts g \<Longrightarrow> connected g' = connected g \<Longrightarrow> connections_ok env g' = connections_ok env g"
  by (simp add: connections_ok_def accounts_def)

lemma keys_authenticate: "map fst (sm_sessions (snd (authenticate k c s))) = map fst (sm_sessions s)"
proof -
  have keep: "map_of t k' = Some v \<Longrightarrow> map fst (AList.update k' v' t) = map fst t" for k' v v' and t :: session_table
    by (simp add: update_keys) (metis domI dom_map_of_conv_image_fst)
  show ?thesis
    by (auto simp: authenticate_def Let_def publish_snapshot_def session_record_of_def keep split: option.split)
qed

lemma connected_step:
  "connected (snd (dispatch env now k m r b g)) = connected g \<and> accounts (snd (dispatch env now k m r b g)) = accounts g"
proof -
  have "gg_sessions (h k r b g1) = gg_sessions g1 \<or> (\<exists>c. gg_sessions (h k r b g1) = snd (authenticate k c (gg_sessions g1)))"
    and "accounts (h k r b g1) = accounts g1" if "handler_of env m = Some h" for h g1
    using that login_sessions[of env k r b g1] by (auto simp: handler_of_def split: if_splits)
  then show ?thesis using dispatch_cases[of env now k m r b g] keys_authenticate unfolding connected_def by metis
qed

lemma sessions_ok_dispatch:
  assumes "sessions_ok (gg_sessions g)"
  shows "sessions_ok (gg_sessions (snd (dispatch env now k m r b g)))"
proof -
  have "gg_sessions (h k r b g1) = gg_sessions g1 \<or> (\<exists>c. gg_sessions (h k r b g1) = snd (authenticate k c (gg_sessions g1)))"
    if "handler_of env m = Some h" for h g1
    using that login_sessions[of env k r b g1] by (auto simp: handler_of_def split: if_splits)
  then show ?thesis using dispatch_cases[of env now k m r b g] sessions_ok_authenticate assms by metis
qed

lemma attach_sessions: "gg_sessions (snd (attach_session env k g)) = gg_sessions g \<or> gg_sessions (snd (attach_session env k g)) = snd (session_add k (gg_sessions g))"
  by (auto simp: attach_session_def try_acquire_connection_slot_def Let_def)

lemma release_sessions: "gg_sessions (snd (release_session_state env k g)) = session_remove k (gg_sessions g)"
  by (auto simp: release_session_state_def Let_def release_connection_slot_def session_contains_def session_remove_def split: option.split)

lemma per_ip_ok_add: "per_ip_ok f lim counts ks \<Longrightarrow> count_of counts (f k) < lim \<Longrightarrow> per_ip_ok f lim (counts(f k \<mapsto> count_of counts (f k) + 1)) (ks @ [k])"
  by (auto simp: per_ip_ok_def)

lemma filter_remove_key:
  "distinct ks \<Longrightarrow> k \<in> set ks \<Longrightarrow> P k \<Longrightarrow> length (filter P ks) = Suc (length (filter P (filter (\<lambda>x. x \<noteq> k) ks)))"
proof (induction ks)
  case (Cons a ks)
  show ?case
  proof (cases "a = k")
    case True
    then have "filter (\<lambda>x. x \<noteq> k) ks = ks" using Cons.prems(1) by (auto simp: filter_id_conv)
    then show ?thesis using True Cons.prems(3) by simp
  qed (use Cons in auto)
qed simp

lemma filter_keep_key: "\<not> P k \<Longrightarrow> filter P (filter (\<lambda>x. x \<noteq> k) ks) = filter P ks"
  by (induction ks) auto

lemma per_ip_ok_remove:
  assumes ok: "per_ip_ok f lim counts ks" and ks: "distinct ks" "k \<in> set ks" and lim: "0 < lim"
    and n: "counts (f k) = Some n"
  shows "per_ip_ok f lim (if n > 1 then counts(f k \<mapsto> n - 1) else counts(f k := None)) (filter (\<lambda>x. x \<noteq> k) ks)"
proof -
  have "n = length (filter (\<lambda>x. f x = f k) ks)" using ok lim n by (simp add: per_ip_ok_def count_of_def) (metis option.case(2))
  then have n': "n = Suc (length (filter (\<lambda>x. f x = f k) (filter (\<lambda>x. x \<noteq> k) ks)))" using filter_remove_key[OF ks, of "\<lambda>x. f x = f k"] by simp
  have other: "ip \<noteq> f k \<Longrightarrow> filter (\<lambda>x. f x = ip) (filter (\<lambda>x. x \<noteq> k) ks) = filter (\<lambda>x. f x = ip) ks" for ip
    by (rule filter_keep_key) auto
  have all: "\<forall>ip. count_of counts ip = length (filter (\<lambda>k. f k = ip) ks) \<and> length (filter (\<lambda>k. f k = ip) ks) \<le> lim"
    using ok lim by (simp add: per_ip_ok_def)
  have "n \<le> lim" using all n by (metis count_of_def option.case(2))
  have "count_of (if n > 1 then counts(f k \<mapsto> n - 1) else counts(f k := None)) ip = length (filter (\<lambda>k. f k = ip) (filter (\<lambda>x. x \<noteq> k) ks)) \<and>
      length (filter (\<lambda>k. f k = ip) (filter (\<lambda>x. x \<noteq> k) ks)) \<le> lim" for ip
    using all other[of ip] n' \<open>n \<le> lim\<close> by (cases "ip = f k") auto
  then show ?thesis unfolding per_ip_ok_def by blast
qed

lemma connections_ok_attach:
  assumes ok: "connections_ok env g" and fresh: "fresh_connect (Connect k) g"
  shows "connections_ok env (snd (attach_session env k g))"
proof -
  let ?ks = "connected g @ [k]"
  have new: "connected (g'\<lparr>gg_sessions := snd (session_add k (gg_sessions g))\<rparr>) = ?ks" for g'
    using fresh unfolding fresh_connect_def session_contains_def session_record_of_def connected_def
    by (simp add: session_add_def Let_def publish_snapshot_def update_keys map_of_eq_None_iff)
  have same: "connected (g\<lparr>gg_out := o'\<rparr>) = connected g" "connected (g\<lparr>gg_ip_counts := c, gg_out := o'\<rparr>) = connected g" for o' c
    by (simp_all add: connected_def)
  have lt: "length (connected g) < u64_max" using ok fresh by (simp add: connections_ok_def fresh_connect_def)
  let ?ip = "ip_of env k"
  consider "gg_max_connections g > 0 \<and> gg_active_connections g \<ge> gg_max_connections g"
    | "\<not> (gg_max_connections g > 0 \<and> gg_active_connections g \<ge> gg_max_connections g)" "gg_per_ip_limit g = 0"
    | "\<not> (gg_max_connections g > 0 \<and> gg_active_connections g \<ge> gg_max_connections g)" "gg_per_ip_limit g > 0" "count_of (gg_ip_counts g) ?ip \<ge> gg_per_ip_limit g"
    | "\<not> (gg_max_connections g > 0 \<and> gg_active_connections g \<ge> gg_max_connections g)" "gg_per_ip_limit g > 0" "count_of (gg_ip_counts g) ?ip < gg_per_ip_limit g"
    by linarith
  then show ?thesis
  proof cases
    case 1
    then show ?thesis using ok same by (simp add: connections_ok_def attach_session_def try_acquire_connection_slot_def)
  next
    case 2
    then show ?thesis using ok new lt
      by (auto simp: connections_ok_def attach_session_def try_acquire_connection_slot_def per_ip_ok_def)
  next
    case 3
    have "per_ip_ok (ip_of env) (gg_per_ip_limit g) ((gg_ip_counts g)(?ip \<mapsto> count_of (gg_ip_counts g) ?ip)) (connected g)"
      using ok by (simp add: connections_ok_def per_ip_ok_def)
    then show ?thesis using 3 ok same
      by (simp add: connections_ok_def attach_session_def try_acquire_connection_slot_def Let_def ip_of_def[symmetric] count_of_def[symmetric])
  next
    case 4
    have "per_ip_ok (ip_of env) (gg_per_ip_limit g) ((gg_ip_counts g)(?ip \<mapsto> count_of (gg_ip_counts g) ?ip + 1)) ?ks"
      using ok 4 by (intro per_ip_ok_add) (simp_all add: connections_ok_def)
    then show ?thesis using 4 ok new lt
      by (auto simp: connections_ok_def attach_session_def try_acquire_connection_slot_def Let_def ip_of_def[symmetric] count_of_def[symmetric])
  qed
qed

lemma connections_ok_release:
  assumes ok: "connections_ok env g" and s: "sessions_ok (gg_sessions g)"
  shows "connections_ok env (snd (release_session_state env k g))"
proof (cases "session_contains k (gg_sessions g)")
  case True
  let ?ks = "filter (\<lambda>x. x \<noteq> k) (connected g)"
  have k: "k \<in> set (connected g)" using True
    by (force simp: session_contains_def session_record_of_def connected_def dest: map_of_SomeD)
  have d: "distinct (connected g)" using s by (simp add: sessions_ok_def connected_def)
  have conn: "connected (snd (release_session_state env k g)) = ?ks"
    unfolding connected_def release_sessions using True
    by (auto simp: session_remove_def session_contains_def publish_snapshot_def delete_keys removeAll_filter_not_eq intro!: filter_cong)
  have len: "length (connected g) = Suc (length ?ks)" using filter_remove_key[OF d k, of "\<lambda>_. True"] by simp
  define g3 where "g3 = (let g1 = g\<lparr>gg_rooms := room_remove_session (ge_walk env) k (gg_rooms g)\<rparr>;
      g2 = (case room_id_of k (gg_rooms g) of None \<Rightarrow> g1 | Some r \<Rightarrow> clear_battle_if_room_empty r g1)
     in g2\<lparr>gg_sessions := session_remove k (gg_sessions g2)\<rparr>)"
  have acc: "accounts g3 = accounts g" by (simp add: g3_def Let_def split: option.split)
  have rel: "snd (release_session_state env k g) = release_connection_slot (ip_of env k) g3"
    using True by (simp add: release_session_state_def Let_def g3_def ip_of_def)
  have active: "(length (connected g) + u64_max) mod (u64_max + 1) = length ?ks"
  proof -
    have "length ?ks < u64_max" using ok len by (simp add: connections_ok_def)
    then have "(length ?ks + (u64_max + 1)) mod (u64_max + 1) = length ?ks" by (simp only: mod_add_self2) simp
    then show ?thesis unfolding len by (simp add: add.commute add.left_commute)
  qed
  show ?thesis
  proof (cases "gg_per_ip_limit g = 0")
    case True
    then show ?thesis using ok acc active len conn unfolding connections_ok_def rel
      by (auto simp: accounts_def release_connection_slot_def Let_def per_ip_ok_def)
  next
    case False
    then have all: "count_of (gg_ip_counts g) (ip_of env k) = length (filter (\<lambda>x. ip_of env x = ip_of env k) (connected g))"
      using ok by (simp add: connections_ok_def per_ip_ok_def)
    then have "count_of (gg_ip_counts g) (ip_of env k) > 0"
      using filter_remove_key[OF d k, of "\<lambda>x. ip_of env x = ip_of env k"] by simp
    then obtain n where n: "gg_ip_counts g (ip_of env k) = Some n" by (cases "gg_ip_counts g (ip_of env k)") (auto simp: count_of_def)
    have "per_ip_ok (ip_of env) (gg_per_ip_limit g) (if n > 1 then (gg_ip_counts g)(ip_of env k \<mapsto> n - 1) else (gg_ip_counts g)(ip_of env k := None)) ?ks"
      by (rule per_ip_ok_remove) (use ok False d k n in \<open>simp_all add: connections_ok_def\<close>)
    moreover have "gg_active_connections (release_connection_slot (ip_of env k) g3) = length ?ks"
      "gg_max_connections (release_connection_slot (ip_of env k) g3) = gg_max_connections g"
      "gg_per_ip_limit (release_connection_slot (ip_of env k) g3) = gg_per_ip_limit g"
      "gg_ip_counts (release_connection_slot (ip_of env k) g3) = (if n > 1 then (gg_ip_counts g)(ip_of env k \<mapsto> n - 1) else (gg_ip_counts g)(ip_of env k := None))"
      using False n acc active ok by (simp_all add: accounts_def release_connection_slot_def Let_def connections_ok_def)
    moreover have "length ?ks \<le> u64_max" "gg_max_connections g > 0 \<longrightarrow> length ?ks \<le> gg_max_connections g"
      using ok len by (auto simp: connections_ok_def)
    ultimately show ?thesis unfolding connections_ok_def conn by (simp only: rel)
  qed
qed (use ok in \<open>simp add: release_session_state_def\<close>)

lemma gateway_sessions_ok:
  "gateway_reachable env G m p g \<Longrightarrow> sessions_ok (gg_sessions g) \<and> connections_ok env g"
proof (induction rule: gateway_reachable.induct)
  case start
  then show ?case
    using sessions_ok_new
    by (simp add: new_game_gateway_def connections_ok_def connected_def per_ip_ok_def count_of_def) (simp add: new_session_manager_def)
next
  case (step g ev)
  show ?case
  proof (cases ev)
    case (Connect k)
    have "session_record_of k (gg_sessions g) = None" using step Connect by (simp add: fresh_connect_def session_contains_def)
    then show ?thesis using step Connect attach_sessions[of env k g] sessions_ok_add[of "gg_sessions g" k] connections_ok_attach[of env g k]
      by auto
  next
    case (Packet now k m r b)
    then show ?thesis using step connected_step[of env now k m r b g] sessions_ok_dispatch[of g env now k m r b]
        connections_ok_cong[of "snd (dispatch env now k m r b g)" g env] by simp
  next
    case (Close k)
    then show ?thesis using step connections_ok_release[of env g k] sessions_ok_remove[of "gg_sessions g" k] by (simp add: release_sessions)
  qed
qed

lemma reachable_limits: "gateway_reachable env G m p g \<Longrightarrow> gg_max_connections g = m \<and> gg_per_ip_limit g = p"
proof (induction rule: gateway_reachable.induct)
  case (step g ev)
  have "gg_max_connections (gateway_step env ev g) = gg_max_connections g \<and> gg_per_ip_limit (gateway_step env ev g) = gg_per_ip_limit g"
  proof (cases ev)
    case (Connect k)
    then show ?thesis by (auto simp: attach_session_def try_acquire_connection_slot_def Let_def)
  next
    case (Packet now k m r b)
    then show ?thesis using connected_step[of env now k m r b g] by (simp add: accounts_def)
  next
    case (Close k)
    then show ?thesis by (auto simp: release_session_state_def release_connection_slot_def clear_battle_if_room_empty_def Let_def split: option.split)
  qed
  then show ?case using step.IH by simp
qed (simp add: new_game_gateway_def)

text \<open>C21: One session per user.  In every reachable state of the gateway two sessions authenticated for the
  same user are the same session, the user index finds it, and a broadcast, which reads the
  published copy without the lock, sees exactly the session table.\<close>

theorem one_session_per_user:
  assumes "gateway_reachable env G max_total per_ip g"
    and "user_id_of k1 (gg_sessions g) = Some u" and "user_id_of k2 (gg_sessions g) = Some u"
  shows "k1 = k2 \<and> sm_user_index (gg_sessions g) u = Some k1 \<and> sm_snapshot (gg_sessions g) = sm_sessions (gg_sessions g)"
proof -
  have ok: "sessions_ok (gg_sessions g)" using gateway_sessions_ok[OF assms(1)] by simp
  have "user_id_of k s = bound_user (session_record_of k s)" for k s
    by (simp add: user_id_of_def bound_user_def)
  then have "sm_user_index (gg_sessions g) u = Some k1" "sm_user_index (gg_sessions g) u = Some k2"
    using assms(2,3) index_bound[OF ok] by simp_all
  then show ?thesis using ok by (simp add: sessions_ok_def)
qed

text \<open>Connection limits.  In every reachable state the number of sessions is the connection counter, and
  neither the total limit nor the limit per address is exceeded.\<close>

theorem connections_within_limits:
  assumes "gateway_reachable env G max_total per_ip g"
  shows "gg_active_connections g = length (connected g) \<and> (max_total = 0 \<or> length (connected g) \<le> max_total) \<and>
    (per_ip = 0 \<or> length (filter (\<lambda>k. ip_of env k = ip) (connected g)) \<le> per_ip)"
  using gateway_sessions_ok[OF assms] reachable_limits[OF assms] by (auto simp: connections_ok_def per_ip_ok_def)

definition example_login :: game_gateway where
  "example_login = gateway_step example_game_env (Packet 5 (Some 1) 2001 7 ''ann|dev'')
     (gateway_step example_game_env (Connect (Some 1)) (new_game_gateway 10 2))"

lemma example_login_reachable: "gateway_reachable example_game_env (\<lambda>_ _. True) 10 2 example_login"
  unfolding example_login_def
  by (intro gateway_reachable.intros)
    (simp_all add: fresh_connect_def session_contains_def session_record_of_def new_game_gateway_def new_session_manager_def u64_max_def)

lemma example_login_value: "user_id_of (Some 1) (gg_sessions example_login) = Some ''ann''"
  by (simp add: example_login_def example_game_env_def attach_session_def try_acquire_connection_slot_def new_game_gateway_def
      new_session_manager_def session_add_def publish_snapshot_def Let_def dispatch_def handler_of_def kLoginRequest_def
      kHeartbeatRequest_def should_allow_message_def check_rate_limit_def kRateLimitWindow_def kMaxMessagesPerWindow_def handle_login_def
      parse_login_request_def split_bar_def dev_validate_def authenticate_def session_record_of_def drop_user_index_def
      empty_login_context_def kick_replaced_def room_snapshot_of_def new_room_manager_def user_id_of_def)

theorem one_session_per_user_witness:
  "sm_user_index (gg_sessions example_login) ''ann'' = Some (Some 1)"
  using one_session_per_user[OF example_login_reachable example_login_value example_login_value] by simp

theorem connections_within_limits_witness: "length (connected example_login) \<le> 10"
  using connections_within_limits[OF example_login_reachable, of "[]"] by simp

end
