(* ===== verification/Game_Play.thy ===== *)
theory Game_Play
  imports Game_Gateway
begin

text \<open>
  Rooms, sessions and battles of the version 1 gateway together. The theory shows that in
  every state the gateway can reach, from any order of connects, disconnects and
  packets, a seat in a room belongs to a connected session whose user is logged in, that a
  second login takes over the seat of the session it replaces, exactly when a battle request
  starts a battle, and how a battle outlives the room it was started in.
\<close>

subsection \<open>Seats belong to logged-in users\<close>

definition members_all :: "(session_ptr \<Rightarrow> game_member \<Rightarrow> bool) \<Rightarrow> room_manager \<Rightarrow> bool" where
  "members_all P s \<longleftrightarrow> (\<forall>r room k m. rm_rooms s r = Some room \<longrightarrow> (k, m) \<in> set (gr_members room) \<longrightarrow> P k m)"

lemma members_allD: "members_all P s \<Longrightarrow> rm_rooms s r = Some room \<Longrightarrow> (k, m) \<in> set (gr_members room) \<Longrightarrow> P k m"
  by (auto simp: members_all_def)

lemma members_allI: "(\<And>r room k m. rm_rooms s r = Some room \<Longrightarrow> (k, m) \<in> set (gr_members room) \<Longrightarrow> P k m) \<Longrightarrow> members_all P s"
  by (auto simp: members_all_def)

lemma set_update_cases: "distinct (map fst xs) \<Longrightarrow> (k', m') \<in> set (AList.update k m xs) \<Longrightarrow> k' = k \<and> m' = m \<or> k' \<noteq> k \<and> (k', m') \<in> set xs"
  by (induction xs) (auto split: if_splits simp: image_iff)

lemma members_distinct: "rooms_ok s \<Longrightarrow> rm_rooms s r = Some room \<Longrightarrow> distinct (map fst (gr_members room))"
  by (drule (1) rooms_okD(1)) (simp add: room_ok_def)

lemma seat_room: "rm_rooms s r = Some room \<Longrightarrow> (k, m) \<in> set (gr_members room) \<Longrightarrow> k \<in> seats s r"
  by (force simp: seats_def)

lemma members_all_mono:
  assumes "members_all P s" and "\<And>r k m. k \<in> seats s r \<Longrightarrow> P k m \<Longrightarrow> Q k m"
  shows "members_all Q s"
  by (rule members_allI) (meson assms members_allD seat_room)

text \<open>A room that is written, and the rooms that stay.\<close>

lemma members_all_write:
  assumes "members_all P s" and "rm_rooms s' = (rm_rooms s)(r \<mapsto> room)" and "\<And>k m. (k, m) \<in> set (gr_members room) \<Longrightarrow> P k m"
  shows "members_all P s'"
  by (rule members_allI) (use assms in \<open>auto split: if_splits dest: members_allD\<close>)

lemma members_all_remove: "members_all P s \<Longrightarrow> members_all P (remove_from_room ord k s)"
  by (rule members_allI) (auto simp: remove_from_room_def Let_def AList.delete_eq dest: members_allD split: option.splits if_splits)

lemma members_all_create:
  assumes "members_all P s" and "P k (fresh_member k)"
  shows "members_all P (snd (create_room ord k r s))"
proof -
  have "members_all P \<lparr>rm_rooms = (rm_rooms (remove_from_room ord k s))(r \<mapsto> \<lparr>gr_owner = k, gr_members = [(k, fresh_member k)]\<rparr>), rm_session_rooms = i\<rparr>" for i
    by (rule members_all_write[OF members_all_remove[OF assms(1)], where r = r]) (use assms in auto)
  then show ?thesis using assms by (simp add: create_room_def Let_def)
qed

lemma members_all_join:
  assumes ok: "members_all P s" and k: "P k (fresh_member k)"
  shows "members_all P (snd (join_room ord ib k r s))"
proof -
  let ?s1 = "remove_from_room ord k s"
  let ?room = "case rm_rooms ?s1 r of None \<Rightarrow> \<lparr>gr_owner = None, gr_members = []\<rparr> | Some x \<Rightarrow> x"
  have "P k' m'" if "(k', m') \<in> set (AList.update k (fresh_member k) (gr_members ?room))" for k' m'
  proof -
    have "set (AList.update k (fresh_member k) xs) \<subseteq> insert (k, fresh_member k) (set xs)" for xs by (induction xs) auto
    then have "k' = k \<and> m' = fresh_member k \<or> (k', m') \<in> set (gr_members ?room)" using that by blast
    then show ?thesis using k members_allD[OF members_all_remove[OF ok]] by (cases "rm_rooms ?s1 r") auto
  qed
  then have "members_all P \<lparr>rm_rooms = (rm_rooms ?s1)(r \<mapsto> ?room\<lparr>gr_members := AList.update k (fresh_member k) (gr_members ?room)\<rparr>), rm_session_rooms = i\<rparr>" for i
    by (intro members_all_write[OF members_all_remove[OF ok], where r = r]) auto
  then show ?thesis using ok by (auto simp: join_room_def Let_def split: option.split)
qed

lemma members_all_leave: "members_all P s \<Longrightarrow> members_all P (snd (leave_room ord k s))"
  by (simp add: leave_room_def Let_def members_all_remove split: option.split)

text \<open>A member that is rewritten.\<close>

lemma members_all_rewrite:
  assumes ok: "rooms_ok s" and P: "members_all (\<lambda>k' m. k' \<noteq> k \<longrightarrow> P k' m) s" and room: "rm_rooms s r = Some room" and k: "k \<in> fst ` set (gr_members room)"
    and m: "P k m" and s': "rm_rooms s' = (rm_rooms s)(r \<mapsto> room\<lparr>gr_members := AList.update k m (gr_members room)\<rparr>)"
  shows "members_all P s'"
proof (rule members_allI)
  fix r' room' k' m' assume r': "rm_rooms s' r' = Some room'" "(k', m') \<in> set (gr_members room')"
  show "P k' m'"
  proof (cases "r' = r")
    case True
    then have "(k', m') \<in> set (AList.update k m (gr_members room))" using r' s' by auto
    then show ?thesis using set_update_cases[OF members_distinct[OF ok room]] m members_allD[OF P room] by blast
  next
    case False
    then have room': "rm_rooms s r' = Some room'" using r' s' by simp
    have "rm_session_rooms s k = Some r" using rooms_okD(2)[OF ok] room k by (simp add: seats_def)
    then have "k' \<noteq> k" using rooms_okD(2)[OF ok, of k r'] seat_room[OF room' r'(2)] False by auto
    then show ?thesis using members_allD[OF P room' r'(2)] by blast
  qed
qed

lemma seated_member:
  "rooms_ok s \<Longrightarrow> rm_session_rooms s k = Some r \<Longrightarrow>
    \<exists>room m. rm_rooms s r = Some room \<and> map_of (gr_members room) k = Some m \<and> (k, m) \<in> set (gr_members room) \<and> k \<in> fst ` set (gr_members room) \<and> k \<noteq> None"
  using seated_room[of s k r] rooms_okD(2)[of s k r] seat_not_None[of s k r] by (metis fst_conv image_eqI map_of_SomeD)

lemma unseated: "rooms_ok s \<Longrightarrow> rm_session_rooms s k = None \<Longrightarrow> k \<notin> seats s r"
  using rooms_okD(2)[of s k r] by auto

lemma members_all_ready:
  assumes ok: "rooms_ok s" and P: "members_all P s" and keep: "\<And>m b. P k m \<Longrightarrow> P k (m\<lparr>gm_ready := b\<rparr>)"
  shows "members_all P (snd (set_ready ib k b s))"
proof (cases "rm_session_rooms s k")
  case (Some r)
  with seated_member[OF ok] obtain room m where rm: "rm_rooms s r = Some room" "map_of (gr_members room) k = Some m"
    "(k, m) \<in> set (gr_members room)" "k \<in> fst ` set (gr_members room)" by blast
  have "members_all P (s\<lparr>rm_rooms := (rm_rooms s)(r \<mapsto> room\<lparr>gr_members := AList.update k (m\<lparr>gm_ready := b\<rparr>) (gr_members room)\<rparr>)\<rparr>)"
  proof (rule members_all_rewrite[OF ok _ rm(1,4)])
    show "members_all (\<lambda>k' m. k' \<noteq> k \<longrightarrow> P k' m) s" by (rule members_all_mono[OF P]) simp
    show "P k (m\<lparr>gm_ready := b\<rparr>)" by (rule keep[OF members_allD[OF P rm(1,3)]])
  qed simp
  then show ?thesis using P Some rm by (simp add: set_ready_def Let_def)
qed (use P in \<open>simp add: set_ready_def\<close>)

text \<open>Writing the user of a member completes a predicate that held for everybody else.\<close>

lemma members_all_tag:
  assumes ok: "rooms_ok s" and P: "members_all (\<lambda>k' m. k' \<noteq> k \<longrightarrow> P k' m) s" and new: "\<And>m. P k (m\<lparr>gm_user_id := u\<rparr>)"
  shows "members_all P (set_member_user_id k u s)"
proof (cases "rm_session_rooms s k")
  case None
  have "members_all P s" by (rule members_all_mono[OF P]) (use unseated[OF ok None] in auto)
  then show ?thesis using None by (simp add: set_member_user_id_def)
next
  case (Some r)
  with seated_member[OF ok] obtain room m where rm: "rm_rooms s r = Some room" "map_of (gr_members room) k = Some m"
    "k \<in> fst ` set (gr_members room)" "k \<noteq> None" by blast
  have "members_all P (s\<lparr>rm_rooms := (rm_rooms s)(r \<mapsto> room\<lparr>gr_members := AList.update k (m\<lparr>gm_user_id := u\<rparr>) (gr_members room)\<rparr>)\<rparr>)"
    by (rule members_all_rewrite[OF ok P rm(1,3) new]) simp
  then show ?thesis using Some rm by (auto simp: set_member_user_id_def)
qed

lemma members_all_transfer:
  assumes ok: "rooms_ok s" and P: "members_all (\<lambda>k m. k \<noteq> a \<longrightarrow> P k m) s" and free: "rm_session_rooms s b = None"
    and moved: "\<And>r room m. rm_rooms s r = Some room \<Longrightarrow> (a, m) \<in> set (gr_members room) \<Longrightarrow> P b (m\<lparr>gm_session := b\<rparr>)"
  shows "members_all P (snd (transfer_session a b s))"
proof (cases "rm_session_rooms s a")
  case None
  have "members_all P s" by (rule members_all_mono[OF P]) (use unseated[OF ok None] in auto)
  then show ?thesis using None by (simp add: transfer_session_def)
next
  case (Some r)
  with seated_member[OF ok] obtain room m where rm: "rm_rooms s r = Some room" "map_of (gr_members room) a = Some m"
    "(a, m) \<in> set (gr_members room)" by blast
  let ?ms = "AList.update b (m\<lparr>gm_session := b\<rparr>) (AList.delete a (gr_members room))"
  have "distinct (map fst (AList.delete a (gr_members room)))" using members_distinct[OF ok rm(1)] by (rule distinct_delete)
  then have ms: "P k' m'" if "(k', m') \<in> set ?ms" for k' m'
    using set_update_cases[OF _ that] moved[OF rm(1,3)] members_allD[OF P rm(1)] by (auto simp: AList.delete_eq)
  have other: "P k' m'" if "rm_rooms s r' = Some room'" "(k', m') \<in> set (gr_members room')" "r' \<noteq> r" for r' room' k' m'
    using rooms_okD(2)[OF ok, of a r'] seat_room[OF that(1,2)] Some that members_allD[OF P that(1,2)] by auto
  show ?thesis by (rule members_allI) (use ms other Some rm in \<open>auto simp: transfer_session_def Let_def split: if_splits\<close>)
qed

text \<open>A member is recorded under the user its session is logged in for.\<close>

definition seat_user :: "game_gateway \<Rightarrow> session_ptr \<Rightarrow> game_member \<Rightarrow> bool" where
  "seat_user g k m = (user_id_of k (gg_sessions g) = Some (gm_user_id m))"

definition play_ok :: "game_gateway \<Rightarrow> bool" where
  "play_ok g \<longleftrightarrow> rooms_ok (gg_rooms g) \<and> members_all (seat_user g) (gg_rooms g)"

text \<open>The two kinds of request that break the seats: a login of a session that has a seat, and
  joining the room one is alone in.\<close>

definition tame :: "gateway_event \<Rightarrow> game_gateway \<Rightarrow> bool" where
  "tame ev g = (case ev of
     Packet now k m r b \<Rightarrow> k \<noteq> None \<and> (m = kLoginRequest \<longrightarrow> rm_session_rooms (gg_rooms g) k = None) \<and>
       (m = kRoomJoinRequest \<longrightarrow> seats (gg_rooms g) b \<noteq> {k})
   | _ \<Rightarrow> True)"

lemma user_bound: "user_id_of k s = bound_user (session_record_of k s)"
  by (simp add: user_id_of_def bound_user_def)

lemma user_login_context: "user_id_of k s = map_option lc_user_id (login_context_of k s)"
  by (simp add: user_id_of_def login_context_of_def split: option.split)

lemma play_ok_cong: "play_ok g \<Longrightarrow> gg_sessions g' = gg_sessions g \<Longrightarrow> gg_rooms g' = gg_rooms g \<Longrightarrow> play_ok g'"
  by (simp add: play_ok_def seat_user_def[abs_def])

lemma play_ok_rooms:
  assumes "play_ok g" and "gg_sessions g' = gg_sessions g" and "rooms_ok (gg_rooms g')"
    and "members_all (seat_user g) (gg_rooms g')"
  shows "play_ok g'"
  using assms by (simp add: play_ok_def seat_user_def[abs_def])

lemma seated_user: "play_ok g \<Longrightarrow> k \<in> seats (gg_rooms g) r \<Longrightarrow> user_id_of k (gg_sessions g) \<noteq> None"
proof -
  assume ok: "play_ok g" and k: "k \<in> seats (gg_rooms g) r"
  obtain room m where "rm_rooms (gg_rooms g) r = Some room" "(k, m) \<in> set (gr_members room)"
    using k by (cases "rm_rooms (gg_rooms g) r") (auto simp: seats_def)
  then show ?thesis using ok members_allD[of "seat_user g"] by (auto simp: play_ok_def seat_user_def)
qed

lemma tag_play_ok:
  assumes rooms: "rooms_ok (gg_rooms g)" and others: "members_all (\<lambda>k' m. k' \<noteq> k \<longrightarrow> seat_user g k' m) (gg_rooms g)"
    and auth: "is_authenticated k (gg_sessions g)"
  shows "play_ok (tag_room_member_user_id k g)"
proof -
  obtain c where c: "login_context_of k (gg_sessions g) = Some c"
    using auth by (auto simp: is_authenticated_def login_context_of_def split: option.splits)
  then have u: "user_id_of k (gg_sessions g) = Some (lc_user_id c)" by (simp add: user_login_context)
  have "members_all (seat_user g) (set_member_user_id k (lc_user_id c) (gg_rooms g))"
    by (rule members_all_tag[OF rooms others]) (simp add: seat_user_def u)
  then show ?thesis using c set_member_user_id_ok[OF rooms] by (simp add: play_ok_def tag_room_member_user_id_def seat_user_def[abs_def])
qed

lemma play_ok_others: "play_ok g \<Longrightarrow> members_all (\<lambda>k' m. k' \<noteq> k \<longrightarrow> seat_user g k' m) (gg_rooms g)"
  unfolding play_ok_def by (erule conjE, erule members_all_mono) simp

context member_walk
begin

lemma create_play_ok:
  assumes ok: "play_ok g" and env: "ge_walk env = ord"
  shows "play_ok (handle_room_create env k r b g)"
proof (cases "is_authenticated k (gg_sessions g)")
  case True
  obtain res room n rooms where c: "create_room ord k b (gg_rooms g) = ((res, room, n), rooms)" by (metis prod.exhaust)
  have rooms: "rooms_ok rooms" using create_ok[of "gg_rooms g" k b] ok c by (simp add: play_ok_def)
  have "members_all (\<lambda>k' m. k' \<noteq> k \<longrightarrow> seat_user g k' m) rooms"
    using members_all_create[OF play_ok_others[OF ok], of k k ord b] c by simp
  then have "play_ok (tag_room_member_user_id k (g\<lparr>gg_rooms := rooms\<rparr>))"
    using rooms True by (intro tag_play_ok) (simp_all add: seat_user_def[abs_def])
  moreover have "res \<noteq> CreateOk \<Longrightarrow> rooms = gg_rooms g" using c by (auto simp: create_room_def Let_def split: if_splits)
  ultimately show ?thesis using True c ok env
    by (cases res) (auto simp: handle_room_create_def Let_def intro: play_ok_cong)
qed (use ok in \<open>auto simp: handle_room_create_def intro: play_ok_cong\<close>)

lemma join_play_ok:
  assumes ok: "play_ok g" and env: "ge_walk env = ord" and other: "seats (gg_rooms g) b \<noteq> {k}"
  shows "play_ok (handle_room_join env k r b g)"
proof (cases "is_authenticated k (gg_sessions g)")
  case True
  obtain res room n rooms where c: "join_room ord (room_in_battle g) k b (gg_rooms g) = ((res, room, n), rooms)" by (metis prod.exhaust)
  have rooms: "rooms_ok rooms" using join_ok[of "gg_rooms g" b k "room_in_battle g"] ok other c by (simp add: play_ok_def)
  have "members_all (\<lambda>k' m. k' \<noteq> k \<longrightarrow> seat_user g k' m) rooms"
    using members_all_join[OF play_ok_others[OF ok], of k k ord "room_in_battle g" b] c by simp
  then have "play_ok (tag_room_member_user_id k (g\<lparr>gg_rooms := rooms\<rparr>))"
    using rooms True by (intro tag_play_ok) (simp_all add: seat_user_def[abs_def])
  moreover have "res \<noteq> JoinOk \<Longrightarrow> rooms = gg_rooms g" using c by (auto simp: join_room_def Let_def split: if_splits option.splits)
  ultimately show ?thesis using True c ok env
    by (cases res) (auto simp: handle_room_join_def Let_def intro: play_ok_cong)
qed (use ok in \<open>auto simp: handle_room_join_def intro: play_ok_cong\<close>)

lemma leave_play_ok:
  assumes ok: "play_ok g" and env: "ge_walk env = ord"
  shows "play_ok (handle_room_leave env k r g)"
proof (rule play_ok_rooms[OF ok])
  have eq: "gg_rooms (handle_room_leave env k r g) = snd (leave_room ord k (gg_rooms g))"
    by (auto simp: handle_room_leave_def env Let_def split: result_splits)
  show "rooms_ok (gg_rooms (handle_room_leave env k r g))" unfolding eq using ok by (simp add: play_ok_def leave_ok)
  show "members_all (seat_user g) (gg_rooms (handle_room_leave env k r g))" unfolding eq using ok by (simp add: play_ok_def members_all_leave)
qed simp

lemma ready_play_ok:
  assumes ok: "play_ok g"
  shows "play_ok (handle_room_ready env k r b g)"
proof (rule play_ok_rooms[OF ok])
  have eq: "gg_rooms (handle_room_ready env k r b g) = snd (set_ready (room_in_battle g) k (parse_ready b) (gg_rooms g))"
    by (auto simp: handle_room_ready_def Let_def split: result_splits)
  show "rooms_ok (gg_rooms (handle_room_ready env k r b g))" unfolding eq using ok by (simp add: play_ok_def set_ready_ok)
  show "members_all (seat_user g) (gg_rooms (handle_room_ready env k r b g))" unfolding eq
    using ok by (intro members_all_ready) (simp_all add: play_ok_def seat_user_def)
qed simp

lemma release_play_ok:
  assumes ok: "play_ok g" and env: "ge_walk env = ord"
  shows "play_ok (snd (release_session_state env k g))"
proof (cases "session_contains k (gg_sessions g)")
  case True
  have rooms: "gg_rooms (snd (release_session_state env k g)) = remove_from_room ord k (gg_rooms g)"
    using True by (auto simp: release_session_state_def Let_def release_connection_slot_def room_remove_session_def env split: option.split)
  have r: "rooms_ok (gg_rooms g)" using ok by (simp add: play_ok_def)
  have "user_id_of k' (session_remove k (gg_sessions g)) = user_id_of k' (gg_sessions g)" if "k' \<noteq> k" for k'
    using that by (cases "session_record_of k (gg_sessions g)")
      (simp_all add: user_id_of_def session_remove_def session_record_of_def publish_snapshot_def)
  moreover have "k \<notin> seats (remove_from_room ord k (gg_rooms g)) r'" for r' by (simp add: remove_seats[OF r])
  moreover have "members_all (seat_user g) (remove_from_room ord k (gg_rooms g))" using ok by (simp add: play_ok_def members_all_remove)
  ultimately have "members_all (seat_user (snd (release_session_state env k g))) (remove_from_room ord k (gg_rooms g))"
    by (elim members_all_mono) (metis release_sessions seat_user_def)
  then show ?thesis using remove_ok[OF r] by (simp add: play_ok_def rooms)
qed (use ok in \<open>simp add: release_session_state_def\<close>)

end

text \<open>The users after a login.\<close>

lemma authenticate_users:
  assumes ok: "sessions_ok s" and auth: "authenticate k c s = (rep, s')"
  shows "(s' = s \<and> rep = None) \<or>
    (user_id_of k s' = Some (lc_user_id c) \<and> rep \<noteq> k \<and>
      (\<forall>k'. k' \<noteq> k \<and> k' \<noteq> rep \<and> k' \<noteq> None \<longrightarrow> user_id_of k' s' = user_id_of k' s) \<and>
      (rep \<noteq> None \<longrightarrow> user_id_of rep s = Some (lc_user_id c) \<and> user_id_of rep s' = None)) \<or>
    (user_id_of k s' = Some (lc_user_id c) \<and> rep = None \<and> (\<forall>k'. k' \<noteq> k \<and> k' \<noteq> None \<longrightarrow> user_id_of k' s' = user_id_of k' s))"
proof (cases "\<exists>rec. session_record_of k s = Some rec \<and> lc_user_id c \<noteq> []")
  case True
  then obtain rec where rec: "session_record_of k s = Some rec" and u: "lc_user_id c \<noteq> []" by blast
  note ac = authenticate_cases[OF ok rec u]
  show ?thesis
  proof (cases "\<exists>o'. sm_user_index s (lc_user_id c) = Some o' \<and> o' \<noteq> k")
    case True
    then obtain o' where o': "sm_user_index s (lc_user_id c) = Some o'" "o' \<noteq> k" by blast
    then have b: "bound_user (session_record_of o' s) = Some (lc_user_id c)" using index_bound[OF ok] by simp
    have rep: "rep = o'" "s' = publish_snapshot (s\<lparr>sm_user_index := (drop_user_index k rec (sm_user_index s))(lc_user_id c \<mapsto> k),
             sm_sessions := AList.update k (rec\<lparr>sr_authenticated := True, sr_login_context := c\<rparr>)
               (AList.update o' ((the (session_record_of o' s))\<lparr>sr_authenticated := False, sr_login_context := empty_login_context\<rparr>) (sm_sessions s))\<rparr>)"
      using auth o' ac by (auto simp: Let_def)
    then show ?thesis using o'(2) b by (simp add: user_bound session_record_of_def publish_snapshot_def)
  next
    case False
    then have "rep = None" "s' = publish_snapshot (s\<lparr>sm_user_index := (drop_user_index k rec (sm_user_index s))(lc_user_id c \<mapsto> k),
             sm_sessions := AList.update k (rec\<lparr>sr_authenticated := True, sr_login_context := c\<rparr>) (sm_sessions s)\<rparr>)"
      using auth ac by (auto simp: Let_def split: option.splits if_splits)
    then show ?thesis by (simp add: user_bound session_record_of_def publish_snapshot_def)
  qed
qed (use auth in \<open>auto simp: authenticate_def split: option.splits\<close>)

text \<open>A login without effect, or what it does to sessions and rooms.\<close>

lemma takeover_effect:
  "(gg_sessions (handle_login env k r b g) = gg_sessions g \<and> gg_rooms (handle_login env k r b g) = gg_rooms g) \<or>
   (\<exists>c rep s'. authenticate k c (gg_sessions g) = (rep, s') \<and> gg_sessions (handle_login env k r b g) = s' \<and>
     gg_rooms (handle_login env k r b g) = (if rep = None \<or> rep = k then gg_rooms g else snd (transfer_session rep k (gg_rooms g))))"
proof (cases "parse_login_request b")
  case (Some p)
  obtain u t d where p: "p = (u, t, d)" by (metis prod.exhaust)
  let ?v = "ge_validate env u t d"
  let ?c = "\<lparr>lc_user_id = tv_user_id ?v, lc_display_name = tv_display_name ?v\<rparr>"
  show ?thesis
  proof (cases "u = [] \<or> \<not> tv_ok ?v")
    case False
    obtain rep s' where a: "authenticate k ?c (gg_sessions g) = (rep, s')" by fastforce
    have "gg_sessions (handle_login env k r b g) = s'"
      "gg_rooms (handle_login env k r b g) = (if rep = None \<or> rep = k then gg_rooms g else snd (transfer_session rep k (gg_rooms g)))"
      using Some p a False by (auto simp: handle_login_def Let_def kick_replaced_def split: option.split prod.split)
    then show ?thesis using a by blast
  qed (use Some p in \<open>auto simp: handle_login_def Let_def\<close>)
qed (simp add: handle_login_def)

lemma login_play_ok:
  assumes ok: "play_ok g" and s: "sessions_ok (gg_sessions g)" and k: "k \<noteq> None" "rm_session_rooms (gg_rooms g) k = None"
  shows "play_ok (handle_login env k r b g)"
  using takeover_effect[of env k r b g]
proof (elim disjE exE conjE)
  fix c rep s'
  assume a: "authenticate k c (gg_sessions g) = (rep, s')" and s': "gg_sessions (handle_login env k r b g) = s'"
    and rooms: "gg_rooms (handle_login env k r b g) = (if rep = None \<or> rep = k then gg_rooms g else snd (transfer_session rep k (gg_rooms g)))"
  have r: "rooms_ok (gg_rooms g)" using ok by (simp add: play_ok_def)
  have free: "k \<notin> seats (gg_rooms g) r'" for r' by (rule unseated[OF r k(2)])
  have nn: "k' \<in> seats (gg_rooms g) r' \<Longrightarrow> k' \<noteq> None" for k' r' by (rule seat_not_None[OF r])
  note users = authenticate_users[OF s a]
  have kept: "seat_user (handle_login env k r b g) k' m" if "k' \<in> seats (gg_rooms g) r'" "seat_user g k' m" "k' \<noteq> rep" for k' m r'
    using users that free nn[of k' r'] unfolding seat_user_def s' by metis
  show ?thesis
  proof (cases "rep = None \<or> rep = k")
    case True
    have "members_all (seat_user (handle_login env k r b g)) (gg_rooms g)"
    proof (rule members_all_mono[of "seat_user g"])
      show "seat_user (handle_login env k r b g) k' m" if "k' \<in> seats (gg_rooms g) r'" "seat_user g k' m" for r' k' m
        by (rule kept[OF that]) (use True that(1) nn[of k' r'] free[of r'] in auto)
    qed (use ok in \<open>simp add: play_ok_def\<close>)
    then show ?thesis using r rooms True by (simp add: play_ok_def)
  next
    case False
    then have new: "user_id_of k s' = Some (lc_user_id c)" "user_id_of rep (gg_sessions g) = Some (lc_user_id c)" using users by auto
    have "members_all (seat_user (handle_login env k r b g)) (snd (transfer_session rep k (gg_rooms g)))"
    proof (rule members_all_transfer[OF r _ k(2)])
      show "members_all (\<lambda>k' m. k' \<noteq> rep \<longrightarrow> seat_user (handle_login env k r b g) k' m) (gg_rooms g)"
        by (rule members_all_mono[of "seat_user g"]) (use ok kept in \<open>auto simp: play_ok_def\<close>)
      show "seat_user (handle_login env k r b g) k (m\<lparr>gm_session := k\<rparr>)"
        if "rm_rooms (gg_rooms g) r' = Some room" "(rep, m) \<in> set (gr_members room)" for r' room m
        using ok new members_allD[of "seat_user g" "gg_rooms g" r' room rep m] that unfolding play_ok_def seat_user_def s' by simp
    qed
    then show ?thesis using transfer_ok[OF r k(2,1), of rep] rooms False by (simp add: play_ok_def)
  qed
qed (use ok in \<open>auto intro: play_ok_cong\<close>)

lemma attach_play_ok:
  assumes ok: "play_ok g" and fresh: "fresh_connect (Connect k) g"
  shows "play_ok (snd (attach_session env k g))"
proof -
  have rooms: "gg_rooms (snd (attach_session env k g)) = gg_rooms g"
    by (auto simp: attach_session_def try_acquire_connection_slot_def Let_def)
  have "user_id_of k' (gg_sessions (snd (attach_session env k g))) = user_id_of k' (gg_sessions g)" if "user_id_of k' (gg_sessions g) \<noteq> None" for k'
  proof -
    have "k' \<noteq> k" using that fresh by (auto simp: fresh_connect_def session_contains_def user_id_of_def)
    then show ?thesis using attach_sessions[of env k g]
      by (auto simp: user_id_of_def session_record_of_def session_add_def publish_snapshot_def Let_def)
  qed
  then have "members_all (seat_user (snd (attach_session env k g))) (gg_rooms g)"
    using ok unfolding play_ok_def by (elim conjE members_all_mono) (simp add: seat_user_def)
  then show ?thesis using ok rooms by (simp add: play_ok_def)
qed

lemma play_invariant:
  assumes "gateway_reachable env tame m p g" and walk: "member_walk (ge_walk env)"
  shows "play_ok g"
  using assms(1)
proof (induction rule: gateway_reachable.induct)
  case start
  show ?case using rooms_ok_new by (simp add: play_ok_def new_game_gateway_def members_all_def) (simp add: new_room_manager_def)
next
  case (step g ev)
  have s: "sessions_ok (gg_sessions g)" using gateway_sessions_ok[OF step.hyps(1)] by simp
  show ?case
  proof (cases ev)
    case (Connect k)
    then show ?thesis using step attach_play_ok[of g k env] by simp
  next
    case (Close k)
    then show ?thesis using member_walk.release_play_ok[OF walk step.IH refl, of k] by simp
  next
    case (Packet now k m r b)
    have t: "k \<noteq> None" "m = kLoginRequest \<Longrightarrow> rm_session_rooms (gg_rooms g) k = None" "m = kRoomJoinRequest \<Longrightarrow> seats (gg_rooms g) b \<noteq> {k}"
      using step.hyps(3) Packet by (simp_all add: tame_def)
    have "play_ok (h k r b g1)" if h: "handler_of env m = Some h" and g1: "gg_sessions g1 = gg_sessions g" "gg_rooms g1 = gg_rooms g" for h g1
    proof -
      have ok: "play_ok g1" by (rule play_ok_cong[OF step.IH g1])
      have "play_ok (handle_heartbeat k r g1)" "play_ok (handle_battle_start env k r g1)" "play_ok (handle_battle_input env k r b g1)"
        by (rule play_ok_cong[OF ok]; auto simp: handler_defs Let_def split: result_splits)+
      moreover note member_walk.create_play_ok[OF walk ok refl, of k r b] member_walk.leave_play_ok[OF walk ok refl, of k r]
        member_walk.ready_play_ok[OF walk ok, of env k r b]
      moreover have "m = kLoginRequest \<Longrightarrow> play_ok (handle_login env k r b g1)" using login_play_ok[OF ok, of k env r b] s t g1 by simp
      moreover have "m = kRoomJoinRequest \<Longrightarrow> play_ok (handle_room_join env k r b g1)"
        using member_walk.join_play_ok[OF walk ok refl, of b k r] t g1 by simp
      ultimately show ?thesis using h by (auto simp: handler_of_def split: if_splits)
    qed
    then show ?thesis using dispatch_cases[of env now k m r b g] Packet play_ok_cong[OF step.IH] by auto
  qed
qed

text \<open>C20: Seats belong to logged-in users.  As long as nobody logs in again on a session that has a seat and
  nobody joins the room he is alone in, every reachable state has consistent rooms: an owner among
  the members, every session in the one room the session table names, and every seat held by a
  session that is logged in for the user the seat is recorded under.\<close>

theorem seats_belong_to_users:
  assumes "gateway_reachable env tame max_total per_ip g" and "member_walk (ge_walk env)"
    and "rm_rooms (gg_rooms g) r = Some room"
  shows "gr_owner room \<in> fst ` set (gr_members room) \<and> distinct (map fst (gr_members room)) \<and>
    list_all (\<lambda>(k, m). gm_session m = k \<and> rm_session_rooms (gg_rooms g) k = Some r \<and>
      user_id_of k (gg_sessions g) = Some (gm_user_id m)) (gr_members room)"
proof -
  have ok: "play_ok g" by (rule play_invariant[OF assms(1,2)])
  then have r: "rooms_ok (gg_rooms g)" by (simp add: play_ok_def)
  have "rm_session_rooms (gg_rooms g) k = Some r" if "(k, m) \<in> set (gr_members room)" for k m
    using rooms_okD(2)[OF r] seat_room[OF assms(3) that] by blast
  moreover have "user_id_of k (gg_sessions g) = Some (gm_user_id m)" if "(k, m) \<in> set (gr_members room)" for k m
    using ok members_allD[OF _ assms(3) that, of "seat_user g"] by (simp add: play_ok_def seat_user_def)
  ultimately show ?thesis using rooms_okD(1)[OF r assms(3)] by (auto simp: room_ok_def list_all_iff)
qed

definition example_seated :: game_gateway where
  "example_seated = gateway_step example_game_env (Packet 6 (Some 1) 3001 8 ''r'') example_login"

lemmas game_eval = attach_session_def try_acquire_connection_slot_def new_game_gateway_def new_session_manager_def session_add_def
  publish_snapshot_def dispatch_def handler_of_def kLoginRequest_def kHeartbeatRequest_def kRoomCreateRequest_def should_allow_message_def
  check_rate_limit_def kRateLimitWindow_def kMaxMessagesPerWindow_def handle_login_def parse_login_request_def split_bar_def
  dev_validate_def authenticate_def session_record_of_def drop_user_index_def empty_login_context_def kick_replaced_def
  room_snapshot_of_def new_room_manager_def user_id_of_def handle_room_create_def create_room_def is_authenticated_def
  remove_from_room_def tag_room_member_user_id_def login_context_of_def set_member_user_id_def fresh_member_def
  broadcast_room_state_def snapshot_of_room_def push_to_others_def send_ok_def dispatch_write_def example_game_env_def Let_def
  extract_ip_def u64_add_def u64_max_def

lemma example_login_rooms:
  "gg_rooms example_login = new_room_manager" "gg_max_connections example_login = 10"
  "sm_sessions (gg_sessions example_login) = [(Some 1, \<lparr>sr_session_id = 1, sr_session = Some 1,
      sr_login_context = \<lparr>lc_user_id = ''ann'', lc_display_name = ''ann''\<rparr>, sr_authenticated = True\<rparr>)]"
  "gg_rate_limits example_login (Some 1) = Some \<lparr>re_window_started_at = 0, re_message_count = 1\<rparr>"
  "gg_active_connections example_login = 1" "gg_per_ip_limit example_login = 2" "gg_ip_counts example_login ''10.0.0.1'' = Some 1"
  unfolding example_login_def by (simp_all add: game_eval)

lemma example_login_tame: "gateway_reachable example_game_env tame 10 2 example_login"
  unfolding example_login_def
  by (intro gateway_reachable.intros)
    (simp_all add: fresh_connect_def session_contains_def session_record_of_def new_game_gateway_def new_session_manager_def u64_max_def
      tame_def kLoginRequest_def kRoomJoinRequest_def new_room_manager_def attach_session_def try_acquire_connection_slot_def
      session_add_def publish_snapshot_def Let_def example_game_env_def)

lemma example_seated_tame: "gateway_reachable example_game_env tame 10 2 example_seated"
  unfolding example_seated_def
  by (rule gateway_reachable.step[OF example_login_tame])
    (simp_all add: fresh_connect_def tame_def kLoginRequest_def kRoomJoinRequest_def)

lemma example_walk: "member_walk (ge_walk example_game_env)"
  by (simp add: example_game_env_def in_order.member_walk_axioms)

definition example_room :: game_room where
  "example_room = \<lparr>gr_owner = Some 1, gr_members = [(Some 1, \<lparr>gm_session = Some 1, gm_user_id = ''ann'', gm_ready = False\<rparr>)]\<rparr>"

lemma example_seated_value:
  "rm_session_rooms (gg_rooms example_seated) (Some 1) = Some ''r''"
  "rm_rooms (gg_rooms example_seated) ''r'' = Some example_room"
  "gg_sessions example_seated = gg_sessions example_login"
  "gg_active_connections example_seated = 1" "gg_per_ip_limit example_seated = 2" "gg_ip_counts example_seated ''10.0.0.1'' = Some 1"
  "gg_max_connections example_seated = 10" "rm_rooms (gg_rooms example_seated) ''q'' = None"
  "rm_session_rooms (gg_rooms example_seated) (Some 2) = None"
  unfolding example_seated_def by (simp_all add: game_eval example_login_rooms[simplified] example_room_def)

theorem seats_belong_to_users_witness:
  "list_all (\<lambda>(k, m). user_id_of k (gg_sessions example_seated) = Some (gm_user_id m)) (gr_members example_room)"
  using seats_belong_to_users[OF example_seated_tame example_walk example_seated_value(2)] by (auto simp: list_all_iff)

definition example_second :: game_gateway where
  "example_second = gateway_step example_game_env (Connect (Some 2)) example_seated"

lemma example_second_tame: "gateway_reachable example_game_env tame 10 2 example_second"
proof -
  have "fresh_connect (Connect (Some 2)) example_seated"
    by (simp add: fresh_connect_def session_contains_def session_record_of_def example_seated_value example_login_rooms u64_max_def)
  then show ?thesis unfolding example_second_def by (intro gateway_reachable.step[OF example_seated_tame]) (simp_all add: tame_def)
qed

text \<open>Taking over.  When a user logs in on a second session without a seat, that session becomes the
  user's only one and gets the seat, the first session is told before it is stopped, and closing
  the first session afterwards does not change the rooms.\<close>

theorem takeover_keeps_seat:
  assumes reach: "gateway_reachable env tame max_total per_ip g" and walk: "member_walk (ge_walk env)"
    and old: "user_id_of a (gg_sessions g) = Some u" "rm_session_rooms (gg_rooms g) a = Some r"
    and new: "k \<noteq> None" "session_contains k (gg_sessions g)" "rm_session_rooms (gg_rooms g) k = None"
    and body: "parse_login_request body = Some (u0, t, d)" "u0 \<noteq> []" "tv_ok (ge_validate env u0 t d)" "tv_user_id (ge_validate env u0 t d) = u"
    and g': "g' = handle_login env k request_id body g"
  shows "user_id_of k (gg_sessions g') = Some u \<and> user_id_of a (gg_sessions g') = None \<and>
    rm_session_rooms (gg_rooms g') k = Some r \<and> rm_session_rooms (gg_rooms g') a = None \<and>
    (\<exists>kick rest. gg_out g' = gg_out g @ Sent a kick # Stopped a # rest \<and> pk_message_id kick = kSessionKickedPush) \<and>
    gg_rooms (snd (release_session_state env a g')) = gg_rooms g'"
proof -
  have s: "sessions_ok (gg_sessions g)" using gateway_sessions_ok[OF reach] by simp
  have rooms: "rooms_ok (gg_rooms g)" using play_invariant[OF reach walk] by (simp add: play_ok_def)
  have idx: "sm_user_index (gg_sessions g) u = Some a" using index_bound[OF s, of u a] old(1) by (simp add: user_bound)
  have ak: "a \<noteq> k" using old(2) new(3) by auto
  have an: "a \<noteq> None" using seated_member[OF rooms old(2)] by blast
  let ?v = "ge_validate env u0 t d" and ?c = "\<lparr>lc_user_id = u, lc_display_name = tv_display_name (ge_validate env u0 t d)\<rparr>"
  obtain rec where rec: "session_record_of k (gg_sessions g) = Some rec" using new(2) by (auto simp: session_contains_def)
  have "u \<noteq> []"
  proof -
    obtain arec where "session_record_of a (gg_sessions g) = Some arec" "sr_authenticated arec" "lc_user_id (sr_login_context arec) = u"
      using old(1) by (auto simp: user_id_of_def split: option.splits if_splits)
    then show ?thesis using record_okD[OF s] by (auto simp: record_ok_def)
  qed
  then obtain s' where auth: "authenticate k ?c (gg_sessions g) = (a, s')"
    using authenticate_cases[OF s rec, of ?c] idx ak by (simp add: Let_def)
  have users: "user_id_of k s' = Some u" "user_id_of a s' = None" using authenticate_users[OF s auth] an by auto
  obtain room m where rm: "rm_rooms (gg_rooms g) r = Some room" "map_of (gr_members room) a = Some m" using seated_room[OF rooms old(2)] by blast
  have tr: "rm_session_rooms (snd (transfer_session a k (gg_rooms g))) = (rm_session_rooms (gg_rooms g))(a := None, k \<mapsto> r)"
    using old(2) rm by (simp add: transfer_session_def Let_def)
  obtain tf rooms' where t: "transfer_session a k (gg_rooms g) = (tf, rooms')" by fastforce
  define g1 where "g1 = kick_replaced a k (g\<lparr>gg_sessions := s'\<rparr>)"
  have g1: "gg_sessions g1 = s'" "gg_rooms g1 = rooms'"
    "\<exists>kick. gg_out g1 = gg_out g @ [Sent a kick, Stopped a] \<and> pk_message_id kick = kSessionKickedPush"
    using ak an t by (auto simp: g1_def kick_replaced_def)
  have "\<exists>snap p. g' = (case snap of None \<Rightarrow> send_ok k kLoginResponse request_id p g1
      | Some x \<Rightarrow> send_push k kSessionResumedPush (session_resumed_body x) (send_ok k kLoginResponse request_id p g1))"
    using body auth unfolding g' handle_login_def g1_def by (simp add: Let_def) blast
  then obtain snap p where g'1: "g' = (case snap of None \<Rightarrow> send_ok k kLoginResponse request_id p g1
      | Some x \<Rightarrow> send_push k kSessionResumedPush (session_resumed_body x) (send_ok k kLoginResponse request_id p g1))" by blast
  have eff: "gg_sessions g' = s'" "gg_rooms g' = rooms'" using g1 by (simp_all add: g'1 split: option.split)
  have out: "\<exists>kick rest. gg_out g' = gg_out g @ Sent a kick # Stopped a # rest \<and> pk_message_id kick = kSessionKickedPush"
    using g1(3) new(1) by (auto simp: g'1 send_ok_def send_push_def dispatch_write_def split: option.split)
  have "rm_session_rooms (gg_rooms g') a = None" "rm_session_rooms (gg_rooms g') k = Some r" using tr eff t ak by simp_all
  moreover from this(1) have "gg_rooms (snd (release_session_state env a g')) = gg_rooms g'"
    by (auto simp: release_session_state_def Let_def room_remove_session_def remove_from_room_def room_id_of_def release_connection_slot_def
        split: option.split)
  ultimately show ?thesis using users eff out by simp
qed

theorem takeover_keeps_seat_witness:
  "rm_session_rooms (gg_rooms (handle_login example_game_env (Some 2) 9 ''ann|dev'' example_second)) (Some 2) = Some ''r'' \<and>
   rm_session_rooms (gg_rooms (handle_login example_game_env (Some 2) 9 ''ann|dev'' example_second)) (Some 1) = None"
proof -
  have v: "user_id_of (Some 1) (gg_sessions example_second) = Some ''ann''" "rm_session_rooms (gg_rooms example_second) (Some 1) = Some ''r''"
    "session_contains (Some 2) (gg_sessions example_second)" "rm_session_rooms (gg_rooms example_second) (Some 2) = None"
    unfolding example_second_def by (simp_all add: game_eval example_seated_value[simplified] example_login_rooms[simplified] session_contains_def)
  have b: "parse_login_request ''ann|dev'' = Some (''ann'', ''dev'', None)" by (simp add: parse_login_request_def split_bar_def)
  have t: "tv_ok (ge_validate example_game_env ''ann'' ''dev'' None)" "tv_user_id (ge_validate example_game_env ''ann'' ''dev'' None) = ''ann''"
    by (simp_all add: example_game_env_def dev_validate_def)
  show ?thesis using takeover_keeps_seat[OF example_second_tame example_walk v(1,2) _ v(3,4) b _ t refl] by simp
qed

subsection \<open>Starting a battle\<close>

lemma collect_players_seated:
  assumes "\<forall>m\<in>set ms. gm_user_id m \<noteq> []"
  shows "collect_players g ms = (if list_all gm_ready ms then Some (map gm_user_id ms) else None)"
  using assms by (induction ms) (auto simp: Let_def)

lemma seated_user_not_empty:
  assumes "play_ok g" and "sessions_ok (gg_sessions g)" and "rm_rooms (gg_rooms g) r = Some room" and "(k, m) \<in> set (gr_members room)"
  shows "gm_user_id m \<noteq> []"
proof -
  have "user_id_of k (gg_sessions g) = Some (gm_user_id m)"
    using assms(1) members_allD[OF _ assms(3,4), of "seat_user g"] by (simp add: play_ok_def seat_user_def)
  then obtain rec where "session_record_of k (gg_sessions g) = Some rec" "sr_authenticated rec" "lc_user_id (sr_login_context rec) = gm_user_id m"
    by (auto simp: user_id_of_def split: option.splits if_splits)
  then show ?thesis using record_okD[OF assms(2)] by (auto simp: record_ok_def)
qed

text \<open>The battle gate.  In a consistent gateway a logged-in session's start request starts a battle exactly
  when the session owns its room, everybody in the room is ready, there are at least two members
  and no battle runs; the players of the battle are then the users of the room's members.\<close>

theorem battle_starts_exactly_when:
  assumes reach: "gateway_reachable env tame max_total per_ip g" and walk: "member_walk (ge_walk env)"
    and k: "k \<noteq> None" "rm_session_rooms (gg_rooms g) k = Some r" and room: "rm_rooms (gg_rooms g) r = Some room"
    and g': "g' = handle_battle_start env k request_id g"
  shows "gg_battles g' = (if gr_owner room = k \<and> list_all (gm_ready \<circ> snd) (gr_members room) \<and> 2 \<le> length (gr_members room) \<and>
        gg_battles g r = None \<and> r \<noteq> []
      then (gg_battles g)(r \<mapsto> new_battle_context (map (gm_user_id \<circ> snd) (ge_walk env (gr_members room)))) else gg_battles g)"
proof -
  have ok: "play_ok g" by (rule play_invariant[OF reach walk])
  then have rooms: "rooms_ok (gg_rooms g)" by (simp add: play_ok_def)
  have s: "sessions_ok (gg_sessions g)" using gateway_sessions_ok[OF reach] by simp
  obtain room' m where seat: "rm_rooms (gg_rooms g) r = Some room'" "(k, m) \<in> set (gr_members room')" using seated_member[OF rooms k(2)] by blast
  have auth: "is_authenticated k (gg_sessions g)"
    using seated_user[OF ok seat_room[OF seat]] by (auto simp: user_id_of_def is_authenticated_def split: option.splits if_splits)
  have perm: "mset (ge_walk env (gr_members room)) = mset (gr_members room)" by (rule member_walk.mset_ord[OF walk])
  have setp: "set (ge_walk env (gr_members room)) = set (gr_members room)" using perm by (metis set_mset_mset)
  have lenp: "length (ge_walk env (gr_members room)) = length (gr_members room)" using perm by (metis size_mset)
  have "\<forall>m\<in>set (map snd (ge_walk env (gr_members room))). gm_user_id m \<noteq> []"
    using seated_user_not_empty[OF ok s room] setp by auto
  then have coll: "collect_players g (map snd (ge_walk env (gr_members room))) =
      (if list_all (gm_ready \<circ> snd) (gr_members room) then Some (map (gm_user_id \<circ> snd) (ge_walk env (gr_members room))) else None)"
    by (simp add: collect_players_seated list_all_iff setp)
  have snap: "room_snapshot_of (ge_walk env) (room_in_battle g) k (gg_rooms g) =
      Some \<lparr>rs_room_id = r, rs_owner = gr_owner room, rs_battle_started = room_in_battle g r, rs_members = map snd (ge_walk env (gr_members room))\<rparr>"
    using k room by (simp add: room_snapshot_of_def snapshot_of_room_def)
  have "gr_owner room = k \<Longrightarrow> gr_owner room \<noteq> None" using k(1) by simp
  then show ?thesis using auth snap coll lenp
    by (auto simp: g' handle_battle_start_def Let_def start_battle_def not_le)
qed

theorem battle_starts_exactly_when_witness:
  "gg_battles (handle_battle_start example_game_env (Some 1) 10 example_seated) = gg_battles example_seated"
  using battle_starts_exactly_when[OF example_seated_tame example_walk _ example_seated_value(1,2) refl, of 10]
  by (simp add: example_room_def)

subsection \<open>A battle that outlives its room\<close>

text \<open>A defect.  The last member of a room with a running battle may create another room; the old room is
  gone then, but its battle is not, and whoever creates a room with that name later has a room
  nobody else can join.\<close>

theorem abandoned_battle_blocks_room:
  assumes ok: "rooms_ok (gg_rooms g)" and sole: "seats (gg_rooms g) r = {k}" and b: "gg_battles g r \<noteq> None"
    and k: "k \<noteq> None" "is_authenticated k (gg_sessions g)" and new: "r2 \<noteq> []" "rm_rooms (gg_rooms g) r2 = None"
    and g1: "g1 = handle_room_create env k i1 r2 g"
    and later: "k2 \<noteq> None" "is_authenticated k2 (gg_sessions g)" "r \<noteq> []"
    and g2: "g2 = handle_room_create env k2 i2 r g1"
    and join: "k3 \<noteq> None" "is_authenticated k3 (gg_sessions g)"
  shows "rm_rooms (gg_rooms g1) r = None \<and> gg_battles g1 r \<noteq> None \<and> rm_rooms (gg_rooms g2) r \<noteq> None \<and>
    handle_room_join env k3 i3 r g2 = send_error k3 i3 KRoomInBattle g2"
proof -
  have rr2: "r \<noteq> r2" using sole new(2) by (auto simp: seats_def)
  have create: "gg_rooms (handle_room_create env k' i r' h) = (case login_context_of k' (gg_sessions h) of
        None \<Rightarrow> snd (create_room (ge_walk env) k' r' (gg_rooms h))
      | Some c \<Rightarrow> set_member_user_id k' (lc_user_id c) (snd (create_room (ge_walk env) k' r' (gg_rooms h)))) \<and>
      gg_battles (handle_room_create env k' i r' h) = gg_battles h"
    if "k' \<noteq> None" "is_authenticated k' (gg_sessions h)" "r' \<noteq> []" "rm_rooms (gg_rooms h) r' = None" for k' i r' h
    using that by (auto simp: handle_room_create_def create_room_def Let_def tag_room_member_user_id_def split: option.split)
  have dom: "rm_rooms (set_member_user_id k' u s) r' = None \<longleftrightarrow> rm_rooms s r' = None" for k' u s r'
    by (auto simp: set_member_user_id_def split: option.split)
  have gone: "rm_rooms (snd (create_room (ge_walk env) k r2 (gg_rooms g))) r = None"
    using sole_member_removed[OF ok sole] k new rr2 by (auto simp: create_room_def Let_def)
  have 1: "rm_rooms (gg_rooms g1) r = None" "gg_battles g1 = gg_battles g" "gg_sessions g1 = gg_sessions g"
    using create[OF k(1,2) new(1,2), of i1] gone dom by (auto simp: g1 split: option.split)
  have "rm_rooms (snd (create_room (ge_walk env) k2 r (gg_rooms g1))) r \<noteq> None"
    using later 1 by (auto simp: create_room_def Let_def)
  then have "rm_rooms (gg_rooms g2) r \<noteq> None" using create[of k2 g1 r i2] later 1 dom unfolding g2
    by (cases "login_context_of k2 (gg_sessions g1)") (metis option.simps(4), metis option.simps(5))
  then have 2: "rm_rooms (gg_rooms g2) r \<noteq> None" "gg_battles g2 = gg_battles g" "gg_sessions g2 = gg_sessions g"
    using create[of k2 g1 r i2] later 1 by (simp_all add: g2)
  then have "handle_room_join env k3 i3 r g2 = send_error k3 i3 KRoomInBattle g2"
    using join later(3) b by (auto simp: handle_room_join_def join_room_def room_in_battle_def battle_started_def)
  then show ?thesis using 1 2 b by simp
qed

definition example_last_player :: game_gateway where
  "example_last_player = example_seated\<lparr>gg_battles := [''r'' \<mapsto> new_battle_context [''ann'', ''bob'']]\<rparr>"

theorem abandoned_battle_blocks_room_witness:
  "let g1 = handle_room_create example_game_env (Some 1) 10 ''q'' example_last_player;
       g2 = handle_room_create example_game_env (Some 1) 11 ''r'' g1
   in handle_room_join example_game_env (Some 1) 12 ''r'' g2 = send_error (Some 1) 12 KRoomInBattle g2"
proof -
  have ok: "rooms_ok (gg_rooms example_last_player)"
    using play_invariant[OF example_seated_tame example_walk] by (simp add: play_ok_def example_last_player_def)
  have v: "seats (gg_rooms example_last_player) ''r'' = {Some 1}" "is_authenticated (Some 1) (gg_sessions example_last_player)"
    "rm_rooms (gg_rooms example_last_player) ''q'' = None"
    by (simp_all add: example_last_player_def seats_def example_seated_value example_room_def is_authenticated_def session_record_of_def example_login_rooms)
  have b: "gg_battles example_last_player ''r'' \<noteq> None" by (simp add: example_last_player_def)
  show ?thesis unfolding Let_def
    using abandoned_battle_blocks_room[OF ok v(1) b _ v(2) _ v(3) refl _ v(2) _ refl _ v(2)] by simp
qed

end
