(* ===== verification/Token_Crypto.thy ===== *)
theory Token_Crypto
  imports Prelude
begin

text \<open>
  The cryptographic helpers of \<^verbatim>\<open>include/v2/auth/jwt_validator.h\<close>: SHA-256 with its padding loop,
  HMAC-SHA-256 and base64url, on bytes and 32-bit words.  The theory shows that padding makes whole blocks
  and can be undone, that a digest has 32 bytes, and that decoding undoes encoding.
\<close>

subsection \<open>SHA-256\<close>

definition kSha256K :: "32 word list" where
  "kSha256K = concat [
    [0x428a2f98, 0x71374491, 0xb5c0fbcf, 0xe9b5dba5, 0x3956c25b, 0x59f111f1],
    [0x923f82a4, 0xab1c5ed5, 0xd807aa98, 0x12835b01, 0x243185be, 0x550c7dc3],
    [0x72be5d74, 0x80deb1fe, 0x9bdc06a7, 0xc19bf174, 0xe49b69c1, 0xefbe4786],
    [0x0fc19dc6, 0x240ca1cc, 0x2de92c6f, 0x4a7484aa, 0x5cb0a9dc, 0x76f988da],
    [0x983e5152, 0xa831c66d, 0xb00327c8, 0xbf597fc7, 0xc6e00bf3, 0xd5a79147],
    [0x06ca6351, 0x14292967, 0x27b70a85, 0x2e1b2138, 0x4d2c6dfc, 0x53380d13],
    [0x650a7354, 0x766a0abb, 0x81c2c92e, 0x92722c85, 0xa2bfe8a1, 0xa81a664b],
    [0xc24b8b70, 0xc76c51a3, 0xd192e819, 0xd6990624, 0xf40e3585, 0x106aa070],
    [0x19a4c116, 0x1e376c08, 0x2748774c, 0x34b0bcb5, 0x391c0cb3, 0x4ed8aa4a],
    [0x5b9cca4f, 0x682e6ff3, 0x748f82ee, 0x78a5636f, 0x84c87814, 0x8cc70208],
    [0x90befffa, 0xa4506ceb, 0xbef9a3f7, 0xc67178f2]]"

definition rotr32 :: "32 word \<Rightarrow> nat \<Rightarrow> 32 word" where
  "rotr32 x n = drop_bit n x OR push_bit (32 - n) x"

definition load_word :: "u8 list \<Rightarrow> nat \<Rightarrow> 32 word" where
  "load_word data i = push_bit 24 (ucast (data ! (i * 4))) OR push_bit 16 (ucast (data ! (i * 4 + 1))) OR
     push_bit 8 (ucast (data ! (i * 4 + 2))) OR ucast (data ! (i * 4 + 3))"

definition schedule_step :: "nat \<Rightarrow> 32 word list \<Rightarrow> 32 word list" where
  "schedule_step i w =
     (let s0 = rotr32 (w ! (i - 15)) 7 XOR rotr32 (w ! (i - 15)) 18 XOR drop_bit 3 (w ! (i - 15));
          s1 = rotr32 (w ! (i - 2)) 17 XOR rotr32 (w ! (i - 2)) 19 XOR drop_bit 10 (w ! (i - 2))
      in w @ [w ! (i - 16) + s0 + w ! (i - 7) + s1])"

definition message_schedule :: "u8 list \<Rightarrow> 32 word list" where
  "message_schedule data = fold schedule_step [16..<64] (map (load_word data) [0..<16])"

type_synonym sha_state = "32 word \<times> 32 word \<times> 32 word \<times> 32 word \<times> 32 word \<times> 32 word \<times> 32 word \<times> 32 word"

fun sha_round :: "32 word list \<Rightarrow> nat \<Rightarrow> sha_state \<Rightarrow> sha_state" where
  "sha_round w i (a, b, c, d, e, f, g, hh) =
     (let s1 = rotr32 e 6 XOR rotr32 e 11 XOR rotr32 e 25;
          ch = (e AND f) XOR (NOT e AND g);
          temp1 = hh + s1 + ch + kSha256K ! i + w ! i;
          s0 = rotr32 a 2 XOR rotr32 a 13 XOR rotr32 a 22;
          maj = (a AND b) XOR (a AND c) XOR (b AND c);
          temp2 = s0 + maj
      in (temp1 + temp2, a, b, c, d + temp1, e, f, g))"

fun sha256_transform :: "u8 list \<Rightarrow> sha_state \<Rightarrow> sha_state" where
  "sha256_transform data (h0, h1, h2, h3, h4, h5, h6, h7) =
     (case fold (sha_round (message_schedule data)) [0..<64] (h0, h1, h2, h3, h4, h5, h6, h7) of
        (a, b, c, d, e, f, g, hh) \<Rightarrow> (h0 + a, h1 + b, h2 + c, h3 + d, h4 + e, h5 + f, h6 + g, h7 + hh))"

definition sha_init :: sha_state where
  "sha_init = (0x6a09e667, 0xbb67ae85, 0x3c6ef372, 0xa54ff53a, 0x510e527f, 0x9b05688c, 0x1f83d9ab, 0x5be0cd19)"

function pad_zeros :: "u8 list \<Rightarrow> u8 list" where
  "pad_zeros padded = (if (length padded + 8) mod 64 \<noteq> 0 then pad_zeros (padded @ [0]) else padded)"
  by pat_completeness auto
termination
proof (relation "measure (\<lambda>p. (64 - (length p + 8) mod 64) mod 64)")
  fix padded :: "u8 list"
  have "(64 - (n + 1) mod 64) mod 64 < (64 - n mod 64) mod 64" if "n mod 64 \<noteq> 0" for n :: nat
  proof -
    have "n mod 64 < 64" by simp
    with that show ?thesis by (simp add: mod_Suc) linarith
  qed
  from this[of "length padded + 8"] show "(length padded + 8) mod 64 \<noteq> 0 \<Longrightarrow> (padded @ [0], padded) \<in> measure (\<lambda>p. (64 - (length p + 8) mod 64) mod 64)"
    by simp
qed simp

definition sha_pad :: "u8 list \<Rightarrow> u8 list" where
  "sha_pad input =
     (let bit_len = word_of_nat (length input * 8) :: 64 word
      in pad_zeros (input @ [0x80]) @ map (\<lambda>i. ucast (drop_bit (i * 8) bit_len)) (rev [0..<8]))"

function sha_blocks :: "u8 list \<Rightarrow> sha_state \<Rightarrow> sha_state" where
  "sha_blocks padded h = (if padded = [] then h else sha_blocks (drop 64 padded) (sha256_transform padded h))"
  by pat_completeness auto
termination
  by (relation "measure (length \<circ> fst)") simp_all

definition store_word :: "32 word \<Rightarrow> u8 list" where
  "store_word x = [ucast (drop_bit 24 x), ucast (drop_bit 16 x), ucast (drop_bit 8 x), ucast x]"

definition sha256 :: "u8 list \<Rightarrow> u8 list" where
  "sha256 input =
     (case sha_blocks (sha_pad input) sha_init of
        (h0, h1, h2, h3, h4, h5, h6, h7) \<Rightarrow> concat (map store_word [h0, h1, h2, h3, h4, h5, h6, h7]))"

declare pad_zeros.simps [simp del] sha_blocks.simps [simp del]

subsection \<open>Message authentication\<close>

text \<open>Strings are sequences of bytes.\<close>

definition bytes_of :: "string \<Rightarrow> u8 list" where
  "bytes_of s = map of_char s"

definition string_of :: "u8 list \<Rightarrow> string" where
  "string_of bs = map (\<lambda>b. char_of (unat b)) bs"

definition kBlockSize :: nat where
  "kBlockSize = 64"

definition key_block :: "u8 list \<Rightarrow> u8 list" where
  "key_block key = (let k = (if length key > kBlockSize then sha256 key else key) in k @ replicate (kBlockSize - length k) 0)"

definition hmac_sha256 :: "u8 list \<Rightarrow> u8 list \<Rightarrow> u8 list" where
  "hmac_sha256 key message =
     (let ipad = map (\<lambda>b. b XOR 0x36) (key_block key);
          opad = map (\<lambda>b. b XOR 0x5c) (key_block key);
          inner_hash = sha256 (ipad @ message)
      in sha256 (opad @ inner_hash))"

subsection \<open>Base64url\<close>

definition kTable :: string where
  "kTable = ''ABCDEFGHIJKLMNOPQRSTUVWXYZabcdefghijklmnopqrstuvwxyz0123456789-_''"

fun index_of :: "'a \<Rightarrow> 'a list \<Rightarrow> nat option" where
  "index_of c [] = None"
| "index_of c (x # xs) = (if x = c then Some 0 else map_option Suc (index_of c xs))"

text \<open>The decoder keeps its bits in an \<^verbatim>\<open>int\<close>, shifted arithmetically, the encoder in an \<^verbatim>\<open>unsigned int\<close>.\<close>

fun decode_loop :: "string \<Rightarrow> 32 word \<Rightarrow> nat \<Rightarrow> u8 list \<Rightarrow> u8 list" where
  "decode_loop [] val bits out = out"
| "decode_loop (c # cs) val bits out =
     (if c = CHR ''='' then out
      else case index_of c kTable of
        None \<Rightarrow> []
      | Some pos \<Rightarrow>
         (let val1 = push_bit 6 val OR word_of_nat pos; bits1 = bits + 6
          in if bits1 \<ge> 8 then decode_loop cs val1 (bits1 - 8) (out @ [ucast (signed_drop_bit (bits1 - 8) val1 AND 0xFF)])
             else decode_loop cs val1 bits1 out))"

definition base64url_decode :: "string \<Rightarrow> u8 list" where
  "base64url_decode input = decode_loop input 0 0 []"

fun emit_sextets :: "32 word \<Rightarrow> nat \<Rightarrow> string \<Rightarrow> nat \<times> string" where
  "emit_sextets val bits out =
     (if bits \<ge> 6 then emit_sextets val (bits - 6) (out @ [kTable ! unat (drop_bit (bits - 6) val AND 0x3F)]) else (bits, out))"

declare emit_sextets.simps [simp del]

fun encode_loop :: "u8 list \<Rightarrow> 32 word \<Rightarrow> nat \<Rightarrow> string \<Rightarrow> string" where
  "encode_loop [] val bits out = (if bits > 0 then out @ [kTable ! unat (push_bit (6 - bits) val AND 0x3F)] else out)"
| "encode_loop (c # cs) val bits out =
     (let val1 = push_bit 8 val OR ucast c; (bits1, out1) = emit_sextets val1 (bits + 8) out
      in encode_loop cs val1 bits1 out1)"

definition base64url_encode :: "u8 list \<Rightarrow> string" where
  "base64url_encode input = encode_loop input 0 0 []"

subsection \<open>Decoding undoes encoding\<close>

lemma kTable_facts: "distinct kTable" "length kTable = 64" "CHR ''='' \<notin> set kTable"
  by (simp_all add: kTable_def)

lemma index_of_nth: "distinct xs \<Longrightarrow> i < length xs \<Longrightarrow> index_of (xs ! i) xs = Some i"
  by (induction xs arbitrary: i) (auto simp: nth_Cons split: nat.split)

lemma sextet_mask: "(0x3F :: 32 word) = mask 6" "(0xFF :: 32 word) = mask 8"
  by (simp_all add: mask_eq_exp_minus_1)

lemma sextet_less: "unat (t AND mask 6 :: 32 word) < 64"
proof -
  have "t AND mask 6 < 2 ^ 6" by (rule and_mask_less') simp
  then show ?thesis by (simp add: word_less_nat_alt)
qed

lemma sextet_found:
  "index_of (kTable ! unat (t AND mask 6 :: 32 word)) kTable = Some (unat (t AND mask 6))"
  "kTable ! unat (t AND mask 6 :: 32 word) \<noteq> CHR ''=''"
proof -
  have "unat (t AND mask 6) < length kTable" using sextet_less[of t] by (simp add: kTable_facts)
  then show "index_of (kTable ! unat (t AND mask 6)) kTable = Some (unat (t AND mask 6))"
    and "kTable ! unat (t AND mask 6) \<noteq> CHR ''=''"
    using kTable_facts(3) by (auto simp: index_of_nth kTable_facts(1) dest!: nth_mem)
qed

lemma less_8_cases: "n < 8 \<Longrightarrow> n = 0 \<or> n = 1 \<or> n = 2 \<or> n = 3 \<or> n = 4 \<or> n = 5 \<or> n = 6 \<or> n = (7 :: nat)"
  by arith

lemma byte_high_bits: "8 \<le> n \<Longrightarrow> \<not> bit (b :: u8) n"
  using bit_imp_le_length[of b n] by auto

lemma sextets_join:
  fixes a b c :: u8 and v w :: "32 word"
  defines "v1 \<equiv> push_bit 8 v OR ucast a" 
  defines "v2 \<equiv> push_bit 8 v1 OR ucast b"
  defines "v3 \<equiv> push_bit 8 v2 OR ucast c"
  defines "d1 \<equiv> push_bit 6 w OR (drop_bit 2 v1 AND mask 6)"
  defines "d2 \<equiv> push_bit 6 d1 OR (drop_bit 4 v2 AND mask 6)"
  defines "d3 \<equiv> push_bit 6 d2 OR (drop_bit 6 v3 AND mask 6)"
  shows "ucast (signed_drop_bit 4 d2 AND mask 8) = a" "ucast (signed_drop_bit 2 d3 AND mask 8) = b"
    "ucast ((push_bit 6 d3 OR (v3 AND mask 6)) AND mask 8) = c"
    "ucast (signed_drop_bit 4 (push_bit 6 d1 OR (push_bit 4 v1 AND mask 6)) AND mask 8) = a"
    "ucast (signed_drop_bit 2 (push_bit 6 d2 OR (push_bit 2 v2 AND mask 6)) AND mask 8) = b"
  by (rule bit_word_eqI, simp, drule less_8_cases, elim disjE;
      simp add: d1_def d2_def d3_def v1_def v2_def v3_def bit_simps byte_high_bits)+

lemma decode_sextet:
  "decode_loop (kTable ! unat (t AND mask 6) # cs) val bits out =
     (let val1 = push_bit 6 val OR (t AND mask 6)
      in if bits \<ge> 2 then decode_loop cs val1 (bits - 2) (out @ [ucast (signed_drop_bit (bits - 2) val1 AND mask 8)])
         else decode_loop cs val1 (bits + 6) out)"
proof -
  have "2 \<le> bits \<Longrightarrow> bits + 6 - 8 = bits - 2" by simp
  then show ?thesis by (simp add: sextet_found sextet_mask Let_def)
qed

lemma encode_out: "encode_loop bs v n out = out @ encode_loop bs v n []"
proof (induction bs arbitrary: v n out)
  case (Cons b bs)
  have emit: "emit_sextets x k o1 = (fst (emit_sextets x k []), o1 @ snd (emit_sextets x k []))" for x k o1
  proof (induction k arbitrary: o1 rule: less_induct)
    case (less k)
    show ?case
    proof (cases "6 \<le> k")
      case True
      then have "k - 6 < k" by simp
      note IH = less.IH[OF this]
      from True show ?thesis by (subst (1 2 3) emit_sextets.simps) (simp only: IH[of "_ @ _"], simp)
    qed (simp add: emit_sextets.simps)
  qed
  define E where "E = emit_sextets (push_bit 8 v OR ucast b) (n + 8) []"
  have "encode_loop (b # bs) v n o1 = encode_loop bs (push_bit 8 v OR ucast b) (fst E) (o1 @ snd E)" for o1
    unfolding encode_loop.simps Let_def E_def by (subst emit) simp
  then show ?case using Cons.IH[of "push_bit 8 v OR ucast b" "fst E" "out @ snd E"] Cons.IH[of "push_bit 8 v OR ucast b" "fst E" "snd E"]
    by simp
qed simp

lemma encode_group:
  fixes v :: "32 word"
  shows "encode_loop [a] v 0 [] = (let v1 = push_bit 8 v OR ucast a in
      [kTable ! unat (drop_bit 2 v1 AND mask 6), kTable ! unat (push_bit 4 v1 AND mask 6)])"
    "encode_loop [a, b] v 0 [] = (let v1 = push_bit 8 v OR ucast a; v2 = push_bit 8 v1 OR ucast b in
      [kTable ! unat (drop_bit 2 v1 AND mask 6), kTable ! unat (drop_bit 4 v2 AND mask 6), kTable ! unat (push_bit 2 v2 AND mask 6)])"
    "encode_loop (a # b # c # cs) v 0 [] = (let v1 = push_bit 8 v OR ucast a; v2 = push_bit 8 v1 OR ucast b; v3 = push_bit 8 v2 OR ucast c in
      kTable ! unat (drop_bit 2 v1 AND mask 6) # kTable ! unat (drop_bit 4 v2 AND mask 6) #
      kTable ! unat (drop_bit 6 v3 AND mask 6) # kTable ! unat (v3 AND mask 6) # encode_loop cs v3 0 [])"
  by (simp_all add: emit_sextets.simps Let_def sextet_mask) (subst encode_out, simp)

lemma decode_group:
  fixes w :: "32 word"
  shows "decode_loop [kTable ! unat (t1 AND mask 6), kTable ! unat (t2 AND mask 6)] w 0 out =
      (let d1 = push_bit 6 w OR (t1 AND mask 6); d2 = push_bit 6 d1 OR (t2 AND mask 6)
       in out @ [ucast (signed_drop_bit 4 d2 AND mask 8)])"
    "decode_loop [kTable ! unat (t1 AND mask 6), kTable ! unat (t2 AND mask 6), kTable ! unat (t3 AND mask 6)] w 0 out =
      (let d1 = push_bit 6 w OR (t1 AND mask 6); d2 = push_bit 6 d1 OR (t2 AND mask 6); d3 = push_bit 6 d2 OR (t3 AND mask 6)
       in out @ [ucast (signed_drop_bit 4 d2 AND mask 8), ucast (signed_drop_bit 2 d3 AND mask 8)])"
    "decode_loop (kTable ! unat (t1 AND mask 6) # kTable ! unat (t2 AND mask 6) # kTable ! unat (t3 AND mask 6) #
        kTable ! unat (t4 AND mask 6) # cs) w 0 out =
      (let d1 = push_bit 6 w OR (t1 AND mask 6); d2 = push_bit 6 d1 OR (t2 AND mask 6); d3 = push_bit 6 d2 OR (t3 AND mask 6);
           d4 = push_bit 6 d3 OR (t4 AND mask 6)
       in decode_loop cs d4 0 (out @ [ucast (signed_drop_bit 4 d2 AND mask 8), ucast (signed_drop_bit 2 d3 AND mask 8), ucast (d4 AND mask 8)]))"
  unfolding append_Cons append_Nil decode_sextet Let_def by simp_all

lemma decode_encode_loop: "decode_loop (encode_loop bs v 0 []) w 0 out = out @ bs"
proof (induction bs arbitrary: v w out rule: length_induct)
  case (1 bs)
  consider "bs = []" | a where "bs = [a]" | a b where "bs = [a, b]" | a b c cs where "bs = a # b # c # cs"
    by (metis neq_Nil_conv)
  then show ?case
  proof cases
    case 4
    then have "decode_loop (encode_loop cs v 0 []) w 0 out = out @ cs" for v w out using 1 by simp
    then show ?thesis by (simp only: 4 encode_group(3) decode_group(3) Let_def sextets_join append_assoc append_Cons append_Nil)
  qed (simp_all only: encode_group decode_group Let_def sextets_join, simp_all)
qed

text \<open>Base64url round trip: whatever is encoded is decoded to the same bytes.\<close>

theorem base64url_round_trip: "base64url_decode (base64url_encode bs) = bs"
  by (simp add: base64url_decode_def base64url_encode_def decode_encode_loop)

lemma encode_alphabet: "set (base64url_encode bs) \<subseteq> set kTable"
proof -
  have sextet: "kTable ! unat (t AND mask 6 :: 32 word) \<in> set kTable" for t
    using sextet_less[of t] by (simp add: kTable_facts(2))
  have "set (encode_loop bs v 0 []) \<subseteq> set kTable" for v
  proof (induction bs arbitrary: v rule: length_induct)
    case (1 bs)
    consider "bs = []" | a where "bs = [a]" | a b where "bs = [a, b]" | a b c cs where "bs = a # b # c # cs"
      by (metis neq_Nil_conv)
    then show ?case
    proof cases
      case 4
      then have "set (encode_loop cs v 0 []) \<subseteq> set kTable" for v using 1 by simp
      then show ?thesis by (simp only: 4 encode_group(3) Let_def list.set insert_subset sextet simp_thms)
    qed (simp_all only: encode_group Let_def list.set insert_subset sextet simp_thms, simp_all)
  qed
  then show ?thesis by (simp add: base64url_encode_def)
qed

text \<open>What follows an equals sign does not count.\<close>

lemma decode_ignores_tail: "decode_loop s v n out \<noteq> [] \<Longrightarrow> decode_loop (s @ CHR ''='' # x) v n out = decode_loop s v n out"
  by (induction s v n out rule: decode_loop.induct) (auto simp: Let_def split: option.splits if_splits)

subsection \<open>Digests\<close>

lemma length_store_word [simp]: "length (store_word x) = 4"
  by (simp add: store_word_def)

lemma length_sha256 [simp]: "length (sha256 m) = 32"
  by (simp add: sha256_def split: prod.split)

lemma length_hmac [simp]: "length (hmac_sha256 k m) = 32"
  by (simp add: hmac_sha256_def Let_def)

lemma pad_zeros_spec: "\<exists>n. pad_zeros p = p @ replicate n 0 \<and> (length (pad_zeros p) + 8) mod 64 = 0"
proof (induction p rule: pad_zeros.induct)
  case (1 p)
  show ?case
  proof (cases "(length p + 8) mod 64 = 0")
    case True
    then have "pad_zeros p = p" by (subst pad_zeros.simps) simp
    with True show ?thesis by (intro exI[of _ 0]) simp
  next
    case False
    from 1[OF False] obtain n where n: "pad_zeros (p @ [0]) = (p @ [0]) @ replicate n 0" "(length (pad_zeros (p @ [0])) + 8) mod 64 = 0" by auto
    moreover have "pad_zeros p = pad_zeros (p @ [0])" using False by (subst pad_zeros.simps) simp
    ultimately show ?thesis by (intro exI[of _ "Suc n"]) simp
  qed
qed

text \<open>The digest reads whole blocks only: the padded message is the message, a one bit, zeros and the length in bits.\<close>

lemma sha_pad_blocks:
  "length (sha_pad m) mod 64 = 0 \<and> (\<exists>n. take (length (sha_pad m) - 8) (sha_pad m) = m @ 0x80 # replicate n 0)"
proof -
  obtain n where n: "pad_zeros (m @ [0x80]) = m @ [0x80] @ replicate n 0" "(length (pad_zeros (m @ [0x80])) + 8) mod 64 = 0"
    using pad_zeros_spec[of "m @ [0x80]"] by auto
  have "length (sha_pad m) = length (pad_zeros (m @ [0x80])) + 8" by (simp add: sha_pad_def Let_def)
  moreover from this have "take (length (sha_pad m) - 8) (sha_pad m) = pad_zeros (m @ [0x80])"
    by (simp add: sha_pad_def Let_def del: upt_Suc)
  ultimately show ?thesis using n by auto
qed

end
