(* ===== verification/Jwt_Validator.thy ===== *)
theory Jwt_Validator
  imports Json_Document Token_Crypto
begin

text \<open>
  \<^verbatim>\<open>JwtValidator\<close> (\<^verbatim>\<open>include/v2/auth/jwt_validator.h\<close>): checking and issuing tokens.  Parsing and printing
  JSON and the RSA operations of OpenSSL are parameters (record \<open>jwt_env\<close>); a validation may end in
  the exception of a typed read, which the code does not catch.  The theory shows what an accepted token
  proves, that issued tokens are accepted until they expire, and that tokens can be varied at their end.
\<close>

subsection \<open>Configuration and results\<close>

record jwt_payload =
  jp_sub :: string
  jp_iss :: string
  jp_aud :: string
  jp_role :: string
  jp_display_name :: string
  jp_iat :: nat
  jp_exp :: nat
  jp_extra :: json

record jwt_config =
  jc_secret :: string
  jc_public_key_pem :: string
  jc_private_key_pem :: string
  jc_issuer :: string
  jc_audience :: string
  jc_require_expiration :: bool

datatype jwt_result = Refused string | Accepted jwt_payload

record jwt_env =
  je_parse :: "u8 list \<Rightarrow> json option"
  je_dump :: "json \<Rightarrow> u8 list"
  je_verify_rs256 :: "string \<Rightarrow> u8 list \<Rightarrow> u8 list \<Rightarrow> bool"
  je_sign_rs256 :: "string \<Rightarrow> u8 list \<Rightarrow> u8 list"

subsection \<open>Validation\<close>

definition audience_matches :: "json \<Rightarrow> string \<Rightarrow> bool" where
  "audience_matches doc expected =
     (if expected = [] then True
      else case json_find doc ''aud'' of
        None \<Rightarrow> False
      | Some (JString a) \<Rightarrow> a = expected
      | Some (JArray entries) \<Rightarrow> JString expected \<in> set entries
      | Some _ \<Rightarrow> False)"

text \<open>The signature check: nothing to report, or the reason of the refusal.\<close>

definition check_signature :: "jwt_env \<Rightarrow> jwt_config \<Rightarrow> string \<Rightarrow> u8 list \<Rightarrow> u8 list \<Rightarrow> string option" where
  "check_signature env config alg signing_input sig =
     (if alg = ''HS256'' then
       (if jc_secret config = [] then Some ''missing_hs256_secret''
        else if sig = hmac_sha256 (bytes_of (jc_secret config)) signing_input then None
        else Some ''invalid_signature'')
      else if alg = ''RS256'' then
       (if jc_public_key_pem config = [] then Some ''missing_rs256_public_key''
        else if je_verify_rs256 env (jc_public_key_pem config) signing_input sig then None
        else Some ''invalid_signature'')
      else Some (''unsupported_algorithm:'' @ alg))"

definition read_payload :: "json \<Rightarrow> jwt_payload read" where
  "read_payload doc =
     and_then (value_or get_string doc ''sub'' []) (\<lambda>sub.
     and_then (value_or get_string doc ''iss'' []) (\<lambda>iss.
     and_then (value_or get_string doc ''role'' ''player'') (\<lambda>role.
     and_then (value_or get_string doc ''name'' []) (\<lambda>name.
     and_then (value_or get_uint64 doc ''iat'' 0) (\<lambda>iat.
     and_then (value_or get_uint64 doc ''exp'' 0) (\<lambda>exp.
       Inr \<lparr>jp_sub = sub, jp_iss = iss,
            jp_aud = (case json_find doc ''aud'' of Some (JString a) \<Rightarrow> a | _ \<Rightarrow> []),
            jp_role = role, jp_display_name = name, jp_iat = iat, jp_exp = exp, jp_extra = doc\<rparr>))))))"

text \<open>The expiry time is compared as a signed number.\<close>

definition to_int64 :: "nat \<Rightarrow> int" where
  "to_int64 n = (int n + 2 ^ 63) mod 2 ^ 64 - 2 ^ 63"

definition check_claims :: "jwt_config \<Rightarrow> int \<Rightarrow> json \<Rightarrow> jwt_payload \<Rightarrow> jwt_result" where
  "check_claims config now doc payload =
     (if jp_sub payload = [] then Refused ''missing_subject''
      else if jc_issuer config \<noteq> [] \<and> jp_iss payload \<noteq> jc_issuer config then Refused ''invalid_issuer''
      else if \<not> audience_matches doc (jc_audience config) then Refused ''invalid_audience''
      else if (jc_require_expiration config \<or> jp_exp payload \<noteq> 0) \<and> jp_exp payload = 0 then Refused ''missing_expiration''
      else if (jc_require_expiration config \<or> jp_exp payload \<noteq> 0) \<and> now > to_int64 (jp_exp payload) then Refused ''token_expired''
      else Accepted payload)"

definition jwt_validate :: "jwt_env \<Rightarrow> jwt_config \<Rightarrow> int \<Rightarrow> string \<Rightarrow> jwt_result read" where
  "jwt_validate env config now token =
     (case split_at CHR ''.'' token of
        None \<Rightarrow> Inr (Refused ''malformed_token'')
      | Some (header_b64, rest) \<Rightarrow>
         (case split_at CHR ''.'' rest of
            None \<Rightarrow> Inr (Refused ''malformed_token'')
          | Some (payload_b64, sig_b64) \<Rightarrow>
             (let signing_input = bytes_of (header_b64 @ ''.'' @ payload_b64) in
              case je_parse env (base64url_decode header_b64) of
                None \<Rightarrow> Inr (Refused ''invalid_header_json'')
              | Some header_doc \<Rightarrow>
                  and_then (value_or get_string header_doc ''alg'' []) (\<lambda>alg.
                   (case check_signature env config alg signing_input (base64url_decode sig_b64) of
                      Some reason \<Rightarrow> Inr (Refused reason)
                    | None \<Rightarrow>
                       (case je_parse env (base64url_decode payload_b64) of
                          None \<Rightarrow> Inr (Refused ''invalid_payload_json'')
                        | Some payload_doc \<Rightarrow>
                            and_then (read_payload payload_doc) (\<lambda>payload. Inr (check_claims config now payload_doc payload))))))))"

subsection \<open>Issue\<close>

definition jwt_header :: "bool \<Rightarrow> json" where
  "jwt_header use_rs256 = JObject [(''alg'', JString (if use_rs256 then ''RS256'' else ''HS256'')), (''typ'', JString ''JWT'')]"

text \<open>The entries a loop over a document visits: an array's under their positions, a plain value under the empty key.\<close>

definition json_items :: "json \<Rightarrow> (string \<times> json) list" where
  "json_items doc =
     (case doc of
        JNull \<Rightarrow> []
      | JObject kvs \<Rightarrow> kvs
      | JArray vs \<Rightarrow> zip (map decimal [0..<length vs]) vs
      | _ \<Rightarrow> [([], doc)])"

definition jwt_body :: "jwt_config \<Rightarrow> jwt_payload \<Rightarrow> json" where
  "jwt_body config payload =
     (let body = json_put ''iat'' (JInt (int (jp_iat payload))) (json_put ''name'' (JString (jp_display_name payload))
                  (json_put ''role'' (JString (jp_role payload)) (json_put ''iss'' (JString (jc_issuer config))
                  (json_put ''sub'' (JString (jp_sub payload)) JNull))));
          body1 = (if jp_aud payload = [] then body else json_put ''aud'' (JString (jp_aud payload)) body);
          body2 = (if jp_exp payload = 0 then body1 else json_put ''exp'' (JInt (int (jp_exp payload))) body1)
      in fold (\<lambda>(k, v). json_put k v) (json_items (jp_extra payload)) body2)"

definition jwt_generate :: "jwt_env \<Rightarrow> jwt_config \<Rightarrow> jwt_payload \<Rightarrow> string" where
  "jwt_generate env config payload =
     (let use_rs256 = jc_private_key_pem config \<noteq> [] in
      if use_rs256 \<and> jc_public_key_pem config = [] then []
      else if \<not> use_rs256 \<and> jc_secret config = [] then []
      else
       (let h = base64url_encode (je_dump env (jwt_header use_rs256));
            p = base64url_encode (je_dump env (jwt_body config payload));
            signing_input = bytes_of (h @ ''.'' @ p);
            signature = (if use_rs256 then je_sign_rs256 env (jc_private_key_pem config) signing_input
                         else hmac_sha256 (bytes_of (jc_secret config)) signing_input)
        in if signature = [] then [] else h @ ''.'' @ p @ ''.'' @ base64url_encode signature))"

subsection \<open>What an accepted token proves\<close>

text \<open>A token signed for the configured key: its three parts and the check that passed.\<close>

definition signed_token :: "jwt_env \<Rightarrow> jwt_config \<Rightarrow> string \<Rightarrow> string \<Rightarrow> string \<Rightarrow> bool" where
  "signed_token env config h p sig \<longleftrightarrow>
     (let input = bytes_of (h @ ''.'' @ p) in
      jc_secret config \<noteq> [] \<and> base64url_decode sig = hmac_sha256 (bytes_of (jc_secret config)) input \<or>
      jc_public_key_pem config \<noteq> [] \<and> je_verify_rs256 env (jc_public_key_pem config) input (base64url_decode sig))"

lemma check_signature_None:
  "check_signature env config alg (bytes_of (h @ ''.'' @ p)) (base64url_decode sig) = None \<Longrightarrow> signed_token env config h p sig"
  by (auto simp: check_signature_def signed_token_def Let_def split: if_splits)

lemma check_claims_Accepted:
  "check_claims config now doc pl = Accepted pl' \<longleftrightarrow> pl' = pl \<and> jp_sub pl \<noteq> [] \<and> (jc_issuer config = [] \<or> jp_iss pl = jc_issuer config) \<and>
     audience_matches doc (jc_audience config) \<and> (if jp_exp pl = 0 then \<not> jc_require_expiration config else now \<le> to_int64 (jp_exp pl))"
  by (auto simp: check_claims_def)

text \<open>C22: What an accepted token proves.  When a token is accepted, it consists of three parts, the signature
  is right for the first two under the configured secret or public key, the claims are those of the
  second part, the subject is not empty, issuer and audience are the configured ones, and the token
  has not expired.\<close>

theorem accepted_token_authentic:
  assumes "jwt_validate env config now token = Inr (Accepted pl)"
  shows "\<exists>h p sig doc. token = h @ ''.'' @ p @ ''.'' @ sig \<and> signed_token env config h p sig \<and>
    je_parse env (base64url_decode p) = Some doc \<and> read_payload doc = Inr pl \<and> jp_sub pl \<noteq> [] \<and>
    (jc_issuer config = [] \<or> jp_iss pl = jc_issuer config) \<and> audience_matches doc (jc_audience config) \<and>
    (if jp_exp pl = 0 then \<not> jc_require_expiration config else now \<le> to_int64 (jp_exp pl))"
proof -
  from assms obtain h rest p sig hd alg doc where s: "split_at CHR ''.'' token = Some (h, rest)" "split_at CHR ''.'' rest = Some (p, sig)"
    and v: "check_signature env config alg (bytes_of (h @ ''.'' @ p)) (base64url_decode sig) = None"
    "je_parse env (base64url_decode p) = Some doc" "read_payload doc = Inr pl" "check_claims config now doc pl = Accepted pl"
    unfolding jwt_validate_def
    by (auto simp: and_then_Inr Let_def check_claims_Accepted split: option.splits)
  have "token = h @ ''.'' @ p @ ''.'' @ sig" using split_at_Some[OF s(1)] split_at_Some[OF s(2)] by simp
  with check_signature_None[OF v(1)] v(2,3) v(4)[unfolded check_claims_Accepted] show ?thesis by blast
qed

subsection \<open>Issued tokens are accepted\<close>

lemma to_int64_exact: "n < 2 ^ 63 \<Longrightarrow> to_int64 n = int n"
  by (simp add: to_int64_def)

lemma jwt_body_reads:
  assumes "jp_extra pl = JNull"
  shows "is_object (jwt_body config pl)" "json_find (jwt_body config pl) ''sub'' = Some (JString (jp_sub pl))"
    "json_find (jwt_body config pl) ''iss'' = Some (JString (jc_issuer config))"
    "json_find (jwt_body config pl) ''role'' = Some (JString (jp_role pl))"
    "json_find (jwt_body config pl) ''name'' = Some (JString (jp_display_name pl))"
    "json_find (jwt_body config pl) ''iat'' = Some (JInt (int (jp_iat pl)))"
    "json_find (jwt_body config pl) ''aud'' = (if jp_aud pl = [] then None else Some (JString (jp_aud pl)))"
    "json_find (jwt_body config pl) ''exp'' = (if jp_exp pl = 0 then None else Some (JInt (int (jp_exp pl))))"
  using assms by (simp_all add: jwt_body_def json_items_def Let_def)

lemma jwt_body_payload:
  assumes "jp_extra pl = JNull" and "jp_iat pl < 2 ^ 64" and "jp_exp pl < 2 ^ 64"
  shows "read_payload (jwt_body config pl) = Inr (pl\<lparr>jp_iss := jc_issuer config, jp_extra := jwt_body config pl\<rparr>)"
proof -
  have "nat (int n mod 2 ^ 64) = n" if "n < 2 ^ 64" for n
    using that by (simp add: nat_mod_distrib)
  with assms show ?thesis
    by (auto simp: read_payload_def value_or_def jwt_body_reads get_string_def get_uint64_def)
qed

lemma encode_no_dot: "CHR ''.'' \<notin> set (base64url_encode bs)"
proof -
  have "CHR ''.'' \<notin> set kTable" by (simp add: kTable_def)
  then show ?thesis using encode_alphabet[of bs] by blast
qed

text \<open>The keys belong together: what is signed is verified.\<close>

definition keys_match :: "jwt_env \<Rightarrow> jwt_config \<Rightarrow> bool" where
  "keys_match env config \<longleftrightarrow>
     (if jc_private_key_pem config = [] then jc_secret config \<noteq> []
      else jc_public_key_pem config \<noteq> [] \<and>
        (\<forall>m. je_sign_rs256 env (jc_private_key_pem config) m \<noteq> [] \<and>
             je_verify_rs256 env (jc_public_key_pem config) m (je_sign_rs256 env (jc_private_key_pem config) m)))"

lemma issued_token_validates:
  assumes keys: "keys_match env config"
    and lib: "je_parse env (je_dump env (jwt_header (jc_private_key_pem config \<noteq> []))) = Some (jwt_header (jc_private_key_pem config \<noteq> []))"
      "je_parse env (je_dump env (jwt_body config pl)) = Some (jwt_body config pl)"
    and pl: "jp_sub pl \<noteq> []" "jp_extra pl = JNull" "jp_iat pl < 2 ^ 64"
    and aud: "jc_audience config = [] \<or> jp_aud pl = jc_audience config"
    and exp: "if jp_exp pl = 0 then \<not> jc_require_expiration config else now \<le> int (jp_exp pl) \<and> jp_exp pl < 2 ^ 63"
  shows "jwt_validate env config now (jwt_generate env config pl) =
    Inr (Accepted (pl\<lparr>jp_iss := jc_issuer config, jp_extra := jwt_body config pl\<rparr>))"
proof -
  define rs where "rs \<longleftrightarrow> jc_private_key_pem config \<noteq> []"
  define h where "h = base64url_encode (je_dump env (jwt_header rs))"
  define p where "p = base64url_encode (je_dump env (jwt_body config pl))"
  define sig where "sig = (if rs then je_sign_rs256 env (jc_private_key_pem config) (bytes_of (h @ ''.'' @ p))
    else hmac_sha256 (bytes_of (jc_secret config)) (bytes_of (h @ ''.'' @ p)))"
  let ?pl = "pl\<lparr>jp_iss := jc_issuer config, jp_extra := jwt_body config pl\<rparr>"
  have "hmac_sha256 k m \<noteq> []" for k m using length_hmac[of k m] by force
  then have nonempty: "sig \<noteq> []" using keys by (auto simp: sig_def keys_match_def rs_def split: if_splits)
  have g: "jwt_generate env config pl = h @ CHR ''.'' # (p @ CHR ''.'' # base64url_encode sig)"
    using keys nonempty by (auto simp: jwt_generate_def Let_def keys_match_def h_def p_def sig_def rs_def)
  have alg: "value_or get_string (jwt_header rs) ''alg'' [] = Inr (if rs then ''RS256'' else ''HS256'')"
    by (simp add: value_or_def jwt_header_def get_string_def)
  have sg: "check_signature env config (if rs then ''RS256'' else ''HS256'') (bytes_of (h @ ''.'' @ p)) sig = None"
    using keys by (simp add: check_signature_def keys_match_def sig_def rs_def)
  have "jp_exp pl < 2 ^ 64" using exp by (simp split: if_splits)
  then have rd: "read_payload (jwt_body config pl) = Inr ?pl" using pl by (intro jwt_body_payload) simp_all
  have cl: "check_claims config now (jwt_body config pl) ?pl = Accepted ?pl"
    using pl(1,2) aud exp by (auto simp: check_claims_Accepted audience_matches_def jwt_body_reads to_int64_exact split: if_splits)
  have sp: "split_at CHR ''.'' (h @ CHR ''.'' # (p @ CHR ''.'' # base64url_encode sig)) = Some (h, p @ CHR ''.'' # base64url_encode sig)"
    "split_at CHR ''.'' (p @ CHR ''.'' # base64url_encode sig) = Some (p, base64url_encode sig)"
    by (simp_all add: h_def p_def encode_no_dot)
  have dec: "je_parse env (base64url_decode h) = Some (jwt_header rs)" "je_parse env (base64url_decode p) = Some (jwt_body config pl)"
    using lib[folded rs_def] by (simp_all add: h_def p_def base64url_round_trip)
  show ?thesis
    using sg by (simp add: g jwt_validate_def sp dec alg base64url_round_trip rd cl)
qed

text \<open>Issued tokens are accepted.  Under matching keys, and when the JSON library reads back the header and
  claims it printed, a token issued for a subject is accepted until it expires and gives back the
  claims it was issued with.\<close>

theorem issued_token_accepted:
  assumes keys: "keys_match env config"
    and lib: "je_parse env (je_dump env (jwt_header (jc_private_key_pem config \<noteq> []))) = Some (jwt_header (jc_private_key_pem config \<noteq> []))"
      "je_parse env (je_dump env (jwt_body config pl)) = Some (jwt_body config pl)"
    and pl: "jp_sub pl \<noteq> []" "jp_extra pl = JNull" "jp_iat pl < 2 ^ 64"
    and aud: "jc_audience config = [] \<or> jp_aud pl = jc_audience config"
    and exp: "if jp_exp pl = 0 then \<not> jc_require_expiration config else now \<le> int (jp_exp pl) \<and> jp_exp pl < 2 ^ 63"
  shows "\<exists>pl'. jwt_validate env config now (jwt_generate env config pl) = Inr (Accepted pl') \<and> jp_sub pl' = jp_sub pl \<and>
    jp_role pl' = jp_role pl \<and> jp_display_name pl' = jp_display_name pl \<and> jp_aud pl' = jp_aud pl \<and>
    jp_iat pl' = jp_iat pl \<and> jp_exp pl' = jp_exp pl \<and> jp_iss pl' = jc_issuer config"
  using issued_token_validates[OF assms] by simp

definition example_config :: jwt_config where
  "example_config = \<lparr>jc_secret = ''s3cret'', jc_public_key_pem = [], jc_private_key_pem = [], jc_issuer = ''boost-gateway'',
     jc_audience = [], jc_require_expiration = False\<rparr>"

definition example_claims :: jwt_payload where
  "example_claims = \<lparr>jp_sub = ''ann'', jp_iss = [], jp_aud = [], jp_role = ''player'', jp_display_name = ''Ann'',
     jp_iat = 10, jp_exp = 500, jp_extra = JNull\<rparr>"

text \<open>A printer and parser that are right for two documents.\<close>

definition example_jwt_env :: jwt_env where
  "example_jwt_env =
     \<lparr>je_parse = (\<lambda>bs. if bs = [1] then Some (jwt_header False) else if bs = [2] then Some (jwt_body example_config example_claims) else None),
      je_dump = (\<lambda>doc. if doc = jwt_header False then [1] else [2]),
      je_verify_rs256 = (\<lambda>k m s. False), je_sign_rs256 = (\<lambda>k m. [])\<rparr>"

lemma example_token_facts:
  "keys_match example_jwt_env example_config" "jc_private_key_pem example_config = []"
  "je_parse example_jwt_env (je_dump example_jwt_env (jwt_header False)) = Some (jwt_header False)"
  "je_parse example_jwt_env (je_dump example_jwt_env (jwt_body example_config example_claims)) = Some (jwt_body example_config example_claims)"
  by (simp_all add: keys_match_def example_config_def example_jwt_env_def jwt_header_def jwt_body_def example_claims_def json_items_def)

theorem issued_token_accepted_witness:
  "\<exists>pl'. jwt_validate example_jwt_env example_config 400 (jwt_generate example_jwt_env example_config example_claims) = Inr (Accepted pl') \<and>
     jp_sub pl' = ''ann'' \<and> jp_exp pl' = 500"
  using issued_token_accepted[of example_jwt_env example_config example_claims 400] example_token_facts
  by (force simp: example_claims_def example_config_def)

lemma example_token_valid:
  "jwt_validate example_jwt_env example_config 400 (jwt_generate example_jwt_env example_config example_claims) =
     Inr (Accepted (example_claims\<lparr>jp_iss := ''boost-gateway'', jp_extra := jwt_body example_config example_claims\<rparr>))"
  using issued_token_validates[of example_jwt_env example_config example_claims 400] example_token_facts
  by (simp add: example_claims_def example_config_def)

theorem accepted_token_authentic_witness:
  "\<exists>h p sig. jwt_generate example_jwt_env example_config example_claims = h @ ''.'' @ p @ ''.'' @ sig \<and>
     base64url_decode sig = hmac_sha256 (bytes_of ''s3cret'') (bytes_of (h @ ''.'' @ p))"
  using accepted_token_authentic[OF example_token_valid]
  by (auto simp: signed_token_def Let_def example_config_def)

subsection \<open>The end of a token\<close>

text \<open>The signature is decoded up to an equals sign: whatever is added behind it leaves the token accepted.\<close>

lemma token_tail_ignored:
  assumes "jwt_validate env config now token = Inr (Accepted pl)" and "jc_public_key_pem config = []"
  shows "jwt_validate env config now (token @ CHR ''='' # x) = Inr (Accepted pl)"
proof -
  from assms(1) obtain h rest p sig where s: "split_at CHR ''.'' token = Some (h, rest)" "split_at CHR ''.'' rest = Some (p, sig)"
    unfolding jwt_validate_def by (auto split: option.splits)
  obtain hd alg where hd: "je_parse env (base64url_decode h) = Some hd" "value_or get_string hd ''alg'' [] = Inr alg"
    "check_signature env config alg (bytes_of (h @ ''.'' @ p)) (base64url_decode sig) = None"
    using assms(1) unfolding jwt_validate_def by (auto simp: s and_then_Inr Let_def split: option.splits)
  have "base64url_decode sig = hmac_sha256 (bytes_of (jc_secret config)) (bytes_of (h @ ''.'' @ p))"
    using check_signature_None[OF hd(3)] assms(2) by (simp add: signed_token_def)
  then have "base64url_decode sig \<noteq> []" using length_hmac by (metis length_0_conv zero_neq_numeral)
  then have d: "base64url_decode (sig @ CHR ''='' # x) = base64url_decode sig"
    by (simp add: base64url_decode_def decode_ignores_tail)
  have t: "token = h @ CHR ''.'' # p @ CHR ''.'' # sig" "CHR ''.'' \<notin> set h" "CHR ''.'' \<notin> set p"
    using split_at_Some[OF s(1)] split_at_Some[OF s(2)] by auto
  then have "token @ CHR ''='' # x = h @ CHR ''.'' # (p @ CHR ''.'' # (sig @ CHR ''='' # x))" by simp
  then have "split_at CHR ''.'' (token @ CHR ''='' # x) = Some (h, p @ CHR ''.'' # (sig @ CHR ''='' # x))"
    "split_at CHR ''.'' (p @ CHR ''.'' # (sig @ CHR ''='' # x)) = Some (p, sig @ CHR ''='' # x)"
    using t split_at_append by metis+
  with assms(1) show ?thesis by (simp add: jwt_validate_def s d hd(1,2))
qed

end
