(* ===== verification/Login_Backend.thy ===== *)
theory Login_Backend
  imports Jwt_Validator
begin

text \<open>
  \<^verbatim>\<open>LoginBackendService\<close> (\<^verbatim>\<open>src/v2/login/login_backend_service.cpp\<close>): accounts, logins, session binding,
  token checks and refreshes.  A handler is one step; the decoded request document is \<open>None\<close> when the
  payload is not JSON.  The exception of a typed read ends in the reply \<open>LoginThrew\<close>, the internal error
  the wrapper around every handler answers with.  The hash of a credential and the random guest names are
  parameters.  The theory shows which requests establish sessions and tokens.
\<close>

subsection \<open>State\<close>

record account_record =
  ar_user_id :: string
  ar_credential_hash :: string
  ar_display_name :: string
  ar_status :: string
  ar_created_at_ms :: int

record login_backend =
  lg_accounts :: "string \<rightharpoonup> account_record"
  lg_active_sessions :: "string \<rightharpoonup> string"
  lg_user_tokens :: "string \<rightharpoonup> string"
  lg_jwt :: "jwt_config option"
  lg_production :: bool

record login_env =
  le_jwt :: jwt_env
  le_hash :: "string \<Rightarrow> nat"

datatype login_reply =
    LoginError int string
  | LoginThrew json_error
  | RegisterOk string string
  | LoginOk string string bool string
  | TokenValid bool
  | SessionBound
  | SessionGone
  | TokenRefreshed string string string nat
  | GuestOk string string string

definition kIllegalUsername :: int where "kIllegalUsername = - 1101"
definition kWeakCredential :: int where "kWeakCredential = - 1102"
definition kUserAlreadyExists :: int where "kUserAlreadyExists = - 1100"
definition kAccountDisabled :: int where "kAccountDisabled = - 1103"
definition kStorageUnavailable :: int where "kStorageUnavailable = - 1104"

text \<open>The constructor refuses production mode without a key.\<close>

definition new_login_backend :: "jwt_config \<Rightarrow> bool \<Rightarrow> login_backend option" where
  "new_login_backend config production =
     (let jwt = (if jc_secret config \<noteq> [] \<or> jc_public_key_pem config \<noteq> [] then Some config else None)
      in if production \<and> jwt = None then None
         else Some \<lparr>lg_accounts = Map.empty, lg_active_sessions = Map.empty, lg_user_tokens = Map.empty,
                    lg_jwt = jwt, lg_production = production\<rparr>)"

definition username_char :: "char \<Rightarrow> bool" where
  "username_char c \<longleftrightarrow> (let n = of_char c :: nat in
     48 \<le> n \<and> n \<le> 57 \<or> 65 \<le> n \<and> n \<le> 90 \<or> 97 \<le> n \<and> n \<le> 122 \<or> c = CHR ''_'' \<or> c = CHR ''-'')"

definition is_valid_username :: "string \<Rightarrow> bool" where
  "is_valid_username user_id \<longleftrightarrow> user_id \<noteq> [] \<and> length user_id \<le> 64 \<and> list_all username_char user_id"

definition is_credential_acceptable :: "string \<Rightarrow> bool \<Rightarrow> bool" where
  "is_credential_acceptable credential production \<longleftrightarrow> credential \<noteq> [] \<and> \<not> (production \<and> length credential < 6)"

definition invalid_json :: login_reply where
  "invalid_json = LoginError (- 1004) ''invalid_json''"

text \<open>The reply for a disabled or banned account.\<close>

definition account_barred :: "string \<Rightarrow> login_backend \<Rightarrow> login_reply option" where
  "account_barred user_id s =
     (case lg_accounts s user_id of
        None \<Rightarrow> None
      | Some r \<Rightarrow>
          if ar_status r = ''disabled'' then Some (LoginError kAccountDisabled ''account_disabled'')
          else if ar_status r = ''banned'' then Some (LoginError kAccountDisabled ''account_banned'')
          else None)"

subsection \<open>Handlers\<close>

definition register_user :: "login_env \<Rightarrow> int \<Rightarrow> string \<Rightarrow> string \<Rightarrow> string \<Rightarrow> login_backend \<Rightarrow> login_reply \<times> login_backend" where
  "register_user env now user_id credential display_name s =
     (if \<not> is_valid_username user_id then (LoginError kIllegalUsername ''illegal_username'', s)
      else if \<not> is_credential_acceptable credential (lg_production s) then (LoginError kWeakCredential ''weak_credential'', s)
      else if lg_production s \<and> CHR '':'' \<in> set credential then (LoginError (- 1003) ''dev_credential_not_allowed_in_production'', s)
      else if lg_accounts s user_id \<noteq> None then (LoginError kUserAlreadyExists ''user_already_exists'', s)
      else (RegisterOk user_id display_name,
            s\<lparr>lg_accounts := (lg_accounts s)(user_id \<mapsto> \<lparr>ar_user_id = user_id, ar_credential_hash = decimal (le_hash env credential),
                ar_display_name = display_name, ar_status = ''active'', ar_created_at_ms = now\<rparr>)\<rparr>))"

definition handle_register_account :: "login_env \<Rightarrow> int \<Rightarrow> json option \<Rightarrow> login_backend \<Rightarrow> login_reply \<times> login_backend" where
  "handle_register_account env now req s =
     (case req of
        None \<Rightarrow> (invalid_json, s)
      | Some doc \<Rightarrow>
          if \<not> is_object doc then (invalid_json, s)
          else if \<not> json_has doc ''user_id'' \<or> \<not> json_has doc ''credential'' then (LoginError (- 1004) ''missing_fields'', s)
          else reading LoginThrew (at_key get_string doc ''user_id'') (\<lambda>user_id.
               reading LoginThrew (at_key get_string doc ''credential'') (\<lambda>credential.
               reading LoginThrew (value_or get_string doc ''display_name'' user_id) (\<lambda>display_name.
                 register_user env now user_id credential display_name))) s)"

text \<open>What the token of a login proves: the role, or the refusal.\<close>

definition dev_token_user :: "string \<Rightarrow> string" where
  "dev_token_user token = (case split_at CHR '':'' token of None \<Rightarrow> token | Some (_, u) \<Rightarrow> u)"

definition check_login_token :: "login_env \<Rightarrow> int \<Rightarrow> string \<Rightarrow> string \<Rightarrow> login_backend \<Rightarrow> (login_reply + string) read" where
  "check_login_token env now user_id token s =
     (case lg_jwt s of
        Some config \<Rightarrow>
          and_then (jwt_validate (le_jwt env) config now token) (\<lambda>r. Inr (case r of
            Refused e \<Rightarrow> Inl (LoginError (- 1003) e)
          | Accepted pl \<Rightarrow> if jp_sub pl \<noteq> user_id then Inl (LoginError (- 1003) ''token_subject_mismatch'') else Inr (jp_role pl)))
      | None \<Rightarrow>
          if lg_production s then Inr (Inl (LoginError (- 1003) ''jwt_required''))
          else if dev_token_user token = [] then Inr (Inl (LoginError (- 1004) ''invalid_token_format''))
          else Inr (Inr ''player''))"

definition login_user :: "login_env \<Rightarrow> int \<Rightarrow> string \<Rightarrow> string \<Rightarrow> string \<Rightarrow> login_backend \<Rightarrow> login_reply \<times> login_backend" where
  "login_user env now user_id token display_name s =
     (if user_id = [] then (LoginError (- 1004) ''empty_user_id'', s)
      else if token = [] then (LoginError (- 1004) ''empty_token'', s)
      else reading LoginThrew (check_login_token env now user_id token s) (\<lambda>checked s.
        case checked of
          Inl refusal \<Rightarrow> (refusal, s)
        | Inr role \<Rightarrow>
           (case account_barred user_id s of
              Some refusal \<Rightarrow> (refusal, s)
            | None \<Rightarrow>
               (LoginOk user_id display_name (lg_active_sessions s user_id \<noteq> None) role,
                s\<lparr>lg_active_sessions := (lg_active_sessions s)(user_id \<mapsto> user_id),
                  lg_user_tokens := (lg_user_tokens s)(user_id \<mapsto> token)\<rparr>))) s)"

definition backend_login_request :: "login_env \<Rightarrow> int \<Rightarrow> json option \<Rightarrow> login_backend \<Rightarrow> login_reply \<times> login_backend" where
  "backend_login_request env now req s =
     (case req of
        None \<Rightarrow> (LoginError (- 1004) ''empty_payload'', s)
      | Some doc \<Rightarrow>
          if \<not> is_object doc \<or> \<not> json_has doc ''user_id'' \<or> \<not> json_has doc ''token'' then (invalid_json, s)
          else reading LoginThrew (at_key get_string doc ''user_id'') (\<lambda>user_id.
               reading LoginThrew (at_key get_string doc ''token'') (\<lambda>token.
               reading LoginThrew (value_or get_string doc ''display_name'' user_id) (\<lambda>display_name.
                 login_user env now user_id token display_name))) s)"

definition validate_token :: "login_env \<Rightarrow> int \<Rightarrow> string \<Rightarrow> login_backend \<Rightarrow> login_reply \<times> login_backend" where
  "validate_token env now token s =
     (case lg_jwt s of
        Some config \<Rightarrow>
          if token = [] then (TokenValid (if lg_production s then False else token \<noteq> []), s)
          else reading LoginThrew (jwt_validate (le_jwt env) config now token) (\<lambda>r s. (TokenValid (case r of Accepted _ \<Rightarrow> True | Refused _ \<Rightarrow> False), s)) s
      | None \<Rightarrow> (TokenValid (if lg_production s then False else token \<noteq> []), s))"

definition handle_token_validate :: "login_env \<Rightarrow> int \<Rightarrow> json option \<Rightarrow> login_backend \<Rightarrow> login_reply \<times> login_backend" where
  "handle_token_validate env now req s =
     (case req of
        None \<Rightarrow> (invalid_json, s)
      | Some doc \<Rightarrow>
          if \<not> is_object doc \<or> \<not> json_has doc ''token'' then (invalid_json, s)
          else reading LoginThrew (at_key get_string doc ''token'') (\<lambda>token s.
            if json_has doc ''user_id'' then
              reading LoginThrew (at_key get_string doc ''user_id'') (\<lambda>user_id s.
                if account_barred user_id s \<noteq> None then (TokenValid False, s) else validate_token env now token s) s
            else validate_token env now token s) s)"

definition bind_user :: "string \<Rightarrow> login_backend \<Rightarrow> login_reply \<times> login_backend" where
  "bind_user user_id s =
     (case account_barred user_id s of
        Some refusal \<Rightarrow> (refusal, s)
      | None \<Rightarrow> (SessionBound, s\<lparr>lg_active_sessions := (lg_active_sessions s)(user_id \<mapsto> user_id)\<rparr>))"

definition with_user :: "json option \<Rightarrow> (string \<Rightarrow> login_backend \<Rightarrow> login_reply \<times> login_backend) \<Rightarrow> login_backend \<Rightarrow> login_reply \<times> login_backend" where
  "with_user req k s =
     (case req of
        None \<Rightarrow> (invalid_json, s)
      | Some doc \<Rightarrow>
          if \<not> is_object doc \<or> \<not> json_has doc ''user_id'' then (invalid_json, s)
          else reading LoginThrew (at_key get_string doc ''user_id'') k s)"

definition handle_session_bind :: "json option \<Rightarrow> login_backend \<Rightarrow> login_reply \<times> login_backend" where
  "handle_session_bind req s = with_user req bind_user s"

definition handle_session_close :: "json option \<Rightarrow> login_backend \<Rightarrow> login_reply \<times> login_backend" where
  "handle_session_close req s =
     with_user req (\<lambda>user_id s. (SessionGone, s\<lparr>lg_active_sessions := (lg_active_sessions s)(user_id := None)\<rparr>)) s"

definition refresh_token_valid :: "login_env \<Rightarrow> int \<Rightarrow> string \<Rightarrow> string \<Rightarrow> login_backend \<Rightarrow> bool read" where
  "refresh_token_valid env now user_id token s =
     (case lg_jwt s of
        Some config \<Rightarrow> and_then (jwt_validate (le_jwt env) config now token) (\<lambda>r. Inr (case r of Accepted _ \<Rightarrow> True | Refused _ \<Rightarrow> False))
      | None \<Rightarrow> Inr (\<not> lg_production s \<and> dev_token_user token = user_id))"

definition refresh_user :: "login_env \<Rightarrow> int \<Rightarrow> nat \<Rightarrow> string \<Rightarrow> string \<Rightarrow> login_backend \<Rightarrow> login_reply \<times> login_backend" where
  "refresh_user env now now_ms user_id token s =
     (case account_barred user_id s of
        Some refusal \<Rightarrow> (refusal, s)
      | None \<Rightarrow>
          reading LoginThrew (refresh_token_valid env now user_id token s) (\<lambda>valid s.
            if \<not> valid then (LoginError (- 1003) ''invalid_token'', s)
            else
             (let new_token = (if lg_jwt s \<noteq> None then token else ''refreshed:'' @ user_id);
                  refresh_token = (if lg_jwt s \<noteq> None then user_id @ ''_rt_'' @ decimal now_ms else user_id @ ''_dev_rt'')
              in (TokenRefreshed user_id new_token refresh_token 0,
                  s\<lparr>lg_user_tokens := (lg_user_tokens s)(user_id \<mapsto> new_token)\<rparr>))) s)"

definition backend_token_refresh :: "login_env \<Rightarrow> int \<Rightarrow> nat \<Rightarrow> json option \<Rightarrow> login_backend \<Rightarrow> login_reply \<times> login_backend" where
  "backend_token_refresh env now now_ms req s =
     (case req of
        None \<Rightarrow> (invalid_json, s)
      | Some doc \<Rightarrow>
          if \<not> is_object doc \<or> \<not> json_has doc ''user_id'' \<or> \<not> json_has doc ''token'' then (invalid_json, s)
          else reading LoginThrew (at_key get_string doc ''user_id'') (\<lambda>user_id.
               reading LoginThrew (at_key get_string doc ''token'') (\<lambda>token.
                 refresh_user env now now_ms user_id token)) s)"

text \<open>Guest names: up to three tries for a name that is not taken.\<close>

fun pick_guest :: "nat \<Rightarrow> string list \<Rightarrow> login_backend \<Rightarrow> string" where
  "pick_guest 0 names s = []"
| "pick_guest (Suc n) [] s = []"
| "pick_guest (Suc n) (suffix # names) s =
     (let user_id = ''guest_'' @ suffix in if lg_accounts s user_id = None then user_id else pick_guest n names s)"

definition handle_guest_login :: "int \<Rightarrow> string list \<Rightarrow> json option \<Rightarrow> login_backend \<Rightarrow> login_reply \<times> login_backend" where
  "handle_guest_login now suffixes req s =
     (case req of
        None \<Rightarrow> (LoginError (- 1004) ''empty_payload'', s)
      | Some doc \<Rightarrow>
          reading LoginThrew (if is_object doc then value_or get_string doc ''display_name'' [] else Inr []) (\<lambda>requested s.
            let user_id = pick_guest 3 suffixes s in
            if user_id = [] then (LoginError (- 1005) ''internal_error'', s)
            else
             (let display_name = (if requested = [] then ''Guest_'' @ drop 6 user_id else requested)
              in (GuestOk user_id display_name (''guest_token:'' @ user_id),
                  s\<lparr>lg_accounts := (lg_accounts s)(user_id \<mapsto> \<lparr>ar_user_id = user_id, ar_credential_hash = [],
                      ar_display_name = display_name, ar_status = ''guest'', ar_created_at_ms = now\<rparr>)\<rparr>))) s)"

subsection \<open>Sequences of requests\<close>

datatype login_event =
    Register int "json option"
  | Login int "json option"
  | ValidateToken int "json option"
  | BindSession "json option"
  | CloseSession "json option"
  | is_Refresh: Refresh int nat "json option"
  | Guest int "string list" "json option"

fun login_step :: "login_env \<Rightarrow> login_event \<Rightarrow> login_backend \<Rightarrow> login_reply \<times> login_backend" where
  "login_step env (Register now req) = handle_register_account env now req"
| "login_step env (Login now req) = backend_login_request env now req"
| "login_step env (ValidateToken now req) = handle_token_validate env now req"
| "login_step env (BindSession req) = handle_session_bind req"
| "login_step env (CloseSession req) = handle_session_close req"
| "login_step env (Refresh now now_ms req) = backend_token_refresh env now now_ms req"
| "login_step env (Guest now suffixes req) = handle_guest_login now suffixes req"

definition login_run :: "login_env \<Rightarrow> login_event list \<Rightarrow> login_backend \<Rightarrow> login_backend" where
  "login_run env evs s = fold (\<lambda>ev s. snd (login_step env ev s)) evs s"

lemma with_user_keeps: "P s \<Longrightarrow> (\<And>u. P (snd (k u s))) \<Longrightarrow> P (snd (with_user req k s))"
  by (auto simp: with_user_def intro!: reading_keeps[where P = P] split: option.split)

lemmas login_handlers = handle_register_account_def backend_login_request_def handle_token_validate_def
  handle_session_bind_def handle_session_close_def backend_token_refresh_def handle_guest_login_def

text \<open>The handlers in terms of what the requests do once they have been read.\<close>

lemma login_step_keeps:
  assumes "P s"
    and "\<And>now u c d. P (snd (register_user env now u c d s))"
    and "\<And>now u t d. P (snd (login_user env now u t d s))"
    and "\<And>now t. P (snd (validate_token env now t s))"
    and "\<And>u. P (snd (bind_user u s))"
    and "\<And>u. P (s\<lparr>lg_active_sessions := (lg_active_sessions s)(u := None)\<rparr>)"
    and "\<And>now now_ms u t req. ev = Refresh now now_ms req \<Longrightarrow> P (snd (refresh_user env now now_ms u t s))"
    and "\<And>u r. lg_accounts s u = None \<Longrightarrow> ar_status r = ''guest'' \<Longrightarrow> P (s\<lparr>lg_accounts := (lg_accounts s)(u \<mapsto> r)\<rparr>)"
  shows "P (snd (login_step env ev s))"
proof (cases ev)
  case (Guest now suffixes req)
  have "lg_accounts s (pick_guest n names s) = None \<or> pick_guest n names s = []" for n names
    by (induction n names s rule: pick_guest.induct) (auto simp: Let_def)
  from this[of 3 suffixes] show ?thesis using assms(1) unfolding Guest login_step.simps handle_guest_login_def
    by (auto simp: Let_def intro!: reading_keeps[where P = P] assms(8) split: option.split)
qed (auto simp: login_handlers intro!: assms(2-7) reading_keeps[where P = P] with_user_keeps[where P = P] simp: assms(1) split: option.split)

subsection \<open>Tokens and accounts\<close>

text \<open>Every stored token was accepted once, for its user if \<open>strict\<close>.\<close>

definition tokens_ok :: "login_env \<Rightarrow> jwt_config \<Rightarrow> bool \<Rightarrow> login_backend \<Rightarrow> bool" where
  "tokens_ok env config strict s \<longleftrightarrow> lg_jwt s = Some config \<and>
     (\<forall>u t. lg_user_tokens s u = Some t \<longrightarrow>
        (\<exists>now pl. jwt_validate (le_jwt env) config now t = Inr (Accepted pl) \<and> (strict \<longrightarrow> jp_sub pl = u)))"

lemma tokens_ok_put:
  assumes "tokens_ok env config strict s" and "jwt_validate (le_jwt env) config now t = Inr (Accepted pl)" and "strict \<Longrightarrow> jp_sub pl = u"
  shows "tokens_ok env config strict (s\<lparr>lg_active_sessions := a, lg_user_tokens := (lg_user_tokens s)(u \<mapsto> t)\<rparr>)"
    "tokens_ok env config strict (s\<lparr>lg_user_tokens := (lg_user_tokens s)(u \<mapsto> t)\<rparr>)"
  using assms by (auto simp: tokens_ok_def)

lemma check_login_accepts:
  "check_login_token env now u t s = Inr (Inr role) \<Longrightarrow> lg_jwt s = Some config \<Longrightarrow>
     \<exists>pl. jwt_validate (le_jwt env) config now t = Inr (Accepted pl) \<and> jp_sub pl = u"
  by (cases "jwt_validate (le_jwt env) config now t"; cases "projr (jwt_validate (le_jwt env) config now t)")
    (auto simp: check_login_token_def split: if_splits)

lemma tokens_ok_login:
  assumes ok: "tokens_ok env config strict s"
  shows "tokens_ok env config strict (snd (login_user env now u t d s))"
proof -
  have "check_login_token env now u t s = Inr (Inr role) \<Longrightarrow> tokens_ok env config strict
      (s\<lparr>lg_active_sessions := (lg_active_sessions s)(u \<mapsto> u), lg_user_tokens := (lg_user_tokens s)(u \<mapsto> t)\<rparr>)" for role
    using check_login_accepts[of env now u t s role config] tokens_ok_put(1)[OF ok] ok by (auto simp: tokens_ok_def)
  then show ?thesis unfolding login_user_def using ok
    by (auto intro!: reading_keeps[where P = "tokens_ok env config strict"] split: option.split sum.split)
qed

lemma refresh_accepts:
  "refresh_token_valid env now u t s = Inr True \<Longrightarrow> lg_jwt s = Some config \<Longrightarrow> \<exists>pl. jwt_validate (le_jwt env) config now t = Inr (Accepted pl)"
  by (cases "jwt_validate (le_jwt env) config now t"; cases "projr (jwt_validate (le_jwt env) config now t)")
    (auto simp: refresh_token_valid_def)

lemma tokens_ok_refresh:
  assumes ok: "tokens_ok env config False s"
  shows "tokens_ok env config False (snd (refresh_user env now now_ms u t s))"
proof -
  have jwt: "lg_jwt s = Some config" using ok by (simp add: tokens_ok_def)
  have "refresh_token_valid env now u t s = Inr True \<Longrightarrow> tokens_ok env config False (s\<lparr>lg_user_tokens := (lg_user_tokens s)(u \<mapsto> t)\<rparr>)"
    using refresh_accepts[OF _ jwt, of env now u t] tokens_ok_put(2)[OF ok] by auto
  then show ?thesis unfolding refresh_user_def using ok jwt
    by (auto intro!: reading_keeps[where P = "tokens_ok env config False"] simp: Let_def split: option.split)
qed

lemma tokens_ok_others:
  "tokens_ok env config strict s \<Longrightarrow> tokens_ok env config strict (snd (register_user env now u c d s))"
  "tokens_ok env config strict s \<Longrightarrow> tokens_ok env config strict (snd (validate_token env now t s))"
  "tokens_ok env config strict s \<Longrightarrow> tokens_ok env config strict (snd (bind_user u s))"
  by (auto simp: register_user_def validate_token_def bind_user_def tokens_ok_def reading_def split: option.split sum.split)

lemma tokens_ok_step:
  assumes "tokens_ok env config strict s" and "strict \<Longrightarrow> \<not> is_Refresh ev"
  shows "tokens_ok env config strict (snd (login_step env ev s))"
proof (rule login_step_keeps)
  show "tokens_ok env config strict (s\<lparr>lg_active_sessions := (lg_active_sessions s)(u := None)\<rparr>)" for u
    using assms(1) by (simp add: tokens_ok_def)
  show "tokens_ok env config strict (s\<lparr>lg_accounts := (lg_accounts s)(u \<mapsto> r)\<rparr>)" for u r
    using assms(1) by (simp add: tokens_ok_def)
  show "tokens_ok env config strict (snd (refresh_user env now now_ms u t s))" if "ev = Refresh now now_ms req" for now now_ms u t req
    using that assms tokens_ok_refresh by (cases strict) auto
qed (simp_all add: assms(1) tokens_ok_login tokens_ok_others)

text \<open>C23: Stored tokens are authentic.  When the service has a key, then after any sequence of requests the token kept for
  a user is one the validator accepted, and as long as no token was refreshed it was issued for that
  user.\<close>

theorem stored_tokens_authentic:
  assumes "new_login_backend config production = Some s0" and "lg_jwt s0 = Some config"
    and "lg_user_tokens (login_run env evs s0) u = Some t"
  shows "\<exists>now pl. jwt_validate (le_jwt env) config now t = Inr (Accepted pl) \<and>
    (list_all (\<lambda>ev. \<not> is_Refresh ev) evs \<longrightarrow> jp_sub pl = u)"
proof -
  define strict where "strict \<longleftrightarrow> list_all (\<lambda>ev. \<not> is_Refresh ev) evs"
  have "tokens_ok env config strict s \<Longrightarrow> (strict \<Longrightarrow> list_all (\<lambda>ev. \<not> is_Refresh ev) es) \<Longrightarrow> tokens_ok env config strict (login_run env es s)" for es s
    by (induction es arbitrary: s) (auto simp: login_run_def tokens_ok_step)
  moreover have "tokens_ok env config strict s0"
    using assms(1,2) by (auto simp: new_login_backend_def tokens_ok_def Let_def split: if_splits)
  ultimately have "tokens_ok env config strict (login_run env evs s0)" by (simp add: strict_def)
  with assms(3) show ?thesis by (auto simp: tokens_ok_def strict_def)
qed

text \<open>A defect.  A refresh checks that the token is valid but not for whom: with a token of one's own the token kept for
  any other user is replaced by it, and the reply is a new refresh token for that user.\<close>

theorem refresh_stores_foreign_token:
  assumes "lg_jwt s = Some config" and "jwt_validate (le_jwt env) config now t = Inr (Accepted pl)" and "jp_sub pl \<noteq> victim"
    and "account_barred victim s = None"
    and "req = JObject [(''user_id'', JString victim), (''token'', JString t)]"
  shows "\<exists>s'. backend_token_refresh env now now_ms (Some req) s = (TokenRefreshed victim t (victim @ ''_rt_'' @ decimal now_ms) 0, s') \<and>
    lg_user_tokens s' victim = Some t"
  using assms by (simp add: backend_token_refresh_def json_has_def at_key_def get_string_def reading_def refresh_user_def
      refresh_token_valid_def Let_def)

definition example_login_env :: login_env where
  "example_login_env = \<lparr>le_jwt = example_jwt_env, le_hash = length\<rparr>"

definition example_token :: string where
  "example_token = jwt_generate example_jwt_env example_config example_claims"

definition example_login_backend :: login_backend where
  "example_login_backend = the (new_login_backend example_config True)"

definition example_login_request :: json where
  "example_login_request = JObject [(''user_id'', JString ''ann''), (''token'', JString example_token)]"

lemma example_token_not_empty: "example_token \<noteq> []"
  using example_token_valid by (auto simp: example_token_def jwt_validate_def split_at_def)

lemma example_backend_start:
  "new_login_backend example_config True = Some example_login_backend" "lg_jwt example_login_backend = Some example_config"
  "lg_production example_login_backend" "lg_accounts example_login_backend u = None"
  by (simp_all add: example_login_backend_def new_login_backend_def example_config_def)

lemma example_token_ok: "\<exists>pl. jwt_validate example_jwt_env example_config 400 example_token = Inr (Accepted pl) \<and> jp_sub pl = ''ann''"
  using example_token_valid by (simp add: example_token_def) (simp add: example_claims_def)

lemma example_login_token:
  "lg_user_tokens (login_run example_login_env [Login 400 (Some example_login_request)] example_login_backend) ''ann'' = Some example_token"
proof -
  obtain pl where "jwt_validate example_jwt_env example_config 400 example_token = Inr (Accepted pl)" "jp_sub pl = ''ann''"
    using example_token_ok by blast
  with example_token_not_empty show ?thesis
    by (simp add: login_run_def backend_login_request_def example_login_request_def json_has_def at_key_def value_or_def get_string_def
      reading_def login_user_def check_login_token_def example_backend_start example_login_env_def account_barred_def)
qed

theorem stored_tokens_authentic_witness:
  "\<exists>now pl. jwt_validate example_jwt_env example_config now example_token = Inr (Accepted pl) \<and> jp_sub pl = ''ann''"
  using stored_tokens_authentic[OF example_backend_start(1,2) example_login_token] by (simp add: example_login_env_def)

theorem refresh_stores_foreign_token_witness:
  "\<exists>s'. backend_token_refresh example_login_env 400 7 (Some (JObject [(''user_id'', JString ''bob''), (''token'', JString example_token)]))
       example_login_backend = (TokenRefreshed ''bob'' example_token (''bob_rt_'' @ decimal 7) 0, s') \<and> lg_user_tokens s' ''bob'' = Some example_token"
proof -
  obtain pl where "jwt_validate (le_jwt example_login_env) example_config 400 example_token = Inr (Accepted pl)" "jp_sub pl = ''ann''"
    using example_token_ok by (auto simp: example_login_env_def)
  from refresh_stores_foreign_token[OF example_backend_start(2) this(1), of "''bob''" _ 7] this(2) show ?thesis
    by (simp add: account_barred_def example_backend_start)
qed

text \<open>Accounts are never changed once they exist, and no request disables or bans one: the checks for barred accounts never refuse.\<close>

definition accounts_kept :: "login_backend \<Rightarrow> login_backend \<Rightarrow> bool" where
  "accounts_kept s0 s \<longleftrightarrow> lg_accounts s0 \<subseteq>\<^sub>m lg_accounts s \<and> (\<forall>u r. lg_accounts s u = Some r \<longrightarrow> lg_accounts s0 u = Some r \<or> ar_status r \<in> {''active'', ''guest''})"

lemma accounts_kept_cong: "lg_accounts s' = lg_accounts s \<Longrightarrow> accounts_kept s0 s' = accounts_kept s0 s"
  by (simp add: accounts_kept_def)

lemma login_frames:
  "lg_accounts (snd (login_user env now u t d s)) = lg_accounts s" "lg_accounts (snd (validate_token env now t s)) = lg_accounts s"
  "lg_accounts (snd (bind_user u s)) = lg_accounts s" "lg_accounts (snd (refresh_user env now now_ms u t s)) = lg_accounts s"
  by (auto simp: login_user_def validate_token_def bind_user_def refresh_user_def reading_def Let_def split: option.split sum.split)

lemma accounts_kept_put:
  "accounts_kept s0 s \<Longrightarrow> lg_accounts s u = None \<Longrightarrow> ar_status r \<in> {''active'', ''guest''} \<Longrightarrow> accounts_kept s0 (s\<lparr>lg_accounts := (lg_accounts s)(u \<mapsto> r)\<rparr>)"
  by (auto simp: accounts_kept_def map_le_def dom_def split: if_splits)

lemma accounts_kept_step:
  assumes "accounts_kept s0 s"
  shows "accounts_kept s0 (snd (login_step env ev s))"
proof (rule login_step_keeps)
  show "accounts_kept s0 (snd (register_user env now u c d s))" for now u c d
    using assms by (auto simp: register_user_def intro!: accounts_kept_put)
qed (simp_all add: assms accounts_kept_put login_frames accounts_kept_cong[of _ s])

lemma accounts_never_barred:
  assumes "new_login_backend config production = Some s0"
  shows "account_barred u (login_run env evs s0) = None"
proof -
  have "accounts_kept s0 s \<Longrightarrow> accounts_kept s0 (login_run env evs s)" for s
    by (induction evs arbitrary: s) (simp_all add: login_run_def accounts_kept_step)
  from this[of s0] have "accounts_kept s0 (login_run env evs s0)" by (simp add: accounts_kept_def)
  moreover have "lg_accounts s0 = Map.empty" using assms by (auto simp: new_login_backend_def Let_def split: if_splits)
  ultimately show ?thesis by (fastforce simp: accounts_kept_def account_barred_def split: option.split)
qed

end
