(* ===== verification/Room_Backend.thy ===== *)
theory Room_Backend
  imports Json_Document
begin

text \<open>
  \<^verbatim>\<open>RoomBackendService\<close> (\<^verbatim>\<open>src/v2/room/room_backend_service.cpp\<close>): the lobby behind the gateway.  Every handler
  holds the manager's mutex and is one step; the decoded request document is \<open>None\<close> when the payload is
  not JSON, the exception of a typed read ends in the reply \<open>RoomThrew\<close>, the internal error of the wrapper
  around every handler.  Times are arguments: \<open>wall\<close> is the system clock, \<open>now\<close> the steady clock, in
  milliseconds.  The battle counter, an \<^verbatim>\<open>int\<close> in the code, is a natural number: an overflow, undefined there,
  takes more than \<open>2 ^ 31 - 1\<close> battles.  The theory shows the lobby's invariant, when a battle is started, what cleaning up removes,
  and that the pages of a room list are the list.
\<close>

subsection \<open>State\<close>

record lobby_member =
  lm_user_id :: string
  lm_display_name :: string
  lm_ready :: bool

datatype room_status = Waiting | InInstance | RoomClosed

record lobby_room =
  lr_room_id :: string
  lr_owner_user_id :: string
  lr_members :: "lobby_member list"
  lr_active_battle_id :: string
  lr_metadata :: json
  lr_capacity :: nat
  lr_visibility :: string
  lr_version :: nat
  lr_status :: room_status
  lr_created_at_ms :: int
  lr_last_activity_at :: "int option"

type_synonym room_table = "(string \<times> lobby_room) list"

record room_backend =
  rb_rooms :: room_table
  rb_next_battle_id :: nat
  rb_battle_max_frames :: nat
  rb_room_ttl_ms :: nat

datatype room_reply = RoomError int string | RoomThrew json_error | RoomOk "(string \<times> json) list" | RoomPushed json

definition kRejected :: int where "kRejected = - 1003"
definition kInvalidRequest :: int where "kInvalidRequest = - 1004"
definition kRoomNotFound :: int where "kRoomNotFound = - 1200"
definition kRoomFull :: int where "kRoomFull = - 1201"
definition kRoomInInstance :: int where "kRoomInInstance = - 1202"
definition kRoomClosed :: int where "kRoomClosed = - 1203"
definition kNotRoomOwner :: int where "kNotRoomOwner = - 1204"
definition kNotRoomMember :: int where "kNotRoomMember = - 1205"

definition new_room_backend :: "nat \<Rightarrow> nat \<Rightarrow> room_backend" where
  "new_room_backend battle_max_frames room_ttl_ms =
     \<lparr>rb_rooms = [], rb_next_battle_id = 1, rb_battle_max_frames = (if battle_max_frames > 0 then battle_max_frames else 3),
      rb_room_ttl_ms = room_ttl_ms\<rparr>"

definition find_room :: "string \<Rightarrow> room_backend \<Rightarrow> lobby_room option" where
  "find_room room_id s = map_of (rb_rooms s) room_id"

definition put_room :: "string \<Rightarrow> lobby_room \<Rightarrow> room_backend \<Rightarrow> room_backend" where
  "put_room room_id room s = s\<lparr>rb_rooms := AList.update room_id room (rb_rooms s)\<rparr>"

definition lobby_find_member :: "lobby_room \<Rightarrow> string \<Rightarrow> lobby_member option" where
  "lobby_find_member room user_id = find (\<lambda>m. lm_user_id m = user_id) (lr_members room)"

definition lobby_all_ready :: "lobby_room \<Rightarrow> bool" where
  "lobby_all_ready room \<longleftrightarrow> length (lr_members room) \<ge> 2 \<and> list_all lm_ready (lr_members room)"

text \<open>What every change does besides: a new version and a fresh activity time.\<close>

definition touch :: "int \<Rightarrow> lobby_room \<Rightarrow> lobby_room" where
  "touch now room = room\<lparr>lr_version := u32_add (lr_version room) 1, lr_last_activity_at := Some now\<rparr>"

fun status_to_string :: "room_status \<Rightarrow> string" where
  "status_to_string Waiting = ''waiting''"
| "status_to_string InInstance = ''in_instance''"
| "status_to_string RoomClosed = ''closed''"

definition member_json :: "lobby_member \<Rightarrow> json" where
  "member_json m = JObject [(''user_id'', JString (lm_user_id m)), (''display_name'', JString (lm_display_name m)), (''ready'', JBool (lm_ready m))]"

definition room_to_json :: "int \<Rightarrow> lobby_room \<Rightarrow> json" where
  "room_to_json now room = JObject (
     [(''room_id'', JString (lr_room_id room)), (''owner_user_id'', JString (lr_owner_user_id room)),
      (''members'', JArray (map member_json (lr_members room))), (''member_count'', JInt (int (length (lr_members room)))),
      (''capacity'', JInt (int (lr_capacity room))), (''visibility'', JString (lr_visibility room)),
      (''version'', JInt (int (lr_version room))), (''status'', JString (status_to_string (lr_status room))),
      (''created_at_ms'', JInt (lr_created_at_ms room))] @
     (if lr_active_battle_id room = [] then [] else [(''active_battle_id'', JString (lr_active_battle_id room))]) @
     (if lr_metadata room = JObject [] then [] else [(''metadata'', lr_metadata room)]) @
     (case lr_last_activity_at room of None \<Rightarrow> [] | Some t \<Rightarrow> [(''idle_ms'', JInt (now - t))]))"

subsection \<open>Requests\<close>

definition room_invalid_json :: room_reply where
  "room_invalid_json = RoomError kInvalidRequest ''invalid_json''"

text \<open>A request that names a user and a room.\<close>

definition with_user_room :: "json option \<Rightarrow> (string \<Rightarrow> string \<Rightarrow> room_backend \<Rightarrow> room_reply \<times> room_backend) \<Rightarrow> room_backend \<Rightarrow> room_reply \<times> room_backend" where
  "with_user_room req k s =
     (if \<not> request_has req [''user_id'', ''room_id''] then (room_invalid_json, s)
      else reading RoomThrew (at_key get_string (the req) ''user_id'') (\<lambda>user_id.
           reading RoomThrew (at_key get_string (the req) ''room_id'') (\<lambda>room_id. k user_id room_id)) s)"

text \<open>The room of a request, under the lock.\<close>

definition in_room :: "string \<Rightarrow> (lobby_room \<Rightarrow> room_backend \<Rightarrow> room_reply \<times> room_backend) \<Rightarrow> room_backend \<Rightarrow> room_reply \<times> room_backend" where
  "in_room room_id k s = (case find_room room_id s of None \<Rightarrow> (RoomError kRoomNotFound ''room_not_found'', s) | Some room \<Rightarrow> k room s)"

definition create_lobby ::
  "int \<Rightarrow> int \<Rightarrow> string \<Rightarrow> string \<Rightarrow> string \<Rightarrow> string \<Rightarrow> int \<Rightarrow> json \<Rightarrow> room_backend \<Rightarrow> room_reply \<times> room_backend" where
  "create_lobby wall now user_id room_id display_name visibility capacity metadata s =
     (if user_id = [] \<or> room_id = [] then (RoomError kInvalidRequest ''empty_fields'', s)
      else if find_room room_id s \<noteq> None then (RoomError kRejected ''room_already_exists'', s)
      else (RoomOk [(''room_id'', JString room_id), (''member_count'', JInt 1), (''version'', JInt 1)],
            put_room room_id
              \<lparr>lr_room_id = room_id, lr_owner_user_id = user_id,
               lr_members = [\<lparr>lm_user_id = user_id, lm_display_name = display_name, lm_ready = False\<rparr>],
               lr_active_battle_id = [], lr_metadata = metadata, lr_capacity = nat (capacity mod 2 ^ 32), lr_visibility = visibility,
               lr_version = 1, lr_status = Waiting, lr_created_at_ms = wall, lr_last_activity_at = Some now\<rparr> s))"

definition request_metadata :: "json \<Rightarrow> json" where
  "request_metadata doc = (case json_find doc ''metadata'' of Some (JObject kvs) \<Rightarrow> JObject kvs | _ \<Rightarrow> JObject [])"

definition lobby_room_create :: "int \<Rightarrow> int \<Rightarrow> json option \<Rightarrow> room_backend \<Rightarrow> room_reply \<times> room_backend" where
  "lobby_room_create wall now req =
     with_user_room req (\<lambda>user_id room_id.
       reading RoomThrew (value_or get_string (the req) ''display_name'' user_id) (\<lambda>display_name.
       reading RoomThrew (value_or get_string (the req) ''visibility'' ''public'') (\<lambda>visibility.
       reading RoomThrew (value_or get_int32 (the req) ''capacity'' 0) (\<lambda>capacity.
         create_lobby wall now user_id room_id display_name visibility capacity (request_metadata (the req))))))"

definition join_lobby :: "int \<Rightarrow> string \<Rightarrow> string \<Rightarrow> string \<Rightarrow> room_backend \<Rightarrow> room_reply \<times> room_backend" where
  "join_lobby now user_id room_id display_name =
     in_room room_id (\<lambda>room s.
       if lr_status room = InInstance then (RoomError kRoomInInstance ''room_in_instance'', s)
       else if lr_status room = RoomClosed then (RoomError kRoomClosed ''room_closed'', s)
       else if lobby_find_member room user_id \<noteq> None
       then (RoomOk [(''room_id'', JString room_id), (''member_count'', JInt (int (length (lr_members room))))], s)
       else if lr_capacity room > 0 \<and> length (lr_members room) \<ge> lr_capacity room then (RoomError kRoomFull ''room_full'', s)
       else
        (let room1 = touch now (room\<lparr>lr_members := lr_members room @ [\<lparr>lm_user_id = user_id, lm_display_name = display_name, lm_ready = False\<rparr>]\<rparr>)
         in (RoomOk [(''room_id'', JString room_id), (''member_count'', JInt (int (length (lr_members room1))))], put_room room_id room1 s)))"

definition lobby_room_join :: "int \<Rightarrow> json option \<Rightarrow> room_backend \<Rightarrow> room_reply \<times> room_backend" where
  "lobby_room_join now req =
     with_user_room req (\<lambda>user_id room_id.
       reading RoomThrew (value_or get_string (the req) ''display_name'' user_id) (\<lambda>display_name. join_lobby now user_id room_id display_name))"

text \<open>The first member of that name is written.\<close>

fun mark_ready :: "string \<Rightarrow> bool \<Rightarrow> lobby_member list \<Rightarrow> lobby_member list" where
  "mark_ready user_id ready [] = []"
| "mark_ready user_id ready (m # ms) = (if lm_user_id m = user_id then m\<lparr>lm_ready := ready\<rparr> # ms else m # mark_ready user_id ready ms)"

definition ready_lobby :: "int \<Rightarrow> string \<Rightarrow> string \<Rightarrow> bool \<Rightarrow> room_backend \<Rightarrow> room_reply \<times> room_backend" where
  "ready_lobby now user_id room_id ready =
     in_room room_id (\<lambda>room s.
       if lobby_find_member room user_id = None then (RoomError kNotRoomMember ''not_in_room'', s)
       else
        (let room1 = touch now (room\<lparr>lr_members := mark_ready user_id ready (lr_members room)\<rparr>)
         in (RoomOk [(''room_id'', JString room_id), (''all_ready'', JBool (lobby_all_ready room1)), (''version'', JInt (int (lr_version room1)))],
             put_room room_id room1 s)))"

definition lobby_room_ready :: "int \<Rightarrow> json option \<Rightarrow> room_backend \<Rightarrow> room_reply \<times> room_backend" where
  "lobby_room_ready now req =
     with_user_room req (\<lambda>user_id room_id.
       reading RoomThrew (value_or get_bool (the req) ''ready'' True) (\<lambda>ready. ready_lobby now user_id room_id ready))"

definition forward_battle_create :: "nat \<Rightarrow> string \<Rightarrow> string \<Rightarrow> json \<Rightarrow> json" where
  "forward_battle_create max_frames battle_id room_id player_ids =
     JObject [(''target'', JString ''battle''), (''message_type'', JString ''battle_create''),
       (''payload'', JObject [(''battle_id'', JString battle_id), (''room_id'', JString room_id), (''player_ids'', player_ids),
          (''max_frames'', JInt (int max_frames))])]"

definition start_lobby_battle :: "int \<Rightarrow> string \<Rightarrow> string \<Rightarrow> room_backend \<Rightarrow> room_reply \<times> room_backend" where
  "start_lobby_battle now user_id room_id =
     in_room room_id (\<lambda>room s.
       if user_id \<noteq> lr_owner_user_id room then (RoomError kNotRoomOwner ''not_room_owner'', s)
       else if lr_active_battle_id room \<noteq> [] then (RoomError kRejected ''battle_already_started'', s)
       else if length (lr_members room) < 2 then (RoomError kRejected ''not_enough_players'', s)
       else if \<not> lobby_all_ready room then (RoomError kRejected ''not_all_ready'', s)
       else
        (let battle_id = ''battle_'' @ decimal (rb_next_battle_id s);
             room1 = touch now (room\<lparr>lr_active_battle_id := battle_id, lr_status := InInstance\<rparr>);
             player_ids = JArray (map (JString \<circ> lm_user_id) (lr_members room1))
         in (RoomOk [(''room_id'', JString room_id), (''player_ids'', player_ids), (''version'', JInt (int (lr_version room1))),
               (''forward'', forward_battle_create (rb_battle_max_frames s) battle_id room_id player_ids)],
             put_room room_id room1 (s\<lparr>rb_next_battle_id := rb_next_battle_id s + 1\<rparr>))))"

definition lobby_start_battle :: "int \<Rightarrow> json option \<Rightarrow> room_backend \<Rightarrow> room_reply \<times> room_backend" where
  "lobby_start_battle now req = with_user_room req (start_lobby_battle now)"

definition leave_lobby :: "int \<Rightarrow> string \<Rightarrow> string \<Rightarrow> room_backend \<Rightarrow> room_reply \<times> room_backend" where
  "leave_lobby now user_id room_id =
     in_room room_id (\<lambda>room s.
       let was_owner = (lr_owner_user_id room = user_id); members = filter (\<lambda>m. lm_user_id m \<noteq> user_id) (lr_members room) in
       if members = lr_members room then (RoomError kNotRoomMember ''not_in_room'', s)
       else
        (let room1 = touch now (room\<lparr>lr_members := members\<rparr>);
             new_owner_id = (if members \<noteq> [] \<and> was_owner then lm_user_id (hd members) else []);
             reply = RoomOk [(''room_id'', JString room_id), (''was_owner'', JBool was_owner), (''new_owner_id'', JString new_owner_id)]
         in if members = [] then (reply, s\<lparr>rb_rooms := AList.delete room_id (rb_rooms s)\<rparr>)
            else if was_owner then (reply, put_room room_id (room1\<lparr>lr_owner_user_id := new_owner_id\<rparr>) s)
            else (reply, put_room room_id room1 s)))"

definition lobby_room_leave :: "int \<Rightarrow> json option \<Rightarrow> room_backend \<Rightarrow> room_reply \<times> room_backend" where
  "lobby_room_leave now req = with_user_room req (leave_lobby now)"

definition finish_lobby_battle :: "int \<Rightarrow> string \<Rightarrow> string \<Rightarrow> room_backend \<Rightarrow> room_reply \<times> room_backend" where
  "finish_lobby_battle now room_id battle_id =
     in_room room_id (\<lambda>room s.
       if lr_active_battle_id room \<noteq> [] \<and> lr_active_battle_id room \<noteq> battle_id then (RoomError kRejected ''battle_mismatch'', s)
       else
        (let room1 = touch now (room\<lparr>lr_active_battle_id := [], lr_status := Waiting,
                lr_members := map (\<lambda>m. m\<lparr>lm_ready := False\<rparr>) (lr_members room)\<rparr>)
         in (RoomOk [(''room_id'', JString room_id), (''battle_id'', JString battle_id), (''version'', JInt (int (lr_version room1)))],
             put_room room_id room1 s)))"

definition lobby_battle_finished :: "int \<Rightarrow> json option \<Rightarrow> room_backend \<Rightarrow> room_reply \<times> room_backend" where
  "lobby_battle_finished now req s =
     (if \<not> request_has req [''room_id'', ''battle_id''] then (room_invalid_json, s)
      else reading RoomThrew (at_key get_string (the req) ''room_id'') (\<lambda>room_id.
           reading RoomThrew (at_key get_string (the req) ''battle_id'') (\<lambda>battle_id. finish_lobby_battle now room_id battle_id)) s)"

text \<open>Pages are counted in 32-bit arithmetic.\<close>

definition page_number :: "int \<Rightarrow> nat" where
  "page_number page = (let p = nat (page mod 2 ^ 32) in if p < 1 then 1 else p)"

definition page_length :: "int \<Rightarrow> nat" where
  "page_length page_size =
     (let n = nat (page_size mod 2 ^ 32); n1 = (if n < 1 then 20 else n) in if n1 > 100 then 100 else n1)"

definition total_pages :: "nat \<Rightarrow> nat \<Rightarrow> nat" where
  "total_pages count page_size = (let n = (count + page_size - 1) mod 2 ^ 32 div page_size in if n < 1 then 1 else n)"

definition page_of :: "'a list \<Rightarrow> nat \<Rightarrow> nat \<Rightarrow> 'a list" where
  "page_of matches page page_size =
     (let count = length matches mod 2 ^ 32;
          start = ((page - 1) * page_size) mod 2 ^ 32;
          stop = min ((start + page_size) mod 2 ^ 32) count
      in if start < count then map (\<lambda>i. matches ! i) [start..<stop] else [])"

definition list_matches :: "(room_table \<Rightarrow> room_table) \<Rightarrow> string \<Rightarrow> string \<Rightarrow> room_backend \<Rightarrow> lobby_room list" where
  "list_matches walk visibility status s =
     filter (\<lambda>room. (visibility = [] \<or> lr_visibility room = visibility) \<and> (status = [] \<or> status_to_string (lr_status room) = status))
       (map snd (walk (rb_rooms s)))"

definition list_lobby :: "(room_table \<Rightarrow> room_table) \<Rightarrow> int \<Rightarrow> string \<Rightarrow> string \<Rightarrow> int \<Rightarrow> int \<Rightarrow> room_backend \<Rightarrow> room_reply \<times> room_backend" where
  "list_lobby walk now visibility status page page_size s =
     (let matches = map (room_to_json now) (list_matches walk visibility status s);
          p = page_number page; n = page_length page_size; count = length matches mod 2 ^ 32
      in (RoomOk [(''rooms'', JArray (page_of matches p n)), (''total'', JInt (int count)), (''page'', JInt (int p)),
            (''page_size'', JInt (int n)), (''total_pages'', JInt (int (total_pages count n)))], s))"

definition lobby_room_list :: "(room_table \<Rightarrow> room_table) \<Rightarrow> int \<Rightarrow> json option \<Rightarrow> room_backend \<Rightarrow> room_reply \<times> room_backend" where
  "lobby_room_list walk now req s =
     (if \<not> request_has req [] then (room_invalid_json, s)
      else reading RoomThrew (value_or get_string (the req) ''visibility'' []) (\<lambda>visibility.
           reading RoomThrew (value_or get_string (the req) ''status'' []) (\<lambda>status.
           reading RoomThrew (value_or get_int32 (the req) ''page'' 1) (\<lambda>page.
           reading RoomThrew (value_or get_int32 (the req) ''page_size'' 20) (\<lambda>page_size.
             list_lobby walk now visibility status page page_size)))) s)"

definition lobby_room_detail :: "int \<Rightarrow> json option \<Rightarrow> room_backend \<Rightarrow> room_reply \<times> room_backend" where
  "lobby_room_detail now req s =
     (if \<not> request_has req [''room_id''] then (room_invalid_json, s)
      else reading RoomThrew (at_key get_string (the req) ''room_id'') (\<lambda>room_id.
        in_room room_id (\<lambda>room s. (RoomOk [(''room'', room_to_json now room)], s))) s)"

definition kick_lobby :: "int \<Rightarrow> string \<Rightarrow> string \<Rightarrow> string \<Rightarrow> room_backend \<Rightarrow> room_reply \<times> room_backend" where
  "kick_lobby now user_id room_id target_user_id =
     in_room room_id (\<lambda>room s.
       if user_id \<noteq> lr_owner_user_id room then (RoomError kNotRoomOwner ''not_room_owner'', s)
       else if target_user_id = lr_owner_user_id room then (RoomError kRejected ''cannot_kick_self'', s)
       else
        (let members = filter (\<lambda>m. lm_user_id m \<noteq> target_user_id) (lr_members room) in
         if members = lr_members room then (RoomError kNotRoomMember ''target_not_in_room'', s)
         else (RoomOk [(''room_id'', JString room_id), (''kicked_user_id'', JString target_user_id), (''member_count'', JInt (int (length members)))],
               put_room room_id (touch now (room\<lparr>lr_members := members\<rparr>)) s)))"

definition lobby_room_kick :: "int \<Rightarrow> json option \<Rightarrow> room_backend \<Rightarrow> room_reply \<times> room_backend" where
  "lobby_room_kick now req s =
     (if \<not> request_has req [''user_id'', ''room_id'', ''target_user_id''] then (room_invalid_json, s)
      else reading RoomThrew (at_key get_string (the req) ''user_id'') (\<lambda>user_id.
           reading RoomThrew (at_key get_string (the req) ''room_id'') (\<lambda>room_id.
           reading RoomThrew (at_key get_string (the req) ''target_user_id'') (\<lambda>target. kick_lobby now user_id room_id target))) s)"

definition transfer_lobby :: "int \<Rightarrow> string \<Rightarrow> string \<Rightarrow> string \<Rightarrow> room_backend \<Rightarrow> room_reply \<times> room_backend" where
  "transfer_lobby now user_id room_id new_owner_id =
     in_room room_id (\<lambda>room s.
       if user_id \<noteq> lr_owner_user_id room then (RoomError kNotRoomOwner ''not_room_owner'', s)
       else if lobby_find_member room new_owner_id = None then (RoomError kNotRoomMember ''new_owner_not_in_room'', s)
       else if new_owner_id = user_id then (RoomError kRejected ''already_owner'', s)
       else
        (let room1 = touch now (room\<lparr>lr_owner_user_id := new_owner_id\<rparr>)
         in (RoomOk [(''room_id'', JString room_id), (''new_owner_id'', JString new_owner_id), (''version'', JInt (int (lr_version room1)))],
             put_room room_id room1 s)))"

definition lobby_transfer_owner :: "int \<Rightarrow> json option \<Rightarrow> room_backend \<Rightarrow> room_reply \<times> room_backend" where
  "lobby_transfer_owner now req s =
     (if \<not> request_has req [''user_id'', ''room_id'', ''new_owner_id''] then (room_invalid_json, s)
      else reading RoomThrew (at_key get_string (the req) ''user_id'') (\<lambda>user_id.
           reading RoomThrew (at_key get_string (the req) ''room_id'') (\<lambda>room_id.
           reading RoomThrew (at_key get_string (the req) ''new_owner_id'') (\<lambda>owner. transfer_lobby now user_id room_id owner))) s)"

definition lobby_state_push :: "int \<Rightarrow> int \<Rightarrow> json option \<Rightarrow> room_backend \<Rightarrow> room_reply \<times> room_backend" where
  "lobby_state_push wall now req s =
     (if \<not> request_has req [''room_id''] then (room_invalid_json, s)
      else reading RoomThrew (at_key get_string (the req) ''room_id'') (\<lambda>room_id.
           reading RoomThrew (value_or get_string (the req) ''event_type'' ''state_changed'') (\<lambda>event_type.
             in_room room_id (\<lambda>room s.
               (RoomPushed (JObject [(''type'', JString ''room_state_push''), (''event_type'', JString event_type), (''room_id'', JString room_id),
                  (''room'', room_to_json now room), (''timestamp'', JInt wall),
                  (''member_user_ids'', JArray (map (JString \<circ> lm_user_id) (lr_members room)))]), s)))) s)"

subsection \<open>Cleaning up\<close>

definition room_expired :: "nat \<Rightarrow> int \<Rightarrow> lobby_room \<Rightarrow> bool" where
  "room_expired ttl now room \<longleftrightarrow>
     lr_status room = Waiting \<and> (case lr_last_activity_at room of None \<Rightarrow> False | Some t \<Rightarrow> now - t \<ge> int ttl)"

definition cleanup_expired_rooms :: "int \<Rightarrow> room_backend \<Rightarrow> room_backend" where
  "cleanup_expired_rooms now s =
     s\<lparr>rb_rooms := fold AList.delete (map fst (filter (\<lambda>(id, room). room_expired (rb_room_ttl_ms s) now room) (rb_rooms s))) (rb_rooms s)\<rparr>"

datatype room_event =
    RoomCreate int int "json option" | RoomJoin int "json option" | RoomReady int "json option" | RoomStartBattle int "json option"
  | RoomLeave int "json option" | RoomBattleFinished int "json option" | RoomList int "json option" | RoomDetail int "json option"
  | RoomKick int "json option" | RoomTransferOwner int "json option" | RoomStatePush int int "json option" | Cleanup int

fun lobby_step :: "(room_table \<Rightarrow> room_table) \<Rightarrow> room_event \<Rightarrow> room_backend \<Rightarrow> room_backend" where
  "lobby_step walk (RoomCreate wall now req) s = snd (lobby_room_create wall now req s)"
| "lobby_step walk (RoomJoin now req) s = snd (lobby_room_join now req s)"
| "lobby_step walk (RoomReady now req) s = snd (lobby_room_ready now req s)"
| "lobby_step walk (RoomStartBattle now req) s = snd (lobby_start_battle now req s)"
| "lobby_step walk (RoomLeave now req) s = snd (lobby_room_leave now req s)"
| "lobby_step walk (RoomBattleFinished now req) s = snd (lobby_battle_finished now req s)"
| "lobby_step walk (RoomList now req) s = snd (lobby_room_list walk now req s)"
| "lobby_step walk (RoomDetail now req) s = snd (lobby_room_detail now req s)"
| "lobby_step walk (RoomKick now req) s = snd (lobby_room_kick now req s)"
| "lobby_step walk (RoomTransferOwner now req) s = snd (lobby_transfer_owner now req s)"
| "lobby_step walk (RoomStatePush wall now req) s = snd (lobby_state_push wall now req s)"
| "lobby_step walk (Cleanup now) s = cleanup_expired_rooms now s"

subsection \<open>The lobby's invariant\<close>

definition room_good :: "nat \<Rightarrow> string \<Rightarrow> lobby_room \<Rightarrow> bool" where
  "room_good next k r \<longleftrightarrow> lr_room_id r = k \<and> distinct (map lm_user_id (lr_members r)) \<and>
     lr_owner_user_id r \<in> lm_user_id ` set (lr_members r) \<and> (lr_capacity r = 0 \<or> length (lr_members r) \<le> lr_capacity r) \<and>
     (if lr_active_battle_id r = [] then lr_status r = Waiting
      else lr_status r = InInstance \<and> (\<exists>n < next. lr_active_battle_id r = ''battle_'' @ decimal n))"

definition lobby_ok :: "room_backend \<Rightarrow> bool" where
  "lobby_ok s \<longleftrightarrow> distinct (map fst (rb_rooms s)) \<and> (\<forall>k r. find_room k s = Some r \<longrightarrow> room_good (rb_next_battle_id s) k r) \<and>
     (\<forall>k1 k2 r1 r2. find_room k1 s = Some r1 \<longrightarrow> find_room k2 s = Some r2 \<longrightarrow> lr_active_battle_id r1 = lr_active_battle_id r2 \<longrightarrow>
        lr_active_battle_id r1 \<noteq> [] \<longrightarrow> k1 = k2)"

lemma lobby_okD: "lobby_ok s \<Longrightarrow> find_room k s = Some r \<Longrightarrow> room_good (rb_next_battle_id s) k r"
  by (simp add: lobby_ok_def)

lemma lobby_ok_battles:
  "lobby_ok s \<Longrightarrow> find_room k1 s = Some r1 \<Longrightarrow> find_room k2 s = Some r2 \<Longrightarrow> lr_active_battle_id r1 = lr_active_battle_id r2 \<Longrightarrow>
     lr_active_battle_id r1 \<noteq> [] \<Longrightarrow> k1 = k2"
  unfolding lobby_ok_def by blast

lemma find_put_room [simp]: "find_room k (put_room k' r s) = (if k = k' then Some r else find_room k s)"
  "rb_next_battle_id (put_room k' r s) = rb_next_battle_id s" "find_room k (s\<lparr>rb_next_battle_id := n\<rparr>) = find_room k s"
  by (simp_all add: find_room_def put_room_def update_conv')

lemma lobby_ok_put:
  assumes "lobby_ok s" and "room_good (rb_next_battle_id s) k r"
    and "lr_active_battle_id r = [] \<or> (\<exists>r0. find_room k s = Some r0 \<and> lr_active_battle_id r0 = lr_active_battle_id r)"
  shows "lobby_ok (put_room k r s)"
proof -
  have "distinct (map fst (rb_rooms (put_room k r s)))" using assms(1) by (simp add: lobby_ok_def put_room_def distinct_update)
  moreover have "room_good (rb_next_battle_id s) k' r'" if "find_room k' (put_room k r s) = Some r'" for k' r'
    using that assms(1,2) by (auto simp: lobby_ok_def split: if_splits)
  moreover have "k1 = k2" if "find_room k1 (put_room k r s) = Some r1" "find_room k2 (put_room k r s) = Some r2"
    "lr_active_battle_id r1 = lr_active_battle_id r2" "lr_active_battle_id r1 \<noteq> []" for k1 k2 r1 r2
    using that assms(1,3) unfolding lobby_ok_def find_put_room by (smt (verit) option.inject)
  ultimately show ?thesis unfolding lobby_ok_def find_put_room(2) by blast
qed

lemma lobby_ok_subset:
  assumes "lobby_ok s" and "rb_next_battle_id s' = rb_next_battle_id s" and "distinct (map fst (rb_rooms s'))"
    and "\<And>k r. find_room k s' = Some r \<Longrightarrow> find_room k s = Some r"
  shows "lobby_ok s'"
  using assms unfolding lobby_ok_def by metis

lemma in_room_keeps:
  assumes "P s" and "\<And>room. find_room room_id s = Some room \<Longrightarrow> P (snd (k room s))"
  shows "P (snd (in_room room_id k s))"
  using assms by (auto simp: in_room_def split: option.split)

lemma with_user_room_keeps:
  assumes "P s" and "\<And>u r. P (snd (k u r s))"
  shows "P (snd (with_user_room req k s))"
  using assms by (auto simp: with_user_room_def intro!: reading_keeps[where P = P])

lemma touch_simps [simp]:
  "lr_room_id (touch now r) = lr_room_id r" "lr_members (touch now r) = lr_members r" "lr_owner_user_id (touch now r) = lr_owner_user_id r"
  "lr_capacity (touch now r) = lr_capacity r" "lr_active_battle_id (touch now r) = lr_active_battle_id r" "lr_status (touch now r) = lr_status r"
  by (simp_all add: touch_def)

lemma room_good_touch [simp]: "room_good n k (touch now r) = room_good n k r" "room_good n k (r\<lparr>lr_owner_user_id := lr_owner_user_id r\<rparr>) = room_good n k r"
  by (simp_all add: room_good_def)

text \<open>A room whose members change keeps being good as long as the owner stays and nobody is named twice.\<close>

lemma room_good_members:
  assumes "room_good n k r" and "distinct (map lm_user_id ms)" and "owner \<in> lm_user_id ` set ms"
    and "lr_capacity r = 0 \<or> length ms \<le> lr_capacity r"
  shows "room_good n k (r\<lparr>lr_members := ms, lr_owner_user_id := owner\<rparr>)"
  using assms by (auto simp: room_good_def split: if_splits)

lemma lobby_ok_change:
  assumes "lobby_ok s" and "find_room k s = Some r" and "room_good (rb_next_battle_id s) k r'"
    and "lr_active_battle_id r' = [] \<or> lr_active_battle_id r' = lr_active_battle_id r"
  shows "lobby_ok (put_room k (touch now r') s)"
  using assms by (intro lobby_ok_put) auto

lemma mark_ready_users [simp]: "map lm_user_id (mark_ready u b ms) = map lm_user_id ms"
  by (induction ms) simp_all

lemma mark_ready_simps [simp]: "lm_user_id ` set (mark_ready u b ms) = lm_user_id ` set ms" "length (mark_ready u b ms) = length ms"
  by (metis list.set_map mark_ready_users) (metis length_map mark_ready_users)

lemma lobby_find_member_None: "lobby_find_member room u = None \<longleftrightarrow> u \<notin> lm_user_id ` set (lr_members room)"
  by (auto simp: lobby_find_member_def find_None_iff)

lemma room_goodD:
  assumes "room_good n k r"
  shows "distinct (map lm_user_id (lr_members r))" "lr_owner_user_id r \<in> lm_user_id ` set (lr_members r)"
    "lr_capacity r = 0 \<or> length (lr_members r) \<le> lr_capacity r" "lr_room_id r = k"
  using assms by (auto simp: room_good_def)

lemma create_lobby_ok: "lobby_ok s \<Longrightarrow> lobby_ok (snd (create_lobby wall now u k d v c m s))"
  by (auto simp: create_lobby_def intro!: lobby_ok_put) (auto simp: room_good_def)

lemma join_lobby_ok:
  assumes ok: "lobby_ok s"
  shows "lobby_ok (snd (join_lobby now u k d s))"
proof -
  have "lobby_ok (put_room k (touch now (room\<lparr>lr_members := lr_members room @ [\<lparr>lm_user_id = u, lm_display_name = d, lm_ready = False\<rparr>]\<rparr>)) s)"
    if f: "find_room k s = Some room" and "lobby_find_member room u = None"
      and "lr_capacity room = 0 \<or> \<not> lr_capacity room \<le> length (lr_members room)" for room
    using that room_good_members[OF lobby_okD[OF ok f], of _ "lr_owner_user_id room"] room_goodD[OF lobby_okD[OF ok f]]
    by (intro lobby_ok_change[OF ok f]) (auto simp: lobby_find_member_None)
  then show ?thesis unfolding join_lobby_def using ok by (auto intro!: in_room_keeps[where P = lobby_ok] simp: Let_def)
qed

lemma ready_lobby_ok:
  assumes ok: "lobby_ok s"
  shows "lobby_ok (snd (ready_lobby now u k b s))"
proof -
  have "lobby_ok (put_room k (touch now (room\<lparr>lr_members := mark_ready u b (lr_members room)\<rparr>)) s)" if f: "find_room k s = Some room" for room
    using room_good_members[OF lobby_okD[OF ok f], of _ "lr_owner_user_id room"] room_goodD[OF lobby_okD[OF ok f]]
    by (intro lobby_ok_change[OF ok f]) auto
  then show ?thesis unfolding ready_lobby_def using ok by (auto intro!: in_room_keeps[where P = lobby_ok] simp: Let_def)
qed

lemma room_good_next: "room_good n k r \<Longrightarrow> n \<le> n' \<Longrightarrow> room_good n' k r"
  by (auto simp: room_good_def split: if_splits intro: less_le_trans)

lemma start_lobby_ok:
  assumes ok: "lobby_ok s"
  shows "lobby_ok (snd (start_lobby_battle now u k s))"
proof -
  let ?id = "''battle_'' @ decimal (rb_next_battle_id s)" and ?s = "s\<lparr>rb_next_battle_id := rb_next_battle_id s + 1\<rparr>"
  have "lobby_ok (put_room k (touch now (room\<lparr>lr_active_battle_id := ?id, lr_status := InInstance\<rparr>)) ?s)" (is "lobby_ok ?s'")
    if f: "find_room k s = Some room" for room
  proof -
    have fresh: "lr_active_battle_id r \<noteq> ?id" if "find_room k' s = Some r" for k' r
      using lobby_okD[OF ok that] by (auto simp: room_good_def decimal_inj split: if_splits)
    have f': "find_room k' ?s' = (if k' = k then Some (touch now (room\<lparr>lr_active_battle_id := ?id, lr_status := InInstance\<rparr>)) else find_room k' s)" for k'
      by simp
    have "distinct (map fst (rb_rooms ?s'))" using ok by (simp add: lobby_ok_def put_room_def distinct_update)
    moreover have "room_good (rb_next_battle_id ?s') k' r" if "find_room k' ?s' = Some r" for k' r
    proof (cases "k' = k")
      case True
      with that lobby_okD[OF ok f] show ?thesis by (auto simp: f' room_good_def)
    next
      case False
      with that lobby_okD[OF ok, of k' r] room_good_next[of "rb_next_battle_id s" k' r "Suc (rb_next_battle_id s)"]
      show ?thesis by (simp add: f')
    qed
    moreover have "k1 = k2" if "find_room k1 ?s' = Some r1" "find_room k2 ?s' = Some r2"
      "lr_active_battle_id r1 = lr_active_battle_id r2" "lr_active_battle_id r1 \<noteq> []" for k1 k2 r1 r2
      using that fresh[of k1 r1] fresh[of k2 r2] lobby_ok_battles[OF ok, of k1 r1 k2 r2] by (auto simp: f' split: if_splits)
    ultimately show ?thesis unfolding lobby_ok_def by blast
  qed
  then show ?thesis unfolding start_lobby_battle_def using ok by (auto intro!: in_room_keeps[where P = lobby_ok] simp: Let_def)
qed

lemma touch_owner: "(touch now r)\<lparr>lr_owner_user_id := v\<rparr> = touch now (r\<lparr>lr_owner_user_id := v\<rparr>)"
  by (cases r) (simp add: touch_def)

lemma leave_lobby_ok:
  assumes ok: "lobby_ok s"
  shows "lobby_ok (snd (leave_lobby now u k s))"
proof -
  let ?ms = "\<lambda>room. filter (\<lambda>m. lm_user_id m \<noteq> u) (lr_members room)"
  have put: "lobby_ok (put_room k (touch now (room\<lparr>lr_members := ?ms room, lr_owner_user_id := owner\<rparr>)) s)"
    if f: "find_room k s = Some room" and "owner \<in> lm_user_id ` set (?ms room)" for room owner
  proof -
    have "lr_capacity room = 0 \<or> length (?ms room) \<le> lr_capacity room"
      using room_goodD(3)[OF lobby_okD[OF ok f]] le_trans[OF length_filter_le] by blast
    with that room_goodD(1)[OF lobby_okD[OF ok f]] show ?thesis
      by (intro lobby_ok_change[OF ok f] room_good_members[OF lobby_okD[OF ok f]]) (auto simp: distinct_map_filter)
  qed
  have new_owner: "lobby_ok (put_room k ((touch now (room\<lparr>lr_members := ?ms room\<rparr>))\<lparr>lr_owner_user_id := lm_user_id (hd (?ms room))\<rparr>) s)"
    if "find_room k s = Some room" "?ms room \<noteq> []" for room
    unfolding touch_owner by (rule put[OF that(1)]) (intro imageI hd_in_set that(2))
  have same_owner: "lobby_ok (put_room k (touch now (room\<lparr>lr_members := ?ms room\<rparr>)) s)"
    if "find_room k s = Some room" "lr_owner_user_id room \<noteq> u" for room
    using put[OF that(1), of "lr_owner_user_id room"] that(2) room_goodD(2)[OF lobby_okD[OF ok that(1)]]
    by (auto simp: image_iff)
  have del: "lobby_ok (s\<lparr>rb_rooms := AList.delete k (rb_rooms s)\<rparr>)"
    using ok by (intro lobby_ok_subset[OF ok]) (auto simp: lobby_ok_def distinct_delete find_room_def delete_conv' split: if_splits)
  show ?thesis unfolding leave_lobby_def
    by (rule in_room_keeps[where P = lobby_ok, OF ok]) (auto simp: Let_def ok del new_owner same_owner)
qed

lemma finish_lobby_ok:
  assumes ok: "lobby_ok s"
  shows "lobby_ok (snd (finish_lobby_battle now k b s))"
proof -
  have "lobby_ok (put_room k (touch now (room\<lparr>lr_active_battle_id := [], lr_status := Waiting,
      lr_members := map (\<lambda>m. m\<lparr>lm_ready := False\<rparr>) (lr_members room)\<rparr>)) s)" if f: "find_room k s = Some room" for room
    using lobby_okD[OF ok f] by (intro lobby_ok_change[OF ok f]) (auto simp: room_good_def comp_def image_image split: if_splits)
  then show ?thesis unfolding finish_lobby_battle_def by (intro in_room_keeps[where P = lobby_ok, OF ok]) (auto simp: Let_def ok)
qed

lemma kick_lobby_ok:
  assumes ok: "lobby_ok s"
  shows "lobby_ok (snd (kick_lobby now u k t s))"
proof -
  let ?ms = "\<lambda>room. filter (\<lambda>m. lm_user_id m \<noteq> t) (lr_members room)"
  have "lobby_ok (put_room k (touch now (room\<lparr>lr_members := ?ms room\<rparr>)) s)" if f: "find_room k s = Some room" "t \<noteq> lr_owner_user_id room" for room
  proof -
    have "lr_capacity room = 0 \<or> length (?ms room) \<le> lr_capacity room"
      using room_goodD(3)[OF lobby_okD[OF ok f(1)]] le_trans[OF length_filter_le] by blast
    moreover have "lr_owner_user_id room \<in> lm_user_id ` set (?ms room)"
      using room_goodD(2)[OF lobby_okD[OF ok f(1)]] f(2) by auto
    ultimately show ?thesis
      using room_good_members[OF lobby_okD[OF ok f(1)], of "?ms room" "lr_owner_user_id room"] room_goodD(1)[OF lobby_okD[OF ok f(1)]]
      by (intro lobby_ok_change[OF ok f(1)]) (auto simp: distinct_map_filter)
  qed
  then show ?thesis unfolding kick_lobby_def by (intro in_room_keeps[where P = lobby_ok, OF ok]) (auto simp: Let_def ok)
qed

lemma transfer_lobby_ok:
  assumes ok: "lobby_ok s"
  shows "lobby_ok (snd (transfer_lobby now u k t s))"
proof -
  have "lobby_ok (put_room k (touch now (room\<lparr>lr_owner_user_id := t\<rparr>)) s)" if f: "find_room k s = Some room" "lobby_find_member room t \<noteq> None" for room
    using lobby_okD[OF ok f(1)] f(2) by (intro lobby_ok_change[OF ok f(1)]) (auto simp: room_good_def lobby_find_member_None split: if_splits)
  then show ?thesis unfolding transfer_lobby_def by (intro in_room_keeps[where P = lobby_ok, OF ok]) (auto simp: Let_def ok)
qed

lemma fold_delete: "map_of (fold AList.delete ks xs) k = (if k \<in> set ks then None else map_of xs k)"
  "distinct (map fst xs) \<Longrightarrow> distinct (map fst (fold AList.delete ks xs))"
  by (induction ks arbitrary: xs) (auto simp: delete_conv' distinct_delete)

text \<open>What is left after cleaning up: the rooms that are not idle, unchanged.\<close>

lemma cleanup_find:
  assumes "distinct (map fst (rb_rooms s))"
  shows "find_room k (cleanup_expired_rooms now s) =
    (case find_room k s of None \<Rightarrow> None | Some r \<Rightarrow> if room_expired (rb_room_ttl_ms s) now r then None else Some r)"
proof -
  have "k \<in> fst ` set (filter (\<lambda>(id, room). room_expired t now room) (rb_rooms s)) \<longleftrightarrow>
      (\<exists>r. find_room k s = Some r \<and> room_expired t now r)" for t
    using assms by (force simp: find_room_def)
  then show ?thesis by (auto simp: cleanup_expired_rooms_def find_room_def[of _ "_\<lparr>rb_rooms := _\<rparr>"] fold_delete find_room_def[of k s, symmetric] split: option.split)
qed

lemma cleanup_ok: "lobby_ok s \<Longrightarrow> lobby_ok (cleanup_expired_rooms now s)"
  by (rule lobby_ok_subset[of s]) (auto simp: cleanup_find lobby_ok_def split: option.splits if_splits, simp_all add: cleanup_expired_rooms_def fold_delete)

lemma lobby_ok_step: "lobby_ok s \<Longrightarrow> lobby_ok (lobby_step walk ev s)"
  by (cases ev) (auto simp: lobby_room_create_def lobby_room_join_def lobby_room_ready_def lobby_start_battle_def lobby_room_leave_def
      lobby_battle_finished_def lobby_room_list_def list_lobby_def lobby_room_detail_def lobby_room_kick_def lobby_transfer_owner_def lobby_state_push_def
      cleanup_ok create_lobby_ok join_lobby_ok ready_lobby_ok start_lobby_ok leave_lobby_ok finish_lobby_ok kick_lobby_ok transfer_lobby_ok Let_def
      intro!: with_user_room_keeps[where P = lobby_ok] reading_keeps[where P = lobby_ok] in_room_keeps[where P = lobby_ok])

lemma lobby_step_ttl: "rb_room_ttl_ms (lobby_step walk ev s) = rb_room_ttl_ms s"
  by (cases ev) (auto simp: lobby_room_create_def lobby_room_join_def lobby_room_ready_def lobby_start_battle_def lobby_room_leave_def
      lobby_battle_finished_def lobby_room_list_def list_lobby_def lobby_room_detail_def lobby_room_kick_def lobby_transfer_owner_def lobby_state_push_def
      create_lobby_def join_lobby_def ready_lobby_def start_lobby_battle_def leave_lobby_def finish_lobby_battle_def kick_lobby_def transfer_lobby_def
      cleanup_expired_rooms_def put_room_def with_user_room_def reading_def in_room_def Let_def split: sum.split option.split)

lemma lobby_ok_run: "lobby_ok (fold (lobby_step walk) evs (new_room_backend frames ttl))"
proof -
  have "lobby_ok s0 \<Longrightarrow> lobby_ok (fold (lobby_step walk) es s0)" for es s0
    by (induction es arbitrary: s0) (simp_all add: lobby_ok_step)
  moreover have "lobby_ok (new_room_backend frames ttl)" by (simp add: lobby_ok_def new_room_backend_def find_room_def)
  ultimately show ?thesis by blast
qed

text \<open>C24: The lobby is consistent.  After any requests and clean-ups every room has distinct members and an owner
  among them, stays within its capacity, is in an instance exactly while it has a battle, and no two
  rooms have the same battle.\<close>

theorem lobby_rooms_consistent:
  assumes "s = fold (lobby_step walk) evs (new_room_backend frames ttl)" and "find_room k s = Some r"
  shows "lr_room_id r = k \<and> distinct (map lm_user_id (lr_members r)) \<and> lr_owner_user_id r \<in> lm_user_id ` set (lr_members r) \<and>
    (lr_capacity r = 0 \<or> length (lr_members r) \<le> lr_capacity r) \<and>
    lr_status r = (if lr_active_battle_id r = [] then Waiting else InInstance) \<and>
    (\<forall>k' r'. find_room k' s = Some r' \<and> lr_active_battle_id r' = lr_active_battle_id r \<and> lr_active_battle_id r \<noteq> [] \<longrightarrow> k' = k)"
proof -
  have ok: "lobby_ok s" by (simp add: assms(1) lobby_ok_run)
  from lobby_okD[OF ok assms(2)] lobby_ok_battles[OF ok _ assms(2)] show ?thesis
    by (auto simp: room_good_def split: if_splits)
qed

definition example_create :: "string \<Rightarrow> string \<Rightarrow> room_event" where
  "example_create user room = RoomCreate 5 5 (Some (JObject [(''user_id'', JString user), (''room_id'', JString room), (''capacity'', JInt 2)]))"

definition example_join :: "string \<Rightarrow> string \<Rightarrow> room_event" where
  "example_join user room = RoomJoin 6 (Some (JObject [(''user_id'', JString user), (''room_id'', JString room)]))"

definition example_ready :: "string \<Rightarrow> string \<Rightarrow> room_event" where
  "example_ready user room = RoomReady 7 (Some (JObject [(''user_id'', JString user), (''room_id'', JString room)]))"

definition example_start :: "string \<Rightarrow> string \<Rightarrow> room_event" where
  "example_start user room = RoomStartBattle 8 (Some (JObject [(''user_id'', JString user), (''room_id'', JString room)]))"

lemmas lobby_eval = example_create_def example_join_def example_ready_def example_start_def new_room_backend_def lobby_room_create_def
  lobby_room_join_def lobby_room_ready_def lobby_start_battle_def with_user_room_def request_has_def json_has_def at_key_def value_or_def
  get_string_def get_int32_def to_int32_def get_bool_def create_lobby_def join_lobby_def ready_lobby_def start_lobby_battle_def find_room_def put_room_def
  in_room_def touch_def lobby_find_member_def lobby_all_ready_def u32_add_def Let_def

definition example_lobby :: room_backend where
  "example_lobby = fold (lobby_step id) [example_create ''ann'' ''r'', example_join ''bob'' ''r'', example_ready ''ann'' ''r'',
     example_ready ''bob'' ''r'', example_start ''ann'' ''r''] (new_room_backend 3 1000)"

lemma example_lobby_room:
  "map_option (\<lambda>r. (lr_active_battle_id r, length (lr_members r), lr_owner_user_id r)) (find_room ''r'' example_lobby) = Some (''battle_'' @ decimal 1, 2, ''ann'')"
  by (simp add: example_lobby_def lobby_eval)

theorem lobby_rooms_consistent_witness:
  "\<exists>r. find_room ''r'' example_lobby = Some r \<and> lr_status r = InInstance \<and> length (lr_members r) \<le> 2"
proof -
  obtain r where r: "find_room ''r'' example_lobby = Some r" "lr_active_battle_id r \<noteq> []" "length (lr_members r) = 2"
    using example_lobby_room by auto
  from lobby_rooms_consistent[OF example_lobby_def r(1)] have "lr_status r = InInstance" by (simp add: r(2))
  with r show ?thesis by simp
qed

text \<open>A defect.  A message that a battle has finished is accepted by a room without a battle, whichever battle
  it names: a repeated message takes back the ready marks of everybody, so that the next battle cannot
  be started.\<close>

theorem repeated_finish_unreadies:
  assumes "find_room k s = Some r" and "lr_active_battle_id r = []" and "lobby_all_ready r" and "k \<noteq> []"
    and "req = JObject [(''room_id'', JString k), (''battle_id'', JString b)]" and "s' = snd (lobby_battle_finished now (Some req) s)"
  shows "fst (start_lobby_battle now (lr_owner_user_id r) k s') = RoomError kRejected ''not_all_ready'' \<and>
    (\<exists>fields. fst (start_lobby_battle now (lr_owner_user_id r) k s) = RoomOk fields)"
proof -
  let ?r = "touch now (r\<lparr>lr_active_battle_id := [], lr_status := Waiting, lr_members := map (\<lambda>m. m\<lparr>lm_ready := False\<rparr>) (lr_members r)\<rparr>)"
  have "s' = put_room k ?r s"
    using assms by (simp add: lobby_battle_finished_def request_has_def json_has_def at_key_def get_string_def finish_lobby_battle_def in_room_def Let_def)
  moreover have two: "2 \<le> length (lr_members r)" using assms(3) by (simp add: lobby_all_ready_def)
  then obtain m ms where "lr_members r = m # ms" by (cases "lr_members r") auto
  then have "\<not> lobby_all_ready ?r" by (simp add: lobby_all_ready_def)
  ultimately show ?thesis using assms(1-3) two by (simp add: start_lobby_battle_def in_room_def Let_def)
qed

definition example_waiting :: room_backend where
  "example_waiting = fold (lobby_step id) [example_create ''ann'' ''r'', example_join ''bob'' ''r'', example_ready ''ann'' ''r'',
     example_ready ''bob'' ''r''] (new_room_backend 3 1000)"

lemma example_waiting_room:
  "map_option (\<lambda>r. (lr_active_battle_id r, lobby_all_ready r, lr_owner_user_id r)) (find_room ''r'' example_waiting) = Some ([], True, ''ann'')"
  by (simp add: example_waiting_def lobby_eval)

theorem repeated_finish_unreadies_witness:
  "fst (start_lobby_battle 9 ''ann'' ''r'' (snd (lobby_battle_finished 9
     (Some (JObject [(''room_id'', JString ''r''), (''battle_id'', JString ''battle_0'')])) example_waiting))) = RoomError kRejected ''not_all_ready''"
proof -
  obtain r where r: "find_room ''r'' example_waiting = Some r" "lr_active_battle_id r = []" "lobby_all_ready r" "lr_owner_user_id r = ''ann''"
    using example_waiting_room by auto
  from repeated_finish_unreadies[OF r(1-3) _ refl refl, where b = "''battle_0''" and now = 9] show ?thesis by (simp add: r(4))
qed

text \<open>Cleaning up.  A clean-up removes exactly the rooms that wait and have been idle for the configured time, leaves the
  others as they are, and never removes a room with a running battle.\<close>

theorem cleanup_removes_idle_rooms:
  assumes "s = fold (lobby_step walk) evs (new_room_backend frames ttl)"
  shows "find_room k (cleanup_expired_rooms now s) = (case find_room k s of
      None \<Rightarrow> None
    | Some r \<Rightarrow> if lr_active_battle_id r = [] \<and> (\<exists>t. lr_last_activity_at r = Some t \<and> int ttl \<le> now - t) then None else Some r)"
proof -
  have ok: "lobby_ok s" by (simp add: assms lobby_ok_run)
  have "rb_room_ttl_ms (lobby_step walk ev s0) = rb_room_ttl_ms s0" for ev s0 by (rule lobby_step_ttl)
  then have "rb_room_ttl_ms (fold (lobby_step walk) es s0) = rb_room_ttl_ms s0" for es s0 by (induction es arbitrary: s0) simp_all
  then have ttl: "rb_room_ttl_ms s = ttl" by (simp add: assms new_room_backend_def)
  have "lr_status r = Waiting \<longleftrightarrow> lr_active_battle_id r = []" if "find_room k s = Some r" for r
    using lobby_okD[OF ok that] by (auto simp: room_good_def split: if_splits)
  moreover have "distinct (map fst (rb_rooms s))" using ok by (simp add: lobby_ok_def)
  ultimately show ?thesis by (auto simp: cleanup_find ttl room_expired_def split: option.split)
qed

lemma example_idle_room:
  "map_option lr_last_activity_at (find_room ''r'' example_lobby) = Some (Some 8)"
  "map_option (\<lambda>r. (lr_active_battle_id r, lr_last_activity_at r)) (find_room ''r'' example_waiting) = Some ([], Some 7)"
  by (simp_all add: example_lobby_def example_waiting_def lobby_eval)

theorem cleanup_removes_idle_rooms_witness:
  "find_room ''r'' (cleanup_expired_rooms 5000 example_waiting) = None \<and> find_room ''r'' (cleanup_expired_rooms 5000 example_lobby) \<noteq> None"
proof -
  obtain r where r: "find_room ''r'' example_waiting = Some r" "lr_active_battle_id r = []" "lr_last_activity_at r = Some 7"
    using example_idle_room(2) by auto
  obtain r' where r': "find_room ''r'' example_lobby = Some r'" "lr_active_battle_id r' \<noteq> []" using example_lobby_room by auto
  from cleanup_removes_idle_rooms[OF example_waiting_def, of "''r''" 5000] cleanup_removes_idle_rooms[OF example_lobby_def, of "''r''" 5000]
  show ?thesis by (simp add: r r')
qed

subsection \<open>Pages\<close>

lemma map_nth_slice: "stop \<le> length xs \<Longrightarrow> map (\<lambda>i. xs ! i) [start..<stop] = take (stop - start) (drop start xs)"
  by (rule nth_equalityI) auto

lemma page_of_slice:
  assumes "length xs + n < 2 ^ 32" and "p * n < 2 ^ 32 - n"
  shows "page_of xs (Suc p) n = take n (drop (p * n) xs)"
proof -
  have "(p * n + n) mod 2 ^ 32 = p * n + n" "p * n mod 2 ^ 32 = p * n" "length xs mod 2 ^ 32 = length xs" using assms by simp_all
  then show ?thesis by (auto simp: page_of_def Let_def map_nth_slice min_def)
qed

lemma pages_take:
  assumes "length xs + n < 2 ^ 32" and "m * n < 2 ^ 32"
  shows "concat (map (\<lambda>p. page_of xs p n) [1..<Suc m]) = take (m * n) xs"
  using assms(2)
proof (induction m)
  case (Suc m)
  then have "page_of xs (Suc m) n = take n (drop (m * n) xs)" using assms(1) by (intro page_of_slice) simp_all
  moreover have "concat (map (\<lambda>p. page_of xs p n) [1..<Suc m]) = take (m * n) xs" using Suc by simp
  moreover have "take (Suc m * n) xs = take (m * n) xs @ take n (drop (m * n) xs)"
    using take_add[of "m * n" n xs] by (simp only: mult_Suc add.commute)
  ultimately show ?case by simp
qed simp

text \<open>The pages of a room list are the list.  For every page size the client may ask for, the pages from the first to
  the announced last one, put together, are all the matching rooms in order, and none of them is longer than the page size.\<close>

theorem pages_are_the_list:
  assumes "length matches < 2 ^ 31" and "n = page_length page_size"
  shows "concat (map (\<lambda>p. page_of matches p n) [1..<Suc (total_pages (length matches) n)]) = matches \<and>
    1 \<le> total_pages (length matches) n \<and> 1 \<le> n \<and> n \<le> 100 \<and> (\<forall>p. length (page_of matches p n) \<le> n)"
proof -
  have n: "1 \<le> n" "n \<le> 100" by (auto simp: assms(2) page_length_def Let_def)
  define t where "t = total_pages (length matches) n"
  have t: "t = max 1 ((length matches + n - 1) div n)"
    using assms(1) n by (auto simp: t_def total_pages_def Let_def)
  have "length matches \<le> t * n"
  proof -
    have "length matches + n - 1 < ((length matches + n - 1) div n + 1) * n" using n(1) by (simp add: dividend_less_div_times)
    then have "length matches \<le> (length matches + n - 1) div n * n" using n(1) by (simp add: algebra_simps)
    also have "\<dots> \<le> t * n" unfolding t by (intro mult_right_mono) simp_all
    finally show ?thesis .
  qed
  moreover have "t * n < 2 ^ 32"
  proof (cases "(length matches + n - 1) div n \<le> 1")
    case False
    then have "t * n \<le> length matches + n - 1" unfolding t by (simp add: max_def)
    with assms(1) n show ?thesis by simp
  qed (use n in \<open>simp add: t max_def split: if_splits\<close>)
  moreover have "length matches + n < 2 ^ 32" using assms(1) n by simp
  ultimately have "concat (map (\<lambda>p. page_of matches p n) [1..<Suc t]) = matches" using pages_take[of matches n t] by simp
  moreover have "length (page_of matches p n) \<le> n" for p
  proof -
    have "min ((a + n) mod 2 ^ 32) c - a \<le> n" for a c :: nat using mod_less_eq_dividend[of "a + n" "2 ^ 32"] by linarith
    then show ?thesis by (auto simp: page_of_def Let_def)
  qed
  ultimately show ?thesis using n t by (auto simp: t_def)
qed

theorem pages_are_the_list_witness:
  "concat (map (\<lambda>p. page_of [1, 2, 3, 4, 5 :: nat] p 2) [1..<Suc (total_pages 5 2)]) = [1, 2, 3, 4, 5]"
proof -
  have "2 = page_length 2" by (simp add: page_length_def)
  moreover have len: "length [1, 2, 3, 4, 5 :: nat] = 5" by simp
  moreover from len have "length [1, 2, 3, 4, 5 :: nat] < 2 ^ 31" by (simp only:) simp
  ultimately show ?thesis using pages_are_the_list[of "[1, 2, 3, 4, 5 :: nat]" 2 2] by (simp only: simp_thms)
qed

text \<open>A page number so large that the product wraps around gives the first page again.\<close>

lemma page_wraps: "page_of xs (2 ^ 30 + 1) 4 = page_of xs 1 4"
  by (simp add: page_of_def)

end
