(* ===== verification/Battle_Backend.thy ===== *)
theory Battle_Backend
  imports Instance_Runtime Json_Document
begin

text \<open>
  \<^verbatim>\<open>BattleBackendService\<close> (\<^verbatim>\<open>src/v2/battle/battle_backend_service.cpp\<close>): requests for battles, answered by
  driving the instance runtime.  The runtime's event callback stores snapshots and settlements in
  \<^verbatim>\<open>SyncCapture\<close>, from where the handlers take them.  The worlds are those of an arbitrary plugin.
  Parsing and printing of JSON text are parameters; the exception of a typed read ends in the reply
  \<open>BattleThrew\<close>, the error the server answers with.  Handlers run one after another; what they save in
  the archive and the replay storage is a log.  The theory shows that an item is picked up by one user,
  that no request frees a battle's place in the runtime, and that a finished battle goes on counting
  frames; the locale \<open>battle_property\<close> carries the proofs about sequences of requests.
\<close>

subsection \<open>State\<close>

datatype archive_call = SaveSnapshot string string | SaveResult string string | StoreReplay string json

record 'w battle_backend =
  bb_runtime :: "'w instance_runtime"
  bb_snapshots :: "string \<rightharpoonup> snapshot"
  bb_settlements :: "string \<rightharpoonup> string"
  bb_instance_type :: string
  bb_has_archive :: bool
  bb_has_replay_storage :: bool
  bb_saved :: "archive_call list"
  bb_frames :: "string \<rightharpoonup> nat"
  bb_last_tick_ms :: "string \<rightharpoonup> int"
  bb_latest :: "string \<rightharpoonup> nat \<times> string"
  bb_replay :: "string \<rightharpoonup> (nat \<times> json) list"
  bb_items :: "string \<rightharpoonup> string option"

record battle_text =
  bt_parse :: "string \<Rightarrow> json option"
  bt_dump :: "json \<Rightarrow> string"

datatype battle_reply = BattleError int string | BattleThrew json_error | BattleOk "(string \<times> json) list"

definition new_battle_backend :: "nat \<Rightarrow> string \<Rightarrow> 'w plugin \<Rightarrow> bool \<Rightarrow> bool \<Rightarrow> 'w battle_backend" where
  "new_battle_backend max_instances moved p archive replay =
     \<lparr>bb_runtime = set_event_callback True (register_plugin ''battle'' p (new_instance_runtime max_instances moved)),
      bb_snapshots = Map.empty, bb_settlements = Map.empty, bb_instance_type = ''battle'', bb_has_archive = archive,
      bb_has_replay_storage = replay, bb_saved = [], bb_frames = Map.empty, bb_last_tick_ms = Map.empty,
      bb_latest = Map.empty, bb_replay = Map.empty, bb_items = Map.empty\<rparr>"

subsection \<open>Captured events\<close>

fun capture :: "instance_event \<Rightarrow> 'w battle_backend \<Rightarrow> 'w battle_backend" where
  "capture (SnapshotAvailable iid snap) s = s\<lparr>bb_snapshots := (bb_snapshots s)(iid \<mapsto> snap)\<rparr>"
| "capture (InstanceFinished iid sc) s = s\<lparr>bb_settlements := (bb_settlements s)(iid \<mapsto> sc_result_payload sc)\<rparr>"
| "capture (InstanceCreated iid) s = s"

text \<open>A call of the runtime, with the events it delivers.\<close>

definition runtime_call :: "('w instance_runtime \<Rightarrow> 'a \<times> 'w instance_runtime) \<Rightarrow> 'w battle_backend \<Rightarrow> 'a \<times> 'w battle_backend" where
  "runtime_call f s =
     (case f (bb_runtime s) of (x, rt) \<Rightarrow>
        (x, fold capture (drop (length (rt_events (bb_runtime s))) (rt_events rt)) (s\<lparr>bb_runtime := rt\<rparr>)))"

definition consume_snapshot :: "string \<Rightarrow> 'w battle_backend \<Rightarrow> snapshot \<times> 'w battle_backend" where
  "consume_snapshot iid s =
     (case bb_snapshots s iid of None \<Rightarrow> (empty_snapshot, s) | Some snap \<Rightarrow> (snap, s\<lparr>bb_snapshots := (bb_snapshots s)(iid := None)\<rparr>))"

definition consume_settlement :: "string \<Rightarrow> 'w battle_backend \<Rightarrow> string \<times> 'w battle_backend" where
  "consume_settlement iid s =
     (case bb_settlements s iid of None \<Rightarrow> ([], s) | Some t \<Rightarrow> (t, s\<lparr>bb_settlements := (bb_settlements s)(iid := None)\<rparr>))"

subsection \<open>Frames, snapshots and items\<close>

definition get_instance_frame :: "string \<Rightarrow> 'w battle_backend \<Rightarrow> nat" where
  "get_instance_frame battle_id s = (case bb_frames s battle_id of None \<Rightarrow> 0 | Some n \<Rightarrow> n)"

definition set_instance_frame :: "string \<Rightarrow> nat \<Rightarrow> 'w battle_backend \<Rightarrow> 'w battle_backend" where
  "set_instance_frame battle_id frame s = s\<lparr>bb_frames := (bb_frames s)(battle_id \<mapsto> frame)\<rparr>"

definition should_tick_instance :: "string \<Rightarrow> int \<Rightarrow> 'w battle_backend \<Rightarrow> bool \<times> 'w battle_backend" where
  "should_tick_instance battle_id now_ms s =
     (let last_tick = (case bb_last_tick_ms s battle_id of None \<Rightarrow> 0 | Some t \<Rightarrow> t) in
      if last_tick > 0 \<and> now_ms - last_tick < 50 then (False, s\<lparr>bb_last_tick_ms := (bb_last_tick_ms s)(battle_id \<mapsto> last_tick)\<rparr>)
      else (True, s\<lparr>bb_last_tick_ms := (bb_last_tick_ms s)(battle_id \<mapsto> now_ms)\<rparr>))"

definition set_latest_snapshot :: "string \<Rightarrow> nat \<Rightarrow> string \<Rightarrow> 'w battle_backend \<Rightarrow> 'w battle_backend" where
  "set_latest_snapshot battle_id frame payload s = s\<lparr>bb_latest := (bb_latest s)(battle_id \<mapsto> (frame, payload))\<rparr>"

definition append_replay_frame :: "string \<Rightarrow> nat \<Rightarrow> json \<Rightarrow> 'w battle_backend \<Rightarrow> 'w battle_backend" where
  "append_replay_frame battle_id frame entry s =
     s\<lparr>bb_replay := (bb_replay s)(battle_id \<mapsto> (case bb_replay s battle_id of None \<Rightarrow> [] | Some xs \<Rightarrow> xs) @ [(frame, entry)])\<rparr>"

definition replay_doc :: "string \<Rightarrow> 'w battle_backend \<Rightarrow> json option" where
  "replay_doc battle_id s =
     (case bb_replay s battle_id of
        None \<Rightarrow> None
      | Some xs \<Rightarrow> Some (JObject [(''battle_id'', JString battle_id), (''frame_count'', JInt (int (length xs))), (''frames'', JArray (map snd xs))]))"

definition erase_instance_frame :: "string \<Rightarrow> 'w battle_backend \<Rightarrow> 'w battle_backend" where
  "erase_instance_frame battle_id s =
     s\<lparr>bb_frames := (bb_frames s)(battle_id := None), bb_last_tick_ms := (bb_last_tick_ms s)(battle_id := None),
       bb_latest := (bb_latest s)(battle_id := None), bb_items := (bb_items s)(battle_id := None)\<rparr>"

text \<open>A battle's item is free (\<open>None\<close>) or picked up by a user; it is created on first use.\<close>

definition item_id_for :: "string \<Rightarrow> string" where
  "item_id_for battle_id = ''boost_'' @ battle_id"

definition item_state :: "string \<Rightarrow> 'w battle_backend \<Rightarrow> string option" where
  "item_state battle_id s = (case bb_items s battle_id of None \<Rightarrow> None | Some p \<Rightarrow> p)"

definition pickup_event :: "string \<Rightarrow> string \<Rightarrow> json" where
  "pickup_event battle_id user_id =
     JObject [(''type'', JString ''item_pickup''), (''actor'', JString user_id), (''item_id'', JString (item_id_for battle_id)),
       (''item_type'', JString ''speed''), (''buff_type'', JString ''speed''), (''remaining_ticks'', JInt 90)]"

text \<open>The items, events and buffs of a battle.\<close>

definition item_snapshot_for :: "string \<Rightarrow> string option \<Rightarrow> 'w battle_backend \<Rightarrow> (json \<times> json list \<times> json) \<times> 'w battle_backend" where
  "item_snapshot_for battle_id pickup s =
     (let picked = item_state battle_id s;
          (picked1, events) = (case (pickup, picked) of (Some u, None) \<Rightarrow> (Some u, [pickup_event battle_id u]) | _ \<Rightarrow> (picked, []));
          items = (case picked1 of
                     None \<Rightarrow> [JObject [(''id'', JString (item_id_for battle_id)), (''type'', JString ''speed''), (''x'', JInt 3), (''y'', JInt 2),
                                       (''remaining_ticks'', JInt 600)]]
                   | Some _ \<Rightarrow> []);
          buffs = (case picked1 of
                     None \<Rightarrow> []
                   | Some u \<Rightarrow> [JObject [(''user_id'', JString u), (''type'', JString ''speed''), (''remaining_ticks'', JInt 90)]])
      in ((JArray items, events, JArray buffs), s\<lparr>bb_items := (bb_items s)(battle_id \<mapsto> picked1)\<rparr>))"

text \<open>Assignment to a key throws on a value that is neither an object nor null.\<close>

definition put_key :: "string \<Rightarrow> json \<Rightarrow> json \<Rightarrow> json read" where
  "put_key key v doc = (if is_object doc \<or> doc = JNull then Inr (json_put key v doc) else Inl (TypeError doc))"

definition enrich_snapshot_with_items :: "string \<Rightarrow> string option \<Rightarrow> json \<Rightarrow> 'w battle_backend \<Rightarrow> json read \<times> 'w battle_backend" where
  "enrich_snapshot_with_items battle_id pickup doc s =
     (case item_snapshot_for battle_id pickup s of ((items, events, buffs), s1) \<Rightarrow>
        (and_then (put_key ''items'' items doc) (\<lambda>doc1.
         and_then (put_key ''buffs'' buffs doc1) (\<lambda>doc2.
           (case json_find doc2 ''events'' of
              Some (JArray old) \<Rightarrow> put_key ''events'' (JArray (old @ events)) doc2
            | _ \<Rightarrow> put_key ''events'' (JArray events) doc2))), s1))"

fun first_speed_buff :: "json list \<Rightarrow> string option read" where
  "first_speed_buff [] = Inr None"
| "first_speed_buff (b # bs) =
     and_then (value_or get_string b ''type'' []) (\<lambda>ty.
       if ty \<noteq> ''speed'' then first_speed_buff bs
       else and_then (value_or get_string b ''user_id'' []) (\<lambda>u. if u \<noteq> [] then Inr (Some u) else first_speed_buff bs))"

definition speed_buff_user_from_snapshot :: "json \<Rightarrow> string option read" where
  "speed_buff_user_from_snapshot doc = (case json_find doc ''buffs'' of Some (JArray bs) \<Rightarrow> first_speed_buff bs | _ \<Rightarrow> Inr None)"

fun speed_up :: "string \<Rightarrow> json list \<Rightarrow> json list read" where
  "speed_up user [] = Inr []"
| "speed_up user (p # ps) =
     and_then (value_or get_string p ''user_id'' []) (\<lambda>u.
     and_then (speed_up user ps) (\<lambda>ps'. Inr ((if u = user then json_put ''speed_multiplier'' (JInt 2) p else p) # ps')))"

definition apply_speed_buff_if_present :: "json \<Rightarrow> json read" where
  "apply_speed_buff_if_present doc =
     and_then (speed_buff_user_from_snapshot doc) (\<lambda>buff.
       case (buff, json_find doc ''participants'') of
         (Some user, Some (JArray ps)) \<Rightarrow> and_then (speed_up user ps) (\<lambda>ps'. put_key ''participants'' (JArray ps') doc)
       | _ \<Rightarrow> Inr doc)"

text \<open>The values a loop over a document visits.\<close>

definition json_elements :: "json \<Rightarrow> json list" where
  "json_elements doc = (case doc of JArray vs \<Rightarrow> vs | JObject kvs \<Rightarrow> map snd kvs | JNull \<Rightarrow> [] | _ \<Rightarrow> [doc])"

definition json_empty :: "json \<Rightarrow> bool" where
  "json_empty doc \<longleftrightarrow> doc = JNull \<or> doc = JArray [] \<or> doc = JObject []"

definition tank_participant :: "json \<Rightarrow> json read" where
  "tank_participant p =
     and_then (value_or get_string p ''user_id'' []) (\<lambda>u.
     and_then (value_or get_bool p ''online'' True) (\<lambda>online.
     and_then (value_or get_int32 p ''score'' 0) (\<lambda>score.
     and_then (value_or get_int32 p ''x'' 0) (\<lambda>x.
     and_then (value_or get_int32 p ''y'' 0) (\<lambda>y.
     and_then (value_or get_int32 p ''hp'' 0) (\<lambda>hp.
     and_then (value_or get_int32 p ''max_hp'' 0) (\<lambda>max_hp.
     and_then (value_or get_int32 p ''direction_x'' 1) (\<lambda>dx.
     and_then (value_or get_int32 p ''direction_y'' 0) (\<lambda>dy.
       Inr (JObject [(''user_id'', JString u), (''online'', JBool online), (''score'', JInt score), (''pos_x'', JInt x), (''pos_y'', JInt y),
         (''hp'', JInt hp), (''max_hp'', JInt max_hp), (''direction_x'', JInt dx), (''direction_y'', JInt dy)]))))))))))"

fun read_all :: "('a \<Rightarrow> 'b read) \<Rightarrow> 'a list \<Rightarrow> 'b list read" where
  "read_all f [] = Inr []"
| "read_all f (x # xs) = and_then (f x) (\<lambda>y. and_then (read_all f xs) (\<lambda>ys. Inr (y # ys)))"

definition extract_participants_from_snapshot :: "battle_text \<Rightarrow> string \<Rightarrow> json read" where
  "extract_participants_from_snapshot txt payload =
     (if payload = [] then Inr (JArray [])
      else case bt_parse txt payload of
        None \<Rightarrow> Inr (JArray [])
      | Some j \<Rightarrow>
         (case json_find j ''participants'' of
            Some ps \<Rightarrow> Inr ps
          | None \<Rightarrow>
             (case json_find j ''players'' of
                Some ps \<Rightarrow> and_then (read_all tank_participant (json_elements ps)) (\<lambda>xs. Inr (JArray xs))
              | None \<Rightarrow> Inr (JArray []))))"

definition parse_pickup_input :: "string \<Rightarrow> string option" where
  "parse_pickup_input input_data =
     (if take 7 input_data \<noteq> ''pickup:'' then None
      else if drop 7 input_data = [] then None else Some (drop 7 input_data))"

subsection \<open>Creating a battle\<close>

definition battle_invalid_json :: battle_reply where
  "battle_invalid_json = BattleError (- 1004) ''invalid_json''"

definition create_battle :: "int \<Rightarrow> string \<Rightarrow> string \<Rightarrow> json \<Rightarrow> int \<Rightarrow> 'w battle_backend \<Rightarrow> battle_reply \<times> 'w battle_backend" where
  "create_battle now battle_id room_id player_ids max_frames s =
     (if battle_id = [] \<or> room_id = [] then (BattleError (- 1004) ''empty_fields'', s)
      else case player_ids of
        JArray ids \<Rightarrow>
          if length ids < 2 then (BattleError (- 1004) ''need_at_least_two_players'', s)
          else reading BattleThrew (read_all get_string ids) (\<lambda>users s.
           (case runtime_call (create_instance battle_id room_id (bb_instance_type s)
                    (map (\<lambda>u. \<lparr>pc_user_id = u, pc_display_name = [], pc_joined_at_ms = 0\<rparr>) users) 33 (nat (max_frames mod 2 ^ 32)) 30000 now) s of
              (instance_id, s1) \<Rightarrow>
                if instance_id = [] then (BattleError (- 2004) ''battle_already_exists'', s1)
                else
                 (let push = JObject [(''kind'', JString ''battle_started''), (''battle_id'', JString battle_id), (''room_id'', JString room_id),
                        (''player_ids'', player_ids)]
                  in (BattleOk [(''battle_id'', JString battle_id), (''room_id'', JString room_id), (''player_ids'', player_ids),
                        (''push_to_sessions'', JArray [push])], set_instance_frame battle_id 0 s1)))) s
      | _ \<Rightarrow> (BattleError (- 1004) ''need_at_least_two_players'', s))"

definition handle_battle_create :: "int \<Rightarrow> json option \<Rightarrow> 'w battle_backend \<Rightarrow> battle_reply \<times> 'w battle_backend" where
  "handle_battle_create now req s =
     (if \<not> request_has req [''battle_id'', ''room_id'', ''player_ids''] then (battle_invalid_json, s)
      else reading BattleThrew (at_key get_string (the req) ''battle_id'') (\<lambda>battle_id.
           reading BattleThrew (at_key get_string (the req) ''room_id'') (\<lambda>room_id.
           reading BattleThrew (value_or get_int32 (the req) ''max_frames'' 0) (\<lambda>max_frames.
             create_battle now battle_id room_id (the (json_find (the req) ''player_ids'')) max_frames))) s)"

subsection \<open>Inputs\<close>

text \<open>One frame: tick, take the snapshot, add the items, remember it.  The result is the statistics, the snapshot text and
  the snapshot document, if it is one.\<close>

definition advance_battle ::
  "battle_text \<Rightarrow> int \<Rightarrow> string \<Rightarrow> string option \<Rightarrow> 'w battle_backend \<Rightarrow> (tick_stats \<times> string \<times> json option) read \<times> 'w battle_backend" where
  "advance_battle txt now_ms battle_id pickup s =
     (case runtime_call (tick_instance battle_id (u32_add (get_instance_frame battle_id s) 1) now_ms) s of (stats, s1) \<Rightarrow>
      case consume_snapshot battle_id (set_instance_frame battle_id (ts_frame_number stats) s1) of (snap, s2) \<Rightarrow>
       (case bt_parse txt (sn_payload snap) of
          None \<Rightarrow> (Inr (stats, sn_payload snap, None),
                   if sn_payload snap = [] then s2 else set_latest_snapshot battle_id (ts_frame_number stats) (sn_payload snap) s2)
        | Some doc \<Rightarrow>
           (case enrich_snapshot_with_items battle_id pickup doc s2 of (enriched, s3) \<Rightarrow>
             (case and_then enriched apply_speed_buff_if_present of
                Inl e \<Rightarrow> (Inl e, s3)
              | Inr doc' \<Rightarrow> (Inr (stats, bt_dump txt doc', Some doc'),
                             set_latest_snapshot battle_id (ts_frame_number stats) (bt_dump txt doc') s3)))))"

definition settlement_fields :: "battle_text \<Rightarrow> string \<Rightarrow> (string \<times> json) list" where
  "settlement_fields txt settlement =
     (case (if settlement = [] then None else bt_parse txt settlement) of
        None \<Rightarrow> []
      | Some doc \<Rightarrow>
         (case json_find doc ''winner_user_id'' of Some w \<Rightarrow> if w = JNull then [] else [(''winner_user_id'', w)] | None \<Rightarrow> []) @
         (case json_find doc ''scores'' of Some v \<Rightarrow> [(''scores'', v)] | None \<Rightarrow> []) @
         (case json_find doc ''reason'' of Some (JString r) \<Rightarrow> [(''reason'', JString r)] | _ \<Rightarrow> []))"

definition finish_push :: "battle_text \<Rightarrow> string \<Rightarrow> string \<Rightarrow> nat \<Rightarrow> string \<Rightarrow> json" where
  "finish_push txt battle_id reason total_frames settlement =
     fold (\<lambda>(k, v). json_put k v) (settlement_fields txt settlement)
       (JObject [(''kind'', JString ''battle_finished''), (''battle_id'', JString battle_id), (''reason'', JString reason),
          (''total_frames'', JInt (int total_frames))])"

definition archive :: "archive_call list \<Rightarrow> 'w battle_backend \<Rightarrow> 'w battle_backend" where
  "archive calls s = (if bb_has_archive s then s\<lparr>bb_saved := bb_saved s @ calls\<rparr> else s)"

definition copy_fields :: "string list \<Rightarrow> json option \<Rightarrow> json \<Rightarrow> json" where
  "copy_fields keys from to =
     (case from of None \<Rightarrow> to
      | Some doc \<Rightarrow> fold (\<lambda>k to. case json_find doc k of None \<Rightarrow> to | Some v \<Rightarrow> json_put k v to) keys to)"

definition input_frame :: "battle_text \<Rightarrow> int \<Rightarrow> string \<Rightarrow> string \<Rightarrow> string \<Rightarrow> nat \<Rightarrow> 'w battle_backend \<Rightarrow> battle_reply \<times> 'w battle_backend" where
  "input_frame txt now_ms user_id battle_id input_data ack_seq s =
     (case advance_battle txt now_ms battle_id
             (if parse_pickup_input input_data = Some (item_id_for battle_id) then Some user_id else None) s of
        (Inl e, s1) \<Rightarrow> (BattleThrew e, s1)
      | (Inr (stats, payload, doc), s1) \<Rightarrow>
         (let frame = ts_frame_number stats;
              entry0 = JObject [(''battle_id'', JString battle_id), (''frame_number'', JInt (int frame)), (''timestamp'', JInt now_ms)];
              entry = (case doc of None \<Rightarrow> entry0 | Some d \<Rightarrow> json_put ''snapshot'' d entry0);
              s2 = append_replay_frame battle_id frame entry s1
          in reading BattleThrew (extract_participants_from_snapshot txt payload) (\<lambda>participants s2.
             let push0 = JObject [(''kind'', JString ''frame_advanced''), (''battle_id'', JString battle_id), (''frame_number'', JInt (int frame)),
                   (''trigger'', JString (''input:'' @ user_id @ '':'' @ decimal ack_seq))];
                 push1 = (if json_empty participants then push0 else json_put ''participants'' participants push0);
                 frame_push = copy_fields [''items'', ''events'', ''buffs'', ''bullets''] doc push1;
                 (settlement, s3) = (if ts_should_finish stats then consume_settlement battle_id s2 else ([], s2));
                 pushes = (if ts_should_finish stats then [frame_push, finish_push txt battle_id ''finished'' frame settlement] else [frame_push]);
                 s4 = (if ts_should_finish stats
                       then archive ([SaveSnapshot battle_id payload] @ (if settlement = [] then [] else [SaveResult battle_id settlement])) s3 else s3);
                 s5 = (if ts_should_finish stats \<and> bb_has_replay_storage s4 then s4\<lparr>bb_saved := bb_saved s4 @ [StoreReplay battle_id entry]\<rparr> else s4)
             in (BattleOk [(''battle_id'', JString battle_id), (''input_seq'', JInt (int ack_seq)), (''frame_number'', JInt (int frame)),
                   (''should_finish'', JBool (ts_should_finish stats)), (''push_to_sessions'', JArray pushes)], s5)) s2))"

definition input_battle :: "battle_text \<Rightarrow> int \<Rightarrow> string \<Rightarrow> string \<Rightarrow> string \<Rightarrow> 'w battle_backend \<Rightarrow> battle_reply \<times> 'w battle_backend" where
  "input_battle txt now_ms user_id battle_id input_data s =
     (if find_instance_locked battle_id (bb_runtime s) = None then (BattleError (- 2003) ''battle_not_found'', s)
      else case runtime_call (submit_input \<lparr>ie_instance_id = battle_id, ie_user_id = user_id, ie_seq = 0, ie_payload_type = [],
               ie_payload = input_data, ie_client_time_ms = 0\<rparr>) s of
        (result, s1) \<Rightarrow>
          if \<not> ir_accepted result then (BattleError (- 3002) (ir_reject_reason result), s1)
          else input_frame txt now_ms user_id battle_id input_data (ir_ack_seq result) s1)"

definition handle_battle_input_request :: "battle_text \<Rightarrow> int \<Rightarrow> json option \<Rightarrow> 'w battle_backend \<Rightarrow> battle_reply \<times> 'w battle_backend" where
  "handle_battle_input_request txt now_ms req s =
     (if \<not> request_has req [''user_id'', ''battle_id'', ''input_data''] then (battle_invalid_json, s)
      else reading BattleThrew (at_key get_string (the req) ''user_id'') (\<lambda>user_id.
           reading BattleThrew (at_key get_string (the req) ''battle_id'') (\<lambda>battle_id.
           reading BattleThrew (at_key get_string (the req) ''input_data'') (\<lambda>input_data.
             input_battle txt now_ms user_id battle_id input_data))) s)"

subsection \<open>State, finish and replay requests\<close>

text \<open>The reply to a state request, from what is cached.\<close>

definition state_reply :: "battle_text \<Rightarrow> string \<Rightarrow> nat \<Rightarrow> (nat \<times> string) option \<Rightarrow> 'w battle_backend \<Rightarrow> battle_reply \<times> 'w battle_backend" where
  "state_reply txt battle_id frame cached s =
     (let state0 = JObject [(''kind'', JString ''frame_advanced''), (''battle_id'', JString battle_id), (''frame_number'', JInt (int frame)),
            (''is_resume'', JBool True)];
          ok = (\<lambda>state. BattleOk [(''battle_id'', JString battle_id), (''frame_number'', JInt (int frame)), (''snapshot'', state)])
      in case cached of
           None \<Rightarrow> (ok state0, s)
         | Some (_, payload) \<Rightarrow>
             if payload = [] then (ok state0, s)
             else
              (let (enriched, s1) = (case bt_parse txt payload of
                      None \<Rightarrow> (Inr None, s)
                    | Some doc \<Rightarrow>
                       (case enrich_snapshot_with_items battle_id None doc s of (r, s1) \<Rightarrow>
                          (and_then r (\<lambda>d. and_then (apply_speed_buff_if_present d) (\<lambda>d'. Inr (Some d'))), s1)))
               in reading BattleThrew enriched (\<lambda>doc.
                  reading BattleThrew (extract_participants_from_snapshot txt payload) (\<lambda>participants s.
                    let state1 = (case doc of None \<Rightarrow> state0 | Some d \<Rightarrow> json_put ''snapshot'' d state0);
                        state2 = (if json_empty participants then state1 else json_put ''participants'' participants state1)
                    in (ok state2, s))) s1))"

definition state_battle :: "battle_text \<Rightarrow> int \<Rightarrow> string \<Rightarrow> 'w battle_backend \<Rightarrow> battle_reply \<times> 'w battle_backend" where
  "state_battle txt now_ms battle_id s =
     (if battle_id = [] then (BattleError (- 1004) ''empty_battle_id'', s)
      else if find_instance_locked battle_id (bb_runtime s) = None then
       (case bb_latest s battle_id of
          None \<Rightarrow> (BattleError (- 2003) ''battle_not_found'', s)
        | Some c \<Rightarrow> state_reply txt battle_id (get_instance_frame battle_id s) (Some c) s)
      else case should_tick_instance battle_id now_ms s of
        (False, s1) \<Rightarrow> state_reply txt battle_id (get_instance_frame battle_id s1) (bb_latest s1 battle_id) s1
      | (True, s1) \<Rightarrow>
         (case advance_battle txt now_ms battle_id None s1 of
            (Inl e, s2) \<Rightarrow> (BattleThrew e, s2)
          | (Inr (stats, _, _), s2) \<Rightarrow> state_reply txt battle_id (ts_frame_number stats) (bb_latest s2 battle_id) s2))"

definition handle_battle_state :: "battle_text \<Rightarrow> int \<Rightarrow> json option \<Rightarrow> 'w battle_backend \<Rightarrow> battle_reply \<times> 'w battle_backend" where
  "handle_battle_state txt now_ms req s =
     (if \<not> request_has req [''battle_id''] then (battle_invalid_json, s)
      else reading BattleThrew (at_key get_string (the req) ''battle_id'') (\<lambda>battle_id. state_battle txt now_ms battle_id) s)"

definition finish_battle_request :: "battle_text \<Rightarrow> string \<Rightarrow> bool \<Rightarrow> 'w battle_backend \<Rightarrow> battle_reply \<times> 'w battle_backend" where
  "finish_battle_request txt battle_id has_reason s =
     (let s1 = snd (runtime_call (\<lambda>rt. ((), finish_instance battle_id KUserRequested rt)) s);
          (settlement, s2) = consume_settlement battle_id s1;
          total_frames = get_instance_frame battle_id s2;
          s3 = archive (if settlement = [] then [] else [SaveResult battle_id settlement]) (erase_instance_frame battle_id s2);
          push = finish_push txt battle_id (if has_reason then ''user_requested'' else ''finished'') total_frames settlement
      in (BattleOk [(''battle_id'', JString battle_id), (''reason'', the (json_find push ''reason'')), (''total_frames'', JInt (int total_frames)),
            (''push_to_sessions'', JArray [push])], s3))"

definition handle_battle_finish :: "battle_text \<Rightarrow> json option \<Rightarrow> 'w battle_backend \<Rightarrow> battle_reply \<times> 'w battle_backend" where
  "handle_battle_finish txt req s =
     (if \<not> request_has req [''user_id'', ''battle_id''] then (battle_invalid_json, s)
      else reading BattleThrew (at_key get_string (the req) ''user_id'') (\<lambda>_.
           reading BattleThrew (at_key get_string (the req) ''battle_id'') (\<lambda>battle_id.
             finish_battle_request txt battle_id (json_has (the req) ''reason''))) s)"

text \<open>\<open>stored\<close> is what the replay storage answers, when there is one.\<close>

definition handle_replay_load :: "json option \<Rightarrow> json option \<Rightarrow> 'w battle_backend \<Rightarrow> battle_reply \<times> 'w battle_backend" where
  "handle_replay_load stored req s =
     (if \<not> request_has req [''battle_id''] then (battle_invalid_json, s)
      else reading BattleThrew (at_key get_string (the req) ''battle_id'') (\<lambda>battle_id s.
        if battle_id = [] then (BattleError (- 1004) ''empty_battle_id'', s)
        else case (if bb_has_replay_storage s then stored else None) of
          Some doc \<Rightarrow> (BattleOk [(''battle_id'', JString battle_id), (''replay'', doc)], s)
        | None \<Rightarrow>
           (case replay_doc battle_id s of
              Some doc \<Rightarrow> (BattleOk [(''battle_id'', JString battle_id), (''replay'', doc)], s)
            | None \<Rightarrow> (BattleError (- 2003) ''replay_not_found'', s))) s)"

subsection \<open>Runs of the service\<close>

datatype battle_request =
  CreateBattle int "json option"
| BattleInput int "json option"
| BattleState int "json option"
| FinishBattle "json option"
| LoadReplay "json option" "json option"

fun battle_request_step :: "battle_text \<Rightarrow> battle_request \<Rightarrow> 'w battle_backend \<Rightarrow> battle_reply \<times> 'w battle_backend" where
  "battle_request_step txt (CreateBattle now req) s = handle_battle_create now req s"
| "battle_request_step txt (BattleInput now req) s = handle_battle_input_request txt now req s"
| "battle_request_step txt (BattleState now req) s = handle_battle_state txt now req s"
| "battle_request_step txt (FinishBattle req) s = handle_battle_finish txt req s"
| "battle_request_step txt (LoadReplay stored req) s = handle_replay_load stored req s"

definition run_battle_requests :: "battle_text \<Rightarrow> battle_request list \<Rightarrow> 'w battle_backend \<Rightarrow> 'w battle_backend" where
  "run_battle_requests txt = run_messages (\<lambda>r s. snd (battle_request_step txt r s))"

text \<open>The battle a request asks to finish.\<close>

fun asks_finish :: "string \<Rightarrow> battle_request \<Rightarrow> bool" where
  "asks_finish b (FinishBattle (Some req)) = (json_find req ''battle_id'' = Some (JString b))"
| "asks_finish b _ = False"

subsection \<open>What the handlers keep\<close>

text \<open>What an item becomes when a snapshot is enriched.\<close>

definition picked_by :: "string option \<Rightarrow> string option \<Rightarrow> string option" where
  "picked_by pickup picked = (case (pickup, picked) of (Some u, None) \<Rightarrow> Some u | _ \<Rightarrow> picked)"

text \<open>A property of the runtime and the items that the runtime's operations and the items' updates keep is kept by every request.
  \<open>admits\<close> says which battles may be finished.\<close>

locale battle_property =
  fixes P :: "'w instance_runtime \<Rightarrow> (string \<rightharpoonup> string option) \<Rightarrow> bool" and admits :: "string \<Rightarrow> bool"
  assumes create_keeps: "P rt items \<Longrightarrow> P (snd (create_instance iid room ty ps ti mf rw now rt)) items"
    and submit_keeps: "P rt items \<Longrightarrow> P (snd (submit_input input rt)) items"
    and tick_keeps: "P rt items \<Longrightarrow> P (snd (tick_instance iid frame ms rt)) items"
    and finish_keeps: "P rt items \<Longrightarrow> admits iid \<Longrightarrow> P (finish_instance iid reason rt) items"
    and pickup_keeps: "P rt items \<Longrightarrow> P rt (items(b \<mapsto> picked_by pickup (case items b of None \<Rightarrow> None | Some p \<Rightarrow> p)))"
    and erase_keeps: "P rt items \<Longrightarrow> admits b \<Longrightarrow> P rt (items(b := None))"

lemma capture_simps [simp]:
  "bb_runtime (capture e s) = bb_runtime s" "bb_items (capture e s) = bb_items s" "bb_frames (capture e s) = bb_frames s"
  "bb_latest (capture e s) = bb_latest s" "bb_replay (capture e s) = bb_replay s" "bb_last_tick_ms (capture e s) = bb_last_tick_ms s"
  "bb_instance_type (capture e s) = bb_instance_type s"
  by (cases e; simp)+

lemma fold_capture_simps [simp]:
  "bb_runtime (fold capture es s) = bb_runtime s" "bb_items (fold capture es s) = bb_items s" "bb_frames (fold capture es s) = bb_frames s"
  "bb_latest (fold capture es s) = bb_latest s" "bb_replay (fold capture es s) = bb_replay s"
  "bb_last_tick_ms (fold capture es s) = bb_last_tick_ms s" "bb_instance_type (fold capture es s) = bb_instance_type s"
  by (induction es arbitrary: s) simp_all

lemma runtime_call_simps [simp]:
  "fst (runtime_call f s) = fst (f (bb_runtime s))" "bb_runtime (snd (runtime_call f s)) = snd (f (bb_runtime s))"
  "bb_items (snd (runtime_call f s)) = bb_items s" "bb_frames (snd (runtime_call f s)) = bb_frames s"
  "bb_latest (snd (runtime_call f s)) = bb_latest s" "bb_replay (snd (runtime_call f s)) = bb_replay s"
  "bb_last_tick_ms (snd (runtime_call f s)) = bb_last_tick_ms s" "bb_instance_type (snd (runtime_call f s)) = bb_instance_type s"
  by (simp_all add: runtime_call_def split: prod.split)

lemma consume_simps [simp]:
  "bb_runtime (snd (consume_snapshot b s)) = bb_runtime s" "bb_items (snd (consume_snapshot b s)) = bb_items s"
  "bb_frames (snd (consume_snapshot b s)) = bb_frames s" "bb_latest (snd (consume_snapshot b s)) = bb_latest s"
  "bb_runtime (snd (consume_settlement b s)) = bb_runtime s" "bb_items (snd (consume_settlement b s)) = bb_items s"
  "bb_frames (snd (consume_settlement b s)) = bb_frames s"
  by (simp_all add: consume_snapshot_def consume_settlement_def split: option.split)

lemma cache_simps [simp]:
  "bb_runtime (set_instance_frame b n s) = bb_runtime s" "bb_items (set_instance_frame b n s) = bb_items s"
  "bb_runtime (set_latest_snapshot b n p s) = bb_runtime s" "bb_items (set_latest_snapshot b n p s) = bb_items s"
  "bb_runtime (append_replay_frame b n e s) = bb_runtime s" "bb_items (append_replay_frame b n e s) = bb_items s"
  "bb_runtime (archive cs s) = bb_runtime s" "bb_items (archive cs s) = bb_items s"
  "bb_runtime (erase_instance_frame b s) = bb_runtime s" "bb_items (erase_instance_frame b s) = (bb_items s)(b := None)"
  "bb_runtime (snd (should_tick_instance b now s)) = bb_runtime s" "bb_items (snd (should_tick_instance b now s)) = bb_items s"
  by (simp_all add: set_instance_frame_def set_latest_snapshot_def append_replay_frame_def archive_def erase_instance_frame_def
      should_tick_instance_def Let_def)

lemma enrich_items:
  "bb_runtime (snd (enrich_snapshot_with_items b pickup doc s)) = bb_runtime s"
  "bb_items (snd (enrich_snapshot_with_items b pickup doc s)) =
     (bb_items s)(b \<mapsto> picked_by pickup (case bb_items s b of None \<Rightarrow> None | Some p \<Rightarrow> p))"
  by (simp_all add: enrich_snapshot_with_items_def item_snapshot_for_def item_state_def picked_by_def Let_def split: prod.split option.split)

context battle_property
begin

definition keeps :: "'w battle_backend \<Rightarrow> bool" where
  "keeps s \<longleftrightarrow> P (bb_runtime s) (bb_items s)"

lemma enrich_keeps: "keeps s \<Longrightarrow> keeps (snd (enrich_snapshot_with_items b pickup doc s))"
  by (simp add: keeps_def enrich_items pickup_keeps)

lemma advance_keeps: "keeps s \<Longrightarrow> keeps (snd (advance_battle txt now b pickup s))"
proof -
  assume k: "keeps s"
  obtain stats s1 where rc: "runtime_call (tick_instance b (u32_add (get_instance_frame b s) 1) now) s = (stats, s1)" by fastforce
  obtain snap s2 where cs: "consume_snapshot b (set_instance_frame b (ts_frame_number stats) s1) = (snap, s2)" by fastforce
  have k1: "keeps s1"
    using k rc runtime_call_simps(2,3)[of "tick_instance b (u32_add (get_instance_frame b s) 1) now" s] by (simp add: keeps_def tick_keeps)
  then have k2: "keeps s2"
    using cs consume_simps(1,2)[of b "set_instance_frame b (ts_frame_number stats) s1"] by (simp add: keeps_def)
  show ?thesis
  proof (cases "bt_parse txt (sn_payload snap)")
    case None
    with k2 show ?thesis unfolding advance_battle_def rc prod.case cs by (simp add: keeps_def)
  next
    case (Some doc)
    obtain r s3 where en: "enrich_snapshot_with_items b pickup doc s2 = (r, s3)" by fastforce
    with enrich_keeps[OF k2, of b pickup doc] have "keeps s3" by simp
    with Some en show ?thesis unfolding advance_battle_def rc prod.case cs by (simp add: keeps_def split: sum.split)
  qed
qed

lemma create_request_keeps: "keeps s \<Longrightarrow> keeps (snd (handle_battle_create now req s))"
  unfolding handle_battle_create_def create_battle_def
  by (auto intro!: reading_keeps[where P = keeps] split: json.split prod.split)
     (auto simp: keeps_def runtime_call_def create_keeps split: prod.splits dest!: arg_cong[where f = snd])

lemma input_frame_keeps: "keeps s \<Longrightarrow> keeps (snd (input_frame txt now u b d ack s))"
proof -
  assume k: "keeps s"
  obtain r s1 where ad: "advance_battle txt now b (if parse_pickup_input d = Some (item_id_for b) then Some u else None) s = (r, s1)" by fastforce
  with advance_keeps[OF k, of "txt" now b "if parse_pickup_input d = Some (item_id_for b) then Some u else None"] have k1: "keeps s1" by simp
  show ?thesis
  proof (cases r)
    case (Inr v)
    obtain stats payload doc where v: "v = (stats, payload, doc)" by (cases v) auto
    show ?thesis using k1
      by (auto simp: input_frame_def ad Inr v Let_def split: prod.split intro!: reading_keeps[where P = keeps])
         (auto simp: keeps_def consume_settlement_def archive_def append_replay_frame_def split: option.splits if_splits)
  qed (simp add: input_frame_def ad k1)
qed

lemma input_request_keeps: "keeps s \<Longrightarrow> keeps (snd (handle_battle_input_request txt now req s))"
proof -
  have "keeps (snd (input_battle txt now u b d s))" if k: "keeps s" for u b d s
  proof -
    let ?in = "submit_input \<lparr>ie_instance_id = b, ie_user_id = u, ie_seq = 0, ie_payload_type = [], ie_payload = d, ie_client_time_ms = 0\<rparr>"
    obtain result s1 where rc: "runtime_call ?in s = (result, s1)" by fastforce
    with k runtime_call_simps(2,3)[of ?in s] have "keeps s1" by (simp add: keeps_def submit_keeps)
    with k rc show ?thesis by (simp add: input_battle_def input_frame_keeps)
  qed
  then show "keeps s \<Longrightarrow> keeps (snd (handle_battle_input_request txt now req s))"
    unfolding handle_battle_input_request_def by (auto intro!: reading_keeps[where P = keeps])
qed

lemma state_reply_keeps: "keeps s \<Longrightarrow> keeps (snd (state_reply txt b n cached s))"
proof -
  assume k: "keeps s"
  have e: "keeps s1" if "enrich_snapshot_with_items b None doc s = (r, s1)" for doc r s1
    using enrich_keeps[OF k, of b None doc] that by simp
  show ?thesis using k
    by (auto simp: state_reply_def Let_def split: option.split prod.split intro!: reading_keeps[where P = keeps] dest: e)
qed

lemma state_request_keeps: "keeps s \<Longrightarrow> keeps (snd (handle_battle_state txt now req s))"
proof -
  have "keeps (snd (state_battle txt now b s))" if k: "keeps s" for b s
  proof -
    obtain t s1 where st: "should_tick_instance b now s = (t, s1)" by fastforce
    with k cache_simps(11,12)[of b now s] have k1: "keeps s1" by (simp add: keeps_def)
    obtain r s2 where ad: "advance_battle txt now b None s1 = (r, s2)" by fastforce
    with advance_keeps[OF k1, of "txt" now b None] have "keeps s2" by simp
    with k k1 show ?thesis
      by (auto simp: state_battle_def st ad split: option.split bool.split sum.split prod.split intro!: state_reply_keeps)
  qed
  then show "keeps s \<Longrightarrow> keeps (snd (handle_battle_state txt now req s))"
    unfolding handle_battle_state_def by (auto intro!: reading_keeps[where P = keeps])
qed

lemma finish_request_keeps: "keeps s \<Longrightarrow> (\<And>b. asks_finish b (FinishBattle req) \<Longrightarrow> admits b) \<Longrightarrow> keeps (snd (handle_battle_finish txt req s))"
proof -
  have f: "keeps (snd (finish_battle_request txt b has s))" if k: "keeps s" and a: "admits b" for b has s
  proof -
    let ?s1 = "snd (runtime_call (\<lambda>rt. ((), finish_instance b KUserRequested rt)) s)"
    obtain t s2 where c: "consume_settlement b ?s1 = (t, s2)" by fastforce
    with consume_simps(5,6)[of b ?s1] have "bb_runtime s2 = finish_instance b KUserRequested (bb_runtime s)" "bb_items s2 = bb_items s" by simp_all
    with k a show ?thesis by (simp add: finish_battle_request_def c Let_def keeps_def finish_keeps erase_keeps)
  qed
  have a: "asks_finish b (FinishBattle req)" if "request_has req ks" "at_key get_string (the req) ''battle_id'' = Inr b" for b ks
    using that by (cases req; auto simp: request_has_def at_key_def get_string_def split: option.splits json.splits)
  show "keeps s \<Longrightarrow> (\<And>b. asks_finish b (FinishBattle req) \<Longrightarrow> admits b) \<Longrightarrow> keeps (snd (handle_battle_finish txt req s))"
    unfolding handle_battle_finish_def by (auto intro!: reading_keeps[where P = keeps] f dest: a)
qed

lemma replay_request_keeps: "snd (handle_replay_load stored req s) = s"
  unfolding handle_replay_load_def by (auto intro!: reading_keeps[where P = "\<lambda>t. t = s"] split: option.split)

lemma step_keeps: "keeps s \<Longrightarrow> (\<And>b. asks_finish b r \<Longrightarrow> admits b) \<Longrightarrow> keeps (snd (battle_request_step txt r s))"
  by (cases r) (simp_all add: create_request_keeps input_request_keeps state_request_keeps finish_request_keeps replay_request_keeps)

lemma run_keeps:
  "keeps s \<Longrightarrow> list_all (\<lambda>r. \<forall>b. asks_finish b r \<longrightarrow> admits b) rs \<Longrightarrow> keeps (run_battle_requests txt rs s)"
  by (induction rs arbitrary: s) (simp_all add: run_battle_requests_def step_keeps)

end


subsection \<open>Items\<close>

interpretation picked: battle_property "\<lambda>rt items. items b = Some (Some u)" "\<lambda>b'. b' \<noteq> b" for b u
  by unfold_locales (auto simp: picked_by_def split: option.split)

lemma item_state_iff: "item_state b s = Some u \<longleftrightarrow> bb_items s b = Some (Some u)"
  by (simp add: item_state_def split: option.split)

text \<open>C25: once a user has picked up a battle's item, no sequence of requests that does not finish that battle gives the item to anyone else or puts it
  back.\<close>

theorem item_picked_once:
  assumes "item_state b s = Some u" and "list_all (\<lambda>r. \<not> asks_finish b r) rs"
  shows "item_state b (run_battle_requests txt rs s) = Some u"
  using picked.run_keeps[of b u s rs "txt"] assms
  by (simp add: item_state_iff picked.keeps_def list_all_iff) blast

subsection \<open>Capacity\<close>

lemma length_put_instance: "length (rt_instances rt) \<le> length (rt_instances (put_instance iid inst rt))"
  using arg_cong[OF keys_put_instance[of iid inst rt], of length] by (auto split: if_splits)

lemma rt_instances_emit [simp]: "rt_instances (emit_event e rt) = rt_instances rt"
  by (simp add: emit_event_def)

lemma max_put [simp]: "rt_max_instances (put_instance iid inst rt) = rt_max_instances rt"
  by (simp add: put_instance_def)

lemma length_finish_instance: "length (rt_instances rt) \<le> length (rt_instances (finish_instance iid reason rt))"
  using finish_instance_effect[of iid reason rt] length_put_instance by auto

lemma length_tick_instance: "length (rt_instances rt) \<le> length (rt_instances (snd (tick_instance iid frame ms rt)))"
  by (auto simp: tick_instance_def Let_def length_put_instance split: option.split prod.split intro!: order_trans[OF _ length_finish_instance])

interpretation full: battle_property "\<lambda>rt items. rt_max_instances rt = n \<and> n \<le> length (rt_instances rt)" "\<lambda>b. True" for n
proof
  show "rt_max_instances rt = n \<and> n \<le> length (rt_instances rt) \<Longrightarrow>
      rt_max_instances (snd (submit_input input rt)) = n \<and> n \<le> length (rt_instances (snd (submit_input input rt)))" for rt :: "'a instance_runtime" and input
    by (auto simp: submit_input_def Let_def split: option.split intro: order_trans[OF _ length_put_instance])
  show "rt_max_instances rt = n \<and> n \<le> length (rt_instances rt) \<Longrightarrow>
      rt_max_instances (snd (tick_instance iid frame ms rt)) = n \<and> n \<le> length (rt_instances (snd (tick_instance iid frame ms rt)))"
    for rt :: "'a instance_runtime" and iid frame ms by (auto intro: order_trans[OF _ length_tick_instance])
  show "rt_max_instances rt = n \<and> n \<le> length (rt_instances rt) \<Longrightarrow>
      rt_max_instances (finish_instance iid reason rt) = n \<and> n \<le> length (rt_instances (finish_instance iid reason rt))"
    for rt :: "'a instance_runtime" and iid reason by (auto intro: order_trans[OF _ length_finish_instance])
qed (auto simp: create_instance_def)

lemma create_when_full:
  assumes "length (rt_instances (bb_runtime s)) \<ge> rt_max_instances (bb_runtime s)" and "b \<noteq> []" "room \<noteq> []" "length us \<ge> 2"
  shows "fst (create_battle now b room (JArray (map JString us)) mf s) = BattleError (- 2004) ''battle_already_exists''"
proof -
  have r: "read_all get_string (map JString us) = Inr us" by (induction us) (simp_all add: get_string_def and_then_def)
  have c: "create_instance b room ty ps ti mf' rw now (bb_runtime s) = ([], bb_runtime s)" for ty ps ti mf' rw
    using assms(1) by (simp add: create_instance_def)
  show ?thesis using assms by (simp add: create_battle_def r c runtime_call_def)
qed

text \<open>the service never frees a battle.  Once as many battles were created as the runtime holds, every further well-formed creation request is
  answered by ``battle already exists'', whatever was finished in the meantime and whether or not that battle exists.\<close>

theorem battles_never_freed:
  assumes "length (rt_instances (bb_runtime s)) = rt_max_instances (bb_runtime s)"
    and "b \<noteq> []" "room \<noteq> []" "length us \<ge> 2"
  shows "fst (battle_request_step txt (CreateBattle now (Some (JObject [(''battle_id'', JString b), (''room_id'', JString room),
      (''player_ids'', JArray (map JString us))]))) (run_battle_requests txt rs s)) = BattleError (- 2004) ''battle_already_exists''"
proof -
  have "full.keeps (rt_max_instances (bb_runtime s)) s" using assms(1) by (simp add: full.keeps_def)
  then have "full.keeps (rt_max_instances (bb_runtime s)) (run_battle_requests txt rs s)" by (rule full.run_keeps) (simp add: list_all_iff)
  with assms(2-4) show ?thesis
    by (simp add: full.keeps_def handle_battle_create_def request_has_def is_object_def json_has_def json_find_def at_key_def
        value_or_def get_string_def create_when_full)
qed


text \<open>A service for one battle, whose snapshots are the empty document.\<close>

definition sample_plugin :: "unit plugin" where
  "sample_plugin = echo_plugin\<lparr>pg_build_snapshot := (\<lambda>ctx w. (empty_snapshot\<lparr>sn_payload := ''{}''\<rparr>, ctx, w))\<rparr>"

definition sample_text :: battle_text where
  "sample_text = \<lparr>bt_parse = (\<lambda>t. if t = ''{}'' then Some (JObject []) else None), bt_dump = (\<lambda>doc. ''{}'')\<rparr>"

definition sample_create :: "string \<Rightarrow> battle_request" where
  "sample_create b = CreateBattle 0 (Some (JObject [(''battle_id'', JString b), (''room_id'', JString ''r''),
     (''player_ids'', JArray (map JString [''ann'', ''bob'']))]))"

definition sample_input :: "string \<Rightarrow> string \<Rightarrow> battle_request" where
  "sample_input u d = BattleInput 1 (Some (JObject [(''user_id'', JString u), (''battle_id'', JString ''b''), (''input_data'', JString d)]))"

definition sample_finish :: "string \<Rightarrow> battle_request" where
  "sample_finish b = FinishBattle (Some (JObject [(''user_id'', JString ''ann''), (''battle_id'', JString b)]))"

definition sample_battle :: "unit battle_backend" where
  "sample_battle = run_battle_requests sample_text [sample_create ''b''] (new_battle_backend 1 [] sample_plugin False False)"

lemmas sample_request_defs = sample_create_def sample_input_def sample_finish_def handle_battle_create_def request_has_def is_object_def
  json_has_def json_find_def at_key_def value_or_def get_string_def create_battle_def handle_battle_finish_def

lemma sample_battle_state:
  "sample_battle = (new_battle_backend 1 [] sample_plugin False False)\<lparr>
     bb_runtime := snd (create_instance ''b'' ''r'' ''battle'' (map (\<lambda>u. \<lparr>pc_user_id = u, pc_display_name = [], pc_joined_at_ms = 0\<rparr>) [''ann'', ''bob''])
       33 0 30000 0 (bb_runtime (new_battle_backend 1 [] sample_plugin False False))),
     bb_frames := [''b'' \<mapsto> 0]\<rparr>"
  by (simp add: sample_battle_def run_battle_requests_def sample_request_defs runtime_call_def new_battle_backend_def set_instance_frame_def
      sample_plugin_def echo_defs)

lemma sample_battle_full: "length (rt_instances (bb_runtime sample_battle)) = 1" "rt_max_instances (bb_runtime sample_battle) = 1"
  by (simp_all add: sample_battle_state new_battle_backend_def sample_plugin_def echo_defs)

theorem battles_never_freed_witness:
  "length (rt_instances (bb_runtime sample_battle)) = rt_max_instances (bb_runtime sample_battle) \<and>
   fst (battle_request_step sample_text (CreateBattle 7 (Some (JObject [(''battle_id'', JString ''c''), (''room_id'', JString ''q''),
      (''player_ids'', JArray (map JString [''eve'', ''mal'']))]))) (run_battle_requests sample_text [sample_finish ''b''] sample_battle)) =
     BattleError (- 2004) ''battle_already_exists''"
  using battles_never_freed[of sample_battle "''c''" "''q''" "[''eve'', ''mal'']" sample_text 7 "[sample_finish ''b'']"]
  by (simp add: sample_battle_full)

definition sample_picked :: "unit battle_backend" where
  "sample_picked = run_battle_requests sample_text [sample_input ''ann'' ''pickup:boost_b''] sample_battle"

lemma input_frame_items: "bb_items (snd (input_frame txt now u b d ack s)) =
    bb_items (snd (advance_battle txt now b (if parse_pickup_input d = Some (item_id_for b) then Some u else None) s))"
proof -
  obtain r s1 where ad: "advance_battle txt now b (if parse_pickup_input d = Some (item_id_for b) then Some u else None) s = (r, s1)" by fastforce
  show ?thesis
  proof (cases r)
    case (Inr v)
    obtain stats payload doc where v: "v = (stats, payload, doc)" by (cases v) auto
    show ?thesis
      by (auto simp: input_frame_def ad Inr v Let_def split: prod.split intro!: reading_keeps[where P = "\<lambda>t. bb_items t = bb_items s1"])
         (auto simp: consume_settlement_def archive_def append_replay_frame_def split: option.splits if_splits)
  qed (simp add: input_frame_def ad)
qed

lemma advance_items:
  assumes "runtime_call (tick_instance b (u32_add (get_instance_frame b s) 1) now) s = (stats, s1)"
    and "bb_snapshots s1 b = Some snap" and "bt_parse txt (sn_payload snap) = Some doc"
  shows "bb_items (snd (advance_battle txt now b pickup s)) b = Some (picked_by pickup (item_state b s))"
proof -
  have i: "bb_items s1 = bb_items s"
    using assms(1) runtime_call_simps(3)[of "tick_instance b (u32_add (get_instance_frame b s) 1) now" s] by simp
  let ?s2 = "(set_instance_frame b (ts_frame_number stats) s1)\<lparr>bb_snapshots := (bb_snapshots s1)(b := None)\<rparr>"
  have c: "consume_snapshot b (set_instance_frame b (ts_frame_number stats) s1) = (snap, ?s2)"
    using assms(2) by (simp add: consume_snapshot_def set_instance_frame_def)
  obtain r s3 where en: "enrich_snapshot_with_items b pickup doc ?s2 = (r, s3)" by fastforce
  with enrich_items(2)[of b pickup doc ?s2] i have "bb_items s3 b = Some (picked_by pickup (item_state b s))"
    by (simp add: item_state_def)
  then show ?thesis unfolding advance_battle_def assms(1) prod.case c using assms(3) en
    by (simp add: set_latest_snapshot_def split: sum.split)
qed

lemma sample_picked_item: "item_state ''b'' sample_picked = Some ''ann''"
proof -
  let ?e = "\<lparr>ie_instance_id = ''b'', ie_user_id = ''ann'', ie_seq = 0, ie_payload_type = [], ie_payload = ''pickup:boost_b'', ie_client_time_ms = 0\<rparr>"
  obtain r s1 where s: "runtime_call (submit_input ?e) sample_battle = (r, s1)" by fastforce
  obtain st s2 where tk: "runtime_call (tick_instance ''b'' (u32_add (get_instance_frame ''b'' s1) 1) 1) s1 = (st, s2)" by fastforce
  note eval = sample_battle_state new_battle_backend_def sample_plugin_def echo_defs runtime_call_def submit_input_def Let_def instance_active_def
    set_input_state_def input_state_of_def u32_add_def get_instance_frame_def tick_instance_def tick_body_def default_tick_stats_def item_state_def empty_snapshot_def
  have f: "find_instance_locked ''b'' (bb_runtime sample_battle) \<noteq> None" "ir_accepted r"
    and s2: "\<exists>snap. bb_snapshots s2 ''b'' = Some snap \<and> sn_payload snap = ''{}''"
    and i: "item_state ''b'' s1 = None"
    using s tk by (auto simp: eval)
  obtain snap where "bb_snapshots s2 ''b'' = Some snap" "bt_parse sample_text (sn_payload snap) = Some (JObject [])"
    using s2 by (auto simp: sample_text_def)
  from advance_items[OF tk this, of "Some ''ann''"] i f s show ?thesis
    by (auto simp add: sample_picked_def run_battle_requests_def sample_request_defs handle_battle_input_request_def input_battle_def input_frame_items
        picked_by_def item_state_def parse_pickup_input_def item_id_for_def)
qed

theorem item_picked_once_witness:
  "item_state ''b'' sample_picked = Some ''ann'' \<and>
   item_state ''b'' (run_battle_requests sample_text [sample_input ''bob'' ''pickup:boost_b''] sample_picked) = Some ''ann''"
  using item_picked_once[of "''b''" sample_picked "''ann''" "[sample_input ''bob'' ''pickup:boost_b'']" sample_text] sample_picked_item
  by (simp add: sample_input_def)

subsection \<open>Finished battles\<close>

text \<open>a battle that has ended keeps counting.  A state request for a finished battle, 50 milliseconds or more after the last one, reports a frame
  number one higher than before and stores it, although the runtime runs no frame.\<close>

theorem finished_battle_keeps_counting:
  assumes "find_instance_locked b (bb_runtime s) = Some inst" "in_state inst = KFinished" "b \<noteq> []"
    and "bb_snapshots s b = None" "bt_parse txt [] = None" "case bb_last_tick_ms s b of None \<Rightarrow> True | Some t \<Rightarrow> t + 50 \<le> now"
  shows "let s' = snd (battle_request_step txt (BattleState now (Some (JObject [(''battle_id'', JString b)]))) s) in
     get_instance_frame b s' = u32_add (get_instance_frame b s) 1 \<and> bb_runtime s' = bb_runtime s"
proof -
  let ?s1 = "s\<lparr>bb_last_tick_ms := (bb_last_tick_ms s)(b \<mapsto> now)\<rparr>"
  let ?n = "u32_add (get_instance_frame b s) 1"
  have st: "should_tick_instance b now s = (True, ?s1)" using assms(6) by (auto simp: should_tick_instance_def split: option.splits)
  have tk: "tick_instance b ?n now (bb_runtime s) = (default_tick_stats ?n, bb_runtime s)"
    using assms(1,2) by (simp add: tick_instance_def instance_active_def)
  have ad: "advance_battle txt now b None ?s1 = (Inr (default_tick_stats ?n, [], None), set_instance_frame b ?n ?s1)"
    using assms(4,5) tk by (simp add: advance_battle_def runtime_call_def get_instance_frame_def consume_snapshot_def set_instance_frame_def
        empty_snapshot_def default_tick_stats_def)
  have k: "get_instance_frame b (snd (state_reply txt b m cached t)) = get_instance_frame b t \<and> bb_runtime (snd (state_reply txt b m cached t)) = bb_runtime t"
    for m cached t
    by (auto simp: state_reply_def Let_def split: option.split prod.split
        intro!: reading_keeps[where P = "\<lambda>t'. get_instance_frame b t' = get_instance_frame b t \<and> bb_runtime t' = bb_runtime t"])
       (auto simp: enrich_snapshot_with_items_def item_snapshot_for_def get_instance_frame_def Let_def split: prod.splits)
  show ?thesis using assms(1,3)
    by (simp add: handle_battle_state_def request_has_def is_object_def json_has_def at_key_def get_string_def state_battle_def st ad k Let_def)
       (simp add: get_instance_frame_def set_instance_frame_def)
qed

definition sample_finished :: "unit battle_backend" where
  "sample_finished = run_battle_requests sample_text [sample_finish ''b''] sample_battle"

lemma sample_finished_facts:
  "\<exists>inst. find_instance_locked ''b'' (bb_runtime sample_finished) = Some inst \<and> in_state inst = KFinished"
  "bb_snapshots sample_finished ''b'' = None" "bb_last_tick_ms sample_finished ''b'' = None" "bb_frames sample_finished ''b'' = None"
  by (simp_all add: sample_finished_def run_battle_requests_def sample_request_defs finish_battle_request_def Let_def runtime_call_def finish_instance_def
      consume_settlement_def erase_instance_frame_def archive_def sample_battle_state new_battle_backend_def sample_plugin_def echo_defs)

theorem finished_battle_keeps_counting_witness:
  "get_instance_frame ''b'' sample_finished = 0 \<and>
   get_instance_frame ''b'' (snd (battle_request_step sample_text (BattleState 9 (Some (JObject [(''battle_id'', JString ''b'')]))) sample_finished)) = 1"
proof -
  obtain inst where "find_instance_locked ''b'' (bb_runtime sample_finished) = Some inst" "in_state inst = KFinished" using sample_finished_facts(1) by blast
  from finished_battle_keeps_counting[OF this, of sample_text 9] sample_finished_facts(2-4) show ?thesis
    by (simp add: sample_text_def get_instance_frame_def u32_add_def Let_def)
qed

end
