(* ===== verification/Room_Actor.thy ===== *)
theory Room_Actor
  imports Prelude
begin

text \<open>
  The room actor (\<^verbatim>\<open>src/v2/room/room_actor.cpp\<close>, \<^verbatim>\<open>include/v2/room/message_types.h\<close>): the
  record \<open>room_actor\<close> is \<^verbatim>\<open>RoomRuntimeState\<close> together with the events pushed to the sink, and
  \<open>room_on_message\<close> dispatches the ten messages to their handlers.
\<close>

subsection \<open>State, messages and handlers\<close>

record room_member =
  rm_user_id :: string
  rm_player_actor_id :: u64
  rm_ready :: bool

datatype room_msg =
    CreateRoomMsg string string u64
  | JoinRoomMsg string u64
  | SetReadyMsg string bool
  | StartBattleMsg string
  | BattleStartedMsg string
  | RoomBattleSettlementMsg string string
  | RoomBattleEndedMsg string string
  | LeaveRoomMsg string
  | KickMemberMsg string string
  | TransferOwnerMsg string string

datatype room_event =
    BattleStartRequestedMsg string "string list" string
  | BattleStartRejectedMsg string string
  | RoomBattleSettlementAppliedMsg string string string
  | RoomLeaveAppliedMsg string string
  | RoomKickAppliedMsg string string
  | RoomOwnerTransferredMsg string string string

record room_actor =
  ra_room_id :: string
  ra_owner_user_id :: string
  ra_members :: "room_member list"
  ra_active_battle_id :: "string option"
  ra_pending_reason :: "string option"
  ra_events :: "room_event list"

definition new_room_actor :: room_actor where
  "new_room_actor = \<lparr>ra_room_id = [], ra_owner_user_id = [], ra_members = [],
     ra_active_battle_id = None, ra_pending_reason = None, ra_events = []\<rparr>"

definition room_push :: "room_event \<Rightarrow> room_actor \<Rightarrow> room_actor" where
  "room_push e s = s\<lparr>ra_events := ra_events s @ [e]\<rparr>"

definition find_member :: "string \<Rightarrow> room_actor \<Rightarrow> room_member option" where
  "find_member u s = find (\<lambda>m. rm_user_id m = u) (ra_members s)"

definition all_members_ready :: "room_actor \<Rightarrow> bool" where
  "all_members_ready s = list_all rm_ready (ra_members s)"

definition reassign_owner_if_needed :: "room_actor \<Rightarrow> room_actor" where
  "reassign_owner_if_needed s =
     (case ra_members s of
        [] \<Rightarrow> s
      | m # _ \<Rightarrow> room_push (RoomOwnerTransferredMsg (ra_room_id s) [] (rm_user_id m))
                  (s\<lparr>ra_owner_user_id := rm_user_id m\<rparr>))"

definition handle_create_room :: "string \<Rightarrow> string \<Rightarrow> u64 \<Rightarrow> room_actor \<Rightarrow> room_actor" where
  "handle_create_room room owner aid s =
     s\<lparr>ra_room_id := room, ra_owner_user_id := owner,
       ra_members := [\<lparr>rm_user_id = owner, rm_player_actor_id = aid, rm_ready = False\<rparr>]\<rparr>"

definition handle_join_room :: "string \<Rightarrow> u64 \<Rightarrow> room_actor \<Rightarrow> room_actor" where
  "handle_join_room u aid s =
     (if find_member u s \<noteq> None then s
      else s\<lparr>ra_members := ra_members s @
               [\<lparr>rm_user_id = u, rm_player_actor_id = aid, rm_ready = False\<rparr>]\<rparr>)"

definition handle_set_ready :: "string \<Rightarrow> bool \<Rightarrow> room_actor \<Rightarrow> room_actor" where
  "handle_set_ready u r s =
     s\<lparr>ra_members := update_first (\<lambda>m. rm_user_id m = u) (\<lambda>m. m\<lparr>rm_ready := r\<rparr>) (ra_members s)\<rparr>"

definition handle_start_battle :: "string \<Rightarrow> room_actor \<Rightarrow> room_actor" where
  "handle_start_battle requester s =
     (if ra_active_battle_id s \<noteq> None
      then room_push (BattleStartRejectedMsg (ra_room_id s) ''battle_already_started'') s
      else if requester \<noteq> ra_owner_user_id s
      then room_push (BattleStartRejectedMsg (ra_room_id s) ''not_room_owner'') s
      else if length (ra_members s) < 2
      then room_push (BattleStartRejectedMsg (ra_room_id s) ''not_enough_players'') s
      else if \<not> all_members_ready s
      then room_push (BattleStartRejectedMsg (ra_room_id s) ''not_all_ready'') s
      else room_push
        (BattleStartRequestedMsg (ra_room_id s) (map rm_user_id (ra_members s)) requester) s)"

definition handle_battle_started :: "string \<Rightarrow> room_actor \<Rightarrow> room_actor" where
  "handle_battle_started b s = s\<lparr>ra_active_battle_id := Some b, ra_pending_reason := None\<rparr>"

definition handle_battle_settlement :: "string \<Rightarrow> string \<Rightarrow> room_actor \<Rightarrow> room_actor" where
  "handle_battle_settlement b reason s =
     (if ra_active_battle_id s \<noteq> Some b then s
      else room_push (RoomBattleSettlementAppliedMsg (ra_room_id s) b reason)
             (s\<lparr>ra_pending_reason := Some reason\<rparr>))"

definition handle_battle_ended :: "string \<Rightarrow> string \<Rightarrow> room_actor \<Rightarrow> room_actor" where
  "handle_battle_ended b reason s =
     (if ra_active_battle_id s \<noteq> Some b then s
      else s\<lparr>ra_active_battle_id := None, ra_pending_reason := None,
             ra_members := map (\<lambda>m. m\<lparr>rm_ready := False\<rparr>) (ra_members s)\<rparr>)"

definition handle_leave_room :: "string \<Rightarrow> room_actor \<Rightarrow> room_actor" where
  "handle_leave_room u s =
     (if find_member u s = None then s
      else
       (let was_owner = (ra_owner_user_id s = u);
            s1 = room_push (RoomLeaveAppliedMsg (ra_room_id s) u)
                   (s\<lparr>ra_members := filter (\<lambda>m. rm_user_id m \<noteq> u) (ra_members s)\<rparr>)
        in if was_owner then reassign_owner_if_needed s1 else s1))"

definition handle_kick_member :: "string \<Rightarrow> string \<Rightarrow> room_actor \<Rightarrow> room_actor" where
  "handle_kick_member requester target s =
     (if requester \<noteq> ra_owner_user_id s then s
      else if target = ra_owner_user_id s then s
      else if find_member target s = None then s
      else room_push (RoomKickAppliedMsg (ra_room_id s) target)
             (s\<lparr>ra_members := filter (\<lambda>m. rm_user_id m \<noteq> target) (ra_members s)\<rparr>))"

definition handle_transfer_owner :: "string \<Rightarrow> string \<Rightarrow> room_actor \<Rightarrow> room_actor" where
  "handle_transfer_owner requester new_owner s =
     (if requester \<noteq> ra_owner_user_id s then s
      else if new_owner = ra_owner_user_id s then s
      else if find_member new_owner s = None then s
      else room_push (RoomOwnerTransferredMsg (ra_room_id s) (ra_owner_user_id s) new_owner)
             (s\<lparr>ra_owner_user_id := new_owner\<rparr>))"

fun room_on_message :: "room_msg \<Rightarrow> room_actor \<Rightarrow> room_actor" where
  "room_on_message (CreateRoomMsg room owner aid) s = handle_create_room room owner aid s"
| "room_on_message (JoinRoomMsg u aid) s = handle_join_room u aid s"
| "room_on_message (SetReadyMsg u r) s = handle_set_ready u r s"
| "room_on_message (StartBattleMsg u) s = handle_start_battle u s"
| "room_on_message (BattleStartedMsg b) s = handle_battle_started b s"
| "room_on_message (RoomBattleSettlementMsg b reason) s = handle_battle_settlement b reason s"
| "room_on_message (RoomBattleEndedMsg b reason) s = handle_battle_ended b reason s"
| "room_on_message (LeaveRoomMsg u) s = handle_leave_room u s"
| "room_on_message (KickMemberMsg r t) s = handle_kick_member r t s"
| "room_on_message (TransferOwnerMsg r t) s = handle_transfer_owner r t s"

abbreviation room_users :: "room_actor \<Rightarrow> string list" where
  "room_users s \<equiv> map rm_user_id (ra_members s)"

lemma room_push_simps [simp]:
  "ra_room_id (room_push e s) = ra_room_id s"
  "ra_owner_user_id (room_push e s) = ra_owner_user_id s"
  "ra_members (room_push e s) = ra_members s"
  "ra_active_battle_id (room_push e s) = ra_active_battle_id s"
  "ra_pending_reason (room_push e s) = ra_pending_reason s"
  "ra_events (room_push e s) = ra_events s @ [e]"
  by (simp_all add: room_push_def)

lemma find_member_None: "find_member u s = None \<longleftrightarrow> u \<notin> set (room_users s)"
  by (simp add: find_member_def find_key_None)

lemmas room_handler_defs [state_simps] =
  handle_create_room_def handle_join_room_def handle_set_ready_def handle_start_battle_def
  handle_battle_started_def handle_battle_settlement_def handle_battle_ended_def
  handle_leave_room_def handle_kick_member_def handle_transfer_owner_def
  reassign_owner_if_needed_def

subsection \<open>Invariants\<close>

text \<open>In every room the members are distinct and a settlement is pending only during a battle.\<close>

definition room_inv :: "room_actor \<Rightarrow> bool" where
  "room_inv s \<longleftrightarrow> distinct (room_users s) \<and>
     (ra_pending_reason s \<noteq> None \<longrightarrow> ra_active_battle_id s \<noteq> None)"

lemma map_user_filter:
  "map rm_user_id (filter (\<lambda>m. rm_user_id m \<noteq> u) ms) = filter (\<lambda>x. x \<noteq> u) (map rm_user_id ms)"
  by (induction ms) auto

lemma room_inv_message: "room_inv s \<Longrightarrow> room_inv (room_on_message m s)"
proof (cases m)
  case (LeaveRoomMsg u)
  assume "room_inv s"
  with LeaveRoomMsg show ?thesis
    by (auto simp: room_inv_def state_simps Let_def split: list.splits
        dest: arg_cong [of _ _ "\<lambda>ms. distinct (map rm_user_id ms)"])
qed (auto simp: room_inv_def state_simps find_member_None comp_def)

interpretation room: message_actor room_on_message room_inv
  by unfold_locales (rule room_inv_message)

lemma owner_member_message:
  assumes "ra_owner_user_id s \<in> set (room_users s)"
  shows "ra_owner_user_id (room_on_message m s) \<in> set (room_users (room_on_message m s)) \<or>
    ra_members (room_on_message m s) = []"
proof (cases m)
  case (LeaveRoomMsg u)
  show ?thesis
  proof (cases "ra_owner_user_id s = u")
    case True
    with LeaveRoomMsg assms show ?thesis
      by (cases "filter (\<lambda>m. rm_user_id m \<noteq> u) (ra_members s)")
        (simp_all add: state_simps Let_def find_member_None)
  next
    case False
    then have "ra_owner_user_id s \<in> set (map rm_user_id (filter (\<lambda>m. rm_user_id m \<noteq> u) (ra_members s)))"
      using assms by auto
    with LeaveRoomMsg False assms show ?thesis by (simp add: state_simps Let_def)
  qed
next
  case (KickMemberMsg r t)
  with assms show ?thesis by (auto simp: state_simps find_member_None image_iff)
next
  case (SetReadyMsg u r)
  have "set (map rm_user_id (update_first P (\<lambda>m. m\<lparr>rm_ready := r\<rparr>) ms)) = set (map rm_user_id ms)" for P ms
    by (simp del: set_map)
  with SetReadyMsg assms show ?thesis by (simp add: state_simps del: set_map)
qed (use assms in \<open>auto simp: state_simps find_member_None image_image comp_def\<close>)

text \<open>A room that has been created always has an owner among its members. Whatever
  messages follow the creation, as long as the room is never left empty the members are distinct
  and the owner is one of them (a leaving owner is replaced, nobody can kick the owner, and
  ownership is only transferred to members).\<close>

theorem room_owner_is_member:
  assumes "\<forall>k\<le>length ms. ra_members (run_messages room_on_message
      (CreateRoomMsg room owner aid # take k ms) new_room_actor) \<noteq> []"
    and "s = run_messages room_on_message (CreateRoomMsg room owner aid # ms) new_room_actor"
  shows "distinct (room_users s) \<and> ra_owner_user_id s \<in> set (room_users s)"
proof -
  let ?s0 = "handle_create_room room owner aid new_room_actor"
  have "room_inv new_room_actor" by (simp add: room_inv_def new_room_actor_def)
  then have "room_inv s" unfolding assms(2) by (rule room.inv_run)
  moreover have "ra_owner_user_id (run_messages room_on_message (take k ms) ?s0)
      \<in> set (room_users (run_messages room_on_message (take k ms) ?s0))" if "k \<le> length ms" for k
    using that
  proof (induction k)
    case 0
    show ?case by (simp add: handle_create_room_def)
  next
    case (Suc k)
    then have "take (Suc k) ms = take k ms @ [ms ! k]" by (simp add: take_Suc_conv_app_nth)
    moreover have "ra_members (run_messages room_on_message (take (Suc k) ms) ?s0) \<noteq> []"
      using assms(1) Suc.prems by auto
    ultimately show ?case
      using Suc owner_member_message [of "run_messages room_on_message (take k ms) ?s0" "ms ! k"]
      by auto
  qed
  from this [of "length ms"] have "ra_owner_user_id s \<in> set (room_users s)"
    unfolding assms(2) by simp
  ultimately show ?thesis by (simp add: room_inv_def)
qed

definition sample_room_msgs :: "room_msg list" where
  "sample_room_msgs = [JoinRoomMsg ''bob'' 2, LeaveRoomMsg ''ann'']"

theorem room_owner_is_member_witness:
  "ra_owner_user_id (run_messages room_on_message (CreateRoomMsg ''r'' ''ann'' 1 # sample_room_msgs) new_room_actor)
   \<in> set (room_users (run_messages room_on_message (CreateRoomMsg ''r'' ''ann'' 1 # sample_room_msgs) new_room_actor))"
proof -
  have "\<forall>k\<le>length sample_room_msgs. ra_members (run_messages room_on_message
      (CreateRoomMsg ''r'' ''ann'' 1 # take k sample_room_msgs) new_room_actor) \<noteq> []"
    by (auto simp: sample_room_msgs_def le_Suc_eq state_simps find_member_def new_room_actor_def Let_def)
  from room_owner_is_member [OF this refl] show ?thesis by blast
qed

text \<open>The start gate. A start request is passed on exactly when no battle is active, the
  requester owns the room, there are at least two members and all of them are ready; it then
  names all members in joining order. Otherwise exactly one rejection with the first failing
  reason is sent, and in no case does the request change the room.\<close>

theorem start_battle_gate:
  "let s' = room_on_message (StartBattleMsg u) s in
     s' = s\<lparr>ra_events := ra_events s'\<rparr> \<and>
     ra_events s' = ra_events s @
       [if ra_active_battle_id s = None \<and> u = ra_owner_user_id s \<and> 2 \<le> length (ra_members s)
           \<and> list_all rm_ready (ra_members s)
        then BattleStartRequestedMsg (ra_room_id s) (room_users s) u
        else BattleStartRejectedMsg (ra_room_id s)
          (if ra_active_battle_id s \<noteq> None then ''battle_already_started''
           else if u \<noteq> ra_owner_user_id s then ''not_room_owner''
           else if length (ra_members s) < 2 then ''not_enough_players'' else ''not_all_ready'')]"
  by (auto simp: handle_start_battle_def all_members_ready_def room_push_def Let_def)

definition quiet_room_msg :: "room_msg \<Rightarrow> bool" where
  "quiet_room_msg m = (case m of SetReadyMsg _ _ \<Rightarrow> False | CreateRoomMsg _ _ _ \<Rightarrow> False | _ \<Rightarrow> True)"

definition start_requests :: "room_event list \<Rightarrow> room_event list" where
  "start_requests = filter (\<lambda>e. case e of BattleStartRequestedMsg _ _ _ \<Rightarrow> True | _ \<Rightarrow> False)"

lemma unready_message:
  assumes "\<forall>m\<in>set (ra_members s). \<not> rm_ready m" and "quiet_room_msg msg"
  shows "(\<forall>m\<in>set (ra_members (room_on_message msg s)). \<not> rm_ready m) \<and>
    start_requests (ra_events (room_on_message msg s)) = start_requests (ra_events s)"
  using assms
  by (cases msg; cases "ra_members s")
    (auto simp: state_simps quiet_room_msg_def start_requests_def all_members_ready_def Let_def
      split: list.splits dest: filter_eq_ConsD)

text \<open>No battle without renewed readiness. After the active battle ends, every member is
  unready, and until somebody sends a ready message no sequence of joins, leaves, kicks, owner
  changes and start requests can pass on another start request.\<close>

theorem battle_end_needs_new_ready:
  assumes "ra_active_battle_id s = Some b" and "list_all quiet_room_msg ms"
  shows "start_requests (ra_events (run_messages room_on_message (RoomBattleEndedMsg b reason # ms) s)) =
    start_requests (ra_events s)"
proof -
  let ?s1 = "room_on_message (RoomBattleEndedMsg b reason) s"
  have "(\<forall>m\<in>set (ra_members (run_messages room_on_message ms t)). \<not> rm_ready m) \<and>
      start_requests (ra_events (run_messages room_on_message ms t)) = start_requests (ra_events t)"
    if "\<forall>m\<in>set (ra_members t). \<not> rm_ready m" for t
    using assms(2) that
  proof (induction ms arbitrary: t)
    case (Cons m ms)
    have q: "quiet_room_msg m" "list_all quiet_room_msg ms" using Cons.prems(1) by simp_all
    note u = unready_message [OF Cons.prems(2) q(1)]
    from Cons.IH [OF q(2) conjunct1 [OF u]] conjunct2 [OF u] show ?case
      unfolding run_messages_simps by metis
  qed simp
  from this [of ?s1] show ?thesis using assms(1) by (simp add: handle_battle_ended_def)
qed

definition sample_fighting_room :: room_actor where
  "sample_fighting_room = run_messages room_on_message
     [CreateRoomMsg ''r'' ''ann'' 1, JoinRoomMsg ''bob'' 2, SetReadyMsg ''ann'' True,
      SetReadyMsg ''bob'' True, StartBattleMsg ''ann'', BattleStartedMsg ''b1''] new_room_actor"

theorem battle_end_needs_new_ready_witness:
  "start_requests (ra_events (run_messages room_on_message
      [RoomBattleEndedMsg ''b1'' ''done'', StartBattleMsg ''ann''] sample_fighting_room)) =
   [BattleStartRequestedMsg ''r'' [''ann'', ''bob''] ''ann'']"
proof -
  have "ra_active_battle_id sample_fighting_room = Some ''b1''"
    and ev: "start_requests (ra_events sample_fighting_room) = [BattleStartRequestedMsg ''r'' [''ann'', ''bob''] ''ann'']"
    by (simp_all add: sample_fighting_room_def state_simps find_member_def new_room_actor_def
        all_members_ready_def start_requests_def)
  then show ?thesis
    using battle_end_needs_new_ready [of sample_fighting_room "''b1''" "[StartBattleMsg ''ann'']" "''done''"]
    by (simp add: quiet_room_msg_def)
qed

text \<open>
  A room whose last member has left keeps its former owner; a player who joins it afterwards is
  a member of a room nobody present owns.
\<close>

lemma emptied_room_keeps_owner:
  "let s = run_messages room_on_message
         [CreateRoomMsg ''r'' ''ann'' 1, LeaveRoomMsg ''ann'', JoinRoomMsg ''bob'' 2] new_room_actor
   in ra_owner_user_id s = ''ann'' \<and> room_users s = [''bob'']"
  by (simp add: state_simps find_member_def new_room_actor_def Let_def)

end
