(* ===== verification/Player_Actor.thy ===== *)
theory Player_Actor
  imports Prelude
begin

text \<open>
  The player actor (\<^verbatim>\<open>src/v2/player/player_actor.cpp\<close>, \<^verbatim>\<open>include/v2/player/message_types.h\<close>):
  session binding, login, room and battle assignment, and the reconnect window after a lost
  session.  The record \<open>player_actor\<close> holds \<^verbatim>\<open>PlayerRuntimeState\<close> and the private members of
  \<^verbatim>\<open>PlayerActor\<close>; \<open>pl_events\<close> are the events pushed to the sink.  Timers belong to the actor
  system: \<^verbatim>\<open>schedule_after\<close> returns a fresh number and \<open>pl_timers\<close> lists the timers scheduled
  and not cancelled; an expired timer leaves the list by its message.
\<close>

subsection \<open>State, messages and handlers\<close>

datatype player_lifecycle =
  KOffline | KAuthenticating | KOnlineIdle | KInRoom | KInBattle | KSuspended

record session_binding =
  sb_session_id :: nat
  sb_connection_id :: nat
  sb_bound_at :: nat

record token_meta =
  tm_token_type :: string
  tm_issuer :: string
  tm_issued_at :: nat
  tm_expires_at :: nat
  tm_claims :: "(string \<times> string) list"

record resume_meta =
  rs_reconnect_token :: string
  rs_room_id :: string
  rs_battle_id :: "string option"
  rs_expiry :: nat

datatype player_msg =
    BindSessionMsg nat nat
  | LoginRequestMsg nat string string "string option"
  | RoomAssignedMsg nat string
  | BattleAssignedMsg nat string
  | PlayerBattleSettlementMsg string string
  | PlayerBattleEndedMsg string string
  | SessionClosedMsg nat
  | ReconnectTimerExpiredMsg string
  | TokenRefreshMsg nat string

datatype player_event =
    LoginAcceptedMsg nat string string "string option"
  | SessionKickPushMsg nat nat
  | SessionResumePushMsg nat string bool
  | PlayerBattleSettlementAppliedMsg string string
  | TokenRefreshedMsg nat string string string nat

record player_actor =
  pl_lifecycle :: player_lifecycle
  pl_user_id :: string
  pl_display_name :: string
  pl_binding :: "session_binding option"
  pl_room_actor_id :: "nat option"
  pl_room_id :: "string option"
  pl_battle_actor_id :: "nat option"
  pl_battle_id :: "string option"
  pl_pending_reason :: "string option"
  pl_pending_binding :: "session_binding option"
  pl_token_meta :: "token_meta option"
  pl_resume_meta :: "resume_meta option"
  pl_reconnect_timer_id :: "nat option"
  pl_next_timer :: nat
  pl_timers :: "nat list"
  pl_events :: "player_event list"

definition new_player_actor :: player_actor where
  "new_player_actor =
     \<lparr>pl_lifecycle = KOffline, pl_user_id = [], pl_display_name = [], pl_binding = None,
      pl_room_actor_id = None, pl_room_id = None, pl_battle_actor_id = None, pl_battle_id = None,
      pl_pending_reason = None, pl_pending_binding = None, pl_token_meta = None,
      pl_resume_meta = None, pl_reconnect_timer_id = None, pl_next_timer = 1, pl_timers = [],
      pl_events = []\<rparr>"

definition player_push :: "player_event \<Rightarrow> player_actor \<Rightarrow> player_actor" where
  "player_push e s = s\<lparr>pl_events := pl_events s @ [e]\<rparr>"

definition handle_bind_session :: "nat \<Rightarrow> nat \<Rightarrow> player_actor \<Rightarrow> player_actor" where
  "handle_bind_session sid cid s =
     (let binding = \<lparr>sb_session_id = sid, sb_connection_id = cid, sb_bound_at = cid\<rparr>;
          s1 = (if pl_binding s = None \<or> pl_lifecycle s = KOffline \<or> pl_lifecycle s = KAuthenticating
                then s\<lparr>pl_binding := Some binding\<rparr> else s\<lparr>pl_pending_binding := Some binding\<rparr>)
      in if pl_lifecycle s1 = KOffline \<or> pl_lifecycle s1 = KSuspended
         then s1\<lparr>pl_lifecycle := KAuthenticating\<rparr> else s1)"

definition cancel_reconnect_timer :: "player_actor \<Rightarrow> player_actor" where
  "cancel_reconnect_timer s =
     (case pl_reconnect_timer_id s of
        None \<Rightarrow> s
      | Some t \<Rightarrow> s\<lparr>pl_timers := filter (\<lambda>x. x \<noteq> t) (pl_timers s), pl_reconnect_timer_id := None\<rparr>)"

definition kick_old_session :: "nat \<Rightarrow> player_actor \<Rightarrow> player_actor" where
  "kick_old_session sid s =
     (case pl_binding s of
        Some b \<Rightarrow> if sb_session_id b \<noteq> 0 \<and> sb_session_id b \<noteq> sid
                  then player_push (SessionKickPushMsg (sb_session_id b) sid) s else s
      | None \<Rightarrow> s)"

definition handle_login_request ::
  "nat \<Rightarrow> string \<Rightarrow> string option \<Rightarrow> player_actor \<Rightarrow> player_actor" where
  "handle_login_request sid user display s =
     (let incoming = (if map_option sb_session_id (pl_pending_binding s) = Some sid
                      then pl_pending_binding s else pl_binding s);
          s1 = cancel_reconnect_timer (kick_old_session sid s);
          s2 = s1\<lparr>pl_user_id := user,
                  pl_display_name := (case display of None \<Rightarrow> user | Some d \<Rightarrow> d),
                  pl_binding := Some \<lparr>sb_session_id = sid,
                     sb_connection_id = (case incoming of None \<Rightarrow> sid | Some b \<Rightarrow> sb_connection_id b),
                     sb_bound_at = sid\<rparr>,
                  pl_pending_binding := None,
                  pl_token_meta := Some \<lparr>tm_token_type = ''bearer'', tm_issuer = ''gateway'',
                     tm_issued_at = 0, tm_expires_at = 0, tm_claims = []\<rparr>,
                  pl_resume_meta := None,
                  pl_lifecycle := (if pl_room_id s1 \<noteq> None then KInRoom else KOnlineIdle)\<rparr>;
          s3 = player_push (LoginAcceptedMsg sid (pl_user_id s2) (pl_display_name s2) (pl_room_id s2)) s2
      in case pl_room_id s3 of
           None \<Rightarrow> s3
         | Some room \<Rightarrow> player_push (SessionResumePushMsg sid room (pl_lifecycle s3 = KInBattle)) s3)"

definition handle_room_assigned :: "nat \<Rightarrow> string \<Rightarrow> player_actor \<Rightarrow> player_actor" where
  "handle_room_assigned aid room s =
     s\<lparr>pl_room_actor_id := Some aid, pl_room_id := Some room, pl_lifecycle := KInRoom\<rparr>"

definition handle_battle_assigned :: "nat \<Rightarrow> string \<Rightarrow> player_actor \<Rightarrow> player_actor" where
  "handle_battle_assigned aid b s =
     s\<lparr>pl_battle_actor_id := Some aid, pl_battle_id := Some b, pl_pending_reason := None,
       pl_lifecycle := KInBattle\<rparr>"

definition player_battle_settlement :: "string \<Rightarrow> string \<Rightarrow> player_actor \<Rightarrow> player_actor" where
  "player_battle_settlement b reason s =
     (if pl_battle_id s \<noteq> Some b then s
      else player_push (PlayerBattleSettlementAppliedMsg b reason)
             (s\<lparr>pl_pending_reason := Some reason\<rparr>))"

definition player_battle_ended :: "string \<Rightarrow> player_actor \<Rightarrow> player_actor" where
  "player_battle_ended b s =
     (if pl_battle_id s \<noteq> None \<and> pl_battle_id s \<noteq> Some b then s
      else s\<lparr>pl_battle_actor_id := None, pl_battle_id := None, pl_pending_reason := None,
             pl_lifecycle := (if pl_room_id s \<noteq> None then KInRoom else KOnlineIdle)\<rparr>)"

definition schedule_reconnect_timeout :: "player_actor \<Rightarrow> player_actor" where
  "schedule_reconnect_timeout s =
     s\<lparr>pl_reconnect_timer_id := Some (pl_next_timer s),
       pl_timers := pl_timers s @ [pl_next_timer s], pl_next_timer := pl_next_timer s + 1\<rparr>"

definition handle_session_closed :: "nat \<Rightarrow> player_actor \<Rightarrow> player_actor" where
  "handle_session_closed sid s =
     (if map_option sb_session_id (pl_binding s) \<noteq> Some sid then s
      else
       (let s1 = s\<lparr>pl_binding := None, pl_pending_binding := None\<rparr> in
        if pl_room_id s1 \<noteq> None
        then schedule_reconnect_timeout (s1\<lparr>pl_lifecycle := KSuspended\<rparr>)
        else s1\<lparr>pl_lifecycle := KOffline\<rparr>))"

definition handle_reconnect_timeout :: "player_actor \<Rightarrow> player_actor" where
  "handle_reconnect_timeout s =
     (let s1 = s\<lparr>pl_reconnect_timer_id := None, pl_resume_meta := None\<rparr> in
      if pl_lifecycle s1 = KSuspended then s1\<lparr>pl_lifecycle := KOffline\<rparr> else s1)"

definition handle_token_refresh :: "nat \<Rightarrow> string \<Rightarrow> player_actor \<Rightarrow> player_actor" where
  "handle_token_refresh sid user s =
     (if pl_user_id s = [] \<or> pl_user_id s \<noteq> user then s
      else player_push (TokenRefreshedMsg sid (pl_user_id s) (pl_user_id s) [] 0)
             (s\<lparr>pl_token_meta := map_option (\<lambda>t. t\<lparr>tm_expires_at := 0\<rparr>) (pl_token_meta s)\<rparr>))"

fun player_on_message :: "player_msg \<Rightarrow> player_actor \<Rightarrow> player_actor" where
  "player_on_message (BindSessionMsg sid cid) s = handle_bind_session sid cid s"
| "player_on_message (LoginRequestMsg sid user token display) s = handle_login_request sid user display s"
| "player_on_message (RoomAssignedMsg aid room) s = handle_room_assigned aid room s"
| "player_on_message (BattleAssignedMsg aid b) s = handle_battle_assigned aid b s"
| "player_on_message (PlayerBattleSettlementMsg b reason) s = player_battle_settlement b reason s"
| "player_on_message (PlayerBattleEndedMsg b reason) s = player_battle_ended b s"
| "player_on_message (SessionClosedMsg sid) s = handle_session_closed sid s"
| "player_on_message (ReconnectTimerExpiredMsg user) s = handle_reconnect_timeout s"
| "player_on_message (TokenRefreshMsg sid user) s = handle_token_refresh sid user s"

text \<open>The actor system fires a scheduled timer: it is removed and its message delivered.\<close>

definition fire_timer :: "nat \<Rightarrow> player_actor \<Rightarrow> player_actor" where
  "fire_timer t s = (if t \<in> set (pl_timers s)
     then handle_reconnect_timeout (s\<lparr>pl_timers := remove1 t (pl_timers s)\<rparr>) else s)"

lemma player_push_keeps [simp]:
  "pl_lifecycle (player_push e s) = pl_lifecycle s"
  "pl_user_id (player_push e s) = pl_user_id s"
  "pl_display_name (player_push e s) = pl_display_name s"
  "pl_binding (player_push e s) = pl_binding s"
  "pl_room_actor_id (player_push e s) = pl_room_actor_id s"
  "pl_room_id (player_push e s) = pl_room_id s"
  "pl_battle_actor_id (player_push e s) = pl_battle_actor_id s"
  "pl_battle_id (player_push e s) = pl_battle_id s"
  "pl_pending_reason (player_push e s) = pl_pending_reason s"
  "pl_pending_binding (player_push e s) = pl_pending_binding s"
  "pl_token_meta (player_push e s) = pl_token_meta s"
  "pl_resume_meta (player_push e s) = pl_resume_meta s"
  "pl_reconnect_timer_id (player_push e s) = pl_reconnect_timer_id s"
  "pl_next_timer (player_push e s) = pl_next_timer s"
  "pl_timers (player_push e s) = pl_timers s"
  by (simp_all add: player_push_def)

lemma player_push_events [simp]: "pl_events (player_push e s) = pl_events s @ [e]"
  by (simp add: player_push_def)

lemma kick_old_session_keeps [simp]:
  "pl_lifecycle (kick_old_session sid s) = pl_lifecycle s"
  "pl_user_id (kick_old_session sid s) = pl_user_id s"
  "pl_display_name (kick_old_session sid s) = pl_display_name s"
  "pl_binding (kick_old_session sid s) = pl_binding s"
  "pl_room_actor_id (kick_old_session sid s) = pl_room_actor_id s"
  "pl_room_id (kick_old_session sid s) = pl_room_id s"
  "pl_battle_actor_id (kick_old_session sid s) = pl_battle_actor_id s"
  "pl_battle_id (kick_old_session sid s) = pl_battle_id s"
  "pl_pending_reason (kick_old_session sid s) = pl_pending_reason s"
  "pl_pending_binding (kick_old_session sid s) = pl_pending_binding s"
  "pl_token_meta (kick_old_session sid s) = pl_token_meta s"
  "pl_resume_meta (kick_old_session sid s) = pl_resume_meta s"
  "pl_reconnect_timer_id (kick_old_session sid s) = pl_reconnect_timer_id s"
  "pl_next_timer (kick_old_session sid s) = pl_next_timer s"
  "pl_timers (kick_old_session sid s) = pl_timers s"
  by (simp_all add: kick_old_session_def split: option.splits)

lemma cancel_timer_keeps [simp]:
  "pl_lifecycle (cancel_reconnect_timer s) = pl_lifecycle s"
  "pl_user_id (cancel_reconnect_timer s) = pl_user_id s"
  "pl_display_name (cancel_reconnect_timer s) = pl_display_name s"
  "pl_binding (cancel_reconnect_timer s) = pl_binding s"
  "pl_room_actor_id (cancel_reconnect_timer s) = pl_room_actor_id s"
  "pl_room_id (cancel_reconnect_timer s) = pl_room_id s"
  "pl_battle_actor_id (cancel_reconnect_timer s) = pl_battle_actor_id s"
  "pl_battle_id (cancel_reconnect_timer s) = pl_battle_id s"
  "pl_pending_reason (cancel_reconnect_timer s) = pl_pending_reason s"
  "pl_pending_binding (cancel_reconnect_timer s) = pl_pending_binding s"
  "pl_token_meta (cancel_reconnect_timer s) = pl_token_meta s"
  "pl_resume_meta (cancel_reconnect_timer s) = pl_resume_meta s"
  "pl_next_timer (cancel_reconnect_timer s) = pl_next_timer s"
  "pl_events (cancel_reconnect_timer s) = pl_events s"
  by (simp_all add: cancel_reconnect_timer_def split: option.splits)

lemma cancel_timer_id [simp]: "pl_reconnect_timer_id (cancel_reconnect_timer s) = None"
  by (simp add: cancel_reconnect_timer_def split: option.splits)

lemma login_effect:
  "pl_lifecycle (handle_login_request sid u d s) = (if pl_room_id s \<noteq> None then KInRoom else KOnlineIdle)"
  "pl_room_id (handle_login_request sid u d s) = pl_room_id s"
  "pl_room_actor_id (handle_login_request sid u d s) = pl_room_actor_id s"
  "pl_battle_id (handle_login_request sid u d s) = pl_battle_id s"
  "pl_battle_actor_id (handle_login_request sid u d s) = pl_battle_actor_id s"
  "pl_pending_reason (handle_login_request sid u d s) = pl_pending_reason s"
  "pl_reconnect_timer_id (handle_login_request sid u d s) = None"
  "pl_timers (handle_login_request sid u d s) = pl_timers (cancel_reconnect_timer s)"
  "map_option sb_session_id (pl_binding (handle_login_request sid u d s)) = Some sid"
  "pl_user_id (handle_login_request sid u d s) = u"
  "pl_events (handle_login_request sid u d s) =
     pl_events (kick_old_session sid s) @
     LoginAcceptedMsg sid u (case d of None \<Rightarrow> u | Some x \<Rightarrow> x) (pl_room_id s) #
     (case pl_room_id s of None \<Rightarrow> [] | Some room \<Rightarrow> [SessionResumePushMsg sid room False])"
  by (simp_all add: handle_login_request_def Let_def cancel_reconnect_timer_def split: option.split)

lemmas player_handler_defs [state_simps] =
  handle_bind_session_def handle_room_assigned_def handle_battle_assigned_def player_battle_settlement_def
  player_battle_ended_def schedule_reconnect_timeout_def handle_session_closed_def
  handle_reconnect_timeout_def handle_token_refresh_def

subsection \<open>The lifecycle invariant\<close>

definition player_inv :: "player_actor \<Rightarrow> bool" where
  "player_inv s \<longleftrightarrow>
     (pl_room_id s = None \<longleftrightarrow> pl_room_actor_id s = None) \<and>
     (pl_battle_id s = None \<longleftrightarrow> pl_battle_actor_id s = None) \<and>
     (pl_pending_reason s \<noteq> None \<longrightarrow> pl_battle_id s \<noteq> None) \<and>
     (case pl_lifecycle s of
        KInRoom \<Rightarrow> pl_room_id s \<noteq> None
      | KOnlineIdle \<Rightarrow> pl_room_id s = None
      | KInBattle \<Rightarrow> pl_battle_id s \<noteq> None
      | KSuspended \<Rightarrow> pl_room_id s \<noteq> None \<and> pl_reconnect_timer_id s \<noteq> None
      | _ \<Rightarrow> True)"

lemma player_inv_message:
  assumes "player_inv s"
  shows "player_inv (player_on_message m s)"
proof (cases m)
  case (LoginRequestMsg sid u tok d)
  with assms show ?thesis by (auto simp: player_inv_def login_effect)
next
  case (BindSessionMsg sid cid)
  with assms show ?thesis
    by (cases "pl_lifecycle s") (auto simp: player_inv_def state_simps Let_def)
qed (use assms in \<open>auto simp: player_inv_def state_simps Let_def split: player_lifecycle.splits\<close>)

interpretation player: message_actor player_on_message player_inv
  by unfold_locales (rule player_inv_message)

lemma new_player_inv: "player_inv new_player_actor"
  by (simp add: player_inv_def new_player_actor_def)

text \<open>The player's lifecycle is coherent with what the player holds. Whatever messages
  arrive, a player shown in a room has a room, an idle one has none, one in battle has a battle,
  and a suspended player has a room and a pending reconnect timer; room and battle numbers are
  present exactly with their actors, and a settlement is pending only for a current battle.\<close>

theorem player_lifecycle_coherent:
  "player_inv (run_messages player_on_message ms new_player_actor)"
  by (rule player.inv_run [OF new_player_inv])

text \<open>A login takes over the session. After a login the player is bound to the new session,
  every other session that was bound is kicked by exactly one push that precedes the acceptance,
  no reconnect timer is left, and the room the player was in is offered for resumption.\<close>

theorem login_takes_over:
  "let s' = player_on_message (LoginRequestMsg sid user token display) s in
     map_option sb_session_id (pl_binding s') = Some sid \<and> pl_user_id s' = user \<and>
     pl_reconnect_timer_id s' = None \<and>
     set (pl_timers s') = set (pl_timers s) - set_option (pl_reconnect_timer_id s) \<and>
     pl_lifecycle s' = (if pl_room_id s = None then KOnlineIdle else KInRoom) \<and>
     pl_events s' = pl_events s @
       (case pl_binding s of
          Some b \<Rightarrow> if sb_session_id b \<noteq> 0 \<and> sb_session_id b \<noteq> sid
                    then [SessionKickPushMsg (sb_session_id b) sid] else []
        | None \<Rightarrow> []) @
       LoginAcceptedMsg sid user (case display of None \<Rightarrow> user | Some d \<Rightarrow> d) (pl_room_id s) #
       (case pl_room_id s of None \<Rightarrow> [] | Some room \<Rightarrow> [SessionResumePushMsg sid room False])"
proof -
  have "set (pl_timers (cancel_reconnect_timer s)) =
      set (pl_timers s) - set_option (pl_reconnect_timer_id s)"
    by (auto simp: cancel_reconnect_timer_def split: option.split)
  moreover have "pl_events (kick_old_session sid s) = pl_events s @
      (case pl_binding s of
          Some b \<Rightarrow> if sb_session_id b \<noteq> 0 \<and> sb_session_id b \<noteq> sid
                    then [SessionKickPushMsg (sb_session_id b) sid] else []
        | None \<Rightarrow> [])"
    by (simp add: kick_old_session_def split: option.split)
  ultimately show ?thesis unfolding Let_def player_on_message.simps login_effect by simp
qed

text \<open>Losing the session in a room opens the reconnect window, and logging in within it closes
  it: the timer that was scheduled is cancelled, so that it can no longer take the player
  offline, and the player is back in the room.\<close>

theorem reconnect_within_window:
  assumes "map_option sb_session_id (pl_binding s) = Some sid"
    and "pl_room_id s = Some room" and "set (pl_timers s) \<subseteq> {..<pl_next_timer s}"
    and "s1 = player_on_message (SessionClosedMsg sid) s"
    and "s2 = player_on_message (LoginRequestMsg sid' user token display) s1"
  shows "pl_lifecycle s1 = KSuspended \<and> pl_reconnect_timer_id s1 = Some (pl_next_timer s) \<and>
    pl_next_timer s \<in> set (pl_timers s1) \<and>
    pl_lifecycle s2 = KInRoom \<and> set (pl_timers s2) = set (pl_timers s) \<and>
    fire_timer (pl_next_timer s) s2 = s2"
proof -
  have s1: "pl_lifecycle s1 = KSuspended" "pl_reconnect_timer_id s1 = Some (pl_next_timer s)"
    "pl_timers s1 = pl_timers s @ [pl_next_timer s]" "pl_room_id s1 = Some room"
    using assms(1,2,4) by (simp_all add: handle_session_closed_def schedule_reconnect_timeout_def)
  then have s2: "pl_timers s2 = filter (\<lambda>x. x \<noteq> pl_next_timer s) (pl_timers s @ [pl_next_timer s])"
    "pl_lifecycle s2 = KInRoom"
    using assms(5) by (simp_all add: login_effect cancel_reconnect_timer_def)
  with assms(3) have "set (pl_timers s2) = set (pl_timers s)" "pl_next_timer s \<notin> set (pl_timers s2)" by auto
  with s1 s2 show ?thesis by (simp add: fire_timer_def)
qed

definition sample_player :: player_actor where
  "sample_player = run_messages player_on_message
     [BindSessionMsg 7 7, LoginRequestMsg 7 ''ann'' ''t'' None, RoomAssignedMsg 3 ''r''] new_player_actor"

lemma sample_player_facts:
  "player_inv sample_player" "map_option sb_session_id (pl_binding sample_player) = Some 7"
  "pl_room_id sample_player = Some ''r''" "pl_timers sample_player = []" "pl_next_timer sample_player = 1"
  "pl_reconnect_timer_id sample_player = None"
  unfolding sample_player_def
  by (rule player.inv_run [OF new_player_inv],
      simp_all add: new_player_actor_def handle_bind_session_def handle_login_request_def
        handle_room_assigned_def kick_old_session_def cancel_reconnect_timer_def Let_def player_push_def)

theorem reconnect_within_window_witness:
  "pl_lifecycle (player_on_message (LoginRequestMsg 8 ''ann'' ''t'' None)
     (player_on_message (SessionClosedMsg 7) sample_player)) = KInRoom"
proof -
  have "set (pl_timers sample_player) \<subseteq> {..<pl_next_timer sample_player}"
    using sample_player_facts by simp
  from reconnect_within_window [OF sample_player_facts(2,3) this refl refl, of 8 "''ann''" "''t''" None]
  show ?thesis by blast
qed

text \<open>
  A second loss of the session inside the window overwrites the timer number without cancelling
  the first timer, which then ends the new window early; and a login never reports that the
  player is in battle, because the lifecycle it inspects has just been overwritten.
\<close>

lemma stale_timer_ends_new_window:
  "let s = run_messages player_on_message [SessionClosedMsg 7, BindSessionMsg 9 9, SessionClosedMsg 9] sample_player
   in pl_lifecycle s = KSuspended \<and> pl_reconnect_timer_id s = Some 2 \<and> pl_timers s = [1, 2] \<and>
      pl_lifecycle (fire_timer 1 s) = KOffline \<and> pl_timers (fire_timer 1 s) = [2]"
  using sample_player_facts
  by (simp add: Let_def handle_session_closed_def schedule_reconnect_timeout_def handle_bind_session_def
      fire_timer_def handle_reconnect_timeout_def)

lemma login_in_battle_reports_no_battle:
  "let s = player_on_message (LoginRequestMsg 8 ''ann'' ''t'' None)
             (player_on_message (BattleAssignedMsg 4 ''b'') sample_player)
   in pl_battle_id s = Some ''b'' \<and> pl_lifecycle s = KInRoom \<and>
      SessionResumePushMsg 8 ''r'' False \<in> set (pl_events s)"
  using sample_player_facts by (simp add: Let_def login_effect handle_battle_assigned_def)

end
