(* ===== verification/Session_Lookup.thy ===== *)
theory Session_Lookup
  imports Prelude "HOL-Library.AList"
begin

text \<open>
  \<^verbatim>\<open>SessionLookup\<close> (\<^verbatim>\<open>include/v2/gateway/runtime_helpers.h\<close>): which user is logged in over a session, which room
  the session is in, and the sessions of a room.  The hash tables are association lists, whose order
  stands for the order in which a table is walked.  The theory shows that the two room tables stay
  inverse to each other, so that a broadcast reaches exactly the sessions of the room, each once.
\<close>

subsection \<open>Operations\<close>

type_synonym session_id = nat

record session_lookup =
  lk_users :: "(session_id \<times> string) list"
  lk_session_rooms :: "(session_id \<times> string) list"
  lk_room_sessions :: "(string \<times> session_id list) list"

definition empty_lookup :: session_lookup where
  "empty_lookup = \<lparr>lk_users = [], lk_session_rooms = [], lk_room_sessions = []\<rparr>"

definition set_session_user :: "session_id \<Rightarrow> string \<Rightarrow> session_lookup \<Rightarrow> session_lookup" where
  "set_session_user sid user_id l = l\<lparr>lk_users := AList.update sid user_id (lk_users l)\<rparr>"

definition erase_session_user :: "session_id \<Rightarrow> session_lookup \<Rightarrow> session_lookup" where
  "erase_session_user sid l = l\<lparr>lk_users := AList.delete sid (lk_users l)\<rparr>"

definition erase_session_room :: "session_id \<Rightarrow> session_lookup \<Rightarrow> session_lookup" where
  "erase_session_room sid l =
     (let l1 = (case map_of (lk_session_rooms l) sid of
                  None \<Rightarrow> l
                | Some room \<Rightarrow>
                   (case map_of (lk_room_sessions l) room of
                      None \<Rightarrow> l
                    | Some sessions \<Rightarrow>
                       let rest = removeAll sid sessions
                       in l\<lparr>lk_room_sessions := (if rest = [] then AList.delete room (lk_room_sessions l) else AList.update room rest (lk_room_sessions l))\<rparr>))
      in l1\<lparr>lk_session_rooms := AList.delete sid (lk_session_rooms l1)\<rparr>)"

definition sessions_in_room :: "string \<Rightarrow> session_lookup \<Rightarrow> session_id list" where
  "sessions_in_room room l = (case map_of (lk_room_sessions l) room of None \<Rightarrow> [] | Some sessions \<Rightarrow> sessions)"

definition set_session_room :: "session_id \<Rightarrow> string \<Rightarrow> session_lookup \<Rightarrow> session_lookup" where
  "set_session_room sid room l =
     (let l1 = erase_session_room sid l
      in l1\<lparr>lk_session_rooms := AList.update sid room (lk_session_rooms l1),
            lk_room_sessions := AList.update room (sessions_in_room room l1 @ [sid]) (lk_room_sessions l1)\<rparr>)"

definition erase_session :: "session_id \<Rightarrow> session_lookup \<Rightarrow> session_lookup" where
  "erase_session sid l = erase_session_room sid (erase_session_user sid l)"

definition user_id_for :: "session_id \<Rightarrow> session_lookup \<Rightarrow> string" where
  "user_id_for sid l = (case map_of (lk_users l) sid of None \<Rightarrow> [] | Some u \<Rightarrow> u)"

definition room_id_for :: "session_id \<Rightarrow> session_lookup \<Rightarrow> string" where
  "room_id_for sid l = (case map_of (lk_session_rooms l) sid of None \<Rightarrow> [] | Some r \<Rightarrow> r)"

definition session_for_user :: "string \<Rightarrow> session_lookup \<Rightarrow> session_id option" where
  "session_for_user user_id l = map_option fst (find (\<lambda>(sid, uid). uid = user_id) (lk_users l))"

subsection \<open>The room tables\<close>

definition lookup_inv :: "session_lookup \<Rightarrow> bool" where
  "lookup_inv l \<longleftrightarrow>
     (\<forall>room. distinct (sessions_in_room room l)) \<and>
     (\<forall>room sid. sid \<in> set (sessions_in_room room l) \<longleftrightarrow> map_of (lk_session_rooms l) sid = Some room)"

lemma lookup_inv_empty: "lookup_inv empty_lookup"
  by (simp add: lookup_inv_def empty_lookup_def sessions_in_room_def)

lemma delete_conv': "map_of (AList.delete k al) k' = (if k' = k then None else map_of al k')"
  by (simp add: AList.delete_conv')

lemma sessions_after_erase:
  assumes "lookup_inv l"
  shows "sessions_in_room room (erase_session_room sid l) = removeAll sid (sessions_in_room room l)"
proof (cases "map_of (lk_session_rooms l) sid")
  case None
  then have "sid \<notin> set (sessions_in_room room l)" using assms by (simp add: lookup_inv_def)
  then show ?thesis using None by (simp add: erase_session_room_def sessions_in_room_def)
next
  case (Some r)
  then have r: "sid \<in> set (sessions_in_room r l)" using assms by (simp add: lookup_inv_def)
  then obtain ss where ss: "map_of (lk_room_sessions l) r = Some ss" by (cases "map_of (lk_room_sessions l) r") (simp_all add: sessions_in_room_def)
  have other: "room \<noteq> r \<Longrightarrow> sid \<notin> set (sessions_in_room room l)" using Some assms by (auto simp: lookup_inv_def)
  show ?thesis
    using Some ss other
    by (auto simp: erase_session_room_def sessions_in_room_def Let_def update_conv' delete_conv' split: option.splits)
qed

lemma rooms_after_erase:
  "map_of (lk_session_rooms (erase_session_room sid l)) s = (if s = sid then None else map_of (lk_session_rooms l) s)"
  by (auto simp: erase_session_room_def Let_def delete_conv' split: option.splits)

lemma lookup_inv_erase:
  assumes "lookup_inv l"
  shows "lookup_inv (erase_session_room sid l)"
  using assms by (auto simp: lookup_inv_def sessions_after_erase [OF assms] rooms_after_erase distinct_removeAll)

lemma lookup_inv_set:
  assumes "lookup_inv l"
  shows "lookup_inv (set_session_room sid room l)"
proof -
  have e: "lookup_inv (erase_session_room sid l)" by (rule lookup_inv_erase [OF assms])
  have gone: "sid \<notin> set (sessions_in_room r (erase_session_room sid l))" for r
    using sessions_after_erase [OF assms] by simp
  have s: "sessions_in_room r (set_session_room sid room l) =
      (if r = room then sessions_in_room room (erase_session_room sid l) @ [sid] else sessions_in_room r (erase_session_room sid l))" for r
    by (simp add: set_session_room_def Let_def sessions_in_room_def update_conv')
  have m: "map_of (lk_session_rooms (set_session_room sid room l)) x =
      (if x = sid then Some room else map_of (lk_session_rooms (erase_session_room sid l)) x)" for x
    by (simp add: set_session_room_def Let_def update_conv')
  show ?thesis using e gone by (auto simp: lookup_inv_def s m)
qed

lemma lookup_inv_users:
  "lookup_inv (set_session_user sid u l) = lookup_inv l" "lookup_inv (erase_session_user sid l) = lookup_inv l"
  by (simp_all add: lookup_inv_def set_session_user_def erase_session_user_def sessions_in_room_def)

lemma lookup_inv_erase_session: "lookup_inv l \<Longrightarrow> lookup_inv (erase_session sid l)"
  by (simp add: erase_session_def lookup_inv_erase lookup_inv_users)

lemmas lookup_inv_intros = lookup_inv_erase lookup_inv_set lookup_inv_erase_session

text \<open>What the operations do to the user of a session.\<close>

lemma user_id_after [simp]:
  "user_id_for s (set_session_user sid u l) = (if s = sid then u else user_id_for s l)"
  "user_id_for s (erase_session_user sid l) = (if s = sid then [] else user_id_for s l)"
  "user_id_for s (erase_session_room sid l) = user_id_for s l"
  "user_id_for s (set_session_room sid room l) = user_id_for s l"
  by (auto simp: user_id_for_def set_session_user_def erase_session_user_def erase_session_room_def set_session_room_def update_conv' delete_conv'
      Let_def split: option.splits)

lemma session_for_user_Some: "session_for_user u l = Some sid \<Longrightarrow> (sid, u) \<in> set (lk_users l)"
  by (auto simp: session_for_user_def dest!: find_Some_set)

end
