(* ===== verification/Gateway_Text.thy ===== *)
theory Gateway_Text
  imports Input_Validator Json_Document Battle_World
begin

text \<open>
  The text bodies of client packets: commands of clients
  (\<^verbatim>\<open>src/v2/gateway/gateway_command_parser.cpp\<close>), messages about battles (\<^verbatim>\<open>battle_protocol_codec.cpp\<close>,
  \<^verbatim>\<open>battle_wire_parser.cpp\<close>) and answers of the gateway (\<^verbatim>\<open>gateway_response_parser.cpp\<close>).  The theory shows
  that every battle message is parsed back to what it was formatted from, under which condition on
  the names, and that a command is cut at the separators its writer put there.
\<close>

subsection \<open>Splitting and searching\<close>

text \<open>Repeated \<^verbatim>\<open>std::getline\<close> with a delimiter: an empty rest gives no part.\<close>

function getline_split :: "char \<Rightarrow> string \<Rightarrow> string list" where
  "getline_split d s =
     (if s = [] then []
      else case split_at d s of None \<Rightarrow> [s] | Some (a, b) \<Rightarrow> a # getline_split d b)"
  by pat_completeness auto
termination
  by (relation "measure (\<lambda>(d, s). length s)") (auto dest!: split_at_Some)

declare getline_split.simps [simp del]

text \<open>The first position of a text, or of a text from a position on.\<close>

fun find_text :: "string \<Rightarrow> string \<Rightarrow> nat option" where
  "find_text p [] = (if p = [] then Some 0 else None)"
| "find_text p (x # s) = (if starts_with p (x # s) then Some 0 else map_option Suc (find_text p s))"

definition find_text_from :: "string \<Rightarrow> nat \<Rightarrow> string \<Rightarrow> nat option" where
  "find_text_from p n s = (if n \<le> length s then map_option ((+) n) (find_text p (drop n s)) else None)"

text \<open>\<^verbatim>\<open>substr\<close> from a position, and with a length.\<close>

definition substr :: "nat \<Rightarrow> nat \<Rightarrow> string \<Rightarrow> string" where
  "substr pos n s = take n (drop pos s)"

text \<open>\<^verbatim>\<open>std::from_chars\<close> on a whole text: digits, with a sign only for signed numbers, in the range of the type.\<close>

definition parse_u64 :: "string \<Rightarrow> nat option" where
  "parse_u64 s = (if s \<noteq> [] \<and> list_all is_digit s \<and> undecimal s < 2 ^ 64 then Some (undecimal s) else None)"

definition parse_u32 :: "string \<Rightarrow> nat option" where
  "parse_u32 s = (case parse_u64 s of None \<Rightarrow> None | Some n \<Rightarrow> if n > 2 ^ 32 - 1 then None else Some n)"

definition parse_i64 :: "string \<Rightarrow> int option" where
  "parse_i64 s =
     (let neg = (s \<noteq> [] \<and> hd s = CHR ''-'');
          ds = (if neg then tl s else s);
          v = (if neg then - int (undecimal ds) else int (undecimal ds))
      in if ds \<noteq> [] \<and> list_all is_digit ds \<and> - (2 ^ 63) \<le> v \<and> v < 2 ^ 63 then Some v else None)"

subsection \<open>Commands of clients\<close>

record parsed_login =
  pl_user_id :: string
  pl_token :: string
  pl_display_name :: "string option"

definition parse_login_command_body :: "string \<Rightarrow> parsed_login option" where
  "parse_login_command_body body =
     (let parts = getline_split (CHR ''|'') body
      in if parts = [] then None
         else Some \<lparr>pl_user_id = hd parts,
                    pl_token = (if length parts \<ge> 2 then parts ! 1 else []),
                    pl_display_name = (if length parts \<ge> 3 \<and> parts ! 2 \<noteq> [] then Some (parts ! 2) else None)\<rparr>)"

definition validate_login_command_body :: "parsed_login \<Rightarrow> bool" where
  "validate_login_command_body b \<longleftrightarrow> pl_user_id b \<noteq> []"

definition validate_room_id_body :: "string \<Rightarrow> bool" where
  "validate_room_id_body body \<longleftrightarrow> body \<noteq> []"

definition parse_room_id_body :: "string \<Rightarrow> string option" where
  "parse_room_id_body body = (if \<not> validate_room_id_body body then None else Some body)"

definition parse_room_ready_body :: "string \<Rightarrow> bool option" where
  "parse_room_ready_body body = (if body = ''true'' then Some True else if body = ''false'' then Some False else None)"

text \<open>The room a battle is started for, when the body names one.\<close>

definition parse_battle_start_command_body :: "string \<Rightarrow> string option option" where
  "parse_battle_start_command_body body =
     (if body = [] then Some None else if \<not> validate_room_id_body body then None else Some (Some body))"

definition finish_reason_name :: "battle_finish_reason \<Rightarrow> string" where
  "finish_reason_name r =
     (case r of FinFinished \<Rightarrow> ''finished'' | FinSurrender \<Rightarrow> ''surrender'' | FinTimeout \<Rightarrow> ''timeout''
      | FinFrameLimitReached \<Rightarrow> ''frame_limit_reached'' | FinPlayerDisconnected \<Rightarrow> ''player_disconnected''
      | FinUserRequested \<Rightarrow> ''user_requested'')"

definition parse_battle_finish_request :: "string \<Rightarrow> battle_finish_reason option" where
  "parse_battle_finish_request body =
     (if \<not> starts_with ''finish:'' body then None
      else let reason = drop 7 body
           in if reason = [] \<or> reason = ''finished'' then Some FinFinished
              else if reason = ''surrender'' then Some FinSurrender
              else if reason = ''timeout'' then Some FinTimeout
              else if reason = ''user_requested'' then Some FinUserRequested
              else Some FinFinished)"

record parsed_battle_input =
  pi_is_finish_request :: bool
  pi_finish_reason :: battle_finish_reason
  pi_score :: int
  pi_input_data :: string

definition parse_battle_input_command_body :: "string \<Rightarrow> parsed_battle_input option" where
  "parse_battle_input_command_body body =
     (if body = [] then None
      else case parse_battle_finish_request body of
        Some reason \<Rightarrow> Some \<lparr>pi_is_finish_request = True, pi_finish_reason = reason, pi_score = 0, pi_input_data = body\<rparr>
      | None \<Rightarrow>
         let plain = \<lparr>pi_is_finish_request = False, pi_finish_reason = FinFinished, pi_score = 0, pi_input_data = body\<rparr>
         in if starts_with ''score='' body then
              (case find_char (CHR '':'') body of
                 None \<Rightarrow> Some plain
               | Some colon \<Rightarrow> Some (plain\<lparr>pi_score := fst (strtol (substr 6 (colon - 6) body)), pi_input_data := drop (colon + 1) body\<rparr>))
            else Some plain)"

definition validate_battle_input_command_body :: "parsed_battle_input \<Rightarrow> bool" where
  "validate_battle_input_command_body b \<longleftrightarrow> pi_input_data b \<noteq> []"

record parsed_match =
  pm_user_id :: string
  pm_mmr :: int
  pm_mode :: string

definition parse_match_command_body :: "string \<Rightarrow> parsed_match option" where
  "parse_match_command_body body =
     (let parts = getline_split (CHR ''|'') body
      in if parts = [] \<or> hd parts = [] then None
         else let mmr = (if length parts \<ge> 2 \<and> parts ! 1 \<noteq> [] then parse_i64 (parts ! 1) else Some 1000);
                  mode = (if length parts \<ge> 3 \<and> parts ! 2 \<noteq> [] then parts ! 2 else ''1v1'')
              in case mmr of None \<Rightarrow> None | Some m \<Rightarrow> Some \<lparr>pm_user_id = parts ! 0, pm_mmr = m, pm_mode = mode\<rparr>)"

definition validate_match_command_body :: "parsed_match \<Rightarrow> bool" where
  "validate_match_command_body b \<longleftrightarrow> pm_user_id b \<noteq> [] \<and> (pm_mode b = ''1v1'' \<or> pm_mode b = ''2v2'' \<or> pm_mode b = ''4v4'')"

record parsed_submit =
  ps_user_id :: string
  ps_display_name :: string
  ps_score :: int

definition parse_leaderboard_submit_command_body :: "string \<Rightarrow> parsed_submit option" where
  "parse_leaderboard_submit_command_body body =
     (let parts = getline_split (CHR ''|'') body
      in if length parts < 3 \<or> parts ! 0 = [] then None
         else case parse_i64 (parts ! 2) of None \<Rightarrow> None
              | Some score \<Rightarrow> Some \<lparr>ps_user_id = parts ! 0, ps_display_name = parts ! 1, ps_score = score\<rparr>)"

definition validate_leaderboard_submit_command_body :: "parsed_submit \<Rightarrow> bool" where
  "validate_leaderboard_submit_command_body b \<longleftrightarrow> ps_user_id b \<noteq> []"

text \<open>\<^verbatim>\<open>parse_size\<close> reads a 64-bit number as \<open>parse_u64\<close> does.\<close>

definition parse_leaderboard_top_command_body :: "string \<Rightarrow> nat option" where
  "parse_leaderboard_top_command_body body = (if body = [] then Some 10 else parse_u64 body)"

definition parse_leaderboard_rank_command_body :: "string \<Rightarrow> string option" where
  "parse_leaderboard_rank_command_body body = (if body = [] then None else Some body)"

subsection \<open>Messages about battles\<close>

text \<open>The loop of \<^verbatim>\<open>parse_key_value_segments\<close>; the first value of a key stays.\<close>

function kv_segments :: "string \<Rightarrow> (string \<times> string) list \<Rightarrow> (string \<times> string) list option" where
  "kv_segments rest kvs =
     (if rest = [] then Some kvs
      else let (segment, more) = (case split_at (CHR '':'') rest of None \<Rightarrow> (rest, None) | Some (a, b) \<Rightarrow> (a, Some b))
           in case split_at (CHR ''='') segment of
                None \<Rightarrow> None
              | Some (key, v) \<Rightarrow>
                 if key = [] \<or> v = [] then None
                 else let kvs' = (if map_of kvs key = None then kvs @ [(key, v)] else kvs)
                      in case more of None \<Rightarrow> Some kvs' | Some rest' \<Rightarrow> kv_segments rest' kvs')"
  by pat_completeness auto
termination
  by (relation "measure (\<lambda>(rest, kvs). length rest)") (auto dest!: split_at_Some split: option.splits)

declare kv_segments.simps [simp del]

definition parse_key_value_segments :: "string \<Rightarrow> string \<Rightarrow> (string \<times> string) list option" where
  "parse_key_value_segments body pfx =
     (if \<not> starts_with pfx body then None else kv_segments (drop (length pfx) body) [])"

definition parse_battle_started_body :: "string \<Rightarrow> (string \<times> string) option" where
  "parse_battle_started_body body =
     (case parse_key_value_segments body ''battle_started:'' of None \<Rightarrow> None
      | Some kvs \<Rightarrow>
         (case (map_of kvs ''room_id'', map_of kvs ''battle_id'') of
            (Some room_id, Some battle_id) \<Rightarrow> Some (room_id, battle_id) | _ \<Rightarrow> None))"

record battle_state_body =
  bsb_kind :: string
  bsb_room_id :: string
  bsb_battle_id :: string
  bsb_frame :: "nat option"
  bsb_trigger :: "string option"
  bsb_reason :: "string option"
  bsb_user_id :: "string option"

text \<open>The optional fields after the battle: a frame with its trigger, or a reason with a user.\<close>

definition parse_state_extra :: "string \<Rightarrow> battle_state_body \<Rightarrow> battle_state_body option" where
  "parse_state_extra extra parsed =
     (if starts_with ''frame='' extra then
        (case find_text '':trigger='' extra of
           None \<Rightarrow> (case parse_u32 (drop 6 extra) of None \<Rightarrow> None | Some f \<Rightarrow> Some (parsed\<lparr>bsb_frame := Some f\<rparr>))
         | Some pos \<Rightarrow>
            (case parse_u32 (substr 6 (pos - 6) extra) of None \<Rightarrow> None
             | Some f \<Rightarrow> Some (parsed\<lparr>bsb_frame := Some f, bsb_trigger := Some (drop (pos + 9) extra)\<rparr>)))
      else if starts_with ''reason='' extra then
        (case find_text '':user_id='' extra of
           None \<Rightarrow> Some (parsed\<lparr>bsb_reason := Some (drop 7 extra)\<rparr>)
         | Some pos \<Rightarrow> Some (parsed\<lparr>bsb_reason := Some (substr 7 (pos - 7) extra), bsb_user_id := Some (drop (pos + 9) extra)\<rparr>))
      else Some parsed)"

text \<open>\<^verbatim>\<open>battle_pos - room_value_start\<close> wraps around when the battle stands before the room; the rest of the text is taken then.\<close>

definition parse_battle_state_body :: "string \<Rightarrow> battle_state_body option" where
  "parse_battle_state_body body =
     (if \<not> starts_with ''battle_state:'' body then None
      else let rest = drop 13 body
           in case (find_text ''kind='' rest, find_text '':room_id='' rest, find_text '':battle_id='' rest) of
                (Some kind_pos, Some room_pos, Some battle_pos) \<Rightarrow>
                  if kind_pos \<noteq> 0 then None
                  else let room_start = room_pos + 9;
                           room_id = (if battle_pos < room_start then drop room_start rest else substr room_start (battle_pos - room_start) rest);
                           tail = drop (battle_pos + 11) rest;
                           parsed = \<lparr>bsb_kind = (if room_pos < 5 then drop 5 rest else substr 5 (room_pos - 5) rest), bsb_room_id = room_id, bsb_battle_id = tail,
                                     bsb_frame = None, bsb_trigger = None, bsb_reason = None, bsb_user_id = None\<rparr>
                       in (case find_char (CHR '':'') tail of
                             None \<Rightarrow> Some parsed
                           | Some next_field \<Rightarrow> parse_state_extra (drop (next_field + 1) tail) (parsed\<lparr>bsb_battle_id := take next_field tail\<rparr>))
              | _ \<Rightarrow> None)"

definition parse_battle_input_response_body :: "string \<Rightarrow> nat option" where
  "parse_battle_input_response_body body =
     (case parse_key_value_segments body ''input_seq:'' of None \<Rightarrow> None
      | Some kvs \<Rightarrow> (case map_of kvs ''seq'' of None \<Rightarrow> None | Some v \<Rightarrow> parse_u64 v))"

definition parse_battle_input_push_body :: "string \<Rightarrow> (string \<times> nat \<times> string) option" where
  "parse_battle_input_push_body body =
     (if \<not> starts_with ''battle_input:user_id='' body then None
      else let rest = drop 21 body
           in case find_text '':seq='' rest of None \<Rightarrow> None
              | Some seq_marker \<Rightarrow>
                 (case find_text_from '':input='' (seq_marker + 5) rest of None \<Rightarrow> None
                  | Some input_marker \<Rightarrow>
                     (case parse_u64 (substr (seq_marker + 5) (input_marker - (seq_marker + 5)) rest) of None \<Rightarrow> None
                      | Some seq \<Rightarrow> Some (take seq_marker rest, seq, drop (input_marker + 7) rest))))"

definition format_battle_started_body :: "string \<Rightarrow> string \<Rightarrow> string" where
  "format_battle_started_body room_id battle_id = ''battle_started:room_id='' @ room_id @ '':battle_id='' @ battle_id"

definition format_battle_state_body :: "string \<Rightarrow> string \<Rightarrow> string" where
  "format_battle_state_body room_id battle_id = ''battle_state:kind=started:room_id='' @ room_id @ '':battle_id='' @ battle_id"

definition format_battle_input_response_body :: "nat \<Rightarrow> string" where
  "format_battle_input_response_body seq = ''input_seq:seq='' @ decimal seq"

definition format_battle_input_push_body :: "string \<Rightarrow> nat \<Rightarrow> string \<Rightarrow> string" where
  "format_battle_input_push_body user_id seq input_data = ''battle_input:user_id='' @ user_id @ '':seq='' @ decimal seq @ '':input='' @ input_data"

definition format_battle_end_accepted_body :: "battle_finish_reason \<Rightarrow> string" where
  "format_battle_end_accepted_body reason = ''battle_end_accepted:'' @ finish_reason_name reason"

definition format_battle_frame_body :: "string \<Rightarrow> string \<Rightarrow> nat \<Rightarrow> string \<Rightarrow> string" where
  "format_battle_frame_body room_id battle_id frame trigger =
     ''battle_state:kind=frame:room_id='' @ room_id @ '':battle_id='' @ battle_id @ '':frame='' @ decimal frame @ '':trigger='' @ trigger"

definition format_battle_settlement_body :: "string \<Rightarrow> string \<Rightarrow> battle_finish_reason \<Rightarrow> string \<Rightarrow> string" where
  "format_battle_settlement_body room_id battle_id reason user_id =
     ''battle_state:kind=settlement:room_id='' @ room_id @ '':battle_id='' @ battle_id @ '':reason='' @ finish_reason_name reason @ '':user_id='' @ user_id"

definition format_battle_finished_body :: "string \<Rightarrow> string \<Rightarrow> battle_finish_reason \<Rightarrow> string \<Rightarrow> string" where
  "format_battle_finished_body room_id battle_id reason user_id =
     ''battle_state:kind=finished:room_id='' @ room_id @ '':battle_id='' @ battle_id @ '':reason='' @ finish_reason_name reason @ '':user_id='' @ user_id"

subsection \<open>Any message about a battle\<close>

definition parse_battle_end_accepted_body :: "string \<Rightarrow> battle_finish_reason option" where
  "parse_battle_end_accepted_body body =
     (if \<not> starts_with ''battle_end_accepted:'' body then None
      else let reason = drop 20 body
           in Some (if reason = ''surrender'' then FinSurrender
                    else if reason = ''timeout'' then FinTimeout
                    else if reason = ''frame_limit_reached'' then FinFrameLimitReached
                    else if reason = ''player_disconnected'' then FinPlayerDisconnected
                    else if reason = ''user_requested'' then FinUserRequested
                    else FinFinished))"

datatype battle_wire_body =
    WireFinishRequest battle_finish_reason
  | WireStarted string string
  | WireState battle_state_body
  | WireInputResponse nat
  | WireInputPush string nat string
  | WireEndAccepted battle_finish_reason

definition parse_battle_wire_body :: "string \<Rightarrow> battle_wire_body option" where
  "parse_battle_wire_body body =
     (case parse_battle_finish_request body of Some r \<Rightarrow> Some (WireFinishRequest r)
      | None \<Rightarrow> case parse_battle_started_body body of Some (r, b) \<Rightarrow> Some (WireStarted r b)
      | None \<Rightarrow> case parse_battle_state_body body of Some s \<Rightarrow> Some (WireState s)
      | None \<Rightarrow> case parse_battle_input_response_body body of Some n \<Rightarrow> Some (WireInputResponse n)
      | None \<Rightarrow> case parse_battle_input_push_body body of Some (u, n, d) \<Rightarrow> Some (WireInputPush u n d)
      | None \<Rightarrow> map_option WireEndAccepted (parse_battle_end_accepted_body body))"

definition validate_battle_wire_body :: "battle_wire_body \<Rightarrow> bool" where
  "validate_battle_wire_body body =
     (case body of
        WireStarted r b \<Rightarrow> r \<noteq> [] \<and> b \<noteq> []
      | WireState s \<Rightarrow>
         (if bsb_kind s = [] \<or> bsb_room_id s = [] \<or> bsb_battle_id s = [] then False
          else if bsb_kind s = ''started'' then bsb_frame s = None \<and> bsb_reason s = None
          else if bsb_kind s = ''frame'' then bsb_frame s \<noteq> None \<and> bsb_trigger s \<noteq> None
          else if bsb_kind s = ''finished'' \<or> bsb_kind s = ''settlement'' then bsb_reason s \<noteq> None \<and> bsb_user_id s \<noteq> None
          else False)
      | WireInputResponse n \<Rightarrow> n > 0
      | WireInputPush u n d \<Rightarrow> u \<noteq> [] \<and> n > 0 \<and> d \<noteq> []
      | WireEndAccepted r \<Rightarrow> finish_reason_name r \<noteq> []
      | WireFinishRequest r \<Rightarrow> True)"

subsection \<open>Answers of the gateway\<close>

definition parse_login_response_body :: "string \<Rightarrow> string option" where
  "parse_login_response_body body =
     (if \<not> starts_with ''login_ok:'' body then None
      else let parts = getline_split (CHR '':'') (drop 9 body)
           in if parts = [] \<or> hd parts = [] then None else Some (hd parts))"

definition parse_room_create_response_body :: "string \<Rightarrow> string option" where
  "parse_room_create_response_body body =
     (if \<not> starts_with ''room_created:'' body then None else let room_id = drop 13 body in if room_id = [] then None else Some room_id)"

definition parse_room_join_response_body :: "string \<Rightarrow> string option" where
  "parse_room_join_response_body body =
     (if \<not> starts_with ''room_joined:'' body then None
      else let parts = getline_split (CHR '':'') (drop 12 body)
           in if parts = [] \<or> hd parts = [] then None else Some (hd parts))"

text \<open>The reason, and whether the room was handed over.\<close>

definition parse_session_kicked_body :: "string \<Rightarrow> (string \<times> bool) option" where
  "parse_session_kicked_body body =
     (if \<not> starts_with ''session_kicked:'' body then None
      else let parts = getline_split (CHR '':'') (drop 15 body)
           in if parts = [] \<or> hd parts = [] then None
              else Some (hd parts, length parts \<ge> 2 \<and> parts ! 1 = ''room_transferred''))"

text \<open>The room, and whether it is in a battle.\<close>

definition parse_session_resumed_body :: "string \<Rightarrow> (string \<times> bool) option" where
  "parse_session_resumed_body body =
     (if \<not> starts_with ''session_resumed:'' body then None
      else let parts = getline_split (CHR '':'') (drop 16 body)
           in if length parts < 2 \<or> parts ! 0 = [] then None
              else Some (parts ! 0, starts_with ''battle='' (parts ! 1) \<and> drop 7 (parts ! 1) = ''1''))"

record room_state_push =
  rsp_room_id :: string
  rsp_owner_user_id :: string
  rsp_member_ids :: "string list"
  rsp_ready_ids :: "string list"
  rsp_in_battle :: bool

definition parse_room_state_push_body :: "string \<Rightarrow> room_state_push option" where
  "parse_room_state_push_body body =
     (if \<not> starts_with ''room_state:'' body then None
      else let parts = getline_split (CHR '':'') (drop 11 body)
           in if length parts < 2 \<or> parts ! 0 = [] then None
              else Some \<lparr>rsp_room_id = parts ! 0, rsp_owner_user_id = parts ! 1,
                         rsp_member_ids = (if length parts \<ge> 3 \<and> parts ! 2 \<noteq> [] then getline_split (CHR '','') (parts ! 2) else []),
                         rsp_ready_ids = (if length parts \<ge> 4 \<and> parts ! 3 \<noteq> [] then getline_split (CHR '','') (parts ! 3) else []),
                         rsp_in_battle = (length parts \<ge> 5 \<and> parts ! 4 = ''in_battle'')\<rparr>)"

text \<open>The form with named fields: the members, the ready members and the battle flag are read one after another as long as they follow.\<close>

definition parse_named_battle :: "string \<Rightarrow> nat \<Rightarrow> room_state_push \<Rightarrow> room_state_push" where
  "parse_named_battle rest ready_pos parsed =
     (let ready_start = ready_pos + 7
      in case find_text_from '':in_battle='' ready_pos rest of
           None \<Rightarrow> parsed\<lparr>rsp_ready_ids := getline_split (CHR '','') (drop ready_start rest)\<rparr>
         | Some battle_pos \<Rightarrow>
            let v = drop (battle_pos + 11) rest
            in parsed\<lparr>rsp_ready_ids := (if ready_start < battle_pos then getline_split (CHR '','') (substr ready_start (battle_pos - ready_start) rest) else []),
                      rsp_in_battle := (v = ''1'' \<or> v = ''true'')\<rparr>)"

definition parse_named_members :: "string \<Rightarrow> nat \<Rightarrow> room_state_push \<Rightarrow> room_state_push" where
  "parse_named_members rest members_pos parsed =
     (let members_start = members_pos + 9
      in case find_text_from '':ready='' members_pos rest of
           None \<Rightarrow> parsed\<lparr>rsp_member_ids := getline_split (CHR '','') (drop members_start rest)\<rparr>
         | Some ready_pos \<Rightarrow>
            parse_named_battle rest ready_pos
              (parsed\<lparr>rsp_member_ids := (if members_start < ready_pos then getline_split (CHR '','') (substr members_start (ready_pos - members_start) rest) else [])\<rparr>))"

definition parse_room_state_push_body_alt :: "string \<Rightarrow> room_state_push option" where
  "parse_room_state_push_body_alt body =
     (if \<not> starts_with ''room_state:room_id='' body then None
      else let rest = drop 19 body
           in if rest = [] then None
              else case find_text '':owner_id='' rest of None \<Rightarrow> None
              | Some owner_pos \<Rightarrow>
                 if take owner_pos rest = [] then None
                 else let owner_start = owner_pos + 10;
                          parsed = \<lparr>rsp_room_id = take owner_pos rest, rsp_owner_user_id = [], rsp_member_ids = [], rsp_ready_ids = [], rsp_in_battle = False\<rparr>
                      in (case find_text_from '':members='' owner_pos rest of
                            None \<Rightarrow> Some (parsed\<lparr>rsp_owner_user_id := drop owner_start rest\<rparr>)
                          | Some members_pos \<Rightarrow>
                             Some (parse_named_members rest members_pos
                               (parsed\<lparr>rsp_owner_user_id := (if members_pos < owner_start then drop owner_start rest else substr owner_start (members_pos - owner_start) rest)\<rparr>))))"

definition parse_error_response_body :: "string \<Rightarrow> string option" where
  "parse_error_response_body body = (if body = [] then None else Some body)"

subsection \<open>How text is found\<close>

named_theorems text_search

lemma starts_with_simps [text_search]:
  "starts_with [] s" "\<not> starts_with (p # ps) []" "starts_with (p # ps) (x # s) \<longleftrightarrow> x = p \<and> starts_with ps s"
  by (auto simp: starts_with_def)

lemma find_text_skip [text_search]:
  "c \<notin> set a \<Longrightarrow> find_text (c # p) (a @ s) = map_option (\<lambda>n. length a + n) (find_text (c # p) s)"
  by (induction a) (cases "find_text (c # p) s"; auto simp: starts_with_simps)+

lemma split_at_simps [text_search]:
  "split_at c [] = None"
  "split_at c (x # s) = (if x = c then Some ([], s) else map_option (\<lambda>(a, b). (x # a, b)) (split_at c s))"
  by (auto simp: split_at_def)

lemma split_at_skip [text_search]:
  "c \<notin> set a \<Longrightarrow> split_at c (a @ s) = map_option (\<lambda>(x, y). (a @ x, y)) (split_at c s)"
  by (auto simp: split_at_def takeWhile_append dropWhile_append)

lemma find_char_skip [text_search]:
  "c \<notin> set a \<Longrightarrow> find_char c (a @ s) = map_option (\<lambda>n. length a + n) (find_char c s)"
  by (induction a) (cases "find_char c s"; auto)+

lemma find_char_none [text_search]: "c \<notin> set s \<Longrightarrow> find_char c s = None"
  by (induction s) auto

lemma split_at_none [text_search]: "c \<notin> set s \<Longrightarrow> split_at c s = None"
  by (simp add: split_at_def)

lemma drop_take_skip [text_search]:
  "drop (numeral k + n) (x # xs) = drop (pred_numeral k + n) xs"
  "take (numeral k + n) (x # xs) = x # take (pred_numeral k + n) xs"
  "drop (n + numeral k) (x # xs) = drop (n + pred_numeral k) xs"
  "drop (length a + n) (a @ s) = drop n s" "take (length a + n) (a @ s) = a @ take n s"
  by (simp_all add: numeral_eq_Suc)

lemma text_decimal_digits: "list_all is_digit (decimal n)"
proof (induction n rule: decimal.induct)
  case (1 n)
  have d: "is_digit (digit_char d)" if "d < 10" for d using that by (simp add: is_digit_def digit_char_def)
  show ?case by (subst decimal.simps) (simp add: 1 d)
qed

lemma text_decimal_not_empty [simp]: "decimal n \<noteq> []"
  by (subst decimal.simps) simp

lemma decimal_no_colon [simp]: "CHR '':'' \<notin> set (decimal n)" "CHR ''='' \<notin> set (decimal n)"
  using text_decimal_digits [of n] by (auto simp: list_all_iff is_digit_def)

lemma parse_u64_decimal [simp]: "n < 2 ^ 64 \<Longrightarrow> parse_u64 (decimal n) = Some n"
  using undecimal_decimal [of n] by (simp add: parse_u64_def text_decimal_digits del: undecimal.simps)

lemma parse_u32_decimal [simp]: "n < 2 ^ 32 \<Longrightarrow> parse_u32 (decimal n) = Some n"
  by (simp add: parse_u32_def)

subsection \<open>Round trips\<close>

definition plain_name :: "string \<Rightarrow> bool" where
  "plain_name s \<longleftrightarrow> s \<noteq> [] \<and> CHR '':'' \<notin> set s"

lemma started_round_trip:
  assumes "plain_name r" "plain_name b"
  shows "parse_battle_started_body (format_battle_started_body r b) = Some (r, b)"
  using assms
  by (simp add: plain_name_def format_battle_started_body_def parse_battle_started_body_def parse_key_value_segments_def
      kv_segments.simps Let_def text_search)

lemma input_response_round_trip:
  "n < 2 ^ 64 \<Longrightarrow> parse_battle_input_response_body (format_battle_input_response_body n) = Some n"
  by (simp add: format_battle_input_response_body_def parse_battle_input_response_body_def parse_key_value_segments_def
      kv_segments.simps Let_def text_search)

lemma input_push_round_trip:
  assumes "CHR '':'' \<notin> set u" "n < 2 ^ 64"
  shows "parse_battle_input_push_body (format_battle_input_push_body u n d) = Some (u, n, d)"
  using assms
  by (simp add: format_battle_input_push_body_def parse_battle_input_push_body_def find_text_from_def substr_def Let_def text_search)

lemma end_accepted_round_trip: "parse_battle_end_accepted_body (format_battle_end_accepted_body r) = Some r"
  by (cases r) (simp_all add: format_battle_end_accepted_body_def parse_battle_end_accepted_body_def finish_reason_name_def text_search)

lemma reason_no_colon [simp]: "CHR '':'' \<notin> set (finish_reason_name r)"
  by (cases r) (simp_all add: finish_reason_name_def)

definition state_body :: "string \<Rightarrow> string \<Rightarrow> string \<Rightarrow> battle_state_body" where
  "state_body kind r b = \<lparr>bsb_kind = kind, bsb_room_id = r, bsb_battle_id = b, bsb_frame = None, bsb_trigger = None, bsb_reason = None, bsb_user_id = None\<rparr>"

lemma state_round_trip:
  assumes "CHR '':'' \<notin> set r" "CHR '':'' \<notin> set b"
  shows "parse_battle_state_body (format_battle_state_body r b) = Some (state_body ''started'' r b)"
  using assms
  by (simp add: format_battle_state_body_def parse_battle_state_body_def state_body_def substr_def Let_def text_search)

lemma frame_round_trip:
  assumes "CHR '':'' \<notin> set r" "CHR '':'' \<notin> set b" "n < 2 ^ 32"
  shows "parse_battle_state_body (format_battle_frame_body r b n t) =
    Some ((state_body ''frame'' r b)\<lparr>bsb_frame := Some n, bsb_trigger := Some t\<rparr>)"
  using assms
  by (simp add: format_battle_frame_body_def parse_battle_state_body_def parse_state_extra_def state_body_def substr_def Let_def text_search)

lemma settlement_round_trip:
  assumes "CHR '':'' \<notin> set r" "CHR '':'' \<notin> set b"
  shows "parse_battle_state_body (format_battle_settlement_body r b why u) =
      Some ((state_body ''settlement'' r b)\<lparr>bsb_reason := Some (finish_reason_name why), bsb_user_id := Some u\<rparr>)"
    and "parse_battle_state_body (format_battle_finished_body r b why u) =
      Some ((state_body ''finished'' r b)\<lparr>bsb_reason := Some (finish_reason_name why), bsb_user_id := Some u\<rparr>)"
  using assms
  by (simp_all add: format_battle_settlement_body_def format_battle_finished_body_def parse_battle_state_body_def parse_state_extra_def
      state_body_def substr_def Let_def text_search)
text \<open>Every formatted message is recognised as what it is: the parsers that are tried before do not take it.\<close>

lemmas battle_formats =
  format_battle_started_body_def format_battle_state_body_def format_battle_input_response_body_def format_battle_input_push_body_def
  format_battle_end_accepted_body_def format_battle_frame_body_def format_battle_settlement_body_def format_battle_finished_body_def

lemma not_finish_request:
  "parse_battle_finish_request (format_battle_started_body r b) = None"
  "parse_battle_finish_request (format_battle_state_body r b) = None"
  "parse_battle_finish_request (format_battle_frame_body r b n t) = None"
  "parse_battle_finish_request (format_battle_settlement_body r b why u) = None"
  "parse_battle_finish_request (format_battle_finished_body r b why u) = None"
  "parse_battle_finish_request (format_battle_input_response_body n) = None"
  "parse_battle_finish_request (format_battle_input_push_body u n d) = None"
  "parse_battle_finish_request (format_battle_end_accepted_body why) = None"
  by (simp_all add: parse_battle_finish_request_def battle_formats text_search)

lemma not_started:
  "parse_battle_started_body (format_battle_state_body r b) = None"
  "parse_battle_started_body (format_battle_frame_body r b n t) = None"
  "parse_battle_started_body (format_battle_settlement_body r b why u) = None"
  "parse_battle_started_body (format_battle_finished_body r b why u) = None"
  "parse_battle_started_body (format_battle_input_response_body n) = None"
  "parse_battle_started_body (format_battle_input_push_body u n d) = None"
  "parse_battle_started_body (format_battle_end_accepted_body why) = None"
  by (simp_all add: parse_battle_started_body_def parse_key_value_segments_def battle_formats text_search)

lemma not_state:
  "parse_battle_state_body (format_battle_input_response_body n) = None"
  "parse_battle_state_body (format_battle_input_push_body u n d) = None"
  "parse_battle_state_body (format_battle_end_accepted_body why) = None"
  "parse_battle_input_response_body (format_battle_input_push_body u n d) = None"
  "parse_battle_input_response_body (format_battle_end_accepted_body why) = None"
  "parse_battle_input_push_body (format_battle_end_accepted_body why) = None"
  by (simp_all add: parse_battle_state_body_def parse_battle_input_response_body_def parse_battle_input_push_body_def
      parse_key_value_segments_def battle_formats text_search)

text \<open>C38: For each of the eight text formats of \<^verbatim>\<open>battle_protocol_codec.cpp\<close>, \<^verbatim>\<open>parse_battle_wire_body\<close> recognises the kind of a formatted message and gives back every field, provided that the names of the room, the battle and the user are not empty and have no colon and the numbers fit their fields; triggers, inputs and the user of a settlement may be any text.  Names with a colon do not survive (see below), and the frame and finished pushes that a gateway with a service bridge sends on are JSON documents, which this parser does not read.\<close>

theorem battle_messages_parse_back:
  assumes "plain_name r" "plain_name b" "plain_name u" "n < 2 ^ 32" "m < 2 ^ 64"
  shows "parse_battle_wire_body (format_battle_started_body r b) = Some (WireStarted r b)
    \<and> parse_battle_wire_body (format_battle_state_body r b) = Some (WireState (state_body ''started'' r b))
    \<and> parse_battle_wire_body (format_battle_frame_body r b n t) = Some (WireState ((state_body ''frame'' r b)\<lparr>bsb_frame := Some n, bsb_trigger := Some t\<rparr>))
    \<and> parse_battle_wire_body (format_battle_settlement_body r b why x) =
        Some (WireState ((state_body ''settlement'' r b)\<lparr>bsb_reason := Some (finish_reason_name why), bsb_user_id := Some x\<rparr>))
    \<and> parse_battle_wire_body (format_battle_finished_body r b why x) =
        Some (WireState ((state_body ''finished'' r b)\<lparr>bsb_reason := Some (finish_reason_name why), bsb_user_id := Some x\<rparr>))
    \<and> parse_battle_wire_body (format_battle_input_response_body m) = Some (WireInputResponse m)
    \<and> parse_battle_wire_body (format_battle_input_push_body u m d) = Some (WireInputPush u m d)
    \<and> parse_battle_wire_body (format_battle_end_accepted_body why) = Some (WireEndAccepted why)"
  using assms started_round_trip [OF assms(1,2)]
  by (simp add: parse_battle_wire_body_def not_finish_request not_started not_state plain_name_def state_round_trip frame_round_trip
      settlement_round_trip input_response_round_trip input_push_round_trip end_accepted_round_trip)

theorem battle_messages_parse_back_witness:
  "parse_battle_wire_body (format_battle_frame_body ''r1'' ''battle_0001'' 7 ''input:u:1'') =
    Some (WireState ((state_body ''frame'' ''r1'' ''battle_0001'')\<lparr>bsb_frame := Some 7, bsb_trigger := Some ''input:u:1''\<rparr>))"
  using battle_messages_parse_back [of "''r1''" "''battle_0001''" "''u''" 7 1 "''input:u:1''"]
  by (simp add: plain_name_def)

text \<open>A room named with a colon, which the gateway accepts: the started message about it is not parsed.\<close>

lemma colon_in_room_name:
  "parse_room_id_body ''a:b'' = Some ''a:b'' \<and> parse_battle_wire_body (format_battle_started_body ''a:b'' ''battle_1'') = None"
  by code_simp

text \<open>The parts of a command, written with separators in between, are read back; the last part must not be empty.\<close>

fun joined :: "char \<Rightarrow> string list \<Rightarrow> string" where
  "joined d [] = []"
| "joined d [p] = p"
| "joined d (p # q # ps) = p @ d # joined d (q # ps)"

lemma getline_split_joined:
  assumes "list_all (\<lambda>p. d \<notin> set p) ps" "ps \<noteq> []" "last ps \<noteq> []"
  shows "getline_split d (joined d ps) = ps"
  using assms
proof (induction d ps rule: joined.induct)
  case (2 d p)
  then show ?case by (simp add: getline_split.simps split_at_none)
next
  case (3 d p q ps)
  then show ?case by (subst getline_split.simps) simp
qed simp

text \<open>The login command of a user, with token and display name written between bars, is parsed to exactly these three, for names and tokens without a bar.\<close>

theorem login_command_parsed:
  assumes "CHR ''|'' \<notin> set u" "CHR ''|'' \<notin> set t" "CHR ''|'' \<notin> set n" "n \<noteq> []"
  shows "parse_login_command_body (joined (CHR ''|'') [u, t, n]) = Some \<lparr>pl_user_id = u, pl_token = t, pl_display_name = Some n\<rparr>"
  using getline_split_joined [of "CHR ''|''" "[u, t, n]"] assms
  by (simp add: parse_login_command_body_def Let_def)

theorem login_command_parsed_witness:
  "parse_login_command_body ''bob|secret|Bob'' = Some \<lparr>pl_user_id = ''bob'', pl_token = ''secret'', pl_display_name = Some ''Bob''\<rparr>"
  using login_command_parsed [of "''bob''" "''secret''" "''Bob''"] by simp

text \<open>A finish request is whatever starts like one: an unknown reason counts as a regular end.\<close>

lemma unknown_finish_accepted:
  "parse_battle_finish_request (''finish:'' @ reason) \<noteq> None"
  by (simp add: parse_battle_finish_request_def Let_def text_search)

text \<open>The parsers of answers expect prefixes that the gateway does not write: its answer to a created or joined room is the bare room and its push
  to a replaced session is the bare reason.\<close>

lemma answers_without_prefix:
  "parse_session_kicked_body ''duplicate_login'' = None"
  "\<not> starts_with ''room_created:'' r \<Longrightarrow> parse_room_create_response_body r = None"
  "\<not> starts_with ''room_joined:'' r \<Longrightarrow> parse_room_join_response_body r = None"
  "\<not> starts_with ''session_resumed:'' r \<Longrightarrow> parse_session_resumed_body r = None"
  by (simp_all add: parse_session_kicked_body_def parse_room_create_response_body_def parse_room_join_response_body_def
      parse_session_resumed_body_def text_search)

end
