(* ===== verification/Gateway_Runtime.thy ===== *)
theory Gateway_Runtime
  imports Protocol Session_Lookup Gateway_Text Service_Bridge
begin

text \<open>
  The gateway in front of the backend services: \<^verbatim>\<open>GatewayActor\<close> (\<^verbatim>\<open>src/v2/gateway/gateway_actor.cpp\<close>), which checks
  a client packet and turns it into a command, and \<^verbatim>\<open>Runtime\<close> (\<^verbatim>\<open>src/v2/gateway/runtime.cpp\<close>), which handles
  the command by requests to the backends, with the access rules of \<^verbatim>\<open>authorizer.h\<close> and the message schemas of
  \<^verbatim>\<open>schema_validator.h\<close>.  The runtime is the one with a service bridge, in which no player, room or battle actors
  exist.  The bridge is a parameter: a function of the request and of the state of the backends.  The
  exceptions are those of typed reads of an answer and of \<^verbatim>\<open>dump()\<close>, which refuses a document with a text
  that is not UTF-8, as a client may send one; an exception ends the handler and is its result, and the
  state is kept as it is then, which is what remains after the actor system has caught it (in a worker
  thread nothing catches it and the process ends).  A packet, a closed session and a task of a worker are
  single steps: packets are handled under one mutex, but the code takes no lock when a session is closed
  or a worker reads the room tables, so that these may overlap.  \<open>gr_calls\<close> lists the requests made; the
  code does not keep it.
\<close>

subsection \<open>Messages\<close>

record client_envelope =
  ce_session_id :: session_id
  ce_message_id :: nat
  ce_request_id :: nat
  ce_error_code :: int
  ce_flags :: nat
  ce_body :: string

datatype command_type =
    CmdUnknown | CmdHeartbeat | CmdEcho | CmdLogin | CmdRoomCreate | CmdRoomJoin | CmdRoomReady | CmdRoomLeave
  | CmdBattleStart | CmdBattleInput | CmdMatchJoin | CmdMatchLeave | CmdMatchStatus | CmdLeaderboardSubmit
  | CmdLeaderboardTop | CmdLeaderboardRank | CmdRoomList | CmdRoomDetail | CmdBattleState | CmdRegister
  | CmdRoomKick | CmdRoomTransferOwner | CmdReplayLoad

record gateway_command =
  gc_session_id :: session_id
  gc_type :: command_type
  gc_message_id :: nat
  gc_request_id :: nat
  gc_flags :: nat
  gc_body :: string

subsection \<open>Roles\<close>

datatype role = RolePlayer | RoleAdmin | RoleObserver

definition role_from_string :: "string \<Rightarrow> role" where
  "role_from_string s = (if s = ''admin'' then RoleAdmin else if s = ''observer'' then RoleObserver else RolePlayer)"

definition player_messages :: "nat list" where
  "player_messages = [1, 1001, 2001, 2003, 3001, 3003, 3005, 3007, 3010, 3012, 3014, 3016, 4001, 4003, 4007, 4009, 6001, 6004, 6006, 7001, 7003, 7005]"

definition role_messages :: "role \<Rightarrow> nat list" where
  "role_messages r =
     (case r of RolePlayer \<Rightarrow> player_messages | RoleAdmin \<Rightarrow> player_messages @ [5001, 5002, 5003, 5004] | RoleObserver \<Rightarrow> [1, 1001, 2001])"

definition role_allowed :: "role \<Rightarrow> nat \<Rightarrow> bool" where
  "role_allowed r message_id \<longleftrightarrow> message_id \<in> set (role_messages r)"

subsection \<open>Schemas\<close>

record schema_field =
  sf_name :: string
  sf_type :: string
  sf_required :: bool
  sf_min :: "int option"
  sf_max :: "int option"

definition field_of :: "string \<Rightarrow> string \<Rightarrow> bool \<Rightarrow> schema_field" where
  "field_of name ty required = \<lparr>sf_name = name, sf_type = ty, sf_required = required, sf_min = None, sf_max = None\<rparr>"

definition user_room_fields :: "schema_field list" where
  "user_room_fields = [field_of ''user_id'' ''string'' True, field_of ''room_id'' ''string'' True]"

definition default_schemas :: "(string \<times> schema_field list) list" where
  "default_schemas =
     [(''login_request'', [field_of ''user_id'' ''string'' True, field_of ''token'' ''string'' True, field_of ''display_name'' ''string'' False]),
      (''room_create'', user_room_fields), (''room_join'', user_room_fields), (''room_leave'', user_room_fields),
      (''room_ready'', user_room_fields @ [field_of ''ready'' ''boolean'' True]),
      (''room_start_battle'', user_room_fields)]"

definition wrap_int64 :: "int \<Rightarrow> int" where
  "wrap_int64 i = (i + 2 ^ 63) mod 2 ^ 64 - 2 ^ 63"

definition json_type :: "json \<Rightarrow> string" where
  "json_type v =
     (case v of JNull \<Rightarrow> ''null'' | JBool _ \<Rightarrow> ''boolean'' | JInt _ \<Rightarrow> ''integer'' | JString _ \<Rightarrow> ''string'' | JArray _ \<Rightarrow> ''array'' | JObject _ \<Rightarrow> ''object'')"

text \<open>The first complaint about a field, if there is one.\<close>

definition check_field :: "json \<Rightarrow> schema_field \<Rightarrow> string option" where
  "check_field doc f =
     (case json_find doc (sf_name f) of
        None \<Rightarrow> (if sf_required f then Some (''missing_required_field:'' @ sf_name f) else None)
      | Some v \<Rightarrow>
         if sf_type f = ''string'' \<and> json_type v \<noteq> ''string'' then Some (''type_mismatch:'' @ sf_name f @ '':expected_string'')
         else if sf_type f = ''integer'' \<and> json_type v \<noteq> ''integer'' then Some (''type_mismatch:'' @ sf_name f @ '':expected_integer'')
         else if sf_type f = ''boolean'' \<and> json_type v \<noteq> ''boolean'' then Some (''type_mismatch:'' @ sf_name f @ '':expected_boolean'')
         else if sf_type f = ''array'' \<and> json_type v \<noteq> ''array'' then Some (''type_mismatch:'' @ sf_name f @ '':expected_array'')
         else case v of
             JInt i \<Rightarrow>
               (if sf_type f \<noteq> ''integer'' then None
                else if (case sf_min f of None \<Rightarrow> False | Some m \<Rightarrow> wrap_int64 i < m) then Some (''value_too_small:'' @ sf_name f)
                else if (case sf_max f of None \<Rightarrow> False | Some m \<Rightarrow> wrap_int64 i > m) then Some (''value_too_large:'' @ sf_name f)
                else None)
           | JString s \<Rightarrow> (if sf_type f = ''string'' \<and> sf_required f \<and> s = [] then Some (''empty_field:'' @ sf_name f) else None)
           | _ \<Rightarrow> None)"

fun check_fields :: "json \<Rightarrow> schema_field list \<Rightarrow> string option" where
  "check_fields doc [] = None"
| "check_fields doc (f # fs) = (case check_field doc f of None \<Rightarrow> check_fields doc fs | Some e \<Rightarrow> Some e)"

text \<open>The complaint of \<^verbatim>\<open>validate\<close>; \<open>None\<close> is a valid payload.\<close>

definition schema_validate :: "(string \<Rightarrow> json option) \<Rightarrow> string \<Rightarrow> string \<Rightarrow> string option" where
  "schema_validate parse message_type payload =
     (case map_of default_schemas message_type of
        None \<Rightarrow> Some ''no_schema_registered''
      | Some fs \<Rightarrow> (case parse payload of None \<Rightarrow> Some ''invalid_json'' | Some doc \<Rightarrow> check_fields doc fs))"

subsection \<open>State\<close>

record backend_call =
  bc_service :: service_id
  bc_type :: string
  bc_payload :: string
  bc_key :: string
  bc_success :: bool

text \<open>A battle input whose request to the backend a worker thread makes.\<close>

record route_task =
  rk_session_id :: session_id
  rk_request_id :: nat
  rk_room_id :: string
  rk_payload :: string

record 'b gateway_runtime =
  gr_lookup :: session_lookup
  gr_roles :: "session_id \<rightharpoonup> role"
  gr_battles :: "string set"
  gr_room_battle :: "string \<rightharpoonup> string"
  gr_settlement_keys :: "string set"
  gr_processed_matches :: "string set"
  gr_push_every :: nat
  gr_workers :: nat
  gr_last_frame :: "string \<rightharpoonup> nat"
  gr_tasks :: "route_task list"
  gr_out :: "client_envelope list"
  gr_calls :: "backend_call list"
  gr_backend :: 'b

definition new_gateway_runtime :: "'b \<Rightarrow> 'b gateway_runtime" where
  "new_gateway_runtime b = \<lparr>gr_lookup = empty_lookup, gr_roles = Map.empty, gr_battles = {}, gr_room_battle = Map.empty, gr_settlement_keys = {},
     gr_processed_matches = {}, gr_push_every = 0, gr_workers = 0, gr_last_frame = Map.empty, gr_tasks = [], gr_out = [], gr_calls = [], gr_backend = b\<rparr>"

text \<open>The text functions of the JSON library, of which printing throws on a text that is not UTF-8, the bridge, and the two numbers that may be set in the environment of the process.\<close>

record 'b gateway_env =
  gv_dump :: "json \<Rightarrow> string read"
  gv_parse :: "string \<Rightarrow> json option"
  gv_route :: "service_id \<Rightarrow> string \<Rightarrow> string \<Rightarrow> string \<Rightarrow> 'b \<Rightarrow> routing_result \<times> 'b"
  gv_push_every :: "nat option"
  gv_workers :: "nat option"

definition read_uint32_override :: "nat option \<Rightarrow> nat \<Rightarrow> nat" where
  "read_uint32_override raw fallback = (case raw of None \<Rightarrow> fallback | Some n \<Rightarrow> if n > 0 then n mod 2 ^ 32 else fallback)"

type_synonym 'b outcome = "(json_error + bool) \<times> 'b gateway_runtime"

definition on_lookup :: "(session_lookup \<Rightarrow> session_lookup) \<Rightarrow> 'b gateway_runtime \<Rightarrow> 'b gateway_runtime" where
  "on_lookup f s = s\<lparr>gr_lookup := f (gr_lookup s)\<rparr>"

definition gw_emit :: "nat \<Rightarrow> session_id \<Rightarrow> nat \<Rightarrow> error_code \<Rightarrow> string \<Rightarrow> 'b gateway_runtime \<Rightarrow> 'b gateway_runtime" where
  "gw_emit message_id sid request_id code body s =
     s\<lparr>gr_out := gr_out s @ [\<lparr>ce_session_id = sid, ce_message_id = message_id, ce_request_id = request_id,
          ce_error_code = error_value code, ce_flags = 0, ce_body = body\<rparr>]\<rparr>"

definition gw_broadcast_to_room :: "string \<Rightarrow> nat \<Rightarrow> string \<Rightarrow> 'b gateway_runtime \<Rightarrow> 'b gateway_runtime" where
  "gw_broadcast_to_room room message_id body s =
     fold (\<lambda>sid. gw_emit message_id sid 0 KOk body) (sessions_in_room room (gr_lookup s)) s"

text \<open>The answer to a command, and the error answer.\<close>

definition respond :: "gateway_command \<Rightarrow> nat \<Rightarrow> error_code \<Rightarrow> string \<Rightarrow> 'b gateway_runtime \<Rightarrow> 'b outcome" where
  "respond cmd message_id code body s = (Inr True, gw_emit message_id (gc_session_id cmd) (gc_request_id cmd) code body s)"

definition refuse :: "gateway_command \<Rightarrow> error_code \<Rightarrow> string \<Rightarrow> 'b gateway_runtime \<Rightarrow> 'b outcome" where
  "refuse cmd code body = respond cmd kErrorResponse code body"

definition call_backend ::
  "'b gateway_env \<Rightarrow> service_id \<Rightarrow> string \<Rightarrow> string \<Rightarrow> string \<Rightarrow> 'b gateway_runtime \<Rightarrow> routing_result \<times> 'b gateway_runtime" where
  "call_backend env service ty payload key s =
     (let (r, b) = gv_route env service ty payload key (gr_backend s)
      in (r, s\<lparr>gr_backend := b,
               gr_calls := gr_calls s @ [\<lparr>bc_service = service, bc_type = ty, bc_payload = payload, bc_key = key, bc_success = rr_success r\<rparr>]\<rparr>))"

subsection \<open>Answers of backends\<close>

definition backend_error_reason :: "'b gateway_env \<Rightarrow> routing_result \<Rightarrow> string \<Rightarrow> string read" where
  "backend_error_reason env r fallback =
     (if rr_payload r = [] then Inr fallback
      else case gv_parse env (rr_payload r) of None \<Rightarrow> Inr (rr_payload r) | Some doc \<Rightarrow> value_or get_string doc ''reason'' fallback)"

text \<open>A delivered answer: accepted when its status says so, otherwise refused with its reason.\<close>

definition on_answer ::
  "'b gateway_env \<Rightarrow> routing_result \<Rightarrow> string \<Rightarrow> (json \<Rightarrow> 'b gateway_runtime \<Rightarrow> 'b outcome) \<Rightarrow> (string \<Rightarrow> 'b gateway_runtime \<Rightarrow> 'b outcome) \<Rightarrow>
   'b gateway_runtime \<Rightarrow> 'b outcome" where
  "on_answer env r fallback ok bad s =
     (case gv_parse env (rr_payload r) of
        None \<Rightarrow> bad fallback s
      | Some resp \<Rightarrow>
         reading Inl (value_or get_string resp ''status'' []) (\<lambda>status s.
           if status = ''ok'' then ok resp s
           else reading Inl (value_or get_string resp ''reason'' fallback) bad s) s)"

text \<open>\<^verbatim>\<open>bridge_route\<close>.\<close>

definition bridge_route ::
  "'b gateway_env \<Rightarrow> service_id \<Rightarrow> string \<Rightarrow> string \<Rightarrow> (json \<Rightarrow> 'b gateway_runtime \<Rightarrow> 'b outcome) \<Rightarrow> (string \<Rightarrow> 'b gateway_runtime \<Rightarrow> 'b outcome) \<Rightarrow>
   'b gateway_runtime \<Rightarrow> 'b outcome" where
  "bridge_route env service ty payload ok bad s =
     (let (r, s1) = call_backend env service ty payload [] s
      in if rr_success r then on_answer env r (ty @ ''_failed'') ok bad s1
         else reading Inl (backend_error_reason env r ''backend_error'') bad s1)"

text \<open>A request whose answer is handed to the client as it is.\<close>

definition forward_answer ::
  "'b gateway_env \<Rightarrow> gateway_command \<Rightarrow> service_id \<Rightarrow> string \<Rightarrow> string \<Rightarrow> nat \<Rightarrow> error_code \<Rightarrow> string \<Rightarrow> 'b gateway_runtime \<Rightarrow> 'b outcome" where
  "forward_answer env cmd service ty payload message_id code fallback s =
     (let (r, s1) = call_backend env service ty payload [] s
      in if \<not> rr_success r then reading Inl (backend_error_reason env r fallback) (refuse cmd code) s1
         else respond cmd message_id KOk (rr_payload r) s1)"

text \<open>The same for a payload that is printed first.\<close>

definition forward_doc ::
  "'b gateway_env \<Rightarrow> gateway_command \<Rightarrow> service_id \<Rightarrow> string \<Rightarrow> json \<Rightarrow> nat \<Rightarrow> error_code \<Rightarrow> string \<Rightarrow> 'b gateway_runtime \<Rightarrow> 'b outcome" where
  "forward_doc env cmd service ty doc message_id code fallback =
     reading Inl (gv_dump env doc) (\<lambda>payload. forward_answer env cmd service ty payload message_id code fallback)"

text \<open>The schema check of a payload the gateway has put together.\<close>

definition with_schema ::
  "'b gateway_env \<Rightarrow> gateway_command \<Rightarrow> string \<Rightarrow> json \<Rightarrow> (string \<Rightarrow> 'b gateway_runtime \<Rightarrow> 'b outcome) \<Rightarrow> 'b gateway_runtime \<Rightarrow> 'b outcome" where
  "with_schema env cmd ty doc k s =
     reading Inl (gv_dump env doc) (\<lambda>payload s.
       case schema_validate (gv_parse env) ty payload of Some e \<Rightarrow> refuse cmd KInvalidUserId e s | None \<Rightarrow> k payload s) s"

subsection \<open>Login and registration\<close>

definition set_session_role :: "session_id \<Rightarrow> role \<Rightarrow> 'b gateway_runtime \<Rightarrow> 'b gateway_runtime" where
  "set_session_role sid r s = s\<lparr>gr_roles := (gr_roles s)(sid \<mapsto> r)\<rparr>"

definition is_session_allowed :: "session_id \<Rightarrow> nat \<Rightarrow> 'b gateway_runtime \<Rightarrow> bool" where
  "is_session_allowed sid message_id s = (case gr_roles s sid of None \<Rightarrow> True | Some r \<Rightarrow> role_allowed r message_id)"

text \<open>A session that is replaced is told and loses its user.\<close>

definition gw_kick_old_session :: "string \<Rightarrow> 'b gateway_runtime \<Rightarrow> 'b gateway_runtime" where
  "gw_kick_old_session user_id s =
     (case session_for_user user_id (gr_lookup s) of
        None \<Rightarrow> s
      | Some old \<Rightarrow> on_lookup (erase_session_user old) (gw_emit kSessionKickedPush old 0 KDuplicateLogin ''duplicate_login'' s))"

definition login_accepted :: "gateway_command \<Rightarrow> string \<Rightarrow> json \<Rightarrow> 'b gateway_runtime \<Rightarrow> 'b outcome" where
  "login_accepted cmd user_id resp s =
     reading Inl (value_or get_bool resp ''is_duplicate'' False) (\<lambda>is_duplicate.
     reading Inl (value_or get_string resp ''role'' ''player'') (\<lambda>role s.
       (let s1 = set_session_role (gc_session_id cmd) (role_from_string role) s;
            s2 = (if is_duplicate then gw_kick_old_session user_id s1 else s1)
        in respond cmd kLoginResponse KOk (''login_ok:'' @ user_id) (on_lookup (set_session_user (gc_session_id cmd) user_id) s2)))) s"

definition gw_login :: "'b gateway_env \<Rightarrow> gateway_command \<Rightarrow> 'b gateway_runtime \<Rightarrow> 'b outcome" where
  "gw_login env cmd s =
     (case parse_login_command_body (gc_body cmd) of
        None \<Rightarrow> refuse cmd KInvalidUserId (error_text KInvalidUserId) s
      | Some b \<Rightarrow>
         if \<not> validate_login_command_body b then refuse cmd KInvalidUserId (error_text KInvalidUserId) s
         else with_schema env cmd ''login_request''
                (JObject [(''user_id'', JString (pl_user_id b)), (''token'', JString (pl_token b)),
                          (''display_name'', JString (case pl_display_name b of None \<Rightarrow> [] | Some n \<Rightarrow> n))])
                (\<lambda>payload s.
                   let (r, s1) = call_backend env SvcLogin ''login_request'' payload [] s
                   in if rr_success r then on_answer env r ''auth_failed'' (login_accepted cmd (pl_user_id b)) (refuse cmd KInvalidToken) s1
                      else refuse cmd (if rr_error r = err_rejected then KInvalidToken else KLoginBackendUnavailable) ''backend_error'' s1) s)"

definition gw_register :: "'b gateway_env \<Rightarrow> gateway_command \<Rightarrow> 'b gateway_runtime \<Rightarrow> 'b outcome" where
  "gw_register env cmd s =
     (case gv_parse env (gc_body cmd) of
        None \<Rightarrow> refuse cmd KInvalidUserId ''invalid_register_payload'' s
      | Some doc \<Rightarrow>
         if \<not> is_object doc then refuse cmd KInvalidUserId ''invalid_register_payload'' s
         else forward_doc env cmd SvcLogin ''register_account'' doc kRegisterResponse KLoginBackendUnavailable ''register_failed'' s)"

subsection \<open>Rooms\<close>

definition user_room_doc :: "string \<Rightarrow> string \<Rightarrow> (string \<times> json) list" where
  "user_room_doc user_id room_id = [(''user_id'', JString user_id), (''room_id'', JString room_id)]"

text \<open>The refusal of a request that the backend did not answer as a success, with the code and reason for a rejection and those for a failure.\<close>

definition refuse_failed ::
  "'b gateway_env \<Rightarrow> gateway_command \<Rightarrow> routing_result \<Rightarrow> error_code \<Rightarrow> string \<Rightarrow> 'b gateway_runtime \<Rightarrow> 'b outcome" where
  "refuse_failed env cmd r rejected_code rejected_text =
     reading Inl (backend_error_reason env r (if rr_error r = err_rejected then rejected_text else ''backend_error''))
       (refuse cmd (if rr_error r = err_rejected then rejected_code else KRoomBackendUnavailable))"

definition gw_room_create :: "'b gateway_env \<Rightarrow> gateway_command \<Rightarrow> 'b gateway_runtime \<Rightarrow> 'b outcome" where
  "gw_room_create env cmd s =
     (let user_id = user_id_for (gc_session_id cmd) (gr_lookup s)
      in case parse_room_id_body (gc_body cmd) of
           None \<Rightarrow> refuse cmd KInvalidRoomId (error_text KInvalidRoomId) s
         | Some room_id \<Rightarrow>
            if user_id = [] then refuse cmd KInvalidRoomId (error_text KInvalidRoomId) s
            else with_schema env cmd ''room_create'' (JObject (user_room_doc user_id room_id))
                   (\<lambda>payload. bridge_route env SvcRoom ''room_create'' payload
                      (\<lambda>resp s. respond cmd kRoomCreateResponse KOk room_id (on_lookup (set_session_room (gc_session_id cmd) room_id) s))
                      (\<lambda>reason. refuse cmd (if reason = ''backend_error'' then KRoomBackendUnavailable else KInvalidRoomId) reason)) s)"

definition gw_room_join :: "'b gateway_env \<Rightarrow> gateway_command \<Rightarrow> 'b gateway_runtime \<Rightarrow> 'b outcome" where
  "gw_room_join env cmd s =
     (let user_id = user_id_for (gc_session_id cmd) (gr_lookup s)
      in case parse_room_id_body (gc_body cmd) of
           None \<Rightarrow> refuse cmd KInvalidRoomId (error_text KInvalidRoomId) s
         | Some room_id \<Rightarrow>
            if user_id = [] then refuse cmd KInvalidRoomId (error_text KInvalidRoomId) s
            else with_schema env cmd ''room_join'' (JObject (user_room_doc user_id room_id))
                   (\<lambda>payload s.
                      let (r, s1) = call_backend env SvcRoom ''room_join'' payload [] s
                      in if rr_success r
                         then on_answer env r ''room_join_failed''
                                (\<lambda>resp s. respond cmd kRoomJoinResponse KOk room_id (on_lookup (set_session_room (gc_session_id cmd) room_id) s))
                                (refuse cmd KInvalidRoomId) s1
                         else refuse_failed env cmd r KInvalidRoomId ''room_join_rejected'' s1) s)"

definition bool_text :: "bool \<Rightarrow> string" where
  "bool_text b = (if b then ''true'' else ''false'')"

definition gw_room_ready :: "'b gateway_env \<Rightarrow> gateway_command \<Rightarrow> 'b gateway_runtime \<Rightarrow> 'b outcome" where
  "gw_room_ready env cmd s =
     (let user_id = user_id_for (gc_session_id cmd) (gr_lookup s); room_id = room_id_for (gc_session_id cmd) (gr_lookup s)
      in if user_id = [] \<or> room_id = [] then (Inr False, s)
         else case parse_room_ready_body (gc_body cmd) of
             None \<Rightarrow> refuse cmd KAuthRequired ''invalid_ready_state'' s
           | Some ready \<Rightarrow>
              with_schema env cmd ''room_ready'' (JObject (user_room_doc user_id room_id @ [(''ready'', JBool ready)]))
                (\<lambda>payload s.
                   let (r, s1) = call_backend env SvcRoom ''room_ready'' payload [] s
                   in if rr_success r
                      then on_answer env r ''ready_failed'' (\<lambda>resp. respond cmd kRoomReadyResponse KOk (bool_text ready)) (refuse cmd KAuthRequired) s1
                      else refuse_failed env cmd r KAuthRequired ''room_ready_rejected'' s1) s)"

definition gw_room_leave :: "'b gateway_env \<Rightarrow> gateway_command \<Rightarrow> 'b gateway_runtime \<Rightarrow> 'b outcome" where
  "gw_room_leave env cmd s =
     (let user_id = user_id_for (gc_session_id cmd) (gr_lookup s); room_id = room_id_for (gc_session_id cmd) (gr_lookup s)
      in if user_id = [] \<or> room_id = [] then (Inr False, s)
         else with_schema env cmd ''room_leave'' (JObject (user_room_doc user_id room_id))
                (\<lambda>payload s.
                   let (r, s1) = call_backend env SvcRoom ''room_leave'' payload [] s
                   in if rr_success r
                      then on_answer env r ''leave_failed''
                             (\<lambda>resp s. respond cmd kRoomLeaveResponse KOk room_id (on_lookup (erase_session_room (gc_session_id cmd)) s))
                             (refuse cmd KNotInRoom) s1
                      else refuse cmd KRoomBackendUnavailable ''backend_error'' s1) s)"

definition gw_room_list :: "'b gateway_env \<Rightarrow> gateway_command \<Rightarrow> 'b gateway_runtime \<Rightarrow> 'b outcome" where
  "gw_room_list env cmd =
     forward_answer env cmd SvcRoom ''room_list'' (if gc_body cmd = [] then ''{}'' else gc_body cmd) kRoomListResponse KRoomBackendUnavailable ''room_list_failed''"

definition gw_room_detail :: "'b gateway_env \<Rightarrow> gateway_command \<Rightarrow> 'b gateway_runtime \<Rightarrow> 'b outcome" where
  "gw_room_detail env cmd s =
     (case parse_room_id_body (gc_body cmd) of
        None \<Rightarrow> refuse cmd KInvalidRoomId (error_text KInvalidRoomId) s
      | Some room_id \<Rightarrow>
         forward_doc env cmd SvcRoom ''room_detail'' (JObject [(''room_id'', JString room_id)]) kRoomDetailResponse
           KRoomBackendUnavailable ''room_detail_failed'' s)"

text \<open>A request of a member about another member of the room.\<close>

definition gw_member_request ::
  "'b gateway_env \<Rightarrow> gateway_command \<Rightarrow> string \<Rightarrow> string \<Rightarrow> nat \<Rightarrow> string \<Rightarrow> 'b gateway_runtime \<Rightarrow> 'b outcome" where
  "gw_member_request env cmd ty field message_id fallback s =
     (let user_id = user_id_for (gc_session_id cmd) (gr_lookup s); room_id = room_id_for (gc_session_id cmd) (gr_lookup s)
      in if user_id = [] \<or> room_id = [] then refuse cmd KNotInRoom (error_text KNotInRoom) s
         else forward_doc env cmd SvcRoom ty (JObject (user_room_doc user_id room_id @ [(field, JString (gc_body cmd))]))
                message_id KRoomBackendUnavailable fallback s)"

definition gw_room_kick :: "'b gateway_env \<Rightarrow> gateway_command \<Rightarrow> 'b gateway_runtime \<Rightarrow> 'b outcome" where
  "gw_room_kick env cmd = gw_member_request env cmd ''room_kick'' ''target_user_id'' kRoomKickResponse ''room_kick_failed''"

definition gw_room_transfer_owner :: "'b gateway_env \<Rightarrow> gateway_command \<Rightarrow> 'b gateway_runtime \<Rightarrow> 'b outcome" where
  "gw_room_transfer_owner env cmd = gw_member_request env cmd ''room_transfer_owner'' ''new_owner_id'' kRoomTransferOwnerResponse ''room_transfer_failed''"

subsection \<open>Settlements\<close>

definition settlement_payload :: "string \<Rightarrow> string \<Rightarrow> string \<Rightarrow> string \<times> int \<Rightarrow> json" where
  "settlement_payload battle_id room_id reason score =
     JObject [(''user_id'', JString (fst score)), (''display_name'', JString (fst score)), (''score'', JInt (snd score)),
       (''idempotency_key'', JString (battle_id @ '':'' @ fst score)), (''source'', JString ''battle_settlement''),
       (''battle_id'', JString battle_id), (''room_id'', JString room_id), (''reason'', JString reason)]"

text \<open>One score: its key is taken first and given back when the request fails, but not when printing it throws.\<close>

definition submit_score :: "'b gateway_env \<Rightarrow> string \<Rightarrow> string \<Rightarrow> string \<Rightarrow> string \<times> int \<Rightarrow> 'b gateway_runtime \<Rightarrow> 'b outcome" where
  "submit_score env battle_id room_id reason score s =
     (let key = battle_id @ '':'' @ fst score
      in if fst score = [] \<or> key \<in> gr_settlement_keys s then (Inr True, s)
         else reading Inl (gv_dump env (settlement_payload battle_id room_id reason score)) (\<lambda>payload s.
                let (r, s1) = call_backend env SvcLeaderboard ''leaderboard_submit'' payload (fst score) s
                in (Inr True, if rr_success r then s1 else s1\<lparr>gr_settlement_keys := gr_settlement_keys s1 - {key}\<rparr>))
              (s\<lparr>gr_settlement_keys := insert key (gr_settlement_keys s)\<rparr>))"

text \<open>A loop whose body may throw.\<close>

fun each_in_turn :: "('a \<Rightarrow> 'b gateway_runtime \<Rightarrow> 'b outcome) \<Rightarrow> 'a list \<Rightarrow> 'b gateway_runtime \<Rightarrow> 'b outcome" where
  "each_in_turn act [] s = (Inr True, s)"
| "each_in_turn act (x # xs) s = (case act x s of (Inl e, s1) \<Rightarrow> (Inl e, s1) | (Inr _, s1) \<Rightarrow> each_in_turn act xs s1)"

definition submit_settlement ::
  "'b gateway_env \<Rightarrow> string \<Rightarrow> string \<Rightarrow> string \<Rightarrow> (string \<times> int) list \<Rightarrow> 'b gateway_runtime \<Rightarrow> 'b outcome" where
  "submit_settlement env battle_id room_id reason scores s =
     (if battle_id = [] then (Inr True, s) else each_in_turn (submit_score env battle_id room_id reason) scores s)"

definition get_int64 :: "json \<Rightarrow> int read" where
  "get_int64 v = (case v of JInt i \<Rightarrow> Inr (wrap_int64 i) | _ \<Rightarrow> Inl (TypeError v))"

fun read_scores :: "json list \<Rightarrow> (string \<times> int) list read" where
  "read_scores [] = Inr []"
| "read_scores (v # vs) =
     and_then (value_or get_string v ''user_id'' []) (\<lambda>u.
       if u = [] then read_scores vs
       else and_then (value_or get_int64 v ''score'' 0) (\<lambda>n. and_then (read_scores vs) (\<lambda>rest. Inr ((u, n) # rest))))"

definition submit_finished_push :: "'b gateway_env \<Rightarrow> json \<Rightarrow> string \<Rightarrow> 'b gateway_runtime \<Rightarrow> 'b outcome" where
  "submit_finished_push env push room_id s =
     (case json_find push ''scores'' of
        Some (JArray vs) \<Rightarrow>
          reading Inl (read_scores vs) (\<lambda>scores.
          reading Inl (value_or get_string push ''battle_id'' []) (\<lambda>battle_id.
          reading Inl (value_or get_string push ''reason'' ''finished'') (\<lambda>reason.
            submit_settlement env battle_id room_id reason scores))) s
      | _ \<Rightarrow> (Inr True, s))"

subsection \<open>Battles\<close>

text \<open>The elements a loop over a JSON value visits.\<close>

definition loop_items :: "json \<Rightarrow> json list" where
  "loop_items v = (case v of JArray xs \<Rightarrow> xs | JObject kvs \<Rightarrow> map snd kvs | JNull \<Rightarrow> [] | _ \<Rightarrow> [v])"

text \<open>The loop over the pushes of an answer; the action gets the kind of the push.\<close>

fun for_pushes :: "(string \<Rightarrow> json \<Rightarrow> 'b gateway_runtime \<Rightarrow> 'b outcome) \<Rightarrow> json list \<Rightarrow> 'b gateway_runtime \<Rightarrow> 'b outcome" where
  "for_pushes act [] s = (Inr True, s)"
| "for_pushes act (p # ps) s =
     reading Inl (value_or get_string p ''kind'' []) (\<lambda>kind s.
       case act kind p s of (Inl e, s1) \<Rightarrow> (Inl e, s1) | (Inr _, s1) \<Rightarrow> for_pushes act ps s1) s"

definition answer_pushes :: "json \<Rightarrow> json list" where
  "answer_pushes resp = (case json_find resp ''push_to_sessions'' of None \<Rightarrow> [] | Some v \<Rightarrow> loop_items v)"

definition track_battle :: "string \<Rightarrow> string \<Rightarrow> 'b gateway_runtime \<Rightarrow> 'b gateway_runtime" where
  "track_battle room_id battle_id s =
     (if battle_id = [] then s else s\<lparr>gr_battles := insert room_id (gr_battles s), gr_room_battle := (gr_room_battle s)(room_id \<mapsto> battle_id)\<rparr>)"

definition forget_battle :: "string \<Rightarrow> 'b gateway_runtime \<Rightarrow> 'b gateway_runtime" where
  "forget_battle room_id s = s\<lparr>gr_battles := gr_battles s - {room_id}, gr_room_battle := (gr_room_battle s)(room_id := None)\<rparr>"

definition battle_id_for_room :: "string \<Rightarrow> 'b gateway_runtime \<Rightarrow> string" where
  "battle_id_for_room room_id s = (case gr_room_battle s room_id of None \<Rightarrow> [] | Some b \<Rightarrow> b)"

definition battle_created :: "gateway_command \<Rightarrow> string \<Rightarrow> json \<Rightarrow> 'b gateway_runtime \<Rightarrow> 'b outcome" where
  "battle_created cmd room_id resp s =
     reading Inl (value_or get_string resp ''battle_id'' []) (\<lambda>battle_id s.
       for_pushes (\<lambda>kind p s. (Inr True,
           if kind = ''battle_started'' then gw_broadcast_to_room room_id kBattleStatePush (format_battle_state_body room_id battle_id) s else s))
         (answer_pushes resp)
         (snd (respond cmd kBattleStartResponse KOk (format_battle_started_body room_id battle_id) (track_battle room_id battle_id s)))) s"

text \<open>The part of an accepted start that asks the battle service; what is not accepted there is one error.\<close>

definition forward_battle :: "'b gateway_env \<Rightarrow> gateway_command \<Rightarrow> string \<Rightarrow> json \<Rightarrow> 'b gateway_runtime \<Rightarrow> 'b outcome" where
  "forward_battle env cmd room_id fwd s =
     reading Inl (value_or get_string fwd ''target'' []) (\<lambda>target.
     reading Inl (value_or get_string fwd ''message_type'' []) (\<lambda>ty.
     reading Inl (case json_find fwd ''payload'' of None \<Rightarrow> Inr [] | Some v \<Rightarrow> gv_dump env v) (\<lambda>payload s.
        (if target = ''battle'' \<and> payload \<noteq> []
           then (let (r, s1) = call_backend env SvcBattle ty payload [] s
                 in if \<not> rr_success r then refuse cmd KBattleNotStarted ''battle_create_failed'' s1
                    else case gv_parse env (rr_payload r) of
                        None \<Rightarrow> refuse cmd KBattleNotStarted ''battle_create_failed'' s1
                      | Some resp \<Rightarrow>
                         reading Inl (value_or get_string resp ''status'' []) (\<lambda>status s.
                           if status = ''ok'' then battle_created cmd room_id resp s
                           else refuse cmd KBattleNotStarted ''battle_create_failed'' s) s1)
           else refuse cmd KBattleNotStarted ''no_battle_forward'' s)))) s"

definition gw_battle_start :: "'b gateway_env \<Rightarrow> gateway_command \<Rightarrow> 'b gateway_runtime \<Rightarrow> 'b outcome" where
  "gw_battle_start env cmd s =
     (let user_id = user_id_for (gc_session_id cmd) (gr_lookup s); room_id = room_id_for (gc_session_id cmd) (gr_lookup s)
      in if user_id = [] \<or> room_id = [] then (Inr False, s)
         else case parse_battle_start_command_body (gc_body cmd) of
             None \<Rightarrow> refuse cmd KInvalidRoomId (error_text KInvalidRoomId) s
           | Some named \<Rightarrow>
              if named \<noteq> None \<and> named \<noteq> Some room_id then refuse cmd KInvalidRoomId (error_text KInvalidRoomId) s
              else with_schema env cmd ''room_start_battle'' (JObject (user_room_doc user_id room_id))
                (\<lambda>payload s.
                   let (r, s1) = call_backend env SvcRoom ''room_start_battle'' payload [] s
                   in if \<not> rr_success r then refuse_failed env cmd r KBattleNotStarted ''room_start_battle_rejected'' s1
                      else on_answer env r ''start_battle_failed''
                             (\<lambda>resp. case json_find resp ''forward'' of
                                None \<Rightarrow> refuse cmd KBattleNotStarted ''no_battle_forward''
                              | Some fwd \<Rightarrow> forward_battle env cmd room_id fwd)
                             (refuse cmd KBattleNotStarted) s1) s)"

text \<open>Whether the push of a frame is sent on: every frame, or one of several.\<close>

definition should_emit_battle_frame_push :: "'b gateway_env \<Rightarrow> string \<Rightarrow> nat \<Rightarrow> 'b gateway_runtime \<Rightarrow> bool \<times> 'b gateway_runtime" where
  "should_emit_battle_frame_push env room_id frame s0 =
     (let s = (if gr_push_every s0 = 0 then s0\<lparr>gr_push_every := read_uint32_override (gv_push_every env) 1\<rparr> else s0);
          last = (case gr_last_frame s room_id of None \<Rightarrow> 0 | Some n \<Rightarrow> n);
          sent = s\<lparr>gr_last_frame := (gr_last_frame s)(room_id \<mapsto> frame)\<rparr>
      in if gr_push_every s \<le> 1 \<or> frame = 0 then (True, sent)
         else if last = 0 \<or> frame \<le> last \<or> frame - last \<ge> gr_push_every s then (True, sent)
         else (False, s\<lparr>gr_last_frame := (gr_last_frame s)(room_id \<mapsto> last)\<rparr>))"

text \<open>A push of a backend, sent on as it is.\<close>

definition broadcast_push :: "'b gateway_env \<Rightarrow> string \<Rightarrow> json \<Rightarrow> 'b gateway_runtime \<Rightarrow> 'b outcome" where
  "broadcast_push env room_id push =
     reading Inl (gv_dump env push) (\<lambda>body s. (Inr True, gw_broadcast_to_room room_id kBattleStatePush body s))"

definition frame_push :: "'b gateway_env \<Rightarrow> string \<Rightarrow> json \<Rightarrow> 'b gateway_runtime \<Rightarrow> 'b outcome" where
  "frame_push env room_id push =
     reading Inl (value_or get_uint64 push ''frame_number'' 0) (\<lambda>frame s.
       case should_emit_battle_frame_push env room_id frame s of
         (sent, s1) \<Rightarrow> if sent then broadcast_push env room_id push s1 else (Inr True, s1))"

text \<open>The end of a battle as a push of a finish request, and of an input handled in place: the scores are submitted.\<close>

definition finished_push :: "'b gateway_env \<Rightarrow> string \<Rightarrow> json \<Rightarrow> 'b gateway_runtime \<Rightarrow> 'b outcome" where
  "finished_push env room_id push s =
     (case submit_finished_push env push room_id s of
        (Inl e, s1) \<Rightarrow> (Inl e, s1)
      | (Inr _, s1) \<Rightarrow> broadcast_push env room_id push s1)"

definition direct_push :: "'b gateway_env \<Rightarrow> string \<Rightarrow> string \<Rightarrow> json \<Rightarrow> 'b gateway_runtime \<Rightarrow> 'b outcome" where
  "direct_push env room_id kind push s =
     (if kind = ''frame_advanced'' then frame_push env room_id push s
      else if kind = ''battle_finished'' then
        (case finished_push env room_id push s of (Inl e, s1) \<Rightarrow> (Inl e, s1) | (Inr b, s1) \<Rightarrow> (Inr b, forget_battle room_id s1))
      else (Inr True, s))"

text \<open>The same push seen by a worker thread.\<close>

definition offloaded_push :: "'b gateway_env \<Rightarrow> string \<Rightarrow> string \<Rightarrow> json \<Rightarrow> 'b gateway_runtime \<Rightarrow> 'b outcome" where
  "offloaded_push env room_id kind push s =
     (if kind = ''frame_advanced'' then frame_push env room_id push s
      else if kind = ''battle_finished'' then broadcast_push env room_id push s
      else (Inr True, s))"

text \<open>A request to the battle service with an input, answered to the client named.\<close>

definition route_battle_input ::
  "'b gateway_env \<Rightarrow> (string \<Rightarrow> json \<Rightarrow> 'b gateway_runtime \<Rightarrow> 'b outcome) \<Rightarrow> gateway_command \<Rightarrow> string \<Rightarrow> 'b gateway_runtime \<Rightarrow> 'b outcome" where
  "route_battle_input env act cmd payload s =
     (let (r, s1) = call_backend env SvcBattle ''battle_input'' payload [] s
      in if \<not> rr_success r then refuse cmd KBattleBackendUnavailable ''backend_error'' s1
         else on_answer env r ''input_rejected''
                (\<lambda>resp. reading Inl (value_or get_uint64 resp ''input_seq'' 0) (\<lambda>seq s.
                   for_pushes act (answer_pushes resp)
                     (snd (respond cmd kBattleInputResponse KOk (format_battle_input_response_body seq) s))))
                (refuse cmd KAuthRequired) s1)"

text \<open>A queued input, run by a worker; the command stands for the client to answer.\<close>

definition task_command :: "route_task \<Rightarrow> gateway_command" where
  "task_command t = \<lparr>gc_session_id = rk_session_id t, gc_type = CmdBattleInput, gc_message_id = kBattleInputRequest,
     gc_request_id = rk_request_id t, gc_flags = 0, gc_body = []\<rparr>"

definition run_route_task :: "'b gateway_env \<Rightarrow> route_task \<Rightarrow> 'b gateway_runtime \<Rightarrow> 'b outcome" where
  "run_route_task env t = route_battle_input env (offloaded_push env (rk_room_id t)) (task_command t) (rk_payload t)"

text \<open>A worker takes the oldest task.\<close>

definition worker_step :: "'b gateway_env \<Rightarrow> 'b gateway_runtime \<Rightarrow> 'b outcome" where
  "worker_step env s = (case gr_tasks s of [] \<Rightarrow> (Inr False, s) | t # ts \<Rightarrow> run_route_task env t (s\<lparr>gr_tasks := ts\<rparr>))"

text \<open>The end of an accepted finish request: the room service is told and the battle forgotten.\<close>

definition battle_ended :: "'b gateway_env \<Rightarrow> string \<Rightarrow> string \<Rightarrow> 'b gateway_runtime \<Rightarrow> 'b outcome" where
  "battle_ended env room_id battle_id =
     reading Inl (gv_dump env (JObject [(''room_id'', JString room_id), (''battle_id'', JString battle_id)])) (\<lambda>payload s.
       (Inr True, forget_battle room_id (snd (call_backend env SvcRoom ''room_battle_finished'' payload room_id s))))"

definition finish_request :: "'b gateway_env \<Rightarrow> gateway_command \<Rightarrow> battle_finish_reason \<Rightarrow> string \<Rightarrow> string \<Rightarrow> 'b gateway_runtime \<Rightarrow> 'b outcome" where
  "finish_request env cmd reason user_id room_id s =
     (let battle_id = battle_id_for_room room_id s; failed = refuse cmd KBattleNotStarted ''battle_finish_failed''
      in reading Inl (gv_dump env (JObject [(''user_id'', JString user_id), (''battle_id'', JString battle_id), (''reason'', JString (finish_reason_name reason))])) (\<lambda>payload s.
         let (r, s1) = call_backend env SvcBattle ''battle_finish'' payload [] s
         in if \<not> rr_success r then failed s1
            else case gv_parse env (rr_payload r) of
                None \<Rightarrow> failed s1
              | Some resp \<Rightarrow>
                 reading Inl (value_or get_string resp ''status'' []) (\<lambda>status s.
                   if status \<noteq> ''ok'' then failed s
                   else case for_pushes (\<lambda>kind p s. if kind = ''battle_finished'' then finished_push env room_id p s else (Inr True, s)) (answer_pushes resp)
                               (snd (respond cmd kBattleInputResponse KOk (format_battle_end_accepted_body reason) s)) of
                       (Inl e, s2) \<Rightarrow> (Inl e, s2)
                     | (Inr _, s2) \<Rightarrow> battle_ended env room_id battle_id s2) s1) s)"

definition battle_input_doc :: "string \<Rightarrow> string \<Rightarrow> parsed_battle_input \<Rightarrow> json" where
  "battle_input_doc user_id battle_id b =
     JObject [(''user_id'', JString user_id), (''battle_id'', JString battle_id), (''input_data'', JString (pi_input_data b)),
       (''score'', JInt (pi_score b)), (''submitted_frame'', JInt (pi_score b))]"

definition enable_offload :: "'b gateway_env \<Rightarrow> 'b gateway_runtime \<Rightarrow> 'b gateway_runtime" where
  "enable_offload env s = (if gr_workers s = 0 then s\<lparr>gr_workers := read_uint32_override (gv_workers env) 4\<rparr> else s)"

definition gw_battle_input :: "'b gateway_env \<Rightarrow> gateway_command \<Rightarrow> 'b gateway_runtime \<Rightarrow> 'b outcome" where
  "gw_battle_input env cmd s =
     (let user_id = user_id_for (gc_session_id cmd) (gr_lookup s); room_id = room_id_for (gc_session_id cmd) (gr_lookup s)
      in if user_id = [] \<or> room_id = [] then (Inr False, s)
         else case parse_battle_input_command_body (gc_body cmd) of
             None \<Rightarrow> refuse cmd KAuthRequired ''invalid_battle_input'' s
           | Some b \<Rightarrow>
              if \<not> validate_battle_input_command_body b then refuse cmd KAuthRequired ''invalid_battle_input'' s
              else if room_id \<notin> gr_battles s then refuse cmd KBattleNotStarted (error_text KBattleNotStarted) s
              else if pi_is_finish_request b then finish_request env cmd (pi_finish_reason b) user_id room_id s
              else let battle_id = battle_id_for_room room_id s
                   in reading Inl (gv_dump env (battle_input_doc user_id battle_id b)) (\<lambda>payload s1.
                        if gr_workers s1 > 0 \<and> battle_id \<noteq> []
                        then (Inr True, s1\<lparr>gr_tasks := gr_tasks s1 @
                                [\<lparr>rk_session_id = gc_session_id cmd, rk_request_id = gc_request_id cmd, rk_room_id = room_id, rk_payload = payload\<rparr>]\<rparr>)
                        else route_battle_input env (direct_push env room_id) cmd payload s1) (enable_offload env s))"

definition gw_battle_state :: "'b gateway_env \<Rightarrow> gateway_command \<Rightarrow> 'b gateway_runtime \<Rightarrow> 'b outcome" where
  "gw_battle_state env cmd s =
     (let requested = (if gc_body cmd = [] then battle_id_for_room (room_id_for (gc_session_id cmd) (gr_lookup s)) s else gc_body cmd)
      in if user_id_for (gc_session_id cmd) (gr_lookup s) = [] then (Inr False, s)
         else if requested = [] then refuse cmd KBattleNotStarted (error_text KBattleNotStarted) s
         else reading Inl (gv_dump env (JObject [(''battle_id'', JString requested)])) (\<lambda>payload s.
                let (r, s1) = call_backend env SvcBattle ''battle_state'' payload [] s
                in if \<not> rr_success r then reading Inl (backend_error_reason env r ''battle_state_failed'') (refuse cmd KBattleBackendUnavailable) s1
                   else on_answer env r ''battle_state_failed''
                          (\<lambda>resp. reading Inl (case json_find resp ''snapshot'' of None \<Rightarrow> Inr (rr_payload r) | Some v \<Rightarrow> gv_dump env v)
                             (respond cmd kBattleStateResponse KOk))
                          (refuse cmd KBattleNotStarted) s1) s)"

definition gw_replay_load :: "'b gateway_env \<Rightarrow> gateway_command \<Rightarrow> 'b gateway_runtime \<Rightarrow> 'b outcome" where
  "gw_replay_load env cmd s =
     (if user_id_for (gc_session_id cmd) (gr_lookup s) = [] then (Inr False, s)
      else if gc_body cmd = [] then refuse cmd KBattleNotStarted ''empty_battle_id'' s
      else forward_doc env cmd SvcBattle ''replay_load'' (JObject [(''battle_id'', JString (gc_body cmd))]) kReplayLoadResponse
             KBattleBackendUnavailable ''replay_load_failed'' s)"

subsection \<open>Matches and scores\<close>

definition gw_bridged :: "'b gateway_env \<Rightarrow> gateway_command \<Rightarrow> service_id \<Rightarrow> string \<Rightarrow> json \<Rightarrow> nat \<Rightarrow> 'b gateway_runtime \<Rightarrow> 'b outcome" where
  "gw_bridged env cmd service ty doc message_id =
     reading Inl (gv_dump env doc) (\<lambda>payload.
       bridge_route env service ty payload (\<lambda>resp. reading Inl (gv_dump env resp) (respond cmd message_id KOk)) (refuse cmd KSessionNotFound))"

text \<open>A matchmaking command of a user about this user.\<close>

definition gw_match ::
  "'b gateway_env \<Rightarrow> gateway_command \<Rightarrow> string \<Rightarrow> (parsed_match \<Rightarrow> (string \<times> json) list) \<Rightarrow> string \<Rightarrow> nat \<Rightarrow> 'b gateway_runtime \<Rightarrow> 'b outcome" where
  "gw_match env cmd ty doc invalid message_id s =
     (let user_id = user_id_for (gc_session_id cmd) (gr_lookup s)
      in case parse_match_command_body (gc_body cmd) of
           None \<Rightarrow> refuse cmd KAuthRequired invalid s
         | Some m \<Rightarrow>
            if user_id = [] \<or> \<not> validate_match_command_body m \<or> pm_user_id m \<noteq> user_id then refuse cmd KAuthRequired invalid s
            else gw_bridged env cmd SvcMatchmaking ty (JObject (doc m)) message_id s)"

definition match_doc :: "parsed_match \<Rightarrow> (string \<times> json) list" where
  "match_doc m = [(''user_id'', JString (pm_user_id m)), (''mode'', JString (pm_mode m))]"

definition gw_match_join :: "'b gateway_env \<Rightarrow> gateway_command \<Rightarrow> 'b gateway_runtime \<Rightarrow> 'b outcome" where
  "gw_match_join env cmd = gw_match env cmd ''match_join''
     (\<lambda>m. [(''user_id'', JString (pm_user_id m)), (''mmr'', JInt (pm_mmr m)), (''mode'', JString (pm_mode m))]) ''invalid_match_join'' kMatchJoinResponse"

definition gw_match_leave :: "'b gateway_env \<Rightarrow> gateway_command \<Rightarrow> 'b gateway_runtime \<Rightarrow> 'b outcome" where
  "gw_match_leave env cmd = gw_match env cmd ''match_leave'' match_doc ''invalid_match_leave'' kMatchLeaveResponse"

definition gw_match_status :: "'b gateway_env \<Rightarrow> gateway_command \<Rightarrow> 'b gateway_runtime \<Rightarrow> 'b outcome" where
  "gw_match_status env cmd = gw_match env cmd ''match_status'' match_doc ''invalid_match_status'' kMatchStatusResponse"

definition gw_leaderboard_submit :: "'b gateway_env \<Rightarrow> gateway_command \<Rightarrow> 'b gateway_runtime \<Rightarrow> 'b outcome" where
  "gw_leaderboard_submit env cmd s =
     (let user_id = user_id_for (gc_session_id cmd) (gr_lookup s)
      in case parse_leaderboard_submit_command_body (gc_body cmd) of
           None \<Rightarrow> refuse cmd KAuthRequired ''invalid_leaderboard_submit'' s
         | Some b \<Rightarrow>
            if user_id = [] \<or> \<not> validate_leaderboard_submit_command_body b \<or> ps_user_id b \<noteq> user_id
            then refuse cmd KAuthRequired ''invalid_leaderboard_submit'' s
            else gw_bridged env cmd SvcLeaderboard ''leaderboard_submit''
                   (JObject [(''user_id'', JString (ps_user_id b)), (''display_name'', JString (ps_display_name b)), (''score'', JInt (ps_score b))])
                   kLeaderboardSubmitResponse s)"

definition gw_leaderboard_top :: "'b gateway_env \<Rightarrow> gateway_command \<Rightarrow> 'b gateway_runtime \<Rightarrow> 'b outcome" where
  "gw_leaderboard_top env cmd s =
     (if user_id_for (gc_session_id cmd) (gr_lookup s) = [] then refuse cmd KAuthRequired (error_text KAuthRequired) s
      else case parse_leaderboard_top_command_body (gc_body cmd) of
          None \<Rightarrow> refuse cmd KAuthRequired ''invalid_leaderboard_top'' s
        | Some k \<Rightarrow> gw_bridged env cmd SvcLeaderboard ''leaderboard_top'' (JObject [(''k'', JInt (int k))]) kLeaderboardTopResponse s)"

definition gw_leaderboard_rank :: "'b gateway_env \<Rightarrow> gateway_command \<Rightarrow> 'b gateway_runtime \<Rightarrow> 'b outcome" where
  "gw_leaderboard_rank env cmd s =
     (if user_id_for (gc_session_id cmd) (gr_lookup s) = [] then refuse cmd KAuthRequired (error_text KAuthRequired) s
      else case parse_leaderboard_rank_command_body (gc_body cmd) of
          None \<Rightarrow> refuse cmd KAuthRequired ''invalid_leaderboard_rank'' s
        | Some u \<Rightarrow> gw_bridged env cmd SvcLeaderboard ''leaderboard_rank'' (JObject [(''user_id'', JString u)]) kLeaderboardRankResponse s)"

subsection \<open>Commands\<close>

definition handle :: "'b gateway_env \<Rightarrow> gateway_command \<Rightarrow> 'b gateway_runtime \<Rightarrow> 'b outcome" where
  "handle env cmd s =
     (if \<not> is_session_allowed (gc_session_id cmd) (gc_message_id cmd) s then refuse cmd KAuthRequired ''permission_denied'' s
      else case gc_type cmd of
          CmdLogin \<Rightarrow> gw_login env cmd s
        | CmdRegister \<Rightarrow> gw_register env cmd s
        | CmdRoomCreate \<Rightarrow> gw_room_create env cmd s
        | CmdRoomJoin \<Rightarrow> gw_room_join env cmd s
        | CmdRoomReady \<Rightarrow> gw_room_ready env cmd s
        | CmdRoomLeave \<Rightarrow> gw_room_leave env cmd s
        | CmdRoomList \<Rightarrow> gw_room_list env cmd s
        | CmdRoomDetail \<Rightarrow> gw_room_detail env cmd s
        | CmdRoomKick \<Rightarrow> gw_room_kick env cmd s
        | CmdRoomTransferOwner \<Rightarrow> gw_room_transfer_owner env cmd s
        | CmdBattleStart \<Rightarrow> gw_battle_start env cmd s
        | CmdBattleInput \<Rightarrow> gw_battle_input env cmd s
        | CmdBattleState \<Rightarrow> gw_battle_state env cmd s
        | CmdReplayLoad \<Rightarrow> gw_replay_load env cmd s
        | CmdMatchJoin \<Rightarrow> gw_match_join env cmd s
        | CmdMatchLeave \<Rightarrow> gw_match_leave env cmd s
        | CmdMatchStatus \<Rightarrow> gw_match_status env cmd s
        | CmdLeaderboardSubmit \<Rightarrow> gw_leaderboard_submit env cmd s
        | CmdLeaderboardTop \<Rightarrow> gw_leaderboard_top env cmd s
        | CmdLeaderboardRank \<Rightarrow> gw_leaderboard_rank env cmd s
        | CmdHeartbeat \<Rightarrow> (Inr False, s)
        | CmdEcho \<Rightarrow> (Inr False, s)
        | CmdUnknown \<Rightarrow> (Inr False, s))"

subsection \<open>The gateway actor\<close>

definition command_types :: "(nat \<times> command_type) list" where
  "command_types =
     [(kHeartbeatRequest, CmdHeartbeat), (kEchoRequest, CmdEcho), (kLoginRequest, CmdLogin), (kRegisterRequest, CmdRegister),
      (kRoomCreateRequest, CmdRoomCreate), (kRoomJoinRequest, CmdRoomJoin), (kRoomReadyRequest, CmdRoomReady), (kRoomLeaveRequest, CmdRoomLeave),
      (kRoomListRequest, CmdRoomList), (kRoomDetailRequest, CmdRoomDetail), (kRoomKickRequest, CmdRoomKick), (kRoomTransferOwnerRequest, CmdRoomTransferOwner),
      (kBattleStartRequest, CmdBattleStart), (kBattleInputRequest, CmdBattleInput), (kBattleStateRequest, CmdBattleState), (kReplayLoadRequest, CmdReplayLoad),
      (kMatchJoinRequest, CmdMatchJoin), (kMatchLeaveRequest, CmdMatchLeave), (kMatchStatusRequest, CmdMatchStatus),
      (kLeaderboardSubmitRequest, CmdLeaderboardSubmit), (kLeaderboardTopRequest, CmdLeaderboardTop), (kLeaderboardRankRequest, CmdLeaderboardRank)]"

definition to_command :: "client_envelope \<Rightarrow> gateway_command option" where
  "to_command e =
     (case map_of command_types (ce_message_id e) of
        None \<Rightarrow> None
      | Some ty \<Rightarrow> Some \<lparr>gc_session_id = ce_session_id e, gc_type = ty, gc_message_id = ce_message_id e, gc_request_id = ce_request_id e,
                         gc_flags = ce_flags e, gc_body = ce_body e\<rparr>)"

definition is_public_message :: "nat \<Rightarrow> bool" where
  "is_public_message message_id \<longleftrightarrow> message_id \<in> {kHeartbeatRequest, kLoginRequest, kRegisterRequest, kEchoRequest}"

text \<open>The answers of the actor itself carry the flags of the request.\<close>

definition emit_response :: "client_envelope \<Rightarrow> nat \<Rightarrow> error_code \<Rightarrow> string \<Rightarrow> 'b gateway_runtime \<Rightarrow> 'b gateway_runtime" where
  "emit_response request message_id code body s =
     s\<lparr>gr_out := gr_out s @ [\<lparr>ce_session_id = ce_session_id request, ce_message_id = message_id, ce_request_id = ce_request_id request,
          ce_error_code = error_value code, ce_flags = ce_flags request, ce_body = body\<rparr>]\<rparr>"

definition emit_error :: "client_envelope \<Rightarrow> error_code \<Rightarrow> string \<Rightarrow> 'b gateway_runtime \<Rightarrow> 'b gateway_runtime" where
  "emit_error request code body = emit_response request kErrorResponse code body"

text \<open>A command that the runtime did not take.\<close>

definition not_taken :: "client_envelope \<Rightarrow> gateway_command \<Rightarrow> 'b gateway_runtime \<Rightarrow> 'b gateway_runtime" where
  "not_taken e cmd s =
     (if gc_type cmd = CmdLogin then
        (case parse_login_command_body (gc_body cmd) of
           None \<Rightarrow> emit_error e KInvalidUserId (error_text KInvalidUserId) s
         | Some b \<Rightarrow>
            if \<not> validate_login_command_body b then emit_error e KInvalidUserId (error_text KInvalidUserId) s
            else emit_response e kLoginResponse KOk (''login_ok:'' @ pl_user_id b) s)
      else emit_error e KAuthRequired ''unmodeled_message'' s)"

text \<open>\<open>limit\<close> is the verdict of the rate limiter: allowed, or the time to wait.\<close>

definition gateway_on_message :: "'b gateway_env \<Rightarrow> nat option \<Rightarrow> client_envelope \<Rightarrow> 'b gateway_runtime \<Rightarrow> 'b outcome" where
  "gateway_on_message env limit e s =
     (case limit of
        Some retry_ms \<Rightarrow> (Inr True, emit_error e KRateLimited (''rate_limited,retry_after_ms='' @ decimal retry_ms) s)
      | None \<Rightarrow>
        (case to_command e of
           None \<Rightarrow> (Inr True, emit_error e KAuthRequired ''unmodeled_message'' s)
         | Some cmd \<Rightarrow>
            if \<not> is_public_message (ce_message_id e) \<and> user_id_for (ce_session_id e) (gr_lookup s) = []
            then (Inr True, emit_error e KAuthRequired (error_text KAuthRequired) s)
            else if gc_type cmd = CmdHeartbeat then (Inr True, emit_response e kHeartbeatResponse KOk ''pong'' s)
            else if gc_type cmd = CmdEcho then (Inr True, emit_response e kEchoResponse KOk (gc_body cmd) s)
            else (case handle env cmd s of
                    (Inl x, s1) \<Rightarrow> (Inl x, s1)
                  | (Inr True, s1) \<Rightarrow> (Inr True, s1)
                  | (Inr False, s1) \<Rightarrow> (Inr True, not_taken e cmd s1))))"

subsection \<open>Closed sessions\<close>

definition on_session_closed :: "'b gateway_env \<Rightarrow> session_id \<Rightarrow> 'b gateway_runtime \<Rightarrow> 'b outcome" where
  "on_session_closed env sid s =
     (let user_id = user_id_for sid (gr_lookup s); room_id = room_id_for sid (gr_lookup s);
          erased = (\<lambda>s. (Inr True, on_lookup (erase_session sid) (s\<lparr>gr_roles := (gr_roles s)(sid := None)\<rparr>)))
      in if user_id \<noteq> [] \<and> room_id \<noteq> []
         then reading Inl (gv_dump env (JObject (user_room_doc user_id room_id))) (\<lambda>payload s.
                erased (snd (call_backend env SvcRoom ''room_leave'' payload [] s))) s
         else erased s)"

text \<open>What happens to the runtime: packets, closed sessions and steps of the workers.\<close>

datatype runtime_event = Packet "nat option" client_envelope | Closed session_id | WorkerRuns

definition runtime_outcome :: "'b gateway_env \<Rightarrow> runtime_event \<Rightarrow> 'b gateway_runtime \<Rightarrow> 'b outcome" where
  "runtime_outcome env ev =
     (case ev of
        Packet limit e \<Rightarrow> gateway_on_message env limit e
      | Closed sid \<Rightarrow> on_session_closed env sid
      | WorkerRuns \<Rightarrow> worker_step env)"

definition runtime_step :: "'b gateway_env \<Rightarrow> runtime_event \<Rightarrow> 'b gateway_runtime \<Rightarrow> 'b gateway_runtime" where
  "runtime_step env ev s = snd (runtime_outcome env ev s)"

subsection \<open>Every request is answered once\<close>

text \<open>The answers a client has got or will get for a request: packets written and inputs that wait for a worker.\<close>

definition answers_to :: "session_id \<Rightarrow> nat \<Rightarrow> 'b gateway_runtime \<Rightarrow> nat" where
  "answers_to sid req s =
     length (filter (\<lambda>w. ce_session_id w = sid \<and> ce_request_id w = req) (gr_out s)) +
     length (filter (\<lambda>t. rk_session_id t = sid \<and> rk_request_id t = req) (gr_tasks s))"

text \<open>A change without an answer, and an action that answers a command once when it takes it, not at all when it leaves it, and at most once when it
  throws.  Request 0 is that of pushes.\<close>

definition unanswered :: "'b gateway_runtime \<Rightarrow> 'b gateway_runtime \<Rightarrow> bool" where
  "unanswered s s' \<longleftrightarrow> (\<forall>sid req. req \<noteq> 0 \<longrightarrow> answers_to sid req s' = answers_to sid req s)"

definition answered :: "session_id \<Rightarrow> nat \<Rightarrow> 'b gateway_runtime \<Rightarrow> 'b gateway_runtime \<Rightarrow> bool" where
  "answered sid0 req0 s s' \<longleftrightarrow>
     (\<forall>sid req. req \<noteq> 0 \<longrightarrow> answers_to sid req s' = answers_to sid req s + (if sid = sid0 \<and> req = req0 then 1 else 0))"

definition answers_once :: "gateway_command \<Rightarrow> 'b gateway_runtime \<Rightarrow> 'b outcome \<Rightarrow> bool" where
  "answers_once cmd s out \<longleftrightarrow>
     (case out of
        (Inr True, s') \<Rightarrow> answered (gc_session_id cmd) (gc_request_id cmd) s s'
      | (Inr False, s') \<Rightarrow> unanswered s s'
      | (Inl _, s') \<Rightarrow> unanswered s s' \<or> answered (gc_session_id cmd) (gc_request_id cmd) s s')"

named_theorems answer_rules

lemma quiet_refl [simp, answer_rules]: "unanswered s s"
  by (simp add: unanswered_def)

lemma quiet_trans: "unanswered s s1 \<Longrightarrow> unanswered s1 s2 \<Longrightarrow> unanswered s s2"
  by (simp add: unanswered_def)

lemma quiet_answered: "unanswered s s1 \<Longrightarrow> answered a r s1 s2 \<Longrightarrow> answered a r s s2"
  "answered a r s s1 \<Longrightarrow> unanswered s1 s2 \<Longrightarrow> answered a r s s2"
  by (simp_all add: unanswered_def answered_def)

lemma quiet_same: "gr_out s' = gr_out s \<Longrightarrow> gr_tasks s' = gr_tasks s \<Longrightarrow> unanswered s s'"
  by (simp add: unanswered_def answers_to_def)

lemma unanswered_fields [simp]:
  "unanswered s (on_lookup f s)" "unanswered s (set_session_role sid r s)" "unanswered s (track_battle room b s)" "unanswered s (forget_battle room s)"
  "unanswered s (enable_offload env s)" "unanswered s (snd (call_backend env svc ty p k s))"
  by (auto intro!: quiet_same simp: on_lookup_def set_session_role_def track_battle_def forget_battle_def enable_offload_def call_backend_def
      split: prod.splits)

lemma quiet_push [simp]: "unanswered s (gw_emit m sid 0 c b s)"
  by (simp add: unanswered_def answers_to_def gw_emit_def)

lemma quiet_fold: "(\<And>x s. unanswered s (f x s)) \<Longrightarrow> unanswered s (fold f xs s)"
  by (induction xs arbitrary: s) (auto intro: quiet_trans)

lemma quiet_broadcast [simp]: "unanswered s (gw_broadcast_to_room room m b s)"
  by (simp add: gw_broadcast_to_room_def quiet_fold)

lemma answered_emit: "answered sid req s (gw_emit m sid req c b s)"
  by (auto simp: answered_def answers_to_def gw_emit_def)

text \<open>An action is continued after changes without an answer.\<close>

lemma answers_once_after:
  assumes "unanswered s s1" "answers_once cmd s1 out"
  shows "answers_once cmd s out"
  using assms
  by (auto simp: answers_once_def split: prod.splits sum.splits bool.splits intro: quiet_trans quiet_answered)

lemma answers_respond [answer_rules]: "answers_once cmd s (respond cmd m c b s)"
  by (simp add: answers_once_def respond_def answered_emit)

lemma answers_refuse [answer_rules]: "answers_once cmd s (refuse cmd c b s)"
  by (simp add: refuse_def answers_respond)

lemma answers_not_taken [answer_rules]: "answers_once cmd s (Inr False, s)"
  by (simp add: answers_once_def)

lemma answers_reading [answer_rules]:
  "(\<And>x. answers_once cmd s (k x s)) \<Longrightarrow> answers_once cmd s (reading Inl r k s)"
  by (cases r) (simp_all add: answers_once_def)

lemma answers_on_answer [answer_rules]:
  assumes "\<And>resp. answers_once cmd s (ok resp s)" "\<And>reason. answers_once cmd s (bad reason s)"
  shows "answers_once cmd s (on_answer env r fallback ok bad s)"
  unfolding on_answer_def using assms
  by (auto intro!: answers_reading split: option.splits)

lemma answers_call:
  assumes "\<And>r s1. unanswered s s1 \<Longrightarrow> answers_once cmd s1 (k r s1)"
  shows "answers_once cmd s (case call_backend env svc ty p key s of (r, s1) \<Rightarrow> k r s1)"
proof (cases "call_backend env svc ty p key s")
  case (Pair r s1)
  then have "unanswered s s1" using unanswered_fields(6) [of s env svc ty p key] by simp
  with assms [OF this] show ?thesis using Pair by (simp add: answers_once_after)
qed

lemma answers_with_schema [answer_rules]:
  "(\<And>p. answers_once cmd s (k p s)) \<Longrightarrow> answers_once cmd s (with_schema env cmd ty doc k s)"
  by (auto simp: with_schema_def answers_refuse intro!: answers_reading split: option.splits)

lemma answers_bridge_route [answer_rules]:
  assumes "\<And>resp s. answers_once cmd s (ok resp s)" "\<And>reason s. answers_once cmd s (bad reason s)"
  shows "answers_once cmd s (bridge_route env svc ty p ok bad s)"
  unfolding bridge_route_def Let_def
  by (rule answers_call) (auto intro!: answer_rules assms)

lemma answers_forward [answer_rules]: "answers_once cmd s (forward_answer env cmd svc ty p m c fb s)"
  unfolding forward_answer_def Let_def
  by (rule answers_call) (auto intro!: answer_rules)

lemma answers_forward_doc [answer_rules]: "answers_once cmd s (forward_doc env cmd svc ty doc m c fb s)"
  unfolding forward_doc_def by (intro answer_rules)

text \<open>A loop over pushes answers nothing when its action answers nothing.\<close>

definition quiet_act :: "(string \<Rightarrow> json \<Rightarrow> 'b gateway_runtime \<Rightarrow> 'b outcome) \<Rightarrow> bool" where
  "quiet_act act \<longleftrightarrow> (\<forall>kind p s. unanswered s (snd (act kind p s)) \<and> fst (act kind p s) \<noteq> Inr False)"

lemma for_pushes_quiet:
  assumes "quiet_act act"
  shows "unanswered s (snd (for_pushes act ps s)) \<and> fst (for_pushes act ps s) \<noteq> Inr False"
proof (induction ps arbitrary: s)
  case (Cons p ps)
  show ?case
  proof (cases "value_or get_string p ''kind'' []")
    case (Inr kind)
    have q: "unanswered s (snd (act kind p s))" using assms by (simp add: quiet_act_def)
    show ?thesis
      using Inr q Cons.IH [of "snd (act kind p s)"]
      by (auto split: prod.splits sum.splits intro: quiet_trans)
  qed simp
qed simp

text \<open>An outcome that answers nothing; such actions never leave their command to the caller.\<close>

definition quiet_out :: "'b gateway_runtime \<Rightarrow> 'b outcome \<Rightarrow> bool" where
  "quiet_out s out \<longleftrightarrow> unanswered s (snd out) \<and> fst out \<noteq> Inr False"

lemma answers_then_quiet:
  assumes "quiet_out s1 out" "answered (gc_session_id cmd) (gc_request_id cmd) s s1"
  shows "answers_once cmd s out"
  using assms by (auto simp: answers_once_def quiet_out_def split: prod.splits sum.splits bool.splits intro: quiet_answered)

lemma answers_then_pushes:
  assumes "quiet_act act" "answered (gc_session_id cmd) (gc_request_id cmd) s s1"
  shows "answers_once cmd s (for_pushes act ps s1)"
  using for_pushes_quiet [OF assms(1), of s1 ps] assms(2) by (intro answers_then_quiet) (simp_all add: quiet_out_def)

lemmas quiet_steps =
  quiet_trans [OF _ unanswered_fields(1)] quiet_trans [OF _ unanswered_fields(2)] quiet_trans [OF _ unanswered_fields(3)] quiet_trans [OF _ unanswered_fields(4)]
  quiet_trans [OF _ unanswered_fields(5)] quiet_trans [OF _ unanswered_fields(6)] quiet_trans [OF _ quiet_push] quiet_trans [OF _ quiet_broadcast]

lemma quiet_kick [simp]: "unanswered s (gw_kick_old_session u s)"
proof (cases "session_for_user u (gr_lookup s)")
  case (Some old)
  then show ?thesis by (auto simp: gw_kick_old_session_def intro!: quiet_steps)
qed (simp add: gw_kick_old_session_def)

lemma answers_login [answer_rules]: "answers_once cmd s (login_accepted cmd u resp s)"
proof -
  have "answers_once cmd s (respond cmd m c b (on_lookup f (if d then gw_kick_old_session u (set_session_role sid ro s) else set_session_role sid ro s)))"
    for m c b f d sid ro
    by (rule answers_once_after [OF _ answers_respond]) (auto intro!: quiet_steps quiet_trans [OF _ quiet_kick])
  then show ?thesis unfolding login_accepted_def Let_def by (intro answers_reading) simp
qed

lemma answers_refuse_failed [answer_rules]: "answers_once cmd s (refuse_failed env cmd r c t s)"
  unfolding refuse_failed_def by (intro answer_rules)

lemma answers_respond_lookup [answer_rules]: "answers_once cmd s (respond cmd m c b (on_lookup f s))"
  by (rule answers_once_after [OF _ answers_respond]) simp

lemma quiet_out_reading: "(\<And>x. quiet_out s (k x s)) \<Longrightarrow> quiet_out s (reading Inl r k s)"
  by (cases r) (simp_all add: quiet_out_def)

lemma quiet_out_after: "unanswered s s1 \<Longrightarrow> quiet_out s1 out \<Longrightarrow> quiet_out s out"
  by (auto simp: quiet_out_def intro: quiet_trans)

lemma quiet_out_then:
  assumes "quiet_out s out" "\<And>s1. quiet_out s1 (k s1)"
  shows "quiet_out s (case out of (Inl e, s1) \<Rightarrow> (Inl e, s1) | (Inr _, s1) \<Rightarrow> k s1)"
  using assms by (cases out; cases "fst out") (auto simp: quiet_out_def intro: quiet_trans)

lemma quiet_out_each: "(\<And>x s. quiet_out s (act x s)) \<Longrightarrow> quiet_out s (each_in_turn act xs s)"
  by (induction xs arbitrary: s) (simp_all add: quiet_out_then, simp add: quiet_out_def)

lemma quiet_keys: "unanswered s (s\<lparr>gr_settlement_keys := ks\<rparr>)"
  by (simp add: quiet_same)

lemma quiet_submit_score: "quiet_out s (submit_score env b r why sc s)"
proof -
  have sent: "quiet_out s1 (case call_backend env svc ty p k s1 of
      (res, s2) \<Rightarrow> (Inr True, if rr_success res then s2 else s2\<lparr>gr_settlement_keys := gr_settlement_keys s2 - {key}\<rparr>))" for s1 svc ty p k key
    using unanswered_fields(6) [of s1 env svc ty p k]
    by (cases "call_backend env svc ty p k s1") (auto simp del: unanswered_fields simp: quiet_out_def intro: quiet_trans [OF _ quiet_keys])
  have "quiet_out s (reading Inl d k (s\<lparr>gr_settlement_keys := ks\<rparr>))" if "\<And>x s1. quiet_out s1 (k x s1)" for d k ks
    by (rule quiet_out_after [OF quiet_keys]) (rule quiet_out_reading, rule that)
  note taken = this
  have "quiet_out s (Inr True, s)" by (simp add: quiet_out_def)
  then show ?thesis unfolding submit_score_def Let_def by (auto intro!: taken sent)
qed

lemma quiet_submit_settlement: "quiet_out s (submit_settlement env b r why scs s)"
  by (simp add: submit_settlement_def quiet_out_each quiet_submit_score) (simp add: quiet_out_def)

lemma quiet_submit_push: "quiet_out s (submit_finished_push env p r s)"
proof -
  have "quiet_out s (Inr True, s)" by (simp add: quiet_out_def)
  then show ?thesis
    unfolding submit_finished_push_def
    by (auto intro!: quiet_out_reading quiet_submit_settlement split: option.splits json.splits)
qed

lemma quiet_broadcast_push: "quiet_out s (broadcast_push env r p s)"
  unfolding broadcast_push_def by (rule quiet_out_reading) (simp add: quiet_out_def)

lemma quiet_frame_push: "quiet_out s (frame_push env r p s)"
proof -
  have "unanswered s (snd (should_emit_battle_frame_push env r n s))" for n
    by (rule quiet_same) (simp_all add: should_emit_battle_frame_push_def Let_def)
  then have "unanswered s s1" if "should_emit_battle_frame_push env r n s = (sent, s1)" for n sent s1
    using that by (metis snd_conv)
  then have "quiet_out s (case should_emit_battle_frame_push env r n s of (sent, s1) \<Rightarrow> if sent then broadcast_push env r p s1 else (Inr True, s1))" for n
    by (auto split: prod.splits intro: quiet_out_after [OF _ quiet_broadcast_push]) (simp add: quiet_out_def)
  then show ?thesis unfolding frame_push_def by (rule quiet_out_reading)
qed

lemma quiet_finished_push: "quiet_out s (finished_push env r p s)"
  unfolding finished_push_def by (rule quiet_out_then [OF quiet_submit_push quiet_broadcast_push])

lemmas quiet_pushes = quiet_frame_push [unfolded quiet_out_def] quiet_finished_push [unfolded quiet_out_def] quiet_broadcast_push [unfolded quiet_out_def]

lemma quiet_acts:
  "quiet_act (\<lambda>kind p s. (Inr True, if kind = k then gw_broadcast_to_room r m b s else s))"
  "quiet_act (\<lambda>kind p s. if kind = k then finished_push env r p s else (Inr True, s))"
  "quiet_act (offloaded_push env r)"
  by (simp_all add: quiet_act_def offloaded_push_def quiet_pushes)

lemma quiet_direct: "quiet_act (direct_push env r)"
  unfolding quiet_act_def
proof (intro allI)
  fix kind p and s :: "'a gateway_runtime"
  show "unanswered s (snd (direct_push env r kind p s)) \<and> fst (direct_push env r kind p s) \<noteq> Inr False"
    using quiet_frame_push [of s env r p] quiet_finished_push [of s env r p]
    by (auto simp: direct_push_def quiet_out_def split: prod.splits sum.splits intro!: quiet_steps)
qed

lemma answers_created [answer_rules]: "answers_once cmd s (battle_created cmd r resp s)"
  unfolding battle_created_def
  by (intro answers_reading answers_then_pushes quiet_acts)
    (simp add: respond_def quiet_answered(1) [OF unanswered_fields(3) answered_emit])

lemma answers_forward_battle [answer_rules]: "answers_once cmd s (forward_battle env cmd r fwd s)"
  unfolding forward_battle_def Let_def
  by (intro answers_reading) (auto intro!: answer_rules answers_call split: option.splits)

lemma answers_route_input: "quiet_act act \<Longrightarrow> answers_once cmd s (route_battle_input env act cmd p s)"
  unfolding route_battle_input_def Let_def
  by (rule answers_call) (auto intro!: answer_rules answers_then_pushes simp: respond_def answered_emit)

lemma quiet_battle_ended: "quiet_out s (battle_ended env r b s)"
  unfolding battle_ended_def by (rule quiet_out_reading) (auto simp: quiet_out_def intro!: quiet_steps)

lemma answers_finish_request [answer_rules]: "answers_once cmd s (finish_request env cmd why u r s)"
proof -
  let ?act = "\<lambda>kind p s. if kind = ''battle_finished'' then finished_push env r p s else (Inr True, s)"
  have "quiet_out s2 (case for_pushes ?act ps s2 of (Inl e, s2) \<Rightarrow> (Inl e, s2) | (Inr _, s2) \<Rightarrow> battle_ended env r b s2)" for s2 ps b
    using for_pushes_quiet [OF quiet_acts(2), of s2] by (intro quiet_out_then quiet_battle_ended) (simp add: quiet_out_def)
  then have pushed: "answers_once cmd s1 (case for_pushes ?act ps (snd (respond cmd m c t s1)) of (Inl e, s2) \<Rightarrow> (Inl e, s2) | (Inr _, s2) \<Rightarrow> battle_ended env r b s2)"
    for s1 ps m c t b
    by (rule answers_then_quiet) (simp add: respond_def answered_emit)
  show ?thesis
    unfolding finish_request_def Let_def
    by (intro answers_reading answers_call) (auto intro!: answer_rules pushed split: option.splits)
qed

lemma answers_input [answer_rules]: "answers_once cmd s (gw_battle_input env cmd s)"
proof -
  have task: "answers_once cmd s1 (Inr True, s1\<lparr>gr_tasks := gr_tasks s1 @
      [\<lparr>rk_session_id = gc_session_id cmd, rk_request_id = gc_request_id cmd, rk_room_id = r, rk_payload = p\<rparr>]\<rparr>)"
    for s1 :: "'a gateway_runtime" and r p
    by (auto simp: answers_once_def answered_def unanswered_def answers_to_def)
  have direct: "answers_once cmd s1 (route_battle_input env (direct_push env r) cmd p s1)" for r p s1
    by (rule answers_route_input [OF quiet_direct])
  show ?thesis
    unfolding gw_battle_input_def Let_def
    by (auto intro!: answer_rules task direct answers_once_after [OF unanswered_fields(5), OF answers_reading] split: option.splits)
qed

lemma answers_match [answer_rules]: "answers_once cmd s (gw_match env cmd ty doc invalid m s)"
  unfolding gw_match_def gw_bridged_def Let_def by (auto intro!: answer_rules split: option.splits)

lemma answers_handlers [answer_rules]:
  "answers_once cmd s (gw_login env cmd s)"
  "answers_once cmd s (gw_register env cmd s)"
  "answers_once cmd s (gw_room_create env cmd s)"
  "answers_once cmd s (gw_room_join env cmd s)"
  "answers_once cmd s (gw_room_ready env cmd s)"
  "answers_once cmd s (gw_room_leave env cmd s)"
  "answers_once cmd s (gw_room_list env cmd s)"
  "answers_once cmd s (gw_room_detail env cmd s)"
  "answers_once cmd s (gw_battle_start env cmd s)"
  "answers_once cmd s (gw_battle_state env cmd s)"
  "answers_once cmd s (gw_replay_load env cmd s)"
  "answers_once cmd s (gw_leaderboard_submit env cmd s)"
  "answers_once cmd s (gw_leaderboard_top env cmd s)"
  "answers_once cmd s (gw_leaderboard_rank env cmd s)"
  unfolding gw_login_def gw_register_def gw_room_create_def gw_room_join_def gw_room_ready_def gw_room_leave_def gw_room_list_def
    gw_room_detail_def gw_battle_start_def gw_battle_state_def gw_replay_load_def gw_leaderboard_submit_def gw_leaderboard_top_def gw_leaderboard_rank_def
    gw_bridged_def Let_def
  by (auto intro!: answer_rules answers_call split: option.splits)

lemma answers_member_request [answer_rules]: "answers_once cmd s (gw_member_request env cmd ty f m fb s)"
  unfolding gw_member_request_def Let_def by (auto intro!: answer_rules)

lemma answers_handle: "answers_once cmd s (handle env cmd s)"
  unfolding handle_def
  by (cases "gc_type cmd")
    (auto simp: gw_room_kick_def gw_room_transfer_owner_def gw_match_join_def gw_match_leave_def gw_match_status_def intro!: answer_rules)

lemma answered_not_taken: "answered (ce_session_id e) (ce_request_id e) s (emit_response e m c b s)"
  by (auto simp: answered_def answers_to_def emit_response_def)

lemma answered_not_taken': "answered (ce_session_id e) (ce_request_id e) s (not_taken e cmd s)"
  by (auto simp: not_taken_def emit_error_def answered_not_taken split: option.splits)

lemma answers_message:
  assumes "fst (gateway_on_message env limit e s) = Inr x"
  shows "answered (ce_session_id e) (ce_request_id e) s (snd (gateway_on_message env limit e s))"
proof (cases "limit = None \<and> (\<exists>cmd. to_command e = Some cmd \<and> gc_type cmd \<notin> {CmdHeartbeat, CmdEcho}
    \<and> (is_public_message (ce_message_id e) \<or> user_id_for (ce_session_id e) (gr_lookup s) \<noteq> []))")
  case False
  then show ?thesis
    by (cases limit; cases "to_command e") (auto simp: gateway_on_message_def emit_error_def answered_not_taken)
next
  case True
  then obtain cmd where cmd: "limit = None" "to_command e = Some cmd" "gc_type cmd \<notin> {CmdHeartbeat, CmdEcho}"
    "is_public_message (ce_message_id e) \<or> user_id_for (ce_session_id e) (gr_lookup s) \<noteq> []" by blast
  then have same: "gc_session_id cmd = ce_session_id e" "gc_request_id cmd = ce_request_id e"
    by (auto simp: to_command_def split: option.splits)
  show ?thesis
    using answers_handle [of cmd s env] assms cmd
    by (auto simp: gateway_on_message_def answers_once_def same split: prod.splits sum.splits bool.splits
        intro: quiet_answered(1) [OF _ answered_not_taken'])
qed

text \<open>A handler that throws has answered its packet at most once.\<close>

lemma answers_message_throws:
  assumes "fst (gateway_on_message env limit e s) = Inl x"
  shows "unanswered s (snd (gateway_on_message env limit e s)) \<or> answered (ce_session_id e) (ce_request_id e) s (snd (gateway_on_message env limit e s))"
proof -
  obtain cmd where "to_command e = Some cmd" "handle env cmd s = (Inl x, snd (gateway_on_message env limit e s))"
    using assms by (auto simp: gateway_on_message_def split: option.splits if_splits prod.splits sum.splits bool.splits)
  moreover from this have "gc_session_id cmd = ce_session_id e" "gc_request_id cmd = ce_request_id e"
    by (auto simp: to_command_def split: option.splits)
  ultimately show ?thesis using answers_handle [of cmd s env] by (simp add: answers_once_def)
qed

lemma route_input_taken: "quiet_act act \<Longrightarrow> fst (route_battle_input env act cmd p s) \<noteq> Inr False"
  using for_pushes_quiet [of act]
  by (auto simp: route_battle_input_def on_answer_def reading_def refuse_def respond_def Let_def split: prod.splits option.splits sum.splits)

text \<open>A worker that runs a waiting battle input without an exception turns it into the one answer it stands for.\<close>

lemma worker_answers_input:
  assumes "gr_tasks s = t # ts" "fst (worker_step env s) = Inr x" "req \<noteq> 0"
  shows "answers_to sid req (snd (worker_step env s)) = answers_to sid req s"
proof -
  let ?s = "s\<lparr>gr_tasks := ts\<rparr>"
  have out: "worker_step env s = run_route_task env t ?s" using assms(1) by (simp add: worker_step_def)
  have "answers_once (task_command t) ?s (run_route_task env t ?s)" "fst (run_route_task env t ?s) \<noteq> Inr False"
    unfolding run_route_task_def by (rule answers_route_input [OF quiet_acts(3)], rule route_input_taken [OF quiet_acts(3)])
  then have "answered (rk_session_id t) (rk_request_id t) ?s (snd (run_route_task env t ?s))"
    using assms(2) by (auto simp: out answers_once_def task_command_def split: prod.splits sum.splits bool.splits)
  then show ?thesis using assms(1,3) by (simp add: out answered_def answers_to_def)
qed

lemma quiet_closed: "unanswered s (snd (on_session_closed env sid s))"
proof -
  have erased: "unanswered s (on_lookup f (s1\<lparr>gr_roles := ro\<rparr>))" if "unanswered s s1" for f ro s1
    using that by (rule quiet_trans) (simp add: quiet_same on_lookup_def)
  show ?thesis unfolding on_session_closed_def Let_def
    by (cases "gv_dump env (JObject (user_room_doc (user_id_for sid (gr_lookup s)) (room_id_for sid (gr_lookup s))))")
      (auto intro: erased)
qed

end
