(* ===== verification/Gateway_Safety.thy ===== *)
theory Gateway_Safety
  imports Gateway_Runtime "HOL-Library.Countable"
begin

text \<open>
  What the gateway runtime of \<^verbatim>\<open>Gateway_Runtime\<close> keeps over any sequence of packets, closed sessions and
  steps of its worker threads.  The locale \<open>runtime_property\<close> collects the elementary changes a property has
  to survive and carries it through every handler; it is interpreted for the room tables, for the scores
  that settlements submit, and for the tables of battles.
\<close>

subsection \<open>Properties that every step keeps\<close>

text \<open>What a property has to survive for the worker threads: writes to clients, requests to the services other than the leaderboard, and the table
  of the frames sent.\<close>

locale push_property =
  fixes env :: "'b gateway_env" and P :: "'b gateway_runtime \<Rightarrow> bool"
  assumes emit_keeps: "P s \<Longrightarrow> P (gw_emit m sid rq c b s)"
    and service_call_keeps: "P s \<Longrightarrow> svc \<noteq> SvcLeaderboard \<Longrightarrow> P (snd (call_backend env svc ty p key s))"
    and frame_keeps: "P s \<Longrightarrow> P (s\<lparr>gr_last_frame := lf\<rparr>)" "P s \<Longrightarrow> P (s\<lparr>gr_push_every := n\<rparr>)"
begin

lemma fold_keeps: "(\<And>x s. P s \<Longrightarrow> P (f x s)) \<Longrightarrow> P s \<Longrightarrow> P (fold f xs s)"
  by (induction xs arbitrary: s) auto

lemma push_keeps:
  "P s \<Longrightarrow> P (gw_broadcast_to_room room m b s)" "P s \<Longrightarrow> P (snd (should_emit_battle_frame_push env r n s))"
  by (auto simp: gw_broadcast_to_room_def should_emit_battle_frame_push_def Let_def intro!: fold_keeps emit_keeps frame_keeps)

lemma outcome_keeps:
  "P s \<Longrightarrow> P (snd (respond cmd m c b s))" "P s \<Longrightarrow> P (snd (refuse cmd c b s))" "P s \<Longrightarrow> P (snd (x, s))"
  by (simp_all add: refuse_def respond_def emit_keeps)

lemma reading_keeps_P: "P s \<Longrightarrow> (\<And>x. P (snd (k x s))) \<Longrightarrow> P (snd (reading Inl r k s))"
  by (cases r) simp_all

lemma answer_keeps:
  assumes "P s" "\<And>resp. P (snd (ok resp s))" "\<And>reason. P (snd (bad reason s))"
  shows "P (snd (on_answer env r fallback ok bad s))"
  unfolding on_answer_def using assms by (auto intro!: reading_keeps_P split: option.splits)

lemma service_keeps:
  assumes "P s" "svc \<noteq> SvcLeaderboard" "\<And>r s1. P s1 \<Longrightarrow> P (snd (k r s1))"
  shows "P (snd (case call_backend env svc ty p key s of (r, s1) \<Rightarrow> k r s1))"
  using service_call_keeps [OF assms(1,2), of ty p key] assms(3) by (auto split: prod.splits dest: arg_cong [where f = snd])

lemma pushes_keep:
  assumes "\<And>kind p s. P s \<Longrightarrow> P (snd (act kind p s))" "P s"
  shows "P (snd (for_pushes act ps s))"
  using assms(2)
proof (induction ps arbitrary: s)
  case (Cons p ps)
  show ?case
  proof (cases "value_or get_string p ''kind'' []")
    case (Inr kind)
    then show ?thesis
      using assms(1) [OF Cons.prems, of kind p] Cons.IH by (cases "act kind p s"; cases "fst (act kind p s)") simp_all
  qed (use Cons.prems in simp)
qed simp

lemma broadcast_push_keeps: "P s \<Longrightarrow> P (snd (broadcast_push env r p s))"
  unfolding broadcast_push_def by (rule reading_keeps_P) (simp_all add: push_keeps)

lemma frame_push_keeps:
  assumes "P s"
  shows "P (snd (frame_push env r p s))"
proof -
  have "P s1" if "should_emit_battle_frame_push env r n s = (sent, s1)" for n sent s1
    using push_keeps(2) [OF assms, of r n] that by simp
  then show ?thesis
    unfolding frame_push_def by (auto intro!: reading_keeps_P assms broadcast_push_keeps split: prod.splits)
qed

lemma offloaded_keeps: "P s \<Longrightarrow> P (snd (offloaded_push env r kind p s))"
  by (simp add: offloaded_push_def frame_push_keeps broadcast_push_keeps)

lemma route_input_keeps:
  "(\<And>kind p s. P s \<Longrightarrow> P (snd (act kind p s))) \<Longrightarrow> P s \<Longrightarrow> P (snd (route_battle_input env act cmd p s))"
  unfolding route_battle_input_def Let_def
  by (rule service_keeps) (auto intro!: outcome_keeps answer_keeps reading_keeps_P pushes_keep)

lemma route_task_keeps: "P s \<Longrightarrow> P (snd (run_route_task env t s))"
  unfolding run_route_task_def by (intro route_input_keeps offloaded_keeps)

end

text \<open>For packets and closed sessions there are besides: the answers of the actor, requests for clients, which have no routing key when they go to the
  leaderboard, the submission of one score, and the tables of sessions and battles.\<close>

locale runtime_property = push_property +
  assumes response_keeps: "P s \<Longrightarrow> P (emit_response e m c b s)"
    and client_call_keeps: "P s \<Longrightarrow> P (snd (call_backend env svc ty p [] s))"
    and score_keeps: "P s \<Longrightarrow> P (snd (submit_score env b r why sc s))"
    and user_keeps: "P s \<Longrightarrow> P (on_lookup (set_session_user sid u) s)" "P s \<Longrightarrow> P (on_lookup (erase_session_user sid) s)"
    and room_keeps: "P s \<Longrightarrow> P (on_lookup (set_session_room sid r) s)" "P s \<Longrightarrow> P (on_lookup (erase_session_room sid) s)"
      "P s \<Longrightarrow> P (on_lookup (erase_session sid) s)"
    and table_keeps: "P s \<Longrightarrow> P (s\<lparr>gr_roles := ro\<rparr>)" "P s \<Longrightarrow> P (track_battle r bi s)" "P s \<Longrightarrow> P (forget_battle r s)"
      "P s \<Longrightarrow> P (enable_offload env s)" "P s \<Longrightarrow> P (s\<lparr>gr_tasks := ts\<rparr>)"
begin

lemma step_keeps:
  "P s \<Longrightarrow> P (set_session_role sid ro s)" "P s \<Longrightarrow> P (gw_kick_old_session u s)"
  "P s \<Longrightarrow> P (not_taken e cmd s)" "P s \<Longrightarrow> P (emit_error e c b s)"
  by (auto simp: set_session_role_def gw_kick_old_session_def not_taken_def emit_error_def
      intro!: emit_keeps response_keeps user_keeps table_keeps split: option.splits)

lemma each_keeps: "(\<And>x s. P s \<Longrightarrow> P (snd (act x s))) \<Longrightarrow> P s \<Longrightarrow> P (snd (each_in_turn act xs s))"
proof (induction xs arbitrary: s)
  case (Cons x xs)
  have "P (snd (act x s))" by (rule Cons.prems(1) [OF Cons.prems(2)])
  then show ?case using Cons.IH [OF Cons.prems(1)] by (auto split: prod.splits sum.splits)
qed simp

lemma settlement_keeps: "P s \<Longrightarrow> P (snd (submit_settlement env b r why scs s))"
  by (simp add: submit_settlement_def each_keeps score_keeps)

lemma backend_keeps:
  assumes "P s" "svc \<noteq> SvcLeaderboard \<or> key = []" "\<And>r s1. P s1 \<Longrightarrow> P (snd (k r s1))"
  shows "P (snd (case call_backend env svc ty p key s of (r, s1) \<Rightarrow> k r s1))"
  using service_call_keeps [OF assms(1), of svc ty p key] client_call_keeps [OF assms(1), of svc ty p] assms(2,3)
  by (auto split: prod.splits dest: arg_cong [where f = snd])

lemmas handler_keeps = outcome_keeps reading_keeps_P answer_keeps push_keeps step_keeps emit_keeps user_keeps room_keeps table_keeps

lemma schema_keeps: "P s \<Longrightarrow> (\<And>p. P (snd (k p s))) \<Longrightarrow> P (snd (with_schema env cmd ty doc k s))"
  by (auto simp: with_schema_def intro!: reading_keeps_P outcome_keeps split: option.splits)

lemma bridge_keeps:
  assumes "P s" "\<And>resp s. P s \<Longrightarrow> P (snd (ok resp s))" "\<And>reason s. P s \<Longrightarrow> P (snd (bad reason s))"
  shows "P (snd (bridge_route env svc ty p ok bad s))"
  unfolding bridge_route_def Let_def using assms(1)
  by (rule backend_keeps) (auto intro!: handler_keeps assms(2,3))

lemma forward_keeps: "P s \<Longrightarrow> P (snd (forward_answer env cmd svc ty p m c fb s))"
  unfolding forward_answer_def Let_def by (rule backend_keeps) (auto intro!: handler_keeps)

lemma forward_doc_keeps: "P s \<Longrightarrow> P (snd (forward_doc env cmd svc ty doc m c fb s))"
  unfolding forward_doc_def by (intro reading_keeps_P forward_keeps)

lemma submit_push_keeps: "P s \<Longrightarrow> P (snd (submit_finished_push env p r s))"
  unfolding submit_finished_push_def by (auto intro!: handler_keeps settlement_keeps split: option.splits json.splits)

lemma finished_push_keeps: "P s \<Longrightarrow> P (snd (finished_push env r p s))"
  using submit_push_keeps [of s p r]
  by (cases "submit_finished_push env p r s"; cases "fst (submit_finished_push env p r s)") (simp_all add: finished_push_def broadcast_push_keeps)

lemma direct_keeps: "P s \<Longrightarrow> P (snd (direct_push env r kind p s))"
  using finished_push_keeps [of s r p]
  by (auto simp: direct_push_def frame_push_keeps table_keeps split: prod.splits sum.splits)

lemma created_keeps: "P s \<Longrightarrow> P (snd (battle_created cmd r resp s))"
  unfolding battle_created_def by (auto intro!: reading_keeps_P pushes_keep simp: handler_keeps)

lemma forward_battle_keeps: "P s \<Longrightarrow> P (snd (forward_battle env cmd r fwd s))"
  unfolding forward_battle_def Let_def
  by (auto intro!: reading_keeps_P backend_keeps outcome_keeps created_keeps split: option.splits)

lemma battle_ended_keeps: "P s \<Longrightarrow> P (snd (battle_ended env r b s))"
  unfolding battle_ended_def by (auto intro!: reading_keeps_P table_keeps service_call_keeps)

lemma finish_request_keeps:
  assumes "P s"
  shows "P (snd (finish_request env cmd why u r s))"
proof -
  let ?act = "\<lambda>kind p s. if kind = ''battle_finished'' then finished_push env r p s else (Inr True, s)"
  have ended: "P (snd (case for_pushes ?act ps s1 of (Inl e, s2) \<Rightarrow> (Inl e, s2)
      | (Inr _, s2) \<Rightarrow> battle_ended env r b s2))" if "P s1" for ps s1 b
    using pushes_keep [of ?act s1 ps] that finished_push_keeps
    by (cases "for_pushes ?act ps s1"; cases "fst (for_pushes ?act ps s1)") (auto intro!: battle_ended_keeps)
  show ?thesis
    unfolding finish_request_def Let_def using assms
    by (intro reading_keeps_P backend_keeps) (auto intro!: reading_keeps_P outcome_keeps ended split: option.splits)
qed

lemma battle_input_keeps: "P s \<Longrightarrow> P (snd (gw_battle_input env cmd s))"
  unfolding gw_battle_input_def Let_def
  by (auto intro!: outcome_keeps finish_request_keeps reading_keeps_P route_input_keeps direct_keeps table_keeps split: option.splits)

lemma login_keeps: "P s \<Longrightarrow> P (snd (login_accepted cmd u resp s))"
  unfolding login_accepted_def Let_def by (auto intro!: reading_keeps_P handler_keeps)

lemma handlers_keep:
  assumes "P s"
  shows "P (snd (gw_login env cmd s))" "P (snd (gw_register env cmd s))" "P (snd (gw_room_create env cmd s))" "P (snd (gw_room_join env cmd s))"
    "P (snd (gw_room_ready env cmd s))" "P (snd (gw_room_leave env cmd s))" "P (snd (gw_room_list env cmd s))" "P (snd (gw_room_detail env cmd s))"
    "P (snd (gw_member_request env cmd ty f m fb s))" "P (snd (gw_battle_start env cmd s))" "P (snd (gw_battle_state env cmd s))" "P (snd (gw_replay_load env cmd s))"
    "P (snd (gw_match env cmd ty doc invalid m s))" "P (snd (gw_leaderboard_submit env cmd s))" "P (snd (gw_leaderboard_top env cmd s))" "P (snd (gw_leaderboard_rank env cmd s))"
  using assms
  unfolding gw_login_def gw_register_def gw_room_create_def gw_room_join_def gw_room_ready_def gw_room_leave_def gw_room_list_def gw_room_detail_def
    gw_member_request_def gw_battle_start_def gw_battle_state_def gw_replay_load_def gw_match_def gw_leaderboard_submit_def gw_leaderboard_top_def
    gw_leaderboard_rank_def gw_bridged_def refuse_failed_def Let_def
  by (auto intro!: outcome_keeps schema_keeps forward_keeps forward_doc_keeps bridge_keeps backend_keeps answer_keeps reading_keeps_P login_keeps forward_battle_keeps room_keeps
      split: option.splits)

lemma handle_keeps: "P s \<Longrightarrow> P (snd (handle env cmd s))"
  unfolding handle_def
  by (cases "gc_type cmd")
    (auto simp: handlers_keep battle_input_keeps gw_room_kick_def gw_room_transfer_owner_def gw_match_join_def gw_match_leave_def gw_match_status_def outcome_keeps)

lemma message_keeps:
  assumes "P s"
  shows "P (snd (gateway_on_message env limit e s))"
proof -
  have "P s1" if "handle env cmd s = (r, s1)" for cmd r s1
    using handle_keeps [OF assms, of cmd] that by simp
  then show ?thesis
    by (auto simp: gateway_on_message_def assms step_keeps response_keeps split: option.splits prod.splits sum.splits bool.splits)
qed

lemma runtime_step_keeps: "P s \<Longrightarrow> P (runtime_step env ev s)"
proof (cases ev)
  case (Closed sid)
  assume "P s"
  then have "P (snd (call_backend env SvcRoom ty p [] s))" for ty p by (simp add: client_call_keeps)
  with Closed \<open>P s\<close> show ?thesis
    by (auto simp: runtime_step_def runtime_outcome_def on_session_closed_def Let_def intro!: reading_keeps_P room_keeps table_keeps)
next
  case WorkerRuns
  assume "P s"
  with WorkerRuns show ?thesis
    by (auto simp: runtime_step_def runtime_outcome_def worker_step_def intro!: route_task_keeps table_keeps split: list.splits)
qed (simp add: runtime_step_def runtime_outcome_def message_keeps)

lemma run_keeps: "P s \<Longrightarrow> P (run_messages (runtime_step env) evs s)"
  by (induction evs arbitrary: s) (simp_all add: run_messages_def runtime_step_keeps)

end

subsection \<open>Broadcasts\<close>

interpretation rooms: runtime_property env "\<lambda>s. lookup_inv (gr_lookup s)" for env :: "'b gateway_env"
  by unfold_locales
    (auto simp: gw_emit_def emit_response_def on_lookup_def call_backend_def submit_score_def track_battle_def forget_battle_def enable_offload_def Let_def
      lookup_inv_users reading_def split: prod.splits sum.splits intro: lookup_inv_intros)

lemma broadcast_out:
  "gr_out (gw_broadcast_to_room room m b s) = gr_out s @
     map (\<lambda>sid. \<lparr>ce_session_id = sid, ce_message_id = m, ce_request_id = 0, ce_error_code = error_value KOk, ce_flags = 0, ce_body = b\<rparr>)
       (sessions_in_room room (gr_lookup s))"
proof -
  have "gr_out (fold (\<lambda>sid. gw_emit m sid 0 KOk b) sids s) = gr_out s @
     map (\<lambda>sid. \<lparr>ce_session_id = sid, ce_message_id = m, ce_request_id = 0, ce_error_code = error_value KOk, ce_flags = 0, ce_body = b\<rparr>) sids" for sids
    by (induction sids arbitrary: s) (simp_all add: gw_emit_def)
  then show ?thesis by (simp add: gw_broadcast_to_room_def)
qed

text \<open>C35: Whatever packets, disconnects and worker steps came before, a broadcast to a room writes one packet to each session that the gateway has in the room and none to any other session.\<close>

theorem broadcast_reaches_room:
  "\<exists>sids. gr_out (gw_broadcast_to_room room m body (run_messages (runtime_step env) evs (new_gateway_runtime b))) =
      gr_out (run_messages (runtime_step env) evs (new_gateway_runtime b)) @
      map (\<lambda>sid. \<lparr>ce_session_id = sid, ce_message_id = m, ce_request_id = 0, ce_error_code = error_value KOk, ce_flags = 0, ce_body = body\<rparr>) sids \<and>
    distinct sids \<and>
    set sids = {sid. map_of (lk_session_rooms (gr_lookup (run_messages (runtime_step env) evs (new_gateway_runtime b)))) sid = Some room}"
proof -
  have "lookup_inv (gr_lookup (run_messages (runtime_step env) evs (new_gateway_runtime b)))"
    by (rule rooms.run_keeps) (simp add: new_gateway_runtime_def lookup_inv_empty)
  then show ?thesis unfolding lookup_inv_def broadcast_out by blast
qed

subsection \<open>Scores\<close>

text \<open>The idempotency key of a successful submission that a settlement made; those that clients ask for have no routing key.\<close>

definition submitted_key :: "'b gateway_env \<Rightarrow> backend_call \<Rightarrow> string" where
  "submitted_key env c =
     (if bc_service c = SvcLeaderboard \<and> bc_key c \<noteq> [] \<and> bc_success c
      then (case gv_parse env (bc_payload c) of
              None \<Rightarrow> []
            | Some doc \<Rightarrow> (case value_or get_string doc ''idempotency_key'' [] of Inl _ \<Rightarrow> [] | Inr k \<Rightarrow> k))
      else [])"

definition settled_submissions :: "'b gateway_env \<Rightarrow> string \<Rightarrow> 'b gateway_runtime \<Rightarrow> nat" where
  "settled_submissions env k s = length (filter (\<lambda>c. submitted_key env c = k) (gr_calls s))"

definition settled_once :: "'b gateway_env \<Rightarrow> 'b gateway_runtime \<Rightarrow> bool" where
  "settled_once env s \<longleftrightarrow> (\<forall>k. k \<noteq> [] \<longrightarrow> settled_submissions env k s \<le> (if k \<in> gr_settlement_keys s then 1 else 0))"

lemma settled_once_same: "gr_calls s' = gr_calls s \<Longrightarrow> gr_settlement_keys s' = gr_settlement_keys s \<Longrightarrow> settled_once env s' = settled_once env s"
  by (simp add: settled_once_def settled_submissions_def)

lemma submitted_key_settlement:
  assumes "\<And>doc t. gv_dump env doc = Inr t \<Longrightarrow> gv_parse env t = Some doc" "gv_dump env (settlement_payload b r why sc) = Inr p"
  shows "submitted_key env \<lparr>bc_service = SvcLeaderboard, bc_type = ty, bc_payload = p, bc_key = k, bc_success = ok\<rparr> =
    (if k \<noteq> [] \<and> ok then b @ '':'' @ fst sc else [])"
  by (simp add: submitted_key_def assms(1) [OF assms(2)] settlement_payload_def value_or_def get_string_def)

lemma settled_once_score:
  assumes "\<And>doc t. gv_dump env doc = Inr t \<Longrightarrow> gv_parse env t = Some doc" "settled_once env s"
  shows "settled_once env (snd (submit_score env b r why sc s))"
  unfolding settled_once_def
proof (intro allI impI)
  fix k :: string
  assume "k \<noteq> []"
  then have "settled_submissions env k s \<le> (if k \<in> gr_settlement_keys s then 1 else 0)" using assms(2) by (simp add: settled_once_def)
  with \<open>k \<noteq> []\<close> show "settled_submissions env k (snd (submit_score env b r why sc s)) \<le>
      (if k \<in> gr_settlement_keys (snd (submit_score env b r why sc s)) then 1 else 0)"
    by (cases "gv_dump env (settlement_payload b r why sc)")
      (auto simp: settled_submissions_def submit_score_def call_backend_def Let_def submitted_key_settlement [OF assms(1)]
        split: prod.splits if_splits)
qed

lemma settled_once_call:
  assumes "settled_once env s" "svc \<noteq> SvcLeaderboard \<or> key = []"
  shows "settled_once env (snd (call_backend env svc ty p key s))"
proof -
  have "submitted_key env \<lparr>bc_service = svc, bc_type = ty, bc_payload = p, bc_key = key, bc_success = ok\<rparr> = []" for ok
    using assms(2) by (auto simp: submitted_key_def)
  then show ?thesis using assms(1) by (auto simp: settled_once_def settled_submissions_def call_backend_def split: prod.splits)
qed

lemma settled_once_fields [simp]:
  "settled_once env (gw_emit m sid rq c b s) = settled_once env s" "settled_once env (emit_response e m c b s) = settled_once env s"
  "settled_once env (on_lookup f s) = settled_once env s" "settled_once env (s\<lparr>gr_roles := ro\<rparr>) = settled_once env s"
  "settled_once env (track_battle r bi s) = settled_once env s" "settled_once env (forget_battle r s) = settled_once env s"
  "settled_once env (s\<lparr>gr_last_frame := lf\<rparr>) = settled_once env s" "settled_once env (s\<lparr>gr_push_every := n\<rparr>) = settled_once env s"
  "settled_once env (enable_offload env' s) = settled_once env s" "settled_once env (s\<lparr>gr_tasks := ts\<rparr>) = settled_once env s"
  by (rule settled_once_same; simp add: gw_emit_def emit_response_def on_lookup_def track_battle_def forget_battle_def enable_offload_def)+

lemma settled_once_runtime:
  fixes env :: "'b gateway_env"
  assumes "\<And>doc t. gv_dump env doc = Inr t \<Longrightarrow> gv_parse env t = Some doc"
  shows "runtime_property env (settled_once env)"
  by unfold_locales (simp_all add: settled_once_call settled_once_score [OF assms])

text \<open>C34: The end of a battle puts each score into the leaderboard at most once: whatever the backends answer and however often they announce the end, at most one submission of a settlement succeeds for a battle and a user.\<close>

theorem scores_submitted_once:
  assumes "\<And>doc t. gv_dump env doc = Inr t \<Longrightarrow> gv_parse env t = Some doc"
  shows "settled_submissions env (battle_id @ '':'' @ user_id) (run_messages (runtime_step env) evs (new_gateway_runtime b)) \<le> 1"
proof -
  have new: "settled_once env (new_gateway_runtime b)" by (simp add: settled_once_def settled_submissions_def new_gateway_runtime_def)
  have "runtime_property env (settled_once env)" by (rule settled_once_runtime) (rule assms)
  then have "settled_once env (run_messages (runtime_step env) evs (new_gateway_runtime b))"
    using new by (rule runtime_property.run_keeps)
  then have "settled_submissions env (battle_id @ '':'' @ user_id) (run_messages (runtime_step env) evs (new_gateway_runtime b)) \<le>
      (if battle_id @ '':'' @ user_id \<in> gr_settlement_keys (run_messages (runtime_step env) evs (new_gateway_runtime b)) then 1 else 0)"
    unfolding settled_once_def by blast
  then show ?thesis by (simp split: if_splits)
qed

text \<open>A setting for evaluations: a text stands for the document of its number, and every request has the same answer.\<close>

instance json :: countable
  by countable_datatype

definition sample_answer :: json where
  "sample_answer = JObject [(''status'', JString ''ok''), (''battle_id'', JString ''b''),
     (''forward'', JObject [(''target'', JString ''battle''), (''message_type'', JString ''battle_create''), (''payload'', JObject [])]),
     (''push_to_sessions'', JArray [JObject [(''kind'', JString ''battle_finished''), (''battle_id'', JString ''b''),
        (''scores'', JArray [JObject [(''user_id'', JString ''u''), (''score'', JInt 5)]])]])]"

definition sample_env :: "unit gateway_env" where
  "sample_env = \<lparr>gv_dump = \<lambda>doc. Inr (replicate (Suc (to_nat doc)) CHR ''a''), gv_parse = \<lambda>t. Some (from_nat (length t - 1)),
     gv_route = \<lambda>svc ty p k b. (\<lparr>rr_success = True, rr_payload = replicate (Suc (to_nat sample_answer)) CHR ''a'', rr_error = 0, rr_correlation_id = 1\<rparr>, b),
     gv_push_every = None, gv_workers = None\<rparr>"

definition sample_packet :: "nat \<Rightarrow> nat \<Rightarrow> string \<Rightarrow> runtime_event" where
  "sample_packet m rq body = Packet None \<lparr>ce_session_id = 1, ce_message_id = m, ce_request_id = rq, ce_error_code = 0, ce_flags = 0, ce_body = body\<rparr>"

definition sample_started :: "runtime_event list" where
  "sample_started = [sample_packet kLoginRequest 1 ''u|t'', sample_packet kRoomCreateRequest 2 ''r'', sample_packet kBattleStartRequest 3 []]"

definition sample_print :: "json \<Rightarrow> string" where
  "sample_print doc = replicate (Suc (to_nat doc)) CHR ''a''"

lemma sample_round_trip: "gv_dump sample_env doc = Inr (sample_print doc)" "gv_parse sample_env (sample_print doc) = Some doc"
  by (simp_all add: sample_env_def sample_print_def)

lemma sample_route: "gv_route sample_env svc ty p k b = (\<lparr>rr_success = True, rr_payload = sample_print sample_answer, rr_error = 0, rr_correlation_id = 1\<rparr>, b)"
  by (simp add: sample_env_def sample_print_def)

lemma sample_numbers: "gv_push_every sample_env = None" "gv_workers sample_env = None" "sample_print doc \<noteq> []"
  by (simp_all add: sample_env_def sample_print_def)

lemmas sample_eval = sample_round_trip sample_route sample_numbers runtime_step_def runtime_outcome_def gateway_on_message_def to_command_def command_types_def is_public_message_def
  handle_def is_session_allowed_def role_allowed_def role_messages_def player_messages_def with_schema_def schema_validate_def default_schemas_def
  user_room_fields_def field_of_def check_field_def json_type_def call_backend_def on_answer_def bridge_route_def login_accepted_def set_session_role_def role_from_string_def
  respond_def refuse_def gw_emit_def on_lookup_def user_room_doc_def value_or_def get_string_def get_bool_def json_find_def is_object_def
  user_id_for_def room_id_for_def set_session_user_def set_session_room_def erase_session_room_def sessions_in_room_def message_numbers Let_def
  parse_login_command_body_def validate_login_command_body_def getline_split.simps split_at_def parse_room_id_body_def validate_room_id_body_def
  parse_battle_start_command_body_def battle_created_def forward_battle_def answer_pushes_def loop_items_def track_battle_def gw_broadcast_to_room_def
  finished_push_def submit_finished_push_def submit_settlement_def submit_score_def get_int64_def wrap_int64_def parse_battle_input_command_body_def
  validate_battle_input_command_body_def parse_battle_finish_request_def starts_with_def finish_request_def battle_ended_def broadcast_push_def battle_id_for_room_def forget_battle_def

definition sample_finished :: "runtime_event list" where
  "sample_finished = sample_started @ [sample_packet kBattleInputRequest 4 ''finish:surrender'']"

theorem scores_submitted_once_witness:
  "settled_submissions sample_env ''b:u'' (run_messages (runtime_step sample_env) sample_finished (new_gateway_runtime ())) \<le> 1 \<and>
   settled_submissions sample_env ''b:u'' (run_messages (runtime_step sample_env) sample_finished (new_gateway_runtime ())) = 1"
proof
  show "settled_submissions sample_env ''b:u'' (run_messages (runtime_step sample_env) sample_finished (new_gateway_runtime ())) \<le> 1"
    using scores_submitted_once [of sample_env "''b''" "''u''" sample_finished "()"] by (auto simp: sample_round_trip)
  show "settled_submissions sample_env ''b:u'' (run_messages (runtime_step sample_env) sample_finished (new_gateway_runtime ())) = 1"
    by (simp add: sample_finished_def sample_started_def sample_packet_def new_gateway_runtime_def empty_lookup_def gw_login_def sample_eval sample_answer_def
        gw_room_create_def gw_battle_start_def gw_battle_input_def settled_submissions_def submitted_key_def settlement_payload_def)
qed


subsection \<open>Answers\<close>

text \<open>The packets written to a session for a request; the packets it sent with this number; those among them whose handler did not throw; and that no worker
  thread throws, which would end the process.\<close>

definition written :: "session_id \<Rightarrow> nat \<Rightarrow> 'b gateway_runtime \<Rightarrow> nat" where
  "written sid req s = length (filter (\<lambda>w. ce_session_id w = sid \<and> ce_request_id w = req) (gr_out s))"

definition asks :: "session_id \<Rightarrow> nat \<Rightarrow> runtime_event \<Rightarrow> bool" where
  "asks sid req ev = (case ev of Packet limit e \<Rightarrow> ce_session_id e = sid \<and> ce_request_id e = req | _ \<Rightarrow> False)"

definition received :: "session_id \<Rightarrow> nat \<Rightarrow> runtime_event list \<Rightarrow> nat" where
  "received sid req evs = length (filter (asks sid req) evs)"

definition completes :: "'b gateway_env \<Rightarrow> runtime_event \<Rightarrow> 'b gateway_runtime \<Rightarrow> bool" where
  "completes env ev s = (case fst (runtime_outcome env ev s) of Inl _ \<Rightarrow> False | Inr _ \<Rightarrow> True)"

fun handled :: "'b gateway_env \<Rightarrow> session_id \<Rightarrow> nat \<Rightarrow> runtime_event list \<Rightarrow> 'b gateway_runtime \<Rightarrow> nat" where
  "handled env sid req [] s = 0"
| "handled env sid req (ev # evs) s = (if asks sid req ev \<and> completes env ev s then 1 else 0) + handled env sid req evs (runtime_step env ev s)"

fun workers_complete :: "'b gateway_env \<Rightarrow> runtime_event list \<Rightarrow> 'b gateway_runtime \<Rightarrow> bool" where
  "workers_complete env [] s = True"
| "workers_complete env (ev # evs) s = ((ev = WorkerRuns \<longrightarrow> completes env ev s) \<and> workers_complete env evs (runtime_step env ev s))"

text \<open>The worker threads run until no task is left.\<close>

definition worker_runs :: "'b gateway_runtime \<Rightarrow> runtime_event list" where
  "worker_runs s = replicate (length (gr_tasks s)) WorkerRuns"

lemma packet_answers:
  assumes "req \<noteq> 0"
  shows "answers_to sid req s + (if asks sid req (Packet limit e) \<and> completes env (Packet limit e) s then 1 else 0) \<le> answers_to sid req (runtime_step env (Packet limit e) s)"
    "answers_to sid req (runtime_step env (Packet limit e) s) \<le> answers_to sid req s + (if asks sid req (Packet limit e) then 1 else 0)"
  using assms answers_message [of env limit e s] answers_message_throws [of env limit e s]
  by (cases "fst (gateway_on_message env limit e s)";
      auto simp: runtime_step_def runtime_outcome_def asks_def completes_def answered_def unanswered_def)+

lemma step_answers:
  assumes "req \<noteq> 0" "ev = WorkerRuns \<Longrightarrow> completes env ev s"
  shows "answers_to sid req s + (if asks sid req ev \<and> completes env ev s then 1 else 0) \<le> answers_to sid req (runtime_step env ev s) \<and>
    answers_to sid req (runtime_step env ev s) \<le> answers_to sid req s + (if asks sid req ev then 1 else 0)"
proof (cases ev)
  case (Packet limit e)
  then show ?thesis using packet_answers [OF assms(1)] by blast
next
  case (Closed c)
  then show ?thesis using quiet_closed [of s env c] assms(1) by (simp add: asks_def runtime_step_def runtime_outcome_def unanswered_def)
next
  case WorkerRuns
  show ?thesis
  proof (cases "gr_tasks s")
    case Nil
    then show ?thesis using WorkerRuns by (simp add: asks_def runtime_step_def runtime_outcome_def worker_step_def)
  next
    case (Cons t ts)
    obtain x where "fst (worker_step env s) = Inr x"
      using assms(2) [OF WorkerRuns] by (auto simp: WorkerRuns completes_def runtime_outcome_def split: sum.splits)
    then show ?thesis using worker_answers_input [OF Cons _ assms(1)] WorkerRuns by (simp add: asks_def runtime_step_def runtime_outcome_def)
  qed
qed

lemma run_answers:
  assumes "req \<noteq> 0" "workers_complete env evs s"
  shows "answers_to sid req s + handled env sid req evs s \<le> answers_to sid req (run_messages (runtime_step env) evs s) \<and>
    answers_to sid req (run_messages (runtime_step env) evs s) \<le> answers_to sid req s + received sid req evs"
  using assms(2)
proof (induction evs arbitrary: s)
  case (Cons ev evs)
  then have ev: "answers_to sid req s + (if asks sid req ev \<and> completes env ev s then 1 else 0) \<le> answers_to sid req (runtime_step env ev s) \<and>
      answers_to sid req (runtime_step env ev s) \<le> answers_to sid req s + (if asks sid req ev then 1 else 0)"
    by (intro step_answers [OF assms(1)]) simp
  show ?case using ev Cons.IH [of "runtime_step env ev s"] Cons.prems
    by (auto simp: run_messages_def received_def split: if_splits)
qed (simp add: run_messages_def received_def)

text \<open>A worker takes one task and adds none.\<close>

interpretation tasks: push_property env "\<lambda>s. gr_tasks s = ts" for env :: "'b gateway_env" and ts
  by unfold_locales (auto simp: gw_emit_def call_backend_def split: prod.splits)

lemma worker_takes_task: "gr_tasks (runtime_step env WorkerRuns s) = tl (gr_tasks s)"
  by (cases "gr_tasks s") (simp_all add: runtime_step_def runtime_outcome_def worker_step_def tasks.route_task_keeps)

lemma workers_drain: "gr_tasks (run_messages (runtime_step env) (replicate n WorkerRuns) s) = drop n (gr_tasks s)"
  by (induction n arbitrary: s) (simp_all add: run_messages_def worker_takes_task drop_Suc)

lemma handled_append: "handled env sid req (xs @ ys) s = handled env sid req xs s + handled env sid req ys (run_messages (runtime_step env) xs s)"
  by (induction xs arbitrary: s) (simp_all add: run_messages_def)

text \<open>C33: Whatever packets, closed sessions and worker steps there were, once the workers have taken what is queued, no task is left and a session has got, for
  every request number other than 0, at least as many answers as it sent packets with the number whose handlers did not throw, and at most as many as it sent packets
  with it: a packet whose handler does not throw is answered exactly once, by the handler or by the worker that takes its input, and one whose handler throws at most
  once.  A handler throws on an answer of a backend with a member of the wrong type, and on a text that is not UTF-8.  A worker that throws ends the process, so
  the workers do not.  Number 0 is left out because it is that of the pushes.\<close>

theorem requests_answered_once:
  assumes "req \<noteq> 0" "s = run_messages (runtime_step env) evs (new_gateway_runtime b)"
    and "workers_complete env (evs @ worker_runs s) (new_gateway_runtime b)"
    and "s' = run_messages (runtime_step env) (worker_runs s) s"
  shows "gr_tasks s' = [] \<and> handled env sid req evs (new_gateway_runtime b) \<le> written sid req s' \<and> written sid req s' \<le> received sid req evs"
proof -
  have s': "s' = run_messages (runtime_step env) (evs @ worker_runs s) (new_gateway_runtime b)" by (simp add: assms(2,4) run_messages_def)
  have none: "gr_tasks s' = []" by (simp add: assms(4) worker_runs_def workers_drain)
  have "received sid req (worker_runs s) = 0" by (simp add: received_def worker_runs_def asks_def filter_empty_conv)
  then have rec: "received sid req (evs @ worker_runs s) = received sid req evs" by (simp add: received_def)
  have "handled env sid req evs (new_gateway_runtime b) \<le> handled env sid req (evs @ worker_runs s) (new_gateway_runtime b)" by (simp add: handled_append)
  moreover have "answers_to sid req (new_gateway_runtime b) = 0" "answers_to sid req s' = written sid req s'"
    by (simp_all add: answers_to_def written_def none) (simp add: new_gateway_runtime_def)
  ultimately show ?thesis
    using run_answers [OF assms(1,3), of sid] none rec unfolding s' [symmetric] by linarith
qed

subsection \<open>The end of a battle that a worker hears of\<close>

text \<open>A room with a battle has the battle's number, and the number of workers, once it is read, is the configured one.\<close>

definition battles_named :: "'b gateway_env \<Rightarrow> 'b gateway_runtime \<Rightarrow> bool" where
  "battles_named env s \<longleftrightarrow>
     (\<forall>room. room \<in> gr_battles s \<longrightarrow> battle_id_for_room room s \<noteq> []) \<and>
     (gr_workers s = 0 \<or> gr_workers s = read_uint32_override (gv_workers env) 4)"

interpretation battles: runtime_property env "battles_named env" for env :: "'b gateway_env"
  by unfold_locales
    (auto simp: battles_named_def battle_id_for_room_def gw_emit_def emit_response_def on_lookup_def call_backend_def submit_score_def track_battle_def
      forget_battle_def enable_offload_def Let_def reading_def split: prod.splits sum.splits)

text \<open>What a settlement changes.\<close>

definition settlement_view :: "'b gateway_runtime \<Rightarrow> string set \<times> (string \<rightharpoonup> string) \<times> string set \<times> backend_call list" where
  "settlement_view s = (gr_battles s, gr_room_battle s, gr_settlement_keys s, filter (\<lambda>c. bc_service c = SvcLeaderboard) (gr_calls s))"

interpretation unsettled: push_property env "\<lambda>s. settlement_view s = v" for env :: "'b gateway_env" and v
  by unfold_locales (auto simp: settlement_view_def gw_emit_def call_backend_def split: prod.splits)

lemma worker_keeps_view: "settlement_view (snd (worker_step env s)) = settlement_view s"
proof (cases "gr_tasks s")
  case (Cons t ts)
  have "settlement_view (s\<lparr>gr_tasks := ts\<rparr>) = settlement_view s" by (simp add: settlement_view_def)
  then show ?thesis using Cons unsettled.route_task_keeps by (simp add: worker_step_def)
qed (simp add: worker_step_def)

lemma input_keeps_view:
  assumes "battles_named env s" "gv_workers env = None"
    and "parse_battle_input_command_body (gc_body cmd) = Some inp" "\<not> pi_is_finish_request inp"
  shows "settlement_view (snd (gw_battle_input env cmd s)) = settlement_view s"
proof -
  have "gr_workers (enable_offload env s) > 0" "room \<in> gr_battles s \<Longrightarrow> battle_id_for_room room s \<noteq> []" for room
    using assms(1,2) by (auto simp: battles_named_def enable_offload_def read_uint32_override_def)
  then show ?thesis
    using assms(3,4)
    by (cases "gv_dump env (battle_input_doc (user_id_for (gc_session_id cmd) (gr_lookup s))
          (battle_id_for_room (room_id_for (gc_session_id cmd) (gr_lookup s)) s) inp)")
      (auto simp: gw_battle_input_def Let_def settlement_view_def refuse_def respond_def gw_emit_def enable_offload_def)
qed

text \<open>C36: With the default number of workers the gateway does not settle a battle when the battle service announces its end in the answer to an input: in every reachable state neither the packet with the input nor the worker that handles the answer forgets the battle of the room or submits a score, whatever the answer says.  Only a later finish request of a player may still do so.\<close>

theorem announced_end_not_settled:
  assumes "gv_workers env = None"
    and "parse_battle_input_command_body (gc_body cmd) = Some inp" "\<not> pi_is_finish_request inp"
  shows "settlement_view (snd (gw_battle_input env cmd (run_messages (runtime_step env) evs (new_gateway_runtime b)))) =
      settlement_view (run_messages (runtime_step env) evs (new_gateway_runtime b)) \<and>
    settlement_view (snd (worker_step env (run_messages (runtime_step env) evs (new_gateway_runtime b)))) =
      settlement_view (run_messages (runtime_step env) evs (new_gateway_runtime b))"
proof -
  have "battles_named env (run_messages (runtime_step env) evs (new_gateway_runtime b))"
    by (rule battles.run_keeps) (simp add: battles_named_def new_gateway_runtime_def)
  then show ?thesis using input_keeps_view [OF _ assms] worker_keeps_view by blast
qed

definition sample_move :: gateway_command where
  "sample_move = \<lparr>gc_session_id = 1, gc_type = CmdBattleInput, gc_message_id = kBattleInputRequest, gc_request_id = 4, gc_flags = 0, gc_body = ''up''\<rparr>"

lemma sample_input_parsed: "parse_battle_input_command_body (gc_body sample_move) =
    Some \<lparr>pi_is_finish_request = False, pi_finish_reason = FinFinished, pi_score = 0, pi_input_data = ''up''\<rparr>"
  by (simp add: sample_move_def parse_battle_input_command_body_def parse_battle_finish_request_def starts_with_def Let_def)

text \<open>The worker of the witness passes the end of the battle on to the session in the room, which stays in the battle.\<close>

definition sample_waiting :: "runtime_event list" where
  "sample_waiting = sample_started @ [sample_packet kBattleInputRequest 4 ''up'']"

theorem requests_answered_once_witness:
  "written 1 4 (run_messages (runtime_step sample_env) [WorkerRuns] (run_messages (runtime_step sample_env) sample_waiting (new_gateway_runtime ()))) = 1"
proof -
  let ?s = "run_messages (runtime_step sample_env) sample_waiting (new_gateway_runtime ())"
  note unfolds = sample_waiting_def sample_started_def sample_packet_def new_gateway_runtime_def empty_lookup_def gw_login_def sample_eval sample_answer_def
    gw_room_create_def gw_battle_start_def gw_battle_input_def enable_offload_def read_uint32_override_def completes_def asks_def
    worker_step_def run_route_task_def route_battle_input_def task_command_def offloaded_push_def get_uint64_def
  have one: "worker_runs ?s = [WorkerRuns]" by (simp add: worker_runs_def unfolds)
  have "workers_complete sample_env (sample_waiting @ [WorkerRuns]) (new_gateway_runtime ())" by (simp add: unfolds)
  moreover have "handled sample_env 1 4 sample_waiting (new_gateway_runtime ()) = 1" by (simp add: unfolds)
  moreover have "received 1 4 sample_waiting = 1" by (simp add: received_def sample_waiting_def sample_started_def sample_packet_def asks_def)
  ultimately show ?thesis using requests_answered_once [of 4 ?s sample_env sample_waiting "()" _ 1] by (simp add: one)
qed

theorem announced_end_not_settled_witness:
  "settlement_view (snd (gw_battle_input sample_env sample_move (run_messages (runtime_step sample_env) sample_waiting (new_gateway_runtime ())))) =
      settlement_view (run_messages (runtime_step sample_env) sample_waiting (new_gateway_runtime ())) \<and>
    settlement_view (snd (worker_step sample_env (run_messages (runtime_step sample_env) sample_waiting (new_gateway_runtime ())))) =
      settlement_view (run_messages (runtime_step sample_env) sample_waiting (new_gateway_runtime ())) \<and>
    gr_battles (run_messages (runtime_step sample_env) sample_waiting (new_gateway_runtime ())) = {''r''} \<and>
    map ce_message_id (gr_out (snd (worker_step sample_env (run_messages (runtime_step sample_env) sample_waiting (new_gateway_runtime ()))))) =
      [kLoginResponse, kRoomCreateResponse, kBattleStartResponse, kBattleInputResponse, kBattleStatePush]"
proof (intro conjI)
  note unfolds = sample_waiting_def sample_started_def sample_packet_def new_gateway_runtime_def empty_lookup_def gw_login_def sample_eval sample_answer_def
    gw_room_create_def gw_battle_start_def gw_battle_input_def enable_offload_def read_uint32_override_def
  show "gr_battles (run_messages (runtime_step sample_env) sample_waiting (new_gateway_runtime ())) = {''r''}"
    by (simp add: unfolds)
  show "map ce_message_id (gr_out (snd (worker_step sample_env (run_messages (runtime_step sample_env) sample_waiting (new_gateway_runtime ()))))) =
      [kLoginResponse, kRoomCreateResponse, kBattleStartResponse, kBattleInputResponse, kBattleStatePush]"
    by (simp add: unfolds worker_step_def run_route_task_def route_battle_input_def task_command_def offloaded_push_def get_uint64_def)
qed (use announced_end_not_settled [of sample_env sample_move _ sample_waiting "()"] in \<open>simp_all add: sample_numbers sample_input_parsed\<close>)


subsection \<open>Sessions without a user\<close>

text \<open>C37: The old session of a user who logs in again is told and loses its user, but stays in its room, so that it goes on getting the pushes of the room; when it closes, the room service is not asked to let the user leave; and the new session is not put into the room.\<close>

theorem kicked_session_stays_in_room:
  assumes "session_for_user user_id (gr_lookup s) = Some old" "old \<noteq> gc_session_id cmd"
    and "value_or get_bool resp ''is_duplicate'' False = Inr True" "value_or get_string resp ''role'' ''player'' = Inr r"
  shows "user_id_for old (gr_lookup (snd (login_accepted cmd user_id resp s))) = [] \<and>
    sessions_in_room room (gr_lookup (snd (login_accepted cmd user_id resp s))) = sessions_in_room room (gr_lookup s) \<and>
    room_id_for (gc_session_id cmd) (gr_lookup (snd (login_accepted cmd user_id resp s))) = room_id_for (gc_session_id cmd) (gr_lookup s) \<and>
    gr_calls (snd (on_session_closed env old (snd (login_accepted cmd user_id resp s)))) = gr_calls s"
proof -
  let ?s = "snd (login_accepted cmd user_id resp s)"
  have l: "gr_lookup ?s = set_session_user (gc_session_id cmd) user_id (erase_session_user old (gr_lookup s))" and c: "gr_calls ?s = gr_calls s"
    using assms by (simp_all add: login_accepted_def set_session_role_def gw_kick_old_session_def on_lookup_def gw_emit_def respond_def)
  have u: "user_id_for old (gr_lookup ?s) = []" using assms(2) by (simp add: l)
  have "gr_calls (snd (on_session_closed env old ?s)) = gr_calls s" using u c by (simp add: on_session_closed_def on_lookup_def Let_def)
  with u show ?thesis by (simp add: l sessions_in_room_def room_id_for_def set_session_user_def erase_session_user_def)
qed

definition sample_other_login :: gateway_command where
  "sample_other_login = \<lparr>gc_session_id = 2, gc_type = CmdLogin, gc_message_id = kLoginRequest, gc_request_id = 1, gc_flags = 0, gc_body = ''u|t''\<rparr>"

definition sample_room :: "unit gateway_runtime" where
  "sample_room = on_lookup (set_session_room 1 ''r'' \<circ> set_session_user 1 ''u'') (new_gateway_runtime ())"

theorem kicked_session_stays_in_room_witness:
  "user_id_for 1 (gr_lookup (snd (login_accepted sample_other_login ''u'' (JObject [(''is_duplicate'', JBool True)]) sample_room))) = [] \<and>
   sessions_in_room ''r'' (gr_lookup (snd (login_accepted sample_other_login ''u'' (JObject [(''is_duplicate'', JBool True)]) sample_room))) = [1] \<and>
   room_id_for 2 (gr_lookup (snd (login_accepted sample_other_login ''u'' (JObject [(''is_duplicate'', JBool True)]) sample_room))) = [] \<and>
   gr_calls (snd (on_session_closed sample_env 1 (snd (login_accepted sample_other_login ''u'' (JObject [(''is_duplicate'', JBool True)]) sample_room)))) = []"
  using kicked_session_stays_in_room [of "''u''" sample_room 1 sample_other_login "JObject [(''is_duplicate'', JBool True)]" "''player''" "''r''" sample_env]
  by (simp add: sample_room_def sample_other_login_def new_gateway_runtime_def empty_lookup_def on_lookup_def session_for_user_def set_session_room_def
      set_session_user_def erase_session_room_def sessions_in_room_def room_id_for_def value_or_def json_find_def is_object_def get_bool_def)

text \<open>A session without a logged-in user reaches a backend only by a login or a registration: any other packet of it is answered without a request to a backend and without a change of the sessions, roles or battles.\<close>

theorem login_before_requests:
  assumes "user_id_for (ce_session_id e) (gr_lookup s) = []" "ce_message_id e \<notin> {kLoginRequest, kRegisterRequest}"
  shows "\<exists>w. snd (gateway_on_message env limit e s) = s\<lparr>gr_out := gr_out s @ [w]\<rparr> \<and> ce_session_id w = ce_session_id e \<and> ce_request_id w = ce_request_id e"
proof -
  have "gc_type cmd = CmdHeartbeat \<or> gc_type cmd = CmdEcho" if "to_command e = Some cmd" "is_public_message (ce_message_id e)" for cmd
  proof -
    have "ce_message_id e = 1 \<or> ce_message_id e = 1001" using assms(2) that(2) by (auto simp: is_public_message_def message_numbers)
    then show ?thesis using that(1) by (auto simp: to_command_def command_types_def message_numbers)
  qed
  moreover have "emit_response e m c b s \<in> range (\<lambda>(m, c, b). emit_response e m c b s)" for m c b
    by (rule image_eqI [where x = "(m, c, b)"]) simp_all
  ultimately have "snd (gateway_on_message env limit e s) \<in> range (\<lambda>(m, c, b). emit_response e m c b s)"
    using assms(1) by (cases limit; cases "to_command e") (auto simp: gateway_on_message_def emit_error_def)
  then show ?thesis by (auto simp: emit_response_def)
qed

theorem login_before_requests_witness:
  "\<exists>w. snd (gateway_on_message sample_env None \<lparr>ce_session_id = 1, ce_message_id = kRoomListRequest, ce_request_id = 1, ce_error_code = 0, ce_flags = 0, ce_body = []\<rparr>
      (new_gateway_runtime ())) = (new_gateway_runtime ())\<lparr>gr_out := gr_out (new_gateway_runtime ()) @ [w]\<rparr> \<and> ce_session_id w = 1 \<and> ce_request_id w = 1"
  using login_before_requests [of "\<lparr>ce_session_id = 1, ce_message_id = kRoomListRequest, ce_request_id = 1, ce_error_code = 0, ce_flags = 0, ce_body = []\<rparr>"
      "new_gateway_runtime ()" sample_env None]
  by (simp add: new_gateway_runtime_def empty_lookup_def user_id_for_def message_numbers)

end
