(* ===== verification/Match_Flow.thy ===== *)
theory Match_Flow
  imports Gateway_Safety Matchmaking
begin

text \<open>
  What the gateway does with a match that the matchmaking service has found: the messages of
  \<^verbatim>\<open>include/v2/match/match_protocol.h\<close> and \<^verbatim>\<open>Runtime::on_match_found\<close> (\<^verbatim>\<open>src/v2/gateway/runtime.cpp\<close>),
  which makes a room, seats the players, tells them, declares them ready and starts the battle.  As in
  \<^verbatim>\<open>Gateway_Runtime\<close> the runtime is the one with a service bridge, where no room actors exist.  The theory
  shows who is told and seated, that a match is handled once, and that a failed one can be tried again.
\<close>

subsection \<open>Messages about matches\<close>

record match_found_payload =
  mf_match_id :: string
  mf_players :: "(string \<times> int) list"
  mf_mode :: string
  mf_room_id :: string

definition match_found_to_json :: "match_found_payload \<Rightarrow> json" where
  "match_found_to_json p =
     JObject [(''match_id'', JString (mf_match_id p)),
       (''players'', JArray (map (\<lambda>(u, mmr). JObject [(''user_id'', JString u), (''mmr'', JInt mmr)]) (mf_players p))),
       (''mode'', JString (mf_mode p)), (''room_id'', JString (mf_room_id p))]"

fun read_match_players :: "json list \<Rightarrow> (string \<times> int) list read" where
  "read_match_players [] = Inr []"
| "read_match_players (v # vs) =
     and_then (value_or get_string v ''user_id'' []) (\<lambda>u.
     and_then (value_or get_int64 v ''mmr'' 0) (\<lambda>mmr.
     and_then (read_match_players vs) (\<lambda>rest. Inr ((u, mmr) # rest))))"

definition match_found_from_json :: "json \<Rightarrow> match_found_payload read" where
  "match_found_from_json j =
     and_then (value_or get_string j ''match_id'' []) (\<lambda>match_id.
     and_then (value_or get_string j ''mode'' ''1v1'') (\<lambda>mode.
     and_then (value_or get_string j ''room_id'' []) (\<lambda>room_id.
     and_then (case json_find j ''players'' of Some (JArray vs) \<Rightarrow> read_match_players vs | _ \<Rightarrow> Inr []) (\<lambda>players.
       Inr \<lparr>mf_match_id = match_id, mf_players = players, mf_mode = mode, mf_room_id = room_id\<rparr>))))"

record match_to_room_response =
  mt_success :: bool
  mt_room_id :: string
  mt_error_message :: string

definition match_to_room_to_json :: "match_to_room_response \<Rightarrow> json" where
  "match_to_room_to_json p = JObject [(''success'', JBool (mt_success p)), (''room_id'', JString (mt_room_id p)), (''error_message'', JString (mt_error_message p))]"

definition match_to_room_from_json :: "json \<Rightarrow> match_to_room_response read" where
  "match_to_room_from_json j =
     and_then (value_or get_bool j ''success'' False) (\<lambda>success.
     and_then (value_or get_string j ''room_id'' []) (\<lambda>room_id.
     and_then (value_or get_string j ''error_message'' []) (\<lambda>e.
       Inr \<lparr>mt_success = success, mt_room_id = room_id, mt_error_message = e\<rparr>)))"

record match_timeout_payload =
  mo_user_id :: string
  mo_mode :: string
  mo_reason :: string

definition match_timeout_to_json :: "match_timeout_payload \<Rightarrow> json" where
  "match_timeout_to_json p = JObject [(''user_id'', JString (mo_user_id p)), (''mode'', JString (mo_mode p)), (''reason'', JString (mo_reason p))]"

definition match_timeout_from_json :: "json \<Rightarrow> match_timeout_payload read" where
  "match_timeout_from_json j =
     and_then (value_or get_string j ''user_id'' []) (\<lambda>u.
     and_then (value_or get_string j ''mode'' ''1v1'') (\<lambda>mode.
     and_then (value_or get_string j ''reason'' ''timeout'') (\<lambda>reason.
       Inr \<lparr>mo_user_id = u, mo_mode = mode, mo_reason = reason\<rparr>)))"

subsection \<open>From a match to a battle\<close>

definition match_found_payload_of :: "match_result \<Rightarrow> string \<Rightarrow> match_found_payload" where
  "match_found_payload_of r room_id =
     \<lparr>mf_match_id = mr_match_id r, mf_players = map (\<lambda>pid. (pid, mr_avg_mmr r)) (mr_player_ids r), mf_mode = mode_text (mr_mode r), mf_room_id = room_id\<rparr>"

definition send_match_found_pushes :: "'b gateway_env \<Rightarrow> match_result \<Rightarrow> string \<Rightarrow> 'b gateway_runtime \<Rightarrow> 'b outcome" where
  "send_match_found_pushes env r room_id =
     reading Inl (gv_dump env (match_found_to_json (match_found_payload_of r room_id))) (\<lambda>body s.
       (Inr True, fold (\<lambda>pid s. case session_for_user pid (gr_lookup s) of None \<Rightarrow> s | Some sid \<Rightarrow> gw_emit kMatchFoundPush sid 0 KOk body s) (mr_player_ids r) s))"

definition session_to_room :: "string \<Rightarrow> string \<Rightarrow> 'b gateway_runtime \<Rightarrow> 'b gateway_runtime" where
  "session_to_room room_id pid s =
     (case session_for_user pid (gr_lookup s) of None \<Rightarrow> s | Some sid \<Rightarrow> on_lookup (set_session_room sid room_id) s)"

definition ask_room :: "'b gateway_env \<Rightarrow> string \<Rightarrow> (string \<times> json) list \<Rightarrow> 'b gateway_runtime \<Rightarrow> 'b outcome" where
  "ask_room env ty doc =
     reading Inl (gv_dump env (JObject doc)) (\<lambda>payload s. (Inr True, snd (call_backend env SvcRoom ty payload [] s)))"

text \<open>The room of the match, or the empty text when it could not be made.\<close>

definition create_room_from_match :: "'b gateway_env \<Rightarrow> match_result \<Rightarrow> 'b gateway_runtime \<Rightarrow> string read \<times> 'b gateway_runtime" where
  "create_room_from_match env r s =
     (let room_id = ''room_'' @ mr_match_id r
      in if mr_player_ids r = [] then (Inr [], s)
         else reading Inl (gv_dump env (JObject (user_room_doc (hd (mr_player_ids r)) room_id))) (\<lambda>payload s.
                let (res, s1) = call_backend env SvcRoom ''room_create'' payload [] s
                in if \<not> rr_success res then (Inr [], s1)
                   else case each_in_turn (\<lambda>pid. ask_room env ''room_join'' (user_room_doc pid room_id)) (tl (mr_player_ids r))
                               (fold (session_to_room room_id) (mr_player_ids r) s1) of
                       (Inl e, s2) \<Rightarrow> (Inl e, s2)
                     | (Inr _, s2) \<Rightarrow> (Inr room_id, s2)) s)"

definition ready_all_players :: "'b gateway_env \<Rightarrow> match_result \<Rightarrow> string \<Rightarrow> 'b gateway_runtime \<Rightarrow> 'b outcome" where
  "ready_all_players env r room_id =
     each_in_turn (\<lambda>pid. ask_room env ''room_ready'' (user_room_doc pid room_id @ [(''ready'', JBool True)])) (mr_player_ids r)"

definition start_battle_for_room :: "'b gateway_env \<Rightarrow> string \<Rightarrow> string \<Rightarrow> 'b gateway_runtime \<Rightarrow> 'b outcome" where
  "start_battle_for_room env room_id user_id s =
     reading Inl (gv_dump env (JObject (user_room_doc user_id room_id))) (\<lambda>payload s.
      let (r, s1) = call_backend env SvcRoom ''room_start_battle'' payload [] s;
          left = (\<lambda>s. (Inr False, s))
      in if \<not> rr_success r then left s1
         else case gv_parse env (rr_payload r) of
             None \<Rightarrow> left s1
           | Some resp \<Rightarrow>
              reading Inl (value_or get_string resp ''status'' []) (\<lambda>status.
                if status \<noteq> ''ok'' then left
                else case json_find resp ''forward'' of
                   None \<Rightarrow> left
                 | Some fwd \<Rightarrow>
                    reading Inl (value_or get_string fwd ''target'' []) (\<lambda>target.
                    reading Inl (value_or get_string fwd ''message_type'' []) (\<lambda>ty.
                    reading Inl (case json_find fwd ''payload'' of None \<Rightarrow> Inr [] | Some v \<Rightarrow> gv_dump env v) (\<lambda>payload s.
                      (if target = ''battle'' \<and> payload \<noteq> []
                          then (let (b, s2) = call_backend env SvcBattle ty payload [] s
                                in if \<not> rr_success b then left s2
                                   else case gv_parse env (rr_payload b) of
                                       None \<Rightarrow> left s2
                                     | Some bresp \<Rightarrow>
                                        reading Inl (value_or get_string bresp ''status'' []) (\<lambda>status.
                                          if status \<noteq> ''ok'' then left
                                          else reading Inl (value_or get_string bresp ''battle_id'' []) (\<lambda>battle_id s.
                                                 (Inr True, track_battle room_id battle_id s))) s2)
                          else left s))))) s1) s"

text \<open>A match that throws stays marked as processed.\<close>

definition on_match_found :: "'b gateway_env \<Rightarrow> match_result \<Rightarrow> 'b gateway_runtime \<Rightarrow> 'b outcome" where
  "on_match_found env r s =
     (if mr_match_id r \<in> gr_processed_matches s then (Inr False, s)
      else case create_room_from_match env r (s\<lparr>gr_processed_matches := insert (mr_match_id r) (gr_processed_matches s)\<rparr>) of
          (Inl e, s1) \<Rightarrow> (Inl e, s1)
        | (Inr room_id, s1) \<Rightarrow>
           if room_id = [] then (Inr False, s1\<lparr>gr_processed_matches := gr_processed_matches s1 - {mr_match_id r}\<rparr>)
           else case send_match_found_pushes env r room_id s1 of
               (Inl e, s2) \<Rightarrow> (Inl e, s2)
             | (Inr _, s2) \<Rightarrow>
                case ready_all_players env r room_id s2 of
                  (Inl e, s3) \<Rightarrow> (Inl e, s3)
                | (Inr _, s3) \<Rightarrow> start_battle_for_room env room_id (hd (mr_player_ids r)) s3)"

subsection \<open>Players of a match\<close>

definition match_view :: "'b gateway_runtime \<Rightarrow> session_lookup \<times> client_envelope list \<times> string set" where
  "match_view s = (gr_lookup s, gr_out s, gr_processed_matches s)"

lemma match_view_call [simp]: "match_view (snd (call_backend env svc ty p k s)) = match_view s"
  by (simp add: match_view_def call_backend_def split: prod.splits)

lemma match_view_ask: "match_view (snd (ask_room env ty doc s)) = match_view s"
  by (cases "gv_dump env (JObject doc)") (simp_all add: ask_room_def)

lemma match_view_asks: "match_view (snd (each_in_turn (\<lambda>pid. ask_room env ty (doc pid)) pids s)) = match_view s"
proof (induction pids arbitrary: s)
  case (Cons pid pids)
  then show ?case using match_view_ask [of env ty "doc pid" s] by (auto split: prod.splits sum.splits)
qed simp

lemma match_view_pair: "call_backend env svc ty p k s = (r, s1) \<Longrightarrow> match_view s1 = match_view s"
  using match_view_call [of env svc ty p k s] by simp

lemma match_view_then:
  assumes "\<And>r s1. match_view s1 = match_view s \<Longrightarrow> match_view (snd (k r s1)) = match_view s"
  shows "match_view (snd (case call_backend env svc ty p key s of (r, s1) \<Rightarrow> k r s1)) = match_view s"
  using assms match_view_call [of env svc ty p key s] by (cases "call_backend env svc ty p key s") simp

lemma match_view_reading:
  assumes "match_view s = v" "\<And>x. match_view (snd (k x s)) = v"
  shows "match_view (snd (reading Inl r k s)) = v"
  using assms by (cases r) simp_all

lemma match_view_track [simp]: "match_view (track_battle room b s) = match_view s"
  by (simp add: track_battle_def match_view_def)

lemma match_view_start: "match_view (snd (start_battle_for_room env room u s)) = match_view s"
proof -
  have "match_view (snd (let (b, s2) = call_backend env SvcBattle ty payload [] s1 in
      if \<not> rr_success b then (Inr False, s2)
      else case gv_parse env (rr_payload b) of
          None \<Rightarrow> (Inr False, s2)
        | Some bresp \<Rightarrow>
           reading Inl (value_or get_string bresp ''status'' []) (\<lambda>status.
             if status \<noteq> ''ok'' then (\<lambda>s. (Inr False, s))
             else reading Inl (value_or get_string bresp ''battle_id'' []) (\<lambda>battle_id s. (Inr True, track_battle room battle_id s))) s2)) = match_view s1"
    for ty payload and s1 :: "'a gateway_runtime"
    unfolding Let_def by (rule match_view_then) (auto intro!: match_view_reading split: option.splits)
  note created = this [unfolded Let_def]
  show ?thesis
    unfolding start_battle_for_room_def Let_def
    by (intro match_view_reading match_view_then) (auto intro!: match_view_reading simp: created split: option.splits)
qed

lemma users_after_room [simp]: "session_for_user u (set_session_room sid room l) = session_for_user u l"
  by (auto simp: session_for_user_def set_session_room_def erase_session_room_def Let_def split: option.splits)

lemma rooms_after_set: "map_of (lk_session_rooms (set_session_room sid room l)) x = (if x = sid then Some room else map_of (lk_session_rooms l) x)"
  by (auto simp: set_session_room_def Let_def update_conv' rooms_after_erase)

lemma seats:
  "session_for_user u (gr_lookup (fold (session_to_room room) pids s)) = session_for_user u (gr_lookup s)"
  "map_of (lk_session_rooms (gr_lookup (fold (session_to_room room) pids s))) sid =
     (if \<exists>pid \<in> set pids. session_for_user pid (gr_lookup s) = Some sid then Some room else map_of (lk_session_rooms (gr_lookup s)) sid)"
  "gr_out (fold (session_to_room room) pids s) = gr_out s" "gr_processed_matches (fold (session_to_room room) pids s) = gr_processed_matches s"
  by (induction pids arbitrary: s) (auto simp: session_to_room_def on_lookup_def rooms_after_set split: option.splits)

lemma match_pushes:
  assumes "gv_dump env (match_found_to_json (match_found_payload_of r room)) = Inr body"
  shows "fst (send_match_found_pushes env r room s) = Inr True" "match_view (snd (send_match_found_pushes env r room s)) =
     (gr_lookup s, gr_out s @ map (\<lambda>sid. \<lparr>ce_session_id = sid, ce_message_id = kMatchFoundPush, ce_request_id = 0, ce_error_code = error_value KOk, ce_flags = 0,
          ce_body = body\<rparr>)
        (List.map_filter (\<lambda>pid. session_for_user pid (gr_lookup s)) (mr_player_ids r)), gr_processed_matches s)"
proof -
  have "match_view (fold (\<lambda>pid s. case session_for_user pid (gr_lookup s) of None \<Rightarrow> s | Some sid \<Rightarrow> gw_emit m sid 0 KOk body s) pids s) =
     (gr_lookup s, gr_out s @ map (\<lambda>sid. \<lparr>ce_session_id = sid, ce_message_id = m, ce_request_id = 0, ce_error_code = error_value KOk, ce_flags = 0, ce_body = body\<rparr>)
        (List.map_filter (\<lambda>pid. session_for_user pid (gr_lookup s)) pids), gr_processed_matches s)" for m body pids and s :: "'a gateway_runtime"
    by (induction pids arbitrary: s) (auto simp: match_view_def gw_emit_def List.map_filter_simps split: option.splits)
  then show "fst (send_match_found_pushes env r room s) = Inr True" "match_view (snd (send_match_found_pushes env r room s)) =
     (gr_lookup s, gr_out s @ map (\<lambda>sid. \<lparr>ce_session_id = sid, ce_message_id = kMatchFoundPush, ce_request_id = 0, ce_error_code = error_value KOk, ce_flags = 0,
          ce_body = body\<rparr>)
        (List.map_filter (\<lambda>pid. session_for_user pid (gr_lookup s)) (mr_player_ids r)), gr_processed_matches s)"
    by (simp_all add: send_match_found_pushes_def assms)
qed

lemma view_fields: "match_view s' = match_view s \<Longrightarrow> gr_lookup s' = gr_lookup s \<and> gr_out s' = gr_out s \<and> gr_processed_matches s' = gr_processed_matches s"
  by (simp add: match_view_def)

text \<open>A room that was made: its name, and what the tables are then.\<close>

lemma room_made:
  assumes "create_room_from_match env r s = (Inr room, s1)" "room \<noteq> []"
  shows "room = ''room_'' @ mr_match_id r \<and> gr_out s1 = gr_out s \<and> gr_processed_matches s1 = gr_processed_matches s \<and>
    session_for_user u (gr_lookup s1) = session_for_user u (gr_lookup s) \<and>
    map_of (lk_session_rooms (gr_lookup s1)) sid =
      (if \<exists>pid \<in> set (mr_player_ids r). session_for_user pid (gr_lookup s) = Some sid then Some room else map_of (lk_session_rooms (gr_lookup s)) sid)"
proof -
  let ?room = "''room_'' @ mr_match_id r"
  obtain doc where dump: "gv_dump env (JObject (user_room_doc (hd (mr_player_ids r)) ?room)) = Inr doc"
    using assms by (cases "gv_dump env (JObject (user_room_doc (hd (mr_player_ids r)) ?room))") (auto simp: create_room_from_match_def Let_def split: if_splits)
  obtain res s0 where call: "call_backend env SvcRoom ''room_create'' doc [] s = (res, s0)" by fastforce
  have s0: "match_view s0 = match_view s" using call by (rule match_view_pair)
  let ?joins = "each_in_turn (\<lambda>pid. ask_room env ''room_join'' (user_room_doc pid ?room)) (tl (mr_player_ids r)) (fold (session_to_room ?room) (mr_player_ids r) s0)"
  have name: "room = ?room" and s1: "s1 = snd ?joins"
    using assms dump call by (auto simp: create_room_from_match_def Let_def split: if_splits prod.splits sum.splits)
  have "match_view s1 = match_view (fold (session_to_room room) (mr_player_ids r) s0)" unfolding s1 name by (rule match_view_asks)
  then show ?thesis using name view_fields [OF s0] seats [where s = s0 and room = room and pids = "mr_player_ids r"] by (simp add: match_view_def)
qed

lemma room_not_made:
  assumes "create_room_from_match env r s = (Inr [], s1)"
  shows "match_view s1 = match_view s"
  using assms by (auto simp: create_room_from_match_def Let_def reading_def split: if_splits prod.splits sum.splits dest: match_view_pair)

text \<open>The tables after a match for which a room was made.\<close>

lemma match_found_view:
  assumes "mr_match_id r \<notin> gr_processed_matches s"
    and "create_room_from_match env r (s\<lparr>gr_processed_matches := insert (mr_match_id r) (gr_processed_matches s)\<rparr>) = (Inr room, s1)" "room \<noteq> []"
  shows "match_view (snd (on_match_found env r s)) = match_view (snd (send_match_found_pushes env r room s1))"
proof -
  have "match_view (snd (ready_all_players env r room s2)) = match_view s2" for s2 unfolding ready_all_players_def by (rule match_view_asks)
  then have "match_view s3 = match_view s2" if "ready_all_players env r room s2 = (x, s3)" for s2 s3 x using that by (metis snd_conv)
  then show ?thesis
    using assms by (auto simp: on_match_found_def match_view_start split: prod.splits sum.splits)
qed

text \<open>C39: When the room service makes the room of a new match and the message about the match can be printed, every player of the match who has a session is put into the room, and exactly these sessions are told of the match, in the order of the players, and nothing else is written.\<close>

theorem match_players_seated_and_told:
  assumes "mr_match_id r \<notin> gr_processed_matches s"
    and "create_room_from_match env r (s\<lparr>gr_processed_matches := insert (mr_match_id r) (gr_processed_matches s)\<rparr>) = (Inr room, s1)" "room \<noteq> []"
    and "gv_dump env (match_found_to_json (match_found_payload_of r room)) = Inr body"
    and "pid \<in> set (mr_player_ids r)" "session_for_user pid (gr_lookup s) = Some sid"
  shows "room_id_for sid (gr_lookup (snd (on_match_found env r s))) = ''room_'' @ mr_match_id r \<and>
    map ce_session_id (drop (length (gr_out s)) (gr_out (snd (on_match_found env r s)))) =
      List.map_filter (\<lambda>pid. session_for_user pid (gr_lookup s)) (mr_player_ids r)"
proof -
  note made = room_made [OF assms(2,3)]
  have v: "gr_lookup (snd (on_match_found env r s)) = gr_lookup s1" "gr_out (snd (on_match_found env r s)) = gr_out s @
      map (\<lambda>sid. \<lparr>ce_session_id = sid, ce_message_id = kMatchFoundPush, ce_request_id = 0, ce_error_code = error_value KOk, ce_flags = 0,
          ce_body = body\<rparr>) (List.map_filter (\<lambda>pid. session_for_user pid (gr_lookup s)) (mr_player_ids r))"
    using match_found_view [OF assms(1-3)] made unfolding match_pushes(2) [OF assms(4)] by (simp_all add: match_view_def)
  show ?thesis
    using made [of _ sid] assms(5,6) by (auto simp: v room_id_for_def comp_def)
qed

interpretation processed: runtime_property env "\<lambda>s. m \<in> gr_processed_matches s" for env :: "'b gateway_env" and m
  by unfold_locales
    (auto simp: gw_emit_def emit_response_def on_lookup_def call_backend_def submit_score_def track_battle_def forget_battle_def enable_offload_def Let_def
      reading_def split: prod.splits sum.splits)

text \<open>A match for which a room was made is handled once: whatever happens in between, announcing it again changes nothing.\<close>

theorem match_handled_once:
  assumes "mr_match_id r \<notin> gr_processed_matches s"
    and "create_room_from_match env r (s\<lparr>gr_processed_matches := insert (mr_match_id r) (gr_processed_matches s)\<rparr>) = (Inr room, s1)" "room \<noteq> []"
    and "mr_match_id r' = mr_match_id r"
  shows "on_match_found env r' (run_messages (runtime_step env) evs (snd (on_match_found env r s))) =
    (Inr False, run_messages (runtime_step env) evs (snd (on_match_found env r s)))"
proof -
  have "mr_match_id r \<in> gr_processed_matches (snd (on_match_found env r s))"
    using match_found_view [OF assms(1-3)] room_made [OF assms(2,3)]
    by (cases "gv_dump env (match_found_to_json (match_found_payload_of r room))")
      (simp_all add: match_pushes(2), simp_all add: match_view_def send_match_found_pushes_def)
  then have "mr_match_id r \<in> gr_processed_matches (run_messages (runtime_step env) evs (snd (on_match_found env r s)))" by (rule processed.run_keeps)
  then show ?thesis by (simp add: on_match_found_def assms(4))
qed

text \<open>A match whose room could not be made leaves no trace in the tables, so that it can be announced again.\<close>

lemma failed_match_can_be_retried:
  assumes "mr_match_id r \<notin> gr_processed_matches s"
    and "create_room_from_match env r (s\<lparr>gr_processed_matches := insert (mr_match_id r) (gr_processed_matches s)\<rparr>) = (Inr [], s1)"
  shows "match_view (snd (on_match_found env r s)) = match_view s"
  using room_not_made [OF assms(2)] assms by (auto simp: on_match_found_def match_view_def)

definition sample_match :: match_result where
  "sample_match = \<lparr>mr_match_id = ''m'', mr_mode = K1v1, mr_player_ids = [''u'', ''w''], mr_avg_mmr = 1000\<rparr>"

lemma sample_room_made: "\<exists>s1. create_room_from_match sample_env sample_match
    (sample_room\<lparr>gr_processed_matches := insert (mr_match_id sample_match) (gr_processed_matches sample_room)\<rparr>) = (Inr ''room_m'', s1)"
  by (simp add: create_room_from_match_def ask_room_def sample_match_def call_backend_def sample_round_trip sample_route Let_def)

lemma sample_match_new: "mr_match_id sample_match \<notin> gr_processed_matches sample_room" "session_for_user ''u'' (gr_lookup sample_room) = Some 1"
  "session_for_user ''w'' (gr_lookup sample_room) = None"
  by (simp_all add: sample_room_def on_lookup_def new_gateway_runtime_def empty_lookup_def session_for_user_def set_session_room_def erase_session_room_def
      set_session_user_def Let_def sample_match_def)

theorem match_players_seated_and_told_witness:
  "room_id_for 1 (gr_lookup (snd (on_match_found sample_env sample_match sample_room))) = ''room_m'' \<and>
   map ce_session_id (drop (length (gr_out sample_room)) (gr_out (snd (on_match_found sample_env sample_match sample_room)))) = [1]"
proof -
  obtain s1 where "create_room_from_match sample_env sample_match
      (sample_room\<lparr>gr_processed_matches := insert (mr_match_id sample_match) (gr_processed_matches sample_room)\<rparr>) = (Inr ''room_m'', s1)"
    using sample_room_made by blast
  from match_players_seated_and_told [OF sample_match_new(1) this _ sample_round_trip(1) _ sample_match_new(2)] show ?thesis
    by (simp add: sample_match_def sample_match_new List.map_filter_simps)
qed

theorem match_handled_once_witness:
  "on_match_found sample_env sample_match (run_messages (runtime_step sample_env) [WorkerRuns] (snd (on_match_found sample_env sample_match sample_room))) =
    (Inr False, run_messages (runtime_step sample_env) [WorkerRuns] (snd (on_match_found sample_env sample_match sample_room)))"
proof -
  obtain s1 where "create_room_from_match sample_env sample_match
      (sample_room\<lparr>gr_processed_matches := insert (mr_match_id sample_match) (gr_processed_matches sample_room)\<rparr>) = (Inr ''room_m'', s1)"
    using sample_room_made by blast
  from match_handled_once [OF sample_match_new(1) this _ refl, of "[WorkerRuns]"] show ?thesis by simp
qed

subsection \<open>Messages read back\<close>

lemma to_int64_in_range: "- (2 ^ 63) \<le> i \<Longrightarrow> i < 2 ^ 63 \<Longrightarrow> wrap_int64 i = i"
  by (simp add: wrap_int64_def)

lemma match_players_read_back:
  assumes "\<And>u i. (u, i) \<in> set ps \<Longrightarrow> - (2 ^ 63) \<le> i \<and> i < 2 ^ 63"
  shows "read_match_players (map (\<lambda>(u, mmr). JObject [(''user_id'', JString u), (''mmr'', JInt mmr)]) ps) = Inr ps"
  using assms
proof (induction ps)
  case (Cons p ps)
  obtain u i where p: "p = (u, i)" by fastforce
  have "wrap_int64 i = i" using Cons.prems [of u i] p by (simp add: to_int64_in_range)
  moreover have "read_match_players (map (\<lambda>(u, mmr). JObject [(''user_id'', JString u), (''mmr'', JInt mmr)]) ps) = Inr ps"
    using Cons.IH Cons.prems by (meson list.set_intros(2))
  ultimately show ?case by (simp add: p value_or_def json_find_def is_object_def get_string_def get_int64_def)
qed simp

text \<open>The messages about matches are read back as they were written.\<close>

theorem match_messages_read_back:
  assumes "\<And>u i. (u, i) \<in> set (mf_players p) \<Longrightarrow> - (2 ^ 63) \<le> i \<and> i < 2 ^ 63"
  shows "match_found_from_json (match_found_to_json p) = Inr p \<and> match_to_room_from_json (match_to_room_to_json q) = Inr q \<and>
    match_timeout_from_json (match_timeout_to_json t) = Inr t"
  using match_players_read_back [OF assms]
  by (simp add: match_found_from_json_def match_found_to_json_def match_to_room_from_json_def match_to_room_to_json_def match_timeout_from_json_def
      match_timeout_to_json_def value_or_def json_find_def is_object_def get_string_def get_bool_def)

theorem match_messages_read_back_witness:
  "match_found_from_json (match_found_to_json (match_found_payload_of sample_match ''room_m'')) = Inr (match_found_payload_of sample_match ''room_m'') \<and>
   match_to_room_from_json (match_to_room_to_json \<lparr>mt_success = True, mt_room_id = ''r'', mt_error_message = []\<rparr>) =
     Inr \<lparr>mt_success = True, mt_room_id = ''r'', mt_error_message = []\<rparr> \<and>
   match_timeout_from_json (match_timeout_to_json \<lparr>mo_user_id = ''u'', mo_mode = ''1v1'', mo_reason = ''timeout''\<rparr>) =
     Inr \<lparr>mo_user_id = ''u'', mo_mode = ''1v1'', mo_reason = ''timeout''\<rparr>"
  by (rule match_messages_read_back) (auto simp: match_found_payload_of_def sample_match_def)

end
