(* ===== verification/Spec2Isabelle.thy ===== *)
theory Spec2Isabelle
  imports
    Raft_Cluster
    Raft_Log
    Consistent_Hash
    Cluster_Router
    Service_Bridge
    Envelope_Codec
    Lru_Cache
    Write_Behind
    Write_Behind_Engine
    Instance_Runtime
    Battle_Plugin
    Leaderboard
    Matchmaking
    Game_Play
    Login_Backend
    Room_Backend
    Battle_Backend
    Room_Actor
    Player_Actor
    Match_Flow
    Packet_Codec
begin

text \<open>
  \<^bold>\<open>A verification library for the BoostAsioDemo game backend.\<close>

  \<^bold>\<open>The program.\<close>  Clients talk to a gateway over length-prefixed packets
  (\<^verbatim>\<open>include/net\<close>, \<^verbatim>\<open>src/net\<close>).  The gateway keeps one actor per player and per room
  (\<^verbatim>\<open>src/v2/player\<close>, \<^verbatim>\<open>src/v2/room\<close>) and routes requests to backend services (login, room,
  battle, matchmaking, leaderboard) through \<^verbatim>\<open>GatewayServiceBridge\<close> (\<^verbatim>\<open>src/v2/gateway\<close>), which
  uses a circuit breaker, a service registry, connection pools and counters
  (\<^verbatim>\<open>src/v2/service\<close>).  Battles run inside the realtime instance runtime
  (\<^verbatim>\<open>src/v2/realtime\<close>), which drives game plugins by ticks, or in a battle actor of their own
  (\<^verbatim>\<open>src/v2/battle\<close>); both use the battle world, an entity component system
  (\<^verbatim>\<open>src/v2/ecs\<close>) whose systems a parallel executor runs every frame.  Singleton services replicate their
  commands with a Raft implementation (\<^verbatim>\<open>src/v3/cluster\<close>); beside it stand a router that finds the
  nodes of the cluster, the transport of actor messages between them and a hash ring that places
  rooms and battles.  Results of battles are stored behind queues with a worker thread
  (\<^verbatim>\<open>src/v2/data\<close>, \<^verbatim>\<open>src/v2/persistence\<close>).  The older gateway
  (\<^verbatim>\<open>src/game\<close>) is still built beside it: it keeps sessions, rooms and battles in three managers
  and handles the packets of its clients itself.

  \<^bold>\<open>Theories and what they model.\<close>

  \<^item> \<open>Prelude\<close>: machine integers (words, and 32/64-bit counters on the naturals with their
    wrap-around written out), decimal numerals, keyed vectors, quorum intersection, and the
    locales \<open>guarded_actor\<close> and \<open>message_actor\<close>, the contract of everything that is driven by a
    sequence of messages: an invariant kept by one message is kept by every run.  They are
    interpreted for the room, player and battle actors and the instance runtime.

  \<^item> \<open>Raft_Node\<close>: \<^verbatim>\<open>RaftNode\<close> as the record \<open>raft_node\<close>; every mutex-protected region is a
    definition, and \<open>start_election\<close>, \<open>send_heartbeat\<close>, \<open>append_command\<close> are composed from them
    with the network as an argument.  \<open>Raft_Cluster\<close>: the step relation \<open>cluster_step\<close> that
    interleaves these regions on several nodes, with arbitrary AppendEntries traffic, crashes
    and restarts; the locale \<open>vote_keeper\<close> (what calls outside elections leave of the voting
    state) and the locale \<open>quorum_system\<close>; election safety by rule induction over \<open>reachable\<close>.
    \<open>Raft_Log\<close>: the voting rule, the follower's log on every branch, idempotence, ordered
    delivery to the callback along sequences of calls (the regions of one node are the steps of
    \<open>region_step\<close>), the number of replicas behind a commitment in every reachable cluster, catching up, recovery from disk, and the places where the
    code departs from Raft's commitment rule.

  \<^item> \<open>Circuit_Breaker\<close>, \<open>Service_Registry\<close>, \<open>Service_Bridge\<close>: the path from the gateway to a
    backend.  The breaker's contract is the locale \<open>breaker\<close>, the registry refines an abstract
    health map (locale \<open>health_registry\<close>), and the bridge uses both: it fails fast while the
    breaker is open, its counters balance, it hands out only open pooled connections, and it
    uses the pool round-robin.

  \<^item> \<open>Envelope_Codec\<close>: the two envelope formats of requests to the services
    (\<^verbatim>\<open>envelope_codec.h\<close>, \<^verbatim>\<open>backend_envelope.cpp\<close>) and the adapter between them: both are read back as
    they were written, the conversion and back is the identity, and the unnamed request type that the
    adapter accepts.

  \<^item> \<open>Consistent_Hash\<close>: the hash ring and the shard router; a backend that joins takes keys only for
    itself, one that leaves frees only its own, replicas are distinct, and a removal loses positions
    that two nodes share.  \<open>Remote_Actor\<close>: the wire format of actor messages, read back as written
    for text payloads, and the location registry.  \<open>Cluster_Router\<close>: \<^verbatim>\<open>ClusterRouter\<close> with
    its route table: discovery takes turns, a route lists a node once, a node that stops answering
    leaves discovery, and the defects in marking, draining and re-registering nodes.

  \<^item> \<open>Lru_Cache\<close>: the cache over a list with iterators, a refinement of the entries in order of
    use.  \<open>Write_Behind\<close>: \<^verbatim>\<open>WriteBehindDataStore\<close> as a step relation over its producers, worker, flush
    calls and destructor: a flush returns only when everything queued before is written, the
    worker does not sleep while commands wait, and the destructor that can wait for ever.
    \<open>Write_Behind_Engine\<close>: \<^verbatim>\<open>WriteBehindEngine\<close>, its retry delays, the one fate of every accepted push
    with the bound on its runs, and the pushes and retries that never end.

  \<^item> \<open>Instance_Runtime\<close>: \<^verbatim>\<open>InstanceRuntime::Impl\<close> over an arbitrary plugin, whose hooks may change
    the context of the instance: bounded instance table, ordered inputs, exactly one settlement,
    and, for plugins that leave the limits in the context alone (\<open>leaves_limits\<close>; the battle
    plugin is one), bounded queues and termination under a frame limit.

  \<^item> \<open>Ecs_World\<close>: \<^verbatim>\<open>SimpleWorld\<close>, entities and typed component stores; \<open>System_Executor\<close>:
    \<^verbatim>\<open>ParallelSystemExecutor\<close>, Kahn's algorithm for the stages (its loop is a
    \<open>partial_function\<close>, proved to end for every dependency graph), the run of the stages, exceptions of systems included, and the equivalence with
    sequential execution for systems that do not throw, are registered after their dependencies and
    commute where they are independent; \<open>Spatial_Grid\<close>: \<^verbatim>\<open>SpatialGrid\<close> as a refinement of a map from
    entities to coordinates; \<open>Input_Validator\<close>: the anti-cheat check of client input.

  \<^item> \<open>Battle_World\<close>: the components, the eight systems and every \<^verbatim>\<open>battle_world_*\<close> function
    of \<^verbatim>\<open>runtime_world.cpp\<close> and \<^verbatim>\<open>game_systems.cpp\<close>.  \<open>Battle_Invariants\<close>: what one frame
    keeps of the players (field, health, speed limit), for every schedule of the concurrent
    systems.  \<open>Battle_Frame\<close>: the locales \<open>ecs_frame\<close> and \<open>ecs_closed\<close>, predicates that survive
    every write survive every system, interpreted for the metadata and for pending shots; the
    lifecycle counters across a frame.  \<open>Battle_Actor\<close>: \<^verbatim>\<open>BattleActor\<close> with all handlers, the
    one settlement of a battle, the grace timers, and the idle battle that is never settled.

  \<^item> \<open>Battle_Plugin\<close>: \<^verbatim>\<open>BattleInstancePlugin\<close>, the battle world as a plugin of the instance
    runtime, and that an idle battle run this way is settled.

  \<^item> \<open>Leaderboard\<close>: the sorted set of \<^verbatim>\<open>leaderboard_service.cpp\<close>, equivalent to ranking the last
    submitted scores, and the request and Raft paths around it.  \<open>Matchmaking\<close>: queues, matcher and
    commands of \<^verbatim>\<open>matchmaking_service.cpp\<close>; the locale \<open>queue_sort\<close> is what the matcher needs of
    sorting by waiting time; queues without a possible match, fair matches, one match per join
    (all three without replication and for requests that do not overlap), and the matches that are
    announced twice under replication and by overlapping joins.

  \<^item> \<open>Game_Sessions\<close>, \<open>Game_Rooms\<close>, \<open>Game_Battles\<close>: \<^verbatim>\<open>SessionManager\<close>, \<^verbatim>\<open>RoomManager\<close> and
    \<^verbatim>\<open>BattleManager\<close> of the older gateway; the locale \<open>member_walk\<close> is the order in which a member
    table is walked.  \<open>Game_Gateway\<close>: login, room and battle handlers, ingress checks, connection limits and
    \<^verbatim>\<open>MessageDispatcher::dispatch\<close> over the three; \<open>gateway_reachable\<close> are the states after any
    connects, packets and closes, with its invariants on sessions and connections.  \<open>Game_Play\<close>:
    the invariant that ties seats to logged-in users, take-over by a second login, the battle gate,
    and the battle that outlives its room.

  \<^item> \<open>Json_Document\<close>: the JSON values and typed reads the services use, with the exception of a
    read of the wrong type as a value.  \<open>Token_Crypto\<close>, \<open>Jwt_Validator\<close>: SHA-256, HMAC and
    Base64url on words, and the validator of \<^verbatim>\<open>jwt_validator.h\<close>: what an accepted token proves, and
    that issued tokens are accepted.

  \<^item> \<open>Login_Backend\<close>, \<open>Room_Backend\<close>, \<open>Battle_Backend\<close>: the request handlers of the three
    backend services (\<^verbatim>\<open>login_backend_service.cpp\<close>, \<^verbatim>\<open>room_backend_service.cpp\<close>,
    \<^verbatim>\<open>battle_backend_service.cpp\<close>), each from a request document to the reply and the new state.
    Shown are the authenticity of stored tokens, the consistency of the rooms, the removal of idle
    rooms, the pages of the room list, the one owner of an item (locale \<open>battle_property\<close>), and
    the defects in refreshing tokens, in ending battles and in freeing their places.

  \<^item> \<open>Room_Actor\<close>, \<open>Player_Actor\<close>: all message handlers with the events they push; the room's
    owner and start gate, the player's lifecycle, session take-over and reconnect window.

  \<^item> \<open>Protocol\<close>, \<open>Gateway_Text\<close>, \<open>Session_Lookup\<close>, \<open>Gateway_Runtime\<close>, \<open>Gateway_Safety\<close>, \<open>Match_Flow\<close>: the
    gateway in front of the services (\<^verbatim>\<open>src/v2/gateway\<close>): message numbers and error codes, the text
    bodies with their parsers, the tables of sessions, the checks of roles and schemas, every command
    as requests to the services, the worker threads for battle inputs, settlements, and what a found
    match starts.  Every packet whose handler does not throw is answered once, counted over whole
    runs and after the workers have emptied their queue; locale \<open>push_property\<close> and its extension
    \<open>runtime_property\<close> carry a property through all handlers, for the room tables (broadcasts reach
    exactly the room), the scores submitted at most once, and the battles that workers do not settle.

  \<^item> \<open>Packet_Codec\<close>: the packet format, the session's read loop and the backend frames; both
    length headers interpret the locale \<open>length_header\<close>, whose lemmas give the round trips over
    byte streams.

  \<^bold>\<open>Conventions.\<close>  An object is a record, a member function a definition from the old object to
  the result and the new object, an exception or undefined access the value \<open>None\<close>, the current
  time an argument.  A member function that holds the object's mutex throughout is one step; where
  threads wait for each other, each has a program counter, waking a thread is a step of the one
  that notifies, and no thread wakes without being notified.
  Callbacks and event sinks are lists of the events delivered.  No definition uses fuel except
  \<open>catch_up\<close>, whose bound, the follower's next index, is proved sufficient.

  \<^bold>\<open>Assumptions.\<close>  Terms of a Raft node do not reach the largest 64-bit value (the guard of
  the step \<open>elect\<close>); a node's peer list names every cluster member once; a restarted node finds
  the file it wrote last.  A battle world depends on its environment through four parameters
  (record \<open>battle_env\<close>): the visiting order of the hash tables and the order in which the
  concurrent systems of a stage take effect (any permutations), the seeded random numbers (in the
  range of their distributions) and the floating-point interpolation of a projectile in flight.
  Every system takes effect as a whole, and those of the battle world do not throw.  A handler of the older gateway is one step, a
  new connection is a session object not in the table, and \<open>tame\<close> excludes two requests whose
  effect on the rooms is a defect stated on its own.  Signed game arithmetic and the \<^verbatim>\<open>int\<close> battle
  counter of the room service are mathematical.  The JSON text of RPCs, files and envelopes is not modelled: messages
  are records or JSON values, and the functions that parse and print text are parameters, as are
  the RSA signatures of OpenSSL; numbers in JSON documents are integers.  The handlers of a backend service run one after another;
  the matchmaking service has no lock that makes them, and \<open>Matchmaking\<close> ends with what overlapping joins do.
  The entries a Raft node hands to its callback are handed out after the mutex is released; the order of
  delivery is shown for calls that do not overlap.
  To the gateway the services are a function of the request and of a state of their own; a handler
  that throws, on a mistyped answer or on printing a text that is not UTF-8, ends there, with the exception as
  its result.  A packet, a closed session and a task of a worker thread are single steps of the gateway
  (\<open>runtime_step\<close>); the code has no lock that keeps a closing session and the workers apart from each other.

  \<^bold>\<open>Not modelled.\<close>  Sockets, thread pools and timers as such, TLS, gRPC, HTTP, Redis and SQLite
  access, logging, tracing and metrics export: their effect lies in libraries and in the operating
  system.  The path of the gateway runtime without a service bridge, which carries messages between
  the actors modelled here, its demonstration server (\<^verbatim>\<open>demo_server.cpp\<close>), the scheduling of actors, the JSON snapshots of a
  battle, the configuration files, the tank demonstration game with its floating-point geometry,
  the examples, load generators, SDKs and tools.
\<close>

end
